(* ===== verification/Prelude.thy ===== *)
theory Prelude
  imports Main "HOL-Library.AList"
begin

section \<open>Prelude: exceptions, dictionaries and sets of the Python source\<close>

text \<open>
  What every component of the model shares.
  \<^item> Python exceptions are values of type \<open>exn\<close>; a call that may raise has a result of
    type \<open>'a outcome\<close>, and a method that also changes its object has type
    \<open>'s \<Rightarrow> 'a outcome \<times> 's\<close>: the state is kept when the call raises, since Python
    does not undo the assignments made before a raise.
  \<^item> A Python dict is an association list with distinct keys (\<open>dict_ok\<close>). Its list
    order stands for the (unspecified) iteration order of the dict. A Python set is a
    list without repetitions, likewise.
\<close>

named_theorems outcome_simps \<open>rules that compute with outcomes\<close>
named_theorems dict_simps \<open>rules that compute with dictionaries and sets\<close>

subsection \<open>Exceptions and outcomes\<close>

datatype exn =
    AttributeError string
  | KeyError
  | IndexError
  | ValueError
  | TypeError
  | AssertionError
  | IOError
  | EOFError
  | StopIteration
  | NotImplementedError
  | RuntimeError string
  | ProtocolError
  | ArgumentError string
  | NameError string
  | DatabaseError
  | DoesNotExist
  | BadAttribute
  | MissingBlobError
  | CycleError
  | TokenError
  | TokenInvalid
  | TokenExpired
  | AccessDenied
  | MultipleObjectsReturned
  | ArgumentNotFound
  | CannotReturnObject
  | ImportError string
  | InvalidArgument string
  | CannotSetField string
  | CannotDeleteObject
  | ProtectedError
  | UnicodeError
  | LoginFailed
  | InvalidLogin string
  | InvalidPassword string
  | InvalidEmail string
  | AlreadyRegistered
  | ExternalIdentityFailed
  | InvalidExternalIdentity string

datatype 'a outcome = Ok 'a | Raise exn

fun is_ok :: "'a outcome \<Rightarrow> bool" where
  "is_ok (Ok _) = True"
| "is_ok (Raise _) = False"

fun map_ok :: "('a \<Rightarrow> 'b) \<Rightarrow> 'a outcome \<Rightarrow> 'b outcome" where
  "map_ok f (Ok x) = Ok (f x)"
| "map_ok f (Raise e) = Raise e"

fun bind_ok :: "'a outcome \<Rightarrow> ('a \<Rightarrow> 'b outcome) \<Rightarrow> 'b outcome" where
  "bind_ok (Ok x) f = f x"
| "bind_ok (Raise e) f = Raise e"

text \<open>Sequencing of methods: the second one runs only if the first did not raise.\<close>

definition and_then :: "('s \<Rightarrow> 'a outcome \<times> 's) \<Rightarrow> ('a \<Rightarrow> 's \<Rightarrow> 'b outcome \<times> 's) \<Rightarrow> 's \<Rightarrow> 'b outcome \<times> 's" where
  "and_then m f s = (case m s of (Ok x, s') \<Rightarrow> f x s' | (Raise e, s') \<Rightarrow> (Raise e, s'))"

text \<open>A list comprehension whose element expression may raise.\<close>

fun map_outcome :: "('a \<Rightarrow> 'b outcome) \<Rightarrow> 'a list \<Rightarrow> 'b list outcome" where
  "map_outcome f [] = Ok []"
| "map_outcome f (x # xs) = bind_ok (f x) (\<lambda>y. bind_ok (map_outcome f xs) (\<lambda>ys. Ok (y # ys)))"

text \<open>A \<open>for\<close> loop whose body changes a state and may raise.\<close>

fun for_each :: "('a \<Rightarrow> 's \<Rightarrow> unit outcome \<times> 's) \<Rightarrow> 'a list \<Rightarrow> 's \<Rightarrow> unit outcome \<times> 's" where
  "for_each f [] s = (Ok (), s)"
| "for_each f (x # xs) s = (case f x s of (Ok _, s') \<Rightarrow> for_each f xs s' | (Raise e, s') \<Rightarrow> (Raise e, s'))"

lemma is_ok_iff: "is_ok r \<longleftrightarrow> (\<exists>x. r = Ok x)"
  by (cases r) auto

lemma bind_ok_eq_Ok [outcome_simps]: "bind_ok m f = Ok y \<longleftrightarrow> (\<exists>x. m = Ok x \<and> f x = Ok y)"
  by (cases m) auto

lemma bind_ok_eq_Raise: "bind_ok m f = Raise e \<longleftrightarrow> m = Raise e \<or> (\<exists>x. m = Ok x \<and> f x = Raise e)"
  by (cases m) auto

lemma map_ok_eq_Ok [outcome_simps]: "map_ok f m = Ok y \<longleftrightarrow> (\<exists>x. m = Ok x \<and> y = f x)"
  by (cases m) auto

lemma and_then_Ok [outcome_simps]: "m s = (Ok x, s') \<Longrightarrow> and_then m f s = f x s'"
  by (simp add: and_then_def)

lemma and_then_Raise [outcome_simps]: "m s = (Raise e, s') \<Longrightarrow> and_then m f s = (Raise e, s')"
  by (simp add: and_then_def)

lemma bind_ok_cong [fundef_cong]:
  "m = m' \<Longrightarrow> (\<And>x. m' = Ok x \<Longrightarrow> f x = f' x) \<Longrightarrow> bind_ok m f = bind_ok m' f'"
  by (cases m') auto

lemma map_outcome_cong [fundef_cong]:
  "xs = ys \<Longrightarrow> (\<And>x. x \<in> set ys \<Longrightarrow> f x = g x) \<Longrightarrow> map_outcome f xs = map_outcome g ys"
proof (induction xs arbitrary: ys)
  case (Cons x xs)
  then show ?case by (cases "g x") auto
qed simp

lemma map_outcome_Ok:
  "(\<And>x. x \<in> set xs \<Longrightarrow> f x = Ok (g x)) \<Longrightarrow> map_outcome f xs = Ok (map g xs)"
  by (induction xs) auto

lemma map_outcome_eq_Ok:
  "map_outcome f xs = Ok ys \<longleftrightarrow> list_all2 (\<lambda>x y. f x = Ok y) xs ys"
proof (induction xs arbitrary: ys)
  case (Cons x xs)
  then show ?case by (cases ys) (auto simp: outcome_simps)
qed auto

lemma map_outcome_length: "map_outcome f xs = Ok ys \<Longrightarrow> length ys = length xs"
  by (auto simp: map_outcome_eq_Ok dest: list_all2_lengthD)

text \<open>An invariant that the body of a loop keeps, whether it raises or not.\<close>

lemma for_each_invariant:
  assumes "\<And>x s r s'. x \<in> set xs \<Longrightarrow> P s \<Longrightarrow> f x s = (r, s') \<Longrightarrow> P s'"
    and "P s" and "for_each f xs s = (r, s')"
  shows "P s'"
  using assms
proof (induction xs arbitrary: s)
  case (Cons x xs)
  obtain q t where q: "f x s = (q, t)" by (cases "f x s")
  have "P t" using Cons.prems(1) [of x s q t] Cons.prems(2) q by simp
  show ?case
  proof (cases q)
    case (Ok u)
    have "for_each f xs t = (r, s')" using Cons.prems(3) q Ok by simp
    with \<open>P t\<close> Cons.prems(1) show ?thesis by (intro Cons.IH) auto
  next
    case (Raise e)
    with Cons.prems(3) q \<open>P t\<close> show ?thesis by simp
  qed
qed simp

subsection \<open>Dictionaries\<close>

type_synonym ('k, 'v) dict = "('k \<times> 'v) list"

definition dget :: "('k, 'v) dict \<Rightarrow> 'k \<Rightarrow> 'v option" where
  "dget d k = map_of d k"

definition dset :: "'k \<Rightarrow> 'v \<Rightarrow> ('k, 'v) dict \<Rightarrow> ('k, 'v) dict" where
  "dset k v d = AList.update k v d"

definition ddel :: "'k \<Rightarrow> ('k, 'v) dict \<Rightarrow> ('k, 'v) dict" where
  "ddel k d = AList.delete k d"

definition dkeys :: "('k, 'v) dict \<Rightarrow> 'k list" where
  "dkeys d = map fst d"

definition dict_ok :: "('k, 'v) dict \<Rightarrow> bool" where
  "dict_ok d \<longleftrightarrow> distinct (map fst d)"

definition dget_def_val :: "('k, 'v) dict \<Rightarrow> 'k \<Rightarrow> 'v \<Rightarrow> 'v" where
  "dget_def_val d k v = (case dget d k of Some w \<Rightarrow> w | None \<Rightarrow> v)"

text \<open>\<open>d.update(e)\<close>: the entries of the second dict win.\<close>

definition dmerge :: "('k, 'v) dict \<Rightarrow> ('k, 'v) dict \<Rightarrow> ('k, 'v) dict" where
  "dmerge d e = fold (\<lambda>(k, v). dset k v) e d"

lemma dget_Nil [simp]: "dget [] k = None"
  by (simp add: dget_def)

lemma dget_Cons [simp]: "dget ((k, v) # d) k' = (if k' = k then Some v else dget d k')"
  by (simp add: dget_def)

lemma dget_dset [dict_simps, simp]: "dget (dset k v d) k' = (if k' = k then Some v else dget d k')"
  by (simp add: dget_def dset_def update_conv')

lemma dget_ddel [dict_simps, simp]: "dget (ddel k d) k' = (if k' = k then None else dget d k')"
  by (simp add: dget_def ddel_def delete_conv')

lemma dict_ok_Nil [simp]: "dict_ok []"
  by (simp add: dict_ok_def)

lemma dict_ok_dset [simp, intro]: "dict_ok d \<Longrightarrow> dict_ok (dset k v d)"
  by (simp add: dict_ok_def dset_def distinct_update)

lemma dict_ok_ddel [simp, intro]: "dict_ok d \<Longrightarrow> dict_ok (ddel k d)"
  by (simp add: dict_ok_def ddel_def distinct_delete)

lemma dget_None_iff: "dget d k = None \<longleftrightarrow> k \<notin> set (dkeys d)"
  by (simp add: dget_def dkeys_def map_of_eq_None_iff)

lemma dget_Some_iff: "dict_ok d \<Longrightarrow> dget d k = Some v \<longleftrightarrow> (k, v) \<in> set d"
  by (simp add: dget_def dict_ok_def)

lemma dget_SomeD: "dget d k = Some v \<Longrightarrow> (k, v) \<in> set d"
  by (simp add: dget_def map_of_SomeD)

lemma set_dkeys_dset [dict_simps, simp]: "set (dkeys (dset k v d)) = insert k (set (dkeys d))"
  by (simp add: dkeys_def dset_def dom_update)

lemma set_dkeys_ddel [dict_simps, simp]: "set (dkeys (ddel k d)) = set (dkeys d) - {k}"
  by (simp add: dkeys_def ddel_def delete_keys set_removeAll)

lemma dset_Nil [simp]: "dset k v [] = [(k, v)]"
  by (simp add: dset_def)

lemma dset_Cons [simp]:
  "dset k v ((k', v') # d) = (if k' = k then (k, v) # d else (k', v') # dset k v d)"
  by (simp add: dset_def)

lemma ddel_Nil [simp]: "ddel k [] = []"
  by (simp add: ddel_def)

lemma ddel_Cons [simp]: "ddel k ((k', v') # d) = (if k' = k then ddel k d else (k', v') # ddel k d)"
  by (auto simp: ddel_def AList.delete_eq)

lemma dset_same: "dget d k = Some v \<Longrightarrow> dset k v d = d"
  by (simp add: dset_def dget_def update_triv)

lemma dset_dset [simp]: "dset k v (dset k w d) = dset k v d"
  by (simp add: dset_def)

lemma dset_append_new: "k \<notin> set (dkeys d) \<Longrightarrow> dset k v d = d @ [(k, v)]"
  by (induction d) (auto simp: dkeys_def)

lemma dmerge_Nil [simp]: "dmerge d [] = d"
  by (simp add: dmerge_def)

lemma dmerge_Cons [simp]: "dmerge d ((k, v) # e) = dmerge (dset k v d) e"
  by (simp add: dmerge_def)

lemma dict_ok_dmerge [simp, intro]: "dict_ok d \<Longrightarrow> dict_ok (dmerge d e)"
  by (induction e arbitrary: d) auto

lemma dget_dmerge:
  "dict_ok e \<Longrightarrow> dget (dmerge d e) k = (case dget e k of Some v \<Rightarrow> Some v | None \<Rightarrow> dget d k)"
proof (induction e arbitrary: d)
  case (Cons kv e)
  obtain k' v' where kv: "kv = (k', v')" by (cases kv)
  have ok: "dict_ok e" and "k' \<notin> set (dkeys e)"
    using Cons.prems kv by (auto simp: dict_ok_def dkeys_def)
  then have none: "dget e k' = None" by (simp add: dget_None_iff)
  show ?case using Cons.IH [OF ok, of "dset k' v' d"] none kv
    by (cases "k = k'") (simp_all split: option.split)
qed simp

subsection \<open>Sets\<close>

definition sadd :: "'a \<Rightarrow> 'a list \<Rightarrow> 'a list" where
  "sadd x xs = (if x \<in> set xs then xs else xs @ [x])"

definition sdel :: "'a \<Rightarrow> 'a list \<Rightarrow> 'a list" where
  "sdel x xs = removeAll x xs"

definition sunion :: "'a list \<Rightarrow> 'a list \<Rightarrow> 'a list" where
  "sunion xs ys = fold sadd ys xs"

definition sdiff :: "'a list \<Rightarrow> 'a list \<Rightarrow> 'a list" where
  "sdiff xs ys = filter (\<lambda>x. x \<notin> set ys) xs"

lemma set_sadd [dict_simps, simp]: "set (sadd x xs) = insert x (set xs)"
  by (auto simp: sadd_def)

lemma set_sdel [dict_simps, simp]: "set (sdel x xs) = set xs - {x}"
  by (auto simp: sdel_def)

lemma distinct_sadd [simp, intro]: "distinct xs \<Longrightarrow> distinct (sadd x xs)"
  by (auto simp: sadd_def)

lemma distinct_sdel [simp, intro]: "distinct xs \<Longrightarrow> distinct (sdel x xs)"
  by (simp add: sdel_def distinct_removeAll)

lemma set_sunion [dict_simps, simp]: "set (sunion xs ys) = set xs \<union> set ys"
  by (induction ys arbitrary: xs) (auto simp: sunion_def)

lemma distinct_sunion [simp, intro]: "distinct xs \<Longrightarrow> distinct (sunion xs ys)"
  by (induction ys arbitrary: xs) (auto simp: sunion_def)

lemma set_sdiff [dict_simps, simp]: "set (sdiff xs ys) = set xs - set ys"
  by (auto simp: sdiff_def)

lemma distinct_sdiff [simp, intro]: "distinct xs \<Longrightarrow> distinct (sdiff xs ys)"
  by (simp add: sdiff_def)

end
