(* ===== verification/Events_Base.thy ===== *)
theory Events_Base
  imports Prelude "HOL-Library.Product_Lexorder" "HOL-Library.List_Lexorder" "HOL-Library.Char_ord"
begin

section \<open>satori.events: values, events and the command protocol\<close>

text \<open>
  \<^item> \<open>value\<close>: the Python values an event attribute holds (None, bools, ints, byte strings),
    with Python 2's \<open>==\<close> and \<open><\<close>: \<open>True == 1\<close>, and None < numbers < strings.
  \<^item> \<open>event\<close>: \<open>api.Event\<close>, a \<open>misc.Namespace\<close> (a dict whose keys read as
    attributes).
  \<^item> \<open>command\<close>: the command classes of \<open>protocol.py\<close>; \<open>response\<close>: what the master
    sends back.
\<close>

datatype "value" = VNone | VBool bool | VInt int | VStr string

text \<open>The order key of a value: CPython 2 compares first by kind, then within the kind.\<close>

fun value_key :: "value \<Rightarrow> nat \<times> int \<times> string" where
  "value_key VNone = (0, 0, [])"
| "value_key (VBool b) = (1, of_bool b, [])"
| "value_key (VInt i) = (1, i, [])"
| "value_key (VStr s) = (2, 0, s)"

definition py_eq :: "value \<Rightarrow> value \<Rightarrow> bool" where
  "py_eq v w \<longleftrightarrow> value_key v = value_key w"

definition py_less :: "value \<Rightarrow> value \<Rightarrow> bool" where
  "py_less v w \<longleftrightarrow> value_key v < value_key w"

lemma py_eq_refl [simp]: "py_eq v v"
  by (simp add: py_eq_def)

lemma py_eq_VInt [simp]: "py_eq (VInt i) (VInt j) \<longleftrightarrow> i = j"
  by (simp add: py_eq_def)

lemma py_eq_VStr [simp]: "py_eq (VStr s) (VStr t) \<longleftrightarrow> s = t"
  by (simp add: py_eq_def)

lemma py_less_VInt [simp]: "py_less (VInt i) (VInt j) \<longleftrightarrow> i < j"
  by (simp add: py_less_def less_prod_def)

lemma py_less_irrefl [simp]: "\<not> py_less v v"
  by (simp add: py_less_def)

lemma py_less_trans: "py_less u v \<Longrightarrow> py_less v w \<Longrightarrow> py_less u w"
  by (auto simp: py_less_def)

lemma py_less_total: "py_less u v \<or> py_eq u v \<or> py_less v u"
  by (auto simp: py_less_def py_eq_def)

lemma not_py_less_trans: "\<not> py_less u v \<Longrightarrow> \<not> py_less v w \<Longrightarrow> \<not> py_less u w"
  by (auto simp: py_less_def not_less)

subsection \<open>Namespace: attribute access on a dict\<close>

text \<open>\<open>misc.Namespace.__getattr__\<close>, \<open>__setattr__\<close> and \<open>__delattr__\<close>.\<close>

type_synonym event = "(string, value) dict"

definition getattr :: "(string, 'v) dict \<Rightarrow> string \<Rightarrow> 'v outcome" where
  "getattr d k = (case dget d k of Some v \<Rightarrow> Ok v | None \<Rightarrow> Raise (AttributeError k))"

definition setattr :: "(string, 'v) dict \<Rightarrow> string \<Rightarrow> 'v \<Rightarrow> (string, 'v) dict" where
  "setattr d k v = dset k v d"

definition delattr :: "(string, 'v) dict \<Rightarrow> string \<Rightarrow> (string, 'v) dict outcome" where
  "delattr d k = (if k \<in> set (dkeys d) then Ok (ddel k d) else Raise (AttributeError k))"

lemma getattr_setattr: "getattr (setattr d k v) k' = (if k' = k then Ok v else getattr d k')"
  by (simp add: getattr_def setattr_def)

lemma delattr_getattr: "delattr d k = Ok d' \<Longrightarrow> getattr d' k = Raise (AttributeError k)"
  by (auto simp: delattr_def getattr_def split: if_splits)

subsection \<open>Commands and responses\<close>

type_synonym queue_id = string
type_synonym mapping_id = string
type_synonym criteria = "(string, value) dict"
type_synonym client = nat

datatype command =
    KeepAlive
  | Attach queue_id
  | Detach queue_id
  | Map criteria queue_id
  | Unmap mapping_id
  | Send event
  | Receive
  | Disconnect

datatype response =
    RNone
  | RMapping mapping_id
  | RSerial int
  | REvent queue_id event

abbreviation serial_attr :: string where
  "serial_attr \<equiv> ''serial''"

end
