(* ===== verification/Events_Mapper.thy ===== *)
theory Events_Mapper
  imports Events_Base
begin

section \<open>satori.events.mapper: routing events to queues\<close>

text \<open>
  \<open>TrivialMapper\<close>: a dict from mapping ids to pairs (criteria, queue), looked through
  linearly for every event. A fresh id is \<open>MappingId()\<close>, the md5 of a random number:
  the model takes the sequence of ids drawn, \<open>draw\<close>, and counts the draws in the state.
  The locale \<open>mapper\<close> is the interface \<open>Mapper\<close> with the laws its users rely on.
\<close>

record trivial_mapper =
  mappings :: "(mapping_id, criteria \<times> queue_id) dict"
  draws :: nat

definition new_trivial_mapper :: trivial_mapper where
  "new_trivial_mapper = \<lparr>mappings = [], draws = 0\<rparr>"

text \<open>
  \<open>mapping_id = None; while mapping_id is None or mapping_id in self.mappings:
  mapping_id = MappingId()\<close>. The loop need not end, so it is a partial function.
\<close>

partial_function (option) fresh_id :: "(nat \<Rightarrow> mapping_id) \<Rightarrow> mapping_id list \<Rightarrow> nat \<Rightarrow> (mapping_id \<times> nat) option" where
  "fresh_id draw used n =
     (if draw n \<in> set used then fresh_id draw used (Suc n) else Some (draw n, Suc n))"

definition tm_map :: "(nat \<Rightarrow> mapping_id) \<Rightarrow> criteria \<Rightarrow> queue_id \<Rightarrow> trivial_mapper
    \<Rightarrow> (mapping_id \<times> trivial_mapper) option" where
  "tm_map draw c q m =
     (case fresh_id draw (dkeys (mappings m)) (draws m) of
        None \<Rightarrow> None
      | Some (i, n) \<Rightarrow> Some (i, m\<lparr>mappings := dset i (c, q) (mappings m), draws := n\<rparr>))"

definition tm_unmap :: "mapping_id \<Rightarrow> trivial_mapper \<Rightarrow> unit outcome \<times> trivial_mapper" where
  "tm_unmap i m =
     (if i \<in> set (dkeys (mappings m)) then (Ok (), m\<lparr>mappings := ddel i (mappings m)\<rparr>)
      else (Raise KeyError, m))"

fun matches :: "criteria \<Rightarrow> event \<Rightarrow> bool" where
  "matches [] e = True"
| "matches ((name, v) # c) e =
     (if \<not> py_eq (dget_def_val e name v) v then False else matches c e)"

fun resolve_in :: "(mapping_id, criteria \<times> queue_id) dict \<Rightarrow> event \<Rightarrow> queue_id list" where
  "resolve_in [] e = []"
| "resolve_in ((i, c, q) # ms) e = (if matches c e then q # resolve_in ms e else resolve_in ms e)"

definition tm_resolve :: "event \<Rightarrow> trivial_mapper \<Rightarrow> queue_id list" where
  "tm_resolve e m = resolve_in (mappings m) e"

definition tm_inv :: "trivial_mapper \<Rightarrow> bool" where
  "tm_inv m \<longleftrightarrow> dict_ok (mappings m)"

definition tm_view :: "trivial_mapper \<Rightarrow> mapping_id \<rightharpoonup> criteria \<times> queue_id" where
  "tm_view m = dget (mappings m)"

subsection \<open>The fresh-id loop\<close>

lemma fresh_id_returns:
  assumes "n \<le> k" and "draw k \<notin> set used" and "\<And>j. n \<le> j \<Longrightarrow> j < k \<Longrightarrow> draw j \<in> set used"
  shows "fresh_id draw used n = Some (draw k, Suc k)"
  using assms
proof (induction "k - n" arbitrary: n)
  case 0
  then show ?case by (simp add: fresh_id.simps)
next
  case (Suc d)
  then have "draw n \<in> set used" by simp
  moreover have "fresh_id draw used (Suc n) = Some (draw k, Suc k)"
    using Suc.hyps Suc.prems by (intro Suc.hyps(1)) auto
  ultimately show ?case by (simp add: fresh_id.simps [of draw used n])
qed

lemma fresh_id_total:
  assumes "\<exists>k. n \<le> k \<and> draw k \<notin> set used"
  shows "\<exists>i m. fresh_id draw used n = Some (i, m)"
proof -
  define k where "k = (LEAST k. n \<le> k \<and> draw k \<notin> set used)"
  have "n \<le> k \<and> draw k \<notin> set used"
    unfolding k_def by (rule LeastI_ex) (rule assms)
  moreover have "draw j \<in> set used" if "n \<le> j" "j < k" for j
    using that not_less_Least [of j "\<lambda>k. n \<le> k \<and> draw k \<notin> set used"] unfolding k_def by auto
  ultimately show ?thesis using fresh_id_returns [of n k draw used] by blast
qed

lemma fresh_id_fresh:
  assumes ret: "fresh_id draw used n = Some r"
  shows "fst r \<notin> set used \<and> n < snd r"
proof (rule fresh_id.raw_induct [where P = "\<lambda>draw used n r. fst r \<notin> set used \<and> n < snd r", OF _ ret])
  fix f and draw :: "nat \<Rightarrow> mapping_id" and used n and r :: "mapping_id \<times> nat"
  assume IH: "\<And>draw used n r. f draw used n = Some r \<Longrightarrow> fst r \<notin> set used \<and> n < snd r"
    and eq: "(if draw n \<in> set used then f draw used (Suc n) else Some (draw n, Suc n)) = Some r"
  show "fst r \<notin> set used \<and> n < snd r"
  proof (cases "draw n \<in> set used")
    case True
    with eq have "f draw used (Suc n) = Some r" by simp
    from IH [OF this] show ?thesis by simp
  next
    case False
    with eq show ?thesis by auto
  qed
qed

subsection \<open>Matching\<close>

lemma matches_iff: "matches c e \<longleftrightarrow> (\<forall>(n, v) \<in> set c. py_eq (dget_def_val e n v) v)"
  by (induction c e rule: matches.induct) auto

lemma matches_iff_attrs:
  "matches c e \<longleftrightarrow> (\<forall>(n, v) \<in> set c. \<forall>w. dget e n = Some w \<longrightarrow> py_eq w v)"
  by (fastforce simp: matches_iff dget_def_val_def split: option.splits)

lemma set_resolve_in:
  "set (resolve_in ms e) = {q. \<exists>i c. (i, c, q) \<in> set ms \<and> matches c e}"
  by (induction ms e rule: resolve_in.induct) auto

subsection \<open>The interface and its laws\<close>

locale mapper =
  fixes mp_map :: "criteria \<Rightarrow> queue_id \<Rightarrow> 'm \<Rightarrow> (mapping_id \<times> 'm) option"
    and mp_unmap :: "mapping_id \<Rightarrow> 'm \<Rightarrow> unit outcome \<times> 'm"
    and mp_resolve :: "event \<Rightarrow> 'm \<Rightarrow> queue_id list"
    and mp_view :: "'m \<Rightarrow> mapping_id \<rightharpoonup> criteria \<times> queue_id"
    and mp_inv :: "'m \<Rightarrow> bool"
  assumes map_view: "mp_inv m \<Longrightarrow> mp_map c q m = Some (i, m') \<Longrightarrow>
      mp_inv m' \<and> mp_view m i = None \<and> mp_view m' = (mp_view m)(i \<mapsto> (c, q))"
    and unmap_view: "mp_inv m \<Longrightarrow> mp_view m i = Some x \<Longrightarrow>
      \<exists>m'. mp_unmap i m = (Ok (), m') \<and> mp_inv m' \<and> mp_view m' = (mp_view m)(i := None)"
    and unmap_missing: "mp_view m i = None \<Longrightarrow> mp_unmap i m = (Raise KeyError, m)"
    and resolve_view: "mp_inv m \<Longrightarrow>
      set (mp_resolve e m) = {q. \<exists>i c. mp_view m i = Some (c, q) \<and> matches c e}"
begin

lemma mapped_is_resolved:
  assumes "mp_inv m" and "mp_map c q m = Some (i, m')" and "matches c e"
  shows "q \<in> set (mp_resolve e m')"
  using assms map_view [OF assms(1,2)] by (auto simp: resolve_view)

lemma map_keeps_routes:
  assumes "mp_inv m" and "mp_map c q m = Some (i, m')"
  shows "set (mp_resolve e m') = set (mp_resolve e m) \<union> (if matches c e then {q} else {})"
proof -
  have v: "mp_inv m'" "mp_view m i = None" "mp_view m' = (mp_view m)(i \<mapsto> (c, q))"
    using map_view [OF assms] by auto
  have "set (mp_resolve e m') = {q'. \<exists>j d. ((mp_view m)(i \<mapsto> (c, q))) j = Some (d, q') \<and> matches d e}"
    using v by (simp add: resolve_view)
  also have "\<dots> = {q'. \<exists>j d. mp_view m j = Some (d, q') \<and> matches d e} \<union> (if matches c e then {q} else {})"
    using v(2) by (auto split: if_splits) (metis option.distinct(1))+
  finally show ?thesis using assms(1) by (simp add: resolve_view)
qed

lemma unmap_after_map:
  assumes "mp_inv m" and "mp_map c q m = Some (i, m')"
  shows "\<exists>m''. mp_unmap i m' = (Ok (), m'') \<and> mp_inv m'' \<and> mp_view m'' = mp_view m
    \<and> set (mp_resolve e m'') = set (mp_resolve e m)"
proof -
  have v: "mp_inv m'" "mp_view m i = None" "mp_view m' = (mp_view m)(i \<mapsto> (c, q))"
    using map_view [OF assms] by auto
  then obtain m'' where m'': "mp_unmap i m' = (Ok (), m'')" "mp_inv m''"
      "mp_view m'' = (mp_view m')(i := None)"
    using unmap_view [OF v(1), of i] by auto
  moreover have "mp_view m'' = mp_view m" using v m'' by (auto simp: fun_upd_idem)
  ultimately show ?thesis using assms(1) by (auto simp: resolve_view)
qed

end

interpretation tm: mapper "tm_map draw" tm_unmap tm_resolve tm_view tm_inv
proof
  fix m c q i m'
  assume "tm_inv m" "tm_map draw c q m = Some (i, m')"
  then show "tm_inv m' \<and> tm_view m i = None \<and> tm_view m' = (tm_view m)(i \<mapsto> (c, q))"
    by (auto simp: tm_map_def tm_inv_def tm_view_def dget_None_iff split: option.splits
        dest!: fresh_id_fresh)
next
  fix m i x
  assume "tm_inv m" "tm_view m i = Some x"
  moreover from this have "i \<in> set (dkeys (mappings m))"
    by (metis dget_None_iff option.distinct(1) tm_view_def)
  ultimately show "\<exists>m'. tm_unmap i m = (Ok (), m') \<and> tm_inv m' \<and> tm_view m' = (tm_view m)(i := None)"
    by (auto simp: tm_unmap_def tm_inv_def tm_view_def)
next
  fix m i
  assume "tm_view m i = None"
  then show "tm_unmap i m = (Raise KeyError, m)"
    by (simp add: tm_unmap_def tm_view_def dget_None_iff)
next
  fix m e
  assume "tm_inv m"
  then show "set (tm_resolve e m) = {q. \<exists>i c. tm_view m i = Some (c, q) \<and> matches c e}"
    by (auto simp: tm_resolve_def tm_view_def tm_inv_def set_resolve_in dget_Some_iff)
qed

lemma tm_inv_new: "tm_inv new_trivial_mapper"
  by (simp add: tm_inv_def new_trivial_mapper_def)

text \<open>
  (mapper_map_unmap): mapping a criteria to a queue adds the queue to the routes of the
  events that match and leaves all other routes alone; unmapping the id it returned succeeds
  and restores exactly the routes there were before.
\<close>

theorem mapper_map_unmap:
  assumes "tm_inv m" and "tm_map draw c q m = Some (i, m')"
  shows "tm_inv m' \<and> dget (mappings m) i = None
    \<and> (\<forall>e. set (tm_resolve e m') = set (tm_resolve e m) \<union> (if matches c e then {q} else {}))
    \<and> (\<exists>m''. tm_unmap i m' = (Ok (), m'') \<and> (\<forall>e. set (tm_resolve e m'') = set (tm_resolve e m)))"
proof -
  have v: "tm_inv m'" "tm_view m i = None" "tm_view m' i = Some (c, q)"
    using tm.map_view [OF assms] by auto
  from tm.unmap_after_map [OF assms] obtain m'' where m'': "tm_unmap i m' = (Ok (), m'')" by blast
  moreover have "set (tm_resolve e m'') = set (tm_resolve e m)" for e
    using tm.unmap_after_map [OF assms, of e] m'' by simp
  ultimately show ?thesis using v tm.map_keeps_routes [OF assms] by (auto simp: tm_view_def)
qed

theorem mapper_map_unmap_witness:
  "set (tm_resolve [(''kind'', VStr ''submit'')]
      \<lparr>mappings = [(''b'', [(''kind'', VStr ''login'')], ''r''), (''a'', [(''kind'', VStr ''submit'')], ''q'')], draws = 2\<rparr>)
   = set (tm_resolve [(''kind'', VStr ''submit'')]
      \<lparr>mappings = [(''b'', [(''kind'', VStr ''login'')], ''r'')], draws = 0\<rparr>) \<union> {''q''}"
proof -
  let ?m = "\<lparr>mappings = [(''b'', [(''kind'', VStr ''login'')], ''r'')], draws = 0\<rparr>"
  have inv: "tm_inv ?m" by (simp add: tm_inv_def dict_ok_def)
  have fresh: "fresh_id (\<lambda>n. if n = 0 then ''b'' else ''a'') [''b''] 0 = Some (''a'', 2)"
    using fresh_id_returns [of 0 1 "\<lambda>n. if n = 0 then ''b'' else ''a''" "[''b'']"]
    by (simp add: numeral_2_eq_2)
  have "tm_map (\<lambda>n. if n = 0 then ''b'' else ''a'') [(''kind'', VStr ''submit'')] ''q'' ?m = Some (''a'',
      \<lparr>mappings = [(''b'', [(''kind'', VStr ''login'')], ''r''), (''a'', [(''kind'', VStr ''submit'')], ''q'')], draws = 2\<rparr>)"
    using fresh by (simp add: tm_map_def dkeys_def)
  from mapper_map_unmap [OF inv this] show ?thesis by (simp add: dget_def_val_def)
qed

end
