(* ===== verification/Events_Dispatcher.thy ===== *)
theory Events_Dispatcher
  imports Events_Base
begin

section \<open>satori.events.dispatcher: queues of events and waiting clients\<close>

text \<open>
  The \<open>Dispatcher\<close> keeps, per queue, a FIFO of pending events and a FIFO of clients
  waiting on it, and, per client, the queues it is attached to and whether it waits.
  \<^item> \<open>qdata\<close>, \<open>cdata\<close>: the Namespaces made by \<open>_qdata\<close> and \<open>_cdata\<close>, which create the
    entry on the first access.
  \<^item> \<open>activate\<close> and \<open>enqueue\<close> send at most one response, as their last action; the model
    returns it as a \<open>delivery\<close> and the caller performs the send.
  \<^item> \<open>detach\<close> contains a \<open>yield\<close>, so calling it only creates a generator
    (\<open>detach_gen\<close>) and runs none of its body; \<open>detach_next\<close> is the first step of
    that generator.
\<close>

record qdata =
  q_references :: int
  q_events :: "event list"
  q_clients :: "client list"

record cdata =
  c_queue_ids :: "queue_id list"
  c_active :: bool

record dispatcher =
  d_queues :: "(queue_id, qdata) dict"
  d_clients :: "(client, cdata) dict"

type_synonym delivery = "client \<times> queue_id \<times> event"

definition new_dispatcher :: dispatcher where
  "new_dispatcher = \<lparr>d_queues = [], d_clients = []\<rparr>"

definition new_qdata :: qdata where
  "new_qdata = \<lparr>q_references = 0, q_events = [], q_clients = []\<rparr>"

definition new_cdata :: cdata where
  "new_cdata = \<lparr>c_queue_ids = [], c_active = False\<rparr>"

definition put_q :: "queue_id \<Rightarrow> qdata \<Rightarrow> dispatcher \<Rightarrow> dispatcher" where
  "put_q q qd d = d\<lparr>d_queues := dset q qd (d_queues d)\<rparr>"

definition put_c :: "client \<Rightarrow> cdata \<Rightarrow> dispatcher \<Rightarrow> dispatcher" where
  "put_c c cd d = d\<lparr>d_clients := dset c cd (d_clients d)\<rparr>"

definition qdata :: "queue_id \<Rightarrow> dispatcher \<Rightarrow> qdata \<times> dispatcher" where
  "qdata q d = (case dget (d_queues d) q of
      Some qd \<Rightarrow> (qd, d) | None \<Rightarrow> (new_qdata, put_q q new_qdata d))"

definition cdata :: "client \<Rightarrow> dispatcher \<Rightarrow> cdata \<times> dispatcher" where
  "cdata c d = (case dget (d_clients d) c of
      Some cd \<Rightarrow> (cd, d) | None \<Rightarrow> (new_cdata, put_c c new_cdata d))"

definition attach :: "client \<Rightarrow> queue_id \<Rightarrow> dispatcher \<Rightarrow> dispatcher" where
  "attach c q d =
     (let (qd, d1) = qdata q d; (cd, d2) = cdata c d1 in
      if q \<notin> set (c_queue_ids cd)
      then put_q q (qd\<lparr>q_references := q_references qd + 1\<rparr>)
             (put_c c (cd\<lparr>c_queue_ids := sadd q (c_queue_ids cd)\<rparr>) d2)
      else d2)"

datatype detach_gen = Detach_Gen client queue_id

definition detach :: "client \<Rightarrow> queue_id \<Rightarrow> dispatcher \<Rightarrow> detach_gen \<times> dispatcher" where
  "detach c q d = (Detach_Gen c q, d)"

text \<open>
  The first \<open>next()\<close> on the generator: after \<open>_qdata\<close> and \<open>_cdata\<close> it reads
  \<open>cdata.queues\<close>, an attribute that \<open>_cdata\<close> never sets (the field is \<open>queue_ids\<close>);
  the rest of the body is never reached.
\<close>

fun detach_next :: "detach_gen \<Rightarrow> dispatcher \<Rightarrow> queue_id outcome \<times> dispatcher" where
  "detach_next (Detach_Gen c q) d =
     (let (_, d1) = qdata q d; (_, d2) = cdata c d1 in (Raise (AttributeError ''queues''), d2))"

text \<open>The scan of \<open>activate\<close> for the queue whose first event has the least serial.\<close>

fun best_event :: "queue_id list \<Rightarrow> (queue_id \<times> value) option \<Rightarrow> dispatcher
    \<Rightarrow> (queue_id \<times> value) option outcome \<times> dispatcher" where
  "best_event [] best d = (Ok best, d)"
| "best_event (q # qs) best d =
     (let (qd, d1) = qdata q d in
      case q_events qd of
        [] \<Rightarrow> best_event qs best d1
      | e # _ \<Rightarrow>
          (case getattr e serial_attr of
             Raise x \<Rightarrow> (Raise x, d1)
           | Ok s \<Rightarrow>
               (case best of
                  None \<Rightarrow> best_event qs (Some (q, s)) d1
                | Some (_, s') \<Rightarrow>
                    if py_less s s' then best_event qs (Some (q, s)) d1
                    else best_event qs best d1)))"

fun add_waiting :: "client \<Rightarrow> queue_id list \<Rightarrow> dispatcher \<Rightarrow> dispatcher" where
  "add_waiting c [] d = d"
| "add_waiting c (q # qs) d =
     (let (qd, d1) = qdata q d in
      add_waiting c qs (put_q q (qd\<lparr>q_clients := q_clients qd @ [c]\<rparr>) d1))"

definition activate :: "client \<Rightarrow> dispatcher \<Rightarrow> delivery option outcome \<times> dispatcher" where
  "activate c d =
     (let (cd, d1) = cdata c d in
      case best_event (c_queue_ids cd) None d1 of
        (Raise x, d2) \<Rightarrow> (Raise x, d2)
      | (Ok (Some (q, _)), d2) \<Rightarrow>
          (let (qd, d3) = qdata q d2 in
           case q_events qd of
             [] \<Rightarrow> (Raise IndexError, d3)
           | e # es \<Rightarrow> (Ok (Some (c, q, e)), put_q q (qd\<lparr>q_events := es\<rparr>) d3))
      | (Ok None, d2) \<Rightarrow>
          (let d3 = add_waiting c (c_queue_ids cd) d2 in
           (Ok None, put_c c (cd\<lparr>c_active := True\<rparr>) d3)))"

text \<open>The \<open>while\<close> loop of \<open>enqueue\<close>; its list argument is what is left of \<open>qdata.clients\<close>.\<close>

fun offer :: "queue_id \<Rightarrow> client list \<Rightarrow> qdata \<Rightarrow> dispatcher \<Rightarrow> delivery option outcome \<times> dispatcher" where
  "offer q [] qd d = (Ok None, put_q q (qd\<lparr>q_clients := []\<rparr>) d)"
| "offer q (c # cs) qd d =
     (let (cd, d1) = cdata c d in
      if \<not> c_active cd then offer q cs qd d1
      else if q \<notin> set (c_queue_ids cd) then offer q cs qd d1
      else let d2 = put_c c (cd\<lparr>c_active := False\<rparr>) d1 in
           case q_events qd of
             [] \<Rightarrow> (Raise IndexError, put_q q (qd\<lparr>q_clients := cs\<rparr>) d2)
           | e # es \<Rightarrow> (Ok (Some (c, q, e)), put_q q (qd\<lparr>q_clients := cs, q_events := es\<rparr>) d2))"

definition enqueue :: "queue_id \<Rightarrow> event \<Rightarrow> dispatcher \<Rightarrow> delivery option outcome \<times> dispatcher" where
  "enqueue q e d =
     (let (qd, d1) = qdata q d; qd' = qd\<lparr>q_events := q_events qd @ [e]\<rparr> in
      offer q (q_clients qd') qd' (put_q q qd' d1))"

end
