(* ===== verification/Events_Queues.thy ===== *)
theory Events_Queues
  imports Events_Dispatcher
begin

section \<open>The dispatcher as queues: abstract specification, refinement and invariants\<close>

text \<open>
  The abstract dispatcher forgets when dictionary entries are created: it maps every queue
  to its pending events, its waiting clients and its reference count, and every client to
  its queues and its waiting flag. \<open>attach\<close>, \<open>activate\<close> and \<open>enqueue\<close> refine its
  operations exactly (\<open>abs_attach\<close>, \<open>abs_activate\<close>, \<open>abs_enqueue\<close>).
  The invariants and the delivery theorems are proved on the specification and carried
  over by the refinement.
\<close>

record adisp =
  a_ev :: "queue_id \<Rightarrow> event list"
  a_cl :: "queue_id \<Rightarrow> client list"
  a_ref :: "queue_id \<Rightarrow> int"
  a_qs :: "client \<Rightarrow> queue_id list"
  a_act :: "client \<Rightarrow> bool"

definition view_q :: "dispatcher \<Rightarrow> queue_id \<Rightarrow> qdata" where
  "view_q d q = (case dget (d_queues d) q of Some qd \<Rightarrow> qd | None \<Rightarrow> new_qdata)"

definition view_c :: "dispatcher \<Rightarrow> client \<Rightarrow> cdata" where
  "view_c d c = (case dget (d_clients d) c of Some cd \<Rightarrow> cd | None \<Rightarrow> new_cdata)"

definition absd :: "dispatcher \<Rightarrow> adisp" where
  "absd d = \<lparr>a_ev = (\<lambda>q. q_events (view_q d q)), a_cl = (\<lambda>q. q_clients (view_q d q)),
            a_ref = (\<lambda>q. q_references (view_q d q)),
            a_qs = (\<lambda>c. c_queue_ids (view_c d c)), a_act = (\<lambda>c. c_active (view_c d c))\<rparr>"

subsection \<open>The abstract operations\<close>

definition sp_attach :: "client \<Rightarrow> queue_id \<Rightarrow> adisp \<Rightarrow> adisp" where
  "sp_attach c q a =
     (if q \<in> set (a_qs a c) then a
      else a\<lparr>a_qs := (a_qs a)(c := a_qs a c @ [q]), a_ref := (a_ref a)(q := a_ref a q + 1)\<rparr>)"

definition ready :: "adisp \<Rightarrow> queue_id \<Rightarrow> client \<Rightarrow> bool" where
  "ready a q c \<longleftrightarrow> a_act a c \<and> q \<in> set (a_qs a c)"

definition sp_enqueue :: "queue_id \<Rightarrow> event \<Rightarrow> adisp \<Rightarrow> delivery option \<times> adisp" where
  "sp_enqueue q e a =
     (case dropWhile (\<lambda>c. \<not> ready a q c) (a_cl a q) of
        [] \<Rightarrow> (None, a\<lparr>a_ev := (a_ev a)(q := a_ev a q @ [e]), a_cl := (a_cl a)(q := [])\<rparr>)
      | c # cs \<Rightarrow>
          (Some (c, q, hd (a_ev a q @ [e])),
           a\<lparr>a_ev := (a_ev a)(q := tl (a_ev a q @ [e])), a_cl := (a_cl a)(q := cs),
             a_act := (a_act a)(c := False)\<rparr>))"

text \<open>The first queue, in the order of the list, whose first event has the least serial.\<close>

fun sp_best :: "queue_id list \<Rightarrow> (queue_id \<times> value) option \<Rightarrow> (queue_id \<Rightarrow> event list)
    \<Rightarrow> (queue_id \<times> value) option outcome" where
  "sp_best [] best ev = Ok best"
| "sp_best (q # qs) best ev =
     (case ev q of
        [] \<Rightarrow> sp_best qs best ev
      | e # _ \<Rightarrow> bind_ok (getattr e serial_attr)
          (\<lambda>s. case best of
             None \<Rightarrow> sp_best qs (Some (q, s)) ev
           | Some (q', s') \<Rightarrow> sp_best qs (if py_less s s' then Some (q, s) else best) ev))"

definition sp_activate :: "client \<Rightarrow> adisp \<Rightarrow> delivery option outcome \<times> adisp" where
  "sp_activate c a =
     (case sp_best (a_qs a c) None (a_ev a) of
        Raise x \<Rightarrow> (Raise x, a)
      | Ok (Some (q, _)) \<Rightarrow>
          (case a_ev a q of
             [] \<Rightarrow> (Raise IndexError, a)
           | e # es \<Rightarrow> (Ok (Some (c, q, e)), a\<lparr>a_ev := (a_ev a)(q := es)\<rparr>))
      | Ok None \<Rightarrow>
          (Ok None,
           a\<lparr>a_cl := (\<lambda>q. a_cl a q @ replicate (count_list (a_qs a c) q) c),
             a_act := (a_act a)(c := True)\<rparr>))"

subsection \<open>Refinement\<close>

lemma view_q_put_q [simp]: "view_q (put_q q qd d) q' = (if q' = q then qd else view_q d q')"
  by (simp add: view_q_def put_q_def)

lemma view_c_put_q [simp]: "view_c (put_q q qd d) c = view_c d c"
  by (simp add: view_c_def put_q_def)

lemma view_c_put_c [simp]: "view_c (put_c c cd d) c' = (if c' = c then cd else view_c d c')"
  by (simp add: view_c_def put_c_def)

lemma view_q_put_c [simp]: "view_q (put_c c cd d) q = view_q d q"
  by (simp add: view_q_def put_c_def)

lemma fst_qdata [simp]: "fst (qdata q d) = view_q d q"
  by (simp add: qdata_def view_q_def split: option.split)

lemma fst_cdata [simp]: "fst (cdata c d) = view_c d c"
  by (simp add: cdata_def view_c_def split: option.split)

lemma view_q_snd_qdata [simp]: "view_q (snd (qdata q d)) = view_q d"
proof
  fix q'
  show "view_q (snd (qdata q d)) q' = view_q d q'"
  proof (cases "dget (d_queues d) q")
    case None
    then have "view_q d q = new_qdata" by (simp add: view_q_def)
    with None show ?thesis by (simp add: qdata_def)
  qed (simp add: qdata_def)
qed

lemma view_c_snd_cdata [simp]: "view_c (snd (cdata c d)) = view_c d"
proof
  fix c'
  show "view_c (snd (cdata c d)) c' = view_c d c'"
  proof (cases "dget (d_clients d) c")
    case None
    then have "view_c d c = new_cdata" by (simp add: view_c_def)
    with None show ?thesis by (simp add: cdata_def)
  qed (simp add: cdata_def)
qed

lemma view_c_snd_qdata [simp]: "view_c (snd (qdata q d)) = view_c d"
  by (auto simp: qdata_def fun_eq_iff split: option.split)

lemma view_q_snd_cdata [simp]: "view_q (snd (cdata c d)) = view_q d"
  by (auto simp: cdata_def fun_eq_iff split: option.split)

lemma abs_eq_iff: "absd d = absd d' \<longleftrightarrow> view_q d = view_q d' \<and> view_c d = view_c d'"
  by (auto simp: absd_def fun_eq_iff intro: qdata.equality cdata.equality)

lemma abs_new: "absd new_dispatcher =
    \<lparr>a_ev = \<lambda>_. [], a_cl = \<lambda>_. [], a_ref = \<lambda>_. 0, a_qs = \<lambda>_. [], a_act = \<lambda>_. False\<rparr>"
  by (simp add: absd_def view_q_def view_c_def new_dispatcher_def new_qdata_def new_cdata_def)

lemma abs_attach: "absd (attach c q d) = sp_attach c q (absd d)"
  by (auto simp: attach_def sp_attach_def absd_def Let_def split_beta fun_eq_iff sadd_def)

lemma best_event_abs:
  "fst (best_event qs best d) = sp_best qs best (a_ev (absd d))
   \<and> absd (snd (best_event qs best d)) = absd d"
proof (induction qs arbitrary: best d)
  case (Cons q qs)
  have d1: "absd (snd (qdata q d)) = absd d" by (simp add: abs_eq_iff)
  have ev: "a_ev (absd d) q = q_events (view_q d q)" by (simp add: absd_def)
  note IH = Cons.IH [of _ "snd (qdata q d)", unfolded d1]
  show ?case
  proof (cases "q_events (view_q d q)")
    case Nil
    then show ?thesis using IH by (simp add: split_beta Let_def ev)
  next
    case (Cons e es)
    then show ?thesis using IH d1
      by (cases "getattr e serial_attr"; cases best) (auto simp: split_beta Let_def ev)
  qed
qed simp

lemma add_waiting_abs:
  "absd (add_waiting c qs d) = (absd d)\<lparr>a_cl := (\<lambda>q. a_cl (absd d) q @ replicate (count_list qs q) c)\<rparr>"
proof (induction qs arbitrary: d)
  case Nil
  show ?case by simp
next
  case (Cons q qs)
  let ?d = "put_q q (view_q d q\<lparr>q_clients := q_clients (view_q d q) @ [c]\<rparr>) (snd (qdata q d))"
  have d: "absd ?d = (absd d)\<lparr>a_cl := (a_cl (absd d))(q := a_cl (absd d) q @ [c])\<rparr>"
    by (auto simp: absd_def fun_eq_iff)
  have "add_waiting c (q # qs) d = add_waiting c qs ?d"
    by (simp add: split_beta Let_def)
  then show ?case
    by (simp add: Cons.IH d fun_eq_iff)
qed

lemma abs_put_q_events:
  "view_q d' = view_q d \<Longrightarrow> view_c d' = view_c d \<Longrightarrow>
   absd (put_q q (view_q d q\<lparr>q_events := es\<rparr>) d') = (absd d)\<lparr>a_ev := (a_ev (absd d))(q := es)\<rparr>"
  by (auto simp: absd_def fun_eq_iff)

lemma abs_put_c_active:
  "view_c d c = cd \<Longrightarrow> absd (put_c c (cd\<lparr>c_active := b\<rparr>) d) = (absd d)\<lparr>a_act := (a_act (absd d))(c := b)\<rparr>"
  by (auto simp: absd_def fun_eq_iff)

lemma view_q_abs: "a_ev (absd d) q = q_events (view_q d q)" "a_cl (absd d) q = q_clients (view_q d q)"
  and view_c_abs: "a_qs (absd d) c = c_queue_ids (view_c d c)" "a_act (absd d) c = c_active (view_c d c)"
  by (simp_all add: absd_def)

lemma abs_activate:
  "fst (activate c d) = fst (sp_activate c (absd d)) \<and> absd (snd (activate c d)) = snd (sp_activate c (absd d))"
proof -
  let ?d1 = "snd (cdata c d)"
  let ?qs = "c_queue_ids (view_c d c)"
  have d1: "absd ?d1 = absd d" by (simp add: abs_eq_iff)
  obtain r d2 where r: "best_event ?qs None ?d1 = (r, d2)" by (cases "best_event ?qs None ?d1")
  have best: "sp_best ?qs None (a_ev (absd d)) = r" and d2: "absd d2 = absd d"
    using best_event_abs [of ?qs None ?d1] r d1 by auto
  have vq: "view_q d2 = view_q d" and vc: "view_c d2 = view_c d"
    using d2 by (auto simp: abs_eq_iff)
  show ?thesis
  proof (cases r)
    case (Raise x)
    then show ?thesis using r best d2
      by (simp add: activate_def sp_activate_def split_beta Let_def view_c_abs)
  next
    case (Ok b)
    show ?thesis
    proof (cases b)
      case None
      have "view_c (add_waiting c ?qs d2) c = view_c d c"
        using add_waiting_abs [of c ?qs d2] vc by (auto simp: absd_def fun_eq_iff intro: cdata.equality)
      then show ?thesis using None Ok r best d2
        by (simp add: activate_def sp_activate_def split_beta Let_def view_c_abs
            abs_put_c_active add_waiting_abs)
    next
      case (Some qs)
      have ev: "a_ev (absd d) (fst qs) = q_events (view_q d (fst qs))" by (simp add: view_q_abs)
      have q: "view_q (snd (qdata (fst qs) d2)) = view_q d2" "view_c (snd (qdata (fst qs) d2)) = view_c d2"
        by simp_all
      then have d3: "absd (snd (qdata (fst qs) d2)) = absd d" using d2 by (metis abs_eq_iff)
      show ?thesis
      proof (cases "q_events (view_q d (fst qs))")
        case Nil
        then show ?thesis using Some Ok r best d3 ev vq
          by (simp add: activate_def sp_activate_def split_beta Let_def view_c_abs)
      next
        case (Cons e es)
        then show ?thesis using Some Ok r best ev vq vc abs_put_q_events [OF q, of "fst qs" es] d2
          by (simp add: activate_def sp_activate_def split_beta Let_def view_c_abs)
      qed
    qed
  qed
qed

lemma abs_put_q_cong: "absd d = absd d' \<Longrightarrow> absd (put_q q qd d) = absd (put_q q qd d')"
  by (auto simp: absd_def fun_eq_iff)

lemma offer_abs:
  assumes "q_events qd = e # es"
  shows "case dropWhile (\<lambda>c. \<not> ready (absd d) q c) cs of
      [] \<Rightarrow> fst (offer q cs qd d) = Ok None
        \<and> absd (snd (offer q cs qd d)) = absd (put_q q (qd\<lparr>q_clients := []\<rparr>) d)
    | c # cs' \<Rightarrow> fst (offer q cs qd d) = Ok (Some (c, q, e))
        \<and> absd (snd (offer q cs qd d)) =
            (absd (put_q q (qd\<lparr>q_clients := cs', q_events := es\<rparr>) d))\<lparr>a_act := (a_act (absd d))(c := False)\<rparr>"
proof (induction cs arbitrary: d)
  case (Cons c cs)
  let ?d1 = "snd (cdata c d)"
  have d1: "absd ?d1 = absd d" by (simp add: abs_eq_iff)
  show ?case
  proof (cases "ready (absd d) q c")
    case True
    then have act: "c_active (view_c d c)" "q \<in> set (c_queue_ids (view_c d c))"
      by (auto simp: ready_def view_c_abs)
    have "absd (put_c c (view_c d c\<lparr>c_active := False\<rparr>) ?d1) = (absd d)\<lparr>a_act := (a_act (absd d))(c := False)\<rparr>"
      using abs_put_c_active [of ?d1 c "view_c d c" False] d1 by simp
    with True act assms show ?thesis
      by (auto simp: split_beta Let_def absd_def fun_eq_iff)
  next
    case False
    then have "offer q (c # cs) qd d = offer q cs qd ?d1"
      by (auto simp: split_beta Let_def ready_def view_c_abs)
    then show ?thesis
      using Cons.IH [of ?d1] False abs_put_q_cong [OF d1] by (simp add: d1 cong: list.case_cong)
  qed
qed simp

lemma abs_enqueue:
  "fst (enqueue q e d) = Ok (fst (sp_enqueue q e (absd d))) \<and> absd (snd (enqueue q e d)) = snd (sp_enqueue q e (absd d))"
proof -
  let ?qd = "view_q d q\<lparr>q_events := q_events (view_q d q) @ [e]\<rparr>"
  let ?d1 = "put_q q ?qd (snd (qdata q d))"
  obtain x xs where xs: "q_events (view_q d q) @ [e] = x # xs"
    by (cases "q_events (view_q d q) @ [e]") auto
  have e: "enqueue q e d = offer q (q_clients (view_q d q)) ?qd ?d1"
    by (simp add: enqueue_def split_beta Let_def)
  have abs1: "absd ?d1 = (absd d)\<lparr>a_ev := (a_ev (absd d))(q := a_ev (absd d) q @ [e])\<rparr>"
    by (auto simp: absd_def fun_eq_iff)
  have ready: "ready (absd ?d1) = ready (absd d)"
    by (simp add: abs1 ready_def fun_eq_iff)
  have put: "absd (put_q q (?qd\<lparr>q_clients := cs, q_events := es\<rparr>) ?d1)
      = (absd d)\<lparr>a_ev := (a_ev (absd d))(q := es), a_cl := (a_cl (absd d))(q := cs)\<rparr>" for cs es
    by (auto simp: absd_def fun_eq_iff)
  have put0: "absd (put_q q (?qd\<lparr>q_clients := []\<rparr>) ?d1)
      = (absd d)\<lparr>a_ev := (a_ev (absd d))(q := x # xs), a_cl := (a_cl (absd d))(q := [])\<rparr>"
    by (auto simp: absd_def fun_eq_iff xs)
  obtain dw where dw: "dropWhile (\<lambda>c. \<not> ready (absd d) q c) (q_clients (view_q d q)) = dw"
    by simp
  note o = offer_abs [where qd = ?qd and e = x and es = xs and d = ?d1 and q = q
      and cs = "q_clients (view_q d q)", unfolded ready dw put put0]
  have act: "a_act (absd ?d1) = a_act (absd d)" by (simp add: abs1)
  have sp: "sp_enqueue q e (absd d) = (case dw of
        [] \<Rightarrow> (None, (absd d)\<lparr>a_ev := (a_ev (absd d))(q := x # xs), a_cl := (a_cl (absd d))(q := [])\<rparr>)
      | c # cs \<Rightarrow> (Some (c, q, x), (absd d)\<lparr>a_ev := (a_ev (absd d))(q := xs), a_cl := (a_cl (absd d))(q := cs),
             a_act := (a_act (absd d))(c := False)\<rparr>))"
    by (cases dw) (simp_all add: sp_enqueue_def view_q_abs dw xs)
  show ?thesis
    using o xs act by (cases dw) (simp_all add: e sp)
qed

end
