(* ===== verification/Events_Delivery.thy ===== *)
theory Events_Delivery
  imports Events_Queues
begin

section \<open>Sequences of dispatcher operations: invariants and deliveries\<close>

text \<open>
  A run of the dispatcher is a list of calls (\<open>dop\<close>) with the list of deliveries they
  make. The lemmas of the first part are about one call of the specification; the run
  lemmas lift them by induction on the list.
  \<^item> \<open>dstep\<close> runs the detailed operations.
  \<^item> \<open>sp_step\<close> is the documented contract: each operation does what its docstring says, so
    detaching revokes the interest of the client and forgets a queue nobody is interested in.
  \<^item> \<open>call_step\<close> is what the calls of the code come to: the contract for all operations but
    \<open>detach\<close>, whose body is never run.
\<close>

datatype dop =
    Op_Attach client queue_id
  | Op_Detach client queue_id
  | Op_Activate client
  | Op_Enqueue queue_id event

fun dstep :: "dop \<Rightarrow> dispatcher \<Rightarrow> delivery option outcome \<times> dispatcher" where
  "dstep (Op_Attach c q) d = (Ok None, attach c q d)"
| "dstep (Op_Detach c q) d = (Ok None, snd (detach c q d))"
| "dstep (Op_Activate c) d = activate c d"
| "dstep (Op_Enqueue q e) d = enqueue q e d"

definition sp_detach :: "client \<Rightarrow> queue_id \<Rightarrow> adisp \<Rightarrow> adisp" where
  "sp_detach c q a =
     (let a1 = (if q \<in> set (a_qs a c)
                then a\<lparr>a_qs := (a_qs a)(c := removeAll q (a_qs a c)), a_ref := (a_ref a)(q := a_ref a q - 1)\<rparr> else a)
      in if a_ref a1 q = 0 then a1\<lparr>a_ev := (a_ev a1)(q := []), a_cl := (a_cl a1)(q := [])\<rparr> else a1)"

fun sp_step :: "dop \<Rightarrow> adisp \<Rightarrow> delivery option outcome \<times> adisp" where
  "sp_step (Op_Attach c q) a = (Ok None, sp_attach c q a)"
| "sp_step (Op_Detach c q) a = (Ok None, sp_detach c q a)"
| "sp_step (Op_Activate c) a = sp_activate c a"
| "sp_step (Op_Enqueue q e) a = (Ok (fst (sp_enqueue q e a)), snd (sp_enqueue q e a))"

fun is_detach :: "dop \<Rightarrow> bool" where
  "is_detach (Op_Detach c q) = True"
| "is_detach _ = False"

definition call_step :: "dop \<Rightarrow> adisp \<Rightarrow> delivery option outcome \<times> adisp" where
  "call_step x a = (if is_detach x then (Ok None, a) else sp_step x a)"

lemma call_step_simps [simp]:
  "call_step (Op_Attach c q) a = (Ok None, sp_attach c q a)"
  "call_step (Op_Detach c q) a = (Ok None, a)"
  "call_step (Op_Activate c) a = sp_activate c a"
  "call_step (Op_Enqueue q e) a = (Ok (fst (sp_enqueue q e a)), snd (sp_enqueue q e a))"
  by (simp_all add: call_step_def)

lemma dstep_refines:
  "fst (dstep x d) = fst (call_step x (absd d)) \<and> absd (snd (dstep x d)) = snd (call_step x (absd d))"
  by (cases x) (simp_all add: abs_attach abs_activate abs_enqueue detach_def)

fun opt_list :: "'a option \<Rightarrow> 'a list" where
  "opt_list None = []"
| "opt_list (Some x) = [x]"

fun run_ops :: "dop list \<Rightarrow> dispatcher \<Rightarrow> delivery list outcome \<times> dispatcher" where
  "run_ops [] d = (Ok [], d)"
| "run_ops (x # xs) d =
     (case dstep x d of
        (Raise e, d1) \<Rightarrow> (Raise e, d1)
      | (Ok r, d1) \<Rightarrow> (map_ok (\<lambda>ds. opt_list r @ ds) (fst (run_ops xs d1)), snd (run_ops xs d1)))"

fun enqueued :: "queue_id \<Rightarrow> dop list \<Rightarrow> event list" where
  "enqueued q [] = []"
| "enqueued q (Op_Enqueue q' e # xs) = (if q' = q then e # enqueued q xs else enqueued q xs)"
| "enqueued q (_ # xs) = enqueued q xs"

definition delivered :: "queue_id \<Rightarrow> delivery list \<Rightarrow> event list" where
  "delivered q ds = map (\<lambda>(c, q', e). e) (filter (\<lambda>(c, q', e). q' = q) ds)"

definition has_serial :: "event \<Rightarrow> bool" where
  "has_serial e \<longleftrightarrow> is_ok (getattr e serial_attr)"

definition serial_of :: "event \<Rightarrow> value" where
  "serial_of e = (case getattr e serial_attr of Ok s \<Rightarrow> s | Raise _ \<Rightarrow> VNone)"

fun op_serials :: "dop list \<Rightarrow> bool" where
  "op_serials [] = True"
| "op_serials (Op_Enqueue q e # xs) = (has_serial e \<and> op_serials xs)"
| "op_serials (_ # xs) = op_serials xs"

lemma delivered_simps [simp]:
  "delivered q [] = []"
  "delivered q ((c, q', e) # ds) = (if q' = q then e # delivered q ds else delivered q ds)"
  by (auto simp: delivered_def)

lemma delivered_append [simp]: "delivered q (ds @ ds') = delivered q ds @ delivered q ds'"
  by (simp add: delivered_def)

lemma getattr_serial: "has_serial e \<Longrightarrow> getattr e serial_attr = Ok (serial_of e)"
  by (cases "getattr e serial_attr") (auto simp: has_serial_def serial_of_def)

subsection \<open>The choice of the least serial\<close>

text \<open>What \<open>sp_best\<close> returns: the running best is never worse than what was seen.\<close>

definition best_ok :: "(queue_id \<Rightarrow> event list) \<Rightarrow> queue_id \<Rightarrow> value \<Rightarrow> bool" where
  "best_ok ev q s \<longleftrightarrow> ev q \<noteq> [] \<and> s = serial_of (hd (ev q))"

lemma sp_best_Ok:
  assumes "\<And>q. q \<in> set qs \<Longrightarrow> ev q \<noteq> [] \<Longrightarrow> has_serial (hd (ev q))"
  shows "\<exists>r. sp_best qs best ev = Ok r"
  using assms
proof (induction qs arbitrary: best)
  case (Cons q qs)
  show ?case
  proof (cases "ev q")
    case Nil
    with Cons show ?thesis by simp
  next
    case (Cons e es)
    with Cons.prems [of q] have "has_serial e" by simp
    with Cons Cons.IH Cons.prems show ?thesis
      by (cases best) (auto simp: getattr_serial)
  qed
qed simp

lemma sp_best_None:
  assumes "\<And>q. q \<in> set qs \<Longrightarrow> ev q \<noteq> [] \<Longrightarrow> has_serial (hd (ev q))"
  shows "sp_best qs best ev = Ok None \<longleftrightarrow> best = None \<and> (\<forall>q \<in> set qs. ev q = [])"
  using assms
proof (induction qs arbitrary: best)
  case (Cons q qs)
  show ?case
  proof (cases "ev q")
    case Nil
    with Cons show ?thesis by simp
  next
    case (Cons e es)
    with Cons.prems [of q] have "has_serial e" by simp
    with Cons Cons.IH Cons.prems show ?thesis
      by (cases best) (auto simp: getattr_serial split: if_splits)
  qed
qed simp

lemma sp_best_Some:
  assumes "\<And>q. q \<in> set qs \<Longrightarrow> ev q \<noteq> [] \<Longrightarrow> has_serial (hd (ev q))"
    and "sp_best qs best ev = Ok (Some (q, s))"
    and "case best of None \<Rightarrow> True | Some (q', s') \<Rightarrow> best_ok ev q' s'"
  shows "best_ok ev q s \<and> (best = None \<longrightarrow> q \<in> set qs)
    \<and> (case best of None \<Rightarrow> True | Some (q', s') \<Rightarrow> \<not> py_less s' s \<and> (q = q' \<or> q \<in> set qs))
    \<and> (\<forall>q' \<in> set qs. ev q' \<noteq> [] \<longrightarrow> \<not> py_less (serial_of (hd (ev q'))) s)"
  using assms
proof (induction qs arbitrary: best)
  case Nil
  then show ?case by auto
next
  case (Cons p qs)
  show ?case
  proof (cases "ev p")
    case Nil
    with Cons.IH [of best] Cons.prems show ?thesis by (auto split: option.splits)
  next
    case (Cons e es)
    with Cons.prems(1) [of p] have ser: "getattr e serial_attr = Ok (serial_of e)"
      by (simp add: getattr_serial)
    define b where "b = (case best of None \<Rightarrow> Some (p, serial_of e)
        | Some (q', s') \<Rightarrow> if py_less (serial_of e) s' then Some (p, serial_of e) else best)"
    have res: "sp_best qs b ev = Ok (Some (q, s))"
      using Cons.prems(2) Cons ser by (cases best) (auto simp: b_def split: if_splits)
    have b: "case b of None \<Rightarrow> True | Some (q', s') \<Rightarrow> best_ok ev q' s'"
      using Cons.prems(3) Cons by (auto simp: b_def best_ok_def split: option.splits)
    have IH: "best_ok ev q s" "case b of None \<Rightarrow> True | Some (q', s') \<Rightarrow> \<not> py_less s' s \<and> (q = q' \<or> q \<in> set qs)"
      "\<forall>q' \<in> set qs. ev q' \<noteq> [] \<longrightarrow> \<not> py_less (serial_of (hd (ev q'))) s"
      using Cons.IH [of b] Cons.prems(1) res b by auto
    show ?thesis
    proof (cases best)
      case None
      then show ?thesis using IH Cons by (auto simp: b_def)
    next
      case (Some qs')
      obtain q' s' where best: "best = Some (q', s')" using Some by (cases qs') auto
      show ?thesis
      proof (cases "py_less (serial_of e) s'")
        case True
        then have "\<not> py_less (serial_of e) s" "q = p \<or> q \<in> set qs" using IH(2) best by (auto simp: b_def)
        moreover from this True have "\<not> py_less s' s" by (meson py_less_trans)
        ultimately show ?thesis using IH(1,3) best Cons by auto
      next
        case False
        then have "\<not> py_less s' s" "q = q' \<or> q \<in> set qs" using IH(2) best by (auto simp: b_def)
        moreover from this False have "\<not> py_less (serial_of e) s" by (meson not_py_less_trans)
        ultimately show ?thesis using IH(1,3) best Cons by auto
      qed
    qed
  qed
qed

subsection \<open>One call: what it delivers and what it keeps\<close>

definition ser_inv :: "adisp \<Rightarrow> bool" where
  "ser_inv a \<longleftrightarrow> (\<forall>q. \<forall>e \<in> set (a_ev a q). has_serial e)"

definition idle_inv :: "adisp \<Rightarrow> bool" where
  "idle_inv a \<longleftrightarrow> (\<forall>q. a_ev a q = [] \<or> a_cl a q = [])"

definition wait_inv :: "adisp \<Rightarrow> bool" where
  "wait_inv a \<longleftrightarrow> (\<forall>c. a_act a c \<longrightarrow> (\<forall>q \<in> set (a_qs a c). c \<in> set (a_cl a q)))"

definition ref_inv :: "adisp \<Rightarrow> bool" where
  "ref_inv a \<longleftrightarrow> (\<forall>c. distinct (a_qs a c)) \<and> (\<forall>q. finite {c. q \<in> set (a_qs a c)})
     \<and> (\<forall>q. a_ref a q = int (card {c. q \<in> set (a_qs a c)}))"

lemma sp_activate_cases:
  assumes "ser_inv a"
  obtains
    (wait) "sp_activate c a = (Ok None, a\<lparr>a_cl := (\<lambda>q. a_cl a q @ replicate (count_list (a_qs a c) q) c),
        a_act := (a_act a)(c := True)\<rparr>)" "\<forall>q \<in> set (a_qs a c). a_ev a q = []"
  | (deliver) q e es where "sp_activate c a = (Ok (Some (c, q, e)), a\<lparr>a_ev := (a_ev a)(q := es)\<rparr>)"
      "a_ev a q = e # es" "q \<in> set (a_qs a c)"
      "\<forall>q' \<in> set (a_qs a c). a_ev a q' \<noteq> [] \<longrightarrow> \<not> py_less (serial_of (hd (a_ev a q'))) (serial_of e)"
proof -
  have ser: "q \<in> set (a_qs a c) \<Longrightarrow> a_ev a q \<noteq> [] \<Longrightarrow> has_serial (hd (a_ev a q))" for q
    using assms hd_in_set [of "a_ev a q"] unfolding ser_inv_def by blast
  from sp_best_Ok [of "a_qs a c" "a_ev a" None] ser
  obtain r where r: "sp_best (a_qs a c) None (a_ev a) = Ok r" by auto
  show thesis
  proof (cases r)
    case None
    with r sp_best_None [of "a_qs a c" "a_ev a" None] ser show thesis
      by (intro wait) (auto simp: sp_activate_def)
  next
    case (Some qs)
    obtain q s where qs: "r = Some (q, s)" using Some by (cases qs) auto
    from sp_best_Some [of "a_qs a c" "a_ev a" None q s] r qs ser
    have b: "best_ok (a_ev a) q s" "q \<in> set (a_qs a c)"
      "\<forall>q' \<in> set (a_qs a c). a_ev a q' \<noteq> [] \<longrightarrow> \<not> py_less (serial_of (hd (a_ev a q'))) s" by auto
    then obtain e es where ev: "a_ev a q = e # es" by (cases "a_ev a q") (auto simp: best_ok_def)
    with b r qs show thesis
      by (intro deliver [of q e es]) (auto simp: sp_activate_def best_ok_def)
  qed
qed

lemma sp_enqueue_cases:
  obtains
    (keep) "sp_enqueue q e a = (None, a\<lparr>a_ev := (a_ev a)(q := a_ev a q @ [e]), a_cl := (a_cl a)(q := [])\<rparr>)"
      "\<forall>c \<in> set (a_cl a q). \<not> ready a q c"
  | (deliver) c cs pre where "sp_enqueue q e a = (Some (c, q, hd (a_ev a q @ [e])),
        a\<lparr>a_ev := (a_ev a)(q := tl (a_ev a q @ [e])), a_cl := (a_cl a)(q := cs),
          a_act := (a_act a)(c := False)\<rparr>)"
      "a_cl a q = pre @ c # cs" "ready a q c" "\<forall>c' \<in> set pre. \<not> ready a q c'"
proof (cases "dropWhile (\<lambda>c. \<not> ready a q c) (a_cl a q)")
  case Nil
  have "\<forall>c \<in> set (a_cl a q). \<not> ready a q c" using Nil by simp
  then show thesis by (intro keep) (simp_all add: sp_enqueue_def Nil del: dropWhile_eq_Nil_conv)
next
  case (Cons c cs)
  then have "ready a q c" using hd_dropWhile [of "\<lambda>c. \<not> ready a q c" "a_cl a q"] by simp
  moreover have "a_cl a q = takeWhile (\<lambda>c. \<not> ready a q c) (a_cl a q) @ c # cs"
    using Cons takeWhile_dropWhile_id [of "\<lambda>c. \<not> ready a q c" "a_cl a q"] by simp
  ultimately show thesis using Cons
    by (intro deliver [of c cs "takeWhile (\<lambda>c. \<not> ready a q c) (a_cl a q)"])
       (auto simp: sp_enqueue_def dest: set_takeWhileD)
qed

fun op_ok :: "dop \<Rightarrow> bool" where
  "op_ok (Op_Enqueue q e) = has_serial e"
| "op_ok _ = True"

text \<open>Conservation: on every queue, what is delivered and kept is what was there and came in.\<close>

lemma call_step_conserves:
  assumes "ser_inv a" and "op_ok x"
  shows "\<exists>r a'. call_step x a = (Ok r, a') \<and> ser_inv a'
    \<and> delivered q (opt_list r) @ a_ev a' q = a_ev a q @ enqueued q [x]"
proof (cases x)
  case (Op_Activate c)
  from assms(1) show ?thesis
  proof (cases rule: sp_activate_cases [where c = c])
    case wait
    then show ?thesis using assms(1) Op_Activate by (auto simp: ser_inv_def)
  next
    case (deliver p e es)
    moreover have "\<forall>x \<in> set es. has_serial x"
      using assms(1) deliver(2) by (metis list.set_intros(2) ser_inv_def)
    ultimately show ?thesis using assms(1) Op_Activate by (auto simp: ser_inv_def)
  qed
next
  case (Op_Enqueue p e)
  have s: "has_serial e" using assms(2) Op_Enqueue by simp
  show ?thesis
  proof (cases rule: sp_enqueue_cases [of p e a])
    case keep
    then show ?thesis using assms(1) Op_Enqueue s by (auto simp: ser_inv_def)
  next
    case (deliver c cs pre)
    have "set (tl (a_ev a p @ [e])) \<subseteq> insert e (set (a_ev a p))"
      by (cases "a_ev a p") auto
    moreover have "hd (a_ev a p @ [e]) # tl (a_ev a p @ [e]) = a_ev a p @ [e]"
      by (cases "a_ev a p") auto
    ultimately show ?thesis using deliver assms(1) Op_Enqueue s
      by (auto simp: ser_inv_def)
  qed
qed (use assms in \<open>auto simp: sp_attach_def ser_inv_def\<close>)

lemma call_step_idle:
  assumes "ser_inv a" and "idle_inv a"
  shows "idle_inv (snd (call_step x a))"
proof (cases x)
  case (Op_Activate c)
  from assms(1) show ?thesis
  proof (cases rule: sp_activate_cases [where c = c])
    case wait
    then have "q \<notin> set (a_qs a c) \<Longrightarrow> count_list (a_qs a c) q = 0" for q by simp
    with wait assms(2) Op_Activate show ?thesis
      by (auto simp: idle_inv_def)
  next
    case (deliver q e es)
    have "a_cl a q = []" using assms(2) deliver(2) unfolding idle_inv_def by (metis list.distinct(1))
    with deliver show ?thesis using assms(2) Op_Activate by (auto simp: idle_inv_def)
  qed
next
  case (Op_Enqueue p e)
  show ?thesis
  proof (cases rule: sp_enqueue_cases [of p e a])
    case keep
    then show ?thesis using assms(2) Op_Enqueue by (auto simp: idle_inv_def)
  next
    case (deliver c cs pre)
    then have "a_ev a p = []" using assms(2) by (auto simp: idle_inv_def)
    with deliver show ?thesis using assms(2) Op_Enqueue by (auto simp: idle_inv_def)
  qed
qed (use assms in \<open>auto simp: sp_attach_def idle_inv_def\<close>)

text \<open>
  A client that waits for an event sends nothing until it is answered: the protocol of
  \<open>protocol.py\<close> is synchronous. Such a client does not attach to a further queue.
\<close>

fun polite :: "dop \<Rightarrow> adisp \<Rightarrow> bool" where
  "polite (Op_Attach c q) a = (\<not> a_act a c)"
| "polite _ a = True"

lemma call_step_wait:
  assumes "ser_inv a" and "wait_inv a" and "polite x a"
  shows "wait_inv (snd (call_step x a))"
proof (cases x)
  case (Op_Activate c)
  from assms(1) show ?thesis
  proof (cases rule: sp_activate_cases [where c = c])
    case wait
    then have "q \<in> set (a_qs a c) \<Longrightarrow> c \<in> set (replicate (count_list (a_qs a c) q) c)" for q
      by (simp add: count_list_0_iff)
    with wait assms(2) Op_Activate show ?thesis by (auto simp: wait_inv_def)
  next
    case (deliver q e es)
    then show ?thesis using assms(2) Op_Activate by (auto simp: wait_inv_def)
  qed
next
  case (Op_Enqueue p e)
  show ?thesis
  proof (cases rule: sp_enqueue_cases [of p e a])
    case keep
    then show ?thesis using assms(2) Op_Enqueue by (fastforce simp: wait_inv_def ready_def)
  next
    case (deliver c cs pre)
    then show ?thesis using assms(2) Op_Enqueue by (fastforce simp: wait_inv_def ready_def)
  qed
qed (use assms in \<open>auto simp: sp_attach_def wait_inv_def\<close>)

lemma sp_attach_ref:
  assumes "ref_inv a"
  shows "ref_inv (sp_attach c q a)"
proof (cases "q \<in> set (a_qs a c)")
  case True
  with assms show ?thesis by (simp add: sp_attach_def)
next
  case False
  let ?a = "sp_attach c q a"
  have qs: "a_qs ?a = (a_qs a)(c := a_qs a c @ [q])" and ref: "a_ref ?a = (a_ref a)(q := a_ref a q + 1)"
    using False by (simp_all add: sp_attach_def)
  have sets: "{c'. p \<in> set (a_qs ?a c')} = (if p = q then insert c {c'. p \<in> set (a_qs a c')}
      else {c'. p \<in> set (a_qs a c')})" for p
    by (auto simp: qs)
  have fin: "finite {c'. p \<in> set (a_qs a c')}" and card: "a_ref a p = int (card {c'. p \<in> set (a_qs a c')})" for p
    using assms by (simp_all add: ref_inv_def)
  have "finite {c'. p \<in> set (a_qs ?a c')} \<and> a_ref ?a p = int (card {c'. p \<in> set (a_qs ?a c')})" for p
    using False by (simp only: sets ref) (simp add: fin card)
  moreover have "distinct (a_qs ?a c')" for c'
    using assms False by (simp add: qs ref_inv_def)
  ultimately show ?thesis by (simp add: ref_inv_def)
qed

lemma call_step_ref:
  assumes "ref_inv a"
  shows "ref_inv (snd (call_step x a))"
proof (cases x)
  case (Op_Attach c q)
  with assms show ?thesis by (simp add: sp_attach_ref)
next
  case (Op_Activate c)
  with assms show ?thesis
    by (auto simp: sp_activate_def ref_inv_def split: outcome.split option.split list.split)
next
  case (Op_Enqueue q e)
  with assms show ?thesis by (auto simp: sp_enqueue_def ref_inv_def split: list.split)
qed (use assms in simp)

text \<open>Every delivery to a client uses up one activation of that client.\<close>

fun activations :: "client \<Rightarrow> dop list \<Rightarrow> nat" where
  "activations c [] = 0"
| "activations c (Op_Activate c' # xs) = (if c' = c then Suc (activations c xs) else activations c xs)"
| "activations c (_ # xs) = activations c xs"

definition received :: "client \<Rightarrow> delivery list \<Rightarrow> nat" where
  "received c ds = length (filter (\<lambda>(c', q, e). c' = c) ds)"

lemma received_simps [simp]:
  "received c [] = 0"
  "received c ((c', q, e) # ds) = (if c' = c then Suc (received c ds) else received c ds)"
  "received c (ds @ ds') = received c ds + received c ds'"
  by (auto simp: received_def)

lemma call_step_budget:
  assumes "ser_inv a" and "call_step x a = (Ok r, a')"
  shows "received c (opt_list r) + of_bool (a_act a' c) \<le> activations c [x] + of_bool (a_act a c)"
proof (cases x)
  case (Op_Activate c')
  from assms(1) show ?thesis
    by (cases rule: sp_activate_cases [where c = c']) (use assms(2) Op_Activate in auto)
next
  case (Op_Enqueue p e)
  show ?thesis
    by (cases rule: sp_enqueue_cases [of p e a]) (use assms(2) Op_Enqueue in \<open>auto simp: ready_def split: if_splits\<close>)
qed (use assms in \<open>auto simp: sp_attach_def split: if_splits\<close>)

subsection \<open>Runs\<close>

lemma op_serials_Cons: "op_serials (x # xs) \<longleftrightarrow> op_ok x \<and> op_serials xs"
  by (cases x) auto

lemma enqueued_Cons: "enqueued q (x # xs) = enqueued q [x] @ enqueued q xs"
  by (cases x) auto

lemma activations_Cons: "activations c (x # xs) = activations c [x] + activations c xs"
  by (cases x) auto

text \<open>The induction used for all run lemmas: one call from \<open>d\<close> to \<open>d1\<close>, then the rest.\<close>

lemma run_ops_step:
  assumes "ser_inv (absd d)" and "op_serials (x # xs)"
  obtains r d1 where "dstep x d = (Ok r, d1)" and "call_step x (absd d) = (Ok r, absd d1)"
    and "ser_inv (absd d1)" and "op_serials xs"
    and "run_ops (x # xs) d = (map_ok (\<lambda>ds. opt_list r @ ds) (fst (run_ops xs d1)), snd (run_ops xs d1))"
proof -
  have "op_ok x" using assms(2) by (simp add: op_serials_Cons)
  from call_step_conserves [OF assms(1) this]
  obtain r a' where r: "call_step x (absd d) = (Ok r, a')" "ser_inv a'" by blast
  obtain d1 where d1: "dstep x d = (Ok r, d1)" "absd d1 = a'"
    using dstep_refines [of x d] r(1) by (cases "dstep x d") auto
  show thesis using r d1 assms(2) by (intro that [of r d1]) (auto simp: op_serials_Cons)
qed

lemma run_ops_total:
  "ser_inv (absd d) \<Longrightarrow> op_serials xs \<Longrightarrow> \<exists>ds. fst (run_ops xs d) = Ok ds"
proof (induction xs arbitrary: d)
  case (Cons x xs)
  from Cons.prems obtain r d1 where d1: "ser_inv (absd d1)" "op_serials xs"
    "run_ops (x # xs) d = (map_ok (\<lambda>ds. opt_list r @ ds) (fst (run_ops xs d1)), snd (run_ops xs d1))"
    by (rule run_ops_step)
  with Cons.IH show ?case by fastforce
qed simp

lemma run_ops_invariant:
  assumes "ser_inv (absd d)" and "op_serials xs" and "P (absd d)"
    and "\<And>x a. x \<in> set xs \<Longrightarrow> ser_inv a \<Longrightarrow> P a \<Longrightarrow> P (snd (call_step x a))"
  shows "P (absd (snd (run_ops xs d))) \<and> ser_inv (absd (snd (run_ops xs d)))"
  using assms
proof (induction xs arbitrary: d)
  case (Cons x xs)
  from Cons.prems(1,2) obtain r d1 where d1: "call_step x (absd d) = (Ok r, absd d1)"
    "ser_inv (absd d1)" "op_serials xs"
    "run_ops (x # xs) d = (map_ok (\<lambda>ds. opt_list r @ ds) (fst (run_ops xs d1)), snd (run_ops xs d1))"
    by (rule run_ops_step)
  have "P (absd d1)" using Cons.prems(4) [of x "absd d"] Cons.prems(1,3) d1(1) by simp
  with Cons.IH [of d1] d1 Cons.prems(4) show ?case by simp
qed simp

lemma run_ops_fifo:
  assumes "ser_inv (absd d)" and "op_serials xs" and "run_ops xs d = (Ok ds, d')"
  shows "delivered q ds @ a_ev (absd d') q = a_ev (absd d) q @ enqueued q xs"
  using assms
proof (induction xs arbitrary: d ds)
  case (Cons x xs)
  from Cons.prems(1,2) obtain r d1 where d1: "call_step x (absd d) = (Ok r, absd d1)"
    "ser_inv (absd d1)" "op_serials xs"
    "run_ops (x # xs) d = (map_ok (\<lambda>ds. opt_list r @ ds) (fst (run_ops xs d1)), snd (run_ops xs d1))"
    by (rule run_ops_step)
  from d1(4) Cons.prems(3) obtain ds1 where ds1: "run_ops xs d1 = (Ok ds1, d')" "ds = opt_list r @ ds1"
    by (cases "run_ops xs d1") (auto simp: outcome_simps)
  have "delivered q (opt_list r) @ a_ev (absd d1) q = a_ev (absd d) q @ enqueued q [x]"
    using call_step_conserves [of "absd d" x q] Cons.prems(1,2) d1(1) by (simp add: op_serials_Cons)
  moreover have "delivered q ds1 @ a_ev (absd d') q = a_ev (absd d1) q @ enqueued q xs"
    using Cons.IH d1 ds1 by simp
  ultimately show ?case using ds1(2) enqueued_Cons [of q x xs] by (metis append_assoc delivered_append)
qed simp

lemma run_ops_budget:
  assumes "ser_inv (absd d)" and "op_serials xs" and "run_ops xs d = (Ok ds, d')"
  shows "received c ds + of_bool (a_act (absd d') c) \<le> activations c xs + of_bool (a_act (absd d) c)"
  using assms
proof (induction xs arbitrary: d ds)
  case (Cons x xs)
  from Cons.prems(1,2) obtain r d1 where d1: "call_step x (absd d) = (Ok r, absd d1)"
    "ser_inv (absd d1)" "op_serials xs"
    "run_ops (x # xs) d = (map_ok (\<lambda>ds. opt_list r @ ds) (fst (run_ops xs d1)), snd (run_ops xs d1))"
    by (rule run_ops_step)
  from d1(4) Cons.prems(3) obtain ds1 where ds1: "run_ops xs d1 = (Ok ds1, d')" "ds = opt_list r @ ds1"
    by (cases "run_ops xs d1") (auto simp: outcome_simps)
  have "received c ds1 + of_bool (a_act (absd d') c) \<le> activations c xs + of_bool (a_act (absd d1) c)"
    using Cons.IH d1 ds1 by simp
  moreover have "received c (opt_list r) + of_bool (a_act (absd d1) c) \<le> activations c [x] + of_bool (a_act (absd d) c)"
    using call_step_budget [OF Cons.prems(1) d1(1)] .
  ultimately show ?case using ds1(2) activations_Cons [of c x xs] by simp
qed simp

fun polite_run :: "dop list \<Rightarrow> dispatcher \<Rightarrow> bool" where
  "polite_run [] d = True"
| "polite_run (x # xs) d = (polite x (absd d) \<and> polite_run xs (snd (dstep x d)))"

lemma run_ops_wait:
  assumes "ser_inv (absd d)" and "op_serials xs" and "wait_inv (absd d)" and "polite_run xs d"
  shows "wait_inv (absd (snd (run_ops xs d)))"
  using assms
proof (induction xs arbitrary: d)
  case (Cons x xs)
  from Cons.prems(1,2) obtain r d1 where d1: "dstep x d = (Ok r, d1)" "call_step x (absd d) = (Ok r, absd d1)"
    "ser_inv (absd d1)" "op_serials xs"
    "run_ops (x # xs) d = (map_ok (\<lambda>ds. opt_list r @ ds) (fst (run_ops xs d1)), snd (run_ops xs d1))"
    by (rule run_ops_step)
  have "wait_inv (absd d1)" using call_step_wait [of "absd d" x] Cons.prems d1(2) by simp
  with Cons.IH [of d1] d1 Cons.prems(4) show ?case by simp
qed simp

lemma new_inv: "ser_inv (absd new_dispatcher)" "idle_inv (absd new_dispatcher)"
  "wait_inv (absd new_dispatcher)" "ref_inv (absd new_dispatcher)"
  by (simp_all add: abs_new ser_inv_def idle_inv_def wait_inv_def ref_inv_def)

definition sample_run :: "dop list" where
  "sample_run = [Op_Attach 1 ''q'', Op_Attach 2 ''q'', Op_Attach 1 ''r'', Op_Enqueue ''q'' [(serial_attr, VInt 0)],
     Op_Activate 2, Op_Activate 1, Op_Enqueue ''r'' [(serial_attr, VInt 1)], Op_Enqueue ''r'' [(serial_attr, VInt 2)],
     Op_Activate 2]"

lemma sample_run_ok: "op_serials sample_run" "polite_run sample_run new_dispatcher"
  by code_simp+

lemma sample_run_result: "fst (run_ops sample_run new_dispatcher)
    = Ok [(2, ''q'', [(serial_attr, VInt 0)]), (1, ''r'', [(serial_attr, VInt 1)])]"
  by code_simp

lemma sample_run_state: "run_ops sample_run new_dispatcher
    = (Ok [(2, ''q'', [(serial_attr, VInt 0)]), (1, ''r'', [(serial_attr, VInt 1)])],
       snd (run_ops sample_run new_dispatcher))"
  using sample_run_result by (metis prod.collapse)

subsection \<open>Properties of the dispatcher\<close>

fun sp_run :: "dop list \<Rightarrow> adisp \<Rightarrow> delivery list outcome \<times> adisp" where
  "sp_run [] a = (Ok [], a)"
| "sp_run (x # xs) a =
     (case sp_step x a of
        (Raise e, a1) \<Rightarrow> (Raise e, a1)
      | (Ok r, a1) \<Rightarrow> (map_ok (\<lambda>ds. opt_list r @ ds) (fst (sp_run xs a1)), snd (sp_run xs a1)))"

lemma map_ok_Nil: "map_ok ((@) []) r = r"
  by (cases r) simp_all

lemma run_ops_refines:
  "fst (run_ops xs d) = fst (sp_run (filter (Not \<circ> is_detach) xs) (absd d))
   \<and> absd (snd (run_ops xs d)) = snd (sp_run (filter (Not \<circ> is_detach) xs) (absd d))"
proof (induction xs arbitrary: d)
  case (Cons x xs)
  obtain r d1 where d1: "dstep x d = (r, d1)" by fastforce
  have step: "call_step x (absd d) = (r, absd d1)" using dstep_refines [of x d] d1 by (metis fst_conv prod.collapse snd_conv)
  show ?case
  proof (cases "is_detach x")
    case True
    then have "r = Ok None" "absd d1 = absd d" using step by (simp_all add: call_step_def)
    with True d1 Cons.IH [of d1] show ?thesis by (simp add: map_ok_Nil)
  next
    case False
    then have "sp_step x (absd d) = (r, absd d1)" using step by (simp add: call_step_def)
    with False d1 Cons.IH [of d1] show ?thesis by (cases r) simp_all
  qed
qed simp

text \<open>
  C1 (dispatcher_refines): whatever calls are made on a dispatcher, the events it hands out and the state it leaves are
  those of the documented contract (\<open>attach\<close>, \<open>detach\<close>, \<open>activate\<close>, \<open>enqueue\<close> as their docstrings say) for the same
  calls without those of \<open>detach\<close>. At a call of \<open>detach\<close> the code departs from its contract: a client that is attached
  to the queue stays attached where the contract revokes its interest, and the generator the call returns raises an
  AttributeError when it is run, with nothing revoked either.
\<close>

theorem dispatcher_refines:
  "fst (run_ops xs new_dispatcher) = fst (sp_run (filter (Not \<circ> is_detach) xs) (absd new_dispatcher))
   \<and> absd (snd (run_ops xs new_dispatcher)) = snd (sp_run (filter (Not \<circ> is_detach) xs) (absd new_dispatcher))
   \<and> (q \<in> set (c_queue_ids (view_c d c)) \<longrightarrow>
        q \<notin> set (a_qs (snd (sp_step (Op_Detach c q) (absd d))) c)
        \<and> q \<in> set (c_queue_ids (view_c (snd (detach c q d)) c))
        \<and> fst (detach_next (fst (detach c q d)) d) = Raise (AttributeError ''queues'')
        \<and> q \<in> set (c_queue_ids (view_c (snd (detach_next (fst (detach c q d)) d)) c)))"
  using run_ops_refines [of xs new_dispatcher]
  by (auto simp: detach_def sp_detach_def Let_def split_beta view_c_abs)

theorem dispatcher_refines_witness:
  "fst (sp_run [Op_Attach 1 ''q'', Op_Enqueue ''q'' [(serial_attr, VInt 7)], Op_Activate 1] (absd new_dispatcher))
      = Ok [(1, ''q'', [(serial_attr, VInt 7)])]
   \<and> ''q'' \<notin> set (a_qs (snd (sp_step (Op_Detach 1 ''q'') (absd (attach 1 ''q'' new_dispatcher)))) 1)
   \<and> ''q'' \<in> set (c_queue_ids (view_c (snd (detach 1 ''q'' (attach 1 ''q'' new_dispatcher))) 1))"
proof -
  let ?xs = "[Op_Attach 1 ''q'', Op_Detach 1 ''q'', Op_Enqueue ''q'' [(serial_attr, VInt 7)], Op_Activate 1]"
  have "fst (run_ops ?xs new_dispatcher) = Ok [(1, ''q'', [(serial_attr, VInt 7)])]"
    "''q'' \<in> set (c_queue_ids (view_c (attach 1 ''q'' new_dispatcher) 1))"
    by code_simp+
  with dispatcher_refines [of ?xs "''q''" "attach 1 ''q'' new_dispatcher" 1] show ?thesis by simp
qed

text \<open>
  C2 (dispatcher_fifo): in any run whose events carry serials no call raises, and on every
  queue the events delivered so far followed by those still pending are exactly the events
  enqueued, in their order: nothing is lost, duplicated or reordered.
\<close>

theorem dispatcher_fifo:
  assumes "op_serials xs"
  shows "\<exists>ds d'. run_ops xs new_dispatcher = (Ok ds, d')
    \<and> (\<forall>q. delivered q ds @ q_events (view_q d' q) = enqueued q xs)"
proof -
  obtain ds d' where r: "run_ops xs new_dispatcher = (Ok ds, d')"
    using run_ops_total [OF new_inv(1) assms] by (cases "run_ops xs new_dispatcher") auto
  have "delivered q ds @ q_events (view_q d' q) = enqueued q xs" for q
    using run_ops_fifo [OF new_inv(1) assms r, of q] by (simp add: view_q_abs [symmetric] abs_new)
  with r show ?thesis by blast
qed

theorem dispatcher_fifo_witness:
  "\<exists>ds d'. run_ops sample_run new_dispatcher = (Ok ds, d')
    \<and> delivered ''r'' ds @ q_events (view_q d' ''r'') = [[(serial_attr, VInt 1)], [(serial_attr, VInt 2)]]"
  using dispatcher_fifo [OF sample_run_ok(1)] by (auto simp: sample_run_def)

text \<open>
  C29 (dispatcher_no_starvation): in any run in which clients wait for their answer before
  they attach again, a client marked as waiting has no pending event on any queue it is
  attached to, and no queue holds both pending events and waiting clients.
\<close>

theorem dispatcher_no_starvation:
  assumes "op_serials xs" and "polite_run xs new_dispatcher"
    and "run_ops xs new_dispatcher = (Ok ds, d')"
  shows "(\<forall>q. q_events (view_q d' q) = [] \<or> q_clients (view_q d' q) = [])
    \<and> (\<forall>c q. c_active (view_c d' c) \<longrightarrow> q \<in> set (c_queue_ids (view_c d' c)) \<longrightarrow> q_events (view_q d' q) = [])"
proof -
  have idle: "idle_inv (absd d')"
    using run_ops_invariant [OF new_inv(1) assms(1), of idle_inv, OF new_inv(2)] assms(3)
    by (simp add: call_step_idle)
  moreover have "wait_inv (absd d')"
    using run_ops_wait [OF new_inv(1) assms(1) new_inv(3) assms(2)] assms(3) by simp
  ultimately show ?thesis
    unfolding idle_inv_def wait_inv_def view_q_abs view_c_abs by (metis empty_iff empty_set)
qed

theorem dispatcher_no_starvation_witness:
  "c_active (view_c (snd (run_ops sample_run new_dispatcher)) 2)
    \<and> q_events (view_q (snd (run_ops sample_run new_dispatcher)) ''q'') = []"
proof -
  have "c_active (view_c (snd (run_ops sample_run new_dispatcher)) 2)"
    "''q'' \<in> set (c_queue_ids (view_c (snd (run_ops sample_run new_dispatcher)) 2))"
    by code_simp+
  then show ?thesis
    using dispatcher_no_starvation [OF sample_run_ok sample_run_state] by blast
qed

text \<open>
  (dispatcher_answers_once): a client is sent at most one event per activation, whatever
  other clients do; one activation fewer while it is still waiting.
\<close>

theorem dispatcher_answers_once:
  assumes "op_serials xs" and "run_ops xs new_dispatcher = (Ok ds, d')"
  shows "received c ds + of_bool (c_active (view_c d' c)) \<le> activations c xs"
  using run_ops_budget [OF new_inv(1) assms, of c] by (simp add: view_c_abs [symmetric] abs_new)

theorem dispatcher_answers_once_witness:
  "received 2 [(2, ''q'', [(serial_attr, VInt 0)]), (1, ''r'', [(serial_attr, VInt 1)])]
    + of_bool (c_active (view_c (snd (run_ops sample_run new_dispatcher)) 2)) \<le> (2::nat)"
  using dispatcher_answers_once [OF sample_run_ok(1) sample_run_state, of 2]
  by (simp add: sample_run_def)

text \<open>
  (dispatcher_references): after any run the reference count of a queue is the number of
  clients attached to it, and no client lists a queue twice.
\<close>

theorem dispatcher_references:
  assumes "op_serials xs" and "run_ops xs new_dispatcher = (Ok ds, d')"
  shows "q_references (view_q d' q) = int (card {c. q \<in> set (c_queue_ids (view_c d' c))})
    \<and> distinct (c_queue_ids (view_c d' c))"
proof -
  have "ref_inv (absd d')"
    using run_ops_invariant [OF new_inv(1) assms(1), of ref_inv, OF new_inv(4)] assms(2)
    by (simp add: call_step_ref)
  then show ?thesis by (simp add: ref_inv_def absd_def)
qed

theorem dispatcher_references_witness:
  "q_references (view_q (snd (run_ops sample_run new_dispatcher)) ''q'') =
     int (card {c. ''q'' \<in> set (c_queue_ids (view_c (snd (run_ops sample_run new_dispatcher)) c))})"
  using dispatcher_references [OF sample_run_ok(1) sample_run_state] by blast

text \<open>
  (activate_oldest_first): when a client asks for an event and some queue it is attached
  to has one, it gets the first event of one of these queues, and no attached queue starts
  with an event of a smaller serial; it waits only when all its queues are empty.
\<close>

theorem activate_oldest_first:
  assumes "\<forall>q. \<forall>e \<in> set (q_events (view_q d q)). has_serial e"
  shows "(\<exists>q e es. fst (activate c d) = Ok (Some (c, q, e)) \<and> q_events (view_q d q) = e # es
      \<and> q \<in> set (c_queue_ids (view_c d c))
      \<and> (\<forall>q' \<in> set (c_queue_ids (view_c d c)). q_events (view_q d q') \<noteq> [] \<longrightarrow>
           \<not> py_less (serial_of (hd (q_events (view_q d q')))) (serial_of e)))
    \<or> (fst (activate c d) = Ok None \<and> c_active (view_c (snd (activate c d)) c)
      \<and> (\<forall>q \<in> set (c_queue_ids (view_c d c)). q_events (view_q d q) = []))"
proof -
  have "ser_inv (absd d)" using assms by (simp add: ser_inv_def view_q_abs)
  then show ?thesis
  proof (cases rule: sp_activate_cases [where c = c])
    case wait
    have "absd (snd (activate c d)) = snd (sp_activate c (absd d))" by (simp add: abs_activate)
    with wait(1) have "a_act (absd (snd (activate c d))) c" by simp
    then have "c_active (view_c (snd (activate c d)) c)" by (simp only: view_c_abs)
    with wait show ?thesis by (simp add: abs_activate view_q_abs view_c_abs)
  next
    case (deliver q e es)
    then show ?thesis by (auto simp: abs_activate view_q_abs view_c_abs)
  qed
qed

theorem activate_oldest_first_witness:
  "let d = snd (run_ops [Op_Attach 1 ''q'', Op_Attach 1 ''r'', Op_Enqueue ''q'' [(serial_attr, VInt 5)],
      Op_Enqueue ''r'' [(serial_attr, VInt 3)]] new_dispatcher) in
   \<exists>q e es. fst (activate 1 d) = Ok (Some (1, q, e)) \<and> q_events (view_q d q) = e # es"
proof -
  define d where "d = snd (run_ops [Op_Attach 1 ''q'', Op_Attach 1 ''r'',
      Op_Enqueue ''q'' [(serial_attr, VInt 5)], Op_Enqueue ''r'' [(serial_attr, VInt 3)]] new_dispatcher)"
  have "d_queues d = [(''q'', \<lparr>q_references = 1, q_events = [[(serial_attr, VInt 5)]], q_clients = []\<rparr>),
      (''r'', \<lparr>q_references = 1, q_events = [[(serial_attr, VInt 3)]], q_clients = []\<rparr>)]"
    unfolding d_def by code_simp
  then have "\<forall>q. \<forall>e \<in> set (q_events (view_q d q)). has_serial e"
    by (auto simp: view_q_def new_qdata_def has_serial_def getattr_def)
  moreover have "''q'' \<in> set (c_queue_ids (view_c d 1))" "q_events (view_q d ''q'') \<noteq> []"
    unfolding d_def by code_simp+
  ultimately show ?thesis using activate_oldest_first [of d 1] unfolding d_def [symmetric] by auto
qed

end
