(* ===== verification/Events_Scheduler.thy ===== *)
theory Events_Scheduler
  imports Events_Base "HOL-Library.Word"
begin

unbundle bit_operations_syntax

section \<open>satori.events: choosing the next client\<close>

text \<open>
  The schedulers of \<open>master.py\<close> and \<open>slave.py\<close>. \<open>PollScheduler\<close> and
  \<open>SelectScheduler\<close> keep a map from file descriptors to clients and a queue of clients
  found readable; \<open>FifoScheduler\<close> is a plain queue. What \<open>select.poll\<close> and
  \<open>select.select\<close> report comes from outside: \<open>next\<close> takes the list of the reports to
  come and returns what is left of it; it blocks (\<open>None\<close>) when they run out.
  A client's file descriptor is looked up with \<open>fileno\<close>, which raises for a closed
  connection. The flags of poll are the Linux values.
\<close>

definition POLLIN :: int where "POLLIN = 1"
definition POLLERR :: int where "POLLERR = 8"
definition POLLHUP :: int where "POLLHUP = 16"

record poll_scheduler =
  waits :: "int list"
  fdmap :: "(int, client) dict"
  ps_ready :: "client list"

definition new_poll_scheduler :: poll_scheduler where
  "new_poll_scheduler = \<lparr>waits = [], fdmap = [], ps_ready = []\<rparr>"

definition poll_add :: "(client \<Rightarrow> int outcome) \<Rightarrow> client \<Rightarrow> poll_scheduler \<Rightarrow> unit outcome \<times> poll_scheduler" where
  "poll_add fileno c s =
     (case fileno c of
        Raise e \<Rightarrow> (Raise e, s)
      | Ok fd \<Rightarrow>
          if fd \<in> set (dkeys (fdmap s)) then (Ok (), s)
          else (Ok (), s\<lparr>fdmap := dset fd c (fdmap s), waits := sadd fd (waits s)\<rparr>))"

definition poll_remove :: "(client \<Rightarrow> int outcome) \<Rightarrow> client \<Rightarrow> poll_scheduler \<Rightarrow> unit outcome \<times> poll_scheduler" where
  "poll_remove fileno c s =
     (case fileno c of
        Raise e \<Rightarrow> (Raise e, s)
      | Ok fd \<Rightarrow>
          if fd \<notin> set (dkeys (fdmap s)) then (Ok (), s)
          else if fd \<notin> set (waits s) then (Raise KeyError, s)
          else (Ok (), s\<lparr>waits := sdel fd (waits s), fdmap := ddel fd (fdmap s)\<rparr>))"

text \<open>The body of \<open>for fileno, event in self.waits.poll()\<close>.\<close>

definition poll_report :: "(client \<Rightarrow> int outcome) \<Rightarrow> int \<times> int \<Rightarrow> poll_scheduler \<Rightarrow> unit outcome \<times> poll_scheduler" where
  "poll_report fileno r s =
     (let (fd, event) = r in
      case dget (fdmap s) fd of
        None \<Rightarrow> (Raise KeyError, s)
      | Some c \<Rightarrow>
          (case (if event AND (POLLERR OR POLLHUP) \<noteq> 0 then poll_remove fileno c s else (Ok (), s)) of
             (Raise e, s1) \<Rightarrow> (Raise e, s1)
           | (Ok _, s1) \<Rightarrow> (Ok (), s1\<lparr>ps_ready := ps_ready s1 @ [c]\<rparr>)))"

fun poll_next :: "(client \<Rightarrow> int outcome) \<Rightarrow> (int \<times> int) list list \<Rightarrow> poll_scheduler
    \<Rightarrow> client outcome option \<times> (int \<times> int) list list \<times> poll_scheduler" where
  "poll_next fileno polls s =
     (case ps_ready s of
        c # cs \<Rightarrow> (Some (Ok c), polls, s\<lparr>ps_ready := cs\<rparr>)
      | [] \<Rightarrow>
          (case polls of
             [] \<Rightarrow> (None, [], s)
           | p # ps \<Rightarrow>
               (case for_each (poll_report fileno) p s of
                  (Raise e, s1) \<Rightarrow> (Some (Raise e), ps, s1)
                | (Ok _, s1) \<Rightarrow> poll_next fileno ps s1)))"

declare poll_next.simps [simp del]

record select_scheduler =
  ss_fdmap :: "(int, client) dict"
  ss_ready :: "client list"

definition new_select_scheduler :: select_scheduler where
  "new_select_scheduler = \<lparr>ss_fdmap = [], ss_ready = []\<rparr>"

definition select_add :: "(client \<Rightarrow> int outcome) \<Rightarrow> client \<Rightarrow> select_scheduler \<Rightarrow> unit outcome \<times> select_scheduler" where
  "select_add fileno c s =
     (case fileno c of
        Raise e \<Rightarrow> (Raise e, s)
      | Ok fd \<Rightarrow>
          if fd \<in> set (dkeys (ss_fdmap s)) then (Ok (), s)
          else (Ok (), s\<lparr>ss_fdmap := dset fd c (ss_fdmap s)\<rparr>))"

definition select_remove :: "(client \<Rightarrow> int outcome) \<Rightarrow> client \<Rightarrow> select_scheduler \<Rightarrow> unit outcome \<times> select_scheduler" where
  "select_remove fileno c s =
     (case fileno c of
        Raise e \<Rightarrow> (Raise e, s)
      | Ok fd \<Rightarrow>
          if fd \<notin> set (dkeys (ss_fdmap s)) then (Ok (), s)
          else (Ok (), s\<lparr>ss_fdmap := ddel fd (ss_fdmap s)\<rparr>))"

definition select_report :: "int \<Rightarrow> select_scheduler \<Rightarrow> unit outcome \<times> select_scheduler" where
  "select_report fd s =
     (case dget (ss_fdmap s) fd of
        None \<Rightarrow> (Raise KeyError, s)
      | Some c \<Rightarrow> (Ok (), s\<lparr>ss_ready := ss_ready s @ [c]\<rparr>))"

fun select_next :: "int list list \<Rightarrow> select_scheduler
    \<Rightarrow> client outcome option \<times> int list list \<times> select_scheduler" where
  "select_next polls s =
     (case ss_ready s of
        c # cs \<Rightarrow> (Some (Ok c), polls, s\<lparr>ss_ready := cs\<rparr>)
      | [] \<Rightarrow>
          (case polls of
             [] \<Rightarrow> (None, [], s)
           | p # ps \<Rightarrow>
               (case for_each select_report p s of
                  (Raise e, s1) \<Rightarrow> (Some (Raise e), ps, s1)
                | (Ok _, s1) \<Rightarrow> select_next ps s1)))"

declare select_next.simps [simp del]

text \<open>\<open>FifoScheduler\<close>: \<open>next\<close> returns None when nothing is queued, \<open>remove\<close> does nothing.\<close>

definition fifo_next :: "client list \<Rightarrow> client option \<times> client list" where
  "fifo_next f = (case f of [] \<Rightarrow> (None, []) | c # cs \<Rightarrow> (Some c, cs))"

definition fifo_add :: "client \<Rightarrow> client list \<Rightarrow> client list" where
  "fifo_add c f = f @ [c]"

definition fifo_remove :: "client \<Rightarrow> client list \<Rightarrow> client list" where
  "fifo_remove c f = f"

subsection \<open>The interface: registration and the order of service\<close>

text \<open>
  What both descriptor schedulers promise. \<open>reg\<close> is the registration map, \<open>pending\<close> the
  clients already found readable, \<open>report\<close> one descriptor reported readable.
\<close>

locale fd_scheduler =
  fixes add :: "(client \<Rightarrow> int outcome) \<Rightarrow> client \<Rightarrow> 's \<Rightarrow> unit outcome \<times> 's"
    and remove :: "(client \<Rightarrow> int outcome) \<Rightarrow> client \<Rightarrow> 's \<Rightarrow> unit outcome \<times> 's"
    and report :: "int \<Rightarrow> 's \<Rightarrow> unit outcome \<times> 's"
    and reg :: "'s \<Rightarrow> int \<rightharpoonup> client"
    and pending :: "'s \<Rightarrow> client list"
    and inv :: "'s \<Rightarrow> bool"
  assumes add_law: "inv s \<Longrightarrow> fileno c = Ok fd \<Longrightarrow> \<exists>s'. add fileno c s = (Ok (), s') \<and> inv s'
      \<and> pending s' = pending s
      \<and> reg s' = (if reg s fd = None then (reg s)(fd \<mapsto> c) else reg s)"
    and remove_law: "inv s \<Longrightarrow> fileno c = Ok fd \<Longrightarrow> \<exists>s'. remove fileno c s = (Ok (), s') \<and> inv s'
      \<and> pending s' = pending s \<and> reg s' = (reg s)(fd := None)"
    and report_law: "inv s \<Longrightarrow> reg s fd = Some c \<Longrightarrow> \<exists>s'. report fd s = (Ok (), s') \<and> inv s'
      \<and> pending s' = pending s @ [c] \<and> reg s' = reg s"
begin

lemma add_remove:
  assumes "inv s" and "fileno c = Ok fd" and "reg s fd = None"
  shows "\<exists>s1 s2. add fileno c s = (Ok (), s1) \<and> remove fileno c s1 = (Ok (), s2) \<and> inv s2
    \<and> reg s2 = reg s \<and> pending s2 = pending s"
proof -
  obtain s1 where s1: "add fileno c s = (Ok (), s1)" "inv s1" "pending s1 = pending s"
      "reg s1 = (reg s)(fd \<mapsto> c)"
    using add_law [of s fileno c fd] assms by auto
  then show ?thesis using remove_law [of s1 fileno c fd] assms by (auto simp: fun_upd_idem)
qed

lemma reports_in_order:
  assumes "inv s" and "\<And>fd. fd \<in> set fds \<Longrightarrow> reg s fd \<noteq> None"
  shows "\<exists>s'. for_each report fds s = (Ok (), s') \<and> inv s' \<and> reg s' = reg s
    \<and> pending s' = pending s @ map (\<lambda>fd. the (reg s fd)) fds"
  using assms
proof (induction fds arbitrary: s)
  case (Cons fd fds)
  obtain c where c: "reg s fd = Some c" using Cons.prems(2) by fastforce
  then obtain s1 where "report fd s = (Ok (), s1)" "inv s1" "pending s1 = pending s @ [c]" "reg s1 = reg s"
    using report_law [OF Cons.prems(1) c] by auto
  with Cons.IH [of s1] Cons.prems(2) c show ?case by auto
qed simp

end

definition poll_inv :: "poll_scheduler \<Rightarrow> bool" where
  "poll_inv s \<longleftrightarrow> dict_ok (fdmap s) \<and> set (waits s) = set (dkeys (fdmap s)) \<and> distinct (waits s)"

text \<open>A report of plain readability (no error, no hang-up).\<close>

definition poll_readable :: "(client \<Rightarrow> int outcome) \<Rightarrow> int \<Rightarrow> poll_scheduler \<Rightarrow> unit outcome \<times> poll_scheduler" where
  "poll_readable fileno fd s = poll_report fileno (fd, POLLIN) s"

interpretation poll: fd_scheduler poll_add poll_remove "poll_readable fileno0"
  "\<lambda>s. dget (fdmap s)" ps_ready poll_inv
proof (unfold_locales, goal_cases)
  case (1 s fileno c fd)
  then show ?case
    by (auto simp: poll_add_def poll_inv_def dget_None_iff fun_eq_iff)
next
  case (2 s fileno c fd)
  then have "fd \<notin> set (dkeys (fdmap s)) \<Longrightarrow> (dget (fdmap s))(fd := None) = dget (fdmap s)"
    by (metis dget_None_iff fun_upd_triv)
  with 2 show ?case
    by (auto simp: poll_remove_def poll_inv_def fun_eq_iff)
next
  case (3 s fd c)
  then show ?case
    by (auto simp: poll_readable_def poll_report_def POLLIN_def POLLERR_def POLLHUP_def poll_inv_def)
qed

interpretation sel: fd_scheduler select_add select_remove select_report
  "\<lambda>s. dget (ss_fdmap s)" ss_ready "\<lambda>s. dict_ok (ss_fdmap s)"
proof (unfold_locales, goal_cases)
  case (1 s fileno c fd)
  then show ?case by (auto simp: select_add_def dget_None_iff fun_eq_iff)
next
  case (2 s fileno c fd)
  then have "fd \<notin> set (dkeys (ss_fdmap s)) \<Longrightarrow> (dget (ss_fdmap s))(fd := None) = dget (ss_fdmap s)"
    by (metis dget_None_iff fun_upd_triv)
  with 2 show ?case by (auto simp: select_remove_def fun_eq_iff)
next
  case (3 s fd c)
  then show ?case by (auto simp: select_report_def)
qed

subsection \<open>Service in the order of the reports\<close>

definition hung :: "int \<Rightarrow> bool" where
  "hung event \<longleftrightarrow> event AND (POLLERR OR POLLHUP) \<noteq> 0"

definition fds_ok :: "(client \<Rightarrow> int outcome) \<Rightarrow> poll_scheduler \<Rightarrow> bool" where
  "fds_ok fileno s \<longleftrightarrow> poll_inv s \<and> (\<forall>(fd, c) \<in> set (fdmap s). fileno c = Ok fd)"

lemma fds_okD: "fds_ok fileno s \<Longrightarrow> dget (fdmap s) fd = Some c \<Longrightarrow> fileno c = Ok fd"
  by (auto simp: fds_ok_def dest!: dget_SomeD)

lemma poll_report_law:
  assumes "fds_ok fileno s" and "dget (fdmap s) fd = Some c"
  shows "\<exists>s'. poll_report fileno (fd, ev) s = (Ok (), s') \<and> fds_ok fileno s'
    \<and> ps_ready s' = ps_ready s @ [c]
    \<and> dget (fdmap s') = (if hung ev then (dget (fdmap s))(fd := None) else dget (fdmap s))"
proof -
  have fd: "fileno c = Ok fd" using assms by (rule fds_okD)
  have inv: "poll_inv s" using assms(1) by (simp add: fds_ok_def)
  have sub: "set (ddel fd (fdmap s)) \<subseteq> set (fdmap s)"
    by (auto simp: ddel_def AList.delete_eq)
  obtain s1 where s1: "poll_remove fileno c s = (Ok (), s1)" "poll_inv s1" "ps_ready s1 = ps_ready s"
      "dget (fdmap s1) = (dget (fdmap s))(fd := None)"
    using poll.remove_law [of s fileno c fd] inv fd by auto
  then have "fdmap s1 = ddel fd (fdmap s)"
    using fd assms(2) by (auto simp: poll_remove_def dget_None_iff [symmetric] split: if_splits)
  with s1 sub assms(1) have "fds_ok fileno s1" by (auto simp: fds_ok_def)
  with s1 assms show ?thesis
    by (auto simp: poll_report_def hung_def [symmetric] fds_ok_def poll_inv_def)
qed

lemma poll_reports_law:
  assumes "fds_ok fileno s" and "distinct (map fst p)"
    and "\<forall>r \<in> set p. dget (fdmap s) (fst r) \<noteq> None"
  shows "\<exists>s'. for_each (poll_report fileno) p s = (Ok (), s') \<and> fds_ok fileno s'
    \<and> ps_ready s' = ps_ready s @ map (\<lambda>r. the (dget (fdmap s) (fst r))) p
    \<and> (\<forall>fd. dget (fdmap s') fd = (if \<exists>ev. (fd, ev) \<in> set p \<and> hung ev then None else dget (fdmap s) fd))"
  using assms
proof (induction p arbitrary: s)
  case (Cons r p)
  obtain fd ev where r: "r = (fd, ev)" by (cases r)
  obtain c where c: "dget (fdmap s) fd = Some c" using Cons.prems(3) r by auto
  obtain s1 where s1: "poll_report fileno (fd, ev) s = (Ok (), s1)" "fds_ok fileno s1"
    "ps_ready s1 = ps_ready s @ [c]"
    "dget (fdmap s1) = (if hung ev then (dget (fdmap s))(fd := None) else dget (fdmap s))"
    using poll_report_law [OF Cons.prems(1) c] by blast
  have other: "r' \<in> set p \<Longrightarrow> fst r' \<noteq> fd" for r'
    using Cons.prems(2) r by (auto simp: rev_image_eqI)
  then have same: "r' \<in> set p \<Longrightarrow> dget (fdmap s1) (fst r') = dget (fdmap s) (fst r')" for r'
    by (simp add: s1(4))
  obtain s' where s': "for_each (poll_report fileno) p s1 = (Ok (), s')" "fds_ok fileno s'"
    "ps_ready s' = ps_ready s1 @ map (\<lambda>r. the (dget (fdmap s1) (fst r))) p"
    "\<forall>fd. dget (fdmap s') fd = (if \<exists>ev. (fd, ev) \<in> set p \<and> hung ev then None else dget (fdmap s1) fd)"
    using Cons.IH [of s1] s1(2) Cons.prems(2,3) same by auto
  have m: "map (\<lambda>r. the (dget (fdmap s1) (fst r))) p = map (\<lambda>r. the (dget (fdmap s) (fst r))) p"
    using same by simp
  have nofd: "(fd, e) \<notin> set p" for e using other [of "(fd, e)"] by auto
  have "dget (fdmap s') fd' = (if \<exists>e. (fd', e) \<in> set (r # p) \<and> hung e then None else dget (fdmap s) fd')" for fd'
    using s'(4) s1(4) r nofd by auto
  with s' s1(1,3) m r c show ?case by auto
qed simp

fun poll_serve :: "nat \<Rightarrow> (client \<Rightarrow> int outcome) \<Rightarrow> (int \<times> int) list list \<Rightarrow> poll_scheduler
    \<Rightarrow> (client list \<times> (int \<times> int) list list \<times> poll_scheduler) option" where
  "poll_serve 0 fileno polls s = Some ([], polls, s)"
| "poll_serve (Suc n) fileno polls s =
     (case poll_next fileno polls s of
        (Some (Ok c), polls1, s1) \<Rightarrow>
          map_option (\<lambda>(cs, r). (c # cs, r)) (poll_serve n fileno polls1 s1)
      | _ \<Rightarrow> None)"

lemma poll_serve_ready:
  "n \<le> length (ps_ready s) \<Longrightarrow>
   poll_serve n fileno polls s = Some (take n (ps_ready s), polls, s\<lparr>ps_ready := drop n (ps_ready s)\<rparr>)"
proof (induction n arbitrary: s)
  case (Suc n)
  then obtain c cs where "ps_ready s = c # cs" by (cases "ps_ready s") auto
  with Suc show ?case by (simp add: poll_next.simps)
qed simp

text \<open>
  (poll_round_robin): when no client is queued, the descriptors of the next report are
  served once each, in the order of the report, before poll is called again; the clients
  reported with POLLERR or POLLHUP are unregistered but still handed out this once, all
  others stay registered.
\<close>

theorem poll_round_robin:
  assumes "fds_ok fileno s" and "ps_ready s = []" and "p \<noteq> []" and "distinct (map fst p)"
    and "\<forall>r \<in> set p. dget (fdmap s) (fst r) \<noteq> None"
  shows "\<exists>s'. poll_serve (length p) fileno (p # ps) s
      = Some (map (\<lambda>r. the (dget (fdmap s) (fst r))) p, ps, s')
    \<and> ps_ready s' = []
    \<and> (\<forall>fd. dget (fdmap s') fd = (if \<exists>ev. (fd, ev) \<in> set p \<and> hung ev then None else dget (fdmap s) fd))"
proof -
  obtain s1 where s1: "for_each (poll_report fileno) p s = (Ok (), s1)"
    "ps_ready s1 = map (\<lambda>r. the (dget (fdmap s) (fst r))) p"
    "\<forall>fd. dget (fdmap s1) fd = (if \<exists>ev. (fd, ev) \<in> set p \<and> hung ev then None else dget (fdmap s) fd)"
    using poll_reports_law [OF assms(1,4,5)] assms(2) by auto
  obtain n where n: "length p = Suc n" using assms(3) by (cases p) auto
  have "poll_next fileno (p # ps) s = poll_next fileno ps s1"
    using assms(2) s1(1) by (simp add: poll_next.simps [of fileno "p # ps" s])
  then have "poll_serve (length p) fileno (p # ps) s = poll_serve (length p) fileno ps s1"
    by (simp add: n)
  with poll_serve_ready [of "length p" s1 fileno ps] s1 show ?thesis by simp
qed

theorem poll_round_robin_witness:
  "\<exists>s'. poll_serve 2 (\<lambda>c. Ok (int c + 100)) [[(101, 1), (102, 16)]]
      \<lparr>waits = [101, 102], fdmap = [(101, 1), (102, 2)], ps_ready = []\<rparr> = Some ([1, 2], [], s')
    \<and> dget (fdmap s') 101 = Some 1 \<and> dget (fdmap s') 102 = None"
proof -
  let ?s = "\<lparr>waits = [101, 102], fdmap = [(101, 1), (102, 2)], ps_ready = []\<rparr>"
  have ok: "fds_ok (\<lambda>c. Ok (int c + 100)) ?s"
    by (simp add: fds_ok_def poll_inv_def dict_ok_def dkeys_def)
  have "hung 16" "\<not> hung 1" by (simp_all add: hung_def POLLERR_def POLLHUP_def)
  then show ?thesis
    using poll_round_robin [OF ok, of "[(101, 1), (102, 16)]" "[]"] by (auto simp: numeral_2_eq_2)
qed

end
