(* ===== verification/Events_Master.thy ===== *)
theory Events_Master
  imports Events_Mapper Events_Delivery Events_Scheduler
begin

section \<open>satori.events.master: the event master\<close>

text \<open>
  The master serves clients over connections (\<open>ConnectionClient\<close>) and accepts new ones on
  a listener (\<open>ListenerClient\<close>). Its world holds the mapper, the dispatcher, the
  scheduler, the serial counter and the client objects.
  \<^item> \<open>w_ends\<close>: the kind and file descriptor of every client object; \<open>w_closed\<close>: the
    clients whose connection the master closed; \<open>w_gone\<close>: those whose peer hung up.
    \<open>Connection.send\<close> raises IOError for both, and \<open>Connection.fileno\<close> for the former.
  \<^item> \<open>w_sent\<close>: the responses sent, in order.
  \<^item> \<open>incoming\<close>: what reading from a client gives; \<open>handle\<close>: the handlers of \<open>Master\<close>;
    \<open>manager_step\<close>, \<open>manager_run\<close>: the loop of \<open>Manager.run\<close>.
  A handler returns \<open>None\<close> only if drawing a fresh mapping id never ends.
\<close>

datatype endpoint = Connection int | Listener int

record world =
  w_mapper :: trivial_mapper
  w_disp :: dispatcher
  w_sched :: poll_scheduler
  w_serial :: int
  w_ends :: "(client, endpoint) dict"
  w_closed :: "client list"
  w_gone :: "client list"
  w_sent :: "(client \<times> response) list"

definition new_world :: world where
  "new_world = \<lparr>w_mapper = new_trivial_mapper, w_disp = new_dispatcher, w_sched = new_poll_scheduler,
     w_serial = 0, w_ends = [], w_closed = [], w_gone = [], w_sent = []\<rparr>"

fun endpoint_fd :: "endpoint \<Rightarrow> int" where
  "endpoint_fd (Connection fd) = fd"
| "endpoint_fd (Listener fd) = fd"

definition fileno_of :: "world \<Rightarrow> client \<Rightarrow> int outcome" where
  "fileno_of w c =
     (case dget (w_ends w) c of
        None \<Rightarrow> Raise (AttributeError ''fileno'')
      | Some x \<Rightarrow> if c \<in> set (w_closed w) then Raise IOError else Ok (endpoint_fd x))"

definition send_response :: "client \<Rightarrow> response \<Rightarrow> world \<Rightarrow> unit outcome \<times> world" where
  "send_response c r w =
     (case dget (w_ends w) c of
        Some (Listener _) \<Rightarrow> (Ok (), w)
      | _ \<Rightarrow> if c \<in> set (w_closed w) \<or> c \<in> set (w_gone w) then (Raise IOError, w)
             else (Ok (), w\<lparr>w_sent := w_sent w @ [(c, r)]\<rparr>))"

definition sched_add :: "client \<Rightarrow> world \<Rightarrow> unit outcome \<times> world" where
  "sched_add c w = (case poll_add (fileno_of w) c (w_sched w) of (r, s) \<Rightarrow> (r, w\<lparr>w_sched := s\<rparr>))"

definition sched_remove :: "client \<Rightarrow> world \<Rightarrow> unit outcome \<times> world" where
  "sched_remove c w = (case poll_remove (fileno_of w) c (w_sched w) of (r, s) \<Rightarrow> (r, w\<lparr>w_sched := s\<rparr>))"

text \<open>The constructors register the new client with the scheduler.\<close>

definition connection_client :: "client \<Rightarrow> int \<Rightarrow> world \<Rightarrow> unit outcome \<times> world" where
  "connection_client c fd w = sched_add c (w\<lparr>w_ends := dset c (Connection fd) (w_ends w)\<rparr>)"

definition listener_client :: "client \<Rightarrow> int \<Rightarrow> world \<Rightarrow> unit outcome \<times> world" where
  "listener_client c fd w = sched_add c (w\<lparr>w_ends := dset c (Listener fd) (w_ends w)\<rparr>)"

text \<open>\<open>Master.connectSlave\<close> and \<open>Master.listen\<close>.\<close>

definition connect_slave :: "client \<Rightarrow> int \<Rightarrow> world \<Rightarrow> unit outcome \<times> world" where
  "connect_slave c fd w = connection_client c fd w"

definition listen :: "client \<Rightarrow> int \<Rightarrow> world \<Rightarrow> unit outcome \<times> world" where
  "listen c fd w = listener_client c fd w"

definition disconnect :: "client \<Rightarrow> world \<Rightarrow> unit outcome \<times> world" where
  "disconnect c w =
     (case sched_remove c w of
        (Raise e, w1) \<Rightarrow> (Raise e, w1)
      | (Ok _, w1) \<Rightarrow> (Ok (), w1\<lparr>w_closed := sadd c (w_closed w1)\<rparr>))"

datatype incoming =
    Got command
  | Not_Command
  | Lost
  | Accepted client int
  | Accept_Failed

definition recv_connection :: "incoming \<Rightarrow> world \<Rightarrow> command outcome \<times> world" where
  "recv_connection i w =
     (case i of
        Got k \<Rightarrow> (Ok k, w)
      | Not_Command \<Rightarrow> (Raise ProtocolError, w)
      | _ \<Rightarrow> (Raise EOFError, w))"

definition recv_listener :: "incoming \<Rightarrow> world \<Rightarrow> command outcome \<times> world" where
  "recv_listener i w =
     (case i of
        Accepted c fd \<Rightarrow>
          (case connection_client c fd w of
             (Raise e, w1) \<Rightarrow> (Raise e, w1)
           | (Ok _, w1) \<Rightarrow> (Ok KeepAlive, w1))
      | _ \<Rightarrow> (Raise ProtocolError, w))"

definition recv_command :: "client \<Rightarrow> incoming \<Rightarrow> world \<Rightarrow> command outcome \<times> world" where
  "recv_command c i w =
     (case dget (w_ends w) c of
        Some (Listener _) \<Rightarrow> recv_listener i w
      | _ \<Rightarrow> recv_connection i w)"

text \<open>Performing the send that a dispatcher call ends with.\<close>

definition perform :: "delivery option outcome \<times> dispatcher \<Rightarrow> world \<Rightarrow> unit outcome \<times> world" where
  "perform rd w =
     (case rd of
        (Raise e, d) \<Rightarrow> (Raise e, w\<lparr>w_disp := d\<rparr>)
      | (Ok None, d) \<Rightarrow> (Ok (), w\<lparr>w_disp := d\<rparr>)
      | (Ok (Some (c, q, e)), d) \<Rightarrow> send_response c (REvent q e) (w\<lparr>w_disp := d\<rparr>))"

definition enqueue_to :: "event \<Rightarrow> queue_id \<Rightarrow> world \<Rightarrow> unit outcome \<times> world" where
  "enqueue_to e q w = perform (enqueue q e (w_disp w)) w"

definition handle_send :: "event \<Rightarrow> client \<Rightarrow> world \<Rightarrow> unit outcome \<times> world" where
  "handle_send event c w =
     (let n = w_serial w;
          e = setattr event serial_attr (VInt n);
          w1 = w\<lparr>w_serial := n + 1\<rparr> in
      case send_response c (RSerial n) w1 of
        (Raise x, w2) \<Rightarrow> (Raise x, w2)
      | (Ok _, w2) \<Rightarrow> for_each (enqueue_to e) (tm_resolve e (w_mapper w2)) w2)"

fun handle :: "(nat \<Rightarrow> mapping_id) \<Rightarrow> command \<Rightarrow> client \<Rightarrow> world \<Rightarrow> (unit outcome \<times> world) option" where
  "handle draw KeepAlive c w = Some (send_response c RNone w)"
| "handle draw Disconnect c w = Some (disconnect c w)"
| "handle draw (Attach q) c w = Some (send_response c RNone (w\<lparr>w_disp := attach c q (w_disp w)\<rparr>))"
| "handle draw (Detach q) c w = Some (send_response c RNone (w\<lparr>w_disp := snd (detach c q (w_disp w))\<rparr>))"
| "handle draw (Map cr q) c w =
     (case tm_map draw cr q (w_mapper w) of
        None \<Rightarrow> None
      | Some (i, m) \<Rightarrow> Some (send_response c (RMapping i) (w\<lparr>w_mapper := m\<rparr>)))"
| "handle draw (Unmap i) c w =
     (case tm_unmap i (w_mapper w) of
        (Raise e, m) \<Rightarrow> Some (Raise e, w\<lparr>w_mapper := m\<rparr>)
      | (Ok _, m) \<Rightarrow> Some (send_response c RNone (w\<lparr>w_mapper := m\<rparr>)))"
| "handle draw (Send e) c w = Some (handle_send e c w)"
| "handle draw Receive c w = Some (perform (activate c (w_disp w)) w)"

definition manager_step :: "(nat \<Rightarrow> mapping_id) \<Rightarrow> client \<Rightarrow> incoming \<Rightarrow> world \<Rightarrow> (unit outcome \<times> world) option" where
  "manager_step draw c i w =
     (case recv_command c i w of
        (Ok k, w1) \<Rightarrow> handle draw k c w1
      | (Raise e, w1) \<Rightarrow>
          if e = StopIteration then handle draw Disconnect c w1
          else Some (sched_remove c w1))"

datatype run_end = Waiting | Died exn | Drawing

text \<open>
  One element of the input list per iteration: the peers that hung up before it, and what
  reading from the chosen client gives.
\<close>

fun manager_run :: "(nat \<Rightarrow> mapping_id) \<Rightarrow> (client list \<times> incoming) list \<Rightarrow> (int \<times> int) list list
    \<Rightarrow> world \<Rightarrow> run_end \<times> world" where
  "manager_run draw [] polls w = (Waiting, w)"
| "manager_run draw ((gone, i) # is) polls w =
     (let w0 = w\<lparr>w_gone := gone @ w_gone w\<rparr> in
      case poll_next (fileno_of w0) polls (w_sched w0) of
        (None, _, s) \<Rightarrow> (Waiting, w0\<lparr>w_sched := s\<rparr>)
      | (Some (Raise e), _, s) \<Rightarrow> (Died e, w0\<lparr>w_sched := s\<rparr>)
      | (Some (Ok c), polls1, s) \<Rightarrow>
          (case manager_step draw c i (w0\<lparr>w_sched := s\<rparr>) of
             None \<Rightarrow> (Drawing, w0\<lparr>w_sched := s\<rparr>)
           | Some (Raise e, w1) \<Rightarrow> (Died e, w1)
           | Some (Ok _, w1) \<Rightarrow> manager_run draw is polls1 w1))"

end
