(* ===== verification/Events_Master_Props.thy ===== *)
theory Events_Master_Props
  imports Events_Master
begin

section \<open>Properties of the event master\<close>

text \<open>
  The invariant \<open>master_inv\<close> of a reachable master (every queue sorted by serial, all
  serials below the counter, the dispatcher invariants), kept by every iteration of the
  loop whether it succeeds or raises; then publishing, detaching, and the failures of the
  loop.
\<close>

definition serial_int :: "event \<Rightarrow> int" where
  "serial_int e = (case dget e serial_attr of Some (VInt n) \<Rightarrow> n | _ \<Rightarrow> 0)"

definition int_serial :: "event \<Rightarrow> bool" where
  "int_serial e \<longleftrightarrow> dget e serial_attr = Some (VInt (serial_int e))"

definition ev_inv :: "int \<Rightarrow> adisp \<Rightarrow> bool" where
  "ev_inv n a \<longleftrightarrow> (\<forall>q. sorted (map serial_int (a_ev a q))
     \<and> (\<forall>e \<in> set (a_ev a q). int_serial e \<and> serial_int e < n))"

definition sent_serials :: "(client \<times> response) list \<Rightarrow> int list" where
  "sent_serials l = List.map_filter (\<lambda>(c, r). case r of RSerial n \<Rightarrow> Some n | _ \<Rightarrow> None) l"

definition serials_inv :: "world \<Rightarrow> bool" where
  "serials_inv w \<longleftrightarrow> sorted_wrt (<) (sent_serials (w_sent w))
     \<and> (\<forall>n \<in> set (sent_serials (w_sent w)). n < w_serial w)"

definition master_inv :: "world \<Rightarrow> bool" where
  "master_inv w \<longleftrightarrow> idle_inv (absd (w_disp w)) \<and> ref_inv (absd (w_disp w))
     \<and> ev_inv (w_serial w) (absd (w_disp w)) \<and> tm_inv (w_mapper w) \<and> serials_inv w"

lemma ev_inv_ser: "ev_inv n a \<Longrightarrow> ser_inv a"
  by (auto simp: ev_inv_def ser_inv_def int_serial_def has_serial_def getattr_def)

lemma int_serial_of: "int_serial e \<Longrightarrow> serial_of e = VInt (serial_int e)"
  by (simp add: int_serial_def serial_of_def getattr_def)

lemma int_serial_setattr [simp]:
  "int_serial (setattr e serial_attr (VInt n))" "serial_int (setattr e serial_attr (VInt n)) = n"
  by (simp_all add: int_serial_def serial_int_def setattr_def)

lemma ev_inv_mono: "ev_inv n a \<Longrightarrow> n \<le> m \<Longrightarrow> ev_inv m a"
  by (fastforce simp: ev_inv_def)

lemma sent_serials_simps [simp]:
  "sent_serials [] = []"
  "sent_serials (l @ l') = sent_serials l @ sent_serials l'"
  "sent_serials [(c, RNone)] = []" "sent_serials [(c, RMapping i)] = []"
  "sent_serials [(c, REvent q e)] = []" "sent_serials [(c, RSerial n)] = [n]"
  by (simp_all add: sent_serials_def List.map_filter_def)

lemma ev_inv_tail:
  assumes "ev_inv n a" and "a_ev a q = e # es"
  shows "ev_inv n (a\<lparr>a_ev := (a_ev a)(q := es)\<rparr>)"
proof -
  have "sorted (map serial_int (e # es))" "\<forall>x \<in> set (e # es). int_serial x \<and> serial_int x < n"
    using assms unfolding ev_inv_def by metis+
  with assms(1) show ?thesis by (auto simp: ev_inv_def)
qed

lemma ev_inv_snoc:
  assumes "ev_inv (n + 1) a" and "int_serial e" and "serial_int e = n"
  shows "ev_inv (n + 1) (a\<lparr>a_ev := (a_ev a)(q := a_ev a q @ [e])\<rparr>)"
  using assms by (fastforce simp: ev_inv_def sorted_append)

lemma ev_inv_cong: "a_ev a = a_ev b \<Longrightarrow> ev_inv n a = ev_inv n b"
  by (simp add: ev_inv_def)

lemma ev_inv_enqueue:
  assumes "ev_inv (n + 1) a" and "int_serial e" and "serial_int e = n"
  shows "ev_inv (n + 1) (snd (sp_enqueue q e a))"
proof (cases rule: sp_enqueue_cases [of q e a])
  case keep
  with ev_inv_snoc [OF assms, of q] show ?thesis by (simp add: ev_inv_def)
next
  case (deliver c cs pre)
  let ?a = "a\<lparr>a_ev := (a_ev a)(q := a_ev a q @ [e])\<rparr>"
  obtain x xs where x: "a_ev a q @ [e] = x # xs" by (cases "a_ev a q @ [e]") auto
  have "ev_inv (n + 1) (?a\<lparr>a_ev := (a_ev ?a)(q := xs)\<rparr>)"
    using ev_inv_tail [OF ev_inv_snoc [OF assms, of q], of q x xs] x by simp
  with deliver x show ?thesis by (simp add: ev_inv_def)
qed

lemma ev_inv_activate:
  assumes "ev_inv n a"
  shows "ev_inv n (snd (sp_activate c a))"
  using ev_inv_ser [OF assms]
proof (cases rule: sp_activate_cases [where c = c])
  case wait
  with assms show ?thesis by (simp add: ev_inv_def)
next
  case (deliver q e es)
  with ev_inv_tail [OF assms] show ?thesis by simp
qed

subsection \<open>Every handler keeps the invariant\<close>

definition same_state :: "world \<Rightarrow> world \<Rightarrow> bool" where
  "same_state w w' \<longleftrightarrow> w_disp w' = w_disp w \<and> w_mapper w' = w_mapper w \<and> w_serial w' = w_serial w
     \<and> w_sent w' = w_sent w"

lemma master_inv_same: "same_state w w' \<Longrightarrow> master_inv w \<Longrightarrow> master_inv w'"
  by (simp add: same_state_def master_inv_def serials_inv_def)

lemma same_state_refl [simp]: "same_state w w"
  by (simp add: same_state_def)

lemma send_response_cases:
  obtains (sent) "send_response c r w = (Ok (), w\<lparr>w_sent := w_sent w @ [(c, r)]\<rparr>)"
  | (skipped) "send_response c r w = (Ok (), w)"
  | (failed) "send_response c r w = (Raise IOError, w)"
proof -
  have "send_response c r w = (Ok (), w\<lparr>w_sent := w_sent w @ [(c, r)]\<rparr>)
      \<or> send_response c r w = (Ok (), w) \<or> send_response c r w = (Raise IOError, w)"
    by (simp add: send_response_def split: option.split endpoint.split)
  with that show thesis by blast
qed

lemma send_response_inv:
  assumes "master_inv w" and "send_response c r w = (x, w')"
    and "\<And>n. r = RSerial n \<Longrightarrow> n < w_serial w \<and> (\<forall>m \<in> set (sent_serials (w_sent w)). m < n)"
  shows "master_inv w'"
proof (cases rule: send_response_cases [of c r w])
  case sent
  with assms show ?thesis
    by (cases r) (auto simp: master_inv_def serials_inv_def sorted_wrt_append)
qed (use assms in auto)

lemma sched_remove_same: "sched_remove c w = (r, w') \<Longrightarrow> same_state w w'"
  by (auto simp: sched_remove_def same_state_def split: prod.splits)

lemma sched_add_same: "sched_add c w = (r, w') \<Longrightarrow> same_state w w'"
  by (auto simp: sched_add_def same_state_def split: prod.splits)

lemma disconnect_same: "disconnect c w = (r, w') \<Longrightarrow> same_state w w'"
  by (auto simp: disconnect_def same_state_def split: prod.splits outcome.splits
      dest!: sched_remove_same)

lemma recv_command_same: "recv_command c i w = (r, w') \<Longrightarrow> same_state w w'"
  by (auto simp: recv_command_def recv_listener_def recv_connection_def connection_client_def
      same_state_def split: option.splits endpoint.splits incoming.splits prod.splits outcome.splits
      dest!: sched_add_same)

lemma perform_inv:
  assumes "master_inv w" and "perform rd w = (r, w')" and "idle_inv (absd (snd rd))"
    and "ref_inv (absd (snd rd))" and "ev_inv (w_serial w) (absd (snd rd))"
  shows "master_inv w'"
proof -
  have "master_inv (w\<lparr>w_disp := snd rd\<rparr>)"
    using assms by (simp add: master_inv_def serials_inv_def)
  with assms(2) show ?thesis
    by (cases rd) (auto simp: perform_def split: outcome.splits option.splits prod.splits
        elim!: send_response_inv)
qed

lemma perform_serial: "perform rd w = (r, w') \<Longrightarrow> w_serial w' = w_serial w"
  by (auto simp: perform_def send_response_def split: outcome.splits option.splits prod.splits
      endpoint.splits if_splits)

lemma enqueue_to_inv:
  assumes "master_inv w" and "int_serial e" and "serial_int e = w_serial w - 1"
    and "enqueue_to e q w = (r, w')"
  shows "master_inv w'"
proof -
  let ?rd = "enqueue q e (w_disp w)"
  have e: "absd (snd ?rd) = snd (call_step (Op_Enqueue q e) (absd (w_disp w)))"
    by (simp add: abs_enqueue)
  have i: "ser_inv (absd (w_disp w))" "idle_inv (absd (w_disp w))" "ref_inv (absd (w_disp w))"
    using assms(1) ev_inv_ser by (auto simp: master_inv_def)
  have "ev_inv (w_serial w) (absd (snd ?rd))"
    using ev_inv_enqueue [of "w_serial w - 1" "absd (w_disp w)" e q] assms
    by (simp add: abs_enqueue master_inv_def)
  with assms(1,4) show ?thesis
    by (intro perform_inv [of w ?rd r w'])
       (simp_all only: e enqueue_to_def call_step_idle [OF i(1,2)] call_step_ref [OF i(3)])
qed

lemma handle_send_inv:
  assumes "master_inv w" and "handle_send e c w = (r, w')"
  shows "master_inv w'"
proof -
  let ?n = "w_serial w"
  let ?e = "setattr e serial_attr (VInt ?n)"
  let ?w1 = "w\<lparr>w_serial := ?n + 1\<rparr>"
  have w1: "master_inv ?w1"
    using assms(1) by (auto simp: master_inv_def serials_inv_def intro: ev_inv_mono)
  obtain x w2 where x: "send_response c (RSerial ?n) ?w1 = (x, w2)" by fastforce
  have w2: "master_inv w2"
    using send_response_inv [OF w1 x] assms(1) by (auto simp: master_inv_def serials_inv_def)
  have s2: "w_serial w2 = ?n + 1"
    using x by (cases rule: send_response_cases [of c "RSerial ?n" ?w1]) auto
  show ?thesis
  proof (cases x)
    case (Raise y)
    with assms(2) x w2 show ?thesis by (simp add: handle_send_def)
  next
    case (Ok u)
    have loop: "for_each (enqueue_to ?e) (tm_resolve ?e (w_mapper w2)) w2 = (r, w')"
      using assms(2) x Ok by (simp add: handle_send_def Let_def)
    have "master_inv w' \<and> w_serial w' = ?n + 1"
    proof (rule for_each_invariant [OF _ _ loop, where P = "\<lambda>w. master_inv w \<and> w_serial w = ?n + 1"])
      fix q v y v'
      assume "master_inv v \<and> w_serial v = ?n + 1" "enqueue_to ?e q v = (y, v')"
      then show "master_inv v' \<and> w_serial v' = ?n + 1"
        using enqueue_to_inv [of v ?e q y v'] perform_serial by (auto simp: enqueue_to_def)
    qed (use w2 s2 in auto)
    then show ?thesis ..
  qed
qed

lemma handle_inv:
  assumes "master_inv w" and "handle draw k c w = Some (r, w')"
  shows "master_inv w'"
proof (cases k)
  case (Attach q)
  have "ref_inv (sp_attach c q (absd (w_disp w)))"
    using assms(1) by (simp add: master_inv_def sp_attach_ref)
  moreover have "idle_inv (sp_attach c q (absd (w_disp w)))" "ev_inv (w_serial w) (sp_attach c q (absd (w_disp w)))"
    using assms(1) by (auto simp: master_inv_def sp_attach_def idle_inv_def ev_inv_def)
  ultimately have "master_inv (w\<lparr>w_disp := attach c q (w_disp w)\<rparr>)"
    using assms(1) by (simp add: master_inv_def serials_inv_def abs_attach)
  with assms(2) Attach show ?thesis by (auto elim!: send_response_inv)
next
  case (Map cr q)
  then obtain i m where m: "tm_map draw cr q (w_mapper w) = Some (i, m)"
      "send_response c (RMapping i) (w\<lparr>w_mapper := m\<rparr>) = (r, w')"
    using assms(2) by (auto split: option.splits)
  then have "master_inv (w\<lparr>w_mapper := m\<rparr>)"
    using assms(1) tm.map_view [of "w_mapper w" draw cr q i m] by (auto simp: master_inv_def serials_inv_def)
  with m(2) show ?thesis by (auto elim!: send_response_inv)
next
  case (Unmap i)
  obtain x m where m: "tm_unmap i (w_mapper w) = (x, m)" by fastforce
  then have "tm_inv m" using assms(1) by (auto simp: tm_unmap_def master_inv_def tm_inv_def split: if_splits)
  then have "master_inv (w\<lparr>w_mapper := m\<rparr>)" using assms(1) by (simp add: master_inv_def serials_inv_def)
  with assms(2) Unmap m show ?thesis by (auto split: outcome.splits elim!: send_response_inv)
next
  case Receive
  let ?rd = "activate c (w_disp w)"
  have e: "absd (snd ?rd) = snd (call_step (Op_Activate c) (absd (w_disp w)))" by (simp add: abs_activate)
  have i: "ser_inv (absd (w_disp w))" "idle_inv (absd (w_disp w))" "ref_inv (absd (w_disp w))"
    "ev_inv (w_serial w) (absd (w_disp w))"
    using assms(1) ev_inv_ser by (auto simp: master_inv_def)
  have "ev_inv (w_serial w) (absd (snd ?rd))" using ev_inv_activate [OF i(4)] by (simp add: abs_activate)
  with assms Receive show ?thesis
    by (intro perform_inv [of w ?rd r w'])
       (simp_all add: e call_step_idle [OF i(1,2), of "Op_Activate c", simplified] call_step_ref [OF i(3), of "Op_Activate c", simplified])
next
  case Disconnect
  with assms show ?thesis by (auto dest!: disconnect_same intro: master_inv_same)
next
  case (Send e)
  with assms show ?thesis by (auto intro: handle_send_inv)
next
  case (Detach q)
  with assms show ?thesis by (auto simp: detach_def elim!: send_response_inv)
next
  case KeepAlive
  with assms show ?thesis by (auto elim!: send_response_inv)
qed

lemma manager_step_inv:
  assumes "master_inv w" and "manager_step draw c i w = Some (r, w')"
  shows "master_inv w'"
proof -
  obtain x w1 where x: "recv_command c i w = (x, w1)" by fastforce
  then have w1: "master_inv w1" using assms(1) recv_command_same master_inv_same by blast
  show ?thesis
  proof (cases x)
    case (Ok k)
    with assms(2) x w1 show ?thesis by (auto simp: manager_step_def intro: handle_inv)
  next
    case (Raise e)
    show ?thesis
    proof (cases "e = StopIteration")
      case True
      with assms(2) x w1 Raise have "handle draw Disconnect c w1 = Some (r, w')"
        by (simp add: manager_step_def)
      with w1 show ?thesis by (rule handle_inv)
    next
      case False
      with assms(2) x w1 Raise have "sched_remove c w1 = (r, w')" by (simp add: manager_step_def)
      with w1 show ?thesis using sched_remove_same master_inv_same by blast
    qed
  qed
qed

lemma manager_run_inv: "master_inv w \<Longrightarrow> manager_run draw is polls w = (r, w') \<Longrightarrow> master_inv w'"
proof (induction "is" arbitrary: polls w)
  case (Cons gi "is")
  obtain gone i where gi: "gi = (gone, i)" by (cases gi)
  let ?w0 = "w\<lparr>w_gone := gone @ w_gone w\<rparr>"
  obtain x polls1 s where n: "poll_next (fileno_of ?w0) polls (w_sched ?w0) = (x, polls1, s)"
    by (metis prod_cases3)
  have w0: "master_inv (?w0\<lparr>w_sched := s\<rparr>)" "master_inv ?w0"
    using Cons.prems(1) by (simp_all add: master_inv_def serials_inv_def)
  show ?case
  proof (cases x)
    case None
    with Cons.prems(2) n gi w0 show ?thesis by (auto simp: Let_def)
  next
    case (Some y)
    show ?thesis
    proof (cases y)
      case (Raise e)
      with Cons.prems(2) n gi Some w0 show ?thesis by (auto simp: Let_def)
    next
      case (Ok c)
      show ?thesis
      proof (cases "manager_step draw c i (?w0\<lparr>w_sched := s\<rparr>)")
        case None
        with Cons.prems(2) n gi Some Ok w0 show ?thesis by (auto simp: Let_def)
      next
        case (Some rw)
        obtain r1 w1 where rw: "rw = (r1, w1)" by (cases rw)
        have "master_inv w1" using manager_step_inv [OF w0(1)] Some rw by blast
        with Cons.prems(2) n gi \<open>x = Some y\<close> Ok Some rw Cons.IH [of w1 polls1] show ?thesis
          by (cases r1) (auto simp: Let_def)
      qed
    qed
  qed
qed simp

lemma master_inv_new: "master_inv new_world"
  using new_inv by (simp add: master_inv_def new_world_def serials_inv_def tm_inv_new ev_inv_def abs_new)

subsection \<open>Publishing\<close>

definition alive :: "world \<Rightarrow> client \<Rightarrow> bool" where
  "alive w c \<longleftrightarrow> c \<notin> set (w_closed w) \<and> c \<notin> set (w_gone w)
     \<and> (case dget (w_ends w) c of Some (Listener _) \<Rightarrow> False | _ \<Rightarrow> True)"

definition delivery_response :: "delivery \<Rightarrow> client \<times> response" where
  "delivery_response x = (case x of (c, q, e) \<Rightarrow> (c, REvent q e))"

lemma send_alive: "alive w c \<Longrightarrow> send_response c r w = (Ok (), w\<lparr>w_sent := w_sent w @ [(c, r)]\<rparr>)"
  by (auto simp: alive_def send_response_def split: option.splits endpoint.splits)

lemma sp_enqueue_act: "a_act (snd (sp_enqueue q e a)) c \<Longrightarrow> a_act a c"
  by (cases rule: sp_enqueue_cases [of q e a]) (auto split: if_splits)

lemma sp_enqueue_target: "fst (sp_enqueue q e a) = Some (c, q', x) \<Longrightarrow> a_act a c \<and> q' = q"
  by (cases rule: sp_enqueue_cases [of q e a]) (auto simp: ready_def)

lemma enqueue_loop_ok:
  assumes "ser_inv (absd (w_disp w))" and "has_serial e"
    and "\<And>c. a_act (absd (w_disp w)) c \<Longrightarrow> alive w c"
  shows "\<exists>ds d'. run_ops (map (\<lambda>q. Op_Enqueue q e) qs) (w_disp w) = (Ok ds, d')
    \<and> for_each (enqueue_to e) qs w =
        (Ok (), w\<lparr>w_disp := d', w_sent := w_sent w @ map delivery_response ds\<rparr>)"
  using assms
proof (induction qs arbitrary: w)
  case (Cons q qs)
  let ?d = "w_disp w"
  obtain o1 d1 where e: "enqueue q e ?d = (Ok o1, d1)" "sp_enqueue q e (absd ?d) = (o1, absd d1)"
    using abs_enqueue [of q e ?d] by (metis prod.collapse)
  have ser: "ser_inv (absd d1)"
    using call_step_conserves [OF Cons.prems(1), of "Op_Enqueue q e"] Cons.prems(2) e(2) by auto
  have act: "a_act (absd d1) c \<Longrightarrow> alive w c" for c
    using sp_enqueue_act [of q e "absd ?d" c] e(2) Cons.prems(3) by simp
  define w1 where "w1 = w\<lparr>w_disp := d1, w_sent := w_sent w @ map delivery_response (opt_list o1)\<rparr>"
  have w1: "enqueue_to e q w = (Ok (), w1)"
  proof (cases o1)
    case None
    then show ?thesis by (simp add: enqueue_to_def perform_def e w1_def)
  next
    case (Some x)
    obtain c q' y where x: "x = (c, q', y)" by (cases x)
    have "alive w c" using sp_enqueue_target [of q e "absd ?d" c q' y] e(2) Some x Cons.prems(3) by simp
    then have "alive (w\<lparr>w_disp := d1\<rparr>) c" by (simp add: alive_def)
    with Some x show ?thesis
      by (simp add: enqueue_to_def perform_def e w1_def send_alive delivery_response_def)
  qed
  have "alive w1 c = alive w c" for c by (simp add: w1_def alive_def)
  then obtain ds d' where ds: "run_ops (map (\<lambda>q. Op_Enqueue q e) qs) d1 = (Ok ds, d')"
    "for_each (enqueue_to e) qs w1 = (Ok (), w1\<lparr>w_disp := d', w_sent := w_sent w1 @ map delivery_response ds\<rparr>)"
    using Cons.IH [of w1] ser act Cons.prems(2) by (auto simp: w1_def)
  show ?case using e ds w1
    by (intro exI [of _ "opt_list o1 @ ds"] exI [of _ d']) (simp add: w1_def)
qed simp

lemma op_serials_enqueue: "has_serial e \<Longrightarrow> op_serials (map (\<lambda>q. Op_Enqueue q e) qs)"
  by (induction qs) auto

lemma enqueued_map: "enqueued q (map (\<lambda>q. Op_Enqueue q e) qs) = replicate (count_list qs q) e"
  by (induction qs) auto

lemma count_resolve_in:
  "count_list (resolve_in ms e) q = length (filter (\<lambda>(i, c, q'). q' = q \<and> matches c e) ms)"
  by (induction ms e rule: resolve_in.induct) auto

text \<open>
  (master_publish): when no connection in use is broken, a Send succeeds: the sender is
  answered the serial, which is the counter before the call, and then on every queue the
  event, with this serial set, is added once per mapping to that queue whose criteria match;
  what is not delivered at once to waiting clients stays pending, in order.
\<close>

theorem master_publish:
  assumes "master_inv w" and "alive w c" and "\<forall>c'. c_active (view_c (w_disp w) c') \<longrightarrow> alive w c'"
  shows "\<exists>w' ds. handle draw (Send e) c w = Some (Ok (), w')
    \<and> w_sent w' = w_sent w @ (c, RSerial (w_serial w)) # map delivery_response ds
    \<and> w_serial w' = w_serial w + 1
    \<and> (\<forall>q. let e' = setattr e serial_attr (VInt (w_serial w)) in
         delivered q ds @ q_events (view_q (w_disp w') q) = q_events (view_q (w_disp w) q)
           @ replicate (length (filter (\<lambda>(i, cr, q'). q' = q \<and> matches cr e') (mappings (w_mapper w)))) e')"
proof -
  let ?e = "setattr e serial_attr (VInt (w_serial w))"
  define w2 where "w2 = w\<lparr>w_serial := w_serial w + 1, w_sent := w_sent w @ [(c, RSerial (w_serial w))]\<rparr>"
  have "alive (w\<lparr>w_serial := w_serial w + 1\<rparr>) c" using assms(2) by (simp add: alive_def)
  then have s: "send_response c (RSerial (w_serial w)) (w\<lparr>w_serial := w_serial w + 1\<rparr>) = (Ok (), w2)"
    by (simp add: send_alive w2_def)
  have ser: "ser_inv (absd (w_disp w2))" and has: "has_serial ?e"
    using assms(1) ev_inv_ser
    by (auto simp: master_inv_def w2_def has_serial_def getattr_setattr)
  have "a_act (absd (w_disp w2)) c' \<Longrightarrow> alive w2 c'" for c'
    using assms(3) by (simp add: w2_def alive_def view_c_abs)
  from enqueue_loop_ok [OF ser has this, where qs = "tm_resolve ?e (w_mapper w2)"]
  obtain ds d' where ds: "run_ops (map (\<lambda>q. Op_Enqueue q ?e) (tm_resolve ?e (w_mapper w2))) (w_disp w2) = (Ok ds, d')"
    "for_each (enqueue_to ?e) (tm_resolve ?e (w_mapper w2)) w2
      = (Ok (), w2\<lparr>w_disp := d', w_sent := w_sent w2 @ map delivery_response ds\<rparr>)"
    by auto
  have "delivered q ds @ q_events (view_q d' q) = q_events (view_q (w_disp w) q)
      @ replicate (count_list (tm_resolve ?e (w_mapper w)) q) ?e" for q
    using run_ops_fifo [OF ser op_serials_enqueue [OF has] ds(1), of q]
    by (simp add: enqueued_map view_q_abs w2_def)
  with s ds(2) show ?thesis
    by (auto simp: handle_send_def Let_def w2_def tm_resolve_def count_resolve_in)
qed

definition publish_world :: world where
  "publish_world = new_world\<lparr>
     w_mapper := \<lparr>mappings = [(''i'', [(''kind'', VInt 1)], ''q''), (''j'', [], ''r'')], draws = 2\<rparr>,
     w_ends := [(1, Connection 11), (2, Connection 12)],
     w_disp := snd (run_ops [Op_Attach 2 ''q'', Op_Activate 2] new_dispatcher)\<rparr>"

lemma publish_world_disp: "w_disp publish_world =
    \<lparr>d_queues = [(''q'', \<lparr>q_references = 1, q_events = [], q_clients = [2]\<rparr>)],
     d_clients = [(2, \<lparr>c_queue_ids = [''q''], c_active = True\<rparr>)]\<rparr>"
  unfolding publish_world_def by code_simp

lemma publish_world_inv: "master_inv publish_world"
proof -
  have c: "{c::nat. q \<in> set (c_queue_ids (view_c (w_disp publish_world) c))} = (if q = ''q'' then {2} else {})" for q
    by (auto simp: publish_world_disp view_c_def new_cdata_def)
  have "ref_inv (absd (w_disp publish_world))"
    unfolding ref_inv_def view_c_abs c
    by (auto simp: publish_world_disp absd_def view_q_def view_c_def new_cdata_def new_qdata_def)
  moreover have "w_serial publish_world = 0" "w_sent publish_world = []"
    "mappings (w_mapper publish_world) = [(''i'', [(''kind'', VInt 1)], ''q''), (''j'', [], ''r'')]"
    by (simp_all add: publish_world_def new_world_def)
  ultimately show ?thesis
    by (auto simp: master_inv_def idle_inv_def ev_inv_def tm_inv_def serials_inv_def
        publish_world_disp absd_def view_q_def new_qdata_def dict_ok_def)
qed

theorem master_publish_witness:
  "\<exists>w' ds. handle (\<lambda>n. ''x'') (Send [(''kind'', VInt 1)]) 1 publish_world = Some (Ok (), w')
    \<and> w_sent w' = (1, RSerial 0) # map delivery_response ds
    \<and> delivered ''q'' ds @ q_events (view_q (w_disp w') ''q'') = [[(''kind'', VInt 1), (serial_attr, VInt 0)]]"
proof -
  have a: "alive publish_world 1" by (simp add: alive_def publish_world_def new_world_def)
  have act: "\<forall>c'. c_active (view_c (w_disp publish_world) c') \<longrightarrow> alive publish_world c'"
    by (auto simp: publish_world_disp view_c_def new_cdata_def alive_def)
      (simp_all add: publish_world_def new_world_def)
  have w: "w_serial publish_world = 0" "w_sent publish_world = []"
    "mappings (w_mapper publish_world) = [(''i'', [(''kind'', VInt 1)], ''q''), (''j'', [], ''r'')]"
    by (simp_all add: publish_world_def new_world_def)
  obtain w' ds where r: "handle (\<lambda>n. ''x'') (Send [(''kind'', VInt 1)]) 1 publish_world = Some (Ok (), w')"
    "w_sent w' = (1, RSerial 0) # map delivery_response ds"
    "delivered ''q'' ds @ q_events (view_q (w_disp w') ''q'')
      = [setattr [(''kind'', VInt 1)] serial_attr (VInt 0)]"
    using master_publish [OF publish_world_inv a act, of "\<lambda>n. ''x''" "[(''kind'', VInt 1)]"]
    by (auto simp: w publish_world_disp Let_def setattr_def view_q_def dget_def_val_def)
  then show ?thesis by (auto simp: setattr_def)
qed

subsection \<open>Runs of the master\<close>

lemma listen_inv: "master_inv w \<Longrightarrow> master_inv (snd (listen c fd w))"
proof (rule master_inv_same)
  show "same_state w (snd (listen c fd w))"
    using sched_add_same [of c "w\<lparr>w_ends := dset c (Listener fd) (w_ends w)\<rparr>"]
    by (cases "listen c fd w") (auto simp: listen_def listener_client_def same_state_def)
qed

text \<open>
  C3 (master_run_invariant): in every run of the master, from a fresh master with a listener,
  for any hang-ups, requests and poll reports, and also when the run ends with an exception:
  the serials answered to senders increase strictly and stay below the counter, the events
  pending on a queue are in the order of their serials, no queue holds both pending events
  and waiting clients, and the reference counts are the numbers of attached clients.
\<close>

theorem master_run_invariant:
  "let w' = snd (manager_run draw is polls (snd (listen c fd new_world))); d = w_disp w' in
   sorted_wrt (<) (sent_serials (w_sent w')) \<and> list_all (\<lambda>n. n < w_serial w') (sent_serials (w_sent w'))
   \<and> (\<forall>q. sorted (map serial_int (q_events (view_q d q)))
        \<and> list_all (\<lambda>e. dget e serial_attr = Some (VInt (serial_int e)) \<and> serial_int e < w_serial w')
            (q_events (view_q d q))
        \<and> (q_events (view_q d q) = [] \<or> q_clients (view_q d q) = [])
        \<and> q_references (view_q d q) = int (card {c. q \<in> set (c_queue_ids (view_c d c))}))"
proof -
  define w' where "w' = snd (manager_run draw is polls (snd (listen c fd new_world)))"
  have "master_inv w'"
    using manager_run_inv [OF listen_inv [OF master_inv_new]] unfolding w'_def by (metis prod.collapse)
  then have ser: "serials_inv w'" and ev: "ev_inv (w_serial w') (absd (w_disp w'))"
    and idle: "idle_inv (absd (w_disp w'))" and ref: "ref_inv (absd (w_disp w'))"
    by (simp_all add: master_inv_def)
  from ref have "q_references (view_q (w_disp w') q) = int (card {c. q \<in> set (c_queue_ids (view_c (w_disp w') c))})" for q
    by (simp add: ref_inv_def absd_def)
  with ser ev idle show ?thesis unfolding w'_def [symmetric]
    by (simp add: serials_inv_def ev_inv_def idle_inv_def int_serial_def view_q_abs list_all_iff)
qed

text \<open>
  (master_detach_noop): the handler of Detach does nothing but answer: it is the handler of
  KeepAlive, since \<open>Dispatcher.detach\<close> is a generator that nobody runs.
\<close>

theorem master_detach_noop: "handle draw (Detach q) c w = handle draw KeepAlive c w"
  by (simp add: detach_def)

text \<open>
  (master_isolates_broken_reads): when reading from a connection fails (the peer is gone or
  sent something that is no command), the client leaves the poll set and nothing else of the
  master changes; the run goes on.
\<close>

theorem master_isolates_broken_reads:
  assumes "dget (w_ends w) c = Some (Connection fd)" and "c \<notin> set (w_closed w)"
    and "poll_inv (w_sched w)" and "i = Lost \<or> i = Not_Command"
  shows "\<exists>s. manager_step draw c i w = Some (Ok (), w\<lparr>w_sched := s\<rparr>)
    \<and> (\<forall>fd'. dget (fdmap s) fd' = (if fd' = fd then None else dget (fdmap (w_sched w)) fd'))
    \<and> set (waits s) = set (waits (w_sched w)) - {fd} \<and> ps_ready s = ps_ready (w_sched w)"
proof -
  have "fileno_of w c = Ok fd" using assms(1,2) by (simp add: fileno_of_def)
  then have "\<exists>s. poll_remove (fileno_of w) c (w_sched w) = (Ok (), s)
    \<and> (\<forall>fd'. dget (fdmap s) fd' = (if fd' = fd then None else dget (fdmap (w_sched w)) fd'))
    \<and> set (waits s) = set (waits (w_sched w)) - {fd} \<and> ps_ready s = ps_ready (w_sched w)"
    using assms(3) by (cases "fd \<in> set (dkeys (fdmap (w_sched w)))")
      (auto simp: poll_remove_def poll_inv_def dget_None_iff)
  then obtain s where "poll_remove (fileno_of w) c (w_sched w) = (Ok (), s)"
    "\<forall>fd'. dget (fdmap s) fd' = (if fd' = fd then None else dget (fdmap (w_sched w)) fd')"
    "set (waits s) = set (waits (w_sched w)) - {fd}" "ps_ready s = ps_ready (w_sched w)" by blast
  with assms(1,4) show ?thesis
    by (auto simp: manager_step_def recv_command_def recv_connection_def sched_remove_def)
qed

theorem master_isolates_broken_reads_witness:
  "\<exists>s. manager_step (\<lambda>n. ''x'') 1 Lost (new_world\<lparr>w_ends := [(1, Connection 11), (2, Connection 12)],
       w_sched := \<lparr>waits = [11, 12], fdmap = [(11, 1), (12, 2)], ps_ready = [2]\<rparr>\<rparr>)
     = Some (Ok (), new_world\<lparr>w_ends := [(1, Connection 11), (2, Connection 12)], w_sched := s\<rparr>)
     \<and> set (waits s) = {12} \<and> ps_ready s = [2]"
  using master_isolates_broken_reads [of "new_world\<lparr>w_ends := [(1, Connection 11), (2, Connection 12)],
       w_sched := \<lparr>waits = [11, 12], fdmap = [(11, 1), (12, 2)], ps_ready = [2]\<rparr>\<rparr>" 1 11 Lost "\<lambda>n. ''x''"]
  by (force simp: new_world_def poll_inv_def dict_ok_def dkeys_def)

text \<open>
  (master_dead_waiter): if the first client waiting on a queue has hung up, the next event
  sent to that queue ends the run of the master: the send to the dead client raises out of
  the handler of the sender. The sender has its serial by then, but the event is gone: it
  is pending nowhere and was delivered to nobody.
\<close>

theorem master_dead_waiter:
  assumes "tm_resolve (setattr e serial_attr (VInt (w_serial w))) (w_mapper w) = q # qs"
    and "alive w c" and "dget (w_ends w) c' = Some (Connection fd)" and "c' \<in> set (w_gone w)"
    and "q_clients (view_q (w_disp w) q) = c' # cs" and "q_events (view_q (w_disp w) q) = []"
    and "c_active (view_c (w_disp w) c')" and "q \<in> set (c_queue_ids (view_c (w_disp w) c'))"
  shows "\<exists>w'. handle draw (Send e) c w = Some (Raise IOError, w')
    \<and> w_sent w' = w_sent w @ [(c, RSerial (w_serial w))]
    \<and> (\<forall>q'. q_events (view_q (w_disp w') q') = q_events (view_q (w_disp w) q'))"
proof -
  let ?e = "setattr e serial_attr (VInt (w_serial w))"
  define w2 where "w2 = w\<lparr>w_serial := w_serial w + 1, w_sent := w_sent w @ [(c, RSerial (w_serial w))]\<rparr>"
  have s: "send_response c (RSerial (w_serial w)) (w\<lparr>w_serial := w_serial w + 1\<rparr>) = (Ok (), w2)"
    using assms(2) by (simp add: send_alive alive_def w2_def)
  have sp: "sp_enqueue q ?e (absd (w_disp w)) = (Some (c', q, ?e), (absd (w_disp w))
      \<lparr>a_ev := (a_ev (absd (w_disp w)))(q := []), a_cl := (a_cl (absd (w_disp w)))(q := cs),
       a_act := (a_act (absd (w_disp w)))(c' := False)\<rparr>)"
    using assms(5-8) by (simp add: sp_enqueue_def ready_def view_q_abs view_c_abs)
  obtain d' where d': "enqueue q ?e (w_disp w) = (Ok (Some (c', q, ?e)), d')"
    "a_ev (absd d') = (a_ev (absd (w_disp w)))(q := [])"
    using abs_enqueue [of q ?e "w_disp w"] sp by (cases "enqueue q ?e (w_disp w)") auto
  have "enqueue_to ?e q w2 = (Raise IOError, w2\<lparr>w_disp := d'\<rparr>)"
    using d'(1) assms(3,4) by (simp add: enqueue_to_def perform_def w2_def send_response_def)
  with s assms(1) have "handle draw (Send e) c w = Some (Raise IOError, w2\<lparr>w_disp := d'\<rparr>)"
    by (simp add: handle_send_def Let_def w2_def)
  moreover have "q_events (view_q d' q') = q_events (view_q (w_disp w) q')" for q'
    using d'(2) assms(6) by (simp add: view_q_abs [symmetric])
  ultimately show ?thesis by (intro exI [of _ "w2\<lparr>w_disp := d'\<rparr>"]) (simp add: w2_def)
qed

theorem master_dead_waiter_witness:
  "\<exists>w'. handle (\<lambda>n. ''x'') (Send [(''kind'', VInt 1)]) 1 (publish_world\<lparr>w_gone := [2]\<rparr>) = Some (Raise IOError, w')
    \<and> w_sent w' = [(1, RSerial 0)] \<and> q_events (view_q (w_disp w') ''q'') = []"
proof -
  let ?w = "publish_world\<lparr>w_gone := [2]\<rparr>"
  have w: "w_serial ?w = 0" "w_sent ?w = []" "dget (w_ends ?w) 2 = Some (Connection 12)" "alive ?w 1"
    "tm_resolve (setattr [(''kind'', VInt 1)] serial_attr (VInt 0)) (w_mapper ?w) = [''q'', ''r'']"
    by (simp_all add: publish_world_def new_world_def alive_def tm_resolve_def setattr_def dget_def_val_def)
  have d: "q_clients (view_q (w_disp ?w) ''q'') = [2]" "q_events (view_q (w_disp ?w) ''q'') = []"
    "c_active (view_c (w_disp ?w) 2)" "''q'' \<in> set (c_queue_ids (view_c (w_disp ?w) 2))"
    by (simp_all add: publish_world_disp view_q_def view_c_def)
  show ?thesis
    using master_dead_waiter [of "[(''kind'', VInt 1)]" ?w "''q''" "[''r'']" 1 2 12 "[]" "\<lambda>n. ''x''"] w d by auto
qed

text \<open>
  (master_unmap): Unmap of a known mapping removes it and answers; Unmap of an unknown one
  raises KeyError out of the handler, unanswered, which ends the run of the master.
\<close>

theorem master_unmap:
  "handle draw (Unmap i) c w =
     (if i \<in> set (dkeys (mappings (w_mapper w)))
      then handle draw KeepAlive c (w\<lparr>w_mapper := (w_mapper w)\<lparr>mappings := ddel i (mappings (w_mapper w))\<rparr>\<rparr>)
      else Some (Raise KeyError, w))"
  by (simp add: tm_unmap_def)

end
