(* ===== verification/Oa_Attributes.thy ===== *)
theory Oa_Attributes
  imports Prelude
begin

section \<open>satori.core.export.oa: attribute groups\<close>

text \<open>
  An attribute group is a table of open attributes with distinct names; each is a string or a
  reference to a blob. The methods are generated from the template
  \<open>code_attributegroup_methods\<close>. Whether a blob exists (\<open>Blob.exists\<close>) is a parameter.
  \<^item> \<open>attr\<close>: an attribute as a client passes it (\<open>Attribute\<close>, \<open>AnonymousAttribute\<close>);
    \<open>stored\<close>: a row of the table, whose file name is empty unless it is a blob.
  \<^item> a method that changes the group returns its outcome and the group it leaves, also when it
    raises in the middle of a list.
\<close>

record attr =
  a_name :: string
  a_is_blob :: bool
  a_value :: string
  a_filename :: "string option"

record stored =
  s_is_blob :: bool
  s_value :: string
  s_filename :: string

type_synonym oa_group = "(string, stored) dict"

datatype oa_error = BadAttributeType string string | MissingBlob

datatype 'a oa_result = Done 'a | Fail oa_error

definition oa_get :: "oa_group \<Rightarrow> string \<Rightarrow> stored option" where
  "oa_get g name = dget g name"

definition oa_get_str :: "oa_group \<Rightarrow> string \<Rightarrow> string option \<Rightarrow> string option oa_result" where
  "oa_get_str g name fallback =
     (case oa_get g name of
        None \<Rightarrow> Done fallback
      | Some oa \<Rightarrow> if s_is_blob oa then Fail (BadAttributeType name ''string'') else Done (Some (s_value oa)))"

text \<open>What \<open>get_blob\<close> passes to \<open>Blob.open\<close>.\<close>

definition oa_get_blob :: "oa_group \<Rightarrow> string \<Rightarrow> (string \<times> string) option oa_result" where
  "oa_get_blob g name =
     (case oa_get g name of
        None \<Rightarrow> Done None
      | Some oa \<Rightarrow> if \<not> s_is_blob oa then Fail (BadAttributeType name ''blob'')
                   else Done (Some (s_value oa, s_filename oa)))"

definition oa_get_blob_hash :: "oa_group \<Rightarrow> string \<Rightarrow> string option oa_result" where
  "oa_get_blob_hash g name =
     (case oa_get g name of
        None \<Rightarrow> Done None
      | Some oa \<Rightarrow> if \<not> s_is_blob oa then Fail (BadAttributeType name ''blob'') else Done (Some (s_value oa)))"

definition oa_get_list :: "oa_group \<Rightarrow> (string \<times> stored) list" where
  "oa_get_list g = g"

definition oa_get_map :: "oa_group \<Rightarrow> (string, stored) dict" where
  "oa_get_map g = dmerge [] g"

definition oa_set :: "(string \<Rightarrow> bool) \<Rightarrow> attr \<Rightarrow> oa_group \<Rightarrow> unit oa_result \<times> oa_group" where
  "oa_set blob_exists v g =
     (if a_is_blob v \<and> \<not> blob_exists (a_value v) then (Fail MissingBlob, g)
      else (Done (), dset (a_name v) \<lparr>s_is_blob = a_is_blob v, s_value = a_value v,
        s_filename = (case a_filename v of Some f \<Rightarrow> if a_is_blob v then f else [] | None \<Rightarrow> [])\<rparr> g))"

definition oa_set_str :: "(string \<Rightarrow> bool) \<Rightarrow> string \<Rightarrow> string \<Rightarrow> oa_group \<Rightarrow> unit oa_result \<times> oa_group" where
  "oa_set_str blob_exists name v g =
     oa_set blob_exists \<lparr>a_name = name, a_is_blob = False, a_value = v, a_filename = None\<rparr> g"

text \<open>The callback \<open>set_hash\<close> that \<open>Blob.create\<close> runs with the hash of the finished blob.\<close>

definition oa_set_blob :: "(string \<Rightarrow> bool) \<Rightarrow> string \<Rightarrow> string \<Rightarrow> string \<Rightarrow> oa_group \<Rightarrow> unit oa_result \<times> oa_group" where
  "oa_set_blob blob_exists name filename hash g =
     oa_set blob_exists \<lparr>a_name = name, a_is_blob = True, a_value = hash, a_filename = Some filename\<rparr> g"

definition oa_set_blob_hash :: "(string \<Rightarrow> bool) \<Rightarrow> string \<Rightarrow> string \<Rightarrow> string \<Rightarrow> oa_group \<Rightarrow> unit oa_result \<times> oa_group" where
  "oa_set_blob_hash blob_exists name v filename g =
     oa_set blob_exists \<lparr>a_name = name, a_is_blob = True, a_value = v, a_filename = Some filename\<rparr> g"

fun oa_add_list :: "(string \<Rightarrow> bool) \<Rightarrow> attr list \<Rightarrow> oa_group \<Rightarrow> unit oa_result \<times> oa_group" where
  "oa_add_list blob_exists [] g = (Done (), g)"
| "oa_add_list blob_exists (v # vs) g =
     (case oa_set blob_exists v g of
        (Fail e, g1) \<Rightarrow> (Fail e, g1)
      | (Done _, g1) \<Rightarrow> oa_add_list blob_exists vs g1)"

definition oa_set_list :: "(string \<Rightarrow> bool) \<Rightarrow> attr list \<Rightarrow> oa_group \<Rightarrow> unit oa_result \<times> oa_group" where
  "oa_set_list blob_exists vs g = oa_add_list blob_exists vs []"

fun oa_add_map :: "(string \<Rightarrow> bool) \<Rightarrow> (string, attr) dict \<Rightarrow> oa_group \<Rightarrow> unit oa_result \<times> oa_group" where
  "oa_add_map blob_exists [] g = (Done (), g)"
| "oa_add_map blob_exists ((name, v) # vs) g =
     (case oa_set blob_exists (v\<lparr>a_name := name\<rparr>) g of
        (Fail e, g1) \<Rightarrow> (Fail e, g1)
      | (Done _, g1) \<Rightarrow> oa_add_map blob_exists vs g1)"

definition oa_set_map :: "(string \<Rightarrow> bool) \<Rightarrow> (string, attr) dict \<Rightarrow> oa_group \<Rightarrow> unit oa_result \<times> oa_group" where
  "oa_set_map blob_exists m g = oa_add_map blob_exists m []"

definition oa_delete :: "string \<Rightarrow> oa_group \<Rightarrow> oa_group" where
  "oa_delete name g = (case oa_get g name of None \<Rightarrow> g | Some _ \<Rightarrow> ddel name g)"

subsection \<open>The group as a map\<close>

definition store :: "attr \<Rightarrow> stored" where
  "store v = \<lparr>s_is_blob = a_is_blob v, s_value = a_value v,
     s_filename = (case a_filename v of Some f \<Rightarrow> if a_is_blob v then f else [] | None \<Rightarrow> [])\<rparr>"

text \<open>The group as others rely on it: a store of attributes by name.\<close>

locale attribute_store =
  fixes look :: "'g \<Rightarrow> string \<Rightarrow> stored option"
    and put :: "attr \<Rightarrow> 'g \<Rightarrow> unit oa_result \<times> 'g"
    and drop_name :: "string \<Rightarrow> 'g \<Rightarrow> 'g"
    and accepts :: "attr \<Rightarrow> bool"
  assumes put_ok: "accepts v \<Longrightarrow> \<exists>g'. put v g = (Done (), g')
      \<and> (\<forall>k. look g' k = (if k = a_name v then Some (store v) else look g k))"
    and put_bad: "\<not> accepts v \<Longrightarrow> put v g = (Fail MissingBlob, g)"
    and drop_look: "look (drop_name n g) k = (if k = n then None else look g k)"
begin

lemma put_look: "put v g = (Done (), g') \<Longrightarrow> look g' (a_name v) = Some (store v)"
  using put_ok [of v g] put_bad [of v g] by (cases "accepts v") auto

lemma put_frame: "put v g = (r, g') \<Longrightarrow> k \<noteq> a_name v \<Longrightarrow> look g' k = look g k"
  using put_ok [of v g] put_bad [of v g] by (cases "accepts v") auto

lemma drop_put: "put v g = (Done (), g') \<Longrightarrow> look g (a_name v) = None \<Longrightarrow> look (drop_name (a_name v) g') = look g"
  using put_frame [of v g "Done ()" g'] by (auto simp: drop_look)

end

interpretation oa: attribute_store oa_get "oa_set blob_exists" oa_delete
  "\<lambda>v. a_is_blob v \<longrightarrow> blob_exists (a_value v)"
  by unfold_locales
    (auto simp: oa_get_def oa_set_def oa_delete_def store_def split: option.splits)

lemma oa_add_map_look:
  assumes "dict_ok m" and "\<forall>(n, v) \<in> set m. a_is_blob v \<longrightarrow> blob_exists (a_value v)"
  shows "\<exists>g'. oa_add_map blob_exists m g = (Done (), g')
    \<and> (\<forall>k. oa_get g' k = (case dget m k of Some v \<Rightarrow> Some (store v) | None \<Rightarrow> oa_get g k))"
  using assms
proof (induction m arbitrary: g)
  case (Cons nv m)
  obtain n v where nv: "nv = (n, v)" by (cases nv)
  have st: "store (v\<lparr>a_name := n\<rparr>) = store v" by (simp add: store_def split: option.split)
  obtain g1 where g1: "oa_set blob_exists (v\<lparr>a_name := n\<rparr>) g = (Done (), g1)"
    "\<forall>k. oa_get g1 k = (if k = n then Some (store v) else oa_get g k)"
    using oa.put_ok [of "v\<lparr>a_name := n\<rparr>" blob_exists g] Cons.prems(2) nv st by auto
  have "dict_ok m" "dget m n = None"
    using Cons.prems(1) nv by (simp_all add: dict_ok_def dget_None_iff dkeys_def)
  then obtain g' where g': "oa_add_map blob_exists m g1 = (Done (), g')"
    "\<forall>k. oa_get g' k = (case dget m k of Some v \<Rightarrow> Some (store v) | None \<Rightarrow> oa_get g1 k)"
    using Cons.IH [of g1] Cons.prems(2) nv by auto
  have "oa_get g' k = (case dget (nv # m) k of Some v \<Rightarrow> Some (store v) | None \<Rightarrow> oa_get g k)" for k
    using g'(2) g1(2) \<open>dget m n = None\<close> nv by (cases "k = n") (simp_all split: option.split)
  moreover have "oa_add_map blob_exists (nv # m) g = (Done (), g')" using g1(1) g'(1) nv by simp
  ultimately show ?case by blast
qed simp

lemma dict_ok_oa_set: "dict_ok g \<Longrightarrow> dict_ok (snd (oa_set blob_exists v g))"
  by (simp add: oa_set_def)

lemma dict_ok_oa_add_map: "dict_ok g \<Longrightarrow> dict_ok (snd (oa_add_map blob_exists m g))"
proof (induction m arbitrary: g)
  case (Cons nv m)
  obtain n v where nv: "nv = (n, v)" by (cases nv)
  obtain r g1 where g1: "oa_set blob_exists (v\<lparr>a_name := n\<rparr>) g = (r, g1)" by (cases "oa_set blob_exists (v\<lparr>a_name := n\<rparr>) g")
  then have "dict_ok g1" using dict_ok_oa_set [OF Cons.prems] by (metis snd_conv)
  with Cons.IH nv g1 show ?case by (cases r) auto
qed simp

text \<open>
  (oa_set_map_get_map): setting a group from a map whose blobs all exist succeeds and replaces
  the group: reading it back as a map gives exactly the attributes of the map, with file
  names kept for blobs only.
\<close>

theorem oa_set_map_get_map:
  assumes "dict_ok m" and "\<forall>(n, v) \<in> set m. a_is_blob v \<longrightarrow> blob_exists (a_value v)"
  shows "\<exists>g'. oa_set_map blob_exists m g = (Done (), g') \<and> dict_ok g'
    \<and> (\<forall>k. dget (oa_get_map g') k = map_option store (dget m k))"
proof -
  obtain g' where g': "oa_add_map blob_exists m [] = (Done (), g')"
    "\<forall>k. oa_get g' k = (case dget m k of Some v \<Rightarrow> Some (store v) | None \<Rightarrow> None)"
    using oa_add_map_look [OF assms, of "[]"] by (auto simp: oa_get_def cong: option.case_cong)
  have ok: "dict_ok g'" using dict_ok_oa_add_map [of "[]" blob_exists m] g'(1) by simp
  have "dget (oa_get_map g') k = map_option store (dget m k)" for k
    using g'(2) ok by (simp add: oa_get_map_def dget_dmerge oa_get_def split: option.splits)
  with g'(1) ok show ?thesis by (auto simp: oa_set_map_def)
qed

theorem oa_set_map_get_map_witness:
  "\<exists>g'. oa_set_map (\<lambda>h. h = ''h1'') [(''src'', \<lparr>a_name = [], a_is_blob = True, a_value = ''h1'', a_filename = Some ''a.c''\<rparr>)]
      [(''old'', \<lparr>s_is_blob = False, s_value = ''x'', s_filename = []\<rparr>)] = (Done (), g')
    \<and> dget (oa_get_map g') ''src'' = Some \<lparr>s_is_blob = True, s_value = ''h1'', s_filename = ''a.c''\<rparr>
    \<and> dget (oa_get_map g') ''old'' = None"
  using oa_set_map_get_map [of "[(''src'', \<lparr>a_name = [], a_is_blob = True, a_value = ''h1'', a_filename = Some ''a.c''\<rparr>)]"
      "\<lambda>h. h = ''h1''" "[(''old'', \<lparr>s_is_blob = False, s_value = ''x'', s_filename = []\<rparr>)]"]
  by (auto simp: dict_ok_def store_def)

text \<open>
  C31 (oa_types_respected): an attribute set as a string is read as that string and refused as a
  blob; an attribute set from a blob is read as the blob and refused as a string; a missing
  one gives the fallback.
\<close>

theorem oa_types_respected:
  "oa_get_str (snd (oa_set_str blob_exists n v g)) n fb = Done (Some v)
   \<and> oa_get_blob (snd (oa_set_str blob_exists n v g)) n = Fail (BadAttributeType n ''blob'')
   \<and> (if blob_exists h
      then oa_get_blob (snd (oa_set_blob blob_exists n f h g)) n = Done (Some (h, f))
        \<and> oa_get_str (snd (oa_set_blob blob_exists n f h g)) n fb = Fail (BadAttributeType n ''string'')
      else oa_set_blob blob_exists n f h g = (Fail MissingBlob, g))
   \<and> oa_get_str (oa_delete n g) n fb = Done fb"
  by (auto simp: oa_get_str_def oa_get_blob_def oa_set_str_def oa_set_blob_def oa_set_def oa_get_def
      oa_delete_def split: option.splits)

end
