(* ===== verification/Py_Strings.thy ===== *)
theory Py_Strings
  imports Prelude "HOL-Library.Sublist"
begin

section \<open>Python strings\<close>

text \<open>
  The string operations of Python that several components use. A character is a code point
  below 256 (ASCII and Latin-1), which is where the classification \<open>isspace\<close> and
  \<open>isalnum\<close> of unicode strings is written out.
\<close>

definition code :: "char \<Rightarrow> nat" where
  "code c = of_char c"

definition is_digit :: "char \<Rightarrow> bool" where
  "is_digit c \<longleftrightarrow> 48 \<le> code c \<and> code c \<le> 57"

definition is_space :: "char \<Rightarrow> bool" where
  "is_space c \<longleftrightarrow> code c \<in> {9..13} \<union> {28..32} \<union> {133, 160}"

definition is_alnum :: "char \<Rightarrow> bool" where
  "is_alnum c \<longleftrightarrow> code c \<in> {48..57} \<union> {65..90} \<union> {97..122} \<union> {170, 178, 179, 181, 185, 186, 188, 189, 190}
     \<union> {192..214} \<union> {216..246} \<union> {248..255}"

abbreviation newline :: char where
  "newline \<equiv> CHR 0x0A"

abbreviation backslash :: char where
  "backslash \<equiv> CHR 0x5C"

definition lstrip :: "string \<Rightarrow> string" where
  "lstrip s = dropWhile is_space s"

definition rstrip :: "string \<Rightarrow> string" where
  "rstrip s = rev (dropWhile is_space (rev s))"

definition strip :: "string \<Rightarrow> string" where
  "strip s = rstrip (lstrip s)"

text \<open>\<open>s.split(c)\<close> for a one-character separator, and \<open>sep.join(xs)\<close>.\<close>

fun split_on :: "char \<Rightarrow> string \<Rightarrow> string list" where
  "split_on c [] = [[]]"
| "split_on c (x # xs) =
     (if x = c then [] # split_on c xs
      else (case split_on c xs of [] \<Rightarrow> [[x]] | y # ys \<Rightarrow> (x # y) # ys))"

fun join :: "string \<Rightarrow> string list \<Rightarrow> string" where
  "join sep [] = []"
| "join sep [x] = x"
| "join sep (x # y # xs) = x @ sep @ join sep (y # xs)"

definition starts_with :: "string \<Rightarrow> string \<Rightarrow> bool" where
  "starts_with p s \<longleftrightarrow> prefix p s"

text \<open>\<open>str\<close> of an integer, \<open>'%0wd'\<close>, \<open>zfill\<close> and \<open>int\<close> of a string.\<close>

definition digit_char :: "nat \<Rightarrow> char" where
  "digit_char n = char_of (48 + n)"

fun str_nat :: "nat \<Rightarrow> string" where
  "str_nat n = (if n < 10 then [digit_char n] else str_nat (n div 10) @ [digit_char (n mod 10)])"

declare str_nat.simps [simp del]

definition str_int :: "int \<Rightarrow> string" where
  "str_int i = (if i < 0 then CHR ''-'' # str_nat (nat (- i)) else str_nat (nat i))"

definition zfill :: "nat \<Rightarrow> string \<Rightarrow> string" where
  "zfill w s = replicate (w - length s) CHR ''0'' @ s"

definition fmt_0d :: "nat \<Rightarrow> int \<Rightarrow> string" where
  "fmt_0d w i = (if i < 0 then CHR ''-'' # zfill (w - 1) (str_nat (nat (- i))) else zfill w (str_nat (nat i)))"

definition digits_val :: "string \<Rightarrow> nat" where
  "digits_val s = foldl (\<lambda>n c. 10 * n + (code c - 48)) 0 s"

definition parse_nat :: "string \<Rightarrow> nat option" where
  "parse_nat s = (if s \<noteq> [] \<and> list_all is_digit s then Some (digits_val s) else None)"

definition parse_int :: "string \<Rightarrow> int option" where
  "parse_int s =
     (case strip s of
        [] \<Rightarrow> None
      | c # cs \<Rightarrow>
          if c = CHR ''-'' then map_option (\<lambda>n. - int n) (parse_nat cs)
          else if c = CHR ''+'' then map_option int (parse_nat cs)
          else map_option int (parse_nat (c # cs)))"

subsection \<open>Splitting and joining\<close>

lemma split_on_ne [simp]: "split_on c s \<noteq> []"
  by (induction s) (auto split: list.splits)

lemma split_on_plain: "c \<notin> set s \<Longrightarrow> split_on c s = [s]"
  by (induction s) auto

lemma split_on_Cons_ne: "x \<noteq> c \<Longrightarrow> split_on c (x # xs) = (x # hd (split_on c xs)) # tl (split_on c xs)"
  by (cases "split_on c xs") auto

lemma split_on_append:
  "c \<notin> set s \<Longrightarrow> split_on c (s @ c # t) = s # split_on c t"
  by (induction s) auto

lemma split_on_join:
  "xs \<noteq> [] \<Longrightarrow> \<forall>x \<in> set xs. c \<notin> set x \<Longrightarrow> split_on c (join [c] xs) = xs"
  by (induction "[c]" xs rule: join.induct) (auto simp: split_on_plain split_on_append)

lemma split_on_no_sep: "x \<in> set (split_on c s) \<Longrightarrow> c \<notin> set x"
proof (induction s arbitrary: x)
  case (Cons a s)
  then show ?case by (cases "split_on c s") (auto split: if_splits)
qed simp

lemma join_split_on: "join [c] (split_on c s) = s"
proof (induction s)
  case (Cons a s)
  obtain y ys where y: "split_on c s = y # ys" by (cases "split_on c s") auto
  show ?case
  proof (cases "a = c")
    case True
    with Cons y show ?thesis by simp
  next
    case False
    with Cons y show ?thesis by (cases ys) auto
  qed
qed simp

lemma split_on_lines:
  "\<forall>x \<in> set xs. c \<notin> set x \<Longrightarrow> split_on c (concat (map (\<lambda>x. x @ [c]) xs)) = xs @ [[]]"
  by (induction xs) (auto simp: split_on_append)

subsection \<open>Stripping\<close>

definition stripped :: "string \<Rightarrow> bool" where
  "stripped s \<longleftrightarrow> strip s = s"

lemma lstrip_id: "s = [] \<or> \<not> is_space (hd s) \<Longrightarrow> lstrip s = s"
  by (cases s) (auto simp: lstrip_def)

lemma rstrip_id: "s = [] \<or> \<not> is_space (last s) \<Longrightarrow> rstrip s = s"
  by (cases s rule: rev_cases) (auto simp: rstrip_def)

lemma strip_spaces_right: "strip (s @ replicate n CHR '' '') = strip s"
proof -
  have sp: "is_space CHR '' ''" by (simp add: is_space_def code_def)
  have r: "rstrip (t @ replicate n CHR '' '') = rstrip t" for t
    using sp by (simp add: rstrip_def dropWhile_append)
  show ?thesis
  proof (cases "\<forall>c \<in> set s. is_space c")
    case True
    then have "lstrip (s @ replicate n CHR '' '') = []" "lstrip s = []"
      using sp by (simp_all add: lstrip_def dropWhile_append2)
    then show ?thesis by (simp add: strip_def)
  next
    case False
    then have "lstrip (s @ replicate n CHR '' '') = lstrip s @ replicate n CHR '' ''"
      by (auto simp: lstrip_def dropWhile_append1)
    then show ?thesis by (simp add: strip_def r)
  qed
qed

lemma lstrip_suffix: "suffix (lstrip s) s"
  unfolding lstrip_def by (rule suffix_dropWhile)

lemma rstrip_prefix: "prefix (rstrip s) s"
  unfolding rstrip_def by (metis rev_rev_ident suffix_dropWhile suffix_to_prefix)

lemma lstrip_hd: "lstrip s = [] \<or> \<not> is_space (hd (lstrip s))"
  by (metis hd_dropWhile lstrip_def)

lemma rstrip_last: "rstrip s = [] \<or> \<not> is_space (last (rstrip s))"
  unfolding rstrip_def using hd_dropWhile [of is_space "rev s"] by (auto simp: last_rev)

lemma strip_ends: "strip s = [] \<or> (\<not> is_space (hd (strip s)) \<and> \<not> is_space (last (strip s)))"
proof (cases "strip s = []")
  case False
  then have "hd (strip s) = hd (lstrip s)"
    unfolding strip_def by (metis prefix_def rstrip_prefix hd_append2)
  with False lstrip_hd [of s] rstrip_last [of "lstrip s"] show ?thesis
    unfolding strip_def by (metis rstrip_prefix prefix_Nil)
qed simp

lemma stripped_iff: "stripped s \<longleftrightarrow> s = [] \<or> (\<not> is_space (hd s) \<and> \<not> is_space (last s))"
proof
  assume "stripped s"
  then show "s = [] \<or> (\<not> is_space (hd s) \<and> \<not> is_space (last s))"
    using strip_ends [of s] by (simp add: stripped_def)
next
  assume "s = [] \<or> (\<not> is_space (hd s) \<and> \<not> is_space (last s))"
  then show "stripped s" by (auto simp: stripped_def strip_def lstrip_id rstrip_id)
qed

lemma stripped_strip [simp]: "stripped (strip s)"
  using strip_ends by (simp add: stripped_iff)

lemma set_strip: "set (strip s) \<subseteq> set s"
  unfolding strip_def using rstrip_prefix lstrip_suffix
  by (metis order_trans set_mono_prefix set_mono_suffix)

subsection \<open>Numbers\<close>

lemma code_digit_char [simp]: "n < 10 \<Longrightarrow> code (digit_char n) = 48 + n"
  by (simp add: code_def digit_char_def)

lemma is_digit_char [simp]: "n < 10 \<Longrightarrow> is_digit (digit_char n)"
  by (simp add: is_digit_def)

lemma str_nat_digits: "list_all is_digit (str_nat n) \<and> str_nat n \<noteq> []"
  by (induction n rule: str_nat.induct) (subst (1 2) str_nat.simps, auto)

lemma digits_val_snoc: "digits_val (s @ [c]) = 10 * digits_val s + (code c - 48)"
  by (simp add: digits_val_def)

lemma digits_val_str_nat [simp]: "digits_val (str_nat n) = n"
proof (induction n rule: str_nat.induct)
  case (1 n)
  show ?case
  proof (cases "n < 10")
    case True
    then show ?thesis by (simp add: str_nat.simps digits_val_def)
  next
    case False
    with 1 show ?thesis by (subst str_nat.simps) (simp add: digits_val_snoc)
  qed
qed

lemma parse_nat_str_nat [simp]: "parse_nat (str_nat n) = Some n"
  using str_nat_digits [of n] by (simp add: parse_nat_def)

lemma str_nat_eq [simp]: "str_nat m = str_nat n \<longleftrightarrow> m = n"
  by (metis digits_val_str_nat)

lemma digit_not_space: "is_digit c \<Longrightarrow> \<not> is_space c"
  by (auto simp: is_digit_def is_space_def)

lemma digits_stripped: "list_all is_digit s \<Longrightarrow> stripped s"
  using digit_not_space by (auto simp: stripped_iff list_all_iff)

lemma parse_int_str_int: "parse_int (str_int i) = Some i"
proof -
  have nd: "\<not> is_digit CHR ''-''" "\<not> is_digit CHR ''+''" "\<not> is_space CHR ''-''"
    by (simp_all add: is_digit_def is_space_def code_def)
  obtain c cs where s: "str_nat (nat (if i < 0 then - i else i)) = c # cs"
    using str_nat_digits by (metis neq_Nil_conv)
  then have "list_all is_digit (c # cs)" using str_nat_digits by metis
  then have d: "is_digit c" "list_all is_digit (c # cs)" by simp_all
  have p: "parse_nat (c # cs) = Some (nat (if i < 0 then - i else i))"
    using parse_nat_str_nat s by metis
  have "stripped (c # cs)" using d by (simp only: digits_stripped)
  then have st: "strip (c # cs) = c # cs" "strip (CHR ''-'' # c # cs) = CHR ''-'' # c # cs"
    using nd by (auto simp: stripped_def [symmetric] stripped_iff)
  show ?thesis
  proof (cases "i < 0")
    case True
    with s st p show ?thesis by (simp add: str_int_def parse_int_def)
  next
    case False
    with d nd have "c \<noteq> CHR ''-''" "c \<noteq> CHR ''+''" by auto
    with False s st p show ?thesis by (simp add: str_int_def parse_int_def)
  qed
qed

lemma length_zfill: "length (zfill w s) = max w (length s)"
  by (simp add: zfill_def)

end
