(* ===== verification/Check_Db.thy ===== *)
theory Check_Db
  imports Oa_Attributes Py_Strings
begin

section \<open>The tables the checking subsystem works on\<close>

text \<open>
  The rows of \<open>satori.core.entities\<close> that \<open>satori.core.checking\<close> reads and writes, with the
  fields it uses. A table is a dict from primary keys to rows. A Django object in memory is a
  pair of a key and a copy of a row: \<open>save(force_update=True)\<close> writes all fields of the copy
  and raises if the row is gone; objects are equal when their keys are.
  \<^item> \<open>test_result\<close>, \<open>suite_result\<close>: the results of a test and of a test suite on a submit.
  \<^item> \<open>get_or_create\<close> looks for the row of a pair of foreign keys and inserts it if there is none,
    with a key that is not in use.
\<close>

type_synonym key = nat

record test_result =
  tr_submit :: key
  tr_test :: key
  tr_tester :: "key option"
  tr_pending :: bool

record suite_result =
  sr_submit :: key
  sr_suite :: key
  sr_pending :: bool
  sr_status :: string
  sr_report :: string

record test =
  te_name :: string
  te_data :: oa_group

record suite =
  su_dispatcher :: string
  su_reporter :: string
  su_accumulators :: string
  su_tests :: "(key \<times> int) list"
  su_params :: oa_group

record submit =
  sb_problem :: key
  sb_contestant :: key
  sb_time :: int
  sb_overrides :: oa_group

record problem_mapping =
  pm_contest :: key
  pm_code :: string
  pm_title :: string
  pm_default_suite :: "key option"
  pm_group :: string

record ranking =
  rk_contest :: key
  rk_aggregator :: string
  rk_header :: string
  rk_footer :: string
  rk_params :: oa_group

record contestant =
  cn_contest :: key
  cn_name :: string
  cn_sort_field :: string
  cn_accepted :: bool
  cn_invisible :: bool
  cn_login :: "string option"

record temporary_submit =
  tp_pending :: bool
  tp_tester :: "key option"

record ranking_entry =
  en_ranking :: key
  en_contestant :: key
  en_row :: string
  en_individual :: string
  en_position :: string

record ranking_params =
  rp_ranking :: key
  rp_problem :: key
  rp_suite :: "key option"
  rp_params :: oa_group

record db =
  test_results :: "(key, test_result) dict"
  result_oa :: "(key, oa_group) dict"
  suite_results :: "(key, suite_result) dict"
  suite_oa :: "(key, oa_group) dict"
  tests :: "(key, test) dict"
  suites :: "(key, suite) dict"
  submits :: "(key, submit) dict"
  problems :: "(key, problem_mapping) dict"
  contests :: "(key, bool) dict"
  contestants :: "(key, contestant) dict"
  rankings :: "(key, ranking) dict"
  ranking_params_table :: "(key, ranking_params) dict"
  entries :: "(key, ranking_entry) dict"
  temporary_submits :: "(key, temporary_submit) dict"
  roles :: "key list"

text \<open>\<open>objects.get(id=...)\<close> and \<open>objects.filter\<close>; \<open>contests\<close> holds the flag \<open>archived\<close>.\<close>

definition row :: "(key, 'r) dict \<Rightarrow> key \<Rightarrow> 'r outcome" where
  "row t k = (case dget t k of Some r \<Rightarrow> Ok r | None \<Rightarrow> Raise DoesNotExist)"

definition keys_where :: "('r \<Rightarrow> bool) \<Rightarrow> (key, 'r) dict \<Rightarrow> key list" where
  "keys_where P t = map fst (filter (\<lambda>(k, r). P r) t)"

definition update_row :: "key \<Rightarrow> 'r \<Rightarrow> (key, 'r) dict \<Rightarrow> unit outcome \<times> (key, 'r) dict" where
  "update_row k r t = (if k \<in> set (dkeys t) then (Ok (), dset k r t) else (Raise DatabaseError, t))"

definition fresh_key :: "(key, 'r) dict \<Rightarrow> key" where
  "fresh_key t = Suc (fold max (dkeys t) 0)"

definition save_test_result :: "key \<Rightarrow> test_result \<Rightarrow> db \<Rightarrow> unit outcome \<times> db" where
  "save_test_result k r d = (case update_row k r (test_results d) of (x, t) \<Rightarrow> (x, d\<lparr>test_results := t\<rparr>))"

definition save_suite_result :: "key \<Rightarrow> suite_result \<Rightarrow> db \<Rightarrow> unit outcome \<times> db" where
  "save_suite_result k r d = (case update_row k r (suite_results d) of (x, t) \<Rightarrow> (x, d\<lparr>suite_results := t\<rparr>))"

definition save_ranking :: "key \<Rightarrow> ranking \<Rightarrow> db \<Rightarrow> unit outcome \<times> db" where
  "save_ranking k r d = (case update_row k r (rankings d) of (x, t) \<Rightarrow> (x, d\<lparr>rankings := t\<rparr>))"

definition save_entry :: "key \<Rightarrow> ranking_entry \<Rightarrow> db \<Rightarrow> unit outcome \<times> db" where
  "save_entry k r d = (case update_row k r (entries d) of (x, t) \<Rightarrow> (x, d\<lparr>entries := t\<rparr>))"

text \<open>\<open>TestResult.objects.get_or_create(submit=..., test=...)\<close> and the same for suite results.\<close>

definition get_or_create_test_result :: "key \<Rightarrow> key \<Rightarrow> db \<Rightarrow> (key \<times> test_result) \<times> db" where
  "get_or_create_test_result s t d =
     (case filter (\<lambda>(k, r). tr_submit r = s \<and> tr_test r = t) (test_results d) of
        kr # _ \<Rightarrow> (kr, d)
      | [] \<Rightarrow> (let k = fresh_key (test_results d);
                  r = \<lparr>tr_submit = s, tr_test = t, tr_tester = None, tr_pending = True\<rparr> in
              ((k, r), d\<lparr>test_results := dset k r (test_results d), result_oa := dset k [] (result_oa d)\<rparr>)))"

definition get_or_create_suite_result :: "key \<Rightarrow> key \<Rightarrow> db \<Rightarrow> (key \<times> suite_result) \<times> db" where
  "get_or_create_suite_result s t d =
     (case filter (\<lambda>(k, r). sr_submit r = s \<and> sr_suite r = t) (suite_results d) of
        kr # _ \<Rightarrow> (kr, d)
      | [] \<Rightarrow> (let k = fresh_key (suite_results d);
                  r = \<lparr>sr_submit = s, sr_suite = t, sr_pending = True, sr_status = [], sr_report = []\<rparr> in
              ((k, r), d\<lparr>suite_results := dset k r (suite_results d), suite_oa := dset k [] (suite_oa d)\<rparr>)))"

text \<open>The attribute groups \<open>oa\<close> of results, through the methods of \<open>Oa_Attributes\<close>.\<close>

definition group_of :: "(key, oa_group) dict \<Rightarrow> key \<Rightarrow> oa_group" where
  "group_of t k = dget_def_val t k []"

fun raise_oa :: "'a oa_result \<Rightarrow> 'a outcome" where
  "raise_oa (Done x) = Ok x"
| "raise_oa (Fail (BadAttributeType n t)) = Raise BadAttribute"
| "raise_oa (Fail MissingBlob) = Raise MissingBlobError"

definition result_get_str :: "key \<Rightarrow> string \<Rightarrow> string option \<Rightarrow> db \<Rightarrow> string option outcome" where
  "result_get_str k name fallback d = raise_oa (oa_get_str (group_of (result_oa d) k) name fallback)"

definition result_clear_oa :: "key \<Rightarrow> db \<Rightarrow> db" where
  "result_clear_oa k d = d\<lparr>result_oa := dset k (snd (oa_set_map (\<lambda>h. True) [] (group_of (result_oa d) k))) (result_oa d)\<rparr>"

definition suite_set_str :: "key \<Rightarrow> string \<Rightarrow> string \<Rightarrow> db \<Rightarrow> db" where
  "suite_set_str k name v d =
     d\<lparr>suite_oa := dset k (snd (oa_set_str (\<lambda>h. True) name v (group_of (suite_oa d) k))) (suite_oa d)\<rparr>"

definition suite_clear_oa :: "key \<Rightarrow> db \<Rightarrow> db" where
  "suite_clear_oa k d = d\<lparr>suite_oa := dset k (snd (oa_set_map (\<lambda>h. True) [] (group_of (suite_oa d) k))) (suite_oa d)\<rparr>"

definition suite_set_map :: "(string \<Rightarrow> bool) \<Rightarrow> key \<Rightarrow> (string, attr) dict \<Rightarrow> db \<Rightarrow> unit outcome \<times> db" where
  "suite_set_map blob_exists k m d =
     (case oa_set_map blob_exists m (group_of (suite_oa d) k) of
        (r, g) \<Rightarrow> (raise_oa r, d\<lparr>suite_oa := dset k g (suite_oa d)\<rparr>))"

subsection \<open>Laws\<close>

lemma fold_max_ge: "x \<le> fold max xs x" for x :: nat
proof (induction xs arbitrary: x)
  case (Cons a xs)
  have "x \<le> max a x" by simp
  also have "\<dots> \<le> fold max xs (max a x)" by (rule Cons.IH)
  finally show ?case by simp
qed simp

lemma fold_max_mem: "x \<in> set xs \<Longrightarrow> x \<le> fold max xs a" for x :: nat
proof (induction xs arbitrary: a)
  case (Cons b xs)
  show ?case
  proof (cases "x = b")
    case True
    have "b \<le> max b a" by simp
    also have "\<dots> \<le> fold max xs (max b a)" by (rule fold_max_ge)
    finally show ?thesis using True by simp
  next
    case False
    with Cons show ?thesis by simp
  qed
qed simp

lemma fresh_key_new: "fresh_key t \<notin> set (dkeys t)"
  using fold_max_mem [of "fresh_key t" "dkeys t" 0] by (auto simp: fresh_key_def)

lemma row_Ok: "row t k = Ok r \<longleftrightarrow> dget t k = Some r"
  by (simp add: row_def split: option.split)

lemma update_row_Ok: "dget t k = Some r0 \<Longrightarrow> update_row k r t = (Ok (), dset k r t)"
  by (metis dget_None_iff option.distinct(1) update_row_def)

end
