(* ===== verification/Rest_Table.thy ===== *)
theory Rest_Table
  imports Py_Strings
begin

section \<open>satori.core.checking.utils: RestTable\<close>

text \<open>
  Tables in reStructuredText, which reporters and rankings produce and the balloon ranking
  reads back. \<open>row_item\<close> is the \<open>while first < len(item)\<close> loop of \<open>generate_row\<close> on
  what is left of the item, \<open>item[first:]\<close>; it need not end for a column of width 1, so it is a
  partial function and a row is an \<open>option\<close> of an outcome. Column widths are at least 1.
\<close>

record rest_table =
  col_width :: "nat list"
  col_name :: "string list"
  row_separator :: string
  header_separator :: string
  header_row :: string

fun escape :: "string \<Rightarrow> string" where
  "escape [] = []"
| "escape (c # cs) =
     (if is_alnum c \<or> is_space c then c # escape cs else backslash # c # escape cs)"

fun unescape_from :: "bool \<Rightarrow> string \<Rightarrow> string" where
  "unescape_from esc [] = []"
| "unescape_from esc (c # cs) =
     (if esc then [c] else []) @
     (if c = backslash then unescape_from True cs else c # unescape_from False cs)"

definition unescape :: "string \<Rightarrow> string" where
  "unescape s = unescape_from False s"

text \<open>\<open>item.rfind(' ', first, first + width)\<close>, relative to \<open>first\<close>.\<close>

fun rfind_space :: "string \<Rightarrow> nat option" where
  "rfind_space [] = None"
| "rfind_space (c # cs) =
     (case rfind_space cs of
        Some p \<Rightarrow> Some (Suc p)
      | None \<Rightarrow> if c = CHR '' '' then Some 0 else None)"

definition next_piece :: "nat \<Rightarrow> string \<Rightarrow> string \<times> string" where
  "next_piece width item =
     (if length item \<le> width then (item, [])
      else case rfind_space (take width item) of
             None \<Rightarrow>
               if item ! (width - 1) = backslash then (take (width - 1) item, drop (width - 1) item)
               else (take width item, drop width item)
           | Some pos \<Rightarrow> (take pos item, drop (pos + 1) item))"

definition pad :: "nat \<Rightarrow> string \<Rightarrow> string" where
  "pad width elem = CHR ''|'' # elem @ replicate (width - length elem) CHR '' ''"

partial_function (option) row_item :: "nat \<Rightarrow> string \<Rightarrow> string list option" where
  "row_item width item =
     (if item = [] then Some []
      else Option.bind (row_item width (snd (next_piece width item)))
             (\<lambda>r. Some (pad width (fst (next_piece width item)) # r)))"

fun row_items :: "nat list \<Rightarrow> string list \<Rightarrow> string list list option" where
  "row_items (w # ws) (i # is) =
     (case row_item w (strip i) of
        None \<Rightarrow> None
      | Some r \<Rightarrow> (case row_items ws is of None \<Rightarrow> None | Some rs \<Rightarrow> Some (r # rs)))"
| "row_items _ _ = Some []"

definition fill :: "nat \<Rightarrow> nat \<Rightarrow> string list \<Rightarrow> string list" where
  "fill n width r = r @ replicate (n - length r) (CHR ''|'' # replicate width CHR '' '')"

definition max_count :: "string list list \<Rightarrow> nat" where
  "max_count rs = fold (\<lambda>r n. if n < length r then length r else n) rs 0"

definition row_lines :: "nat list \<Rightarrow> string list list \<Rightarrow> string list" where
  "row_lines ws rs =
     (let n = max_count rs; fs = map2 (\<lambda>w r. fill n w r) ws rs in
      map (\<lambda>i. concat (map (\<lambda>r. r ! i) fs) @ [CHR ''|'']) [0..<n])"

definition generate_row :: "nat list \<Rightarrow> string list \<Rightarrow> string outcome option" where
  "generate_row ws items =
     (if length items \<noteq> length ws then Some (Raise (RuntimeError ''Item count not equal to column count.''))
      else case row_items ws items of
             None \<Rightarrow> None
           | Some rs \<Rightarrow> Some (Ok (concat (map (\<lambda>l. l @ [newline]) (row_lines ws rs)))))"

definition separator :: "char \<Rightarrow> nat list \<Rightarrow> string" where
  "separator c ws = ''+'' @ join ''+'' (map (\<lambda>w. replicate w c) ws) @ ''+'' @ [newline]"

text \<open>\<open>RestTable.__init__\<close>; \<open>None\<close> if a column name cannot be laid out.\<close>

definition new_rest_table :: "(nat \<times> string) list \<Rightarrow> rest_table outcome option" where
  "new_rest_table cols =
     (let ws = map fst cols; ns = map snd cols in
      map_option (map_ok (\<lambda>h. \<lparr>col_width = ws, col_name = ns, row_separator = separator CHR ''-'' ws,
          header_separator = separator CHR ''='' ws, header_row = h\<rparr>))
        (generate_row ws ns))"

text \<open>
  The row and the table for columns of width at least 2, where the layout always ends
  (\<open>row_items_total\<close>): what the users of tables call.
\<close>

definition table_row :: "nat list \<Rightarrow> string list \<Rightarrow> string outcome" where
  "table_row ws items = the (generate_row ws items)"

definition rest_table :: "(nat \<times> string) list \<Rightarrow> rest_table outcome" where
  "rest_table cols = the (new_rest_table cols)"

fun col_starts :: "nat \<Rightarrow> nat list \<Rightarrow> nat list" where
  "col_starts pos [] = []"
| "col_starts pos (w # ws) = Suc pos # col_starts (pos + 1 + w) ws"

definition line_cell :: "string \<Rightarrow> nat \<Rightarrow> nat \<Rightarrow> string" where
  "line_cell line start w = strip (take w (drop start line))"

definition parse_row :: "nat list \<Rightarrow> string \<Rightarrow> string list" where
  "parse_row ws row =
     (let lines = split_on newline row in
      map2 (\<lambda>start w. strip (join '' '' (map (\<lambda>line. line_cell line start w) lines)))
        (col_starts 0 ws) ws)"

subsection \<open>Escaping\<close>

definition plain_char :: "char \<Rightarrow> bool" where
  "plain_char c \<longleftrightarrow> is_alnum c \<or> is_space c"

lemma backslash_not_plain: "\<not> plain_char backslash"
  by (simp add: plain_char_def is_alnum_def is_space_def code_def)

lemma unescape_escape_doubles:
  "backslash \<notin> set s \<Longrightarrow>
   unescape_from False (escape s) = concat (map (\<lambda>c. if plain_char c then [c] else [c, c]) s)"
  by (induction s) (auto simp: plain_char_def)

lemma length_doubled:
  "length (concat (map (\<lambda>c. if plain_char c then [c] else [c, c]) s)) = length s + length (filter (\<lambda>c. \<not> plain_char c) s)"
  by (induction s) auto

text \<open>
  (unescape_escape): reading back an escaped string that has no backslash doubles every
  character that had to be escaped, so \<open>unescape\<close> inverts \<open>escape\<close> exactly on the strings
  of letters, digits and spaces.
\<close>

theorem unescape_escape:
  assumes "backslash \<notin> set s"
  shows "unescape (escape s) = concat (map (\<lambda>c. if plain_char c then [c] else [c, c]) s)
    \<and> (unescape (escape s) = s \<longleftrightarrow> list_all plain_char s)"
proof -
  have e: "unescape (escape s) = concat (map (\<lambda>c. if plain_char c then [c] else [c, c]) s)"
    using assms by (simp add: unescape_def unescape_escape_doubles)
  moreover have "concat (map (\<lambda>c. if plain_char c then [c] else [c, c]) s) = s" if "list_all plain_char s"
    using that by (induction s) auto
  moreover have "list_all plain_char s" if "concat (map (\<lambda>c. if plain_char c then [c] else [c, c]) s) = s"
    using length_doubled [of s] that by (auto simp: list_all_iff filter_empty_conv)
  ultimately show ?thesis by auto
qed

theorem unescape_escape_witness: "unescape (escape ''A-1'') = ''A--1''"
proof -
  have "plain_char CHR ''A''" "plain_char CHR ''1''" "\<not> plain_char CHR ''-''"
    by (simp_all add: plain_char_def is_alnum_def is_space_def code_def)
  then show ?thesis using unescape_escape [of "''A-1''"] by simp
qed

subsection \<open>The layout of a cell\<close>

lemma rfind_space_Some: "rfind_space s = Some p \<Longrightarrow> p < length s \<and> s ! p = CHR '' ''"
  by (induction s arbitrary: p) (auto split: option.splits if_splits)

lemma next_piece_shrinks:
  assumes "item \<noteq> []" and "2 \<le> width"
  shows "length (snd (next_piece width item)) < length item"
  using assms by (auto simp: next_piece_def split: option.splits)

lemma next_piece_width: "length (fst (next_piece width item)) \<le> width"
  by (auto simp: next_piece_def split: option.splits dest!: rfind_space_Some)

lemma pad_width: "length elem \<le> width \<Longrightarrow> length (pad width elem) = Suc width"
  by (simp add: pad_def)

lemma row_item_total: "2 \<le> width \<Longrightarrow> \<exists>r. row_item width item = Some r"
proof (induction "length item" arbitrary: item rule: less_induct)
  case less
  show ?case
  proof (cases "item = []")
    case False
    with less obtain r where "row_item width (snd (next_piece width item)) = Some r"
      using next_piece_shrinks by blast
    then show ?thesis by (simp add: row_item.simps [of width item])
  qed (simp add: row_item.simps)
qed

lemma row_items_total: "\<forall>w \<in> set ws. 2 \<le> w \<Longrightarrow> \<exists>rs. row_items ws is = Some rs"
proof (induction ws "is" rule: row_items.induct)
  case (1 w ws i "is")
  obtain r where r: "row_item w (strip i) = Some r" using row_item_total [of w "strip i"] 1(2) by auto
  with 1 obtain rs where "row_items ws is = Some rs" by auto
  with r show ?case by auto
qed auto

lemma table_row_total:
  assumes "\<forall>w \<in> set ws. 2 \<le> w" and "length items = length ws"
  shows "\<exists>s. table_row ws items = Ok s"
  using row_items_total [OF assms(1), of items] assms(2)
  by (auto simp: table_row_def generate_row_def)

lemma rest_table_total:
  assumes "\<forall>c \<in> set cols. 2 \<le> fst c"
  shows "\<exists>t. rest_table cols = Ok t \<and> col_width t = map fst cols \<and> col_name t = map snd cols"
proof -
  obtain rs where "row_items (map fst cols) (map snd cols) = Some rs"
    using row_items_total [of "map fst cols" "map snd cols"] assms by auto
  then show ?thesis by (auto simp: rest_table_def new_rest_table_def generate_row_def Let_def)
qed

text \<open>The pieces of a cell, before padding.\<close>

inductive pieces :: "nat \<Rightarrow> string \<Rightarrow> string list \<Rightarrow> bool" for width where
  "pieces width [] []"
| "item \<noteq> [] \<Longrightarrow> pieces width (snd (next_piece width item)) ps
     \<Longrightarrow> pieces width item (fst (next_piece width item) # ps)"

lemma row_item_pieces:
  assumes "row_item width item = Some r"
  shows "\<exists>ps. pieces width item ps \<and> r = map (pad width) ps"
proof (rule row_item.raw_induct [where P = "\<lambda>width item r. \<exists>ps. pieces width item ps \<and> r = map (pad width) ps", OF _ assms])
  fix f and width :: nat and item r
  assume IH: "\<And>width item r. f width item = Some r \<Longrightarrow> \<exists>ps. pieces width item ps \<and> r = map (pad width) ps"
    and eq: "(if item = [] then Some []
      else Option.bind (f width (snd (next_piece width item)))
        (\<lambda>r. Some (pad width (fst (next_piece width item)) # r))) = Some r"
  show "\<exists>ps. pieces width item ps \<and> r = map (pad width) ps"
  proof (cases "item = []")
    case True
    with eq show ?thesis by (auto intro: pieces.intros)
  next
    case False
    with eq obtain r' where r': "f width (snd (next_piece width item)) = Some r'"
      "r = pad width (fst (next_piece width item)) # r'"
      by (auto simp: Option.bind_eq_Some_conv)
    from IH [OF r'(1)] obtain ps where "pieces width (snd (next_piece width item)) ps" "r' = map (pad width) ps"
      by blast
    with False r'(2) show ?thesis
      by (intro exI [of _ "fst (next_piece width item) # ps"]) (auto intro: pieces.intros)
  qed
qed

lemma pieces_width: "pieces width item ps \<Longrightarrow> \<forall>p \<in> set ps. length p \<le> width"
  by (induction rule: pieces.induct) (auto simp: next_piece_width)

lemma next_piece_content:
  "filter (\<lambda>c. c \<noteq> CHR '' '') (fst (next_piece width item) @ snd (next_piece width item))
   = filter (\<lambda>c. c \<noteq> CHR '' '') item"
proof (cases "length item \<le> width")
  case False
  show ?thesis
  proof (cases "rfind_space (take width item)")
    case None
    with False show ?thesis
      by (simp add: next_piece_def) (simp only: filter_append [symmetric] append_take_drop_id, simp)
  next
    case (Some p)
    then have p: "p < length item" "item ! p = CHR '' ''"
      using rfind_space_Some [OF Some] by auto
    have "filter (\<lambda>c. c \<noteq> CHR '' '') item
      = filter (\<lambda>c. c \<noteq> CHR '' '') (take p item @ item ! p # drop (Suc p) item)"
      using p(1) by (simp only: id_take_nth_drop [symmetric])
    with False Some p(2) show ?thesis by (simp add: next_piece_def)
  qed
qed (simp add: next_piece_def)

lemma pieces_content:
  "pieces width item ps \<Longrightarrow> filter (\<lambda>c. c \<noteq> CHR '' '') (concat ps) = filter (\<lambda>c. c \<noteq> CHR '' '') item"
proof (induction rule: pieces.induct)
  case (2 item ps)
  then show ?case using next_piece_content [of width item] by simp
qed simp

text \<open>
  (row_item_layout): the layout of a cell ends for every column of width at least 2; every
  piece is padded to the width of the column, and the pieces together hold the characters
  of the item in their order, except spaces (breaks and padding).
\<close>

theorem row_item_layout:
  assumes "2 \<le> width"
  shows "\<exists>r. row_item width item = Some r \<and> list_all (\<lambda>l. length l = Suc width \<and> hd l = CHR ''|'') r
    \<and> filter (\<lambda>c. c \<noteq> CHR '' '') (concat (map tl r)) = filter (\<lambda>c. c \<noteq> CHR '' '') item"
proof -
  obtain r where r: "row_item width item = Some r" using row_item_total [OF assms] by blast
  obtain ps where ps: "pieces width item ps" "r = map (pad width) ps"
    using row_item_pieces [OF r] by blast
  have "filter (\<lambda>c. c \<noteq> CHR '' '') (concat (map (\<lambda>p. tl (pad width p)) ps)) = filter (\<lambda>c. c \<noteq> CHR '' '') (concat ps)"
    by (induction ps) (auto simp: pad_def)
  then have "filter (\<lambda>c. c \<noteq> CHR '' '') (concat (map tl r)) = filter (\<lambda>c. c \<noteq> CHR '' '') item"
    using pieces_content [OF ps(1)] by (simp add: ps(2) comp_def)
  moreover have "list_all (\<lambda>l. length l = Suc width \<and> hd l = CHR ''|'') r"
    using pieces_width [OF ps(1)] by (auto simp: ps(2) list_all_iff pad_width pad_def)
  ultimately show ?thesis using r by blast
qed

theorem row_item_layout_witness:
  "\<exists>r. row_item 4 ''ab cde'' = Some r \<and> list_all (\<lambda>l. length l = 5 \<and> hd l = CHR ''|'') r
    \<and> filter (\<lambda>c. c \<noteq> CHR '' '') (concat (map tl r)) = ''abcde''"
  using row_item_layout [of 4 "''ab cde''"] by simp

subsection \<open>Rows\<close>

definition fits :: "nat \<Rightarrow> string \<Rightarrow> bool" where
  "fits w i \<longleftrightarrow> stripped i \<and> length i \<le> w \<and> newline \<notin> set i"

lemma row_item_fits: "fits w i \<Longrightarrow> row_item w (strip i) = Some (if i = [] then [] else [pad w i])"
  by (simp add: fits_def stripped_def row_item.simps [of w i] row_item.simps [of w "[]"] next_piece_def)

lemma row_items_fit:
  "list_all2 fits ws is \<Longrightarrow> row_items ws is = Some (map2 (\<lambda>w i. if i = [] then [] else [pad w i]) ws is)"
  by (induction rule: list_all2_induct) (simp_all add: row_item_fits)

lemma max_count_fit:
  assumes "list_all2 fits ws is"
  shows "max_count (map2 (\<lambda>w i. if i = [] then [] else [pad w i]) ws is) = (if \<forall>i \<in> set is. i = [] then 0 else 1)"
proof -
  have f: "fold (\<lambda>r n. if n < length r then length r else n) (map2 (\<lambda>w i. if i = [] then [] else [pad w i]) ws is) n
      = (if n = 0 \<and> (\<forall>i \<in> set is. i = []) then 0 else 1)" if "n = 0 \<or> n = 1" for n
    using assms that by (induction arbitrary: n rule: list_all2_induct) auto
  show ?thesis using f [of 0] by (simp add: max_count_def)
qed

lemma fill_fits: "fits w i \<Longrightarrow> fill 1 w (if i = [] then [] else [pad w i]) = [pad w i]"
  by (auto simp: fill_def pad_def)

lemma generate_row_fits:
  assumes "list_all2 fits ws is"
  shows "generate_row ws is = Some (Ok (if \<forall>i \<in> set is. i = [] then []
    else concat (map2 pad ws is) @ [CHR ''|'', newline]))"
proof -
  have len: "length is = length ws" using assms by (simp add: list_all2_lengthD)
  let ?rs = "map2 (\<lambda>w i. if i = [] then [] else [pad w i]) ws is"
  have "map (\<lambda>r. r ! 0) (map2 (\<lambda>w r. fill 1 w r) ws ?rs) = map2 pad ws is"
    using assms by (induction rule: list_all2_induct) (auto simp: fill_fits simp del: One_nat_def)
  with assms len show ?thesis
    by (simp add: generate_row_def row_items_fit row_lines_def max_count_fit Let_def)
qed

lemma line_cells:
  assumes "list_all2 fits ws is" and "length pre = pos"
  shows "map2 (\<lambda>start w. line_cell (pre @ concat (map2 pad ws is) @ post) start w) (col_starts pos ws) ws = is"
  using assms
proof (induction arbitrary: pre pos rule: list_all2_induct)
  case (Cons w ws i "is")
  have w: "length (pad w i) = Suc w" and st: "strip i = i"
    using Cons.hyps by (simp_all add: fits_def pad_width stripped_def)
  let ?rest = "concat (map2 pad ws is)"
  have "take w (drop (Suc pos) (pre @ pad w i @ concat (map2 pad ws is) @ post)) = i @ replicate (w - length i) CHR '' ''"
    using Cons.prems Cons.hyps by (simp add: pad_def fits_def)
  then have "line_cell (pre @ pad w i @ concat (map2 pad ws is) @ post) (Suc pos) w = i"
    by (simp add: line_cell_def strip_spaces_right st)
  moreover have "map2 (\<lambda>start v. line_cell ((pre @ pad w i) @ concat (map2 pad ws is) @ post) start v)
      (col_starts (pos + 1 + w) ws) ws = is"
    using Cons.prems w by (intro Cons.IH) simp
  ultimately show ?case by simp
qed simp

lemma newline_not_in_pads:
  "list_all2 fits ws is \<Longrightarrow> newline \<notin> set (concat (map2 pad ws is))"
  by (induction rule: list_all2_induct) (auto simp: fits_def pad_def)

lemma generate_parse_row:
  assumes "list_all2 fits ws is"
  shows "\<exists>row. generate_row ws is = Some (Ok row) \<and> parse_row ws row = is"
proof (cases "\<forall>i \<in> set is. i = []")
  case True
  have "length ws = length is" using assms by (rule list_all2_lengthD)
  then have "map2 (\<lambda>start w. []) (col_starts pos ws) ws = is" for pos
    using True by (induction ws "is" arbitrary: pos rule: list_induct2) auto
  moreover have "strip [] = []" by (simp add: strip_def lstrip_def rstrip_def)
  ultimately have "parse_row ws [] = is" by (simp add: parse_row_def line_cell_def)
  with True show ?thesis by (simp add: generate_row_fits [OF assms])
next
  case False
  let ?line = "concat (map2 pad ws is) @ [CHR ''|'']"
  have "newline \<notin> set ?line" using newline_not_in_pads [OF assms] by simp
  from split_on_append [OF this, of "[]"]
  have lines: "split_on newline (concat (map2 pad ws is) @ [CHR ''|'', newline]) = [?line, []]" by simp
  have join2: "strip (join '' '' [line_cell ?line start w, line_cell [] start w]) = line_cell ?line start w" for start w
  proof -
    have "strip [] = []" by (simp add: strip_def lstrip_def rstrip_def)
    moreover have "strip (line_cell ?line start w) = line_cell ?line start w"
      using stripped_strip by (simp add: line_cell_def stripped_def)
    ultimately show ?thesis
      using strip_spaces_right [of "line_cell ?line start w" 1] by (simp add: line_cell_def)
  qed
  have "parse_row ws (concat (map2 pad ws is) @ [CHR ''|'', newline])
      = map2 (\<lambda>start w. line_cell ?line start w) (col_starts 0 ws) ws"
    unfolding parse_row_def lines Let_def using join2 by simp
  also have "\<dots> = is" using line_cells [OF assms, of "[]" 0 "[CHR ''|'']"] by simp
  finally show ?thesis using False by (auto simp: generate_row_fits [OF assms])
qed

text \<open>
  (parse_generate_row): a row whose cells are stripped, contain no line break and fit their
  columns is read back unchanged by \<open>parse_row\<close>.
\<close>

theorem parse_generate_row:
  assumes "list_all2 fits ws is"
  shows "\<exists>row. generate_row ws is = Some (Ok row) \<and> parse_row ws row = is"
  using assms by (rule generate_parse_row)

theorem parse_generate_row_witness:
  "\<exists>row. generate_row [4, 9] [''3'', ''Jan K''] = Some (Ok row) \<and> parse_row [4, 9] row = [''3'', ''Jan K'']"
  using parse_generate_row [of "[4, 9]" "[''3'', ''Jan K'']"]
  by (simp add: fits_def stripped_iff is_space_def code_def)

end
