(* ===== verification/Codec.thy ===== *)
theory Codec
  imports Prelude
begin

section \<open>Codecs\<close>

text \<open>
  What every pair of writer and reader in the source promises: a good value survives being
  written and read. The parameter types, the values of the ARS types and the messages of the
  thrift protocol are instances.
\<close>

locale codec =
  fixes enc :: "'v \<Rightarrow> 'w outcome" and dec :: "'w \<Rightarrow> 'v outcome" and good :: "'v \<Rightarrow> bool"
  assumes round: "good v \<Longrightarrow> \<exists>s. enc v = Ok s \<and> dec s = Ok v"
begin

lemma encodes: "good v \<Longrightarrow> is_ok (enc v)"
  using round by (auto simp: is_ok_iff)

lemma decodes: "good v \<Longrightarrow> enc v = Ok s \<Longrightarrow> dec s = Ok v"
  using round by fastforce

lemma enc_inj: "good v \<Longrightarrow> good w \<Longrightarrow> enc v = enc w \<Longrightarrow> v = w"
  using round by (metis outcome.inject(1))

text \<open>A list of good values, element by element.\<close>

lemma list_round:
  "list_all good vs \<Longrightarrow> \<exists>ws. map_outcome enc vs = Ok ws \<and> map_outcome dec ws = Ok vs \<and> length ws = length vs"
proof (induction vs)
  case (Cons v vs)
  then obtain ws where ws: "map_outcome enc vs = Ok ws" "map_outcome dec ws = Ok vs" "length ws = length vs" by auto
  from Cons.prems round [of v] obtain w where "enc v = Ok w" "dec w = Ok v" by auto
  with ws show ?case by (intro exI [of _ "w # ws"]) simp
qed simp

lemma list_distinct:
  "list_all good vs \<Longrightarrow> map_outcome enc vs = Ok ws \<Longrightarrow> distinct vs \<Longrightarrow> distinct ws"
proof -
  assume g: "list_all good vs" and e: "map_outcome enc vs = Ok ws" and "distinct vs"
  obtain us where "map_outcome enc vs = Ok us" "map_outcome dec us = Ok vs" using list_round [OF g] by blast
  with e have "map_outcome dec ws = Ok vs" by simp
  then have l: "list_all2 (\<lambda>w v. dec w = Ok v) ws vs" by (simp add: map_outcome_eq_Ok)
  show "distinct ws"
    unfolding distinct_conv_nth
  proof (intro allI impI)
    fix i j
    assume ij: "i < length ws" "j < length ws" "i \<noteq> j"
    then have "dec (ws ! i) = Ok (vs ! i)" "dec (ws ! j) = Ok (vs ! j)" "i < length vs" "j < length vs"
      using l by (auto simp: list_all2_conv_all_nth)
    with ij(3) \<open>distinct vs\<close> show "ws ! i \<noteq> ws ! j" by (metis distinct_conv_nth outcome.inject(1))
  qed
qed

end

end
