(* ===== verification/Params.thy ===== *)
theory Params
  imports Py_Strings Codec
begin

section \<open>satori.tools.params: typed parameters\<close>

text \<open>
  The parameters of aggregators, reporters and judges: typed values stored as strings in an
  attribute map.
  \<^item> \<open>oa_type\<close>: the classes derived from \<open>OaType\<close>. Text, bool, int and size are modelled;
    float, time and datetime are \<open>OaExt\<close> with their name, and their methods, which rest on
    floating point and the calendar, are fields of the record \<open>ext\<close> that the definitions
    take as an argument.
  \<^item> \<open>oa_param\<close>: \<open>OaParam\<close>, with its XML form; \<open>read_oa_map\<close>, \<open>write_oa_map\<close>:
    the methods of \<open>OaTypedParser\<close>. Parsing the XML text itself (minidom) is a parameter.
\<close>

datatype 'x pval = PText string | PBool bool | PInt int | PExt 'x

datatype oa_type = OaText | OaBoolean | OaInteger | OaSize | OaExt string | OaBlob

record 'x ext =
  e_str :: "'x \<Rightarrow> string"
  e_true :: "'x \<Rightarrow> bool"
  e_int :: "'x \<Rightarrow> int outcome"
  e_cast :: "string \<Rightarrow> 'x pval \<Rightarrow> 'x pval outcome"
  e_to :: "string \<Rightarrow> 'x pval \<Rightarrow> string outcome"
  e_from :: "string \<Rightarrow> string \<Rightarrow> 'x pval outcome"

definition oa_types :: "string \<Rightarrow> oa_type outcome" where
  "oa_types n =
     (if n = ''text'' then Ok OaText
      else if n = ''bool'' then Ok OaBoolean
      else if n = ''int'' then Ok OaInteger
      else if n = ''size'' then Ok OaSize
      else if n = ''blob'' then Ok OaBlob
      else if n \<in> {''float'', ''time'', ''datetime''} then Ok (OaExt n)
      else Raise KeyError)"

fun type_name :: "oa_type \<Rightarrow> string" where
  "type_name OaText = ''text''"
| "type_name OaBoolean = ''bool''"
| "type_name OaInteger = ''int''"
| "type_name OaSize = ''size''"
| "type_name OaBlob = ''blob''"
| "type_name (OaExt n) = n"

text \<open>\<open>unicode(value)\<close> and \<open>lower\<close>, \<open>upper\<close>.\<close>

fun py_unicode :: "'x ext \<Rightarrow> 'x pval \<Rightarrow> string" where
  "py_unicode X (PText s) = s"
| "py_unicode X (PBool b) = (if b then ''True'' else ''False'')"
| "py_unicode X (PInt i) = str_int i"
| "py_unicode X (PExt x) = e_str X x"

definition shift_char :: "int \<Rightarrow> char \<Rightarrow> char" where
  "shift_char d c = char_of (nat (int (code c) + d))"

definition lower :: "string \<Rightarrow> string" where
  "lower = map (\<lambda>c. if code c \<in> {65..90} \<union> ({192..222} - {215}) then shift_char 32 c else c)"

definition upper :: "string \<Rightarrow> string" where
  "upper = map (\<lambda>c. if code c \<in> {97..122} \<union> ({224..254} - {247}) then shift_char (- 32) c else c)"

text \<open>\<open>int(value)\<close> and the truth of a value.\<close>

definition py_int :: "'x ext \<Rightarrow> 'x pval \<Rightarrow> 'x pval outcome" where
  "py_int X v =
     (case v of
        PText s \<Rightarrow> (case parse_int s of Some i \<Rightarrow> Ok (PInt i) | None \<Rightarrow> Raise ValueError)
      | PBool b \<Rightarrow> Ok (PInt (of_bool b))
      | PInt i \<Rightarrow> Ok (PInt i)
      | PExt x \<Rightarrow> map_ok PInt (e_int X x))"

fun py_true :: "'x ext \<Rightarrow> 'x pval \<Rightarrow> bool" where
  "py_true X (PText s) = (s \<noteq> [])"
| "py_true X (PBool b) = b"
| "py_true X (PInt i) = (i \<noteq> 0)"
| "py_true X (PExt x) = e_true X x"

text \<open>
  \<open>OaType.cast\<close>: a value of the right Python type is kept; bool is a subclass of int, so a
  bool is kept by the integer types. \<open>OaTypeBlob\<close> inherits \<open>value_type\<close>, which raises
  (it raises the constant NotImplemented, a TypeError).
\<close>

fun cast :: "'x ext \<Rightarrow> oa_type \<Rightarrow> 'x pval \<Rightarrow> 'x pval outcome" where
  "cast X OaText v = (case v of PText s \<Rightarrow> Ok v | _ \<Rightarrow> Ok (PText (py_unicode X v)))"
| "cast X OaBoolean v = (case v of PBool b \<Rightarrow> Ok v | _ \<Rightarrow> Ok (PBool (py_true X v)))"
| "cast X OaInteger v = (case v of PInt i \<Rightarrow> Ok v | PBool b \<Rightarrow> Ok v | _ \<Rightarrow> py_int X v)"
| "cast X OaSize v = (case v of PInt i \<Rightarrow> Ok v | PBool b \<Rightarrow> Ok v | _ \<Rightarrow> py_int X v)"
| "cast X (OaExt n) v = e_cast X n v"
| "cast X OaBlob v = Raise TypeError"

definition size_scales :: "string list" where
  "size_scales = [[], ''K'', ''M'', ''G'', ''T'']"

text \<open>The loops over \<open>reversed(range(0, len(scales)))\<close>; the argument is the number of scales left.\<close>

fun size_to :: "nat \<Rightarrow> int \<Rightarrow> string" where
  "size_to 0 v = str_int v"
| "size_to (Suc s) v =
     (if v mod 1024 ^ s = 0 then str_int (v div 1024 ^ s) @ size_scales ! s @ ''B''
      else size_to s v)"

definition ends_with :: "string \<Rightarrow> string \<Rightarrow> bool" where
  "ends_with p s \<longleftrightarrow> suffix p s"

definition int_or_error :: "string \<Rightarrow> int outcome" where
  "int_or_error s = (case parse_int s of Some i \<Rightarrow> Ok i | None \<Rightarrow> Raise ValueError)"

fun size_from :: "nat \<Rightarrow> string \<Rightarrow> int outcome" where
  "size_from 0 v = int_or_error v"
| "size_from (Suc s) v =
     (if ends_with (size_scales ! s @ ''B'') v
      then map_ok (\<lambda>i. i * 1024 ^ s) (int_or_error (take (length v - length (size_scales ! s @ ''B'')) v))
      else size_from s v)"

fun as_int :: "'x pval \<Rightarrow> int" where
  "as_int (PInt i) = i"
| "as_int (PBool b) = of_bool b"
| "as_int _ = 0"

text \<open>\<open>_to_unicode\<close> and \<open>_from_unicode\<close> of each class, then \<open>to_unicode\<close> and \<open>from_unicode\<close>.\<close>

fun to_unicode0 :: "'x ext \<Rightarrow> oa_type \<Rightarrow> 'x pval \<Rightarrow> string outcome" where
  "to_unicode0 X OaBoolean v = Ok (if py_true X v then ''true'' else ''false'')"
| "to_unicode0 X OaSize v = Ok (size_to (length size_scales) (as_int v))"
| "to_unicode0 X (OaExt n) v = e_to X n v"
| "to_unicode0 X _ v = Ok (py_unicode X v)"

fun from_unicode0 :: "'x ext \<Rightarrow> oa_type \<Rightarrow> string \<Rightarrow> 'x pval outcome" where
  "from_unicode0 X OaBoolean s =
     (let v = lower s in
      if v = ''true'' \<or> v = ''yes'' \<or> v = ''1'' then Ok (PBool True)
      else if v = ''false'' \<or> v = ''no'' \<or> v = ''0'' then Ok (PBool False)
      else Raise ValueError)"
| "from_unicode0 X OaSize s = map_ok PInt (size_from (length size_scales) (upper (strip s)))"
| "from_unicode0 X (OaExt n) s = e_from X n s"
| "from_unicode0 X t s = cast X t (PText s)"

definition to_unicode :: "'x ext \<Rightarrow> oa_type \<Rightarrow> 'x pval \<Rightarrow> string outcome" where
  "to_unicode X t v = bind_ok (cast X t v) (to_unicode0 X t)"

definition from_unicode :: "'x ext \<Rightarrow> oa_type \<Rightarrow> string \<Rightarrow> 'x pval outcome" where
  "from_unicode X t s = bind_ok (from_unicode0 X t s) (cast X t)"

subsection \<open>Parameters and their XML form\<close>

record 'x oa_param =
  p_type :: oa_type
  p_name :: string
  p_description :: string
  p_required :: bool
  p_default :: "'x pval option"

text \<open>\<open>OaParam.__init__\<close>; \<open>unicode(None)\<close> is the string None.\<close>

definition oa_param :: "'x ext \<Rightarrow> oa_type \<Rightarrow> string \<Rightarrow> string option \<Rightarrow> bool \<Rightarrow> 'x pval option
    \<Rightarrow> 'x oa_param outcome" where
  "oa_param X t name description required def =
     (let desc = (case description of None \<Rightarrow> ''None'' | Some d \<Rightarrow> d) in
      case def of
        None \<Rightarrow> Ok \<lparr>p_type = t, p_name = name, p_description = desc, p_required = required, p_default = None\<rparr>
      | Some v \<Rightarrow>
          map_ok (\<lambda>v'. \<lparr>p_type = t, p_name = name, p_description = desc, p_required = required,
              p_default = Some v'\<rparr>) (cast X t v))"

record element =
  tag_name :: string
  attributes :: "(string, string) dict"

definition set_attribute :: "string \<Rightarrow> string \<Rightarrow> element \<Rightarrow> element" where
  "set_attribute k v e = e\<lparr>attributes := dset k v (attributes e)\<rparr>"

definition get_attribute :: "element \<Rightarrow> string \<Rightarrow> string" where
  "get_attribute e k = dget_def_val (attributes e) k []"

definition param_to_dom :: "'x ext \<Rightarrow> 'x oa_param \<Rightarrow> element outcome" where
  "param_to_dom X p =
     (let e = \<lparr>tag_name = ''param'', attributes = []\<rparr>;
          e = set_attribute ''type'' (type_name (p_type p)) e;
          e = set_attribute ''name'' (p_name p) e;
          e = (if p_description p \<noteq> [] then set_attribute ''description'' (p_description p) e else e);
          e = (if p_required p then set_attribute ''required'' ''true'' e else e) in
      case p_default p of
        None \<Rightarrow> Ok e
      | Some v \<Rightarrow> map_ok (\<lambda>s. set_attribute ''default'' s e) (to_unicode X (p_type p) v))"

definition param_from_dom :: "'x ext \<Rightarrow> element \<Rightarrow> 'x oa_param outcome" where
  "param_from_dom X e =
     (if tag_name e \<noteq> ''param'' then Raise ValueError
      else bind_ok (oa_types (get_attribute e ''type'')) (\<lambda>t.
        let name = get_attribute e ''name''; description = dget (attributes e) ''description'' in
        bind_ok (case dget (attributes e) ''required'' of
                   None \<Rightarrow> Ok (PBool False) | Some s \<Rightarrow> from_unicode X OaBoolean s) (\<lambda>required.
        bind_ok (case dget (attributes e) ''default'' of
                   None \<Rightarrow> Ok None | Some s \<Rightarrow> map_ok Some (from_unicode X t s)) (\<lambda>def.
        oa_param X t name description (py_true X required) def))))"

text \<open>\<open>OaTypedParser\<close> with \<open>use_default\<close> and \<open>check_required\<close>; an attribute is its flag and value.\<close>

type_synonym oa_map = "(string, bool \<times> string) dict"

fun read_oa_map :: "'x ext \<Rightarrow> bool \<Rightarrow> bool \<Rightarrow> 'x oa_param list \<Rightarrow> oa_map
    \<Rightarrow> (string, 'x pval option) dict \<Rightarrow> (string, 'x pval option) dict outcome" where
  "read_oa_map X use_default check_required [] m result = Ok result"
| "read_oa_map X use_default check_required (p # ps) m result =
     bind_ok (case dget m (p_name p) of
                Some a \<Rightarrow> map_ok Some (from_unicode X (p_type p) (snd a))
              | None \<Rightarrow> Ok (if use_default then p_default p else None)) (\<lambda>value.
     if check_required \<and> p_required p \<and> value = None then Raise ValueError
     else read_oa_map X use_default check_required ps m (dset (p_name p) value result))"

fun write_oa_map :: "'x ext \<Rightarrow> 'x oa_param list \<Rightarrow> (string, 'x pval option) dict \<Rightarrow> oa_map \<Rightarrow> oa_map outcome" where
  "write_oa_map X [] d result = Ok result"
| "write_oa_map X (p # ps) d result =
     (case dget d (p_name p) of
        Some (Some v) \<Rightarrow>
          bind_ok (to_unicode X (p_type p) v) (\<lambda>s.
          write_oa_map X ps d (dset (p_name p) (False, s) result))
      | _ \<Rightarrow>
          if p_required p \<and> p_default p = None then Raise ValueError
          else write_oa_map X ps d result)"

text \<open>
  \<open>parse_params\<close> and \<open>set_params\<close>, given what \<open>parser_from_xml\<close> returns for the
  description.
\<close>

definition parse_params :: "'x ext \<Rightarrow> 'x oa_param list option \<Rightarrow> oa_map \<Rightarrow> (string, 'x pval option) dict outcome" where
  "parse_params X parser m = (case parser of None \<Rightarrow> Ok [] | Some ps \<Rightarrow> read_oa_map X True True ps m [])"

definition set_params :: "'x ext \<Rightarrow> 'x oa_param list option \<Rightarrow> (string, 'x pval option) dict \<Rightarrow> oa_map outcome" where
  "set_params X parser d = (case parser of None \<Rightarrow> Ok [] | Some ps \<Rightarrow> write_oa_map X ps d [])"

subsection \<open>Values of a type\<close>

fun typed :: "oa_type \<Rightarrow> 'x pval \<Rightarrow> bool" where
  "typed OaText (PText s) = True"
| "typed OaBoolean (PBool b) = True"
| "typed OaInteger (PInt i) = True"
| "typed OaSize (PInt i) = True"
| "typed _ _ = False"

lemma upper_digit: "is_digit c \<or> c = CHR ''-'' \<Longrightarrow>
   (if code c \<in> {97..122} \<union> ({224..254} - {247}) then shift_char (- 32) c else c) = c"
  by (auto simp: is_digit_def code_def)

lemma str_int_chars: "c \<in> set (str_int i) \<Longrightarrow> is_digit c \<or> c = CHR ''-''"
  using str_nat_digits by (auto simp: str_int_def list_all_iff split: if_splits)

lemma upper_append [simp]: "upper (s @ t) = upper s @ upper t"
  by (simp add: upper_def)

lemma upper_str_int [simp]: "upper (str_int i) = str_int i"
  unfolding upper_def by (rule map_idI) (rule upper_digit [OF str_int_chars])

lemma str_int_last: "\<exists>t c. str_int i = t @ [c] \<and> is_digit c"
proof -
  have "str_nat n = butlast (str_nat n) @ [last (str_nat n)] \<and> is_digit (last (str_nat n))" for n
    using str_nat_digits [of n] by (simp add: list_all_iff)
  then have n: "\<exists>t c. str_nat n = t @ [c] \<and> is_digit c" for n by blast
  show ?thesis
  proof (cases "i < 0")
    case True
    obtain t c where "str_nat (nat (- i)) = t @ [c]" "is_digit c" using n by blast
    with True show ?thesis by (intro exI [of _ "CHR ''-'' # t"]) (simp add: str_int_def)
  next
    case False
    with n show ?thesis by (simp add: str_int_def)
  qed
qed

lemma str_int_ne [simp]: "str_int i \<noteq> []"
  using str_int_last [of i] by auto

lemma str_int_hd: "\<not> is_space (hd (str_int i))"
proof -
  have "is_digit (hd (str_int i)) \<or> hd (str_int i) = CHR ''-''" by (rule str_int_chars [where i = i]) simp
  then show ?thesis by (auto simp: digit_not_space) (simp add: is_space_def code_def)
qed

lemma int_or_error_str_int [simp]: "int_or_error (str_int i) = Ok i"
  by (simp add: int_or_error_def parse_int_str_int)

lemma scale_cases: "s < 5 \<Longrightarrow> s = 0 \<or> s = 1 \<or> s = 2 \<or> s = 3 \<or> s = 4" for s :: nat
  by auto

lemma scale_nth: "size_scales ! 0 = []" "size_scales ! 1 = ''K''" "size_scales ! 2 = ''M''"
  "size_scales ! 3 = ''G''" "size_scales ! 4 = ''T''"
  by (simp_all add: size_scales_def)

lemma ends_with_snoc: "ends_with (p @ [a]) (s @ [b]) \<longleftrightarrow> a = b \<and> ends_with p s"
  by (simp add: ends_with_def)

lemma ends_with_unit: "is_digit c \<Longrightarrow> s < 5 \<Longrightarrow> s' < 5 \<Longrightarrow>
   ends_with (size_scales ! s' @ ''B'') ((t @ [c]) @ size_scales ! s @ ''B'') \<longleftrightarrow> s' = s \<or> s' = 0"
proof -
  assume c: "is_digit c" and s: "s < 5" "s' < 5"
  have nd: "\<not> is_digit CHR ''K''" "\<not> is_digit CHR ''M''" "\<not> is_digit CHR ''G''" "\<not> is_digit CHR ''T''"
    by (simp_all add: is_digit_def code_def)
  have d: "ends_with [x] (t @ [y]) \<longleftrightarrow> x = y" for x y :: char and t
    using ends_with_snoc [of "[]" x t y] by (simp add: ends_with_def)
  have d2: "suffix [x] (t @ [y, z]) \<longleftrightarrow> x = z" for x y z :: char and t
    using d [of x "t @ [y]" z] by (simp add: ends_with_def)
  have one: "ends_with (size_scales ! s' @ ''B'') (u @ ''B'') \<longleftrightarrow> ends_with (size_scales ! s') u" for u
    using ends_with_snoc by auto
  have "ends_with (size_scales ! s') ((t @ [c]) @ size_scales ! s) \<longleftrightarrow> s' = s \<or> s' = 0"
    using scale_cases [OF s(1)] scale_cases [OF s(2)] nd c
    by (elim disjE) (auto simp: scale_nth d2 d [unfolded ends_with_def] scale_nth [unfolded One_nat_def] ends_with_def)
  then show ?thesis using one [of "(t @ [c]) @ size_scales ! s"] by simp
qed

lemma size_from_unit:
  assumes "s < n" and "n \<le> 5"
  shows "size_from n (str_int q @ size_scales ! s @ ''B'') = Ok (q * 1024 ^ s)"
  using assms
proof (induction n)
  case (Suc n)
  obtain t c where t: "str_int q = t @ [c]" "is_digit c" using str_int_last by blast
  have e: "ends_with (size_scales ! n @ ''B'') (str_int q @ size_scales ! s @ ''B'') \<longleftrightarrow> n = s \<or> n = 0"
    using ends_with_unit [OF t(2), of s n t] Suc.prems t(1) by simp
  show ?case
  proof (cases "n = s")
    case True
    then show ?thesis using e by simp
  next
    case False
    with Suc.prems have "s < n" by simp
    with False Suc e show ?thesis by simp
  qed
qed simp

lemma size_to_unit: "\<exists>s \<le> n. size_to (Suc n) v = str_int (v div 1024 ^ s) @ size_scales ! s @ ''B'' \<and> v mod 1024 ^ s = 0"
proof (induction n)
  case (Suc n)
  then show ?case by (cases "v mod 1024 ^ Suc n = 0") (auto intro: le_SucI)
qed (auto simp: size_scales_def)

lemma size_round: "size_from 5 (upper (strip (size_to 5 v))) = Ok v"
proof -
  obtain s where s: "s \<le> 4" "size_to 5 v = str_int (v div 1024 ^ s) @ size_scales ! s @ ''B''" "v mod 1024 ^ s = 0"
    using size_to_unit [of 4 v] by (auto simp: numeral_eq_Suc)
  have "stripped (size_to 5 v)"
    using str_int_hd by (simp add: s(2) stripped_iff is_space_def code_def)
  moreover have "upper (size_scales ! s) = size_scales ! s"
    using scale_cases [of s] s(1) by (auto simp: scale_nth scale_nth [unfolded One_nat_def] upper_def code_def)
  moreover have "upper ''B'' = ''B''" by (simp add: upper_def code_def)
  ultimately have "upper (strip (size_to 5 v)) = str_int (v div 1024 ^ s) @ size_scales ! s @ ''B''"
    unfolding stripped_def by (simp add: s(2))
  then show ?thesis using size_from_unit [of s 5 "v div 1024 ^ s"] s(1,3) by auto
qed

lemma typed_cast [simp]: "typed t v \<Longrightarrow> cast X t v = Ok v"
  by (cases "(t, v)" rule: typed.cases) simp_all

lemma lower_bool: "lower ''true'' = ''true''" "lower ''false'' = ''false''"
  by (simp_all add: lower_def code_def)

lemma typed_round: "typed t v \<Longrightarrow> \<exists>s. to_unicode X t v = Ok s \<and> from_unicode X t s = Ok v"
proof (cases t)
  case OaSize
  moreover assume "typed t v"
  moreover have "length size_scales = 5" by (simp add: size_scales_def)
  ultimately show ?thesis
    by (cases v) (simp_all add: to_unicode_def from_unicode_def size_round)
next
  case OaBoolean
  moreover assume "typed t v"
  ultimately show ?thesis
    by (cases v) (simp_all add: to_unicode_def from_unicode_def lower_bool)
next
  case OaInteger
  moreover assume "typed t v"
  ultimately show ?thesis
    by (cases v) (simp_all add: to_unicode_def from_unicode_def py_int_def parse_int_str_int)
qed (cases v; simp add: to_unicode_def from_unicode_def)+

interpretation plain: codec "to_unicode X t" "from_unicode X t" "typed t"
  by unfold_locales (rule typed_round)

subsection \<open>Round trips of parameter maps\<close>

lemma read_oa_map_other:
  "read_oa_map X ud cr ps m r = Ok r' \<Longrightarrow> k \<notin> p_name ` set ps \<Longrightarrow> dget r' k = dget r k"
proof (induction ps arbitrary: r)
  case (Cons p ps)
  then show ?case by (fastforce simp: outcome_simps split: if_splits)
qed simp

definition present :: "(string, 'x pval option) dict \<Rightarrow> 'x oa_param \<Rightarrow> 'x pval option" where
  "present d p = (case dget d (p_name p) of Some (Some v) \<Rightarrow> Some v | _ \<Rightarrow> None)"

lemma write_oa_map_law:
  assumes "distinct (map p_name ps)" and "\<And>p v. p \<in> set ps \<Longrightarrow> present d p = Some v \<Longrightarrow> typed (p_type p) v"
    and "\<And>p. p \<in> set ps \<Longrightarrow> p_required p \<Longrightarrow> present d p \<noteq> None \<or> p_default p \<noteq> None"
  shows "\<exists>m. write_oa_map X ps d r = Ok m
    \<and> (\<forall>k. k \<notin> p_name ` set ps \<longrightarrow> dget m k = dget r k)
    \<and> (\<forall>p \<in> set ps. dget m (p_name p) = (case present d p of
          Some v \<Rightarrow> (case to_unicode X (p_type p) v of Ok s \<Rightarrow> Some (False, s) | Raise e \<Rightarrow> None)
        | None \<Rightarrow> dget r (p_name p)))"
  using assms
proof (induction ps arbitrary: r)
  case (Cons p ps)
  have IH: "\<And>r. \<exists>m. write_oa_map X ps d r = Ok m
    \<and> (\<forall>k. k \<notin> p_name ` set ps \<longrightarrow> dget m k = dget r k)
    \<and> (\<forall>p \<in> set ps. dget m (p_name p) = (case present d p of
          Some v \<Rightarrow> (case to_unicode X (p_type p) v of Ok s \<Rightarrow> Some (False, s) | Raise e \<Rightarrow> None)
        | None \<Rightarrow> dget r (p_name p)))"
    using Cons.prems by (intro Cons.IH) auto
  have new: "p_name p \<notin> p_name ` set ps" using Cons.prems(1) by simp
  have other: "p_name q \<noteq> p_name p" if "q \<in> set ps" for q
    using new that by (metis image_eqI)
  show ?case
  proof (cases "present d p")
    case None
    with Cons.prems(3) [of p] have "\<not> (p_required p \<and> p_default p = None)" by auto
    with None have "write_oa_map X (p # ps) d r = write_oa_map X ps d r"
      by (auto simp: present_def split: option.splits)
    with IH [of r] None new show ?thesis by fastforce
  next
    case (Some v)
    with Cons.prems(2) obtain s where s: "to_unicode X (p_type p) v = Ok s"
      using plain.round by fastforce
    have "write_oa_map X (p # ps) d r = write_oa_map X ps d (dset (p_name p) (False, s) r)"
      using Some s by (auto simp: present_def split: option.splits)
    with IH [of "dset (p_name p) (False, s) r"] Some s new other show ?thesis by (force split: option.splits)
  qed
qed simp

lemma read_oa_map_law:
  assumes "distinct (map p_name ps)"
    and "\<And>p. p \<in> set ps \<Longrightarrow> \<exists>v. val p = Ok v \<and> (p_required p \<longrightarrow> v \<noteq> None)"
    and "\<And>p. p \<in> set ps \<Longrightarrow> val p = (case dget m (p_name p) of
                Some a \<Rightarrow> map_ok Some (from_unicode X (p_type p) (snd a)) | None \<Rightarrow> Ok (p_default p))"
  shows "\<exists>r'. read_oa_map X True True ps m r = Ok r' \<and> (\<forall>p \<in> set ps. val p = Ok (the (dget r' (p_name p))) \<and> dget r' (p_name p) \<noteq> None)"
  using assms
proof (induction ps arbitrary: r)
  case (Cons p ps)
  obtain v where v: "val p = Ok v" "p_required p \<longrightarrow> v \<noteq> None" using Cons.prems(2) by fastforce
  have "\<exists>r'. read_oa_map X True True ps m (dset (p_name p) v r) = Ok r'
      \<and> (\<forall>p \<in> set ps. val p = Ok (the (dget r' (p_name p))) \<and> dget r' (p_name p) \<noteq> None)"
    using Cons.prems by (intro Cons.IH) auto
  then obtain r' where r': "read_oa_map X True True ps m (dset (p_name p) v r) = Ok r'"
    "\<forall>p \<in> set ps. val p = Ok (the (dget r' (p_name p))) \<and> dget r' (p_name p) \<noteq> None" by blast
  have "(case dget m (p_name p) of Some a \<Rightarrow> map_ok Some (from_unicode X (p_type p) (snd a))
      | None \<Rightarrow> Ok (if True then p_default p else None)) = Ok v"
    using Cons.prems(3) [of p] v(1) by simp
  then have "read_oa_map X True True (p # ps) m r = Ok r'"
    using v(2) r'(1) by simp
  moreover have "dget r' (p_name p) = Some v"
    using read_oa_map_other [OF r'(1), of "p_name p"] Cons.prems(1) by auto
  ultimately show ?case using r'(2) v(1) by auto
qed simp

text \<open>
  (params_round_trip): for a parser whose parameters have distinct names and are text, bool,
  int or size parameters, writing a map of typed values and reading it back gives, for every
  parameter, the value written, and the default where there was none.
\<close>

theorem params_round_trip:
  fixes ps :: "'x oa_param list"
  assumes "distinct (map p_name ps)"
    and "\<forall>p \<in> set ps. \<forall>v. present d p = Some v \<longrightarrow> typed (p_type p) v"
    and "\<forall>p \<in> set ps. p_required p \<longrightarrow> present d p \<noteq> None \<or> p_default p \<noteq> None"
  shows "\<exists>m r. set_params X (Some ps) d = Ok m \<and> parse_params X (Some ps) m = Ok r
    \<and> (\<forall>p \<in> set ps. dget r (p_name p) = Some (case present d p of Some v \<Rightarrow> Some v | None \<Rightarrow> p_default p))"
proof -
  obtain m where m: "write_oa_map X ps d [] = Ok m"
    "\<forall>p \<in> set ps. dget m (p_name p) = (case present d p of
        Some v \<Rightarrow> (case to_unicode X (p_type p) v of Ok s \<Rightarrow> Some (False, s) | Raise e \<Rightarrow> None) | None \<Rightarrow> None)"
    using write_oa_map_law [OF assms(1), of d X "[]"] assms(2,3) by (auto cong: option.case_cong)
  define val where "val p = (case dget m (p_name p) of
                Some a \<Rightarrow> map_ok Some (from_unicode X (p_type p) (snd a)) | None \<Rightarrow> Ok (p_default p))" for p :: "'x oa_param"
  have val: "val p = Ok (case present d p of Some v \<Rightarrow> Some v | None \<Rightarrow> p_default p)" if pin: "p \<in> set ps" for p
  proof (cases "present d p")
    case (Some v)
    then obtain s where "to_unicode X (p_type p) v = Ok s" "from_unicode X (p_type p) s = Ok v"
      using plain.round [of "p_type p" v X] assms(2) pin by blast
    with Some m(2) pin show ?thesis by (auto simp: val_def)
  qed (use m(2) pin in \<open>simp add: val_def\<close>)
  have "\<exists>r. read_oa_map X True True ps m [] = Ok r
      \<and> (\<forall>p \<in> set ps. val p = Ok (the (dget r (p_name p))) \<and> dget r (p_name p) \<noteq> None)"
    using assms(3) by (intro read_oa_map_law [OF assms(1)]) (auto simp: val val_def [symmetric] split: option.splits)
  with m(1) val show ?thesis by (fastforce simp: set_params_def parse_params_def)
qed

definition no_ext :: "unit ext" where
  "no_ext = \<lparr>e_str = (\<lambda>x. []), e_true = (\<lambda>x. True), e_int = (\<lambda>x. Raise TypeError),
     e_cast = (\<lambda>n v. Raise ValueError), e_to = (\<lambda>n v. Raise ValueError), e_from = (\<lambda>n s. Raise ValueError)\<rparr>"

definition sample_params :: "unit oa_param list" where
  "sample_params =
    [\<lparr>p_type = OaSize, p_name = ''mem'', p_description = ''limit'', p_required = True, p_default = None\<rparr>,
     \<lparr>p_type = OaBoolean, p_name = ''all'', p_description = ''run all'', p_required = False, p_default = Some (PBool False)\<rparr>]"

theorem params_round_trip_witness:
  "\<exists>m r. set_params no_ext (Some sample_params) [(''mem'', Some (PInt 2048))] = Ok m
    \<and> parse_params no_ext (Some sample_params) m = Ok r
    \<and> dget r ''mem'' = Some (Some (PInt 2048)) \<and> dget r ''all'' = Some (Some (PBool False))"
proof -
  have "distinct (map p_name sample_params)"
    "\<forall>p \<in> set sample_params. \<forall>v. present [(''mem'', Some (PInt 2048))] p = Some v \<longrightarrow> typed (p_type p) v"
    "\<forall>p \<in> set sample_params. p_required p \<longrightarrow> present [(''mem'', Some (PInt 2048))] p \<noteq> None \<or> p_default p \<noteq> None"
    by (simp_all add: sample_params_def present_def)
  from params_round_trip [OF this, of no_ext] obtain m r where
    mr: "set_params no_ext (Some sample_params) [(''mem'', Some (PInt 2048))] = Ok m"
      "parse_params no_ext (Some sample_params) m = Ok r"
    and r: "\<forall>p \<in> set sample_params. dget r (p_name p) =
      Some (case present [(''mem'', Some (PInt 2048))] p of Some v \<Rightarrow> Some v | None \<Rightarrow> p_default p)" by blast
  from r have "dget r ''mem'' = Some (Some (PInt 2048)) \<and> dget r ''all'' = Some (Some (PBool False))"
    by (simp add: sample_params_def present_def)
  with mr show ?thesis by blast
qed

text \<open>
  (param_dom_round_trip): writing a parameter as an XML element and reading it back gives the
  same parameter, if it has a non-empty description and its default is a typed value.
\<close>

theorem param_dom_round_trip:
  assumes "oa_types (type_name (p_type p)) = Ok (p_type p)" and "p_description p \<noteq> []"
    and "\<forall>v. p_default p = Some v \<longrightarrow> typed (p_type p) v"
  shows "\<exists>e. param_to_dom X p = Ok e \<and> param_from_dom X e = Ok p"
proof -
  have t: "from_unicode X OaBoolean ''true'' = Ok (PBool True)"
    by (simp add: from_unicode_def lower_bool)
  show ?thesis
  proof (cases "p_default p")
    case None
    with assms t show ?thesis
      by (cases "p_required p")
        (auto simp: param_to_dom_def param_from_dom_def Let_def set_attribute_def get_attribute_def
          dget_def_val_def oa_param_def)
  next
    case (Some v)
    then obtain s where s: "to_unicode X (p_type p) v = Ok s" "from_unicode X (p_type p) s = Ok v"
      using plain.round assms(3) by blast
    with Some assms t show ?thesis
      by (cases "p_required p")
        (auto simp: param_to_dom_def param_from_dom_def Let_def set_attribute_def get_attribute_def
          dget_def_val_def oa_param_def)
  qed
qed

theorem param_dom_round_trip_witness:
  "\<exists>e. param_to_dom no_ext \<lparr>p_type = OaInteger, p_name = ''n'', p_description = ''stars'', p_required = True, p_default = Some (PInt 4)\<rparr> = Ok e
    \<and> param_from_dom no_ext e = Ok \<lparr>p_type = OaInteger, p_name = ''n'', p_description = ''stars'', p_required = True, p_default = Some (PInt 4)\<rparr>"
  by (rule param_dom_round_trip) (simp_all add: oa_types_def)

end
