(* ===== verification/Check_Reporters.thy ===== *)
theory Check_Reporters
  imports Check_Db Rest_Table Params
begin

section \<open>satori.core.checking: accumulators and reporters\<close>

text \<open>
  A reporter folds the results of the tests of a suite into the status and the report of the
  suite result.
  \<^item> \<open>rctx\<close>: the reporter's class, parameters and state, the suite result object it shares with
    its dispatcher (key and copy of the row), and the database.
  \<^item> \<open>floats\<close>: the floating point operations of \<open>PointsReporter\<close> and the insertion of blist's
    \<open>sortedlist\<close>, which are parameters. A score is an int until a float is added.
  \<^item> no accumulator is derived from \<open>AccumulatorBase\<close> in the source; its registry is empty.
\<close>

datatype reporter_class = Assignment_Reporter | Status_Reporter | Multiple_Status_Reporter | ACM_Reporter | Points_Reporter

definition reporters :: "string \<Rightarrow> reporter_class outcome" where
  "reporters n =
     (if n = ''AssignmentReporter'' then Ok Assignment_Reporter
      else if n = ''StatusReporter'' then Ok Status_Reporter
      else if n = ''MultipleStatusReporter'' then Ok Multiple_Status_Reporter
      else if n = ''ACMReporter'' then Ok ACM_Reporter
      else if n = ''PointsReporter'' then Ok Points_Reporter
      else Raise KeyError)"

fun class_name :: "reporter_class \<Rightarrow> string" where
  "class_name Assignment_Reporter = ''AssignmentReporter''"
| "class_name Status_Reporter = ''StatusReporter''"
| "class_name Multiple_Status_Reporter = ''MultipleStatusReporter''"
| "class_name ACM_Reporter = ''ACMReporter''"
| "class_name Points_Reporter = ''PointsReporter''"

text \<open>The parameters declared in the docstring of each class; a class without one has no parser.\<close>

definition bool_param :: "string \<Rightarrow> string \<Rightarrow> bool \<Rightarrow> unit oa_param" where
  "bool_param n desc def = \<lparr>p_type = OaBoolean, p_name = n, p_description = desc, p_required = False,
     p_default = Some (PBool def)\<rparr>"

fun class_params :: "reporter_class \<Rightarrow> unit oa_param list option" where
  "class_params Status_Reporter = Some []"
| "class_params ACM_Reporter = Some
     [bool_param ''show_tests'' ''Show individual test results'' True,
      bool_param ''run_all'' ''Run all test (even after failing result)'' False]"
| "class_params Points_Reporter = Some
     [bool_param ''show_tests'' ''Show individual test results'' True,
      bool_param ''use_judge_score'' ''Use scores provided by judge'' False,
      bool_param ''display_time'' ''Display running/limit time'' True,
      bool_param ''run_all'' ''Run all test (even after failing result)'' False,
      bool_param ''falling'' ''Linear points decrease'' False,
      bool_param ''show_score'' ''Show score in status'' False]"
| "class_params _ = None"

type_synonym params = "(string, unit pval option) dict"

text \<open>\<open>ReporterBase.__init__\<close>: the attributes that start with the class name and a dot.\<close>

definition class_attributes :: "string \<Rightarrow> (string, stored) dict \<Rightarrow> oa_map" where
  "class_attributes n m =
     map (\<lambda>(k, a). (drop (length n + 1) k, (s_is_blob a, s_value a)))
       (filter (\<lambda>(k, a). starts_with (n @ ''.'') k) m)"

definition reporter_params :: "reporter_class \<Rightarrow> oa_group \<Rightarrow> params outcome" where
  "reporter_params c g = parse_params no_ext (class_params c) (class_attributes (class_name c) (oa_get_map g))"

definition param_true :: "params \<Rightarrow> string \<Rightarrow> bool outcome" where
  "param_true ps n =
     (case dget ps n of
        None \<Rightarrow> Raise (AttributeError n)
      | Some None \<Rightarrow> Ok False
      | Some (Some v) \<Rightarrow> Ok (py_true no_ext v))"

datatype 'f num = Whole int | Flt 'f

record 'f floats =
  fl_falling :: "string \<Rightarrow> string \<Rightarrow> 'f outcome"
  fl_negative :: "'f \<Rightarrow> bool"
  fl_full :: "'f \<Rightarrow> bool"
  fl_add :: "'f num \<Rightarrow> 'f num \<Rightarrow> 'f"
  fl_percent :: "'f \<Rightarrow> int \<Rightarrow> int"
  fl_str :: "'f \<Rightarrow> string"
  sl_add :: "string list \<Rightarrow> string list list \<Rightarrow> string list list"

record acm_state =
  ac_names :: "(int, string) dict"
  ac_codes :: "int list"
  ac_values :: "(string, (int, string) dict) dict"
  ac_nonempty :: "(string, bool) dict"
  ac_status :: string

record 'f points_state =
  po_checked :: int
  po_passed :: int
  po_weighted :: "'f num"
  po_normalized :: "'f num"
  po_status :: string
  po_lines :: "string list list"

datatype 'f rep_state =
    Fresh
  | Assignment_State
  | Status_State string
  | Multi_State "(int, string option) dict" string
  | Acm_State acm_state
  | Points_State "'f points_state"

record 'f reporter =
  re_class :: reporter_class
  re_params :: params
  re_state :: "'f rep_state"

record 'f rctx =
  x_rep :: "'f reporter"
  x_key :: key
  x_inst :: suite_result
  x_db :: db

definition reporter_new :: "suite_result \<Rightarrow> db \<Rightarrow> 'f reporter outcome" where
  "reporter_new r d =
     (case dget (suites d) (sr_suite r) of
        None \<Rightarrow> Raise DoesNotExist
      | Some s \<Rightarrow> bind_ok (reporters (su_reporter s)) (\<lambda>c.
          bind_ok (reporter_params c (su_params s)) (\<lambda>ps.
          Ok \<lparr>re_class = c, re_params = ps, re_state = Fresh\<rparr>)))"

definition set_state :: "'f rep_state \<Rightarrow> 'f rctx \<Rightarrow> 'f rctx" where
  "set_state s x = x\<lparr>x_rep := (x_rep x)\<lparr>re_state := s\<rparr>\<rparr>"

definition set_result :: "string \<Rightarrow> string \<Rightarrow> 'f rctx \<Rightarrow> 'f rctx" where
  "set_result status report x = x\<lparr>x_inst := (x_inst x)\<lparr>sr_status := status, sr_report := report\<rparr>\<rparr>"

definition put_str :: "string \<Rightarrow> string \<Rightarrow> 'f rctx \<Rightarrow> 'f rctx" where
  "put_str n v x = x\<lparr>x_db := suite_set_str (x_key x) n v (x_db x)\<rparr>"

definition save :: "'f rctx \<Rightarrow> unit outcome \<times> 'f rctx" where
  "save x = (case save_suite_result (x_key x) (x_inst x) (x_db x) of (r, d) \<Rightarrow> (r, x\<lparr>x_db := d\<rparr>))"

definition acm_columns :: "(string \<times> string) list" where
  "acm_columns = [(''status'', ''Status''), (''execute_time_cpu'', ''CPU time''),
     (''execute_time_gpu'', ''GPU time''), (''message'', ''Message'')]"

subsection \<open>init\<close>

definition new_acm_state :: acm_state where
  "new_acm_state = \<lparr>ac_names = [], ac_codes = [],
     ac_values = map (\<lambda>(i, n). (i, [])) acm_columns, ac_nonempty = map (\<lambda>(i, n). (i, False)) acm_columns,
     ac_status = ''OK''\<rparr>"

definition new_points_state :: "'f points_state" where
  "new_points_state = \<lparr>po_checked = 0, po_passed = 0, po_weighted = Whole 0, po_normalized = Whole 0,
     po_status = [], po_lines = []\<rparr>"

definition assignment_start :: "'f rctx \<Rightarrow> unit outcome \<times> 'f rctx" where
  "assignment_start x = save (set_result ''ACC'' [] (put_str ''status'' ''ACC'' (set_state Assignment_State x)))"

definition status_start :: "'f rctx \<Rightarrow> unit outcome \<times> 'f rctx" where
  "status_start x = save (set_result ''QUE'' [] (put_str ''status'' ''QUE'' (set_state (Status_State ''OK'') x)))"

definition multi_start :: "'f rctx \<Rightarrow> unit outcome \<times> 'f rctx" where
  "multi_start x = save (set_result ''QUE'' [] (put_str ''status'' ''QUE'' (set_state (Multi_State [] ''OK'') x)))"

definition acm_start :: "'f rctx \<Rightarrow> unit outcome \<times> 'f rctx" where
  "acm_start x = save (set_result ''QUE'' [] (put_str ''status'' ''QUE'' (set_state (Acm_State new_acm_state) x)))"

definition points_start :: "'f rctx \<Rightarrow> unit outcome \<times> 'f rctx" where
  "points_start x = save (set_result ''QUE'' [] (set_state (Points_State new_points_state) x))"

definition reporter_init :: "'f rctx \<Rightarrow> unit outcome \<times> 'f rctx" where
  "reporter_init x =
     (case re_class (x_rep x) of
        Assignment_Reporter \<Rightarrow> assignment_start x
      | Status_Reporter \<Rightarrow> status_start x
      | Multiple_Status_Reporter \<Rightarrow> multi_start x
      | ACM_Reporter \<Rightarrow> acm_start x
      | Points_Reporter \<Rightarrow> points_start x)"

lemmas start_defs = assignment_start_def status_start_def multi_start_def acm_start_def points_start_def

subsection \<open>accumulate\<close>

text \<open>The status kept is the first one that is not OK; a missing status counts as INT.\<close>

definition add_status :: "string \<Rightarrow> string option \<Rightarrow> string" where
  "add_status old new =
     (let s = (case new of None \<Rightarrow> ''INT'' | Some s \<Rightarrow> s) in
      if old = ''OK'' \<and> s \<noteq> ''OK'' then s else old)"

definition test_order :: "key \<Rightarrow> key \<Rightarrow> db \<Rightarrow> int outcome" where
  "test_order s t d =
     (case dget (suites d) s of
        None \<Rightarrow> Raise DoesNotExist
      | Some su \<Rightarrow> (case dget (su_tests su) t of None \<Rightarrow> Raise DoesNotExist | Some i \<Rightarrow> Ok i))"

fun acm_columns_add :: "key \<Rightarrow> db \<Rightarrow> int \<Rightarrow> (string \<times> string) list \<Rightarrow> acm_state \<Rightarrow> acm_state outcome" where
  "acm_columns_add k d i [] s = Ok s"
| "acm_columns_add k d i ((column_id, column_name) # cs) s =
     bind_ok (result_get_str k column_id None d) (\<lambda>value.
       let col = dget_def_val (ac_values s) column_id [] in
       acm_columns_add k d i cs
         (case value of
            Some v \<Rightarrow> s\<lparr>ac_values := dset column_id (dset i v col) (ac_values s),
                         ac_nonempty := dset column_id True (ac_nonempty s)\<rparr>
          | None \<Rightarrow> s\<lparr>ac_values := dset column_id (dset i [] col) (ac_values s)\<rparr>))"

definition acm_accumulate :: "key \<Rightarrow> test_result \<Rightarrow> key \<Rightarrow> db \<Rightarrow> acm_state \<Rightarrow> acm_state outcome" where
  "acm_accumulate k r s d st =
     bind_ok (row (tests d) (tr_test r)) (\<lambda>test.
     bind_ok (test_order s (tr_test r) d) (\<lambda>i.
     bind_ok (result_get_str k ''status'' None d) (\<lambda>status.
     bind_ok (acm_columns_add k d i acm_columns st) (\<lambda>st1.
     Ok (st1\<lparr>ac_codes := ac_codes st1 @ [i], ac_names := dset i (te_name test) (ac_names st1),
              ac_status := add_status (ac_status st1) status\<rparr>)))))"

definition multi_accumulate :: "key \<Rightarrow> test_result \<Rightarrow> key \<Rightarrow> db \<Rightarrow> (int, string option) dict \<Rightarrow> string
    \<Rightarrow> ((int, string option) dict \<times> string) outcome" where
  "multi_accumulate k r s d sts old =
     bind_ok (row (tests d) (tr_test r)) (\<lambda>test.
     bind_ok (test_order s (tr_test r) d) (\<lambda>i.
     bind_ok (result_get_str k ''status'' None d) (\<lambda>status.
     Ok (dset i status sts, add_status old status))))"

fun num_add :: "'f floats \<Rightarrow> 'f num \<Rightarrow> 'f num \<Rightarrow> 'f num" where
  "num_add F (Whole a) (Whole b) = Whole (a + b)"
| "num_add F a b = Flt (fl_add F a b)"

fun num_str :: "'f floats \<Rightarrow> 'f num \<Rightarrow> string" where
  "num_str F (Whole i) = str_int i"
| "num_str F (Flt f) = fl_str F f"

text \<open>\<open>int(100 * weighted / checked)\<close>; on ints the division floors.\<close>

fun percent :: "'f floats \<Rightarrow> 'f num \<Rightarrow> int \<Rightarrow> int" where
  "percent F (Whole w) n = (100 * w) div n"
| "percent F (Flt f) n = fl_percent F f n"

fun clamp_score :: "'f floats \<Rightarrow> 'f num \<Rightarrow> 'f num" where
  "clamp_score F (Whole i) = (if i < 0 then Whole 0 else if i \<ge> 1 then Whole 1 else Whole i)"
| "clamp_score F (Flt f) = (if fl_negative F f then Whole 0 else if fl_full F f then Whole 1 else Flt f)"

definition judge_score :: "string option outcome \<Rightarrow> int" where
  "judge_score v = (case v of Ok (Some s) \<Rightarrow> (case parse_int s of Some i \<Rightarrow> i | None \<Rightarrow> 0) | _ \<Rightarrow> 0)"

definition points_accumulate :: "'f floats \<Rightarrow> params \<Rightarrow> key \<Rightarrow> test_result \<Rightarrow> key \<Rightarrow> db
    \<Rightarrow> 'f points_state \<Rightarrow> 'f points_state outcome" where
  "points_accumulate F ps k r s d st =
     bind_ok (row (tests d) (tr_test r)) (\<lambda>test.
     bind_ok (test_order s (tr_test r) d) (\<lambda>i.
     bind_ok (result_get_str k ''status'' None d) (\<lambda>status.
     let checked = po_checked st + 1;
         result = (case status of None \<Rightarrow> ''INT'' | Some v \<Rightarrow> v);
         passed = (if result = ''OK'' then po_passed st + 1 else po_passed st) in
     bind_ok (if result = ''OK'' \<or> result = ''ANS''
              then map_ok the (result_get_str k ''execute_time_cpu'' (Some ''0s'') d)
              else Ok [backslash, CHR ''-'', backslash, CHR ''-'']) (\<lambda>elapsed.
     bind_ok (map_ok the (raise_oa (oa_get_str (te_data test) ''time'' (Some ''1s'')))) (\<lambda>limit.
     bind_ok (param_true ps ''use_judge_score'') (\<lambda>use_judge.
     bind_ok (param_true ps ''falling'') (\<lambda>falling.
     bind_ok (param_true ps ''display_time'') (\<lambda>display_time.
     bind_ok (if use_judge then Ok (Whole (judge_score (result_get_str k ''score'' None d)))
              else map_ok (clamp_score F)
                (if result = ''OK'' then if falling then map_ok Flt (fl_falling F elapsed limit) else Ok (Whole 1)
                 else Ok (Whole 0))) (\<lambda>score.
     let weighted = num_add F (po_weighted st) score;
         normalized = (if use_judge then weighted else Whole (percent F weighted checked));
         line = [te_name test, result] @ (if display_time then [elapsed @ '' / '' @ limit] else [])
           @ (if falling \<or> use_judge then [num_str F score] else []) in
     Ok \<lparr>po_checked = checked, po_passed = passed, po_weighted = weighted, po_normalized = normalized,
         po_status = str_int passed @ '' / '' @ str_int checked,
         po_lines = sl_add F line (po_lines st)\<rparr>)))))))))"

definition status_accumulate :: "key \<Rightarrow> string \<Rightarrow> 'f rctx \<Rightarrow> unit outcome \<times> 'f rctx" where
  "status_accumulate k old x =
     (case result_get_str k ''status'' None (x_db x) of
        Raise e \<Rightarrow> (Raise e, x)
      | Ok status \<Rightarrow> (Ok (), set_state (Status_State (add_status old status)) x))"

definition reporter_accumulate :: "'f floats \<Rightarrow> key \<Rightarrow> test_result \<Rightarrow> 'f rctx \<Rightarrow> unit outcome \<times> 'f rctx" where
  "reporter_accumulate F k r x =
     (case re_state (x_rep x) of
        Status_State old \<Rightarrow> status_accumulate k old x
      | Multi_State sts old \<Rightarrow>
          (case multi_accumulate k r (sr_suite (x_inst x)) (x_db x) sts old of
             Raise e \<Rightarrow> (Raise e, x)
           | Ok (sts', new) \<Rightarrow> (Ok (), set_state (Multi_State sts' new) x))
      | Acm_State st \<Rightarrow>
          (case acm_accumulate k r (sr_suite (x_inst x)) (x_db x) st of
             Raise e \<Rightarrow> (Raise e, x)
           | Ok st' \<Rightarrow> (Ok (), set_state (Acm_State st') x))
      | Points_State st \<Rightarrow>
          (case points_accumulate F (re_params (x_rep x)) k r (sr_suite (x_inst x)) (x_db x) st of
             Raise e \<Rightarrow> (Raise e, x)
           | Ok st' \<Rightarrow> save (set_state (Points_State st') x))
      | _ \<Rightarrow> (Ok (), x))"

subsection \<open>status and deinit\<close>

definition reporter_status :: "'f reporter \<Rightarrow> bool outcome" where
  "reporter_status rep =
     (case re_state rep of
        Status_State s \<Rightarrow> Ok (s = ''OK'')
      | Acm_State st \<Rightarrow> if ac_status st = ''OK'' then Ok True else param_true (re_params rep) ''run_all''
      | _ \<Rightarrow> Ok True)"

text \<open>The override of the status by the submit.\<close>

definition final_status :: "'f rctx \<Rightarrow> string \<Rightarrow> string outcome" where
  "final_status x s =
     bind_ok (row (submits (x_db x)) (sr_submit (x_inst x))) (\<lambda>sub.
     Ok (case oa_get (sb_overrides sub) ''status'' of
           Some a \<Rightarrow> if s_is_blob a then s else s_value a
         | None \<Rightarrow> s))"

definition acm_report :: "acm_state \<Rightarrow> string outcome" where
  "acm_report st =
     (let shown = filter (\<lambda>(i, n). dget_def_val (ac_nonempty st) i False) acm_columns;
          ws = 20 # map (\<lambda>c. 15) shown in
      bind_ok (rest_table ((20, ''Test'') # map (\<lambda>(i, n). (15, n)) shown)) (\<lambda>table.
      map_ok (\<lambda>rows. row_separator table @ header_row table @ header_separator table
          @ concat (map (\<lambda>row. row @ row_separator table) rows))
        (map_outcome (\<lambda>code. table_row ws
            (dget_def_val (ac_names st) code []
             # map (\<lambda>(i, n). dget_def_val (dget_def_val (ac_values st) i []) code []) shown))
          (sort (ac_codes st)))))"

definition points_report :: "params \<Rightarrow> 'f points_state \<Rightarrow> string outcome" where
  "points_report ps st =
     bind_ok (param_true ps ''show_tests'') (\<lambda>show_tests.
     if \<not> show_tests then Ok []
     else
     bind_ok (param_true ps ''display_time'') (\<lambda>display_time.
     bind_ok (param_true ps ''falling'') (\<lambda>falling.
     bind_ok (param_true ps ''use_judge_score'') (\<lambda>use_judge.
     let cols = [(20, ''Test''), (10, ''Status'')] @ (if display_time then [(20, ''Time'')] else [])
           @ (if falling \<or> use_judge then [(20, ''Score'')] else []) in
     bind_ok (rest_table cols) (\<lambda>table.
     map_ok (\<lambda>rows. row_separator table @ header_row table @ header_separator table
         @ concat (map (\<lambda>row. row @ row_separator table) rows))
       (map_outcome (table_row (map fst cols)) (po_lines st)))))))"

definition assignment_overrides :: "submit \<Rightarrow> string \<times> string" where
  "assignment_overrides sub =
     (let m = oa_get_map (sb_overrides sub);
          pick = (\<lambda>n def. case dget m n of Some a \<Rightarrow> if s_is_blob a then def else s_value a | None \<Rightarrow> def) in
      (pick ''status'' ''ACC'', pick ''report'' []))"

definition stored_attr :: "string \<Rightarrow> stored \<Rightarrow> attr" where
  "stored_attr n a = \<lparr>a_name = n, a_is_blob = s_is_blob a, a_value = s_value a, a_filename = Some (s_filename a)\<rparr>"

definition finish_status :: "string \<Rightarrow> string \<Rightarrow> 'f rctx \<Rightarrow> unit outcome \<times> 'f rctx" where
  "finish_status own report x =
     (case final_status x own of
        Raise e \<Rightarrow> (Raise e, x)
      | Ok status \<Rightarrow> save (set_result status report (put_str ''status'' status x)))"

definition assignment_deinit :: "(string \<Rightarrow> bool) \<Rightarrow> 'f rctx \<Rightarrow> unit outcome \<times> 'f rctx" where
  "assignment_deinit blob_exists x =
     (case row (submits (x_db x)) (sr_submit (x_inst x)) of
        Raise e \<Rightarrow> (Raise e, x)
      | Ok sub \<Rightarrow>
          (case save (set_result (fst (assignment_overrides sub)) (snd (assignment_overrides sub)) x) of
             (Raise e, x1) \<Rightarrow> (Raise e, x1)
           | (Ok _, x1) \<Rightarrow>
               (case suite_set_map blob_exists (x_key x1)
                   (map (\<lambda>(n, a). (n, stored_attr n a)) (oa_get_map (sb_overrides sub))) (x_db x1) of
                  (r, d) \<Rightarrow> (r, x1\<lparr>x_db := d\<rparr>))))"

definition status_deinit :: "string \<Rightarrow> 'f rctx \<Rightarrow> unit outcome \<times> 'f rctx" where
  "status_deinit s x = finish_status s (''Finished checking: '' @ s) x"

definition multi_deinit :: "string \<Rightarrow> 'f rctx \<Rightarrow> unit outcome \<times> 'f rctx" where
  "multi_deinit s x =
     (case final_status x s of
        Raise e \<Rightarrow> (Raise e, x)
      | Ok status \<Rightarrow> (Raise (AttributeError ''objects''),
          set_result status (sr_report (x_inst x)) (put_str ''status'' status x)))"

definition acm_deinit :: "acm_state \<Rightarrow> 'f rctx \<Rightarrow> unit outcome \<times> 'f rctx" where
  "acm_deinit st x =
     (case final_status x (ac_status st) of
        Raise e \<Rightarrow> (Raise e, x)
      | Ok status \<Rightarrow>
          (let x1 = set_result status (sr_report (x_inst x)) (put_str ''status'' status x) in
           case bind_ok (param_true (re_params (x_rep x)) ''show_tests'')
               (\<lambda>b. if b then acm_report st else Ok []) of
             Raise e \<Rightarrow> (Raise e, x1)
           | Ok report \<Rightarrow> save (set_result status report x1)))"

definition points_deinit :: "'f floats \<Rightarrow> 'f points_state \<Rightarrow> 'f rctx \<Rightarrow> unit outcome \<times> 'f rctx" where
  "points_deinit F st x =
     (case bind_ok (points_report (re_params (x_rep x)) st) (\<lambda>report.
         map_ok (\<lambda>b. (report, b)) (param_true (re_params (x_rep x)) ''show_score'')) of
        Raise e \<Rightarrow> (Raise e, x)
      | Ok (report, show_score) \<Rightarrow>
          save (put_str ''score'' (num_str F (po_normalized st))
            (put_str ''weighted'' (num_str F (po_weighted st))
            (put_str ''passed'' (str_int (po_passed st))
            (put_str ''checked'' (str_int (po_checked st))
            (put_str ''simple_status'' (po_status st)
            (set_result (if show_score then num_str F (po_normalized st) @ '' ['' @ po_status st @ '']''
                         else po_status st) report x)))))))"

definition reporter_deinit :: "'f floats \<Rightarrow> (string \<Rightarrow> bool) \<Rightarrow> 'f rctx \<Rightarrow> unit outcome \<times> 'f rctx" where
  "reporter_deinit F blob_exists x =
     (case re_state (x_rep x) of
        Fresh \<Rightarrow> (Raise (AttributeError ''_status''), x)
      | Assignment_State \<Rightarrow> assignment_deinit blob_exists x
      | Status_State s \<Rightarrow> status_deinit s x
      | Multi_State sts s \<Rightarrow> multi_deinit s x
      | Acm_State st \<Rightarrow> acm_deinit st x
      | Points_State st \<Rightarrow> points_deinit F st x)"

lemmas deinit_defs = assignment_deinit_def status_deinit_def multi_deinit_def acm_deinit_def points_deinit_def

subsection \<open>Properties\<close>

definition text_attr :: "string \<Rightarrow> stored" where
  "text_attr v = \<lparr>s_is_blob = False, s_value = v, s_filename = []\<rparr>"

definition sample_db :: db where
  "sample_db = \<lparr>test_results =
       [(3, \<lparr>tr_submit = 1, tr_test = 10, tr_tester = None, tr_pending = False\<rparr>),
        (4, \<lparr>tr_submit = 1, tr_test = 11, tr_tester = None, tr_pending = False\<rparr>)],
     result_oa = [(3, [(''status'', text_attr ''OK'')]), (4, [(''status'', text_attr ''ANS'')])],
     suite_results = [(7, \<lparr>sr_submit = 1, sr_suite = 20, sr_pending = True, sr_status = [], sr_report = []\<rparr>)],
     suite_oa = [(7, [])],
     tests = [(10, \<lparr>te_name = ''0a'', te_data = []\<rparr>), (11, \<lparr>te_name = ''1a'', te_data = []\<rparr>)],
     suites = [(20, \<lparr>su_dispatcher = ''SerialDispatcher'', su_reporter = ''StatusReporter'', su_accumulators = [],
       su_tests = [(10, 0), (11, 1)], su_params = []\<rparr>)],
     submits = [(1, \<lparr>sb_problem = 5, sb_contestant = 6, sb_time = 0, sb_overrides = []\<rparr>)],
     problems = [(5, \<lparr>pm_contest = 8, pm_code = ''A'', pm_title = ''Adding'', pm_default_suite = Some 20, pm_group = []\<rparr>)],
     contests = [(8, False)],
     contestants = [(6, \<lparr>cn_contest = 8, cn_name = ''Jan'', cn_sort_field = ''Jan'', cn_accepted = True, cn_invisible = False, cn_login = None\<rparr>)],
     rankings = [], ranking_params_table = [], entries = [], temporary_submits = [], roles = [30]\<rparr>"

definition no_floats :: "unit floats" where
  "no_floats = \<lparr>fl_falling = (\<lambda>a b. Raise ValueError), fl_negative = (\<lambda>x. False), fl_full = (\<lambda>x. False),
     fl_add = (\<lambda>a b. ()), fl_percent = (\<lambda>x n. 0), fl_str = (\<lambda>x. []), sl_add = (\<lambda>x xs. xs @ [x])\<rparr>"

definition sample_rctx :: "reporter_class \<Rightarrow> 'f rep_state \<Rightarrow> 'f rctx" where
  "sample_rctx c st = \<lparr>x_rep = \<lparr>re_class = c, re_params = [], re_state = st\<rparr>, x_key = 7,
     x_inst = \<lparr>sr_submit = 1, sr_suite = 20, sr_pending = True, sr_status = [], sr_report = []\<rparr>, x_db = sample_db\<rparr>"

fun accumulate_all :: "'f floats \<Rightarrow> (key \<times> test_result) list \<Rightarrow> 'f rctx \<Rightarrow> unit outcome \<times> 'f rctx" where
  "accumulate_all F [] x = (Ok (), x)"
| "accumulate_all F ((k, r) # rs) x =
     (case reporter_accumulate F k r x of
        (Raise e, x1) \<Rightarrow> (Raise e, x1)
      | (Ok _, x1) \<Rightarrow> accumulate_all F rs x1)"

text \<open>The status a list of test statuses stands for: the first that is not OK.\<close>

definition verdict :: "string option list \<Rightarrow> string" where
  "verdict ss = (case filter (\<lambda>s. s \<noteq> Some ''OK'') ss of
      [] \<Rightarrow> ''OK'' | s # _ \<Rightarrow> (case s of None \<Rightarrow> ''INT'' | Some v \<Rightarrow> v))"

lemma fold_add_status: "fold (\<lambda>s old. add_status old s) ss old = (if old = ''OK'' then verdict ss else old)"
  by (induction ss arbitrary: old) (auto simp: verdict_def add_status_def Let_def split: option.splits)

lemma verdict_OK: "verdict ss = ''OK'' \<longleftrightarrow> list_all (\<lambda>s. s = Some ''OK'') ss"
  by (induction ss) (auto simp: verdict_def split: option.split)

lemma accumulate_status_state:
  assumes "re_state (x_rep x) = Status_State old"
    and "list_all2 (\<lambda>kr s. result_get_str (fst kr) ''status'' None d = Ok s) rs ss" and "x_db x = d"
  shows "accumulate_all F rs x = (Ok (), set_state (Status_State (fold (\<lambda>s old. add_status old s) ss old)) x)"
  using assms(2,1,3)
proof (induction arbitrary: x old rule: list_all2_induct)
  case Nil
  then show ?case by (cases x, cases "x_rep x") (simp add: set_state_def)
next
  case (Cons kr rs s ss)
  obtain k r where kr: "kr = (k, r)" by (cases kr)
  let ?x = "set_state (Status_State (add_status old s)) x"
  have "reporter_accumulate F k r x = (Ok (), ?x)"
    using Cons.hyps(1) Cons.prems kr by (simp add: reporter_accumulate_def status_accumulate_def)
  moreover have "accumulate_all F rs ?x
      = (Ok (), set_state (Status_State (fold (\<lambda>s old. add_status old s) ss (add_status old s))) ?x)"
    using Cons.prems by (intro Cons.IH) (simp_all add: set_state_def)
  ultimately show ?case by (simp add: kr set_state_def)
qed

lemma save_ok:
  assumes "dget (suite_results (x_db x)) (x_key x) = Some r0"
  shows "save x = (Ok (), x\<lparr>x_db := (x_db x)\<lparr>suite_results := dset (x_key x) (x_inst x) (suite_results (x_db x))\<rparr>\<rparr>)"
  using update_row_Ok [OF assms, of "x_inst x"] by (simp add: save_def save_suite_result_def)

lemma suite_set_str_tables [simp]:
  "suite_results (suite_set_str k n v d) = suite_results d" "submits (suite_set_str k n v d) = submits d"
  "result_oa (suite_set_str k n v d) = result_oa d" "test_results (suite_set_str k n v d) = test_results d"
  by (simp_all add: suite_set_str_def)

text \<open>
  (status_reporter_verdict): a status reporter that has accumulated any list of test results
  ends with the verdict of their statuses: OK when all are OK, otherwise the first other
  status, INT for a missing one. It writes the verdict to the status of the suite result,
  unless the submit has an override, and reports the verdict in either case.
\<close>

theorem status_reporter_verdict:
  assumes "re_class (x_rep x) = Status_Reporter"
    and "dget (suite_results (x_db x)) (x_key x) = Some r0" and "dget (submits (x_db x)) (sr_submit (x_inst x)) = Some sub"
    and "list_all2 (\<lambda>kr s. result_get_str (fst kr) ''status'' None (x_db x) = Ok s) rs ss"
  shows "\<exists>x1 x2 x3. reporter_init x = (Ok (), x1) \<and> accumulate_all F rs x1 = (Ok (), x2)
    \<and> reporter_status (x_rep x2) = Ok (list_all (\<lambda>s. s = Some ''OK'') ss)
    \<and> reporter_deinit F be x2 = (Ok (), x3)
    \<and> dget (suite_results (x_db x3)) (x_key x) = Some ((x_inst x)\<lparr>
        sr_status := (case oa_get (sb_overrides sub) ''status'' of
            Some a \<Rightarrow> if s_is_blob a then verdict ss else s_value a | None \<Rightarrow> verdict ss),
        sr_report := ''Finished checking: '' @ verdict ss\<rparr>)"
proof -
  let ?x0 = "set_result ''QUE'' [] (put_str ''status'' ''QUE'' (set_state (Status_State ''OK'') x))"
  have tab: "suite_results (x_db ?x0) = suite_results (x_db x)" "x_key ?x0 = x_key x"
    by (simp_all add: set_result_def put_str_def set_state_def)
  obtain x1 where x1: "save ?x0 = (Ok (), x1)" "x_rep x1 = x_rep ?x0" "x_key x1 = x_key x" "x_inst x1 = x_inst ?x0"
    "submits (x_db x1) = submits (x_db x)" "result_oa (x_db x1) = result_oa (x_db x)"
    "dget (suite_results (x_db x1)) (x_key x) = Some (x_inst ?x0)"
    using save_ok [of ?x0 r0] assms(2) tab by (simp add: set_result_def put_str_def set_state_def)
  have st: "re_state (x_rep x1) = Status_State ''OK''"
    using x1(2) by (simp add: set_result_def put_str_def set_state_def)
  have "list_all2 (\<lambda>kr s. result_get_str (fst kr) ''status'' None (x_db x1) = Ok s) rs ss"
    using assms(4) by (simp add: result_get_str_def x1(6))
  from accumulate_status_state [OF st this refl, of F]
  have acc: "accumulate_all F rs x1 = (Ok (), set_state (Status_State (verdict ss)) x1)"
    by (simp add: fold_add_status)
  let ?x2 = "set_state (Status_State (verdict ss)) x1"
  have "verdict ss = ''OK'' \<longleftrightarrow> list_all (\<lambda>s. s = Some ''OK'') ss" by (rule verdict_OK)
  then have status: "reporter_status (x_rep ?x2) = Ok (list_all (\<lambda>s. s = Some ''OK'') ss)"
    by (simp add: reporter_status_def set_state_def)
  let ?s = "case oa_get (sb_overrides sub) ''status'' of
      Some a \<Rightarrow> if s_is_blob a then verdict ss else s_value a | None \<Rightarrow> verdict ss"
  have fs: "final_status ?x2 (verdict ss) = Ok ?s"
    using assms(3) x1(4,5) by (simp add: final_status_def row_def set_state_def set_result_def put_str_def)
  let ?x3 = "set_result ?s (''Finished checking: '' @ verdict ss) (put_str ''status'' ?s ?x2)"
  have "dget (suite_results (x_db ?x3)) (x_key ?x3) = Some (x_inst ?x0)" and k3: "x_key ?x3 = x_key x"
    and i3: "x_inst ?x3 = (x_inst x)\<lparr>sr_status := ?s, sr_report := ''Finished checking: '' @ verdict ss\<rparr>"
    using x1(3,4,7) by (simp_all add: set_result_def put_str_def set_state_def)
  from save_ok [OF this(1)] obtain x3 where x3: "save ?x3 = (Ok (), x3)"
    "dget (suite_results (x_db x3)) (x_key ?x3) = Some (x_inst ?x3)" by simp
  then have "reporter_deinit F be ?x2 = (Ok (), x3)"
    using fs by (simp add: reporter_deinit_def deinit_defs finish_status_def set_state_def)
  moreover have "reporter_init x = (Ok (), x1)" using assms(1) x1(1) by (simp add: reporter_init_def start_defs)
  ultimately show ?thesis using acc status x3(2) k3 i3 by metis
qed

theorem status_reporter_verdict_witness:
  "\<exists>x1 x2 x3. reporter_init (sample_rctx Status_Reporter Fresh) = (Ok (), x1)
    \<and> accumulate_all no_floats [(3, the (dget (test_results sample_db) 3)), (4, the (dget (test_results sample_db) 4))] x1 = (Ok (), x2)
    \<and> reporter_status (x_rep x2) = Ok False \<and> reporter_deinit no_floats (\<lambda>h. True) x2 = (Ok (), x3)
    \<and> map_option sr_status (dget (suite_results (x_db x3)) 7) = Some ''ANS''"
proof -
  let ?x = "sample_rctx Status_Reporter Fresh :: unit rctx"
  have x: "re_class (x_rep ?x) = Status_Reporter" "dget (suite_results (x_db ?x)) (x_key ?x) = Some (x_inst ?x)"
    "dget (submits (x_db ?x)) (sr_submit (x_inst ?x)) = Some \<lparr>sb_problem = 5, sb_contestant = 6, sb_time = 0, sb_overrides = []\<rparr>"
    by (simp_all add: sample_rctx_def sample_db_def)
  have "list_all2 (\<lambda>kr s. result_get_str (fst kr) ''status'' None (x_db ?x) = Ok s)
      [(3, the (dget (test_results sample_db) 3)), (4, the (dget (test_results sample_db) 4))] [Some ''OK'', Some ''ANS'']"
    by (simp add: sample_rctx_def sample_db_def result_get_str_def group_of_def dget_def_val_def oa_get_str_def
        oa_get_def text_attr_def)
  from status_reporter_verdict [OF x this, of no_floats "\<lambda>h. True"] show ?thesis
    by (auto simp: verdict_def oa_get_def) (auto simp: sample_rctx_def)
qed

text \<open>
  (multiple_status_reporter_fails): finishing a \<open>MultipleStatusReporter\<close> always raises: a
  dict has no attribute \<open>objects\<close>, so no suite result is ever finished by this reporter.
\<close>

theorem multiple_status_reporter_fails:
  assumes "re_state (x_rep x) = Multi_State sts s"
  shows "\<exists>e x'. reporter_deinit F be x = (Raise e, x') \<and> suite_results (x_db x') = suite_results (x_db x)"
  using assms
  by (auto simp: reporter_deinit_def deinit_defs set_result_def put_str_def split: outcome.splits)

theorem multiple_status_reporter_fails_witness:
  "\<exists>e x'. reporter_deinit no_floats (\<lambda>h. True) (sample_rctx Multiple_Status_Reporter (Multi_State [(0, Some ''OK'')] ''OK'') :: unit rctx) = (Raise e, x')"
  using multiple_status_reporter_fails [of "sample_rctx Multiple_Status_Reporter (Multi_State [(0, Some ''OK'')] ''OK'') :: unit rctx"
      "[(0, Some ''OK'')]" "''OK''" no_floats "\<lambda>h. True"] by (auto simp: sample_rctx_def)

fun acm_all :: "(key \<times> test_result) list \<Rightarrow> key \<Rightarrow> db \<Rightarrow> acm_state \<Rightarrow> acm_state outcome" where
  "acm_all [] s d st = Ok st"
| "acm_all ((k, r) # rs) s d st = bind_ok (acm_accumulate k r s d st) (acm_all rs s d)"

lemma acm_columns_add_status:
  "acm_columns_add k d i cs st = Ok st' \<Longrightarrow> ac_status st' = ac_status st \<and> ac_codes st' = ac_codes st \<and> ac_names st' = ac_names st"
proof (induction cs arbitrary: st)
  case (Cons c cs)
  obtain ci cn where c: "c = (ci, cn)" by (cases c)
  from Cons.prems c obtain v where "acm_columns_add k d i cs (case v of
        Some v \<Rightarrow> st\<lparr>ac_values := dset ci (dset i v (dget_def_val (ac_values st) ci [])) (ac_values st),
                     ac_nonempty := dset ci True (ac_nonempty st)\<rparr>
      | None \<Rightarrow> st\<lparr>ac_values := dset ci (dset i [] (dget_def_val (ac_values st) ci [])) (ac_values st)\<rparr>) = Ok st'"
    by (auto simp: outcome_simps Let_def)
  from Cons.IH [OF this] show ?case by (cases v) auto
qed simp

lemma acm_all_status:
  "acm_all rs s d st = Ok st' \<Longrightarrow>
   \<exists>ss. list_all2 (\<lambda>kr v. result_get_str (fst kr) ''status'' None d = Ok v) rs ss
     \<and> ac_status st' = fold (\<lambda>v old. add_status old v) ss (ac_status st) \<and> length (ac_codes st') = length (ac_codes st) + length rs"
proof (induction rs arbitrary: st)
  case (Cons kr rs)
  obtain k r where kr: "kr = (k, r)" by (cases kr)
  obtain st1 where st1: "acm_accumulate k r s d st = Ok st1" "acm_all rs s d st1 = Ok st'"
    using Cons.prems kr by (auto simp: outcome_simps)
  then obtain v where v: "result_get_str k ''status'' None d = Ok v"
    "ac_status st1 = add_status (ac_status st) v" "length (ac_codes st1) = Suc (length (ac_codes st))"
    by (auto simp: acm_accumulate_def outcome_simps dest!: acm_columns_add_status)
  obtain ss where ss: "list_all2 (\<lambda>kr v. result_get_str (fst kr) ''status'' None d = Ok v) rs ss"
    "ac_status st' = fold (\<lambda>v old. add_status old v) ss (ac_status st1)"
    "length (ac_codes st') = length (ac_codes st1) + length rs"
    using Cons.IH [OF st1(2)] by blast
  show ?case using v ss kr by (intro exI [of _ "v # ss"]) simp
qed auto

text \<open>
  (acm_reporter_status): an ACM reporter goes on after a test that failed only if the parameter
  \<open>run_all\<close> is set; its status is the verdict of the tests it has seen.
\<close>

theorem acm_reporter_status:
  assumes "acm_all rs s d new_acm_state = Ok st"
  shows "\<exists>ss. list_all2 (\<lambda>kr v. result_get_str (fst kr) ''status'' None d = Ok v) rs ss
    \<and> ac_status st = verdict ss \<and> length (ac_codes st) = length rs
    \<and> reporter_status \<lparr>re_class = ACM_Reporter, re_params = ps, re_state = Acm_State st\<rparr>
      = (if list_all (\<lambda>v. v = Some ''OK'') ss then Ok True else param_true ps ''run_all'')"
proof -
  obtain ss where ss: "list_all2 (\<lambda>kr v. result_get_str (fst kr) ''status'' None d = Ok v) rs ss"
    "ac_status st = verdict ss" "length (ac_codes st) = length rs"
    using acm_all_status [OF assms] by (auto simp: new_acm_state_def fold_add_status)
  have "verdict ss = ''OK'' \<longleftrightarrow> list_all (\<lambda>s. s = Some ''OK'') ss" by (rule verdict_OK)
  with ss show ?thesis by (auto simp: reporter_status_def)
qed

theorem acm_reporter_status_witness:
  "\<exists>st. acm_all [(4, the (dget (test_results sample_db) 4))] 20 sample_db new_acm_state = Ok st \<and> ac_status st = ''ANS''
    \<and> reporter_status (\<lparr>re_class = ACM_Reporter, re_params = [(''run_all'', Some (PBool True))], re_state = Acm_State st\<rparr> :: unit reporter)
      = Ok True"
proof -
  have "is_ok (acm_all [(4, the (dget (test_results sample_db) 4))] 20 sample_db new_acm_state)" by code_simp
  then obtain st where st: "acm_all [(4, the (dget (test_results sample_db) 4))] 20 sample_db new_acm_state = Ok st"
    by (auto simp: is_ok_iff)
  have "result_get_str 4 ''status'' None sample_db = Ok (Some ''ANS'')" by code_simp
  with acm_reporter_status [OF st, of "[(''run_all'', Some (PBool True))]"] st show ?thesis
    by (auto simp: list_all2_Cons1 verdict_def param_true_def)
qed

end
