(* ===== verification/Check_Dispatchers.thy ===== *)
theory Check_Dispatchers
  imports Check_Reporters
begin

section \<open>satori.core.checking: the state of the checking master, and the dispatchers\<close>

text \<open>
  The \<open>CheckingMaster\<close> keeps the queue of test results to be judged and, for every running
  suite result, a dispatcher, which schedules the tests of the suite and folds their results.
  \<^item> \<open>cm\<close>: the attributes of the master, with its database. The type of the aggregators of
    rankings is \<open>'a\<close>. A set or dict of Django objects is a dict from keys to the copies put in;
    its list order stands for the iteration order.
  \<^item> \<open>disp\<close>: a dispatcher with the suite result object it was started with, its reporter and
    the tests still to be checked (a deque for the serial one, a set of ids for the parallel
    one). Its methods change the dispatcher and, by calling back, the master.
  \<^item> callbacks: \<open>schedule_test_result\<close>, \<open>finished_suite\<close>, \<open>stop_suite\<close>.
\<close>

datatype disp_class = Serial_Dispatcher | Parallel_Dispatcher

record 'f disp =
  di_class :: disp_class
  di_key :: key
  di_inst :: suite_result
  di_rep :: "'f reporter"
  di_to_check :: "key list"

type_synonym 'v objs = "(key, 'v) dict"

record ('f, 'a) cm =
  m_db :: db
  temporary_submit_queue :: "(key \<times> temporary_submit) list"
  test_result_queue :: "(key \<times> test_result) list"
  test_result_set :: "key list"
  test_result_judged_set :: "key list"
  test_suite_result_map :: "(key, 'f disp) dict"
  scheduled_test_results_map :: "(key, key list) dict"
  ranking_map :: "(key, string \<times> ranking \<times> 'a) dict"
  scheduled_test_suite_results_map :: "(key, ranking objs) dict"
  test_results_to_rejudge :: "test_result objs"
  suite_checked_test_results :: "(key, test_result objs) dict"
  suites_to_start :: "suite_result objs"
  suites_to_rejudge :: "suite_result objs"
  ranking_changed_contestants :: "ranking objs"
  ranking_created_submits :: "(key, ranking \<times> key list) dict"
  ranking_checked_suites :: "(key, ranking \<times> suite_result objs) dict"
  rankings_to_rejudge :: "ranking objs"
  rankings_to_stop :: "key list"
  suite_cache :: "(key \<times> key, key \<times> suite_result) dict"
  m_serial :: int
  m_sent :: "(string \<times> int option \<times> int) list"

definition new_cm :: "db \<Rightarrow> ('f, 'a) cm" where
  "new_cm d = \<lparr>m_db = d, temporary_submit_queue = [], test_result_queue = [], test_result_set = [],
     test_result_judged_set = [], test_suite_result_map = [], scheduled_test_results_map = [],
     ranking_map = [], scheduled_test_suite_results_map = [], test_results_to_rejudge = [],
     suite_checked_test_results = [], suites_to_start = [], suites_to_rejudge = [],
     ranking_changed_contestants = [], ranking_created_submits = [], ranking_checked_suites = [],
     rankings_to_rejudge = [], rankings_to_stop = [], suite_cache = [], m_serial = 1, m_sent = []\<rparr>"

text \<open>Adding an object to a set: an equal object already in it stays.\<close>

definition obj_add :: "key \<Rightarrow> 'v \<Rightarrow> 'v objs \<Rightarrow> 'v objs" where
  "obj_add k v s = (if k \<in> set (dkeys s) then s else s @ [(k, v)])"

text \<open>\<open>d.setdefault(k, set()).add(x)\<close> for plain keys, for keyed objects, and under a ranking.\<close>

definition add_under :: "key \<Rightarrow> key \<Rightarrow> (key, key list) dict \<Rightarrow> (key, key list) dict" where
  "add_under k x d = dset k (sadd x (dget_def_val d k [])) d"

definition obj_add_under :: "key \<Rightarrow> key \<Rightarrow> 'v \<Rightarrow> (key, 'v objs) dict \<Rightarrow> (key, 'v objs) dict" where
  "obj_add_under k x v d = dset k (obj_add x v (dget_def_val d k [])) d"

definition ranking_add :: "key \<Rightarrow> ranking \<Rightarrow> ('s \<Rightarrow> 's) \<Rightarrow> 's \<Rightarrow> (key, ranking \<times> 's) dict \<Rightarrow> (key, ranking \<times> 's) dict" where
  "ranking_add k rk f none d =
     (case dget d k of
        None \<Rightarrow> dset k (rk, f none) d
      | Some (rk0, s) \<Rightarrow> dset k (rk0, f s) d)"

subsection \<open>Callbacks of the master\<close>

definition schedule_test_result :: "key option \<Rightarrow> key \<Rightarrow> key \<Rightarrow> ('f, 'a) cm \<Rightarrow> ('f, 'a) cm" where
  "schedule_test_result tsr submit test m =
     (case get_or_create_test_result submit test (m_db m) of
        ((k, r), d) \<Rightarrow>
          (let m1 = m\<lparr>m_db := d\<rparr>;
               m2 = (if k \<in> set (test_result_set m1) \<or> k \<in> set (test_result_judged_set m1) then m1
                     else if tr_pending r
                     then m1\<lparr>test_result_queue := test_result_queue m1 @ [(k, r)],
                             test_result_set := sadd k (test_result_set m1)\<rparr>
                     else (case tsr of
                             None \<Rightarrow> m1
                           | Some s \<Rightarrow> m1\<lparr>suite_checked_test_results :=
                               obj_add_under s k r (suite_checked_test_results m1)\<rparr>)) in
           case tsr of
             None \<Rightarrow> m2
           | Some s \<Rightarrow> m2\<lparr>scheduled_test_results_map := add_under k s (scheduled_test_results_map m2)\<rparr>))"

definition stop_suite :: "key \<Rightarrow> ('f, 'a) cm \<Rightarrow> ('f, 'a) cm" where
  "stop_suite k m =
     (if k \<notin> set (dkeys (test_suite_result_map m)) then m
      else m\<lparr>scheduled_test_results_map :=
               filter (\<lambda>(t, s). s \<noteq> []) (map (\<lambda>(t, s). (t, sdel k s)) (scheduled_test_results_map m)),
             test_suite_result_map := ddel k (test_suite_result_map m)\<rparr>)"

definition finished_suite :: "key \<Rightarrow> ('f, 'a) cm \<Rightarrow> unit outcome \<times> ('f, 'a) cm" where
  "finished_suite k m =
     (case row (suite_results (m_db m)) k of
        Raise e \<Rightarrow> (Raise e, m)
      | Ok r \<Rightarrow>
          (case save_suite_result k (r\<lparr>sr_pending := False\<rparr>) (m_db m) of
             (Raise e, d) \<Rightarrow> (Raise e, m\<lparr>m_db := d\<rparr>)
           | (Ok _, d) \<Rightarrow>
               (let m1 = m\<lparr>m_db := d\<rparr>;
                    m2 = m1\<lparr>ranking_checked_suites :=
                      fold (\<lambda>(rk, ri). ranking_add rk ri (obj_add k (r\<lparr>sr_pending := False\<rparr>)) [])
                        (dget_def_val (scheduled_test_suite_results_map m1) k []) (ranking_checked_suites m1)\<rparr> in
                (Ok (), stop_suite k m2))))"

subsection \<open>DispatcherBase\<close>

text \<open>
  The registry of accumulators is empty, so a suite that names one cannot be started.
\<close>

definition dispatchers :: "string \<Rightarrow> disp_class outcome" where
  "dispatchers n =
     (if n = ''SerialDispatcher'' then Ok Serial_Dispatcher
      else if n = ''ParallelDispatcher'' then Ok Parallel_Dispatcher
      else Raise KeyError)"

definition dispatcher_new :: "disp_class \<Rightarrow> key \<Rightarrow> suite_result \<Rightarrow> db \<Rightarrow> 'f disp outcome" where
  "dispatcher_new c k r d =
     bind_ok (row (suites d) (sr_suite r)) (\<lambda>s.
     if su_accumulators s \<noteq> [] then Raise KeyError
     else bind_ok (reporter_new r d) (\<lambda>rep.
     Ok \<lparr>di_class = c, di_key = k, di_inst = r, di_rep = rep, di_to_check = []\<rparr>))"

type_synonym ('f, 'a) dstate = "'f disp \<times> ('f, 'a) cm"

text \<open>Running a method of the reporter, which shares the suite result object.\<close>

definition with_reporter :: "('f rctx \<Rightarrow> unit outcome \<times> 'f rctx) \<Rightarrow> ('f, 'a) dstate \<Rightarrow> unit outcome \<times> ('f, 'a) dstate" where
  "with_reporter f s =
     (let (di, m) = s in
      case f \<lparr>x_rep = di_rep di, x_key = di_key di, x_inst = di_inst di, x_db = m_db m\<rparr> of
        (r, x) \<Rightarrow> (r, di\<lparr>di_rep := x_rep x, di_inst := x_inst x\<rparr>, m\<lparr>m_db := x_db x\<rparr>))"

definition base_init :: "('f, 'a) dstate \<Rightarrow> unit outcome \<times> ('f, 'a) dstate" where
  "base_init = with_reporter reporter_init"

definition accumulate :: "'f floats \<Rightarrow> key \<Rightarrow> test_result \<Rightarrow> ('f, 'a) dstate \<Rightarrow> unit outcome \<times> ('f, 'a) dstate" where
  "accumulate F k r = with_reporter (reporter_accumulate F k r)"

definition status :: "('f, 'a) dstate \<Rightarrow> bool outcome" where
  "status s = reporter_status (di_rep (fst s))"

definition finish :: "'f floats \<Rightarrow> (string \<Rightarrow> bool) \<Rightarrow> ('f, 'a) dstate \<Rightarrow> unit outcome \<times> ('f, 'a) dstate" where
  "finish F be s =
     (case with_reporter (reporter_deinit F be) s of
        (Raise e, s1) \<Rightarrow> (Raise e, s1)
      | (Ok _, (di, m)) \<Rightarrow> (case finished_suite (di_key di) m of (r, m1) \<Rightarrow> (r, di, m1)))"

definition suite_tests :: "('f, 'a) dstate \<Rightarrow> key list outcome" where
  "suite_tests s = map_ok (\<lambda>su. map fst (su_tests su)) (row (suites (m_db (snd s))) (sr_suite (di_inst (fst s))))"

definition set_to_check :: "key list \<Rightarrow> ('f, 'a) dstate \<Rightarrow> ('f, 'a) dstate" where
  "set_to_check ts s = ((fst s)\<lparr>di_to_check := ts\<rparr>, snd s)"

subsection \<open>SerialDispatcher\<close>

definition send_test :: "'f floats \<Rightarrow> (string \<Rightarrow> bool) \<Rightarrow> ('f, 'a) dstate \<Rightarrow> unit outcome \<times> ('f, 'a) dstate" where
  "send_test F be s =
     (case di_to_check (fst s) of
        t # _ \<Rightarrow>
          (if sr_submit (di_inst (fst s)) \<in> set (dkeys (submits (m_db (snd s))))
           then (Ok (), fst s, schedule_test_result (Some (di_key (fst s))) (sr_submit (di_inst (fst s))) t (snd s))
           else (Raise DoesNotExist, s))
      | [] \<Rightarrow> finish F be s)"

definition serial_init :: "'f floats \<Rightarrow> (string \<Rightarrow> bool) \<Rightarrow> ('f, 'a) dstate \<Rightarrow> unit outcome \<times> ('f, 'a) dstate" where
  "serial_init F be s =
     (case base_init s of
        (Raise e, s1) \<Rightarrow> (Raise e, s1)
      | (Ok _, s1) \<Rightarrow>
          (case suite_tests s1 of
             Raise e \<Rightarrow> (Raise e, s1)
           | Ok ts \<Rightarrow> send_test F be (set_to_check (di_to_check (fst s1) @ ts) s1)))"

fun serial_checked :: "'f floats \<Rightarrow> (string \<Rightarrow> bool) \<Rightarrow> (key \<times> test_result) list \<Rightarrow> ('f, 'a) dstate
    \<Rightarrow> unit outcome \<times> ('f, 'a) dstate" where
  "serial_checked F be [] s = send_test F be s"
| "serial_checked F be ((k, r) # rs) s =
     (case di_to_check (fst s) of
        [] \<Rightarrow> (Raise IndexError, s)
      | t # ts \<Rightarrow>
          if tr_test r \<noteq> t then (Raise AssertionError, s)
          else (case accumulate F k r (set_to_check ts s) of
                  (Raise e, s1) \<Rightarrow> (Raise e, s1)
                | (Ok _, s1) \<Rightarrow>
                    (case status s1 of
                       Raise e \<Rightarrow> (Raise e, s1)
                     | Ok b \<Rightarrow> if \<not> b then finish F be s1 else serial_checked F be rs s1)))"

subsection \<open>ParallelDispatcher\<close>

fun parallel_send :: "key list \<Rightarrow> ('f, 'a) dstate \<Rightarrow> unit outcome \<times> ('f, 'a) dstate" where
  "parallel_send [] s = (Ok (), s)"
| "parallel_send (t # ts) s =
     (let s1 = set_to_check (sadd t (di_to_check (fst s))) s in
      parallel_send ts (fst s1, schedule_test_result (Some (di_key (fst s1))) (sr_submit (di_inst (fst s1))) t (snd s1)))"

definition parallel_init :: "'f floats \<Rightarrow> (string \<Rightarrow> bool) \<Rightarrow> ('f, 'a) dstate \<Rightarrow> unit outcome \<times> ('f, 'a) dstate" where
  "parallel_init F be s =
     (case base_init s of
        (Raise e, s1) \<Rightarrow> (Raise e, s1)
      | (Ok _, s1) \<Rightarrow>
          if sr_submit (di_inst (fst s1)) \<notin> set (dkeys (submits (m_db (snd s1)))) then (Raise DoesNotExist, s1)
          else case suite_tests s1 of
                 Raise e \<Rightarrow> (Raise e, s1)
               | Ok ts \<Rightarrow>
                   (case parallel_send ts s1 of
                      (Raise e, s2) \<Rightarrow> (Raise e, s2)
                    | (Ok _, s2) \<Rightarrow> if di_to_check (fst s2) = [] then finish F be s2 else (Ok (), s2)))"

fun parallel_results :: "'f floats \<Rightarrow> (string \<Rightarrow> bool) \<Rightarrow> (key \<times> test_result) list \<Rightarrow> ('f, 'a) dstate
    \<Rightarrow> unit outcome \<times> ('f, 'a) dstate" where
  "parallel_results F be [] s = (Ok (), s)"
| "parallel_results F be ((k, r) # rs) s =
     (if tr_test r \<notin> set (di_to_check (fst s)) then (Raise AssertionError, s)
      else case accumulate F k r (set_to_check (sdel (tr_test r) (di_to_check (fst s))) s) of
             (Raise e, s1) \<Rightarrow> (Raise e, s1)
           | (Ok _, s1) \<Rightarrow>
               (case status s1 of
                  Raise e \<Rightarrow> (Raise e, s1)
                | Ok b \<Rightarrow>
                    (case (if \<not> b then finish F be s1 else (Ok (), s1)) of
                       (Raise e, s2) \<Rightarrow> (Raise e, s2)
                     | (Ok _, s2) \<Rightarrow> parallel_results F be rs s2)))"

definition parallel_checked :: "'f floats \<Rightarrow> (string \<Rightarrow> bool) \<Rightarrow> (key \<times> test_result) list \<Rightarrow> ('f, 'a) dstate
    \<Rightarrow> unit outcome \<times> ('f, 'a) dstate" where
  "parallel_checked F be rs s =
     (case parallel_results F be rs s of
        (Raise e, s1) \<Rightarrow> (Raise e, s1)
      | (Ok _, s1) \<Rightarrow> if di_to_check (fst s1) = [] then finish F be s1 else (Ok (), s1))"

text \<open>The dynamic dispatch of the two methods the master calls.\<close>

definition dispatcher_init :: "'f floats \<Rightarrow> (string \<Rightarrow> bool) \<Rightarrow> ('f, 'a) dstate \<Rightarrow> unit outcome \<times> ('f, 'a) dstate" where
  "dispatcher_init F be s =
     (case di_class (fst s) of Serial_Dispatcher \<Rightarrow> serial_init F be s | Parallel_Dispatcher \<Rightarrow> parallel_init F be s)"

definition dispatcher_checked :: "'f floats \<Rightarrow> (string \<Rightarrow> bool) \<Rightarrow> (key \<times> test_result) list \<Rightarrow> ('f, 'a) dstate
    \<Rightarrow> unit outcome \<times> ('f, 'a) dstate" where
  "dispatcher_checked F be rs s =
     (case di_class (fst s) of
        Serial_Dispatcher \<Rightarrow> serial_checked F be rs s
      | Parallel_Dispatcher \<Rightarrow> parallel_checked F be rs s)"

end
