(* ===== verification/Check_Master.thy ===== *)
theory Check_Master
  imports Check_Dispatchers
begin

section \<open>satori.core.checking: the checking master\<close>

text \<open>
  The rest of \<open>CheckingMaster\<close>: suite results and rankings are started, called and stopped, events
  only record what is to be done, and \<open>do_work\<close> does it.
  \<^item> an aggregator is an object of one of the classes of \<open>aggregators.py\<close>; the master is
    parametric in them: \<open>agg\<close> gives, for a class name, its constructor and its methods. A
    method changes the aggregator and the database and ends with requests to
    \<open>schedule_test_suite_result\<close>, in the order it makes them.
  \<^item> a call runs in a transaction: when it raises, the database is what it was before the call.
  \<^item> \<open>do_work\<close> is a partial function: \<open>work_item n\<close> is one round of the n-th \<open>while\<close> loop.
\<close>

datatype agg_call =
    Agg_Init
  | Agg_Changed_Contestants
  | Agg_Created_Submits "key list"
  | Agg_Checked "(key \<times> suite_result) list"

record 'a agg_class =
  ag_new :: "key \<Rightarrow> ranking \<Rightarrow> 'a"
  ag_call :: "agg_call \<Rightarrow> 'a \<Rightarrow> db \<Rightarrow> unit outcome \<times> 'a \<times> db \<times> (key \<times> key option) list"

type_synonym 'a registry = "string \<Rightarrow> 'a agg_class option"

definition contest_of_submit :: "db \<Rightarrow> key \<Rightarrow> key option" where
  "contest_of_submit d s =
     (case dget (submits d) s of
        None \<Rightarrow> None | Some sub \<Rightarrow> map_option pm_contest (dget (problems d) (sb_problem sub)))"

definition open_submit :: "db \<Rightarrow> key \<Rightarrow> bool" where
  "open_submit d s = (case contest_of_submit d s of None \<Rightarrow> False | Some c \<Rightarrow> dget (contests d) c = Some False)"

definition rankings_of :: "key \<Rightarrow> db \<Rightarrow> ranking objs" where
  "rankings_of c d = filter (\<lambda>(k, r). rk_contest r = c) (rankings d)"

definition obj_union :: "'v objs \<Rightarrow> 'v objs \<Rightarrow> 'v objs" where
  "obj_union s xs = fold (\<lambda>(k, v). obj_add k v) xs s"

subsection \<open>Suite results\<close>

text \<open>
  \<open>call_test_suite_result\<close>: the method runs on the dispatcher in the map, and what it leaves
  stays there unless the suite was stopped meanwhile. \<open>finished_test_suite_result\<close> in the
  handler is outside the inner \<open>try\<close>.
\<close>

definition call_suite :: "(('f, 'a) dstate \<Rightarrow> unit outcome \<times> ('f, 'a) dstate) \<Rightarrow> key \<Rightarrow> ('f, 'a) cm
    \<Rightarrow> unit outcome \<times> ('f, 'a) cm" where
  "call_suite f k m =
     (case dget (test_suite_result_map m) k of
        None \<Rightarrow> (Ok (), m)
      | Some di \<Rightarrow>
          (case f (di, m) of
             (r, di1, m1) \<Rightarrow>
               (let m2 = (if k \<in> set (dkeys (test_suite_result_map m1))
                          then m1\<lparr>test_suite_result_map := dset k di1 (test_suite_result_map m1)\<rparr> else m1) in
                case r of
                  Ok _ \<Rightarrow> (Ok (), m2)
                | Raise e \<Rightarrow>
                    (case finished_suite k (m2\<lparr>m_db := m_db m\<rparr>) of
                       (Raise e2, m3) \<Rightarrow> (Raise e2, m3)
                     | (Ok _, m3) \<Rightarrow>
                         (case save_suite_result k ((di_inst di1)\<lparr>sr_status := ''INT'', sr_report := ''Internal error''\<rparr>) (m_db m3) of
                            (Ok _, d) \<Rightarrow> (Ok (), m3\<lparr>m_db := d\<rparr>)
                          | (Raise _, _) \<Rightarrow> (Ok (), m3\<lparr>m_db := m_db m\<rparr>))))))"

definition start_suite :: "'f floats \<Rightarrow> (string \<Rightarrow> bool) \<Rightarrow> key \<Rightarrow> suite_result \<Rightarrow> ('f, 'a) cm
    \<Rightarrow> unit outcome \<times> ('f, 'a) cm" where
  "start_suite F be k r m =
     (if k \<in> set (dkeys (test_suite_result_map m)) then (Ok (), m)
      else case bind_ok (row (suites (m_db m)) (sr_suite r)) (\<lambda>s.
             bind_ok (dispatchers (su_dispatcher s)) (\<lambda>c. dispatcher_new c k r (m_db m))) of
             Raise e \<Rightarrow> (Raise e, m)
           | Ok di \<Rightarrow> call_suite (dispatcher_init F be) k
               (m\<lparr>test_suite_result_map := dset k di (test_suite_result_map m)\<rparr>))"

subsection \<open>Rankings\<close>

definition schedule_suite_result :: "(key \<times> ranking) option \<Rightarrow> key \<Rightarrow> key option \<Rightarrow> ('f, 'a) cm
    \<Rightarrow> unit outcome \<times> ('f, 'a) cm" where
  "schedule_suite_result rank submit test_suite m =
     (case test_suite of
        None \<Rightarrow> (Raise (AttributeError ''id''), m)
      | Some ts \<Rightarrow>
          (let ((k, r), m1) = (case dget (suite_cache m) (ts, submit) of
                 Some kr \<Rightarrow> (kr, m)
               | None \<Rightarrow> (case get_or_create_suite_result submit ts (m_db m) of (kr, d) \<Rightarrow> (kr, m\<lparr>m_db := d\<rparr>)));
               m2 = (if k \<in> set (dkeys (test_suite_result_map m1)) then m1
                     else if sr_pending r then m1\<lparr>suites_to_start := obj_add k r (suites_to_start m1)\<rparr>
                     else (case rank of
                             None \<Rightarrow> m1
                           | Some (rk, ri) \<Rightarrow> m1\<lparr>ranking_checked_suites :=
                               ranking_add rk ri (obj_add k r) [] (ranking_checked_suites m1)\<rparr>)) in
           (Ok (), case rank of
             None \<Rightarrow> m2
           | Some (rk, ri) \<Rightarrow> m2\<lparr>scheduled_test_suite_results_map :=
               obj_add_under k rk ri (scheduled_test_suite_results_map m2)\<rparr>)))"

fun schedule_requests :: "(key \<times> ranking) option \<Rightarrow> (key \<times> key option) list \<Rightarrow> ('f, 'a) cm
    \<Rightarrow> unit outcome \<times> ('f, 'a) cm" where
  "schedule_requests rank [] m = (Ok (), m)"
| "schedule_requests rank ((submit, ts) # qs) m =
     (case schedule_suite_result rank submit ts m of
        (Raise e, m1) \<Rightarrow> (Raise e, m1)
      | (Ok _, m1) \<Rightarrow> schedule_requests rank qs m1)"

text \<open>
  \<open>stop_ranking\<close> looks for the ranking in the values of \<open>scheduled_test_results_map\<close>, which are
  sets of suite results; a ranking is equal to none of them, so only empty sets go.
\<close>

definition stop_ranking :: "key \<Rightarrow> ('f, 'a) cm \<Rightarrow> ('f, 'a) cm" where
  "stop_ranking k m =
     (if k \<notin> set (dkeys (ranking_map m)) then m
      else m\<lparr>scheduled_test_results_map := filter (\<lambda>(t, s). s \<noteq> []) (scheduled_test_results_map m),
             ranking_map := ddel k (ranking_map m)\<rparr>)"

definition delete_entries :: "key \<Rightarrow> db \<Rightarrow> db" where
  "delete_entries k d = d\<lparr>entries := filter (\<lambda>(i, e). en_ranking e \<noteq> k) (entries d)\<rparr>"

definition call_ranking :: "'a registry \<Rightarrow> agg_call \<Rightarrow> key \<Rightarrow> ('f, 'a) cm \<Rightarrow> ('f, 'a) cm" where
  "call_ranking A call k m =
     (case dget (ranking_map m) k of
        None \<Rightarrow> m
      | Some (cls, ri, a) \<Rightarrow>
          (case A cls of
             None \<Rightarrow> m
           | Some C \<Rightarrow>
               (case ag_call C call a (m_db m) of
                  (r, a1, d1, reqs) \<Rightarrow>
                    (case schedule_requests (Some (k, ri)) reqs
                        (m\<lparr>m_db := d1, ranking_map := dset k (cls, ri, a1) (ranking_map m)\<rparr>) of
                       (r2, m1) \<Rightarrow>
                         (if is_ok r \<and> is_ok r2 then m1
                          else let m2 = stop_ranking k (m1\<lparr>m_db := m_db m\<rparr>) in
                               case save_ranking k (ri\<lparr>rk_header := ''Internal error'', rk_footer := []\<rparr>) (m_db m2) of
                                 (Ok _, d) \<Rightarrow> m2\<lparr>m_db := delete_entries k d\<rparr>
                               | (Raise _, _) \<Rightarrow> m2)))))"

definition cached_suites :: "key \<Rightarrow> db \<Rightarrow> (key \<times> key, key \<times> suite_result) dict" where
  "cached_suites c d = fold (\<lambda>(k, r). dset (sr_suite r, sr_submit r) (k, r))
     (filter (\<lambda>(k, r). contest_of_submit d (sr_submit r) = Some c) (suite_results d)) []"

definition start_ranking :: "'a registry \<Rightarrow> key \<Rightarrow> ranking \<Rightarrow> ('f, 'a) cm \<Rightarrow> unit outcome \<times> ('f, 'a) cm" where
  "start_ranking A k ri m =
     (if k \<in> set (dkeys (ranking_map m)) then (Ok (), m)
      else case A (rk_aggregator ri) of
             None \<Rightarrow> (Raise KeyError, m)
           | Some C \<Rightarrow>
               (let m1 = m\<lparr>ranking_map := dset k (rk_aggregator ri, ri, ag_new C k ri) (ranking_map m)\<rparr>;
                    m2 = call_ranking A Agg_Init k m1;
                    m3 = call_ranking A Agg_Changed_Contestants k m2;
                    m4 = m3\<lparr>suite_cache := dmerge (suite_cache m3) (cached_suites (rk_contest ri) (m_db m3))\<rparr>;
                    m5 = call_ranking A (Agg_Created_Submits
                           (keys_where (\<lambda>sub. map_option pm_contest (dget (problems (m_db m4)) (sb_problem sub)) = Some (rk_contest ri))
                             (submits (m_db m4)))) k m4 in
                (Ok (), m5\<lparr>suite_cache := []\<rparr>)))"

subsection \<open>Rejudging\<close>

text \<open>The object that is put into the queue: pending again and without a tester.\<close>

definition rejudge_save :: "key \<Rightarrow> test_result \<Rightarrow> ('f, 'a) cm \<Rightarrow> unit outcome \<times> ('f, 'a) cm" where
  "rejudge_save k r m =
     (case save_test_result k r (m_db m) of
        (Raise e, d) \<Rightarrow> (Raise e, m\<lparr>m_db := d\<rparr>)
      | (Ok _, d) \<Rightarrow> (Ok (), m\<lparr>m_db := result_clear_oa k d\<rparr>))"

definition requeue :: "key \<Rightarrow> test_result \<Rightarrow> ('f, 'a) cm \<Rightarrow> ('f, 'a) cm" where
  "requeue k r m = m\<lparr>test_result_queue := test_result_queue m @ [(k, r)], test_result_set := sadd k (test_result_set m)\<rparr>"

definition do_rejudge_test_result :: "key \<Rightarrow> test_result \<Rightarrow> ('f, 'a) cm \<Rightarrow> unit outcome \<times> ('f, 'a) cm" where
  "do_rejudge_test_result k r m =
     (let r1 = r\<lparr>tr_pending := True, tr_tester := None\<rparr> in
      if k \<in> set (test_result_set m) then (Ok (), m)
      else if k \<in> set (test_result_judged_set m)
      then (case rejudge_save k r1 m of
              (Raise e, m1) \<Rightarrow> (Raise e, m1)
            | (Ok _, m1) \<Rightarrow> (Ok (), requeue k r1 (m1\<lparr>test_result_judged_set := sdel k (test_result_judged_set m1)\<rparr>)))
      else (case rejudge_save k r1 m of
              (Raise e, m1) \<Rightarrow> (Raise e, m1)
            | (Ok _, m1) \<Rightarrow>
                (let m2 = requeue k r1 m1;
                     waiting = map (\<lambda>s. (s, di_inst (the (dget (test_suite_result_map m2) s))))
                       (filter (\<lambda>s. s \<in> set (dkeys (test_suite_result_map m2)))
                         (dget_def_val (scheduled_test_results_map m2) k []));
                     others = filter (\<lambda>(s, x). s \<notin> set (dkeys (test_suite_result_map m2)))
                       (filter (\<lambda>(s, x). sr_submit x = tr_submit r1 \<and>
                          (case dget (suites (m_db m2)) (sr_suite x) of None \<Rightarrow> False
                           | Some su \<Rightarrow> tr_test r1 \<in> fst ` set (su_tests su))) (suite_results (m_db m2))) in
                 (Ok (), m2\<lparr>suites_to_rejudge := obj_union (obj_union (suites_to_rejudge m2) waiting) others\<rparr>))))"

definition do_rejudge_suite_result :: "'f floats \<Rightarrow> (string \<Rightarrow> bool) \<Rightarrow> key \<Rightarrow> suite_result \<Rightarrow> ('f, 'a) cm
    \<Rightarrow> unit outcome \<times> ('f, 'a) cm" where
  "do_rejudge_suite_result F be k r m =
     (if k \<in> set (dkeys (test_suite_result_map m))
      then (let m1 = stop_suite k m in start_suite F be k r (m1\<lparr>m_db := suite_clear_oa k (m_db m1)\<rparr>))
      else case row (suite_results (m_db m)) k of
             Raise e \<Rightarrow> (Raise e, m)
           | Ok r0 \<Rightarrow>
               (let m1 = m\<lparr>rankings_to_rejudge := obj_union (rankings_to_rejudge m)
                      (dget_def_val (scheduled_test_suite_results_map m) k [])\<rparr>;
                    r1 = r0\<lparr>sr_pending := True\<rparr> in
                case save_suite_result k r1 (m_db m1) of
                  (Raise e, d) \<Rightarrow> (Raise e, m1\<lparr>m_db := d\<rparr>)
                | (Ok _, d) \<Rightarrow> start_suite F be k r1 (m1\<lparr>m_db := suite_clear_oa k d\<rparr>)))"

definition do_rejudge_ranking :: "'a registry \<Rightarrow> key \<Rightarrow> ranking \<Rightarrow> ('f, 'a) cm \<Rightarrow> unit outcome \<times> ('f, 'a) cm" where
  "do_rejudge_ranking A k ri m =
     (if k \<in> set (dkeys (ranking_map m)) then start_ranking A k ri (stop_ranking k m)
      else start_ranking A k ri m)"

definition do_stop_ranking :: "key \<Rightarrow> ('f, 'a) cm \<Rightarrow> ('f, 'a) cm" where
  "do_stop_ranking k m = (if k \<in> set (dkeys (ranking_map m)) then stop_ranking k m else m)"

subsection \<open>do_work\<close>

definition work_item :: "'f floats \<Rightarrow> (string \<Rightarrow> bool) \<Rightarrow> 'a registry \<Rightarrow> nat \<Rightarrow> ('f, 'a) cm
    \<Rightarrow> (unit outcome \<times> ('f, 'a) cm) option" where
  "work_item F be A n m =
     (if n = 0 then (case rankings_to_stop m of [] \<Rightarrow> None
        | k # ks \<Rightarrow> Some (Ok (), do_stop_ranking k (m\<lparr>rankings_to_stop := ks\<rparr>)))
      else if n = 1 then (case suites_to_start m of [] \<Rightarrow> None
        | (k, r) # xs \<Rightarrow> Some (start_suite F be k r (m\<lparr>suites_to_start := xs\<rparr>)))
      else if n = 2 then (case test_results_to_rejudge m of [] \<Rightarrow> None
        | (k, r) # xs \<Rightarrow> Some (do_rejudge_test_result k r (m\<lparr>test_results_to_rejudge := xs\<rparr>)))
      else if n = 3 then (case suites_to_rejudge m of [] \<Rightarrow> None
        | (k, r) # xs \<Rightarrow> Some (do_rejudge_suite_result F be k r (m\<lparr>suites_to_rejudge := xs\<rparr>)))
      else if n = 4 then (case rankings_to_rejudge m of [] \<Rightarrow> None
        | (k, r) # xs \<Rightarrow> Some (do_rejudge_ranking A k r (m\<lparr>rankings_to_rejudge := xs\<rparr>)))
      else if n = 5 then (case suite_checked_test_results m of [] \<Rightarrow> None
        | (k, rs) # xs \<Rightarrow> Some (call_suite (dispatcher_checked F be rs) k (m\<lparr>suite_checked_test_results := xs\<rparr>)))
      else if n = 6 then (case ranking_changed_contestants m of [] \<Rightarrow> None
        | (k, r) # xs \<Rightarrow> Some (Ok (), call_ranking A Agg_Changed_Contestants k (m\<lparr>ranking_changed_contestants := xs\<rparr>)))
      else if n = 7 then (case ranking_created_submits m of [] \<Rightarrow> None
        | (k, r, ss) # xs \<Rightarrow> Some (Ok (), call_ranking A (Agg_Created_Submits ss) k (m\<lparr>ranking_created_submits := xs\<rparr>)))
      else (case ranking_checked_suites m of [] \<Rightarrow> None
        | (k, r, rs) # xs \<Rightarrow> Some (Ok (), call_ranking A (Agg_Checked rs) k (m\<lparr>ranking_checked_suites := xs\<rparr>))))"

partial_function (option) do_work :: "'f floats \<Rightarrow> (string \<Rightarrow> bool) \<Rightarrow> 'a registry \<Rightarrow> nat \<Rightarrow> bool \<Rightarrow> ('f, 'a) cm
    \<Rightarrow> (unit outcome \<times> ('f, 'a) cm) option" where
  "do_work F be A n flag m =
     (if 9 \<le> n then (if flag then do_work F be A 0 False m else Some (Ok (), m))
      else case work_item F be A n m of
             None \<Rightarrow> do_work F be A (Suc n) flag m
           | Some (r, m1) \<Rightarrow> (case r of Raise e \<Rightarrow> Some (Raise e, m1) | Ok u \<Rightarrow> do_work F be A n True m1))"

subsection \<open>Events\<close>

datatype check_event =
    Checked_Test_Result key
  | Rejudge_Test key
  | Rejudge_Test_Suite key
  | Rejudge_Submit_Test_Results key
  | Rejudge_Submit_Suite_Results key
  | Rejudge_Test_Result key
  | Rejudge_Suite_Result key
  | Rejudge_Ranking key
  | Stop_Ranking key
  | Default_Suite_Changed key
  | New_Submit key
  | New_Temporary_Submit key
  | Changed_Contestants key
  | Changed_Contest key
  | Dequeue string key

text \<open>The branch \<open>checking_test_result_dequeue\<close>: the answer that is sent, or the raise.\<close>

definition next_test_result :: "key \<Rightarrow> ('f, 'a) cm \<Rightarrow> int option outcome \<times> ('f, 'a) cm" where
  "next_test_result tester m =
     (case temporary_submit_queue m of
        (k, t) # q \<Rightarrow>
          (let m1 = m\<lparr>temporary_submit_queue := q\<rparr> in
           if tester \<notin> set (roles (m_db m1)) then (Raise DoesNotExist, m1)
           else (case update_row k (t\<lparr>tp_tester := Some tester\<rparr>) (temporary_submits (m_db m1)) of
                   (Raise e, tab) \<Rightarrow> (Raise e, m1)
                 | (Ok _, tab) \<Rightarrow> (Ok (Some (- int k)), m1\<lparr>m_db := (m_db m1)\<lparr>temporary_submits := tab\<rparr>\<rparr>)))
      | [] \<Rightarrow>
          (case test_result_queue m of
             (k, r) # q \<Rightarrow>
               (let m1 = m\<lparr>test_result_queue := q\<rparr> in
                if k \<notin> set (test_result_set m1) then (Raise KeyError, m1)
                else let m2 = m1\<lparr>test_result_set := sdel k (test_result_set m1),
                           test_result_judged_set := sadd k (test_result_judged_set m1)\<rparr> in
                     if tester \<notin> set (roles (m_db m2)) then (Raise DoesNotExist, m2)
                     else (case save_test_result k (r\<lparr>tr_tester := Some tester\<rparr>) (m_db m2) of
                             (Raise e, d) \<Rightarrow> (Raise e, m2\<lparr>m_db := d\<rparr>)
                           | (Ok _, d) \<Rightarrow> (Ok (Some (int k)), m2\<lparr>m_db := d\<rparr>)))
           | [] \<Rightarrow> (Ok None, m)))"

fun note_event :: "check_event \<Rightarrow> ('f, 'a) cm \<Rightarrow> unit outcome \<times> ('f, 'a) cm" where
  "note_event (Checked_Test_Result i) m =
     (case row (test_results (m_db m)) i of
        Raise e \<Rightarrow> (Raise e, m)
      | Ok r \<Rightarrow>
          (Ok (), if i \<in> set (test_result_judged_set m)
             then m\<lparr>test_result_judged_set := sdel i (test_result_judged_set m),
                    suite_checked_test_results := fold (\<lambda>s. obj_add_under s i r)
                      (dget_def_val (scheduled_test_results_map m) i []) (suite_checked_test_results m)\<rparr>
             else m))"
| "note_event (Rejudge_Test i) m =
     (case row (tests (m_db m)) i of
        Raise e \<Rightarrow> (Raise e, m)
      | Ok _ \<Rightarrow> (Ok (), m\<lparr>test_results_to_rejudge := obj_union (test_results_to_rejudge m)
          (filter (\<lambda>(k, r). tr_test r = i) (test_results (m_db m)))\<rparr>))"
| "note_event (Rejudge_Test_Suite i) m =
     (case row (suites (m_db m)) i of
        Raise e \<Rightarrow> (Raise e, m)
      | Ok _ \<Rightarrow> (Ok (), m\<lparr>suites_to_rejudge := obj_union (suites_to_rejudge m)
          (filter (\<lambda>(k, r). sr_suite r = i) (suite_results (m_db m)))\<rparr>))"
| "note_event (Rejudge_Submit_Test_Results i) m =
     (case row (submits (m_db m)) i of
        Raise e \<Rightarrow> (Raise e, m)
      | Ok _ \<Rightarrow> (Ok (), m\<lparr>test_results_to_rejudge := obj_union (test_results_to_rejudge m)
          (filter (\<lambda>(k, r). tr_submit r = i) (test_results (m_db m)))\<rparr>))"
| "note_event (Rejudge_Submit_Suite_Results i) m =
     (case row (submits (m_db m)) i of
        Raise e \<Rightarrow> (Raise e, m)
      | Ok _ \<Rightarrow> (Ok (), m\<lparr>suites_to_rejudge := obj_union (suites_to_rejudge m)
          (filter (\<lambda>(k, r). sr_submit r = i) (suite_results (m_db m)))\<rparr>))"
| "note_event (Rejudge_Test_Result i) m =
     (case row (test_results (m_db m)) i of
        Raise e \<Rightarrow> (Raise e, m)
      | Ok r \<Rightarrow> (Ok (), m\<lparr>test_results_to_rejudge := obj_add i r (test_results_to_rejudge m)\<rparr>))"
| "note_event (Rejudge_Suite_Result i) m =
     (case row (suite_results (m_db m)) i of
        Raise e \<Rightarrow> (Raise e, m)
      | Ok r \<Rightarrow> (Ok (), m\<lparr>suites_to_rejudge := obj_add i r (suites_to_rejudge m)\<rparr>))"
| "note_event (Rejudge_Ranking i) m =
     (case row (rankings (m_db m)) i of
        Raise e \<Rightarrow> (Raise e, m)
      | Ok r \<Rightarrow> (Ok (), m\<lparr>rankings_to_rejudge := obj_add i r (rankings_to_rejudge m)\<rparr>))"
| "note_event (Stop_Ranking i) m = (Ok (), m\<lparr>rankings_to_stop := sadd i (rankings_to_stop m)\<rparr>)"
| "note_event (Default_Suite_Changed i) m =
     (case row (problems (m_db m)) i of
        Raise e \<Rightarrow> (Raise e, m)
      | Ok p \<Rightarrow> schedule_requests None
          (map (\<lambda>s. (s, pm_default_suite p)) (keys_where (\<lambda>s. sb_problem s = i) (submits (m_db m)))) m)"
| "note_event (New_Submit i) m =
     (case row (submits (m_db m)) i of
        Raise e \<Rightarrow> (Raise e, m)
      | Ok s \<Rightarrow>
          (case row (problems (m_db m)) (sb_problem s) of
             Raise e \<Rightarrow> (Raise e, m)
           | Ok p \<Rightarrow>
               (case schedule_suite_result None i (pm_default_suite p) m of
                  (Raise e, m1) \<Rightarrow> (Raise e, m1)
                | (Ok _, m1) \<Rightarrow> (Ok (), m1\<lparr>ranking_created_submits :=
                    fold (\<lambda>(k, ri). ranking_add k ri (sadd i) []) (rankings_of (pm_contest p) (m_db m1))
                      (ranking_created_submits m1)\<rparr>))))"
| "note_event (New_Temporary_Submit i) m =
     (case row (temporary_submits (m_db m)) i of
        Raise e \<Rightarrow> (Raise e, m)
      | Ok t \<Rightarrow> (Ok (), m\<lparr>temporary_submit_queue := temporary_submit_queue m @ [(i, t)]\<rparr>))"
| "note_event (Changed_Contestants i) m =
     (case row (contests (m_db m)) i of
        Raise e \<Rightarrow> (Raise e, m)
      | Ok _ \<Rightarrow> (Ok (), m\<lparr>ranking_changed_contestants :=
          obj_union (ranking_changed_contestants m) (rankings_of i (m_db m))\<rparr>))"
| "note_event (Changed_Contest i) m =
     (case row (contests (m_db m)) i of
        Raise e \<Rightarrow> (Raise e, m)
      | Ok archived \<Rightarrow>
          (Ok (), if archived
             then m\<lparr>rankings_to_stop := fold sadd (map fst (rankings_of i (m_db m))) (rankings_to_stop m)\<rparr>
             else m\<lparr>rankings_to_rejudge := obj_union (rankings_to_rejudge m) (rankings_of i (m_db m))\<rparr>))"
| "note_event (Dequeue tag tester) m =
     (case next_test_result tester m of
        (Raise e, m1) \<Rightarrow> (Raise e, m1)
      | (Ok i, m1) \<Rightarrow> (Ok (), m1\<lparr>m_sent := m_sent m1 @ [(tag, i, m_serial m1)], m_serial := m_serial m1 + 1\<rparr>))"

definition handle_event :: "'f floats \<Rightarrow> (string \<Rightarrow> bool) \<Rightarrow> 'a registry \<Rightarrow> check_event \<Rightarrow> ('f, 'a) cm
    \<Rightarrow> (unit outcome \<times> ('f, 'a) cm) option" where
  "handle_event F be A ev m =
     (case note_event ev m of
        (Raise e, m1) \<Rightarrow> Some (Raise e, m1)
      | (Ok _, m1) \<Rightarrow> do_work F be A 0 False m1)"

subsection \<open>init\<close>

fun init_test_results :: "(key \<times> test_result) list \<Rightarrow> ('f, 'a) cm \<Rightarrow> unit outcome \<times> ('f, 'a) cm" where
  "init_test_results [] m = (Ok (), m)"
| "init_test_results ((k, r) # rs) m =
     (let r1 = r\<lparr>tr_tester := None\<rparr> in
      case (if tr_tester r \<noteq> None then save_test_result k r1 (m_db m) else (Ok (), m_db m)) of
        (Raise e, d) \<Rightarrow> (Raise e, m\<lparr>m_db := d\<rparr>)
      | (Ok _, d) \<Rightarrow> init_test_results rs (requeue k r1 (m\<lparr>m_db := d\<rparr>)))"

definition cm_init :: "'f floats \<Rightarrow> (string \<Rightarrow> bool) \<Rightarrow> 'a registry \<Rightarrow> db \<Rightarrow> (unit outcome \<times> ('f, 'a) cm) option" where
  "cm_init F be A d =
     (case init_test_results
         (filter (\<lambda>(k, r). tr_pending r \<and> open_submit d (tr_submit r)) (test_results d)) (new_cm d) of
        (Raise e, m1) \<Rightarrow> Some (Raise e, m1)
      | (Ok _, m1) \<Rightarrow>
          (case for_each (\<lambda>(k, r). start_suite F be k r)
              (filter (\<lambda>(k, r). sr_pending r \<and> open_submit (m_db m1) (sr_submit r)) (suite_results (m_db m1))) m1 of
             (Raise e, m2) \<Rightarrow> Some (Raise e, m2)
           | (Ok _, m2) \<Rightarrow>
               (case for_each (\<lambda>(k, ri). start_ranking A k ri)
                   (filter (\<lambda>(k, ri). dget (contests (m_db m2)) (rk_contest ri) = Some False) (rankings (m_db m2))) m2 of
                  (Raise e, m3) \<Rightarrow> Some (Raise e, m3)
                | (Ok _, m3) \<Rightarrow>
                    do_work F be A 0 False (m3\<lparr>temporary_submit_queue := temporary_submit_queue m3
                      @ filter (\<lambda>(k, t). tp_pending t) (temporary_submits (m_db m3))\<rparr>))))"

fun run_events :: "'f floats \<Rightarrow> (string \<Rightarrow> bool) \<Rightarrow> 'a registry \<Rightarrow> check_event list \<Rightarrow> ('f, 'a) cm
    \<Rightarrow> (unit outcome \<times> ('f, 'a) cm) option" where
  "run_events F be A [] m = Some (Ok (), m)"
| "run_events F be A (ev # evs) m =
     (case handle_event F be A ev m of
        None \<Rightarrow> None
      | Some (Raise e, m1) \<Rightarrow> Some (Raise e, m1)
      | Some (Ok _, m1) \<Rightarrow> run_events F be A evs m1)"

end
