(* ===== verification/Check_Master_Props.thy ===== *)
theory Check_Master_Props
  imports Check_Master
begin

section \<open>Properties of the checking master\<close>

text \<open>
  The judging queue: every test result is at most once in the queue, and never both in the queue
  and at a judge. Only \<open>schedule_test_result\<close>, rejudging, the events \<open>Dequeue\<close> and
  \<open>Checked_Test_Result\<close> and the start of the master touch it; \<open>same_queue\<close> says that an
  operation does not.
\<close>

definition queue_inv :: "('f, 'a) cm \<Rightarrow> bool" where
  "queue_inv m \<longleftrightarrow> distinct (map fst (test_result_queue m))
     \<and> set (test_result_set m) = fst ` set (test_result_queue m) \<and> distinct (test_result_judged_set m)
     \<and> set (test_result_set m) \<inter> set (test_result_judged_set m) = {}"

definition same_queue :: "('f, 'a) cm \<Rightarrow> ('f, 'a) cm \<Rightarrow> bool" where
  "same_queue m m' \<longleftrightarrow> test_result_queue m' = test_result_queue m \<and> test_result_set m' = test_result_set m
     \<and> test_result_judged_set m' = test_result_judged_set m"

lemma same_queue_refl [simp]: "same_queue m m"
  by (simp add: same_queue_def)

lemma same_queue_trans: "same_queue m m1 \<Longrightarrow> same_queue m1 m2 \<Longrightarrow> same_queue m m2"
  by (simp add: same_queue_def)

lemma queue_inv_same: "same_queue m m' \<Longrightarrow> queue_inv m \<Longrightarrow> queue_inv m'"
  by (auto simp: same_queue_def queue_inv_def)

lemma queue_inv_cong:
  "test_result_queue m' = test_result_queue m \<Longrightarrow> test_result_set m' = test_result_set m
   \<Longrightarrow> test_result_judged_set m' = test_result_judged_set m \<Longrightarrow> queue_inv m' = queue_inv m"
  by (simp add: queue_inv_def)

lemma queue_inv_new: "queue_inv (new_cm d)"
  by (simp add: queue_inv_def new_cm_def)

lemma queue_inv_requeue:
  "queue_inv m \<Longrightarrow> k \<notin> set (test_result_set m) \<Longrightarrow> k \<notin> set (test_result_judged_set m) \<Longrightarrow> queue_inv (requeue k r m)"
  by (auto simp: queue_inv_def requeue_def)

lemma queue_inv_unjudge:
  "queue_inv m \<Longrightarrow> queue_inv (m\<lparr>test_result_judged_set := sdel i (test_result_judged_set m)\<rparr>)"
  unfolding queue_inv_def by (simp, blast)

subsection \<open>Callbacks and dispatchers\<close>

lemma schedule_test_result_inv: "queue_inv m \<Longrightarrow> queue_inv (schedule_test_result tsr s t m)"
  by (auto simp: schedule_test_result_def queue_inv_def Let_def split: prod.splits option.splits)

lemma stop_suite_queue [simp]:
  "test_result_queue (stop_suite k m) = test_result_queue m" "test_result_set (stop_suite k m) = test_result_set m"
  "test_result_judged_set (stop_suite k m) = test_result_judged_set m"
  by (simp_all add: stop_suite_def)

lemma finished_suite_same: "finished_suite k m = (r, m') \<Longrightarrow> same_queue m m'"
  by (auto simp: finished_suite_def same_queue_def Let_def split: outcome.splits prod.splits)

lemma with_reporter_same: "with_reporter f s = (r, s') \<Longrightarrow> same_queue (snd s) (snd s')"
  by (auto simp: with_reporter_def same_queue_def Let_def split: prod.splits)

lemma finish_same: "finish F be s = (r, s') \<Longrightarrow> same_queue (snd s) (snd s')"
  by (auto simp: finish_def split: prod.splits outcome.splits dest!: with_reporter_same finished_suite_same
      intro: same_queue_trans)

lemma set_to_check_snd [simp]: "snd (set_to_check ts s) = snd s" "fst (set_to_check ts s) = (fst s)\<lparr>di_to_check := ts\<rparr>"
  by (simp_all add: set_to_check_def)

definition keeps_queue :: "(('f, 'a) dstate \<Rightarrow> unit outcome \<times> ('f, 'a) dstate) \<Rightarrow> bool" where
  "keeps_queue f \<longleftrightarrow> (\<forall>s r s'. queue_inv (snd s) \<longrightarrow> f s = (r, s') \<longrightarrow> queue_inv (snd s'))"

lemma keeps_queueI: "(\<And>s r s'. queue_inv (snd s) \<Longrightarrow> f s = (r, s') \<Longrightarrow> queue_inv (snd s')) \<Longrightarrow> keeps_queue f"
  unfolding keeps_queue_def by blast

lemma keeps_queueD: "keeps_queue f \<Longrightarrow> queue_inv (snd s) \<Longrightarrow> f s = (r, s') \<Longrightarrow> queue_inv (snd s')"
  unfolding keeps_queue_def by blast

lemma with_reporter_keeps: "keeps_queue (with_reporter f)"
  by (rule keeps_queueI) (metis with_reporter_same queue_inv_same)

lemma finish_keeps: "keeps_queue (finish F be)"
  by (rule keeps_queueI) (metis finish_same queue_inv_same)

lemma accumulate_keeps: "keeps_queue (accumulate F k r)"
  unfolding accumulate_def by (rule with_reporter_keeps)

lemma send_test_keeps: "keeps_queue (send_test F be)"
proof (rule keeps_queueI)
  fix s r s'
  assume "queue_inv (snd s)" "send_test F be s = (r, s')"
  then show "queue_inv (snd s')"
    using keeps_queueD [OF finish_keeps, of s F be r s']
    by (auto simp: send_test_def schedule_test_result_inv split: list.splits if_splits)
qed

lemma serial_checked_inv:
  "queue_inv (snd s) \<Longrightarrow> serial_checked F be rs s = (r, s') \<Longrightarrow> queue_inv (snd s')"
proof (induction F be rs s rule: serial_checked.induct)
  case (1 F be s)
  then show ?case using keeps_queueD [OF send_test_keeps, of s F be r s'] by simp
next
  case (2 F be k tr rs s)
  show ?case
  proof (cases "di_to_check (fst s)")
    case Nil
    with 2 show ?thesis by auto
  next
    case (Cons t ts)
    obtain x s1 where s1: "accumulate F k tr (set_to_check ts s) = (x, s1)" by (cases "accumulate F k tr (set_to_check ts s)")
    then have inv: "queue_inv (snd s1)" using keeps_queueD [OF accumulate_keeps _ s1] 2(2) by simp
    show ?thesis
    proof (cases "tr_test tr \<noteq> t \<or> \<not> is_ok x \<or> \<not> is_ok (status s1)")
      case True
      with 2 Cons s1 inv show ?thesis by (auto simp: is_ok_iff split: outcome.splits if_splits)
    next
      case False
      then obtain u b where ok: "tr_test tr = t" "x = Ok u" "status s1 = Ok b" by (auto simp: is_ok_iff)
      then show ?thesis
        using 2(1) [OF Cons _ s1 [symmetric] ok(2,3)] 2(2,3) Cons s1 inv keeps_queueD [OF finish_keeps inv] by (cases b) auto
    qed
  qed
qed

lemma parallel_send_inv: "queue_inv (snd s) \<Longrightarrow> parallel_send ts s = (r, s') \<Longrightarrow> queue_inv (snd s')"
  by (induction ts s rule: parallel_send.induct) (auto simp: Let_def schedule_test_result_inv)

lemma parallel_results_inv:
  "queue_inv (snd s) \<Longrightarrow> parallel_results F be rs s = (r, s') \<Longrightarrow> queue_inv (snd s')"
proof (induction rs arbitrary: s)
  case (Cons kr rs)
  obtain k tr where kr: "kr = (k, tr)" by (cases kr)
  let ?s = "set_to_check (sdel (tr_test tr) (di_to_check (fst s))) s"
  obtain x s1 where s1: "accumulate F k tr ?s = (x, s1)" by (cases "accumulate F k tr ?s")
  then have inv: "queue_inv (snd s1)" using keeps_queueD [OF accumulate_keeps _ s1] Cons.prems(1) by simp
  have fin: "finish F be s1 = (y, s2) \<Longrightarrow> queue_inv (snd s2)" for y s2
    by (rule keeps_queueD [OF finish_keeps inv])
  show ?case
  proof (cases "tr_test tr \<notin> set (di_to_check (fst s)) \<or> \<not> is_ok x \<or> \<not> is_ok (status s1)")
    case True
    with Cons.prems kr s1 inv show ?thesis by (auto simp: is_ok_iff split: if_splits outcome.splits)
  next
    case False
    then obtain u b where ok: "tr_test tr \<in> set (di_to_check (fst s))" "x = Ok u" "status s1 = Ok b"
      by (auto simp: is_ok_iff)
    obtain y s2 where s2: "(if \<not> b then finish F be s1 else (Ok (), s1)) = (y, s2)"
      by (cases "if \<not> b then finish F be s1 else (Ok (), s1)")
    then have inv2: "queue_inv (snd s2)" using fin inv by (auto split: if_splits)
    have "parallel_results F be (kr # rs) s = (case y of Raise e \<Rightarrow> (Raise e, s2) | Ok v \<Rightarrow> parallel_results F be rs s2)"
      by (simp only: kr parallel_results.simps s1 ok outcome.case prod.case if_True if_False not_not simp_thms s2)
    with Cons.prems(2) Cons.IH [OF inv2] inv2 show ?thesis by (cases y) auto
  qed
qed simp

lemma dispatcher_checked_keeps: "keeps_queue (dispatcher_checked F be rs)"
proof (rule keeps_queueI)
  fix s r s'
  assume a: "queue_inv (snd s)" "dispatcher_checked F be rs s = (r, s')"
  obtain x s1 where s1: "parallel_results F be rs s = (x, s1)" by (cases "parallel_results F be rs s")
  have "queue_inv (snd s1)" by (rule parallel_results_inv [OF a(1) s1])
  with a s1 show "queue_inv (snd s')"
    using serial_checked_inv [OF a(1)] keeps_queueD [OF finish_keeps, of s1]
    by (auto simp: dispatcher_checked_def parallel_checked_def split: disp_class.splits outcome.splits if_splits)
qed

lemma dispatcher_init_keeps: "keeps_queue (dispatcher_init F be)"
proof (rule keeps_queueI)
  fix s r s'
  assume a: "queue_inv (snd s)" "dispatcher_init F be s = (r, s')"
  obtain x s1 where s1: "base_init s = (x, s1)" by (cases "base_init s")
  have inv: "queue_inv (snd s1)"
    using keeps_queueD [OF with_reporter_keeps a(1)] s1 by (simp add: base_init_def)
  show "queue_inv (snd s')"
  proof (cases "di_class (fst s)")
    case Serial_Dispatcher
    have "queue_inv (snd (set_to_check ts s1))" for ts using inv by simp
    with Serial_Dispatcher a s1 inv show ?thesis
      using keeps_queueD [OF send_test_keeps, of "set_to_check ts s1" for ts]
      by (auto simp: dispatcher_init_def serial_init_def split: outcome.splits)
  next
    case Parallel_Dispatcher
    obtain y s2 where s2: "parallel_send (case suite_tests s1 of Ok ts \<Rightarrow> ts | Raise e \<Rightarrow> []) s1 = (y, s2)"
      by (cases "parallel_send (case suite_tests s1 of Ok ts \<Rightarrow> ts | Raise e \<Rightarrow> []) s1")
    have "queue_inv (snd s2)" by (rule parallel_send_inv [OF inv s2])
    with Parallel_Dispatcher a s1 s2 inv show ?thesis
      using keeps_queueD [OF finish_keeps, of s2]
      by (auto simp: dispatcher_init_def parallel_init_def split: outcome.splits if_splits)
  qed
qed

subsection \<open>Suites and rankings\<close>

lemma queue_inv_db [simp]:
  "queue_inv (m\<lparr>m_db := d\<rparr>) = queue_inv m" "queue_inv (m\<lparr>test_suite_result_map := x\<rparr>) = queue_inv m"
  "queue_inv (m\<lparr>suites_to_start := s1\<rparr>) = queue_inv m" "queue_inv (m\<lparr>test_results_to_rejudge := s2\<rparr>) = queue_inv m"
  "queue_inv (m\<lparr>suites_to_rejudge := s3\<rparr>) = queue_inv m" "queue_inv (m\<lparr>rankings_to_rejudge := s4\<rparr>) = queue_inv m"
  "queue_inv (m\<lparr>suite_checked_test_results := s5\<rparr>) = queue_inv m"
  "queue_inv (m\<lparr>ranking_changed_contestants := s6\<rparr>) = queue_inv m"
  "queue_inv (m\<lparr>ranking_created_submits := s7\<rparr>) = queue_inv m"
  "queue_inv (m\<lparr>ranking_checked_suites := s8\<rparr>) = queue_inv m" "queue_inv (m\<lparr>rankings_to_stop := s9\<rparr>) = queue_inv m"
  "queue_inv (m\<lparr>suite_cache := s10\<rparr>) = queue_inv m" "queue_inv (m\<lparr>ranking_map := s11\<rparr>) = queue_inv m"
  "queue_inv (m\<lparr>scheduled_test_suite_results_map := s12\<rparr>) = queue_inv m"
  "queue_inv (m\<lparr>temporary_submit_queue := s13\<rparr>) = queue_inv m"
  "queue_inv (m\<lparr>m_sent := s14\<rparr>) = queue_inv m" "queue_inv (m\<lparr>m_serial := s15\<rparr>) = queue_inv m"
  "queue_inv (m\<lparr>scheduled_test_results_map := s16\<rparr>) = queue_inv m"
  by (simp_all add: queue_inv_def)

lemma stop_suite_inv [simp]: "queue_inv (stop_suite k m) = queue_inv m"
  by (simp add: stop_suite_def)

lemma stop_ranking_inv [simp]: "queue_inv (stop_ranking k m) = queue_inv m"
  by (simp add: stop_ranking_def)

lemma finished_suite_inv: "queue_inv m \<Longrightarrow> finished_suite k m = (r, m') \<Longrightarrow> queue_inv m'"
  using finished_suite_same queue_inv_same by blast

lemma call_suite_inv:
  assumes "keeps_queue f" and "queue_inv m" and "call_suite f k m = (r, m')"
  shows "queue_inv m'"
proof (cases "dget (test_suite_result_map m) k")
  case None
  with assms show ?thesis by (simp add: call_suite_def)
next
  case (Some di)
  obtain x di1 m1 where f: "f (di, m) = (x, di1, m1)" by (cases "f (di, m)") auto
  have inv: "queue_inv m1" using keeps_queueD [OF assms(1) _ f] assms(2) by simp
  let ?m2 = "if k \<in> set (dkeys (test_suite_result_map m1))
      then m1\<lparr>test_suite_result_map := dset k di1 (test_suite_result_map m1)\<rparr> else m1"
  obtain y m3 where m3: "finished_suite k (?m2\<lparr>m_db := m_db m\<rparr>) = (y, m3)"
    by (cases "finished_suite k (?m2\<lparr>m_db := m_db m\<rparr>)")
  have inv2: "queue_inv ?m2" using inv by simp
  then have "queue_inv m3" using finished_suite_inv [OF _ m3] by simp
  with Some f m3 inv2 assms(3) show ?thesis
    by (cases x) (auto simp: call_suite_def Let_def split: outcome.splits prod.splits)
qed

lemma start_suite_inv:
  assumes "queue_inv m" and "start_suite F be k r m = (x, m')"
  shows "queue_inv m'"
  using assms call_suite_inv [OF dispatcher_init_keeps, of "m\<lparr>test_suite_result_map := dset k di (test_suite_result_map m)\<rparr>" F be k x m' for di]
  by (auto simp: start_suite_def split: if_splits outcome.splits)

lemma schedule_suite_result_inv:
  "queue_inv m \<Longrightarrow> schedule_suite_result rk s ts m = (r, m') \<Longrightarrow> queue_inv m'"
  by (auto simp: schedule_suite_result_def Let_def split: option.splits prod.splits if_splits)

lemma schedule_requests_inv:
  "queue_inv m \<Longrightarrow> schedule_requests rk qs m = (r, m') \<Longrightarrow> queue_inv m'"
proof (induction rk qs m rule: schedule_requests.induct)
  case (2 rk s ts qs m)
  obtain x m1 where m1: "schedule_suite_result rk s ts m = (x, m1)" by (cases "schedule_suite_result rk s ts m")
  then have "queue_inv m1" using schedule_suite_result_inv 2(2) by blast
  with 2 m1 show ?case by (cases x) auto
qed simp

lemma call_ranking_inv: "queue_inv m \<Longrightarrow> queue_inv (call_ranking A c k m)"
proof -
  assume inv: "queue_inv m"
  show ?thesis
  proof (cases "dget (ranking_map m) k")
    case None
    with inv show ?thesis by (simp add: call_ranking_def)
  next
    case (Some ra)
    obtain cls ri a where ra: "ra = (cls, ri, a)" by (cases ra)
    show ?thesis
    proof (cases "A cls")
      case None
      with Some ra inv show ?thesis by (simp add: call_ranking_def)
    next
      case (Some C)
      obtain x a1 d1 reqs where c: "ag_call C c a (m_db m) = (x, a1, d1, reqs)" by (cases "ag_call C c a (m_db m)")
      let ?m = "m\<lparr>m_db := d1, ranking_map := dset k (cls, ri, a1) (ranking_map m)\<rparr>"
      obtain y m1 where m1: "schedule_requests (Some (k, ri)) reqs ?m = (y, m1)"
        by (cases "schedule_requests (Some (k, ri)) reqs ?m")
      have "queue_inv m1" using schedule_requests_inv [OF _ m1] inv by simp
      with Some ra c m1 \<open>dget (ranking_map m) k = Some ra\<close> show ?thesis
        by (simp add: call_ranking_def Let_def split: outcome.splits prod.splits)
    qed
  qed
qed

lemma start_ranking_inv: "queue_inv m \<Longrightarrow> start_ranking A k ri m = (r, m') \<Longrightarrow> queue_inv m'"
  by (auto simp: start_ranking_def Let_def call_ranking_inv split: if_splits option.splits)

lemma do_rejudge_test_result_inv:
  assumes "queue_inv m" and "do_rejudge_test_result k r m = (x, m')"
  shows "queue_inv m'"
proof -
  let ?r = "r\<lparr>tr_pending := True, tr_tester := None\<rparr>"
  obtain y m1 where m1: "rejudge_save k ?r m = (y, m1)" by (cases "rejudge_save k ?r m")
  then have q: "queue_inv m1" "test_result_set m1 = test_result_set m" "test_result_judged_set m1 = test_result_judged_set m"
    using assms(1) by (auto simp: rejudge_save_def split: prod.splits outcome.splits)
  have j: "queue_inv (m1\<lparr>test_result_judged_set := sdel k (test_result_judged_set m1)\<rparr>)"
    using q(1) by (rule queue_inv_unjudge)
  show ?thesis
    using assms m1 q j queue_inv_requeue [OF j, of k ?r] queue_inv_requeue [OF q(1), of k ?r]
    by (auto simp: do_rejudge_test_result_def Let_def split: if_splits outcome.splits)
qed

lemma do_rejudge_suite_result_inv:
  assumes "queue_inv m" and "do_rejudge_suite_result F be k r m = (x, m')"
  shows "queue_inv m'"
proof -
  have s: "start_suite F be k r' m1 = (x, m') \<Longrightarrow> queue_inv m1 \<Longrightarrow> queue_inv m'" for r' m1
    by (rule start_suite_inv)
  show ?thesis
    using assms(2,1)
    by (auto simp: do_rejudge_suite_result_def Let_def split: if_splits outcome.splits prod.splits dest!: s)
qed

lemma do_rejudge_ranking_inv: "queue_inv m \<Longrightarrow> do_rejudge_ranking A k ri m = (r, m') \<Longrightarrow> queue_inv m'"
  using start_ranking_inv [of "stop_ranking k m" A k ri r m'] start_ranking_inv [of m A k ri r m']
  by (auto simp: do_rejudge_ranking_def split: if_splits)

lemma work_item_inv:
  assumes "queue_inv m" and "work_item F be A n m = Some (r, m')"
  shows "queue_inv m'"
  using assms
  by (auto simp: work_item_def do_stop_ranking_def call_ranking_inv
      split: if_splits list.splits
      dest: start_suite_inv [rotated] do_rejudge_ranking_inv [rotated] do_rejudge_test_result_inv [rotated]
        do_rejudge_suite_result_inv [rotated] call_suite_inv [OF dispatcher_checked_keeps, rotated])

lemma do_work_inv:
  assumes "queue_inv m" and ret: "do_work F be A n flag m = Some x"
  shows "queue_inv (snd x)"
proof -
  have "queue_inv m \<longrightarrow> queue_inv (snd x)"
  proof (rule do_work.raw_induct [where P = "\<lambda>F be A n flag m x. queue_inv m \<longrightarrow> queue_inv (snd x)", OF _ ret])
    fix f and F :: "'a floats" and be and A :: "'b registry" and n flag and m :: "('a, 'b) cm" and x
    assume IH: "\<And>F be A n flag m x. f F be A n flag m = Some x \<Longrightarrow> queue_inv (m :: ('a, 'b) cm) \<longrightarrow> queue_inv (snd x)"
      and eq: "(if 9 \<le> n then (if flag then f F be A 0 False m else Some (Ok (), m))
        else case work_item F be A n m of None \<Rightarrow> f F be A (Suc n) flag m
          | Some (r, m1) \<Rightarrow> (case r of Raise e \<Rightarrow> Some (Raise e, m1) | Ok u \<Rightarrow> f F be A n True m1)) = Some x"
    show "queue_inv m \<longrightarrow> queue_inv (snd x)"
    proof
      assume inv: "queue_inv m"
      show "queue_inv (snd x)"
      proof (cases "work_item F be A n m")
        case None
        with eq inv IH show ?thesis by (auto split: if_splits)
      next
        case (Some rm)
        obtain r m1 where rm: "rm = (r, m1)" by (cases rm)
        have "queue_inv m1" using work_item_inv [OF inv] Some rm by blast
        with eq inv IH Some rm show ?thesis by (auto split: if_splits outcome.splits)
      qed
    qed
  qed
  with assms(1) show ?thesis by blast
qed

subsection \<open>Events and runs\<close>

lemma queue_inv_take:
  assumes "queue_inv m" and "test_result_queue m = (k, r) # q"
  shows "k \<in> set (test_result_set m)" and "k \<notin> set (test_result_judged_set m)"
    and "queue_inv (m\<lparr>test_result_queue := q, test_result_set := sdel k (test_result_set m),
      test_result_judged_set := sadd k (test_result_judged_set m)\<rparr>)"
  using assms by (force simp: queue_inv_def)+

lemma next_test_result_law:
  assumes "queue_inv m" and "next_test_result t m = (r, m')"
  shows "queue_inv m'"
proof (cases "temporary_submit_queue m")
  case Nil
  show ?thesis
  proof (cases "test_result_queue m")
    case (Cons kr q)
    obtain k x where kr: "kr = (k, x)" by (cases kr)
    note take = queue_inv_take [OF assms(1) Cons [unfolded kr]]
    let ?m = "m\<lparr>test_result_queue := q, test_result_set := sdel k (test_result_set m),
      test_result_judged_set := sadd k (test_result_judged_set m)\<rparr>"
    have "\<exists>d. m' = ?m\<lparr>m_db := d\<rparr>"
    proof (cases "t \<in> set (roles (m_db m))")
      case True
      with Nil Cons kr take(1) assms(2) show ?thesis
        by (auto simp: next_test_result_def Let_def split: prod.splits outcome.splits)
    next
      case False
      have "?m = ?m\<lparr>m_db := m_db m\<rparr>" by simp
      with False Nil Cons kr take(1) assms(2) show ?thesis
        by (intro exI [of _ "m_db m"]) (simp add: next_test_result_def Let_def)
    qed
    with take(3) show ?thesis by auto
  qed (use Nil assms in \<open>auto simp: next_test_result_def\<close>)
next
  case (Cons kt q)
  with assms show ?thesis
    by (cases kt) (auto simp: next_test_result_def Let_def split: if_splits prod.splits outcome.splits)
qed

lemma note_event_inv:
  assumes "queue_inv m" and "note_event ev m = (r, m')"
  shows "queue_inv m'"
proof (cases ev)
  case (Checked_Test_Result i)
  have "queue_inv (m\<lparr>test_result_judged_set := sdel i (test_result_judged_set m)\<rparr>)"
    using assms(1) by (rule queue_inv_unjudge)
  then have "queue_inv (m\<lparr>test_result_judged_set := sdel i (test_result_judged_set m), suite_checked_test_results := x\<rparr>)" for x
    by simp
  with Checked_Test_Result assms show ?thesis by (auto split: outcome.splits if_splits)
next
  case (Default_Suite_Changed i)
  with assms show ?thesis by (auto split: outcome.splits dest: schedule_requests_inv [rotated])
next
  case (New_Submit i)
  with assms show ?thesis
    by (auto split: outcome.splits prod.splits dest!: schedule_suite_result_inv [OF assms(1)])
next
  case (Dequeue tag t)
  with assms show ?thesis
    by (auto split: outcome.splits prod.splits dest!: next_test_result_law [OF assms(1)])
qed (use assms in \<open>auto split: outcome.splits if_splits\<close>)

lemma handle_event_inv:
  assumes "queue_inv m" and "handle_event F be A ev m = Some x"
  shows "queue_inv (snd x)"
proof -
  obtain r m1 where m1: "note_event ev m = (r, m1)" by (cases "note_event ev m")
  then have "queue_inv m1" using note_event_inv assms(1) by blast
  with assms(2) m1 show ?thesis by (cases r) (auto simp: handle_event_def do_work_inv)
qed

lemma run_events_inv: "queue_inv m \<Longrightarrow> run_events F be A evs m = Some x \<Longrightarrow> queue_inv (snd x)"
proof (induction evs arbitrary: m)
  case (Cons ev evs)
  show ?case
  proof (cases "handle_event F be A ev m")
    case None
    with Cons.prems show ?thesis by simp
  next
    case (Some y)
    then have "queue_inv (snd y)" using handle_event_inv Cons.prems(1) by blast
    with Some Cons show ?thesis by (cases y) (auto split: outcome.splits)
  qed
qed auto

lemma init_test_results_inv:
  assumes "queue_inv m" and "distinct (map fst rs)" and "fst ` set rs \<inter> set (test_result_set m) = {}"
    and "test_result_judged_set m = []" and "init_test_results rs m = (x, m')"
  shows "queue_inv m'"
  using assms
proof (induction rs arbitrary: m)
  case (Cons kr rs)
  obtain k r where kr: "kr = (k, r)" by (cases kr)
  obtain y d where d: "(if tr_tester r \<noteq> None then save_test_result k (r\<lparr>tr_tester := None\<rparr>) (m_db m) else (Ok (), m_db m)) = (y, d)"
    by (cases "if tr_tester r \<noteq> None then save_test_result k (r\<lparr>tr_tester := None\<rparr>) (m_db m) else (Ok (), m_db m)")
  let ?m = "requeue k (r\<lparr>tr_tester := None\<rparr>) (m\<lparr>m_db := d\<rparr>)"
  have "queue_inv ?m" using Cons.prems kr by (intro queue_inv_requeue) auto
  moreover have "fst ` set rs \<inter> set (test_result_set ?m) = {}" "test_result_judged_set ?m = []"
    using Cons.prems kr by (auto simp: requeue_def)
  moreover have "init_test_results (kr # rs) m = (case y of Raise e \<Rightarrow> (Raise e, m\<lparr>m_db := d\<rparr>) | Ok u \<Rightarrow> init_test_results rs ?m)"
    using kr d by (simp add: Let_def)
  ultimately show ?case using Cons.prems Cons.IH [of ?m] by (cases y) auto
qed simp

lemma for_each_keeps:
  assumes "for_each f xs m = (r, m')" and "queue_inv m"
    and "\<And>x m r m'. queue_inv m \<Longrightarrow> f x m = (r, m') \<Longrightarrow> queue_inv m'"
  shows "queue_inv m'"
  using for_each_invariant [of xs queue_inv f m r m'] assms by blast

lemma cm_init_inv:
  fixes F :: "'f floats" and A :: "'a registry"
  assumes "dict_ok (test_results d)" and "cm_init F be A d = Some x"
  shows "queue_inv (snd x)"
proof -
  let ?rs = "filter (\<lambda>(k, r). tr_pending r \<and> open_submit d (tr_submit r)) (test_results d)"
  obtain y1 and m1 :: "('f, 'a) cm" where m1: "init_test_results ?rs (new_cm d) = (y1, m1)" by fastforce
  have "distinct (map fst ?rs)" using assms(1) by (simp add: dict_ok_def distinct_map_filter)
  then have q1: "queue_inv m1" using init_test_results_inv [OF queue_inv_new _ _ _ m1] by (simp add: new_cm_def)
  let ?ss = "filter (\<lambda>(k, r). sr_pending r \<and> open_submit (m_db m1) (sr_submit r)) (suite_results (m_db m1))"
  obtain y2 m2 where m2: "for_each (\<lambda>(k, r). start_suite F be k r) ?ss m1 = (y2, m2)"
    by (cases "for_each (\<lambda>(k, r). start_suite F be k r) ?ss m1")
  have q2: "queue_inv m2" by (rule for_each_keeps [OF m2 q1]) (auto dest: start_suite_inv)
  let ?rk = "filter (\<lambda>(k, ri). dget (contests (m_db m2)) (rk_contest ri) = Some False) (rankings (m_db m2))"
  obtain y3 m3 where m3: "for_each (\<lambda>(k, ri). start_ranking A k ri) ?rk m2 = (y3, m3)"
    by (cases "for_each (\<lambda>(k, ri). start_ranking A k ri) ?rk m2")
  have q3: "queue_inv m3" by (rule for_each_keeps [OF m3 q2]) (auto dest: start_ranking_inv)
  let ?m4 = "m3\<lparr>temporary_submit_queue := temporary_submit_queue m3
    @ filter (\<lambda>(k, t). tp_pending t) (temporary_submits (m_db m3))\<rparr>"
  have "cm_init F be A d = (case y1 of Raise e \<Rightarrow> Some (Raise e, m1) | Ok _ \<Rightarrow>
      (case y2 of Raise e \<Rightarrow> Some (Raise e, m2) | Ok _ \<Rightarrow>
      (case y3 of Raise e \<Rightarrow> Some (Raise e, m3) | Ok _ \<Rightarrow> do_work F be A 0 False ?m4)))"
    unfolding cm_init_def m1 prod.case m2 m3 by (cases y1; cases y2; cases y3) (simp_all add: m2 m3)
  with assms(2) q1 q2 q3 do_work_inv [of ?m4 F be A 0 False x] show ?thesis
    by (cases y1; cases y2; cases y3) auto
qed

subsection \<open>Properties\<close>

text \<open>
  C7 (judging_queue_invariant): after the start of the master on any database and any sequence of
  events, whatever suites, rejudgings and rankings do and also when an exception ends it, the
  queue holds every test result at most once, \<open>test_result_set\<close> is exactly what is in the
  queue, and nothing in the queue is at a judge.
\<close>

theorem judging_queue_invariant:
  assumes "dict_ok (test_results d)" and "cm_init F be A d = Some (r, m)"
    and "run_events F be A evs m = Some (r', m')"
  shows "distinct (map fst (test_result_queue m'))
    \<and> set (test_result_set m') = set (map fst (test_result_queue m'))
    \<and> set (map fst (test_result_queue m')) \<inter> set (test_result_judged_set m') = {}"
proof -
  have "queue_inv m" using cm_init_inv [OF assms(1,2)] by simp
  then have "queue_inv m'" using run_events_inv [OF _ assms(3)] by simp
  then show ?thesis by (auto simp: queue_inv_def)
qed

text \<open>\<open>do_work\<close> on a master that has nothing to do.\<close>

lemma do_work_idle:
  assumes "rankings_to_stop m = []" "suites_to_start m = []" "test_results_to_rejudge m = []"
    "suites_to_rejudge m = []" "rankings_to_rejudge m = []" "suite_checked_test_results m = []"
    "ranking_changed_contestants m = []" "ranking_created_submits m = []" "ranking_checked_suites m = []"
  shows "do_work F be A 0 False m = Some (Ok (), m)"
  using assms by (simp add: do_work.simps work_item_def)

definition pending_db :: db where
  "pending_db = sample_db\<lparr>test_results :=
     [(3, \<lparr>tr_submit = 1, tr_test = 10, tr_tester = Some 30, tr_pending = True\<rparr>)], result_oa := [(3, [])]\<rparr>"

theorem judging_queue_invariant_witness:
  "\<exists>r m r' m'. cm_init no_floats (\<lambda>h. True) (\<lambda>n. None :: unit agg_class option) pending_db = Some (r, m)
    \<and> run_events no_floats (\<lambda>h. True) (\<lambda>n. None) [Dequeue ''t'' 30] m = Some (r', m')
    \<and> m_sent m' = [(''t'', Some 3, 1)]
    \<and> set (map fst (test_result_queue m')) \<inter> set (test_result_judged_set m') = {}"
proof -
  let ?init = "cm_init no_floats (\<lambda>h. True) (\<lambda>n. None :: unit agg_class option) pending_db"
  let ?run = "\<lambda>m. run_events no_floats (\<lambda>h. True) (\<lambda>n. None :: unit agg_class option) [Dequeue ''t'' 30] m"
  have "case ?init of Some (Ok _, m) \<Rightarrow> (case ?run m of Some (Ok _, m') \<Rightarrow> m_sent m' = [(''t'', Some 3, 1)] | _ \<Rightarrow> False) | _ \<Rightarrow> False"
    apply code_simp
    apply (subst do_work_idle; simp)
    apply code_simp
    apply (subst do_work_idle; simp)
    done
  then obtain r m where i: "?init = Some (r, m)"
    and m: "case ?run m of Some (Ok _, m') \<Rightarrow> m_sent m' = [(''t'', Some 3, 1)] | _ \<Rightarrow> False"
    by (simp del: run_events.simps split: option.splits prod.splits outcome.splits)
  from m obtain y where y: "?run m = Some y" by (cases "?run m") (simp_all del: run_events.simps)
  obtain r' m' where rm: "y = (r', m')" by (cases y)
  have x: "?run m = Some (r', m')" "m_sent m' = [(''t'', Some 3, 1)]"
    using m y rm by (simp_all del: run_events.simps split: outcome.splits)
  have "dict_ok (test_results pending_db)" by (simp add: pending_db_def dict_ok_def)
  from judging_queue_invariant [OF this i x(1)] i x show ?thesis by blast
qed

text \<open>
  (dequeue_in_order): a judge that asks for work gets the oldest temporary submit, if there
  is one, as a negative number; otherwise the oldest test result of the queue, which then is
  at a judge and was not before; None only when both queues are empty.
\<close>

theorem dequeue_in_order:
  assumes "queue_inv m" and "next_test_result tester m = (Ok i, m')"
  shows "(case temporary_submit_queue m of
      (k, t) # q \<Rightarrow> i = Some (- int k) \<and> temporary_submit_queue m' = q \<and> test_result_queue m' = test_result_queue m
    | [] \<Rightarrow> (case test_result_queue m of
        [] \<Rightarrow> i = None \<and> m' = m
      | (k, r) # q \<Rightarrow> i = Some (int k) \<and> test_result_queue m' = q \<and> k \<notin> set (test_result_judged_set m)
          \<and> set (test_result_judged_set m') = insert k (set (test_result_judged_set m))
          \<and> dget (test_results (m_db m')) k = Some (r\<lparr>tr_tester := Some tester\<rparr>)))"
proof (cases "temporary_submit_queue m")
  case Nil
  show ?thesis
  proof (cases "test_result_queue m")
    case (Cons kr q)
    obtain k r where kr: "kr = (k, r)" by (cases kr)
    note take = queue_inv_take [OF assms(1) Cons [unfolded kr]]
    show ?thesis
      using Nil Cons kr take assms(2)
      by (auto simp: next_test_result_def Let_def save_test_result_def update_row_def
          split: if_splits prod.splits outcome.splits)
  qed (use Nil assms in \<open>auto simp: next_test_result_def\<close>)
next
  case (Cons kt q)
  with assms show ?thesis
    by (cases kt) (auto simp: next_test_result_def Let_def split: if_splits prod.splits outcome.splits)
qed

theorem dequeue_in_order_witness:
  "\<exists>m'. next_test_result 30 ((new_cm pending_db :: (unit, unit) cm)\<lparr>test_result_queue := [(3, the (dget (test_results pending_db) 3))],
      test_result_set := [3]\<rparr>) = (Ok (Some 3), m') \<and> test_result_queue m' = [] \<and> set (test_result_judged_set m') = {3}"
proof -
  let ?m = "(new_cm pending_db :: (unit, unit) cm)\<lparr>test_result_queue := [(3, the (dget (test_results pending_db) 3))],
      test_result_set := [3]\<rparr>"
  have "case next_test_result 30 ?m of (r, m') \<Rightarrow> r = Ok (Some 3)" by code_simp
  then obtain m' where m': "next_test_result 30 ?m = (Ok (Some 3), m')" by (auto split: prod.splits)
  have "queue_inv ?m" by (simp add: queue_inv_def new_cm_def)
  from dequeue_in_order [OF this m'] have "test_result_queue m' = []" "set (test_result_judged_set m') = {3}"
    by (simp_all add: new_cm_def)
  with m' show ?thesis by blast
qed

lemma dkeys_snoc [simp]: "set (dkeys (d @ [(k, v)])) = insert k (set (dkeys d))"
  by (auto simp: dkeys_def)

lemma obj_add_keys [simp]: "set (dkeys (obj_add k v s)) = insert k (set (dkeys s))"
  by (auto simp: obj_add_def)

lemma obj_union_keys: "set (dkeys (obj_union s xs)) = set (dkeys s) \<union> fst ` set xs"
proof -
  have "set (dkeys (fold (\<lambda>(k, v). obj_add k v) xs s)) = set (dkeys s) \<union> fst ` set xs"
    by (induction xs arbitrary: s) auto
  then show ?thesis by (simp add: obj_union_def)
qed

text \<open>Starting a suite does not touch the rankings to be rejudged.\<close>

lemma finished_suite_rejudge: "finished_suite k m = (r, m') \<Longrightarrow> rankings_to_rejudge m' = rankings_to_rejudge m"
  by (auto simp: finished_suite_def stop_suite_def Let_def split: outcome.splits prod.splits)

lemma with_reporter_rejudge: "with_reporter f s = (r, s') \<Longrightarrow> rankings_to_rejudge (snd s') = rankings_to_rejudge (snd s)"
  by (auto simp: with_reporter_def Let_def split: prod.splits)

lemma schedule_rejudge [simp]: "rankings_to_rejudge (schedule_test_result t s x m) = rankings_to_rejudge m"
  by (simp add: schedule_test_result_def Let_def split: prod.splits option.splits)

lemma finish_rejudge: "finish F be s = (r, s') \<Longrightarrow> rankings_to_rejudge (snd s') = rankings_to_rejudge (snd s)"
  by (fastforce simp: finish_def split: prod.splits outcome.splits dest: with_reporter_rejudge finished_suite_rejudge)

lemma send_test_rejudge: "send_test F be s = (r, s') \<Longrightarrow> rankings_to_rejudge (snd s') = rankings_to_rejudge (snd s)"
  by (auto simp: send_test_def split: list.splits if_splits dest: finish_rejudge)

lemma parallel_send_rejudge: "rankings_to_rejudge (snd (snd (parallel_send ts s))) = rankings_to_rejudge (snd s)"
  by (induction ts s rule: parallel_send.induct) (auto simp: Let_def)

lemma dispatcher_init_rejudge:
  assumes "dispatcher_init F be s = (r, s')"
  shows "rankings_to_rejudge (snd s') = rankings_to_rejudge (snd s)"
proof -
  obtain x s1 where s1: "base_init s = (x, s1)" by (cases "base_init s")
  then have e: "rankings_to_rejudge (snd s1) = rankings_to_rejudge (snd s)"
    using with_reporter_rejudge by (simp add: base_init_def)
  show ?thesis
  proof (cases "di_class (fst s)")
    case Serial_Dispatcher
    with assms s1 e show ?thesis
      by (auto simp: dispatcher_init_def serial_init_def split: outcome.splits dest!: send_test_rejudge)
  next
    case Parallel_Dispatcher
    have "parallel_send ts s1 = (y, s2) \<Longrightarrow> rankings_to_rejudge (snd s2) = rankings_to_rejudge (snd s)" for ts y s2
      using parallel_send_rejudge [of ts s1] e by simp
    note p = this
    show ?thesis
    proof (cases "is_ok x \<and> sr_submit (di_inst (fst s1)) \<in> set (dkeys (submits (m_db (snd s1)))) \<and> is_ok (suite_tests s1)")
      case True
      then obtain u ts where ts: "x = Ok u" "suite_tests s1 = Ok ts" by (auto simp: is_ok_iff)
      obtain y s2 where s2: "parallel_send ts s1 = (y, s2)" by (cases "parallel_send ts s1")
      from p [OF s2] Parallel_Dispatcher assms s1 True ts s2 show ?thesis
        by (auto simp: dispatcher_init_def parallel_init_def split: outcome.splits if_splits dest: finish_rejudge)
    next
      case False
      with Parallel_Dispatcher assms s1 e show ?thesis
        by (auto simp: dispatcher_init_def parallel_init_def is_ok_iff split: outcome.splits if_splits)
    qed
  qed
qed

lemma call_suite_rejudge:
  assumes "\<And>s r s'. f s = (r, s') \<Longrightarrow> rankings_to_rejudge (snd s') = rankings_to_rejudge (snd s)"
    and "call_suite f k m = (x, m')"
  shows "rankings_to_rejudge m' = rankings_to_rejudge m"
proof (cases "dget (test_suite_result_map m) k")
  case None
  with assms show ?thesis by (simp add: call_suite_def)
next
  case (Some di)
  obtain y di1 m1 where f: "f (di, m) = (y, di1, m1)" by (cases "f (di, m)") auto
  have e: "rankings_to_rejudge m1 = rankings_to_rejudge m" using assms(1) [OF f] by simp
  let ?m2 = "if k \<in> set (dkeys (test_suite_result_map m1))
      then m1\<lparr>test_suite_result_map := dset k di1 (test_suite_result_map m1)\<rparr> else m1"
  obtain z m3 where m3: "finished_suite k (?m2\<lparr>m_db := m_db m\<rparr>) = (z, m3)"
    by (cases "finished_suite k (?m2\<lparr>m_db := m_db m\<rparr>)")
  have "rankings_to_rejudge ?m2 = rankings_to_rejudge m" using e by simp
  moreover from this have "rankings_to_rejudge m3 = rankings_to_rejudge m"
    using finished_suite_rejudge [OF m3] by simp
  ultimately show ?thesis using Some f m3 assms(2)
    by (cases y) (auto simp: call_suite_def Let_def split: outcome.splits prod.splits)
qed

lemma start_suite_rejudge:
  assumes "start_suite F be k r m = (x, m')"
  shows "rankings_to_rejudge m' = rankings_to_rejudge m"
proof -
  have c: "call_suite (dispatcher_init F be) k m1 = (x, m') \<Longrightarrow> rankings_to_rejudge m' = rankings_to_rejudge m1" for m1
    by (rule call_suite_rejudge) (rule dispatcher_init_rejudge)
  show ?thesis
    using assms by (auto simp: start_suite_def split: if_splits outcome.splits dest!: c)
qed

text \<open>
  (stopped_ranking_restarts): stopping a ranking leaves it scheduled for its suite results: when
  one of them is rejudged later, the stopped ranking is among the rankings to be rejudged,
  which starts it again.
\<close>

theorem stopped_ranking_restarts:
  assumes "k \<in> set (dkeys (ranking_map m))" and "s \<notin> set (dkeys (test_suite_result_map m))"
    and "dget (suite_results (m_db m)) s = Some r"
    and "dget (scheduled_test_suite_results_map m) s = Some rks" and "(k, ri) \<in> set rks"
    and "do_rejudge_suite_result F be s r0 (do_stop_ranking k m) = (x, m')"
  shows "k \<notin> set (dkeys (ranking_map (do_stop_ranking k m))) \<and> k \<in> set (dkeys (rankings_to_rejudge m'))"
proof -
  let ?m = "do_stop_ranking k m"
  have m: "suite_results (m_db ?m) = suite_results (m_db m)" "test_suite_result_map ?m = test_suite_result_map m"
    "scheduled_test_suite_results_map ?m = scheduled_test_suite_results_map m"
    "k \<notin> set (dkeys (ranking_map ?m))"
    using assms(1) by (simp_all add: do_stop_ranking_def stop_ranking_def)
  have mem: "k \<in> set (dkeys (obj_union (rankings_to_rejudge ?m) rks))"
    using assms(5) by (force simp: obj_union_keys)
  have "s \<in> set (dkeys (suite_results (m_db m)))"
    using assms(3) by (metis dget_None_iff option.distinct(1))
  moreover have "dget_def_val (scheduled_test_suite_results_map m) s [] = rks"
    using assms(4) by (simp add: dget_def_val_def)
  ultimately show ?thesis
    using assms(2,3,6) m mem
    by (auto simp: do_rejudge_suite_result_def row_def Let_def save_suite_result_def update_row_def
        dest!: start_suite_rejudge)
qed

theorem stopped_ranking_restarts_witness:
  "\<exists>x m'. do_rejudge_suite_result no_floats (\<lambda>h. True) 7 (the (dget (suite_results sample_db) 7))
      (do_stop_ranking 9 ((new_cm sample_db :: (unit, unit) cm)\<lparr>
        ranking_map := [(9, ''ACMAggregator'', \<lparr>rk_contest = 8, rk_aggregator = ''ACMAggregator'', rk_header = [], rk_footer = [], rk_params = []\<rparr>, ())],
        scheduled_test_suite_results_map := [(7, [(9, \<lparr>rk_contest = 8, rk_aggregator = ''ACMAggregator'', rk_header = [], rk_footer = [], rk_params = []\<rparr>)])]\<rparr>)) = (x, m')
    \<and> 9 \<in> set (dkeys (rankings_to_rejudge m'))"
proof -
  let ?ri = "\<lparr>rk_contest = 8, rk_aggregator = ''ACMAggregator'', rk_header = [], rk_footer = [], rk_params = []\<rparr>"
  let ?m = "(new_cm sample_db :: (unit, unit) cm)\<lparr>ranking_map := [(9, ''ACMAggregator'', ?ri, ())],
      scheduled_test_suite_results_map := [(7, [(9, ?ri)])]\<rparr>"
  obtain x m' where x: "do_rejudge_suite_result no_floats (\<lambda>h. True) 7 (the (dget (suite_results sample_db) 7)) (do_stop_ranking 9 ?m) = (x, m')"
    by (cases "do_rejudge_suite_result no_floats (\<lambda>h. True) 7 (the (dget (suite_results sample_db) 7)) (do_stop_ranking 9 ?m)")
  have "(9::key) \<in> set (dkeys (ranking_map ?m))" "7 \<notin> set (dkeys (test_suite_result_map ?m))"
    "dget (suite_results (m_db ?m)) 7 = Some (the (dget (suite_results sample_db) 7))"
    "dget (scheduled_test_suite_results_map ?m) 7 = Some [(9, ?ri)]" "(9, ?ri) \<in> set [(9, ?ri)]"
    by (simp_all add: new_cm_def sample_db_def dkeys_def)
  from stopped_ranking_restarts [OF this x] x show ?thesis by blast
qed

text \<open>
  C30 (failed_suite_stays_pending): when a call on a running suite result raises, the suite is
  stopped and its row gets the status INT; but the row is saved from the old object, so it is
  marked pending again if that object was, although nothing runs any more.
\<close>

theorem failed_suite_stays_pending:
  assumes "dget (test_suite_result_map m) k = Some di" and "f (di, m) = (Raise e, di1, m1)"
    and "dget (suite_results (m_db m)) k = Some r"
  shows "\<exists>m'. call_suite f k m = (Ok (), m') \<and> k \<notin> set (dkeys (test_suite_result_map m'))
    \<and> dget (suite_results (m_db m')) k = Some ((di_inst di1)\<lparr>sr_status := ''INT'', sr_report := ''Internal error''\<rparr>)"
proof -
  let ?m2 = "if k \<in> set (dkeys (test_suite_result_map m1))
      then m1\<lparr>test_suite_result_map := dset k di1 (test_suite_result_map m1)\<rparr> else m1"
  have row: "save_suite_result k x (m_db m) = (Ok (), (m_db m)\<lparr>suite_results := dset k x (suite_results (m_db m))\<rparr>)" for x
    using update_row_Ok [OF assms(3)] by (simp add: save_suite_result_def)
  obtain m3 where m3: "finished_suite k (?m2\<lparr>m_db := m_db m\<rparr>) = (Ok (), m3)"
    "k \<notin> set (dkeys (test_suite_result_map m3))"
    "m_db m3 = (m_db m)\<lparr>suite_results := dset k (r\<lparr>sr_pending := False\<rparr>) (suite_results (m_db m))\<rparr>"
    using assms(3) by (auto simp: finished_suite_def row_def row Let_def stop_suite_def)
  then have "dget (suite_results (m_db m3)) k = Some (r\<lparr>sr_pending := False\<rparr>)" by simp
  from update_row_Ok [OF this] have "save_suite_result k x (m_db m3)
      = (Ok (), (m_db m3)\<lparr>suite_results := dset k x (suite_results (m_db m3))\<rparr>)" for x
    by (simp add: save_suite_result_def)
  with assms(1,2) m3 show ?thesis by (simp add: call_suite_def Let_def)
qed

definition failing :: "('f, 'a) dstate \<Rightarrow> unit outcome \<times> ('f, 'a) dstate" where
  "failing s = (Raise AssertionError, s)"

theorem failed_suite_stays_pending_witness:
  "\<exists>m'. call_suite failing 7 ((new_cm sample_db :: (unit, unit) cm)\<lparr>test_suite_result_map :=
      [(7, \<lparr>di_class = Serial_Dispatcher, di_key = 7, di_inst = the (dget (suite_results sample_db) 7),
            di_rep = \<lparr>re_class = Status_Reporter, re_params = [], re_state = Fresh\<rparr>, di_to_check = []\<rparr>)]\<rparr>) = (Ok (), m')
    \<and> map_option sr_pending (dget (suite_results (m_db m')) 7) = Some True \<and> test_suite_result_map m' = []"
proof -
  let ?di = "\<lparr>di_class = Serial_Dispatcher, di_key = 7, di_inst = the (dget (suite_results sample_db) 7),
            di_rep = \<lparr>re_class = Status_Reporter, re_params = [], re_state = Fresh :: unit rep_state\<rparr>, di_to_check = []\<rparr>"
  let ?m = "(new_cm sample_db :: (unit, unit) cm)\<lparr>test_suite_result_map := [(7, ?di)]\<rparr>"
  have "dget (test_suite_result_map ?m) 7 = Some ?di" "failing (?di, ?m) = (Raise AssertionError, ?di, ?m)"
    "dget (suite_results (m_db ?m)) 7 = Some (the (dget (suite_results sample_db) 7))"
    by (simp_all add: new_cm_def sample_db_def failing_def)
  from failed_suite_stays_pending [where f = failing, OF this] obtain m' where m': "call_suite failing 7 ?m = (Ok (), m')"
    "dget (suite_results (m_db m')) 7 = Some ((di_inst ?di)\<lparr>sr_status := ''INT'', sr_report := ''Internal error''\<rparr>)" by blast
  have "test_suite_result_map (snd (call_suite failing 7 ?m)) = []" by code_simp
  with m' show ?thesis by (simp add: sample_db_def)
qed

lemma accumulate_status:
  assumes "re_state (di_rep di) = Status_State old" and "result_get_str k ''status'' None (m_db m) = Ok v"
  shows "accumulate F k r (di, m) = (Ok (), di\<lparr>di_rep := (di_rep di)\<lparr>re_state := Status_State (add_status old v)\<rparr>\<rparr>, m)"
  using assms by (cases m) (simp add: accumulate_def with_reporter_def reporter_accumulate_def status_accumulate_def set_state_def)

lemma finish_status_reporter:
  assumes "re_state (di_rep di) = Status_State st"
    and "dget (suite_results (m_db m)) (di_key di) = Some r0"
    and "dget (submits (m_db m)) (sr_submit (di_inst di)) = Some sub" and "oa_get (sb_overrides sub) ''status'' = None"
  shows "\<exists>di' m'. finish F be (di, m) = (Ok (), di', m') \<and> same_queue m m'
    \<and> di_key di \<notin> set (dkeys (test_suite_result_map m'))
    \<and> dget (suite_results (m_db m')) (di_key di) = Some ((di_inst di)\<lparr>sr_pending := False, sr_status := st,
        sr_report := ''Finished checking: '' @ st\<rparr>)"
proof -
  let ?x = "\<lparr>x_rep = di_rep di, x_key = di_key di, x_inst = di_inst di, x_db = m_db m\<rparr>"
  let ?y = "set_result st (''Finished checking: '' @ st) (put_str ''status'' st ?x)"
  have "final_status ?x st = Ok st" using assms(3,4) by (simp add: final_status_def row_def)
  then have d: "reporter_deinit F be ?x = save ?y" using assms(1) by (simp add: reporter_deinit_def deinit_defs finish_status_def)
  have "dget (suite_results (x_db ?y)) (x_key ?y) = Some r0"
    using assms(2) by (simp add: set_result_def put_str_def)
  from save_ok [OF this] have sv: "save ?y = (Ok (), ?y\<lparr>x_db := (x_db ?y)\<lparr>suite_results :=
      dset (x_key ?y) (x_inst ?y) (suite_results (x_db ?y))\<rparr>\<rparr>)" .
  let ?r = "(di_inst di)\<lparr>sr_status := st, sr_report := ''Finished checking: '' @ st\<rparr>"
  define m1 where "m1 = m\<lparr>m_db := (suite_set_str (di_key di) ''status'' st (m_db m))\<lparr>suite_results :=
      dset (di_key di) ?r (suite_results (m_db m))\<rparr>\<rparr>"
  have wr: "with_reporter (reporter_deinit F be) (di, m) = (Ok (), di\<lparr>di_inst := ?r\<rparr>, m1)"
    unfolding with_reporter_def Let_def prod.case d sv
    by (simp add: m1_def set_result_def put_str_def)
  have row1: "dget (suite_results (m_db m1)) (di_key di) = Some ?r" by (simp add: m1_def)
  obtain m2 where m2: "finished_suite (di_key di) m1 = (Ok (), m2)" "same_queue m1 m2"
    "di_key di \<notin> set (dkeys (test_suite_result_map m2))"
    "dget (suite_results (m_db m2)) (di_key di) = Some (?r\<lparr>sr_pending := False\<rparr>)"
    using row1 update_row_Ok [OF row1] finished_suite_same [of "di_key di" m1]
    by (auto simp: finished_suite_def row_def save_suite_result_def Let_def stop_suite_def same_queue_def)
  have "same_queue m m1" by (simp add: m1_def same_queue_def)
  with wr m2 show ?thesis
    by (intro exI [of _ "di\<lparr>di_inst := ?r\<rparr>"] exI [of _ m2]) (auto simp: finish_def intro: same_queue_trans)
qed

text \<open>
  (serial_one_at_a_time): a serial dispatcher with a status reporter that gets the result of the
  test it waits for either schedules exactly the next test of the suite, if the result is OK
  and there is one, or, if it is not OK, stops: the suite result is finished with that
  status, is no longer pending and no longer runs, and no further test is put into the queue.
\<close>

theorem serial_one_at_a_time:
  assumes "di_to_check di = t # ts" and "tr_test r = t" and "re_state (di_rep di) = Status_State ''OK''"
    and "result_get_str k ''status'' None (m_db m) = Ok v"
    and "dget (suite_results (m_db m)) (di_key di) = Some r0"
    and "dget (submits (m_db m)) (sr_submit (di_inst di)) = Some sub" and "oa_get (sb_overrides sub) ''status'' = None"
  shows "if v = Some ''OK''
    then (case ts of
            [] \<Rightarrow> True
          | t' # _ \<Rightarrow> \<exists>di'. serial_checked F be [(k, r)] (di, m)
              = (Ok (), di', schedule_test_result (Some (di_key di)) (sr_submit (di_inst di)) t' m) \<and> di_to_check di' = ts)
    else \<exists>di' m'. serial_checked F be [(k, r)] (di, m) = (Ok (), di', m') \<and> same_queue m m'
      \<and> di_key di \<notin> set (dkeys (test_suite_result_map m'))
      \<and> dget (suite_results (m_db m')) (di_key di) = Some ((di_inst di)\<lparr>sr_pending := False,
          sr_status := verdict [v], sr_report := ''Finished checking: '' @ verdict [v]\<rparr>)"
proof -
  let ?d = "di\<lparr>di_to_check := ts\<rparr>"
  let ?d1 = "?d\<lparr>di_rep := (di_rep di)\<lparr>re_state := Status_State (add_status ''OK'' v)\<rparr>\<rparr>"
  have acc: "accumulate F k r (set_to_check ts (di, m)) = (Ok (), ?d1, m)"
    using accumulate_status [of ?d "''OK''" k m v F r] assms(3,4) by (simp add: set_to_check_def)
  have st: "status (?d1, m) = Ok (add_status ''OK'' v = ''OK'')"
    by (simp add: status_def reporter_status_def)
  have ver: "add_status ''OK'' v = verdict [v]"
    by (auto simp: add_status_def verdict_def Let_def split: option.split)
  have sub: "sr_submit (di_inst di) \<in> set (dkeys (submits (m_db m)))"
    using assms(6) by (metis dget_None_iff option.distinct(1))
  show ?thesis
  proof (cases "v = Some ''OK''")
    case True
    then have "serial_checked F be [(k, r)] (di, m) = send_test F be (?d1, m)"
      using assms(1,2) acc st ver by (simp add: verdict_def)
    with True sub show ?thesis by (auto simp: send_test_def split: list.split)
  next
    case False
    then have "verdict [v] \<noteq> ''OK''" by (simp add: verdict_OK)
    then have e: "serial_checked F be [(k, r)] (di, m) = finish F be (?d1, m)"
      using assms(1,2) acc st ver by simp
    have "re_state (di_rep ?d1) = Status_State (verdict [v])" using ver by simp
    from finish_status_reporter [OF this, of m r0 sub F be] assms(5,6,7) e False show ?thesis by simp
  qed
qed

theorem serial_one_at_a_time_witness:
  "\<exists>di' m'. serial_checked no_floats (\<lambda>h. True) [(4, the (dget (test_results sample_db) 4))]
      (\<lparr>di_class = Serial_Dispatcher, di_key = 7, di_inst = the (dget (suite_results sample_db) 7),
        di_rep = \<lparr>re_class = Status_Reporter, re_params = [], re_state = Status_State ''OK''\<rparr>, di_to_check = [11]\<rparr>,
       new_cm sample_db :: (unit, unit) cm) = (Ok (), di', m')
    \<and> map_option sr_status (dget (suite_results (m_db m')) 7) = Some ''ANS''"
proof -
  let ?di = "\<lparr>di_class = Serial_Dispatcher, di_key = 7, di_inst = the (dget (suite_results sample_db) 7),
        di_rep = \<lparr>re_class = Status_Reporter, re_params = [], re_state = Status_State ''OK'' :: unit rep_state\<rparr>, di_to_check = [11]\<rparr>"
  let ?m = "new_cm sample_db :: (unit, unit) cm"
  have s: "result_get_str 4 ''status'' None (m_db ?m) = Ok (Some ''ANS'')" by code_simp
  have o: "di_to_check ?di = 11 # []" "tr_test (the (dget (test_results sample_db) 4)) = 11"
    "re_state (di_rep ?di) = Status_State ''OK''"
    "dget (suite_results (m_db ?m)) (di_key ?di) = Some (the (dget (suite_results sample_db) 7))"
    "dget (submits (m_db ?m)) (sr_submit (di_inst ?di)) = Some (the (dget (submits sample_db) 1))"
    "oa_get (sb_overrides (the (dget (submits sample_db) 1))) ''status'' = None"
    by (simp_all add: new_cm_def sample_db_def oa_get_def)
  from serial_one_at_a_time [OF o(1,2,3) s o(4,5,6), of no_floats "\<lambda>h. True"] show ?thesis
    by (auto simp: verdict_def simp del: serial_checked.simps)
qed

end
