(* ===== verification/Aggregators_Base.thy ===== *)
theory Aggregators_Base
  imports Check_Master
begin

section \<open>satori.core.checking.aggregators: the base class\<close>

text \<open>
  \<open>AggregatorBase\<close>: an aggregator keeps, for every contestant of the contest of its ranking, a
  score object of its class, and writes the ranking entries.
  \<^item> \<open>agg\<close>: the attributes of an aggregator; \<open>score\<close>: the attributes the base class sets on a
    score object, around the class's own part \<open>'s\<close>. \<open>ag_extra\<close> holds what a class adds.
  \<^item> \<open>methods\<close>: what a class overrides: its parameters (declared in its docstring), \<open>init\<close>,
    \<open>position\<close>, \<open>get_score\<close>, and \<open>initialize\<close>, \<open>aggregate\<close>, \<open>update\<close> of its score.
  \<^item> \<open>xval\<close>: the values of float, time and datetime parameters; times are microseconds.
\<close>

datatype 'f xval = XFloat 'f | XTime int | XDate int

type_synonym 'f agg_params = "(string, 'f xval pval option) dict"

record 's score =
  sc_contestant :: contestant
  sc_hidden :: bool
  sc_entry :: "key \<times> ranking_entry"
  sc_body :: 's

record ('f, 's, 'e) agg =
  ag_key :: key
  ag_ranking :: ranking
  ag_suites :: "(key, key option) dict"
  ag_problems :: "(key, problem_mapping) dict"
  ag_submits :: "(key, submit) dict"
  ag_scores :: "(key, 's score) dict"
  ag_params :: "'f agg_params"
  ag_problem_params :: "(key, 'f agg_params) dict"
  ag_extra :: 'e

record ('f, 's, 'e) methods =
  vm_general :: "'f xval oa_param list"
  vm_problem :: "'f xval oa_param list"
  vm_init :: "('f, 's, 'e) agg \<Rightarrow> db \<Rightarrow> unit outcome \<times> ('f, 's, 'e) agg \<times> db"
  vm_position :: string
  vm_get_score :: "('f, 's, 'e) agg \<Rightarrow> 's"
  vm_initialize :: "('f, 's, 'e) agg \<Rightarrow> 's score \<Rightarrow> 's score outcome"
  vm_aggregate :: "('f, 's, 'e) agg \<Rightarrow> key \<Rightarrow> suite_result \<Rightarrow> db \<Rightarrow> 's \<Rightarrow> unit outcome \<times> 's"
  vm_update :: "('f, 's, 'e) agg \<Rightarrow> 's score \<Rightarrow> db \<Rightarrow> unit outcome \<times> 's score \<times> db"

definition maxint :: int where
  "maxint = 2 * 10 ^ 9"

definition new_agg :: "'e \<Rightarrow> key \<Rightarrow> ranking \<Rightarrow> ('f, 's, 'e) agg" where
  "new_agg e k r = \<lparr>ag_key = k, ag_ranking = r, ag_suites = [], ag_problems = [], ag_submits = [],
     ag_scores = [], ag_params = [], ag_problem_params = [], ag_extra = e\<rparr>"

definition plain_map :: "oa_group \<Rightarrow> oa_map" where
  "plain_map g = map (\<lambda>(k, a). (k, (s_is_blob a, s_value a))) (oa_get_map g)"

text \<open>\<open>AggregatorBase.init\<close>.\<close>

fun read_ranking_params :: "'f xval ext \<Rightarrow> 'f xval oa_param list \<Rightarrow> ranking_params list
    \<Rightarrow> ('f, 's, 'e) agg \<Rightarrow> ('f, 's, 'e) agg outcome" where
  "read_ranking_params X ps [] a = Ok a"
| "read_ranking_params X ps (rp # rps) a =
     bind_ok (parse_params X (Some ps) (plain_map (rp_params rp))) (\<lambda>p.
       let a1 = a\<lparr>ag_problem_params := dset (rp_problem rp) p (ag_problem_params a)\<rparr>;
           a2 = (case rp_suite rp of None \<Rightarrow> a1
                 | Some s \<Rightarrow> a1\<lparr>ag_suites := dset (rp_problem rp) (Some s) (ag_suites a1)\<rparr>) in
       read_ranking_params X ps rps a2)"

fun read_problems :: "'f xval ext \<Rightarrow> 'f xval oa_param list \<Rightarrow> (key \<times> problem_mapping) list
    \<Rightarrow> ('f, 's, 'e) agg \<Rightarrow> ('f, 's, 'e) agg outcome" where
  "read_problems X ps [] a = Ok a"
| "read_problems X ps ((k, p) # pms) a =
     (let a1 = a\<lparr>ag_problems := dset k p (ag_problems a)\<rparr>;
          a2 = (if k \<in> set (dkeys (ag_suites a1)) then a1
                else a1\<lparr>ag_suites := dset k (pm_default_suite p) (ag_suites a1)\<rparr>) in
      if k \<in> set (dkeys (ag_problem_params a2)) then read_problems X ps pms a2
      else bind_ok (parse_params X (Some ps) []) (\<lambda>q.
        read_problems X ps pms (a2\<lparr>ag_problem_params := dset k q (ag_problem_params a2)\<rparr>)))"

definition agg_init :: "'f xval ext \<Rightarrow> 'f xval oa_param list \<Rightarrow> 'f xval oa_param list \<Rightarrow> db
    \<Rightarrow> ('f, 's, 'e) agg \<Rightarrow> ('f, 's, 'e) agg outcome" where
  "agg_init X general problem d a =
     bind_ok (parse_params X (Some general) (plain_map (rk_params (ag_ranking a)))) (\<lambda>p.
     bind_ok (read_ranking_params X problem
         (map snd (filter (\<lambda>(i, rp). rp_ranking rp = ag_key a) (ranking_params_table d))) (a\<lparr>ag_params := p\<rparr>)) (\<lambda>a1.
     read_problems X problem (filter (\<lambda>(k, p). pm_contest p = rk_contest (ag_ranking a)) (problems d)) a1))"

text \<open>Reading a parameter that may be missing: \<open>getattr(self.params, n, False)\<close>, or as a flag.\<close>

definition flag :: "'f xval ext \<Rightarrow> 'f agg_params \<Rightarrow> string \<Rightarrow> bool" where
  "flag X ps n = (case dget ps n of Some (Some v) \<Rightarrow> py_true X v | _ \<Rightarrow> False)"

definition date_of :: "'f agg_params \<Rightarrow> string \<Rightarrow> int option" where
  "date_of ps n = (case dget ps n of Some (Some (PExt (XDate t))) \<Rightarrow> Some t | _ \<Rightarrow> None)"

definition time_of :: "'f agg_params \<Rightarrow> string \<Rightarrow> int" where
  "time_of ps n = (case dget ps n of Some (Some (PExt (XTime t))) \<Rightarrow> t | _ \<Rightarrow> 0)"

definition int_of :: "'f agg_params \<Rightarrow> string \<Rightarrow> int" where
  "int_of ps n = (case dget ps n of Some (Some v) \<Rightarrow> as_int v | _ \<Rightarrow> 0)"

definition text_of :: "'f agg_params \<Rightarrow> string \<Rightarrow> string" where
  "text_of ps n = (case dget ps n of Some (Some (PText s)) \<Rightarrow> s | _ \<Rightarrow> [])"

text \<open>\<open>changed_contestants\<close>: the entry of a contestant is taken from the cache or created.\<close>

definition entry_of :: "key \<Rightarrow> string \<Rightarrow> key \<Rightarrow> (key, key \<times> ranking_entry) dict \<Rightarrow> db
    \<Rightarrow> (key \<times> ranking_entry) \<times> (key, key \<times> ranking_entry) dict \<times> db" where
  "entry_of rk pos c cache d =
     (case dget cache c of
        Some e \<Rightarrow> (e, ddel c cache, d)
      | None \<Rightarrow>
          (case filter (\<lambda>(k, e). en_ranking e = rk \<and> en_contestant e = c) (entries d) of
             ke # _ \<Rightarrow> (ke, cache, d)
           | [] \<Rightarrow> (let k = fresh_key (entries d);
                       e = \<lparr>en_ranking = rk, en_contestant = c, en_row = [], en_individual = [], en_position = pos\<rparr> in
                   ((k, e), cache, d\<lparr>entries := dset k e (entries d)\<rparr>))))"

definition show_contestant :: "('f, 's, 'e) methods \<Rightarrow> 'f xval ext \<Rightarrow> key \<Rightarrow> contestant
    \<Rightarrow> ('f, 's, 'e) agg \<times> (key, key \<times> ranking_entry) dict \<times> db
    \<Rightarrow> unit outcome \<times> ('f, 's, 'e) agg \<times> (key, key \<times> ranking_entry) dict \<times> db" where
  "show_contestant M X c ct st =
     (let (a, cache, d) = st;
          body = (case dget (ag_scores a) c of Some s \<Rightarrow> sc_body s | None \<Rightarrow> vm_get_score M a);
          hidden = (cn_invisible ct \<and> \<not> flag X (ag_params a) ''show_invisible'');
          (e, cache1, d1) = entry_of (ag_key a) (vm_position M) c cache d;
          s = \<lparr>sc_contestant = ct, sc_hidden = hidden, sc_entry = e, sc_body = body\<rparr> in
      case vm_initialize M a s of
        Raise x \<Rightarrow> (Raise x, a\<lparr>ag_scores := dset c s (ag_scores a)\<rparr>, cache1, d1)
      | Ok s1 \<Rightarrow>
          (case vm_update M a s1 d1 of
             (r, s2, d2) \<Rightarrow> (r, a\<lparr>ag_scores := dset c s2 (ag_scores a)\<rparr>, cache1, d2)))"

definition agg_changed_contestants :: "('f, 's, 'e) methods \<Rightarrow> 'f xval ext \<Rightarrow> ('f, 's, 'e) agg \<Rightarrow> db
    \<Rightarrow> unit outcome \<times> ('f, 's, 'e) agg \<times> db" where
  "agg_changed_contestants M X a d =
     (let cache = fold (\<lambda>(k, e). dset (en_contestant e) (k, e)) (filter (\<lambda>(k, e). en_ranking e = ag_key a) (entries d)) [];
          cs = filter (\<lambda>(c, ct). cn_contest ct = rk_contest (ag_ranking a) \<and> cn_accepted ct) (contestants d) in
      case for_each (\<lambda>(c, ct). show_contestant M X c ct) cs (a, cache, d) of
        (Raise x, a1, cache1, d1) \<Rightarrow> (Raise x, a1, d1)
      | (Ok _, a1, cache1, d1) \<Rightarrow>
          (Ok (), a1\<lparr>ag_scores := filter (\<lambda>(c, s). c \<notin> set (dkeys (ag_scores a)) \<or> c \<in> fst ` set cs) (ag_scores a1)\<rparr>,
           d1\<lparr>entries := filter (\<lambda>(k, e). k \<notin> fst ` snd ` set cache1) (entries d1)\<rparr>))"

text \<open>\<open>created_submits\<close>: the requests it makes before it ends or raises.\<close>

fun agg_created_submits :: "key list \<Rightarrow> ('f, 's, 'e) agg \<Rightarrow> db
    \<Rightarrow> unit outcome \<times> ('f, 's, 'e) agg \<times> (key \<times> key option) list" where
  "agg_created_submits [] a d = (Ok (), a, [])"
| "agg_created_submits (s # ss) a d =
     (case dget (submits d) s of
        None \<Rightarrow> (Raise DoesNotExist, a, [])
      | Some sub \<Rightarrow>
          (let a1 = a\<lparr>ag_submits := dset s sub (ag_submits a)\<rparr> in
           case dget (ag_suites a1) (sb_problem sub) of
             None \<Rightarrow> (Raise KeyError, a1, [])
           | Some ts \<Rightarrow> (case agg_created_submits ss a1 d of (r, a2, reqs) \<Rightarrow> (r, a2, (s, ts) # reqs))))"

fun aggregate_results :: "('f, 's, 'e) methods \<Rightarrow> (key \<times> suite_result) list \<Rightarrow> db \<Rightarrow> key list
    \<Rightarrow> ('f, 's, 'e) agg \<Rightarrow> key list outcome \<times> ('f, 's, 'e) agg" where
  "aggregate_results M [] d changed a = (Ok changed, a)"
| "aggregate_results M ((k, r) # rs) d changed a =
     (case dget (ag_submits a) (sr_submit r) of
        None \<Rightarrow> (Raise KeyError, a)
      | Some s \<Rightarrow>
          (case dget (ag_scores a) (sb_contestant s) of
             None \<Rightarrow> aggregate_results M rs d changed a
           | Some sc \<Rightarrow>
               (case vm_aggregate M a k r d (sc_body sc) of
                  (r, b) \<Rightarrow>
                    (let a1 = a\<lparr>ag_scores := dset (sb_contestant s) (sc\<lparr>sc_body := b\<rparr>) (ag_scores a)\<rparr> in
                     case r of
                       Raise x \<Rightarrow> (Raise x, a1)
                     | Ok _ \<Rightarrow> aggregate_results M rs d (sadd (sb_contestant s) changed) a1))))"

definition update_score :: "('f, 's, 'e) methods \<Rightarrow> key \<Rightarrow> ('f, 's, 'e) agg \<times> db \<Rightarrow> unit outcome \<times> ('f, 's, 'e) agg \<times> db" where
  "update_score M c st =
     (let (a, d) = st in
      case dget (ag_scores a) c of
        None \<Rightarrow> (Raise KeyError, a, d)
      | Some s \<Rightarrow> (case vm_update M a s d of (r, s1, d1) \<Rightarrow> (r, a\<lparr>ag_scores := dset c s1 (ag_scores a)\<rparr>, d1)))"

definition agg_checked_suites :: "('f, 's, 'e) methods \<Rightarrow> (key \<times> suite_result) list \<Rightarrow> ('f, 's, 'e) agg \<Rightarrow> db
    \<Rightarrow> unit outcome \<times> ('f, 's, 'e) agg \<times> db" where
  "agg_checked_suites M rs a d =
     (case aggregate_results M rs d [] a of
        (Raise x, a1) \<Rightarrow> (Raise x, a1, d)
      | (Ok changed, a1) \<Rightarrow> for_each (update_score M) changed (a1, d))"

text \<open>The class of an aggregator as the checking master sees it.\<close>

definition agg_class_of :: "('f, 's, 'e) methods \<Rightarrow> 'f xval ext \<Rightarrow> 'e \<Rightarrow> ('f, 's, 'e) agg agg_class" where
  "agg_class_of M X e = \<lparr>ag_new = new_agg e,
     ag_call = (\<lambda>call a d.
       case call of
         Agg_Init \<Rightarrow>
           (case agg_init X (vm_general M) (vm_problem M) d a of
              Raise x \<Rightarrow> (Raise x, a, d, [])
            | Ok a1 \<Rightarrow> (case vm_init M a1 d of (r, a2, d2) \<Rightarrow> (r, a2, d2, [])))
       | Agg_Changed_Contestants \<Rightarrow> (case agg_changed_contestants M X a d of (r, a1, d1) \<Rightarrow> (r, a1, d1, []))
       | Agg_Created_Submits ss \<Rightarrow> (case agg_created_submits ss a d of (r, a1, reqs) \<Rightarrow> (r, a1, d, reqs))
       | Agg_Checked rs \<Rightarrow> (case agg_checked_suites M rs a d of (r, a1, d1) \<Rightarrow> (r, a1, d1, [])))\<rparr>"

end
