(* ===== verification/Agg_Acm.thy ===== *)
theory Agg_Acm
  imports Aggregators_Base "HOL-Library.Multiset" "HOL-Library.Product_Lexorder" "HOL-Library.List_Lexorder" "HOL-Library.Char_ord"
begin

section \<open>ACMAggregator: problems solved, time and penalties\<close>

text \<open>
  \<^item> \<open>acm_problem\<close>: \<open>ACMProblemScore\<close>; its \<open>result_list\<close> is kept sorted by (time, ok, submit),
    with the order of Python's tuples. Times are microseconds.
  \<^item> \<open>acm_update\<close>: the row and the position of a contestant. Summing the float scores of the
    solved problems and truncating (\<open>int(sum([...], 0.0))\<close>) is the parameter \<open>points\<close>.
  \<^item> \<open>acm_position\<close>: the string rankings are sorted by.
\<close>

type_synonym result = "int \<times> bool \<times> key"

record acm_problem =
  ap_ok :: bool
  ap_star_count :: int
  ap_ok_time :: int
  ap_ok_submit :: "key option"
  ap_results :: "result list"

definition new_acm_problem :: acm_problem where
  "new_acm_problem = \<lparr>ap_ok = False, ap_star_count = 0, ap_ok_time = 0, ap_ok_submit = None, ap_results = []\<rparr>"

text \<open>The loop over \<open>result_list\<close>; \<open>stars\<close> counts the results before the first accepted one.\<close>

fun first_ok :: "int option \<Rightarrow> result list \<Rightarrow> int \<Rightarrow> acm_problem \<Rightarrow> acm_problem" where
  "first_ok start [] stars p = p\<lparr>ap_star_count := stars\<rparr>"
| "first_ok start ((time, ok, submit) # rs) stars p =
     (if ok
      then p\<lparr>ap_star_count := stars,
             ap_ok_time := (case start of Some t \<Rightarrow> if time > t then time - t else 0 | None \<Rightarrow> 0),
             ap_ok_submit := Some submit\<rparr>
      else first_ok start rs (stars + 1) p)"

definition is_accepted :: "string option \<Rightarrow> bool" where
  "is_accepted s \<longleftrightarrow> s = Some ''OK'' \<or> s = Some ''ACC''"

text \<open>\<open>ACMProblemScore.aggregate\<close> on the time, the status and the submit of a result.\<close>

definition acm_aggregate :: "bool \<Rightarrow> int option \<Rightarrow> int option \<Rightarrow> result \<Rightarrow> acm_problem \<Rightarrow> acm_problem" where
  "acm_aggregate ignore start stop r p =
     (if ignore then p
      else if (case stop of Some t \<Rightarrow> fst r > t | None \<Rightarrow> False) then p
      else let p1 = (if fst (snd r) then p\<lparr>ap_ok := True\<rparr> else p);
               p2 = p1\<lparr>ap_results := insort r (ap_results p1)\<rparr> in
           if ap_ok p2 then first_ok start (ap_results p2) 0 p2 else p2)"

definition acm_problem_str :: "string \<Rightarrow> int \<Rightarrow> acm_problem \<Rightarrow> string" where
  "acm_problem_str pcode max_stars p =
     (if ap_star_count p > 0
      then if ap_star_count p \<le> max_stars then pcode @ replicate (nat (ap_star_count p)) CHR ''*''
           else pcode @ backslash # '' :sup:`('' @ str_int (ap_star_count p) @ '')`'' @ [backslash]
      else pcode)"

definition acm_position :: "int \<Rightarrow> int \<Rightarrow> string \<Rightarrow> string" where
  "acm_position score time name = take 50 (fmt_0d 9 (maxint - score) @ fmt_0d 9 time @ name)"

text \<open>\<open>int(total_seconds(t))\<close>, truncating, and \<open>str(timedelta(seconds=n))\<close>.\<close>

definition int_seconds :: "int \<Rightarrow> int" where
  "int_seconds t = (if t \<ge> 0 then t div 10 ^ 6 else - ((- t) div 10 ^ 6))"

definition str_timedelta :: "int \<Rightarrow> string" where
  "str_timedelta n =
     (let days = n div 86400; s = n mod 86400;
          hms = str_int (s div 3600) @ '':'' @ fmt_0d 2 (s mod 3600 div 60) @ '':'' @ fmt_0d 2 (s mod 60) in
      if days = 0 then hms
      else str_int days @ (if days = 1 \<or> days = - 1 then '' day, '' else '' days, '') @ hms)"

type_synonym acm_score = "(key, acm_problem) dict"

type_synonym 'f acm_agg = "('f, acm_score, rest_table option) agg"

definition problem_params_of :: "('f, 's, 'e) agg \<Rightarrow> key \<Rightarrow> 'f agg_params" where
  "problem_params_of a p = dget_def_val (ag_problem_params a) p []"

definition hide_entry :: "string \<Rightarrow> 's score \<Rightarrow> 's score" where
  "hide_entry pos s = s\<lparr>sc_entry := (fst (sc_entry s), (snd (sc_entry s))\<lparr>en_row := [], en_individual := [], en_position := pos\<rparr>)\<rparr>"

definition show_entry :: "string \<Rightarrow> string \<Rightarrow> 's score \<Rightarrow> 's score" where
  "show_entry text pos s = s\<lparr>sc_entry := (fst (sc_entry s), (snd (sc_entry s))\<lparr>en_row := text, en_individual := [], en_position := pos\<rparr>)\<rparr>"

definition save_score :: "'s score \<Rightarrow> db \<Rightarrow> unit outcome \<times> 's score \<times> db" where
  "save_score s d = (case save_entry (fst (sc_entry s)) (snd (sc_entry s)) d of (r, d1) \<Rightarrow> (r, s, d1))"

definition acm_time :: "int \<Rightarrow> acm_problem list \<Rightarrow> int" where
  "acm_time penalty ps = sum_list (map (\<lambda>p. ap_ok_time p + penalty * ap_star_count p) ps)"

definition acm_update :: "('f agg_params list \<Rightarrow> int) \<Rightarrow> 'f xval ext \<Rightarrow> 'f acm_agg \<Rightarrow> acm_score score \<Rightarrow> db
    \<Rightarrow> unit outcome \<times> acm_score score \<times> db" where
  "acm_update points X a s d =
     (let solved = filter (\<lambda>(k, p). ap_ok p) (sc_body s) in
      if sc_hidden s \<or> (solved = [] \<and> \<not> flag X (ag_params a) ''show_zero'')
      then save_score (hide_entry (acm_position 0 maxint []) s) d
      else
        let score = points (map (\<lambda>(k, p). problem_params_of a k) solved);
            seconds = int_seconds (acm_time (time_of (ag_params a) ''time_penalty'') (map snd solved));
            stars = int_of (ag_params a) ''max_stars'';
            names = map (\<lambda>(k, p). acm_problem_str (case dget (ag_problems a) k of Some pm \<Rightarrow> pm_code pm | None \<Rightarrow> []) stars p)
              (sort_key (\<lambda>(k, p). ap_ok_time p) solved);
            name = cn_name (sc_contestant s) in
        case ag_extra a of
          None \<Rightarrow> (Raise (AttributeError ''table''), s, d)
        | Some table \<Rightarrow>
            (case table_row (col_width table) [[], escape name, str_int score, str_timedelta seconds, join '' '' names] of
               Raise e \<Rightarrow> (Raise e, s, d)
             | Ok text \<Rightarrow> save_score (show_entry (text @ row_separator table) (acm_position score seconds name) s) d))"

text \<open>\<open>ACMProblemScore.aggregate\<close>, which reads the status after the test of \<open>ignore\<close>.\<close>

definition acm_problem_aggregate :: "'f xval ext \<Rightarrow> 'f agg_params \<Rightarrow> int \<Rightarrow> key \<Rightarrow> oa_group \<Rightarrow> acm_problem
    \<Rightarrow> unit outcome \<times> acm_problem" where
  "acm_problem_aggregate X ps time submit g p =
     (if flag X ps ''ignore'' then (Ok (), p)
      else case raise_oa (oa_get_str g ''status'' None) of
        Raise e \<Rightarrow> (Raise e, p)
      | Ok st \<Rightarrow> (Ok (), acm_aggregate False (date_of ps ''time_start'') (date_of ps ''time_stop'') (time, is_accepted st, submit) p))"

definition acm_score_aggregate :: "'f xval ext \<Rightarrow> 'f acm_agg \<Rightarrow> key \<Rightarrow> suite_result \<Rightarrow> db \<Rightarrow> acm_score \<Rightarrow> unit outcome \<times> acm_score" where
  "acm_score_aggregate X a k r d s =
     (case dget (ag_submits a) (sr_submit r) of
        None \<Rightarrow> (Raise KeyError, s)
      | Some sub \<Rightarrow>
          if sb_problem sub \<notin> set (dkeys s) \<and> sb_problem sub \<notin> set (dkeys (ag_problems a)) then (Raise KeyError, s)
          else
            (case acm_problem_aggregate X (problem_params_of a (sb_problem sub)) (sb_time sub) (sr_submit r)
                    (group_of (suite_oa d) k) (dget_def_val s (sb_problem sub) new_acm_problem) of
               (res, p) \<Rightarrow> (res, dset (sb_problem sub) p s)))"

text \<open>\<open>ACMAggregator.init\<close> after the one of the base class: inherited times, table and header.\<close>

definition inherit_param :: "string \<Rightarrow> 'f agg_params \<Rightarrow> 'f agg_params \<Rightarrow> 'f agg_params" where
  "inherit_param n general ps =
     (case dget ps n of Some (Some v) \<Rightarrow> ps | _ \<Rightarrow> dset n (dget_def_val general n None) ps)"

definition inherit_params :: "string list \<Rightarrow> ('f, 's, 'e) agg \<Rightarrow> ('f, 's, 'e) agg" where
  "inherit_params ns a =
     a\<lparr>ag_problem_params := map (\<lambda>(k, ps). (k, fold (\<lambda>n. inherit_param n (ag_params a)) ns ps)) (ag_problem_params a)\<rparr>"

definition set_header :: "string \<Rightarrow> string \<Rightarrow> ('f, 's, 'e) agg \<Rightarrow> db \<Rightarrow> unit outcome \<times> ('f, 's, 'e) agg \<times> db" where
  "set_header header footer a d =
     (let r = (ag_ranking a)\<lparr>rk_header := header, rk_footer := footer\<rparr> in
      case save_ranking (ag_key a) r d of (x, d1) \<Rightarrow> (x, a\<lparr>ag_ranking := r\<rparr>, d1))"

definition table_header :: "rest_table \<Rightarrow> string" where
  "table_header t = row_separator t @ header_row t @ header_separator t"

definition acm_init :: "'f acm_agg \<Rightarrow> db \<Rightarrow> unit outcome \<times> 'f acm_agg \<times> db" where
  "acm_init a d =
     (let a1 = inherit_params [''time_start'', ''time_stop''] a in
      case rest_table [(4, ''Rank''), (32, ''Name''), (8, ''Score''), (16, ''Time''), (16, ''Tasks'')] of
        Raise e \<Rightarrow> (Raise e, a1, d)
      | Ok t \<Rightarrow> set_header (table_header t) (header_row t @ row_separator t) (a1\<lparr>ag_extra := Some t\<rparr>) d)"

definition opt_param :: "oa_type \<Rightarrow> string \<Rightarrow> string \<Rightarrow> 'x oa_param" where
  "opt_param t n desc = \<lparr>p_type = t, p_name = n, p_description = desc, p_required = False, p_default = None\<rparr>"

definition def_param :: "oa_type \<Rightarrow> string \<Rightarrow> string \<Rightarrow> 'x pval \<Rightarrow> 'x oa_param" where
  "def_param t n desc v = \<lparr>p_type = t, p_name = n, p_description = desc, p_required = False, p_default = Some v\<rparr>"

definition acm_general :: "'f xval oa_param list" where
  "acm_general =
    [def_param OaBoolean ''show_invisible'' ''Show invisible submits'' (PBool False),
     def_param OaBoolean ''show_zero'' ''Show contestants with zero score'' (PBool False),
     opt_param (OaExt ''datetime'') ''time_start'' ''Submission start time'',
     opt_param (OaExt ''datetime'') ''time_stop'' ''Submission stop time (freeze)'',
     def_param (OaExt ''time'') ''time_penalty'' ''Penalty for wrong submit'' (PExt (XTime 1200000000)),
     def_param OaInteger ''max_stars'' ''Maximal number of stars'' (PInt 4)]"

definition acm_problem_params :: "'f \<Rightarrow> 'f xval oa_param list" where
  "acm_problem_params one =
    [def_param OaBoolean ''ignore'' ''Ignore problem'' (PBool False),
     def_param (OaExt ''float'') ''score'' ''Score'' (PExt (XFloat one)),
     opt_param (OaExt ''datetime'') ''time_start'' ''Submission start time'',
     opt_param (OaExt ''datetime'') ''time_stop'' ''Submission stop time (freeze)'']"

definition acm_methods :: "'f \<Rightarrow> ('f agg_params list \<Rightarrow> int) \<Rightarrow> 'f xval ext \<Rightarrow> ('f, acm_score, rest_table option) methods" where
  "acm_methods one points X = \<lparr>vm_general = acm_general, vm_problem = acm_problem_params one, vm_init = acm_init,
     vm_position = acm_position 0 maxint [], vm_get_score = (\<lambda>a. []), vm_initialize = (\<lambda>a s. Ok s),
     vm_aggregate = acm_score_aggregate X, vm_update = acm_update points X\<rparr>"

subsection \<open>The score of a problem\<close>

definition counted :: "bool \<Rightarrow> int option \<Rightarrow> result \<Rightarrow> bool" where
  "counted ignore stop r \<longleftrightarrow> \<not> ignore \<and> (case stop of Some t \<Rightarrow> fst r \<le> t | None \<Rightarrow> True)"

definition accepted :: "result \<Rightarrow> bool" where
  "accepted r \<longleftrightarrow> fst (snd r)"

lemma accepted_pair [simp]: "accepted (t, b, s) = b"
  by (simp add: accepted_def)

text \<open>The score of a sorted list of results: what the loop computes.\<close>

definition score_of :: "int option \<Rightarrow> result list \<Rightarrow> acm_problem" where
  "score_of start rs =
     (let p = new_acm_problem\<lparr>ap_ok := list_ex accepted rs, ap_results := rs\<rparr> in
      if list_ex accepted rs then first_ok start rs 0 p else p)"

lemma first_ok_fields:
  "list_ex accepted rs \<Longrightarrow> first_ok start rs n (p\<lparr>ap_star_count := x, ap_ok_time := y, ap_ok_submit := z\<rparr>) = first_ok start rs n p"
  by (induction start rs n p rule: first_ok.induct) (auto simp: accepted_def)

lemma acm_aggregate_step:
  assumes "counted ignore stop r"
  shows "acm_aggregate ignore start stop r (score_of start rs) = score_of start (insort r rs)"
proof -
  have ex: "list_ex accepted (insort r rs) \<longleftrightarrow> accepted r \<or> list_ex accepted rs"
    by (auto simp: list_ex_iff set_insort_key)
  have res: "ap_results (score_of start rs) = rs" and ok: "ap_ok (score_of start rs) = list_ex accepted rs"
  proof -
    have "ap_results (first_ok start xs n p) = ap_results p \<and> ap_ok (first_ok start xs n p) = ap_ok p" for xs n p
      by (induction start xs n p rule: first_ok.induct) auto
    then show "ap_results (score_of start rs) = rs" "ap_ok (score_of start rs) = list_ex accepted rs"
      by (simp_all add: score_of_def Let_def)
  qed
  show ?thesis
  proof (cases "list_ex accepted (insort r rs)")
    case False
    then have "\<not> accepted r" "\<not> list_ex accepted rs" using ex by auto
    with assms False show ?thesis
      by (cases stop) (simp_all add: acm_aggregate_def counted_def score_of_def Let_def accepted_def)
  next
    case True
    define q where "q = score_of start rs"
    have q: "ap_ok q = list_ex accepted rs" "ap_results q = rs" using res ok by (simp_all add: q_def)
    let ?p = "new_acm_problem\<lparr>ap_ok := True, ap_results := insort r rs\<rparr>"
    have eq: "q\<lparr>ap_ok := True, ap_results := insort r rs\<rparr>
        = ?p\<lparr>ap_star_count := ap_star_count q, ap_ok_time := ap_ok_time q, ap_ok_submit := ap_ok_submit q\<rparr>"
      by (cases q) (simp add: new_acm_problem_def)
    have "acm_aggregate ignore start stop r q = first_ok start (insort r rs) 0 (q\<lparr>ap_ok := True, ap_results := insort r rs\<rparr>)"
    proof (cases "accepted r")
      case True
      with assms q show ?thesis
        by (cases stop) (simp_all add: acm_aggregate_def counted_def Let_def accepted_def)
    next
      case False
      then have "list_ex accepted rs" using ex True by simp
      then have "q\<lparr>ap_ok := True, ap_results := insort r rs\<rparr> = q\<lparr>ap_results := insort r rs\<rparr>"
        using q(1) by (cases q) simp
      moreover have "acm_aggregate ignore start stop r q = first_ok start (insort r rs) 0 (q\<lparr>ap_results := insort r rs\<rparr>)"
        using assms q False \<open>list_ex accepted rs\<close>
        by (cases stop) (simp_all add: acm_aggregate_def counted_def Let_def accepted_def)
      ultimately show ?thesis by simp
    qed
    also have "\<dots> = score_of start (insort r rs)"
      unfolding eq first_ok_fields [OF True] using True by (simp add: score_of_def Let_def)
    finally show ?thesis by (simp add: q_def)
  qed
qed

lemma acm_aggregate_all:
  "fold (acm_aggregate ignore start stop) rs (score_of start xs)
   = score_of start (fold insort (filter (counted ignore stop) rs) xs)"
proof (induction rs arbitrary: xs)
  case (Cons r rs)
  show ?case
  proof (cases "counted ignore stop r")
    case True
    then show ?thesis using Cons by (simp add: acm_aggregate_step)
  next
    case False
    then have "acm_aggregate ignore start stop r (score_of start xs) = score_of start xs"
      by (auto simp: acm_aggregate_def counted_def split: option.splits)
    with False Cons show ?thesis by simp
  qed
qed simp

lemma fold_insort: "fold insort rs [] = sort rs"
proof -
  have "sorted (fold insort rs xs) \<and> mset (fold insort rs xs) = mset rs + mset xs" if "sorted xs" for xs
    using that by (induction rs arbitrary: xs) (auto simp: sorted_insort)
  from this [of "[]"] show ?thesis by (intro properties_for_sort [symmetric]) auto
qed

lemma score_of_Nil: "score_of start [] = new_acm_problem"
  by (simp add: score_of_def new_acm_problem_def)

text \<open>
  (acm_score_order_independent): the score of a problem depends only on the multiset of its
  results, not on the order in which they are judged: it is computed from the counted results
  (before the stop time, problem not ignored) sorted by time.
\<close>

theorem acm_score_order_independent:
  "fold (acm_aggregate ignore start stop) rs new_acm_problem = score_of start (sort (filter (counted ignore stop) rs))"
  using acm_aggregate_all [of ignore start stop rs "[]"] by (simp add: score_of_Nil fold_insort)

lemma first_ok_split:
  "list_ex accepted rs \<Longrightarrow> \<exists>pre t s post. rs = pre @ (t, True, s) # post \<and> \<not> list_ex accepted pre
    \<and> first_ok start rs n p = p\<lparr>ap_star_count := n + int (length pre),
        ap_ok_time := (case start of Some u \<Rightarrow> max 0 (t - u) | None \<Rightarrow> 0), ap_ok_submit := Some s\<rparr>"
proof (induction start rs n p rule: first_ok.induct)
  case (2 start time ok submit rs stars p)
  show ?case
  proof (cases ok)
    case True
    then show ?thesis by (intro exI [of _ "[]"]) (auto split: option.splits)
  next
    case False
    with 2(2) have "list_ex accepted rs" by simp
    from 2(1) [OF False this] obtain pre t s post where
      "rs = pre @ (t, True, s) # post" "\<not> list_ex accepted pre"
      "first_ok start rs (stars + 1) p = p\<lparr>ap_star_count := stars + 1 + int (length pre),
        ap_ok_time := (case start of Some u \<Rightarrow> max 0 (t - u) | None \<Rightarrow> 0), ap_ok_submit := Some s\<rparr>" by blast
    with False show ?thesis
      by (intro exI [of _ "(time, ok, submit) # pre"] exI [of _ t] exI [of _ s] exI [of _ post]) simp
  qed
qed simp

text \<open>
  (acm_score_penalty): a problem counts as solved exactly if one of its results is accepted; then
  its penalty count is the number of results before the first accepted one in the order of
  time, its time is that of this result after the start, and the submit is the one of it.
\<close>

theorem acm_score_penalty:
  "let rs' = sort (filter (counted ignore stop) rs); p = fold (acm_aggregate ignore start stop) rs new_acm_problem in
   ap_ok p = list_ex accepted rs'
   \<and> (if ap_ok p
      then (\<exists>pre t s post. rs' = pre @ (t, True, s) # post \<and> \<not> list_ex accepted pre
        \<and> ap_star_count p = int (length pre)
        \<and> ap_ok_time p = (case start of Some u \<Rightarrow> max 0 (t - u) | None \<Rightarrow> 0) \<and> ap_ok_submit p = Some s)
      else ap_star_count p = 0 \<and> ap_ok_submit p = None)"
proof -
  let ?rs = "sort (filter (counted ignore stop) rs)"
  have e: "fold (acm_aggregate ignore start stop) rs new_acm_problem = score_of start ?rs"
    using acm_aggregate_all [of ignore start stop rs "[]"] by (simp add: score_of_Nil fold_insort)
  show ?thesis
  proof (cases "list_ex accepted ?rs")
    case True
    obtain pre t s post where p: "?rs = pre @ (t, True, s) # post" "\<not> list_ex accepted pre"
      "first_ok start ?rs 0 (new_acm_problem\<lparr>ap_ok := True, ap_results := ?rs\<rparr>)
        = (new_acm_problem\<lparr>ap_ok := True, ap_results := ?rs\<rparr>)\<lparr>ap_star_count := 0 + int (length pre),
        ap_ok_time := (case start of Some u \<Rightarrow> max 0 (t - u) | None \<Rightarrow> 0), ap_ok_submit := Some s\<rparr>"
      using first_ok_split [OF True] by metis
    have sc: "score_of start ?rs = first_ok start ?rs 0 (new_acm_problem\<lparr>ap_ok := True, ap_results := ?rs\<rparr>)"
      using True by (simp add: score_of_def Let_def)
    have "ap_ok (score_of start ?rs)" "ap_star_count (score_of start ?rs) = int (length pre)"
      "ap_ok_time (score_of start ?rs) = (case start of Some u \<Rightarrow> max 0 (t - u) | None \<Rightarrow> 0)"
      "ap_ok_submit (score_of start ?rs) = Some s"
      unfolding sc p(3) by simp_all
    with True p(1,2) show ?thesis unfolding e Let_def by (simp only: if_True) blast
  next
    case False
    then have "score_of start ?rs = new_acm_problem\<lparr>ap_ok := False, ap_results := ?rs\<rparr>"
      by (simp add: score_of_def Let_def)
    with False show ?thesis unfolding e Let_def by (simp add: new_acm_problem_def)
  qed
qed

subsection \<open>The order of the ranking\<close>

lemma str_nat_length: "0 < k \<Longrightarrow> 10 ^ (k - 1) \<le> n \<Longrightarrow> n < 10 ^ k \<Longrightarrow> length (str_nat n) = k"
proof (induction n arbitrary: k rule: str_nat.induct)
  case (1 n)
  show ?case
  proof (cases "n < 10")
    case True
    have "k = 1"
    proof (rule ccontr)
      assume "k \<noteq> 1"
      with 1(2) have "(10::nat) ^ 1 \<le> 10 ^ (k - 1)" by (intro power_increasing) auto
      with 1(3) True show False by simp
    qed
    with True show ?thesis by (simp add: str_nat.simps)
  next
    case False
    then have "k \<noteq> 1" using 1(4) by auto
    then obtain j where j: "k = Suc (Suc j)" using 1(2) by (cases k; cases "k - 1") auto
    have "length (str_nat (n div 10)) = Suc j"
      using 1(1) [OF False, of "Suc j"] 1(3,4) j by (simp add: less_mult_imp_div_less mult.commute)
    with False j show ?thesis by (subst str_nat.simps) simp
  qed
qed

lemma less_char_code: "c < d \<longleftrightarrow> code c < code d" for c d :: char
  by (simp add: less_char_def code_def)

lemma digits_val_Cons: "digits_val (c # s) = (code c - 48) * 10 ^ length s + digits_val s"
proof (induction s rule: rev_induct)
  case (snoc x xs)
  have "digits_val (c # xs @ [x]) = 10 * digits_val (c # xs) + (code x - 48)"
    using digits_val_snoc [of "c # xs" x] by simp
  also have "\<dots> = (code c - 48) * 10 ^ length (xs @ [x]) + digits_val (xs @ [x])"
    by (simp add: snoc digits_val_snoc algebra_simps)
  finally show ?case .
qed (simp add: digits_val_def)

lemma digits_val_bound: "list_all is_digit s \<Longrightarrow> digits_val s < 10 ^ length s"
proof (induction s)
  case (Cons c s)
  then have "code c - 48 \<le> 9" "digits_val s < 10 ^ length s" by (auto simp: is_digit_def)
  then have "(code c - 48) * 10 ^ length s + digits_val s < 9 * 10 ^ length s + 10 ^ length s"
    by (meson add_le_less_mono mult_le_mono1)
  then show ?case by (simp add: digits_val_Cons)
qed (simp add: digits_val_def)

lemma digits_less:
  "length s = length t \<Longrightarrow> list_all is_digit s \<Longrightarrow> list_all is_digit t \<Longrightarrow> digits_val s < digits_val t \<Longrightarrow> s < t"
proof (induction s t rule: list_induct2)
  case (Cons c s d t)
  have b: "digits_val s < 10 ^ length t" "digits_val t < 10 ^ length t"
    using Cons.prems Cons.hyps digits_val_bound by fastforce+
  have dig: "48 \<le> code c" "48 \<le> code d" using Cons.prems by (auto simp: is_digit_def)
  have v: "(code c - 48) * 10 ^ length t + digits_val s < (code d - 48) * 10 ^ length t + digits_val t"
    using Cons.prems(3) Cons.hyps by (simp add: digits_val_Cons)
  show ?case
  proof (cases "code c = code d")
    case True
    then have "c = d" by (simp add: code_def)
    with v Cons True show ?thesis by simp
  next
    case False
    have "\<not> code d < code c"
    proof
      assume "code d < code c"
      then have "code d - 48 + 1 \<le> code c - 48" using dig by simp
      then have "(code d - 48 + 1) * 10 ^ length t \<le> (code c - 48) * 10 ^ length t" by (rule mult_le_mono1)
      with v b show False by (simp add: algebra_simps)
    qed
    with False show ?thesis by (simp add: less_char_code)
  qed
qed simp

lemma append_less: "length s = length t \<Longrightarrow> s < t \<Longrightarrow> s @ x < t @ y" for s t :: string
  by (induction s t rule: list_induct2) auto

lemma str_nat_short: "n < 10 ^ k \<Longrightarrow> 0 < k \<Longrightarrow> length (str_nat n) \<le> k"
proof (induction n arbitrary: k rule: str_nat.induct)
  case (1 n)
  show ?case
  proof (cases "n < 10")
    case True
    with 1(3) show ?thesis by (simp add: str_nat.simps)
  next
    case False
    then have "k \<noteq> 1" using 1(2) by auto
    then obtain j where j: "k = Suc (Suc j)" using 1(3) by (cases k; cases "k - 1") auto
    have "length (str_nat (n div 10)) \<le> Suc j"
      using 1(1) [OF False, of "Suc j"] 1(2) j by (simp add: less_mult_imp_div_less mult.commute)
    with False j show ?thesis by (subst str_nat.simps) simp
  qed
qed

lemma digits_val_zfill: "digits_val (zfill w s) = digits_val s"
proof -
  have z: "code CHR ''0'' - 48 = 0" by (simp add: code_def)
  have "digits_val (replicate n CHR ''0'' @ s) = digits_val s" for n
    by (induction n) (simp_all add: digits_val_Cons z)
  then show ?thesis by (simp add: zfill_def)
qed

lemma zfill_digits: "list_all is_digit s \<Longrightarrow> list_all is_digit (zfill w s)"
  by (auto simp: zfill_def list_all_iff is_digit_def code_def)

lemma fmt_0d_facts:
  assumes "0 \<le> i"
  shows "list_all is_digit (fmt_0d w i)" and "digits_val (fmt_0d w i) = nat i"
    and "i < 10 ^ w \<Longrightarrow> 0 < w \<Longrightarrow> length (fmt_0d w i) = w"
    and "10 ^ w \<le> i \<Longrightarrow> i < 10 ^ Suc w \<Longrightarrow> length (fmt_0d w i) = Suc w"
proof -
  have f: "fmt_0d w i = zfill w (str_nat (nat i))" using assms by (simp add: fmt_0d_def)
  show "list_all is_digit (fmt_0d w i)" "digits_val (fmt_0d w i) = nat i"
    unfolding f using zfill_digits str_nat_digits by (simp_all add: digits_val_zfill)
  have p: "nat (10 ^ n) = 10 ^ n" for n by (simp add: nat_power_eq)
  show "length (fmt_0d w i) = w" if "i < 10 ^ w" "0 < w"
  proof -
    have "nat i < 10 ^ w" using that(1) assms p by (metis nat_less_eq_zless)
    then show ?thesis unfolding f length_zfill using str_nat_short [of "nat i" w] that(2) by simp
  qed
  show "length (fmt_0d w i) = Suc w" if "10 ^ w \<le> i" "i < 10 ^ Suc w"
  proof -
    have "nat i < 10 ^ Suc w" using that(2) assms p by (metis nat_less_eq_zless)
    moreover have "10 ^ w \<le> nat i" using that(1) p by (metis nat_mono)
    ultimately show ?thesis unfolding f length_zfill using str_nat_length [of "Suc w" "nat i"] by simp
  qed
qed

text \<open>
  (acm_position_order): for scores up to 10^9 and times below 10^9 seconds, the position
  strings order the contestants by more points first, then by less time: the padding is wide
  enough, and the cut to 50 characters only touches the name.
\<close>

theorem acm_position_order:
  assumes "0 \<le> s" "s \<le> 10 ^ 9" "0 \<le> s'" "s' \<le> 10 ^ 9" "0 \<le> t" "t < 10 ^ 9" "0 \<le> t'" "t' < 10 ^ 9"
    and "s > s' \<or> (s = s' \<and> t < t')"
  shows "acm_position s t n < acm_position s' t' n'"
proof -
  let ?a = "fmt_0d 9 (maxint - s)" and ?a' = "fmt_0d 9 (maxint - s')"
  let ?b = "fmt_0d 9 t" and ?b' = "fmt_0d 9 t'"
  have r: "(10::int) ^ 9 \<le> maxint - s" "maxint - s < 10 ^ Suc 9" "(10::int) ^ 9 \<le> maxint - s'" "maxint - s' < 10 ^ Suc 9"
    using assms(1-4) by (simp_all add: maxint_def)
  have pos: "0 \<le> maxint - s" "0 \<le> maxint - s'" using r(1,3) by simp_all
  have la: "length ?a = 10" "length ?a' = 10"
    using fmt_0d_facts(4) [OF pos(1) r(1,2)] fmt_0d_facts(4) [OF pos(2) r(3,4)] by simp_all
  have lb: "length ?b = 9" "length ?b' = 9"
    using fmt_0d_facts(3) [OF assms(5) assms(6)] fmt_0d_facts(3) [OF assms(7) assms(8)] by simp_all
  have cut: "take 50 (x @ y @ z) = (x @ y) @ take 31 z" if "length x = 10" "length y = 9" for x y z :: string
    using that by simp
  have "?a @ ?b < ?a' @ ?b'"
  proof (cases "s > s'")
    case True
    then have "nat (maxint - s) < nat (maxint - s')" using pos by simp
    then have "?a < ?a'"
      using digits_less [of ?a ?a'] la fmt_0d_facts(1,2) [OF pos(1)] fmt_0d_facts(1,2) [OF pos(2)] by simp
    then show ?thesis using append_less la by metis
  next
    case False
    with assms(9) have eq: "s = s'" and "t < t'" by auto
    then have "nat t < nat t'" using assms(5) by simp
    then have "?b < ?b'"
      using digits_less [of ?b ?b'] lb fmt_0d_facts(1,2) [OF assms(5)] fmt_0d_facts(1,2) [OF assms(7)] by simp
    moreover have "u < v \<Longrightarrow> w @ u < w @ v" for u v w :: string by (induction w) auto
    ultimately show ?thesis unfolding eq by blast
  qed
  then have "(?a @ ?b) @ take 31 n < (?a' @ ?b') @ take 31 n'"
    by (rule append_less [rotated]) (simp add: la lb)
  then show ?thesis unfolding acm_position_def using cut [OF la(1) lb(1)] cut [OF la(2) lb(2)] by simp
qed

theorem acm_position_order_witness: "acm_position 3 7200 ''Zofia'' < acm_position 2 600 ''Adam''"
  by (rule acm_position_order) simp_all

end
