(* ===== verification/Agg_Points.thy ===== *)
theory Agg_Points
  imports Agg_Acm
begin

section \<open>PointsAggregator and ACMProblemStats\<close>

text \<open>
  \<^item> \<open>points_problem\<close>: \<open>PointsProblemScore\<close>: the best or the latest number of points.
    \<open>datetime.min\<close> and a missing number of points are \<open>None\<close>, below everything.
  \<^item> \<open>stats\<close>: \<open>ACMProblemStats\<close>: how often each result occurred, per problem and in total.
\<close>

subsection \<open>PointsAggregator\<close>

record points_problem =
  pp_points :: "int option"
  pp_last_time :: "int option"

definition new_points_problem :: points_problem where
  "new_points_problem = \<lparr>pp_points = None, pp_last_time = None\<rparr>"

definition points_position :: "int \<Rightarrow> string \<Rightarrow> string" where
  "points_position score name = take 50 (fmt_0d 9 (maxint - score) @ name)"

definition above :: "int \<Rightarrow> int option \<Rightarrow> bool" where
  "above i x = (case x of None \<Rightarrow> True | Some j \<Rightarrow> i > j)"

definition points_keep :: "bool \<Rightarrow> int \<Rightarrow> int \<Rightarrow> points_problem \<Rightarrow> points_problem" where
  "points_keep maximal time points p =
     (if maximal then if above points (pp_points p) then p\<lparr>pp_points := Some points\<rparr> else p
      else if above time (pp_last_time p) then p\<lparr>pp_last_time := Some time, pp_points := Some points\<rparr> else p)"

definition int_attr :: "oa_group \<Rightarrow> string \<Rightarrow> string option \<Rightarrow> int outcome" where
  "int_attr g n def = bind_ok (raise_oa (oa_get_str g n def)) (\<lambda>v.
     case v of None \<Rightarrow> Raise TypeError
     | Some s \<Rightarrow> (case parse_int s of None \<Rightarrow> Raise ValueError | Some i \<Rightarrow> Ok i))"

definition points_of :: "bool \<Rightarrow> oa_group \<Rightarrow> int outcome" where
  "points_of auto_score g =
     bind_ok (int_attr g ''checked'' (Some ''0'')) (\<lambda>checked.
     bind_ok (int_attr g ''passed'' (Some ''0'')) (\<lambda>passed.
     if checked = 0 then Ok 0
     else if auto_score then Ok ((100 * passed) div checked)
     else int_attr g ''score'' None))"

record points_extra =
  px_problems :: "(key \<times> problem_mapping) list"
  px_table :: "rest_table option"

type_synonym points_score = "(key, points_problem) dict"

type_synonym 'f points_agg = "('f, points_score, points_extra) agg"

definition points_score_aggregate :: "'f xval ext \<Rightarrow> 'f points_agg \<Rightarrow> key \<Rightarrow> suite_result \<Rightarrow> db
    \<Rightarrow> points_score \<Rightarrow> unit outcome \<times> points_score" where
  "points_score_aggregate X a k r d s =
     (case dget (ag_submits a) (sr_submit r) of
        None \<Rightarrow> (Raise KeyError, s)
      | Some sub \<Rightarrow>
          (case dget s (sb_problem sub) of
             None \<Rightarrow> (Raise KeyError, s)
           | Some p \<Rightarrow>
               (case points_of (flag X (ag_params a) ''auto_score'') (group_of (suite_oa d) k) of
                  Raise e \<Rightarrow> (Raise e, s)
                | Ok points \<Rightarrow> (Ok (), dset (sb_problem sub)
                    (points_keep (flag X (ag_params a) ''maximal'') (sb_time sub) points p) s))))"

definition points_get_score :: "'f points_agg \<Rightarrow> points_score" where
  "points_get_score a = map (\<lambda>(k, p). (k, new_points_problem)) (ag_problems a)"

definition no_points :: string where
  "no_points = [backslash, CHR ''-'']"

definition points_sum :: "(key \<times> problem_mapping) list \<Rightarrow> points_score \<Rightarrow> int" where
  "points_sum ps s = sum_list (List.map_filter (\<lambda>(k, p). pp_points (dget_def_val s k new_points_problem)) ps)"

definition points_update :: "'f xval ext \<Rightarrow> 'f points_agg \<Rightarrow> points_score score \<Rightarrow> db
    \<Rightarrow> unit outcome \<times> points_score score \<times> db" where
  "points_update X a s d =
     (if (sc_hidden s \<and> \<not> flag X (ag_params a) ''show_invisible'')
         \<or> \<not> list_ex (\<lambda>(k, p). pp_points p \<noteq> None) (sc_body s)
      then save_score (hide_entry (points_position 0 []) s) d
      else
        let ps = px_problems (ag_extra a); points = points_sum ps (sc_body s); name = cn_name (sc_contestant s);
            cells = map (\<lambda>(k, p). case pp_points (dget_def_val (sc_body s) k new_points_problem) of
                Some i \<Rightarrow> str_int i | None \<Rightarrow> no_points) ps in
        case px_table (ag_extra a) of
          None \<Rightarrow> (Raise (AttributeError ''table''), s, d)
        | Some table \<Rightarrow>
            (case table_row (col_width table) ([[], escape name] @ cells @ [str_int points]) of
               Raise e \<Rightarrow> (Raise e, s, d)
             | Ok text \<Rightarrow> save_score (show_entry (text @ row_separator table) (points_position points name) s) d))"

definition by_code :: "(key, problem_mapping) dict \<Rightarrow> (key \<times> problem_mapping) list" where
  "by_code ps = sort_key (\<lambda>(k, p). pm_code p) ps"

definition points_init :: "'f xval ext \<Rightarrow> 'f points_agg \<Rightarrow> db \<Rightarrow> unit outcome \<times> 'f points_agg \<times> db" where
  "points_init X a d =
     (let ps = filter (\<lambda>(k, p). \<not> flag X (problem_params_of a k) ''ignore'') (by_code (ag_problems a));
          cols = [(5, ''Rank''), (20, ''Name'')] @ map (\<lambda>(k, p). (10, pm_code p)) ps @ [(10, ''Sum'')] in
      case rest_table cols of
        Raise e \<Rightarrow> (Raise e, a, d)
      | Ok t \<Rightarrow> set_header (table_header t) [] (a\<lparr>ag_extra := \<lparr>px_problems = ps, px_table = Some t\<rparr>\<rparr>) d)"

definition points_general :: "'f xval oa_param list" where
  "points_general =
    [def_param OaBoolean ''show_invisible'' ''Show invisible submits'' (PBool False),
     def_param OaBoolean ''auto_score'' ''Automatic score calculation'' (PBool True),
     def_param OaBoolean ''maximal'' ''Take best user result'' (PBool False)]"

definition ignore_param :: "'f xval oa_param list" where
  "ignore_param = [def_param OaBoolean ''ignore'' ''Ignore problem'' (PBool False)]"

definition points_methods :: "'f xval ext \<Rightarrow> ('f, points_score, points_extra) methods" where
  "points_methods X = \<lparr>vm_general = points_general, vm_problem = ignore_param, vm_init = points_init X,
     vm_position = points_position 0 [], vm_get_score = points_get_score, vm_initialize = (\<lambda>a s. Ok s),
     vm_aggregate = points_score_aggregate X, vm_update = points_update X\<rparr>"

lemma points_keep_maximal:
  "pp_points (fold (\<lambda>(t, i). points_keep True t i) rs p)
     = (case pp_points p of None \<Rightarrow> if rs = [] then None else Some (Max (set (map snd rs)))
        | Some j \<Rightarrow> Some (Max (insert j (set (map snd rs)))))"
proof (induction rs arbitrary: p)
  case (Cons r rs)
  obtain t i where r: "r = (t, i)" by (cases r)
  have m: "pp_points (points_keep True t i p) = (case pp_points p of None \<Rightarrow> Some i | Some j \<Rightarrow> Some (max j i))"
    by (auto simp: points_keep_def above_def max_def split: option.splits)
  show ?case
  proof (cases "pp_points p")
    case None
    then show ?thesis using Cons.IH [of "points_keep True t i p"] m r by (simp add: insert_commute)
  next
    case (Some j)
    have "Max (insert (max j i) (set (map snd rs))) = Max (insert j (insert i (set (map snd rs))))"
      by (cases "rs = []") (simp_all add: max.assoc)
    with Some show ?thesis using Cons.IH [of "points_keep True t i p"] m r by simp
  qed
qed (simp split: option.split)

lemma points_keep_latest:
  assumes "(t, i) \<in> set rs" and "\<forall>(t', i') \<in> set rs. t' < t \<or> (t' = t \<and> i' = i)"
    and "above t (pp_last_time p) \<or> p = \<lparr>pp_points = Some i, pp_last_time = Some t\<rparr>"
  shows "fold (\<lambda>(t, i). points_keep False t i) rs p = \<lparr>pp_points = Some i, pp_last_time = Some t\<rparr>"
  using assms
proof (induction rs arbitrary: p)
  case (Cons r rs)
  obtain t1 i1 where r: "r = (t1, i1)" by (cases r)
  let ?q = "points_keep False t1 i1 p"
  show ?case
  proof (cases "(t1, i1) = (t, i)")
    case True
    have q: "?q = \<lparr>pp_points = Some i, pp_last_time = Some t\<rparr>"
      using Cons.prems(3) True by (cases p) (auto simp: points_keep_def above_def)
    have "fold (\<lambda>(t, i). points_keep False t i) xs \<lparr>pp_points = Some i, pp_last_time = Some t\<rparr>
        = \<lparr>pp_points = Some i, pp_last_time = Some t\<rparr>" if "\<forall>(t', i') \<in> set xs. t' < t \<or> (t' = t \<and> i' = i)" for xs
      using that by (induction xs) (auto simp: points_keep_def above_def)
    with Cons.prems(2) r q show ?thesis by auto
  next
    case False
    then have "(t, i) \<in> set rs" "t1 < t" using Cons.prems(1,2) r by auto
    moreover have "above t (pp_last_time ?q) \<or> ?q = \<lparr>pp_points = Some i, pp_last_time = Some t\<rparr>"
      using Cons.prems(3) \<open>t1 < t\<close> by (auto simp: points_keep_def above_def split: option.splits)
    ultimately show ?thesis using Cons.IH [of ?q] Cons.prems(2) r by auto
  qed
qed simp

text \<open>
  (points_best_or_latest): with the parameter \<open>maximal\<close> the points of a problem are the
  maximum over all its results; without it they are those of the latest result, in both
  cases whatever the order in which the results are judged (for distinct submission times).
\<close>

theorem points_best_or_latest:
  assumes "rs \<noteq> []" and "distinct (map fst rs)"
  shows "pp_points (fold (\<lambda>(t, i). points_keep True t i) rs new_points_problem) = Some (Max (set (map snd rs)))
    \<and> (\<exists>t i. (t, i) \<in> set rs \<and> t = Max (set (map fst rs))
        \<and> pp_points (fold (\<lambda>(t, i). points_keep False t i) rs new_points_problem) = Some i)"
proof
  show "pp_points (fold (\<lambda>(t, i). points_keep True t i) rs new_points_problem) = Some (Max (set (map snd rs)))"
    using assms(1) by (simp add: points_keep_maximal new_points_problem_def)
  let ?t = "Max (set (map fst rs))"
  have "?t \<in> set (map fst rs)" using assms(1) by (intro Max_in) auto
  then obtain i where i: "(?t, i) \<in> set rs" by auto
  have "t' < ?t \<or> (t' = ?t \<and> i' = i)" if "(t', i') \<in> set rs" for t' i'
  proof (cases "t' = ?t")
    case True
    then show ?thesis using that i assms(2) by (metis distinct_map eq_key_imp_eq_value)
  next
    case False
    have "t' \<le> ?t" using that by (intro Max_ge) force+
    with False show ?thesis by simp
  qed
  then have "fold (\<lambda>(t, i). points_keep False t i) rs new_points_problem = \<lparr>pp_points = Some i, pp_last_time = Some ?t\<rparr>"
    using i by (intro points_keep_latest) (auto simp: above_def new_points_problem_def)
  with i show "\<exists>t i. (t, i) \<in> set rs \<and> t = ?t
      \<and> pp_points (fold (\<lambda>(t, i). points_keep False t i) rs new_points_problem) = Some i" by auto
qed

theorem points_best_or_latest_witness:
  "pp_points (fold (\<lambda>(t, i). points_keep True t i) [(5, 40), (9, 30), (7, 10)] new_points_problem) = Some 40
   \<and> (\<exists>t i. t = 9 \<and> pp_points (fold (\<lambda>(t, i). points_keep False t i) [(5, 40), (9, 30), (7, 10)] new_points_problem) = Some i)"
  using points_best_or_latest [of "[(5, 40), (9, 30), (7, 10)]"] by auto

subsection \<open>ACMProblemStats\<close>

record stats =
  st_problems :: "(key \<times> problem_mapping) list"
  st_results :: "string list"
  st_stats :: "(key, (string, int) dict) dict"
  st_submits :: "(key, int) dict"
  st_total :: "(string, int) dict"
  st_all :: int
  st_table :: "rest_table option"

type_synonym 'f stats_agg = "('f, unit, stats) agg"

definition bump :: "'k \<Rightarrow> ('k, int) dict \<Rightarrow> ('k, int) dict" where
  "bump k d = dset k (dget_def_val d k 0 + 1) d"

text \<open>Counting one visible result with status \<open>s\<close> on problem \<open>p\<close>.\<close>

definition stats_count :: "key \<Rightarrow> string option \<Rightarrow> stats \<Rightarrow> stats" where
  "stats_count p s st =
     (let st1 = st\<lparr>st_submits := bump p (st_submits st), st_all := st_all st + 1\<rparr> in
      case s of
        None \<Rightarrow> st1
      | Some v \<Rightarrow>
          if v \<in> set (st_results st1)
          then st1\<lparr>st_total := bump v (st_total st1),
                   st_stats := dset p (bump v (dget_def_val (st_stats st1) p [])) (st_stats st1)\<rparr>
          else st1)"

definition stats_rows :: "'f xval ext \<Rightarrow> 'f stats_agg \<Rightarrow> string list list" where
  "stats_rows X a =
     (let st = ag_extra a; star = (\<lambda>s. '' **'' @ s @ ''** '') in
      map (\<lambda>(k, p). [pm_code p @ '' '' @ no_points @ '' '' @ pm_title p, str_int (dget_def_val (st_submits st) k 0)]
          @ map (\<lambda>r. str_int (dget_def_val (dget_def_val (st_stats st) k []) r 0)) (st_results st))
        (filter (\<lambda>(k, p). \<not> flag X (problem_params_of a k) ''ignore'') (st_problems st))
      @ [[star ''Total'', star (str_int (st_all st))] @ map (\<lambda>r. star (str_int (dget_def_val (st_total st) r 0))) (st_results st)])"

definition stats_recalculate :: "'f xval ext \<Rightarrow> 'f stats_agg \<Rightarrow> db \<Rightarrow> unit outcome \<times> 'f stats_agg \<times> db" where
  "stats_recalculate X a d =
     (case st_table (ag_extra a) of
        None \<Rightarrow> (Raise (AttributeError ''table''), a, d)
      | Some t \<Rightarrow>
          (case map_outcome (table_row (col_width t)) (stats_rows X a) of
             Raise e \<Rightarrow> (Raise e, a, d)
           | Ok rows \<Rightarrow> set_header (table_header t @ concat (map (\<lambda>r. r @ row_separator t) rows))
               (rk_footer (ag_ranking a)) a d))"

definition new_stats :: stats where
  "new_stats = \<lparr>st_problems = [], st_results = [], st_stats = [], st_submits = [], st_total = [], st_all = 0, st_table = None\<rparr>"

definition stats_start :: "(key \<times> problem_mapping) list \<Rightarrow> string list \<Rightarrow> rest_table option \<Rightarrow> stats" where
  "stats_start ps rs t = \<lparr>st_problems = ps, st_results = rs,
     st_stats = map (\<lambda>(k, p). (k, fold (\<lambda>r. dset r 0) rs [])) ps, st_submits = map (\<lambda>(k, p). (k, 0)) ps,
     st_total = fold (\<lambda>r. dset r 0) rs [], st_all = 0, st_table = t\<rparr>"

definition stats_init :: "'f xval ext \<Rightarrow> 'f stats_agg \<Rightarrow> db \<Rightarrow> unit outcome \<times> 'f stats_agg \<times> db" where
  "stats_init X a d =
     (let rs = split_on CHR '','' (text_of (ag_params a) ''results'') in
      case rest_table ([(32, ''Problem name''), (10, ''Submits'')] @ map (\<lambda>r. (8, r)) rs) of
        Raise e \<Rightarrow> (Raise e, a, d)
      | Ok t \<Rightarrow> stats_recalculate X (a\<lparr>ag_extra := stats_start (by_code (ag_problems a)) rs (Some t)\<rparr>) d)"

fun stats_results :: "'f xval ext \<Rightarrow> (key \<times> suite_result) list \<Rightarrow> db \<Rightarrow> 'f stats_agg \<Rightarrow> unit outcome \<times> 'f stats_agg" where
  "stats_results X [] d a = (Ok (), a)"
| "stats_results X ((k, r) # rs) d a =
     (case dget (ag_submits a) (sr_submit r) of
        None \<Rightarrow> (Raise KeyError, a)
      | Some s \<Rightarrow>
          (case dget (contestants d) (sb_contestant s) of
             None \<Rightarrow> (Raise DoesNotExist, a)
           | Some ct \<Rightarrow>
               if cn_invisible ct \<and> \<not> flag X (ag_params a) ''show_invisible'' then stats_results X rs d a
               else (case raise_oa (oa_get_str (group_of (suite_oa d) k) ''status'' None) of
                       Raise e \<Rightarrow> (Raise e, a)
                     | Ok st \<Rightarrow>
                         if sb_problem s \<notin> set (dkeys (st_submits (ag_extra a))) then (Raise KeyError, a)
                         else stats_results X rs d (a\<lparr>ag_extra := stats_count (sb_problem s) st (ag_extra a)\<rparr>))))"

definition stats_checked :: "'f xval ext \<Rightarrow> (key \<times> suite_result) list \<Rightarrow> 'f stats_agg \<Rightarrow> db
    \<Rightarrow> unit outcome \<times> 'f stats_agg \<times> db" where
  "stats_checked X rs a d =
     (case stats_results X rs d a of
        (Raise e, a1) \<Rightarrow> (Raise e, a1, d)
      | (Ok _, a1) \<Rightarrow> stats_recalculate X a1 d)"

definition stats_inv :: "stats \<Rightarrow> bool" where
  "stats_inv st \<longleftrightarrow> (\<forall>r \<in> set (st_results st).
      dget_def_val (st_total st) r 0 = sum_list (map (\<lambda>p. dget_def_val (dget_def_val (st_stats st) (fst p) []) r 0) (st_problems st)))
    \<and> st_all st = sum_list (map (\<lambda>p. dget_def_val (st_submits st) (fst p) 0) (st_problems st))
    \<and> distinct (map fst (st_problems st)) \<and> set (dkeys (st_submits st)) = fst ` set (st_problems st)"

lemma bump_val: "dget_def_val (bump k d) k' 0 = dget_def_val d k' 0 + of_bool (k' = k)"
  by (simp add: bump_def dget_def_val_def)

lemma sum_list_bump:
  "distinct xs \<Longrightarrow> p \<in> set xs \<Longrightarrow> sum_list (map (\<lambda>x. f x + of_bool (x = p)) xs) = sum_list (map f xs) + (1::int)"
proof (induction xs)
  case (Cons x xs)
  have "sum_list (map (\<lambda>x. f x + of_bool (x = p)) xs) = sum_list (map f xs)" if "p \<notin> set xs"
    using that by (intro arg_cong [of _ _ sum_list] map_cong) auto
  with Cons show ?case by auto
qed simp

lemma stats_count_inv:
  assumes "stats_inv st" and "p \<in> set (dkeys (st_submits st))"
  shows "stats_inv (stats_count p s st)"
proof -
  let ?ks = "map fst (st_problems st)"
  have d: "distinct ?ks" and p: "p \<in> set ?ks" using assms by (auto simp: stats_inv_def)
  have sub: "sum_list (map (\<lambda>k. dget_def_val (bump p (st_submits st)) k 0) ?ks)
      = sum_list (map (\<lambda>k. dget_def_val (st_submits st) k 0) ?ks) + 1"
    using sum_list_bump [OF d p] by (simp add: bump_val)
  have keys: "set (dkeys (bump p (st_submits st))) = set (dkeys (st_submits st))"
    using assms(2) by (auto simp: bump_def)
  have stat: "dget_def_val (dget_def_val (dset p (bump v (dget_def_val (st_stats st) p [])) (st_stats st)) k []) r 0
      = dget_def_val (dget_def_val (st_stats st) k []) r 0 + of_bool (r = v) * of_bool (k = p)" for v r k
  proof (cases "k = p")
    case True
    then have "dget_def_val (dset p (bump v (dget_def_val (st_stats st) p [])) (st_stats st)) k []
        = bump v (dget_def_val (st_stats st) p [])" by (simp add: dget_def_val_def)
    with True show ?thesis by (simp add: bump_val)
  next
    case False
    then have "dget_def_val (dset p (bump v (dget_def_val (st_stats st) p [])) (st_stats st)) k []
        = dget_def_val (st_stats st) k []" by (simp add: dget_def_val_def)
    with False show ?thesis by simp
  qed
  have tot: "sum_list (map (\<lambda>k. dget_def_val (dget_def_val (dset p (bump v (dget_def_val (st_stats st) p [])) (st_stats st)) k []) r 0) ?ks)
      = sum_list (map (\<lambda>k. dget_def_val (dget_def_val (st_stats st) k []) r 0) ?ks) + of_bool (r = v)" for v r
    using sum_list_bump [OF d p, of "\<lambda>k. dget_def_val (dget_def_val (st_stats st) k []) r 0"] unfolding stat by (cases "r = v") simp_all
  show ?thesis
    using assms(1) sub keys tot
    by (cases s) (simp_all add: stats_inv_def stats_count_def Let_def bump_val comp_def)
qed

definition sample_stats :: "unit stats_agg" where
  "sample_stats = (new_agg (stats_start [(5, \<lparr>pm_contest = 8, pm_code = ''A'', pm_title = [], pm_default_suite = None, pm_group = []\<rparr>)] [''OK''] None) 9
       \<lparr>rk_contest = 8, rk_aggregator = [], rk_header = [], rk_footer = [], rk_params = []\<rparr>)
       \<lparr>ag_submits := submits sample_db\<rparr>"

text \<open>
  (stats_totals_agree): counting results keeps the statistics consistent: the total of every
  result is the sum over the problems, and the number of submits is the sum of the submits
  of the problems.
\<close>

theorem stats_totals_agree:
  assumes "stats_inv (ag_extra a)" and "stats_results X rs d a = (r, a')"
  shows "stats_inv (ag_extra a')"
  using assms
proof (induction X rs d a rule: stats_results.induct)
  case (2 X k r rs d a)
  then show ?case
    by (auto simp: stats_count_inv split: option.splits outcome.splits if_splits)
qed simp

theorem stats_totals_agree_witness:
  "\<forall>X. stats_inv (ag_extra (snd (stats_results X [(7, the (dget (suite_results sample_db) 7))] sample_db sample_stats)))"
proof (rule allI, rule stats_totals_agree [OF _ surjective_pairing])
  show "stats_inv (ag_extra sample_stats)"
    by (simp add: sample_stats_def new_agg_def stats_start_def stats_inv_def dget_def_val_def dkeys_def)
qed

end
