(* ===== verification/Ars_Model.thy ===== *)
theory Ars_Model
  imports Py_Strings
begin

section \<open>satori.ars.model: the model of an exported service\<close>

text \<open>
  \<^item> \<open>ars_type\<close>: \<open>ArsType\<close> and its subclasses. Named objects are compared by identity in the
    source, so an alias, a structure and a field carry the identity of their object; the
    atomic types, \<open>ArsString\<close> and \<open>ArsDateTime\<close> are module-level singletons. A structure is
    created with its fields (a structure that reaches itself through its fields is not a tree;
    \<open>add_type\<close> of the source does not return on one).
  \<^item> \<open>nt_append\<close>, \<open>nt_extend\<close>, \<open>nt_get\<close>: \<open>ArsNamedTuple\<close>. Its dict \<open>names\<close> and its list
    \<open>items\<close> hold the same elements, kept here as the list.
  \<^item> \<open>procedure\<close>, \<open>service\<close>, \<open>constant\<close>, \<open>interface\<close> with \<open>add_type\<close>, \<open>add_constant\<close>,
    \<open>add_service\<close> and \<open>deepcopy\<close>. Implementations and constant values are opaque objects.
\<close>

type_synonym obj = nat

datatype atom = ArsBoolean | ArsInt8 | ArsInt16 | ArsInt32 | ArsInt64 | ArsFloat | ArsVoid | ArsBinary | ArsString

datatype 't field = Field (field_id: obj) (field_name: string) (field_type: 't) (field_optional: bool)

datatype ars_type =
    Atomic atom
  | Alias obj string ars_type
  | DateTime
  | ListT ars_type
  | SetT ars_type
  | MapT ars_type ars_type
  | Struct bool obj string int "ars_type field list"

text \<open>The first argument of \<open>Struct\<close> tells an \<open>ArsException\<close> from a plain structure.\<close>

fun atom_name :: "atom \<Rightarrow> string" where
  "atom_name ArsBoolean = ''ArsBoolean''"
| "atom_name ArsInt8 = ''ArsInt8''"
| "atom_name ArsInt16 = ''ArsInt16''"
| "atom_name ArsInt32 = ''ArsInt32''"
| "atom_name ArsInt64 = ''ArsInt64''"
| "atom_name ArsFloat = ''ArsFloat''"
| "atom_name ArsVoid = ''ArsVoid''"
| "atom_name ArsBinary = ''ArsBinary''"
| "atom_name ArsString = ''ArsString''"

text \<open>The name of an \<open>ArsNamedType\<close>; the other types have none.\<close>

fun name_of :: "ars_type \<Rightarrow> string option" where
  "name_of (Atomic a) = Some (atom_name a)"
| "name_of (Alias i n t) = Some n"
| "name_of DateTime = Some ''DateTime''"
| "name_of (Struct e i n b fs) = Some n"
| "name_of _ = None"

definition type_name :: "ars_type \<Rightarrow> string" where
  "type_name t = (case name_of t of Some n \<Rightarrow> n | None \<Rightarrow> [])"

subsection \<open>ArsNamedTuple\<close>

definition nt_get :: "('a \<Rightarrow> string) \<Rightarrow> string \<Rightarrow> 'a list \<Rightarrow> 'a option" where
  "nt_get name n t = find (\<lambda>x. name x = n) t"

definition nt_contains :: "('a \<Rightarrow> string) \<Rightarrow> 'a \<Rightarrow> 'a list \<Rightarrow> bool" where
  "nt_contains name x t = (nt_get name (name x) t = Some x)"

definition nt_append :: "('a \<Rightarrow> string) \<Rightarrow> 'a \<Rightarrow> 'a list \<Rightarrow> unit outcome \<times> 'a list" where
  "nt_append name x t =
     (case nt_get name (name x) t of
        Some y \<Rightarrow> (if y = x then (Ok (), t) else (Raise ValueError, t))
      | None \<Rightarrow> (Ok (), t @ [x]))"

fun nt_new :: "('a \<Rightarrow> string) \<Rightarrow> 'a list \<Rightarrow> 'a list \<Rightarrow> 'a list outcome" where
  "nt_new name t [] = Ok []"
| "nt_new name t (x # xs) =
     (case nt_get name (name x) t of
        Some y \<Rightarrow> (if y = x then nt_new name t xs else Raise ValueError)
      | None \<Rightarrow> map_ok (Cons x) (nt_new name t xs))"

definition nt_extend :: "('a \<Rightarrow> string) \<Rightarrow> 'a list \<Rightarrow> 'a list \<Rightarrow> unit outcome \<times> 'a list" where
  "nt_extend name xs t =
     (case nt_new name t xs of
        Raise e \<Rightarrow> (Raise e, t)
      | Ok ys \<Rightarrow> for_each (nt_append name) ys t)"

definition nt_index :: "'a list \<Rightarrow> int \<Rightarrow> 'a outcome" where
  "nt_index t i =
     (let j = (if i < 0 then i + int (length t) else i) in
      if 0 \<le> j \<and> j < int (length t) then Ok (t ! nat j) else Raise IndexError)"

definition nt_ok :: "('a \<Rightarrow> string) \<Rightarrow> 'a list \<Rightarrow> bool" where
  "nt_ok name t \<longleftrightarrow> distinct (map name t)"

lemma nt_get_Some: "nt_get name n t = Some x \<Longrightarrow> x \<in> set t \<and> name x = n"
  by (auto simp: nt_get_def find_Some_iff)

lemma nt_get_None: "nt_get name n t = None \<longleftrightarrow> n \<notin> name ` set t"
  by (auto simp: nt_get_def find_None_iff)

lemma nt_get_in: "nt_ok name t \<Longrightarrow> x \<in> set t \<Longrightarrow> nt_get name (name x) t = Some x"
  by (induction t) (auto simp: nt_get_def nt_ok_def image_iff)

lemma nt_contains_iff: "nt_ok name t \<Longrightarrow> nt_contains name x t \<longleftrightarrow> x \<in> set t"
  by (auto simp: nt_contains_def nt_get_in dest: nt_get_Some)

lemma nt_append_cases:
  assumes "nt_append name x t = (r, t')"
  obtains "t' = t" "is_ok r \<longrightarrow> x \<in> set t" "is_ok r \<or> r = Raise ValueError"
  | "r = Ok ()" "t' = t @ [x]" "name x \<notin> name ` set t"
  using assms by (auto simp: nt_append_def nt_get_None dest: nt_get_Some split: option.splits if_splits)

lemma nt_append_ok: "nt_append name x t = (r, t') \<Longrightarrow> nt_ok name t \<Longrightarrow> nt_ok name t'"
  by (erule nt_append_cases) (auto simp: nt_ok_def)

lemma nt_append_in: "nt_append name x t = (Ok u, t') \<Longrightarrow> x \<in> set t'"
  by (erule nt_append_cases) auto

lemma nt_append_mono: "nt_append name x t = (r, t') \<Longrightarrow> set t \<subseteq> set t'"
  by (erule nt_append_cases) auto

lemma nt_extend_ok:
  assumes "nt_extend name xs t = (r, t')" and "nt_ok name t"
  shows "nt_ok name t'"
proof (cases "nt_new name t xs")
  case (Ok ys)
  with assms(1) have "for_each (nt_append name) ys t = (r, t')" by (simp add: nt_extend_def)
  moreover have "nt_ok name u'" if "x \<in> set ys" "nt_ok name u" "nt_append name x u = (q, u')" for x u q u'
    using that by (blast intro: nt_append_ok)
  ultimately show ?thesis using assms(2) by (blast intro: for_each_invariant [where P = "nt_ok name"])
qed (use assms in \<open>simp add: nt_extend_def\<close>)

subsection \<open>Structures and procedures\<close>

definition add_field :: "ars_type field \<Rightarrow> ars_type \<Rightarrow> unit outcome \<times> ars_type" where
  "add_field f t =
     (case t of
        Struct e i n b fs \<Rightarrow> (case nt_append field_name f fs of (r, fs') \<Rightarrow> (r, Struct e i n b fs'))
      | _ \<Rightarrow> (Raise (AttributeError ''add_field''), t))"

record 'i procedure =
  pr_id :: obj
  pr_name :: string
  pr_return :: ars_type
  pr_impl :: "'i option"
  pr_params :: "ars_type field list"
  pr_exceptions :: "ars_type list"
  pr_args_struct :: ars_type
  pr_result_struct :: ars_type

text \<open>
  The objects a procedure creates (two structures and the field of the result) get the
  identities after its own.
\<close>

definition new_procedure :: "obj \<Rightarrow> string \<Rightarrow> ars_type \<Rightarrow> 'i option \<Rightarrow> 'i procedure" where
  "new_procedure i n ret f = \<lparr>pr_id = i, pr_name = n, pr_return = ret, pr_impl = f, pr_params = [], pr_exceptions = [],
     pr_args_struct = Struct False (i + 1) (n @ ''_args'') 1 [],
     pr_result_struct = Struct False (i + 2) (n @ ''_result'') 0 [Field (i + 3) ''result'' ret True]\<rparr>"

definition add_parameter :: "ars_type field \<Rightarrow> 'i procedure \<Rightarrow> unit outcome \<times> 'i procedure" where
  "add_parameter f p =
     (case nt_append field_name f (pr_params p) of
        (Raise e, fs) \<Rightarrow> (Raise e, p)
      | (Ok _, fs) \<Rightarrow>
          (case add_field f (pr_args_struct p) of
             (r, t) \<Rightarrow> (r, p\<lparr>pr_params := fs, pr_args_struct := t\<rparr>)))"

definition add_exception :: "obj \<Rightarrow> ars_type \<Rightarrow> 'i procedure \<Rightarrow> unit outcome \<times> 'i procedure" where
  "add_exception i x p =
     (let es = pr_exceptions p @ [x] in
      case add_field (Field i (''error'' @ str_nat (length es)) x True) (pr_result_struct p) of
        (r, t) \<Rightarrow> (r, p\<lparr>pr_exceptions := es, pr_result_struct := t\<rparr>))"

datatype 'i service = Service (sv_id: obj) (sv_name: string) (sv_base: "'i service option") (sv_procedures: "'i procedure list")

definition add_procedure :: "'i procedure \<Rightarrow> 'i service \<Rightarrow> unit outcome \<times> 'i service" where
  "add_procedure p s =
     (case nt_append pr_name p (sv_procedures s) of (r, ps) \<Rightarrow> (r, Service (sv_id s) (sv_name s) (sv_base s) ps))"

record 'i ars_constant =
  cn_id :: obj
  cn_name :: string
  cn_type :: ars_type
  cn_value :: 'i

subsection \<open>ArsInterface\<close>

record 'i interface =
  if_types :: "ars_type list"
  if_constants :: "'i ars_constant list"
  if_services :: "'i service list"

definition new_interface :: "'i interface" where
  "new_interface = \<lparr>if_types = [], if_constants = [], if_services = []\<rparr>"

text \<open>The types below work on the tuple \<open>types\<close> of the interface alone.\<close>

function (sequential) add_type :: "ars_type \<Rightarrow> ars_type list \<Rightarrow> unit outcome \<times> ars_type list"
  and add_field_types :: "ars_type field list \<Rightarrow> ars_type list \<Rightarrow> unit outcome \<times> ars_type list" where
  "add_type (Atomic a) ts = (Ok (), ts)"
| "add_type (Alias i n t) ts =
     (if nt_contains type_name (Alias i n t) ts then (Ok (), ts)
      else case add_type t ts of
             (Raise e, ts1) \<Rightarrow> (Raise e, ts1)
           | (Ok _, ts1) \<Rightarrow> nt_append type_name (Alias i n t) ts1)"
| "add_type DateTime ts =
     (if nt_contains type_name DateTime ts then (Ok (), ts) else nt_append type_name DateTime ts)"
| "add_type (ListT t) ts = add_type t ts"
| "add_type (SetT t) ts = add_type t ts"
| "add_type (MapT k v) ts =
     (case add_type k ts of
        (Raise e, ts1) \<Rightarrow> (Raise e, ts1)
      | (Ok _, ts1) \<Rightarrow> add_type v ts1)"
| "add_type (Struct e i n b fs) ts =
     (if nt_contains type_name (Struct e i n b fs) ts then (Ok (), ts)
      else case add_field_types fs ts of
             (Raise x, ts1) \<Rightarrow> (Raise x, ts1)
           | (Ok _, ts1) \<Rightarrow> nt_append type_name (Struct e i n b fs) ts1)"
| "add_field_types [] ts = (Ok (), ts)"
| "add_field_types (f # fs) ts =
     (case add_type (field_type f) ts of
        (Raise e, ts1) \<Rightarrow> (Raise e, ts1)
      | (Ok _, ts1) \<Rightarrow> add_field_types fs ts1)"

  by pat_completeness auto

text \<open>The measure of all the functions that descend into a type and its fields.\<close>

abbreviation fields_size :: "ars_type field list \<Rightarrow> nat" where
  "fields_size fs \<equiv> size_list (size_field size) fs"

lemma field_size [simp]: "size (field_type f) < size_field size f"
  by (cases f) simp

lemma field_smaller: "f \<in> set fs \<Longrightarrow> size (field_type f) < fields_size fs"
  using size_list_estimation [of f fs _ "size_field size"] field_size by (metis less_trans lessI)

termination add_type
  by (relation "measure (case_sum (\<lambda>(t, ts). size t) (\<lambda>(fs, ts). fields_size fs))") (simp_all add: less_Suc_eq_le trans_le_add1 less_imp_le)

definition add_constant :: "'i ars_constant \<Rightarrow> 'i interface \<Rightarrow> unit outcome \<times> 'i interface" where
  "add_constant c I =
     (case add_type (cn_type c) (if_types I) of
        (Raise e, ts) \<Rightarrow> (Raise e, I\<lparr>if_types := ts\<rparr>)
      | (Ok _, ts) \<Rightarrow>
          (case nt_append cn_name c (if_constants I) of
             (r, cs) \<Rightarrow> (r, I\<lparr>if_types := ts, if_constants := cs\<rparr>)))"

text \<open>The types a procedure mentions, in the order of \<open>add_service\<close>.\<close>

definition procedure_types :: "'i procedure \<Rightarrow> ars_type list" where
  "procedure_types p = pr_return p # map field_type (pr_params p) @ pr_exceptions p"

fun add_service :: "'i service \<Rightarrow> 'i interface \<Rightarrow> unit outcome \<times> 'i interface" where
  "add_service (Service i n base ps) I =
     (case (case base of None \<Rightarrow> (Ok (), I) | Some b \<Rightarrow> add_service b I) of
        (Raise e, I1) \<Rightarrow> (Raise e, I1)
      | (Ok _, I1) \<Rightarrow>
          (case for_each add_type (concat (map procedure_types ps)) (if_types I1) of
             (Raise e, ts) \<Rightarrow> (Raise e, I1\<lparr>if_types := ts\<rparr>)
           | (Ok _, ts) \<Rightarrow>
               (case nt_append sv_name (Service i n base ps) (if_services I1) of
                  (r, ss) \<Rightarrow> (r, I1\<lparr>if_types := ts, if_services := ss\<rparr>))))"

end
