(* ===== verification/Ars_Interface.thy ===== *)
theory Ars_Interface
  imports Ars_Model
begin

section \<open>The order an interface keeps\<close>

text \<open>
  What \<open>ArsInterface\<close> promises to the writers: in its tuple of types every type comes after
  the named types it mentions, names are unique, and the types of every constant and
  procedure and the base of every service are there.
\<close>

fun named_refs :: "ars_type \<Rightarrow> ars_type list" where
  "named_refs (Atomic a) = []"
| "named_refs (Alias i n t) = [Alias i n t]"
| "named_refs DateTime = [DateTime]"
| "named_refs (ListT t) = named_refs t"
| "named_refs (SetT t) = named_refs t"
| "named_refs (MapT k v) = named_refs k @ named_refs v"
| "named_refs (Struct e i n b fs) = [Struct e i n b fs]"

fun needs_before :: "ars_type \<Rightarrow> ars_type list" where
  "needs_before (Alias i n t) = named_refs t"
| "needs_before (Struct e i n b fs) = concat (map (\<lambda>f. named_refs (field_type f)) fs)"
| "needs_before t = []"

definition in_order :: "('a \<Rightarrow> 'a list) \<Rightarrow> 'a list \<Rightarrow> bool" where
  "in_order f xs \<longleftrightarrow> list_all (\<lambda>i. set (f (xs ! i)) \<subseteq> set (take i xs)) [0..<length xs]"

fun declared :: "ars_type \<Rightarrow> bool" where
  "declared (Alias i n t) = True"
| "declared DateTime = True"
| "declared (Struct e i n b fs) = True"
| "declared t = False"

definition types_inv :: "ars_type list \<Rightarrow> bool" where
  "types_inv ts \<longleftrightarrow> nt_ok type_name ts \<and> in_order needs_before ts \<and> list_all declared ts"

definition bases :: "'i service \<Rightarrow> 'i service list" where
  "bases s = (case sv_base s of None \<Rightarrow> [] | Some b \<Rightarrow> [b])"

definition service_refs :: "'i service \<Rightarrow> ars_type list" where
  "service_refs s = concat (map named_refs (concat (map procedure_types (sv_procedures s))))"

definition interface_inv :: "'i interface \<Rightarrow> bool" where
  "interface_inv I \<longleftrightarrow> types_inv (if_types I)
     \<and> nt_ok cn_name (if_constants I)
     \<and> list_all (\<lambda>c. set (named_refs (cn_type c)) \<subseteq> set (if_types I)) (if_constants I)
     \<and> nt_ok sv_name (if_services I) \<and> in_order bases (if_services I)
     \<and> list_all (\<lambda>s. set (service_refs s) \<subseteq> set (if_types I)) (if_services I)"

lemma in_order_Nil [simp]: "in_order f []"
  by (simp add: in_order_def)

lemma in_order_snoc [simp]: "in_order f (xs @ [x]) \<longleftrightarrow> in_order f xs \<and> set (f x) \<subseteq> set xs"
proof -
  have "set (f ((xs @ [x]) ! i)) \<subseteq> set (take i (xs @ [x])) \<longleftrightarrow> set (f (xs ! i)) \<subseteq> set (take i xs)"
    if "i < length xs" for i using that by (simp add: nth_append)
  then show ?thesis by (auto simp: in_order_def list_all_iff nth_append)
qed

lemma in_orderD: "in_order f (xs @ x # ys) \<Longrightarrow> set (f x) \<subseteq> set xs"
  by (induction ys rule: rev_induct) (simp_all add: in_order_snoc [of f "xs @ x # _", simplified])

lemma in_order_prefix: "in_order f (xs @ ys) \<Longrightarrow> in_order f xs"
proof (induction ys rule: rev_induct)
  case (snoc y ys)
  then show ?case using in_order_snoc [of f "xs @ ys" y] by simp
qed simp

subsection \<open>Adding types\<close>

text \<open>What a step on the tuple of types guarantees for the references it was given.\<close>

definition grows :: "ars_type list \<Rightarrow> unit outcome \<Rightarrow> ars_type list \<Rightarrow> ars_type list \<Rightarrow> bool" where
  "grows ts r ts' rs \<longleftrightarrow> types_inv ts' \<and> set ts \<subseteq> set ts' \<and> (is_ok r \<longrightarrow> set rs \<subseteq> set ts')"

lemma grows_append:
  assumes "nt_append type_name t ts = (r, ts')" and "types_inv ts" and "set (needs_before t) \<subseteq> set ts"
    and "declared t"
  shows "grows ts r ts' [t]"
  using assms(1)
proof (cases rule: nt_append_cases)
  case 1
  then show ?thesis using assms by (auto simp: grows_def)
next
  case 2
  then show ?thesis using assms by (auto simp: grows_def types_inv_def nt_ok_def)
qed

lemma grows_refl: "types_inv ts \<Longrightarrow> (is_ok r \<Longrightarrow> set rs \<subseteq> set ts) \<Longrightarrow> grows ts r ts rs"
  by (auto simp: grows_def)

lemma grows_then:
  "grows ts (Ok u) ts1 rs1 \<Longrightarrow> grows ts1 r ts2 rs2 \<Longrightarrow> grows ts r ts2 (rs1 @ rs2)"
  by (auto simp: grows_def)

lemma grows_raise: "grows ts (Raise e) ts1 rs \<Longrightarrow> grows ts (Raise e) ts1 rs'"
  by (simp add: grows_def)

lemma grows_sub: "grows ts r ts' rs \<Longrightarrow> set rs' \<subseteq> set rs \<Longrightarrow> grows ts r ts' rs'"
  by (auto simp: grows_def)

lemma grows_inv: "grows ts r ts' rs \<Longrightarrow> types_inv ts'"
  by (simp add: grows_def)

lemma add_type_grows:
  "add_type t ts = (r, ts') \<Longrightarrow> types_inv ts \<Longrightarrow> grows ts r ts' (named_refs t)"
  "add_field_types fs ts = (r, ts') \<Longrightarrow> types_inv ts
    \<Longrightarrow> grows ts r ts' (concat (map (\<lambda>f. named_refs (field_type f)) fs))"
proof (induction t ts and fs ts arbitrary: r ts' and r ts' rule: add_type_add_field_types.induct)
  case (1 a ts)
  then show ?case by (simp add: grows_refl)
next
  case (2 i n t ts)
  show ?case
  proof (cases "nt_contains type_name (Alias i n t) ts")
    case True
    with 2 show ?thesis by (auto simp: grows_def types_inv_def nt_contains_iff)
  next
    case False
    obtain q ts1 where a: "add_type t ts = (q, ts1)" by (cases "add_type t ts")
    have g: "grows ts q ts1 (named_refs t)" by (rule 2(1) [OF False a 2(3)])
    show ?thesis
    proof (cases q)
      case (Raise e)
      with g a False 2(2) show ?thesis by (auto intro: grows_raise)
    next
      case (Ok u)
      then have "nt_append type_name (Alias i n t) ts1 = (r, ts')" using a False 2(2) by simp
      then have "grows ts1 r ts' [Alias i n t]"
        using g Ok by (intro grows_append) (auto simp: grows_def)
      from grows_then [OF g [unfolded Ok] this] show ?thesis by (rule grows_sub) simp
    qed
  qed
next
  case (3 ts)
  then show ?case
    by (auto simp: nt_contains_iff types_inv_def intro: grows_append grows_refl split: if_splits)
next
  case (6 k v ts)
  obtain q ts1 where a: "add_type k ts = (q, ts1)" by (cases "add_type k ts")
  have g: "grows ts q ts1 (named_refs k)" by (rule 6(1) [OF a 6(4)])
  show ?case
  proof (cases q)
    case (Raise e)
    with g a 6(3) show ?thesis by (auto intro: grows_raise)
  next
    case (Ok u)
    then have "add_type v ts1 = (r, ts')" using a 6(3) by simp
    from 6(2) [OF a [symmetric] Ok this grows_inv [OF g]] g Ok show ?thesis by (auto intro: grows_then)
  qed
next
  case (7 e i n b fs ts)
  show ?case
  proof (cases "nt_contains type_name (Struct e i n b fs) ts")
    case True
    with 7 show ?thesis by (auto simp: grows_def types_inv_def nt_contains_iff)
  next
    case False
    obtain q ts1 where a: "add_field_types fs ts = (q, ts1)" by (cases "add_field_types fs ts")
    have g: "grows ts q ts1 (concat (map (\<lambda>f. named_refs (field_type f)) fs))" by (rule 7(1) [OF False a 7(3)])
    show ?thesis
    proof (cases q)
      case (Raise x)
      with g a False 7(2) show ?thesis by (auto intro: grows_raise)
    next
      case (Ok u)
      then have "nt_append type_name (Struct e i n b fs) ts1 = (r, ts')" using a False 7(2) by simp
      then have "grows ts1 r ts' [Struct e i n b fs]"
        using g Ok by (intro grows_append) (auto simp: grows_def)
      from grows_then [OF g [unfolded Ok] this] show ?thesis by (rule grows_sub) simp
    qed
  qed
next
  case (9 f fs ts)
  obtain q ts1 where a: "add_type (field_type f) ts = (q, ts1)" by (cases "add_type (field_type f) ts")
  have g: "grows ts q ts1 (named_refs (field_type f))" by (rule 9(1) [OF a 9(4)])
  show ?case
  proof (cases q)
    case (Raise e)
    with g a 9(3) show ?thesis by (auto intro: grows_raise)
  next
    case (Ok u)
    then have "add_field_types fs ts1 = (r, ts')" using a 9(3) by simp
    from 9(2) [OF a [symmetric] Ok this grows_inv [OF g]] g Ok show ?thesis by (auto intro: grows_then)
  qed
qed (simp_all add: grows_refl)

lemma add_types_grows:
  "for_each add_type rs ts = (r, ts') \<Longrightarrow> types_inv ts \<Longrightarrow> grows ts r ts' (concat (map named_refs rs))"
proof (induction rs arbitrary: ts)
  case Nil
  then show ?case by (simp add: grows_refl)
next
  case (Cons t rs)
  obtain q ts1 where a: "add_type t ts = (q, ts1)" by (cases "add_type t ts")
  have g: "grows ts q ts1 (named_refs t)" by (rule add_type_grows(1) [OF a Cons.prems(2)])
  show ?case
  proof (cases q)
    case (Raise e)
    with g a Cons.prems(1) show ?thesis by (auto intro: grows_raise)
  next
    case (Ok u)
    then have "for_each add_type rs ts1 = (r, ts')" using a Cons.prems(1) by simp
    from Cons.IH [OF this grows_inv [OF g]] g Ok show ?thesis by (auto intro: grows_then)
  qed
qed

subsection \<open>Adding constants and services\<close>

lemma interface_grow_types:
  "interface_inv I \<Longrightarrow> grows (if_types I) r ts rs \<Longrightarrow> interface_inv (I\<lparr>if_types := ts\<rparr>)"
  by (fastforce simp: interface_inv_def grows_def list_all_iff)

lemma add_constant_inv:
  assumes "interface_inv I" and "add_constant c I = (r, I')"
  shows "interface_inv I'"
proof -
  obtain q ts where a: "add_type (cn_type c) (if_types I) = (q, ts)" by (cases "add_type (cn_type c) (if_types I)")
  have g: "grows (if_types I) q ts (named_refs (cn_type c))"
    using add_type_grows(1) [OF a] assms(1) by (simp add: interface_inv_def)
  show ?thesis
  proof (cases q)
    case (Raise e)
    then show ?thesis using a assms g by (auto simp: add_constant_def intro: interface_grow_types)
  next
    case (Ok u)
    obtain cs where n: "nt_append cn_name c (if_constants I) = (r, cs)" and I': "I' = I\<lparr>if_types := ts, if_constants := cs\<rparr>"
      using a assms(2) Ok by (auto simp: add_constant_def split: prod.splits)
    have "interface_inv (I\<lparr>if_types := ts\<rparr>)" by (rule interface_grow_types [OF assms(1) g])
    moreover have "set (named_refs (cn_type c)) \<subseteq> set ts" using g Ok by (simp add: grows_def)
    moreover have "nt_ok cn_name cs" using nt_append_ok [OF n] assms(1) by (simp add: interface_inv_def)
    moreover have "set cs \<subseteq> insert c (set (if_constants I))" using n by (cases rule: nt_append_cases) auto
    ultimately show ?thesis unfolding I' by (auto simp: interface_inv_def list_all_iff)
  qed
qed

lemma append_service_inv:
  assumes "interface_inv I" and "nt_append sv_name s (if_services I) = (r, ss)"
    and "set (service_refs s) \<subseteq> set (if_types I)" and "set (bases s) \<subseteq> set (if_services I)"
  shows "interface_inv (I\<lparr>if_services := ss\<rparr>)"
  using assms(2)
proof (cases rule: nt_append_cases)
  case 1
  then show ?thesis using assms(1) by (cases I) (simp add: interface_inv_def)
next
  case 2
  then show ?thesis using assms by (auto simp: interface_inv_def nt_ok_def)
qed

lemma add_service_inv:
  "add_service s I = (r, I') \<Longrightarrow> interface_inv I
    \<Longrightarrow> interface_inv I' \<and> set (if_services I) \<subseteq> set (if_services I') \<and> (is_ok r \<longrightarrow> s \<in> set (if_services I'))"
proof (induction s I arbitrary: r I' rule: add_service.induct)
  case (1 i n base ps I)
  let ?s = "Service i n base ps"
  obtain q I1 where b: "(case base of None \<Rightarrow> (Ok (), I) | Some b \<Rightarrow> add_service b I) = (q, I1)"
    by (cases "case base of None \<Rightarrow> (Ok (), I) | Some b \<Rightarrow> add_service b I")
  have I1: "interface_inv I1" "set (if_services I) \<subseteq> set (if_services I1)"
    "is_ok q \<longrightarrow> set (bases ?s) \<subseteq> set (if_services I1)"
    using 1 b by (auto simp: bases_def split: option.splits)
  show ?case
  proof (cases q)
    case (Raise e)
    then have "r = Raise e" "I' = I1" using b 1(2) by simp_all
    then show ?thesis using I1 by simp
  next
    case Ok1: (Ok u)
    obtain p ts where t: "for_each add_type (concat (map procedure_types ps)) (if_types I1) = (p, ts)"
      by (cases "for_each add_type (concat (map procedure_types ps)) (if_types I1)")
    have g: "grows (if_types I1) p ts (service_refs ?s)"
      using add_types_grows [OF t] I1(1) by (simp add: interface_inv_def service_refs_def)
    have I2: "interface_inv (I1\<lparr>if_types := ts\<rparr>)" by (rule interface_grow_types [OF I1(1) g])
    show ?thesis
    proof (cases p)
      case (Raise e)
      then show ?thesis using b t Ok1 1(2) I1(2) I2 by auto
    next
      case (Ok v)
      obtain ss where n: "nt_append sv_name ?s (if_services I1) = (r, ss)" and I': "I' = I1\<lparr>if_types := ts, if_services := ss\<rparr>"
        using b t Ok1 Ok 1(2) by (auto split: prod.splits)
      have "interface_inv ((I1\<lparr>if_types := ts\<rparr>)\<lparr>if_services := ss\<rparr>)"
        using I2 n g Ok I1(3) Ok1 by (intro append_service_inv [of _ ?s r]) (auto simp: grows_def)
      then show ?thesis using I' I1(2) n nt_append_mono [OF n] nt_append_in [of sv_name ?s "if_services I1" _ ss] n
        by (cases r) auto
    qed
  qed
qed

text \<open>
  (interface_keeps_order): adding a service, whether it succeeds or raises on a duplicate
  name half way, keeps the order of the interface: every type after the types it mentions,
  every service after its base, unique names, and nothing added before is lost; when it
  succeeds the service is in the interface.
\<close>

theorem interface_keeps_order:
  assumes "interface_inv I" and "add_service s I = (r, I')"
  shows "interface_inv I' \<and> set (if_services I) \<subseteq> set (if_services I')
    \<and> (is_ok r \<longrightarrow> s \<in> set (if_services I') \<and> set (service_refs s) \<subseteq> set (if_types I'))"
  using add_service_inv [OF assms(2,1)] by (auto simp: interface_inv_def list_all_iff)

definition sample_struct :: ars_type where
  "sample_struct = Struct False 1 ''Submit'' 1
     [Field 2 ''id'' (Alias 3 ''SubmitId'' (Atomic ArsInt64)) False, Field 4 ''when'' DateTime True]"

definition sample_procedure :: "nat procedure" where
  "sample_procedure = (new_procedure 10 ''Submit_filter'' (ListT sample_struct) (Some 0))
     \<lparr>pr_params := [Field 14 ''values'' (MapT (Atomic ArsString) (SetT sample_struct)) True]\<rparr>"

definition sample_service :: "nat service" where
  "sample_service = Service 22 ''Submit'' (Some (Service 21 ''Base'' None [])) [sample_procedure]"

theorem interface_keeps_order_witness:
  "interface_inv (snd (add_service sample_service new_interface))
    \<and> sample_service \<in> set (if_services (snd (add_service sample_service new_interface)))"
proof -
  have "interface_inv (new_interface :: nat interface)" by code_simp
  moreover have "is_ok (fst (add_service sample_service new_interface))" by code_simp
  ultimately show ?thesis
    using interface_keeps_order [OF _ surjective_pairing, of new_interface sample_service] by blast
qed

end
