(* ===== verification/Ars_Common.thy ===== *)
theory Ars_Common
  imports Ars_Interface
begin

section \<open>satori.ars.common: writing elements in topological order\<close>

text \<open>
  The writers walk the object graph of an interface, so this model has an explicit store: a
  dict from object identities to nodes, each with the identities its attributes refer to.
  \<^item> \<open>dependencies\<close>: the implementations of \<open>_dependencies\<close>.
  \<^item> \<open>rec_write\<close>: \<open>TopologicalWriter.write_to\<close>; \<open>done\<close> is a set, the output is the list of the
    items handed to \<open>_write\<close>. It also returns on a cyclic graph.
\<close>

datatype node =
    N_List obj
  | N_Set obj
  | N_Map obj obj
  | N_Alias obj
  | N_Field obj
  | N_Struct "obj list"
  | N_Procedure obj "obj list" "obj list"
  | N_Service "obj list"
  | N_Element

type_synonym store = "(obj, node) dict"

fun dependencies :: "node \<Rightarrow> obj list" where
  "dependencies (N_List t) = [t]"
| "dependencies (N_Set t) = [t]"
| "dependencies (N_Map k v) = [k, v]"
| "dependencies (N_Alias t) = [t]"
| "dependencies (N_Field t) = [t]"
| "dependencies (N_Struct fs) = fs"
| "dependencies (N_Procedure r ps es) = r # ps @ es"
| "dependencies (N_Service ps) = ps"
| "dependencies N_Element = []"

definition deps_of :: "store \<Rightarrow> obj \<Rightarrow> obj list" where
  "deps_of h x = (case dget h x of Some n \<Rightarrow> dependencies n | None \<Rightarrow> [])"

function (sequential) rec_write :: "store \<Rightarrow> obj list \<Rightarrow> obj list \<times> obj list \<Rightarrow> obj list \<times> obj list" where
  "rec_write h [] s = s"
| "rec_write h (x # xs) (don, out) =
     (if x \<in> set don then rec_write h xs (don, out)
      else case rec_write h (deps_of h x) (x # don, out) of
             (don1, out1) \<Rightarrow> rec_write h xs (don1, out1 @ [x]))"
  by pat_completeness auto

definition unseen :: "store \<Rightarrow> obj list \<Rightarrow> nat" where
  "unseen h don = card (set (dkeys h) - set don)"

lemma unseen_mono: "set d \<subseteq> set d' \<Longrightarrow> unseen h d' \<le> unseen h d"
  unfolding unseen_def by (intro card_mono) auto

lemma rec_write_grows: "rec_write_dom (h, xs, s) \<Longrightarrow> set (fst s) \<subseteq> set (fst (rec_write h xs s))"
proof (induction h xs s rule: rec_write.pinduct)
  case (2 h x xs don out)
  then show ?case by (fastforce simp: rec_write.psimps split: prod.splits)
qed (simp add: rec_write.psimps)

termination rec_write
proof (relation "measures [\<lambda>(h, xs, s). unseen h (fst s), \<lambda>(h, xs, s). length xs]", goal_cases)
  case (3 h x xs don out)
  show ?case
  proof (cases "x \<in> set (dkeys h)")
    case True
    have "unseen h (x # don) < unseen h don"
      unfolding unseen_def using True 3 by (intro psubset_card_mono) auto
    then show ?thesis by simp
  next
    case False
    then have "deps_of h x = []" by (simp add: deps_of_def dget_None_iff [symmetric])
    moreover have "unseen h (x # don) \<le> unseen h don" by (rule unseen_mono) auto
    ultimately show ?thesis by (cases "unseen h (x # don) = unseen h don") auto
  qed
next
  case (4 h x xs don out don1 out1)
  have "set (x # don) \<subseteq> set (fst (rec_write h (deps_of h x) (x # don, out)))"
    using rec_write_grows [OF 4(3)] by simp
  then have "set don \<subseteq> set don1" unfolding 4(2) [symmetric] by auto
  then have "unseen h don1 \<le> unseen h don" by (rule unseen_mono)
  then show ?case by auto
qed auto

definition write_to :: "store \<Rightarrow> obj list \<Rightarrow> obj list" where
  "write_to h services = snd (rec_write h services ([], []))"


subsection \<open>Dependencies first\<close>

text \<open>
  Objects are created after the objects they refer to, so a graph that was built by
  constructors alone has no cycles; what it needs is a rank that dependencies lower.
\<close>

definition acyclic_by :: "(obj \<Rightarrow> nat) \<Rightarrow> store \<Rightarrow> bool" where
  "acyclic_by rank h \<longleftrightarrow> list_all (\<lambda>(x, n). list_all (\<lambda>y. rank y < rank x) (dependencies n)) h"

lemma acyclic_byD:
  assumes "acyclic_by rank h" and "y \<in> set (deps_of h x)"
  shows "rank y < rank x"
proof -
  obtain n where n: "dget h x = Some n" "y \<in> set (dependencies n)"
    using assms(2) by (cases "dget h x") (simp_all add: deps_of_def)
  have "(x, n) \<in> set h" by (rule dget_SomeD [OF n(1)])
  moreover have "\<forall>e \<in> set h. \<forall>y \<in> set (dependencies (snd e)). rank y < rank (fst e)"
    using assms(1) by (simp add: acyclic_by_def list_all_iff case_prod_beta)
  ultimately show ?thesis using n(2) by (metis fst_conv snd_conv)
qed

definition written_ok :: "store \<Rightarrow> obj list \<times> obj list \<Rightarrow> bool" where
  "written_ok h s \<longleftrightarrow> set (snd s) \<subseteq> set (fst s) \<and> distinct (snd s) \<and> in_order (deps_of h) (snd s)"

text \<open>\<open>busy\<close>: the items whose dependencies are being written.\<close>

definition busy :: "obj list \<times> obj list \<Rightarrow> obj set" where
  "busy s = set (fst s) - set (snd s)"

lemma rec_write_ok:
  "acyclic_by rank h \<Longrightarrow> written_ok h s \<Longrightarrow> (\<And>x b. x \<in> set xs \<Longrightarrow> b \<in> busy s \<Longrightarrow> rank x < rank b)
    \<Longrightarrow> rec_write h xs s = s' \<Longrightarrow> written_ok h s' \<and> set (snd s) \<subseteq> set (snd s') \<and> set xs \<subseteq> set (snd s') \<and> busy s' = busy s"
proof (induction h xs s arbitrary: s' rule: rec_write.induct)
  case (2 h x xs don out)
  have fresh: "x \<notin> busy (don, out)" using 2(6) [of x x] by auto
  show ?case
  proof (cases "x \<in> set don")
    case True
    then have "x \<in> set out" using fresh by (simp add: busy_def)
    moreover have "written_ok h s' \<and> set (snd (don, out)) \<subseteq> set (snd s') \<and> set xs \<subseteq> set (snd s') \<and> busy s' = busy (don, out)"
      using True 2(4,5,6,7) by (intro 2(1)) auto
    ultimately show ?thesis by auto
  next
    case False
    then have notout: "x \<notin> set out" using 2(5) by (auto simp: written_ok_def)
    obtain don1 out1 where r: "rec_write h (deps_of h x) (x # don, out) = (don1, out1)"
      by (cases "rec_write h (deps_of h x) (x # don, out)")
    have b0: "busy (x # don, out) = insert x (busy (don, out))" using notout by (auto simp: busy_def)
    have "written_ok h (don1, out1) \<and> set (snd (x # don, out)) \<subseteq> set (snd (don1, out1))
        \<and> set (deps_of h x) \<subseteq> set (snd (don1, out1)) \<and> busy (don1, out1) = busy (x # don, out)"
    proof (rule 2(2) [OF False 2(4) _ _ r])
      show "written_ok h (x # don, out)" using 2(5) by (auto simp: written_ok_def)
      show "rank y < rank b" if "y \<in> set (deps_of h x)" "b \<in> busy (x # don, out)" for y b
        using acyclic_byD [OF 2(4) that(1)] that(2) 2(6) [of x b] b0 by auto
    qed
    then have m: "written_ok h (don1, out1)" "set out \<subseteq> set out1" "set (deps_of h x) \<subseteq> set out1"
      "busy (don1, out1) = insert x (busy (don, out))" using b0 by auto
    have x1: "x \<in> set don1" "x \<notin> set out1" using m(4) by (auto simp: busy_def)
    have b1: "busy (don1, out1 @ [x]) = busy (don, out)" using m(4) fresh by (auto simp: busy_def)
    have "written_ok h s' \<and> set (snd (don1, out1 @ [x])) \<subseteq> set (snd s') \<and> set xs \<subseteq> set (snd s')
        \<and> busy s' = busy (don1, out1 @ [x])"
    proof (rule 2(3) [OF False r [symmetric] 2(4)])
      show "written_ok h (don1, out1 @ [x])" using m x1 by (auto simp: written_ok_def)
      show "rank y < rank b" if "y \<in> set xs" "b \<in> busy (don1, out1 @ [x])" for y b
        using that 2(6) b1 by auto
      show "rec_write h xs (don1, out1 @ [x]) = s'" using 2(7) False r by simp
    qed
    with m(2) b1 show ?thesis by auto
  qed
qed auto

text \<open>
  (writer_dependencies_first): the topological writer writes every item it is given, each
  item at most once, and before an item all the items it depends on.
\<close>

theorem writer_dependencies_first:
  assumes "acyclic_by rank h"
  shows "set services \<subseteq> set (write_to h services) \<and> distinct (write_to h services)
    \<and> in_order (deps_of h) (write_to h services)"
  using rec_write_ok [OF assms, of "([], [])" services, OF _ _ refl] by (auto simp: write_to_def written_ok_def busy_def)

definition sample_store :: store where
  "sample_store = [(1, N_Element), (2, N_Alias 1), (3, N_Field 2), (4, N_Field 1), (5, N_Struct [3, 4]), (6, N_List 5),
     (7, N_Procedure 6 [] [5]), (8, N_Service [7])]"

theorem writer_dependencies_first_witness:
  "in_order (deps_of sample_store) (write_to sample_store [8]) \<and> write_to sample_store [8] = [1, 2, 3, 4, 5, 6, 7, 8]"
proof -
  have "acyclic_by id sample_store" by code_simp
  then have "in_order (deps_of sample_store) (write_to sample_store [8])" using writer_dependencies_first by blast
  moreover have "write_to sample_store [8] = [1, 2, 3, 4, 5, 6, 7, 8]" by code_simp
  ultimately show ?thesis by blast
qed

end
