(* ===== verification/Utf8.thy ===== *)
theory Utf8
  imports Prelude
begin

section \<open>UTF-8\<close>

text \<open>
  Python's codec, as \<open>unicode.encode('utf-8')\<close> and \<open>unicode(s, 'utf-8')\<close> use it: a unicode string
  is its list of code points, a byte string its list of bytes. Overlong forms and code points
  above \<open>0x10FFFF\<close> are refused; surrogates are let through, as Python 2 does.
\<close>

definition code_point :: "nat \<Rightarrow> bool" where
  "code_point c \<longleftrightarrow> c < 1114112"

definition utf8_char :: "nat \<Rightarrow> nat list" where
  "utf8_char c =
     (if c < 128 then [c]
      else if c < 2048 then [192 + c div 64, 128 + c mod 64]
      else if c < 65536 then [224 + c div 4096, 128 + c div 64 mod 64, 128 + c mod 64]
      else [240 + c div 262144, 128 + c div 4096 mod 64, 128 + c div 64 mod 64, 128 + c mod 64])"

definition utf8_encode :: "nat list \<Rightarrow> nat list" where
  "utf8_encode cs = concat (map utf8_char cs)"

definition trail :: "nat \<Rightarrow> bool" where
  "trail b \<longleftrightarrow> 128 \<le> b \<and> b < 192"

fun utf8_decode :: "nat list \<Rightarrow> nat list option" where
  "utf8_decode [] = Some []"
| "utf8_decode (b # bs) =
     (if b < 128 then map_option (Cons b) (utf8_decode bs)
      else if b < 192 then None
      else if b < 224 then
        (case bs of
           c1 # r \<Rightarrow>
             (let c = (b - 192) * 64 + (c1 - 128) in
              if trail c1 \<and> 128 \<le> c then map_option (Cons c) (utf8_decode r) else None)
         | _ \<Rightarrow> None)
      else if b < 240 then
        (case bs of
           c1 # c2 # r \<Rightarrow>
             (let c = (b - 224) * 4096 + (c1 - 128) * 64 + (c2 - 128) in
              if trail c1 \<and> trail c2 \<and> 2048 \<le> c then map_option (Cons c) (utf8_decode r) else None)
         | _ \<Rightarrow> None)
      else
        (case bs of
           c1 # c2 # c3 # r \<Rightarrow>
             (let c = (b - 240) * 262144 + (c1 - 128) * 4096 + (c2 - 128) * 64 + (c3 - 128) in
              if trail c1 \<and> trail c2 \<and> trail c3 \<and> 65536 \<le> c \<and> code_point c
              then map_option (Cons c) (utf8_decode r) else None)
         | _ \<Rightarrow> None))"

lemma trail_part [simp]: "trail (128 + c mod 64)"
proof -
  have "c mod 64 < 64" by simp
  then show ?thesis unfolding trail_def by linarith
qed

lemma digits2: "c div 64 * 64 + c mod 64 = (c :: nat)"
  by simp

lemma combine: "a * 64 + b = d \<Longrightarrow> d * m + e = c \<Longrightarrow> a * (64 * m) + b * m + e = (c :: nat)"
  by (auto simp: algebra_simps)

lemma digits3: "c div 4096 * 4096 + c div 64 mod 64 * 64 + c mod 64 = (c :: nat)"
proof -
  have "c div 4096 = c div 64 div 64" by (simp add: div_mult2_eq [symmetric])
  then have "c div 4096 * 64 + c div 64 mod 64 = c div 64" by (simp only: div_mult_mod_eq)
  from combine [OF this digits2] show ?thesis by simp
qed

lemma digits4: "c div 262144 * 262144 + c div 4096 mod 64 * 4096 + c div 64 mod 64 * 64 + c mod 64 = (c :: nat)"
proof -
  have "c div 262144 = c div 4096 div 64" by (simp add: div_mult2_eq [symmetric])
  then have "c div 262144 * 64 + c div 4096 mod 64 = c div 4096" by (simp only: div_mult_mod_eq)
  moreover have "c div 4096 * 4096 + (c div 64 mod 64 * 64 + c mod 64) = c"
    using digits3 [of c] by (simp only: add.assoc)
  ultimately have "c div 262144 * (64 * 4096) + c div 4096 mod 64 * 4096 + (c div 64 mod 64 * 64 + c mod 64) = c"
    by (rule combine)
  then show ?thesis by (simp add: add.assoc)
qed

lemma utf8_decode_char:
  assumes "code_point c"
  shows "utf8_decode (utf8_char c @ bs) = map_option (Cons c) (utf8_decode bs)"
proof -
  consider "c < 128" | "128 \<le> c" "c < 2048" | "2048 \<le> c" "c < 65536" | "65536 \<le> c" by linarith
  then show ?thesis
  proof cases
    case 1
    then show ?thesis by (simp add: utf8_char_def)
  next
    case 2
    have "c div 64 < 32" using 2 by (intro less_mult_imp_div_less) simp
    then show ?thesis using 2 by (simp add: utf8_char_def Let_def)
  next
    case 3
    have "c div 4096 < 16" using 3 by (intro less_mult_imp_div_less) simp
    then show ?thesis using 3 digits3 [of c] by (simp add: utf8_char_def Let_def)
  next
    case 4
    have "c div 262144 < 5" using assms by (intro less_mult_imp_div_less) (simp add: code_point_def)
    then show ?thesis using 4 digits4 [of c] assms by (simp add: utf8_char_def Let_def)
  qed
qed

lemma utf8_decode_encode [simp]: "list_all code_point cs \<Longrightarrow> utf8_decode (utf8_encode cs) = Some cs"
proof (induction cs)
  case Nil
  then show ?case by (simp add: utf8_encode_def)
next
  case (Cons c cs)
  then show ?case using utf8_decode_char [of c "utf8_encode cs"] by (simp add: utf8_encode_def)
qed

end
