(* ===== verification/Ars_Convert.thy ===== *)
theory Ars_Convert
  imports Ars_Model Utf8 Codec
begin

section \<open>satori.ars.model: conversion of values\<close>

text \<open>
  \<open>convert_to_ars\<close> turns the values of the program into those that go over the wire (byte
  strings, timestamps, instances of the structure classes), \<open>convert_from_ars\<close> back.
  \<^item> \<open>pyval\<close>: Python values. An instance of a structure class carries its identity (\<open>None\<close> for
    one the conversion itself has created), its class and its attributes; the source changes
    attributes in place, here the changed instance is returned. Values are trees: no instance
    is shared by two positions.
  \<^item> \<open>env\<close>: what is not in \<open>model.py\<close>: the local time functions and the \<open>converter\<close> a client may
    put on a type.
\<close>

datatype ('f, 'd) pyval =
    PNone
  | PBool bool
  | PInt int
  | PFloat 'f
  | PBytes "nat list"
  | PUnicode "nat list"
  | PDate 'd
  | PList "('f, 'd) pyval list"
  | PSet "('f, 'd) pyval list"
  | PDict "(('f, 'd) pyval \<times> ('f, 'd) pyval) list"
  | PObj "obj option" ars_type "(string \<times> ('f, 'd) pyval) list"

record ('f, 'd) converter =
  cv_needs :: bool
  cv_to :: "('f, 'd) pyval \<Rightarrow> ('f, 'd) pyval outcome"
  cv_from :: "('f, 'd) pyval \<Rightarrow> ('f, 'd) pyval outcome"

record ('f, 'd) env =
  en_mktime :: "'d \<Rightarrow> int outcome"
  en_fromtimestamp :: "('f, 'd) pyval \<Rightarrow> 'd outcome"
  en_converter :: "ars_type \<Rightarrow> ('f, 'd) converter option"

fun needs_conversion :: "('f, 'd) env \<Rightarrow> ars_type \<Rightarrow> bool" where
  "needs_conversion X (Atomic a) =
     (case en_converter X (Atomic a) of Some c \<Rightarrow> cv_needs c | None \<Rightarrow> a = ArsString)"
| "needs_conversion X (Alias i n t) =
     (case en_converter X (Alias i n t) of Some c \<Rightarrow> cv_needs c | None \<Rightarrow> needs_conversion X t)"
| "needs_conversion X DateTime = (case en_converter X DateTime of Some c \<Rightarrow> cv_needs c | None \<Rightarrow> True)"
| "needs_conversion X (ListT t) =
     (case en_converter X (ListT t) of Some c \<Rightarrow> cv_needs c | None \<Rightarrow> needs_conversion X t)"
| "needs_conversion X (SetT t) =
     (case en_converter X (SetT t) of Some c \<Rightarrow> cv_needs c | None \<Rightarrow> needs_conversion X t)"
| "needs_conversion X (MapT k v) =
     (case en_converter X (MapT k v) of Some c \<Rightarrow> cv_needs c
      | None \<Rightarrow> needs_conversion X k \<or> needs_conversion X v)"
| "needs_conversion X (Struct e i n b fs) =
     (case en_converter X (Struct e i n b fs) of Some c \<Rightarrow> cv_needs c | None \<Rightarrow> True)"

subsection \<open>Python's own part\<close>

fun hashable :: "('f, 'd) pyval \<Rightarrow> bool" where
  "hashable (PList xs) = False"
| "hashable (PSet xs) = False"
| "hashable (PDict kvs) = False"
| "hashable v = True"

text \<open>What a \<open>for\<close> loop over a value runs through.\<close>

fun iter_of :: "('f, 'd) pyval \<Rightarrow> ('f, 'd) pyval list outcome" where
  "iter_of (PList xs) = Ok xs"
| "iter_of (PSet xs) = Ok xs"
| "iter_of (PDict kvs) = Ok (map fst kvs)"
| "iter_of (PBytes bs) = Ok (map (\<lambda>b. PBytes [b]) bs)"
| "iter_of (PUnicode cs) = Ok (map (\<lambda>c. PUnicode [c]) cs)"
| "iter_of v = Raise TypeError"

fun iteritems :: "('f, 'd) pyval \<Rightarrow> (('f, 'd) pyval \<times> ('f, 'd) pyval) list outcome" where
  "iteritems (PDict kvs) = Ok kvs"
| "iteritems v = Raise (AttributeError ''iteritems'')"

definition new_set :: "('f, 'd) pyval list \<Rightarrow> ('f, 'd) pyval" where
  "new_set xs = PSet (sunion [] xs)"

definition new_dict :: "(('f, 'd) pyval \<times> ('f, 'd) pyval) list \<Rightarrow> ('f, 'd) pyval" where
  "new_dict kvs = PDict (dmerge [] kvs)"

definition to_hash :: "('f, 'd) pyval \<Rightarrow> ('f, 'd) pyval outcome" where
  "to_hash v = (if hashable v then Ok v else Raise TypeError)"

text \<open>The keys a name is found under in a dict: the byte string, and the equal unicode string.\<close>

definition codes :: "string \<Rightarrow> nat list" where
  "codes n = map of_char n"

definition is_key :: "string \<Rightarrow> ('f, 'd) pyval \<Rightarrow> bool" where
  "is_key n k \<longleftrightarrow> k = PBytes (codes n) \<or> (k = PUnicode (codes n) \<and> list_all (\<lambda>c. c < 128) (codes n))"

text \<open>
  \<open>ArsStructureBase.__init__\<close>: the fields from the dict, the missing ones \<open>None\<close>, and an error
  for what is left over. Exceptions have the same constructor.
\<close>

definition new_instance :: "ars_type \<Rightarrow> ars_type field list \<Rightarrow> (('f, 'd) pyval \<times> ('f, 'd) pyval) list \<Rightarrow> ('f, 'd) pyval outcome" where
  "new_instance t fs kvs =
     (if list_all (\<lambda>(k, v). list_ex (\<lambda>f. is_key (field_name f) k) fs) kvs
      then Ok (PObj None t (map (\<lambda>f. (field_name f,
             case find (\<lambda>(k, v). is_key (field_name f) k) kvs of Some (k, v) \<Rightarrow> v | None \<Rightarrow> PNone)) fs))
      else Raise TypeError)"

subsection \<open>convert_to_ars and convert_from_ars\<close>

definition to_bytes :: "('f, 'd) pyval \<Rightarrow> ('f, 'd) pyval" where
  "to_bytes v = (case v of PUnicode cs \<Rightarrow> PBytes (utf8_encode cs) | _ \<Rightarrow> v)"

definition of_bytes :: "('f, 'd) pyval \<Rightarrow> ('f, 'd) pyval outcome" where
  "of_bytes v =
     (case v of
        PBytes bs \<Rightarrow> (case utf8_decode bs of Some cs \<Rightarrow> Ok (PUnicode cs) | None \<Rightarrow> Raise ValueError)
      | _ \<Rightarrow> Raise TypeError)"

definition timestamp :: "('f, 'd) env \<Rightarrow> ('f, 'd) pyval \<Rightarrow> ('f, 'd) pyval outcome" where
  "timestamp X v = (case v of PDate d \<Rightarrow> map_ok PInt (en_mktime X d) | _ \<Rightarrow> Raise (AttributeError ''timetuple''))"

text \<open>The tests that all types share: \<open>None\<close>, types that need no conversion, and a converter.\<close>

definition convert_with :: "('f, 'd) env \<Rightarrow> (('f, 'd) converter \<Rightarrow> ('f, 'd) pyval \<Rightarrow> ('f, 'd) pyval outcome) \<Rightarrow> ars_type
    \<Rightarrow> ('f, 'd) pyval \<Rightarrow> ('f, 'd) pyval outcome \<Rightarrow> ('f, 'd) pyval outcome" where
  "convert_with X run t v do_convert =
     (if v = PNone then Ok PNone
      else if \<not> needs_conversion X t then Ok v
      else case en_converter X t of Some c \<Rightarrow> run c v | None \<Rightarrow> do_convert)"

function (sequential) to_ars :: "('f, 'd) env \<Rightarrow> ars_type \<Rightarrow> ('f, 'd) pyval \<Rightarrow> ('f, 'd) pyval outcome"
  and fields_to_ars :: "('f, 'd) env \<Rightarrow> ars_type field list \<Rightarrow> (string, ('f, 'd) pyval) dict
    \<Rightarrow> (string, ('f, 'd) pyval) dict outcome" where
  "to_ars X (Atomic a) v = convert_with X cv_to (Atomic a) v (Ok (to_bytes v))"
| "to_ars X (Alias i n t) v = convert_with X cv_to (Alias i n t) v (to_ars X t v)"
| "to_ars X DateTime v = convert_with X cv_to DateTime v (timestamp X v)"
| "to_ars X (ListT t) v = convert_with X cv_to (ListT t) v
     (bind_ok (iter_of v) (\<lambda>xs. map_ok PList (map_outcome (\<lambda>x. to_ars X t x) xs)))"
| "to_ars X (SetT t) v = convert_with X cv_to (SetT t) v
     (bind_ok (iter_of v) (\<lambda>xs. map_ok new_set (map_outcome (\<lambda>x. bind_ok (to_ars X t x) to_hash) xs)))"
| "to_ars X (MapT k v) d = convert_with X cv_to (MapT k v) d
     (bind_ok (iteritems d) (\<lambda>kvs. map_ok new_dict (map_outcome (\<lambda>e.
        bind_ok (to_ars X v (snd e)) (\<lambda>y. bind_ok (bind_ok (to_ars X k (fst e)) to_hash) (\<lambda>x. Ok (x, y)))) kvs)))"
| "to_ars X (Struct e i n b fs) v = convert_with X cv_to (Struct e i n b fs) v
     (bind_ok (case v of PDict kvs \<Rightarrow> new_instance (Struct e i n b fs) fs kvs | _ \<Rightarrow> Ok v) (\<lambda>w.
        case w of PObj r c at \<Rightarrow> map_ok (PObj r c) (fields_to_ars X fs at) | _ \<Rightarrow> Ok w))"
| "fields_to_ars X [] at = Ok at"
| "fields_to_ars X (f # fs) at =
     (case dget at (field_name f) of
        None \<Rightarrow> fields_to_ars X fs at
      | Some v \<Rightarrow>
          if needs_conversion X (field_type f)
          then bind_ok (to_ars X (field_type f) v) (\<lambda>w. fields_to_ars X fs (dset (field_name f) w at))
          else fields_to_ars X fs at)"
  by pat_completeness auto

termination to_ars
  by (relation "measure (case_sum (\<lambda>(X, t, v). size t) (\<lambda>(X, fs, at). fields_size fs))")
    (simp_all add: less_Suc_eq_le trans_le_add1 less_imp_le)

function (sequential) from_ars :: "('f, 'd) env \<Rightarrow> ars_type \<Rightarrow> ('f, 'd) pyval \<Rightarrow> ('f, 'd) pyval outcome"
  and fields_from_ars :: "('f, 'd) env \<Rightarrow> ars_type field list \<Rightarrow> (string, ('f, 'd) pyval) dict
    \<Rightarrow> (string, ('f, 'd) pyval) dict outcome" where
  "from_ars X (Atomic a) v = convert_with X cv_from (Atomic a) v (of_bytes v)"
| "from_ars X (Alias i n t) v = convert_with X cv_from (Alias i n t) v (from_ars X t v)"
| "from_ars X DateTime v = convert_with X cv_from DateTime v (map_ok PDate (en_fromtimestamp X v))"
| "from_ars X (ListT t) v = convert_with X cv_from (ListT t) v
     (bind_ok (iter_of v) (\<lambda>xs. map_ok PList (map_outcome (\<lambda>x. from_ars X t x) xs)))"
| "from_ars X (SetT t) v = convert_with X cv_from (SetT t) v
     (bind_ok (iter_of v) (\<lambda>xs. map_ok new_set (map_outcome (\<lambda>x. bind_ok (from_ars X t x) to_hash) xs)))"
| "from_ars X (MapT k v) d = convert_with X cv_from (MapT k v) d
     (bind_ok (iteritems d) (\<lambda>kvs. map_ok new_dict (map_outcome (\<lambda>e.
        bind_ok (from_ars X v (snd e)) (\<lambda>y. bind_ok (bind_ok (from_ars X k (fst e)) to_hash) (\<lambda>x. Ok (x, y)))) kvs)))"
| "from_ars X (Struct e i n b fs) v = convert_with X cv_from (Struct e i n b fs) v
     (case v of PObj r c at \<Rightarrow> map_ok (PObj r c) (fields_from_ars X fs at) | _ \<Rightarrow> Ok v)"
| "fields_from_ars X [] at = Ok at"
| "fields_from_ars X (f # fs) at =
     (case dget at (field_name f) of
        None \<Rightarrow> fields_from_ars X fs at
      | Some v \<Rightarrow>
          if needs_conversion X (field_type f)
          then bind_ok (from_ars X (field_type f) v) (\<lambda>w. fields_from_ars X fs (dset (field_name f) w at))
          else fields_from_ars X fs at)"
  by pat_completeness auto

termination from_ars
  by (relation "measure (case_sum (\<lambda>(X, t, v). size t) (\<lambda>(X, fs, at). fields_size fs))")
    (simp_all add: less_Suc_eq_le trans_le_add1 less_imp_le)

declare to_ars.simps(1-7) [simp del] from_ars.simps(1-7) [simp del]

subsection \<open>Values that survive\<close>

text \<open>What the source relies on in a converter: the value comes back, and is never \<open>None\<close>.\<close>

definition comes_back :: "(('f, 'd) pyval \<Rightarrow> ('f, 'd) pyval outcome) \<Rightarrow> (('f, 'd) pyval \<Rightarrow> ('f, 'd) pyval outcome)
    \<Rightarrow> ('f, 'd) pyval \<Rightarrow> bool" where
  "comes_back f g v = (case f v of Ok w \<Rightarrow> w \<noteq> PNone \<and> g w = Ok v | Raise e \<Rightarrow> False)"

definition good_with :: "('f, 'd) env \<Rightarrow> ars_type \<Rightarrow> ('f, 'd) pyval \<Rightarrow> bool \<Rightarrow> bool" where
  "good_with X t v g \<longleftrightarrow> v = PNone \<or> \<not> needs_conversion X t
     \<or> (case en_converter X t of Some c \<Rightarrow> comes_back (cv_to c) (cv_from c) v | None \<Rightarrow> g)"

definition hash_kept :: "('f, 'd) pyval outcome \<Rightarrow> bool" where
  "hash_kept r = (case r of Ok w \<Rightarrow> hashable w | Raise e \<Rightarrow> False)"

text \<open>The values of a type, on the side of the program.\<close>

function (sequential) py_ok :: "('f, 'd) env \<Rightarrow> ars_type \<Rightarrow> ('f, 'd) pyval \<Rightarrow> bool"
  and fields_ok :: "('f, 'd) env \<Rightarrow> ars_type field list \<Rightarrow> (string, ('f, 'd) pyval) dict \<Rightarrow> bool" where
  "py_ok X (Atomic a) v = good_with X (Atomic a) v
     (case v of PUnicode cs \<Rightarrow> list_all code_point cs | _ \<Rightarrow> False)"
| "py_ok X (Alias i n t) v = good_with X (Alias i n t) v (py_ok X t v)"
| "py_ok X DateTime v = good_with X DateTime v
     (comes_back (timestamp X) (\<lambda>w. map_ok PDate (en_fromtimestamp X w)) v)"
| "py_ok X (ListT t) v = good_with X (ListT t) v
     (case v of PList xs \<Rightarrow> list_all (\<lambda>x. py_ok X t x) xs | _ \<Rightarrow> False)"
| "py_ok X (SetT t) v = good_with X (SetT t) v
     (case v of PSet xs \<Rightarrow> distinct xs \<and> list_all (\<lambda>x. hashable x \<and> hash_kept (to_ars X t x) \<and> py_ok X t x) xs
      | _ \<Rightarrow> False)"
| "py_ok X (MapT k v) d = good_with X (MapT k v) d
     (case d of PDict kvs \<Rightarrow> distinct (map fst kvs)
        \<and> list_all (\<lambda>e. hashable (fst e) \<and> hash_kept (to_ars X k (fst e)) \<and> py_ok X k (fst e) \<and> py_ok X v (snd e)) kvs
      | _ \<Rightarrow> False)"
| "py_ok X (Struct e i n b fs) v = good_with X (Struct e i n b fs) v
     (case v of PObj r c at \<Rightarrow> nt_ok field_name fs \<and> fields_ok X fs at | _ \<Rightarrow> False)"
| "fields_ok X [] at = True"
| "fields_ok X (f # fs) at \<longleftrightarrow>
     (case dget at (field_name f) of None \<Rightarrow> True | Some v \<Rightarrow> py_ok X (field_type f) v) \<and> fields_ok X fs at"
  by pat_completeness auto

termination py_ok
  by (relation "measure (case_sum (\<lambda>(X, t, v). size t) (\<lambda>(X, fs, at). fields_size fs))")
    (simp_all add: less_Suc_eq_le trans_le_add1 less_imp_le)

declare py_ok.simps(1-7) [simp del]

text \<open>The statement of the round trip for one value.\<close>

definition returns :: "('f, 'd) env \<Rightarrow> ars_type \<Rightarrow> ('f, 'd) pyval \<Rightarrow> bool" where
  "returns X t v \<longleftrightarrow> (\<exists>w. to_ars X t v = Ok w \<and> from_ars X t w = Ok v \<and> (w = PNone \<longleftrightarrow> v = PNone))"

lemma returns_with:
  assumes "good_with X t v g"
    and to_t: "\<And>v. to_ars X t v = convert_with X cv_to t v (p v)"
    and from_t: "\<And>v. from_ars X t v = convert_with X cv_from t v (q v)"
    and "v \<noteq> PNone \<Longrightarrow> g \<Longrightarrow> en_converter X t = None \<Longrightarrow> \<exists>w. p v = Ok w \<and> q w = Ok v \<and> w \<noteq> PNone"
  shows "returns X t v"
proof (cases "v = PNone \<or> \<not> needs_conversion X t")
  case True
  then show ?thesis by (auto simp: returns_def to_t from_t convert_with_def)
next
  case False
  show ?thesis
  proof (cases "en_converter X t")
    case None
    then have g using assms(1) False by (simp add: good_with_def)
    with assms(4) None False obtain w where "p v = Ok w" "q w = Ok v" "w \<noteq> PNone" by blast
    with None False show ?thesis by (auto simp: returns_def to_t from_t convert_with_def)
  next
    case (Some c)
    then have "comes_back (cv_to c) (cv_from c) v" using assms(1) False by (simp add: good_with_def)
    then obtain w where "cv_to c v = Ok w" "cv_from c w = Ok v" "w \<noteq> PNone"
      by (auto simp: comes_back_def split: outcome.splits)
    with Some False show ?thesis by (auto simp: returns_def to_t from_t convert_with_def)
  qed
qed

lemma sunion_distinct: "distinct xs \<Longrightarrow> sunion [] xs = xs"
proof -
  have "distinct (ys @ xs) \<Longrightarrow> fold sadd xs ys = ys @ xs" for ys
    by (induction xs arbitrary: ys) (auto simp: sadd_def)
  then show "distinct xs \<Longrightarrow> sunion [] xs = xs" by (simp add: sunion_def)
qed

lemma dmerge_distinct:
  fixes kvs :: "('k, 'v) dict"
  shows "distinct (map fst kvs) \<Longrightarrow> dmerge [] kvs = kvs"
proof -
  have "distinct (map fst (d @ kvs)) \<Longrightarrow> dmerge d kvs = d @ kvs" for d :: "('k, 'v) dict"
  proof (induction kvs arbitrary: d)
    case (Cons kv kvs)
    obtain k v where kv: "kv = (k, v)" by (cases kv)
    have "dset k v d = d @ [(k, v)]" using Cons.prems kv by (intro dset_append_new) (auto simp: dkeys_def)
    with Cons kv show ?case by simp
  qed simp
  from this [of "[]"] show "distinct (map fst kvs) \<Longrightarrow> dmerge [] kvs = kvs" by simp
qed


text \<open>Element by element: the codec of a type, restricted to the elements at hand.\<close>

lemma element_codec:
  "codec (\<lambda>x. to_ars X t x) (\<lambda>x. from_ars X t x) (returns X t)"
  by (rule codec.intro) (auto simp: returns_def)

lemma hashed_codec:
  "codec (\<lambda>x. bind_ok (to_ars X t x) to_hash) (\<lambda>x. bind_ok (from_ars X t x) to_hash)
     (\<lambda>x. returns X t x \<and> hashable x \<and> hash_kept (to_ars X t x))"
  by (rule codec.intro) (auto simp: returns_def to_hash_def hash_kept_def)

lemma pair_codec:
  "codec (\<lambda>e. bind_ok (to_ars X v (snd e)) (\<lambda>y. bind_ok (bind_ok (to_ars X k (fst e)) to_hash) (\<lambda>x. Ok (x, y))))
     (\<lambda>e. bind_ok (from_ars X v (snd e)) (\<lambda>y. bind_ok (bind_ok (from_ars X k (fst e)) to_hash) (\<lambda>x. Ok (x, y))))
     (\<lambda>e. returns X k (fst e) \<and> hashable (fst e) \<and> hash_kept (to_ars X k (fst e)) \<and> returns X v (snd e))"
  by (rule codec.intro) (auto simp: returns_def to_hash_def hash_kept_def)

lemma pair_keys:
  assumes "map_outcome (\<lambda>e. bind_ok (g (snd e)) (\<lambda>y. bind_ok (f (fst e)) (\<lambda>x. Ok (x, y)))) kvs = Ok ws"
  shows "map_outcome f (map fst kvs) = Ok (map fst ws)"
  using assms by (simp add: map_outcome_eq_Ok list_all2_map1 list_all2_map2)
    (erule list_all2_mono; auto simp: outcome_simps)

lemma set_returns:
  assumes "distinct xs" and "\<And>x. x \<in> set xs \<Longrightarrow> hashable x \<and> hash_kept (to_ars X t x) \<and> returns X t x"
  shows "\<exists>ws. map_outcome (\<lambda>x. bind_ok (to_ars X t x) to_hash) xs = Ok ws
    \<and> map_outcome (\<lambda>x. bind_ok (from_ars X t x) to_hash) (sunion [] ws) = Ok xs"
proof -
  have g: "list_all (\<lambda>x. returns X t x \<and> hashable x \<and> hash_kept (to_ars X t x)) xs"
    using assms(2) by (simp add: list_all_iff)
  obtain ws where ws: "map_outcome (\<lambda>x. bind_ok (to_ars X t x) to_hash) xs = Ok ws"
    "map_outcome (\<lambda>x. bind_ok (from_ars X t x) to_hash) ws = Ok xs"
    using codec.list_round [OF hashed_codec g] by blast
  have "distinct ws" by (rule codec.list_distinct [OF hashed_codec g ws(1) assms(1)])
  with ws show ?thesis by (auto simp: sunion_distinct)
qed

lemma dict_returns:
  assumes "distinct (map fst kvs)"
    and "\<And>e. e \<in> set kvs \<Longrightarrow> hashable (fst e) \<and> hash_kept (to_ars X k (fst e)) \<and> returns X k (fst e) \<and> returns X v (snd e)"
  shows "\<exists>ws. map_outcome (\<lambda>e. bind_ok (to_ars X v (snd e)) (\<lambda>y. bind_ok (bind_ok (to_ars X k (fst e)) to_hash) (\<lambda>x. Ok (x, y)))) kvs = Ok ws
    \<and> map_outcome (\<lambda>e. bind_ok (from_ars X v (snd e)) (\<lambda>y. bind_ok (bind_ok (from_ars X k (fst e)) to_hash) (\<lambda>x. Ok (x, y)))) (dmerge [] ws) = Ok kvs"
proof -
  have g: "list_all (\<lambda>e. returns X k (fst e) \<and> hashable (fst e) \<and> hash_kept (to_ars X k (fst e)) \<and> returns X v (snd e)) kvs"
    using assms(2) by (simp add: list_all_iff)
  obtain ws where ws: "map_outcome (\<lambda>e. bind_ok (to_ars X v (snd e)) (\<lambda>y. bind_ok (bind_ok (to_ars X k (fst e)) to_hash) (\<lambda>x. Ok (x, y)))) kvs = Ok ws"
    "map_outcome (\<lambda>e. bind_ok (from_ars X v (snd e)) (\<lambda>y. bind_ok (bind_ok (from_ars X k (fst e)) to_hash) (\<lambda>x. Ok (x, y)))) ws = Ok kvs"
    using codec.list_round [OF pair_codec g] by blast
  have gk: "list_all (\<lambda>x. returns X k x \<and> hashable x \<and> hash_kept (to_ars X k x)) (map fst kvs)"
    using assms(2) by (auto simp: list_all_iff)
  have "distinct (map fst ws)"
    by (rule codec.list_distinct [OF hashed_codec gk pair_keys [OF ws(1)] assms(1)])
  with ws show ?thesis by (auto simp: dmerge_distinct)
qed

text \<open>The attributes of an instance, field by field.\<close>

lemma fields_to_other:
  "fields_to_ars X fs at = Ok at' \<Longrightarrow> n \<notin> field_name ` set fs \<Longrightarrow> dget at' n = dget at n"
proof (induction fs arbitrary: at)
  case (Cons f fs)
  then show ?case by (fastforce simp: outcome_simps split: option.splits if_splits)
qed simp

lemma dset_present: "dget d k = Some u \<Longrightarrow> dkeys (dset k v d) = dkeys d"
  by (induction d) (auto simp: dkeys_def split: if_splits)

lemma dset_commute:
  "m \<noteq> n \<Longrightarrow> dget d m \<noteq> None \<Longrightarrow> dset n v (dset m w d) = dset m w (dset n v d)"
proof (induction d)
  case (Cons kv d)
  then show ?case by (cases kv) (auto simp: dset_append_new)
qed simp

lemma fields_from_dset:
  "n \<notin> field_name ` set fs \<Longrightarrow> fields_from_ars X fs at = Ok at'
    \<Longrightarrow> fields_from_ars X fs (dset n v at) = Ok (dset n v at')"
proof (induction fs arbitrary: at)
  case (Cons f fs)
  have ne: "field_name f \<noteq> n" using Cons.prems(1) by auto
  show ?case
  proof (cases "dget at (field_name f)")
    case None
    with Cons ne show ?thesis by simp
  next
    case (Some u)
    show ?thesis
    proof (cases "needs_conversion X (field_type f)")
      case True
      then obtain w where w: "from_ars X (field_type f) u = Ok w"
        "fields_from_ars X fs (dset (field_name f) w at) = Ok at'"
        using Cons.prems(2) Some by (auto simp: outcome_simps)
      have "fields_from_ars X fs (dset n v (dset (field_name f) w at)) = Ok (dset n v at')"
        using Cons.prems(1) w(2) by (intro Cons.IH) auto
      with w(1) True Some Cons.prems(1) show ?thesis
        using dset_commute [of "field_name f" n at v w] by auto
    qed (use Cons Some ne in auto)
  qed
qed simp

lemma fields_return:
  "distinct (map field_name fs)
    \<Longrightarrow> (\<And>f v. f \<in> set fs \<Longrightarrow> dget at (field_name f) = Some v \<Longrightarrow> returns X (field_type f) v)
    \<Longrightarrow> \<exists>at'. fields_to_ars X fs at = Ok at' \<and> fields_from_ars X fs at' = Ok at"
proof (induction fs arbitrary: at)
  case (Cons f fs)
  let ?n = "field_name f"
  have fresh: "?n \<notin> field_name ` set fs" using Cons.prems(1) by auto
  show ?case
  proof (cases "dget at ?n")
    case None
    obtain at' where at': "fields_to_ars X fs at = Ok at'" "fields_from_ars X fs at' = Ok at"
      using Cons.IH [of at] Cons.prems by auto
    with fields_to_other [OF at'(1) fresh] None show ?thesis by auto
  next
    case (Some v)
    show ?thesis
    proof (cases "needs_conversion X (field_type f)")
      case False
      obtain at' where at': "fields_to_ars X fs at = Ok at'" "fields_from_ars X fs at' = Ok at"
        using Cons.IH [of at] Cons.prems by auto
      with fields_to_other [OF at'(1) fresh] Some False show ?thesis by auto
    next
      case True
      obtain w where w: "to_ars X (field_type f) v = Ok w" "from_ars X (field_type f) w = Ok v"
        using Cons.prems(2) [of f v] Some by (auto simp: returns_def)
      let ?at = "dset ?n w at"
      have "returns X (field_type g) u" if "g \<in> set fs" "dget ?at (field_name g) = Some u" for g u
        using that fresh Cons.prems(2) [of g u] by (cases "field_name g = ?n") (auto simp: image_iff)
      then obtain at' where at': "fields_to_ars X fs ?at = Ok at'" "fields_from_ars X fs at' = Ok ?at"
        using Cons.IH [of ?at] Cons.prems(1) by auto
      have "dget at' ?n = Some w" using fields_to_other [OF at'(1) fresh] by simp
      moreover have "fields_from_ars X fs (dset ?n v at') = Ok at"
        using fields_from_dset [OF fresh at'(2), of v] dset_same [OF Some] by simp
      ultimately show ?thesis using w at'(1) Some True by auto
    qed
  qed
qed simp

subsection \<open>The round trip\<close>

lemma py_ok_returns:
  "py_ok X t v \<Longrightarrow> returns X t v"
  "fields_ok X fs at \<Longrightarrow> f \<in> set fs \<Longrightarrow> dget at (field_name f) = Some v \<Longrightarrow> returns X (field_type f) v"
proof (induction X t v and X fs at arbitrary: and f v rule: py_ok_fields_ok.induct)
  case (1 X a v)
  then show ?case unfolding py_ok.simps
    by (rule returns_with [OF _ to_ars.simps(1) from_ars.simps(1)])
      (auto simp: to_bytes_def of_bytes_def split: pyval.splits)
next
  case (2 X i n t v)
  show ?case
    by (rule returns_with [OF 2(2) [unfolded py_ok.simps] to_ars.simps(2) from_ars.simps(2)])
      (use 2(1) in \<open>auto simp: returns_def\<close>)
next
  case (3 X v)
  then show ?case unfolding py_ok.simps
    by (rule returns_with [OF _ to_ars.simps(3) from_ars.simps(3)])
      (auto simp: comes_back_def split: outcome.splits)
next
  case (4 X t v)
  show ?case
  proof (rule returns_with [OF 4(2) [unfolded py_ok.simps] to_ars.simps(4) from_ars.simps(4)])
    assume "case v of PList xs \<Rightarrow> list_all (\<lambda>x. py_ok X t x) xs | _ \<Rightarrow> False"
    then obtain xs where v: "v = PList xs" "list_all (\<lambda>x. py_ok X t x) xs" by (cases v) auto
    then have "list_all (returns X t) xs" using 4(1) by (auto simp: list_all_iff)
    from codec.list_round [OF element_codec this] obtain ws where
      "map_outcome (\<lambda>x. to_ars X t x) xs = Ok ws" "map_outcome (\<lambda>x. from_ars X t x) ws = Ok xs" by blast
    then show "\<exists>w. bind_ok (iter_of v) (\<lambda>xs. map_ok PList (map_outcome (to_ars X t) xs)) = Ok w
        \<and> bind_ok (iter_of w) (\<lambda>xs. map_ok PList (map_outcome (from_ars X t) xs)) = Ok v \<and> w \<noteq> PNone"
      using v(1) by auto
  qed
next
  case (5 X t v)
  show ?case
  proof (rule returns_with [OF 5(2) [unfolded py_ok.simps] to_ars.simps(5) from_ars.simps(5)])
    assume "case v of PSet xs \<Rightarrow> distinct xs \<and> list_all (\<lambda>x. hashable x \<and> hash_kept (to_ars X t x) \<and> py_ok X t x) xs
      | _ \<Rightarrow> False"
    then obtain xs where v: "v = PSet xs" "distinct xs"
      "list_all (\<lambda>x. hashable x \<and> hash_kept (to_ars X t x) \<and> py_ok X t x) xs" by (cases v) auto
    have "hashable x \<and> hash_kept (to_ars X t x) \<and> returns X t x" if "x \<in> set xs" for x
      using v that 5(1) by (auto simp: list_all_iff)
    from set_returns [OF v(2) this] v(1,2)
    show "\<exists>w. bind_ok (iter_of v) (\<lambda>xs. map_ok new_set (map_outcome (\<lambda>x. bind_ok (to_ars X t x) to_hash) xs)) = Ok w
        \<and> bind_ok (iter_of w) (\<lambda>xs. map_ok new_set (map_outcome (\<lambda>x. bind_ok (from_ars X t x) to_hash) xs)) = Ok v
        \<and> w \<noteq> PNone"
      by (auto simp: new_set_def sunion_distinct)
  qed
next
  case (6 X k v d)
  show ?case
  proof (rule returns_with [OF 6(3) [unfolded py_ok.simps] to_ars.simps(6) from_ars.simps(6)])
    assume "case d of PDict kvs \<Rightarrow> distinct (map fst kvs)
        \<and> list_all (\<lambda>e. hashable (fst e) \<and> hash_kept (to_ars X k (fst e)) \<and> py_ok X k (fst e) \<and> py_ok X v (snd e)) kvs
      | _ \<Rightarrow> False"
    then obtain kvs where d: "d = PDict kvs" "distinct (map fst kvs)"
      "list_all (\<lambda>e. hashable (fst e) \<and> hash_kept (to_ars X k (fst e)) \<and> py_ok X k (fst e) \<and> py_ok X v (snd e)) kvs"
      by (cases d) auto
    have "hashable (fst e) \<and> hash_kept (to_ars X k (fst e)) \<and> returns X k (fst e) \<and> returns X v (snd e)"
      if "e \<in> set kvs" for e
      using d that 6(1,2) by (auto simp: list_all_iff)
    from dict_returns [OF d(2) this] d(1,2)
    show "\<exists>w. bind_ok (iteritems d) (\<lambda>kvs. map_ok new_dict (map_outcome (\<lambda>e. bind_ok (to_ars X v (snd e))
          (\<lambda>y. bind_ok (bind_ok (to_ars X k (fst e)) to_hash) (\<lambda>x. Ok (x, y)))) kvs)) = Ok w
        \<and> bind_ok (iteritems w) (\<lambda>kvs. map_ok new_dict (map_outcome (\<lambda>e. bind_ok (from_ars X v (snd e))
          (\<lambda>y. bind_ok (bind_ok (from_ars X k (fst e)) to_hash) (\<lambda>x. Ok (x, y)))) kvs)) = Ok d
        \<and> w \<noteq> PNone"
      by (auto simp: new_dict_def dmerge_distinct)
  qed
next
  case (7 X e i n b fs v)
  show ?case
  proof (rule returns_with [OF 7(2) [unfolded py_ok.simps] to_ars.simps(7) from_ars.simps(7)])
    assume "case v of PObj r c at \<Rightarrow> nt_ok field_name fs \<and> fields_ok X fs at | _ \<Rightarrow> False"
    then obtain r c at where v: "v = PObj r c at" "nt_ok field_name fs" "fields_ok X fs at" by (cases v) auto
    then have "\<exists>at'. fields_to_ars X fs at = Ok at' \<and> fields_from_ars X fs at' = Ok at"
      using 7(1) by (intro fields_return) (auto simp: nt_ok_def)
    with v(1) show "\<exists>w. bind_ok (case v of PDict kvs \<Rightarrow> new_instance (Struct e i n b fs) fs kvs | _ \<Rightarrow> Ok v)
        (\<lambda>w. case w of PObj r c at \<Rightarrow> map_ok (PObj r c) (fields_to_ars X fs at) | _ \<Rightarrow> Ok w) = Ok w
        \<and> (case w of PObj r c at \<Rightarrow> map_ok (PObj r c) (fields_from_ars X fs at) | _ \<Rightarrow> Ok w) = Ok v \<and> w \<noteq> PNone"
      by auto
  qed
qed auto

interpretation wire: codec "to_ars X t" "from_ars X t" "py_ok X t"
  by (rule codec.intro) (use py_ok_returns(1) in \<open>fastforce simp: returns_def\<close>)

text \<open>
  C28 (ars_values_round_trip): a value of a type (text, dates of whole seconds, lists, sets, maps and
  instances, nested in any way, or anything below a type that needs no conversion) converts
  to a wire value, and that value converts back to it; \<open>None\<close> and only \<open>None\<close> goes over as \<open>None\<close>.
\<close>

theorem ars_values_round_trip:
  assumes "py_ok X t v"
  shows "\<exists>w. to_ars X t v = Ok w \<and> from_ars X t w = Ok v \<and> (w = PNone \<longleftrightarrow> v = PNone)"
proof -
  obtain w where "to_ars X t v = Ok w" "from_ars X t w = Ok v" using wire.round [OF assms] by blast
  with py_ok_returns(1) [OF assms] show ?thesis by (auto simp: returns_def)
qed

text \<open>A clock in a zone two hours east: a date is its seconds and microseconds.\<close>

definition sample_env :: "(unit, int \<times> nat) env" where
  "sample_env = \<lparr>en_mktime = (\<lambda>(s, us). Ok (s - 7200)),
     en_fromtimestamp = (\<lambda>v. case v of PInt i \<Rightarrow> Ok (i + 7200, 0) | _ \<Rightarrow> Raise TypeError),
     en_converter = (\<lambda>t. None)\<rparr>"

definition sample_value :: "(unit, int \<times> nat) pyval" where
  "sample_value = PList [PObj (Some 7) (Atomic ArsVoid)
     [(''name'', PUnicode [90, 228, 8364]), (''when'', PDate (1000, 0)), (''tags'', PSet [PUnicode [97], PUnicode [98]])]]"

definition sample_list_type :: ars_type where
  "sample_list_type = ListT (Struct False 1 ''Submit'' 1
     [Field 2 ''name'' (Alias 3 ''Title'' (Atomic ArsString)) False, Field 4 ''when'' DateTime True,
      Field 5 ''tags'' (SetT (Atomic ArsString)) True])"

theorem ars_values_round_trip_witness:
  "\<exists>w. to_ars sample_env sample_list_type sample_value = Ok w
    \<and> from_ars sample_env sample_list_type w = Ok sample_value \<and> w \<noteq> PNone"
proof -
  have "py_ok sample_env sample_list_type sample_value"
    by (simp add: sample_env_def sample_value_def sample_list_type_def py_ok.simps good_with_def hash_kept_def
        to_ars.simps(1) convert_with_def to_bytes_def code_point_def comes_back_def timestamp_def nt_ok_def)
  from ars_values_round_trip [OF this] show ?thesis by (auto simp: sample_value_def)
qed

end
