(* ===== verification/Ars_Idl.thy ===== *)
theory Ars_Idl
  imports Ars_Interface
begin

section \<open>satori.ars.thrift.writer and reader: the IDL of an interface\<close>

text \<open>
  \<^item> \<open>reference\<close>, \<open>type_text\<close>, \<open>service_text\<close>, \<open>write_idl\<close>: \<open>ThriftWriter\<close>, whose target is the
    text written so far.
  \<^item> \<open>lex_idl\<close>: the rules of the lexer. The lexer runs on demand: a character it does not know
    is a last token that no rule of the grammar accepts.
  \<^item> \<open>parse_type\<close>, \<open>parse_fields\<close>, \<open>parse_procedures\<close>, \<open>parse_toplevel\<close>: the productions of the
    grammar with their actions, by recursive descent (the grammar needs one token of
    lookahead). The generated parser itself is not part of the repository. The fuel of the
    recursive rules is the number of tokens.
  \<^item> \<open>reader\<close>: the interface that is built and the identity of the next new object.
\<close>

subsection \<open>The writer\<close>

fun atomic_idl :: "atom \<Rightarrow> string" where
  "atomic_idl ArsBinary = ''binary''"
| "atomic_idl ArsBoolean = ''bool''"
| "atomic_idl ArsInt8 = ''byte''"
| "atomic_idl ArsInt16 = ''i16''"
| "atomic_idl ArsInt32 = ''i32''"
| "atomic_idl ArsInt64 = ''i64''"
| "atomic_idl ArsFloat = ''double''"
| "atomic_idl ArsString = ''string''"
| "atomic_idl ArsVoid = ''void''"

fun reference :: "ars_type \<Rightarrow> string" where
  "reference (Atomic a) = atomic_idl a"
| "reference (ListT t) = ''list<'' @ reference t @ ''>''"
| "reference (MapT k v) = ''map<'' @ reference k @ '','' @ reference v @ ''>''"
| "reference (SetT t) = ''set<'' @ reference t @ ''>''"
| "reference t = type_name t"

text \<open>Numbered fields; \<open>sep\<close> goes before the first one, \<open>sep'\<close> before the others.\<close>

fun fields_text :: "string \<Rightarrow> string \<Rightarrow> nat \<Rightarrow> ars_type field list \<Rightarrow> string" where
  "fields_text sep sep' ind [] = []"
| "fields_text sep sep' ind (f # fs) =
     sep @ str_nat ind @ '':'' @ (if field_optional f then ''optional '' else []) @ reference (field_type f) @ '' ''
     @ field_name f @ fields_text sep' sep' (ind + 1) fs"

definition new_line :: string where
  "new_line = [newline]"

definition new_line_tab :: string where
  "new_line_tab = [newline, CHR 0x09]"

fun type_text :: "ars_type \<Rightarrow> string" where
  "type_text (Alias i n t) = ''typedef '' @ reference t @ '' '' @ n @ new_line"
| "type_text DateTime = ''typedef '' @ reference (Atomic ArsInt64) @ '' DateTime'' @ new_line"
| "type_text (Struct e i n b fs) =
     (if e then ''exception '' else ''struct '') @ n @ '' {'' @ fields_text new_line_tab new_line_tab 1 fs
     @ new_line @ ''}'' @ new_line"
| "type_text t = []"

fun throws_text :: "string \<Rightarrow> nat \<Rightarrow> ars_type list \<Rightarrow> string" where
  "throws_text sep ind [] = []"
| "throws_text sep ind (x # xs) =
     sep @ str_nat ind @ '':'' @ reference x @ '' error'' @ str_nat ind @ throws_text '', '' (ind + 1) xs"

definition procedure_text :: "'i procedure \<Rightarrow> string" where
  "procedure_text p = new_line_tab @ reference (pr_return p) @ '' '' @ pr_name p @ ''('' @ fields_text [] '', '' 1 (pr_params p) @ '')''
     @ (if pr_exceptions p \<noteq> [] then '' throws ('' @ throws_text [] 1 (pr_exceptions p) @ '')'' else [])"

definition service_text :: "'i service \<Rightarrow> string" where
  "service_text s = ''service '' @ sv_name s @ (case sv_base s of None \<Rightarrow> [] | Some b \<Rightarrow> '' extends '' @ sv_name b) @ '' {''
     @ concat (map procedure_text (sv_procedures s)) @ new_line @ ''}'' @ new_line"

text \<open>
  A constant cannot be written: the test of its type refers to a name that does not exist.
  The text is what has been written when the call ends.
\<close>

definition write_idl :: "'i interface \<Rightarrow> unit outcome \<times> string" where
  "write_idl I =
     (let head = ''namespace java satori.thrift.gen'' @ new_line @ concat (map type_text (if_types I)) in
      case if_constants I of
        [] \<Rightarrow> (Ok (), head @ concat (map service_text (if_services I)))
      | c # cs \<Rightarrow> (Raise (NameError ''ArsInteger''), head))"

subsection \<open>The lexer\<close>

datatype keyword = K_Exception | K_Extends | K_List | K_Map | K_Namespace | K_Optional | K_Required | K_Service
  | K_Struct | K_Set | K_Throws | K_Typedef

datatype token = T_Id string | T_Num nat | T_Kw keyword | T_Lit char | T_Illegal char

definition reserved :: "(string, keyword) dict" where
  "reserved = [(''exception'', K_Exception), (''extends'', K_Extends), (''list'', K_List), (''map'', K_Map),
     (''namespace'', K_Namespace), (''optional'', K_Optional), (''required'', K_Required), (''service'', K_Service),
     (''struct'', K_Struct), (''set'', K_Set), (''throws'', K_Throws), (''typedef'', K_Typedef)]"

definition ident_start :: "char \<Rightarrow> bool" where
  "ident_start c \<longleftrightarrow> (65 \<le> code c \<and> code c \<le> 90) \<or> (97 \<le> code c \<and> code c \<le> 122) \<or> code c = 95"

definition ident_char :: "char \<Rightarrow> bool" where
  "ident_char c \<longleftrightarrow> ident_start c \<or> is_digit c \<or> c = CHR ''.''"

definition ignored :: "char \<Rightarrow> bool" where
  "ignored c \<longleftrightarrow> c = CHR '' '' \<or> c = CHR 0x09 \<or> c = newline"

definition literals :: "char list" where
  "literals = '':,{}()<>''"

definition word_token :: "string \<Rightarrow> token" where
  "word_token w = (case dget reserved w of Some k \<Rightarrow> T_Kw k | None \<Rightarrow> T_Id w)"

function lex_idl :: "string \<Rightarrow> token list" where
  "lex_idl [] = []"
| "lex_idl (c # cs) =
     (if ignored c then lex_idl cs
      else if ident_start c then word_token (c # takeWhile ident_char cs) # lex_idl (dropWhile ident_char cs)
      else if is_digit c then T_Num (digits_val (c # takeWhile is_digit cs)) # lex_idl (dropWhile is_digit cs)
      else if c \<in> set literals then T_Lit c # lex_idl cs
      else [T_Illegal c])"
  by pat_completeness auto

termination
  by (relation "measure length") (simp_all add: le_imp_less_Suc length_dropWhile_le)

declare lex_idl.simps(2) [simp del]

subsection \<open>The parser\<close>

definition atomic_types :: "(string, atom) dict" where
  "atomic_types = [(''binary'', ArsBinary), (''bool'', ArsBoolean), (''byte'', ArsInt8), (''i16'', ArsInt16),
     (''i32'', ArsInt32), (''i64'', ArsInt64), (''double'', ArsFloat), (''string'', ArsString), (''void'', ArsVoid)]"

definition syntax_error :: "token list \<Rightarrow> exn" where
  "syntax_error ts = (case ts of T_Illegal c # r \<Rightarrow> RuntimeError ''Illegal character'' | _ \<Rightarrow> RuntimeError ''Syntax error'')"

fun need_lit :: "char \<Rightarrow> token list \<Rightarrow> token list outcome" where
  "need_lit c (T_Lit d # r) = (if d = c then Ok r else Raise (syntax_error (T_Lit d # r)))"
| "need_lit c ts = Raise (syntax_error ts)"

fun need_id :: "token list \<Rightarrow> (string \<times> token list) outcome" where
  "need_id (T_Id n # r) = Ok (n, r)"
| "need_id ts = Raise (syntax_error ts)"

fun parse_type :: "nat \<Rightarrow> ars_type list \<Rightarrow> token list \<Rightarrow> (ars_type \<times> token list) outcome" where
  "parse_type 0 types ts = Raise (syntax_error ts)"
| "parse_type (Suc m) types (T_Kw K_List # r) =
     bind_ok (need_lit CHR ''<'' r) (\<lambda>r1. bind_ok (parse_type m types r1) (\<lambda>(t, r2).
     map_ok (\<lambda>r3. (ListT t, r3)) (need_lit CHR ''>'' r2)))"
| "parse_type (Suc m) types (T_Kw K_Set # r) =
     bind_ok (need_lit CHR ''<'' r) (\<lambda>r1. bind_ok (parse_type m types r1) (\<lambda>(t, r2).
     map_ok (\<lambda>r3. (SetT t, r3)) (need_lit CHR ''>'' r2)))"
| "parse_type (Suc m) types (T_Kw K_Map # r) =
     bind_ok (need_lit CHR ''<'' r) (\<lambda>r1. bind_ok (parse_type m types r1) (\<lambda>(k, r2).
     bind_ok (need_lit CHR '','' r2) (\<lambda>r3. bind_ok (parse_type m types r3) (\<lambda>(v, r4).
     map_ok (\<lambda>r5. (MapT k v, r5)) (need_lit CHR ''>'' r4)))))"
| "parse_type (Suc m) types (T_Id n # r) =
     (case dget atomic_types n of
        Some a \<Rightarrow> Ok (Atomic a, r)
      | None \<Rightarrow> (case nt_get type_name n types of Some t \<Rightarrow> Ok (t, r) | None \<Rightarrow> Raise KeyError))"
| "parse_type (Suc m) types ts = Raise (syntax_error ts)"

fun optional_specifier :: "token list \<Rightarrow> bool \<times> token list" where
  "optional_specifier (T_Kw K_Required # r) = (False, r)"
| "optional_specifier (T_Kw K_Optional # r) = (True, r)"
| "optional_specifier ts = (False, ts)"

fun may_comma :: "token list \<Rightarrow> token list" where
  "may_comma (T_Lit c # r) = (if c = CHR '','' then r else T_Lit c # r)"
| "may_comma ts = ts"

text \<open>A field or a parameter, after its number.\<close>

definition parse_field :: "ars_type list \<Rightarrow> obj \<Rightarrow> token list \<Rightarrow> (ars_type field \<times> token list) outcome" where
  "parse_field types i ts =
     bind_ok (need_lit CHR '':'' ts) (\<lambda>r1. case optional_specifier r1 of (opt, r2) \<Rightarrow>
     bind_ok (parse_type (length r2) types r2) (\<lambda>(t, r3).
     map_ok (\<lambda>(n, r4). (Field i n t opt, may_comma r4)) (need_id r3)))"

text \<open>\<open>field_list\<close> and \<open>parameter_list\<close>: the fields, with identities from \<open>i\<close> on.\<close>

fun parse_fields :: "nat \<Rightarrow> ars_type list \<Rightarrow> obj \<Rightarrow> token list \<Rightarrow> (ars_type field list \<times> token list) outcome" where
  "parse_fields (Suc m) types i (T_Num k # r) =
     bind_ok (parse_field types i r) (\<lambda>(f, r1). map_ok (\<lambda>(fs, r2). (f # fs, r2)) (parse_fields m types (i + 1) r1))"
| "parse_fields m types i ts = Ok ([], ts)"

record 'i reader =
  rd_interface :: "'i interface"
  rd_next :: obj

definition append_type :: "ars_type \<Rightarrow> obj \<Rightarrow> 'i reader \<Rightarrow> 'i reader outcome" where
  "append_type t i R =
     (case nt_append type_name t (if_types (rd_interface R)) of
        (Raise e, ts) \<Rightarrow> Raise e
      | (Ok u, ts) \<Rightarrow> Ok \<lparr>rd_interface = (rd_interface R)\<lparr>if_types := ts\<rparr>, rd_next = i\<rparr>)"

definition p_typedef :: "'i reader \<Rightarrow> token list \<Rightarrow> ('i reader \<times> token list) outcome" where
  "p_typedef R ts =
     bind_ok (parse_type (length ts) (if_types (rd_interface R)) ts) (\<lambda>(t, r1).
     bind_ok (need_id r1) (\<lambda>(n, r2).
     map_ok (\<lambda>R1. (R1, r2)) (append_type (Alias (rd_next R) n t) (rd_next R + 1) R)))"

text \<open>Structures (\<open>e = False\<close>) and exceptions.\<close>

definition p_structure :: "bool \<Rightarrow> 'i reader \<Rightarrow> token list \<Rightarrow> ('i reader \<times> token list) outcome" where
  "p_structure e R ts =
     bind_ok (need_id ts) (\<lambda>(n, r1).
     bind_ok (need_lit CHR ''{'' r1) (\<lambda>r2.
     bind_ok (parse_fields (length r2) (if_types (rd_interface R)) (rd_next R) r2) (\<lambda>(fs, r3).
     bind_ok (need_lit CHR ''}'' r3) (\<lambda>r4.
     let i = rd_next R + length fs in
     case for_each add_field fs (Struct e i n 1 []) of
       (Raise x, t) \<Rightarrow> Raise x
     | (Ok u, t) \<Rightarrow> map_ok (\<lambda>R1. (R1, r4)) (append_type t (i + 1) R)))))"

fun p_throws :: "ars_type list \<Rightarrow> obj \<Rightarrow> token list \<Rightarrow> (ars_type list \<times> nat \<times> token list) outcome" where
  "p_throws types i (T_Kw K_Throws # r) =
     bind_ok (need_lit CHR ''('' r) (\<lambda>r1.
     bind_ok (parse_fields (length r1) types i r1) (\<lambda>(fs, r2).
     map_ok (\<lambda>r3. (map field_type fs, length fs, r3)) (need_lit CHR '')'' r2)))"
| "p_throws types i ts = Ok ([], 0, ts)"

text \<open>\<open>add_exception\<close> creates a field each time: the k-th exception takes the k-th identity.\<close>

fun add_exceptions :: "obj \<Rightarrow> ars_type list \<Rightarrow> 'i procedure \<Rightarrow> unit outcome \<times> 'i procedure" where
  "add_exceptions i [] p = (Ok (), p)"
| "add_exceptions i (x # xs) p =
     (case add_exception i x p of
        (Raise e, p1) \<Rightarrow> (Raise e, p1)
      | (Ok u, p1) \<Rightarrow> add_exceptions (i + 1) xs p1)"

definition p_procedure :: "ars_type list \<Rightarrow> obj \<Rightarrow> token list \<Rightarrow> ('i procedure \<times> obj \<times> token list) outcome" where
  "p_procedure types i ts =
     bind_ok (parse_type (length ts) types ts) (\<lambda>(ret, r1).
     bind_ok (need_id r1) (\<lambda>(n, r2).
     bind_ok (need_lit CHR ''('' r2) (\<lambda>r3.
     bind_ok (parse_fields (length r3) types i r3) (\<lambda>(fs, r4).
     bind_ok (need_lit CHR '')'' r4) (\<lambda>r5.
     bind_ok (p_throws types (i + length fs) r5) (\<lambda>(xs, k, r6).
     let j = i + length fs + k in
     case for_each add_parameter fs (new_procedure j n ret None) of
       (Raise e, p) \<Rightarrow> Raise e
     | (Ok u, p) \<Rightarrow>
         (case add_exceptions (j + 4) xs p of
            (Raise e, p1) \<Rightarrow> Raise e
          | (Ok u, p1) \<Rightarrow> Ok (p1, j + 4 + length xs, may_comma r6))))))))"

definition at_brace :: "token list \<Rightarrow> bool" where
  "at_brace ts = (case ts of T_Lit c # r \<Rightarrow> c = CHR ''}'' | _ \<Rightarrow> False)"

fun parse_procedures :: "nat \<Rightarrow> ars_type list \<Rightarrow> obj \<Rightarrow> token list \<Rightarrow> ('i procedure list \<times> obj \<times> token list) outcome" where
  "parse_procedures 0 types i ts = Raise (syntax_error ts)"
| "parse_procedures (Suc m) types i ts =
     (if at_brace ts then Ok ([], i, ts)
      else bind_ok (p_procedure types i ts) (\<lambda>(p, j, r1).
           map_ok (\<lambda>(ps, k, r2). (p # ps, k, r2)) (parse_procedures m types j r1)))"

fun p_service_base :: "'i service list \<Rightarrow> token list \<Rightarrow> ('i service option \<times> token list) outcome" where
  "p_service_base ss (T_Kw K_Extends # r) =
     bind_ok (need_id r) (\<lambda>(n, r1).
     case nt_get sv_name n ss of Some s \<Rightarrow> Ok (Some s, r1) | None \<Rightarrow> Raise KeyError)"
| "p_service_base ss ts = Ok (None, ts)"

definition p_service :: "'i reader \<Rightarrow> token list \<Rightarrow> ('i reader \<times> token list) outcome" where
  "p_service R ts =
     bind_ok (need_id ts) (\<lambda>(n, r1).
     bind_ok (p_service_base (if_services (rd_interface R)) r1) (\<lambda>(b, r2).
     bind_ok (need_lit CHR ''{'' r2) (\<lambda>r3.
     bind_ok (parse_procedures (Suc (length r3)) (if_types (rd_interface R)) (rd_next R) r3) (\<lambda>(ps, i, r4).
     bind_ok (need_lit CHR ''}'' r4) (\<lambda>r5.
     case for_each add_procedure ps (Service i n b []) of
       (Raise e, s) \<Rightarrow> Raise e
     | (Ok u, s) \<Rightarrow>
         (case nt_append sv_name s (if_services (rd_interface R)) of
            (Raise e, ss) \<Rightarrow> Raise e
          | (Ok u, ss) \<Rightarrow> Ok (\<lparr>rd_interface = (rd_interface R)\<lparr>if_services := ss\<rparr>, rd_next = i + 1\<rparr>, r5)))))))"

definition p_namespace :: "'i reader \<Rightarrow> token list \<Rightarrow> ('i reader \<times> token list) outcome" where
  "p_namespace R ts = bind_ok (need_id ts) (\<lambda>(a, r1). map_ok (\<lambda>(b, r2). (R, r2)) (need_id r1))"

fun toplevel_element :: "'i reader \<Rightarrow> token list \<Rightarrow> ('i reader \<times> token list) outcome" where
  "toplevel_element R (T_Kw K_Struct # r) = p_structure False R r"
| "toplevel_element R (T_Kw K_Exception # r) = p_structure True R r"
| "toplevel_element R (T_Kw K_Typedef # r) = p_typedef R r"
| "toplevel_element R (T_Kw K_Service # r) = p_service R r"
| "toplevel_element R (T_Kw K_Namespace # r) = p_namespace R r"
| "toplevel_element R ts = Raise (syntax_error ts)"

fun parse_toplevel :: "nat \<Rightarrow> 'i reader \<Rightarrow> token list \<Rightarrow> 'i reader outcome" where
  "parse_toplevel 0 R ts = Raise (syntax_error ts)"
| "parse_toplevel (Suc m) R ts =
     (if ts = [] then Ok R else bind_ok (toplevel_element R ts) (\<lambda>(R1, r). parse_toplevel m R1 r))"

definition read_from_string :: "string \<Rightarrow> 'i interface outcome" where
  "read_from_string s =
     (let ts = lex_idl s in
      map_ok rd_interface (parse_toplevel (Suc (length ts)) \<lparr>rd_interface = new_interface, rd_next = 0\<rparr> ts))"

end
