(* ===== verification/Ars_Procedures.thy ===== *)
theory Ars_Procedures
  imports Ars_Model
begin

section \<open>The structures of a procedure\<close>

text \<open>
  Every procedure carries two structures, for its arguments and for its result; the methods of
  \<open>ArsProcedure\<close> keep them in step with the parameters and the exceptions (\<open>procedure_ok\<close>).
\<close>

fun struct_fields :: "ars_type \<Rightarrow> ars_type field list" where
  "struct_fields (Struct e i n b fs) = fs"
| "struct_fields t = []"

definition is_struct :: "ars_type \<Rightarrow> bool" where
  "is_struct t = (case t of Struct e i n b fs \<Rightarrow> True | _ \<Rightarrow> False)"

lemma is_structE: "is_struct t \<Longrightarrow> (\<And>e i n b fs. t = Struct e i n b fs \<Longrightarrow> P) \<Longrightarrow> P"
  by (cases t) (auto simp: is_struct_def)

definition error_names :: "nat \<Rightarrow> string list" where
  "error_names n = map (\<lambda>k. ''error'' @ str_nat (Suc k)) [0..<n]"

text \<open>
  What the methods of \<open>ArsProcedure\<close> keep: the parameters are the fields of one structure; the
  other one holds the result and then a field for each exception.
\<close>

definition procedure_ok :: "'i procedure \<Rightarrow> bool" where
  "procedure_ok p \<longleftrightarrow> is_struct (pr_args_struct p) \<and> is_struct (pr_result_struct p)
     \<and> struct_fields (pr_args_struct p) = pr_params p \<and> nt_ok field_name (pr_params p)
     \<and> map field_name (struct_fields (pr_result_struct p)) = ''result'' # error_names (length (pr_exceptions p))
     \<and> map field_type (struct_fields (pr_result_struct p)) = pr_return p # pr_exceptions p"

lemma error_names_distinct: "distinct (''result'' # error_names n)"
  by (auto simp: error_names_def distinct_map inj_on_def)

lemma error_names_new: "''error'' @ str_nat (Suc n) \<notin> set (''result'' # error_names n)"
  by (auto simp: error_names_def)

lemma error_names_Suc: "error_names (Suc n) = error_names n @ [''error'' @ str_nat (Suc n)]"
  by (simp add: error_names_def)

lemma new_procedure_ok: "procedure_ok (new_procedure i n ret f)"
  by (simp add: new_procedure_def procedure_ok_def is_struct_def nt_ok_def error_names_def)

lemma add_parameter_ok:
  assumes "procedure_ok p" and "add_parameter f p = (r, p')"
  shows "procedure_ok p'"
proof -
  obtain e i n b where t: "pr_args_struct p = Struct e i n b (pr_params p)"
    using assms(1) by (auto simp: procedure_ok_def elim: is_structE)
  obtain q fs where q: "nt_append field_name f (pr_params p) = (q, fs)" by fastforce
  then have "nt_ok field_name fs" using assms(1) nt_append_ok by (auto simp: procedure_ok_def)
  with assms q t show ?thesis
    by (cases q) (auto simp: procedure_ok_def add_parameter_def add_field_def is_struct_def)
qed

lemma add_exception_ok:
  assumes "procedure_ok p"
  shows "fst (add_exception i x p) = Ok () \<and> procedure_ok (snd (add_exception i x p))
    \<and> pr_exceptions (snd (add_exception i x p)) = pr_exceptions p @ [x]
    \<and> pr_name (snd (add_exception i x p)) = pr_name p \<and> pr_return (snd (add_exception i x p)) = pr_return p
    \<and> pr_params (snd (add_exception i x p)) = pr_params p"
proof -
  obtain e j n b fs where t: "pr_result_struct p = Struct e j n b fs"
    using assms by (auto simp: procedure_ok_def elim: is_structE)
  let ?n = "''error'' @ str_nat (Suc (length (pr_exceptions p)))"
  have "map field_name fs = ''result'' # error_names (length (pr_exceptions p))"
    using assms t by (simp add: procedure_ok_def)
  then have "field_name ` set fs = set (''result'' # error_names (length (pr_exceptions p)))" by (metis set_map)
  then have "nt_get field_name ?n fs = None"
    using error_names_new [of "length (pr_exceptions p)"] by (simp only: nt_get_None) blast
  then have "nt_append field_name (Field i ?n x True) fs = (Ok (), fs @ [Field i ?n x True])"
    by (simp add: nt_append_def)
  with assms t show ?thesis
    by (simp add: add_exception_def add_field_def procedure_ok_def is_struct_def error_names_Suc Let_def)
qed

end
