(* ===== verification/Ars_Idl_Props.thy ===== *)
theory Ars_Idl_Props
  imports Ars_Idl Ars_Procedures
begin

section \<open>The reader reads what the writer writes\<close>

text \<open>
  First the lexer: the tokens of each piece of the text (\<open>ref_toks\<close>, \<open>field_toks\<close>,
  \<open>type_toks\<close>, \<open>service_toks\<close>). Then the parser on these tokens, and the round trip up to the
  identities of the objects (\<open>signature\<close>).
\<close>

subsection \<open>Names and words\<close>

definition idl_name :: "string \<Rightarrow> bool" where
  "idl_name n \<longleftrightarrow> n \<noteq> [] \<and> ident_start (hd n) \<and> list_all ident_char n \<and> dget reserved n = None"

definition stops :: "string \<Rightarrow> bool" where
  "stops s \<longleftrightarrow> (case s of [] \<Rightarrow> True | c # r \<Rightarrow> \<not> ident_char c)"

named_theorems lexing \<open>rules that run the lexer\<close>

lemmas char_classes = ignored_def ident_start_def ident_char_def is_digit_def literals_def code_def

lemma stops_simps [lexing]:
  "stops []" "stops (CHR ''<'' # r)" "stops (CHR '' '' # r)" "stops (CHR '','' # r)" "stops (CHR ''>'' # r)" "stops (CHR ''('' # r)"
  "stops (CHR '')'' # r)" "stops (CHR ''{'' # r)" "stops (CHR ''}'' # r)" "stops (newline # r)"
  by (simp_all add: stops_def char_classes)

lemma span_stops:
  assumes "list_all ident_char w" and "stops r"
  shows "takeWhile ident_char (w @ r) = w \<and> dropWhile ident_char (w @ r) = r"
proof -
  have "takeWhile ident_char r = []" "dropWhile ident_char r = r" using assms(2) by (cases r; simp add: stops_def)+
  then show ?thesis using assms(1) by (simp add: list_all_iff)
qed

lemma ident_start_visible: "ident_start c \<Longrightarrow> \<not> ignored c \<and> \<not> is_digit c"
  by (auto simp: char_classes)

lemma lex_word:
  assumes "w \<noteq> []" "ident_start (hd w)" "list_all ident_char w" "stops r"
  shows "lex_idl (w @ r) = word_token w # lex_idl r"
proof -
  obtain c cs where w: "w = c # cs" using assms(1) by (cases w) auto
  have "takeWhile ident_char (cs @ r) = cs" "dropWhile ident_char (cs @ r) = r"
    using span_stops [of cs r] assms(3,4) w by auto
  then show ?thesis using assms(2) w ident_start_visible by (simp add: lex_idl.simps(2))
qed

lemma lex_name [lexing]: "idl_name n \<Longrightarrow> stops r \<Longrightarrow> lex_idl (n @ r) = T_Id n # lex_idl r"
  by (simp add: idl_name_def lex_word word_token_def)

lemma lex_blank [lexing]:
  "lex_idl (CHR '' '' # r) = lex_idl r" "lex_idl (newline # r) = lex_idl r" "lex_idl (CHR 0x09 # r) = lex_idl r"
  by (simp_all add: lex_idl.simps(2) ignored_def)

lemma lex_literal [lexing]:
  "lex_idl (CHR '':'' # r) = T_Lit CHR '':'' # lex_idl r" "lex_idl (CHR '','' # r) = T_Lit CHR '','' # lex_idl r"
  "lex_idl (CHR ''{'' # r) = T_Lit CHR ''{'' # lex_idl r" "lex_idl (CHR ''}'' # r) = T_Lit CHR ''}'' # lex_idl r"
  "lex_idl (CHR ''('' # r) = T_Lit CHR ''('' # lex_idl r" "lex_idl (CHR '')'' # r) = T_Lit CHR '')'' # lex_idl r"
  "lex_idl (CHR ''<'' # r) = T_Lit CHR ''<'' # lex_idl r" "lex_idl (CHR ''>'' # r) = T_Lit CHR ''>'' # lex_idl r"
  by (simp_all add: lex_idl.simps(2) char_classes)

lemma lex_number [lexing]: "\<not> is_digit c \<Longrightarrow> lex_idl (str_nat k @ c # r) = T_Num k # lex_idl (c # r)"
proof -
  assume c: "\<not> is_digit c"
  obtain d ds where s: "str_nat k = d # ds" "is_digit d" "list_all is_digit ds"
    using str_nat_digits [of k] by (cases "str_nat k") auto
  have "takeWhile is_digit (ds @ c # r) = ds" "dropWhile is_digit (ds @ c # r) = c # r"
    using s(3) c by (simp_all add: list_all_iff)
  moreover have "\<not> ignored d \<and> \<not> ident_start d" using s(2) by (auto simp: char_classes)
  moreover have "digits_val (d # ds) = k" using s(1) by (metis digits_val_str_nat)
  ultimately show ?thesis using s by (simp add: lex_idl.simps(2))
qed

lemma lex_words:
  "stops r \<Longrightarrow> lex_idl (''list'' @ r) = T_Kw K_List # lex_idl r"
  "stops r \<Longrightarrow> lex_idl (''map'' @ r) = T_Kw K_Map # lex_idl r"
  "stops r \<Longrightarrow> lex_idl (''set'' @ r) = T_Kw K_Set # lex_idl r"
  "stops r \<Longrightarrow> lex_idl (''optional'' @ r) = T_Kw K_Optional # lex_idl r"
  "stops r \<Longrightarrow> lex_idl (''typedef'' @ r) = T_Kw K_Typedef # lex_idl r"
  "stops r \<Longrightarrow> lex_idl (''struct'' @ r) = T_Kw K_Struct # lex_idl r"
  "stops r \<Longrightarrow> lex_idl (''exception'' @ r) = T_Kw K_Exception # lex_idl r"
  "stops r \<Longrightarrow> lex_idl (''service'' @ r) = T_Kw K_Service # lex_idl r"
  "stops r \<Longrightarrow> lex_idl (''extends'' @ r) = T_Kw K_Extends # lex_idl r"
  "stops r \<Longrightarrow> lex_idl (''throws'' @ r) = T_Kw K_Throws # lex_idl r"
  "stops r \<Longrightarrow> lex_idl (''namespace'' @ r) = T_Kw K_Namespace # lex_idl r"
  "stops r \<Longrightarrow> lex_idl (''DateTime'' @ r) = T_Id ''DateTime'' # lex_idl r"
  "stops r \<Longrightarrow> lex_idl (''i64'' @ r) = T_Id ''i64'' # lex_idl r"
  "stops r \<Longrightarrow> lex_idl (atomic_idl a @ r) = T_Id (atomic_idl a) # lex_idl r"
  by (subst lex_word; simp add: word_token_def reserved_def char_classes)+
    (cases a; subst lex_word; simp add: word_token_def reserved_def char_classes)

lemmas [lexing] = lex_words [unfolded append_Cons append_Nil]

lemma lex_Nil [lexing]: "lex_idl [] = []"
  by simp

subsection \<open>The tokens of the text\<close>

fun ref_toks :: "ars_type \<Rightarrow> token list" where
  "ref_toks (Atomic a) = [T_Id (atomic_idl a)]"
| "ref_toks (ListT t) = T_Kw K_List # T_Lit CHR ''<'' # ref_toks t @ [T_Lit CHR ''>'']"
| "ref_toks (MapT k v) = T_Kw K_Map # T_Lit CHR ''<'' # ref_toks k @ T_Lit CHR '','' # ref_toks v @ [T_Lit CHR ''>'']"
| "ref_toks (SetT t) = T_Kw K_Set # T_Lit CHR ''<'' # ref_toks t @ [T_Lit CHR ''>'']"
| "ref_toks t = [T_Id (type_name t)]"

fun field_toks :: "token list \<Rightarrow> token list \<Rightarrow> nat \<Rightarrow> ars_type field list \<Rightarrow> token list" where
  "field_toks sep sep' ind [] = []"
| "field_toks sep sep' ind (f # fs) =
     sep @ T_Num ind # T_Lit CHR '':'' # (if field_optional f then [T_Kw K_Optional] else []) @ ref_toks (field_type f)
     @ T_Id (field_name f) # field_toks sep' sep' (ind + 1) fs"

definition refs_named :: "ars_type \<Rightarrow> bool" where
  "refs_named t \<longleftrightarrow> list_all (\<lambda>u. idl_name (type_name u)) (named_refs t)"

lemma lex_ref [lexing]:
  "refs_named t \<Longrightarrow> stops r \<Longrightarrow> lex_idl (reference t @ r) = ref_toks t @ lex_idl r"
  by (induction t arbitrary: r) (simp_all add: refs_named_def lexing type_name_def)

definition idl_fields :: "ars_type field list \<Rightarrow> bool" where
  "idl_fields fs \<longleftrightarrow> nt_ok field_name fs \<and> list_all (\<lambda>f. idl_name (field_name f)) fs"

definition separator :: "string \<Rightarrow> token list \<Rightarrow> bool" where
  "separator sep toks \<longleftrightarrow> (\<forall>r. lex_idl (sep @ r) = toks @ lex_idl r)"

lemma separators [lexing]:
  "separator [] []" "separator '', '' [T_Lit CHR '','']" "separator new_line_tab []"
  by (simp_all add: separator_def lexing new_line_tab_def)

lemma stops_fields:
  "stops r \<Longrightarrow> sep \<noteq> [] \<Longrightarrow> stops sep \<Longrightarrow> stops (fields_text sep sep ind fs @ r)"
  by (cases fs; cases sep) (simp_all add: stops_def)

lemma lex_fields:
  assumes "list_all (\<lambda>f. idl_name (field_name f) \<and> refs_named (field_type f)) fs" and "stops r"
    and "separator sep toks" and "separator sep' toks'" and "sep' \<noteq> []" "stops sep'"
  shows "lex_idl (fields_text sep sep' ind fs @ r) = field_toks toks toks' ind fs @ lex_idl r"
  using assms(1,3)
proof (induction fs arbitrary: sep toks ind)
  case (Cons f fs)
  have s: "\<And>x. lex_idl (sep @ x) = toks @ lex_idl x" using Cons.prems(2) by (simp add: separator_def)
  have st: "stops (fields_text sep' sep' (ind + 1) fs @ r)" using assms by (simp add: stops_fields)
  have nd: "\<not> is_digit CHR '':''" by (simp add: is_digit_def code_def)
  have IH: "lex_idl (fields_text sep' sep' (ind + 1) fs @ r) = field_toks toks' toks' (ind + 1) fs @ lex_idl r"
    using Cons assms(4) by simp
  show ?case
    using Cons.prems(1) st nd IH by (simp add: s lexing)
qed simp

fun type_toks :: "ars_type \<Rightarrow> token list" where
  "type_toks (Alias i n t) = T_Kw K_Typedef # ref_toks t @ [T_Id n]"
| "type_toks DateTime = [T_Kw K_Typedef, T_Id ''i64'', T_Id ''DateTime'']"
| "type_toks (Struct e i n b fs) =
     T_Kw (if e then K_Exception else K_Struct) # T_Id n # T_Lit CHR ''{'' # field_toks [] [] 1 fs @ [T_Lit CHR ''}'']"
| "type_toks t = []"

text \<open>The \<open>throws\<close> clause is written like the fields it stands for.\<close>

fun error_fields :: "nat \<Rightarrow> ars_type list \<Rightarrow> ars_type field list" where
  "error_fields ind [] = []"
| "error_fields ind (x # xs) = Field 0 (''error'' @ str_nat ind) x False # error_fields (ind + 1) xs"

lemma throws_text_fields: "throws_text sep ind xs = fields_text sep '', '' ind (error_fields ind xs)"
  by (induction xs arbitrary: sep ind) simp_all

lemma error_field_types [simp]: "map field_type (error_fields ind xs) = xs"
  by (induction xs arbitrary: ind) simp_all

lemma error_name: "idl_name (''error'' @ str_nat k)"
proof -
  have "list_all ident_char (str_nat k)"
    using str_nat_digits [of k] by (auto simp: list_all_iff ident_char_def)
  then show ?thesis by (simp add: idl_name_def reserved_def ident_char_def ident_start_def code_def)
qed

lemma error_fields_named: "list_all refs_named xs \<Longrightarrow> list_all (\<lambda>f. idl_name (field_name f) \<and> refs_named (field_type f)) (error_fields ind xs)"
  using error_name by (induction xs arbitrary: ind) simp_all

definition procedure_toks :: "'i procedure \<Rightarrow> token list" where
  "procedure_toks p = ref_toks (pr_return p) @ T_Id (pr_name p) # T_Lit CHR ''('' # field_toks [] [T_Lit CHR '',''] 1 (pr_params p)
     @ T_Lit CHR '')'' # (if pr_exceptions p \<noteq> [] then T_Kw K_Throws # T_Lit CHR ''(''
       # field_toks [] [T_Lit CHR '',''] 1 (error_fields 1 (pr_exceptions p)) @ [T_Lit CHR '')''] else [])"

definition service_toks :: "'i service \<Rightarrow> token list" where
  "service_toks s = T_Kw K_Service # T_Id (sv_name s) # (case sv_base s of None \<Rightarrow> [] | Some b \<Rightarrow> [T_Kw K_Extends, T_Id (sv_name b)])
     @ T_Lit CHR ''{'' # concat (map procedure_toks (sv_procedures s)) @ [T_Lit CHR ''}'']"

subsection \<open>Interfaces that can be written\<close>

fun idl_type :: "ars_type \<Rightarrow> bool" where
  "idl_type (Alias i n t) = (idl_name n \<and> dget atomic_types n = None)"
| "idl_type (Struct e i n b fs) = (idl_name n \<and> dget atomic_types n = None \<and> b = 1 \<and> idl_fields fs)"
| "idl_type t = True"

definition idl_procedure :: "'i procedure \<Rightarrow> bool" where
  "idl_procedure p \<longleftrightarrow> idl_name (pr_name p) \<and> idl_fields (pr_params p)"

definition idl_service :: "'i service \<Rightarrow> bool" where
  "idl_service s \<longleftrightarrow> idl_name (sv_name s) \<and> nt_ok pr_name (sv_procedures s) \<and> list_all idl_procedure (sv_procedures s)"

text \<open>
  Names are words that are not reserved, no type has the name of an atomic type, and there
  are no constants.
\<close>

definition idl_ok :: "'i interface \<Rightarrow> bool" where
  "idl_ok I \<longleftrightarrow> if_constants I = [] \<and> list_all idl_type (if_types I) \<and> list_all idl_service (if_services I)"

lemma idl_type_named: "idl_type u \<Longrightarrow> declared u \<Longrightarrow> idl_name (type_name u)"
  by (cases u) (simp_all add: type_name_def idl_name_def reserved_def ident_char_def ident_start_def code_def)

lemma refs_namedI: "set (named_refs t) \<subseteq> set ts \<Longrightarrow> list_all idl_type ts \<Longrightarrow> list_all declared ts \<Longrightarrow> refs_named t"
  by (auto simp: refs_named_def list_all_iff intro: idl_type_named)

lemma lex_type:
  assumes "idl_type t" and "declared t" and "list_all refs_named (case t of Alias i n u \<Rightarrow> [u] | Struct e i n b fs \<Rightarrow> map field_type fs | _ \<Rightarrow> [])"
  shows "lex_idl (type_text t @ r) = type_toks t @ lex_idl r"
proof (cases t)
  case (Alias i n u)
  with assms show ?thesis by (simp add: lexing new_line_def)
next
  case DateTime
show ?thesis by (simp add: DateTime lexing new_line_def)
next
  case (Struct e i n b fs)
  have f: "list_all (\<lambda>f. idl_name (field_name f) \<and> refs_named (field_type f)) fs"
    using assms Struct by (auto simp: idl_fields_def list_all_iff)
  have nl: "new_line_tab \<noteq> []" "stops new_line_tab" by (simp_all add: new_line_tab_def lexing)
  have "lex_idl (fields_text new_line_tab new_line_tab 1 fs @ new_line @ ''}'' @ new_line @ r)
      = field_toks [] [] 1 fs @ T_Lit CHR ''}'' # lex_idl r"
    by (subst lex_fields [OF f _ _ _ nl]) (simp_all add: lexing new_line_def)
  then show ?thesis using assms Struct by (cases e) (simp_all add: lexing)
qed (use assms in simp_all)

lemma lex_procedure:
  assumes "idl_procedure p" and "list_all refs_named (procedure_types p)" and "stops r"
  shows "lex_idl (procedure_text p @ r) = procedure_toks p @ lex_idl r"
proof -
  have comma: "'', '' \<noteq> ([] :: string)" "stops '', ''" by (simp_all add: lexing)
  have f: "list_all (\<lambda>f. idl_name (field_name f) \<and> refs_named (field_type f)) (pr_params p)"
    using assms by (auto simp: idl_procedure_def idl_fields_def procedure_types_def list_all_iff)
  have x: "list_all (\<lambda>f. idl_name (field_name f) \<and> refs_named (field_type f)) (error_fields 1 (pr_exceptions p))"
    using assms by (intro error_fields_named) (simp add: procedure_types_def)
  have ps: "lex_idl (fields_text [] '', '' 1 (pr_params p) @ '')'' @ s) = field_toks [] [T_Lit CHR '',''] 1 (pr_params p)
      @ T_Lit CHR '')'' # lex_idl s" for s
    by (subst lex_fields [OF f _ _ _ comma]) (simp_all add: lexing)
  have xs: "lex_idl (fields_text [] '', '' 1 (error_fields 1 (pr_exceptions p)) @ '')'' @ s)
      = field_toks [] [T_Lit CHR '',''] 1 (error_fields 1 (pr_exceptions p)) @ T_Lit CHR '')'' # lex_idl s" for s
    by (subst lex_fields [OF x _ _ _ comma]) (simp_all add: lexing)
  show ?thesis
    using assms ps xs
    by (simp add: procedure_text_def procedure_toks_def throws_text_fields lexing new_line_tab_def procedure_types_def idl_procedure_def)
qed

lemma lex_service:
  assumes "idl_service s" and "list_all idl_service (bases s)" and "list_all (\<lambda>p. list_all refs_named (procedure_types p)) (sv_procedures s)"
  shows "lex_idl (service_text s @ r) = service_toks s @ lex_idl r"
proof -
  have ps: "list_all (\<lambda>p. idl_procedure p \<and> list_all refs_named (procedure_types p)) (sv_procedures s)"
    using assms by (auto simp: idl_service_def list_all_iff)
  have st: "stops (concat (map procedure_text qs) @ newline # x)" for qs :: "'a procedure list" and x
    by (cases qs) (simp_all add: lexing procedure_text_def new_line_tab_def)
  have "lex_idl (concat (map procedure_text qs) @ newline # x) = concat (map procedure_toks qs) @ lex_idl (newline # x)"
    if "list_all (\<lambda>p. idl_procedure p \<and> list_all refs_named (procedure_types p)) qs" for qs :: "'a procedure list" and x
    using that by (induction qs) (simp_all add: lex_procedure st)
  from this [OF ps] show ?thesis
    using assms(1,2)
    by (auto simp: service_text_def service_toks_def idl_service_def bases_def new_line_def lexing split: option.splits)
qed

end
