(* ===== verification/Ars_Idl_Round.thy ===== *)
theory Ars_Idl_Round
  imports Ars_Idl_Props
begin

section \<open>The parser on the tokens of an interface\<close>

text \<open>
  \<open>signature\<close>: an interface without the identities of its objects, its implementations and
  constants; \<open>DateTime\<close> is an alias like any other in it, which is what the reader makes of it.
\<close>

function (sequential) erase :: "ars_type \<Rightarrow> ars_type" where
  "erase (Atomic a) = Atomic a"
| "erase (Alias i n t) = Alias 0 n (erase t)"
| "erase DateTime = Alias 0 ''DateTime'' (Atomic ArsInt64)"
| "erase (ListT t) = ListT (erase t)"
| "erase (SetT t) = SetT (erase t)"
| "erase (MapT k v) = MapT (erase k) (erase v)"
| "erase (Struct e i n b fs) = Struct e 0 n b (map (\<lambda>f. Field 0 (field_name f) (erase (field_type f)) (field_optional f)) fs)"
  by pat_completeness auto

termination
  by (relation "measure size") (auto dest: field_smaller)

definition erase_field :: "ars_type field \<Rightarrow> ars_type field" where
  "erase_field f = Field 0 (field_name f) (erase (field_type f)) (field_optional f)"

type_synonym procedure_sig = "string \<times> ars_type \<times> ars_type field list \<times> ars_type list"

definition sig_procedure :: "'i procedure \<Rightarrow> procedure_sig" where
  "sig_procedure p = (pr_name p, erase (pr_return p), map erase_field (pr_params p), map erase (pr_exceptions p))"

datatype service_sig = Service_Sig string "service_sig option" "procedure_sig list"

fun sig_service :: "'i service \<Rightarrow> service_sig" where
  "sig_service (Service i n b ps) = Service_Sig n (map_option sig_service b) (map sig_procedure ps)"

definition signature :: "'i interface \<Rightarrow> ars_type list \<times> service_sig list" where
  "signature I = (map erase (if_types I), map sig_service (if_services I))"

lemma erase_name [simp]: "type_name (erase t) = type_name t"
  by (cases t) (simp_all add: type_name_def)

lemma erase_field_simps [simp]:
  "field_name (erase_field f) = field_name f" "field_optional (erase_field f) = field_optional f"
  "field_type (erase_field f) = erase (field_type f)"
  by (simp_all add: erase_field_def)

lemma erase_struct [simp]: "erase (Struct e i n b fs) = Struct e 0 n b (map erase_field fs)"
  by (simp add: erase_field_def [abs_def])

declare erase.simps(7) [simp del]

lemma erase_fieldD: "erase_field f = erase_field g \<Longrightarrow> field_name f = field_name g"
  by (simp add: erase_field_def)

lemma nt_get_alike:
  assumes "\<And>x. nm x = g (h x)" "\<And>x. nm' x = g (h' x)"
  shows "map h us = map h' ts \<Longrightarrow> nt_get nm' n ts = Some t \<Longrightarrow> \<exists>u. nt_get nm n us = Some u \<and> h u = h' t"
proof (induction us arbitrary: ts)
  case (Cons u us)
  then obtain x xs where ts: "ts = x # xs" "h u = h' x" "map h us = map h' xs" by (cases ts) auto
  then have "nm u = nm' x" by (simp add: assms)
  with Cons ts show ?case by (cases "nm' x = n") (auto simp: nt_get_def)
qed (simp add: nt_get_def)

lemma alike_names:
  assumes "\<And>x. nm x = g (h x)" "\<And>x. nm' x = g (h' x)" and "map h us = map h' ts"
  shows "map nm us = map nm' ts"
proof -
  have "map nm us = map g (map h us)" by (simp add: assms(1))
  also have "\<dots> = map g (map h' ts)" by (simp only: assms(3))
  also have "\<dots> = map nm' ts" by (simp add: assms(2))
  finally show ?thesis .
qed

fun sig_name :: "service_sig \<Rightarrow> string" where
  "sig_name (Service_Sig n b ps) = n"

lemma names_of_sig:
  "type_name t = type_name (erase t)" "field_name f = field_name (erase_field f)" "sv_name s = sig_name (sig_service s)"
  "pr_name p = fst (sig_procedure p)"
  by (cases s; simp add: sig_procedure_def)+

subsection \<open>Types\<close>

text \<open>\<open>alike us ts\<close>: the new interface has the types \<open>us\<close> where the old one had \<open>ts\<close>.\<close>

definition alike :: "ars_type list \<Rightarrow> ars_type list \<Rightarrow> bool" where
  "alike us ts \<longleftrightarrow> map erase us = map erase ts \<and> nt_ok type_name ts"

definition known :: "ars_type list \<Rightarrow> ars_type list \<Rightarrow> bool" where
  "known us ts \<longleftrightarrow> alike us ts \<and> list_all idl_type ts \<and> list_all declared ts"

lemma alike_get:
  assumes "alike us ts" and "t \<in> set ts"
  shows "\<exists>u. nt_get type_name (type_name t) us = Some u \<and> erase u = erase t"
  by (intro nt_get_alike [where ts = ts and nm = type_name and nm' = type_name and g = type_name])
    (use assms nt_get_in [of type_name ts t] in \<open>simp_all add: alike_def\<close>)

lemma known_named:
  assumes "known us ts" and "t \<in> set ts"
  shows "dget atomic_types (type_name t) = None \<and> (\<exists>u. nt_get type_name (type_name t) us = Some u \<and> erase u = erase t)"
proof
  have "idl_type t" "declared t" using assms by (auto simp: known_def list_all_iff)
  then show "dget atomic_types (type_name t) = None" by (cases t) (simp_all add: type_name_def atomic_types_def)
qed (use assms alike_get [of us ts t] in \<open>simp add: known_def\<close>)

lemma atomic_types_idl [simp]: "dget atomic_types (atomic_idl a) = Some a"
  by (cases a) (simp_all add: atomic_types_def)

lemma parse_ref:
  "set (named_refs t) \<subseteq> set ts \<Longrightarrow> known us ts \<Longrightarrow> length (ref_toks t) \<le> m
    \<Longrightarrow> \<exists>u. parse_type m us (ref_toks t @ r) = Ok (u, r) \<and> erase u = erase t"
proof (induction t arbitrary: m r)
  case (Atomic a)
  then show ?case by (cases m) simp_all
next
  case (ListT t)
  then obtain k where k: "m = Suc k" "length (ref_toks t) \<le> k" by (cases m) auto
  then obtain u where "parse_type k us (ref_toks t @ T_Lit CHR ''>'' # r) = Ok (u, T_Lit CHR ''>'' # r)" "erase u = erase t"
    using ListT.IH [of k "T_Lit CHR ''>'' # r"] ListT.prems by auto
  with k show ?case by simp
next
  case (SetT t)
  then obtain k where k: "m = Suc k" "length (ref_toks t) \<le> k" by (cases m) auto
  then obtain u where "parse_type k us (ref_toks t @ T_Lit CHR ''>'' # r) = Ok (u, T_Lit CHR ''>'' # r)" "erase u = erase t"
    using SetT.IH [of k "T_Lit CHR ''>'' # r"] SetT.prems by auto
  with k show ?case by simp
next
  case (MapT a b)
  then obtain k where k: "m = Suc k" "length (ref_toks a) \<le> k" "length (ref_toks b) \<le> k" by (cases m) auto
  obtain v where v: "parse_type k us (ref_toks b @ T_Lit CHR ''>'' # r) = Ok (v, T_Lit CHR ''>'' # r)" "erase v = erase b"
    using MapT.IH(2) [of k "T_Lit CHR ''>'' # r"] MapT.prems k(3) by auto
  obtain u where "parse_type k us (ref_toks a @ T_Lit CHR '','' # ref_toks b @ T_Lit CHR ''>'' # r)
      = Ok (u, T_Lit CHR '','' # ref_toks b @ T_Lit CHR ''>'' # r)" "erase u = erase a"
    using MapT.IH(1) [of k "T_Lit CHR '','' # ref_toks b @ T_Lit CHR ''>'' # r"] MapT.prems k(2) by auto
  with k v show ?case by simp
next
  case (Alias i n t)
  then show ?case using known_named [of us ts "Alias i n t"] by (cases m) (auto simp del: erase.simps)
next
  case DateTime
  then show ?case using known_named [of us ts DateTime] by (cases m) (auto simp del: erase.simps)
next
  case (Struct e i n b fs)
  then show ?case using known_named [of us ts "Struct e i n b fs"] by (cases m) (auto simp del: erase.simps)
qed

definition no_comma :: "token list \<Rightarrow> bool" where
  "no_comma ts \<longleftrightarrow> may_comma ts = ts"

lemma optional_ref [simp]: "optional_specifier (ref_toks t @ r) = (False, ref_toks t @ r)"
  by (cases t) simp_all

lemma no_comma_ref [simp]: "no_comma (ref_toks t @ r)"
  by (cases t) (simp_all add: no_comma_def)

lemma no_comma_fields: "no_comma r \<Longrightarrow> may_comma (field_toks sep sep ind fs @ r) = field_toks [] sep ind fs @ r"
  if "sep = [] \<or> sep = [T_Lit CHR '','']"
  using that by (cases fs) (auto simp: no_comma_def)

definition not_number :: "token list \<Rightarrow> bool" where
  "not_number ts \<longleftrightarrow> (case ts of T_Num k # r \<Rightarrow> False | _ \<Rightarrow> True)"

lemma parse_fields_end: "not_number r \<Longrightarrow> parse_fields m us i r = Ok ([], r)"
  by (cases "(m, us, i, r)" rule: parse_fields.cases) (simp_all add: not_number_def)

lemma parse_fields_toks:
  assumes "known us ts" and "sep = [] \<or> sep = [T_Lit CHR '','']" and "no_comma r" and "not_number r"
  shows "list_all (\<lambda>f. set (named_refs (field_type f)) \<subseteq> set ts) fs \<Longrightarrow> length fs \<le> m
    \<Longrightarrow> \<exists>gs. parse_fields m us i (field_toks [] sep ind fs @ r) = Ok (gs, r) \<and> map erase_field gs = map erase_field fs"
proof (induction fs arbitrary: m i ind)
  case Nil
  then show ?case using assms(4) by (simp add: parse_fields_end)
next
  case (Cons f fs)
  obtain k where m: "m = Suc k" "length fs \<le> k" using Cons.prems(2) by (cases m) auto
  obtain gs where gs: "parse_fields k us (i + 1) (field_toks [] sep (ind + 1) fs @ r) = Ok (gs, r)"
    "map erase_field gs = map erase_field fs"
    using Cons m by fastforce
  let ?r = "T_Id (field_name f) # field_toks sep sep (ind + 1) fs @ r"
  obtain u where u: "parse_type (length (ref_toks (field_type f) @ ?r)) us (ref_toks (field_type f) @ ?r) = Ok (u, ?r)"
    "erase u = erase (field_type f)"
    using parse_ref [of "field_type f" ts us "length (ref_toks (field_type f) @ ?r)" ?r] assms(1) Cons.prems(1) by auto
  have "parse_field us i (T_Lit CHR '':'' # (if field_optional f then [T_Kw K_Optional] else []) @ ref_toks (field_type f) @ ?r)
      = Ok (Field i (field_name f) u (field_optional f), field_toks [] sep (ind + 1) fs @ r)"
    using u(1) no_comma_fields [OF assms(2,3)] by (simp add: parse_field_def)
  moreover have "erase_field (Field i (field_name f) u (field_optional f)) = erase_field f"
    using u(2) by (simp add: erase_field_def)
  ultimately show ?case using gs m by auto
qed

subsection \<open>The types of the interface\<close>

lemma fields_no_more: "length fs \<le> length (field_toks sep sep' ind fs @ r)"
proof (induction fs arbitrary: sep ind)
  case (Cons f fs)
  from this [of sep' "ind + 1"] show ?case by simp
qed simp

lemma fields_names: "map erase_field gs = map erase_field fs \<Longrightarrow> map field_name gs = map field_name fs"
  by (rule alike_names [where g = field_name and h = erase_field and h' = erase_field]) simp_all

lemma fields_types: "map erase_field gs = map erase_field fs \<Longrightarrow> map (\<lambda>f. erase (field_type f)) gs = map (\<lambda>f. erase (field_type f)) fs"
  by (rule alike_names [where g = field_type and h = erase_field and h' = erase_field]) simp_all

lemma append_new: "name x \<notin> name ` set t \<Longrightarrow> nt_append name x t = (Ok (), t @ [x])"
  by (simp add: nt_append_def nt_get_None [THEN iffD2])

lemma add_fields:
  "distinct (map field_name (ds @ gs)) \<Longrightarrow> for_each add_field gs (Struct e i n b ds) = (Ok (), Struct e i n b (ds @ gs))"
proof (induction gs arbitrary: ds)
  case (Cons g gs)
  have "nt_append field_name g ds = (Ok (), ds @ [g])" using Cons.prems by (intro append_new) auto
  then show ?case using Cons.IH [of "ds @ [g]"] Cons.prems by (simp add: add_field_def)
qed simp

text \<open>What the reader has built after the writer's types \<open>ts\<close> and services \<open>ss\<close>.\<close>

definition built :: "'i reader \<Rightarrow> ars_type list \<Rightarrow> 'j service list \<Rightarrow> bool" where
  "built R ts ss \<longleftrightarrow> map erase (if_types (rd_interface R)) = map erase ts
     \<and> map sig_service (if_services (rd_interface R)) = map sig_service ss
     \<and> list_all (\<lambda>s. list_all procedure_ok (sv_procedures s)) (if_services (rd_interface R))"

lemma append_type_new:
  assumes "built R ts ss" and "erase u = erase t" and "nt_ok type_name (ts @ [t])"
  shows "\<exists>R1. append_type u i R = Ok R1 \<and> built R1 (ts @ [t]) ss"
proof -
  have names: "map type_name (if_types (rd_interface R)) = map type_name ts"
    using assms(1) by (intro alike_names [where g = type_name and h = erase and h' = erase]) (simp_all add: built_def)
  have "type_name u = type_name t" using assms(2) by (metis erase_name)
  then have "type_name u \<notin> type_name ` set (if_types (rd_interface R))"
    using names assms(3) by (metis distinct_append disjoint_iff list.set_intros(1) map_append nt_ok_def list.simps(9) set_map)
  then show ?thesis using append_new assms(1,2) by (fastforce simp: append_type_def built_def)
qed

lemma parse_type_toks:
  assumes "built R ts ss" and "types_inv (ts @ [t])" and "list_all idl_type (ts @ [t])"
  shows "\<exists>R1. toplevel_element R (type_toks t @ r) = Ok (R1, r) \<and> built R1 (ts @ [t]) ss"
proof -
  let ?us = "if_types (rd_interface R)"
  have known: "known ?us ts" using assms by (simp add: built_def types_inv_def known_def alike_def nt_ok_def)
  have refs: "set (needs_before t) \<subseteq> set ts" and nt: "nt_ok type_name (ts @ [t])" and dt: "declared t" and it: "idl_type t"
    using assms(2,3) by (simp_all add: types_inv_def)
  show ?thesis
  proof (cases t)
    case (Alias i n t1)
    then obtain u where u: "parse_type (length (ref_toks t1 @ T_Id n # r)) ?us (ref_toks t1 @ T_Id n # r) = Ok (u, T_Id n # r)" "erase u = erase t1"
      using parse_ref [of t1 ts ?us "length (ref_toks t1 @ T_Id n # r)" "T_Id n # r"] known refs by auto
    then have "erase (Alias (rd_next R) n u) = erase t" using Alias by simp
    from append_type_new [OF assms(1) this nt]
    obtain R1 where "append_type (Alias (rd_next R) n u) (rd_next R + 1) R = Ok R1" "built R1 (ts @ [t]) ss" by blast
    with u Alias show ?thesis by (auto simp: p_typedef_def)
  next
    case DateTime
    have "erase (Alias (rd_next R) ''DateTime'' (Atomic ArsInt64)) = erase t" by (simp add: DateTime)
    from append_type_new [OF assms(1) this nt]
    obtain R1 where "append_type (Alias (rd_next R) ''DateTime'' (Atomic ArsInt64)) (rd_next R + 1) R = Ok R1" "built R1 (ts @ [t]) ss" by blast
    with DateTime show ?thesis by (auto simp: p_typedef_def atomic_types_def)
  next
    case (Struct e i n b fs)
    let ?r = "T_Lit CHR ''}'' # r"
    have "list_all (\<lambda>f. set (named_refs (field_type f)) \<subseteq> set ts) fs" using refs Struct by (auto simp: list_all_iff)
    moreover have "length fs \<le> length (field_toks [] [] 1 fs @ ?r)" by (rule fields_no_more)
    ultimately obtain gs where gs: "parse_fields (length (field_toks [] [] 1 fs @ ?r)) ?us (rd_next R) (field_toks [] [] 1 fs @ ?r) = Ok (gs, ?r)"
      "map erase_field gs = map erase_field fs"
      using parse_fields_toks [OF known, of "[]" ?r fs _ "rd_next R" 1] by (auto simp: no_comma_def not_number_def)
    let ?s = "Struct e (rd_next R + length gs) n 1 gs"
    have "distinct (map field_name gs)" using fields_names [OF gs(2)] it Struct by (simp add: idl_fields_def nt_ok_def)
    then have "for_each add_field gs (Struct e (rd_next R + length gs) n 1 []) = (Ok (), ?s)" using add_fields [of "[]" gs] by simp
    moreover have "erase ?s = erase t" using gs(2) it Struct by (simp add: erase_field_def)
    from append_type_new [OF assms(1) this nt]
    obtain R1 where "append_type ?s (rd_next R + length gs + 1) R = Ok R1" "built R1 (ts @ [t]) ss" by blast
    ultimately have "p_structure e R (T_Id n # T_Lit CHR ''{'' # field_toks [] [] 1 fs @ ?r) = Ok (R1, r) \<and> built R1 (ts @ [t]) ss"
      using gs(1) by (simp add: p_structure_def)
    then show ?thesis using Struct by (cases e) auto
  qed (use dt in simp_all)
qed

lemma parse_types:
  "built R ts ss \<Longrightarrow> types_inv (ts @ us) \<Longrightarrow> list_all idl_type (ts @ us)
    \<Longrightarrow> \<exists>R1. built R1 (ts @ us) ss \<and> parse_toplevel (m + length us) R (concat (map type_toks us) @ r) = parse_toplevel m R1 r"
proof (induction us arbitrary: R ts)
  case (Cons t us)
  have "types_inv (ts @ [t])" using Cons.prems(2) in_order_prefix [of needs_before "ts @ [t]" us] by (simp add: types_inv_def nt_ok_def)
  then obtain R1 where R1: "toplevel_element R (type_toks t @ concat (map type_toks us) @ r) = Ok (R1, concat (map type_toks us) @ r)"
    "built R1 (ts @ [t]) ss"
    using parse_type_toks [of R ts ss t] Cons.prems by auto
  have "type_toks t \<noteq> []" using Cons.prems(2) by (cases t) (simp_all add: types_inv_def)
  then have "parse_toplevel (m + length (t # us)) R (concat (map type_toks (t # us)) @ r) = parse_toplevel (m + length us) R1 (concat (map type_toks us) @ r)"
    using R1(1) by simp
  with Cons.IH [OF R1(2)] Cons.prems(2,3) show ?case by auto
qed auto

subsection \<open>Procedures and services\<close>

lemma add_parameters:
  "procedure_ok p \<Longrightarrow> distinct (map field_name (pr_params p @ gs))
    \<Longrightarrow> \<exists>q. for_each add_parameter gs p = (Ok (), q) \<and> procedure_ok q \<and> pr_params q = pr_params p @ gs
      \<and> pr_name q = pr_name p \<and> pr_return q = pr_return p \<and> pr_exceptions q = pr_exceptions p"
proof (induction gs arbitrary: p)
  case (Cons g gs)
  have new: "nt_append field_name g (pr_params p) = (Ok (), pr_params p @ [g])" using Cons.prems(2) by (intro append_new) auto
  obtain e i n b where s: "pr_args_struct p = Struct e i n b (pr_params p)"
    using Cons.prems(1) by (auto simp: procedure_ok_def elim: is_structE)
  define q where "q = p\<lparr>pr_params := pr_params p @ [g], pr_args_struct := Struct e i n b (pr_params p @ [g])\<rparr>"
  have a: "add_parameter g p = (Ok (), q)" using new s by (simp add: add_parameter_def add_field_def q_def)
  have "\<exists>q'. for_each add_parameter gs q = (Ok (), q') \<and> procedure_ok q' \<and> pr_params q' = pr_params q @ gs
      \<and> pr_name q' = pr_name q \<and> pr_return q' = pr_return q \<and> pr_exceptions q' = pr_exceptions q"
    using Cons.prems(2) add_parameter_ok [OF Cons.prems(1) a] by (intro Cons.IH) (simp_all add: q_def)
  then show ?case using a by (simp add: q_def)
qed simp

lemma add_exceptions_ok:
  "procedure_ok p \<Longrightarrow> \<exists>q. add_exceptions i xs p = (Ok (), q) \<and> procedure_ok q \<and> pr_exceptions q = pr_exceptions p @ xs
      \<and> pr_name q = pr_name p \<and> pr_return q = pr_return p \<and> pr_params q = pr_params p"
proof (induction xs arbitrary: i p)
  case (Cons x xs)
  obtain r q where q: "add_exception i x p = (r, q)" by fastforce
  from add_exception_ok [OF Cons.prems, of i x] q
  have "r = Ok ()" "procedure_ok q" "pr_exceptions q = pr_exceptions p @ [x]" "pr_name q = pr_name p" "pr_return q = pr_return p"
    "pr_params q = pr_params p" by simp_all
  with q Cons.IH [of q "i + 1"] show ?case by auto
qed simp

lemma error_fields_known:
  "list_all (\<lambda>x. set (named_refs x) \<subseteq> S) xs \<Longrightarrow> list_all (\<lambda>f. set (named_refs (field_type f)) \<subseteq> S) (error_fields ind xs)"
  by (induction xs arbitrary: ind) simp_all

lemma parse_throws:
  assumes "known us ts" and "list_all (\<lambda>x. set (named_refs x) \<subseteq> set ts) xs" and "no_comma r" "\<And>r'. r \<noteq> T_Kw K_Throws # r'"
  shows "\<exists>ys k. p_throws us i ((if xs \<noteq> [] then T_Kw K_Throws # T_Lit CHR ''('' # field_toks [] [T_Lit CHR '',''] 1 (error_fields 1 xs)
      @ [T_Lit CHR '')''] else []) @ r) = Ok (ys, k, r) \<and> map erase ys = map erase xs"
proof (cases "xs = []")
  case True
  have "p_throws us i r = Ok ([], 0, r)" using assms(4) by (cases "(us, i, r)" rule: p_throws.cases) simp_all
  with True show ?thesis by simp
next
  case False
  let ?r = "T_Lit CHR '')'' # r"
  let ?t = "field_toks [] [T_Lit CHR '',''] 1 (error_fields 1 xs) @ ?r"
  obtain gs where gs: "parse_fields (length ?t) us i ?t = Ok (gs, ?r)" "map erase_field gs = map erase_field (error_fields 1 xs)"
    using parse_fields_toks [OF assms(1), of "[T_Lit CHR '','']" ?r "error_fields 1 xs" "length ?t" i 1]
      error_fields_known [OF assms(2), of 1] fields_no_more [of "error_fields 1 xs" "[]" "[T_Lit CHR '','']" 1 ?r]
    by (auto simp: no_comma_def not_number_def)
  have "map erase (map field_type gs) = map erase (map field_type (error_fields 1 xs))"
    using fields_types [OF gs(2)] by (simp only: map_map comp_def)
  then have "map erase (map field_type gs) = map erase xs" by (simp only: error_field_types)
  with gs(1) False show ?thesis by simp
qed

text \<open>What may follow a procedure: another one or the end of the service.\<close>

definition after_procedure :: "token list \<Rightarrow> bool" where
  "after_procedure r \<longleftrightarrow> no_comma r \<and> (case r of T_Kw K_Throws # r' \<Rightarrow> False | _ \<Rightarrow> True)"

lemma after_ref [simp]: "after_procedure (ref_toks t @ r)"
  by (cases t) (simp_all add: after_procedure_def no_comma_def)

lemma after_brace [simp]: "after_procedure (T_Lit CHR ''}'' # r)"
  by (simp add: after_procedure_def no_comma_def)

lemma parse_procedure_toks:
  fixes p :: "'j procedure"
  assumes "known us ts" and "idl_procedure p" and "list_all (\<lambda>t. set (named_refs t) \<subseteq> set ts) (procedure_types p)"
    and "after_procedure r"
  shows "\<exists>(q :: 'i procedure) j. p_procedure us i (procedure_toks p @ r) = Ok (q, j, r) \<and> sig_procedure q = sig_procedure p \<and> procedure_ok q"
proof -
  have nt: "no_comma r" "\<And>r'. r \<noteq> T_Kw K_Throws # r'" using assms(4) by (auto simp: after_procedure_def)
  define x where "x = (if pr_exceptions p \<noteq> [] then T_Kw K_Throws # T_Lit CHR ''('' # field_toks [] [T_Lit CHR '',''] 1
    (error_fields 1 (pr_exceptions p)) @ [T_Lit CHR '')''] else []) @ r"
  let ?r = "T_Lit CHR '')'' # x"
  let ?f = "field_toks [] [T_Lit CHR '',''] 1 (pr_params p) @ ?r"
  let ?q = "T_Id (pr_name p) # T_Lit CHR ''('' # ?f"
  have toks: "procedure_toks p @ r = ref_toks (pr_return p) @ ?q" by (simp add: procedure_toks_def x_def)
  obtain ret where ret: "parse_type (length (ref_toks (pr_return p) @ ?q)) us (ref_toks (pr_return p) @ ?q) = Ok (ret, ?q)"
    "erase ret = erase (pr_return p)"
    using parse_ref [of "pr_return p" ts us "length (ref_toks (pr_return p) @ ?q)" ?q] assms(1,3) by (auto simp: procedure_types_def)
  obtain gs where gs: "parse_fields (length ?f) us i ?f = Ok (gs, ?r)" "map erase_field gs = map erase_field (pr_params p)"
    using parse_fields_toks [OF assms(1), of "[T_Lit CHR '','']" ?r "pr_params p" "length ?f" i 1]
      fields_no_more [of "pr_params p" "[]" "[T_Lit CHR '','']" 1 ?r] assms(3)
    by (auto simp: no_comma_def not_number_def procedure_types_def list_all_iff)
  obtain xs k where xs: "p_throws us (i + length gs) x = Ok (xs, k, r)" "map erase xs = map erase (pr_exceptions p)"
    using parse_throws [OF assms(1) _ nt, of "pr_exceptions p" "i + length gs"] assms(3) by (auto simp: x_def procedure_types_def)
  let ?j = "i + length gs + k"
  have "distinct (map field_name gs)" using fields_names [OF gs(2)] assms(2) by (simp add: idl_procedure_def idl_fields_def nt_ok_def)
  then obtain q1 :: "'i procedure" where q1: "for_each add_parameter gs (new_procedure ?j (pr_name p) ret None) = (Ok (), q1)" "procedure_ok q1"
    "pr_params q1 = gs" "pr_name q1 = pr_name p" "pr_return q1 = ret" "pr_exceptions q1 = []"
    using add_parameters [OF new_procedure_ok, of ?j "pr_name p" ret "None :: 'i option" gs] by (auto simp: new_procedure_def)
  obtain q2 where q2: "add_exceptions (?j + 4) xs q1 = (Ok (), q2)" "procedure_ok q2"
    "pr_params q2 = gs" "pr_name q2 = pr_name p" "pr_return q2 = ret" "pr_exceptions q2 = xs"
    using add_exceptions_ok [OF q1(2), of "?j + 4" xs] q1 by auto
  have "sig_procedure q2 = sig_procedure p" using q2 ret(2) gs(2) xs(2) by (simp add: sig_procedure_def)
  moreover have "p_procedure us i (procedure_toks p @ r) = Ok (q2, ?j + 4 + length xs, r)"
    unfolding toks p_procedure_def using ret(1) gs(1) xs(1) q1(1) q2(1) nt(1) by (simp add: no_comma_def add.assoc)
  ultimately show ?thesis using q2(2) by blast
qed

lemma after_procedures: "after_procedure (concat (map procedure_toks ps) @ T_Lit CHR ''}'' # r)"
  by (cases ps) (simp_all add: procedure_toks_def)

lemma not_brace [simp]: "\<not> at_brace (ref_toks t @ r)"
  by (cases t) (simp_all add: at_brace_def)

lemma parse_procedures_toks:
  fixes ps :: "'j procedure list"
  assumes "known us ts"
  shows "list_all (\<lambda>p. idl_procedure p \<and> list_all (\<lambda>t. set (named_refs t) \<subseteq> set ts) (procedure_types p)) ps \<Longrightarrow> length ps < m
    \<Longrightarrow> \<exists>(qs :: 'i procedure list) j. parse_procedures m us i (concat (map procedure_toks ps) @ T_Lit CHR ''}'' # r) = Ok (qs, j, T_Lit CHR ''}'' # r)
      \<and> map sig_procedure qs = map sig_procedure ps \<and> list_all procedure_ok qs"
proof (induction ps arbitrary: m i)
  case Nil
  then show ?case by (cases m) (auto simp: at_brace_def)
next
  case (Cons p ps)
  let ?r = "concat (map procedure_toks ps) @ T_Lit CHR ''}'' # r"
  obtain k where k: "m = Suc k" "length ps < k" using Cons.prems(2) by (cases m) auto
  obtain q :: "'i procedure" and j where q: "p_procedure us i (procedure_toks p @ ?r) = Ok (q, j, ?r)" "sig_procedure q = sig_procedure p" "procedure_ok q"
    using parse_procedure_toks [OF assms, of p ?r i] after_procedures [of ps r] Cons.prems(1) by auto
  obtain qs :: "'i procedure list" and j1 where "parse_procedures k us j ?r = Ok (qs, j1, T_Lit CHR ''}'' # r)"
    "map sig_procedure qs = map sig_procedure ps" "list_all procedure_ok qs"
    using Cons.IH [of k j] Cons.prems(1) k by auto
  moreover have "\<not> at_brace (procedure_toks p @ x)" for x by (simp add: procedure_toks_def)
  ultimately show ?case using q k by auto
qed

lemma parse_service_base:
  assumes "map sig_service ss' = map sig_service ss" and "set (bases s) \<subseteq> set ss" and "nt_ok sv_name ss"
  shows "\<exists>b. p_service_base ss' ((case sv_base s of None \<Rightarrow> [] | Some b \<Rightarrow> [T_Kw K_Extends, T_Id (sv_name b)]) @ T_Lit CHR ''{'' # r)
      = Ok (b, T_Lit CHR ''{'' # r) \<and> map_option sig_service b = map_option sig_service (sv_base s)"
proof (cases "sv_base s")
  case (Some b)
  then have "nt_get sv_name (sv_name b) ss = Some b" using assms(2,3) by (simp add: bases_def nt_get_in)
  then obtain b' where "nt_get sv_name (sv_name b) ss' = Some b'" "sig_service b' = sig_service b"
    using nt_get_alike [where g = sig_name, OF names_of_sig(3) names_of_sig(3) assms(1)] by blast
  with Some show ?thesis by simp
qed simp

lemma add_procedures:
  "nt_ok pr_name (ds @ ps) \<Longrightarrow> for_each add_procedure ps (Service i n b ds) = (Ok (), Service i n b (ds @ ps))"
proof (induction ps arbitrary: ds)
  case (Cons p ps)
  have "nt_append pr_name p ds = (Ok (), ds @ [p])" using Cons.prems by (intro append_new) (auto simp: nt_ok_def)
  then show ?case using Cons.IH [of "ds @ [p]"] Cons.prems by (simp add: add_procedure_def)
qed simp

lemma procedures_no_more: "length ps \<le> length (concat (map procedure_toks ps) @ r)"
proof (induction ps)
  case (Cons p ps)
  have "procedure_toks p \<noteq> []" by (simp add: procedure_toks_def)
  with Cons show ?case by (cases "procedure_toks p") simp_all
qed simp

lemma parse_service_toks:
  fixes R :: "'i reader" and s :: "'j service"
  assumes "built R ts ss" and "types_inv ts" "list_all idl_type ts" and "idl_service s"
    and "set (service_refs s) \<subseteq> set ts" and "set (bases s) \<subseteq> set ss" and "nt_ok sv_name (ss @ [s])"
  shows "\<exists>R1 :: 'i reader. toplevel_element R (service_toks s @ r) = Ok (R1, r) \<and> built R1 ts (ss @ [s])"
proof -
  let ?us = "if_types (rd_interface R)" and ?vs = "if_services (rd_interface R)"
  let ?r4 = "T_Lit CHR ''}'' # r"
  let ?r3 = "concat (map procedure_toks (sv_procedures s)) @ ?r4"
  have known: "known ?us ts" using assms(1,2,3) by (simp add: built_def types_inv_def known_def alike_def)
  have sigs: "map sig_service ?vs = map sig_service ss" using assms(1) by (simp add: built_def)
  obtain b where b: "p_service_base ?vs ((case sv_base s of None \<Rightarrow> [] | Some b \<Rightarrow> [T_Kw K_Extends, T_Id (sv_name b)]) @ T_Lit CHR ''{'' # ?r3)
      = Ok (b, T_Lit CHR ''{'' # ?r3)" "map_option sig_service b = map_option sig_service (sv_base s)"
    using parse_service_base [OF sigs assms(6), of ?r3] assms(7) by (auto simp: nt_ok_def)
  have "list_all (\<lambda>p. idl_procedure p \<and> list_all (\<lambda>t. set (named_refs t) \<subseteq> set ts) (procedure_types p)) (sv_procedures s)"
    using assms(4,5) by (fastforce simp: idl_service_def service_refs_def list_all_iff)
  then obtain qs :: "'i procedure list" and j where qs: "parse_procedures (Suc (length ?r3)) ?us (rd_next R) ?r3 = Ok (qs, j, ?r4)"
    "map sig_procedure qs = map sig_procedure (sv_procedures s)" "list_all procedure_ok qs"
    using parse_procedures_toks [OF known, of "sv_procedures s" "Suc (length ?r3)" "rd_next R" r]
      procedures_no_more [of "sv_procedures s" ?r4] by auto
  have "map pr_name qs = map pr_name (sv_procedures s)"
    using qs(2) by (intro alike_names [where g = fst and h = sig_procedure and h' = sig_procedure]) (simp_all add: sig_procedure_def)
  then have "nt_ok pr_name qs" using assms(4) by (simp add: idl_service_def nt_ok_def)
  then have add: "for_each add_procedure qs (Service j (sv_name s) b []) = (Ok (), Service j (sv_name s) b qs)"
    using add_procedures [of "[]" qs] by simp
  have "map sv_name ?vs = map sv_name ss"
    by (rule alike_names [where g = sig_name and h = sig_service and h' = sig_service]) (rule names_of_sig sigs)+
  then have "sv_name s \<notin> sv_name ` set ?vs" using assms(7)
    by (metis distinct_append disjoint_iff list.set_intros(1) map_append nt_ok_def list.simps(9) set_map)
  then have "nt_append sv_name (Service j (sv_name s) b qs) ?vs = (Ok (), ?vs @ [Service j (sv_name s) b qs])"
    by (intro append_new) simp
  moreover have "sig_service (Service j (sv_name s) b qs) = sig_service s" using b(2) qs(2) by (cases s) simp
  moreover have "toplevel_element R (service_toks s @ r) = p_service R (T_Id (sv_name s) # (case sv_base s of None \<Rightarrow> []
      | Some b \<Rightarrow> [T_Kw K_Extends, T_Id (sv_name b)]) @ T_Lit CHR ''{'' # ?r3)" by (simp add: service_toks_def)
  ultimately show ?thesis using b(1) qs(1,3) add assms(1) unfolding p_service_def by (auto simp: built_def simp del: parse_procedures.simps)
qed

lemma parse_services:
  fixes R :: "'i reader" and ss vs :: "'j service list"
  assumes "types_inv ts" "list_all idl_type ts"
  shows "built R ts ss \<Longrightarrow> list_all (\<lambda>s. idl_service s \<and> set (service_refs s) \<subseteq> set ts) vs \<Longrightarrow> in_order bases (ss @ vs)
    \<Longrightarrow> nt_ok sv_name (ss @ vs)
    \<Longrightarrow> \<exists>R1 :: 'i reader. built R1 ts (ss @ vs) \<and> parse_toplevel (Suc m + length vs) R (concat (map service_toks vs)) = Ok R1"
proof (induction vs arbitrary: R ss)
  case (Cons s vs)
  obtain R1 :: "'i reader" where R1: "toplevel_element R (service_toks s @ concat (map service_toks vs)) = Ok (R1, concat (map service_toks vs))"
    "built R1 ts (ss @ [s])"
    using parse_service_toks [OF Cons.prems(1) assms, of s "concat (map service_toks vs)"] Cons.prems in_orderD [of bases ss s vs]
    by (auto simp: nt_ok_def)
  have "service_toks s \<noteq> []" by (simp add: service_toks_def)
  then have "parse_toplevel (Suc m + length (s # vs)) R (concat (map service_toks (s # vs)))
      = parse_toplevel (Suc m + length vs) R1 (concat (map service_toks vs))" using R1(1) by simp
  with Cons.IH [OF R1(2)] Cons.prems show ?case by auto
qed auto

subsection \<open>The round trip\<close>

definition interface_toks :: "'i interface \<Rightarrow> token list" where
  "interface_toks I = [T_Kw K_Namespace, T_Id ''java'', T_Id ''satori.thrift.gen''] @ concat (map type_toks (if_types I))
     @ concat (map service_toks (if_services I))"

lemma needs_refs:
  assumes "set (needs_before t) \<subseteq> set ts" and "list_all idl_type ts" "list_all declared ts"
  shows "list_all refs_named (case t of Alias i n u \<Rightarrow> [u] | Struct e i n b fs \<Rightarrow> map field_type fs | _ \<Rightarrow> [])"
  using assms by (cases t) (auto simp: list_all_iff intro!: refs_namedI [of _ ts])

lemma lex_types:
  "types_inv (ts @ us) \<Longrightarrow> list_all idl_type (ts @ us) \<Longrightarrow> lex_idl (concat (map type_text us) @ r) = concat (map type_toks us) @ lex_idl r"
proof (induction us arbitrary: ts)
  case (Cons t us)
  have "list_all refs_named (case t of Alias i n u \<Rightarrow> [u] | Struct e i n b fs \<Rightarrow> map field_type fs | _ \<Rightarrow> [])"
    using Cons.prems in_orderD [of needs_before ts t us] by (intro needs_refs) (auto simp: types_inv_def)
  then have "lex_idl (type_text t @ concat (map type_text us) @ r) = type_toks t @ lex_idl (concat (map type_text us) @ r)"
    using Cons.prems by (intro lex_type) (simp_all add: types_inv_def)
  then show ?case using Cons.IH [of "ts @ [t]"] Cons.prems by simp
qed simp

lemma lex_services:
  assumes "types_inv ts" "list_all idl_type ts"
  shows "list_all (\<lambda>s. idl_service s \<and> list_all idl_service (bases s) \<and> set (service_refs s) \<subseteq> set ts) ss
    \<Longrightarrow> lex_idl (concat (map service_text ss)) = concat (map service_toks ss)"
proof (induction ss)
  case (Cons s ss)
  have "list_all (\<lambda>p. list_all refs_named (procedure_types p)) (sv_procedures s)"
    using Cons.prems assms by (fastforce simp: list_all_iff service_refs_def types_inv_def intro!: refs_namedI [of _ ts])
  then have "lex_idl (service_text s @ concat (map service_text ss)) = service_toks s @ lex_idl (concat (map service_text ss))"
    using Cons.prems by (intro lex_service) simp_all
  with Cons show ?case by simp
qed (simp add: lexing)

lemma bases_idl:
  assumes "in_order bases ss" and "list_all idl_service ss" and "s \<in> set ss"
  shows "list_all idl_service (bases s)"
proof -
  obtain xs ys where "ss = xs @ s # ys" using assms(3) by (meson split_list)
  with assms(1,2) in_orderD [of bases xs s ys] show ?thesis by (auto simp: list_all_iff)
qed

lemma lex_interface:
  assumes "interface_inv I" and "idl_ok I"
  shows "fst (write_idl I) = Ok () \<and> lex_idl (snd (write_idl I)) = interface_toks I"
proof
  let ?s = "concat (map type_text (if_types I)) @ concat (map service_text (if_services I))"
  have w: "write_idl I = (Ok (), ''namespace'' @ '' java satori.thrift.gen'' @ newline # ?s)"
    using assms(2) by (simp add: write_idl_def idl_ok_def new_line_def Let_def)
  then show "fst (write_idl I) = Ok ()" by simp
  have names: "idl_name ''java''" "idl_name ''satori.thrift.gen''"
    by (simp_all add: idl_name_def reserved_def ident_char_def ident_start_def code_def is_digit_def)
  have "lex_idl (snd (write_idl I)) = T_Kw K_Namespace # lex_idl (CHR '' '' # ''java'' @ CHR '' '' # ''satori.thrift.gen'' @ newline # ?s)"
    unfolding w by (simp add: lexing)
  also have "\<dots> = [T_Kw K_Namespace, T_Id ''java'', T_Id ''satori.thrift.gen''] @ lex_idl ?s"
    by (simp only: lexing names) simp
  also have "lex_idl ?s = concat (map type_toks (if_types I)) @ concat (map service_toks (if_services I))"
    using lex_types [of "[]" "if_types I"] lex_services [of "if_types I" "if_services I"] assms bases_idl [of "if_services I"]
    by (auto simp: interface_inv_def idl_ok_def list_all_iff)
  finally show "lex_idl (snd (write_idl I)) = interface_toks I" by (simp add: interface_toks_def)
qed

lemma interface_toks_length: "list_all declared (if_types I)
    \<Longrightarrow> 3 + length (if_types I) + length (if_services I) \<le> length (interface_toks I)"
proof -
  assume d: "list_all declared (if_types I)"
  have "length ts \<le> length (concat (map type_toks ts))" if "list_all declared ts" for ts
    using that
  proof (induction ts)
    case (Cons t ts)
    then show ?case by (cases t) simp_all
  qed simp
  moreover have "length ss \<le> length (concat (map service_toks ss))" for ss :: "'a service list"
    by (induction ss) (simp_all add: service_toks_def)
  ultimately show ?thesis using d unfolding interface_toks_def by (simp add: add_mono)
qed

text \<open>
  C24 (idl_round_trip): an interface built by \<open>add_service\<close> whose names are words of the IDL is
  written without an error, and reading the text gives an interface with the same types,
  services and procedures, up to the identity of the objects, with \<open>DateTime\<close> read as a plain
  alias; the procedures that were read are fit to be called.
\<close>

theorem idl_round_trip:
  fixes I :: "'j interface"
  assumes "interface_inv I" and "idl_ok I"
  shows "\<exists>s (J :: 'i interface). write_idl I = (Ok (), s) \<and> read_from_string s = Ok J \<and> signature J = signature I
    \<and> list_all (\<lambda>s. list_all procedure_ok (sv_procedures s)) (if_services J)"
proof -
  let ?ts = "if_types I" and ?ss = "if_services I"
  let ?R = "\<lparr>rd_interface = new_interface, rd_next = 0\<rparr> :: 'i reader"
  have inv: "types_inv ?ts" "list_all idl_type ?ts" "in_order bases ?ss" "nt_ok sv_name ?ss"
    "list_all (\<lambda>s. idl_service s \<and> set (service_refs s) \<subseteq> set ?ts) ?ss"
    using assms by (auto simp: interface_inv_def idl_ok_def list_all_iff)
  have w: "write_idl I = (Ok (), snd (write_idl I))" and l: "lex_idl (snd (write_idl I)) = interface_toks I"
    using lex_interface [OF assms] by (metis prod.collapse)+
  obtain m where m: "length (interface_toks I) = Suc m + length ?ss + length ?ts"
  proof
    have "list_all declared ?ts" using inv(1) by (simp add: types_inv_def)
    from interface_toks_length [OF this]
    show "length (interface_toks I) = Suc (length (interface_toks I) - Suc (length ?ss + length ?ts)) + length ?ss + length ?ts"
      by arith
  qed
  have "built ?R [] ([] :: 'j service list)" by (simp add: built_def new_interface_def)
  then obtain R1 :: "'i reader" where R1: "built R1 ?ts ([] :: 'j service list)"
    "parse_toplevel (Suc m + length ?ss + length ?ts) ?R (concat (map type_toks ?ts) @ concat (map service_toks ?ss))
      = parse_toplevel (Suc m + length ?ss) R1 (concat (map service_toks ?ss))"
    using parse_types [of ?R "[]" "[]" ?ts "Suc m + length ?ss"] inv by (auto simp del: parse_toplevel.simps)
  obtain R2 :: "'i reader" where R2: "built R2 ?ts ?ss" "parse_toplevel (Suc m + length ?ss) R1 (concat (map service_toks ?ss)) = Ok R2"
    using parse_services [OF inv(1,2) R1(1), of ?ss m] inv by (auto simp del: parse_toplevel.simps)
  have "parse_toplevel (Suc (length (interface_toks I))) ?R (interface_toks I)
      = parse_toplevel (Suc m + length ?ss + length ?ts) ?R (concat (map type_toks ?ts) @ concat (map service_toks ?ss))"
    unfolding m by (subst parse_toplevel.simps(2)) (simp add: interface_toks_def p_namespace_def del: parse_toplevel.simps)
  then have "parse_toplevel (Suc (length (interface_toks I))) ?R (interface_toks I) = Ok R2"
    by (simp only: R1(2) R2(2))
  then have "read_from_string (snd (write_idl I)) = Ok (rd_interface R2)"
    by (simp add: read_from_string_def l Let_def)
  moreover have "signature (rd_interface R2) = signature I" using R2(1) by (simp add: built_def signature_def)
  ultimately show ?thesis using w R2(1) by (auto simp: built_def)
qed

definition sample_interface :: "nat interface" where
  "sample_interface = snd (add_service sample_service new_interface)"

theorem idl_round_trip_witness:
  "\<exists>s (J :: unit interface). write_idl sample_interface = (Ok (), s) \<and> read_from_string s = Ok J
    \<and> signature J = signature sample_interface \<and> length (if_types J) = 3"
proof -
  have "interface_inv sample_interface" unfolding sample_interface_def by code_simp
  moreover have "idl_ok sample_interface" unfolding sample_interface_def by code_simp
  ultimately obtain s and J :: "unit interface" where J: "write_idl sample_interface = (Ok (), s)" "read_from_string s = Ok J"
    "signature J = signature sample_interface"
    using idl_round_trip by blast
  have "length (if_types J) = length (if_types sample_interface)" using J(3) by (metis signature_def fst_conv length_map)
  moreover have "length (if_types sample_interface) = 3" unfolding sample_interface_def by code_simp
  ultimately show ?thesis using J by auto
qed

end
