(* ===== verification/Ars_Copy.thy ===== *)
theory Ars_Copy
  imports Ars_Idl_Round
begin

section \<open>satori.ars.model: copies of an interface\<close>

text \<open>
  \<open>ArsInterface.deepcopy\<close>. As in \<open>Ars_Idl\<close> the state is the new interface with the identity of
  the next new object. Named types are looked up by name in the new interface, so a copy needs
  the order that \<open>Ars_Interface\<close> shows. A constant cannot be copied (it reads the value of the
  last type instead), nor a procedure with exceptions (a missing argument); a \<open>DateTime\<close>
  becomes a plain alias.
\<close>

fun deepcopy_type :: "ars_type list \<Rightarrow> ars_type \<Rightarrow> ars_type outcome" where
  "deepcopy_type types (Atomic a) = Ok (Atomic a)"
| "deepcopy_type types (ListT t) = map_ok ListT (deepcopy_type types t)"
| "deepcopy_type types (SetT t) = map_ok SetT (deepcopy_type types t)"
| "deepcopy_type types (MapT k v) = bind_ok (deepcopy_type types k) (\<lambda>k1. map_ok (MapT k1) (deepcopy_type types v))"
| "deepcopy_type types t = (case nt_get type_name (type_name t) types of Some u \<Rightarrow> Ok u | None \<Rightarrow> Raise KeyError)"

text \<open>New fields (or parameters) with identities from \<open>i\<close> on.\<close>

fun copy_fields :: "ars_type list \<Rightarrow> obj \<Rightarrow> ars_type field list \<Rightarrow> ars_type field list outcome" where
  "copy_fields types i [] = Ok []"
| "copy_fields types i (f # fs) =
     bind_ok (deepcopy_type types (field_type f)) (\<lambda>t.
     map_ok (Cons (Field i (field_name f) t (field_optional f))) (copy_fields types (i + 1) fs))"

fun deepcopy_type_first :: "ars_type list \<Rightarrow> obj \<Rightarrow> ars_type \<Rightarrow> (ars_type \<times> obj) outcome" where
  "deepcopy_type_first types j (Alias i n t) = map_ok (\<lambda>u. (Alias j n u, j + 1)) (deepcopy_type types t)"
| "deepcopy_type_first types j DateTime = Ok (Alias j ''DateTime'' (Atomic ArsInt64), j + 1)"
| "deepcopy_type_first types j (Struct e i n b fs) =
     bind_ok (copy_fields types (j + 1) fs) (\<lambda>gs.
     case for_each add_field gs (Struct e j n b []) of
       (Raise x, t) \<Rightarrow> Raise x
     | (Ok u, t) \<Rightarrow> Ok (t, j + 1 + length fs))"
| "deepcopy_type_first types j t = Raise (ArgumentError ''unhandled type'')"

definition copy_type :: "ars_type \<Rightarrow> 'i reader \<Rightarrow> 'i reader outcome" where
  "copy_type t R =
     bind_ok (deepcopy_type_first (if_types (rd_interface R)) (rd_next R) t) (\<lambda>(u, j). append_type u j R)"

definition copy_constant :: "ars_type list \<Rightarrow> ars_type list \<Rightarrow> 'i ars_constant \<Rightarrow> unit outcome" where
  "copy_constant old types c =
     bind_ok (deepcopy_type types (cn_type c)) (\<lambda>t.
     Raise (if old = [] then NameError ''type'' else AttributeError ''value''))"

definition copy_procedure :: "ars_type list \<Rightarrow> obj \<Rightarrow> 'i procedure \<Rightarrow> ('i procedure \<times> obj) outcome" where
  "copy_procedure types j p =
     bind_ok (deepcopy_type types (pr_return p)) (\<lambda>ret.
     bind_ok (copy_fields types (j + 4) (pr_params p)) (\<lambda>gs.
     case for_each add_parameter gs (new_procedure j (pr_name p) ret (pr_impl p)) of
       (Raise e, q) \<Rightarrow> Raise e
     | (Ok u, q) \<Rightarrow> if pr_exceptions p \<noteq> [] then Raise (ArgumentError ''new_interface'') else Ok (q, j + 4 + length gs)))"

fun copy_procedures :: "ars_type list \<Rightarrow> obj \<Rightarrow> 'i procedure list \<Rightarrow> 'i service \<Rightarrow> ('i service \<times> obj) outcome" where
  "copy_procedures types j [] s = Ok (s, j)"
| "copy_procedures types j (p # ps) s =
     bind_ok (copy_procedure types j p) (\<lambda>(q, k).
     case add_procedure q s of (Raise e, s1) \<Rightarrow> Raise e | (Ok u, s1) \<Rightarrow> copy_procedures types k ps s1)"

definition copy_service :: "'i service \<Rightarrow> 'i reader \<Rightarrow> 'i reader outcome" where
  "copy_service s R =
     bind_ok (case sv_base s of
                None \<Rightarrow> Ok None
              | Some b \<Rightarrow> (case nt_get sv_name (sv_name b) (if_services (rd_interface R)) of
                  None \<Rightarrow> Raise KeyError | Some b1 \<Rightarrow> Ok (Some b1))) (\<lambda>b.
     bind_ok (copy_procedures (if_types (rd_interface R)) (rd_next R + 1) (sv_procedures s) (Service (rd_next R) (sv_name s) b [])) (\<lambda>(s1, j).
     case nt_append sv_name s1 (if_services (rd_interface R)) of
       (Raise e, ss) \<Rightarrow> Raise e
     | (Ok u, ss) \<Rightarrow> Ok \<lparr>rd_interface = (rd_interface R)\<lparr>if_services := ss\<rparr>, rd_next = j\<rparr>))"

fun fold_ok :: "('a \<Rightarrow> 's \<Rightarrow> 's outcome) \<Rightarrow> 'a list \<Rightarrow> 's \<Rightarrow> 's outcome" where
  "fold_ok f [] s = Ok s"
| "fold_ok f (x # xs) s = bind_ok (f x s) (fold_ok f xs)"

definition deepcopy :: "'i interface \<Rightarrow> obj \<Rightarrow> 'i interface outcome" where
  "deepcopy I i =
     bind_ok (fold_ok copy_type (if_types I) \<lparr>rd_interface = new_interface, rd_next = i\<rparr>) (\<lambda>R.
     bind_ok (map_outcome (copy_constant (if_types I) (if_types (rd_interface R))) (if_constants I)) (\<lambda>cs.
     map_ok rd_interface (fold_ok copy_service (if_services I) R)))"

subsection \<open>Copies of types\<close>

lemma deepcopy_type_ok:
  "alike us ts \<Longrightarrow> set (named_refs t) \<subseteq> set ts \<Longrightarrow> \<exists>u. deepcopy_type us t = Ok u \<and> erase u = erase t"
proof (induction t)
  case (MapT k v)
  then obtain k1 v1 where "deepcopy_type us k = Ok k1" "erase k1 = erase k" "deepcopy_type us v = Ok v1" "erase v1 = erase v" by auto
  then show ?case by simp
next
  case (Alias i n t)
  then show ?case using alike_get [of us ts "Alias i n t"] by (auto simp del: erase.simps)
next
  case DateTime
  then show ?case using alike_get [of us ts DateTime] by (auto simp del: erase.simps)
next
  case (Struct e i n b fs)
  then show ?case using alike_get [of us ts "Struct e i n b fs"] by (auto simp del: erase.simps erase_struct)
qed auto

lemma copy_fields_ok:
  "alike us ts \<Longrightarrow> list_all (\<lambda>f. set (named_refs (field_type f)) \<subseteq> set ts) fs
    \<Longrightarrow> \<exists>gs. copy_fields us i fs = Ok gs \<and> map erase_field gs = map erase_field fs"
proof (induction fs arbitrary: i)
  case (Cons f fs)
  obtain u where "deepcopy_type us (field_type f) = Ok u" "erase u = erase (field_type f)"
    using deepcopy_type_ok [OF Cons.prems(1), of "field_type f"] Cons.prems(2) by auto
  moreover obtain gs where "copy_fields us (i + 1) fs = Ok gs" "map erase_field gs = map erase_field fs"
    using Cons by fastforce
  moreover have "erase_field (Field i (field_name f) u (field_optional f)) = erase_field f" if "erase u = erase (field_type f)" for u
    using that by (simp add: erase_field_def)
  ultimately show ?case by simp
qed simp

fun fields_ok :: "ars_type \<Rightarrow> bool" where
  "fields_ok (Struct e i n b fs) = nt_ok field_name fs"
| "fields_ok t = True"

lemma copy_type_ok:
  assumes "built R ts ss" and "types_inv (ts @ [t])" and "fields_ok t"
  shows "\<exists>R1. copy_type t R = Ok R1 \<and> built R1 (ts @ [t]) ss"
proof -
  let ?us = "if_types (rd_interface R)"
  have al: "alike ?us ts" using assms by (simp add: built_def types_inv_def alike_def nt_ok_def)
  have refs: "set (needs_before t) \<subseteq> set ts" and nt: "nt_ok type_name (ts @ [t])" and dt: "declared t"
    using assms(2) by (simp_all add: types_inv_def)
  have "\<exists>u j. deepcopy_type_first ?us (rd_next R) t = Ok (u, j) \<and> erase u = erase t"
  proof (cases t)
    case (Alias i n t1)
    then show ?thesis using deepcopy_type_ok [OF al, of t1] refs by auto
  next
    case (Struct e i n b fs)
    then obtain gs where gs: "copy_fields ?us (rd_next R + 1) fs = Ok gs" "map erase_field gs = map erase_field fs"
      using copy_fields_ok [OF al, of fs "rd_next R + 1"] refs by (auto simp: list_all_iff)
    have "distinct (map field_name gs)" using fields_names [OF gs(2)] assms(3) Struct by (simp add: nt_ok_def)
    then show ?thesis using add_fields [of "[]" gs] gs Struct by simp
  qed (use dt in simp_all)
  then show ?thesis using append_type_new [OF assms(1) _ nt] by (fastforce simp: copy_type_def)
qed

lemma copy_types_ok:
  "built R ts ss \<Longrightarrow> types_inv (ts @ us) \<Longrightarrow> list_all fields_ok us \<Longrightarrow> \<exists>R1. fold_ok copy_type us R = Ok R1 \<and> built R1 (ts @ us) ss"
proof (induction us arbitrary: R ts)
  case (Cons t us)
  have "types_inv (ts @ [t])" using Cons.prems(2) in_order_prefix [of needs_before "ts @ [t]" us] by (simp add: types_inv_def nt_ok_def)
  then obtain R1 where "copy_type t R = Ok R1" "built R1 (ts @ [t]) ss"
    using copy_type_ok [OF Cons.prems(1), of t] Cons.prems(3) by auto
  with Cons.IH [of R1 "ts @ [t]"] Cons.prems(2,3) show ?case by auto
qed auto

subsection \<open>Copies of services\<close>

lemma copy_procedure_ok:
  assumes "alike us ts" and "nt_ok field_name (pr_params p)" and "pr_exceptions p = []"
    and "list_all (\<lambda>t. set (named_refs t) \<subseteq> set ts) (procedure_types p)"
  shows "\<exists>q k. copy_procedure us j p = Ok (q, k) \<and> sig_procedure q = sig_procedure p \<and> procedure_ok q"
proof -
  obtain ret where ret: "deepcopy_type us (pr_return p) = Ok ret" "erase ret = erase (pr_return p)"
    using deepcopy_type_ok [OF assms(1), of "pr_return p"] assms(4) by (auto simp: procedure_types_def)
  obtain gs where gs: "copy_fields us (j + 4) (pr_params p) = Ok gs" "map erase_field gs = map erase_field (pr_params p)"
    using copy_fields_ok [OF assms(1), of "pr_params p" "j + 4"] assms(4) by (auto simp: procedure_types_def list_all_iff)
  have "distinct (map field_name gs)" using fields_names [OF gs(2)] assms(2) by (simp add: nt_ok_def)
  then obtain q where q: "for_each add_parameter gs (new_procedure j (pr_name p) ret (pr_impl p)) = (Ok (), q)" "procedure_ok q"
    "pr_params q = gs" "pr_name q = pr_name p" "pr_return q = ret" "pr_exceptions q = []"
    using add_parameters [OF new_procedure_ok, of j "pr_name p" ret "pr_impl p" gs] by (auto simp: new_procedure_def)
  have "sig_procedure q = sig_procedure p" using q ret gs assms(3) by (simp add: sig_procedure_def)
  with ret gs q assms(3) show ?thesis by (simp add: copy_procedure_def)
qed

lemma copy_procedures_ok:
  fixes ps ds :: "'i procedure list"
  assumes "alike us ts"
  shows "list_all (\<lambda>p. nt_ok field_name (pr_params p) \<and> pr_exceptions p = []
      \<and> list_all (\<lambda>t. set (named_refs t) \<subseteq> set ts) (procedure_types p)) ps
    \<Longrightarrow> distinct (map pr_name ds @ map pr_name ps) \<Longrightarrow> list_all procedure_ok ds
    \<Longrightarrow> \<exists>qs k. copy_procedures us j ps (Service i n b ds) = Ok (Service i n b (ds @ qs), k)
      \<and> map sig_procedure qs = map sig_procedure ps \<and> list_all procedure_ok (ds @ qs)"
proof (induction ps arbitrary: j ds)
  case (Cons p ps)
  obtain q k where q: "copy_procedure us j p = Ok (q, k)" "sig_procedure q = sig_procedure p" "procedure_ok q"
    using copy_procedure_ok [OF assms, of p j] Cons.prems(1) by auto
  have nm: "pr_name q = pr_name p" using q(2) by (simp add: sig_procedure_def)
  then have "nt_append pr_name q ds = (Ok (), ds @ [q])" using Cons.prems(2) by (intro append_new) auto
  then have a: "add_procedure q (Service i n b ds) = (Ok (), Service i n b (ds @ [q]))" by (simp add: add_procedure_def)
  obtain qs k1 where "copy_procedures us k ps (Service i n b (ds @ [q])) = Ok (Service i n b ((ds @ [q]) @ qs), k1)"
    "map sig_procedure qs = map sig_procedure ps" "list_all procedure_ok ((ds @ [q]) @ qs)"
    using Cons.IH [of "ds @ [q]" k] Cons.prems q(3) nm by auto
  with q a show ?case by (intro exI [of _ "q # qs"]) auto
qed simp

text \<open>What can be copied: distinct names, and none of the two broken cases.\<close>

definition copy_ok :: "'i interface \<Rightarrow> bool" where
  "copy_ok I \<longleftrightarrow> if_constants I = [] \<and> list_all fields_ok (if_types I)
     \<and> list_all (\<lambda>s. nt_ok pr_name (sv_procedures s)
         \<and> list_all (\<lambda>p. nt_ok field_name (pr_params p) \<and> pr_exceptions p = []) (sv_procedures s)) (if_services I)"

lemma copy_service_ok:
  fixes R :: "'i reader" and s :: "'i service"
  assumes "built R ts ss" and "types_inv ts" and "nt_ok pr_name (sv_procedures s)"
    and "list_all (\<lambda>p. nt_ok field_name (pr_params p) \<and> pr_exceptions p = []) (sv_procedures s)"
    and "set (service_refs s) \<subseteq> set ts" and "set (bases s) \<subseteq> set ss" and "nt_ok sv_name (ss @ [s])"
  shows "\<exists>R1. copy_service s R = Ok R1 \<and> built R1 ts (ss @ [s])"
proof -
  let ?us = "if_types (rd_interface R)" and ?vs = "if_services (rd_interface R)"
  have al: "alike ?us ts" using assms(1,2) by (simp add: built_def types_inv_def alike_def)
  have sigs: "map sig_service ?vs = map sig_service ss" using assms(1) by (simp add: built_def)
  obtain b where b: "(case sv_base s of None \<Rightarrow> Ok None
      | Some b \<Rightarrow> (case nt_get sv_name (sv_name b) ?vs of None \<Rightarrow> Raise KeyError | Some b1 \<Rightarrow> Ok (Some b1))) = Ok b"
    "map_option sig_service b = map_option sig_service (sv_base s)"
  proof (cases "sv_base s")
    case (Some b)
    then have "nt_get sv_name (sv_name b) ss = Some b" using assms(6,7) by (simp add: bases_def nt_get_in nt_ok_def)
    then obtain b' where "nt_get sv_name (sv_name b) ?vs = Some b'" "sig_service b' = sig_service b"
      using nt_get_alike [where g = sig_name, OF names_of_sig(3) names_of_sig(3) sigs] by blast
    with Some that [of "Some b'"] show thesis by simp
  qed (use that [of None] in simp)
  have "list_all (\<lambda>p. nt_ok field_name (pr_params p) \<and> pr_exceptions p = []
      \<and> list_all (\<lambda>t. set (named_refs t) \<subseteq> set ts) (procedure_types p)) (sv_procedures s)"
    using assms(4,5) by (fastforce simp: service_refs_def list_all_iff)
  then obtain qs k where qs: "copy_procedures ?us (rd_next R + 1) (sv_procedures s) (Service (rd_next R) (sv_name s) b [])
      = Ok (Service (rd_next R) (sv_name s) b qs, k)"
    "map sig_procedure qs = map sig_procedure (sv_procedures s)" "list_all procedure_ok qs"
    using copy_procedures_ok [OF al, of "sv_procedures s" "[]" "rd_next R + 1" "rd_next R" "sv_name s" b] assms(3) by (auto simp: nt_ok_def)
  have "map sv_name ?vs = map sv_name ss"
    by (rule alike_names [where g = sig_name and h = sig_service and h' = sig_service]) (rule names_of_sig sigs)+
  then have "sv_name s \<notin> sv_name ` set ?vs" using assms(7)
    by (metis distinct_append disjoint_iff list.set_intros(1) map_append nt_ok_def list.simps(9) set_map)
  then have "nt_append sv_name (Service (rd_next R) (sv_name s) b qs) ?vs = (Ok (), ?vs @ [Service (rd_next R) (sv_name s) b qs])"
    by (intro append_new) simp
  moreover have "sig_service (Service (rd_next R) (sv_name s) b qs) = sig_service s" using b(2) qs(2) by (cases s) simp
  ultimately show ?thesis using b(1) qs(1,3) assms(1) unfolding copy_service_def by (auto simp: built_def)
qed

lemma copy_services_ok:
  fixes R :: "'i reader" and ss vs :: "'i service list"
  assumes "types_inv ts"
  shows "built R ts ss \<Longrightarrow> list_all (\<lambda>s. nt_ok pr_name (sv_procedures s)
      \<and> list_all (\<lambda>p. nt_ok field_name (pr_params p) \<and> pr_exceptions p = []) (sv_procedures s) \<and> set (service_refs s) \<subseteq> set ts) vs
    \<Longrightarrow> in_order bases (ss @ vs) \<Longrightarrow> nt_ok sv_name (ss @ vs) \<Longrightarrow> \<exists>R1. built R1 ts (ss @ vs) \<and> fold_ok copy_service vs R = Ok R1"
proof (induction vs arbitrary: R ss)
  case (Cons s vs)
  obtain R1 where R1: "copy_service s R = Ok R1" "built R1 ts (ss @ [s])"
    using copy_service_ok [OF Cons.prems(1) assms, of s] Cons.prems in_orderD [of bases ss s vs] by (auto simp: nt_ok_def)
  with Cons.IH [OF R1(2)] Cons.prems show ?case by auto
qed auto

text \<open>
  (deepcopy_same_signature): an interface that keeps its order and has neither constants nor
  declared exceptions is copied without an error, and the copy has the same types, services and
  procedures.
\<close>

theorem deepcopy_same_signature:
  fixes I :: "'i interface"
  assumes "interface_inv I" and "copy_ok I"
  shows "\<exists>J. deepcopy I i = Ok J \<and> signature J = signature I"
proof -
  let ?R = "\<lparr>rd_interface = new_interface, rd_next = i\<rparr> :: 'i reader"
  have "built ?R [] ([] :: 'i service list)" by (simp add: built_def new_interface_def)
  then obtain R1 :: "'i reader" where R1: "fold_ok copy_type (if_types I) ?R = Ok R1" "built R1 (if_types I) ([] :: 'i service list)"
    using copy_types_ok [of ?R "[]" "[]" "if_types I"] assms by (auto simp: interface_inv_def copy_ok_def)
  moreover have "list_all (\<lambda>s. nt_ok pr_name (sv_procedures s)
      \<and> list_all (\<lambda>p. nt_ok field_name (pr_params p) \<and> pr_exceptions p = []) (sv_procedures s)
      \<and> set (service_refs s) \<subseteq> set (if_types I)) (if_services I)"
    using assms by (auto simp: interface_inv_def copy_ok_def list_all_iff)
  ultimately obtain R2 where "fold_ok copy_service (if_services I) R1 = Ok R2" "built R2 (if_types I) (if_services I)"
    using copy_services_ok [of "if_types I" R1 "[]" "if_services I"] assms by (auto simp: interface_inv_def)
  with R1 show ?thesis using assms(2) by (auto simp: deepcopy_def copy_ok_def built_def signature_def)
qed

theorem deepcopy_same_signature_witness:
  "\<exists>J. deepcopy sample_interface 100 = Ok J \<and> signature J = signature sample_interface"
proof -
  have "interface_inv sample_interface" unfolding sample_interface_def by code_simp
  moreover have "copy_ok sample_interface" unfolding sample_interface_def by code_simp
  ultimately show ?thesis by (rule deepcopy_same_signature)
qed

text \<open>The two cases that cannot be copied.\<close>

lemma deepcopy_constant_fails:
  fixes I :: "'i interface"
  assumes "if_constants I \<noteq> []"
  shows "\<not> is_ok (deepcopy I i)"
proof -
  obtain c cs where c: "if_constants I = c # cs" using assms by (cases "if_constants I") auto
  have r: "\<exists>e. copy_constant old types c = Raise e" for old types
    by (cases "deepcopy_type types (cn_type c)") (simp_all add: copy_constant_def)
  show ?thesis
  proof (cases "fold_ok copy_type (if_types I) \<lparr>rd_interface = new_interface, rd_next = i\<rparr> :: 'i reader outcome")
    case (Ok R)
    obtain e where "copy_constant (if_types I) (if_types (rd_interface R)) c = Raise e" using r by blast
    with Ok c show ?thesis by (simp add: deepcopy_def)
  qed (simp add: deepcopy_def)
qed

lemma copy_procedure_with_exceptions: "pr_exceptions p \<noteq> [] \<Longrightarrow> \<not> is_ok (copy_procedure types j p)"
  by (auto simp: copy_procedure_def is_ok_iff outcome_simps split: prod.splits outcome.splits)

end
