(* ===== verification/Ars_Thrift.thy ===== *)
theory Ars_Thrift
  imports Ars_Convert
begin

section \<open>satori.ars.thrift.processor: values on the wire\<close>

text \<open>
  \<open>_send\<close> and \<open>_recv\<close> of \<open>ThriftProcessor\<close>, the pure Python path beside the \<open>fastbinary\<close>
  extension. The thrift protocol object is not part of the repository: a writer produces the
  list of the calls it makes on it (\<open>event\<close>), a reader consumes such a list. A structure is a
  dict from field names to values here.
  \<^item> \<open>ttype\<close>: the wire type codes; \<open>typeargs\<close>: the type description handed to \<open>fastbinary\<close>.
  \<^item> \<open>skip\<close>: \<open>proto.skip\<close>, a parameter. The fuel of \<open>recv_fields\<close> is the number of events
    left: every round of the loop reads one.
\<close>

datatype wire_type = W_Stop | W_Void | W_Bool | W_Byte | W_Double | W_I16 | W_I32 | W_I64 | W_String | W_Struct
  | W_Map | W_Set | W_List

fun atomic_type :: "atom \<Rightarrow> wire_type" where
  "atomic_type ArsBinary = W_String"
| "atomic_type ArsBoolean = W_Bool"
| "atomic_type ArsInt8 = W_Byte"
| "atomic_type ArsInt16 = W_I16"
| "atomic_type ArsInt32 = W_I32"
| "atomic_type ArsInt64 = W_I64"
| "atomic_type ArsFloat = W_Double"
| "atomic_type ArsString = W_String"
| "atomic_type ArsVoid = W_Void"

fun ttype :: "ars_type \<Rightarrow> wire_type" where
  "ttype (Atomic a) = atomic_type a"
| "ttype (Struct e i n b fs) = W_Struct"
| "ttype (ListT t) = W_List"
| "ttype (MapT k v) = W_Map"
| "ttype (SetT t) = W_Set"
| "ttype (Alias i n t) = ttype t"
| "ttype DateTime = W_I64"

datatype ('f, 'd) event =
    Ev_Atom wire_type "('f, 'd) pyval"
  | Ev_Struct_Begin string
  | Ev_Field "string option" wire_type int
  | Ev_Field_End
  | Ev_Struct_End
  | Ev_List wire_type nat
  | Ev_List_End
  | Ev_Map wire_type wire_type nat
  | Ev_Map_End
  | Ev_Set wire_type nat
  | Ev_Set_End

text \<open>\<open>writeFieldStop\<close> is the field header with the stop code.\<close>

abbreviation Ev_Stop :: "('f, 'd) event" where
  "Ev_Stop \<equiv> Ev_Field None W_Stop 0"

definition name_key :: "string \<Rightarrow> ('f, 'd) pyval" where
  "name_key n = PBytes (codes n)"

text \<open>\<open>value.get(name, None)\<close>.\<close>

definition get_field :: "('f, 'd) pyval \<Rightarrow> string \<Rightarrow> ('f, 'd) pyval outcome" where
  "get_field v n =
     (case v of
        PDict kvs \<Rightarrow> Ok (case find (\<lambda>e. is_key n (fst e)) kvs of Some e \<Rightarrow> snd e | None \<Rightarrow> PNone)
      | _ \<Rightarrow> Raise (AttributeError ''get''))"

definition py_len :: "('f, 'd) pyval list \<Rightarrow> nat" where
  "py_len xs = length xs"

subsection \<open>send\<close>

function (sequential) send :: "ars_type \<Rightarrow> ('f, 'd) pyval \<Rightarrow> ('f, 'd) event list outcome"
  and send_fields :: "ars_type field list \<Rightarrow> int \<Rightarrow> ('f, 'd) pyval \<Rightarrow> ('f, 'd) event list outcome" where
  "send (Atomic a) v = Ok (if a \<noteq> ArsVoid then [Ev_Atom (atomic_type a) v] else [])"
| "send (Alias i n t) v = send t v"
| "send DateTime v = Ok [Ev_Atom W_I64 v]"
| "send (Struct e i n b fs) v =
     map_ok (\<lambda>es. Ev_Struct_Begin n # es @ [Ev_Stop, Ev_Struct_End]) (send_fields fs b v)"
| "send (ListT t) v =
     bind_ok (iter_of v) (\<lambda>xs.
     map_ok (\<lambda>ess. Ev_List (ttype t) (length xs) # concat ess @ [Ev_List_End]) (map_outcome (\<lambda>x. send t x) xs))"
| "send (MapT k u) v =
     bind_ok (iteritems v) (\<lambda>kvs.
     map_ok (\<lambda>ess. Ev_Map (ttype k) (ttype u) (length kvs) # concat ess @ [Ev_Map_End])
       (map_outcome (\<lambda>e. bind_ok (send k (fst e)) (\<lambda>a. map_ok (\<lambda>b. a @ b) (send u (snd e)))) kvs))"
| "send (SetT t) v =
     bind_ok (iter_of v) (\<lambda>xs.
     map_ok (\<lambda>ess. Ev_Set (ttype t) (length xs) # concat ess @ [Ev_Set_End]) (map_outcome (\<lambda>x. send t x) xs))"
| "send_fields [] i v = Ok []"
| "send_fields (f # fs) i v =
     bind_ok (get_field v (field_name f)) (\<lambda>w.
     bind_ok (if w = PNone then Ok []
              else map_ok (\<lambda>es. Ev_Field (Some (field_name f)) (ttype (field_type f)) i # es @ [Ev_Field_End])
                (send (field_type f) w)) (\<lambda>es.
     map_ok (\<lambda>r. es @ r) (send_fields fs (i + 1) v)))"
  by pat_completeness auto

termination send
  by (relation "measure (case_sum (\<lambda>(t, v). size t) (\<lambda>(fs, i, v). fields_size fs))")
    (simp_all add: less_Suc_eq_le trans_le_add1 less_imp_le)

subsection \<open>recv\<close>

type_synonym ('f, 'd) skipper = "wire_type \<Rightarrow> ('f, 'd) event list \<Rightarrow> ('f, 'd) event list outcome"

fun recv_atom :: "wire_type \<Rightarrow> ('f, 'd) event list \<Rightarrow> (('f, 'd) pyval \<times> ('f, 'd) event list) outcome" where
  "recv_atom w (Ev_Atom w' v # es) = (if w = w' then Ok (v, es) else Raise ProtocolError)"
| "recv_atom w es = Raise ProtocolError"

fun expect :: "('f, 'd) event \<Rightarrow> ('f, 'd) event list \<Rightarrow> ('f, 'd) event list outcome" where
  "expect e (e' # es) = (if e = e' then Ok es else Raise ProtocolError)"
| "expect e [] = Raise ProtocolError"

fun read_struct_begin :: "('f, 'd) event list \<Rightarrow> ('f, 'd) event list outcome" where
  "read_struct_begin (Ev_Struct_Begin n # es) = Ok es"
| "read_struct_begin es = Raise ProtocolError"

fun read_field :: "('f, 'd) event list \<Rightarrow> (string option \<times> wire_type \<times> int \<times> ('f, 'd) event list) outcome" where
  "read_field (Ev_Field n t i # es) = Ok (n, t, i, es)"
| "read_field es = Raise ProtocolError"

fun read_list :: "('f, 'd) event list \<Rightarrow> (wire_type \<times> nat \<times> ('f, 'd) event list) outcome" where
  "read_list (Ev_List t n # es) = Ok (t, n, es)"
| "read_list es = Raise ProtocolError"

fun read_set :: "('f, 'd) event list \<Rightarrow> (wire_type \<times> nat \<times> ('f, 'd) event list) outcome" where
  "read_set (Ev_Set t n # es) = Ok (t, n, es)"
| "read_set es = Raise ProtocolError"

fun read_map :: "('f, 'd) event list \<Rightarrow> (wire_type \<times> wire_type \<times> nat \<times> ('f, 'd) event list) outcome" where
  "read_map (Ev_Map k v n # es) = Ok (k, v, n, es)"
| "read_map es = Raise ProtocolError"

text \<open>A missing optional field is left out; a missing mandatory one is an error.\<close>

definition check_mandatory :: "ars_type field list \<Rightarrow> (('f, 'd) pyval, ('f, 'd) pyval) dict \<Rightarrow> ('f, 'd) pyval outcome" where
  "check_mandatory fs kvs =
     (if list_all (\<lambda>f. dget kvs (name_key (field_name f)) \<noteq> None \<or> field_optional f) fs then Ok (PDict kvs)
      else Raise (RuntimeError ''No value for a mandatory field''))"

text \<open>
  The two tests on a field header: a wrong name and a wrong type each skip a value, and the
  value of the field is read all the same.
\<close>

definition skip_mismatch :: "('f, 'd) skipper \<Rightarrow> string option \<Rightarrow> wire_type \<Rightarrow> ars_type field \<Rightarrow> ('f, 'd) event list
    \<Rightarrow> ('f, 'd) event list outcome" where
  "skip_mismatch skip fname ftype f es =
     bind_ok (if fname \<noteq> None \<and> fname \<noteq> Some (field_name f) then skip ftype es else Ok es) (\<lambda>es1.
     if ftype \<noteq> ttype (field_type f) then skip ftype es1 else Ok es1)"

lemma nt_index_size: "nt_index fs i = Ok f \<Longrightarrow> size (field_type f) < fields_size fs"
  by (rule field_smaller) (auto simp: nt_index_def Let_def split: if_splits)

function (sequential) recv :: "('f, 'd) skipper \<Rightarrow> ars_type \<Rightarrow> ('f, 'd) event list
    \<Rightarrow> (('f, 'd) pyval \<times> ('f, 'd) event list) outcome"
  and recv_fields :: "('f, 'd) skipper \<Rightarrow> nat \<Rightarrow> ars_type field list \<Rightarrow> int \<Rightarrow> (('f, 'd) pyval, ('f, 'd) pyval) dict
    \<Rightarrow> ('f, 'd) event list \<Rightarrow> ((('f, 'd) pyval, ('f, 'd) pyval) dict \<times> ('f, 'd) event list) outcome"
  and recv_items :: "('f, 'd) skipper \<Rightarrow> nat \<Rightarrow> ars_type \<Rightarrow> ('f, 'd) event list
    \<Rightarrow> (('f, 'd) pyval list \<times> ('f, 'd) event list) outcome"
  and recv_pairs :: "('f, 'd) skipper \<Rightarrow> nat \<Rightarrow> ars_type \<Rightarrow> ars_type \<Rightarrow> ('f, 'd) event list
    \<Rightarrow> ((('f, 'd) pyval \<times> ('f, 'd) pyval) list \<times> ('f, 'd) event list) outcome" where
  "recv S (Atomic a) es = (if a = ArsVoid then Ok (PNone, es) else recv_atom (atomic_type a) es)"
| "recv S (Alias i n t) es = recv S t es"
| "recv S DateTime es = recv_atom W_I64 es"
| "recv S (Struct e i n b fs) es =
     bind_ok (read_struct_begin es) (\<lambda>es1.
     bind_ok (recv_fields S (length es1) fs b [] es1) (\<lambda>(kvs, es2).
     bind_ok (expect Ev_Struct_End es2) (\<lambda>es3.
     map_ok (\<lambda>v. (v, es3)) (check_mandatory fs kvs))))"
| "recv S (ListT t) es =
     bind_ok (read_list es) (\<lambda>(w, n, es1).
     if w \<noteq> ttype t then Raise (RuntimeError ''Element type mismatch'')
     else bind_ok (recv_items S n t es1) (\<lambda>(xs, es2). map_ok (\<lambda>es3. (PList xs, es3)) (expect Ev_List_End es2)))"
| "recv S (MapT k u) es =
     bind_ok (read_map es) (\<lambda>(w, w', n, es1).
     if w \<noteq> ttype k then Raise (RuntimeError ''Key type mismatch'')
     else if w' \<noteq> ttype u then Raise (RuntimeError ''Value type mismatch'')
     else bind_ok (recv_pairs S n k u es1) (\<lambda>(kvs, es2). map_ok (\<lambda>es3. (new_dict kvs, es3)) (expect Ev_Map_End es2)))"
| "recv S (SetT t) es =
     bind_ok (read_set es) (\<lambda>(w, n, es1).
     if w \<noteq> ttype t then Raise (RuntimeError ''Element type mismatch'')
     else bind_ok (recv_items S n t es1) (\<lambda>(xs, es2).
          if list_all hashable xs then map_ok (\<lambda>es3. (new_set xs, es3)) (expect Ev_Set_End es2) else Raise TypeError))"
| "recv_fields S 0 fs b kvs es = Raise EOFError"
| "recv_fields S (Suc m) fs b kvs es =
     bind_ok (read_field es) (\<lambda>(fname, ftype, findex, es1).
     if ftype = W_Stop then Ok (kvs, es1)
     else bind_ok (nt_index fs (findex - b)) (\<lambda>f.
          bind_ok (skip_mismatch S fname ftype f es1) (\<lambda>es2.
          bind_ok (recv S (field_type f) es2) (\<lambda>(v, es3).
          bind_ok (expect Ev_Field_End es3) (\<lambda>es4.
          recv_fields S m fs b (dset (name_key (field_name f)) v kvs) es4)))))"
| "recv_items S 0 t es = Ok ([], es)"
| "recv_items S (Suc n) t es =
     bind_ok (recv S t es) (\<lambda>(x, es1). map_ok (\<lambda>(xs, es2). (x # xs, es2)) (recv_items S n t es1))"
| "recv_pairs S 0 k u es = Ok ([], es)"
| "recv_pairs S (Suc n) k u es =
     bind_ok (recv S k es) (\<lambda>(x, es1). bind_ok (recv S u es1) (\<lambda>(y, es2).
     if hashable x then map_ok (\<lambda>(xys, es3). ((x, y) # xys, es3)) (recv_pairs S n k u es2) else Raise TypeError))"
  by pat_completeness auto

termination recv
  by (relation "measures [
      case_sum (case_sum (\<lambda>(S, t, es). size t) (\<lambda>(S, m, fs, b, kvs, es). fields_size fs))
        (case_sum (\<lambda>(S, n, t, es). size t) (\<lambda>(S, n, k, u, es). size k + size u)),
      case_sum (case_sum (\<lambda>(S, t, es). 0) (\<lambda>(S, m, fs, b, kvs, es). m))
        (case_sum (\<lambda>(S, n, t, es). Suc n) (\<lambda>(S, n, k, u, es). Suc n))]")
    (auto dest: nt_index_size)

declare recv.simps [simp del] send.simps [simp del]

subsection \<open>Values the protocol carries\<close>

text \<open>The width of the integer types.\<close>

fun bits :: "atom \<Rightarrow> nat option" where
  "bits ArsInt8 = Some 8"
| "bits ArsInt16 = Some 16"
| "bits ArsInt32 = Some 32"
| "bits ArsInt64 = Some 64"
| "bits _ = None"

definition in_width :: "nat \<Rightarrow> int \<Rightarrow> bool" where
  "in_width w i \<longleftrightarrow> - (2 ^ (w - 1)) \<le> i \<and> i < 2 ^ (w - 1)"

fun atom_ok :: "atom \<Rightarrow> ('f, 'd) pyval \<Rightarrow> bool" where
  "atom_ok ArsVoid v = (v = PNone)"
| "atom_ok ArsBoolean v = (case v of PBool b \<Rightarrow> True | _ \<Rightarrow> False)"
| "atom_ok ArsFloat v = (case v of PFloat f \<Rightarrow> True | _ \<Rightarrow> False)"
| "atom_ok ArsBinary v = (case v of PBytes bs \<Rightarrow> True | _ \<Rightarrow> False)"
| "atom_ok ArsString v = (case v of PBytes bs \<Rightarrow> True | _ \<Rightarrow> False)"
| "atom_ok a v = (case v of PInt i \<Rightarrow> in_width (the (bits a)) i | _ \<Rightarrow> False)"

text \<open>
  A structure is a dict without the fields that are \<open>None\<close>; of the equal dicts, the one that
  lists its entries in the order of the fields.
\<close>

function (sequential) wire_ok :: "ars_type \<Rightarrow> ('f, 'd) pyval \<Rightarrow> bool"
  and fields_wire :: "ars_type field list \<Rightarrow> (('f, 'd) pyval \<times> ('f, 'd) pyval) list \<Rightarrow> bool" where
  "wire_ok (Atomic a) v = atom_ok a v"
| "wire_ok (Alias i n t) v = wire_ok t v"
| "wire_ok DateTime v = atom_ok ArsInt64 v"
| "wire_ok (ListT t) v = (case v of PList xs \<Rightarrow> list_all (\<lambda>x. wire_ok t x) xs | _ \<Rightarrow> False)"
| "wire_ok (SetT t) v =
     (case v of PSet xs \<Rightarrow> distinct xs \<and> list_all (\<lambda>x. hashable x \<and> wire_ok t x) xs | _ \<Rightarrow> False)"
| "wire_ok (MapT k u) v =
     (case v of PDict kvs \<Rightarrow> distinct (map fst kvs)
        \<and> list_all (\<lambda>e. hashable (fst e) \<and> wire_ok k (fst e) \<and> wire_ok u (snd e)) kvs | _ \<Rightarrow> False)"
| "wire_ok (Struct e i n b fs) v =
     (case v of PDict kvs \<Rightarrow> nt_ok field_name fs \<and> fields_wire fs kvs | _ \<Rightarrow> False)"
| "fields_wire [] kvs = (kvs = [])"
| "fields_wire (f # fs) kvs =
     (case kvs of
        [] \<Rightarrow> field_optional f \<and> fields_wire fs []
      | e # r \<Rightarrow> if fst e = name_key (field_name f)
                 then snd e \<noteq> PNone \<and> wire_ok (field_type f) (snd e) \<and> fields_wire fs r
                 else field_optional f \<and> fields_wire fs (e # r))"
  by pat_completeness auto

termination wire_ok
  by (relation "measure (case_sum (\<lambda>(t, v). size t) (\<lambda>(fs, kvs). fields_size fs))")
    (simp_all add: less_Suc_eq_le trans_le_add1 less_imp_le)

text \<open>What the protocol may change on the way: the names of structures and fields are not carried by all protocols.\<close>

fun delivered :: "('f, 'd) event \<Rightarrow> ('f, 'd) event \<Rightarrow> bool" where
  "delivered (Ev_Struct_Begin n) e = (case e of Ev_Struct_Begin m \<Rightarrow> True | _ \<Rightarrow> False)"
| "delivered (Ev_Field n t i) e = (e = Ev_Field n t i \<or> e = Ev_Field None t i)"
| "delivered a e = (e = a)"

lemma delivered_struct [simp]: "delivered (Ev_Struct_Begin n) e \<longleftrightarrow> (\<exists>m. e = Ev_Struct_Begin m)"
  by (cases e) auto

declare delivered.simps(1) [simp del]

definition delivers :: "('f, 'd) event list \<Rightarrow> ('f, 'd) event list \<Rightarrow> bool" where
  "delivers = list_all2 delivered"

lemma delivers_Nil [simp]: "delivers [] es' \<longleftrightarrow> es' = []"
  by (simp add: delivers_def)

lemma delivers_Cons: "delivers (e # es) es' \<longleftrightarrow> (\<exists>x xs. es' = x # xs \<and> delivered e x \<and> delivers es xs)"
  by (simp add: delivers_def list_all2_Cons1)

lemma delivers_append: "delivers (es @ fs) es' \<longleftrightarrow> (\<exists>xs ys. es' = xs @ ys \<and> delivers es xs \<and> delivers fs ys)"
  unfolding delivers_def list_all2_append1 by (metis list_all2_lengthD)

lemma codes_inj: "codes m = codes n \<longleftrightarrow> m = n"
proof -
  have "inj (of_char :: char \<Rightarrow> nat)" by (simp add: inj_def)
  then show ?thesis by (auto simp: codes_def dest: inj_map_eq_map [THEN iffD1])
qed

lemma name_key_eq [simp]: "name_key m = name_key n \<longleftrightarrow> m = n"
  by (simp add: name_key_def codes_inj)

lemma is_key_name [simp]: "is_key n (name_key m) \<longleftrightarrow> m = n"
  by (auto simp: is_key_def name_key_def codes_inj)

lemma nt_index_append [simp]: "nt_index (xs @ y # ys) (int (length xs)) = Ok y"
  by (simp add: nt_index_def)

text \<open>A list of sent elements is received element by element.\<close>

definition transmits :: "ars_type \<Rightarrow> ('f, 'd) pyval \<Rightarrow> bool" where
  "transmits t v \<longleftrightarrow> (\<exists>es. send t v = Ok es \<and>
     (\<forall>es' rest S. delivers es es' \<longrightarrow> recv S t (es' @ rest) = Ok (v, rest)))"

lemma items_transmit:
  "list_all (transmits t) xs \<Longrightarrow> \<exists>ess. map_outcome (\<lambda>x. send t x) xs = Ok ess \<and>
     (\<forall>es' rest S. delivers (concat ess) es' \<longrightarrow> recv_items S (length xs) t (es' @ rest) = Ok (xs, rest))"
proof (induction xs)
  case Nil
  then show ?case by (simp add: recv.simps)
next
  case (Cons x xs)
  then obtain ess where ess: "map_outcome (\<lambda>x. send t x) xs = Ok ess"
    "\<And>es' rest S. delivers (concat ess) es' \<Longrightarrow> recv_items S (length xs) t (es' @ rest) = Ok (xs, rest)" by auto
  from Cons.prems obtain es where es: "send t x = Ok es"
    "\<And>es' rest S. delivers es es' \<Longrightarrow> recv S t (es' @ rest) = Ok (x, rest)" by (auto simp: transmits_def)
  show ?case
    using ess es by (intro exI [of _ "es # ess"]) (auto simp: delivers_append recv.simps)
qed

lemma pairs_transmit:
  "list_all (\<lambda>e. transmits k (fst e) \<and> transmits u (snd e) \<and> hashable (fst e)) kvs
    \<Longrightarrow> \<exists>ess. map_outcome (\<lambda>e. bind_ok (send k (fst e)) (\<lambda>a. map_ok (\<lambda>b. a @ b) (send u (snd e)))) kvs = Ok ess \<and>
     (\<forall>es' rest S. delivers (concat ess) es' \<longrightarrow> recv_pairs S (length kvs) k u (es' @ rest) = Ok (kvs, rest))"
proof (induction kvs)
  case Nil
  then show ?case by (simp add: recv.simps)
next
  case (Cons e kvs)
  then obtain ess where ess: "map_outcome (\<lambda>e. bind_ok (send k (fst e)) (\<lambda>a. map_ok (\<lambda>b. a @ b) (send u (snd e)))) kvs = Ok ess"
    "\<And>es' rest S. delivers (concat ess) es' \<Longrightarrow> recv_pairs S (length kvs) k u (es' @ rest) = Ok (kvs, rest)" by auto
  obtain a where a: "send k (fst e) = Ok a"
    "\<And>es' rest S. delivers a es' \<Longrightarrow> recv S k (es' @ rest) = Ok (fst e, rest)"
    using Cons.prems by (auto simp: transmits_def)
  obtain b where b: "send u (snd e) = Ok b"
    "\<And>es' rest S. delivers b es' \<Longrightarrow> recv S u (es' @ rest) = Ok (snd e, rest)"
    using Cons.prems by (auto simp: transmits_def)
  have h: "hashable (fst e)" using Cons.prems by simp
  show ?case
    using ess a b h by (intro exI [of _ "(a @ b) # ess"]) (auto simp: delivers_append recv.simps)
qed

lemma fields_wire_keys: "fields_wire fs kvs \<Longrightarrow> fst ` set kvs \<subseteq> (\<lambda>f. name_key (field_name f)) ` set fs"
proof (induction fs arbitrary: kvs)
  case (Cons f fs)
  then show ?case by (cases kvs) (fastforce split: if_splits)+
qed simp

lemma fields_wire_mandatory:
  "fields_wire fs kvs \<Longrightarrow> f \<in> set fs \<Longrightarrow> dget kvs (name_key (field_name f)) \<noteq> None \<or> field_optional f"
proof (induction fs arbitrary: kvs)
  case (Cons g fs)
  show ?case
  proof (cases kvs)
    case Nil
    with Cons.prems Cons.IH [of "[]"] show ?thesis by auto
  next
    case (Cons e r)
    then show ?thesis
      using Cons.IH [of r] Cons.IH [of "e # r"] Cons.prems by (cases e) (auto split: if_splits)
  qed
qed simp

lemma find_append: "find P (xs @ ys) = (case find P xs of None \<Rightarrow> find P ys | Some x \<Rightarrow> Some x)"
  by (induction xs) auto

lemma find_other:
  assumes "fst ` set kvs \<subseteq> (\<lambda>f. name_key (field_name f)) ` set fs" and "n \<notin> field_name ` set fs"
  shows "find (\<lambda>e. is_key n (fst e)) kvs = None"
proof -
  have "\<not> is_key n (fst e)" if e: "e \<in> set kvs" for e
  proof -
    obtain g where "g \<in> set fs" "fst e = name_key (field_name g)" using assms(1) e by blast
    with assms(2) show ?thesis by auto
  qed
  then show ?thesis by (fastforce simp: find_None_iff)
qed

text \<open>The loop over the fields: \<open>acc\<close> holds the entries of the fields in \<open>pre\<close>.\<close>

lemma fields_transmit:
  fixes kvs acc :: "(('f, 'd) pyval \<times> ('f, 'd) pyval) list"
  assumes "\<And>f (v :: ('f, 'd) pyval). f \<in> set fs \<Longrightarrow> wire_ok (field_type f) v \<Longrightarrow> transmits (field_type f) v"
    and "distinct (map field_name (pre @ fs))" and "fields_wire fs kvs"
    and "fst ` set acc \<subseteq> (\<lambda>f. name_key (field_name f)) ` set pre"
  shows "\<exists>es. send_fields fs (b + int (length pre)) (PDict (acc @ kvs)) = Ok es \<and>
     (\<forall>es' rest S m. delivers es es' \<longrightarrow> length es' < m \<longrightarrow>
        recv_fields S m (pre @ fs) b acc (es' @ Ev_Stop # rest) = Ok (acc @ kvs, rest))"
  using assms
proof (induction fs arbitrary: pre kvs acc)
  case Nil
  have "recv_fields S m pre b acc (Ev_Stop # rest) = Ok (acc, rest)" if "0 < m" for S m rest
    using that by (cases m) (simp_all add: recv.simps)
  with Nil show ?case by (auto simp: send.simps)
next
  case (Cons f fs)
  let ?k = "name_key (field_name f)"
  have notacc: "?k \<notin> fst ` set acc" and notpre: "field_name f \<notin> field_name ` set pre"
    and notfs: "field_name f \<notin> field_name ` set fs"
    using Cons.prems(2,4) by auto
  then have find_acc: "find (\<lambda>e. is_key (field_name f) (fst e)) acc = None"
    using Cons.prems(4) by (intro find_other)
  have IH: "\<exists>es. send_fields fs (b + int (length (pre @ [f]))) (PDict (acc' @ r)) = Ok es \<and>
     (\<forall>es' rest S m. delivers es es' \<longrightarrow> length es' < m \<longrightarrow>
        recv_fields S m ((pre @ [f]) @ fs) b acc' (es' @ Ev_Stop # rest) = Ok (acc' @ r, rest))"
    if "fields_wire fs r" "fst ` set acc' \<subseteq> (\<lambda>f. name_key (field_name f)) ` set (pre @ [f])"
    for acc' r :: "(('f, 'd) pyval \<times> ('f, 'd) pyval) list"
    by (rule Cons.IH [OF _ _ that]) (use Cons.prems(1,2) in auto)
  show ?case
  proof (cases "\<exists>v r. kvs = (?k, v) # r")
    case True
    then obtain v r where kvs: "kvs = (?k, v) # r" by blast
    then have v: "v \<noteq> PNone" "wire_ok (field_type f) v" "fields_wire fs r" using Cons.prems(3) by auto
    obtain es where es: "send (field_type f) v = Ok es"
      "\<And>es' rest S. delivers es es' \<Longrightarrow> recv S (field_type f) (es' @ rest) = Ok (v, rest)"
      using Cons.prems(1) [of f v] v(2) by (auto simp: transmits_def)
    have get: "get_field (PDict (acc @ kvs)) (field_name f) = Ok v"
      using find_acc kvs by (simp add: get_field_def find_append)
    obtain rs where rs: "send_fields fs (b + int (length (pre @ [f]))) (PDict ((acc @ [(?k, v)]) @ r)) = Ok rs"
      "\<And>es' rest S m. delivers rs es' \<Longrightarrow> length es' < m \<Longrightarrow>
        recv_fields S m ((pre @ [f]) @ fs) b (acc @ [(?k, v)]) (es' @ Ev_Stop # rest) = Ok ((acc @ [(?k, v)]) @ r, rest)"
    proof -
      have "fst ` set (acc @ [(?k, v)]) \<subseteq> (\<lambda>f. name_key (field_name f)) ` set (pre @ [f])"
        using Cons.prems(4) by auto
      from IH [OF v(3) this] that show thesis by blast
    qed
    have ins: "dset ?k v acc = acc @ [(?k, v)]"
      using notacc by (intro dset_append_new) (simp add: dkeys_def)
    have nostop: "ttype t \<noteq> W_Stop" for t
    proof (induction t)
      case (Atomic a)
      then show ?case by (cases a) simp_all
    qed simp_all
    have "recv_fields S m (pre @ f # fs) b acc (es' @ Ev_Stop # rest) = Ok (acc @ kvs, rest)"
      if d: "delivers (Ev_Field (Some (field_name f)) (ttype (field_type f)) (b + int (length pre)) # es @ Ev_Field_End # rs) es'"
        and m: "length es' < m" for es' rest S m
    proof -
      obtain n xs ys where es': "es' = Ev_Field n (ttype (field_type f)) (b + int (length pre)) # xs @ Ev_Field_End # ys"
        and n: "n = None \<or> n = Some (field_name f)" and dx: "delivers es xs" and dy: "delivers rs ys"
        using d by (auto simp: delivers_Cons delivers_append)
      obtain m' where m': "m = Suc m'" "length ys < m'" using m es' by (cases m) auto
      have "skip_mismatch S n (ttype (field_type f)) f zs = Ok zs" for zs
        using n by (auto simp: skip_mismatch_def)
      then show ?thesis
        using es(2) [OF dx, of S "Ev_Field_End # ys @ Ev_Stop # rest"] rs(2) [OF dy m'(2), of S rest] nostop kvs
        unfolding es' m'(1) by (simp add: recv.simps ins)
    qed
    moreover have "send_fields (f # fs) (b + int (length pre)) (PDict (acc @ kvs))
        = Ok (Ev_Field (Some (field_name f)) (ttype (field_type f)) (b + int (length pre)) # es @ Ev_Field_End # rs)"
    proof -
      have "send_fields fs (b + int (length pre) + 1) (PDict (acc @ kvs)) = Ok rs"
        using rs(1) kvs by (simp add: ac_simps)
      then show ?thesis using get v(1) es(1) by (simp add: send.simps)
    qed
    ultimately show ?thesis by blast
  next
    case False
    then have w: "fields_wire fs kvs" using Cons.prems(3) by (cases kvs) (auto split: if_splits)
    have "find (\<lambda>e. is_key (field_name f) (fst e)) kvs = None"
      using fields_wire_keys [OF w] notfs by (rule find_other)
    then have get: "get_field (PDict (acc @ kvs)) (field_name f) = Ok PNone"
      using find_acc by (simp add: get_field_def find_append)
    obtain rs where rs: "send_fields fs (b + int (length (pre @ [f]))) (PDict (acc @ kvs)) = Ok rs"
      "\<And>es' rest S m. delivers rs es' \<Longrightarrow> length es' < m \<Longrightarrow>
        recv_fields S m ((pre @ [f]) @ fs) b acc (es' @ Ev_Stop # rest) = Ok (acc @ kvs, rest)"
    proof -
      have "fst ` set acc \<subseteq> (\<lambda>f. name_key (field_name f)) ` set (pre @ [f])" using Cons.prems(4) by auto
      from IH [OF w this] that show thesis by blast
    qed
    have "send_fields fs (b + int (length pre) + 1) (PDict (acc @ kvs)) = Ok rs"
      using rs(1) by (simp add: ac_simps)
    then have "send_fields (f # fs) (b + int (length pre)) (PDict (acc @ kvs)) = Ok rs"
      using get by (simp add: send.simps)
    with rs(2) show ?thesis by auto
  qed
qed

subsection \<open>The round trip\<close>

lemma recv_atom_delivered: "delivers [Ev_Atom w v] es' \<Longrightarrow> recv_atom w (es' @ rest) = Ok (v, rest)"
  by (auto simp: delivers_Cons)

lemma wire_ok_transmits:
  fixes v :: "('f, 'd) pyval"
  shows "wire_ok t v \<Longrightarrow> transmits t v"
proof (induction t arbitrary: v rule: measure_induct_rule [of size])
  case (less t)
  show ?case
  proof (cases t)
    case (Atomic a)
    then show ?thesis
      using less.prems recv_atom_delivered
      by (cases "a = ArsVoid") (auto simp: transmits_def send.simps recv.simps)
  next
    case (Alias i n u)
    then show ?thesis using less.IH [of u v] less.prems by (simp add: transmits_def send.simps recv.simps)
  next
    case DateTime
    then show ?thesis using recv_atom_delivered by (auto simp: transmits_def send.simps recv.simps)
  next
    case (ListT u)
    then obtain xs where v: "v = PList xs" "list_all (wire_ok u) xs" using less.prems by (cases v) auto
    then have "list_all (transmits u) xs" using less.IH [of u] ListT by (auto simp: list_all_iff)
    from items_transmit [OF this] v(1) ListT show ?thesis
      by (fastforce simp: transmits_def send.simps recv.simps delivers_Cons delivers_append)
  next
    case (SetT u)
    then obtain xs where v: "v = PSet xs" "distinct xs" "list_all (\<lambda>x. hashable x \<and> wire_ok u x) xs"
      using less.prems by (cases v) auto
    then have "list_all (transmits u) xs" "list_all hashable xs" using less.IH [of u] SetT by (auto simp: list_all_iff)
    with items_transmit [OF this(1)] v(1,2) SetT show ?thesis
      by (fastforce simp: transmits_def send.simps recv.simps delivers_Cons delivers_append new_set_def sunion_distinct)
  next
    case (MapT k u)
    then obtain kvs where v: "v = PDict kvs" "distinct (map fst kvs)"
      "list_all (\<lambda>e. hashable (fst e) \<and> wire_ok k (fst e) \<and> wire_ok u (snd e)) kvs"
      using less.prems by (cases v) auto
    then have "list_all (\<lambda>e. transmits k (fst e) \<and> transmits u (snd e) \<and> hashable (fst e)) kvs"
      using less.IH [of k] less.IH [of u] MapT by (auto simp: list_all_iff)
    from pairs_transmit [OF this] v(1,2) MapT show ?thesis
      by (fastforce simp: transmits_def send.simps recv.simps delivers_Cons delivers_append new_dict_def dmerge_distinct)
  next
    case (Struct e i n b fs)
    then obtain kvs where v: "v = PDict kvs" "distinct (map field_name fs)" "fields_wire fs kvs"
      using less.prems by (cases v) (auto simp: nt_ok_def)
    have "transmits (field_type f) w" if "f \<in> set fs" "wire_ok (field_type f) w" for f and w :: "('f, 'd) pyval"
      using less.IH [of "field_type f" w] that field_smaller [OF that(1)] Struct by simp
    then obtain es where es: "send_fields fs b v = Ok es"
      "\<And>es' rest S m. delivers es es' \<Longrightarrow> length es' < m \<Longrightarrow>
        recv_fields S m fs b [] (es' @ Ev_Stop # rest) = Ok (kvs, rest)"
      using fields_transmit [of fs "[]" kvs "[]" b] v by auto
    have checked: "check_mandatory fs kvs = Ok v"
      using fields_wire_mandatory [OF v(3)] v(1) by (simp add: check_mandatory_def list_all_iff)
    have loop: "recv_fields S (Suc (Suc (length xs + length rest))) fs b [] (xs @ Ev_Stop # Ev_Struct_End # rest)
        = Ok (kvs, Ev_Struct_End # rest)" if "delivers es xs" for S xs rest
      by (rule es(2) [OF that]) simp
    show ?thesis
      unfolding transmits_def Struct
    proof (intro exI conjI allI impI)
      show "send (Struct e i n b fs) v = Ok (Ev_Struct_Begin n # es @ [Ev_Stop, Ev_Struct_End])"
        using es(1) by (simp add: send.simps)
      fix es' rest and S :: "('f, 'd) skipper"
      assume "delivers (Ev_Struct_Begin n # es @ [Ev_Stop, Ev_Struct_End]) es'"
      then obtain m xs where es': "es' = Ev_Struct_Begin m # xs @ [Ev_Stop, Ev_Struct_End]" and xs: "delivers es xs"
        by (auto simp: delivers_Cons delivers_append)
      show "recv S (Struct e i n b fs) (es' @ rest) = Ok (v, rest)"
        using loop [OF xs, of S rest] checked unfolding es' by (simp add: recv.simps(4))
    qed
  qed
qed

text \<open>
  C25 (thrift_round_trip): what \<open>_send\<close> writes for a value of a type, \<open>_recv\<close> reads back, consuming
  exactly the calls that were written, whether or not the protocol carries the names of
  structures and fields, and without skipping anything.
\<close>

theorem thrift_round_trip:
  assumes "wire_ok t v"
  shows "\<exists>es. send t v = Ok es \<and>
    (\<forall>es' rest S. delivers es es' \<longrightarrow> recv S t (es' @ rest) = Ok (v, rest))"
  using wire_ok_transmits [OF assms] by (simp add: transmits_def)

definition sample_wire_type :: ars_type where
  "sample_wire_type = MapT (Atomic ArsString) (Struct False 1 ''S'' 1
     [Field 2 ''id'' (Atomic ArsInt16) False, Field 3 ''tags'' (SetT (Atomic ArsInt8)) True, Field 4 ''note'' (Atomic ArsString) True])"

definition sample_wire_value :: "(unit, unit) pyval" where
  "sample_wire_value = PDict [(PBytes [97], PDict [(PBytes [105, 100], PInt (-300)), (PBytes [110, 111, 116, 101], PBytes [])])]"

theorem thrift_round_trip_witness:
  "\<exists>es. send sample_wire_type sample_wire_value = Ok es \<and> recv (\<lambda>w es. Raise ProtocolError) sample_wire_type es = Ok (sample_wire_value, [])"
proof -
  have "wire_ok sample_wire_type sample_wire_value"
    by (simp add: sample_wire_type_def sample_wire_value_def name_key_def codes_def in_width_def nt_ok_def)
  then obtain es where es: "send sample_wire_type sample_wire_value = Ok es"
    "\<And>es' rest S. delivers es es' \<Longrightarrow> recv S sample_wire_type (es' @ rest) = Ok (sample_wire_value, rest)"
    using thrift_round_trip by blast
  have "delivered e e" for e :: "(unit, unit) event" by (cases e) auto
  then have "delivers es es" by (simp add: delivers_def list_all2_same)
  from es(2) [OF this, of "\<lambda>w es. Raise ProtocolError" "[]"] es(1) show ?thesis by auto
qed

end
