(* ===== verification/Ars_Rpc.thy ===== *)
theory Ars_Rpc
  imports Ars_Thrift Ars_Procedures
begin

section \<open>satori.ars.thrift.processor: remote calls\<close>

text \<open>
  \<^item> \<open>typeargs\<close>: the type descriptions for \<open>fastbinary\<close>. The source caches them per type;
    \<open>fastbinary\<close> itself encodes and decodes structures and is a parameter (\<open>rpc\<close>).
  \<^item> \<open>process\<close>: one request at the server. What it writes to the output protocol is a list of
    \<open>out\<close> items, flushed in every case; the implementations act on a state \<open>'s\<close> of their own.
  \<^item> \<open>call_request\<close> and \<open>call_answer\<close>: the two halves of \<open>ThriftProcessor.call\<close>, before and after
    the transport. The attributes of an instance are a dict from names to values.
\<close>

datatype targs =
    No_Args
  | Elem_Args wire_type targs
  | Map_Args wire_type targs wire_type targs
  | Struct_Args ars_type "(int \<times> wire_type \<times> string \<times> targs) option list"

function (sequential) typeargs :: "ars_type \<Rightarrow> wire_type \<times> targs"
  and field_args :: "ars_type field list \<Rightarrow> int \<Rightarrow> (int \<times> wire_type \<times> string \<times> targs) option list" where
  "typeargs (Atomic a) = (atomic_type a, No_Args)"
| "typeargs (ListT t) = (W_List, case typeargs t of (w, a) \<Rightarrow> Elem_Args w a)"
| "typeargs (SetT t) = (W_Set, case typeargs t of (w, a) \<Rightarrow> Elem_Args w a)"
| "typeargs (MapT k u) = (W_Map, case typeargs k of (kw, ka) \<Rightarrow> case typeargs u of (uw, ua) \<Rightarrow> Map_Args kw ka uw ua)"
| "typeargs (Alias i n t) = typeargs t"
| "typeargs DateTime = (W_I64, No_Args)"
| "typeargs (Struct e i n b fs) = (W_Struct, Struct_Args (Struct e i n b fs) (replicate (nat b) None @ field_args fs b))"
| "field_args [] i = []"
| "field_args (f # fs) i = (case typeargs (field_type f) of (w, a) \<Rightarrow> Some (i, w, field_name f, a)) # field_args fs (i + 1)"
  by pat_completeness auto

termination typeargs
  by (relation "measure (case_sum size (\<lambda>(fs, i). fields_size fs))")
    (simp_all add: less_Suc_eq_le trans_le_add1 less_imp_le)

lemma typeargs_ttype: "fst (typeargs t) = ttype t"
  by (induction t) (auto split: prod.split)

subsection \<open>Structures as attributes\<close>

type_synonym ('f, 'd) attrs = "(string, ('f, 'd) pyval) dict"

text \<open>\<open>getattr\<close> of an instance, whose missing attributes are \<open>None\<close>.\<close>

definition attr_of :: "('f, 'd) attrs \<Rightarrow> string \<Rightarrow> ('f, 'd) pyval" where
  "attr_of at n = dget_def_val at n PNone"

text \<open>The attributes that are set, in the order of the fields.\<close>

definition carried :: "ars_type field list \<Rightarrow> ('f, 'd) attrs \<Rightarrow> ('f, 'd) attrs" where
  "carried fs at = map (\<lambda>f. (field_name f, attr_of at (field_name f)))
     (filter (\<lambda>f. attr_of at (field_name f) \<noteq> PNone) fs)"

text \<open>A new instance: every field is \<open>None\<close>.\<close>

definition blank :: "ars_type field list \<Rightarrow> ('f, 'd) attrs" where
  "blank fs = map (\<lambda>f. (field_name f, PNone)) fs"

text \<open>
  What the code relies on in the encoder: the attributes that are set come back, and only
  those. \<open>fastbinary\<close> is one such encoder, the functions of \<open>Ars_Thrift\<close> are another.
\<close>

locale struct_codec =
  fixes put_struct :: "ars_type \<Rightarrow> ('f, 'd) attrs \<Rightarrow> 'w outcome"
    and get_struct :: "ars_type \<Rightarrow> 'w \<Rightarrow> ('f, 'd) attrs outcome"
    and good :: "ars_type \<Rightarrow> ('f, 'd) attrs \<Rightarrow> bool"
  assumes law: "good t at \<Longrightarrow> \<exists>w. put_struct t at = Ok w \<and> get_struct t w = Ok (carried (struct_fields t) at)"
begin

lemma puts: "good t at \<Longrightarrow> \<exists>w. put_struct t at = Ok w"
  using law by blast

lemma gets: "good t at \<Longrightarrow> put_struct t at = Ok w \<Longrightarrow> get_struct t w = Ok (carried (struct_fields t) at)"
  using law by fastforce

end

subsection \<open>The server\<close>

datatype app_error = Unknown_Method | Unknown_Error

datatype message_kind = M_Call | M_Reply | M_Exception

datatype 'w out =
    Out_Begin string message_kind int
  | Out_Struct 'w
  | Out_Error app_error string
  | Out_End

datatype ('f, 'd) answer = Returned "('f, 'd) pyval" | Threw "('f, 'd) pyval"

text \<open>
  \<open>rp_run\<close> calls an implementation with the address of the client and the arguments;
  \<open>rp_isinstance\<close> is the test of an exception against the class of a type.
\<close>

record ('f, 'd, 'w, 'i, 's) rpc =
  rp_put :: "ars_type \<Rightarrow> ('f, 'd) attrs \<Rightarrow> 'w outcome"
  rp_get :: "ars_type \<Rightarrow> 'w \<Rightarrow> ('f, 'd) attrs outcome"
  rp_run :: "'i \<Rightarrow> (string \<times> int) option \<Rightarrow> ('f, 'd) attrs \<Rightarrow> 's \<Rightarrow> ('f, 'd) answer \<times> 's"
  rp_isinstance :: "('f, 'd) pyval \<Rightarrow> ars_type \<Rightarrow> bool"

record 'w request =
  rq_name :: string
  rq_seqid :: int
  rq_body :: 'w

text \<open>\<open>ThriftProcessor.__init__\<close>: the procedures of all services.\<close>

definition procedures_of :: "'i interface \<Rightarrow> unit outcome \<times> 'i procedure list" where
  "procedures_of I = for_each (\<lambda>s. nt_extend pr_name (sv_procedures s)) (if_services I) []"

definition recv_struct :: "('f, 'd, 'w, 'i, 's) rpc \<Rightarrow> ars_type \<Rightarrow> 'w \<Rightarrow> ('f, 'd) attrs outcome" where
  "recv_struct C t w = map_ok (dmerge (blank (struct_fields t))) (rp_get C t w)"

text \<open>The prefix of an IPv4 address on an IPv6 socket is cut off.\<close>

definition client_ip :: "string \<Rightarrow> string" where
  "client_ip a = (if take 7 a = ''::ffff:'' then drop 7 a else a)"

definition call_args :: "ars_type field list \<Rightarrow> ('f, 'd) attrs \<Rightarrow> ('f, 'd) attrs" where
  "call_args ps at = map (\<lambda>p. (field_name p, attr_of at (field_name p)))
     (filter (\<lambda>p. attr_of at (field_name p) \<noteq> PNone) ps)"

text \<open>The first field of the result that an exception belongs to; a type without a class raises.\<close>

fun handler_field :: "(('f, 'd) pyval \<Rightarrow> ars_type \<Rightarrow> bool) \<Rightarrow> ('f, 'd) pyval \<Rightarrow> ars_type field list \<Rightarrow> string option outcome" where
  "handler_field is ex [] = Ok None"
| "handler_field is ex (f # fs) =
     (if field_name f = ''result'' then handler_field is ex fs
      else case field_type f of
             Struct e i n b gs \<Rightarrow> if is ex (field_type f) then Ok (Some (field_name f)) else handler_field is ex fs
           | _ \<Rightarrow> Raise (AttributeError ''get_class''))"

definition app_reply :: "string \<Rightarrow> int \<Rightarrow> app_error \<Rightarrow> string \<Rightarrow> 'w out list" where
  "app_reply n q x text = [Out_Begin n M_Exception q, Out_Error x text, Out_End]"

definition send_result :: "('f, 'd, 'w, 'i, 's) rpc \<Rightarrow> 'i procedure \<Rightarrow> string \<Rightarrow> int \<Rightarrow> ('f, 'd) attrs \<Rightarrow> unit outcome \<times> 'w out list" where
  "send_result C p n q result =
     (case rp_put C (pr_result_struct p) result of
        Raise e \<Rightarrow> (Raise e, [Out_Begin n M_Reply q])
      | Ok w \<Rightarrow> (Ok (), [Out_Begin n M_Reply q, Out_Struct w, Out_End]))"

definition process :: "('f, 'd, 'w, 'i, 's) rpc \<Rightarrow> (string \<times> int) option \<Rightarrow> 'i procedure list \<Rightarrow> 'w request \<Rightarrow> 's
    \<Rightarrow> unit outcome \<times> 'w out list \<times> 's" where
  "process C peer ps rq s =
     (let n = rq_name rq; q = rq_seqid rq in
      case nt_get pr_name n ps of
        None \<Rightarrow> (Ok (), app_reply n q Unknown_Method (''Unknown method '' @ n), s)
      | Some p \<Rightarrow>
          (case recv_struct C (pr_args_struct p) (rq_body rq) of
             Raise e \<Rightarrow> (Raise e, [], s)
           | Ok arguments \<Rightarrow>
               (let result = blank (struct_fields (pr_result_struct p));
                    (ans, s1) = (case pr_impl p of
                        None \<Rightarrow> (Threw PNone, s)
                      | Some i \<Rightarrow> rp_run C i (map_option (\<lambda>(a, port). (client_ip a, port)) peer)
                                    (call_args (pr_params p) arguments) s) in
                case ans of
                  Returned v \<Rightarrow> (case send_result C p n q (dset ''result'' v result) of (r, out) \<Rightarrow> (r, out, s1))
                | Threw ex \<Rightarrow>
                    (case handler_field (rp_isinstance C) ex (struct_fields (pr_result_struct p)) of
                       Raise e \<Rightarrow> (Raise e, [], s1)
                     | Ok None \<Rightarrow> (Ok (), app_reply n q Unknown_Error ''Unknown exception in procedure'', s1)
                     | Ok (Some f) \<Rightarrow> (case send_result C p n q (dset f ex result) of (r, out) \<Rightarrow> (r, out, s1))))))"

subsection \<open>The client\<close>

datatype ('f, 'd) client_answer =
    Result "('f, 'd) pyval"
  | Remote_Exception "('f, 'd) pyval"
  | Application_Error app_error string
  | Local_Error exn

text \<open>
  A procedure is given by name or as an object. An unknown name raises: the error message
  refers to a variable that does not exist.
\<close>

definition find_procedure :: "'i procedure list \<Rightarrow> string \<Rightarrow> 'i procedure outcome" where
  "find_procedure ps n = (case nt_get pr_name n ps of Some p \<Rightarrow> Ok p | None \<Rightarrow> Raise (NameError ''name''))"

definition call_request :: "('f, 'd, 'w, 'i, 's) rpc \<Rightarrow> 'i procedure \<Rightarrow> ('f, 'd) attrs \<Rightarrow> int \<Rightarrow> 'w request outcome \<times> int" where
  "call_request C p args seqid =
     (map_ok (\<lambda>w. \<lparr>rq_name = pr_name p, rq_seqid = seqid, rq_body = w\<rparr>) (rp_put C (pr_args_struct p) args), seqid + 1)"

text \<open>The value of the result, or the first field that is set, which is raised.\<close>

fun first_set :: "('f, 'd) attrs \<Rightarrow> ars_type field list \<Rightarrow> ('f, 'd) client_answer" where
  "first_set at [] = Result PNone"
| "first_set at (f # fs) =
     (if attr_of at (field_name f) \<noteq> PNone then Remote_Exception (attr_of at (field_name f)) else first_set at fs)"

fun call_answer :: "('f, 'd, 'w, 'i, 's) rpc \<Rightarrow> 'i procedure \<Rightarrow> 'w out list \<Rightarrow> ('f, 'd) client_answer" where
  "call_answer C p (Out_Begin n M_Exception q # Out_Error x text # Out_End # rest) = Application_Error x text"
| "call_answer C p (Out_Begin n k q # Out_Struct w # Out_End # rest) =
     (case recv_struct C (pr_result_struct p) w of
        Raise e \<Rightarrow> Local_Error e
      | Ok result \<Rightarrow> if attr_of result ''result'' \<noteq> PNone then Result (attr_of result ''result'')
                     else first_set result (struct_fields (pr_result_struct p)))"
| "call_answer C p out = Local_Error EOFError"

text \<open>A call over a connection that delivers what is sent.\<close>

definition remote_call :: "('f, 'd, 'w, 'i, 's) rpc \<Rightarrow> (string \<times> int) option \<Rightarrow> 'i procedure list \<Rightarrow> 'i procedure
    \<Rightarrow> ('f, 'd) attrs \<Rightarrow> int \<Rightarrow> 's \<Rightarrow> ('f, 'd) client_answer \<times> 's" where
  "remote_call C peer ps p args seqid s =
     (case fst (call_request C p args seqid) of
        Raise e \<Rightarrow> (Local_Error e, s)
      | Ok rq \<Rightarrow> (case process C peer ps rq s of (r, out, s1) \<Rightarrow> (call_answer C p out, s1)))"

subsection \<open>Attributes\<close>

lemma attr_of_blank [simp]: "attr_of (blank fs) n = PNone"
proof (induction fs)
  case (Cons f fs)
  then show ?case by (simp add: attr_of_def dget_def_val_def blank_def split: option.splits)
qed (simp add: attr_of_def dget_def_val_def blank_def)

lemma attr_of_dset [simp]: "attr_of (dset m v at) n = (if n = m then v else attr_of at n)"
  by (simp add: attr_of_def dget_def_val_def)

lemma carried_names: "set (dkeys (carried fs at)) \<subseteq> field_name ` set fs"
  by (auto simp: carried_def dkeys_def)

lemma dget_carried:
  "dget (carried fs at) n = (if n \<in> field_name ` set fs \<and> attr_of at n \<noteq> PNone then Some (attr_of at n) else None)"
  by (induction fs) (auto simp: carried_def)

lemma carried_ok: "nt_ok field_name fs \<Longrightarrow> dict_ok (carried fs at)"
  by (auto simp: carried_def dict_ok_def nt_ok_def comp_def distinct_map intro: inj_on_subset)

lemma attr_of_carried: "n \<in> field_name ` set fs \<Longrightarrow> attr_of (carried fs at) n = attr_of at n"
  by (auto simp: dget_carried attr_of_def [of "carried fs at"] dget_def_val_def)

text \<open>What a receiver finds in the attributes of a structure.\<close>

lemma received_attr:
  assumes "nt_ok field_name fs" "n \<in> field_name ` set fs"
  shows "attr_of (dmerge (blank fs) (carried fs at)) n = attr_of at n"
proof -
  have "attr_of (dmerge (blank fs) (carried fs at)) n =
      (case dget (carried fs at) n of Some v \<Rightarrow> v | None \<Rightarrow> attr_of (blank fs) n)"
    using carried_ok [OF assms(1), of at]
    by (simp add: attr_of_def dget_def_val_def dget_dmerge split: option.split)
  then show ?thesis using assms(2) by (auto simp: dget_carried)
qed

lemma call_args_cong:
  "(\<And>n. n \<in> field_name ` set ps \<Longrightarrow> attr_of a n = attr_of b n) \<Longrightarrow> call_args ps a = call_args ps b"
  by (simp add: call_args_def cong: filter_cong)

subsection \<open>The codec of the source\<close>

text \<open>
  \<open>_send\<close> and \<open>_recv\<close> as the encoder: the attributes of an instance are its dict of values.
\<close>

definition keyed :: "('f, 'd) attrs \<Rightarrow> ('f, 'd) pyval" where
  "keyed at = PDict (map (\<lambda>(n, v). (name_key n, v)) at)"

fun key_name :: "('f, 'd) pyval \<Rightarrow> string" where
  "key_name (PBytes bs) = map char_of bs"
| "key_name v = []"

definition thrift_put :: "ars_type \<Rightarrow> ('f, 'd) attrs \<Rightarrow> ('f, 'd) event list outcome" where
  "thrift_put t at = send t (keyed at)"

definition thrift_get :: "ars_type \<Rightarrow> ('f, 'd) event list \<Rightarrow> ('f, 'd) attrs outcome" where
  "thrift_get t w = bind_ok (recv (\<lambda>w es. Raise ProtocolError) t w) (\<lambda>(v, rest). map_ok (map (\<lambda>(k, x). (key_name k, x))) (iteritems v))"

definition thrift_good :: "ars_type \<Rightarrow> ('f, 'd) attrs \<Rightarrow> bool" where
  "thrift_good t at \<longleftrightarrow> is_struct t \<and> wire_ok t (keyed (carried (struct_fields t) at))"

lemma key_name_name_key [simp]: "key_name (name_key n) = n"
  by (simp add: name_key_def codes_def comp_def)

lemma get_keyed: "get_field (keyed at) n = Ok (attr_of at n)"
  by (induction at) (auto simp: get_field_def keyed_def attr_of_def dget_def_val_def split: option.splits)

lemma send_fields_cong:
  "(\<And>f. f \<in> set fs \<Longrightarrow> get_field v (field_name f) = get_field u (field_name f)) \<Longrightarrow> send_fields fs i v = send_fields fs i u"
  by (induction fs arbitrary: i) (simp_all add: send.simps)

lemma send_carried: "is_struct t \<Longrightarrow> send t (keyed at) = send t (keyed (carried (struct_fields t) at))"
proof (erule is_structE)
  fix e i n b fs
  assume t: "t = Struct e i n b fs"
  have "send_fields fs b (keyed at) = send_fields fs b (keyed (carried fs at))"
    by (rule send_fields_cong) (simp add: get_keyed attr_of_carried)
  then show ?thesis by (simp add: t send.simps)
qed

lemma delivered_refl [simp]: "delivered e e"
  by (cases e) auto

lemma delivers_refl: "delivers es es"
  by (simp add: delivers_def list_all2_same)

interpretation thrift: struct_codec thrift_put thrift_get thrift_good
proof
  fix t and at :: "('f, 'd) attrs"
  assume "thrift_good t at"
  then have s: "is_struct t" and w: "wire_ok t (keyed (carried (struct_fields t) at))" by (auto simp: thrift_good_def)
  obtain es where es: "send t (keyed (carried (struct_fields t) at)) = Ok es"
    "\<And>es' rest S. delivers es es' \<Longrightarrow> recv S t (es' @ rest) = Ok (keyed (carried (struct_fields t) at), rest)"
    using wire_ok_transmits [OF w] by (auto simp: transmits_def)
  have "recv (\<lambda>w es. Raise ProtocolError) t es = Ok (keyed (carried (struct_fields t) at), [])"
    using es(2) [OF delivers_refl, of "\<lambda>w es. Raise ProtocolError" "[]"] by simp
  then have "thrift_get t es = Ok (carried (struct_fields t) at)"
    by (simp add: thrift_get_def keyed_def comp_def case_prod_beta)
  with es(1) send_carried [OF s, of at]
  show "\<exists>w. thrift_put t at = Ok w \<and> thrift_get t w = Ok (carried (struct_fields t) at)"
    by (simp add: thrift_put_def)
qed

subsection \<open>A call from end to end\<close>

lemma call_args_received:
  assumes "procedure_ok p"
  shows "call_args (pr_params p) (dmerge (blank (pr_params p)) (carried (pr_params p) args)) = call_args (pr_params p) args"
  by (rule call_args_cong) (use assms in \<open>simp add: received_attr procedure_ok_def\<close>)

lemma results_nt_ok: "procedure_ok p \<Longrightarrow> nt_ok field_name (struct_fields (pr_result_struct p))"
  using error_names_distinct by (simp add: procedure_ok_def nt_ok_def)

lemma result_field: "procedure_ok p \<Longrightarrow> ''result'' \<in> field_name ` set (struct_fields (pr_result_struct p))"
  by (simp add: procedure_ok_def flip: set_map)

lemma handler_field_split:
  "list_all is_struct (map field_type fs) \<Longrightarrow> ''result'' \<notin> field_name ` set fs
    \<Longrightarrow> \<exists>h. handler_field is ex fs = Ok h \<and> (h = None \<longleftrightarrow> (\<forall>x \<in> set (map field_type fs). \<not> is ex x))
      \<and> (\<forall>n. h = Some n \<longrightarrow> n \<in> field_name ` set fs)"
proof (induction fs)
  case (Cons f fs)
  then obtain e i n b gs where "field_type f = Struct e i n b gs" by (auto elim: is_structE)
  with Cons show ?case by (auto simp: image_iff)
qed simp

lemma handler_of:
  assumes "procedure_ok p" and "list_all is_struct (pr_exceptions p)"
  shows "\<exists>h. handler_field is ex (struct_fields (pr_result_struct p)) = Ok h
    \<and> (h = None \<longleftrightarrow> (\<forall>x \<in> set (pr_exceptions p). \<not> is ex x))
    \<and> (\<forall>n. h = Some n \<longrightarrow> n \<in> field_name ` set (struct_fields (pr_result_struct p)) \<and> n \<noteq> ''result'')"
proof -
  obtain f fs where fs: "struct_fields (pr_result_struct p) = f # fs" "field_name f = ''result''"
    "map field_name fs = error_names (length (pr_exceptions p))" "map field_type fs = pr_exceptions p"
    using assms(1) by (auto simp: procedure_ok_def map_eq_Cons_conv)
  have notin: "''result'' \<notin> field_name ` set fs"
    using error_names_distinct [of "length (pr_exceptions p)"] by (simp add: fs(3) flip: set_map)
  have "list_all is_struct (map field_type fs)" using assms(2) fs(4) by simp
  from handler_field_split [OF this notin, of "is" ex] fs notin show ?thesis by auto
qed

text \<open>The field of the result that a procedure's answer is sent in.\<close>

definition answer_field :: "('f, 'd, 'w, 'i, 's) rpc \<Rightarrow> 'i procedure \<Rightarrow> ('f, 'd) answer \<Rightarrow> (string \<times> ('f, 'd) pyval) option" where
  "answer_field C p ans =
     (case ans of
        Returned v \<Rightarrow> Some (''result'', v)
      | Threw ex \<Rightarrow> (case handler_field (rp_isinstance C) ex (struct_fields (pr_result_struct p)) of
            Ok (Some n) \<Rightarrow> Some (n, ex) | _ \<Rightarrow> None))"

lemma first_set_none: "(\<And>f. f \<in> set fs \<Longrightarrow> attr_of at (field_name f) = PNone) \<Longrightarrow> first_set at fs = Result PNone"
  by (induction fs) auto

text \<open>The client's view of a reply that carries one value.\<close>

lemma call_answer_reply:
  fixes C :: "('f, 'd, 'w, 'i, 's) rpc"
  assumes cod: "struct_codec (rp_put C) (rp_get C) good" and p: "procedure_ok p"
    and n: "n \<in> field_name ` set (struct_fields (pr_result_struct p))" and v: "n = ''result'' \<or> v \<noteq> PNone"
    and good: "good (pr_result_struct p) (dset n v (blank (struct_fields (pr_result_struct p))))"
  shows "\<exists>out. send_result C p m q (dset n v (blank (struct_fields (pr_result_struct p)))) = (Ok (), out)
    \<and> call_answer C p out = (if n = ''result'' then Result v else Remote_Exception v)"
proof -
  let ?fs = "struct_fields (pr_result_struct p)"
  let ?at = "dset n v (blank ?fs)"
  obtain w where w: "rp_put C (pr_result_struct p) ?at = Ok w" "rp_get C (pr_result_struct p) w = Ok (carried ?fs ?at)"
    using struct_codec.law [OF cod good] by blast
  define r where "r = dmerge (blank ?fs) (carried ?fs ?at)"
  have r: "attr_of r k = (if k = n then v else PNone)" if "k \<in> field_name ` set ?fs" for k
    using received_attr [OF results_nt_ok [OF p] that, of ?at] by (simp add: r_def)
  have recv: "recv_struct C (pr_result_struct p) w = Ok r" using w(2) by (simp add: recv_struct_def r_def)
  have res: "attr_of r ''result'' = (if n = ''result'' then v else PNone)"
    using r [OF result_field [OF p]] by auto
  have "first_set r ?fs = (if n = ''result'' then Result PNone else Remote_Exception v)" if "n = ''result'' \<longrightarrow> v = PNone"
  proof (cases "n = ''result''")
    case True
    then show ?thesis using r that by (simp add: first_set_none)
  next
    case False
    have "first_set r fs = Remote_Exception v" if "n \<in> field_name ` set fs" "set fs \<subseteq> set ?fs" for fs
      using that v False by (induction fs) (auto simp: r split: if_splits)
    with n False show ?thesis by simp
  qed
  then show ?thesis
    using w(1) recv res v by (cases "n = ''result'' \<and> v \<noteq> PNone") (auto simp: send_result_def)
qed

lemma rpc_call_ok:
  fixes C :: "('f, 'd, 'w, 'i, 's) rpc"
  assumes "struct_codec (rp_put C) (rp_get C) good" and "procedure_ok p" and "list_all is_struct (pr_exceptions p)"
    and "nt_get pr_name (pr_name p) ps = Some p" and "pr_impl p = Some i" and "good (pr_args_struct p) args"
    and "rp_run C i (map_option (\<lambda>(a, port). (client_ip a, port)) peer) (call_args (pr_params p) args) s = (ans, s')"
    and "ans \<noteq> Threw PNone"
    and "\<forall>n v. answer_field C p ans = Some (n, v) \<longrightarrow>
      good (pr_result_struct p) (dset n v (blank (struct_fields (pr_result_struct p))))"
  shows "remote_call C peer ps p args seqid s =
    ((case ans of
        Returned v \<Rightarrow> Result v
      | Threw ex \<Rightarrow> if \<exists>x \<in> set (pr_exceptions p). rp_isinstance C ex x then Remote_Exception ex
                    else Application_Error Unknown_Error ''Unknown exception in procedure''), s')"
proof -
  let ?fs = "struct_fields (pr_result_struct p)"
  have ps: "struct_fields (pr_args_struct p) = pr_params p" using assms(2) by (simp add: procedure_ok_def)
  obtain w where w: "rp_put C (pr_args_struct p) args = Ok w" "rp_get C (pr_args_struct p) w = Ok (carried (pr_params p) args)"
    using struct_codec.law [OF assms(1,6)] ps by auto
  let ?rq = "\<lparr>rq_name = pr_name p, rq_seqid = seqid, rq_body = w\<rparr>"
  have recv: "recv_struct C (pr_args_struct p) w = Ok (dmerge (blank (pr_params p)) (carried (pr_params p) args))"
    using w(2) ps by (simp add: recv_struct_def)
  note run = assms(7) [folded call_args_received [OF assms(2), of args]]
  have rc: "remote_call C peer ps p args seqid s = (case process C peer ps ?rq s of (r, out, s1) \<Rightarrow> (call_answer C p out, s1))"
    using w(1) by (simp add: remote_call_def call_request_def)
  have reply: ?thesis
    if "answer_field C p ans = Some (n, v)" "n \<in> field_name ` set ?fs" "n = ''result'' \<or> v \<noteq> PNone"
      and "process C peer ps ?rq s = (case send_result C p (pr_name p) seqid (dset n v (blank ?fs)) of (r, out) \<Rightarrow> (r, out, s'))"
      and "(case ans of Returned v \<Rightarrow> Result v
            | Threw ex \<Rightarrow> if \<exists>x \<in> set (pr_exceptions p). rp_isinstance C ex x then Remote_Exception ex
                else Application_Error Unknown_Error ''Unknown exception in procedure'')
          = (if n = ''result'' then Result v else Remote_Exception v)" for n v
    using call_answer_reply [OF assms(1,2) that(2,3), of "pr_name p" seqid] assms(9) that(1,4,5) rc by fastforce
  show ?thesis
  proof (cases ans)
    case (Returned v)
    then show ?thesis
      using assms(4,5) recv run result_field [OF assms(2)]
      by (intro reply [of "''result''" v]) (simp_all add: answer_field_def process_def Let_def)
  next
    case (Threw ex)
    obtain h where h: "handler_field (rp_isinstance C) ex ?fs = Ok h"
      "h = None \<longleftrightarrow> (\<forall>x \<in> set (pr_exceptions p). \<not> rp_isinstance C ex x)"
      "\<And>n. h = Some n \<Longrightarrow> n \<in> field_name ` set ?fs \<and> n \<noteq> ''result''"
      using handler_of [OF assms(2,3), of "rp_isinstance C" ex] by blast
    show ?thesis
    proof (cases h)
      case None
      then have "process C peer ps ?rq s = (Ok (), app_reply (pr_name p) seqid Unknown_Error ''Unknown exception in procedure'', s')"
        using assms(4,5) recv run Threw h(1) by (simp add: process_def Let_def)
      then show ?thesis using None h(2) Threw rc by (simp add: app_reply_def)
    next
      case (Some n)
      then show ?thesis
        using assms(4,5,8) recv run Threw h
        by (intro reply [of n ex]) (auto simp: answer_field_def process_def Let_def)
    qed
  qed
qed

text \<open>
  C10 (rpc_end_to_end): a client that calls a procedure over a connection gets what the
  implementation does with the arguments that are set: its value, an exception it declares,
  or the application error for one it does not; the server's state is the one it leaves.
\<close>

theorem rpc_end_to_end:
  fixes C :: "('f, 'd, 'w, 'i, 's) rpc"
  assumes "struct_codec (rp_put C) (rp_get C) good" and "procedure_ok p" and "list_all is_struct (pr_exceptions p)"
    and "nt_get pr_name (pr_name p) ps = Some p" and "pr_impl p = Some i" and "good (pr_args_struct p) args"
    and "rp_run C i (map_option (\<lambda>(a, port). (client_ip a, port)) peer) (call_args (pr_params p) args) s = (ans, s')"
    and "ans \<noteq> Threw PNone"
    and "\<forall>n v. answer_field C p ans = Some (n, v) \<longrightarrow>
      good (pr_result_struct p) (dset n v (blank (struct_fields (pr_result_struct p))))"
  shows "remote_call C peer ps p args seqid s =
    ((case ans of
        Returned v \<Rightarrow> Result v
      | Threw ex \<Rightarrow> if \<exists>x \<in> set (pr_exceptions p). rp_isinstance C ex x then Remote_Exception ex
                    else Application_Error Unknown_Error ''Unknown exception in procedure''), s')"
  using assms by (rule rpc_call_ok)

definition sample_error_type :: ars_type where
  "sample_error_type = Struct True 9 ''E'' 1 [Field 10 ''why'' (Atomic ArsString) False]"

definition sample_procedure :: "unit procedure" where
  "sample_procedure = snd (add_exception 7 sample_error_type
     (snd (add_parameter (Field 5 ''x'' (Atomic ArsInt32) False) (new_procedure 1 ''half'' (Atomic ArsInt32) (Some ())))))"

definition sample_error :: "(unit, unit) pyval" where
  "sample_error = PDict [(name_key ''why'', PBytes [111, 100, 100])]"

text \<open>Halves an even argument, raises for an odd one and counts its calls.\<close>

definition sample_rpc :: "(unit, unit, (unit, unit) event list, unit, nat) rpc" where
  "sample_rpc = \<lparr>rp_put = thrift_put, rp_get = thrift_get,
     rp_run = (\<lambda>i peer args s. (case attr_of args ''x'' of
        PInt k \<Rightarrow> if k mod 2 = 0 then Returned (PInt (k div 2)) else Threw sample_error
      | _ \<Rightarrow> Threw sample_error, Suc s)),
     rp_isinstance = (\<lambda>v t. v = sample_error \<and> t = sample_error_type)\<rparr>"

lemmas sample_rpc_defs = sample_rpc_def sample_procedure_def sample_error_def sample_error_type_def add_exception_def
  add_parameter_def new_procedure_def add_field_def nt_append_def nt_get_def

theorem rpc_end_to_end_witness:
  "remote_call sample_rpc (Some (''::ffff:10.0.0.1'', 80)) [sample_procedure] sample_procedure [(''x'', PInt 14)] 0 0 = (Result (PInt 7), 1)"
proof -
  have "remote_call sample_rpc (Some (''::ffff:10.0.0.1'', 80)) [sample_procedure] sample_procedure [(''x'', PInt 14)] 0 0 =
    (case Returned (PInt 7) of Returned v \<Rightarrow> Result v
      | Threw ex \<Rightarrow> if \<exists>x \<in> set (pr_exceptions sample_procedure). rp_isinstance sample_rpc ex x then Remote_Exception ex
                    else Application_Error Unknown_Error ''Unknown exception in procedure'', 1)"
  proof (rule rpc_end_to_end [where good = thrift_good and i = "()"])
    show "struct_codec (rp_put sample_rpc) (rp_get sample_rpc) thrift_good"
      using thrift.struct_codec_axioms by (simp add: sample_rpc_def)
    show "procedure_ok sample_procedure"
      by (simp add: sample_rpc_defs procedure_ok_def is_struct_def nt_ok_def error_names_def)
    show "\<forall>n v. answer_field sample_rpc sample_procedure (Returned (PInt 7)) = Some (n, v) \<longrightarrow>
      thrift_good (pr_result_struct sample_procedure) (dset n v (blank (struct_fields (pr_result_struct sample_procedure))))"
      by (auto simp: answer_field_def sample_rpc_defs thrift_good_def is_struct_def blank_def carried_def attr_of_def
          dget_def_val_def keyed_def nt_ok_def in_width_def)
  qed (simp_all add: sample_rpc_defs is_struct_def thrift_good_def carried_def attr_of_def dget_def_val_def keyed_def
      nt_ok_def in_width_def call_args_def)
  then show ?thesis by simp
qed

text \<open>A request for a procedure that no service has runs no implementation.\<close>

lemma rpc_unknown_method:
  assumes "nt_get pr_name (rq_name rq) ps = None"
  shows "process C peer ps rq s = (Ok (), app_reply (rq_name rq) (rq_seqid rq) Unknown_Method (''Unknown method '' @ rq_name rq), s)
    \<and> call_answer C p (fst (snd (process C peer ps rq s))) = Application_Error Unknown_Method (''Unknown method '' @ rq_name rq)"
  using assms by (simp add: process_def app_reply_def Let_def)

end
