(* ===== verification/Objects_Constraints.thy ===== *)
theory Objects_Constraints
  imports Py_Strings
begin

section \<open>satori.objects: constraints of arguments\<close>

text \<open>
  \<^item> \<open>classes\<close>: what the source uses of Python's classes: the method resolution order, the class
    of a value, the text of a message, \<open>None\<close> and its class.
  \<^item> \<open>constr\<close>: \<open>ArgumentConstraint\<close> and its subclasses. An operation that forgets to return its
    result returns \<open>None\<close>, so constraints are optional where that can happen.
  \<^item> \<open>le\<close>, \<open>invalid\<close>, \<open>conj_of\<close>, \<open>disj_of\<close>, \<open>constr_and\<close>, \<open>constr_or\<close>, \<open>parse\<close>: the methods; a
    method is chosen by the class of its left operand.
\<close>

record ('c, 'v) classes =
  cl_mro :: "'c \<Rightarrow> 'c list"
  cl_of :: "'v \<Rightarrow> 'c"
  cl_msg :: "'v \<Rightarrow> 'c \<Rightarrow> string"
  cl_none_type :: 'c
  cl_none :: 'v

definition issubclass :: "('c, 'v) classes \<Rightarrow> 'c \<Rightarrow> 'c \<Rightarrow> bool" where
  "issubclass K t u \<longleftrightarrow> u \<in> set (cl_mro K t)"

definition isinstance :: "('c, 'v) classes \<Rightarrow> 'v \<Rightarrow> 'c \<Rightarrow> bool" where
  "isinstance K v t \<longleftrightarrow> issubclass K (cl_of K v) t"

text \<open>Python's classes: subclassing is reflexive and transitive.\<close>

definition classes_ok :: "('c, 'v) classes \<Rightarrow> bool" where
  "classes_ok K \<longleftrightarrow> (\<forall>t. issubclass K t t) \<and> (\<forall>t u w. issubclass K t u \<longrightarrow> issubclass K u w \<longrightarrow> issubclass K t w)"

datatype 'c constr =
    No_Constraint
  | Type_Constraint 'c
  | Conjunction "'c constr list"
  | Disjunction "'c constr list"

text \<open>The message of a value that does not satisfy a constraint.\<close>

fun invalid :: "('c, 'v) classes \<Rightarrow> 'c constr \<Rightarrow> 'v \<Rightarrow> string option"
  and first_invalid :: "('c, 'v) classes \<Rightarrow> 'c constr list \<Rightarrow> 'v \<Rightarrow> string option"
  and all_invalid :: "('c, 'v) classes \<Rightarrow> 'c constr list \<Rightarrow> 'v \<Rightarrow> string list option" where
  "invalid K No_Constraint v = None"
| "invalid K (Type_Constraint t) v = (if isinstance K v t then None else Some (cl_msg K v t))"
| "invalid K (Conjunction ms) v = first_invalid K ms v"
| "invalid K (Disjunction ms) v = map_option (join ''; '') (all_invalid K ms v)"
| "first_invalid K [] v = None"
| "first_invalid K (m # ms) v = (case invalid K m v of Some e \<Rightarrow> Some e | None \<Rightarrow> first_invalid K ms v)"
| "all_invalid K [] v = Some []"
| "all_invalid K (m # ms) v = (case invalid K m v of None \<Rightarrow> None | Some e \<Rightarrow> map_option (Cons e) (all_invalid K ms v))"

text \<open>The order of constraints: a stronger one is below.\<close>

function (sequential) le :: "('c, 'v) classes \<Rightarrow> 'c constr \<Rightarrow> 'c constr \<Rightarrow> bool" where
  "le K (Conjunction ms) d = list_ex (\<lambda>m. le K m d) ms"
| "le K (Disjunction ms) d = list_all (\<lambda>m. le K m d) ms"
| "le K c No_Constraint = True"
| "le K c (Conjunction ms) = list_all (\<lambda>m. le K c m) ms"
| "le K c (Disjunction ms) = list_ex (\<lambda>m. le K c m) ms"
| "le K (Type_Constraint t) (Type_Constraint u) = issubclass K t u"
| "le K No_Constraint (Type_Constraint u) = False"
  by pat_completeness auto

lemma member_smaller: "m \<in> set ms \<Longrightarrow> size (m :: 'c constr) < Suc (size_list size ms)"
  by (simp add: less_Suc_eq_le size_list_estimation')

termination le
  by (relation "measure (\<lambda>(K, c, d). size c + size d)") (auto dest: member_smaller)

text \<open>
  The comparison with a \<open>None\<close> in a list: no constraint is below it, and in Python 2 it is
  below everything.
\<close>

fun le_none :: "'c constr \<Rightarrow> bool" where
  "le_none (Conjunction ms) = list_ex le_none ms"
| "le_none (Disjunction ms) = list_all le_none ms"
| "le_none c = False"

fun le_opt :: "('c, 'v) classes \<Rightarrow> 'c constr option \<Rightarrow> 'c constr option \<Rightarrow> bool" where
  "le_opt K (Some c) (Some d) = le K c d"
| "le_opt K (Some c) None = le_none c"
| "le_opt K None d = True"

definition constr_eq :: "('c, 'v) classes \<Rightarrow> 'c constr \<Rightarrow> 'c constr \<Rightarrow> bool" where
  "constr_eq K c d \<longleftrightarrow> le K c d \<and> le K d c"

subsection \<open>Combining constraints\<close>

fun conj_members :: "('c, 'v) classes \<Rightarrow> 'c constr list \<Rightarrow> 'c constr option list \<Rightarrow> 'c constr list" where
  "conj_members K ms [] = ms"
| "conj_members K ms (None # r) = conj_members K ms r"
| "conj_members K ms (Some c # r) =
     (if list_ex (\<lambda>d. le_opt K d (Some c)) r then conj_members K ms r
      else if list_ex (\<lambda>m. le K m c) ms then conj_members K ms r
      else conj_members K (ms @ [c]) r)"

text \<open>The last branch lacks its \<open>return\<close>.\<close>

definition conj_of :: "('c, 'v) classes \<Rightarrow> 'c constr option list \<Rightarrow> 'c constr option" where
  "conj_of K cs = (case conj_members K [] cs of [] \<Rightarrow> Some No_Constraint | [m] \<Rightarrow> Some m | ms \<Rightarrow> None)"

fun disj_members :: "('c, 'v) classes \<Rightarrow> 'c constr list \<Rightarrow> 'c constr option list \<Rightarrow> 'c constr list" where
  "disj_members K ms [] = ms"
| "disj_members K ms (None # r) = disj_members K ms r"
| "disj_members K ms (Some c # r) =
     (if list_ex (\<lambda>d. le_opt K (Some c) d) r then disj_members K ms r
      else if list_ex (\<lambda>m. le K c m) ms then disj_members K ms r
      else disj_members K (ms @ [c]) r)"

definition disj_of :: "('c, 'v) classes \<Rightarrow> 'c constr option list \<Rightarrow> 'c constr option outcome" where
  "disj_of K cs =
     (case disj_members K [] cs of
        [] \<Rightarrow> Raise (ArgumentError ''ConstraintDisjunction must have at least one member!'')
      | [m] \<Rightarrow> Ok (Some m)
      | ms \<Rightarrow> Ok (Some (Disjunction ms)))"

fun compound :: "'c constr \<Rightarrow> bool" where
  "compound (Conjunction ms) = True"
| "compound (Disjunction ms) = True"
| "compound c = False"

text \<open>
  \<open>c & d\<close>. The members of a conjunction are a tuple, to which the list \<open>[other]\<close> cannot be
  added.
\<close>

function (sequential) constr_and :: "('c, 'v) classes \<Rightarrow> 'c constr \<Rightarrow> 'c constr \<Rightarrow> 'c constr option outcome" where
  "constr_and K No_Constraint d = Ok (Some d)"
| "constr_and K (Type_Constraint t) d =
     (if compound d then constr_and K d (Type_Constraint t) else Ok (conj_of K [Some (Type_Constraint t), Some d]))"
| "constr_and K (Conjunction ms) d =
     (case d of
        Conjunction ns \<Rightarrow> (if ns \<noteq> [] then Ok (conj_of K (map Some (ms @ ns))) else Raise TypeError)
      | _ \<Rightarrow> Raise TypeError)"
| "constr_and K (Disjunction ms) d = bind_ok (map_outcome (\<lambda>m. constr_and K m d) ms) (disj_of K)"
  by pat_completeness auto

termination
  by (relation "measures [\<lambda>(K, c, d). size c + size d, \<lambda>(K, c, d). if compound d then 1 else 0]") (auto dest: member_smaller)

function (sequential) constr_or :: "('c, 'v) classes \<Rightarrow> 'c constr \<Rightarrow> 'c constr \<Rightarrow> 'c constr option outcome" where
  "constr_or K No_Constraint d = Ok (Some No_Constraint)"
| "constr_or K (Type_Constraint t) d =
     (if compound d then constr_or K d (Type_Constraint t) else disj_of K [Some (Type_Constraint t), Some d])"
| "constr_or K (Conjunction ms) d = map_ok (conj_of K) (map_outcome (\<lambda>m. constr_or K m d) ms)"
| "constr_or K (Disjunction ms) d =
     (case d of
        Disjunction ns \<Rightarrow> (if ns \<noteq> [] then disj_of K (map Some (ms @ ns)) else Raise TypeError)
      | _ \<Rightarrow> Raise TypeError)"
  by pat_completeness auto

termination
  by (relation "measures [\<lambda>(K, c, d). size c + size d, \<lambda>(K, c, d). if compound d then 1 else 0]") (auto dest: member_smaller)

text \<open>What a constraint may be given as; the keys of a dict other than \<open>type\<close> give \<open>None\<close>.\<close>

datatype 'c spec =
    Sp_None
  | Sp_Class 'c
  | Sp_Tuple "'c spec list"
  | Sp_Dict "(string \<times> 'c spec) list"
  | Sp_Other

fun parse :: "('c, 'v) classes \<Rightarrow> 'c spec \<Rightarrow> 'c constr option outcome" where
  "parse K Sp_None = Ok (Some (Type_Constraint (cl_none_type K)))"
| "parse K (Sp_Class t) = Ok (Some (Type_Constraint t))"
| "parse K (Sp_Tuple ss) = bind_ok (map_outcome (\<lambda>s. parse K s) ss) (disj_of K)"
| "parse K (Sp_Dict kvs) =
     map_ok (conj_of K) (map_outcome (\<lambda>(k, s). if k = ''type'' then parse K s else Ok None) kvs)"
| "parse K Sp_Other = Raise (ArgumentError ''Unrecognized argument constraint specification'')"

subsection \<open>What a constraint accepts\<close>

abbreviation accepts :: "('c, 'v) classes \<Rightarrow> 'c constr \<Rightarrow> 'v \<Rightarrow> bool" where
  "accepts K c v \<equiv> invalid K c v = None"

lemma first_invalid_None [simp]: "first_invalid K ms v = None \<longleftrightarrow> (\<forall>m \<in> set ms. accepts K m v)"
  by (induction ms) (auto split: option.split)

lemma all_invalid_None [simp]: "all_invalid K ms v = None \<longleftrightarrow> (\<exists>m \<in> set ms. accepts K m v)"
  by (induction ms) (auto split: option.split)

declare first_invalid.simps(2) [simp del] all_invalid.simps(2) [simp del]

lemma classes_refl: "classes_ok K \<Longrightarrow> issubclass K t t"
  by (simp add: classes_ok_def)

lemma classes_trans: "classes_ok K \<Longrightarrow> issubclass K t u \<Longrightarrow> issubclass K u w \<Longrightarrow> issubclass K t w"
  unfolding classes_ok_def by blast

lemma le_sound: "classes_ok K \<Longrightarrow> le K c d \<Longrightarrow> accepts K c v \<Longrightarrow> accepts K d v"
proof (induction K c d rule: le.induct)
  case (6 K t u)
  then have "issubclass K (cl_of K v) t" by (simp add: isinstance_def split: if_splits)
  with 6 have "issubclass K (cl_of K v) u" by (auto intro: classes_trans)
  then show ?case by (simp add: isinstance_def)
qed (auto simp: list_ex_iff list_all_iff)

lemma le_none_sound: "le_none c \<Longrightarrow> \<not> accepts K c v"
proof (induction c)
  case (Conjunction ms)
  then obtain m where "m \<in> set ms" "le_none m" by (auto simp: list_ex_iff)
  with Conjunction.IH show ?case by (simp only: invalid.simps first_invalid_None) blast
qed (auto simp: list_all_iff)

text \<open>Dropping the weaker members of a conjunction and the stronger ones of a disjunction changes nothing.\<close>

lemma conj_members_accept:
  assumes "classes_ok K"
  shows "None \<notin> set cs \<Longrightarrow> (\<forall>m \<in> set (conj_members K ms cs). accepts K m v)
    \<longleftrightarrow> (\<forall>m \<in> set ms. accepts K m v) \<and> (\<forall>c. Some c \<in> set cs \<longrightarrow> accepts K c v)"
proof (induction cs arbitrary: ms)
  case (Cons c cs)
  then obtain c1 where c: "c = Some c1" by (cases c) auto
  have later: "accepts K c1 v" if l: "list_ex (\<lambda>d. le_opt K d (Some c1)) cs" and a: "\<forall>c. Some c \<in> set cs \<longrightarrow> accepts K c v"
  proof -
    obtain d where d: "d \<in> set cs" "le_opt K d (Some c1)" using l by (auto simp: list_ex_iff)
    have "d \<noteq> None" using d(1) Cons.prems by (metis list.set_intros(2))
    then obtain d1 where d1: "d = Some d1" by blast
    with d(2) have "le K d1 c1" by simp
    with d(1) d1 a show ?thesis using le_sound [OF assms] by blast
  qed
  have before: "accepts K c1 v" if "list_ex (\<lambda>m. le K m c1) ms" "\<forall>m \<in> set ms. accepts K m v"
    using that le_sound [OF assms] by (auto simp: list_ex_iff)
  show ?case using Cons c later before by auto
qed simp

lemma disj_members_accept:
  assumes "classes_ok K"
  shows "(\<exists>m \<in> set (disj_members K ms cs). accepts K m v)
    \<longleftrightarrow> (\<exists>m \<in> set ms. accepts K m v) \<or> (\<exists>c. Some c \<in> set cs \<and> accepts K c v)"
proof (induction cs arbitrary: ms)
  case (Cons c cs)
  show ?case
  proof (cases c)
    case (Some c1)
    have later: "\<exists>d. Some d \<in> set cs \<and> accepts K d v" if l: "list_ex (\<lambda>d. le_opt K (Some c1) d) cs" and a: "accepts K c1 v"
    proof -
      obtain d where d: "d \<in> set cs" "le_opt K (Some c1) d" using l by (auto simp: list_ex_iff)
      with a le_none_sound [of c1 K v] obtain d1 where "d = Some d1" "le K c1 d1" by (cases d) auto
      with d a show ?thesis using le_sound [OF assms] by blast
    qed
    have before: "\<exists>m \<in> set ms. accepts K m v" if "list_ex (\<lambda>m. le K c1 m) ms" "accepts K c1 v"
      using that le_sound [OF assms] by (auto simp: list_ex_iff)
    show ?thesis
    proof (cases "list_ex (\<lambda>d. le_opt K (Some c1) d) cs \<or> list_ex (\<lambda>m. le K c1 m) ms")
      case True
      then have "disj_members K ms (c # cs) = disj_members K ms cs" using Some by auto
      with True Cons.IH [of ms] later before Some show ?thesis by auto
    qed (use Cons.IH [of "ms @ [c1]"] Some in auto)
  qed (use Cons.IH [of ms] in simp)
qed simp

lemma conj_of_accepts:
  assumes "classes_ok K" and "None \<notin> set cs" and "conj_of K cs = Some e"
  shows "accepts K e v \<longleftrightarrow> (\<forall>c. Some c \<in> set cs \<longrightarrow> accepts K c v)"
proof -
  have "accepts K e v \<longleftrightarrow> (\<forall>m \<in> set (conj_members K [] cs). accepts K m v)"
    using assms(3) by (auto simp: conj_of_def split: list.splits)
  with conj_members_accept [OF assms(1,2), of "[]" v] show ?thesis by simp
qed

lemma disj_of_accepts:
  assumes "classes_ok K" and "disj_of K cs = Ok (Some e)"
  shows "accepts K e v \<longleftrightarrow> (\<exists>c. Some c \<in> set cs \<and> accepts K c v)"
proof -
  have "accepts K e v \<longleftrightarrow> (\<exists>m \<in> set (disj_members K [] cs). accepts K m v)"
    using assms(2) by (auto simp: disj_of_def simp del: not_None_eq split: list.splits)
  with disj_members_accept [OF assms(1), of "[]" cs v] show ?thesis by simp
qed

lemma disj_of_Some: "disj_of K cs = Ok r \<Longrightarrow> r \<noteq> None"
  by (auto simp: disj_of_def split: list.splits)

lemma map_outcome_mem: "map_outcome f xs = Ok ys \<Longrightarrow> y \<in> set ys \<Longrightarrow> \<exists>x \<in> set xs. f x = Ok y"
  by (induction xs arbitrary: ys) (auto simp: outcome_simps)

lemma constr_and_sound:
  "classes_ok K \<Longrightarrow> constr_and K c d = Ok (Some e) \<Longrightarrow> accepts K e v \<Longrightarrow> accepts K c v \<and> accepts K d v"
proof (induction K c d arbitrary: e rule: constr_and.induct)
  case (2 K t d)
  show ?case
  proof (cases "compound d")
    case False
    then have "conj_of K [Some (Type_Constraint t), Some d] = Some e" using 2(3) by simp
    then have "accepts K e v \<longleftrightarrow> (\<forall>c. Some c \<in> set [Some (Type_Constraint t), Some d] \<longrightarrow> accepts K c v)"
      using 2 by (intro conj_of_accepts) simp_all
    with 2(4) show ?thesis by auto
  qed (use 2 in auto)
next
  case (3 K ms d)
  then obtain ns where d: "d = Conjunction ns" "conj_of K (map Some (ms @ ns)) = Some e" by (auto split: constr.splits if_splits)
  then have "accepts K e v \<longleftrightarrow> (\<forall>c. Some c \<in> set (map Some (ms @ ns)) \<longrightarrow> accepts K c v)"
    using 3(1) by (intro conj_of_accepts) auto
  with 3 d show ?case by auto
next
  case (4 K ms d)
  then obtain rs where rs: "map_outcome (\<lambda>m. constr_and K m d) ms = Ok rs" "disj_of K rs = Ok (Some e)"
    by (auto simp: outcome_simps)
  then obtain c where c: "Some c \<in> set rs" "accepts K c v" using 4(4) disj_of_accepts [OF 4(2) rs(2)] by auto
  then obtain m where m: "m \<in> set ms" "constr_and K m d = Ok (Some c)"
    using map_outcome_mem [OF rs(1) c(1)] by blast
  from 4(1) [OF m(1) 4(2) m(2) c(2)] m(1) show ?case by auto
qed simp

lemma constr_or_accepts:
  assumes K: "classes_ok K" and "case c of Conjunction ms \<Rightarrow> False | _ \<Rightarrow> True" and "case d of Conjunction ms \<Rightarrow> False | _ \<Rightarrow> True"
    and "constr_or K c d = Ok (Some e)"
  shows "accepts K e v \<longleftrightarrow> accepts K c v \<or> accepts K d v"
proof -
  have disj: "accepts K e v \<longleftrightarrow> accepts K (Disjunction ms) v \<or> accepts K d v"
    if o: "constr_or K (Disjunction ms) d = Ok (Some e)" for ms d
  proof -
    obtain ns where d: "d = Disjunction ns" "disj_of K (map Some (ms @ ns)) = Ok (Some e)"
      using o by (auto split: constr.splits if_splits)
    from disj_of_accepts [OF K d(2), of v] d(1) show ?thesis by auto
  qed
  show ?thesis
  proof (cases c)
    case (Type_Constraint t)
    show ?thesis
    proof (cases "compound d")
      case True
      then show ?thesis using assms Type_Constraint by (cases d) (auto split: constr.splits)
    next
      case False
      with assms(4) Type_Constraint have "disj_of K [Some (Type_Constraint t), Some d] = Ok (Some e)" by simp
      from disj_of_accepts [OF K this, of v] Type_Constraint show ?thesis by auto
    qed
  qed (use assms disj in auto)
qed

text \<open>Two incomparable classes: the conjunction is lost.\<close>

lemma conj_of_incomparable:
  "\<not> issubclass K t u \<Longrightarrow> \<not> issubclass K u t \<Longrightarrow> constr_and K (Type_Constraint t) (Type_Constraint u) = Ok None"
  by (simp add: conj_of_def)

lemma accepts_type: "accepts K (Type_Constraint t) v \<longleftrightarrow> isinstance K v t"
  by simp

lemma parse_classes:
  assumes "classes_ok K" and "parse K (Sp_Tuple (map Sp_Class ts)) = Ok (Some e)"
  shows "accepts K e v \<longleftrightarrow> (\<exists>t \<in> set ts. isinstance K v t)"
proof -
  have "map_outcome (\<lambda>s. parse K s) (map Sp_Class ts) = Ok (map (\<lambda>t. Some (Type_Constraint t)) ts)"
    by (induction ts) simp_all
  with assms(2) have "disj_of K (map (\<lambda>t. Some (Type_Constraint t)) ts) = Ok (Some e)" by simp
  from disj_of_accepts [OF assms(1) this, of v] show ?thesis by (auto simp: accepts_type simp del: invalid.simps)
qed

end
