(* ===== verification/Objects_Signature.thy ===== *)
theory Objects_Signature
  imports Objects_Constraints
begin

section \<open>satori.objects: arguments, signatures and dispatch\<close>

text \<open>
  \<^item> \<open>argument\<close>, \<open>argument_init\<close>, \<open>argument_add\<close>, \<open>argument_apply\<close>: \<open>Argument\<close>. Values are compared
    by the equality of the model.
  \<^item> \<open>signature\<close>, \<open>new_signature\<close>, \<open>signature_merge\<close>: \<open>Signature\<close>. \<open>inspect.getargspec\<close>, which gives
    the names and defaults of a function, is not modelled: its result is the input here, with no
    more defaults than names.
  \<^item> \<open>values_of\<close>, \<open>values_call\<close>: the class \<open>ArgumentValues\<close> of a signature.
  \<^item> \<open>register\<close>, \<open>dispatch\<close>: \<open>DispatchOn\<close>.
\<close>

subsection \<open>Arguments\<close>

datatype arg_mode = Required | Optional | Provided

record ('c, 'v) argument =
  ag_name :: string
  ag_doc :: "string option"
  ag_constraint :: "'c constr"
  ag_mode :: arg_mode
  ag_value :: 'v

text \<open>\<open>_enforce\<close>: a default that does not satisfy the constraint is given up, a fixed value is an error.\<close>

definition enforce :: "('c, 'v) classes \<Rightarrow> 'c constr \<Rightarrow> ('c, 'v) argument \<Rightarrow> ('c, 'v) argument outcome" where
  "enforce K c a =
     bind_ok (if ag_mode a \<noteq> Required
              then (case invalid K c (ag_value a) of
                      None \<Rightarrow> Ok a
                    | Some e \<Rightarrow> if ag_mode a = Provided then Raise (ArgumentError (''Invalid provided value: '' @ e))
                               else Ok (a\<lparr>ag_mode := Required\<rparr>))
              else Ok a) (\<lambda>a1.
     bind_ok (constr_and K (ag_constraint a1) c) (\<lambda>r.
     case r of Some d \<Rightarrow> Ok (a1\<lparr>ag_constraint := d\<rparr>) | None \<Rightarrow> Raise (AttributeError ''constraint'')))"

text \<open>
  The keywords \<open>default\<close> and \<open>fixed\<close> override mode and value; without a constraint the other
  keywords are parsed. A missing constraint is what a lost conjunction leaves.
\<close>

definition argument_init :: "('c, 'v) classes \<Rightarrow> string \<Rightarrow> string option \<Rightarrow> arg_mode \<Rightarrow> 'v \<Rightarrow> 'v option \<Rightarrow> 'v option
    \<Rightarrow> 'c constr option \<Rightarrow> (string \<times> 'c spec) list \<Rightarrow> ('c, 'v) argument outcome" where
  "argument_init K n doc mode v dflt fixed copt kvs =
     (let (mode1, v1) = (case dflt of Some w \<Rightarrow> (Optional, w) | None \<Rightarrow> (mode, v));
          (mode2, v2) = (case fixed of Some w \<Rightarrow> (Provided, w) | None \<Rightarrow> (mode1, v1)) in
      bind_ok (case copt of Some c \<Rightarrow> Ok (Some c) | None \<Rightarrow> parse K (Sp_Dict kvs)) (\<lambda>r.
      case r of
        None \<Rightarrow> Raise (AttributeError ''invalid'')
      | Some c \<Rightarrow> enforce K c \<lparr>ag_name = n, ag_doc = doc, ag_constraint = No_Constraint, ag_mode = mode2, ag_value = v2\<rparr>))"

definition plain_argument :: "('c, 'v) classes \<Rightarrow> string \<Rightarrow> ('c, 'v) argument outcome" where
  "plain_argument K n = argument_init K n None Required (cl_none K) None None None []"

definition default_argument :: "('c, 'v) classes \<Rightarrow> string \<Rightarrow> 'v \<Rightarrow> ('c, 'v) argument outcome" where
  "default_argument K n v = argument_init K n None Required (cl_none K) (Some v) None None []"

definition fixed_argument :: "('c, 'v) classes \<Rightarrow> string \<Rightarrow> 'v \<Rightarrow> ('c, 'v) argument outcome" where
  "fixed_argument K n v = argument_init K n None Required (cl_none K) None (Some v) None []"

definition or_doc :: "string option \<Rightarrow> string option \<Rightarrow> string option" where
  "or_doc d e = (case d of Some (c # cs) \<Rightarrow> d | _ \<Rightarrow> e)"

definition argument_add :: "('c, 'v) classes \<Rightarrow> ('c, 'v) argument \<Rightarrow> ('c, 'v) argument \<Rightarrow> ('c, 'v) argument outcome" where
  "argument_add K a b =
     (if ag_name a \<noteq> ag_name b then Raise (ArgumentError ''Argument names do not match.'')
      else let doc = or_doc (ag_doc a) (ag_doc b) in
        bind_ok (constr_and K (ag_constraint a) (ag_constraint b)) (\<lambda>cons.
        bind_ok (argument_init K (ag_name a) doc (ag_mode a) (ag_value a) None None cons []) (\<lambda>left.
        bind_ok (argument_init K (ag_name a) doc (ag_mode b) (ag_value b) None None cons []) (\<lambda>right.
        if ag_mode left = Required then Ok right
        else if ag_mode right = Required then Ok left
        else if ag_mode left = Provided \<and> ag_mode right = Provided \<and> ag_value left \<noteq> ag_value right
             then Raise (ArgumentError ''Conflicting provided values'')
        else if ag_mode right = Provided then Ok right else Ok left))))"

text \<open>\<open>apply\<close> changes the dict of arguments only when it does not raise.\<close>

definition argument_apply :: "('c, 'v) classes \<Rightarrow> ('c, 'v) argument \<Rightarrow> string \<Rightarrow> (string, 'v) dict \<Rightarrow> (string, 'v) dict outcome" where
  "argument_apply K spec n args =
     bind_ok (case dget args n of Some v \<Rightarrow> fixed_argument K n v | None \<Rightarrow> plain_argument K n) (\<lambda>p.
     bind_ok (argument_add K p spec) (\<lambda>q.
     if ag_mode q = Required then Raise (ArgumentError (''Required argument '' @ n @ '' not provided.''))
     else Ok (dset n (ag_value q) args)))"

subsection \<open>Signatures\<close>

record ('c, 'v) signature =
  sg_positional :: "string list"
  sg_arguments :: "(string, ('c, 'v) argument) dict"
  sg_extra_positional :: bool
  sg_extra_keyword :: bool
  sg_return :: "'c constr"
  sg_exceptions :: "'c list"

fun plain_arguments :: "('c, 'v) classes \<Rightarrow> string list \<Rightarrow> (string, ('c, 'v) argument) dict \<Rightarrow> (string, ('c, 'v) argument) dict outcome" where
  "plain_arguments K [] d = Ok d"
| "plain_arguments K (n # ns) d = bind_ok (plain_argument K n) (\<lambda>a. plain_arguments K ns (dset n a d))"

fun default_arguments :: "('c, 'v) classes \<Rightarrow> (string \<times> 'v) list \<Rightarrow> (string, ('c, 'v) argument) dict \<Rightarrow> (string, ('c, 'v) argument) dict outcome" where
  "default_arguments K [] d = Ok d"
| "default_arguments K ((n, v) # r) d = bind_ok (default_argument K n v) (\<lambda>a. default_arguments K r (dset n a d))"

definition new_signature :: "('c, 'v) classes \<Rightarrow> string list \<Rightarrow> bool \<Rightarrow> bool \<Rightarrow> 'v list \<Rightarrow> ('c, 'v) signature outcome" where
  "new_signature K names pos kw dflts =
     (let required = length names - length dflts in
      bind_ok (plain_arguments K (take required names) []) (\<lambda>d.
      bind_ok (default_arguments K (zip (drop required names) dflts) d) (\<lambda>d1.
      Ok \<lparr>sg_positional = names, sg_arguments = d1, sg_extra_positional = pos, sg_extra_keyword = kw,
         sg_return = No_Constraint, sg_exceptions = []\<rparr>)))"

text \<open>\<open>__iadd__\<close>: the arguments of both, merged where both have one.\<close>

fun merge_arguments :: "('c, 'v) classes \<Rightarrow> (string, ('c, 'v) argument) dict \<Rightarrow> (string \<times> ('c, 'v) argument) list
    \<Rightarrow> (string, ('c, 'v) argument) dict outcome" where
  "merge_arguments K other [] = Ok []"
| "merge_arguments K other ((n, a) # r) =
     bind_ok (case dget other n of None \<Rightarrow> Ok a | Some b \<Rightarrow> argument_add K a b) (\<lambda>c.
     map_ok (Cons (n, c)) (merge_arguments K other r))"

definition signature_merge :: "('c, 'v) classes \<Rightarrow> ('c, 'v) signature \<Rightarrow> ('c, 'v) signature \<Rightarrow> ('c, 'v) signature outcome" where
  "signature_merge K s t =
     map_ok (\<lambda>d. s\<lparr>sg_arguments := d @ filter (\<lambda>e. fst e \<notin> set (dkeys (sg_arguments s))) (sg_arguments t)\<rparr>)
       (merge_arguments K (sg_arguments t) (sg_arguments s))"

text \<open>The decorators \<open>Argument\<close> and \<open>Throws\<close> on a function with a signature.\<close>

definition decorate :: "('c, 'v) classes \<Rightarrow> ('c, 'v) argument \<Rightarrow> ('c, 'v) signature \<Rightarrow> ('c, 'v) signature outcome" where
  "decorate K a s =
     map_ok (\<lambda>c. s\<lparr>sg_arguments := dset (ag_name a) c (sg_arguments s)\<rparr>)
       (case dget (sg_arguments s) (ag_name a) of None \<Rightarrow> Ok a | Some b \<Rightarrow> argument_add K a b)"

definition throws :: "'c \<Rightarrow> ('c, 'v) signature \<Rightarrow> ('c, 'v) signature" where
  "throws x s = s\<lparr>sg_exceptions := sg_exceptions s @ [x]\<rparr>"

text \<open>\<open>ReturnValue\<close>: merging and checking; a lost conjunction leaves no constraint.\<close>

definition return_add :: "('c, 'v) classes \<Rightarrow> 'c constr \<Rightarrow> 'c constr \<Rightarrow> 'c constr outcome" where
  "return_add K c d = map_ok (\<lambda>r. case r of Some e \<Rightarrow> e | None \<Rightarrow> No_Constraint) (constr_and K c d)"

definition return_apply :: "('c, 'v) classes \<Rightarrow> 'c constr \<Rightarrow> 'v \<Rightarrow> unit outcome" where
  "return_apply K c v = (case invalid K c v of None \<Rightarrow> Ok () | Some e \<Rightarrow> Raise TypeError)"

subsection \<open>Values\<close>

fun bind_positional :: "string list \<Rightarrow> 'v list \<Rightarrow> (string, 'v) dict \<Rightarrow> ((string, 'v) dict \<times> 'v list) outcome" where
  "bind_positional names [] d = Ok (d, [])"
| "bind_positional [] (v # vs) d = Ok (d, v # vs)"
| "bind_positional (n # names) (v # vs) d =
     (if dget d n \<noteq> None then Raise (ArgumentError (n @ '' given both as a positional and keyword argument''))
      else bind_positional names vs (dset n v d))"

fun apply_all :: "('c, 'v) classes \<Rightarrow> (string \<times> ('c, 'v) argument) list \<Rightarrow> (string, 'v) dict \<Rightarrow> (string, 'v) dict outcome" where
  "apply_all K [] d = Ok d"
| "apply_all K ((n, a) # r) d = bind_ok (argument_apply K a n d) (apply_all K r)"

definition values_of :: "('c, 'v) classes \<Rightarrow> ('c, 'v) signature \<Rightarrow> 'v list \<Rightarrow> (string, 'v) dict \<Rightarrow> ((string, 'v) dict \<times> 'v list) outcome" where
  "values_of K s pos kw =
     bind_ok (bind_positional (sg_positional s) pos kw) (\<lambda>(named, anonymous).
     map_ok (\<lambda>d. (d, anonymous)) (apply_all K (sg_arguments s) named))"

text \<open>The arguments that a callable with signature \<open>s\<close> is called with.\<close>

fun call_keywords :: "('c, 'v) signature \<Rightarrow> bool \<Rightarrow> (string \<times> 'v) list \<Rightarrow> (string, 'v) dict outcome" where
  "call_keywords s strict [] = Ok []"
| "call_keywords s strict ((n, v) # r) =
     (if n \<in> set (sg_positional s) then call_keywords s strict r
      else if n \<notin> set (dkeys (sg_arguments s)) \<and> \<not> sg_extra_keyword s
      then (if \<not> strict then call_keywords s strict r else Raise (ArgumentError (''Extra argument '' @ n)))
      else map_ok (Cons (n, v)) (call_keywords s strict r))"

definition values_call :: "('c, 'v) signature \<Rightarrow> bool \<Rightarrow> (string, 'v) dict \<Rightarrow> 'v list \<Rightarrow> ('v list \<times> (string, 'v) dict) outcome" where
  "values_call s strict named anonymous =
     bind_ok (map_outcome (\<lambda>n. case dget named n of Some v \<Rightarrow> Ok v | None \<Rightarrow> Raise KeyError) (sg_positional s)) (\<lambda>args.
     map_ok (\<lambda>kw. (if sg_extra_positional s then args @ anonymous else args, kw)) (call_keywords s strict named))"

subsection \<open>Dispatch\<close>

text \<open>One more implementation for some types; the name of the argument must stay the same.\<close>

record ('c, 'f) dispatcher_fn =
  df_name :: string
  df_map :: "('c, 'f) dict"

definition register :: "string \<Rightarrow> 'c list \<Rightarrow> 'f \<Rightarrow> ('c, 'f) dispatcher_fn option \<Rightarrow> ('c, 'f) dispatcher_fn outcome" where
  "register n types f comb =
     (let d = (case comb of None \<Rightarrow> \<lparr>df_name = n, df_map = []\<rparr> | Some d \<Rightarrow> d) in
      if df_name d \<noteq> n then Raise (ArgumentError ''Inconsistent names for dynamic dispatch arguments'')
      else Ok (d\<lparr>df_map := fold (\<lambda>t. dset t f) types (df_map d)\<rparr>))"

fun first_parent :: "('c, 'f) dict \<Rightarrow> 'c list \<Rightarrow> 'f outcome" where
  "first_parent m [] = Raise (ArgumentError ''unhandled type'')"
| "first_parent m (t # ts) = (case dget m t of Some f \<Rightarrow> Ok f | None \<Rightarrow> first_parent m ts)"

definition dispatch :: "('c, 'v) classes \<Rightarrow> ('c, 'f) dispatcher_fn \<Rightarrow> (string, 'v) dict \<Rightarrow> 'f outcome" where
  "dispatch K d named =
     (case dget named (df_name d) of None \<Rightarrow> Raise KeyError | Some v \<Rightarrow> first_parent (df_map d) (cl_mro K (cl_of K v)))"

end
