(* ===== verification/Objects_Props.thy ===== *)
theory Objects_Props
  imports Objects_Signature
begin

section \<open>satori.objects: what signatures guarantee\<close>

subsection \<open>Arguments\<close>

text \<open>The value of an argument that has one satisfies its constraint.\<close>

definition argument_ok :: "('c, 'v) classes \<Rightarrow> ('c, 'v) argument \<Rightarrow> bool" where
  "argument_ok K a \<longleftrightarrow> ag_mode a \<noteq> Required \<longrightarrow> accepts K (ag_constraint a) (ag_value a)"

lemma enforce_new:
  "enforce K c \<lparr>ag_name = n, ag_doc = doc, ag_constraint = No_Constraint, ag_mode = m, ag_value = v\<rparr> =
    (if m = Required \<or> accepts K c v then Ok \<lparr>ag_name = n, ag_doc = doc, ag_constraint = c, ag_mode = m, ag_value = v\<rparr>
     else if m = Provided then Raise (ArgumentError (''Invalid provided value: '' @ the (invalid K c v)))
     else Ok \<lparr>ag_name = n, ag_doc = doc, ag_constraint = c, ag_mode = Required, ag_value = v\<rparr>)"
  by (cases m) (auto simp: enforce_def split: option.split)

lemma init_constraint [simp]:
  "argument_init K n doc m v None None (Some c) kvs =
    enforce K c \<lparr>ag_name = n, ag_doc = doc, ag_constraint = No_Constraint, ag_mode = m, ag_value = v\<rparr>"
  by (simp add: argument_init_def)

lemma parse_nothing [simp]: "map_ok (conj_of K) (Ok []) = Ok (Some No_Constraint)"
  by (simp add: conj_of_def)

lemma plain_argument [simp]:
  "plain_argument K n = Ok \<lparr>ag_name = n, ag_doc = None, ag_constraint = No_Constraint, ag_mode = Required, ag_value = cl_none K\<rparr>"
  by (simp add: plain_argument_def argument_init_def enforce_new conj_of_def)

lemma default_argument [simp]:
  "default_argument K n v = Ok \<lparr>ag_name = n, ag_doc = None, ag_constraint = No_Constraint, ag_mode = Optional, ag_value = v\<rparr>"
  by (simp add: default_argument_def argument_init_def enforce_new conj_of_def)

lemma fixed_argument [simp]:
  "fixed_argument K n v = Ok \<lparr>ag_name = n, ag_doc = None, ag_constraint = No_Constraint, ag_mode = Provided, ag_value = v\<rparr>"
  by (simp add: fixed_argument_def argument_init_def enforce_new conj_of_def)

lemma argument_init_ok: "argument_init K n doc m v dflt fixed copt kvs = Ok a \<Longrightarrow> argument_ok K a \<and> ag_name a = n"
  by (auto simp: argument_init_def enforce_new argument_ok_def outcome_simps split: option.splits if_splits prod.splits)

lemma argument_add_ok: "argument_add K a b = Ok c \<Longrightarrow> argument_ok K c \<and> ag_name c = ag_name a"
  by (auto simp: argument_add_def outcome_simps Let_def split: if_splits dest: argument_init_ok)

lemma argument_apply_eq:
  assumes "argument_ok K spec" and "ag_name spec = n"
  shows "argument_apply K spec n args =
    (case dget args n of
       Some v \<Rightarrow> (case invalid K (ag_constraint spec) v of
           Some e \<Rightarrow> Raise (ArgumentError (''Invalid provided value: '' @ e))
         | None \<Rightarrow> if ag_mode spec = Provided \<and> v \<noteq> ag_value spec then Raise (ArgumentError ''Conflicting provided values'')
                   else Ok (dset n v args))
     | None \<Rightarrow> if ag_mode spec = Required then Raise (ArgumentError (''Required argument '' @ n @ '' not provided.''))
               else Ok (dset n (ag_value spec) args))"
proof -
  have valid: "ag_mode spec \<noteq> Required \<Longrightarrow> accepts K (ag_constraint spec) (ag_value spec)"
    using assms(1) by (simp add: argument_ok_def)
  show ?thesis
  proof (cases "dget args n")
    case None
    then show ?thesis using assms(2) valid
      by (cases "ag_mode spec") (simp_all add: argument_apply_def argument_add_def enforce_new Let_def)
  next
    case (Some v)
    then show ?thesis using assms(2) valid
      by (cases "ag_mode spec"; cases "invalid K (ag_constraint spec) v")
        (auto simp: argument_apply_def argument_add_def enforce_new Let_def)
  qed
qed

text \<open>
  (conflicting_classes_unchecked): the sum of two specifications of an argument by classes of
  which neither is a subclass of the other checks nothing at all: the conjunction of the two is
  lost, and every value is accepted.
\<close>

theorem conflicting_classes_unchecked:
  assumes "\<not> issubclass K t u" and "\<not> issubclass K u t"
    and "argument_init K n None Required (cl_none K) None None None [(''type'', Sp_Class t)] = Ok a"
    and "argument_init K n None Required (cl_none K) None None None [(''type'', Sp_Class u)] = Ok b"
  shows "\<exists>c. argument_add K a b = Ok c \<and> (\<forall>v args. argument_apply K c n (dset n v args) = Ok (dset n v args))"
proof -
  have "parse K (Sp_Dict [(''type'', Sp_Class x)]) = Ok (Some (Type_Constraint x))" for x by (simp add: conj_of_def)
  then have ab: "a = \<lparr>ag_name = n, ag_doc = None, ag_constraint = Type_Constraint t, ag_mode = Required, ag_value = cl_none K\<rparr>"
    "b = \<lparr>ag_name = n, ag_doc = None, ag_constraint = Type_Constraint u, ag_mode = Required, ag_value = cl_none K\<rparr>"
    using assms(3,4) by (simp_all add: argument_init_def enforce_new del: parse.simps split: option.splits if_splits)
  define c :: "('a, 'b) argument"
    where "c = \<lparr>ag_name = n, ag_doc = None, ag_constraint = No_Constraint, ag_mode = Required, ag_value = cl_none K\<rparr>"
  have "constr_and K (Type_Constraint t) (Type_Constraint u) = Ok None" using assms by (intro conj_of_incomparable)
  then have "argument_add K a b = Ok c"
    unfolding ab argument_add_def by (simp add: or_doc_def argument_init_def enforce_new c_def conj_of_def del: constr_and.simps)
  moreover have "argument_apply K c n (dset n v args) = Ok (dset n v args)" for v args
    by (subst argument_apply_eq) (simp_all add: c_def argument_ok_def)
  ultimately show ?thesis by blast
qed

text \<open>Where the conjunction is not lost, a sum checks both specifications.\<close>

lemma argument_add_checks:
  assumes "classes_ok K" and "constr_and K (ag_constraint a) (ag_constraint b) = Ok (Some e)"
    and "argument_add K a b = Ok c" and "accepts K (ag_constraint c) v"
  shows "accepts K (ag_constraint a) v \<and> accepts K (ag_constraint b) v"
proof -
  have "ag_constraint x = e" if "argument_init K n doc m w None None (Some e) [] = Ok x" for n doc m w x
    using that by (auto simp: enforce_new split: option.splits if_splits)
  then have "ag_constraint c = e"
    using assms(2,3) by (auto simp: argument_add_def outcome_simps Let_def simp del: init_constraint split: if_splits)
  with assms show ?thesis using constr_and_sound [OF assms(1,2)] by simp
qed

subsection \<open>Values\<close>

definition named_ok :: "('c, 'v) classes \<Rightarrow> (string \<times> ('c, 'v) argument) list \<Rightarrow> bool" where
  "named_ok K as \<longleftrightarrow> list_all (\<lambda>(n, a). ag_name a = n \<and> argument_ok K a \<and> ag_mode a \<noteq> Provided) as"

lemma named_ok_simps [simp]:
  "named_ok K []"
  "named_ok K (p # as) \<longleftrightarrow> ag_name (snd p) = fst p \<and> argument_ok K (snd p) \<and> ag_mode (snd p) \<noteq> Provided \<and> named_ok K as"
  by (auto simp: named_ok_def split: prod.split)

lemma named_ok_dset: "named_ok K d \<Longrightarrow> ag_name a = n \<Longrightarrow> argument_ok K a \<Longrightarrow> ag_mode a \<noteq> Provided \<Longrightarrow> named_ok K (dset n a d)"
  by (induction d) auto

text \<open>A signature whose arguments carry their names and have no fixed values.\<close>

definition signature_ok :: "('c, 'v) classes \<Rightarrow> ('c, 'v) signature \<Rightarrow> bool" where
  "signature_ok K s \<longleftrightarrow> distinct (sg_positional s) \<and> dict_ok (sg_arguments s)
     \<and> named_ok K (sg_arguments s)"

text \<open>What the caller gave for an argument: by position or by name.\<close>

definition supplied :: "string list \<Rightarrow> 'v list \<Rightarrow> (string, 'v) dict \<Rightarrow> string \<Rightarrow> 'v option" where
  "supplied names pos kw n = (case map_of (zip names pos) n of Some v \<Rightarrow> Some v | None \<Rightarrow> dget kw n)"

definition twice :: "string list \<Rightarrow> 'v list \<Rightarrow> (string, 'v) dict \<Rightarrow> bool" where
  "twice names pos kw \<longleftrightarrow> list_ex (\<lambda>n. dget kw n \<noteq> None) (take (length pos) names)"

definition satisfied :: "('c, 'v) classes \<Rightarrow> (string \<Rightarrow> 'v option) \<Rightarrow> string \<times> ('c, 'v) argument \<Rightarrow> bool" where
  "satisfied K given e = (case given (fst e) of Some v \<Rightarrow> accepts K (ag_constraint (snd e)) v | None \<Rightarrow> ag_mode (snd e) = Optional)"

lemma twice_Cons [simp]:
  "n \<notin> set names \<Longrightarrow> twice (n # names) (v # vs) d \<longleftrightarrow> dget d n \<noteq> None \<or> twice names vs (dset n v d)"
  by (auto simp: twice_def list_ex_iff dest: set_take_subset [THEN subsetD])

lemma bind_positional_twice: "distinct names \<Longrightarrow> twice names pos kw \<Longrightarrow> \<not> is_ok (bind_positional names pos kw)"
  by (induction names pos kw rule: bind_positional.induct) (auto simp: twice_def [of _ "[]"] twice_def [of "[]"])

lemma bind_positional_ok:
  "distinct names \<Longrightarrow> \<not> twice names pos kw
    \<Longrightarrow> \<exists>d. bind_positional names pos kw = Ok (d, drop (length names) pos) \<and> dget d = supplied names pos kw"
proof (induction names pos kw rule: bind_positional.induct)
  case (3 n names v vs d)
  have notin: "n \<notin> set names" using 3 by simp
  then have tw: "\<not> twice names vs (dset n v d)" and none: "dget d n = None" using 3(3) by simp_all
  then obtain e where e: "bind_positional names vs (dset n v d) = Ok (e, drop (length names) vs)"
    "dget e = supplied names vs (dset n v d)" using 3 by auto
  have "map_of (zip names vs) n = None" using notin by (auto simp: map_of_eq_None_iff dest: set_zip_leftD)
  then have "supplied names vs (dset n v d) = supplied (n # names) (v # vs) d"
    by (intro ext) (auto simp: supplied_def split: option.split)
  with e none show ?case by simp
qed (auto simp: supplied_def intro!: ext split: option.split)

lemma satisfied_other [simp]:
  "n \<notin> fst ` set as \<Longrightarrow> list_all (satisfied K (dget (dset n v d))) as \<longleftrightarrow> list_all (satisfied K (dget d)) as"
  by (induction as) (auto simp: satisfied_def)

lemma apply_all_ok:
  assumes "named_ok K as" and "distinct (map fst as)"
    and "list_all (satisfied K (dget d)) as"
  shows "\<exists>e. apply_all K as d = Ok e
    \<and> dget e = (\<lambda>m. case dget d m of Some v \<Rightarrow> Some v | None \<Rightarrow> map_option ag_value (dget as m))"
  using assms
proof (induction as arbitrary: d)
  case (Cons p as)
  obtain n a where p: "p = (n, a)" by (cases p)
  have a: "ag_name a = n" "argument_ok K a" "ag_mode a \<noteq> Provided" and n: "n \<notin> fst ` set as" using Cons.prems p by auto
  let ?v = "case dget d n of Some v \<Rightarrow> v | None \<Rightarrow> ag_value a"
  have ap: "argument_apply K a n d = Ok (dset n ?v d)"
    using Cons.prems(3) p a by (auto simp: argument_apply_eq satisfied_def split: option.split)
  have "list_all (satisfied K (dget (dset n ?v d))) as"
    using Cons.prems(3) n p by (simp del: dget_dset)
  moreover have "named_ok K as" "distinct (map fst as)"
    using Cons.prems by auto
  ultimately obtain e where e: "apply_all K as (dset n ?v d) = Ok e"
    "dget e = (\<lambda>m. case dget (dset n ?v d) m of Some v \<Rightarrow> Some v | None \<Rightarrow> map_option ag_value (dget as m))"
    using Cons.IH [of "dset n ?v d"] by blast
  have "dget e m = (case dget d m of Some v \<Rightarrow> Some v | None \<Rightarrow> map_option ag_value (dget (p # as) m))" for m
    using e(2) n by (auto simp: p split: option.split)
  then have "dget e = (\<lambda>m. case dget d m of Some v \<Rightarrow> Some v | None \<Rightarrow> map_option ag_value (dget (p # as) m))" by blast
  with e(1) ap p show ?case by auto
qed (auto split: option.split)

lemma apply_all_fails:
  assumes "named_ok K as" and "distinct (map fst as)"
    and "\<not> list_all (satisfied K (dget d)) as"
  shows "\<not> is_ok (apply_all K as d)"
  using assms
proof (induction as arbitrary: d)
  case (Cons p as)
  obtain n a where p: "p = (n, a)" by (cases p)
  have a: "ag_name a = n" "argument_ok K a" "ag_mode a \<noteq> Provided" and n: "n \<notin> fst ` set as" using Cons.prems p by auto
  show ?case
  proof (cases "argument_apply K a n d")
    case (Ok e)
    then have s: "satisfied K (dget d) p" and "e = dset n (case dget d n of Some v \<Rightarrow> v | None \<Rightarrow> ag_value a) d"
      using a p by (cases "ag_mode a"; cases "dget d n"; cases "invalid K (ag_constraint a) (the (dget d n))";
          simp add: argument_apply_eq satisfied_def split: if_splits)+
    then obtain v where e: "e = dset n v d" by blast
    have "\<not> list_all (satisfied K (dget e)) as"
      using Cons.prems(3) s n e by (simp del: dget_dset)
    then show ?thesis using Cons.IH [of e] Cons.prems Ok p by simp
  qed (simp add: p)
qed simp

text \<open>
  C26 (values_bind): the values of a call of a signature without fixed (PROVIDED) arguments. It succeeds exactly if no argument is given twice, each
  given value satisfies the specification of its argument, and each argument that is not given
  has a default; then every argument has the value given for it or its default, other keywords
  are kept, and the surplus positional values are the anonymous ones.
\<close>

theorem values_bind:
  assumes "signature_ok K s"
  shows "let given = supplied (sg_positional s) pos kw in
    if \<not> twice (sg_positional s) pos kw \<and> list_all (satisfied K given) (sg_arguments s)
    then \<exists>d. values_of K s pos kw = Ok (d, drop (length (sg_positional s)) pos)
      \<and> dget d = (\<lambda>n. case given n of Some v \<Rightarrow> Some v | None \<Rightarrow> map_option ag_value (dget (sg_arguments s) n))
    else \<not> is_ok (values_of K s pos kw)"
proof -
  let ?names = "sg_positional s" and ?as = "sg_arguments s"
  have s: "distinct ?names" "distinct (map fst ?as)"
    "named_ok K ?as"
    using assms by (auto simp: signature_ok_def dict_ok_def)
  show ?thesis
  proof (cases "twice ?names pos kw")
    case True
    then obtain e where "bind_positional ?names pos kw = Raise e"
      using bind_positional_twice [OF s(1)] by (metis is_ok.elims(3))
    then show ?thesis using True by (simp add: values_of_def Let_def)
  next
    case False
    then obtain d where d: "bind_positional ?names pos kw = Ok (d, drop (length ?names) pos)" "dget d = supplied ?names pos kw"
      using bind_positional_ok [OF s(1)] by blast
    show ?thesis
    proof (cases "list_all (satisfied K (dget d)) ?as")
      case True
      then show ?thesis
        using apply_all_ok [OF s(3,2), of d] d False by (auto simp: values_of_def Let_def)
    next
      case nok: False
      then obtain e where "apply_all K ?as d = Raise e"
        using apply_all_fails [OF s(3,2), of d] by (metis is_ok.elims(3))
      then show ?thesis using nok d by (simp add: values_of_def Let_def)
    qed
  qed
qed

definition flat_classes :: "(nat, nat) classes" where
  "flat_classes = \<lparr>cl_mro = (\<lambda>t. [t]), cl_of = (\<lambda>v. v mod 2), cl_msg = (\<lambda>v t. []), cl_none_type = 9, cl_none = 0\<rparr>"

theorem conflicting_classes_unchecked_witness:
  "\<exists>a b c. argument_init flat_classes ''x'' None Required 0 None None None [(''type'', Sp_Class 0)] = Ok a
    \<and> argument_init flat_classes ''x'' None Required 0 None None None [(''type'', Sp_Class 1)] = Ok b
    \<and> argument_add flat_classes a b = Ok c \<and> argument_apply flat_classes c ''x'' [(''x'', 3)] = Ok [(''x'', 3)]"
proof -
  have none: "cl_none flat_classes = 0" by (simp add: flat_classes_def)
  obtain a where a: "argument_init flat_classes ''x'' None Required (cl_none flat_classes) None None None [(''type'', Sp_Class 0)] = Ok a"
    by (simp add: argument_init_def enforce_new conj_of_def)
  obtain b where b: "argument_init flat_classes ''x'' None Required (cl_none flat_classes) None None None [(''type'', Sp_Class 1)] = Ok b"
    by (simp add: argument_init_def enforce_new conj_of_def)
  have "\<not> issubclass flat_classes 0 1" "\<not> issubclass flat_classes 1 0" by (simp_all add: issubclass_def flat_classes_def)
  from conflicting_classes_unchecked [OF this a b] obtain c where c: "argument_add flat_classes a b = Ok c"
    "\<And>v args. argument_apply flat_classes c ''x'' (dset ''x'' v args) = Ok (dset ''x'' v args)" by blast
  from c(2) [of 3 "[]"] c(1) a b none show ?thesis by auto
qed

lemma plain_arguments_ok:
  "dict_ok d \<Longrightarrow> named_ok K d \<Longrightarrow> \<exists>e. plain_arguments K ns d = Ok e \<and> dict_ok e \<and> named_ok K e"
  by (induction ns arbitrary: d) (simp_all add: named_ok_dset argument_ok_def)

lemma default_arguments_ok:
  "dict_ok d \<Longrightarrow> named_ok K d \<Longrightarrow> \<exists>e. default_arguments K ns d = Ok e \<and> dict_ok e \<and> named_ok K e"
proof (induction ns arbitrary: d)
  case (Cons p ns)
  then show ?case by (cases p) (simp add: named_ok_dset argument_ok_def)
qed simp

lemma new_signature_ok:
  "distinct names \<Longrightarrow> \<exists>s. new_signature K names pos kw dflts = Ok s \<and> signature_ok K s \<and> sg_positional s = names"
proof -
  assume names: "distinct names"
  let ?r = "length names - length dflts"
  obtain d where d: "plain_arguments K (take ?r names) [] = Ok d" "dict_ok d"
    "named_ok K d"
    using plain_arguments_ok [of "[]" K "take ?r names"] by auto
  obtain e where "default_arguments K (zip (drop ?r names) dflts) d = Ok e" "dict_ok e"
    "named_ok K e"
    using default_arguments_ok [OF d(2,3), of "zip (drop ?r names) dflts"] by auto
  with d(1) names show ?thesis by (simp add: new_signature_def Let_def signature_ok_def)
qed

theorem values_bind_witness:
  "\<exists>s d. new_signature flat_classes [''x'', ''y'', ''z''] False False [5, 6] = Ok s
    \<and> values_of flat_classes s [7] [(''z'', 8)] = Ok (d, []) \<and> dget d ''x'' = Some 7 \<and> dget d ''y'' = Some 5 \<and> dget d ''z'' = Some 8"
proof -
  obtain s where s: "new_signature flat_classes [''x'', ''y'', ''z''] False False [5, 6] = Ok s" "signature_ok flat_classes s"
    "sg_positional s = [''x'', ''y'', ''z'']"
    using new_signature_ok [of "[''x'', ''y'', ''z'']" flat_classes False False "[5, 6]"] by auto
  have "list_all (satisfied flat_classes (supplied (sg_positional s) [7] [(''z'', 8)])) (sg_arguments s)"
    "dget (sg_arguments s) ''y'' \<noteq> None" "map_option ag_value (dget (sg_arguments s) ''y'') = Some 5"
    "\<not> twice (sg_positional s) [7 :: nat] [(''z'', 8)]"
    using s(1) by (auto simp: new_signature_def satisfied_def supplied_def twice_def)
  with values_bind [OF s(2), of "[7]" "[(''z'', 8)]"] s(3)
  obtain d where "values_of flat_classes s [7] [(''z'', 8)] = Ok (d, [])"
    "dget d = (\<lambda>n. case supplied (sg_positional s) [7] [(''z'', 8)] n of Some v \<Rightarrow> Some v | None \<Rightarrow> map_option ag_value (dget (sg_arguments s) n))"
    "map_option ag_value (dget (sg_arguments s) ''y'') = Some 5" by (auto simp: Let_def)
  with s(1,3) show ?thesis by (auto simp: supplied_def)
qed

subsection \<open>Calls and dispatch\<close>

text \<open>A function that is called through the values of its own signature gets every argument, in order.\<close>

lemma values_call_own:
  assumes "signature_ok K s" and "values_of K s pos kw = Ok (d, anonymous)" and "set (dkeys d) \<subseteq> set (sg_positional s)"
    and "list_all (\<lambda>n. dget d n \<noteq> None) (sg_positional s)"
  shows "values_call s True d anonymous =
    Ok (map (\<lambda>n. the (dget d n)) (sg_positional s) @ (if sg_extra_positional s then anonymous else []), [])"
proof -
  have a: "map_outcome (\<lambda>n. case dget d n of Some v \<Rightarrow> Ok v | None \<Rightarrow> Raise KeyError) (sg_positional s)
      = Ok (map (\<lambda>n. the (dget d n)) (sg_positional s))"
    using assms(4) by (intro map_outcome_Ok) (auto simp: list_all_iff split: option.split)
  have "call_keywords s True e = Ok []" if "set (dkeys e) \<subseteq> set (sg_positional s)" for e :: "(string, 'b) dict"
    using that by (induction e) (auto simp: dkeys_def)
  with a assms(3) show ?thesis by (simp add: values_call_def)
qed

text \<open>Dispatch finds the first registered class in the order of the classes of the value.\<close>

lemma first_parent_Ok:
  "first_parent m ts = Ok f \<longleftrightarrow> (\<exists>xs u ys. ts = xs @ u # ys \<and> dget m u = Some f \<and> (\<forall>x \<in> set xs. dget m x = None))"
proof (induction ts)
  case (Cons t ts)
  show ?case
  proof (cases "dget m t")
    case None
    show ?thesis
    proof
      assume "first_parent m (t # ts) = Ok f"
      then obtain xs u ys where "ts = xs @ u # ys" "dget m u = Some f" "\<forall>x \<in> set xs. dget m x = None" using Cons None by auto
      with None show "\<exists>xs u ys. t # ts = xs @ u # ys \<and> dget m u = Some f \<and> (\<forall>x \<in> set xs. dget m x = None)"
        by (intro exI [of _ "t # xs"] exI [of _ u] exI [of _ ys]) simp
    next
      assume "\<exists>xs u ys. t # ts = xs @ u # ys \<and> dget m u = Some f \<and> (\<forall>x \<in> set xs. dget m x = None)"
      then obtain xs u ys where x: "t # ts = xs @ u # ys" "dget m u = Some f" "\<forall>x \<in> set xs. dget m x = None" by blast
      with None obtain zs where "xs = t # zs" by (cases xs) auto
      with x Cons None show "first_parent m (t # ts) = Ok f" by auto
    qed
  next
    case (Some g)
    have "(\<exists>xs u ys. t # ts = xs @ u # ys \<and> dget m u = Some f \<and> (\<forall>x \<in> set xs. dget m x = None)) \<longleftrightarrow> f = g"
      using Some by (force simp: Cons_eq_append_conv)
    with Some show ?thesis by auto
  qed
qed simp

text \<open>The order of Python's classes: no class comes after one of its own base classes.\<close>

definition mro_ordered :: "('c, 'v) classes \<Rightarrow> bool" where
  "mro_ordered K \<longleftrightarrow> (\<forall>t. sorted_wrt (\<lambda>u w. \<not> issubclass K w u) (cl_mro K t))"

text \<open>
  (dispatch_most_specific): dispatch runs an implementation for a class of the value, and no
  class of the value that is more specific has one.
\<close>

theorem dispatch_most_specific:
  assumes "mro_ordered K" and "dget named (df_name d) = Some v" and "dispatch K d named = Ok f"
  shows "\<exists>u. isinstance K v u \<and> dget (df_map d) u = Some f
    \<and> (\<forall>w. isinstance K v w \<and> dget (df_map d) w \<noteq> None \<longrightarrow> w = u \<or> \<not> issubclass K w u)"
proof -
  obtain xs u ys where x: "cl_mro K (cl_of K v) = xs @ u # ys" "dget (df_map d) u = Some f"
    "\<forall>x \<in> set xs. dget (df_map d) x = None"
    using assms(2,3) by (auto simp: dispatch_def first_parent_Ok)
  have "sorted_wrt (\<lambda>u w. \<not> issubclass K w u) (xs @ u # ys)" using assms(1) x(1) by (metis mro_ordered_def)
  then have "\<not> issubclass K w u" if "w \<in> set ys" for w using that by (simp add: sorted_wrt_append)
  with x show ?thesis by (intro exI [of _ u]) (auto simp: isinstance_def issubclass_def [of K "cl_of K v"])
qed

text \<open>A diamond: the class 3 has the bases 1 and 2, and all have the base 0.\<close>

definition diamond :: "(nat, nat) classes" where
  "diamond = \<lparr>cl_mro = (\<lambda>t. if t = 3 then [3, 1, 2, 0] else if t = 0 then [0] else [t, 0]), cl_of = (\<lambda>v. v),
     cl_msg = (\<lambda>v t. []), cl_none_type = 9, cl_none = 0\<rparr>"

definition sample_dispatcher :: "(nat, nat) dispatcher_fn" where
  "sample_dispatcher = \<lparr>df_name = ''item'', df_map = [(0, 10), (2, 12)]\<rparr>"

theorem dispatch_most_specific_witness:
  "dispatch diamond sample_dispatcher [(''item'', 3)] = Ok 12 \<and> (\<exists>u. isinstance diamond 3 u \<and> dget (df_map sample_dispatcher) u = Some 12)"
proof -
  have o: "mro_ordered diamond" by (auto simp: mro_ordered_def diamond_def issubclass_def)
  have d: "dispatch diamond sample_dispatcher [(''item'', 3)] = Ok 12" by code_simp
  have "dget [(''item'', 3 :: nat)] (df_name sample_dispatcher) = Some 3" by (simp add: sample_dispatcher_def)
  from dispatch_most_specific [OF o this d] d show ?thesis by blast
qed

end
