(* ===== verification/Ars_Client.thy ===== *)
theory Ars_Client
  imports Ars_Rpc Objects_Props
begin

section \<open>satori.ars.thrift.client: clients\<close>

text \<open>
  \<^item> \<open>wrap_signature\<close>, \<open>proc\<close>: what \<open>_wrap_procedure\<close> makes of a procedure for both clients.
  \<^item> \<open>client_start\<close>, \<open>client_stop\<close>, \<open>wrap_all\<close>, \<open>unwrap_all\<close>: the other methods.
  \<^item> \<open>network\<close>: opening and closing the connection and one exchange over it, on a world \<open>'w\<close>.
    The exchange is \<open>ThriftProcessor.call\<close> for the framed client; \<open>http_call\<close> is the exchange of
    the other one, given what a POST request does.
  The client is a thread-local object: one thread is modelled.
\<close>

text \<open>How a try of a call ends. A broken pipe is the \<open>IOError\<close> with that number.\<close>

datatype ('f, 'd) attempt =
    Done "('f, 'd) client_answer"
  | Transport_Failed
  | Http_Failed
  | Pipe_Broken
  | Failed exn

record ('i, 'f, 'd, 'w) network =
  nw_open :: "'w \<Rightarrow> unit outcome \<times> 'w"
  nw_close :: "'w \<Rightarrow> 'w"
  nw_call :: "'i procedure \<Rightarrow> ('f, 'd) attrs \<Rightarrow> int \<Rightarrow> 'w \<Rightarrow> ('f, 'd) attempt \<times> 'w"

record 'w client =
  tc_started :: bool
  tc_seqid :: int
  tc_world :: 'w

definition new_client :: "'w \<Rightarrow> 'w client" where
  "new_client w = \<lparr>tc_started = False, tc_seqid = 0, tc_world = w\<rparr>"

definition client_stop :: "('i, 'f, 'd, 'w) network \<Rightarrow> 'w client \<Rightarrow> 'w client" where
  "client_stop N c = (if tc_started c then c\<lparr>tc_started := False, tc_world := nw_close N (tc_world c)\<rparr> else c)"

text \<open>A new processor, whose numbers start again at 0.\<close>

definition client_start :: "('i, 'f, 'd, 'w) network \<Rightarrow> 'w client \<Rightarrow> unit outcome \<times> 'w client" where
  "client_start N c =
     (let c1 = client_stop N c in
      case nw_open N (tc_world c1) of
        (Raise e, w) \<Rightarrow> (Raise e, c1\<lparr>tc_world := w\<rparr>)
      | (Ok u, w) \<Rightarrow> (Ok (), \<lparr>tc_started = True, tc_seqid = 0, tc_world = w\<rparr>))"

subsection \<open>Wrapped procedures\<close>

definition make_optional :: "ars_type field \<Rightarrow> ('c, 'v) signature \<Rightarrow> ('c, 'v) signature" where
  "make_optional f s =
     (case dget (sg_arguments s) (field_name f) of
        Some a \<Rightarrow> if field_optional f then s\<lparr>sg_arguments := dset (field_name f) (a\<lparr>ag_mode := Optional\<rparr>) (sg_arguments s)\<rparr> else s
      | None \<Rightarrow> s)"

definition wrap_signature :: "('c, 'v) classes \<Rightarrow> 'i procedure \<Rightarrow> ('c, 'v) signature outcome" where
  "wrap_signature K p =
     map_ok (fold make_optional (pr_params p)) (new_signature K (map field_name (pr_params p)) False False [])"

definition try_call :: "('i, 'f, 'd, 'w) network \<Rightarrow> 'i procedure \<Rightarrow> ('f, 'd) attrs \<Rightarrow> 'w client \<Rightarrow> ('f, 'd) attempt \<times> 'w client" where
  "try_call N p named c =
     (case nw_call N p named (tc_seqid c) (tc_world c) of
        (r, w) \<Rightarrow> (r, c\<lparr>tc_seqid := tc_seqid c + 1, tc_world := w\<rparr>))"

text \<open>After a failure of the transport: one more try on a new connection.\<close>

definition try_again :: "('i, 'f, 'd, 'w) network \<Rightarrow> 'i procedure \<Rightarrow> ('f, 'd) attrs \<Rightarrow> 'w client \<Rightarrow> ('f, 'd) attempt \<times> 'w client" where
  "try_again N p named c =
     (case client_start N (client_stop N c) of
        (Raise e, c1) \<Rightarrow> (Failed e, c1)
      | (Ok u, c1) \<Rightarrow> try_call N p named c1)"

text \<open>
  The HTTP client also tries again after a failure of the protocol; after a broken pipe it
  refers to an attribute it does not have.
\<close>

definition proc :: "bool \<Rightarrow> ('i, 'f, 'd, 'w) network \<Rightarrow> ('c, ('f, 'd) pyval) classes \<Rightarrow> ('c, ('f, 'd) pyval) signature
    \<Rightarrow> 'i procedure \<Rightarrow> ('f, 'd) pyval list \<Rightarrow> ('f, 'd) attrs \<Rightarrow> 'w client \<Rightarrow> ('f, 'd) attempt \<times> 'w client" where
  "proc http N K sign p pos kw c =
     (case (if tc_started c then (Ok (), c) else client_start N c) of
        (Raise e, c1) \<Rightarrow> (Failed e, c1)
      | (Ok u, c1) \<Rightarrow>
          (case values_of K sign pos kw of
             Raise e \<Rightarrow> (Failed e, c1)
           | Ok (named, anonymous) \<Rightarrow>
               (case try_call N p named c1 of
                  (Transport_Failed, c2) \<Rightarrow> try_again N p named c2
                | (Http_Failed, c2) \<Rightarrow> if http then try_again N p named c2 else (Http_Failed, c2)
                | (Pipe_Broken, c2) \<Rightarrow>
                    if http
                    then (case client_start N (client_stop N c2) of
                            (Raise e, c3) \<Rightarrow> (Failed e, c3)
                          | (Ok v, c3) \<Rightarrow> (Failed (AttributeError ''_protocol''), c3))
                    else try_again N p named c2
                | (r, c2) \<Rightarrow> (r, c2))))"

definition thrift_proc :: "('i, 'f, 'd, 'w) network \<Rightarrow> ('c, ('f, 'd) pyval) classes \<Rightarrow> ('c, ('f, 'd) pyval) signature
    \<Rightarrow> 'i procedure \<Rightarrow> ('f, 'd) pyval list \<Rightarrow> ('f, 'd) attrs \<Rightarrow> 'w client \<Rightarrow> ('f, 'd) attempt \<times> 'w client" where
  "thrift_proc = proc False"

definition http_proc :: "('i, 'f, 'd, 'w) network \<Rightarrow> ('c, ('f, 'd) pyval) classes \<Rightarrow> ('c, ('f, 'd) pyval) signature
    \<Rightarrow> 'i procedure \<Rightarrow> ('f, 'd) pyval list \<Rightarrow> ('f, 'd) attrs \<Rightarrow> 'w client \<Rightarrow> ('f, 'd) attempt \<times> 'w client" where
  "http_proc = proc True"

text \<open>The implementation of every procedure is set to its wrapper, or removed again.\<close>

definition set_implementations :: "('i procedure \<Rightarrow> 'i option) \<Rightarrow> 'i service list \<Rightarrow> 'i service list" where
  "set_implementations f = map (\<lambda>s. Service (sv_id s) (sv_name s) (sv_base s) (map (\<lambda>p. p\<lparr>pr_impl := f p\<rparr>) (sv_procedures s)))"

definition wrap_all :: "('i procedure \<Rightarrow> 'i) \<Rightarrow> 'i interface \<Rightarrow> 'i interface" where
  "wrap_all wrap I = I\<lparr>if_services := set_implementations (\<lambda>p. Some (wrap p)) (if_services I)\<rparr>"

definition unwrap_all :: "'i interface \<Rightarrow> 'i interface" where
  "unwrap_all I = I\<lparr>if_services := set_implementations (\<lambda>p. None) (if_services I)\<rparr>"

text \<open>One exchange of the HTTP client: a request out, the items of the reply back.\<close>

definition http_call :: "('f, 'd, 'w, 'i, 's) rpc \<Rightarrow> ('w request \<Rightarrow> 'x \<Rightarrow> 'w out list outcome \<times> 'x)
    \<Rightarrow> 'i procedure \<Rightarrow> ('f, 'd) attrs \<Rightarrow> int \<Rightarrow> 'x \<Rightarrow> ('f, 'd) attempt \<times> 'x" where
  "http_call C post p args seqid x =
     (case fst (call_request C p args seqid) of
        Raise e \<Rightarrow> (Failed e, x)
      | Ok rq \<Rightarrow> (case post rq x of (Raise e, x1) \<Rightarrow> (Failed e, x1) | (Ok out, x1) \<Rightarrow> (Done (call_answer C p out), x1)))"

text \<open>A network that reaches the server: the exchange is \<open>remote_call\<close>.\<close>

definition direct_network :: "('f, 'd, 'w, 'i, 's) rpc \<Rightarrow> (string \<times> int) option \<Rightarrow> 'i procedure list \<Rightarrow> ('i, 'f, 'd, 's) network" where
  "direct_network C peer ps = \<lparr>nw_open = (\<lambda>s. (Ok (), s)), nw_close = (\<lambda>s. s),
     nw_call = (\<lambda>p args q s. case remote_call C peer ps p args q s of (r, s1) \<Rightarrow> (Done r, s1))\<rparr>"

subsection \<open>The signature of a procedure\<close>

lemma plain_arguments_get:
  "plain_arguments K ns d = Ok e \<Longrightarrow> dget e n = (if n \<in> set ns
     then Some \<lparr>ag_name = n, ag_doc = None, ag_constraint = No_Constraint, ag_mode = Required, ag_value = cl_none K\<rparr> else dget d n)"
  by (induction ns arbitrary: d) auto

text \<open>The arguments a wrapper accepts: anything, with \<open>None\<close> for an optional one.\<close>

definition wrapper_argument :: "('c, 'v) classes \<Rightarrow> ars_type field \<Rightarrow> ('c, 'v) argument" where
  "wrapper_argument K f = \<lparr>ag_name = field_name f, ag_doc = None, ag_constraint = No_Constraint,
     ag_mode = (if field_optional f then Optional else Required), ag_value = cl_none K\<rparr>"

lemma make_optional_positional [simp]: "sg_positional (make_optional f s) = sg_positional s"
  by (simp add: make_optional_def split: option.split)

lemma make_optional_get:
  "dget (sg_arguments (make_optional f s)) n =
    (if n = field_name f \<and> field_optional f then map_option (\<lambda>a. a\<lparr>ag_mode := Optional\<rparr>) (dget (sg_arguments s) n) else dget (sg_arguments s) n)"
  by (auto simp: make_optional_def split: option.split)

lemma make_optional_dict: "dict_ok (sg_arguments s) \<Longrightarrow> dict_ok (sg_arguments (make_optional f s))"
  by (simp add: make_optional_def split: option.split)

lemma fold_optional:
  "distinct (map field_name fs) \<Longrightarrow> sg_positional (fold make_optional fs s) = sg_positional s
    \<and> (dict_ok (sg_arguments s) \<longrightarrow> dict_ok (sg_arguments (fold make_optional fs s)))
    \<and> (\<forall>n. n \<notin> field_name ` set fs \<longrightarrow> dget (sg_arguments (fold make_optional fs s)) n = dget (sg_arguments s) n)
    \<and> (\<forall>f \<in> set fs. dget (sg_arguments (fold make_optional fs s)) (field_name f) =
        (if field_optional f then map_option (\<lambda>a. a\<lparr>ag_mode := Optional\<rparr>) (dget (sg_arguments s) (field_name f))
         else dget (sg_arguments s) (field_name f)))"
proof (induction fs arbitrary: s)
  case (Cons f fs)
  have "distinct (map field_name fs)" and f: "field_name f \<notin> field_name ` set fs" using Cons.prems by auto
  note IH = Cons.IH [OF this(1), of "make_optional f s"]
  have g: "field_name g \<noteq> field_name f" if "g \<in> set fs" for g using f that by (metis imageI)
  show ?case using IH f g make_optional_dict [of s f] by (auto simp: make_optional_get)
qed simp

lemma wrap_signature_ok:
  assumes "procedure_ok p"
  shows "\<exists>s. wrap_signature K p = Ok s \<and> signature_ok K s \<and> sg_positional s = map field_name (pr_params p)
    \<and> (\<forall>n. dget (sg_arguments s) n \<noteq> None \<longrightarrow> n \<in> field_name ` set (pr_params p))
    \<and> (\<forall>f \<in> set (pr_params p). dget (sg_arguments s) (field_name f) = Some (wrapper_argument K f))"
proof -
  let ?ns = "map field_name (pr_params p)"
  have d: "distinct ?ns" using assms by (simp add: procedure_ok_def nt_ok_def)
  obtain e where e: "plain_arguments K ?ns [] = Ok e" "dict_ok e" using plain_arguments_ok [of "[]" K ?ns] by auto
  define s0 where "s0 = \<lparr>sg_positional = ?ns, sg_arguments = e, sg_extra_positional = False, sg_extra_keyword = False,
    sg_return = No_Constraint, sg_exceptions = []\<rparr>"
  define s where "s = fold make_optional (pr_params p) s0"
  have w: "wrap_signature K p = Ok s" using e(1) by (simp add: wrap_signature_def new_signature_def s0_def s_def)
  note fo = fold_optional [OF d, of s0, folded s_def]
  have get: "dget (sg_arguments s) (field_name f) = Some (wrapper_argument K f)" if "f \<in> set (pr_params p)" for f
    using fo that plain_arguments_get [OF e(1), of "field_name f"] by (simp add: s0_def wrapper_argument_def)
  have none: "n \<in> field_name ` set (pr_params p)" if "dget (sg_arguments s) n \<noteq> None" for n
  proof (rule ccontr)
    assume n: "n \<notin> field_name ` set (pr_params p)"
    then have "dget (sg_arguments s) n = dget e n" using fo by (simp add: s0_def)
    then show False using that n plain_arguments_get [OF e(1), of n] by simp
  qed
  have ok: "dict_ok (sg_arguments s)" using fo e(2) by (simp add: s0_def)
  have "named_ok K (sg_arguments s)"
    unfolding named_ok_def list_all_iff
  proof (clarify)
    fix n a
    assume "(n, a) \<in> set (sg_arguments s)"
    then have g: "dget (sg_arguments s) n = Some a" using ok by (simp add: dget_Some_iff)
    with none [of n] obtain f where "f \<in> set (pr_params p)" "n = field_name f" by auto
    with get [of f] g show "ag_name a = n \<and> argument_ok K a \<and> ag_mode a \<noteq> Provided"
      by (auto simp: wrapper_argument_def argument_ok_def split: if_splits)
  qed
  with ok d fo have "signature_ok K s" by (simp add: signature_ok_def s0_def)
  with w get none fo show ?thesis by (intro exI [of _ s]) (auto simp: s0_def)
qed

subsection \<open>A call through a client\<close>

definition given_args :: "ars_type field list \<Rightarrow> ('f, 'd) pyval list \<Rightarrow> ('f, 'd) attrs \<Rightarrow> ('f, 'd) attrs" where
  "given_args ps pos kw =
     (let given = (\<lambda>n. case supplied (map field_name ps) pos kw n of Some v \<Rightarrow> v | None \<Rightarrow> PNone) in
      map (\<lambda>f. (field_name f, given (field_name f))) (filter (\<lambda>f. given (field_name f) \<noteq> PNone) ps))"

text \<open>
  C9 (client_call_end_to_end): a wrapped procedure called with each mandatory parameter given, by
  position or by name, and none given twice, runs the implementation on the server with the
  given arguments under their names, and returns or raises what it does; positional values
  beyond the parameters are ignored. The client stays connected.
\<close>

theorem client_call_end_to_end:
  fixes C :: "('f, 'd, 'w, 'i, 's) rpc" and K :: "('c, ('f, 'd) pyval) classes"
  assumes "struct_codec (rp_put C) (rp_get C) good" and "procedure_ok p" and "list_all is_struct (pr_exceptions p)"
    and "nt_get pr_name (pr_name p) ps = Some p" and "pr_impl p = Some i" and "cl_none K = PNone"
    and "\<not> twice (map field_name (pr_params p)) pos kw"
    and "list_all (\<lambda>f. field_optional f \<or> supplied (map field_name (pr_params p)) pos kw (field_name f) \<noteq> None) (pr_params p)"
    and "\<forall>at. carried (pr_params p) at = given_args (pr_params p) pos kw \<longrightarrow> good (pr_args_struct p) at"
    and "rp_run C i (map_option (\<lambda>(a, port). (client_ip a, port)) peer) (given_args (pr_params p) pos kw) (tc_world c) = (ans, s')"
    and "ans \<noteq> Threw PNone"
    and "\<forall>n v. answer_field C p ans = Some (n, v) \<longrightarrow>
      good (pr_result_struct p) (dset n v (blank (struct_fields (pr_result_struct p))))"
    and "wrap_signature K p = Ok sign"
  shows "\<exists>c'. proc http (direct_network C peer ps) K sign p pos kw c =
    (Done (case ans of
        Returned v \<Rightarrow> Result v
      | Threw ex \<Rightarrow> if \<exists>x \<in> set (pr_exceptions p). rp_isinstance C ex x then Remote_Exception ex
                    else Application_Error Unknown_Error ''Unknown exception in procedure''), c')
    \<and> tc_started c' \<and> tc_world c' = s'"
proof -
  let ?r = "case ans of
        Returned v \<Rightarrow> Result v
      | Threw ex \<Rightarrow> if \<exists>x \<in> set (pr_exceptions p). rp_isinstance C ex x then Remote_Exception ex
                    else Application_Error Unknown_Error ''Unknown exception in procedure''"
  let ?N = "direct_network C peer ps" and ?ns = "map field_name (pr_params p)"
  obtain c1 where c1: "(if tc_started c then (Ok (), c) else client_start ?N c) = (Ok (), c1)" "tc_started c1" "tc_world c1 = tc_world c"
    by (cases "tc_started c") (auto simp: client_start_def client_stop_def direct_network_def)
  have s: "signature_ok K sign" "sg_positional sign = ?ns"
    "\<And>n. dget (sg_arguments sign) n \<noteq> None \<Longrightarrow> n \<in> field_name ` set (pr_params p)"
    "\<And>f. f \<in> set (pr_params p) \<Longrightarrow> dget (sg_arguments sign) (field_name f) = Some (wrapper_argument K f)"
    using wrap_signature_ok [OF assms(2), of K] assms(13) by auto
  have "list_all (satisfied K (supplied ?ns pos kw)) (sg_arguments sign)"
    unfolding list_all_iff
  proof (clarify)
    fix n a
    assume na: "(n, a) \<in> set (sg_arguments sign)"
    then have g: "dget (sg_arguments sign) n = Some a" using s(1) by (simp add: dget_Some_iff signature_ok_def)
    with s(3) [of n] obtain f where f: "f \<in> set (pr_params p)" "n = field_name f" by auto
    with s(4) g have "a = wrapper_argument K f" by simp
    with f assms(8) show "satisfied K (supplied ?ns pos kw) (n, a)"
      by (auto simp: satisfied_def wrapper_argument_def list_all_iff split: option.split)
  qed
  then obtain d where d: "values_of K sign pos kw = Ok (d, drop (length ?ns) pos)"
    "dget d = (\<lambda>n. case supplied ?ns pos kw n of Some v \<Rightarrow> Some v | None \<Rightarrow> map_option ag_value (dget (sg_arguments sign) n))"
    using values_bind [OF s(1), of pos kw] assms(7) s(2) by (auto simp: Let_def)
  have at: "attr_of d (field_name f) = (case supplied ?ns pos kw (field_name f) of Some v \<Rightarrow> v | None \<Rightarrow> PNone)"
    if "f \<in> set (pr_params p)" for f
    using d(2) s(4) [OF that] assms(6)
    by (auto simp: attr_of_def dget_def_val_def wrapper_argument_def split: option.split)
  then have args: "call_args (pr_params p) d = given_args (pr_params p) pos kw"
    by (simp add: call_args_def given_args_def Let_def cong: filter_cong)
  then have "good (pr_args_struct p) d" using assms(9) by (simp add: carried_def call_args_def)
  moreover have "rp_run C i (map_option (\<lambda>(a, port). (client_ip a, port)) peer) (call_args (pr_params p) d) (tc_world c) = (ans, s')"
    using assms(10) args by simp
  ultimately have rc: "remote_call C peer ps p d (tc_seqid c1) (tc_world c) = (?r, s')"
    using assms(1-5,11,12) by (intro rpc_call_ok)
  have "try_call ?N p d c1 = (Done ?r, c1\<lparr>tc_seqid := tc_seqid c1 + 1, tc_world := s'\<rparr>)"
    using rc c1(3) by (simp add: try_call_def direct_network_def)
  then have "proc http ?N K sign p pos kw c = (Done ?r, c1\<lparr>tc_seqid := tc_seqid c1 + 1, tc_world := s'\<rparr>)"
    unfolding proc_def c1(1) by (simp add: d(1))
  then show ?thesis using c1(2) by simp
qed

definition untyped_classes :: "(unit, (unit, unit) pyval) classes" where
  "untyped_classes = \<lparr>cl_mro = (\<lambda>t. [t]), cl_of = (\<lambda>v. ()), cl_msg = (\<lambda>v t. []), cl_none_type = (), cl_none = PNone\<rparr>"

theorem client_call_end_to_end_witness:
  "\<exists>sign c'. wrap_signature untyped_classes sample_procedure = Ok sign
    \<and> proc False (direct_network sample_rpc None [sample_procedure]) untyped_classes sign sample_procedure [PInt 14] [] (new_client 0)
      = (Done (Result (PInt 7)), c') \<and> tc_started c' \<and> tc_world c' = 1"
proof -
  have p: "procedure_ok sample_procedure"
    by (simp add: sample_rpc_defs procedure_ok_def is_struct_def nt_ok_def error_names_def)
  obtain sign where sign: "wrap_signature untyped_classes sample_procedure = Ok sign"
    using wrap_signature_ok [OF p, of untyped_classes] by blast
  have args: "given_args (pr_params sample_procedure) [PInt 14] [] = [(''x'', PInt 14) :: string \<times> (unit, unit) pyval]"
    by (simp add: given_args_def supplied_def sample_rpc_defs)
  have "\<exists>c'. proc False (direct_network sample_rpc None [sample_procedure]) untyped_classes sign sample_procedure [PInt 14] [] (new_client 0)
      = (Done (case Returned (PInt 7) of Returned v \<Rightarrow> Result v
        | Threw ex \<Rightarrow> if \<exists>x \<in> set (pr_exceptions sample_procedure). rp_isinstance sample_rpc ex x then Remote_Exception ex
                    else Application_Error Unknown_Error ''Unknown exception in procedure''), c') \<and> tc_started c' \<and> tc_world c' = 1"
  proof (rule client_call_end_to_end [where good = thrift_good and i = "()"])
    show "struct_codec (rp_put sample_rpc) (rp_get sample_rpc) thrift_good"
      using thrift.struct_codec_axioms by (simp add: sample_rpc_def)
    show "\<forall>at :: (unit, unit) attrs. carried (pr_params sample_procedure) at = given_args (pr_params sample_procedure) [PInt 14] []
      \<longrightarrow> thrift_good (pr_args_struct sample_procedure) at"
    proof (intro allI impI)
      fix at :: "(unit, unit) attrs"
      assume c: "carried (pr_params sample_procedure) at = given_args (pr_params sample_procedure) [PInt 14] []"
      have "struct_fields (pr_args_struct sample_procedure) = pr_params sample_procedure" using p by (simp add: procedure_ok_def)
      then have "carried (struct_fields (pr_args_struct sample_procedure)) at = [(''x'', PInt 14)]" using c args by simp
      then show "thrift_good (pr_args_struct sample_procedure) at"
        unfolding thrift_good_def by (simp add: keyed_def sample_rpc_defs is_struct_def nt_ok_def in_width_def)
    qed
    show "\<forall>n v. answer_field sample_rpc sample_procedure (Returned (PInt 7)) = Some (n, v) \<longrightarrow>
      thrift_good (pr_result_struct sample_procedure) (dset n v (blank (struct_fields (pr_result_struct sample_procedure))))"
      by (auto simp: answer_field_def sample_rpc_defs thrift_good_def is_struct_def blank_def carried_def attr_of_def
          dget_def_val_def keyed_def nt_ok_def in_width_def)
    show "rp_run sample_rpc () (map_option (\<lambda>(a, port). (client_ip a, port)) None) (given_args (pr_params sample_procedure) [PInt 14] [])
      (tc_world (new_client 0)) = (Returned (PInt 7), 1)"
      unfolding args by (simp add: sample_rpc_def attr_of_def dget_def_val_def new_client_def)
  qed (use p sign in \<open>simp_all add: sample_rpc_defs is_struct_def untyped_classes_def twice_def supplied_def\<close>)
  with sign show ?thesis by auto
qed

end
