(* ===== verification/Topsort.thy ===== *)
theory Topsort
  imports Prelude
begin

section \<open>Topological sorting\<close>

text \<open>
  \<open>topsort\<close> of \<open>satori.core.export._topsort\<close>, which orders the models of the program, their
  rights and their options.
  \<^item> \<open>num_parents\<close> and \<open>children\<close> are the two dicts of the source. The list \<open>answer\<close> grows while
    the loop goes over it; the model has the elements already visited and those still to come.
  \<^item> \<open>topsort_spec\<close>: the result has every element once, parents first, and there is a result
    if and only if the pairs have no cycle.
\<close>

definition count_pair :: "'a \<times> 'a \<Rightarrow> ('a, int) dict \<times> ('a, 'a list) dict \<Rightarrow> ('a, int) dict \<times> ('a, 'a list) dict" where
  "count_pair pair nc =
     (let (parent, child) = pair; (num_parents, children) = nc;
          n1 = (if dget num_parents parent = None then dset parent 0 num_parents else num_parents);
          n2 = (if dget n1 child = None then dset child 0 n1 else n1);
          n3 = dset child (dget_def_val n2 child 0 + 1) n2
      in (n3, dset parent (dget_def_val children parent [] @ [child]) children))"

fun count_pairs :: "('a \<times> 'a) list \<Rightarrow> ('a, int) dict \<times> ('a, 'a list) dict \<Rightarrow> ('a, int) dict \<times> ('a, 'a list) dict" where
  "count_pairs [] nc = nc"
| "count_pairs (p # ps) nc = count_pairs ps (count_pair p nc)"

definition initial_answer :: "('a, int) dict \<Rightarrow> 'a list" where
  "initial_answer num_parents = filter (\<lambda>x. dget num_parents x = Some 0) (dkeys num_parents)"

text \<open>\<open>for child in children[parent]\<close>: the counts, and what is appended to the answer.\<close>

fun knock_down :: "'a list \<Rightarrow> ('a, int) dict \<Rightarrow> (('a, int) dict \<times> 'a list) outcome" where
  "knock_down [] num_parents = Ok (num_parents, [])"
| "knock_down (child # cs) num_parents =
     (case dget num_parents child of
        None \<Rightarrow> Raise KeyError
      | Some n \<Rightarrow>
          map_ok (\<lambda>(np, more). (np, (if n - 1 = 0 then child # more else more)))
            (knock_down cs (dset child (n - 1) num_parents)))"

lemma dset_length: "dget d k = Some v \<Longrightarrow> length (dset k w d) = length d"
  by (induction d) auto

lemma ddel_length: "dget d k = Some v \<Longrightarrow> length (ddel k d) < length d"
proof (induction d)
  case (Cons kv d)
  obtain k' v' where kv: "kv = (k', v')" by (cases kv)
  have "length (ddel k d) \<le> length d" by (simp add: ddel_def AList.length_delete_le)
  with Cons kv show ?case by (auto simp: less_Suc_eq_le)
qed simp

lemma knock_down_length: "knock_down cs np = Ok (np', more) \<Longrightarrow> length np' = length np"
  by (induction cs np arbitrary: np' more rule: knock_down.induct)
    (auto simp: outcome_simps dset_length split: option.splits)

function visit :: "'a list \<Rightarrow> 'a list \<Rightarrow> ('a, int) dict \<Rightarrow> ('a, 'a list) dict
    \<Rightarrow> ('a list \<times> ('a, int) dict) outcome" where
  "visit seen todo num_parents children =
     (case todo of
        [] \<Rightarrow> Ok (seen, num_parents)
      | parent # rest \<Rightarrow>
          if dget num_parents parent = None then Raise KeyError
          else
            (let np = ddel parent num_parents in
             case dget children parent of
               None \<Rightarrow> visit (seen @ [parent]) rest np children
             | Some cs \<Rightarrow>
                 (case knock_down cs np of
                    Raise e \<Rightarrow> Raise e
                  | Ok (np', more) \<Rightarrow> visit (seen @ [parent]) (rest @ more) np' (ddel parent children))))"
  by auto
termination
  by (relation "measure (\<lambda>(_, _, np, _). length np)") (auto simp: ddel_length knock_down_length)

declare visit.simps [simp del]

definition topsort :: "('a \<times> 'a) list \<Rightarrow> 'a list outcome" where
  "topsort pairlist =
     (let (num_parents, children) = count_pairs pairlist ([], []) in
      case visit [] (initial_answer num_parents) num_parents children of
        Raise e \<Rightarrow> Raise e
      | Ok (answer, left) \<Rightarrow> if left \<noteq> [] then Raise CycleError else Ok answer)"

subsection \<open>Counting\<close>

definition elements :: "('a \<times> 'a) list \<Rightarrow> 'a set" where
  "elements ps = fst ` set ps \<union> snd ` set ps"

lemma elements_Nil [simp]: "elements [] = {}"
  by (simp add: elements_def)

lemma elements_Cons [simp]: "elements (p # ps) = {fst p, snd p} \<union> elements ps"
  by (auto simp: elements_def)

lemma elements_append [simp]: "elements (ps @ qs) = elements ps \<union> elements qs"
  by (auto simp: elements_def)

text \<open>The two dicts after the pairs \<open>ps\<close> were counted, of which those with a parent in \<open>A\<close> are done.\<close>

definition waiting :: "('a \<times> 'a) list \<Rightarrow> 'a set \<Rightarrow> 'a \<Rightarrow> int" where
  "waiting ps A x = int (length (filter (\<lambda>(p, c). c = x \<and> p \<notin> A) ps))"

definition counted :: "('a \<times> 'a) list \<Rightarrow> 'a set \<Rightarrow> ('a, int) dict \<Rightarrow> ('a, 'a list) dict \<Rightarrow> bool" where
  "counted ps A np ch \<longleftrightarrow> dict_ok np \<and> set (dkeys np) = elements ps - A
     \<and> (\<forall>x \<in> elements ps - A. dget np x = Some (waiting ps A x))
     \<and> (\<forall>p. p \<notin> A \<longrightarrow> dget_def_val ch p [] = map snd (filter (\<lambda>pc. fst pc = p) ps))"

lemma count_pair_ok:
  assumes "counted ps {} np ch"
  shows "counted (ps @ [p]) {} (fst (count_pair p (np, ch))) (snd (count_pair p (np, ch)))"
proof -
  obtain a c where p: "p = (a, c)" by (cases p)
  define n1 where "n1 = (if dget np a = None then dset a 0 np else np)"
  define n2 where "n2 = (if dget n1 c = None then dset c 0 n1 else n1)"
  define n3 where "n3 = dset c (dget_def_val n2 c 0 + 1) n2"
  have cp: "count_pair p (np, ch) = (n3, dset a (dget_def_val ch a [] @ [c]) ch)"
    by (simp add: p count_pair_def n1_def n2_def n3_def Let_def)
  have none: "dget np x = None \<longleftrightarrow> x \<notin> elements ps" for x
    using assms by (auto simp: counted_def dget_None_iff)
  have some: "x \<in> elements ps \<Longrightarrow> dget np x = Some (waiting ps {} x)" for x
    using assms by (simp add: counted_def)
  have zero: "x \<notin> elements ps \<Longrightarrow> waiting ps {} x = 0" for x
    by (force simp: waiting_def elements_def filter_empty_conv)
  have ok: "dict_ok n3" using assms by (auto simp: n1_def n2_def n3_def counted_def)
  have keys: "set (dkeys n3) = elements (ps @ [p])"
    using assms none by (auto simp: n1_def n2_def n3_def p counted_def)
  have g2: "dget n2 x = (if x \<in> elements (ps @ [p]) then Some (waiting ps {} x) else None)" for x
    using none [of x] some [of x] zero [of x] none [of c]
    by (auto simp: n1_def n2_def p)
  have g3: "dget n3 x = Some (waiting (ps @ [p]) {} x)" if "x \<in> elements (ps @ [p])" for x
  proof (cases "x = c")
    case True
    then have "dget n2 c = Some (waiting ps {} c)" using g2 [of c] by (simp add: p)
    with True show ?thesis by (simp add: n3_def p waiting_def dget_def_val_def)
  next
    case False
    with g2 [of x] that show ?thesis by (simp add: n3_def p waiting_def)
  qed
  have "dget_def_val (dset a (dget_def_val ch a [] @ [c]) ch) x [] = map snd (filter (\<lambda>pc. fst pc = x) (ps @ [p]))" for x
    using assms by (auto simp: p counted_def dget_def_val_def)
  with ok keys g3 show ?thesis unfolding cp by (simp add: counted_def)
qed

lemma count_pairs_ok:
  "counted qs {} np ch \<Longrightarrow> counted (qs @ ps) {} (fst (count_pairs ps (np, ch))) (snd (count_pairs ps (np, ch)))"
proof (induction ps arbitrary: qs np ch)
  case (Cons p ps)
  have "counted (qs @ [p]) {} (fst (count_pair p (np, ch))) (snd (count_pair p (np, ch)))"
    by (rule count_pair_ok [OF Cons.prems])
  from Cons.IH [OF this] show ?case by simp
qed simp

lemma knock_down_ok:
  assumes "dict_ok np" and "\<And>x. x \<in> set cs \<Longrightarrow> \<exists>n. dget np x = Some n \<and> int (count_list cs x) \<le> n"
  shows "\<exists>np' more. knock_down cs np = Ok (np', more) \<and> dict_ok np' \<and> set (dkeys np') = set (dkeys np)
    \<and> (\<forall>x n. dget np x = Some n \<longrightarrow> dget np' x = Some (n - int (count_list cs x)))
    \<and> distinct more \<and> set more = {x \<in> set cs. dget np x = Some (int (count_list cs x))}"
  using assms
proof (induction cs arbitrary: np)
  case (Cons c cs)
  obtain n where n: "dget np c = Some n" "int (count_list (c # cs) c) \<le> n"
    using Cons.prems(2) [of c] by auto
  let ?np = "dset c (n - 1) np"
  have "\<exists>m. dget ?np x = Some m \<and> int (count_list cs x) \<le> m" if "x \<in> set cs" for x
  proof (cases "x = c")
    case True
    with n show ?thesis by simp
  next
    case False
    with Cons.prems(2) [of x] that show ?thesis by (simp del: dset_Cons)
  qed
  then have "\<exists>np' more. knock_down cs ?np = Ok (np', more) \<and> dict_ok np' \<and> set (dkeys np') = set (dkeys ?np)
    \<and> (\<forall>x m. dget ?np x = Some m \<longrightarrow> dget np' x = Some (m - int (count_list cs x)))
    \<and> distinct more \<and> set more = {x \<in> set cs. dget ?np x = Some (int (count_list cs x))}"
    by (rule Cons.IH [OF dict_ok_dset [OF Cons.prems(1)]])
  then obtain np' more where IH: "knock_down cs ?np = Ok (np', more)" "dict_ok np'"
    "set (dkeys np') = set (dkeys ?np)"
    "\<forall>x m. dget ?np x = Some m \<longrightarrow> dget np' x = Some (m - int (count_list cs x))"
    "distinct more" "set more = {x \<in> set cs. dget ?np x = Some (int (count_list cs x))}"
    by (elim exE conjE)
  let ?more = "if n - 1 = 0 then c # more else more"
  have kd: "knock_down (c # cs) np = Ok (np', ?more)" using n IH(1) by simp
  have "c \<in> set (dkeys np)" using n(1) by (metis dget_None_iff option.distinct(1))
  then have keys: "set (dkeys np') = set (dkeys np)" using IH(3) by auto
  have vals: "dget np' x = Some (m - int (count_list (c # cs) x))" if "dget np x = Some m" for x m
    using that n(1) IH(4) [rule_format, of x "if x = c then n - 1 else m"] by auto
  have c0: "c \<in> set more \<Longrightarrow> n - 1 \<noteq> 0"
    using IH(6) by (auto simp: count_list_0_iff)
  have dist: "distinct ?more" using IH(5) c0 by auto
  have "set ?more = {x \<in> set (c # cs). dget np x = Some (int (count_list (c # cs) x))}"
  proof (intro set_eqI)
    fix x
    show "x \<in> set ?more \<longleftrightarrow> x \<in> {x \<in> set (c # cs). dget np x = Some (int (count_list (c # cs) x))}"
    proof (cases "x = c")
      case True
      have "c \<in> set more \<longleftrightarrow> c \<in> set cs \<and> n - 1 = int (count_list cs c)" unfolding IH(6) by simp
      moreover have "c \<in> set cs \<longleftrightarrow> count_list cs c \<noteq> 0" by (simp add: count_list_0_iff)
      moreover have "int (count_list cs c) + 1 \<le> n" using n(2) by simp
      ultimately show ?thesis using True n(1) by auto
    next
      case False
      have "x \<in> set more \<longleftrightarrow> x \<in> set cs \<and> dget np x = Some (int (count_list cs x))" unfolding IH(6) using False by simp
      with False show ?thesis by simp
    qed
  qed
  with kd IH(2) keys vals dist show ?case by blast
qed (auto simp: )

subsection \<open>The loop\<close>

definition parents_first :: "('a \<times> 'a) set \<Rightarrow> 'a list \<Rightarrow> bool" where
  "parents_first R xs \<longleftrightarrow> (\<forall>ys c zs. xs = ys @ c # zs \<longrightarrow> (\<forall>p. (p, c) \<in> R \<longrightarrow> p \<in> set ys))"

lemma parents_first_Nil [simp]: "parents_first R []"
  by (simp add: parents_first_def)

lemma parents_first_snoc:
  "parents_first R (xs @ [x]) \<longleftrightarrow> parents_first R xs \<and> (\<forall>p. (p, x) \<in> R \<longrightarrow> p \<in> set xs)"
proof
  assume *: "parents_first R (xs @ [x])"
  have "parents_first R xs"
    unfolding parents_first_def
  proof (intro allI impI)
    fix ys c zs p
    assume "xs = ys @ c # zs" "(p, c) \<in> R"
    then show "p \<in> set ys" using * unfolding parents_first_def
      by (metis append.assoc append_Cons)
  qed
  moreover have "\<forall>p. (p, x) \<in> R \<longrightarrow> p \<in> set xs" using * unfolding parents_first_def by blast
  ultimately show "parents_first R xs \<and> (\<forall>p. (p, x) \<in> R \<longrightarrow> p \<in> set xs)" ..
next
  assume *: "parents_first R xs \<and> (\<forall>p. (p, x) \<in> R \<longrightarrow> p \<in> set xs)"
  show "parents_first R (xs @ [x])"
    unfolding parents_first_def
  proof (intro allI impI)
    fix ys c zs p
    assume e: "xs @ [x] = ys @ c # zs" and p: "(p, c) \<in> R"
    show "p \<in> set ys"
    proof (cases zs rule: rev_cases)
      case Nil
      with e p * show ?thesis by simp
    next
      case (snoc zs' z)
      with e have "xs = ys @ c # zs'" by simp
      with p * show ?thesis unfolding parents_first_def by blast
    qed
  qed
qed

text \<open>The elements that wait for nobody are exactly those in the list still to be visited.\<close>

definition visit_inv :: "('a \<times> 'a) list \<Rightarrow> 'a list \<Rightarrow> 'a list \<Rightarrow> ('a, int) dict \<Rightarrow> ('a, 'a list) dict \<Rightarrow> bool" where
  "visit_inv ps seen todo np ch \<longleftrightarrow> counted ps (set seen) np ch \<and> distinct seen \<and> distinct todo
     \<and> set seen \<subseteq> elements ps \<and> parents_first (set ps) seen
     \<and> set todo = {x \<in> elements ps - set seen. waiting ps (set seen) x = 0}"

lemma waiting_zero: "waiting ps A x = 0 \<longleftrightarrow> (\<forall>p. (p, x) \<in> set ps \<longrightarrow> p \<in> A)"
  by (auto simp: waiting_def filter_empty_conv)

lemma waiting_insert:
  assumes "a \<notin> A"
  shows "waiting ps A x = waiting ps (insert a A) x + int (count_list (map snd (filter (\<lambda>pc. fst pc = a) ps)) x)"
  using assms by (induction ps) (auto simp: waiting_def)

lemma visit_step:
  assumes inv: "visit_inv ps seen (a # todo) np ch"
  shows "dget np a \<noteq> None"
    and "dget ch a = None \<Longrightarrow> visit_inv ps (seen @ [a]) todo (ddel a np) ch"
    and "dget ch a = Some cs \<Longrightarrow> \<exists>np' more. knock_down cs (ddel a np) = Ok (np', more)
           \<and> visit_inv ps (seen @ [a]) (todo @ more) np' (ddel a ch)"
proof -
  let ?A = "set seen" let ?B = "insert a (set seen)"
  let ?cs = "map snd (filter (\<lambda>pc. fst pc = a) ps)"
  have c: "counted ps ?A np ch" and ds: "distinct seen" "distinct (a # todo)" "?A \<subseteq> elements ps"
    and pf: "parents_first (set ps) seen"
    and td: "set (a # todo) = {x \<in> elements ps - ?A. waiting ps ?A x = 0}"
    using inv unfolding visit_inv_def by blast+
  have a: "a \<in> elements ps" "a \<notin> ?A" "\<forall>p. (p, a) \<in> set ps \<longrightarrow> p \<in> ?A"
    using td unfolding waiting_zero by auto
  from c a show "dget np a \<noteq> None" by (auto simp: counted_def)
  have pf': "parents_first (set ps) (seen @ [a])" using pf a(3) by (simp add: parents_first_snoc)
  have ch: "dget_def_val ch a [] = ?cs" using c a(2) by (simp add: counted_def)
  have ok: "dict_ok (ddel a np)" using c by (simp add: counted_def)
  have w: "waiting ps ?A x = waiting ps ?B x + int (count_list ?cs x)" for x
    by (rule waiting_insert [OF a(2)])
  have nn: "0 \<le> waiting ps ?B x" for x by (simp add: waiting_def)
  have el: "x \<in> elements ps - ?B" if "x \<in> set ?cs" for x
  proof -
    from that have p: "(a, x) \<in> set ps" by auto
    have "x \<notin> ?A"
    proof
      assume "x \<in> ?A"
      then obtain ys zs where "seen = ys @ x # zs" by (metis split_list)
      with pf p a(2) show False unfolding parents_first_def by auto
    qed
    moreover have "x \<noteq> a" using p a by blast
    moreover have "x \<in> elements ps" using p unfolding elements_def by force
    ultimately show ?thesis by simp
  qed
  show "visit_inv ps (seen @ [a]) todo (ddel a np) ch" if "dget ch a = None"
  proof -
    have "?cs = []" using ch that by (simp add: dget_def_val_def)
    then have w': "waiting ps ?B x = waiting ps ?A x" for x using w [of x] by simp
    have "counted ps ?B (ddel a np) ch" using c a w' by (auto simp: counted_def)
    with ds pf' td a w' show ?thesis unfolding visit_inv_def by auto
  qed
  show "\<exists>np' more. knock_down cs (ddel a np) = Ok (np', more)
      \<and> visit_inv ps (seen @ [a]) (todo @ more) np' (ddel a ch)" if "dget ch a = Some cs"
  proof -
    have cs: "cs = ?cs" using ch that by (simp add: dget_def_val_def)
    have g: "dget (ddel a np) x = Some (waiting ps ?A x)" if "x \<in> elements ps - ?B" for x
      using that c by (auto simp: counted_def)
    have "\<exists>n. dget (ddel a np) x = Some n \<and> int (count_list cs x) \<le> n" if "x \<in> set cs" for x
      using g [OF el] that w [of x] nn [of x] cs by auto
    from knock_down_ok [OF ok this] obtain np' more where
      k: "knock_down cs (ddel a np) = Ok (np', more)" "dict_ok np'" "set (dkeys np') = set (dkeys (ddel a np))"
        "\<And>x n. dget (ddel a np) x = Some n \<Longrightarrow> dget np' x = Some (n - int (count_list cs x))"
        "distinct more" "set more = {x \<in> set cs. dget (ddel a np) x = Some (int (count_list cs x))}"
      by metis
    have cnt: "counted ps ?B np' (ddel a ch)"
      unfolding counted_def
    proof (intro conjI ballI allI impI)
      show "set (dkeys np') = elements ps - ?B" using k(3) c by (auto simp: counted_def)
      show "dget np' x = Some (waiting ps ?B x)" if "x \<in> elements ps - ?B" for x
        using k(4) [OF g [OF that]] w [of x] cs by simp
      show "dget_def_val (ddel a ch) p [] = map snd (filter (\<lambda>pc. fst pc = p) ps)" if "p \<notin> ?B" for p
        using that c by (simp add: counted_def dget_def_val_def)
    qed (rule k(2))
    have more: "set more = {x \<in> set cs. waiting ps ?B x = 0}"
    proof -
      have "dget (ddel a np) x = Some (int (count_list cs x)) \<longleftrightarrow> waiting ps ?B x = 0" if "x \<in> set cs" for x
      proof -
        have "dget (ddel a np) x = Some (waiting ps ?A x)" using that cs by (intro g el) simp
        then show ?thesis using w [of x] cs by simp
      qed
      then show ?thesis using k(6) by blast
    qed
    have new: "x \<notin> set todo" if "x \<in> set more" for x
    proof -
      from that more cs have "x \<in> set ?cs" "waiting ps ?B x = 0" by auto
      then have "count_list ?cs x \<noteq> 0" by (simp only: count_list_0_iff) simp
      with w [of x] nn [of x] have "waiting ps ?A x \<noteq> 0" by linarith
      with td show ?thesis by auto
    qed
    have "set (todo @ more) = {x \<in> elements ps - ?B. waiting ps ?B x = 0}"
    proof (intro set_eqI iffI)
      fix x assume "x \<in> set (todo @ more)"
      then consider "x \<in> set todo" | "x \<in> set more" by auto
      then show "x \<in> {x \<in> elements ps - ?B. waiting ps ?B x = 0}"
      proof cases
        case 1
        with td ds(2) have "x \<in> elements ps - ?A" "waiting ps ?A x = 0" "x \<noteq> a" by auto
        with w [of x] nn [of x] show ?thesis by auto
      next
        case 2
        with more cs have "x \<in> set ?cs" "waiting ps ?B x = 0" by simp_all
        with el [of x] show ?thesis by blast
      qed
    next
      fix x assume x: "x \<in> {x \<in> elements ps - ?B. waiting ps ?B x = 0}"
      show "x \<in> set (todo @ more)"
      proof (cases "x \<in> set ?cs")
        case True
        then have "x \<in> set more" using x more cs by blast
        then show ?thesis by simp
      next
        case False
        then have "waiting ps ?A x = 0" using w [of x] x by (simp add: count_list_0_iff)
        with x have "x \<in> set (a # todo)" using td by auto
        with x show ?thesis by auto
      qed
    qed
    moreover have "distinct (todo @ more)" using ds k(5) new by auto
    ultimately have "visit_inv ps (seen @ [a]) (todo @ more) np' (ddel a ch)"
      using cnt ds pf' a unfolding visit_inv_def by auto
    with k(1) show ?thesis by blast
  qed
qed

lemma visit_ok:
  "visit_inv ps seen todo np ch \<Longrightarrow>
     \<exists>answer left ch'. visit seen todo np ch = Ok (answer, left) \<and> visit_inv ps answer [] left ch'"
proof (induction seen todo np ch rule: visit.induct)
  case (1 seen todo np ch)
  show ?case
  proof (cases todo)
    case Nil
    then show ?thesis using "1.prems" by (subst visit.simps) auto
  next
    case (Cons a rest)
    note step = visit_step [OF "1.prems" [unfolded Cons]]
    show ?thesis
    proof (cases "dget ch a")
      case None
      from "1.IH"(1) [OF Cons step(1) refl None step(2) [OF None]] None step(1) Cons
      show ?thesis by (subst visit.simps) auto
    next
      case (Some cs)
      obtain np' more where k: "knock_down cs (ddel a np) = Ok (np', more)"
        and i: "visit_inv ps (seen @ [a]) (rest @ more) np' (ddel a ch)"
        using step(3) [OF Some] by blast
      from "1.IH"(2) [OF Cons step(1) refl Some k refl i] Some step(1) Cons k
      show ?thesis by (subst visit.simps) auto
    qed
  qed
qed

lemma initial_inv:
  assumes "counted ps {} np ch"
  shows "visit_inv ps [] (initial_answer np) np ch"
proof -
  have "distinct (dkeys np)" using assms by (simp add: counted_def dict_ok_def dkeys_def)
  then have "distinct (initial_answer np)" by (simp add: initial_answer_def)
  moreover have "set (initial_answer np) = {x \<in> elements ps. waiting ps {} x = 0}"
    using assms by (auto simp: initial_answer_def counted_def)
  ultimately show ?thesis using assms unfolding visit_inv_def by simp
qed

subsection \<open>Topological sorting\<close>

lemma finite_elements: "finite (elements ps)"
  by (simp add: elements_def)

text \<open>A nonempty finite set in which everybody has a parent has a cycle.\<close>

lemma all_have_parents_cyclic:
  assumes "finite S" "S \<noteq> {}" "\<And>x. x \<in> S \<Longrightarrow> \<exists>p \<in> S. (p, x) \<in> R"
  shows "\<not> acyclic R"
proof
  assume "acyclic R"
  then have "acyclic (R \<inter> S \<times> S)" by (rule acyclic_subset) auto
  moreover have "finite (R \<inter> S \<times> S)" using assms(1) by (simp add: finite_subset)
  ultimately have "wf (R \<inter> S \<times> S)" by (simp add: finite_acyclic_wf)
  with assms(2) obtain x where "x \<in> S" "\<And>y. (y, x) \<in> R \<inter> S \<times> S \<Longrightarrow> y \<notin> S"
    by (metis wfE_min ex_in_conv)
  with assms(3) show False by blast
qed

lemma parents_first_acyclic:
  assumes "parents_first R xs" "distinct xs" "\<And>p c. (p, c) \<in> R \<Longrightarrow> c \<in> set xs"
  shows "acyclic R"
proof -
  have "R \<subseteq> {(p, c). \<exists>ys zs. xs = ys @ c # zs \<and> p \<in> set ys}"
  proof clarsimp
    fix p c assume r: "(p, c) \<in> R"
    from split_list [OF assms(3) [OF r]] obtain ys zs where x: "xs = ys @ c # zs" by blast
    with assms(1) r have "p \<in> set ys" unfolding parents_first_def by blast
    with x show "\<exists>ys. (\<exists>zs. xs = ys @ c # zs) \<and> p \<in> set ys" by blast
  qed
  moreover have "acyclic {(p, c). \<exists>ys zs. xs = ys @ c # zs \<and> p \<in> set ys}" (is "acyclic ?L")
  proof (rule acyclicI_order [of ?L "\<lambda>x. - int (THE i. i < length xs \<and> xs ! i = x)"])
    fix a b
    assume "(a, b) \<in> ?L"
    then obtain ys zs where x: "xs = ys @ b # zs" "a \<in> set ys" by auto
    then obtain i where i: "i < length ys" "ys ! i = a" by (metis in_set_conv_nth)
    have at: "(THE j. j < length xs \<and> xs ! j = xs ! k) = k" if "k < length xs" for k
      using that assms(2) by (intro the_equality) (auto simp: nth_eq_iff_index_eq)
    have "xs ! i = a" "xs ! length ys = b" using x i by (simp_all add: nth_append)
    moreover have "i < length xs" "length ys < length xs" using x i by auto
    ultimately have "(THE i. i < length xs \<and> xs ! i = a) < (THE i. i < length xs \<and> xs ! i = b)"
      using at i(1) by metis
    then show "- int (THE i. i < length xs \<and> xs ! i = b) < - int (THE i. i < length xs \<and> xs ! i = a)" by simp
  qed
  ultimately show ?thesis by (rule acyclic_subset [rotated])
qed

lemma topsort_total:
  "topsort ps = Raise CycleError \<and> \<not> acyclic (set ps)
   \<or> (\<exists>xs. topsort ps = Ok xs \<and> acyclic (set ps) \<and> distinct xs \<and> set xs = elements ps \<and> parents_first (set ps) xs)"
proof -
  define np where "np = fst (count_pairs ps ([], []))"
  define ch where "ch = snd (count_pairs ps ([], []))"
  have cp: "count_pairs ps ([], []) = (np, ch)" by (simp add: np_def ch_def)
  have "counted [] {} [] ([] :: ('a, 'a list) dict)" by (simp add: counted_def dkeys_def dget_def_val_def)
  from count_pairs_ok [OF this, of ps] have "counted ps {} np ch" by (simp add: np_def ch_def)
  from visit_ok [OF initial_inv [OF this]] obtain answer left ch' where
    v: "visit [] (initial_answer np) np ch = Ok (answer, left)" and i: "visit_inv ps answer [] left ch'"
    by blast
  have ts: "topsort ps = (if left \<noteq> [] then Raise CycleError else Ok answer)"
    by (simp add: topsort_def cp v)
  have keys: "set (dkeys left) = elements ps - set answer" and sub: "set answer \<subseteq> elements ps"
    and d: "distinct answer" and pf: "parents_first (set ps) answer"
    and w: "\<And>x. x \<in> elements ps - set answer \<Longrightarrow> waiting ps (set answer) x \<noteq> 0"
    using i unfolding visit_inv_def counted_def by auto
  show ?thesis
  proof (cases "left = []")
    case True
    then have s: "set answer = elements ps" using keys sub by (auto simp: dkeys_def)
    have "acyclic (set ps)"
      using s by (intro parents_first_acyclic [OF pf d]) (force simp: elements_def)
    with True ts s d pf show ?thesis by auto
  next
    case False
    then have "set (dkeys left) \<noteq> {}" by (auto simp: dkeys_def)
    then have ne: "elements ps - set answer \<noteq> {}" using keys by simp
    have "\<not> acyclic (set ps)"
    proof (rule all_have_parents_cyclic [OF _ ne])
      show "finite (elements ps - set answer)" by (simp add: finite_elements)
      fix x assume "x \<in> elements ps - set answer"
      with w obtain p where "(p, x) \<in> set ps" "p \<notin> set answer" by (auto simp: waiting_zero)
      then show "\<exists>p \<in> elements ps - set answer. (p, x) \<in> set ps" by (force simp: elements_def)
    qed
    with False ts show ?thesis by simp
  qed
qed

lemma topsort_sound:
  assumes "topsort ps = Ok xs"
  shows "acyclic (set ps)" "distinct xs" "set xs = elements ps" "parents_first (set ps) xs"
  using topsort_total [of ps] assms by auto

text \<open>
  (topsort_spec): The result of topsort has every element of the pairs exactly once and every
  parent before its children; there is a result exactly when the pairs have no cycle, and
  CycleError is raised otherwise. No KeyError can come out of its loops.
\<close>

theorem topsort_spec:
  "(topsort ps = Raise CycleError \<longleftrightarrow> \<not> acyclic (set ps))
   \<and> (\<forall>xs. topsort ps = Ok xs \<longrightarrow>
        distinct xs \<and> set xs = elements ps
        \<and> (\<forall>ys c zs p. xs = ys @ c # zs \<and> (p, c) \<in> set ps \<longrightarrow> p \<in> set ys))
   \<and> (acyclic (set ps) \<longrightarrow> is_ok (topsort ps))"
  using topsort_total [of ps] unfolding parents_first_def by auto

theorem topsort_spec_witness:
  "(\<exists>xs. topsort [(1 :: nat, 2), (1, 3), (2, 4), (3, 4)] = Ok xs \<and> set xs = {1, 2, 3, 4})
   \<and> topsort [(1 :: nat, 2), (2, 3), (3, 2)] = Raise CycleError"
proof -
  have t: "topsort [(1 :: nat, 2), (1, 3), (2, 4), (3, 4)] = Ok [1, 2, 3, 4]"
    by (simp add: topsort_def count_pair_def initial_answer_def visit.simps dkeys_def dget_def_val_def)
  have "(1 :: nat, 2) \<in> set [(1, 2), (2, 3), (3, 2)]" by simp
  have "\<not> acyclic (set [(1 :: nat, 2), (2, 3), (3, 2)])"
    unfolding acyclic_def by (simp, rule exI [of _ 2], rule trancl_trans [of _ 3]) auto
  with topsort_spec [of "[(1 :: nat, 2), (2, 3), (3, 2)]"]
    topsort_spec [of "[(1 :: nat, 2), (1, 3), (2, 4), (3, 4)]"] t
  show ?thesis by (auto simp: elements_def)
qed

end
