(* ===== verification/Rights.thy ===== *)
theory Rights
  imports Topsort Py_Strings
begin

section \<open>Rights of models\<close>

text \<open>
  \<open>satori.core.sec.rights\<close>: every model declares its rights, which other rights (on the same
  object, on its parent, or global) give them, and \<open>init\<close> turns the declarations into a
  condition for the database per model and right.
  \<^item> \<open>options\<close>: \<open>RightsOptions\<close>. A model is known by its name; \<open>options_of\<close> is the attribute
    \<open>_rights_meta\<close> of a model, the registry the list \<open>all_options\<close>. An attribute that is not
    set before \<open>process\<close> ran is \<open>None\<close>.
  \<^item> \<open>django_model\<close>: what the source reads of \<open>_meta\<close>: the fields with the model they refer to and
    whether they may be null, and the parents with the name of the reverse relation and the
    column of the link.
  \<^item> \<open>meta_val\<close>: the attributes of a \<open>RightsMeta\<close> class. A value of the wrong kind (a list in
    place of a name or the other way round) is a \<open>TypeError\<close> at once.
  \<^item> The recursion of \<open>get_rights_node\<close> and its helpers has the number of frames left as an argument;
    without any left it raises what Python raises.
\<close>

datatype meta_val = Name string | Names "string list"

record model_field =
  field_name :: string
  related_model :: string
  nullable :: bool

record django_model =
  all_fields :: "model_field list"
  all_parents :: "(string, string \<times> string) dict"

datatype satori_node =
    Connect "satori_node list" string
  | Right "string list" string bool bool
  | PreparedRight string string string
  | GlobalRight string
  | IsNull "string list" bool bool
  | PreparedIsNull string string bool

record options =
  model :: string
  meta :: "(string, meta_val) dict"
  bases :: "string list"
  child_models :: "(string, string) dict"
  id_column :: string
  rights_of :: "string list option"
  inherit :: "(string, string list) dict"
  inherit_parent :: "(string, string list) dict"
  inherit_global :: "(string, string list) dict"
  inherit_field :: "string option"
  inherit_model :: "string option"
  inherit_field_nullable :: bool
  inherit_parent_require :: "string option"
  local_inherit :: "(string, string list) dict"
  local_inherit_parent :: "(string, string list) dict"
  local_inherit_global :: "(string, string list) dict"
  nodes :: "(string, satori_node) dict"

type_synonym registry = "options list"

definition options_of :: "registry \<Rightarrow> string \<Rightarrow> options outcome" where
  "options_of reg m = (case find (\<lambda>ro. model ro = m) reg of Some ro \<Rightarrow> Ok ro | None \<Rightarrow> Raise (AttributeError ''_rights_meta''))"

definition store_options :: "registry \<Rightarrow> options \<Rightarrow> registry" where
  "store_options reg ro = map (\<lambda>x. if model x = model ro then ro else x) reg"

definition get_rights :: "options \<Rightarrow> string list outcome" where
  "get_rights ro = (case rights_of ro of Some rs \<Rightarrow> Ok rs | None \<Rightarrow> Raise (AttributeError ''rights''))"

definition dict_get :: "('k, 'v) dict \<Rightarrow> 'k \<Rightarrow> 'v outcome" where
  "dict_get d k = (case dget d k of Some v \<Rightarrow> Ok v | None \<Rightarrow> Raise KeyError)"

subsection \<open>Declarations\<close>

definition plain_options :: "string \<Rightarrow> (string, meta_val) dict \<Rightarrow> string list \<Rightarrow> options" where
  "plain_options m mt bs = \<lparr>model = m, meta = mt, bases = bs, child_models = [], id_column = ''id'',
     rights_of = None, inherit = [], inherit_parent = [], inherit_global = [], inherit_field = None,
     inherit_model = None, inherit_field_nullable = False, inherit_parent_require = None,
     local_inherit = [], local_inherit_parent = [], local_inherit_global = [], nodes = []\<rparr>"

definition but_last_three :: "string \<Rightarrow> string" where
  "but_last_three s = take (length s - 3) s"

definition link_parent :: "string \<Rightarrow> string \<times> string \<times> string \<Rightarrow> registry \<Rightarrow> unit outcome \<times> registry" where
  "link_parent m p reg =
     (let (parent, query_name, attname) = p;
          reg' = map (\<lambda>ro. if model ro = m then ro\<lparr>id_column := but_last_three attname\<rparr> else ro) reg
      in case options_of reg' parent of
           Raise e \<Rightarrow> (Raise e, reg')
         | Ok po \<Rightarrow> (Ok (), store_options reg' (po\<lparr>child_models := dset m query_name (child_models po)\<rparr>)))"

definition rights_init :: "string \<Rightarrow> (string, meta_val) dict \<Rightarrow> string list \<Rightarrow> django_model \<Rightarrow> registry
    \<Rightarrow> unit outcome \<times> registry" where
  "rights_init m mt bs dm reg = for_each (link_parent m) (all_parents dm) (reg @ [plain_options m mt bs])"

fun names_of :: "meta_val option \<Rightarrow> string list outcome" where
  "names_of None = Ok []"
| "names_of (Some (Names ns)) = Ok ns"
| "names_of (Some (Name _)) = Raise TypeError"

fun name_of :: "meta_val option \<Rightarrow> string option outcome" where
  "name_of None = Ok None"
| "name_of (Some (Name n)) = Ok (if n = [] then None else Some n)"
| "name_of (Some (Names _)) = Raise TypeError"

definition to_set :: "'a list \<Rightarrow> 'a list" where
  "to_set xs = sunion [] xs"

text \<open>The pairs (giving right, given right) of a dict \<open>inherit\<close>.\<close>

definition pairs_of :: "string \<Rightarrow> string list \<Rightarrow> (string \<times> string) list" where
  "pairs_of right inh = map (\<lambda>s. (s, right)) (filter (\<lambda>s. s \<noteq> right) inh)"

text \<open>The loops that close \<open>inherit\<close>: one right, then all of them in topological order.\<close>

type_synonym rights_dict = "(string, string list) dict"

definition absorb :: "string \<Rightarrow> string \<Rightarrow> rights_dict \<Rightarrow> rights_dict outcome" where
  "absorb right second d =
     bind_ok (dict_get d right) (\<lambda>own. bind_ok (dict_get d second) (\<lambda>other. Ok (dset right (sunion own other) d)))"

fun absorb_all :: "string \<Rightarrow> string list \<Rightarrow> rights_dict \<times> rights_dict \<times> rights_dict
    \<Rightarrow> (rights_dict \<times> rights_dict \<times> rights_dict) outcome" where
  "absorb_all right [] ipg = Ok ipg"
| "absorb_all right (second # rest) (i, p, g) =
     bind_ok (absorb right second i) (\<lambda>i'.
     bind_ok (absorb right second p) (\<lambda>p'.
     bind_ok (absorb right second g) (\<lambda>g'. absorb_all right rest (i', p', g'))))"

fun close_rights :: "string list \<Rightarrow> rights_dict \<times> rights_dict \<times> rights_dict
    \<Rightarrow> (rights_dict \<times> rights_dict \<times> rights_dict) outcome" where
  "close_rights [] ipg = Ok ipg"
| "close_rights (right # rest) ipg =
     bind_ok (dict_get (fst ipg) right) (\<lambda>given.
     bind_ok (absorb_all right given ipg) (close_rights rest))"

subsection \<open>\<open>preprocess\<close>\<close>

fun pre_declared :: "(string, meta_val) dict \<Rightarrow> string list \<Rightarrow> rights_dict \<times> (string \<times> string) list
    \<Rightarrow> (rights_dict \<times> (string \<times> string) list) outcome" where
  "pre_declared mt [] st = Ok st"
| "pre_declared mt (right # rest) (inh, prs) =
     bind_ok (names_of (dget mt (''inherit_'' @ right))) (\<lambda>ns.
       let given = to_set (right # ns) in
       pre_declared mt rest (dset right given inh, prs @ pairs_of right given))"

fun pre_absorb :: "string \<Rightarrow> string list \<Rightarrow> rights_dict \<Rightarrow> rights_dict outcome" where
  "pre_absorb right [] i = Ok i"
| "pre_absorb right (second # rest) i = bind_ok (absorb right second i) (pre_absorb right rest)"

fun pre_close :: "string list \<Rightarrow> rights_dict \<Rightarrow> rights_dict outcome" where
  "pre_close [] i = Ok i"
| "pre_close (right # rest) i =
     bind_ok (dict_get i right) (\<lambda>given. bind_ok (pre_absorb right given i) (pre_close rest))"

definition preprocess :: "options \<Rightarrow> options outcome" where
  "preprocess ro =
     bind_ok (names_of (dget (meta ro) ''rights'')) (\<lambda>rs.
       let rights = to_set rs in
       bind_ok (pre_declared (meta ro) rights ([], [])) (\<lambda>(inh, prs).
       bind_ok (topsort prs) (\<lambda>order.
       bind_ok (pre_close order inh) (\<lambda>inh'. Ok (ro\<lparr>rights_of := Some rights, inherit := inh'\<rparr>)))))"

subsection \<open>\<open>process\<close>\<close>

fun add_base_rights :: "options list \<Rightarrow> string list \<Rightarrow> string list outcome" where
  "add_base_rights [] rs = Ok rs"
| "add_base_rights (b # bs) rs = bind_ok (get_rights b) (\<lambda>rest. add_base_rights bs (sunion rs rest))"

text \<open>A setting that is given once, by the model or by one of its bases.\<close>

fun one_of_bases :: "(options \<Rightarrow> string option) \<Rightarrow> string \<Rightarrow> options list \<Rightarrow> string option \<Rightarrow> string option outcome" where
  "one_of_bases f msg [] cur = Ok cur"
| "one_of_bases f msg (b # bs) cur =
     (case f b of
        None \<Rightarrow> one_of_bases f msg bs cur
      | Some n \<Rightarrow> (case cur of Some _ \<Rightarrow> Raise (RuntimeError msg) | None \<Rightarrow> one_of_bases f msg bs (Some n)))"

definition find_parent :: "string \<Rightarrow> model_field list \<Rightarrow> (string \<times> bool) option" where
  "find_parent f fs = foldl (\<lambda>acc fd. if field_name fd = f then Some (related_model fd, nullable fd) else acc) None fs"

definition update_from :: "(options \<Rightarrow> rights_dict) \<Rightarrow> string \<Rightarrow> options list \<Rightarrow> string list \<Rightarrow> string list" where
  "update_from f right bs own = foldl (\<lambda>acc b. sunion acc (dget_def_val (f b) right [])) own bs"

definition minus_bases :: "(options \<Rightarrow> rights_dict) \<Rightarrow> string \<Rightarrow> options list \<Rightarrow> string list \<Rightarrow> string list" where
  "minus_bases f right bs own = foldl (\<lambda>acc b. sdiff acc (dget_def_val (f b) right [])) own bs"

text \<open>\<open>Global._rights_meta.inherit\<close>; while \<open>Global\<close> itself is processed this is the dict being filled.\<close>

definition global_inherit :: "registry \<Rightarrow> string \<Rightarrow> rights_dict \<Rightarrow> rights_dict outcome" where
  "global_inherit reg m inh = (if m = ''Global'' then Ok inh else map_ok inherit (options_of reg ''Global''))"

fun add_global :: "rights_dict outcome \<Rightarrow> string list \<Rightarrow> string list \<Rightarrow> string list outcome" where
  "add_global gi [] own = Ok own"
| "add_global gi (second # rest) own =
     bind_ok gi (\<lambda>d. bind_ok (dict_get d second) (\<lambda>x. add_global gi rest (sunion own x)))"

record declared =
  d_inherit :: rights_dict
  d_parent :: rights_dict
  d_global :: rights_dict
  d_pairs :: "(string \<times> string) list"
  d_meta :: "(string, meta_val) dict"

definition declare_right :: "registry \<Rightarrow> string \<Rightarrow> options list \<Rightarrow> string \<Rightarrow> declared \<Rightarrow> declared outcome" where
  "declare_right reg m bs right st =
     (let k1 = ''inherit_'' @ right; k2 = ''inherit_parent_'' @ right; k3 = ''inherit_global_'' @ right;
          m1 = ddel k1 (d_meta st); m2 = ddel k2 m1; m3 = ddel k3 m2 in
      bind_ok (names_of (dget (d_meta st) k1)) (\<lambda>n1.
      bind_ok (names_of (dget m1 k2)) (\<lambda>n2.
      bind_ok (names_of (dget m2 k3)) (\<lambda>n3.
        let own = to_set (right # n1); inh0 = dset right own (d_inherit st) in
        bind_ok (add_global (global_inherit reg m inh0) (to_set n3) (to_set n3)) (\<lambda>glob.
          let given = update_from inherit right bs own in
          Ok \<lparr>d_inherit = dset right given (d_inherit st),
              d_parent = dset right (update_from inherit_parent right bs (to_set n2)) (d_parent st),
              d_global = dset right (update_from inherit_global right bs glob) (d_global st),
              d_pairs = d_pairs st @ pairs_of right given,
              d_meta = m3\<rparr>)))))"

fun declare_rights :: "registry \<Rightarrow> string \<Rightarrow> options list \<Rightarrow> string list \<Rightarrow> declared \<Rightarrow> declared outcome" where
  "declare_rights reg m bs [] st = Ok st"
| "declare_rights reg m bs (right # rest) st =
     bind_ok (declare_right reg m bs right st) (declare_rights reg m bs rest)"

definition own_attributes :: "(string, meta_val) dict \<Rightarrow> (string, meta_val) dict" where
  "own_attributes mt = filter (\<lambda>(n, _). \<not> starts_with ''__'' n) mt"

fun local_rights :: "options list \<Rightarrow> string list \<Rightarrow> options \<Rightarrow> options outcome" where
  "local_rights bs [] ro = Ok ro"
| "local_rights bs (right # rest) ro =
     bind_ok (dict_get (inherit ro) right) (\<lambda>i.
     bind_ok (dict_get (inherit_parent ro) right) (\<lambda>p.
     bind_ok (dict_get (inherit_global ro) right) (\<lambda>g.
       let lp = minus_bases inherit_parent right bs p in
       if lp \<noteq> [] \<and> inherit_field ro = None
       then Raise (RuntimeError ''Cannot inherit rights from parent without parent specified'')
       else local_rights bs rest
         (ro\<lparr>local_inherit := dset right (minus_bases inherit right bs i) (local_inherit ro),
             local_inherit_parent := dset right lp (local_inherit_parent ro),
             local_inherit_global := dset right (minus_bases inherit_global right bs g) (local_inherit_global ro)\<rparr>))))"

definition process :: "django_model \<Rightarrow> registry \<Rightarrow> options \<Rightarrow> options outcome" where
  "process dm reg ro =
     bind_ok (map_outcome (options_of reg) (bases ro)) (\<lambda>bs.
     let mt = own_attributes (meta ro) in
     bind_ok (names_of (dget mt ''rights'')) (\<lambda>rs.
     bind_ok (add_base_rights bs (to_set rs)) (\<lambda>rights.
     let mt1 = ddel ''rights'' mt in
     bind_ok (name_of (dget mt1 ''inherit_parent'')) (\<lambda>own_field.
     bind_ok (one_of_bases inherit_field ''Cannot inherit rights from two parents'' bs own_field) (\<lambda>field.
     let mt2 = ddel ''inherit_parent'' mt1;
         found = (case field of None \<Rightarrow> None | Some f \<Rightarrow> find_parent f (all_fields dm)) in
     if field \<noteq> None \<and> found = None then Raise (RuntimeError ''Cannot find field to parent'') else
     bind_ok (name_of (dget mt2 ''inherit_parent_require'')) (\<lambda>own_require.
     bind_ok (one_of_bases inherit_parent_require ''Cannot require several rights from parent'' bs own_require) (\<lambda>require.
     let mt3 = ddel ''inherit_parent_require'' mt2 in
     if require \<noteq> None \<and> field = None
     then Raise (RuntimeError ''Cannot require rights from parent without parent specified'') else
     bind_ok (declare_rights reg (model ro) bs rights
         \<lparr>d_inherit = [], d_parent = [], d_global = [], d_pairs = [], d_meta = mt3\<rparr>) (\<lambda>st.
     bind_ok (topsort (d_pairs st)) (\<lambda>order.
     bind_ok (close_rights order (d_inherit st, d_parent st, d_global st)) (\<lambda>(i, p, g).
     bind_ok (local_rights bs rights
         (ro\<lparr>rights_of := Some rights, inherit_field := field, inherit_model := map_option fst found,
             inherit_field_nullable := (case found of Some (_, nl) \<Rightarrow> nl | None \<Rightarrow> inherit_field_nullable ro),
             inherit_parent_require := require, inherit := i, inherit_parent := p, inherit_global := g,
             local_inherit := [], local_inherit_parent := [], local_inherit_global := []\<rparr>)) (\<lambda>ro'.
     if d_meta st \<noteq> [] then Raise (RuntimeError (''Unknown parameters in RightsMeta: '' @ join '','' (dkeys (d_meta st))))
     else Ok ro')))))))))))"

subsection \<open>Conditions\<close>

definition connect :: "satori_node \<Rightarrow> satori_node \<Rightarrow> string \<Rightarrow> satori_node" where
  "connect first second connector =
     (case (first, second) of
        (Connect c1 k1, Connect c2 k2) \<Rightarrow>
          if k1 = connector \<and> k2 = connector then Connect (c1 @ c2) connector
          else if k1 = connector then Connect (c1 @ [second]) connector
          else if k2 = connector then Connect (first # c2) connector
          else Connect [first, second] connector
      | (Connect c1 k1, _) \<Rightarrow>
          if k1 = connector then Connect (c1 @ [second]) connector else Connect [first, second] connector
      | (_, Connect c2 k2) \<Rightarrow>
          if k2 = connector then Connect (first # c2) connector else Connect [first, second] connector
      | _ \<Rightarrow> Connect [first, second] connector)"

definition node_or :: "satori_node \<Rightarrow> satori_node \<Rightarrow> satori_node" where
  "node_or a b = connect a b ''OR''"

definition node_and :: "satori_node \<Rightarrow> satori_node \<Rightarrow> satori_node" where
  "node_and a b = connect a b ''AND''"

text \<open>\<open>prepare\<close>, with \<open>prepare_joins\<close> (Django's query) as a parameter, and \<open>as_sql\<close>.\<close>

fun prepare :: "(string list \<Rightarrow> bool \<Rightarrow> bool \<Rightarrow> string \<times> string) \<Rightarrow> satori_node \<Rightarrow> satori_node outcome" where
  "prepare joins (Connect cs k) = map_ok (\<lambda>cs'. Connect cs' k) (map_outcome (prepare joins) cs)"
| "prepare joins (Right fl r nl tr) = Ok (case joins fl nl tr of (t, c) \<Rightarrow> PreparedRight t c r)"
| "prepare joins (GlobalRight r) = Ok (GlobalRight r)"
| "prepare joins (IsNull fl v tr) = Ok (case joins fl True tr of (t, c) \<Rightarrow> PreparedIsNull t c v)"
| "prepare joins (PreparedRight _ _ _) = Raise (AttributeError ''prepare'')"
| "prepare joins (PreparedIsNull _ _ _) = Raise (AttributeError ''prepare'')"

fun as_sql :: "string \<Rightarrow> satori_node \<Rightarrow> string outcome" where
  "as_sql glob (Connect cs k) =
     (if cs \<noteq> [] then map_ok (\<lambda>ts. ''('' @ join ('' '' @ k @ '' '') ts @ '')'') (map_outcome (as_sql glob) cs)
      else Ok (if k = ''OR'' then ''FALSE'' else if k = ''AND'' then ''TRUE'' else ''()''))"
| "as_sql glob (PreparedRight t c r) =
     Ok (''EXISTS (SELECT * FROM user_privs WHERE user_privs.entity_id = '' @ t @ ''.'' @ c
       @ '' AND user_privs.right = '' @ [CHR 0x27] @ r @ [CHR 0x27] @ '')'')"
| "as_sql glob (GlobalRight r) =
     Ok (''EXISTS (SELECT * FROM user_privs WHERE user_privs.entity_id = '' @ glob
       @ '' AND user_privs.right = '' @ [CHR 0x27] @ r @ [CHR 0x27] @ '')'')"
| "as_sql glob (PreparedIsNull t c v) = Ok (t @ ''.'' @ c @ '' IS '' @ (if v then '''' else ''NOT'') @ '' NULL'')"
| "as_sql glob (Right _ _ _ _) = Raise (AttributeError ''as_sql'')"
| "as_sql glob (IsNull _ _ _) = Raise (AttributeError ''as_sql'')"

subsection \<open>From declarations to conditions\<close>

definition recursion_error :: exn where
  "recursion_error = RuntimeError ''maximum recursion depth exceeded''"

fun all_inherited :: "rights_dict \<Rightarrow> string list \<Rightarrow> string list outcome" where
  "all_inherited d [] = Ok []"
| "all_inherited d (r # rs) = bind_ok (dict_get d r) (\<lambda>x. map_ok (sunion x) (all_inherited d rs))"

text \<open>The three sets \<open>all_rights\<close>, \<open>all_parent_rights\<close> and \<open>all_global_rights\<close>, less those used.\<close>

definition inherited_sets :: "options \<Rightarrow> string list \<Rightarrow> string list \<Rightarrow> string list \<Rightarrow> string list
    \<Rightarrow> (string list \<times> string list \<times> string list) outcome" where
  "inherited_sets ro rights used used_parent used_global =
     bind_ok (all_inherited (inherit ro) rights) (\<lambda>a.
     bind_ok (all_inherited (inherit_parent ro) rights) (\<lambda>p.
     bind_ok (all_inherited (inherit_global ro) rights) (\<lambda>g.
       Ok (sdiff a used, sdiff p used_parent, sdiff g used_global))))"

definition parent_options :: "registry \<Rightarrow> options \<Rightarrow> options outcome" where
  "parent_options reg ro =
     (case inherit_model ro of Some m \<Rightarrow> options_of reg m | None \<Rightarrow> Raise (AttributeError ''_rights_meta''))"

definition require_or_null :: "options \<Rightarrow> string list \<Rightarrow> satori_node \<Rightarrow> satori_node" where
  "require_or_null ro path nd =
     (if inherit_field_nullable ro then node_or nd (IsNull path True True) else nd)"

definition own_nodes :: "string list \<Rightarrow> bool \<Rightarrow> bool \<Rightarrow> string list \<Rightarrow> string list \<Rightarrow> satori_node" where
  "own_nodes path nl tr rs gs =
     node_or (Connect (map (\<lambda>r. Right path r nl tr) rs) ''OR'') (Connect (map GlobalRight gs) ''OR'')"

fun for_children :: "registry \<Rightarrow> (options \<Rightarrow> string list \<Rightarrow> satori_node \<Rightarrow> satori_node outcome)
    \<Rightarrow> (string, string) dict \<Rightarrow> string list \<Rightarrow> satori_node \<Rightarrow> satori_node outcome" where
  "for_children reg step [] path node = Ok node"
| "for_children reg step ((c, query_name) # cs) path node =
     bind_ok (options_of reg c) (\<lambda>co.
     bind_ok (step co (path @ [query_name]) node) (for_children reg step cs path))"

function get_rights_node :: "registry \<Rightarrow> nat \<Rightarrow> options \<Rightarrow> string list \<Rightarrow> string list \<Rightarrow> bool
    \<Rightarrow> string list \<Rightarrow> string list \<Rightarrow> string list \<Rightarrow> satori_node outcome"
  and add_local_rights_nodes :: "registry \<Rightarrow> nat \<Rightarrow> options \<Rightarrow> string list \<Rightarrow> string list
    \<Rightarrow> string list \<Rightarrow> string list \<Rightarrow> string list \<Rightarrow> satori_node \<Rightarrow> satori_node outcome"
  and add_local_require_nodes :: "registry \<Rightarrow> nat \<Rightarrow> options \<Rightarrow> string list \<Rightarrow> satori_node \<Rightarrow> satori_node outcome"
where
  "get_rights_node reg 0 ro rights path nl used used_parent used_global = Raise recursion_error"
| "get_rights_node reg (Suc n) ro rights path nl used used_parent used_global =
     bind_ok (inherited_sets ro rights used used_parent used_global) (\<lambda>(rs, ps, gs).
     let local0 = own_nodes (if path = [] then [''id''] else path) nl True rs gs in
     bind_ok (case inherit_field ro of
         Some f \<Rightarrow>
           if ps \<noteq> [] then
             bind_ok (parent_options reg ro) (\<lambda>po. map_ok (node_or local0)
               (get_rights_node reg n po ps (path @ [f]) (nl \<or> inherit_field_nullable ro) [] [] (sunion used_global gs)))
           else Ok local0
       | None \<Rightarrow> Ok local0) (\<lambda>local1.
     bind_ok (for_children reg (\<lambda>co p. add_local_rights_nodes reg n co rights p
         (sunion used rs) (sunion used_parent ps) (sunion used_global gs)) (child_models ro) path local1) (\<lambda>local2.
     case inherit_parent_require ro of
       Some q \<Rightarrow>
         bind_ok (parent_options reg ro) (\<lambda>po.
         (case inherit_field ro of
            None \<Rightarrow> Raise TypeError
          | Some f \<Rightarrow> map_ok (\<lambda>req. node_and local2 (require_or_null ro (path @ [f]) req))
              (get_rights_node reg n po [q] (path @ [f]) (nl \<or> inherit_field_nullable ro) [] [] [])))
     | None \<Rightarrow> for_children reg (\<lambda>co p. add_local_require_nodes reg n co p) (child_models ro) path local2)))"
| "add_local_rights_nodes reg 0 ro rights path used used_parent used_global node = Raise recursion_error"
| "add_local_rights_nodes reg (Suc n) ro rights path used used_parent used_global node =
     bind_ok (inherited_sets ro rights used used_parent used_global) (\<lambda>(rs, ps, gs).
     bind_ok (if rs \<noteq> [] \<or> ps \<noteq> [] \<or> gs \<noteq> [] then
         (let local0 = own_nodes path True False rs gs in
          bind_ok (case inherit_field ro of
              Some f \<Rightarrow>
                if ps \<noteq> [] then
                  bind_ok (parent_options reg ro) (\<lambda>po. map_ok (node_or local0)
                    (get_rights_node reg n po ps (path @ [f]) True used_parent [] (sunion used_global gs)))
                else Ok local0
            | None \<Rightarrow> Ok local0) (\<lambda>local1.
          Ok (node_or node (node_and (IsNull path False False) local1))))
       else Ok node) (\<lambda>node1.
     for_children reg (\<lambda>co p. add_local_rights_nodes reg n co rights p
       (sunion used rs) (sunion used_parent ps) (sunion used_global gs)) (child_models ro) path node1))"
| "add_local_require_nodes reg 0 ro path node = Raise recursion_error"
| "add_local_require_nodes reg (Suc n) ro path node =
     (case inherit_parent_require ro of
        Some q \<Rightarrow>
          bind_ok (parent_options reg ro) (\<lambda>po.
          (case inherit_field ro of
             None \<Rightarrow> Raise TypeError
           | Some f \<Rightarrow> map_ok (\<lambda>req. node_and node
                 (require_or_null ro (path @ [f]) (node_or (IsNull path True False) req)))
               (get_rights_node reg n po [q] (path @ [f]) True [] [] [])))
      | None \<Rightarrow> for_children reg (\<lambda>co p. add_local_require_nodes reg n co p) (child_models ro) path node)"
  by pat_completeness auto
termination
  by (relation "measure (case_sum (\<lambda>(_, n, _). n) (case_sum (\<lambda>(_, n, _). n) (\<lambda>(_, n, _). n)))") auto

fun nodes_for :: "registry \<Rightarrow> nat \<Rightarrow> options \<Rightarrow> string list \<Rightarrow> (string, satori_node) dict \<Rightarrow> (string, satori_node) dict outcome" where
  "nodes_for reg depth ro [] d = Ok d"
| "nodes_for reg depth ro (r # rs) d =
     bind_ok (get_rights_node reg depth ro [r] [] False [] [] []) (\<lambda>nd. nodes_for reg depth ro rs (dset r nd d))"

definition create_nodes :: "registry \<Rightarrow> nat \<Rightarrow> options \<Rightarrow> options outcome" where
  "create_nodes reg depth ro =
     bind_ok (get_rights ro) (\<lambda>rs. map_ok (\<lambda>d. ro\<lparr>nodes := d\<rparr>) (nodes_for reg depth ro rs []))"

subsection \<open>\<open>init\<close>\<close>

definition model_pairs :: "(string \<Rightarrow> django_model) \<Rightarrow> options \<Rightarrow> (string option \<times> string option) list" where
  "model_pairs dj ro = (None, Some (model ro)) # map (\<lambda>(p, _). (Some p, Some (model ro))) (all_parents (dj (model ro)))"

fun process_all :: "(string \<Rightarrow> django_model) \<Rightarrow> string option list \<Rightarrow> registry \<Rightarrow> registry outcome" where
  "process_all dj [] reg = Ok reg"
| "process_all dj (None # ms) reg = Raise (AttributeError ''process'')"
| "process_all dj (Some m # ms) reg =
     bind_ok (options_of reg m) (\<lambda>ro. bind_ok (process (dj m) reg ro) (\<lambda>ro'. process_all dj ms (store_options reg ro')))"

fun create_all :: "nat \<Rightarrow> string list \<Rightarrow> registry \<Rightarrow> registry outcome" where
  "create_all depth [] reg = Ok reg"
| "create_all depth (m # ms) reg =
     bind_ok (options_of reg m) (\<lambda>ro. bind_ok (create_nodes reg depth ro) (\<lambda>ro'. create_all depth ms (store_options reg ro')))"

definition rights_setup :: "(string \<Rightarrow> django_model) \<Rightarrow> nat \<Rightarrow> registry \<Rightarrow> registry outcome" where
  "rights_setup dj depth reg =
     bind_ok (options_of reg ''Global'') (\<lambda>go.
     bind_ok (preprocess go) (\<lambda>go'.
     let reg1 = store_options reg go' in
     bind_ok (topsort (concat (map (model_pairs dj) reg1))) (\<lambda>order.
     bind_ok (process_all dj (drop 1 order) reg1) (\<lambda>reg2.
     create_all depth (map model reg2) reg2))))"

end
