(* ===== verification/Rights_Closure.thy ===== *)
theory Rights_Closure
  imports Rights
begin

section \<open>The rights that give a right\<close>

text \<open>
  \<open>process\<close> closes the declared inheritance of rights under transitivity. The loop goes over the
  rights in topological order and takes the sets of the rights it has handled before, so one pass
  is enough: the sets it ends with are the reflexive transitive closure of the declarations
  (\<open>close_rights_closure\<close>), and what a right inherits of the parent and of the global rights is
  collected along it.
\<close>

abbreviation rights_in :: "rights_dict \<Rightarrow> string \<Rightarrow> string set" where
  "rights_in d r \<equiv> set (dget_def_val d r [])"

lemma absorb_eq:
  "absorb right second d = Ok d' \<longleftrightarrow>
     (\<exists>own other. dget d right = Some own \<and> dget d second = Some other \<and> d' = dset right (sunion own other) d)"
  by (auto simp: absorb_def bind_ok_eq_Ok dict_get_def split: option.splits)

lemma dget_def_val_dset: "dget_def_val (dset k v d) x w = (if x = k then v else dget_def_val d x w)"
  by (simp add: dget_def_val_def)

lemma dget_def_val_Some: "dget d k = Some v \<Longrightarrow> dget_def_val d k w = v"
  by (simp add: dget_def_val_def)

lemma absorb_rights:
  "absorb right second d = Ok d' \<Longrightarrow>
     rights_in d' x = (if x = right then rights_in d right \<union> rights_in d second else rights_in d x)"
  unfolding absorb_eq by (elim exE conjE) (simp add: dget_def_val_dset dget_def_val_Some)

lemma absorb_all_result:
  assumes "absorb_all right grants (i, p, g) = Ok (i', p', g')"
  shows "rights_in i' x = (if x = right then rights_in i right \<union> (\<Union>s \<in> set grants. rights_in i s) else rights_in i x)
    \<and> rights_in p' x = (if x = right then rights_in p right \<union> (\<Union>s \<in> set grants. rights_in p s) else rights_in p x)
    \<and> rights_in g' x = (if x = right then rights_in g right \<union> (\<Union>s \<in> set grants. rights_in g s) else rights_in g x)"
  using assms
proof (induction grants arbitrary: i p g)
  case (Cons s grants)
  then obtain i1 p1 g1 where a: "absorb right s i = Ok i1" "absorb right s p = Ok p1" "absorb right s g = Ok g1"
    and rest: "absorb_all right grants (i1, p1, g1) = Ok (i', p', g')"
    by (auto simp: bind_ok_eq_Ok)
  note 1 = absorb_rights [OF a(1)] absorb_rights [OF a(2)] absorb_rights [OF a(3)]
  have "(\<Union>t \<in> set grants. rights_in i1 t) \<union> rights_in i1 right = (\<Union>t \<in> set (s # grants). rights_in i t) \<union> rights_in i right"
    "(\<Union>t \<in> set grants. rights_in p1 t) \<union> rights_in p1 right = (\<Union>t \<in> set (s # grants). rights_in p t) \<union> rights_in p right"
    "(\<Union>t \<in> set grants. rights_in g1 t) \<union> rights_in g1 right = (\<Union>t \<in> set (s # grants). rights_in g t) \<union> rights_in g right"
    unfolding 1 by (auto split: if_splits)
  with Cons.IH [OF rest] 1 show ?case by (auto simp: Un_commute)
qed simp

text \<open>What is declared: a right gives another, directly.\<close>

definition gives :: "rights_dict \<Rightarrow> (string \<times> string) set" where
  "gives d = {(r, s). s \<in> rights_in d r}"

definition collected :: "rights_dict \<Rightarrow> rights_dict \<Rightarrow> string \<Rightarrow> string set" where
  "collected d p r = (\<Union>s \<in> (gives d)\<^sup>* `` {r}. rights_in p s)"

lemma collected_step:
  assumes "x \<in> rights_in d x"
  shows "(gives d)\<^sup>* `` {x} = {x} \<union> (\<Union>s \<in> rights_in d x - {x}. (gives d)\<^sup>* `` {s})"
proof -
  let ?D = "gives d - Id"
  have D: "(gives d)\<^sup>* = ?D\<^sup>*" by (simp add: rtrancl_r_diff_Id)
  have "?D\<^sup>* `` {x} = {x} \<union> (\<Union>s \<in> ?D `` {x}. ?D\<^sup>* `` {s})"
    by (auto elim: converse_rtranclE intro: converse_rtrancl_into_rtrancl)
  moreover have "?D `` {x} = rights_in d x - {x}" by (auto simp: gives_def)
  ultimately show ?thesis unfolding D by simp
qed

text \<open>One pass over the rights, those that give a right before it.\<close>

lemma close_rights_pass:
  assumes "close_rights xs (i, p, g) = Ok (i', p', g')"
    and "distinct (ys @ xs)" and "\<And>x. x \<in> rights_in i0 x \<or> rights_in i0 x = {}"
    and "\<And>us x vs. xs = us @ x # vs \<Longrightarrow> rights_in i0 x - {x} \<subseteq> set ys \<union> set us"
    and "\<And>x. rights_in i x = (if x \<in> set ys then (gives i0)\<^sup>* `` {x} else rights_in i0 x)"
    and "\<And>x. rights_in p x = (if x \<in> set ys then collected i0 p0 x else rights_in p0 x)"
    and "\<And>x. rights_in g x = (if x \<in> set ys then collected i0 g0 x else rights_in g0 x)"
    and "\<And>x. x \<in> set xs \<Longrightarrow> x \<in> rights_in i0 x"
  shows "rights_in i' x = (if x \<in> set (ys @ xs) then (gives i0)\<^sup>* `` {x} else rights_in i0 x)
    \<and> rights_in p' x = (if x \<in> set (ys @ xs) then collected i0 p0 x else rights_in p0 x)
    \<and> rights_in g' x = (if x \<in> set (ys @ xs) then collected i0 g0 x else rights_in g0 x)"
  using assms
proof (induction xs arbitrary: i p g ys)
  case Nil
  then show ?case by simp
next
  case (Cons r xs)
  from Cons.prems(1) obtain giv ipg where giv: "dict_get i r = Ok giv"
    and ab: "absorb_all r giv (i, p, g) = Ok ipg" and rest: "close_rights xs ipg = Ok (i', p', g')"
    by (auto simp: bind_ok_eq_Ok)
  obtain i1 p1 g1 where ipg: "ipg = (i1, p1, g1)" by (cases ipg)
  note A = absorb_all_result [OF ab [unfolded ipg]]
  have r: "r \<notin> set ys" "r \<in> rights_in i0 r" using Cons.prems(2,8) by auto
  have "rights_in i r = set giv" using giv by (auto simp: dict_get_def dget_def_val_def split: option.splits)
  then have giv': "set giv = rights_in i0 r" using Cons.prems(5) r(1) by simp
  have before: "s \<in> set ys" if "s \<in> rights_in i0 r - {r}" for s
    using Cons.prems(4) [of "[]" r xs] that by auto
  have img: "(gives i0)\<^sup>* `` {r} = {r} \<union> (\<Union>s \<in> rights_in i0 r - {r}. (gives i0)\<^sup>* `` {s})"
    by (rule collected_step [OF r(2)])
  have split: "rights_in i0 r = insert r (rights_in i0 r - {r})" using r(2) by auto
  have i_step: "rights_in i r \<union> (\<Union>s \<in> set giv. rights_in i s) = (gives i0)\<^sup>* `` {r}"
  proof -
    have "(\<Union>s \<in> set giv. rights_in i s) = rights_in i r \<union> (\<Union>s \<in> rights_in i0 r - {r}. rights_in i s)"
      unfolding giv' by (subst split) auto
    also have "(\<Union>s \<in> rights_in i0 r - {r}. rights_in i s) = (\<Union>s \<in> rights_in i0 r - {r}. (gives i0)\<^sup>* `` {s})"
      using before Cons.prems(5) by (intro SUP_cong) auto
    finally have "rights_in i r \<union> (\<Union>s \<in> set giv. rights_in i s) = rights_in i0 r \<union> (\<Union>s \<in> rights_in i0 r - {r}. (gives i0)\<^sup>* `` {s})"
      using Cons.prems(5) r(1) by auto
    also have "\<dots> = (gives i0)\<^sup>* `` {r}" unfolding img using r(2) by auto
    finally show ?thesis .
  qed
  have c_step: "rights_in q r \<union> (\<Union>s \<in> set giv. rights_in q s) = collected i0 q0 r"
    if q: "\<And>x. rights_in q x = (if x \<in> set ys then collected i0 q0 x else rights_in q0 x)" for q q0
  proof -
    have "(\<Union>s \<in> set giv. rights_in q s) = rights_in q r \<union> (\<Union>s \<in> rights_in i0 r - {r}. rights_in q s)"
      unfolding giv' by (subst split) auto
    also have "(\<Union>s \<in> rights_in i0 r - {r}. rights_in q s) = (\<Union>s \<in> rights_in i0 r - {r}. collected i0 q0 s)"
      using before q by (intro SUP_cong) auto
    finally have "rights_in q r \<union> (\<Union>s \<in> set giv. rights_in q s) = rights_in q0 r \<union> (\<Union>s \<in> rights_in i0 r - {r}. collected i0 q0 s)"
      using q r(1) by auto
    also have "\<dots> = collected i0 q0 r" unfolding collected_def img by auto
    finally show ?thesis .
  qed
  have IH: "rights_in i' x = (if x \<in> set ((ys @ [r]) @ xs) then (gives i0)\<^sup>* `` {x} else rights_in i0 x)
    \<and> rights_in p' x = (if x \<in> set ((ys @ [r]) @ xs) then collected i0 p0 x else rights_in p0 x)
    \<and> rights_in g' x = (if x \<in> set ((ys @ [r]) @ xs) then collected i0 g0 x else rights_in g0 x)"
  proof (rule Cons.IH [OF rest [unfolded ipg]])
    show "distinct ((ys @ [r]) @ xs)" using Cons.prems(2) by simp
    show "rights_in i0 x - {x} \<subseteq> set (ys @ [r]) \<union> set us" if "xs = us @ x # vs" for us x vs
      using Cons.prems(4) [of "r # us" x vs] that by auto
    show "rights_in i1 x = (if x \<in> set (ys @ [r]) then (gives i0)\<^sup>* `` {x} else rights_in i0 x)" for x
    proof (cases "x = r")
      case True
      with A [of x] i_step show ?thesis by (simp only: if_True set_append list.set Un_iff insert_iff simp_thms)
    next
      case False
      with A [of x] Cons.prems(5) [of x] show ?thesis by simp
    qed
    show "rights_in p1 x = (if x \<in> set (ys @ [r]) then collected i0 p0 x else rights_in p0 x)" for x
    proof (cases "x = r")
      case True
      with A [of x] c_step [OF Cons.prems(6)] show ?thesis by (simp only: if_True set_append list.set Un_iff insert_iff simp_thms)
    next
      case False
      with A [of x] Cons.prems(6) [of x] show ?thesis by simp
    qed
    show "rights_in g1 x = (if x \<in> set (ys @ [r]) then collected i0 g0 x else rights_in g0 x)" for x
    proof (cases "x = r")
      case True
      with A [of x] c_step [OF Cons.prems(7)] show ?thesis by (simp only: if_True set_append list.set Un_iff insert_iff simp_thms)
    next
      case False
      with A [of x] Cons.prems(7) [of x] show ?thesis by simp
    qed
  qed (use Cons.prems in auto)
  then show ?case by simp
qed

lemma close_rights_closure:
  assumes "topsort prs = Ok order" and "close_rights order (i, p, g) = Ok (i', p', g')"
    and prs: "set prs = {(s, r). s \<in> rights_in i r \<and> s \<noteq> r}" and refl: "\<And>x. x \<in> set (dkeys i) \<Longrightarrow> x \<in> rights_in i x"
    and closed: "\<And>x. rights_in i x \<subseteq> set (dkeys i)"
    and r: "r \<in> set (dkeys i)"
  shows "rights_in i' r = (gives i)\<^sup>* `` {r}" "rights_in p' r = collected i p r" "rights_in g' r = collected i g r"
proof -
  note ts = topsort_sound [OF assms(1)]
  have none: "rights_in i x = {}" if "x \<notin> set (dkeys i)" for x
    using that by (simp add: dget_def_val_def dget_None_iff [symmetric])
  have pass: "rights_in i' x = (if x \<in> set ([] @ order) then (gives i)\<^sup>* `` {x} else rights_in i x)
    \<and> rights_in p' x = (if x \<in> set ([] @ order) then collected i p x else rights_in p x)
    \<and> rights_in g' x = (if x \<in> set ([] @ order) then collected i g x else rights_in g x)" for x
  proof (rule close_rights_pass [OF assms(2)])
    show "rights_in i x - {x} \<subseteq> set [] \<union> set us" if "order = us @ x # vs" for us x vs
      using ts(4) that prs unfolding parents_first_def by auto
    show "x \<in> rights_in i x" if "x \<in> set order" for x
    proof -
      from that ts(3) obtain a where "(a, x) \<in> set prs \<or> (x, a) \<in> set prs" by (force simp: elements_def)
      then have "x \<in> set (dkeys i)"
      proof
        assume "(a, x) \<in> set prs"
        then have "rights_in i x \<noteq> {}" using prs by auto
        then show ?thesis using none by blast
      next
        assume "(x, a) \<in> set prs"
        then show ?thesis using prs closed [of a] by auto
      qed
      then show ?thesis by (rule refl)
    qed
    show "x \<in> rights_in i x \<or> rights_in i x = {}" for x using refl none by blast
  qed (use ts(2) in auto)
  have alone: "(gives i)\<^sup>* `` {r} = {r}" "rights_in i r = {r}" if "r \<notin> set order"
  proof -
    from that ts(3) have "\<And>s. (s, r) \<notin> set prs" by (force simp: elements_def)
    then show 1: "rights_in i r = {r}" using prs refl [OF r] by auto
    show "(gives i)\<^sup>* `` {r} = {r}" using collected_step [OF refl [OF r]] 1 by simp
  qed
  show "rights_in i' r = (gives i)\<^sup>* `` {r}" using pass [of r] alone by (cases "r \<in> set order") simp_all
  show "rights_in p' r = collected i p r" using pass [of r] alone by (cases "r \<in> set order") (simp_all add: collected_def)
  show "rights_in g' r = collected i g r" using pass [of r] alone by (cases "r \<in> set order") (simp_all add: collected_def)
qed

subsection \<open>From the declarations\<close>

lemma set_update_from: "set (update_from f r bs own) = set own \<union> (\<Union>b \<in> set bs. rights_in (f b) r)"
  unfolding update_from_def by (induction bs arbitrary: own) auto

lemma set_to_set [simp]: "set (to_set xs) = set xs"
  by (simp add: to_set_def)

lemma set_pairs_of: "set (pairs_of r xs) = {(s, r) | s. s \<in> set xs \<and> s \<noteq> r}"
  by (auto simp: pairs_of_def)

definition declared_names :: "(string, meta_val) dict \<Rightarrow> string \<Rightarrow> string set" where
  "declared_names mt k = (case dget mt k of Some (Names ns) \<Rightarrow> set ns | _ \<Rightarrow> {})"

lemma names_of_declared: "names_of (dget mt k) = Ok ns \<Longrightarrow> set ns = declared_names mt k"
  unfolding declared_names_def by (cases "dget mt k" rule: names_of.cases) auto

lemma declare_right_result:
  assumes "declare_right reg m bs right st = Ok st'"
  shows "\<exists>n1 n2. names_of (dget (d_meta st) (''inherit_'' @ right)) = Ok n1
    \<and> names_of (dget (ddel (''inherit_'' @ right) (d_meta st)) (''inherit_parent_'' @ right)) = Ok n2
    \<and> d_inherit st' = dset right (update_from inherit right bs (to_set (right # n1))) (d_inherit st)
    \<and> d_parent st' = dset right (update_from inherit_parent right bs (to_set n2)) (d_parent st)
    \<and> d_pairs st' = d_pairs st @ pairs_of right (update_from inherit right bs (to_set (right # n1)))
    \<and> d_meta st' = ddel (''inherit_global_'' @ right) (ddel (''inherit_parent_'' @ right) (ddel (''inherit_'' @ right) (d_meta st)))"
  using assms unfolding declare_right_def Let_def bind_ok_eq_Ok by auto

definition plain_rights :: "string list \<Rightarrow> bool" where
  "plain_rights rs \<longleftrightarrow> (\<forall>r \<in> set rs. r \<noteq> ''parent'' \<and> r \<noteq> ''require'' \<and> \<not> prefix ''parent_'' r \<and> \<not> prefix ''global_'' r)"

lemma pairs_extend:
  "P = {(s, q). s \<in> I q \<and> s \<noteq> q} \<Longrightarrow> I r = {} \<Longrightarrow> J r = X \<Longrightarrow> (\<And>q. q \<noteq> r \<Longrightarrow> J q = I q)
     \<Longrightarrow> P \<union> {(s, r) | s. s \<in> X \<and> s \<noteq> r} = {(s, q). s \<in> J q \<and> s \<noteq> q}"
  by (intro set_eqI) (auto, metis empty_iff, metis)

lemma declare_rights_result:
  assumes "declare_rights reg m bs rs st = Ok st'" and "distinct rs" "plain_rights rs"
    and "set rs \<inter> set (dkeys (d_inherit st)) = {}"
    and "\<And>r. r \<in> set rs \<Longrightarrow> dget (d_meta st) (''inherit_'' @ r) = dget mt (''inherit_'' @ r)
           \<and> dget (d_meta st) (''inherit_parent_'' @ r) = dget mt (''inherit_parent_'' @ r)"
    and "set (d_pairs st) = {(s, r). s \<in> rights_in (d_inherit st) r \<and> s \<noteq> r}"
  shows "set (dkeys (d_inherit st')) = set (dkeys (d_inherit st)) \<union> set rs
    \<and> set (d_pairs st') = {(s, r). s \<in> rights_in (d_inherit st') r \<and> s \<noteq> r}
    \<and> (\<forall>r. rights_in (d_inherit st') r =
          (if r \<in> set rs then insert r (declared_names mt (''inherit_'' @ r)) \<union> (\<Union>b \<in> set bs. rights_in (inherit b) r)
           else rights_in (d_inherit st) r))
    \<and> (\<forall>r \<in> set rs. rights_in (d_parent st') r =
          declared_names mt (''inherit_parent_'' @ r) \<union> (\<Union>b \<in> set bs. rights_in (inherit_parent b) r))
    \<and> (\<forall>r. r \<notin> set rs \<longrightarrow> rights_in (d_parent st') r = rights_in (d_parent st) r)"
  using assms
proof (induction rs arbitrary: st)
  case (Cons r rs)
  then obtain st1 where s1: "declare_right reg m bs r st = Ok st1" and rest: "declare_rights reg m bs rs st1 = Ok st'"
    by (auto simp: bind_ok_eq_Ok)
  from declare_right_result [OF s1] obtain n1 n2 where
    n1: "names_of (dget (d_meta st) (''inherit_'' @ r)) = Ok n1"
    and n2: "names_of (dget (ddel (''inherit_'' @ r) (d_meta st)) (''inherit_parent_'' @ r)) = Ok n2"
    and st1: "d_inherit st1 = dset r (update_from inherit r bs (to_set (r # n1))) (d_inherit st)"
      "d_parent st1 = dset r (update_from inherit_parent r bs (to_set n2)) (d_parent st)"
      "d_pairs st1 = d_pairs st @ pairs_of r (update_from inherit r bs (to_set (r # n1)))"
      "d_meta st1 = ddel (''inherit_global_'' @ r) (ddel (''inherit_parent_'' @ r) (ddel (''inherit_'' @ r) (d_meta st)))"
    by (elim exE conjE)
  have pl: "plain_rights rs" "r \<noteq> ''parent''" "\<not> prefix ''parent_'' r" "\<not> prefix ''global_'' r"
    using Cons.prems(3) by (auto simp: plain_rights_def)
  have m: "dget (d_meta st) (''inherit_'' @ r) = dget mt (''inherit_'' @ r)"
    "dget (d_meta st) (''inherit_parent_'' @ r) = dget mt (''inherit_parent_'' @ r)"
    using Cons.prems(5) [of r] by auto
  have "''inherit_parent_'' @ r \<noteq> ''inherit_'' @ r" by (auto dest: arg_cong [where f = length])
  then have names: "set n1 = declared_names mt (''inherit_'' @ r)" "set n2 = declared_names mt (''inherit_parent_'' @ r)"
    using names_of_declared n1 n2 m by (simp_all add: declared_names_def)
  have new: "r \<notin> set (dkeys (d_inherit st))" using Cons.prems(4) by auto
  then have none: "rights_in (d_inherit st) r = {}" by (simp add: dget_def_val_def dget_None_iff [symmetric])
  have IH: "set (dkeys (d_inherit st')) = set (dkeys (d_inherit st1)) \<union> set rs
    \<and> set (d_pairs st') = {(s, r). s \<in> rights_in (d_inherit st') r \<and> s \<noteq> r}
    \<and> (\<forall>r. rights_in (d_inherit st') r =
          (if r \<in> set rs then insert r (declared_names mt (''inherit_'' @ r)) \<union> (\<Union>b \<in> set bs. rights_in (inherit b) r)
           else rights_in (d_inherit st1) r))
    \<and> (\<forall>r \<in> set rs. rights_in (d_parent st') r =
          declared_names mt (''inherit_parent_'' @ r) \<union> (\<Union>b \<in> set bs. rights_in (inherit_parent b) r))
    \<and> (\<forall>r. r \<notin> set rs \<longrightarrow> rights_in (d_parent st') r = rights_in (d_parent st1) r)"
  proof (rule Cons.IH [OF rest _ pl(1)])
    show "set rs \<inter> set (dkeys (d_inherit st1)) = {}" using Cons.prems(2,4) st1(1) by auto
    show "dget (d_meta st1) (''inherit_'' @ q) = dget mt (''inherit_'' @ q)
        \<and> dget (d_meta st1) (''inherit_parent_'' @ q) = dget mt (''inherit_parent_'' @ q)" if q: "q \<in> set rs" for q
    proof -
      have "q \<noteq> r" using q Cons.prems(2) by auto
      moreover have "\<not> prefix ''parent_'' q" "\<not> prefix ''global_'' q" using q pl(1) by (auto simp: plain_rights_def)
      ultimately show ?thesis using Cons.prems(5) [of q] q pl st1(4) by (auto simp: prefix_def)
    qed
    show "set (d_pairs st1) = {(s, r). s \<in> rights_in (d_inherit st1) r \<and> s \<noteq> r}"
    proof -
      have "set (d_pairs st1) = set (d_pairs st) \<union> {(s, r) | s. s \<in> rights_in (d_inherit st1) r \<and> s \<noteq> r}"
        by (simp add: st1(1,3) set_pairs_of dget_def_val_dset)
      also have "\<dots> = {(s, q). s \<in> rights_in (d_inherit st1) q \<and> s \<noteq> q}"
        by (rule pairs_extend [OF Cons.prems(6) none refl]) (simp add: st1(1) dget_def_val_dset)
      finally show ?thesis .
    qed
  qed (use Cons.prems(2) in auto)
  have r: "r \<notin> set rs" using Cons.prems(2) by simp
  have i1: "rights_in (d_inherit st1) q = (if q = r then insert r (declared_names mt (''inherit_'' @ r))
      \<union> (\<Union>b \<in> set bs. rights_in (inherit b) r) else rights_in (d_inherit st) q)" for q
    unfolding st1(1) dget_def_val_dset using names(1) by (simp add: set_update_from)
  have p1: "rights_in (d_parent st1) q = (if q = r then declared_names mt (''inherit_parent_'' @ r)
      \<union> (\<Union>b \<in> set bs. rights_in (inherit_parent b) r) else rights_in (d_parent st) q)" for q
    unfolding st1(2) dget_def_val_dset using names(2) by (simp add: set_update_from)
  have k1: "set (dkeys (d_inherit st1)) = insert r (set (dkeys (d_inherit st)))" using st1(1) by simp
  show ?case
  proof (intro conjI allI ballI impI)
    show "set (dkeys (d_inherit st')) = set (dkeys (d_inherit st)) \<union> set (r # rs)" using IH k1 by simp
    show "set (d_pairs st') = {(s, r). s \<in> rights_in (d_inherit st') r \<and> s \<noteq> r}" using IH by simp
    show "rights_in (d_inherit st') q =
          (if q \<in> set (r # rs) then insert q (declared_names mt (''inherit_'' @ q)) \<union> (\<Union>b \<in> set bs. rights_in (inherit b) q)
           else rights_in (d_inherit st) q)" for q
      using IH i1 [of q] r by (cases "q \<in> set rs") auto
    show "rights_in (d_parent st') q =
          declared_names mt (''inherit_parent_'' @ q) \<union> (\<Union>b \<in> set bs. rights_in (inherit_parent b) q)"
      if "q \<in> set (r # rs)" for q
      using IH p1 [of q] r that by (cases "q \<in> set rs") auto
    show "rights_in (d_parent st') q = rights_in (d_parent st) q" if "q \<notin> set (r # rs)" for q
      using IH p1 [of q] that by auto
  qed
qed simp

lemma close_rights_keys:
  assumes "close_rights xs (i, p, g) = Ok (i', p', g')"
  shows "set xs \<subseteq> set (dkeys i)"
proof -
  have keys1: "set (dkeys d') = set (dkeys d)" if "absorb r s d = Ok d'" for r s d d'
  proof -
    from that have "r \<in> set (dkeys d)" unfolding absorb_eq by (metis dget_None_iff option.distinct(1))
    with that show ?thesis unfolding absorb_eq by auto
  qed
  have keys: "set (dkeys i') = set (dkeys i)" if "absorb_all r ss (i, p, g) = Ok (i', p', g')" for r ss i p g i' p' g'
    using that
  proof (induction ss arbitrary: i p g)
    case (Cons s ss)
    from Cons.prems obtain i1 p1 g1 where "absorb r s i = Ok i1" "absorb_all r ss (i1, p1, g1) = Ok (i', p', g')"
      by (auto simp: bind_ok_eq_Ok)
    with Cons.IH keys1 show ?case by metis
  qed simp
  show ?thesis
    using assms
  proof (induction xs arbitrary: i p g)
    case (Cons x xs)
    from Cons.prems obtain gr ipg where gr: "dict_get i x = Ok gr" "absorb_all x gr (i, p, g) = Ok ipg"
      "close_rights xs ipg = Ok (i', p', g')" by (auto simp: bind_ok_eq_Ok)
    obtain i1 p1 g1 where ipg: "ipg = (i1, p1, g1)" by (cases ipg)
    have "set xs \<subseteq> set (dkeys i1)" using Cons.IH gr(3) ipg by blast
    moreover have "set (dkeys i1) = set (dkeys i)" using keys gr(2) ipg by blast
    moreover have "x \<in> set (dkeys i)" using gr(1) unfolding dict_get_def
      by (metis (no_types, lifting) dget_None_iff option.case_eq_if outcome.distinct(1))
    ultimately show ?case by simp
  qed simp
qed

lemma local_rights_keeps:
  "local_rights bs rs ro = Ok ro' \<Longrightarrow> inherit ro' = inherit ro \<and> inherit_parent ro' = inherit_parent ro
     \<and> rights_of ro' = rights_of ro \<and> inherit_field ro' = inherit_field ro"
  by (induction bs rs ro rule: local_rights.induct)
    (auto simp: bind_ok_eq_Ok Let_def split: if_splits)

lemma add_base_rights_distinct: "add_base_rights bs rs = Ok rs' \<Longrightarrow> distinct rs \<Longrightarrow> distinct rs'"
  by (induction bs rs rule: add_base_rights.induct) (auto simp: bind_ok_eq_Ok)

lemma dget_own_attributes: "\<not> prefix ''__'' k \<Longrightarrow> dget (own_attributes mt) k = dget mt k"
  unfolding own_attributes_def starts_with_def by (induction mt) (auto split: if_splits)

lemma process_result:
  assumes "process dm reg ro = Ok ro'" and "map_outcome (options_of reg) (bases ro) = Ok bs"
  shows "\<exists>rs st order mt. rights_of ro' = Some rs \<and> distinct rs
    \<and> declare_rights reg (model ro) bs rs \<lparr>d_inherit = [], d_parent = [], d_global = [], d_pairs = [], d_meta = mt\<rparr> = Ok st
    \<and> mt = ddel ''inherit_parent_require'' (ddel ''inherit_parent'' (ddel ''rights'' (own_attributes (meta ro))))
    \<and> topsort (d_pairs st) = Ok order
    \<and> (\<exists>g. close_rights order (d_inherit st, d_parent st, d_global st) = Ok (inherit ro', inherit_parent ro', g))"
proof -
  let ?mt = "own_attributes (meta ro)"
  let ?mt3 = "ddel ''inherit_parent_require'' (ddel ''inherit_parent'' (ddel ''rights'' ?mt))"
  from assms obtain rs0 rs st order i p g ro1 where
    rs: "add_base_rights bs (to_set rs0) = Ok rs"
    and st: "declare_rights reg (model ro) bs rs \<lparr>d_inherit = [], d_parent = [], d_global = [], d_pairs = [], d_meta = ?mt3\<rparr> = Ok st"
    and order: "topsort (d_pairs st) = Ok order"
    and close: "close_rights order (d_inherit st, d_parent st, d_global st) = Ok (i, p, g)"
    and loc: "local_rights bs rs ro1 = Ok ro'" and ro1: "rights_of ro1 = Some rs" "inherit ro1 = i" "inherit_parent ro1 = p"
    unfolding process_def Let_def bind_ok_eq_Ok
    by (clarsimp simp: bind_ok_eq_Ok split: if_splits) force
  have "distinct rs" using add_base_rights_distinct [OF rs] by (simp add: to_set_def)
  with local_rights_keeps [OF loc] ro1 st order close show ?thesis by auto
qed

lemma own_lookup:
  assumes "q \<noteq> ''parent''" "\<not> prefix ''parent_'' q"
  shows "dget (ddel ''inherit_parent_require'' (ddel ''inherit_parent'' (ddel ''rights'' (own_attributes mt)))) (''inherit_'' @ q)
      = dget mt (''inherit_'' @ q)"
    and "q \<noteq> ''require'' \<Longrightarrow>
      dget (ddel ''inherit_parent_require'' (ddel ''inherit_parent'' (ddel ''rights'' (own_attributes mt)))) (''inherit_parent_'' @ q)
      = dget mt (''inherit_parent_'' @ q)"
  using assms by (auto simp: dget_own_attributes prefix_def)

definition right_declared :: "(string, meta_val) dict \<Rightarrow> options list \<Rightarrow> string list \<Rightarrow> (string \<times> string) set" where
  "right_declared mt bs rs = {(a, b). a \<in> set rs \<and> (b \<in> declared_names mt (''inherit_'' @ a) \<or> (\<exists>bo \<in> set bs. b \<in> rights_in (inherit bo) a))}"

definition parent_declared :: "(string, meta_val) dict \<Rightarrow> options list \<Rightarrow> string \<Rightarrow> string set" where
  "parent_declared mt bs a = declared_names mt (''inherit_parent_'' @ a) \<union> (\<Union>bo \<in> set bs. rights_in (inherit_parent bo) a)"

text \<open>
  C23 (process_closure): After process, the rights that give a right are exactly those reachable
  from it by the declarations inherit_X of the model and the sets of its bases, and what it inherits
  of the parent is everything that one of those rights inherits; one pass in the order of
  topsort is enough. The names of rights are none that
  the declarations use otherwise (parent, require, parent_X, global_X).
\<close>

theorem process_closure:
  assumes "process dm reg ro = Ok ro'" and "map_outcome (options_of reg) (bases ro) = Ok bs"
    and "rights_of ro' = Some rs" "plain_rights rs" and "r \<in> set rs"
  shows "rights_in (inherit ro') r = (right_declared (meta ro) bs rs)\<^sup>* `` {r}
    \<and> rights_in (inherit_parent ro') r =
        (\<Union>s \<in> (right_declared (meta ro) bs rs)\<^sup>* `` {r}. parent_declared (meta ro) bs s)"
proof -
  let ?mt = "ddel ''inherit_parent_require'' (ddel ''inherit_parent'' (ddel ''rights'' (own_attributes (meta ro))))"
  let ?st0 = "\<lparr>d_inherit = [], d_parent = [], d_global = [], d_pairs = [], d_meta = ?mt\<rparr>"
  let ?D = "right_declared (meta ro) bs rs"
  from process_result [OF assms(1,2)] assms(3) obtain st order g where d: "distinct rs"
    and st: "declare_rights reg (model ro) bs rs ?st0 = Ok st" and order: "topsort (d_pairs st) = Ok order"
    and close: "close_rights order (d_inherit st, d_parent st, d_global st) = Ok (inherit ro', inherit_parent ro', g)"
    by auto
  let ?i = "d_inherit st"
  have mt: "dget ?mt (''inherit_'' @ q) = dget (meta ro) (''inherit_'' @ q)
      \<and> dget ?mt (''inherit_parent_'' @ q) = dget (meta ro) (''inherit_parent_'' @ q)" if "q \<in> set rs" for q
    using own_lookup [of q "meta ro"] assms(4) that unfolding plain_rights_def by metis
  have R: "set (dkeys ?i) = set (dkeys (d_inherit ?st0)) \<union> set rs
    \<and> set (d_pairs st) = {(s, r). s \<in> rights_in ?i r \<and> s \<noteq> r}
    \<and> (\<forall>r. rights_in ?i r =
          (if r \<in> set rs then insert r (declared_names (meta ro) (''inherit_'' @ r)) \<union> (\<Union>b \<in> set bs. rights_in (inherit b) r)
           else rights_in (d_inherit ?st0) r))
    \<and> (\<forall>r \<in> set rs. rights_in (d_parent st) r =
          declared_names (meta ro) (''inherit_parent_'' @ r) \<union> (\<Union>b \<in> set bs. rights_in (inherit_parent b) r))
    \<and> (\<forall>r. r \<notin> set rs \<longrightarrow> rights_in (d_parent st) r = rights_in (d_parent ?st0) r)"
    by (rule declare_rights_result [OF st d assms(4)]) (use mt in \<open>auto simp: dkeys_def dget_def_val_def\<close>)
  have keys: "set (dkeys ?i) = set rs" using R by (simp add: dkeys_def)
  have in_i: "rights_in ?i x = (if x \<in> set rs then insert x (declared_names (meta ro) (''inherit_'' @ x))
      \<union> (\<Union>b \<in> set bs. rights_in (inherit b) x) else {})" for x
    using R by (simp add: dget_def_val_def)
  have closed: "rights_in ?i x \<subseteq> set (dkeys ?i)" for x
  proof
    fix s assume s: "s \<in> rights_in ?i x"
    then have x: "x \<in> set rs" using in_i [of x] by (auto split: if_splits)
    show "s \<in> set (dkeys ?i)"
    proof (cases "s = x")
      case True
      with x keys show ?thesis by simp
    next
      case False
      with s R have "(s, x) \<in> set (d_pairs st)" by simp
      then have "s \<in> set order" using topsort_sound(3) [OF order] by (force simp: elements_def)
      with close_rights_keys [OF close] show ?thesis by blast
    qed
  qed
  have pairs: "set (d_pairs st) = {(s, r). s \<in> rights_in ?i r \<and> s \<noteq> r}" using R by simp
  have refl: "x \<in> rights_in ?i x" if "x \<in> set (dkeys ?i)" for x using that keys in_i by simp
  have rk: "r \<in> set (dkeys ?i)" using keys assms(5) by simp
  note closure = close_rights_closure [OF order close pairs refl closed rk]
  have "gives ?i - Id = ?D - Id" using in_i by (auto simp: gives_def right_declared_def split: if_splits)
  then have star: "(gives ?i)\<^sup>* = ?D\<^sup>*" by (metis rtrancl_r_diff_Id)
  have stay: "s \<in> set rs" if "(r, s) \<in> (gives ?i)\<^sup>*" for s
    using that by (induction rule: rtrancl_induct) (use assms(5) closed keys in \<open>auto simp: gives_def\<close>)
  have par: "rights_in (d_parent st) s = parent_declared (meta ro) bs s" if "s \<in> set rs" for s
    using R that by (simp add: parent_declared_def)
  show ?thesis
  proof
    show "rights_in (inherit ro') r = ?D\<^sup>* `` {r}" using closure(1) star by simp
    have "collected ?i (d_parent st) r = (\<Union>s \<in> ?D\<^sup>* `` {r}. parent_declared (meta ro) bs s)"
      unfolding collected_def star using stay par star by (intro SUP_cong) auto
    then show "rights_in (inherit_parent ro') r = (\<Union>s \<in> ?D\<^sup>* `` {r}. parent_declared (meta ro) bs s)"
      using closure(2) by simp
  qed
qed

definition sample_meta :: "(string, meta_val) dict" where
  "sample_meta = [(''rights'', Names [''VIEW'', ''EDIT'', ''MANAGE'']), (''inherit_VIEW'', Names [''EDIT'']),
     (''inherit_EDIT'', Names [''MANAGE''])]"

lemma sample_process:
  "process \<lparr>all_fields = [], all_parents = []\<rparr> [] (plain_options ''Role'' sample_meta [])
     = Ok ((plain_options ''Role'' sample_meta [])
       \<lparr>rights_of := Some [''VIEW'', ''EDIT'', ''MANAGE''],
        inherit := [(''VIEW'', [''VIEW'', ''EDIT'', ''MANAGE'']), (''EDIT'', [''EDIT'', ''MANAGE'']), (''MANAGE'', [''MANAGE''])],
        inherit_parent := [(''VIEW'', []), (''EDIT'', []), (''MANAGE'', [])],
        inherit_global := [(''VIEW'', []), (''EDIT'', []), (''MANAGE'', [])],
        local_inherit := [(''VIEW'', [''VIEW'', ''EDIT'', ''MANAGE'']), (''EDIT'', [''EDIT'', ''MANAGE'']), (''MANAGE'', [''MANAGE''])],
        local_inherit_parent := [(''VIEW'', []), (''EDIT'', []), (''MANAGE'', [])],
        local_inherit_global := [(''VIEW'', []), (''EDIT'', []), (''MANAGE'', [])]\<rparr>)"
  by code_simp

theorem process_closure_witness:
  "(right_declared sample_meta [] [''VIEW'', ''EDIT'', ''MANAGE''])\<^sup>* `` {''VIEW''} = {''VIEW'', ''EDIT'', ''MANAGE''}"
proof -
  have "bases (plain_options ''Role'' sample_meta []) = []" by (simp add: plain_options_def)
  then have "map_outcome (options_of []) (bases (plain_options ''Role'' sample_meta [])) = Ok []" by simp
  from process_closure [OF sample_process this, of "[''VIEW'', ''EDIT'', ''MANAGE'']" "''VIEW''"]
  show ?thesis by (simp add: plain_rights_def plain_options_def dget_def_val_def)
qed

end
