(* ===== verification/Sec_Token.thy ===== *)
theory Sec_Token
  imports Py_Strings Codec
begin

section \<open>Sessions and tokens\<close>

text \<open>
  \<open>satori.core.entities.Session\<close> and \<open>satori.core.sec.token\<close>. A token is the encrypted text of a
  salt, the number of a session, a deadline and a hash of the three.
  \<^item> A time is a number of microseconds. \<open>crypto\<close> has what the code takes from elsewhere: base64,
    AES on whole blocks, the MD5 digest in hexadecimal digits, and the text of a time in whole
    seconds (\<open>str(time.mktime(...))\<close>) with its inverse.
  \<^item> \<open>session\<close>: a row of \<open>Session\<close>; \<open>ses_id\<close> is \<open>None\<close> until it is saved.
  \<^item> \<open>fill_up\<close>, \<open>unfill\<close>: padding to whole blocks and back. The indices of \<open>_unfill\<close> may go below
    zero, where Python counts from the end.
  \<^item> \<open>token_init\<close>: \<open>Token.__init__\<close>; the salt that is drawn is an argument.
\<close>

record crypto =
  b64_encode :: "string \<Rightarrow> string"
  b64_decode :: "string \<Rightarrow> string outcome"
  aes_encrypt :: "string \<Rightarrow> string \<Rightarrow> string"
  aes_decrypt :: "string \<Rightarrow> string \<Rightarrow> string outcome"
  md5_hex :: "string \<Rightarrow> string"
  time_text :: "int \<Rightarrow> string"
  text_time :: "string \<Rightarrow> int outcome"
  secret_key :: string

record session =
  ses_id :: "nat option"
  ses_data :: "string option"
  ses_deadline :: "int option"
  ses_first :: "int option"
  ses_last :: "int option"
  ses_role :: "nat option"
  ses_auth :: "string option"

record token =
  tok_key :: string
  tok_salt :: string
  tok_session :: "session option"
  tok_deadline :: int

subsection \<open>Sessions\<close>

text \<open>Ten hours; \<open>save\<close> fills in the times, then the row gets a number if it has none.\<close>

definition session_timeout :: int where
  "session_timeout = 10 * 3600 * 1000000"

definition session_save :: "int \<Rightarrow> nat \<Rightarrow> session \<Rightarrow> session" where
  "session_save now fresh s =
     s\<lparr>ses_deadline := Some (case ses_deadline s of None \<Rightarrow> now + session_timeout | Some d \<Rightarrow> d),
       ses_first := Some (case ses_first s of None \<Rightarrow> now | Some f \<Rightarrow> f),
       ses_last := Some now,
       ses_id := Some (case ses_id s of None \<Rightarrow> fresh | Some i \<Rightarrow> i)\<rparr>"

definition session_renew :: "int \<Rightarrow> session \<Rightarrow> session outcome" where
  "session_renew now s =
     (case ses_deadline s of
        None \<Rightarrow> Raise TypeError
      | Some d \<Rightarrow> Ok (if now + session_timeout > d then s\<lparr>ses_deadline := Some (now + session_timeout)\<rparr> else s))"

definition session_login :: "int \<Rightarrow> nat \<Rightarrow> nat \<Rightarrow> string \<Rightarrow> session \<Rightarrow> session outcome" where
  "session_login now fresh role auth s =
     map_ok (session_save now fresh) (session_renew now (s\<lparr>ses_role := Some role, ses_auth := Some auth\<rparr>))"

text \<open>What \<open>ExternalIdentity.handle_logout\<close> answers is an argument.\<close>

definition session_logout :: "int \<Rightarrow> nat \<Rightarrow> (session \<Rightarrow> string list) \<Rightarrow> session \<Rightarrow> string list \<times> session" where
  "session_logout now fresh handle s =
     (let s' = session_save now fresh (s\<lparr>ses_role := None, ses_auth := None\<rparr>) in ([] @ handle s', s'))"

definition new_session :: session where
  "new_session = \<lparr>ses_id = None, ses_data = None, ses_deadline = None, ses_first = None, ses_last = None,
     ses_role = None, ses_auth = None\<rparr>"

definition session_start :: "int \<Rightarrow> nat \<Rightarrow> token \<Rightarrow> session \<times> token" where
  "session_start now fresh t =
     (case tok_session t of
        Some s \<Rightarrow> (s, t)
      | None \<Rightarrow> (let s = session_save now fresh new_session in (s, t\<lparr>tok_session := Some s\<rparr>)))"

text \<open>\<open>user\<close> and \<open>machine\<close>: the row of the model with the number of the role, if there is one.\<close>

definition session_member :: "(nat \<Rightarrow> bool) \<Rightarrow> session \<Rightarrow> nat option" where
  "session_member is_row s = (case ses_role s of None \<Rightarrow> None | Some r \<Rightarrow> if is_row r then Some r else None)"

definition get_data_pickle :: "crypto \<Rightarrow> (string \<Rightarrow> 'a outcome) \<Rightarrow> session \<Rightarrow> 'a option outcome" where
  "get_data_pickle C loads s =
     (case ses_data s of None \<Rightarrow> Ok None | Some d \<Rightarrow> bind_ok (b64_decode C d) (\<lambda>x. map_ok Some (loads x)))"

definition set_data_pickle :: "crypto \<Rightarrow> ('a \<Rightarrow> string) \<Rightarrow> 'a option \<Rightarrow> session \<Rightarrow> session" where
  "set_data_pickle C dumps v s =
     s\<lparr>ses_data := (case v of None \<Rightarrow> None | Some x \<Rightarrow> Some (b64_encode C (dumps x)))\<rparr>"

subsection \<open>Padding\<close>

definition fill_up :: "string \<Rightarrow> string" where
  "fill_up data =
     (let f = (if data \<noteq> [] \<and> last data = CHR ''X'' then CHR ''Y'' else CHR ''X'')
      in data @ replicate (16 - length data mod 16) f)"

definition py_index :: "string \<Rightarrow> int \<Rightarrow> char outcome" where
  "py_index xs i =
     (if 0 \<le> i \<and> i < int (length xs) then Ok (xs ! nat i)
      else if - int (length xs) \<le> i \<and> i < 0 then Ok (xs ! nat (int (length xs) + i))
      else Raise IndexError)"

definition py_take :: "int \<Rightarrow> string \<Rightarrow> string" where
  "py_take i xs = take (nat (if i < 0 then i + int (length xs) else i)) xs"

function unfill_loop :: "string \<Rightarrow> char \<Rightarrow> int \<Rightarrow> string outcome" where
  "unfill_loop data f l =
     (case py_index data (l - 1) of
        Raise e \<Rightarrow> Raise e
      | Ok c \<Rightarrow> if c = f then unfill_loop data f (l - 1) else Ok (py_take l data))"
  by auto
termination
  by (relation "measure (\<lambda>(data, _, l). nat (l + int (length data)))")
    (auto simp: py_index_def split: if_splits)

declare unfill_loop.simps [simp del]

definition unfill :: "string \<Rightarrow> string outcome" where
  "unfill data =
     (if data = [] then Ok data
      else bind_ok (py_index data (int (length data) - 1)) (\<lambda>f. unfill_loop data f (int (length data))))"

subsection \<open>Tokens\<close>

definition token_hash :: "crypto \<Rightarrow> string \<Rightarrow> string" where
  "token_hash C data = take 8 (md5_hex C data)"

definition cipher_key :: "crypto \<Rightarrow> string \<Rightarrow> string" where
  "cipher_key C key = take 16 (md5_hex C key)"

definition token_encrypt :: "crypto \<Rightarrow> string \<Rightarrow> string \<Rightarrow> string" where
  "token_encrypt C key data = b64_encode C (aes_encrypt C (cipher_key C key) (fill_up data))"

definition token_decrypt :: "crypto \<Rightarrow> string \<Rightarrow> string \<Rightarrow> string outcome" where
  "token_decrypt C key data =
     bind_ok (b64_decode C data) (\<lambda>x. bind_ok (aes_decrypt C (cipher_key C key) x) unfill)"

definition py_str_id :: "nat option \<Rightarrow> string" where
  "py_str_id i = (case i of None \<Rightarrow> ''None'' | Some n \<Rightarrow> str_nat n)"

definition session_id :: "token \<Rightarrow> string" where
  "session_id t = (case tok_session t of None \<Rightarrow> [] | Some s \<Rightarrow> py_str_id (ses_id s))"

definition token_parts :: "crypto \<Rightarrow> token \<Rightarrow> string list" where
  "token_parts C t = [tok_salt t, session_id t, time_text C (tok_deadline t)]"

definition genhash :: "crypto \<Rightarrow> token \<Rightarrow> string" where
  "genhash C t = token_hash C (join [newline] (token_parts C t))"

definition token_str :: "crypto \<Rightarrow> token \<Rightarrow> string" where
  "token_str C t = token_encrypt C (tok_key t) (join [newline] (token_parts C t @ [genhash C t]))"

definition or_else :: "string option \<Rightarrow> string \<Rightarrow> string" where
  "or_else x d = (case x of Some k \<Rightarrow> if k = [] then d else k | None \<Rightarrow> d)"

definition parse_parts :: "crypto \<Rightarrow> (string \<Rightarrow> session option outcome) \<Rightarrow> int \<Rightarrow> token \<Rightarrow> string list \<Rightarrow> token outcome" where
  "parse_parts C find_session now t raw =
     (case raw of
        [r0, r1, r2, r3] \<Rightarrow>
          bind_ok (text_time C r2) (\<lambda>d.
          let t1 = t\<lparr>tok_salt := r0, tok_deadline := d\<rparr> in
          if d < now then Raise TokenError
          else
            bind_ok
              (if r1 \<noteq> [] then
                 (case find_session r1 of
                    Raise e \<Rightarrow> Raise e
                  | Ok None \<Rightarrow> Raise TokenError
                  | Ok (Some s) \<Rightarrow>
                      (case ses_deadline s of
                         None \<Rightarrow> Raise TypeError
                       | Some sd \<Rightarrow> if sd < now then Raise TokenError else Ok (t1\<lparr>tok_session := Some s\<rparr>)))
               else Ok (t1\<lparr>tok_session := None\<rparr>)) (\<lambda>t2.
            if r3 \<noteq> genhash C t2 then Raise TokenError else Ok t2))
      | _ \<Rightarrow> Raise TokenError)"

definition token_init :: "crypto \<Rightarrow> (string \<Rightarrow> session option outcome) \<Rightarrow> int \<Rightarrow> int \<Rightarrow> string
    \<Rightarrow> string option \<Rightarrow> string option \<Rightarrow> session option \<Rightarrow> int option \<Rightarrow> int option \<Rightarrow> token outcome" where
  "token_init C find_session dflt now salt tok key ses validity deadline =
     (let t0 = \<lparr>tok_key = or_else key (secret_key C), tok_salt = salt, tok_session = None, tok_deadline = dflt\<rparr> in
      bind_ok
        (if or_else tok [] \<noteq> [] then
           bind_ok (token_decrypt C (tok_key t0) (or_else tok []))
             (\<lambda>raw. parse_parts C find_session now t0 (split_on newline raw))
         else Ok t0) (\<lambda>t1.
      let t2 = (case ses of Some s \<Rightarrow> t1\<lparr>tok_session := Some s\<rparr> | None \<Rightarrow> t1);
          t3 = (case deadline of Some d \<Rightarrow> t2\<lparr>tok_deadline := d\<rparr> | None \<Rightarrow> t2)
      in Ok (case validity of Some v \<Rightarrow> t3\<lparr>tok_deadline := now + v\<rparr> | None \<Rightarrow> t3)))"

definition get_validity :: "int \<Rightarrow> token \<Rightarrow> int" where
  "get_validity now t = tok_deadline t - now"

definition set_validity :: "int \<Rightarrow> int \<Rightarrow> token \<Rightarrow> token" where
  "set_validity now v t = t\<lparr>tok_deadline := now + v\<rparr>"

definition token_valid :: "int \<Rightarrow> token \<Rightarrow> bool" where
  "token_valid now t \<longleftrightarrow> tok_deadline t > now"

definition role_id :: "token \<Rightarrow> nat option" where
  "role_id t = (case tok_session t of Some s \<Rightarrow> ses_role s | None \<Rightarrow> None)"

definition token_member :: "(nat \<Rightarrow> bool) \<Rightarrow> token \<Rightarrow> nat option" where
  "token_member is_row t = (case tok_session t of Some s \<Rightarrow> session_member is_row s | None \<Rightarrow> None)"

subsection \<open>Padding and back\<close>

lemma fill_up_blocks: "length (fill_up s) mod 16 = 0"
proof -
  have "length (fill_up s) = length s + (16 - length s mod 16)" by (simp add: fill_up_def Let_def)
  also have "\<dots> = 16 * (length s div 16) + 16" by (metis (no_types) add.assoc le_add_diff_inverse
      less_imp_le mod_less_divisor mult.commute div_mult_mod_eq zero_less_numeral)
  finally show ?thesis by simp
qed

text \<open>The loop of \<open>_unfill\<close> stops at the last character that differs.\<close>

lemma unfill_loop_stops:
  assumes "xs \<noteq> []" "last xs \<noteq> f" "n \<le> m"
  shows "unfill_loop (xs @ replicate m f) f (int (length xs + n)) = Ok xs"
  using assms(3)
proof (induction n)
  case 0
  have "py_index (xs @ replicate m f) (int (length xs) - 1) = Ok (last xs)"
    using assms(1) by (auto simp: py_index_def nth_append last_conv_nth nat_diff_distrib Suc_leI of_nat_diff)
  with assms(2) show ?case by (subst unfill_loop.simps) (simp add: py_take_def)
next
  case (Suc n)
  have "py_index (xs @ replicate m f) (int (length xs + Suc n) - 1) = Ok f"
    using Suc.prems by (auto simp: py_index_def nth_append nat_add_distrib)
  with Suc show ?case by (subst unfill_loop.simps) simp
qed

lemma unfill_fill_up:
  assumes "s \<noteq> []"
  shows "unfill (fill_up s) = Ok s"
proof -
  define f where "f = (if last s = CHR ''X'' then CHR ''Y'' else CHR ''X'')"
  define m where "m = 16 - length s mod 16"
  have fu: "fill_up s = s @ replicate m f" using assms by (simp add: fill_up_def f_def m_def)
  have m: "0 < m" by (simp add: m_def)
  have f: "last s \<noteq> f" by (simp add: f_def)
  have "py_index (s @ replicate m f) (int (length s + m) - 1) = Ok f"
    using m by (auto simp: py_index_def nth_append nat_diff_distrib)
  moreover have "unfill_loop (s @ replicate m f) f (int (length s + m)) = Ok s"
    by (rule unfill_loop_stops [OF assms f]) simp
  ultimately show ?thesis using m by (simp add: unfill_def fu)
qed

interpretation fill: codec "\<lambda>s. Ok (fill_up s)" unfill "\<lambda>s. s \<noteq> []"
  by unfold_locales (simp add: unfill_fill_up)

text \<open>
  Data of one repeated character runs off the start of the string, through the negative indices:
  the padding of the empty string cannot be removed.
\<close>

lemma unfill_loop_constant:
  "- int n < l \<Longrightarrow> l \<le> int n \<Longrightarrow> unfill_loop (replicate n f) f l = Raise IndexError"
proof (induction "nat (l + int n)" arbitrary: l)
  case 0
  then show ?case by simp
next
  case (Suc k)
  have "py_index (replicate n f) (l - 1) = Ok f" using Suc.prems by (auto simp: py_index_def)
  moreover have "unfill_loop (replicate n f) f (l - 1) = Raise IndexError"
  proof (cases "- int n < l - 1")
    case True
    with Suc show ?thesis by simp
  next
    case False
    with Suc.prems have "l - 1 = - int n" by simp
    then show ?thesis by (subst unfill_loop.simps) (simp add: py_index_def)
  qed
  ultimately show ?case by (subst unfill_loop.simps) simp
qed

lemma unfill_constant: "0 < n \<Longrightarrow> unfill (replicate n f) = Raise IndexError"
  using unfill_loop_constant [of n "int n" f] by (auto simp: unfill_def py_index_def)

subsection \<open>Tokens and back\<close>

definition crypto_ok :: "crypto \<Rightarrow> bool" where
  "crypto_ok C \<longleftrightarrow> (\<forall>x. b64_decode C (b64_encode C x) = Ok x) \<and> (\<forall>x. x \<noteq> [] \<longrightarrow> b64_encode C x \<noteq> [])
     \<and> (\<forall>k x. length x mod 16 = 0 \<longrightarrow> aes_decrypt C k (aes_encrypt C k x) = Ok x \<and> length (aes_encrypt C k x) = length x)
     \<and> (\<forall>x. newline \<notin> set (md5_hex C x))"

lemma decrypt_encrypt:
  assumes "crypto_ok C" "data \<noteq> []"
  shows "token_decrypt C key (token_encrypt C key data) = Ok data"
  using assms fill_up_blocks [of data] unfill_fill_up [of data]
  by (simp add: token_decrypt_def token_encrypt_def crypto_ok_def)

lemma encrypt_nonempty:
  assumes "crypto_ok C"
  shows "token_encrypt C key data \<noteq> []"
proof -
  have "length (fill_up data) \<noteq> 0" by (auto simp: fill_up_def Let_def)
  then have "aes_encrypt C (cipher_key C key) (fill_up data) \<noteq> []"
    using assms fill_up_blocks [of data] unfolding crypto_ok_def by (metis length_0_conv)
  with assms show ?thesis by (simp add: token_encrypt_def crypto_ok_def)
qed

lemma str_nat_no_newline: "newline \<notin> set (str_nat n)"
proof -
  have "\<not> is_digit newline" by (simp add: is_digit_def code_def)
  with str_nat_digits [of n] show ?thesis by (auto simp: list_all_iff)
qed

definition session_stored :: "(string \<Rightarrow> session option outcome) \<Rightarrow> int \<Rightarrow> session option \<Rightarrow> bool" where
  "session_stored find_session now ses \<longleftrightarrow>
     (case ses of None \<Rightarrow> True
      | Some s \<Rightarrow> (\<exists>i d. ses_id s = Some i \<and> find_session (str_nat i) = Ok (Some s) \<and> ses_deadline s = Some d \<and> now \<le> d))"

lemma token_raw:
  assumes "crypto_ok C" and "newline \<notin> set (tok_salt t)" "newline \<notin> set (time_text C (tok_deadline t))"
    and "session_stored find_session now (tok_session t)"
  shows "split_on newline (join [newline] (token_parts C t @ [genhash C t]))
     = [tok_salt t, session_id t, time_text C (tok_deadline t), genhash C t]"
proof -
  have "newline \<notin> set (session_id t)"
    using assms(4) str_nat_no_newline
    by (auto simp: session_stored_def session_id_def py_str_id_def split: option.splits)
  moreover have "newline \<notin> set (genhash C t)"
    using assms(1) unfolding genhash_def token_hash_def crypto_ok_def by (meson in_set_takeD)
  ultimately show ?thesis using assms(2,3) unfolding token_parts_def
    by (simp add: split_on_append split_on_plain)
qed

text \<open>Reading back what was written.\<close>

lemma token_reads_back:
  assumes "crypto_ok C" and "newline \<notin> set (tok_salt t)" "newline \<notin> set (time_text C (tok_deadline t))"
    and "text_time C (time_text C (tok_deadline t)) = Ok d" "time_text C d = time_text C (tok_deadline t)"
    and "session_stored find_session now (tok_session t)" "now \<le> d"
    and "or_else key (secret_key C) = tok_key t"
  shows "token_init C find_session dflt now salt (Some (token_str C t)) key None None None = Ok (t\<lparr>tok_deadline := d\<rparr>)"
proof -
  let ?text = "join [newline] (token_parts C t @ [genhash C t])"
  let ?t0 = "\<lparr>tok_key = tok_key t, tok_salt = salt, tok_session = None, tok_deadline = dflt\<rparr>"
  have ne: "token_str C t \<noteq> []" by (simp add: token_str_def encrypt_nonempty [OF assms(1)])
  have "?text \<noteq> []" by (simp add: token_parts_def)
  then have dec: "token_decrypt C (tok_key t) (token_str C t) = Ok ?text"
    unfolding token_str_def by (rule decrypt_encrypt [OF assms(1)])
  note raw = token_raw [OF assms(1-3,6)]
  have hash: "genhash C (t\<lparr>tok_deadline := d\<rparr>) = genhash C t"
    by (simp add: genhash_def token_parts_def session_id_def assms(5))
  have "parse_parts C find_session now ?t0 [tok_salt t, session_id t, time_text C (tok_deadline t), genhash C t]
      = Ok (t\<lparr>tok_deadline := d\<rparr>)"
  proof (cases "tok_session t")
    case None
    then have "session_id t = []" and "t\<lparr>tok_deadline := d\<rparr> = ?t0\<lparr>tok_salt := tok_salt t, tok_deadline := d, tok_session := None\<rparr>"
      by (simp_all add: session_id_def)
    then show ?thesis using assms(4,7) hash by (simp add: parse_parts_def)
  next
    case (Some s)
    with assms(6) obtain i sd where s: "ses_id s = Some i" "find_session (str_nat i) = Ok (Some s)"
      "ses_deadline s = Some sd" "now \<le> sd" by (auto simp: session_stored_def)
    have "session_id t = str_nat i" by (simp add: session_id_def Some s py_str_id_def)
    moreover have "str_nat i \<noteq> []" using str_nat_digits by blast
    moreover have "t\<lparr>tok_deadline := d\<rparr> = ?t0\<lparr>tok_salt := tok_salt t, tok_deadline := d, tok_session := Some s\<rparr>"
      using Some by simp
    ultimately show ?thesis using assms(4,7) hash s by (simp add: parse_parts_def)
  qed
  with ne dec raw show ?thesis by (simp add: token_init_def or_else_def [of "Some _"] assms(8))
qed

text \<open>
  C12 (token_round_trip): A token that is written as text and read back is the same token, with
  its deadline cut to the precision of its text, as long as neither it nor its session has expired
  and the session is still in the database. AES, base64 and MD5 enter by their documented behaviour.
\<close>

theorem token_round_trip:
  assumes "crypto_ok C" and "newline \<notin> set (tok_salt t)" "newline \<notin> set (time_text C (tok_deadline t))"
    and "text_time C (time_text C (tok_deadline t)) = Ok d" "time_text C d = time_text C (tok_deadline t)"
    and "session_stored find_session now (tok_session t)" "now \<le> d"
    and "or_else key (secret_key C) = tok_key t"
  shows "token_init C find_session dflt now salt (Some (token_str C t)) key None None None = Ok (t\<lparr>tok_deadline := d\<rparr>)"
  by (rule token_reads_back [OF assms])

definition sample_crypto :: crypto where
  "sample_crypto = \<lparr>b64_encode = (\<lambda>x. x), b64_decode = Ok, aes_encrypt = (\<lambda>k x. rev x), aes_decrypt = (\<lambda>k x. Ok (rev x)),
     md5_hex = (\<lambda>x. str_nat (length x)), time_text = (\<lambda>d. str_nat (nat d)),
     text_time = (\<lambda>s. case parse_nat s of Some n \<Rightarrow> Ok (int n) | None \<Rightarrow> Raise ValueError), secret_key = ''key''\<rparr>"

definition sample_session :: session where
  "sample_session = session_save 5 7 (new_session\<lparr>ses_role := Some 3\<rparr>)"

lemma sample_crypto_ok: "crypto_ok sample_crypto"
  using str_nat_no_newline by (simp add: crypto_ok_def sample_crypto_def)

theorem token_round_trip_witness:
  "\<exists>t. tok_session t = Some sample_session \<and>
     token_init sample_crypto (\<lambda>i. Ok (if i = ''7'' then Some sample_session else None)) 0 6 ''s''
       (Some (token_str sample_crypto t)) None None None None = Ok t"
proof -
  define t where "t = \<lparr>tok_key = ''key'', tok_salt = ''abc'', tok_session = Some sample_session, tok_deadline = 9\<rparr>"
  have 7: "str_nat 7 = ''7''" by code_simp
  have "token_init sample_crypto (\<lambda>i. Ok (if i = ''7'' then Some sample_session else None)) 0 6 ''s''
       (Some (token_str sample_crypto t)) None None None None = Ok (t\<lparr>tok_deadline := 9\<rparr>)"
    by (rule token_round_trip [OF sample_crypto_ok])
      (auto simp: t_def sample_crypto_def str_nat_no_newline session_stored_def sample_session_def session_save_def
        new_session_def 7 session_timeout_def or_else_def)
  then show ?thesis by (intro exI [of _ t]) (simp add: t_def)
qed

text \<open>What it takes to be accepted.\<close>

lemma parse_parts_accepts:
  assumes "parse_parts C find_session now t0 raw = Ok t"
  shows "\<exists>r0 r1 r2. raw = [r0, r1, r2, genhash C t] \<and> tok_salt t = r0 \<and> text_time C r2 = Ok (tok_deadline t)
    \<and> now \<le> tok_deadline t
    \<and> (if r1 = [] then tok_session t = None
       else \<exists>s d. find_session r1 = Ok (Some s) \<and> tok_session t = Some s \<and> ses_deadline s = Some d \<and> now \<le> d)"
proof -
  obtain r0 r1 r2 r3 where raw: "raw = [r0, r1, r2, r3]"
    using assms by (auto simp: parse_parts_def split: list.splits)
  from assms obtain d where d: "text_time C r2 = Ok d" by (auto simp: parse_parts_def raw bind_ok_eq_Ok)
  let ?t1 = "t0\<lparr>tok_salt := r0, tok_deadline := d\<rparr>"
  have now: "now \<le> d" using assms by (auto simp: parse_parts_def raw d Let_def split: if_splits)
  show ?thesis
  proof (cases "r1 = []")
    case True
    with assms now have "t = ?t1\<lparr>tok_session := None\<rparr>" "r3 = genhash C t"
      by (auto simp: parse_parts_def raw d Let_def split: if_splits)
    with raw d now True show ?thesis by simp
  next
    case False
    obtain s where s: "find_session r1 = Ok (Some s)"
      using assms now False by (cases "find_session r1") (auto simp: parse_parts_def raw d Let_def split: option.splits)
    obtain sd where sd: "ses_deadline s = Some sd"
      using assms now False s by (cases "ses_deadline s") (auto simp: parse_parts_def raw d Let_def)
    have "now \<le> sd" "t = ?t1\<lparr>tok_session := Some s\<rparr>" "r3 = genhash C t"
      using assms now False s sd by (auto simp: parse_parts_def raw d Let_def split: if_splits)
    with raw d now False s sd show ?thesis by simp
  qed
qed



end
