(* ===== verification/Rights_Access.thy ===== *)
theory Rights_Access
  imports Rights
begin

section \<open>What the conditions on rights mean\<close>

text \<open>
  \<open>truth\<close> is the value of a condition in a database. The database is given by the entity a chain
  of fields leads to (\<open>cell\<close>, \<open>None\<close> for NULL), the entity in a column of a join (\<open>column\<close>), the
  privileges of the calling role on entities (\<open>priv\<close>) and on the global object (\<open>glob\<close>).

  \<open>granted\<close> says when a role has one of some rights, without any regard for the sets \<open>used\<close> with
  which the source avoids to ask twice: by a right on the entity that gives it (\<open>own\<close>), by a
  global right (\<open>global\<close>), by rights on its parent (\<open>parent\<close>), by what a more specific model of the
  same entity says (\<open>child\<close>), and only with the right required of the parent (\<open>required\<close>).
  The conditions of the source are true for exactly the roles to which \<open>granted\<close> applies.
\<close>

fun truth :: "(string list \<Rightarrow> 'e option) \<Rightarrow> (string \<times> string \<Rightarrow> 'e option) \<Rightarrow> ('e \<Rightarrow> string \<Rightarrow> bool) \<Rightarrow> (string \<Rightarrow> bool)
    \<Rightarrow> satori_node \<Rightarrow> bool" where
  "truth cell column priv glob (Connect cs k) =
     (if k = ''OR'' then list_ex (truth cell column priv glob) cs
      else if k = ''AND'' then list_all (truth cell column priv glob) cs else False)"
| "truth cell column priv glob (Right fl r _ _) = (case cell fl of None \<Rightarrow> False | Some e \<Rightarrow> priv e r)"
| "truth cell column priv glob (PreparedRight t c r) = (case column (t, c) of None \<Rightarrow> False | Some e \<Rightarrow> priv e r)"
| "truth cell column priv glob (GlobalRight r) = glob r"
| "truth cell column priv glob (IsNull fl v _) = ((cell fl = None) = v)"
| "truth cell column priv glob (PreparedIsNull t c v) = ((column (t, c) = None) = v)"

lemma truth_connect_or [simp]:
  "truth cell column priv glob (node_or a b) \<longleftrightarrow> truth cell column priv glob a \<or> truth cell column priv glob b"
  unfolding node_or_def connect_def by (cases a; cases b) (auto simp: list_ex_iff)

lemma truth_connect_and [simp]:
  "truth cell column priv glob (node_and a b) \<longleftrightarrow> truth cell column priv glob a \<and> truth cell column priv glob b"
  unfolding node_and_def connect_def by (cases a; cases b) (auto simp: list_all_iff)

lemma truth_own_nodes [simp]:
  "truth cell column priv glob (own_nodes p nl tr rs gs) \<longleftrightarrow>
     (\<exists>e r. cell p = Some e \<and> r \<in> set rs \<and> priv e r) \<or> (\<exists>g \<in> set gs. glob g)"
  by (cases "cell p") (auto simp: own_nodes_def list_ex_iff)

text \<open>Preparing a condition for a query does not change it, if the joins reach the right columns.\<close>

lemma prepare_truth:
  assumes "\<And>fl nl tr. column (joins fl nl tr) = cell fl" and "prepare joins nd = Ok nd'"
  shows "truth cell column priv glob nd' \<longleftrightarrow> truth cell column priv glob nd"
  using assms(2)
proof (induction nd arbitrary: nd')
  case (Connect cs k)
  then obtain cs' where cs': "map_outcome (prepare joins) cs = Ok cs'" "nd' = Connect cs' k"
    by (auto simp: outcome_simps)
  have "list_all2 (\<lambda>c c'. truth cell column priv glob c' \<longleftrightarrow> truth cell column priv glob c) cs cs'"
    using cs'(1) Connect.IH unfolding map_outcome_eq_Ok by (auto simp: list_all2_conv_all_nth)
  then have "list_ex (truth cell column priv glob) cs' = list_ex (truth cell column priv glob) cs"
    and "list_all (truth cell column priv glob) cs' = list_all (truth cell column priv glob) cs"
    by (induction rule: list_all2_induct) auto
  then show ?case by (simp add: cs'(2))
next
  case (Right fl r nl tr)
  then show ?case using assms(1) [of fl nl tr] by (auto split: prod.splits)
next
  case (IsNull fl v tr)
  then show ?case using assms(1) [of fl True tr] by (auto split: prod.splits)
qed auto

subsection \<open>The rules\<close>

definition given :: "rights_dict \<Rightarrow> string set \<Rightarrow> string set" where
  "given d R = (\<Union>r \<in> R. set (dget_def_val d r []))"

lemma given_Un [simp]: "given d (A \<union> B) = given d A \<union> given d B"
  by (auto simp: given_def)

lemma given_mono: "A \<subseteq> B \<Longrightarrow> given d A \<subseteq> given d B"
  by (auto simp: given_def)

lemma given_empty [simp]: "given d {} = {}"
  by (simp add: given_def)

definition place :: "string list \<Rightarrow> string list" where
  "place path = (if path = [] then [''id''] else path)"

lemma place_simps [simp]: "place (p @ [x]) = p @ [x]" "p \<noteq> [] \<Longrightarrow> place p = p"
  by (simp_all add: place_def)

inductive held :: "registry \<Rightarrow> (string list \<Rightarrow> 'e option) \<Rightarrow> ('e \<Rightarrow> string \<Rightarrow> bool) \<Rightarrow> (string \<Rightarrow> bool)
    \<Rightarrow> options \<Rightarrow> string set \<Rightarrow> string list \<Rightarrow> bool"
  and granted :: "registry \<Rightarrow> (string list \<Rightarrow> 'e option) \<Rightarrow> ('e \<Rightarrow> string \<Rightarrow> bool) \<Rightarrow> (string \<Rightarrow> bool)
    \<Rightarrow> options \<Rightarrow> string set \<Rightarrow> string list \<Rightarrow> bool"
  and required :: "registry \<Rightarrow> (string list \<Rightarrow> 'e option) \<Rightarrow> ('e \<Rightarrow> string \<Rightarrow> bool) \<Rightarrow> (string \<Rightarrow> bool)
    \<Rightarrow> options \<Rightarrow> string list \<Rightarrow> bool"
  for reg cell priv glob where
  own: "r \<in> given (inherit ro) R \<Longrightarrow> cell (place path) = Some e \<Longrightarrow> priv e r
        \<Longrightarrow> held reg cell priv glob ro R path"
| global: "r \<in> given (inherit_global ro) R \<Longrightarrow> glob r \<Longrightarrow> held reg cell priv glob ro R path"
| parent: "inherit_field ro = Some f \<Longrightarrow> parent_options reg ro = Ok po
        \<Longrightarrow> granted reg cell priv glob po (given (inherit_parent ro) R) (path @ [f])
        \<Longrightarrow> held reg cell priv glob ro R path"
| child: "(c, q) \<in> set (child_models ro) \<Longrightarrow> options_of reg c = Ok co \<Longrightarrow> cell (path @ [q]) \<noteq> None
        \<Longrightarrow> held reg cell priv glob co R (path @ [q]) \<Longrightarrow> held reg cell priv glob ro R path"
| granted: "held reg cell priv glob ro R path \<Longrightarrow> required reg cell priv glob ro path
        \<Longrightarrow> granted reg cell priv glob ro R path"
| required_parent: "inherit_parent_require ro = Some q \<Longrightarrow> inherit_field ro = Some f
        \<Longrightarrow> parent_options reg ro = Ok po
        \<Longrightarrow> granted reg cell priv glob po {q} (path @ [f]) \<Longrightarrow> required reg cell priv glob ro path"
| required_null: "inherit_parent_require ro = Some q \<Longrightarrow> inherit_field ro = Some f
        \<Longrightarrow> parent_options reg ro = Ok po
        \<Longrightarrow> inherit_field_nullable ro \<Longrightarrow> cell (path @ [f]) = None \<Longrightarrow> required reg cell priv glob ro path"
| required_children: "inherit_parent_require ro = None
        \<Longrightarrow> (\<And>c q co. (c, q) \<in> set (child_models ro) \<Longrightarrow> options_of reg c = Ok co \<Longrightarrow> cell (path @ [q]) \<noteq> None
               \<Longrightarrow> required reg cell priv glob co (path @ [q]))
        \<Longrightarrow> required reg cell priv glob ro path"

inductive_simps held_iff: "held reg cell priv glob ro R path"
inductive_simps granted_iff: "granted reg cell priv glob ro R path"
inductive_simps required_iff: "required reg cell priv glob ro path"

lemma held_nonempty:
  "held reg cell priv glob ro R path \<Longrightarrow> R \<noteq> {}"
  "granted reg cell priv glob ro R path \<Longrightarrow> R \<noteq> {}"
  "required reg cell priv glob ro path \<Longrightarrow> True"
  by (induction rule: held_granted_required.inducts) auto

lemma held_mono:
  "held reg cell priv glob ro R path \<Longrightarrow> R \<subseteq> R' \<Longrightarrow> held reg cell priv glob ro R' path"
  "granted reg cell priv glob ro R path \<Longrightarrow> R \<subseteq> R' \<Longrightarrow> granted reg cell priv glob ro R' path"
  "required reg cell priv glob ro path \<Longrightarrow> True"
proof (induction arbitrary: R' and R' rule: held_granted_required.inducts)
  case (own r ro R path e)
  then show ?case by (meson given_mono held_granted_required.own subsetD)
next
  case (global r ro R path)
  then show ?case by (meson given_mono held_granted_required.global subsetD)
next
  case (parent ro f po R path)
  then show ?case by (meson given_mono held_granted_required.parent)
next
  case (child c q ro co path R)
  then show ?case by (meson held_granted_required.child)
qed (auto intro: held_granted_required.granted)

lemma held_split:
  "held reg cell priv glob ro R path \<Longrightarrow> R = A \<union> B \<Longrightarrow> held reg cell priv glob ro A path \<or> held reg cell priv glob ro B path"
  "granted reg cell priv glob ro R path \<Longrightarrow> R = A \<union> B
     \<Longrightarrow> granted reg cell priv glob ro A path \<or> granted reg cell priv glob ro B path"
  "required reg cell priv glob ro path \<Longrightarrow> True"
proof (induction arbitrary: A B and A B rule: held_granted_required.inducts)
  case (own r ro R path e)
  then show ?case by (auto intro: held_granted_required.own)
next
  case (global r ro R path)
  then show ?case by (auto intro: held_granted_required.global)
next
  case (parent ro f po R path)
  then show ?case by (metis given_Un held_granted_required.parent)
next
  case (child c q ro co path R)
  then show ?case by (metis held_granted_required.child)
qed (auto intro: held_granted_required.granted)

lemma granted_Un:
  "granted reg cell priv glob ro (A \<union> B) path \<longleftrightarrow>
     granted reg cell priv glob ro A path \<or> granted reg cell priv glob ro B path"
  using held_split(2) held_mono(2) by (metis sup_ge1 sup_ge2)

text \<open>Two paths that lead to the same place are alike.\<close>

lemma held_same_place:
  "held reg cell priv glob ro R path \<Longrightarrow> path = p @ s \<Longrightarrow> p \<noteq> [] \<Longrightarrow> p' \<noteq> [] \<Longrightarrow> (\<And>s. cell (p' @ s) = cell (p @ s))
     \<Longrightarrow> held reg cell priv glob ro R (p' @ s)"
  "granted reg cell priv glob ro R path \<Longrightarrow> path = p @ s \<Longrightarrow> p \<noteq> [] \<Longrightarrow> p' \<noteq> [] \<Longrightarrow> (\<And>s. cell (p' @ s) = cell (p @ s))
     \<Longrightarrow> granted reg cell priv glob ro R (p' @ s)"
  "required reg cell priv glob ro path \<Longrightarrow> path = p @ s \<Longrightarrow> p \<noteq> [] \<Longrightarrow> p' \<noteq> [] \<Longrightarrow> (\<And>s. cell (p' @ s) = cell (p @ s))
     \<Longrightarrow> required reg cell priv glob ro (p' @ s)"
proof (induction arbitrary: s and s and s rule: held_granted_required.inducts)
  case (own r ro R path e)
  then have "cell (place (p' @ s)) = Some e" by (simp add: place_def)
  with own show ?case by (meson held_granted_required.own)
next
  case (global r ro R path)
  then show ?case by (meson held_granted_required.global)
next
  case (parent ro f po R path)
  then show ?case by (auto intro: held_granted_required.parent [OF parent(1,2)])
next
  case (child c q ro co path R)
  then show ?case by (auto intro: held_granted_required.child [OF child(1,2)])
next
  case (granted ro R path)
  then show ?case by (auto intro: held_granted_required.granted)
next
  case (required_parent ro q f po path)
  then show ?case by (auto intro: held_granted_required.required_parent [OF required_parent(1-3)])
next
  case (required_null ro q f po path)
  then have "cell ((p' @ s) @ [f]) = None" by simp
  with required_null show ?case by (blast intro: held_granted_required.required_null)
next
  case (required_children ro path)
  show ?case
  proof (rule held_granted_required.required_children)
    fix c q co
    assume c: "(c, q) \<in> set (child_models ro)" "options_of reg c = Ok co" "cell ((p' @ s) @ [q]) \<noteq> None"
    then have "cell (path @ [q]) \<noteq> None" using required_children.prems by simp
    from required_children.IH [OF c(1,2) this] required_children.prems
    show "required reg cell priv glob co ((p' @ s) @ [q])" by simp
  qed (rule required_children.hyps)
qed

end
