(* ===== verification/Rights_Equiv.thy ===== *)
theory Rights_Equiv
  imports Rights_Access
begin

section \<open>The conditions on rights are what the rules say\<close>

text \<open>
  The proof goes by induction on the number of frames. A proposition \<open>C\<close> stands for what the caller
  has asked already: \<open>get_rights_node\<close> and \<open>add_local_rights_nodes\<close> may leave out what \<open>C\<close> covers.
  \<^item> \<open>registry_ok\<close>: what \<open>process\<close> makes of the declarations: rights give themselves, a model
    without a parent inherits nothing from it, and a more specific model keeps the parent.
  \<^item> \<open>rows_ok\<close>: what the joins of the database do: NULL stays NULL, and the row of a more
    specific model is the same entity with the same parent.
\<close>

definition registry_ok :: "registry \<Rightarrow> bool" where
  "registry_ok reg \<longleftrightarrow> (\<forall>ro \<in> set reg.
     (\<forall>r rs. dget (inherit ro) r = Some rs \<longrightarrow> r \<in> set rs)
     \<and> (inherit_field ro = None \<longrightarrow> given (inherit_parent ro) UNIV = {})
     \<and> (\<forall>po. parent_options reg ro = Ok po \<longrightarrow> given (inherit_parent ro) UNIV \<subseteq> set (dkeys (inherit po)))
     \<and> (\<forall>c q co f. (c, q) \<in> set (child_models ro) \<and> options_of reg c = Ok co \<and> inherit_field ro = Some f \<longrightarrow>
          inherit_field co = Some f \<and> inherit_model co = inherit_model ro))"

definition rows_ok :: "registry \<Rightarrow> (string list \<Rightarrow> 'e option) \<Rightarrow> bool" where
  "rows_ok reg cell \<longleftrightarrow>
     (\<forall>p s. p \<noteq> [] \<and> cell p = None \<longrightarrow> cell (p @ s) = None)
     \<and> (\<forall>ro \<in> set reg. \<forall>(c, q) \<in> set (child_models ro). \<forall>p. cell (p @ [q]) \<noteq> None \<longrightarrow>
          cell (p @ [q]) = cell (place p)
          \<and> (\<forall>f s. inherit_field ro = Some f \<longrightarrow> cell (p @ [q] @ f # s) = cell (p @ f # s)))"

lemma options_of_in: "options_of reg m = Ok ro \<Longrightarrow> ro \<in> set reg"
  by (auto simp: options_of_def find_Some_iff split: option.splits)

lemma parent_options_in: "parent_options reg ro = Ok po \<Longrightarrow> po \<in> set reg"
  by (auto simp: parent_options_def options_of_in split: option.splits)

lemma all_inherited_given: "all_inherited d rs = Ok xs \<Longrightarrow> set xs = given d (set rs)"
  by (induction rs arbitrary: xs) (auto simp: outcome_simps dict_get_def given_def dget_def_val_def split: option.splits)

lemma inherited_sets_given:
  assumes "inherited_sets ro rights u up ug = Ok (rs, ps, gs)"
  shows "set rs = given (inherit ro) (set rights) - set u"
    "set ps = given (inherit_parent ro) (set rights) - set up"
    "set gs = given (inherit_global ro) (set rights) - set ug"
  using assms all_inherited_given by (auto simp: inherited_sets_def outcome_simps)

lemma self_given: "registry_ok reg \<Longrightarrow> ro \<in> set reg \<Longrightarrow> r \<in> set (dkeys (inherit ro)) \<Longrightarrow> r \<in> given (inherit ro) {r}"
proof -
  assume ok: "registry_ok reg" "ro \<in> set reg" and r: "r \<in> set (dkeys (inherit ro))"
  from r obtain rs where rs: "dget (inherit ro) r = Some rs" by (metis dget_None_iff not_None_eq)
  with ok have "r \<in> set rs" unfolding registry_ok_def by blast
  with rs show ?thesis by (simp add: given_def dget_def_val_def)
qed

lemma given_UNIV: "given d R \<subseteq> given d UNIV"
  by (auto simp: given_def)

lemma rows_null: "rows_ok reg cell \<Longrightarrow> p \<noteq> [] \<Longrightarrow> cell p = None \<Longrightarrow> cell (p @ s) = None"
  unfolding rows_ok_def by blast

lemma rows_child:
  assumes "rows_ok reg cell" "ro \<in> set reg" "(c, q) \<in> set (child_models ro)" "cell (p @ [q]) \<noteq> None"
  shows "cell (p @ [q]) = cell (place p)"
    and "inherit_field ro = Some f \<Longrightarrow> cell ((p @ [q, f]) @ s) = cell ((p @ [f]) @ s)"
  using assms unfolding rows_ok_def by fastforce+

text \<open>The loop over the children, for a step that adds an alternative or a requirement.\<close>

lemma children_add:
  assumes "for_children reg step cs path node = Ok node'"
    and "\<And>c q co nd nd'. (c, q) \<in> set cs \<Longrightarrow> options_of reg c = Ok co \<Longrightarrow> step co (path @ [q]) nd = Ok nd'
           \<Longrightarrow> (T nd' \<or> C) \<longleftrightarrow> (T nd \<or> C \<or> P q co)"
  shows "(T node' \<or> C) \<longleftrightarrow> (T node \<or> C \<or> (\<exists>(c, q) \<in> set cs. \<exists>co. options_of reg c = Ok co \<and> P q co))"
  using assms
proof (induction cs arbitrary: node)
  case (Cons cq cs)
  obtain c q where cq: "cq = (c, q)" by (cases cq)
  from Cons.prems(1) obtain co nd where co: "options_of reg c = Ok co" "step co (path @ [q]) node = Ok nd"
    "for_children reg step cs path nd = Ok node'"
    by (auto simp: outcome_simps cq)
  have "(T nd \<or> C) \<longleftrightarrow> (T node \<or> C \<or> P q co)" using Cons.prems(2) [of c q co node nd] co cq by simp
  moreover have "(T node' \<or> C) \<longleftrightarrow> (T nd \<or> C \<or> (\<exists>(c, q) \<in> set cs. \<exists>co. options_of reg c = Ok co \<and> P q co))"
    by (rule Cons.IH [OF co(3)], rule Cons.prems(2)) auto
  ultimately show ?case using co(1) cq by auto
qed simp

lemma children_require:
  assumes "for_children reg step cs path node = Ok node'"
    and "\<And>c q co nd nd'. (c, q) \<in> set cs \<Longrightarrow> options_of reg c = Ok co \<Longrightarrow> step co (path @ [q]) nd = Ok nd'
           \<Longrightarrow> T nd' \<longleftrightarrow> T nd \<and> P q co"
  shows "T node' \<longleftrightarrow> T node \<and> (\<forall>(c, q) \<in> set cs. \<forall>co. options_of reg c = Ok co \<longrightarrow> P q co)"
  using assms
proof (induction cs arbitrary: node)
  case (Cons cq cs)
  obtain c q where cq: "cq = (c, q)" by (cases cq)
  from Cons.prems(1) obtain co nd where co: "options_of reg c = Ok co" "step co (path @ [q]) node = Ok nd"
    "for_children reg step cs path nd = Ok node'"
    by (auto simp: outcome_simps cq)
  have "T nd \<longleftrightarrow> T node \<and> P q co" using Cons.prems(2) [of c q co node nd] co cq by simp
  moreover have "T node' \<longleftrightarrow> T nd \<and> (\<forall>(c, q) \<in> set cs. \<forall>co. options_of reg c = Ok co \<longrightarrow> P q co)"
    by (rule Cons.IH [OF co(3)], rule Cons.prems(2)) auto
  ultimately show ?case using co(1) cq by auto
qed simp

lemma children_mono:
  assumes "for_children reg step cs path node = Ok node'"
    and "\<And>co p nd nd'. step co p nd = Ok nd' \<Longrightarrow> T nd \<Longrightarrow> T nd'" and "T node"
  shows "T node'"
  using assms
  by (induction reg step cs path node rule: for_children.induct) (auto simp: outcome_simps)

text \<open>What a result of the two functions consists of.\<close>

definition with_parent :: "registry \<Rightarrow> nat \<Rightarrow> options \<Rightarrow> string list \<Rightarrow> bool \<Rightarrow> string list \<Rightarrow> string list \<Rightarrow> string list
    \<Rightarrow> satori_node \<Rightarrow> satori_node outcome" where
  "with_parent reg n ro path nl up ps ug local0 =
     (case inherit_field ro of
        Some f \<Rightarrow>
          if ps \<noteq> [] then
            bind_ok (parent_options reg ro) (\<lambda>po. map_ok (node_or local0)
              (get_rights_node reg n po ps (path @ [f]) nl up [] ug))
          else Ok local0
      | None \<Rightarrow> Ok local0)"

lemma add_local_result:
  assumes "add_local_rights_nodes reg (Suc n) ro rights path u up ug node = Ok node'"
  obtains rs ps gs node1 where
    "inherited_sets ro rights u up ug = Ok (rs, ps, gs)"
    "if rs \<noteq> [] \<or> ps \<noteq> [] \<or> gs \<noteq> []
     then \<exists>local1. with_parent reg n ro path True up ps (sunion ug gs) (own_nodes path True False rs gs) = Ok local1
       \<and> node1 = node_or node (node_and (IsNull path False False) local1)
     else node1 = node"
    "for_children reg (\<lambda>co p. add_local_rights_nodes reg n co rights p (sunion u rs) (sunion up ps) (sunion ug gs))
       (child_models ro) path node1 = Ok node'"
proof -
  let ?node1 = "\<lambda>rs ps gs. if rs \<noteq> [] \<or> ps \<noteq> [] \<or> gs \<noteq> []
     then bind_ok (with_parent reg n ro path True up ps (sunion ug gs) (own_nodes path True False rs gs))
       (\<lambda>local1. Ok (node_or node (node_and (IsNull path False False) local1)))
     else Ok node"
  let ?rest = "\<lambda>rs ps gs. for_children reg (\<lambda>co p. add_local_rights_nodes reg n co rights p (sunion u rs) (sunion up ps)
     (sunion ug gs)) (child_models ro) path"
  have "bind_ok (inherited_sets ro rights u up ug) (\<lambda>(rs, ps, gs). bind_ok (?node1 rs ps gs) (?rest rs ps gs)) = Ok node'"
    using assms unfolding add_local_rights_nodes.simps with_parent_def Let_def .
  then obtain rs ps gs node1 where 1: "inherited_sets ro rights u up ug = Ok (rs, ps, gs)"
    "?node1 rs ps gs = Ok node1" "?rest rs ps gs node1 = Ok node'"
    unfolding bind_ok_eq_Ok by (auto simp: bind_ok_eq_Ok simp del: for_children.simps split: prod.splits)
  show thesis
    by (rule that [OF 1(1) _ 1(3)]) (use 1(2) in \<open>auto simp: bind_ok_eq_Ok split: if_splits\<close>)
qed

lemma add_local_mono:
  "add_local_rights_nodes reg n ro rights path u up ug node = Ok node' \<Longrightarrow>
     truth cell column priv glob node \<Longrightarrow> truth cell column priv glob node'"
proof (induction n arbitrary: ro path u up ug node node')
  case (Suc n)
  from Suc.prems(1) show ?case
  proof (rule add_local_result)
    fix rs ps gs node1
    assume n1: "if rs \<noteq> [] \<or> ps \<noteq> [] \<or> gs \<noteq> []
       then \<exists>local1. with_parent reg n ro path True up ps (sunion ug gs) (own_nodes path True False rs gs) = Ok local1
         \<and> node1 = node_or node (node_and (IsNull path False False) local1)
       else node1 = node"
      and ch: "for_children reg (\<lambda>co p. add_local_rights_nodes reg n co rights p (sunion u rs) (sunion up ps) (sunion ug gs))
         (child_models ro) path node1 = Ok node'"
    have "truth cell column priv glob node1" using n1 Suc.prems(2) by (auto split: if_splits)
    from children_mono [where T = "truth cell column priv glob", OF ch _ this] Suc.IH show ?thesis by blast
  qed
qed simp

lemma get_result:
  assumes "get_rights_node reg (Suc n) ro rights path nl u up ug = Ok node"
  obtains rs ps gs local1 local2 where
    "inherited_sets ro rights u up ug = Ok (rs, ps, gs)"
    "with_parent reg n ro path (nl \<or> inherit_field_nullable ro) [] ps (sunion ug gs)
       (own_nodes (place path) nl True rs gs) = Ok local1"
    "for_children reg (\<lambda>co p. add_local_rights_nodes reg n co rights p (sunion u rs) (sunion up ps) (sunion ug gs))
       (child_models ro) path local1 = Ok local2"
    "case inherit_parent_require ro of
       Some q \<Rightarrow> \<exists>po f req. parent_options reg ro = Ok po \<and> inherit_field ro = Some f
         \<and> get_rights_node reg n po [q] (path @ [f]) (nl \<or> inherit_field_nullable ro) [] [] [] = Ok req
         \<and> node = node_and local2 (require_or_null ro (path @ [f]) req)
     | None \<Rightarrow> for_children reg (\<lambda>co p. add_local_require_nodes reg n co p) (child_models ro) path local2 = Ok node"
proof -
  let ?wp = "\<lambda>rs ps gs. with_parent reg n ro path (nl \<or> inherit_field_nullable ro) [] ps (sunion ug gs)
     (own_nodes (place path) nl True rs gs)"
  let ?kids = "\<lambda>rs ps gs. for_children reg (\<lambda>co p. add_local_rights_nodes reg n co rights p (sunion u rs) (sunion up ps)
     (sunion ug gs)) (child_models ro) path"
  let ?req = "\<lambda>local2. case inherit_parent_require ro of
       Some q \<Rightarrow>
         bind_ok (parent_options reg ro) (\<lambda>po.
         (case inherit_field ro of
            None \<Rightarrow> Raise TypeError
          | Some f \<Rightarrow> map_ok (\<lambda>req. node_and local2 (require_or_null ro (path @ [f]) req))
              (get_rights_node reg n po [q] (path @ [f]) (nl \<or> inherit_field_nullable ro) [] [] [])))
     | None \<Rightarrow> for_children reg (\<lambda>co p. add_local_require_nodes reg n co p) (child_models ro) path local2"
  have "bind_ok (inherited_sets ro rights u up ug) (\<lambda>(rs, ps, gs). bind_ok (?wp rs ps gs) (\<lambda>l1. bind_ok (?kids rs ps gs l1) ?req)) = Ok node"
    using assms unfolding get_rights_node.simps with_parent_def Let_def place_def .
  then obtain rs ps gs l1 l2 where 1: "inherited_sets ro rights u up ug = Ok (rs, ps, gs)"
    "?wp rs ps gs = Ok l1" "?kids rs ps gs l1 = Ok l2" "?req l2 = Ok node"
    unfolding bind_ok_eq_Ok by (auto simp: bind_ok_eq_Ok simp del: for_children.simps split: prod.splits)
  show thesis
    by (rule that [OF 1(1-3)])
      (use 1(4) in \<open>auto simp: bind_ok_eq_Ok map_ok_eq_Ok split: option.splits\<close>)
qed

subsection \<open>Three statements, proved together\<close>

definition get_ok :: "registry \<Rightarrow> (string list \<Rightarrow> 'e option) \<Rightarrow> (string \<times> string \<Rightarrow> 'e option) \<Rightarrow> ('e \<Rightarrow> string \<Rightarrow> bool)
    \<Rightarrow> (string \<Rightarrow> bool) \<Rightarrow> nat \<Rightarrow> bool" where
  "get_ok reg cell column priv glob n \<longleftrightarrow> (\<forall>ro rights path nl u ug nd C.
     get_rights_node reg n ro rights path nl u [] ug = Ok nd \<longrightarrow> ro \<in> set reg \<longrightarrow>
     (required reg cell priv glob ro path \<longrightarrow> (\<exists>e r. cell (place path) = Some e \<and> r \<in> set u \<and> priv e r) \<longrightarrow> C) \<longrightarrow>
     (required reg cell priv glob ro path \<longrightarrow> (\<exists>g \<in> set ug. glob g) \<longrightarrow> C) \<longrightarrow>
     (truth cell column priv glob nd \<or> C) = (granted reg cell priv glob ro (set rights) path \<or> C))"

definition add_ok :: "registry \<Rightarrow> (string list \<Rightarrow> 'e option) \<Rightarrow> (string \<times> string \<Rightarrow> 'e option) \<Rightarrow> ('e \<Rightarrow> string \<Rightarrow> bool)
    \<Rightarrow> (string \<Rightarrow> bool) \<Rightarrow> nat \<Rightarrow> bool" where
  "add_ok reg cell column priv glob n \<longleftrightarrow> (\<forall>ro rights path u up ug nd nd' C.
     add_local_rights_nodes reg n ro rights path u up ug nd = Ok nd' \<longrightarrow> ro \<in> set reg \<longrightarrow> path \<noteq> [] \<longrightarrow>
     ((\<exists>e r. cell path = Some e \<and> r \<in> set u \<and> priv e r) \<longrightarrow> C) \<longrightarrow>
     (cell path \<noteq> None \<longrightarrow> (\<exists>g \<in> set ug. glob g) \<longrightarrow> C) \<longrightarrow>
     (inherit_field ro = None \<longrightarrow> up = []) \<longrightarrow>
     (\<forall>po r. parent_options reg ro = Ok po \<longrightarrow> r \<in> set up \<longrightarrow> r \<in> given (inherit po) {r}) \<longrightarrow>
     (\<forall>f po. cell path \<noteq> None \<longrightarrow> inherit_field ro = Some f \<longrightarrow> parent_options reg ro = Ok po \<longrightarrow>
        granted reg cell priv glob po (set up) (path @ [f]) \<longrightarrow> C) \<longrightarrow>
     (truth cell column priv glob nd' \<or> C) =
       (truth cell column priv glob nd \<or> C \<or> cell path \<noteq> None \<and> held reg cell priv glob ro (set rights) path))"

definition require_ok :: "registry \<Rightarrow> (string list \<Rightarrow> 'e option) \<Rightarrow> (string \<times> string \<Rightarrow> 'e option) \<Rightarrow> ('e \<Rightarrow> string \<Rightarrow> bool)
    \<Rightarrow> (string \<Rightarrow> bool) \<Rightarrow> nat \<Rightarrow> bool" where
  "require_ok reg cell column priv glob n \<longleftrightarrow> (\<forall>ro path nd nd'.
     add_local_require_nodes reg n ro path nd = Ok nd' \<longrightarrow> ro \<in> set reg \<longrightarrow> path \<noteq> [] \<longrightarrow>
     truth cell column priv glob nd' =
       (truth cell column priv glob nd \<and> (cell path = None \<or> required reg cell priv glob ro path)))"

lemma with_parent_ok:
  assumes get: "get_ok reg cell column priv glob n"
    and wp: "with_parent reg n ro path nl up ps ug local0 = Ok local1"
    and ok: "registry_ok reg" "ro \<in> set reg"
    and ps: "set ps = given (inherit_parent ro) R - set up"
    and up: "\<And>f po. inherit_field ro = Some f \<Longrightarrow> parent_options reg ro = Ok po
               \<Longrightarrow> granted reg cell priv glob po (set up) (path @ [f]) \<Longrightarrow> C"
    and self: "\<And>po r. parent_options reg ro = Ok po \<Longrightarrow> r \<in> set up \<Longrightarrow> r \<in> given (inherit po) {r}"
    and ug: "(\<exists>g \<in> set ug. glob g) \<Longrightarrow> C \<or> truth cell column priv glob local0"
  shows "(truth cell column priv glob local1 \<or> C) \<longleftrightarrow> (truth cell column priv glob local0 \<or> C
     \<or> (\<exists>f po. inherit_field ro = Some f \<and> parent_options reg ro = Ok po
          \<and> granted reg cell priv glob po (given (inherit_parent ro) R) (path @ [f])))"
proof (cases "inherit_field ro")
  case None
  with wp show ?thesis by (simp add: with_parent_def)
next
  case (Some f)
  have covered: "C" if "parent_options reg ro = Ok po"
    "granted reg cell priv glob po (given (inherit_parent ro) R \<inter> set up) (path @ [f])" for po
    using up [OF Some that(1)] held_mono(2) [OF that(2)] by blast
  show ?thesis
  proof (cases "ps = []")
    case True
    then have "given (inherit_parent ro) R = given (inherit_parent ro) R \<inter> set up" using ps by auto
    with covered True wp Some show ?thesis by (auto simp: with_parent_def)
  next
    case False
    then obtain po nd where po: "parent_options reg ro = Ok po"
      and nd: "get_rights_node reg n po ps (path @ [f]) nl up [] ug = Ok nd" and l1: "local1 = node_or local0 nd"
      using wp Some by (auto simp: with_parent_def bind_ok_eq_Ok map_ok_eq_Ok)
    let ?C = "C \<or> truth cell column priv glob local0"
    have own: "?C" if req: "required reg cell priv glob po (path @ [f])"
      and e: "cell (path @ [f]) = Some e" "r \<in> set up" "priv e r" for e r
    proof -
      have "r \<in> given (inherit po) (set up)" using self [OF po e(2)] e(2) by (auto simp: given_def)
      then have "held reg cell priv glob po (set up) (path @ [f])"
        by (rule held_granted_required.own) (use e in auto)
      with req up [OF Some po] show ?thesis by (auto intro: held_granted_required.granted)
    qed
    have "(truth cell column priv glob nd \<or> ?C) = (granted reg cell priv glob po (set ps) (path @ [f]) \<or> ?C)"
      using get [unfolded get_ok_def, rule_format, OF nd parent_options_in [OF po], of ?C] own ug by auto
    moreover have "given (inherit_parent ro) R = set ps \<union> (given (inherit_parent ro) R \<inter> set up)" using ps by auto
    then have "granted reg cell priv glob po (given (inherit_parent ro) R) (path @ [f]) \<longleftrightarrow>
        granted reg cell priv glob po (set ps) (path @ [f])
        \<or> granted reg cell priv glob po (given (inherit_parent ro) R \<inter> set up) (path @ [f])"
      by (metis granted_Un)
    ultimately show ?thesis using covered [OF po] po Some l1 by auto
  qed
qed

lemma required_none:
  assumes "inherit_parent_require ro = None"
  shows "required reg cell priv glob ro path \<longleftrightarrow> (\<forall>(c, q) \<in> set (child_models ro). \<forall>co. options_of reg c = Ok co \<longrightarrow>
        cell (path @ [q]) = None \<or> required reg cell priv glob co (path @ [q]))"
  using assms by (auto simp: required_iff [of reg cell priv glob ro path]) (metis option.exhaust)

lemma required_some:
  assumes "inherit_parent_require ro = Some q" "inherit_field ro = Some f" "parent_options reg ro = Ok po"
  shows "required reg cell priv glob ro path \<longleftrightarrow> granted reg cell priv glob po {q} (path @ [f])
        \<or> (inherit_field_nullable ro \<and> cell (path @ [f]) = None)"
  using assms by (subst required_iff) auto

lemma require_step:
  assumes rows: "rows_ok reg cell"
    and get: "get_ok reg cell column priv glob n" and req: "require_ok reg cell column priv glob n"
  shows "require_ok reg cell column priv glob (Suc n)"
  unfolding require_ok_def
proof (intro allI impI)
  fix ro path nd nd'
  assume r: "add_local_require_nodes reg (Suc n) ro path nd = Ok nd'" and ro: "ro \<in> set reg" and path: "path \<noteq> []"
  let ?t = "truth cell column priv glob"
  show "?t nd' = (?t nd \<and> (cell path = None \<or> required reg cell priv glob ro path))"
  proof (cases "inherit_parent_require ro")
    case None
    have "?t nd' \<longleftrightarrow> ?t nd \<and> (\<forall>(c, q) \<in> set (child_models ro). \<forall>co. options_of reg c = Ok co \<longrightarrow>
        cell (path @ [q]) = None \<or> required reg cell priv glob co (path @ [q]))"
    proof (rule children_require)
      show "for_children reg (\<lambda>co p. add_local_require_nodes reg n co p) (child_models ro) path nd = Ok nd'"
        using r None by simp
    qed (use req [unfolded require_ok_def] options_of_in in auto)
    moreover note required_none [OF None, of reg cell priv glob path]
    moreover have "cell path = None \<Longrightarrow> cell (path @ [q]) = None" for q by (rule rows_null [OF rows path])
    ultimately show ?thesis by auto
  next
    case (Some q)
    then obtain po f x where po: "parent_options reg ro = Ok po" and f: "inherit_field ro = Some f"
      and x: "get_rights_node reg n po [q] (path @ [f]) True [] [] [] = Ok x"
      and nd': "nd' = node_and nd (require_or_null ro (path @ [f]) (node_or (IsNull path True False) x))"
      using r by (auto simp: bind_ok_eq_Ok map_ok_eq_Ok split: option.splits)
    have "?t x = granted reg cell priv glob po {q} (path @ [f])"
      using get [unfolded get_ok_def, rule_format, OF x parent_options_in [OF po], of False] by simp
    moreover note required_some [OF Some f po, of cell priv glob path]
    ultimately show ?thesis using nd' by (auto simp: require_or_null_def)
  qed
qed

text \<open>What a child inherits of the parent of a model.\<close>

lemma parent_rights_self:
  assumes ok: "registry_ok reg" "ro \<in> set reg" and sets: "inherited_sets ro rights u up ug = Ok (rs, ps, gs)"
  shows "parent_options reg ro = Ok po \<Longrightarrow> r \<in> set ps \<Longrightarrow> r \<in> given (inherit po) {r}"
    and "inherit_field ro = None \<Longrightarrow> ps = []"
proof -
  note sets' = inherited_sets_given [OF sets]
  show "r \<in> given (inherit po) {r}" if "parent_options reg ro = Ok po" "r \<in> set ps"
  proof -
    have "r \<in> given (inherit_parent ro) UNIV" using that(2) sets'(2) given_UNIV by blast
    then have "r \<in> set (dkeys (inherit po))" using ok that(1) unfolding registry_ok_def by blast
    with self_given [OF ok(1) parent_options_in [OF that(1)]] show ?thesis .
  qed
  show "ps = []" if "inherit_field ro = None"
  proof -
    have "given (inherit_parent ro) UNIV = {}" using ok that unfolding registry_ok_def by blast
    with given_UNIV [of "inherit_parent ro" "set rights"] have "given (inherit_parent ro) (set rights) = {}" by simp
    with sets'(2) show ?thesis by simp
  qed
qed

lemma child_keeps_parent:
  assumes ok: "registry_ok reg" "ro \<in> set reg" and c: "(c, q) \<in> set (child_models ro)" "options_of reg c = Ok co"
    and f: "inherit_field ro = Some f"
  shows "inherit_field co = Some f \<and> parent_options reg co = parent_options reg ro"
proof -
  have "inherit_field co = Some f \<and> inherit_model co = inherit_model ro"
    using ok c f unfolding registry_ok_def by blast
  then show ?thesis by (simp add: parent_options_def)
qed

lemma child_parent_ok:
  assumes ok: "registry_ok reg" "ro \<in> set reg" and c: "(c, q) \<in> set (child_models ro)" "options_of reg c = Ok co"
    and sets: "inherited_sets ro rights u up ug = Ok (rs, ps, gs)"
    and none: "inherit_field ro = None \<Longrightarrow> up = []"
    and self: "\<And>po r. parent_options reg ro = Ok po \<Longrightarrow> r \<in> set up \<Longrightarrow> r \<in> given (inherit po) {r}"
  shows "(inherit_field co = None \<longrightarrow> sunion up ps = []) \<and>
    (\<forall>po r. parent_options reg co = Ok po \<longrightarrow> r \<in> set (sunion up ps) \<longrightarrow> r \<in> given (inherit po) {r})"
proof (cases "inherit_field ro")
  case None
  then show ?thesis using none parent_rights_self(2) [OF ok sets None] by (simp add: sunion_def)
next
  case (Some f)
  from child_keeps_parent [OF ok c Some] show ?thesis
    using self parent_rights_self(1) [OF ok sets] by auto
qed

text \<open>The children of a model, with what its own alternatives cover.\<close>

lemma children_rights_ok:
  assumes rows: "rows_ok reg cell" and ok: "registry_ok reg" "ro \<in> set reg"
    and add: "add_ok reg cell column priv glob n"
    and kids: "for_children reg (\<lambda>co p. add_local_rights_nodes reg n co rights p u up ug) (child_models ro) path nd = Ok nd'"
    and u: "\<And>e r. cell (place path) = Some e \<Longrightarrow> r \<in> set u \<Longrightarrow> priv e r \<Longrightarrow> (path = [] \<or> cell path \<noteq> None) \<Longrightarrow> C"
    and ug: "(path = [] \<or> cell path \<noteq> None) \<Longrightarrow> \<exists>g \<in> set ug. glob g \<Longrightarrow> C"
    and none: "inherit_field ro = None \<Longrightarrow> up = []"
    and self: "\<And>po r. parent_options reg ro = Ok po \<Longrightarrow> r \<in> set up \<Longrightarrow> r \<in> given (inherit po) {r}"
    and up: "\<And>f po. (path = [] \<or> cell path \<noteq> None) \<Longrightarrow> inherit_field ro = Some f \<Longrightarrow> parent_options reg ro = Ok po
               \<Longrightarrow> granted reg cell priv glob po (set up) (path @ [f]) \<Longrightarrow> C"
  shows "(truth cell column priv glob nd' \<or> C) \<longleftrightarrow> (truth cell column priv glob nd \<or> C
     \<or> (\<exists>(c, q) \<in> set (child_models ro). \<exists>co. options_of reg c = Ok co
          \<and> cell (path @ [q]) \<noteq> None \<and> held reg cell priv glob co (set rights) (path @ [q])))"
proof (rule children_add [OF kids])
  fix c q co nd nd'
  assume c: "(c, q) \<in> set (child_models ro)" "options_of reg c = Ok co"
    and step: "add_local_rights_nodes reg n co rights (path @ [q]) u up ug nd = Ok nd'"
  have here: "path = [] \<or> cell path \<noteq> None" if "cell (path @ [q]) \<noteq> None"
    using that rows_null [OF rows, of path "[q]"] by (cases "path = []"; cases "cell path") simp_all
  note child = rows_child [OF rows ok(2) c(1)]
  have same: "granted reg cell priv glob po S (path @ [f])"
    if f: "inherit_field ro = Some f" and ne: "cell (path @ [q]) \<noteq> None"
      and g: "granted reg cell priv glob po S ((path @ [q]) @ [f])" for po S f
  proof -
    have "\<And>s. cell ((path @ [f]) @ s) = cell ((path @ [q, f]) @ s)" using child(2) [OF ne f] by simp
    from held_same_place(2) [where s = "[]" and p = "path @ [q, f]" and p' = "path @ [f]", OF g _ _ _ this]
    show ?thesis by simp
  qed
  note keep = child_keeps_parent [OF ok c]
  show "(truth cell column priv glob nd' \<or> C) = (truth cell column priv glob nd \<or> C
      \<or> cell (path @ [q]) \<noteq> None \<and> held reg cell priv glob co (set rights) (path @ [q]))"
  proof (rule add [unfolded add_ok_def, rule_format, OF step options_of_in [OF c(2)]])
    show "C" if *: "\<exists>e r. cell (path @ [q]) = Some e \<and> r \<in> set u \<and> priv e r"
    proof -
      from * obtain e r where e: "cell (path @ [q]) = Some e" "r \<in> set u" "priv e r" by blast
      then have "cell (place path) = Some e" using child(1) by simp
      with e here show ?thesis using u by auto
    qed
    show "C" if "cell (path @ [q]) \<noteq> None" "\<exists>g \<in> set ug. glob g" using that here ug by blast
    show "up = []" if "inherit_field co = None" using that keep none by (cases "inherit_field ro") auto
    show "r \<in> given (inherit po) {r}" if "parent_options reg co = Ok po" "r \<in> set up" for po r
      using that keep none self by (cases "inherit_field ro") auto
    show "C" if ne: "cell (path @ [q]) \<noteq> None" and f: "inherit_field co = Some f" and po: "parent_options reg co = Ok po"
      and g: "granted reg cell priv glob po (set up) ((path @ [q]) @ [f])" for f po
    proof (cases "inherit_field ro")
      case None
      with none have "up = []" by simp
      with held_nonempty(2) [OF g] show ?thesis by simp
    next
      case (Some f')
      with keep f po have "f' = f" "parent_options reg ro = Ok po" by auto
      with Some same [OF _ ne g] up here ne show ?thesis by blast
    qed
  qed simp
qed

lemma held_cases:
  "held reg cell priv glob ro R path \<longleftrightarrow>
     (\<exists>e r. cell (place path) = Some e \<and> r \<in> given (inherit ro) R \<and> priv e r)
     \<or> (\<exists>g \<in> given (inherit_global ro) R. glob g)
     \<or> (\<exists>f po. inherit_field ro = Some f \<and> parent_options reg ro = Ok po
          \<and> granted reg cell priv glob po (given (inherit_parent ro) R) (path @ [f]))
     \<or> (\<exists>(c, q) \<in> set (child_models ro). \<exists>co. options_of reg c = Ok co
          \<and> cell (path @ [q]) \<noteq> None \<and> held reg cell priv glob co R (path @ [q]))"
  by (subst held_iff) blast

text \<open>One model: its own alternatives in \<open>nd1\<close>, then those of its children.\<close>

lemma level_ok:
  assumes rows: "rows_ok reg cell" and ok: "registry_ok reg" "ro \<in> set reg"
    and add: "add_ok reg cell column priv glob n"
    and sets: "inherited_sets ro rights u up ug = Ok (rs, ps, gs)"
    and kids: "for_children reg (\<lambda>co p. add_local_rights_nodes reg n co rights p (sunion u rs) (sunion up ps) (sunion ug gs))
      (child_models ro) path nd1 = Ok nd2"
    and u: "\<And>e r. cell (place path) = Some e \<Longrightarrow> r \<in> set u \<Longrightarrow> priv e r \<Longrightarrow> C"
    and ug: "\<exists>g \<in> set ug. glob g \<Longrightarrow> C"
    and none: "inherit_field ro = None \<Longrightarrow> up = []"
    and self: "\<And>po r. parent_options reg ro = Ok po \<Longrightarrow> r \<in> set up \<Longrightarrow> r \<in> given (inherit po) {r}"
    and up: "\<And>f po. inherit_field ro = Some f \<Longrightarrow> parent_options reg ro = Ok po
               \<Longrightarrow> granted reg cell priv glob po (set up) (path @ [f]) \<Longrightarrow> C"
    and nd1: "(truth cell column priv glob nd1 \<or> C) \<longleftrightarrow> (B \<or> C
      \<or> (\<exists>e r. cell (place path) = Some e \<and> r \<in> set rs \<and> priv e r) \<or> (\<exists>g \<in> set gs. glob g)
      \<or> (\<exists>f po. inherit_field ro = Some f \<and> parent_options reg ro = Ok po
          \<and> granted reg cell priv glob po (given (inherit_parent ro) (set rights)) (path @ [f])))"
  shows "(truth cell column priv glob nd2 \<or> C) \<longleftrightarrow> (B \<or> C \<or> held reg cell priv glob ro (set rights) path)"
proof -
  let ?t = "truth cell column priv glob"
  note sets' = inherited_sets_given [OF sets]
  have mono: "?t nd1 \<Longrightarrow> ?t nd2"
    by (rule children_mono [where T = ?t, OF kids]) (auto intro: add_local_mono)
  note ps = parent_rights_self(1) [OF ok sets] and no_ps = parent_rights_self(2) [OF ok sets]
  have "(?t nd2 \<or> C \<or> ?t nd1) \<longleftrightarrow> (?t nd1 \<or> (C \<or> ?t nd1)
     \<or> (\<exists>(c, q) \<in> set (child_models ro). \<exists>co. options_of reg c = Ok co
          \<and> cell (path @ [q]) \<noteq> None \<and> held reg cell priv glob co (set rights) (path @ [q])))"
  proof (rule children_rights_ok [OF rows ok add kids])
    show "C \<or> ?t nd1" if "cell (place path) = Some e" "r \<in> set (sunion u rs)" "priv e r" for e r
    proof -
      from that(2) have "r \<in> set u \<or> r \<in> set rs" by simp
      with that(1,3) u nd1 show ?thesis by blast
    qed
    show "C \<or> ?t nd1" if "\<exists>g \<in> set (sunion ug gs). glob g" 
    proof -
      from that have "(\<exists>g \<in> set ug. glob g) \<or> (\<exists>g \<in> set gs. glob g)" by auto
      with ug nd1 show ?thesis by blast
    qed
    show "sunion up ps = []" if "inherit_field ro = None"
      using none [OF that] no_ps [OF that] by (simp add: sunion_def)
    show "r \<in> given (inherit po) {r}" if "parent_options reg ro = Ok po" "r \<in> set (sunion up ps)" for po r
      using that self ps by auto
    show "C \<or> ?t nd1" if f: "inherit_field ro = Some f" and po: "parent_options reg ro = Ok po"
      and g: "granted reg cell priv glob po (set (sunion up ps)) (path @ [f])" for f po
    proof -
      from g have "granted reg cell priv glob po (set up) (path @ [f]) \<or> granted reg cell priv glob po (set ps) (path @ [f])"
        by (simp add: granted_Un)
      then show ?thesis
      proof
        assume "granted reg cell priv glob po (set up) (path @ [f])"
        with up [OF f po] show ?thesis by simp
      next
        assume "granted reg cell priv glob po (set ps) (path @ [f])"
        then have "granted reg cell priv glob po (given (inherit_parent ro) (set rights)) (path @ [f])"
          by (rule held_mono(2)) (use sets'(2) in auto)
        with nd1 f po show ?thesis by blast
      qed
    qed
  qed
  with mono have 1: "(?t nd2 \<or> C) \<longleftrightarrow> (?t nd1 \<or> C
     \<or> (\<exists>(c, q) \<in> set (child_models ro). \<exists>co. options_of reg c = Ok co
          \<and> cell (path @ [q]) \<noteq> None \<and> held reg cell priv glob co (set rights) (path @ [q])))" by blast
  have own: "C \<or> (\<exists>e r. cell (place path) = Some e \<and> r \<in> set rs \<and> priv e r)"
    if "\<exists>e r. cell (place path) = Some e \<and> r \<in> given (inherit ro) (set rights) \<and> priv e r"
    using that u sets'(1) by blast
  have glb: "C \<or> (\<exists>g \<in> set gs. glob g)" if "\<exists>g \<in> given (inherit_global ro) (set rights). glob g"
    using that ug sets'(3) by blast
  have own': "\<exists>e r. cell (place path) = Some e \<and> r \<in> given (inherit ro) (set rights) \<and> priv e r"
    if "\<exists>e r. cell (place path) = Some e \<and> r \<in> set rs \<and> priv e r" using that sets'(1) by blast
  have glb': "\<exists>g \<in> given (inherit_global ro) (set rights). glob g" if "\<exists>g \<in> set gs. glob g" using that sets'(3) by blast
  show ?thesis
    unfolding 1 held_cases [of reg cell priv glob ro] using nd1 own glb own' glb' by argo
qed

lemma add_step:
  assumes rows: "rows_ok reg cell" and ok: "registry_ok reg"
    and get: "get_ok reg cell column priv glob n" and add: "add_ok reg cell column priv glob n"
  shows "add_ok reg cell column priv glob (Suc n)"
  unfolding add_ok_def
proof (intro allI impI)
  fix ro rights path u up ug nd nd' C
  assume a: "add_local_rights_nodes reg (Suc n) ro rights path u up ug nd = Ok nd'"
    and ro: "ro \<in> set reg" and path: "path \<noteq> []"
    and u: "(\<exists>e r. cell path = Some e \<and> r \<in> set u \<and> priv e r) \<longrightarrow> C"
    and ug: "cell path \<noteq> None \<longrightarrow> (\<exists>g \<in> set ug. glob g) \<longrightarrow> C"
    and none: "inherit_field ro = None \<longrightarrow> up = []"
    and self: "\<forall>po r. parent_options reg ro = Ok po \<longrightarrow> r \<in> set up \<longrightarrow> r \<in> given (inherit po) {r}"
    and up: "\<forall>f po. cell path \<noteq> None \<longrightarrow> inherit_field ro = Some f \<longrightarrow> parent_options reg ro = Ok po \<longrightarrow>
        granted reg cell priv glob po (set up) (path @ [f]) \<longrightarrow> C"
  let ?t = "truth cell column priv glob"
  from a obtain rs ps gs nd1 where
    sets: "inherited_sets ro rights u up ug = Ok (rs, ps, gs)"
    and nd1: "if rs \<noteq> [] \<or> ps \<noteq> [] \<or> gs \<noteq> []
     then \<exists>local1. with_parent reg n ro path True up ps (sunion ug gs) (own_nodes path True False rs gs) = Ok local1
       \<and> nd1 = node_or nd (node_and (IsNull path False False) local1)
     else nd1 = nd"
    and kids: "for_children reg (\<lambda>co p. add_local_rights_nodes reg n co rights p (sunion u rs) (sunion up ps) (sunion ug gs))
       (child_models ro) path nd1 = Ok nd'"
    by (rule add_local_result)
  note sets' = inherited_sets_given [OF sets]
  show "(?t nd' \<or> C) = (?t nd \<or> C \<or> cell path \<noteq> None \<and> held reg cell priv glob ro (set rights) path)"
  proof (cases "cell path")
    case None
    have "cell (p @ q) = None" if "p = path" for p q using rows_null [OF rows path None] that by simp
    then have null: "cell (path @ [q]) = None" for q by simp
    have 1: "?t nd1 = ?t nd" using nd1 None by (auto split: if_splits)
    have "(?t nd' \<or> False) \<longleftrightarrow> (?t nd1 \<or> False \<or> (\<exists>(c, q) \<in> set (child_models ro). \<exists>co. options_of reg c = Ok co \<and> False))"
    proof (rule children_add [OF kids])
      fix c q co x x'
      assume c: "(c, q) \<in> set (child_models ro)" "options_of reg c = Ok co"
        and s: "add_local_rights_nodes reg n co rights (path @ [q]) (sunion u rs) (sunion up ps) (sunion ug gs) x = Ok x'"
      show "(?t x' \<or> False) = (?t x \<or> False \<or> False)"
      proof -
        have par: "(inherit_field co = None \<longrightarrow> sunion up ps = []) \<and>
          (\<forall>po r. parent_options reg co = Ok po \<longrightarrow> r \<in> set (sunion up ps) \<longrightarrow> r \<in> given (inherit po) {r})"
          by (rule child_parent_ok [OF ok ro c sets]) (use none self in auto)
        have "(?t x' \<or> False) = (?t x \<or> False \<or> cell (path @ [q]) \<noteq> None \<and> held reg cell priv glob co (set rights) (path @ [q]))"
          by (rule add [unfolded add_ok_def, rule_format, OF s options_of_in [OF c(2)]]) (use par null in auto)
        with null show ?thesis by simp
      qed
    qed
    with 1 None show ?thesis by auto
  next
    case (Some e)
    have nd1: "(?t nd1 \<or> C) \<longleftrightarrow> (?t nd \<or> C
      \<or> (\<exists>e r. cell (place path) = Some e \<and> r \<in> set rs \<and> priv e r) \<or> (\<exists>g \<in> set gs. glob g)
      \<or> (\<exists>f po. inherit_field ro = Some f \<and> parent_options reg ro = Ok po
          \<and> granted reg cell priv glob po (given (inherit_parent ro) (set rights)) (path @ [f])))"
    proof (cases "rs \<noteq> [] \<or> ps \<noteq> [] \<or> gs \<noteq> []")
      case True
      with nd1 obtain l1 where wp: "with_parent reg n ro path True up ps (sunion ug gs) (own_nodes path True False rs gs) = Ok l1"
        and n1: "nd1 = node_or nd (node_and (IsNull path False False) l1)" by auto
      have "(?t l1 \<or> C) \<longleftrightarrow> (?t (own_nodes path True False rs gs) \<or> C
         \<or> (\<exists>f po. inherit_field ro = Some f \<and> parent_options reg ro = Ok po
              \<and> granted reg cell priv glob po (given (inherit_parent ro) (set rights)) (path @ [f])))"
      proof (rule with_parent_ok [OF get wp ok ro sets'(2)])
        show "C \<or> ?t (own_nodes path True False rs gs)" if "\<exists>g \<in> set (sunion ug gs). glob g"
        proof -
          from that have "(\<exists>g \<in> set ug. glob g) \<or> (\<exists>g \<in> set gs. glob g)" by auto
          with ug Some show ?thesis by auto
        qed
      qed (use up self Some in auto)
      with n1 Some path show ?thesis by auto
    next
      case False
      have "C" if f: "inherit_field ro = Some f" and po: "parent_options reg ro = Ok po"
        and g: "granted reg cell priv glob po (given (inherit_parent ro) (set rights)) (path @ [f])" for f po
      proof -
        have "given (inherit_parent ro) (set rights) \<subseteq> set up" using sets'(2) False by auto
        from held_mono(2) [OF g this] up f po Some show ?thesis by auto
      qed
      with False nd1 show ?thesis by auto
    qed
    have "(?t nd' \<or> C) = (?t nd \<or> C \<or> held reg cell priv glob ro (set rights) path)"
      by (rule level_ok [OF rows ok ro add sets kids _ _ _ _ _ nd1]) (use u ug none self up Some path in auto)
    with Some show ?thesis by simp
  qed
qed

lemma get_step:
  assumes rows: "rows_ok reg cell" and ok: "registry_ok reg"
    and get: "get_ok reg cell column priv glob n" and add: "add_ok reg cell column priv glob n"
    and req: "require_ok reg cell column priv glob n"
  shows "get_ok reg cell column priv glob (Suc n)"
  unfolding get_ok_def
proof (intro allI impI)
  fix ro rights path nl u ug nd C
  assume g: "get_rights_node reg (Suc n) ro rights path nl u [] ug = Ok nd" and ro: "ro \<in> set reg"
    and u: "required reg cell priv glob ro path \<longrightarrow> (\<exists>e r. cell (place path) = Some e \<and> r \<in> set u \<and> priv e r) \<longrightarrow> C"
    and ug: "required reg cell priv glob ro path \<longrightarrow> (\<exists>g \<in> set ug. glob g) \<longrightarrow> C"
  let ?t = "truth cell column priv glob" let ?r = "required reg cell priv glob ro path"
  from g obtain rs ps gs l1 l2 where
    sets: "inherited_sets ro rights u [] ug = Ok (rs, ps, gs)"
    and wp: "with_parent reg n ro path (nl \<or> inherit_field_nullable ro) [] ps (sunion ug gs)
       (own_nodes (place path) nl True rs gs) = Ok l1"
    and kids: "for_children reg (\<lambda>co p. add_local_rights_nodes reg n co rights p (sunion u rs) (sunion [] ps) (sunion ug gs))
       (child_models ro) path l1 = Ok l2"
    and rq: "case inherit_parent_require ro of
       Some q \<Rightarrow> \<exists>po f req. parent_options reg ro = Ok po \<and> inherit_field ro = Some f
         \<and> get_rights_node reg n po [q] (path @ [f]) (nl \<or> inherit_field_nullable ro) [] [] [] = Ok req
         \<and> nd = node_and l2 (require_or_null ro (path @ [f]) req)
     | None \<Rightarrow> for_children reg (\<lambda>co p. add_local_require_nodes reg n co p) (child_models ro) path l2 = Ok nd"
    by (rule get_result)
  have required: "?t nd \<longleftrightarrow> ?t l2 \<and> ?r"
  proof (cases "inherit_parent_require ro")
    case None
    have "?t nd \<longleftrightarrow> ?t l2 \<and> (\<forall>(c, q) \<in> set (child_models ro). \<forall>co. options_of reg c = Ok co \<longrightarrow>
        cell (path @ [q]) = None \<or> required reg cell priv glob co (path @ [q]))"
    proof (rule children_require)
      show "for_children reg (\<lambda>co p. add_local_require_nodes reg n co p) (child_models ro) path l2 = Ok nd"
        using rq None by simp
    qed (use req [unfolded require_ok_def] options_of_in in auto)
    with required_none [OF None, of reg cell priv glob path] show ?thesis by simp
  next
    case (Some q)
    then obtain po f x where po: "parent_options reg ro = Ok po" and f: "inherit_field ro = Some f"
      and x: "get_rights_node reg n po [q] (path @ [f]) (nl \<or> inherit_field_nullable ro) [] [] [] = Ok x"
      and nd: "nd = node_and l2 (require_or_null ro (path @ [f]) x)"
      using rq by auto
    have "?t x = granted reg cell priv glob po {q} (path @ [f])"
      using get [unfolded get_ok_def, rule_format, OF x parent_options_in [OF po], of False] by simp
    with required_some [OF Some f po, of cell priv glob path] nd show ?thesis by (auto simp: require_or_null_def)
  qed
  show "(?t nd \<or> C) = (granted reg cell priv glob ro (set rights) path \<or> C)"
  proof (cases ?r)
    case False
    with required show ?thesis by (simp add: granted_iff)
  next
    case True
    have "(?t l1 \<or> C) \<longleftrightarrow> (?t (own_nodes (place path) nl True rs gs) \<or> C
       \<or> (\<exists>f po. inherit_field ro = Some f \<and> parent_options reg ro = Ok po
            \<and> granted reg cell priv glob po (given (inherit_parent ro) (set rights)) (path @ [f])))"
    proof (rule with_parent_ok [OF get wp ok ro inherited_sets_given(2) [OF sets]])
      show "C" if "granted reg cell priv glob po (set []) (path @ [f])" for f po
        using held_nonempty(2) [OF that] by simp
      show "C \<or> ?t (own_nodes (place path) nl True rs gs)" if "\<exists>g \<in> set (sunion ug gs). glob g"
      proof -
        from that have "(\<exists>g \<in> set ug. glob g) \<or> (\<exists>g \<in> set gs. glob g)" by auto
        with ug True show ?thesis by auto
      qed
    qed auto
    then have l1: "(?t l1 \<or> C) \<longleftrightarrow> (False \<or> C
      \<or> (\<exists>e r. cell (place path) = Some e \<and> r \<in> set rs \<and> priv e r) \<or> (\<exists>g \<in> set gs. glob g)
      \<or> (\<exists>f po. inherit_field ro = Some f \<and> parent_options reg ro = Ok po
          \<and> granted reg cell priv glob po (given (inherit_parent ro) (set rights)) (path @ [f])))"
      by auto
    have "(?t l2 \<or> C) = (False \<or> C \<or> held reg cell priv glob ro (set rights) path)"
    proof (rule level_ok [OF rows ok ro add sets kids _ _ _ _ _ l1])
      show "C" if "granted reg cell priv glob po (set []) (path @ [f])" for f po
        using held_nonempty(2) [OF that] by simp
    qed (use u ug True in auto)
    with True required show ?thesis by (auto simp: granted_iff)
  qed
qed

lemma nodes_ok:
  assumes "rows_ok reg cell" "registry_ok reg"
  shows "get_ok reg cell column priv glob n \<and> add_ok reg cell column priv glob n \<and> require_ok reg cell column priv glob n"
proof (induction n)
  case 0
  show ?case by (simp add: get_ok_def add_ok_def require_ok_def)
next
  case (Suc n)
  with assms get_step add_step require_step show ?case by blast
qed

subsection \<open>The nodes of a model\<close>

lemma nodes_for_result:
  assumes "nodes_for reg depth ro rs d = Ok d'"
    and "\<And>r nd. dget d r = Some nd \<Longrightarrow> get_rights_node reg depth ro [r] [] False [] [] [] = Ok nd"
  shows "(\<forall>r nd. dget d' r = Some nd \<longrightarrow> get_rights_node reg depth ro [r] [] False [] [] [] = Ok nd)
    \<and> set (dkeys d') = set (dkeys d) \<union> set rs"
  using assms
proof (induction rs arbitrary: d)
  case (Cons r rs)
  from Cons.prems(1) obtain nd where nd: "get_rights_node reg depth ro [r] [] False [] [] [] = Ok nd"
    and rest: "nodes_for reg depth ro rs (dset r nd d) = Ok d'"
    unfolding nodes_for.simps bind_ok_eq_Ok by blast
  have "get_rights_node reg depth ro [x] [] False [] [] [] = Ok y" if "dget (dset r nd d) x = Some y" for x y
    using that nd Cons.prems(2) [of x y] by (cases "x = r") simp_all
  note Cons.IH [OF rest this]
  then show ?case by simp
qed simp

lemma create_nodes_result:
  assumes "create_nodes reg depth ro = Ok ro'" "rights_of ro = Some rs" "r \<in> set rs"
  shows "\<exists>nd. dget (nodes ro') r = Some nd \<and> get_rights_node reg depth ro [r] [] False [] [] [] = Ok nd"
proof -
  from assms(1,2) obtain d where d: "nodes_for reg depth ro rs [] = Ok d" and ro': "ro' = ro\<lparr>nodes := d\<rparr>"
    by (auto simp: create_nodes_def get_rights_def bind_ok_eq_Ok map_ok_eq_Ok)
  from nodes_for_result [OF d] assms(3) have "r \<in> set (dkeys d)" by simp
  then obtain nd where "dget d r = Some nd" by (metis dget_None_iff not_None_eq)
  with nodes_for_result [OF d] ro' show ?thesis by simp
qed

text \<open>
  C4 (rights_node_meaning): For every right of a model, the condition that create_nodes
  stores is true in a database for exactly those roles to which the rules grant the right, although
  the source leaves out every right and global right it has already asked for on the way to parents
  and to more specific models.
\<close>

theorem rights_node_meaning:
  assumes "create_nodes reg depth ro = Ok ro'" and "rights_of ro = Some rs" "r \<in> set rs"
    and "registry_ok reg" "ro \<in> set reg" and "rows_ok reg cell"
  shows "\<exists>nd. dget (nodes ro') r = Some nd
    \<and> (truth cell column priv glob nd \<longleftrightarrow> granted reg cell priv glob ro {r} [])"
proof -
  obtain nd where nd: "dget (nodes ro') r = Some nd" "get_rights_node reg depth ro [r] [] False [] [] [] = Ok nd"
    using create_nodes_result [OF assms(1-3)] by blast
  have "get_ok reg cell column priv glob depth" using nodes_ok assms by blast
  from this [unfolded get_ok_def, rule_format, OF nd(2) assms(5), of False] nd(1) show ?thesis by simp
qed

definition sample_contest :: options where
  "sample_contest = (plain_options ''Contest'' [] [])
     \<lparr>rights_of := Some [''VIEW'', ''MANAGE''],
      inherit := [(''VIEW'', [''VIEW'', ''MANAGE'']), (''MANAGE'', [''MANAGE''])],
      inherit_parent := [(''VIEW'', []), (''MANAGE'', [])],
      inherit_global := [(''VIEW'', [''ADMIN'']), (''MANAGE'', [''ADMIN''])]\<rparr>"

definition sample_question :: options where
  "sample_question = (plain_options ''Question'' [] [])
     \<lparr>rights_of := Some [''VIEW''],
      inherit := [(''VIEW'', [''VIEW''])],
      inherit_parent := [(''VIEW'', [''MANAGE''])],
      inherit_global := [(''VIEW'', [])],
      inherit_field := Some ''contest'', inherit_model := Some ''Contest'',
      inherit_parent_require := Some ''VIEW''\<rparr>"

definition sample_rows :: "string list \<Rightarrow> nat option" where
  "sample_rows p = (if p = [''id''] then Some 1 else if p = [''contest''] then Some 2 else None)"

lemma sample_ok:
  "registry_ok [sample_contest, sample_question]"
  "rows_ok [sample_contest, sample_question] sample_rows"
  by (auto simp: registry_ok_def sample_contest_def sample_question_def plain_options_def given_def dget_def_val_def
      parent_options_def options_of_def dkeys_def split: if_splits)
    (auto simp: rows_ok_def sample_contest_def sample_question_def plain_options_def sample_rows_def
      Cons_eq_append_conv append_eq_Cons_conv split: if_splits)

lemma sample_nodes:
  "create_nodes [sample_contest, sample_question] 5 sample_question = Ok (sample_question
     \<lparr>nodes := [(''VIEW'', Connect [Connect [Right [''id''] ''VIEW'' False True, Right [''contest''] ''MANAGE'' False True,
          GlobalRight ''ADMIN''] ''OR'',
        Connect [Right [''contest''] ''VIEW'' False True, Right [''contest''] ''MANAGE'' False True,
          GlobalRight ''ADMIN''] ''OR''] ''AND'')]\<rparr>)"
  by code_simp

theorem rights_node_meaning_witness:
  "\<exists>nd. dget (nodes (case create_nodes [sample_contest, sample_question] 5 sample_question of Ok ro' \<Rightarrow> ro')) ''VIEW'' = Some nd
    \<and> (truth sample_rows (\<lambda>_. None) (\<lambda>e r. e = 2 \<and> r = ''MANAGE'') (\<lambda>_. False) nd \<longleftrightarrow>
       granted [sample_contest, sample_question] sample_rows (\<lambda>e r. e = 2 \<and> r = ''MANAGE'') (\<lambda>_. False)
         sample_question {''VIEW''} [])"
  unfolding sample_nodes outcome.case
  by (rule rights_node_meaning [where rs = "[''VIEW'']", OF sample_nodes _ _ sample_ok(1) _ sample_ok(2)])
    (simp_all add: sample_question_def)

subsection \<open>Privileges\<close>

lemma held_more_privileges:
  "held reg cell priv glob ro R path \<Longrightarrow> (\<And>e r. priv e r \<Longrightarrow> priv' e r) \<Longrightarrow> (\<And>r. glob r \<Longrightarrow> glob' r)
     \<Longrightarrow> held reg cell priv' glob' ro R path"
  "granted reg cell priv glob ro R path \<Longrightarrow> (\<And>e r. priv e r \<Longrightarrow> priv' e r) \<Longrightarrow> (\<And>r. glob r \<Longrightarrow> glob' r)
     \<Longrightarrow> granted reg cell priv' glob' ro R path"
  "required reg cell priv glob ro path \<Longrightarrow> (\<And>e r. priv e r \<Longrightarrow> priv' e r) \<Longrightarrow> (\<And>r. glob r \<Longrightarrow> glob' r)
     \<Longrightarrow> required reg cell priv' glob' ro path"
  by (induction rule: held_granted_required.inducts)
    (blast intro: held_granted_required.intros)+

lemma held_has_privilege:
  "held reg cell priv glob ro R path \<Longrightarrow> (\<exists>e r. priv e r) \<or> (\<exists>r. glob r)"
  "granted reg cell priv glob ro R path \<Longrightarrow> (\<exists>e r. priv e r) \<or> (\<exists>r. glob r)"
  "required reg cell priv glob ro path \<Longrightarrow> True"
  by (induction rule: held_granted_required.inducts) blast+

subsection \<open>Depth of the recursion\<close>

text \<open>A measure that falls from a model to its parent and to its more specific models.\<close>

definition ranked :: "registry \<Rightarrow> (string \<Rightarrow> nat) \<Rightarrow> bool" where
  "ranked reg rank \<longleftrightarrow> (\<forall>ro \<in> set reg.
     (\<forall>m. inherit_model ro = Some m \<longrightarrow> rank m < rank (model ro))
     \<and> (\<forall>(c, q) \<in> set (child_models ro). rank c < rank (model ro)))"

lemma options_of_model: "options_of reg m = Ok ro \<Longrightarrow> model ro = m"
  by (auto simp: options_of_def find_Some_iff split: option.splits)

lemma parent_rank: "ranked reg rank \<Longrightarrow> ro \<in> set reg \<Longrightarrow> parent_options reg ro = Ok po \<Longrightarrow> rank (model po) < rank (model ro)"
  unfolding ranked_def parent_options_def by (auto simp: options_of_model split: option.splits)

lemma child_rank: "ranked reg rank \<Longrightarrow> ro \<in> set reg \<Longrightarrow> (c, q) \<in> set (child_models ro) \<Longrightarrow> options_of reg c = Ok co
    \<Longrightarrow> rank (model co) < rank (model ro)"
  unfolding ranked_def using options_of_model by fastforce

lemma bind_no_raise: "m \<noteq> Raise e \<Longrightarrow> (\<And>x. m = Ok x \<Longrightarrow> f x \<noteq> Raise e) \<Longrightarrow> bind_ok m f \<noteq> Raise e"
  by (cases m) auto

lemma map_ok_eq_Raise [simp]: "map_ok f m = Raise e \<longleftrightarrow> m = Raise e"
  by (cases m) auto

lemma lookups_no_recursion [simp]:
  "dict_get d k \<noteq> Raise recursion_error" "options_of reg m \<noteq> Raise recursion_error"
  "parent_options reg ro \<noteq> Raise recursion_error" "all_inherited d rs \<noteq> Raise recursion_error"
  "inherited_sets ro rs u up ug \<noteq> Raise recursion_error"
proof -
  show d: "dict_get d k \<noteq> Raise recursion_error" for d :: "('a, 'b) dict" and k
    by (auto simp: dict_get_def recursion_error_def split: option.splits)
  show o: "options_of reg m \<noteq> Raise recursion_error" for m
    by (auto simp: options_of_def recursion_error_def split: option.splits)
  show "parent_options reg ro \<noteq> Raise recursion_error"
    using o by (auto simp: parent_options_def recursion_error_def split: option.splits)
  show a: "all_inherited d rs \<noteq> Raise recursion_error" for d rs
    by (induction rs) (auto simp: bind_ok_eq_Raise dict_get_def recursion_error_def split: option.splits)
  show "inherited_sets ro rs u up ug \<noteq> Raise recursion_error"
    using a by (auto simp: inherited_sets_def bind_ok_eq_Raise)
qed

lemma for_children_no_recursion:
  assumes "\<And>c q co p nd. (c, q) \<in> set cs \<Longrightarrow> options_of reg c = Ok co \<Longrightarrow> step co p nd \<noteq> Raise recursion_error"
  shows "for_children reg step cs path nd \<noteq> Raise recursion_error"
  using assms
proof (induction cs arbitrary: nd)
  case (Cons cq cs)
  obtain c q where cq: "cq = (c, q)" by (cases cq)
  have "for_children reg step cs path nd \<noteq> Raise recursion_error" for nd
    by (rule Cons.IH, rule Cons.prems) auto
  with Cons.prems [of c q] cq show ?case by (auto simp: bind_ok_eq_Raise)
qed simp

lemma enough_frames:
  assumes "ranked reg rank"
  shows "(\<forall>ro rights path nl u up ug. ro \<in> set reg \<longrightarrow> rank (model ro) < n \<longrightarrow>
       get_rights_node reg n ro rights path nl u up ug \<noteq> Raise recursion_error)
   \<and> (\<forall>ro rights path u up ug nd. ro \<in> set reg \<longrightarrow> rank (model ro) < n \<longrightarrow>
       add_local_rights_nodes reg n ro rights path u up ug nd \<noteq> Raise recursion_error)
   \<and> (\<forall>ro path nd. ro \<in> set reg \<longrightarrow> rank (model ro) < n \<longrightarrow>
       add_local_require_nodes reg n ro path nd \<noteq> Raise recursion_error)"
proof (induction n)
  case (Suc n)
  have get: "get_rights_node reg n po ps path nl u up ug \<noteq> Raise recursion_error"
    if "ro \<in> set reg" "rank (model ro) < Suc n" "parent_options reg ro = Ok po" for ro po ps path nl u up ug
    using that Suc parent_rank [OF assms that(1,3)] parent_options_in [OF that(3)] by auto
  have kids: "for_children reg (\<lambda>co p. add_local_rights_nodes reg n co rights p u up ug) (child_models ro) path nd \<noteq> Raise recursion_error"
    "for_children reg (\<lambda>co p. add_local_require_nodes reg n co p) (child_models ro) path nd \<noteq> Raise recursion_error"
    if "ro \<in> set reg" "rank (model ro) < Suc n" for ro rights u up ug path nd
    by (rule for_children_no_recursion,
        use that Suc child_rank [OF assms that(1)] options_of_in in fastforce)+
  have wp: "(case inherit_field ro of
        Some f \<Rightarrow>
          if ps \<noteq> [] then
            bind_ok (parent_options reg ro) (\<lambda>po. map_ok (node_or local0)
              (get_rights_node reg n po ps (path @ [f]) nl up [] ug))
          else Ok local0
      | None \<Rightarrow> Ok local0) \<noteq> Raise recursion_error"
    if "ro \<in> set reg" "rank (model ro) < Suc n" for ro path nl up ps ug local0
    using get [OF that] by (auto simp: bind_ok_eq_Raise split: option.splits)
  have rq: "bind_ok (parent_options reg ro) (\<lambda>po. case inherit_field ro of None \<Rightarrow> Raise TypeError
      | Some f \<Rightarrow> map_ok (h f) (get_rights_node reg n po [q] (path @ [f]) nl [] [] [])) \<noteq> Raise recursion_error"
    if "ro \<in> set reg" "rank (model ro) < Suc n" for ro q path nl h
  proof -
    have "TypeError \<noteq> recursion_error" by (simp add: recursion_error_def)
    then show ?thesis using get [OF that] by (auto simp: bind_ok_eq_Raise split: option.splits)
  qed
  show ?case
  proof (intro conjI allI impI)
    fix ro rights path nl u up ug
    assume r: "ro \<in> set reg" "rank (model ro) < Suc n"
    show "get_rights_node reg (Suc n) ro rights path nl u up ug \<noteq> Raise recursion_error"
      unfolding get_rights_node.simps Let_def
    proof (rule bind_no_raise)
      fix t :: "string list \<times> string list \<times> string list"
      obtain rs ps gs where t: "t = (rs, ps, gs)" by (cases t)
      show "(case t of (rs, ps, gs) \<Rightarrow> bind_ok (case inherit_field ro of
         Some f \<Rightarrow>
           if ps \<noteq> [] then
             bind_ok (parent_options reg ro) (\<lambda>po. map_ok (node_or (own_nodes (if path = [] then [''id''] else path) nl True rs gs))
               (get_rights_node reg n po ps (path @ [f]) (nl \<or> inherit_field_nullable ro) [] [] (sunion ug gs)))
           else Ok (own_nodes (if path = [] then [''id''] else path) nl True rs gs)
       | None \<Rightarrow> Ok (own_nodes (if path = [] then [''id''] else path) nl True rs gs)) (\<lambda>local1.
     bind_ok (for_children reg (\<lambda>co p. add_local_rights_nodes reg n co rights p
         (sunion u rs) (sunion up ps) (sunion ug gs)) (child_models ro) path local1) (\<lambda>local2.
     case inherit_parent_require ro of
       Some q \<Rightarrow>
         bind_ok (parent_options reg ro) (\<lambda>po.
         (case inherit_field ro of
            None \<Rightarrow> Raise TypeError
          | Some f \<Rightarrow> map_ok (\<lambda>req. node_and local2 (require_or_null ro (path @ [f]) req))
              (get_rights_node reg n po [q] (path @ [f]) (nl \<or> inherit_field_nullable ro) [] [] [])))
     | None \<Rightarrow> for_children reg (\<lambda>co p. add_local_require_nodes reg n co p) (child_models ro) path local2)))
       \<noteq> Raise recursion_error"
        unfolding t prod.case
        by (intro bind_no_raise wp [OF r] kids(1) [OF r])
          (cases "inherit_parent_require ro"; simp only: option.case; rule kids(2) [OF r] rq [OF r])
    qed simp
  next
    fix ro rights path u up ug nd
    assume r: "ro \<in> set reg" "rank (model ro) < Suc n"
    show "add_local_rights_nodes reg (Suc n) ro rights path u up ug nd \<noteq> Raise recursion_error"
      unfolding add_local_rights_nodes.simps Let_def
    proof (rule bind_no_raise)
      fix t :: "string list \<times> string list \<times> string list"
      obtain rs ps gs where t: "t = (rs, ps, gs)" by (cases t)
      let ?l0 = "own_nodes path True False rs gs"
      have w: "(if b then bind_ok (case inherit_field ro of
              Some f \<Rightarrow>
                if ps \<noteq> [] then
                  bind_ok (parent_options reg ro) (\<lambda>po. map_ok (node_or ?l0)
                    (get_rights_node reg n po ps (path @ [f]) True up [] (sunion ug gs)))
                else Ok ?l0
            | None \<Rightarrow> Ok ?l0) (\<lambda>local1. Ok (node_or nd (node_and (IsNull path False False) local1)))
         else Ok nd) \<noteq> Raise recursion_error" for b
        using wp [OF r] by (simp add: bind_no_raise)
      show "(case t of (rs, ps, gs) \<Rightarrow> bind_ok (if rs \<noteq> [] \<or> ps \<noteq> [] \<or> gs \<noteq> [] then
          bind_ok (case inherit_field ro of
              Some f \<Rightarrow>
                if ps \<noteq> [] then
                  bind_ok (parent_options reg ro) (\<lambda>po. map_ok (node_or (own_nodes path True False rs gs))
                    (get_rights_node reg n po ps (path @ [f]) True up [] (sunion ug gs)))
                else Ok (own_nodes path True False rs gs)
            | None \<Rightarrow> Ok (own_nodes path True False rs gs)) (\<lambda>local1.
          Ok (node_or nd (node_and (IsNull path False False) local1)))
       else Ok nd) (\<lambda>node1.
     for_children reg (\<lambda>co p. add_local_rights_nodes reg n co rights p
       (sunion u rs) (sunion up ps) (sunion ug gs)) (child_models ro) path node1)) \<noteq> Raise recursion_error"
        unfolding t prod.case by (rule bind_no_raise [OF w kids(1) [OF r]])
    qed simp
  next
    fix ro path nd
    assume r: "ro \<in> set reg" "rank (model ro) < Suc n"
    show "add_local_require_nodes reg (Suc n) ro path nd \<noteq> Raise recursion_error"
      unfolding add_local_require_nodes.simps
      by (cases "inherit_parent_require ro"; simp only: option.case; rule kids(2) [OF r] rq [OF r])
  qed
qed simp

text \<open>A model that is its own parent and requires a right of it never gets its nodes.\<close>

lemma self_required_no_nodes:
  assumes "parent_options reg ro = Ok ro" and "inherit_parent_require ro = Some q"
  shows "get_rights_node reg n ro rights path nl u up ug \<noteq> Ok nd"
proof (induction n arbitrary: rights path nl u up ug nd)
  case (Suc n)
  show ?case
  proof
    assume "get_rights_node reg (Suc n) ro rights path nl u up ug = Ok nd"
    then show False by (rule get_result) (use assms Suc in auto)
  qed
qed simp

text \<open>
  C32 (create_nodes_ends): When parents and more specific models never lead back to a model, that is when
  some rank falls along both, create_nodes does not exceed a recursion limit above the rank of the
  model: the mutual recursion of get_rights_node and its two helpers ends.
\<close>

theorem create_nodes_ends:
  assumes "ranked reg rank" "ro \<in> set reg" "rank (model ro) < depth"
  shows "create_nodes reg depth ro \<noteq> Raise recursion_error"
proof -
  have get: "get_rights_node reg depth ro [r] [] False [] [] [] \<noteq> Raise recursion_error" for r
    using enough_frames [OF assms(1), of depth] assms(2,3) by blast
  have "nodes_for reg depth ro rs d \<noteq> Raise recursion_error" for rs d
    using get by (induction rs arbitrary: d) (auto simp: bind_ok_eq_Raise simp del: get_rights_node.simps)
  then show ?thesis
    by (auto simp: create_nodes_def get_rights_def bind_ok_eq_Raise recursion_error_def split: option.splits)
qed

theorem create_nodes_ends_witness:
  "create_nodes [sample_contest, sample_question] 2 sample_question \<noteq> Raise recursion_error"
  by (rule create_nodes_ends [where rank = "\<lambda>m. if m = ''Question'' then 1 else 0"])
    (auto simp: ranked_def sample_contest_def sample_question_def plain_options_def)

end
