(* ===== verification/Privileges.thy ===== *)
theory Privileges
  imports Rights_Equiv
begin

section \<open>Privileges\<close>

text \<open>
  \<open>Privilege\<close>, the membership of roles (\<open>Role\<close>, \<open>RoleMapping\<close>) and the tables a connection to the
  database keeps for its caller (\<open>set_user_id\<close> and \<open>update_user_rights\<close>, whose bodies are the SQL
  of \<open>satori.core.dbev.install\<close>).
  \<^item> \<open>role_map\<close>: the rows (parent, child) of \<open>RoleMapping\<close>; \<open>priv_rows\<close>: the rows of \<open>Privilege\<close> by
    role, entity and right, which are unique, with their span.
  \<^item> \<open>user_id\<close>, \<open>user_roles\<close>, \<open>user_privs\<close>: the temporary tables. PostgreSQL's \<open>connectby\<close> is the
    parameter \<open>cb\<close>; it is documented to walk up the tree of rows from a key, and to fail on a
    cycle (\<open>connectby_ok\<close>).
  \<^item> \<open>wrap\<close>: the conditions put into a query, as SQL text; \<open>wrap_nodes\<close> has them as conditions.
    Django's joins are the parameter \<open>joins\<close>.
  \<^item> \<open>demand\<close> asks whether the row of an object satisfies the condition. \<open>column\<close> is the entity in a
    column of the joins of a row, \<open>None\<close> for a row that does not exist.
\<close>

record priv_db =
  role_map :: "(nat \<times> nat) list"
  priv_rows :: "(nat \<times> nat \<times> string, int option \<times> int option) dict"
  user_id :: "nat option"
  user_roles :: "nat list"
  user_privs :: "(string \<times> nat) list"

subsection \<open>Roles\<close>

definition get_members :: "nat \<Rightarrow> priv_db \<Rightarrow> nat list" where
  "get_members role db = map snd (filter (\<lambda>(p, c). p = role) (role_map db))"

definition add_member :: "nat \<Rightarrow> nat \<Rightarrow> priv_db \<Rightarrow> priv_db" where
  "add_member role member db = db\<lparr>role_map := sadd (role, member) (role_map db)\<rparr>"

definition delete_member :: "nat \<Rightarrow> nat \<Rightarrow> priv_db \<Rightarrow> priv_db" where
  "delete_member role member db = db\<lparr>role_map := sdel (role, member) (role_map db)\<rparr>"

subsection \<open>The rights of the caller\<close>

definition in_force :: "int \<Rightarrow> int option \<times> int option \<Rightarrow> bool" where
  "in_force now t \<longleftrightarrow>
     (case fst t of None \<Rightarrow> True | Some s \<Rightarrow> s \<le> now) \<and> (case snd t of None \<Rightarrow> True | Some f \<Rightarrow> f \<ge> now)"

definition set_user_id :: "((nat \<times> nat) list \<Rightarrow> nat \<Rightarrow> nat list outcome) \<Rightarrow> int \<Rightarrow> nat \<Rightarrow> priv_db \<Rightarrow> unit outcome \<times> priv_db" where
  "set_user_id cb now u db =
     (case cb (role_map db) u of
        Raise e \<Rightarrow> (Raise e, db)
      | Ok roles \<Rightarrow>
          (Ok (), db\<lparr>user_id := Some u, user_roles := roles,
             user_privs := map (\<lambda>((role, entity, right), t). (right, entity))
               (filter (\<lambda>((role, entity, right), t). role \<in> set roles \<and> in_force now t) (priv_rows db))\<rparr>))"

definition update_user_rights :: "((nat \<times> nat) list \<Rightarrow> nat \<Rightarrow> nat list outcome) \<Rightarrow> int \<Rightarrow> priv_db \<Rightarrow> unit outcome \<times> priv_db" where
  "update_user_rights cb now db = (case user_id db of None \<Rightarrow> (Ok (), db) | Some u \<Rightarrow> set_user_id cb now u db)"

subsection \<open>Granting and revoking\<close>

definition grant :: "((nat \<times> nat) list \<Rightarrow> nat \<Rightarrow> nat list outcome) \<Rightarrow> int \<Rightarrow> nat \<Rightarrow> nat \<Rightarrow> string
    \<Rightarrow> (int option \<times> int option) option \<Rightarrow> priv_db \<Rightarrow> unit outcome \<times> priv_db" where
  "grant cb now role entity right span db =
     (let t = (case span of None \<Rightarrow> (None, None) | Some t \<Rightarrow> t)
      in update_user_rights cb now (db\<lparr>priv_rows := dset (role, entity, right) t (priv_rows db)\<rparr>))"

definition revoke :: "((nat \<times> nat) list \<Rightarrow> nat \<Rightarrow> nat list outcome) \<Rightarrow> int \<Rightarrow> nat \<Rightarrow> nat \<Rightarrow> string
    \<Rightarrow> priv_db \<Rightarrow> unit outcome \<times> priv_db" where
  "revoke cb now role entity right db =
     (case dget (priv_rows db) (role, entity, right) of
        None \<Rightarrow> (Ok (), db)
      | Some _ \<Rightarrow> update_user_rights cb now (db\<lparr>priv_rows := ddel (role, entity, right) (priv_rows db)\<rparr>))"

definition get_privilege :: "nat \<Rightarrow> nat \<Rightarrow> string \<Rightarrow> priv_db \<Rightarrow> (int option \<times> int option) option" where
  "get_privilege role entity right db = dget (priv_rows db) (role, entity, right)"

definition list_privileges :: "nat \<Rightarrow> string \<Rightarrow> priv_db \<Rightarrow> (nat, int option \<times> int option) dict" where
  "list_privileges entity right db =
     fold (\<lambda>((role, e, r), t) ret. if e = entity \<and> r = right then dset role t ret else ret) (priv_rows db) []"

definition global_grant where
  "global_grant cb now glob role right span db = grant cb now role glob right span db"

definition global_revoke where
  "global_revoke cb now glob role right db = revoke cb now role glob right db"

definition global_get where
  "global_get glob role right db = get_privilege role glob right db"

definition global_list where
  "global_list glob right db = list_privileges glob right db"

subsection \<open>Conditions in queries\<close>

text \<open>The check of the rights of a query: the message refers to a name that does not exist.\<close>

fun check_available :: "string list \<Rightarrow> string list \<Rightarrow> unit outcome" where
  "check_available available [] = Ok ()"
| "check_available available (r # rs) =
     (if r \<notin> set available then Raise (NameError ''quesyset'') else check_available available rs)"

definition prepared :: "options \<Rightarrow> (string list \<Rightarrow> bool \<Rightarrow> bool \<Rightarrow> string \<times> string) \<Rightarrow> string \<Rightarrow> satori_node outcome" where
  "prepared ro joins right = bind_ok (dict_get (nodes ro) right) (prepare joins)"

definition wrap_nodes :: "options \<Rightarrow> (string list \<Rightarrow> bool \<Rightarrow> bool \<Rightarrow> string \<times> string) \<Rightarrow> string list \<Rightarrow> bool
    \<Rightarrow> string list \<Rightarrow> string list \<Rightarrow> ((string \<times> satori_node) list \<times> satori_node list) outcome" where
  "wrap_nodes ro joins struct_rights struct select wanted =
     bind_ok (get_rights ro) (\<lambda>available.
     bind_ok (check_available available select) (\<lambda>_.
     bind_ok (check_available available wanted) (\<lambda>_.
     let sel = sunion (to_set select) (if struct then struct_rights else []) in
     bind_ok (map_outcome (\<lambda>r. map_ok (\<lambda>nd. (''_can_'' @ r, nd)) (prepared ro joins r)) sel) (\<lambda>s.
     bind_ok (map_outcome (prepared ro joins) (to_set wanted)) (\<lambda>w. Ok (s, w))))))"

definition wrap :: "string \<Rightarrow> options \<Rightarrow> (string list \<Rightarrow> bool \<Rightarrow> bool \<Rightarrow> string \<times> string) \<Rightarrow> string list \<Rightarrow> bool
    \<Rightarrow> string list \<Rightarrow> string list \<Rightarrow> ((string, string) dict \<times> string list) outcome" where
  "wrap glob_id ro joins struct_rights struct select wanted =
     bind_ok (wrap_nodes ro joins struct_rights struct select wanted) (\<lambda>(s, w).
     bind_ok (map_outcome (\<lambda>(n, nd). map_ok (\<lambda>t. (n, t)) (as_sql glob_id nd)) s) (\<lambda>s'.
     map_ok (\<lambda>w'. (s', w')) (map_outcome (as_sql glob_id) w)))"

record entity =
  ent_id :: nat
  ent_model :: string
  cached :: "(string, bool) dict"

definition caller_has :: "priv_db \<Rightarrow> nat \<Rightarrow> string \<Rightarrow> bool" where
  "caller_has db e r \<longleftrightarrow> (r, e) \<in> set (user_privs db)"

definition demand :: "registry \<Rightarrow> (string list \<Rightarrow> bool \<Rightarrow> bool \<Rightarrow> string \<times> string)
    \<Rightarrow> (string \<Rightarrow> nat \<Rightarrow> (string \<times> string \<Rightarrow> nat option) option) \<Rightarrow> nat \<Rightarrow> priv_db \<Rightarrow> entity \<Rightarrow> string \<Rightarrow> bool outcome" where
  "demand reg joins column glob db ent right =
     bind_ok (options_of reg (ent_model ent)) (\<lambda>ro.
     bind_ok (get_rights ro) (\<lambda>available.
     if right \<notin> set available
     then Raise (RuntimeError (''The specified right '' @ right @ '' is not available for model '' @ model ro))
     else case dget (cached ent) (''_can_'' @ right) of
       Some b \<Rightarrow> Ok b
     | None \<Rightarrow>
         bind_ok (wrap_nodes ro joins [] False [] [right]) (\<lambda>(s, w).
         Ok (case column (ent_model ent) (ent_id ent) of
               None \<Rightarrow> False
             | Some col \<Rightarrow> list_all (truth (\<lambda>_. None) col (caller_has db) (caller_has db glob)) w))))"

definition global_demand where
  "global_demand reg joins column glob db right =
     demand reg joins column glob db \<lparr>ent_id = glob, ent_model = ''Global'', cached = []\<rparr> right"

subsection \<open>The privileges of a caller\<close>

definition connectby_ok :: "((nat \<times> nat) list \<Rightarrow> nat \<Rightarrow> nat list outcome) \<Rightarrow> bool" where
  "connectby_ok cb \<longleftrightarrow> (\<forall>maps u rs. cb maps u = Ok rs \<longrightarrow> set rs = {r. (r, u) \<in> (set maps)\<^sup>*})"

text \<open>What a role may do: by itself or as a member of another role, at the given time.\<close>

definition may :: "priv_db \<Rightarrow> int \<Rightarrow> nat \<Rightarrow> nat \<Rightarrow> string \<Rightarrow> bool" where
  "may db now u e r \<longleftrightarrow> (\<exists>role t. (role, u) \<in> (set (role_map db))\<^sup>* \<and> ((role, e, r), t) \<in> set (priv_rows db) \<and> in_force now t)"

lemma set_user_id_privs:
  assumes "connectby_ok cb" and "set_user_id cb now u db = (Ok x, db')"
  shows "caller_has db' e r \<longleftrightarrow> may db now u e r" "priv_rows db' = priv_rows db" "role_map db' = role_map db"
    "user_id db' = Some u"
proof -
  from assms(2) obtain rs where rs: "cb (role_map db) u = Ok rs"
    and db': "db' = db\<lparr>user_id := Some u, user_roles := rs,
             user_privs := map (\<lambda>((role, entity, right), t). (right, entity))
               (filter (\<lambda>((role, entity, right), t). role \<in> set rs \<and> in_force now t) (priv_rows db))\<rparr>"
    by (auto simp: set_user_id_def split: outcome.splits)
  have "set rs = {q. (q, u) \<in> (set (role_map db))\<^sup>*}" using assms(1) rs by (simp add: connectby_ok_def)
  then show "caller_has db' e r \<longleftrightarrow> may db now u e r"
    unfolding caller_has_def may_def db' by (force simp: image_iff)
qed (use assms(2) in \<open>auto simp: set_user_id_def split: outcome.splits\<close>)

lemma may_dget:
  assumes "dict_ok (priv_rows db)"
  shows "may db now u e r \<longleftrightarrow> (\<exists>role t. (role, u) \<in> (set (role_map db))\<^sup>* \<and> get_privilege role e r db = Some t \<and> in_force now t)"
  unfolding may_def get_privilege_def by (simp add: dget_Some_iff [OF assms])

lemma one_changed:
  assumes "\<And>q t. P q t \<longleftrightarrow> (if (q, e', r') = (role, e, r) then t = t0 else Q q t)"
  shows "(\<exists>q t. M q \<and> P q t \<and> F t) \<longleftrightarrow>
    (e' = e \<and> r' = r \<and> M role \<and> F t0) \<or> (\<exists>q t. M q \<and> (q, e', r') \<noteq> (role, e, r) \<and> Q q t \<and> F t)"
  unfolding assms by (cases "e' = e \<and> r' = r") auto

text \<open>
  C11 (privileges_of_caller): After set_user_id the caller has a right on an entity exactly if one
  of its roles, its own or one it is a member of directly or through others, has a privilege for it
  that is in force. Granting and revoking keep this for the caller that was set: a granted privilege
  counts at once, and a revoked one no longer does.
\<close>

theorem privileges_of_caller:
  assumes cb: "connectby_ok cb" and ok0: "dict_ok (priv_rows db0)" and set: "set_user_id cb now0 u db0 = (Ok z, db)"
    and granted: "grant cb now role e r span db = (Ok x, db1)" and revoked: "revoke cb now role e r db1 = (Ok y, db2)"
  shows "(caller_has db e' r' \<longleftrightarrow>
      (\<exists>q t. (q, u) \<in> (set (role_map db0))\<^sup>* \<and> get_privilege q e' r' db0 = Some t \<and> in_force now0 t))
   \<and> (caller_has db1 e' r' \<longleftrightarrow>
      e' = e \<and> r' = r \<and> (role, u) \<in> (set (role_map db))\<^sup>* \<and> in_force now (case span of None \<Rightarrow> (None, None) | Some t \<Rightarrow> t)
      \<or> (\<exists>q t. (q, u) \<in> (set (role_map db))\<^sup>* \<and> (q, e', r') \<noteq> (role, e, r) \<and> get_privilege q e' r' db = Some t \<and> in_force now t))
   \<and> (caller_has db2 e' r' \<longleftrightarrow>
      (\<exists>q t. (q, u) \<in> (set (role_map db))\<^sup>* \<and> (q, e', r') \<noteq> (role, e, r) \<and> get_privilege q e' r' db = Some t \<and> in_force now t))"
proof -
  note S = set_user_id_privs [OF cb set]
  have zero: "caller_has db e' r' \<longleftrightarrow>
      (\<exists>q t. (q, u) \<in> (set (role_map db0))\<^sup>* \<and> get_privilege q e' r' db0 = Some t \<and> in_force now0 t)"
    unfolding S(1) may_dget [OF ok0] ..
  have ok: "dict_ok (priv_rows db)" using ok0 S(2) by simp
  let ?t = "case span of None \<Rightarrow> (None, None) | Some t \<Rightarrow> t"
  let ?g = "db\<lparr>priv_rows := dset (role, e, r) ?t (priv_rows db)\<rparr>"
  have g: "set_user_id cb now u ?g = (Ok x, db1)" using granted S(4) by (simp add: grant_def update_user_rights_def Let_def)
  note G = set_user_id_privs [OF cb g]
  have okg: "dict_ok (priv_rows ?g)" using ok by simp
  have one: "caller_has db1 e' r' \<longleftrightarrow>
      e' = e \<and> r' = r \<and> (role, u) \<in> (set (role_map db))\<^sup>* \<and> in_force now ?t
      \<or> (\<exists>q t. (q, u) \<in> (set (role_map db))\<^sup>* \<and> (q, e', r') \<noteq> (role, e, r) \<and> get_privilege q e' r' db = Some t \<and> in_force now t)"
  proof -
    have "get_privilege q e' r' ?g = Some t \<longleftrightarrow>
        (if (q, e', r') = (role, e, r) then t = ?t else get_privilege q e' r' db = Some t)" for q t
      by (auto simp: get_privilege_def)
    from one_changed [where P = "\<lambda>q t. get_privilege q e' r' ?g = Some t", OF this]
    show ?thesis unfolding G(1) may_dget [OF okg] by simp
  qed
  let ?d = "db1\<lparr>priv_rows := ddel (role, e, r) (priv_rows db1)\<rparr>"
  have "dget (priv_rows db1) (role, e, r) = Some ?t" using G(2) by simp
  then have d: "set_user_id cb now u ?d = (Ok y, db2)"
    using revoked G(4) by (simp add: revoke_def update_user_rights_def)
  have okd: "dict_ok (priv_rows ?d)" using okg G(2) by simp
  have two: "caller_has db2 e' r' \<longleftrightarrow>
      (\<exists>q t. (q, u) \<in> (set (role_map db))\<^sup>* \<and> (q, e', r') \<noteq> (role, e, r) \<and> get_privilege q e' r' db = Some t \<and> in_force now t)"
    unfolding set_user_id_privs(1) [OF cb d] may_dget [OF okd]
    using G(2,3) by (auto simp: get_privilege_def split: if_splits)
  from zero one two show ?thesis by blast
qed

text \<open>A concrete \<open>connectby\<close>: it knows trees of depth one, and fails on others.\<close>

definition sample_connectby :: "(nat \<times> nat) list \<Rightarrow> nat \<Rightarrow> nat list outcome" where
  "sample_connectby maps u =
     (if u \<notin> snd ` set maps then Ok [u]
      else case maps of [(p, c)] \<Rightarrow> if p \<noteq> c then Ok [u, p] else Raise DatabaseError | _ \<Rightarrow> Raise DatabaseError)"

lemma sample_connectby_ok: "connectby_ok sample_connectby"
proof -
  have "set rs = {r. (r, u) \<in> (set maps)\<^sup>*}" if "sample_connectby maps u = Ok rs" for maps u rs
  proof (cases "u \<in> snd ` set maps")
    case False
    then have "(r, u) \<in> (set maps)\<^sup>* \<Longrightarrow> r = u" for r
      by (metis image_eqI rtrancl.cases snd_conv)
    with False that show ?thesis by (auto simp: sample_connectby_def)
  next
    case True
    with that obtain p where m: "maps = [(p, u)]" "p \<noteq> u" "rs = [u, p]"
      by (auto simp: sample_connectby_def split: list.splits if_splits)
    have "(r, u) \<in> (set maps)\<^sup>* \<Longrightarrow> r = u \<or> r = p" for r
      by (induction rule: converse_rtrancl_induct) (use m in auto)
    moreover have "(p, u) \<in> (set maps)\<^sup>*" using m by auto
    ultimately show ?thesis using m(3) by auto
  qed
  then show ?thesis by (simp add: connectby_ok_def)
qed

definition sample_db :: priv_db where
  "sample_db = \<lparr>role_map = [(10, 1)], priv_rows = [((10, 2, ''VIEW''), (Some 3, None))], user_id = Some 1,
     user_roles = [], user_privs = []\<rparr>"

definition sample_caller :: priv_db where
  "sample_caller = snd (set_user_id sample_connectby 4 1 sample_db)"

theorem privileges_of_caller_witness:
  "caller_has sample_caller 2 ''VIEW'' \<and> \<not> caller_has sample_caller 2 ''EDIT''
   \<and> caller_has (snd (grant sample_connectby 5 10 2 ''EDIT'' None sample_caller)) 2 ''EDIT''
   \<and> \<not> caller_has (snd (revoke sample_connectby 5 10 2 ''EDIT'' (snd (grant sample_connectby 5 10 2 ''EDIT'' None sample_caller)))) 2 ''EDIT''"
proof -
  let ?db1 = "snd (grant sample_connectby 5 10 2 ''EDIT'' None sample_caller)"
  have 1: "set_user_id sample_connectby 4 1 sample_db = (Ok (), sample_caller)"
    "grant sample_connectby 5 10 2 ''EDIT'' None sample_caller = (Ok (), ?db1)"
    "revoke sample_connectby 5 10 2 ''EDIT'' ?db1 = (Ok (), snd (revoke sample_connectby 5 10 2 ''EDIT'' ?db1))"
    "dict_ok (priv_rows sample_db)"
    by code_simp+
  have role: "(10, 1) \<in> (set (role_map sample_db))\<^sup>*" "role_map sample_caller = role_map sample_db" "priv_rows sample_caller = priv_rows sample_db"
    by (auto simp: sample_db_def) code_simp+
  have rows: "get_privilege q e r sample_db = Some t \<longleftrightarrow> q = 10 \<and> e = 2 \<and> r = ''VIEW'' \<and> t = (Some 3, None)" for q e r t
    by (auto simp: get_privilege_def sample_db_def)
  note P = privileges_of_caller [OF sample_connectby_ok 1(4,1,2,3)]
  have "caller_has sample_caller 2 ''VIEW''" "\<not> caller_has sample_caller 2 ''EDIT''"
    using P [of 2 "''VIEW''"] P [of 2 "''EDIT''"] role(1) by (auto simp: rows in_force_def)
  with P [of 2 "''EDIT''"] role show ?thesis by (auto simp: in_force_def get_privilege_def sample_db_def)
qed

subsection \<open>Asking for a right\<close>

text \<open>A prepared condition does not look at the fields of the model any more.\<close>

lemma prepared_no_cell:
  assumes "prepare joins nd = Ok nd'"
  shows "truth cell column priv glob nd' \<longleftrightarrow> truth cell' column priv glob nd'"
  using assms
proof (induction nd arbitrary: nd')
  case (Connect cs k)
  then obtain cs' where cs': "map_outcome (prepare joins) cs = Ok cs'" "nd' = Connect cs' k"
    by (auto simp: outcome_simps)
  have "list_all2 (\<lambda>c c'. prepare joins c = Ok c') cs cs'" using cs'(1) by (simp add: map_outcome_eq_Ok)
  then have "list_all2 (\<lambda>c c'. truth cell column priv glob c' \<longleftrightarrow> truth cell' column priv glob c') cs cs'"
    by (rule list.rel_mono_strong) (rule Connect.IH)
  then have "list_ex (truth cell column priv glob) cs' = list_ex (truth cell' column priv glob) cs'"
    and "list_all (truth cell column priv glob) cs' = list_all (truth cell' column priv glob) cs'"
    by (induction rule: list_all2_induct) auto
  then show ?case by (simp add: cs'(2))
qed (auto split: prod.splits)

text \<open>
  C5 (demand_granted): Asked for a right of its model on an object that is not already annotated,
  demand answers true exactly if the object is there and the rules of the model grant the right to the
  caller by the privileges in force when its rights were last computed.
\<close>

theorem demand_granted:
  assumes "connectby_ok cb" "set_user_id cb now u db = (Ok x, db')"
    and "options_of reg (ent_model ent) = Ok ro'" "create_nodes reg0 depth ro = Ok ro'"
    and "rights_of ro = Some rs" "right \<in> set rs" "dget (cached ent) (''_can_'' @ right) = None"
    and "registry_ok reg0" "ro \<in> set reg0"
    and "rows_ok reg0 cell" "\<And>col fl nl tr. column (ent_model ent) (ent_id ent) = Some col \<Longrightarrow> col (joins fl nl tr) = cell fl"
    and "demand reg joins column glob db' ent right = Ok b"
  shows "b \<longleftrightarrow> column (ent_model ent) (ent_id ent) \<noteq> None
    \<and> granted reg0 cell (\<lambda>e r. may db now u e r) (\<lambda>r. may db now u glob r) ro {right} []"
proof (cases "column (ent_model ent) (ent_id ent)")
  case None
  with assms(3,7,12) show ?thesis by (auto simp: demand_def bind_ok_eq_Ok split: if_splits)
next
  case (Some col)
  obtain nd where nd: "dget (nodes ro') right = Some nd" "get_rights_node reg0 depth ro [right] [] False [] [] [] = Ok nd"
    using create_nodes_result [OF assms(4-6)] by blast
  have ro': "rights_of ro' = Some rs" using assms(4,5) by (auto simp: create_nodes_def get_rights_def bind_ok_eq_Ok map_ok_eq_Ok)
  have has: "caller_has db' = may db now u" using set_user_id_privs(1) [OF assms(1,2)] by blast
  from assms(12) obtain w where w: "prepared ro' joins right = Ok w"
    and b: "b = list_all (truth (\<lambda>_. None) col (caller_has db') (caller_has db' glob)) [w]"
    using assms(3,6,7) Some ro'
    by (auto simp: demand_def wrap_nodes_def get_rights_def bind_ok_eq_Ok to_set_def sunion_def sadd_def Let_def)
  have p: "prepare joins nd = Ok w" using w nd(1) by (simp add: prepared_def dict_get_def)
  have "truth (\<lambda>_. None) col (may db now u) (may db now u glob) w = truth cell col (may db now u) (may db now u glob) w"
    by (rule prepared_no_cell [OF p])
  also have "\<dots> = truth cell col (may db now u) (may db now u glob) nd"
    using prepare_truth [where column = col and cell = cell and joins = joins, OF _ p] assms(11) [OF Some] by blast
  also have "\<dots> = granted reg0 cell (may db now u) (may db now u glob) ro {right} []"
  proof -
    have "get_ok reg0 cell col (may db now u) (may db now u glob) depth" using nodes_ok assms(8,10) by blast
    from this [unfolded get_ok_def, rule_format, OF nd(2) assms(9), of False] show ?thesis by simp
  qed
  finally show ?thesis unfolding b has using Some by simp
qed

definition sample_joins :: "string list \<Rightarrow> bool \<Rightarrow> bool \<Rightarrow> string \<times> string" where
  "sample_joins fl nl tr =
     (''t'', if fl = [''id''] then ''id'' else if fl = [''contest''] then ''contest_id'' else ''none'')"

definition sample_column :: "string \<times> string \<Rightarrow> nat option" where
  "sample_column tc = (if snd tc = ''id'' then Some 1 else if snd tc = ''contest_id'' then Some 2 else None)"

lemma sample_cells: "sample_column (sample_joins fl nl tr) = sample_rows fl"
  by (cases "fl = [''id'']"; cases "fl = [''contest'']") (simp_all add: sample_joins_def sample_column_def sample_rows_def)

theorem demand_granted_witness:
  "\<exists>ro'. create_nodes [sample_contest, sample_question] 5 sample_question = Ok ro'
    \<and> demand [ro'] sample_joins (\<lambda>m i. Some sample_column) 99
        (snd (set_user_id sample_connectby 5 1 (sample_db\<lparr>priv_rows := [((10, 2, ''MANAGE''), (None, Some 9))]\<rparr>)))
        \<lparr>ent_id = 1, ent_model = ''Question'', cached = []\<rparr> ''VIEW'' = Ok True
    \<and> granted [sample_contest, sample_question] sample_rows
        (may (sample_db\<lparr>priv_rows := [((10, 2, ''MANAGE''), (None, Some 9))]\<rparr>) 5 1)
        (may (sample_db\<lparr>priv_rows := [((10, 2, ''MANAGE''), (None, Some 9))]\<rparr>) 5 1 99) sample_question {''VIEW''} []"
proof -
  let ?db = "sample_db\<lparr>priv_rows := [((10, 2, ''MANAGE''), (None, Some 9))]\<rparr>"
  let ?ro = "sample_question
     \<lparr>nodes := [(''VIEW'', Connect [Connect [Right [''id''] ''VIEW'' False True, Right [''contest''] ''MANAGE'' False True,
          GlobalRight ''ADMIN''] ''OR'',
        Connect [Right [''contest''] ''VIEW'' False True, Right [''contest''] ''MANAGE'' False True,
          GlobalRight ''ADMIN''] ''OR''] ''AND'')]\<rparr>"
  let ?ent = "\<lparr>ent_id = 1, ent_model = ''Question'', cached = []\<rparr>"
  have s: "set_user_id sample_connectby 5 1 ?db = (Ok (), snd (set_user_id sample_connectby 5 1 ?db))" by code_simp
  have o: "options_of [?ro] (ent_model ?ent) = Ok ?ro"
    by (simp add: options_of_def sample_question_def plain_options_def)
  have d: "demand [?ro] sample_joins (\<lambda>m i. Some sample_column) 99 (snd (set_user_id sample_connectby 5 1 ?db)) ?ent ''VIEW'' = Ok True"
    by code_simp
  have "True \<longleftrightarrow> Some sample_column \<noteq> None \<and> granted [sample_contest, sample_question] sample_rows (\<lambda>e r. may ?db 5 1 e r) (\<lambda>r. may ?db 5 1 99 r)
      sample_question {''VIEW''} []"
    by (rule demand_granted [where rs = "[''VIEW'']", OF sample_connectby_ok s o sample_nodes _ _ _ sample_ok(1) _ sample_ok(2) _ d])
      (auto simp: sample_question_def sample_cells)
  with sample_nodes d show ?thesis by (intro exI [of _ ?ro]) simp
qed

end
