(* ===== verification/Export_Conditions.thy ===== *)
theory Export_Conditions
  imports Prelude Py_Strings
begin

section \<open>Permission conditions\<close>

text \<open>
  \<open>satori.core.export.pc\<close>, the conditions under which a procedure may be called, and the part of
  \<open>satori.core.export.types_django\<close> that lets objects in and out.
  \<^item> \<open>pval\<close>: the Python values that arguments have. A model object has its number, its model and
    its attributes.
  \<^item> \<open>caller\<close>: the role, user and machine of the token, and the answers of \<open>Privilege.demand\<close> and
    \<open>Privilege.global_demand\<close>.
  \<^item> \<open>pc\<close>: the classes of conditions; \<open>check\<close> is \<open>__call__\<close>, \<open>pc_text\<close> is \<open>__str__\<close>. \<open>all\<close> and \<open>any\<close>
    stop at the first item that decides.
\<close>

datatype pval =
    PNone
  | PBool bool
  | PNum int
  | PStr string
  | PObj nat string "(string \<times> pval) list"
  | PList "pval list"
  | PMap "(pval \<times> pval) list"

record caller =
  c_role :: "nat option"
  c_user :: "nat option"
  c_machine :: "nat option"
  c_demand :: "nat \<Rightarrow> string \<Rightarrow> string \<Rightarrow> bool outcome"
  c_global :: "string \<Rightarrow> bool outcome"

datatype pc =
    PCDeny
  | PCPermit
  | PCArg string string
  | PCArgField string string string
  | PCGlobal string
  | PCAnd "pc list"
  | PCOr "pc list"
  | PCEach string pc
  | PCEachKey string pc
  | PCEachValue string pc
  | PCTokenUser string
  | PCTokenIsUser
  | PCTokenIsMachine
  | PCRawBlob string

fun all_of :: "('a \<Rightarrow> bool outcome) \<Rightarrow> 'a list \<Rightarrow> bool outcome" where
  "all_of f [] = Ok True"
| "all_of f (x # xs) = bind_ok (f x) (\<lambda>b. if b then all_of f xs else Ok False)"

fun any_of :: "('a \<Rightarrow> bool outcome) \<Rightarrow> 'a list \<Rightarrow> bool outcome" where
  "any_of f [] = Ok False"
| "any_of f (x # xs) = bind_ok (f x) (\<lambda>b. if b then Ok True else any_of f xs)"

lemma all_of_cong [fundef_cong]:
  "xs = ys \<Longrightarrow> (\<And>x. x \<in> set ys \<Longrightarrow> f x = g x) \<Longrightarrow> all_of f xs = all_of g ys"
proof (induction xs arbitrary: ys)
  case (Cons x xs)
  then show ?case by (cases "g x") auto
qed simp

lemma any_of_cong [fundef_cong]:
  "xs = ys \<Longrightarrow> (\<And>x. x \<in> set ys \<Longrightarrow> f x = g x) \<Longrightarrow> any_of f xs = any_of g ys"
proof (induction xs arbitrary: ys)
  case (Cons x xs)
  then show ?case by (cases "g x") auto
qed simp

type_synonym kwargs = "(string, pval) dict"

definition argument :: "kwargs \<Rightarrow> string \<Rightarrow> pval outcome" where
  "argument kw n = (case dget kw n of Some v \<Rightarrow> Ok v | None \<Rightarrow> Raise KeyError)"

text \<open>\<open>getattr(v, name)\<close>; only objects have attributes here, and their number is \<open>id\<close>.\<close>

definition attribute :: "pval \<Rightarrow> string \<Rightarrow> pval option" where
  "attribute v n = (case v of PObj i m as \<Rightarrow> if n = ''id'' then Some (PNum (int i)) else dget as n | _ \<Rightarrow> None)"

fun truthy :: "pval \<Rightarrow> bool" where
  "truthy PNone = False"
| "truthy (PBool b) = b"
| "truthy (PNum i) = (i \<noteq> 0)"
| "truthy (PStr s) = (s \<noteq> [])"
| "truthy (PObj i m as) = True"
| "truthy (PList xs) = (xs \<noteq> [])"
| "truthy (PMap xs) = (xs \<noteq> [])"

definition ask :: "caller \<Rightarrow> pval \<Rightarrow> string \<Rightarrow> bool outcome" where
  "ask c v perm = (case v of PObj i m as \<Rightarrow> c_demand c i m perm | _ \<Rightarrow> Raise (AttributeError ''model''))"

text \<open>What a \<open>for\<close> loop over a value, its \<open>keys()\<close> and its \<open>values()\<close> go through.\<close>

definition items_of :: "pval \<Rightarrow> pval list outcome" where
  "items_of v =
     (case v of PList xs \<Rightarrow> Ok xs | PMap xs \<Rightarrow> Ok (map fst xs) | PStr s \<Rightarrow> Ok (map (\<lambda>c. PStr [c]) s) | _ \<Rightarrow> Raise TypeError)"

definition keys_of :: "pval \<Rightarrow> pval list outcome" where
  "keys_of v = (case v of PMap xs \<Rightarrow> Ok (map fst xs) | _ \<Rightarrow> Raise (AttributeError ''keys''))"

definition values_in :: "pval \<Rightarrow> pval list outcome" where
  "values_in v = (case v of PMap xs \<Rightarrow> Ok (map snd xs) | _ \<Rightarrow> Raise (AttributeError ''values''))"

fun check :: "caller \<Rightarrow> pc \<Rightarrow> kwargs \<Rightarrow> bool outcome" where
  "check c PCDeny kw = Ok False"
| "check c PCPermit kw = Ok True"
| "check c (PCArg n perm) kw = bind_ok (argument kw n) (\<lambda>v. ask c v perm)"
| "check c (PCArgField n f perm) kw =
     bind_ok (argument kw n) (\<lambda>v.
       case attribute v f of None \<Rightarrow> Ok False | Some PNone \<Rightarrow> Ok False | Some x \<Rightarrow> ask c x perm)"
| "check c (PCGlobal perm) kw = c_global c perm"
| "check c (PCAnd subs) kw = all_of (\<lambda>x. check c x kw) subs"
| "check c (PCOr subs) kw = any_of (\<lambda>x. check c x kw) subs"
| "check c (PCEach n sub) kw =
     bind_ok (argument kw n) (\<lambda>v.
       if v = PNone then Ok True
       else bind_ok (items_of v) (all_of (\<lambda>x. check c sub [(''item'', x)])))"
| "check c (PCEachKey n sub) kw =
     bind_ok (argument kw n) (\<lambda>v.
       if v = PNone then Ok True
       else bind_ok (keys_of v) (all_of (\<lambda>x. check c sub [(''item'', x)])))"
| "check c (PCEachValue n sub) kw =
     bind_ok (argument kw n) (\<lambda>v.
       if v = PNone then Ok True
       else bind_ok (values_in v) (all_of (\<lambda>x. check c sub [(''item'', x)])))"
| "check c (PCTokenUser n) kw =
     (case c_role c of
        None \<Rightarrow> Ok False
      | Some r \<Rightarrow>
          bind_ok (argument kw n) (\<lambda>v.
            case attribute v ''id'' of None \<Rightarrow> Raise (AttributeError ''id'') | Some i \<Rightarrow> Ok (i = PNum (int r))))"
| "check c PCTokenIsUser kw = Ok (c_user c \<noteq> None)"
| "check c PCTokenIsMachine kw = Ok (c_machine c \<noteq> None)"
| "check c (PCRawBlob n) kw =
     bind_ok (argument kw n) (\<lambda>v.
       case attribute v ''is_blob'' of
         None \<Rightarrow> Raise (AttributeError ''is_blob'')
       | Some b \<Rightarrow> if truthy b then c_global c ''RAW_BLOB'' else Ok True)"

fun pc_text :: "pc \<Rightarrow> string" where
  "pc_text PCDeny = ''imposible''"
| "pc_text PCPermit = ''none''"
| "pc_text (PCArg n perm) = perm @ '' on '' @ n"
| "pc_text (PCArgField n f perm) = perm @ '' on '' @ n @ ''.'' @ f"
| "pc_text (PCGlobal perm) = ''global '' @ perm"
| "pc_text (PCAnd subs) = ''('' @ join '') and ('' (map pc_text subs) @ '')''"
| "pc_text (PCOr subs) = ''('' @ join '') or ('' (map pc_text subs) @ '')''"
| "pc_text (PCEach n sub) = ''for every item in '' @ n @ '': '' @ pc_text sub"
| "pc_text (PCEachKey n sub) = ''for every item in '' @ n @ ''.keys(): '' @ pc_text sub"
| "pc_text (PCEachValue n sub) = ''for every item in '' @ n @ ''.values(): '' @ pc_text sub"
| "pc_text (PCTokenUser n) = n @ '' equals to calling user''"
| "pc_text PCTokenIsUser = ''calling role is user''"
| "pc_text PCTokenIsMachine = ''calling role is machine''"
| "pc_text (PCRawBlob n) = ''global RAW_BLOB if '' @ n @ ''.is_blob = True''"

subsection \<open>Objects in and out\<close>

text \<open>
  \<open>ArsDjangoId\<close>: an argument that names an object is looked up, and the caller must be able to
  view it. \<open>find_row\<close> answers with the object of that number, if there is one.
\<close>

definition id_to_ars :: "pval \<Rightarrow> pval outcome" where
  "id_to_ars v = (case attribute v ''id'' of Some i \<Rightarrow> Ok i | None \<Rightarrow> Raise (AttributeError ''id''))"

definition id_from_ars :: "caller \<Rightarrow> (nat \<Rightarrow> pval option) \<Rightarrow> nat \<Rightarrow> pval outcome" where
  "id_from_ars c find_row i =
     (case find_row i of
        None \<Rightarrow> Raise ArgumentNotFound
      | Some ret \<Rightarrow> bind_ok (ask c ret ''VIEW'') (\<lambda>b. if b then Ok ret else Raise AccessDenied))"

text \<open>
  \<open>ArsDjangoStructure\<close>: the fields of the model with the right each one needs. \<open>reload\<close> reads the
  object again with its rights, \<open>convert\<close> is the conversion of a field's type, if it has one;
  a field that refers to an object is answered by the column with the number.
\<close>

datatype field_kind = PlainField | IdField | Converted

definition read_field :: "(string \<Rightarrow> pval \<Rightarrow> pval outcome) \<Rightarrow> string \<Rightarrow> field_kind \<Rightarrow> pval \<Rightarrow> pval outcome" where
  "read_field convert n kind v =
     (let get = (\<lambda>a. case attribute v a of Some x \<Rightarrow> Ok x | None \<Rightarrow> Raise (AttributeError a)) in
      case kind of
        PlainField \<Rightarrow> get n
      | IdField \<Rightarrow> get (n @ ''_id'')
      | Converted \<Rightarrow> bind_ok (get n) (convert n))"

fun visible_fields :: "caller \<Rightarrow> (string \<Rightarrow> pval \<Rightarrow> pval outcome) \<Rightarrow> pval \<Rightarrow> (string \<times> string \<times> field_kind) list
    \<Rightarrow> (string, pval) dict \<Rightarrow> (string, pval) dict outcome" where
  "visible_fields c convert v [] ret = Ok ret"
| "visible_fields c convert v ((n, perm, kind) # fs) ret =
     bind_ok (ask c v perm) (\<lambda>b.
       if b then bind_ok (read_field convert n kind v) (\<lambda>x. visible_fields c convert v fs (dset n x ret))
       else visible_fields c convert v fs ret)"

definition struct_to_ars :: "caller \<Rightarrow> (pval \<Rightarrow> pval outcome) \<Rightarrow> (string \<Rightarrow> pval \<Rightarrow> pval outcome)
    \<Rightarrow> (string \<times> string \<times> field_kind) list \<Rightarrow> pval \<Rightarrow> (string, pval) dict outcome" where
  "struct_to_ars c reload convert fs value =
     bind_ok (if attribute value ''_can_VIEW'' = None then reload value else Ok value) (\<lambda>v.
     bind_ok (ask c v ''VIEW'') (\<lambda>b.
     if \<not> b then Raise CannotReturnObject
     else visible_fields c convert v fs (fold (\<lambda>(n, _, _). dset n PNone) fs [])))"

text \<open>
  \<open>filter\<close> of an exported model: an object matches the fields given, and only the objects whose
  every such field the caller may see are looked at.
\<close>

fun filter_arguments :: "(string \<times> string) list \<Rightarrow> pval \<Rightarrow> (string, pval) dict \<times> string list
    \<Rightarrow> (string, pval) dict \<times> string list" where
  "filter_arguments [] st acc = acc"
| "filter_arguments ((n, perm) # fs) st (kw, perms) =
     (case attribute st n of
        None \<Rightarrow> filter_arguments fs st (kw, perms)
      | Some v \<Rightarrow> if v = PNone then filter_arguments fs st (kw, perms)
                 else filter_arguments fs st (dset n v kw, sadd perm perms))"

definition filter_objects :: "caller \<Rightarrow> (string \<times> string) list \<Rightarrow> pval \<Rightarrow> pval list \<Rightarrow> pval list outcome" where
  "filter_objects c fs st rows =
     (let (kw, perms) = filter_arguments fs st ([], []) in
      bind_ok (map_outcome (\<lambda>row. map_ok (\<lambda>b. (row, b)) (all_of (ask c row) perms)) rows) (\<lambda>rs.
        Ok (map fst (filter (\<lambda>(row, b). b \<and> list_all (\<lambda>(n, v). attribute row n = Some v) kw) rs))))"

subsection \<open>Who passes a condition\<close>

lemma all_of_True: "all_of f xs = Ok True \<longleftrightarrow> (\<forall>x \<in> set xs. f x = Ok True)"
  by (induction xs) (auto simp: bind_ok_eq_Ok)

lemma any_of_TrueD: "any_of f xs = Ok True \<Longrightarrow> \<exists>x \<in> set xs. f x = Ok True"
  by (induction xs) (auto simp: bind_ok_eq_Ok split: if_splits)

text \<open>A condition that rests on a right or on an identity, whatever the arguments are.\<close>

fun guarded :: "pc \<Rightarrow> bool" where
  "guarded PCDeny = True"
| "guarded PCPermit = False"
| "guarded (PCArg n perm) = True"
| "guarded (PCArgField n f perm) = True"
| "guarded (PCGlobal perm) = True"
| "guarded (PCAnd subs) = list_ex guarded subs"
| "guarded (PCOr subs) = list_all guarded subs"
| "guarded (PCEach n sub) = False"
| "guarded (PCEachKey n sub) = False"
| "guarded (PCEachValue n sub) = False"
| "guarded (PCTokenUser n) = True"
| "guarded PCTokenIsUser = True"
| "guarded PCTokenIsMachine = True"
| "guarded (PCRawBlob n) = False"

definition nobody :: "caller \<Rightarrow> bool" where
  "nobody c \<longleftrightarrow> c_role c = None \<and> c_user c = None \<and> c_machine c = None
     \<and> (\<forall>i m r. c_demand c i m r \<noteq> Ok True) \<and> (\<forall>r. c_global c r \<noteq> Ok True)"

lemma nobody_ask: "nobody c \<Longrightarrow> ask c v perm \<noteq> Ok True"
  by (auto simp: nobody_def ask_def split: pval.splits)

text \<open>
  (guarded_refuses_nobody): A caller without a role and without any right passes no
  condition that rests on a right or an identity: not a conjunction with one such part, and not a
  disjunction all parts of which are such, whatever the arguments of the call are.
\<close>

theorem guarded_refuses_nobody:
  assumes "nobody c" "guarded p"
  shows "check c p kw \<noteq> Ok True"
  using assms(2)
proof (induction p arbitrary: kw)
  case (PCAnd subs)
  then show ?case by (auto simp: all_of_True list_ex_iff)
next
  case (PCOr subs)
  then show ?case by (auto simp: list_all_iff dest!: any_of_TrueD)
qed (use assms(1) nobody_ask in \<open>auto simp: bind_ok_eq_Ok nobody_def split: option.splits pval.splits\<close>)

theorem guarded_refuses_nobody_witness:
  "check \<lparr>c_role = None, c_user = None, c_machine = None, c_demand = (\<lambda>_ _ _. Ok False), c_global = (\<lambda>_. Ok False)\<rparr>
     (PCOr [PCAnd [PCPermit, PCArg ''self'' ''EDIT''], PCTokenIsUser]) [(''self'', PObj 1 ''Contest'' [])] \<noteq> Ok True"
  by (rule guarded_refuses_nobody) (simp_all add: nobody_def)

subsection \<open>What an object shows\<close>

lemma visible_fields_shows:
  assumes "visible_fields c convert v fs ret = Ok ret'"
  shows "(\<And>perm kind. (n, perm, kind) \<in> set fs \<Longrightarrow> ask c v perm \<noteq> Ok True) \<Longrightarrow> dget ret' n = dget ret n"
    and "distinct (map fst fs) \<Longrightarrow> (n, perm, kind) \<in> set fs \<Longrightarrow> ask c v perm = Ok True
      \<Longrightarrow> \<exists>x. read_field convert n kind v = Ok x \<and> dget ret' n = Some x"
proof -
  have keep: "dget ret' n = dget ret n"
    if "visible_fields c convert v fs ret = Ok ret'" "\<And>m perm kind. (m, perm, kind) \<in> set fs \<Longrightarrow> m = n \<Longrightarrow> ask c v perm \<noteq> Ok True"
    for fs ret n
    using that
  proof (induction fs arbitrary: ret)
    case (Cons f fs)
    obtain m p k where f: "f = (m, p, k)" by (cases f)
    from Cons.prems(1) f obtain b where b: "ask c v p = Ok b" by (auto simp: bind_ok_eq_Ok)
    show ?case
    proof (cases b)
      case True
      with Cons.prems(1) f b obtain x where "visible_fields c convert v fs (dset m x ret) = Ok ret'"
        by (auto simp: bind_ok_eq_Ok)
      from Cons.IH [OF this] Cons.prems(2) f b True show ?thesis by fastforce
    next
      case False
      with Cons.prems(1) f b have "visible_fields c convert v fs ret = Ok ret'" by simp
      from Cons.IH [OF this] Cons.prems(2) show ?thesis by fastforce
    qed
  qed simp
  show "dget ret' n = dget ret n" if "\<And>perm kind. (n, perm, kind) \<in> set fs \<Longrightarrow> ask c v perm \<noteq> Ok True"
    using keep [OF assms, of n] that by blast
  show "\<exists>x. read_field convert n kind v = Ok x \<and> dget ret' n = Some x"
    if "distinct (map fst fs)" "(n, perm, kind) \<in> set fs" "ask c v perm = Ok True"
    using assms that
  proof (induction fs arbitrary: ret)
    case (Cons f fs)
    obtain m p k where f: "f = (m, p, k)" by (cases f)
    from Cons.prems(1) f obtain b where b: "ask c v p = Ok b" by (auto simp: bind_ok_eq_Ok)
    show ?case
    proof (cases "f = (n, perm, kind)")
      case True
      with Cons.prems f obtain x where x: "read_field convert n kind v = Ok x"
        and rest: "visible_fields c convert v fs (dset n x ret) = Ok ret'" by (auto simp: bind_ok_eq_Ok)
      have "n \<notin> fst ` set fs" using Cons.prems(2) True by auto
      then have "dget ret' n = dget (dset n x ret) n" by (intro keep [OF rest]) force
      with x show ?thesis by simp
    next
      case False
      then have in_fs: "(n, perm, kind) \<in> set fs" using Cons.prems(3) by auto
      obtain ret1 where "visible_fields c convert v fs ret1 = Ok ret'"
        using Cons.prems(1) f b by (cases b) (auto simp: bind_ok_eq_Ok)
      from Cons.IH [OF this _ in_fs Cons.prems(4)] Cons.prems(2) show ?thesis by simp
    qed
  qed simp
qed

lemma fresh_struct: "dget (fold (\<lambda>(n, _, _). dset n PNone) fs d) n = Some x \<Longrightarrow> dget d n = Some x \<or> x = PNone"
proof (induction fs arbitrary: d)
  case (Cons f fs)
  obtain m p k where f: "f = (m, p, k)" by (cases f)
  from Cons.prems f have "dget (dset m PNone d) n = Some x \<or> x = PNone" by (intro Cons.IH) simp
  then show ?case by (auto split: if_splits)
qed simp

text \<open>
  (struct_shows_permitted): When an object is returned as a structure, the caller may
  view it, and a field is filled in only if the caller has the right that this field asks for on this
  object; every field for which it has is filled in with the object's value.
\<close>

theorem struct_shows_permitted:
  assumes "struct_to_ars c reload convert fs value = Ok ret"
  shows "\<exists>v. (if attribute value ''_can_VIEW'' = None then reload value = Ok v else v = value)
    \<and> ask c v ''VIEW'' = Ok True
    \<and> (\<forall>n x. dget ret n = Some x \<and> x \<noteq> PNone \<longrightarrow> (\<exists>perm kind. (n, perm, kind) \<in> set fs \<and> ask c v perm = Ok True))
    \<and> (distinct (map fst fs) \<longrightarrow> (\<forall>n perm kind. (n, perm, kind) \<in> set fs \<and> ask c v perm = Ok True \<longrightarrow>
          (\<exists>x. read_field convert n kind v = Ok x \<and> dget ret n = Some x)))"
proof -
  from assms obtain v where v: "(if attribute value ''_can_VIEW'' = None then reload value else Ok value) = Ok v"
    and view: "ask c v ''VIEW'' = Ok True"
    and vis: "visible_fields c convert v fs (fold (\<lambda>(n, _, _). dset n PNone) fs []) = Ok ret"
    by (auto simp: struct_to_ars_def bind_ok_eq_Ok split: if_splits)
  have only: "\<exists>perm kind. (n, perm, kind) \<in> set fs \<and> ask c v perm = Ok True" if "dget ret n = Some x" "x \<noteq> PNone" for n x
  proof (rule ccontr)
    assume "\<not> ?thesis"
    then have "dget ret n = dget (fold (\<lambda>(n, _, _). dset n PNone) fs []) n"
      by (intro visible_fields_shows(1) [OF vis]) blast
    with that fresh_struct [of fs "[]" n x] show False by simp
  qed
  from v have "if attribute value ''_can_VIEW'' = None then reload value = Ok v else v = value" by (auto split: if_splits)
  with view only visible_fields_shows(2) [OF vis] show ?thesis by blast
qed

theorem struct_shows_permitted_witness:
  "\<exists>v. ask \<lparr>c_role = None, c_user = None, c_machine = None, c_demand = (\<lambda>_ _ r. Ok (r = ''VIEW'')), c_global = (\<lambda>_. Ok False)\<rparr>
     v ''VIEW'' = Ok True"
proof -
  let ?c = "\<lparr>c_role = None, c_user = None, c_machine = None, c_demand = (\<lambda>_ _ r. Ok (r = ''VIEW'')), c_global = (\<lambda>_. Ok False)\<rparr>"
  have "struct_to_ars ?c Ok (\<lambda>_. Ok) [(''name'', ''VIEW'', PlainField), (''login'', ''EDIT'', PlainField)]
     (PObj 4 ''User'' [(''name'', PStr ''Jan''), (''login'', PStr ''jan'')])
     = Ok [(''name'', PStr ''Jan''), (''login'', PNone)]"
    by (simp add: struct_to_ars_def attribute_def ask_def read_field_def Let_def)
  from struct_shows_permitted [OF this] show ?thesis by blast
qed

end
