(* ===== verification/Export_Call.thy ===== *)
theory Export_Call
  imports Sec_Token Privileges Export_Conditions Ars_Procedures
begin

section \<open>Calls of exported procedures\<close>

text \<open>
  \<open>satori.core.export\<close> (\<open>__init__.py\<close>, \<open>token.py\<close>) and the lock of \<open>Contest\<close>.
  \<^item> \<open>world\<close>: the token of the thread, which outlives a call, and the database: the roles and
    privileges with the caller's temporary tables, the rows of contests and contestants this code
    reads, and everything else (\<open>w_rest\<close>).
  \<^item> \<open>site\<close>: what a call finds around it: the clock, the address of the client, the cryptography,
    and the answers that come from the database. The clock is read more than once: \<open>s_now\<close> while the token is read,
    \<open>s_later\<close> when \<open>valid\<close> is asked. \<open>s_deadline\<close> is the deadline written into the code, \<open>datetime(2020, 1, 1)\<close>.
  \<^item> \<open>exported\<close>: a procedure with its condition; \<open>call_procedure\<close> is the function
    \<open>reimplementation\<close> with the transaction around it: after an exception the database is what it
    was before the call.
  \<^item> \<open>generate_procedure\<close>, \<open>generate_service\<close>, \<open>generate_interface\<close>: the remote interface of the
    exported classes. \<open>inspect\<close> is replaced by the names and types themselves (\<open>py_method\<close>, \<open>exported_class\<close>).
\<close>

record contest_row =
  ct_id :: nat
  lock_start :: "int option"
  lock_finish :: "int option"
  lock_address :: string
  lock_netmask :: string

record 'x world =
  w_token :: "token option"
  w_privs :: priv_db
  w_contests :: "contest_row list"
  w_contestants :: "(nat \<times> nat) list"
  w_rest :: 'x

record 'x site =
  s_now :: int
  s_later :: int
  s_client_ip :: string
  s_crypto :: crypto
  s_deadline :: int
  s_connectby :: "(nat \<times> nat) list \<Rightarrow> nat \<Rightarrow> nat list outcome"
  s_in_network :: "string \<Rightarrow> string \<Rightarrow> bool outcome"
  s_find_session :: "'x world \<Rightarrow> string \<Rightarrow> session option outcome"
  s_zero :: nat
  s_anonymous :: nat
  s_is_user :: "'x world \<Rightarrow> nat \<Rightarrow> bool"
  s_is_machine :: "'x world \<Rightarrow> nat \<Rightarrow> bool"
  s_demand :: "'x world \<Rightarrow> nat \<Rightarrow> string \<Rightarrow> string \<Rightarrow> bool outcome"
  s_global :: "'x world \<Rightarrow> string \<Rightarrow> bool outcome"

subsection \<open>The lock of a contest\<close>

definition lock_in_force :: "int \<Rightarrow> contest_row \<Rightarrow> bool" where
  "lock_in_force now c \<longleftrightarrow>
     (case lock_start c of None \<Rightarrow> False | Some s \<Rightarrow> s \<le> now) \<and> (case lock_finish c of None \<Rightarrow> False | Some f \<Rightarrow> f \<ge> now)"

definition get_current_lock :: "'x site \<Rightarrow> 'x world \<Rightarrow> contest_row option outcome" where
  "get_current_lock S w =
     (let contests = filter (lock_in_force (s_now S)) (w_contests w) in
      bind_ok (map_outcome (\<lambda>c. map_ok (\<lambda>b. (c, b))
          (s_in_network S (s_client_ip S) (lock_address c @ ''/'' @ lock_netmask c))) contests) (\<lambda>cs.
      (case map fst (filter snd cs) of
         [] \<Rightarrow> Ok None
       | [c] \<Rightarrow> Ok (Some c)
       | _ \<Rightarrow> Raise MultipleObjectsReturned)))"

text \<open>\<open>Contestant.objects.get\<close> for a member of a contestant, then for the contestant itself.\<close>

definition get_one :: "'a list \<Rightarrow> 'a option outcome" where
  "get_one xs = (case xs of [] \<Rightarrow> Ok None | [x] \<Rightarrow> Ok (Some x) | _ \<Rightarrow> Raise MultipleObjectsReturned)"

definition find_contestant :: "nat \<Rightarrow> nat \<Rightarrow> 'x world \<Rightarrow> nat option outcome" where
  "find_contestant contest user w =
     (let own = map fst (filter (\<lambda>(i, c). c = contest) (w_contestants w)) in
      bind_ok (get_one (filter (\<lambda>i. user \<in> set (get_members i (w_privs w))) own)) (\<lambda>r.
      case r of Some i \<Rightarrow> Ok (Some i) | None \<Rightarrow> get_one (filter (\<lambda>i. i = user) own)))"

subsection \<open>The token of a call\<close>

definition set_token :: "'x site \<Rightarrow> token \<Rightarrow> 'x world \<Rightarrow> unit outcome \<times> 'x world" where
  "set_token S t w0 =
     (let w = w0\<lparr>w_token := Some t\<rparr> in
      case bind_ok (get_current_lock S w) (\<lambda>lock.
             case lock of
               Some contest \<Rightarrow>
                 (case role_id t of
                    None \<Rightarrow> Ok (s_zero S)
                  | Some r \<Rightarrow>
                      bind_ok (find_contestant (ct_id contest) r w) (\<lambda>c.
                        case c of None \<Rightarrow> Raise TokenInvalid | Some i \<Rightarrow> Ok i))
             | None \<Rightarrow>
                 (case role_id t of
                    None \<Rightarrow> Ok (s_anonymous S)
                  | Some r \<Rightarrow> Ok (if r = 0 then s_anonymous S else r))) of
        Raise e \<Rightarrow> (Raise e, w)
      | Ok uid \<Rightarrow>
          (case set_user_id (s_connectby S) (s_now S) uid (w_privs w) of
             (r, db) \<Rightarrow> (r, w\<lparr>w_privs := db\<rparr>)))"

definition token_of_text :: "'x site \<Rightarrow> string \<Rightarrow> pval \<Rightarrow> 'x world \<Rightarrow> token outcome" where
  "token_of_text S salt arg w =
     (case arg of
        PStr s \<Rightarrow> token_init (s_crypto S) (s_find_session S w) (s_deadline S) (s_now S) salt (Some s) None None None None
      | PNone \<Rightarrow> token_init (s_crypto S) (s_find_session S w) (s_deadline S) (s_now S) salt None None None None None
      | _ \<Rightarrow> Raise TypeError)"

definition check_set_token_str :: "'x site \<Rightarrow> string \<Rightarrow> pval \<Rightarrow> 'x world \<Rightarrow> unit outcome \<times> 'x world" where
  "check_set_token_str S salt arg w =
     (case token_of_text S salt arg w of
        Raise e \<Rightarrow> (Raise TokenInvalid, w)
      | Ok t \<Rightarrow> if \<not> token_valid (s_later S) t then (Raise TokenExpired, w) else set_token S t w)"

subsection \<open>A call\<close>

record 'x exported =
  x_params :: "string list"
  x_from_ars :: "string \<Rightarrow> 'x world \<Rightarrow> pval \<Rightarrow> pval outcome"
  x_condition :: pc
  x_func :: "kwargs \<Rightarrow> 'x world \<Rightarrow> pval outcome \<times> 'x world"
  x_to_ars :: "'x world \<Rightarrow> pval \<Rightarrow> pval outcome"

definition caller_of :: "'x site \<Rightarrow> 'x world \<Rightarrow> caller" where
  "caller_of S w = \<lparr>c_role = (case w_token w of None \<Rightarrow> None | Some t \<Rightarrow> role_id t),
     c_user = (case w_token w of None \<Rightarrow> None | Some t \<Rightarrow> token_member (s_is_user S w) t),
     c_machine = (case w_token w of None \<Rightarrow> None | Some t \<Rightarrow> token_member (s_is_machine S w) t),
     c_demand = s_demand S w, c_global = s_global S w\<rparr>"

fun convert_arguments :: "'x exported \<Rightarrow> 'x world \<Rightarrow> kwargs \<Rightarrow> kwargs outcome" where
  "convert_arguments p w [] = Ok []"
| "convert_arguments p w ((n, v) # kw) =
     (if n \<notin> set (x_params p) then Raise KeyError
      else bind_ok (x_from_ars p n w v) (\<lambda>v'. map_ok (Cons (n, v')) (convert_arguments p w kw)))"

definition rename_self :: "kwargs \<Rightarrow> kwargs" where
  "rename_self kw = (case dget kw ''_self'' of None \<Rightarrow> kw | Some v \<Rightarrow> dset ''self'' v (ddel ''_self'' kw))"

definition run_call :: "'x site \<Rightarrow> string \<Rightarrow> 'x exported \<Rightarrow> kwargs \<Rightarrow> 'x world \<Rightarrow> pval outcome \<times> 'x world" where
  "run_call S salt p kw w =
     (case check_set_token_str S salt (dget_def_val kw ''token'' (PStr [])) w of
        (Raise e, w1) \<Rightarrow> (Raise e, w1)
      | (Ok _, w1) \<Rightarrow>
          (case map_ok rename_self (convert_arguments p w1 (ddel ''token'' kw)) of
             Raise e \<Rightarrow> (Raise e, w1)
           | Ok kw' \<Rightarrow>
               (case check (caller_of S w1) (x_condition p) kw' of
                  Raise e \<Rightarrow> (Raise e, w1)
                | Ok b \<Rightarrow>
                    if \<not> b then (Raise AccessDenied, w1)
                    else (case x_func p kw' w1 of
                            (Raise e, w2) \<Rightarrow> (Raise e, w2)
                          | (Ok ret, w2) \<Rightarrow> (x_to_ars p w2 ret, w2)))))"

text \<open>The transaction: what is not committed is rolled back.\<close>

definition call_procedure :: "'x site \<Rightarrow> string \<Rightarrow> 'x exported \<Rightarrow> kwargs \<Rightarrow> 'x world \<Rightarrow> pval outcome \<times> 'x world" where
  "call_procedure S salt p kw w =
     (case run_call S salt p kw w of
        (Ok ret, w') \<Rightarrow> (Ok ret, w')
      | (Raise e, w') \<Rightarrow> (Raise e, w\<lparr>w_token := w_token w'\<rparr>))"

subsection \<open>The remote interface\<close>

record py_method =
  m_name :: string
  m_args :: "string list"
  m_defaults :: "nat option"
  m_types :: "ars_type list"
  m_return :: ars_type
  m_throws :: "ars_type list"

definition export_method :: "py_method \<Rightarrow> unit outcome" where
  "export_method m =
     (if length (m_args m) \<noteq> length (m_types m)
      then Raise (RuntimeError (''Bad argument count in export declaration for '' @ m_name m @ ''()'')) else Ok ())"

definition nondef_count :: "py_method \<Rightarrow> int" where
  "nondef_count m = (case m_defaults m of None \<Rightarrow> int (length (m_args m)) | Some d \<Rightarrow> int (length (m_args m)) - int d)"

definition parameter_name :: "string \<Rightarrow> string" where
  "parameter_name n = (if n = ''self'' then ''_self'' else n)"

text \<open>The new objects of a procedure get identities after its own four.\<close>

definition method_parameters :: "obj \<Rightarrow> py_method \<Rightarrow> ars_type field list" where
  "method_parameters i m = Field (i + 4) ''token'' (Atomic ArsString) False
     # map (\<lambda>k. Field (i + 5 + k) (parameter_name (m_args m ! k)) (m_types m ! k) (int k \<ge> nondef_count m)) [0..<length (m_args m)]"

definition generate_procedure :: "ars_type list \<Rightarrow> obj \<Rightarrow> string \<Rightarrow> 'i \<Rightarrow> py_method \<Rightarrow> 'i procedure outcome" where
  "generate_procedure global_exceptions i class_name impl m =
     (let p0 = new_procedure i (class_name @ ''_'' @ m_name m) (m_return m) (Some impl);
          j = i + 5 + length (m_args m) in
      case for_each add_parameter (method_parameters i m) p0 of
        (Raise e, _) \<Rightarrow> Raise e
      | (Ok _, p1) \<Rightarrow>
          (case for_each (\<lambda>(k, x). add_exception (j + k) x) (enumerate 0 (global_exceptions @ m_throws m)) p1 of
             (Raise e, _) \<Rightarrow> Raise e
           | (Ok _, p2) \<Rightarrow> Ok p2))"

record 'i exported_class =
  e_name :: string
  e_parent :: string
  e_no_inherit :: bool
  e_methods :: "(py_method \<times> obj \<times> 'i) list"

definition generate_service :: "ars_type list \<Rightarrow> obj \<Rightarrow> 'i exported_class \<Rightarrow> 'i service option \<Rightarrow> 'i service outcome" where
  "generate_service global_exceptions i cls base =
     (case for_each (\<lambda>(m, k, impl) s.
             case generate_procedure global_exceptions k (e_name cls) impl m of
               Raise e \<Rightarrow> (Raise e, s)
             | Ok p \<Rightarrow> add_procedure p s) (e_methods cls) (Service i (e_name cls) base []) of
        (Raise e, _) \<Rightarrow> Raise e
      | (Ok _, s) \<Rightarrow> Ok s)"

definition generate_interface :: "ars_type list \<Rightarrow> (obj \<times> 'i exported_class) list \<Rightarrow> 'i interface outcome" where
  "generate_interface global_exceptions classes =
     (case for_each (\<lambda>(i, cls) I.
             case (if e_parent cls \<in> set (map (e_name \<circ> snd) classes) \<and> \<not> e_no_inherit cls
                   then (case nt_get sv_name (e_parent cls) (if_services I) of
                           None \<Rightarrow> Raise KeyError | Some b \<Rightarrow> Ok (Some b))
                   else Ok None) of
               Raise e \<Rightarrow> (Raise e, I)
             | Ok base \<Rightarrow>
                 (case generate_service global_exceptions i cls base of
                    Raise e \<Rightarrow> (Raise e, I)
                  | Ok s \<Rightarrow> add_service s I)) classes new_interface of
        (Raise e, _) \<Rightarrow> Raise e
      | (Ok _, I) \<Rightarrow> Ok I)"

subsection \<open>What a call does\<close>

lemma set_token_database:
  "set_token S t w0 = (r, w) \<Longrightarrow> w_token w = Some t \<and> w_contests w = w_contests w0 \<and> w_contestants w = w_contestants w0
     \<and> w_rest w = w_rest w0 \<and> priv_rows (w_privs w) = priv_rows (w_privs w0) \<and> role_map (w_privs w) = role_map (w_privs w0)"
  by (auto simp: set_token_def set_user_id_def Let_def split: outcome.splits)

lemma run_call_Ok:
  assumes "run_call S salt p kw w = (Ok v, w')"
  shows "\<exists>w1 kw' x. check_set_token_str S salt (dget_def_val kw ''token'' (PStr [])) w = (Ok (), w1)
    \<and> map_ok rename_self (convert_arguments p w1 (ddel ''token'' kw)) = Ok kw'
    \<and> check (caller_of S w1) (x_condition p) kw' = Ok True
    \<and> x_func p kw' w1 = (Ok x, w') \<and> x_to_ars p w' x = Ok v"
  using assms unfolding run_call_def by (auto split: prod.splits outcome.splits if_splits)

text \<open>Whose rights a call has: without a lock those of the token's role, under a lock those of the contestant.\<close>

definition acts_as :: "'x site \<Rightarrow> 'x world \<Rightarrow> token \<Rightarrow> nat \<Rightarrow> bool" where
  "acts_as S w t uid \<longleftrightarrow>
     (\<exists>lock. get_current_lock S w = Ok lock
        \<and> (lock = None \<longrightarrow> uid = (case role_id t of None \<Rightarrow> s_anonymous S | Some r \<Rightarrow> if r = 0 then s_anonymous S else r))
        \<and> (\<forall>contest. lock = Some contest \<longrightarrow>
              (case role_id t of None \<Rightarrow> uid = s_zero S | Some r \<Rightarrow> find_contestant (ct_id contest) r w = Ok (Some uid))))"

lemma get_current_lock_token: "get_current_lock S (w\<lparr>w_token := t\<rparr>) = get_current_lock S w"
  by (simp add: get_current_lock_def)

lemma find_contestant_token: "find_contestant c r (w\<lparr>w_token := t\<rparr>) = find_contestant c r w"
  by (simp add: find_contestant_def)

lemma set_token_Ok:
  assumes "set_token S t w = (Ok (), w1)"
  shows "\<exists>uid db. acts_as S w t uid \<and> set_user_id (s_connectby S) (s_now S) uid (w_privs w) = (Ok (), db)
    \<and> w1 = w\<lparr>w_token := Some t, w_privs := db\<rparr>"
proof -
  obtain lock where lock: "get_current_lock S w = Ok lock"
    using assms by (cases "get_current_lock S w") (auto simp: set_token_def Let_def get_current_lock_token)
  have "\<exists>uid db. acts_as S w t uid \<and> set_user_id (s_connectby S) (s_now S) uid (w_privs w) = (Ok (), db)
      \<and> w1 = w\<lparr>w_token := Some t\<rparr>\<lparr>w_privs := db\<rparr>"
    using assms lock
    by (auto simp: set_token_def acts_as_def Let_def get_current_lock_token find_contestant_token outcome_simps
        split: option.splits outcome.splits prod.splits if_splits)
  then show ?thesis by simp
qed

lemma convert_arguments_Ok:
  "convert_arguments p w kw = Ok cs \<Longrightarrow>
     list_all2 (\<lambda>(n, v) (m, u). m = n \<and> n \<in> set (x_params p) \<and> x_from_ars p n w v = Ok u) kw cs"
  by (induction kw arbitrary: cs) (auto simp: outcome_simps split: if_splits)

text \<open>
  C6 (call_is_guarded): A call that returns a value had a valid token, and the rights in force while it ran are those of
  that token's role (under the lock of a contest those of its contestant). The function ran on exactly the arguments of
  the call, each a parameter of the procedure and converted by the type of that parameter (\<open>_self\<close> under the name
  \<open>self\<close>); the condition of the procedure was true for this caller and these very arguments; the new state of the database
  is the one the function left behind, and the value is the converted result. A call that raises an exception,
  whether in the token, the arguments, the condition, the function or the conversion of the result, leaves the
  database as it was: only the token of the thread is set.
\<close>

theorem call_is_guarded:
  assumes "call_procedure S salt p kw w = (r, w')"
  shows "(\<forall>e. r = Raise e \<longrightarrow> w' = w\<lparr>w_token := w_token w'\<rparr>)
    \<and> (\<forall>v. r = Ok v \<longrightarrow> (\<exists>t uid db w1 cs x.
          token_of_text S salt (dget_def_val kw ''token'' (PStr [])) w = Ok t \<and> token_valid (s_later S) t
          \<and> acts_as S w t uid \<and> set_user_id (s_connectby S) (s_now S) uid (w_privs w) = (Ok (), db)
          \<and> w1 = w\<lparr>w_token := Some t, w_privs := db\<rparr>
          \<and> list_all2 (\<lambda>(n, v) (m, u). m = n \<and> n \<in> set (x_params p) \<and> x_from_ars p n w1 v = Ok u) (ddel ''token'' kw) cs
          \<and> check (caller_of S w1) (x_condition p) (rename_self cs) = Ok True
          \<and> x_func p (rename_self cs) w1 = (Ok x, w') \<and> x_to_ars p w' x = Ok v))"
proof (intro conjI allI impI)
  show "w' = w\<lparr>w_token := w_token w'\<rparr>" if "r = Raise e" for e
    using assms that by (auto simp: call_procedure_def split: prod.splits outcome.splits)
  fix v
  assume "r = Ok v"
  then have "run_call S salt p kw w = (Ok v, w')"
    using assms by (auto simp: call_procedure_def split: prod.splits outcome.splits)
  from run_call_Ok [OF this] obtain w1 kw' x where
    c: "check_set_token_str S salt (dget_def_val kw ''token'' (PStr [])) w = (Ok (), w1)"
    and args: "map_ok rename_self (convert_arguments p w1 (ddel ''token'' kw)) = Ok kw'"
    and f: "check (caller_of S w1) (x_condition p) kw' = Ok True" "x_func p kw' w1 = (Ok x, w')" "x_to_ars p w' x = Ok v"
    by blast
  from c obtain t where t: "token_of_text S salt (dget_def_val kw ''token'' (PStr [])) w = Ok t" "token_valid (s_later S) t"
    and st: "set_token S t w = (Ok (), w1)"
    by (auto simp: check_set_token_str_def split: outcome.splits if_splits)
  from args obtain cs where cs: "convert_arguments p w1 (ddel ''token'' kw) = Ok cs" "kw' = rename_self cs"
    by (cases "convert_arguments p w1 (ddel ''token'' kw)") auto
  from set_token_Ok [OF st] t f cs(2) convert_arguments_Ok [OF cs(1)] show "\<exists>t uid db w1 cs x.
      token_of_text S salt (dget_def_val kw ''token'' (PStr [])) w = Ok t \<and> token_valid (s_later S) t
      \<and> acts_as S w t uid \<and> set_user_id (s_connectby S) (s_now S) uid (w_privs w) = (Ok (), db)
      \<and> w1 = w\<lparr>w_token := Some t, w_privs := db\<rparr>
      \<and> list_all2 (\<lambda>(n, v) (m, u). m = n \<and> n \<in> set (x_params p) \<and> x_from_ars p n w1 v = Ok u) (ddel ''token'' kw) cs
      \<and> check (caller_of S w1) (x_condition p) (rename_self cs) = Ok True
      \<and> x_func p (rename_self cs) w1 = (Ok x, w') \<and> x_to_ars p w' x = Ok v" by blast
qed

definition sample_site :: "unit site" where
  "sample_site = \<lparr>s_now = 6, s_later = 7, s_client_ip = ''10.0.0.1'', s_crypto = sample_crypto, s_deadline = 100,
     s_connectby = sample_connectby, s_in_network = (\<lambda>_ _. Ok False), s_find_session = (\<lambda>_ _. Ok None),
     s_zero = 0, s_anonymous = 77, s_is_user = (\<lambda>_ _. False), s_is_machine = (\<lambda>_ _. False),
     s_demand = (\<lambda>_ _ _ _. Ok False), s_global = (\<lambda>_ _. Ok False)\<rparr>"

definition sample_world :: "unit world" where
  "sample_world = \<lparr>w_token = None, w_privs = sample_db, w_contests = [], w_contestants = [], w_rest = ()\<rparr>"

definition sample_call :: "pc \<Rightarrow> unit exported" where
  "sample_call c = \<lparr>x_params = [''name''], x_from_ars = (\<lambda>_ _ v. Ok v), x_condition = c,
     x_func = (\<lambda>kw w. (Ok PNone, w\<lparr>w_privs := add_member 10 5 (w_privs w)\<rparr>)), x_to_ars = (\<lambda>_ v. Ok v)\<rparr>"

theorem call_is_guarded_witness:
  "(\<exists>w1. check (caller_of sample_site w1) PCPermit [(''name'', PNum 1)] = Ok True
       \<and> snd (call_procedure sample_site ''s'' (sample_call PCPermit) [(''name'', PNum 1)] sample_world)
         = w1\<lparr>w_privs := add_member 10 5 (w_privs w1)\<rparr>)
   \<and> snd (call_procedure sample_site ''s'' (sample_call (PCGlobal ''ADMIN'')) [(''name'', PNum 1)] sample_world)
     = sample_world\<lparr>w_token := w_token (snd (call_procedure sample_site ''s'' (sample_call (PCGlobal ''ADMIN'')) [(''name'', PNum 1)] sample_world))\<rparr>"
proof -
  let ?c = "call_procedure sample_site ''s'' (sample_call (PCGlobal ''ADMIN'')) [(''name'', PNum 1)] sample_world"
  let ?ok = "call_procedure sample_site ''s'' (sample_call PCPermit) [(''name'', PNum 1)] sample_world"
  have "?ok = (Ok PNone, snd ?ok)"
    by (rule prod_eqI) (simp_all, code_simp)
  from call_is_guarded [OF this] obtain w1 cs x where
    args: "list_all2 (\<lambda>(n, v) (m, u). m = n \<and> n \<in> set (x_params (sample_call PCPermit)) \<and> x_from_ars (sample_call PCPermit) n w1 v = Ok u)
      (ddel ''token'' [(''name'', PNum 1)]) cs"
    and f: "x_func (sample_call PCPermit) (rename_self cs) w1 = (Ok x, snd ?ok)" by blast
  from args have cs: "rename_self cs = [(''name'', PNum 1)]"
    by (auto simp: sample_call_def ddel_def list_all2_Cons1 rename_self_def dget_def)
  have "check (caller_of sample_site w1) PCPermit [(''name'', PNum 1)] = Ok True"
    by simp
  moreover have "snd ?ok = w1\<lparr>w_privs := add_member 10 5 (w_privs w1)\<rparr>"
    using f by (simp add: sample_call_def [of PCPermit])
  moreover have "?c = (Raise AccessDenied, snd ?c)"
    by (rule prod_eqI) (simp_all, code_simp)
  from call_is_guarded [OF this] have "snd ?c = sample_world\<lparr>w_token := w_token (snd ?c)\<rparr>" by simp
  ultimately show ?thesis by blast
qed

lemma token_of_text_parts:
  assumes "s \<noteq> []" "token_decrypt (s_crypto S) (secret_key (s_crypto S)) s = Ok raw" "split_on newline raw = [r0, r1, r2, r3]"
    and "text_time (s_crypto S) r2 = Ok d"
  shows "d < s_now S \<Longrightarrow> \<exists>e. token_of_text S salt (PStr s) w = Raise e"
    and "token_of_text S salt (PStr s) w = Ok t \<Longrightarrow> tok_deadline t = d \<and> s_now S \<le> d"
proof -
  let ?t0 = "\<lparr>tok_key = or_else None (secret_key (s_crypto S)), tok_salt = salt, tok_session = None, tok_deadline = s_deadline S\<rparr>"
  have tt: "token_of_text S salt (PStr s) w = parse_parts (s_crypto S) (s_find_session S w) (s_now S) ?t0 [r0, r1, r2, r3]"
    using assms by (cases "parse_parts (s_crypto S) (s_find_session S w) (s_now S) ?t0 [r0, r1, r2, r3]")
      (simp_all add: token_of_text_def token_init_def or_else_def)
  have ok: "tok_deadline t = d \<and> s_now S \<le> d" if "token_of_text S salt (PStr s) w = Ok t" for t
    using parse_parts_accepts [OF that [unfolded tt]] assms(4) by auto
  show "tok_deadline t = d \<and> s_now S \<le> d" if "token_of_text S salt (PStr s) w = Ok t" using ok [OF that] .
  show "\<exists>e. token_of_text S salt (PStr s) w = Raise e" if "d < s_now S"
    using that ok by (cases "token_of_text S salt (PStr s) w") force+
qed

text \<open>
  C40 (expired_token_answer): How a call with an expired token is answered. A token whose deadline is over when it is read
  is answered with TokenInvalid, not with TokenExpired, as reading it already fails. A token that is read and whose
  deadline is reached before \<open>valid\<close> is asked, or in that moment, is answered with TokenExpired; one whose deadline comes later is
  never refused for being expired. An empty or missing token has the deadline written into the code: until then the call
  goes on without a session, from then on every such call is answered with TokenExpired. None of the refusals changes
  the token of the thread or the database.
\<close>

theorem expired_token_answer:
  assumes "s \<noteq> []" "token_decrypt (s_crypto S) (secret_key (s_crypto S)) s = Ok raw"
    and "split_on newline raw = [r0, r1, r2, r3]" "text_time (s_crypto S) r2 = Ok d"
  shows "(d < s_now S \<longrightarrow> check_set_token_str S salt (PStr s) w = (Raise TokenInvalid, w))
    \<and> (\<forall>t. token_of_text S salt (PStr s) w = Ok t \<longrightarrow> s_now S \<le> d
         \<and> (d \<le> s_later S \<longrightarrow> check_set_token_str S salt (PStr s) w = (Raise TokenExpired, w))
         \<and> (s_later S < d \<longrightarrow> check_set_token_str S salt (PStr s) w = set_token S t w))
    \<and> (\<forall>arg \<in> {PNone, PStr []}.
         (s_deadline S \<le> s_later S \<longrightarrow> check_set_token_str S salt arg w = (Raise TokenExpired, w))
         \<and> (s_later S < s_deadline S \<longrightarrow> (\<exists>t. tok_session t = None \<and> check_set_token_str S salt arg w = set_token S t w)))"
proof (intro conjI impI allI ballI)
  show "check_set_token_str S salt (PStr s) w = (Raise TokenInvalid, w)" if "d < s_now S"
    using token_of_text_parts(1) [OF assms that, of salt w] by (auto simp: check_set_token_str_def)
next
  fix t
  assume t: "token_of_text S salt (PStr s) w = Ok t"
  note d = token_of_text_parts(2) [OF assms t]
  show "s_now S \<le> d" using d by simp
  show "check_set_token_str S salt (PStr s) w = (Raise TokenExpired, w)" if "d \<le> s_later S"
    using that d t by (simp add: check_set_token_str_def token_valid_def)
  show "check_set_token_str S salt (PStr s) w = set_token S t w" if "s_later S < d"
    using that d t by (simp add: check_set_token_str_def token_valid_def)
next
  fix arg
  assume "arg \<in> {PNone, PStr []}"
  then have "\<exists>t. token_of_text S salt arg w = Ok t \<and> tok_session t = None \<and> tok_deadline t = s_deadline S"
    by (auto simp: token_of_text_def token_init_def or_else_def)
  then obtain t where t: "token_of_text S salt arg w = Ok t" "tok_session t = None" "tok_deadline t = s_deadline S" by blast
  show "check_set_token_str S salt arg w = (Raise TokenExpired, w)" if "s_deadline S \<le> s_later S"
    using that t by (simp add: check_set_token_str_def token_valid_def)
  show "\<exists>t. tok_session t = None \<and> check_set_token_str S salt arg w = set_token S t w" if "s_later S < s_deadline S"
    using that t by (auto simp: check_set_token_str_def token_valid_def)
qed

theorem expired_token_answer_witness:
  "\<exists>s raw. token_decrypt sample_crypto ''key'' s = Ok raw \<and> split_on newline raw = [''abc'', [], ''5'', ''0'']
     \<and> check_set_token_str sample_site ''s'' (PStr s) sample_world = (Raise TokenInvalid, sample_world)"
proof -
  let ?s = "token_encrypt sample_crypto ''key'' (join [newline] [''abc'', [], ''5'', ''0''])"
  have ne: "?s \<noteq> []" by code_simp
  have dec: "token_decrypt (s_crypto sample_site) (secret_key (s_crypto sample_site)) ?s
      = Ok (join [newline] [''abc'', [], ''5'', ''0''])" by code_simp
  have parts: "split_on newline (join [newline] [''abc'', [], ''5'', ''0'']) = [''abc'', [], ''5'', ''0'']" by code_simp
  have d: "text_time (s_crypto sample_site) ''5'' = Ok 5" by code_simp
  have now: "(5::int) < s_now sample_site" by (simp add: sample_site_def)
  have key: "s_crypto sample_site = sample_crypto" "secret_key sample_crypto = ''key''"
    by (simp_all add: sample_site_def sample_crypto_def)
  have "check_set_token_str sample_site ''s'' (PStr ?s) sample_world = (Raise TokenInvalid, sample_world)"
    using expired_token_answer [OF ne dec parts d, of "''s''" sample_world] now by blast
  with dec parts key show ?thesis by (intro exI [of _ ?s] exI [of _ "join [newline] [''abc'', [], ''5'', ''0'']"]) (simp del: join.simps)
qed

end
