(* ===== verification/Agg_Board.thy ===== *)
theory Agg_Board
  imports Agg_Points
begin

section \<open>ACMBoardAggregator: the scoreboard and its freeze\<close>

text \<open>
  \<^item> \<open>board_problem\<close>: its \<open>ACMProblemScore\<close>, which also counts the results after the freeze. Its
    \<open>result_list\<close> is sorted by (time, ok, submit). Times are microseconds.
  \<^item> \<open>board_score\<close>: \<open>ACMScore\<close> with the line for the resolver; \<open>board_extra\<close>: the problems shown, the
    table, and what was last written into the blob \<open>resolver.json\<close>, before it is turned into JSON.
  \<^item> As in \<open>Agg_Acm\<close>, adding the float scores of problems and truncating is the parameter \<open>points\<close>.
\<close>

record board_problem =
  bp_ok :: bool
  bp_ok_final :: bool
  bp_trials :: int
  bp_late_trials :: int
  bp_ok_time :: int
  bp_ok_submit :: "key option"
  bp_results :: "result list"

definition new_board_problem :: board_problem where
  "new_board_problem = \<lparr>bp_ok = False, bp_ok_final = False, bp_trials = 0, bp_late_trials = 0, bp_ok_time = 0,
     bp_ok_submit = None, bp_results = []\<rparr>"

definition late :: "int option \<Rightarrow> int \<Rightarrow> bool" where
  "late freeze time = (case freeze of Some f \<Rightarrow> time > f | None \<Rightarrow> False)"

definition one_trial :: "int option \<Rightarrow> int \<Rightarrow> board_problem \<Rightarrow> board_problem" where
  "one_trial freeze time p =
     (let p1 = p\<lparr>bp_trials := bp_trials p + 1\<rparr> in
      if late freeze time then p1\<lparr>bp_late_trials := bp_late_trials p + 1\<rparr> else p1)"

text \<open>The loop over \<open>result_list\<close> up to the first accepted one.\<close>

fun board_loop :: "int option \<Rightarrow> int option \<Rightarrow> result list \<Rightarrow> board_problem \<Rightarrow> board_problem" where
  "board_loop start freeze [] p = p"
| "board_loop start freeze ((time, ok, submit) # rs) p =
     (let p1 = one_trial freeze time p in
      if ok then p1\<lparr>bp_ok_time := (case start of Some t \<Rightarrow> if time > t then time - t else 0 | None \<Rightarrow> 0),
                    bp_ok_submit := Some submit\<rparr>
      else board_loop start freeze rs p1)"

definition board_aggregate :: "bool \<Rightarrow> int option \<Rightarrow> int option \<Rightarrow> int option \<Rightarrow> result \<Rightarrow> board_problem \<Rightarrow> board_problem" where
  "board_aggregate ignore start stop freeze r p =
     (if ignore then p
      else if (case stop of Some t \<Rightarrow> fst r > t | None \<Rightarrow> False) then p
      else let ok = fst (snd r); after = late freeze (fst r); p1 = one_trial freeze (fst r) p;
               p2 = (if ok then p1\<lparr>bp_ok_final := True\<rparr> else p1);
               p3 = (if ok \<and> \<not> after then p2\<lparr>bp_ok := True\<rparr> else p2);
               p4 = p3\<lparr>bp_results := insort r (bp_results p3)\<rparr> in
           if bp_ok_final p4 then board_loop start freeze (bp_results p4) (p4\<lparr>bp_trials := 0, bp_late_trials := 0\<rparr>) else p4)"

definition quoted :: "string \<Rightarrow> string" where
  "quoted s = CHR 0x60 # s @ [CHR 0x60]"

definition board_str :: "board_problem \<Rightarrow> string" where
  "board_str p =
     (if bp_trials p = 0 then []
      else if bp_ok p then
        '':tdpos:'' @ quoted (str_int (bp_trials p)) @ '' :signature:'' @ [CHR 0x60] @ ''('' @ str_int (int_seconds (bp_ok_time p) div 3600)
          @ '':'' @ zfill 2 (str_int (int_seconds (bp_ok_time p) mod 3600 div 60)) @ '')'' @ [CHR 0x60]
      else if bp_late_trials p > 0 then
        '':tdpnd:'' @ quoted (str_int (bp_trials p - bp_late_trials p) @ ''+'' @ str_int (bp_late_trials p))
      else '':tdneg:'' @ quoted (str_int (bp_trials p)))"

definition resolver_status :: "board_problem \<Rightarrow> string" where
  "resolver_status p =
     (if bp_ok p then ''O'' else if bp_late_trials p > 0 then ''F'' else if bp_results p \<noteq> [] then ''W'' else ''N'')"

definition resolution :: "int \<Rightarrow> int \<Rightarrow> board_problem \<Rightarrow> (bool \<times> int \<times> int) option" where
  "resolution score penalty p =
     (if bp_ok p then None
      else if bp_late_trials p = 0 then None
      else if bp_ok_final p then Some (True, score, int_seconds (bp_ok_time p + penalty * (bp_trials p - 1)))
      else Some (False, 0, 0))"

record resolver_row =
  rv_login :: "string option"
  rv_name :: string
  rv_points :: int
  rv_time :: int
  rv_counters :: "int list"
  rv_statuses :: "string list"
  rv_solutions :: "(bool \<times> int \<times> int) option list"

record board_score =
  bs_scores :: "(key, board_problem) dict"
  bs_resolver :: "resolver_row option"

record board_extra =
  bx_problems :: "(key \<times> problem_mapping) list"
  bx_table :: "rest_table option"
  bx_resolver :: "resolver_row option list option"

type_synonym 'f board_agg = "('f, board_score, board_extra) agg"

definition board_time :: "int \<Rightarrow> board_problem list \<Rightarrow> int" where
  "board_time penalty ps = sum_list (map (\<lambda>p. bp_ok_time p + penalty * (bp_trials p - 1)) ps)"

definition board_cell :: "board_score \<Rightarrow> key \<Rightarrow> string" where
  "board_cell b k = (case dget (bs_scores b) k of Some p \<Rightarrow> board_str p | None \<Rightarrow> no_points)"

definition resolver_line :: "('f agg_params list \<Rightarrow> int) \<Rightarrow> 'f board_agg \<Rightarrow> contestant \<Rightarrow> int \<Rightarrow> int \<Rightarrow> board_score \<Rightarrow> resolver_row" where
  "resolver_line points a ct score seconds b =
     (let ks = map fst (bx_problems (ag_extra a)); penalty = time_of (ag_params a) ''time_penalty'' in
      \<lparr>rv_login = cn_login ct, rv_name = cn_name ct, rv_points = score, rv_time = seconds,
       rv_counters = map (\<lambda>k. case dget (bs_scores b) k of Some p \<Rightarrow> bp_trials p | None \<Rightarrow> 0) ks,
       rv_statuses = map (\<lambda>k. case dget (bs_scores b) k of Some p \<Rightarrow> resolver_status p | None \<Rightarrow> ''N'') ks,
       rv_solutions = map (\<lambda>k. case dget (bs_scores b) k of
           Some p \<Rightarrow> resolution (points [problem_params_of a k]) penalty p | None \<Rightarrow> None) ks\<rparr>)"

definition board_update :: "('f agg_params list \<Rightarrow> int) \<Rightarrow> 'f xval ext \<Rightarrow> 'f board_agg \<Rightarrow> board_score score \<Rightarrow> db
    \<Rightarrow> unit outcome \<times> board_score score \<times> db" where
  "board_update points X a s d =
     (let b = sc_body s; solved = filter (\<lambda>(k, p). bp_ok p) (bs_scores b) in
      if sc_hidden s \<or> (solved = [] \<and> \<not> flag X (ag_params a) ''show_zero'')
      then save_score (hide_entry (acm_position 0 maxint []) s) d
      else
        let score = points (map (\<lambda>(k, p). problem_params_of a k) solved);
            seconds = int_seconds (board_time (time_of (ag_params a) ''time_penalty'') (map snd solved));
            name = cn_name (sc_contestant s);
            cells = map (\<lambda>(k, p). board_cell b k) (bx_problems (ag_extra a)) in
        case bx_table (ag_extra a) of
          None \<Rightarrow> (Raise (AttributeError ''table''), s, d)
        | Some table \<Rightarrow>
            (case table_row (col_width table) ([[], escape name, str_int score, str_int (seconds div 60)] @ cells) of
               Raise e \<Rightarrow> (Raise e, s, d)
             | Ok text \<Rightarrow>
                 (case save_score (show_entry (text @ row_separator table) (acm_position score seconds name) s) d of
                    (Raise e, s1, d1) \<Rightarrow> (Raise e, s1, d1)
                  | (Ok _, s1, d1) \<Rightarrow>
                      (Ok (), s1\<lparr>sc_body := b\<lparr>bs_resolver := Some (resolver_line points a (sc_contestant s) score seconds b)\<rparr>\<rparr>, d1))))"

definition board_score_aggregate :: "'f xval ext \<Rightarrow> 'f board_agg \<Rightarrow> key \<Rightarrow> suite_result \<Rightarrow> db \<Rightarrow> board_score \<Rightarrow> unit outcome \<times> board_score" where
  "board_score_aggregate X a k r d s =
     (case dget (ag_submits a) (sr_submit r) of
        None \<Rightarrow> (Raise KeyError, s)
      | Some sub \<Rightarrow>
          if sb_problem sub \<notin> set (dkeys (bs_scores s)) \<and> sb_problem sub \<notin> set (dkeys (ag_problems a)) then (Raise KeyError, s)
          else let p = dget_def_val (bs_scores s) (sb_problem sub) new_board_problem;
                   ps = problem_params_of a (sb_problem sub);
                   ignored = split_on CHR '','' (text_of (ag_params a) ''ignored'');
                   put = (\<lambda>q. s\<lparr>bs_scores := dset (sb_problem sub) q (bs_scores s)\<rparr>) in
               if flag X ps ''ignore'' then (Ok (), put p)
               else case raise_oa (oa_get_str (group_of (suite_oa d) k) ''status'' None) of
                 Raise e \<Rightarrow> (Raise e, put p)
               | Ok st \<Rightarrow>
                   if (case st of Some t \<Rightarrow> t \<in> set ignored | None \<Rightarrow> False) then (Ok (), put p)
                   else (Ok (), put (board_aggregate False (date_of ps ''time_start'') (date_of ps ''time_stop'')
                          (date_of (ag_params a) ''time_freeze'') (sb_time sub, is_accepted st, sr_submit r) p)))"

subsection \<open>The aggregator\<close>

definition roles_header :: string where
  "roles_header = concat (map (\<lambda>r. ''.. role:: '' @ r @ [newline, newline]) [''tdpos'', ''tdneg'', ''tdpnd'', ''signature''])"

definition board_init :: "'f xval ext \<Rightarrow> 'f board_agg \<Rightarrow> db \<Rightarrow> unit outcome \<times> 'f board_agg \<times> db" where
  "board_init X a d =
     (let a1 = inherit_params [''time_start'', ''time_stop''] a;
          ps = filter (\<lambda>(k, p). \<not> flag X (problem_params_of a1 k) ''ignore'') (by_code (ag_problems a1));
          cols = [(32, ''Rank''), (320, ''Name''), (32, ''Score''), (32, ''Time'')] @ map (\<lambda>(k, p). (32, pm_code p)) ps in
      case rest_table cols of
        Raise e \<Rightarrow> (Raise e, a1\<lparr>ag_extra := (ag_extra a1)\<lparr>bx_problems := ps\<rparr>\<rparr>, d)
      | Ok t \<Rightarrow> set_header (roles_header @ table_header t) (header_row t @ row_separator t)
          (a1\<lparr>ag_extra := (ag_extra a1)\<lparr>bx_problems := ps, bx_table := Some t\<rparr>\<rparr>) d)"

definition update_resolver :: "'f xval ext \<Rightarrow> 'f board_agg \<Rightarrow> 'f board_agg" where
  "update_resolver X a =
     (if flag X (ag_params a) ''resolver'' then
        a\<lparr>ag_extra := (ag_extra a)\<lparr>bx_resolver := Some (map (\<lambda>s. bs_resolver (sc_body s))
          (filter (\<lambda>s. en_row (snd (sc_entry s)) \<noteq> []) (sort_key (\<lambda>s. en_position (snd (sc_entry s))) (map snd (ag_scores a)))))\<rparr>\<rparr>
      else a)"

definition board_general :: "'f xval oa_param list" where
  "board_general =
    [def_param OaBoolean ''show_invisible'' ''Show invisible submits'' (PBool False),
     def_param OaBoolean ''show_zero'' ''Show contestants with zero score'' (PBool False),
     opt_param (OaExt ''datetime'') ''time_start'' ''Submission start time'',
     opt_param (OaExt ''datetime'') ''time_freeze'' ''Freeze time'',
     opt_param (OaExt ''datetime'') ''time_stop'' ''Submission stop time'',
     def_param OaText ''ignored'' ''Non-penalized results'' (PText []),
     def_param (OaExt ''time'') ''time_penalty'' ''Penalty for wrong submit'' (PExt (XTime 1200000000)),
     opt_param OaBoolean ''resolver'' ''Prepare resolver.js'']"

definition board_methods :: "'f \<Rightarrow> ('f agg_params list \<Rightarrow> int) \<Rightarrow> 'f xval ext \<Rightarrow> ('f, board_score, board_extra) methods" where
  "board_methods one points X = \<lparr>vm_general = board_general, vm_problem = acm_problem_params one, vm_init = board_init X,
     vm_position = acm_position 0 maxint [], vm_get_score = (\<lambda>a. \<lparr>bs_scores = [], bs_resolver = None\<rparr>),
     vm_initialize = (\<lambda>a s. Ok s), vm_aggregate = board_score_aggregate X, vm_update = board_update points X\<rparr>"

text \<open>Two methods of the base class are followed by \<open>update_resolver\<close>, unless they raise.\<close>

definition board_checked_suites :: "'f \<Rightarrow> ('f agg_params list \<Rightarrow> int) \<Rightarrow> 'f xval ext \<Rightarrow> (key \<times> suite_result) list
    \<Rightarrow> 'f board_agg \<Rightarrow> db \<Rightarrow> unit outcome \<times> 'f board_agg \<times> db" where
  "board_checked_suites one points X rs a d =
     (case agg_checked_suites (board_methods one points X) rs a d of
        (Raise e, a1, d1) \<Rightarrow> (Raise e, a1, d1)
      | (Ok _, a1, d1) \<Rightarrow> (Ok (), update_resolver X a1, d1))"

definition board_changed_contestants :: "'f \<Rightarrow> ('f agg_params list \<Rightarrow> int) \<Rightarrow> 'f xval ext
    \<Rightarrow> 'f board_agg \<Rightarrow> db \<Rightarrow> unit outcome \<times> 'f board_agg \<times> db" where
  "board_changed_contestants one points X a d =
     (case agg_changed_contestants (board_methods one points X) X a d of
        (Raise e, a1, d1) \<Rightarrow> (Raise e, a1, d1)
      | (Ok _, a1, d1) \<Rightarrow> (Ok (), update_resolver X a1, d1))"

subsection \<open>What a problem's score is\<close>

text \<open>The results up to the first accepted one.\<close>

fun tried :: "result list \<Rightarrow> result list" where
  "tried [] = []"
| "tried (r # rs) = (if accepted r then [r] else r # tried rs)"

definition late_in :: "int option \<Rightarrow> result list \<Rightarrow> int" where
  "late_in freeze rs = int (length (filter (\<lambda>r. late freeze (fst r)) rs))"

lemma late_in_simps [simp]:
  "late_in freeze [] = 0"
  "late_in freeze (r # rs) = of_bool (late freeze (fst r)) + late_in freeze rs"
  by (simp_all add: late_in_def)

lemma one_trial_fields [simp]:
  "bp_trials (one_trial freeze t p) = bp_trials p + 1"
  "bp_late_trials (one_trial freeze t p) = bp_late_trials p + of_bool (late freeze t)"
  "bp_ok (one_trial freeze t p) = bp_ok p" "bp_ok_final (one_trial freeze t p) = bp_ok_final p"
  "bp_ok_time (one_trial freeze t p) = bp_ok_time p" "bp_ok_submit (one_trial freeze t p) = bp_ok_submit p"
  "bp_results (one_trial freeze t p) = bp_results p"
  by (simp_all add: one_trial_def Let_def)

definition ok_time_of :: "int option \<Rightarrow> int \<Rightarrow> int" where
  "ok_time_of start time = (case start of Some t \<Rightarrow> if time > t then time - t else 0 | None \<Rightarrow> 0)"

lemma board_loop_fields:
  "bp_trials (board_loop start freeze rs p) = bp_trials p + int (length (tried rs))
   \<and> bp_late_trials (board_loop start freeze rs p) = bp_late_trials p + late_in freeze (tried rs)
   \<and> bp_ok (board_loop start freeze rs p) = bp_ok p \<and> bp_ok_final (board_loop start freeze rs p) = bp_ok_final p
   \<and> bp_results (board_loop start freeze rs p) = bp_results p"
  by (induction start freeze rs p rule: board_loop.induct) (auto simp: Let_def)

lemma board_loop_found:
  "list_ex accepted rs \<Longrightarrow> bp_ok_time (board_loop start freeze rs p) = ok_time_of start (fst (last (tried rs)))
   \<and> bp_ok_submit (board_loop start freeze rs p) = Some (snd (snd (last (tried rs))))"
proof (induction start freeze rs p rule: board_loop.induct)
  case (2 start freeze time ok submit rs p)
  have "tried rs \<noteq> []" if "list_ex accepted rs" using that by (cases rs) auto
  with 2 show ?case by (auto simp: Let_def simp flip: ok_time_of_def)
qed simp

text \<open>The score of a sorted list of results.\<close>

definition board_of :: "int option \<Rightarrow> int option \<Rightarrow> result list \<Rightarrow> board_problem" where
  "board_of start freeze rs =
     \<lparr>bp_ok = list_ex (\<lambda>r. accepted r \<and> \<not> late freeze (fst r)) rs, bp_ok_final = list_ex accepted rs,
      bp_trials = int (length (tried rs)), bp_late_trials = late_in freeze (tried rs),
      bp_ok_time = (if list_ex accepted rs then ok_time_of start (fst (last (tried rs))) else 0),
      bp_ok_submit = (if list_ex accepted rs then Some (snd (snd (last (tried rs)))) else None),
      bp_results = rs\<rparr>"

lemma tried_none: "\<not> list_ex accepted rs \<Longrightarrow> tried rs = rs"
  by (induction rs) auto

lemma list_ex_insort: "list_ex P (insort r rs) \<longleftrightarrow> P r \<or> list_ex P rs" for r :: result
  by (auto simp: list_ex_iff set_insort_key)

lemma late_in_insort: "late_in freeze (insort r rs) = of_bool (late freeze (fst r)) + late_in freeze rs"
  by (induction rs) auto

lemma board_aggregate_step:
  assumes "counted ignore stop r"
  shows "board_aggregate ignore start stop freeze r (board_of start freeze rs) = board_of start freeze (insort r rs)"
proof -
  define q where "q = board_of start freeze rs"
  define p where "p = (let p1 = one_trial freeze (fst r) q; p2 = (if accepted r then p1\<lparr>bp_ok_final := True\<rparr> else p1);
      p3 = (if accepted r \<and> \<not> late freeze (fst r) then p2\<lparr>bp_ok := True\<rparr> else p2)
    in p3\<lparr>bp_results := insort r (bp_results p3)\<rparr>)"
  have p: "bp_ok p = bp_ok (board_of start freeze (insort r rs))" "bp_ok_final p = list_ex accepted (insort r rs)"
    "bp_results p = insort r rs" "bp_trials p = bp_trials q + 1" "bp_late_trials p = bp_late_trials q + of_bool (late freeze (fst r))"
    "bp_ok_time p = bp_ok_time q" "bp_ok_submit p = bp_ok_submit q"
    by (auto simp: p_def q_def board_of_def list_ex_insort Let_def)
  have step: "board_aggregate ignore start stop freeze r q
      = (if bp_ok_final p then board_loop start freeze (bp_results p) (p\<lparr>bp_trials := 0, bp_late_trials := 0\<rparr>) else p)"
    using assms by (cases stop) (simp_all add: board_aggregate_def counted_def accepted_def p_def Let_def)
  show ?thesis
  proof (cases "list_ex accepted (insort r rs)")
    case True
    with step p(2,3) have "board_aggregate ignore start stop freeze r q
        = board_loop start freeze (insort r rs) (p\<lparr>bp_trials := 0, bp_late_trials := 0\<rparr>)" by simp
    then show ?thesis
      unfolding q_def [symmetric]
      using board_loop_fields [of start freeze "insort r rs" "p\<lparr>bp_trials := 0, bp_late_trials := 0\<rparr>"]
        board_loop_found [OF True, of start freeze "p\<lparr>bp_trials := 0, bp_late_trials := 0\<rparr>"] p True
      by (intro board_problem.equality) (simp_all add: board_of_def)
  next
    case False
    then have "\<not> accepted r" "\<not> list_ex accepted rs" by (auto simp: list_ex_insort)
    with False step p show ?thesis
      unfolding q_def [symmetric]
      by (intro board_problem.equality) (simp_all add: q_def board_of_def tried_none late_in_insort)
  qed
qed

lemma board_aggregate_all:
  "fold (board_aggregate ignore start stop freeze) rs (board_of start freeze xs)
   = board_of start freeze (fold insort (filter (counted ignore stop) rs) xs)"
proof (induction rs arbitrary: xs)
  case (Cons r rs)
  show ?case
  proof (cases "counted ignore stop r")
    case True
    then show ?thesis using Cons by (simp add: board_aggregate_step)
  next
    case False
    then have "board_aggregate ignore start stop freeze r (board_of start freeze xs) = board_of start freeze xs"
      by (auto simp: board_aggregate_def counted_def split: option.splits)
    with False Cons show ?thesis by simp
  qed
qed simp

lemma board_of_Nil: "board_of start freeze [] = new_board_problem"
  by (simp add: board_of_def new_board_problem_def)

lemma board_fold:
  "fold (board_aggregate ignore start stop freeze) rs new_board_problem
   = board_of start freeze (sort (filter (counted ignore stop) rs))"
  using board_aggregate_all [of ignore start stop freeze rs "[]"] by (simp add: board_of_Nil fold_insort)

text \<open>Results are sorted by time: what comes before an accepted result in time comes before the freeze if that does.\<close>

lemma tried_not_late:
  "sorted rs \<Longrightarrow> r \<in> set rs \<Longrightarrow> accepted r \<Longrightarrow> \<not> late freeze (fst r) \<Longrightarrow> late_in freeze (tried rs) = 0"
proof (induction rs)
  case (Cons x rs)
  have "fst x \<le> fst r" using Cons.prems(1,2) by (cases x; cases r) (auto simp: less_eq_prod_def)
  then have "\<not> late freeze (fst x)" using Cons.prems(4) by (auto simp: late_def split: option.splits)
  with Cons show ?case by auto
qed simp

text \<open>
  C36 (board_score_counts): On the scoreboard a problem has as many trials as there are counted results up to the
  first accepted one in the order of time, whatever the order in which they were judged; the late ones among
  them are those after the freeze. It is solved on the board if a result before the freeze was
  accepted, and then none of its trials is late.
\<close>

theorem board_score_counts:
  assumes "q = fold (board_aggregate ignore start stop freeze) rs new_board_problem"
    and "seq = tried (sort (filter (counted ignore stop) rs))"
  shows "bp_trials q = int (length seq) \<and> bp_late_trials q = int (length (filter (\<lambda>r. late freeze (fst r)) seq))
    \<and> (bp_ok q \<longleftrightarrow> (\<exists>r \<in> set rs. counted ignore stop r \<and> accepted r \<and> \<not> late freeze (fst r)))
    \<and> (bp_ok q \<longrightarrow> bp_late_trials q = 0 \<and> accepted (last seq) \<and> bp_ok_submit q = Some (snd (snd (last seq)))
        \<and> bp_ok_time q = ok_time_of start (fst (last seq)))"
proof (intro conjI impI)
  let ?s = "sort (filter (counted ignore stop) rs)"
  have q: "q = board_of start freeze ?s" using assms(1) by (simp add: board_fold)
  show "bp_trials q = int (length seq)" "bp_late_trials q = int (length (filter (\<lambda>r. late freeze (fst r)) seq))"
    by (simp_all add: q assms(2) board_of_def late_in_def)
  show ok: "bp_ok q \<longleftrightarrow> (\<exists>r \<in> set rs. counted ignore stop r \<and> accepted r \<and> \<not> late freeze (fst r))"
    unfolding q board_of_def board_problem.select_convs list_ex_iff set_sort set_filter by blast
  assume solved: "bp_ok q"
  then obtain r where r: "r \<in> set ?s" "accepted r" "\<not> late freeze (fst r)" using ok by auto
  then show "bp_late_trials q = 0" using tried_not_late [of ?s r freeze] by (simp add: q board_of_def)
  have ex: "list_ex accepted ?s" unfolding list_ex_iff using r by blast
  then show "bp_ok_submit q = Some (snd (snd (last seq)))" "bp_ok_time q = ok_time_of start (fst (last seq))"
    by (simp_all add: q assms(2) board_of_def)
  have "accepted (last (tried xs))" if "list_ex accepted xs" for xs using that
  proof (induction xs)
    case (Cons x xs)
    have "tried xs \<noteq> []" if "list_ex accepted xs" using that by (cases xs) auto
    with Cons show ?case by auto
  qed simp
  with ex show "accepted (last seq)" by (simp add: assms(2))
qed

theorem board_score_counts_witness:
  "bp_trials (fold (board_aggregate False None None (Some 10)) [(7, True, 3), (5, False, 1), (12, True, 9)] new_board_problem) = 2"
  using board_score_counts [OF refl refl, of False None None "Some 10" "[(7, True, 3), (5, False, 1), (12, True, 9)]"]
  by (simp add: counted_def accepted_def)

subsection \<open>The freeze\<close>

text \<open>
  (board_freeze_leaks): After the freeze the cell of a problem shows how often it was tried, but counting stops at the
  first accepted result. Two courses of results that differ only in a verdict after the freeze have different
  cells when the contestant tries the problem again after that verdict, so that the cell tells whether
  it was accepted; when nothing follows, they have the same cell.
\<close>

theorem board_freeze_leaks:
  "board_str (fold (board_aggregate False None None (Some 10)) [(5, False, 1), (12, True, 2), (13, False, 3)] new_board_problem)
      \<noteq> board_str (fold (board_aggregate False None None (Some 10)) [(5, False, 1), (12, False, 2), (13, False, 3)] new_board_problem)
   \<and> board_str (fold (board_aggregate False None None (Some 10)) [(5, False, 1), (12, True, 2)] new_board_problem)
      = board_str (fold (board_aggregate False None None (Some 10)) [(5, False, 1), (12, False, 2)] new_board_problem)"
  by code_simp

end
