(* ===== verification/Agg_Baloon.thy ===== *)
theory Agg_Baloon
  imports Agg_Points
begin

section \<open>BaloonAggregator: a baloon for every solved problem\<close>

text \<open>
  \<^item> \<open>baloon_score\<close>: \<open>BaloonScore\<close>; of a \<open>BaloonProblemScore\<close> only \<open>ok\<close> changes. \<open>bl_printed\<close> is not a
    field of the program: it records the runs of the print script, with their arguments.
  \<^item> \<open>run\<close>: the print script, which ends well or raises (\<open>subprocess.check_output\<close>).
  \<^item> The state of the contestants is read back from the ranking entries by \<open>baloon_initialize\<close>.
\<close>

record baloon_score =
  bl_scores :: "(key, bool) dict"
  bl_printed :: "(string \<times> string) list"

record baloon_extra =
  lx_problems :: "(key \<times> problem_mapping) list"
  lx_table :: "rest_table option"

type_synonym 'f baloon_agg = "('f, baloon_score, baloon_extra) agg"

definition baloon_position :: "string \<Rightarrow> string" where
  "baloon_position name = take 50 name"

definition script_text :: "'f agg_params \<Rightarrow> string" where
  "script_text ps = (case dget ps ''script'' of Some (Some (PText s)) \<Rightarrow> s | _ \<Rightarrow> ''None'')"

text \<open>\<open>BaloonProblemScore.aggregate\<close>: the new value of \<open>ok\<close> and the run of the script, if there is one.\<close>

definition baloon_aggregate :: "(string \<Rightarrow> string \<Rightarrow> unit outcome) \<Rightarrow> bool \<Rightarrow> int option \<Rightarrow> string \<Rightarrow> int \<Rightarrow> key
    \<Rightarrow> string option outcome \<Rightarrow> bool \<Rightarrow> unit outcome \<times> bool \<times> (string \<times> string) option" where
  "baloon_aggregate run ignore stop script time submit answer ok =
     (if ignore \<or> ok then (Ok (), ok, None)
      else case answer of
        Raise e \<Rightarrow> (Raise e, ok, None)
      | Ok st \<Rightarrow>
          if \<not> is_accepted st then (Ok (), ok, None)
          else if (case stop of Some t \<Rightarrow> time > t | None \<Rightarrow> False) then (Ok (), ok, None)
          else (run script (str_nat submit), True, Some (script, str_nat submit)))"

definition baloon_score_aggregate :: "(string \<Rightarrow> string \<Rightarrow> unit outcome) \<Rightarrow> 'f xval ext \<Rightarrow> 'f baloon_agg \<Rightarrow> key \<Rightarrow> suite_result \<Rightarrow> db
    \<Rightarrow> baloon_score \<Rightarrow> unit outcome \<times> baloon_score" where
  "baloon_score_aggregate run X a k r d s =
     (case dget (ag_submits a) (sr_submit r) of
        None \<Rightarrow> (Raise KeyError, s)
      | Some sub \<Rightarrow>
          if sb_problem sub \<notin> set (dkeys (bl_scores s)) \<and> sb_problem sub \<notin> set (dkeys (ag_problems a)) then (Raise KeyError, s)
          else
            (case baloon_aggregate run (flag X (problem_params_of a (sb_problem sub)) ''ignore'')
                    (date_of (ag_params a) ''time_stop'') (script_text (ag_params a)) (sb_time sub) (sr_submit r)
                    (raise_oa (oa_get_str (group_of (suite_oa d) k) ''status'' None))
                    (dget_def_val (bl_scores s) (sb_problem sub) False) of
               (res, ok, printed) \<Rightarrow>
                 (res, s\<lparr>bl_scores := dset (sb_problem sub) ok (bl_scores s),
                         bl_printed := bl_printed s @ (case printed of None \<Rightarrow> [] | Some x \<Rightarrow> [x])\<rparr>)))"

definition baloon_initialize :: "'f baloon_agg \<Rightarrow> baloon_score score \<Rightarrow> baloon_score score outcome" where
  "baloon_initialize a s =
     (case lx_table (ag_extra a) of
        None \<Rightarrow> Raise (AttributeError ''table'')
      | Some table \<Rightarrow>
          (let text = en_row (snd (sc_entry s));
               row = parse_row (col_width table) (take (length text - length (row_separator table)) text) in
           if length row \<le> 2 then Raise IndexError
           else let baloons = map unescape (split_on CHR '' '' (strip (row ! 2))) in
             Ok (s\<lparr>sc_body := fold (\<lambda>(k, p) b. if pm_code p \<in> set baloons then b\<lparr>bl_scores := dset k True (bl_scores b)\<rparr> else b)
               (ag_problems a) (sc_body s)\<rparr>)))"

definition code_of :: "(key, problem_mapping) dict \<Rightarrow> key \<Rightarrow> string" where
  "code_of ps k = (case dget ps k of Some p \<Rightarrow> pm_code p | None \<Rightarrow> [])"

definition baloon_list :: "'f baloon_agg \<Rightarrow> baloon_score \<Rightarrow> string" where
  "baloon_list a b = join '' '' (sort (map (\<lambda>(k, ok). code_of (ag_problems a) k) (filter snd (bl_scores b))))"

definition baloon_update :: "'f baloon_agg \<Rightarrow> baloon_score score \<Rightarrow> db \<Rightarrow> unit outcome \<times> baloon_score score \<times> db" where
  "baloon_update a s d =
     (if sc_hidden s then save_score (hide_entry (baloon_position []) s) d
      else case lx_table (ag_extra a) of
        None \<Rightarrow> (Raise (AttributeError ''table''), s, d)
      | Some table \<Rightarrow>
          (case table_row (col_width table) [[], escape (cn_name (sc_contestant s)), baloon_list a (sc_body s)] of
             Raise e \<Rightarrow> (Raise e, s, d)
           | Ok text \<Rightarrow> save_score (show_entry (text @ row_separator table)
               (baloon_position (cn_sort_field (sc_contestant s))) s) d))"

definition baloon_columns :: "(nat \<times> string) list" where
  "baloon_columns = [(32, ''Lp.''), (320, ''Name''), (32, ''Baloons'')]"

definition baloon_init :: "'f xval ext \<Rightarrow> 'f baloon_agg \<Rightarrow> db \<Rightarrow> unit outcome \<times> 'f baloon_agg \<times> db" where
  "baloon_init X a d =
     (let ps = filter (\<lambda>(k, p). \<not> flag X (problem_params_of a k) ''ignore'') (by_code (ag_problems a)) in
      case rest_table baloon_columns of
        Raise e \<Rightarrow> (Raise e, a\<lparr>ag_extra := (ag_extra a)\<lparr>lx_problems := ps\<rparr>\<rparr>, d)
      | Ok t \<Rightarrow> set_header (table_header t) (header_row t @ row_separator t) (a\<lparr>ag_extra := \<lparr>lx_problems = ps, lx_table = Some t\<rparr>\<rparr>) d)"

definition baloon_general :: "'f xval oa_param list" where
  "baloon_general =
    [def_param OaBoolean ''show_invisible'' ''Show invisible submits'' (PBool False),
     opt_param (OaExt ''datetime'') ''time_start'' ''Submission start time'',
     opt_param (OaExt ''datetime'') ''time_stop'' ''Submission stop time'',
     opt_param OaText ''script'' ''Print script'']"

definition baloon_methods :: "(string \<Rightarrow> string \<Rightarrow> unit outcome) \<Rightarrow> 'f xval ext \<Rightarrow> ('f, baloon_score, baloon_extra) methods" where
  "baloon_methods run X = \<lparr>vm_general = baloon_general, vm_problem = ignore_param, vm_init = baloon_init X,
     vm_position = baloon_position [], vm_get_score = (\<lambda>a. \<lparr>bl_scores = [], bl_printed = []\<rparr>),
     vm_initialize = baloon_initialize, vm_aggregate = baloon_score_aggregate run X, vm_update = baloon_update\<rparr>"

subsection \<open>Nothing is printed twice\<close>

text \<open>A code that survives the table: it is not empty and has no space, line break or backslash.\<close>

definition code_ok :: "string \<Rightarrow> bool" where
  "code_ok c \<longleftrightarrow> c \<noteq> [] \<and> CHR '' '' \<notin> set c \<and> backslash \<notin> set c \<and> stripped c \<and> newline \<notin> set c"

lemma unescape_no_backslash: "backslash \<notin> set s \<Longrightarrow> unescape s = s"
proof -
  have "backslash \<notin> set s \<Longrightarrow> unescape_from False s = s" by (induction s) auto
  then show "backslash \<notin> set s \<Longrightarrow> unescape s = s" by (simp add: unescape_def)
qed

lemma unescape_Nil: "unescape [] = []"
  by (simp add: unescape_def)

text \<open>Reading the list of codes back.\<close>

lemma codes_read_back:
  assumes "\<forall>c \<in> set cs. code_ok c"
  shows "{c \<in> set (map unescape (split_on CHR '' '' (join '' '' cs))). c \<noteq> []} = set cs"
proof (cases "cs = []")
  case True
  then show ?thesis by (simp add: unescape_Nil)
next
  case False
  then have "split_on CHR '' '' (join '' '' cs) = cs"
    using assms by (intro split_on_join) (auto simp: code_ok_def)
  moreover have "map unescape cs = cs" using assms by (auto simp: code_ok_def unescape_no_backslash intro: map_idI)
  ultimately show ?thesis using assms by (auto simp: code_ok_def)
qed

lemma flag_set: "dget_def_val d k False \<longleftrightarrow> dget d k = Some True"
  by (cases "dget d k") (auto simp: dget_def_val_def)

lemma in_dkeys: "(k, v) \<in> set d \<Longrightarrow> k \<in> set (dkeys d)"
  by (force simp: dkeys_def)

lemma keys_of_value: "set (dkeys d) \<subseteq> K \<Longrightarrow> {k. (k, v) \<in> set d} \<subseteq> K"
  by (rule subsetI, drule CollectD, drule in_dkeys) (erule subsetD)

lemma initialize_fold:
  assumes "distinct (dkeys ps)"
  shows "dget (bl_scores (fold (\<lambda>(k, p) b. if P p then b\<lparr>bl_scores := dset k True (bl_scores b)\<rparr> else b) ps b)) k = Some True
    \<longleftrightarrow> (\<exists>p. dget ps k = Some p \<and> P p) \<or> dget (bl_scores b) k = Some True"
  using assms
proof (induction ps arbitrary: b)
  case (Cons kp ps)
  obtain k' p where kp: "kp = (k', p)" by (cases kp)
  have k': "k' \<notin> set (dkeys ps)" using Cons.prems by (simp add: kp dkeys_def)
  have none: "dget ps k' = None" using k' by (simp add: dget_None_iff)
  have ps: "distinct (dkeys ps)" using Cons.prems by (simp add: kp dkeys_def)
  show ?case
    using Cons.IH [OF ps, of "if P p then b\<lparr>bl_scores := dset k' True (bl_scores b)\<rparr> else b"] none
    by (cases "k = k'") (simp_all add: kp)
qed simp

definition baloon_ready :: "'f baloon_agg \<Rightarrow> bool" where
  "baloon_ready a \<longleftrightarrow>
     (\<exists>table. lx_table (ag_extra a) = Some table \<and> col_width table = map fst baloon_columns)
     \<and> dict_ok (ag_problems a) \<and> inj_on (code_of (ag_problems a)) (set (dkeys (ag_problems a)))
     \<and> (\<forall>k \<in> set (dkeys (ag_problems a)). code_ok (code_of (ag_problems a) k))"

definition solved :: "baloon_score \<Rightarrow> key \<Rightarrow> bool" where
  "solved b k \<longleftrightarrow> dget_def_val (bl_scores b) k False"

lemma solved_in: "dict_ok (bl_scores b) \<Longrightarrow> solved b k \<longleftrightarrow> (k, True) \<in> set (bl_scores b)"
  by (simp add: solved_def flag_set dget_Some_iff)

lemma baloon_codes:
  assumes "baloon_ready a" "dict_ok (bl_scores b)" "set (dkeys (bl_scores b)) \<subseteq> set (dkeys (ag_problems a))"
    and "k \<in> set (dkeys (ag_problems a))"
  shows "code_of (ag_problems a) k \<in> code_of (ag_problems a) ` {k. (k, True) \<in> set (bl_scores b)} \<longleftrightarrow> solved b k"
proof -
  have "{k. (k, True) \<in> set (bl_scores b)} \<subseteq> set (dkeys (ag_problems a))"
    by (rule keys_of_value [OF assms(3)])
  with assms have "code_of (ag_problems a) k \<in> code_of (ag_problems a) ` {k. (k, True) \<in> set (bl_scores b)} \<longleftrightarrow> (k, True) \<in> set (bl_scores b)"
    by (auto simp: baloon_ready_def inj_on_def)
  with solved_in [OF assms(2)] show ?thesis by simp
qed

text \<open>What is read back from a ln that was written.\<close>

lemma baloon_read_back:
  assumes a: "baloon_ready a" "lx_table (ag_extra a) = Some table" and b: "dict_ok (bl_scores b)" "set (dkeys (bl_scores b)) \<subseteq> set (dkeys (ag_problems a))"
    and f: "fits 32 (baloon_list a b)"
    and t: "en_row (snd (sc_entry t)) = ln @ row_separator table" "parse_row (col_width table) ln = [[], name, baloon_list a b]"
      "bl_scores (sc_body t) = []"
  shows "\<exists>t'. baloon_initialize a t = Ok t' \<and> bl_printed (sc_body t') = bl_printed (sc_body t)
    \<and> (\<forall>k \<in> set (dkeys (ag_problems a)). solved (sc_body t') k \<longleftrightarrow> solved b k)"
proof -
  let ?cs = "sort (map (\<lambda>(k, ok). code_of (ag_problems a) k) (filter snd (bl_scores b)))"
  let ?bs = "map unescape (split_on CHR '' '' (join '' '' ?cs))"
  let ?t' = "t\<lparr>sc_body := fold (\<lambda>(k, p) b. if pm_code p \<in> set ?bs then b\<lparr>bl_scores := dset k True (bl_scores b)\<rparr> else b)
       (ag_problems a) (sc_body t)\<rparr>"
  have cs: "set ?cs = code_of (ag_problems a) ` {k. (k, True) \<in> set (bl_scores b)}" by force
  have ks: "{k. (k, True) \<in> set (bl_scores b)} \<subseteq> set (dkeys (ag_problems a))" by (rule keys_of_value [OF b(2)])
  have code_ok: "\<forall>c \<in> set ?cs. code_ok c" using a(1) ks unfolding cs baloon_ready_def by blast
  have "strip (baloon_list a b) = baloon_list a b" using f by (simp add: fits_def stripped_def)
  then have init: "baloon_initialize a t = Ok ?t'"
    using a(2) t by (simp add: baloon_initialize_def baloon_list_def Let_def)
  have printed: "bl_printed (fold (\<lambda>(k, p) b. if P p then b\<lparr>bl_scores := dset k True (bl_scores b)\<rparr> else b) ps c) = bl_printed c"
    for P :: "problem_mapping \<Rightarrow> bool" and ps :: "(key \<times> problem_mapping) list" and c
    by (induction ps arbitrary: c) auto
  have "solved (sc_body ?t') k \<longleftrightarrow> solved b k" if k: "k \<in> set (dkeys (ag_problems a))" for k
  proof -
    obtain p where p: "dget (ag_problems a) k = Some p" using k dget_None_iff by fastforce
    have c: "pm_code p = code_of (ag_problems a) k" "pm_code p \<noteq> []"
      using a(1) k p by (auto simp: code_of_def baloon_ready_def code_ok_def)
    have dk: "distinct (dkeys (ag_problems a))" using a(1) by (simp add: baloon_ready_def dict_ok_def dkeys_def)
    have "solved (sc_body ?t') k \<longleftrightarrow> pm_code p \<in> set ?bs"
      using initialize_fold [OF dk, of "\<lambda>p. pm_code p \<in> set ?bs" "sc_body t" k] t(3) p
      by (simp add: solved_def flag_set)
    also have "\<dots> \<longleftrightarrow> pm_code p \<in> set ?cs" using codes_read_back [OF code_ok] c(2) by blast
    also have "\<dots> \<longleftrightarrow> solved b k" unfolding cs c(1) by (rule baloon_codes [OF a(1) b k])
    finally show ?thesis .
  qed
  with init printed show ?thesis by (intro exI [of _ ?t']) simp
qed

text \<open>
  (baloons_survive_restart): What baloon_update writes into the ranking entry of a visible contestant is
  enough to start again: a new score object that is initialized from the entry has the same problems
  solved, and no later result of a solved problem runs the print script a second time. The codes of
  the problems must be distinct and without spaces and backslashes, and the list must fit its column.
\<close>

theorem baloons_survive_restart:
  assumes "baloon_ready a" "dict_ok (bl_scores (sc_body s))" "set (dkeys (bl_scores (sc_body s))) \<subseteq> set (dkeys (ag_problems a))"
    and "fits 320 (escape (cn_name (sc_contestant s)))" "fits 32 (baloon_list a (sc_body s))" "\<not> sc_hidden s"
    and "baloon_update a s d = (Ok x, s', d')" "sc_entry t = sc_entry s'" "bl_scores (sc_body t) = []"
  shows "\<exists>t'. baloon_initialize a t = Ok t'
    \<and> (\<forall>k \<in> set (dkeys (ag_problems a)). solved (sc_body t') k \<longleftrightarrow> solved (sc_body s) k)
    \<and> (\<forall>run X k r d sub. dget (ag_submits a) (sr_submit r) = Some sub \<and> sb_problem sub \<in> set (dkeys (ag_problems a))
        \<and> solved (sc_body s) (sb_problem sub)
        \<longrightarrow> bl_printed (snd (baloon_score_aggregate run X a k r d (sc_body t'))) = bl_printed (sc_body t'))"
proof -
  from assms(1) obtain table where table: "lx_table (ag_extra a) = Some table" "col_width table = [32, 320, 32]"
    by (auto simp: baloon_ready_def baloon_columns_def)
  let ?items = "[[], escape (cn_name (sc_contestant s)), baloon_list a (sc_body s)]"
  have "fits 32 []" by (simp add: fits_def stripped_def strip_def lstrip_def rstrip_def)
  with assms(4,5) have "list_all2 fits (col_width table) ?items" by (simp add: table(2))
  then obtain ln where ln: "generate_row (col_width table) ?items = Some (Ok ln)" "parse_row (col_width table) ln = ?items"
    using generate_parse_row by blast
  have "en_row (snd (sc_entry s')) = ln @ row_separator table"
    using assms(6,7) table(1) ln(1)
    by (auto simp: baloon_update_def table_row_def save_score_def show_entry_def split: prod.splits)
  then have "en_row (snd (sc_entry t)) = ln @ row_separator table" using assms(8) by simp
  from baloon_read_back [OF assms(1) table(1) assms(2,3,5) this ln(2) assms(9)] obtain t' where
    t': "baloon_initialize a t = Ok t'" "\<forall>k \<in> set (dkeys (ag_problems a)). solved (sc_body t') k \<longleftrightarrow> solved (sc_body s) k"
    by blast
  have "bl_printed (snd (baloon_score_aggregate run X a k r d b)) = bl_printed b"
    if "dget (ag_submits a) (sr_submit r) = Some sub" "solved b (sb_problem sub)" for run X k r d sub b
    using that by (simp add: baloon_score_aggregate_def baloon_aggregate_def solved_def)
  with t' show ?thesis by blast
qed

definition sample_baloons :: "unit baloon_agg" where
  "sample_baloons = \<lparr>ag_key = 9, ag_ranking = \<lparr>rk_contest = 8, rk_aggregator = [], rk_header = [], rk_footer = [], rk_params = []\<rparr>,
     ag_suites = [], ag_problems = [(5, \<lparr>pm_contest = 8, pm_code = ''A'', pm_title = [], pm_default_suite = None, pm_group = []\<rparr>),
       (6, \<lparr>pm_contest = 8, pm_code = ''B'', pm_title = [], pm_default_suite = None, pm_group = []\<rparr>)],
     ag_submits = [], ag_scores = [], ag_params = [], ag_problem_params = [],
     ag_extra = \<lparr>lx_problems = [], lx_table = Some \<lparr>col_width = [32, 320, 32], col_name = [], row_separator = ''+--+'',
       header_separator = [], header_row = []\<rparr>\<rparr>\<rparr>"

definition sample_entry :: ranking_entry where
  "sample_entry = \<lparr>en_ranking = 9, en_contestant = 4, en_row = [], en_individual = [], en_position = []\<rparr>"

definition sample_score :: "(key, bool) dict \<Rightarrow> baloon_score score" where
  "sample_score bs = \<lparr>sc_contestant = \<lparr>cn_contest = 8, cn_name = ''Jan'', cn_sort_field = ''Jan'', cn_accepted = True,
       cn_invisible = False, cn_login = None\<rparr>, sc_hidden = False, sc_entry = (3, sample_entry),
     sc_body = \<lparr>bl_scores = bs, bl_printed = []\<rparr>\<rparr>"

theorem baloons_survive_restart_witness:
  "\<exists>s' d' t'. baloon_update sample_baloons (sample_score [(6, False), (5, True)]) (sample_db\<lparr>entries := [(3, sample_entry)]\<rparr>) = (Ok (), s', d')
    \<and> baloon_initialize sample_baloons ((sample_score [])\<lparr>sc_entry := sc_entry s'\<rparr>) = Ok t'
    \<and> solved (sc_body t') 5 \<and> \<not> solved (sc_body t') 6"
proof -
  let ?s = "sample_score [(6, False), (5, True)]" and ?d = "sample_db\<lparr>entries := [(3, sample_entry)]\<rparr>"
  have codes: "code_of (ag_problems sample_baloons) 5 = ''A''" "code_of (ag_problems sample_baloons) 6 = ''B''" by code_simp+
  have ready: "baloon_ready sample_baloons"
  proof -
    have c: "code_ok ''A''" "code_ok ''B''" by code_simp+
    have k: "set (dkeys (ag_problems sample_baloons)) = {5, 6}" by (simp add: sample_baloons_def dkeys_def)
    have i: "inj_on (code_of (ag_problems sample_baloons)) {5, 6}" by (simp add: inj_on_def codes)
    have "\<exists>table. lx_table (ag_extra sample_baloons) = Some table \<and> col_width table = map fst baloon_columns"
      by (simp add: sample_baloons_def baloon_columns_def)
    moreover have "dict_ok (ag_problems sample_baloons)" by (simp add: sample_baloons_def dict_ok_def)
    ultimately show ?thesis unfolding baloon_ready_def k using c i codes by simp
  qed
  have b: "dict_ok (bl_scores (sc_body ?s))" "set (dkeys (bl_scores (sc_body ?s))) \<subseteq> set (dkeys (ag_problems sample_baloons))"
    by (simp_all add: sample_score_def sample_baloons_def dict_ok_def dkeys_def)
  have l: "baloon_list sample_baloons (sc_body ?s) = ''A''" by (simp add: baloon_list_def sample_score_def codes)
  have n: "escape (cn_name (sc_contestant ?s)) = ''Jan''"
    by (simp add: sample_score_def is_alnum_def is_space_def code_def)
  have f: "fits 320 (escape (cn_name (sc_contestant ?s)))" "fits 32 (baloon_list sample_baloons (sc_body ?s))" "fits 32 []"
    unfolding l n by (simp_all add: fits_def stripped_iff is_space_def code_def)
  have nh: "\<not> sc_hidden ?s" by (simp add: sample_score_def)
  let ?items = "[[], escape (cn_name (sc_contestant ?s)), baloon_list sample_baloons (sc_body ?s)]"
  have "list_all2 fits [32, 320, 32] ?items" using f by simp
  then obtain ln where "table_row [32, 320, 32] ?items = Ok ln"
    using generate_parse_row [of "[32, 320, 32]" ?items] by (auto simp: table_row_def)
  then have "\<exists>s' d'. baloon_update sample_baloons ?s ?d = (Ok (), s', d')"
    by (simp add: baloon_update_def sample_baloons_def nh sample_score_def save_score_def show_entry_def save_entry_def
        update_row_def dkeys_def split: prod.split)
  then obtain s' d' where u: "baloon_update sample_baloons ?s ?d = (Ok (), s', d')" by blast
  let ?t = "(sample_score [])\<lparr>sc_entry := sc_entry s'\<rparr>"
  have "sc_entry ?t = sc_entry s'" "bl_scores (sc_body ?t) = []" by (simp_all add: sample_score_def)
  from baloons_survive_restart [OF ready b f(1,2) nh u this] obtain t' where
    "baloon_initialize sample_baloons ?t = Ok t'"
    "\<forall>k \<in> set (dkeys (ag_problems sample_baloons)). solved (sc_body t') k \<longleftrightarrow> solved (sc_body ?s) k" by blast
  moreover have "5 \<in> set (dkeys (ag_problems sample_baloons))" "6 \<in> set (dkeys (ag_problems sample_baloons))"
    by (simp_all add: sample_baloons_def dkeys_def)
  moreover have "solved (sc_body ?s) 5" "\<not> solved (sc_body ?s) 6"
    by (simp_all add: solved_def sample_score_def dget_def_val_def)
  ultimately show ?thesis using u by blast
qed

end
