(* ===== verification/Agg_Marks.thy ===== *)
theory Agg_Marks
  imports Agg_Points Complex_Main
begin

section \<open>MarksAggregator: points that shrink with time\<close>

text \<open>
  \<^item> \<open>arith\<close>: the floating point operations it uses; \<open>ar_of_int\<close> makes a float of an int,
    \<open>ar_seconds\<close> is \<open>total_seconds\<close> of a number of microseconds, \<open>ar_text\<close> is \<open>'%.2f'\<close>.
  \<^item> \<open>marks_problem\<close>: \<open>MarksProblemScore\<close>, an \<open>ACMProblemScore\<close> with a fixed score.
  \<^item> \<open>yaml\<close>: \<open>yaml.load\<close> and the conversion of what it loads, applied to a text or, as \<open>init\<close> does it,
    to a dict that has just been emptied. \<open>now\<close> is the time of the call.
\<close>

record 'f arith =
  ar_of_int :: "int \<Rightarrow> 'f"
  ar_add :: "'f \<Rightarrow> 'f \<Rightarrow> 'f"
  ar_sub :: "'f \<Rightarrow> 'f \<Rightarrow> 'f"
  ar_mul :: "'f \<Rightarrow> 'f \<Rightarrow> 'f"
  ar_div :: "'f \<Rightarrow> 'f \<Rightarrow> 'f"
  ar_less :: "'f \<Rightarrow> 'f \<Rightarrow> bool"
  ar_seconds :: "int \<Rightarrow> 'f"
  ar_text :: "'f \<Rightarrow> string"

record marks_problem =
  mp_base :: acm_problem
  mp_fixed :: "int option"

type_synonym marks_score = "(key, marks_problem) dict"

record 'f marks_extra =
  mx_problems :: "key list"
  mx_group_score :: "(string, 'f) dict"
  mx_group_points :: "(string, 'f) dict"
  mx_points_mark :: "('f, 'f \<times> 'f) dict"
  mx_table :: "rest_table option"

type_synonym 'f marks_agg = "('f, marks_score, 'f marks_extra) agg"

datatype yaml_arg = YamlText string | YamlDict

definition float_of :: "'f agg_params \<Rightarrow> string \<Rightarrow> 'f option" where
  "float_of ps n = (case dget ps n of Some (Some (PExt (XFloat x))) \<Rightarrow> Some x | _ \<Rightarrow> None)"

definition span_of :: "'f agg_params \<Rightarrow> string \<Rightarrow> int option" where
  "span_of ps n = (case dget ps n of Some (Some (PExt (XTime t))) \<Rightarrow> Some t | _ \<Rightarrow> None)"

definition marks_position :: "string \<Rightarrow> string" where
  "marks_position name = take 50 name"

subsection \<open>Scores\<close>

definition new_marks_problem :: marks_problem where
  "new_marks_problem = \<lparr>mp_base = new_acm_problem, mp_fixed = None\<rparr>"

text \<open>\<open>MarksProblemScore.aggregate\<close>: any exception before the score is read falls back to the status.\<close>

definition marks_problem_aggregate :: "'f xval ext \<Rightarrow> 'f agg_params \<Rightarrow> int \<Rightarrow> key \<Rightarrow> oa_group \<Rightarrow> marks_problem
    \<Rightarrow> unit outcome \<times> marks_problem" where
  "marks_problem_aggregate X ps time submit g p =
     (let old = (case mp_fixed p of None \<Rightarrow> 0 | Some i \<Rightarrow> i); p1 = p\<lparr>mp_fixed := Some old\<rparr> in
      if (case date_of ps ''time_stop'' of Some t \<Rightarrow> time > t | None \<Rightarrow> False) then (Ok (), p1)
      else case int_attr g ''score'' None of
        Ok i \<Rightarrow> (Ok (), p1\<lparr>mp_fixed := Some (max old i)\<rparr>)
      | Raise _ \<Rightarrow>
          (case acm_problem_aggregate X ps time submit g (mp_base p1) of (res, b) \<Rightarrow> (res, p1\<lparr>mp_base := b\<rparr>)))"

definition marks_score_aggregate :: "'f xval ext \<Rightarrow> 'f marks_agg \<Rightarrow> key \<Rightarrow> suite_result \<Rightarrow> db \<Rightarrow> marks_score
    \<Rightarrow> unit outcome \<times> marks_score" where
  "marks_score_aggregate X a k r d s =
     (case dget (ag_submits a) (sr_submit r) of
        None \<Rightarrow> (Raise KeyError, s)
      | Some sub \<Rightarrow>
          if sb_problem sub \<notin> set (dkeys s) \<and> sb_problem sub \<notin> set (dkeys (ag_problems a)) then (Raise KeyError, s)
          else
            (case marks_problem_aggregate X (problem_params_of a (sb_problem sub)) (sb_time sub) (sr_submit r)
                    (group_of (suite_oa d) k) (dget_def_val s (sb_problem sub) new_marks_problem) of
               (res, p) \<Rightarrow> (res, dset (sb_problem sub) p s)))"

definition timed_score :: "'f arith \<Rightarrow> 'f \<Rightarrow> int \<Rightarrow> int \<Rightarrow> int \<Rightarrow> 'f" where
  "timed_score A score time start_descent descent =
     (if time \<le> start_descent then score
      else let dif = ar_seconds A (time - start_descent); des = ar_seconds A descent in
           if \<not> ar_less A (ar_of_int A 0) des then score
           else ar_mul A (ar_sub A (ar_of_int A 1) (ar_div A dif des)) score)"

definition at_least :: "'f arith \<Rightarrow> 'f option \<Rightarrow> 'f \<Rightarrow> 'f" where
  "at_least A lo x = (case lo of Some m \<Rightarrow> if ar_less A x m then m else x | None \<Rightarrow> x)"

definition descended :: "'f arith \<Rightarrow> 'f agg_params \<Rightarrow> int \<Rightarrow> 'f \<Rightarrow> 'f" where
  "descended A ps time score =
     (case (date_of ps ''time_start_descent'', span_of ps ''time_descent'') of
        (Some start, Some stretch) \<Rightarrow> timed_score A score time start stretch
      | _ \<Rightarrow> score)"

text \<open>
  The score of a problem, the greatest score still possible now, and whether an obligatory problem is
  missing. The bounds are scaled by the points of the problem's group, where these are configured.
\<close>

definition group_scaled :: "'f arith \<Rightarrow> 'f marks_extra \<Rightarrow> string \<Rightarrow> 'f \<Rightarrow> 'f" where
  "group_scaled A x g v =
     (case dget (mx_group_points x) g of
        None \<Rightarrow> v
      | Some p \<Rightarrow> ar_mul A v (ar_div A p (dget_def_val (mx_group_score x) g (ar_of_int A 0))))"

definition problem_points :: "'f arith \<Rightarrow> 'f xval ext \<Rightarrow> int \<Rightarrow> (key \<Rightarrow> int) \<Rightarrow> 'f agg_params \<Rightarrow> 'f \<Rightarrow> 'f option \<Rightarrow> marks_problem option
    \<Rightarrow> 'f option \<times> 'f \<times> bool" where
  "problem_points A X now submit_time ps maxscore minscore s =
     (let mscore = at_least A minscore (descended A ps now maxscore);
          missing = (None, flag X ps ''obligatory'');
          (score, fail) = (case s of
              None \<Rightarrow> missing
            | Some p \<Rightarrow>
                (case mp_fixed p of
                   Some i \<Rightarrow>
                     if i \<noteq> 0 then (Some (ar_mul A maxscore (ar_div A (ar_of_int A i) (ar_of_int A 100))), False)
                     else if ap_ok (mp_base p)
                       then (Some (at_least A minscore (descended A ps (submit_time (the (ap_ok_submit (mp_base p)))) maxscore)), False)
                     else missing
                 | None \<Rightarrow>
                     if ap_ok (mp_base p)
                       then (Some (at_least A minscore (descended A ps (submit_time (the (ap_ok_submit (mp_base p)))) maxscore)), False)
                     else missing)) in
      (score, (case score of Some v \<Rightarrow> if ar_less A mscore v then v else mscore | None \<Rightarrow> mscore), fail))"

definition points_for :: "'f arith \<Rightarrow> 'f xval ext \<Rightarrow> int \<Rightarrow> 'f marks_agg \<Rightarrow> marks_score \<Rightarrow> key \<Rightarrow> 'f option \<times> 'f \<times> bool" where
  "points_for A X now a s k =
     (let ps = problem_params_of a k; x = ag_extra a;
          g = (case dget (ag_problems a) k of Some p \<Rightarrow> pm_group p | None \<Rightarrow> []) in
      problem_points A X now (\<lambda>i. case dget (ag_submits a) i of Some sub \<Rightarrow> sb_time sub | None \<Rightarrow> 0) ps
        (group_scaled A x g (case float_of ps ''max_score'' of Some v \<Rightarrow> v | None \<Rightarrow> ar_of_int A 0))
        (map_option (group_scaled A x g) (float_of ps ''min_score'')) (dget s k))"

definition add_all :: "'f arith \<Rightarrow> 'f list \<Rightarrow> 'f" where
  "add_all A xs = foldl (ar_add A) (ar_of_int A 0) xs"

definition marks_mark :: "'f arith \<Rightarrow> bool \<Rightarrow> 'f \<Rightarrow> string" where
  "marks_mark A all_ok score = (if \<not> all_ok then ''FAIL'' else ''UNK ('' @ ar_text A score @ '')'')"

definition problem_cell :: "'f arith \<Rightarrow> 'f xval ext \<Rightarrow> 'f agg_params \<Rightarrow> 'f option \<times> 'f \<times> bool \<Rightarrow> string" where
  "problem_cell A X ps pts =
     (case fst pts of
        Some v \<Rightarrow> ar_text A v
      | None \<Rightarrow> (if flag X ps ''obligatory'' then ''F'' else no_points)
          @ (if flag X ps ''show_max_score'' then '' ('' @ ar_text A (fst (snd pts)) @ '')'' else []))"

definition marks_columns :: "'f arith \<Rightarrow> 'f xval ext \<Rightarrow> int \<Rightarrow> 'f marks_agg \<Rightarrow> marks_score score \<Rightarrow> string list" where
  "marks_columns A X now a s =
     (let ks = mx_problems (ag_extra a); b = sc_body s; pts = map (points_for A X now a b) ks;
          score = add_all A (List.map_filter fst pts); mscore = add_all A (map (fst \<circ> snd) pts);
          mark = marks_mark A (\<not> list_ex (snd \<circ> snd) pts) score;
          stars = int_of (ag_params a) ''max_stars'';
          tasks = map (\<lambda>(k, p). acm_problem_str (case dget (ag_problems a) k of Some pm \<Rightarrow> pm_code pm | None \<Rightarrow> []) stars (mp_base p))
            (sort_key (\<lambda>(k, p). ap_ok_time (mp_base p)) (filter (\<lambda>(k, p). ap_ok (mp_base p)) b)) in
      [[], escape (cn_name (sc_contestant s))]
      @ (if flag X (ag_params a) ''show_marks'' then [mark] else [])
      @ [ar_text A score @ (if flag X (ag_params a) ''show_max_score'' then '' ('' @ ar_text A mscore @ '')'' else [])]
      @ (if flag X (ag_params a) ''show_tasklist'' then [join '' '' tasks] else [])
      @ map (\<lambda>(k, p). problem_cell A X (problem_params_of a k) p)
          (filter (\<lambda>(k, p). flag X (problem_params_of a k) ''show'') (zip ks pts)))"

text \<open>The loop over \<open>points_mark\<close> takes its keys, which are floats, for pairs.\<close>

definition marks_update :: "'f arith \<Rightarrow> 'f xval ext \<Rightarrow> int \<Rightarrow> 'f marks_agg \<Rightarrow> marks_score score \<Rightarrow> db
    \<Rightarrow> unit outcome \<times> marks_score score \<times> db" where
  "marks_update A X now a s d =
     (if sc_hidden s then save_score (hide_entry (marks_position []) s) d
      else if mx_points_mark (ag_extra a) \<noteq> [] then (Raise TypeError, s, d)
      else case mx_table (ag_extra a) of
        None \<Rightarrow> (Raise (AttributeError ''table''), s, d)
      | Some table \<Rightarrow>
          (case table_row (col_width table) (marks_columns A X now a s) of
             Raise e \<Rightarrow> (Raise e, s, d)
           | Ok text \<Rightarrow> save_score (show_entry (text @ row_separator table)
               (marks_position (cn_sort_field (sc_contestant s))) s) d))"

subsection \<open>The aggregator\<close>

definition marks_group_points :: "(yaml_arg \<Rightarrow> (string, 'f) dict outcome) \<Rightarrow> string \<Rightarrow> (string, 'f) dict" where
  "marks_group_points yaml configured = (case yaml YamlDict of Ok gp \<Rightarrow> gp | Raise _ \<Rightarrow> [])"

definition marks_points_mark :: "(yaml_arg \<Rightarrow> ('f, 'f \<times> 'f) dict outcome) \<Rightarrow> string \<Rightarrow> ('f, 'f \<times> 'f) dict" where
  "marks_points_mark yaml configured = (case yaml YamlDict of Ok pm \<Rightarrow> pm | Raise _ \<Rightarrow> [])"

definition add_group_score :: "'f arith \<Rightarrow> 'f marks_agg \<Rightarrow> key \<Rightarrow> (string, 'f) dict \<Rightarrow> (string, 'f) dict" where
  "add_group_score A a k gs =
     (let g = (case dget (ag_problems a) k of Some p \<Rightarrow> pm_group p | None \<Rightarrow> []) in
      dset g (ar_add A (dget_def_val gs g (ar_of_int A 0))
        (case float_of (problem_params_of a k) ''max_score'' of Some v \<Rightarrow> v | None \<Rightarrow> ar_of_int A 0)) gs)"

definition marks_table_columns :: "'f xval ext \<Rightarrow> 'f marks_agg \<Rightarrow> key list \<Rightarrow> (nat \<times> string) list" where
  "marks_table_columns X a ks =
     [(4, ''Lp.''), (32, ''Name'')] @ (if flag X (ag_params a) ''show_marks'' then [(16, ''Mark'')] else []) @ [(8, ''Score'')]
     @ (if flag X (ag_params a) ''show_tasklist'' then [(16, ''Tasks'')] else [])
     @ map (\<lambda>k. (16, case dget (ag_problems a) k of Some p \<Rightarrow> pm_code p | None \<Rightarrow> []))
         (filter (\<lambda>k. flag X (problem_params_of a k) ''show'') ks)"

definition marks_init :: "'f arith \<Rightarrow> (yaml_arg \<Rightarrow> (string, 'f) dict outcome) \<Rightarrow> (yaml_arg \<Rightarrow> ('f, 'f \<times> 'f) dict outcome)
    \<Rightarrow> 'f xval ext \<Rightarrow> 'f marks_agg \<Rightarrow> db \<Rightarrow> unit outcome \<times> 'f marks_agg \<times> db" where
  "marks_init A yaml yaml2 X a d =
     (let a1 = inherit_params [''time_start'', ''time_stop'', ''time_start_descent'', ''time_descent'', ''max_score'',
            ''min_score'', ''show_max_score''] a;
          ks = map fst (filter (\<lambda>(k, p). \<not> flag X (problem_params_of a1 k) ''ignore'') (by_code (ag_problems a1)));
          x = \<lparr>mx_problems = ks, mx_group_score = fold (add_group_score A a1) ks [],
               mx_group_points = marks_group_points yaml (text_of (ag_params a) ''group_points''),
               mx_points_mark = marks_points_mark yaml2 (text_of (ag_params a) ''points_mark''), mx_table = None\<rparr> in
      case rest_table (marks_table_columns X a1 ks) of
        Raise e \<Rightarrow> (Raise e, a1\<lparr>ag_extra := x\<rparr>, d)
      | Ok t \<Rightarrow> set_header (table_header t) [] (a1\<lparr>ag_extra := x\<lparr>mx_table := Some t\<rparr>\<rparr>) d)"

definition marks_general :: "'f \<Rightarrow> 'f \<Rightarrow> 'f xval oa_param list" where
  "marks_general one minus_one =
    [def_param OaBoolean ''show_invisible'' ''Show invisible submits'' (PBool False),
     def_param OaBoolean ''show_tasklist'' ''Show tasklist column'' (PBool False),
     def_param (OaExt ''float'') ''max_score'' ''Maximum score for each problem'' (PExt (XFloat one)),
     def_param (OaExt ''float'') ''min_score'' ''Minimum score for each problem'' (PExt (XFloat minus_one)),
     opt_param (OaExt ''datetime'') ''time_start'' ''Submission start time'',
     opt_param (OaExt ''datetime'') ''time_stop'' ''Ignore submits after'',
     def_param OaInteger ''max_stars'' ''Maximal number of stars'' (PInt 4),
     opt_param OaText ''group_points'' ''Number of points for each problem group'',
     opt_param OaText ''points_mark'' ''Marks for points ranges'',
     def_param OaBoolean ''show_marks'' ''Show marks'' (PBool False),
     def_param OaBoolean ''show_max_score'' ''Show maximum possible score'' (PBool False),
     opt_param (OaExt ''datetime'') ''time_start_descent'' ''Descent start time'',
     opt_param (OaExt ''time'') ''time_descent'' ''Descent to zero time'']"

definition marks_problem_params :: "'f xval oa_param list" where
  "marks_problem_params =
    [def_param OaBoolean ''ignore'' ''Ignore problem'' (PBool False),
     def_param OaBoolean ''show'' ''Show column for this problem'' (PBool True),
     opt_param OaBoolean ''show_max_score'' ''Show maximum possible score'',
     def_param OaBoolean ''obligatory'' ''Problem is obligatory'' (PBool False),
     opt_param (OaExt ''float'') ''max_score'' ''Maximum score for problem'',
     opt_param (OaExt ''float'') ''min_score'' ''Minimum score for problem'',
     opt_param (OaExt ''datetime'') ''time_start'' ''Submission start time'',
     opt_param (OaExt ''datetime'') ''time_stop'' ''Ignore submits after'',
     opt_param (OaExt ''datetime'') ''time_start_descent'' ''Descent start time'',
     opt_param (OaExt ''time'') ''time_descent'' ''Descent to zero time'']"

definition marks_methods :: "'f arith \<Rightarrow> (yaml_arg \<Rightarrow> (string, 'f) dict outcome) \<Rightarrow> (yaml_arg \<Rightarrow> ('f, 'f \<times> 'f) dict outcome)
    \<Rightarrow> 'f xval ext \<Rightarrow> int \<Rightarrow> ('f, marks_score, 'f marks_extra) methods" where
  "marks_methods A yaml yaml2 X now = \<lparr>vm_general = marks_general (ar_of_int A 1) (ar_of_int A (- 1)), vm_problem = marks_problem_params,
     vm_init = marks_init A yaml yaml2 X, vm_position = marks_position [], vm_get_score = (\<lambda>a. []), vm_initialize = (\<lambda>a s. Ok s),
     vm_aggregate = marks_score_aggregate X, vm_update = marks_update A X now\<rparr>"

subsection \<open>The configuration of groups and marks\<close>

text \<open>
  (marks_config_ignored): init replaces the configured group points and marks by an empty dict before
  it loads them, and yaml.load does not take a dict: the aggregator has no group points and no
  marks, whatever was configured. Scores are never scaled to the points of a group.
\<close>

theorem marks_config_ignored:
  assumes "yaml YamlDict = Raise e1" "yaml2 YamlDict = Raise e2" and "marks_init A yaml yaml2 X a d = (Ok x, a', d')"
  shows "mx_group_points (ag_extra a') = [] \<and> mx_points_mark (ag_extra a') = [] \<and> group_scaled A (ag_extra a') g v = v"
  using assms
  by (auto simp: marks_init_def set_header_def marks_group_points_def marks_points_mark_def group_scaled_def Let_def
      split: outcome.splits prod.splits)

definition sample_marks :: "rat marks_agg" where
  "sample_marks = \<lparr>ag_key = 9, ag_ranking = \<lparr>rk_contest = 8, rk_aggregator = [], rk_header = [], rk_footer = [], rk_params = []\<rparr>,
     ag_suites = [], ag_problems = [], ag_submits = [], ag_scores = [],
     ag_params = [(''group_points'', Some (PText ''{basic: 10}''))], ag_problem_params = [],
     ag_extra = \<lparr>mx_problems = [], mx_group_score = [], mx_group_points = [], mx_points_mark = [], mx_table = None\<rparr>\<rparr>"

theorem marks_config_ignored_witness:
  "\<forall>A X. \<exists>a' d'. marks_init A (\<lambda>_. Raise (AttributeError ''read'')) (\<lambda>_. Raise (AttributeError ''read'')) X sample_marks
      (sample_db\<lparr>rankings := [(9, ag_ranking sample_marks)]\<rparr>) = (Ok (), a', d')
    \<and> mx_group_points (ag_extra a') = []"
proof (intro allI)
  fix A :: "rat arith" and X :: "rat xval ext"
  obtain t where t: "rest_table (marks_table_columns X sample_marks []) = Ok t"
  proof -
    have "\<forall>c \<in> set (marks_table_columns X sample_marks []). 2 \<le> fst c" by (auto simp: marks_table_columns_def)
    from rest_table_total [OF this] that show ?thesis by blast
  qed
  have "\<exists>a' d'. marks_init A (\<lambda>_. Raise (AttributeError ''read'')) (\<lambda>_. Raise (AttributeError ''read'')) X sample_marks
      (sample_db\<lparr>rankings := [(9, ag_ranking sample_marks)]\<rparr>) = (Ok (), a', d')"
    using t by (simp add: marks_init_def inherit_params_def sample_marks_def by_code_def set_header_def save_ranking_def
        update_row_def dkeys_def Let_def)
  then obtain a' d' where init: "marks_init A (\<lambda>_. Raise (AttributeError ''read'')) (\<lambda>_. Raise (AttributeError ''read'')) X sample_marks
      (sample_db\<lparr>rankings := [(9, ag_ranking sample_marks)]\<rparr>) = (Ok (), a', d')" by blast
  from marks_config_ignored [OF refl refl init] init
  show "\<exists>a' d'. marks_init A (\<lambda>_. Raise (AttributeError ''read'')) (\<lambda>_. Raise (AttributeError ''read'')) X sample_marks
      (sample_db\<lparr>rankings := [(9, ag_ranking sample_marks)]\<rparr>) = (Ok (), a', d')
    \<and> mx_group_points (ag_extra a') = []" by blast
qed

subsection \<open>Bounds\<close>

text \<open>The operations without rounding.\<close>

definition exact_arith :: "('f::linordered_field \<Rightarrow> string) \<Rightarrow> 'f arith" where
  "exact_arith fmt = \<lparr>ar_of_int = of_int, ar_add = (+), ar_sub = (-), ar_mul = (*), ar_div = (/), ar_less = (<),
     ar_seconds = (\<lambda>t. of_int t / 10 ^ 6), ar_text = fmt\<rparr>"

lemma timed_score_le:
  assumes "0 \<le> score"
  shows "timed_score (exact_arith fmt) score time start stretch \<le> score"
proof (cases "time \<le> start \<or> stretch \<le> 0")
  case True
  then show ?thesis by (auto simp: timed_score_def exact_arith_def Let_def)
next
  case False
  then have "0 \<le> of_int (time - start) / (10 ^ 6 :: 'a) / (of_int stretch / 10 ^ 6)"
    by (intro divide_nonneg_nonneg) auto
  then have "(1 - of_int (time - start) / 10 ^ 6 / (of_int stretch / 10 ^ 6)) * score \<le> 1 * score"
    using assms by (intro mult_right_mono) auto
  with False show ?thesis by (simp add: timed_score_def exact_arith_def Let_def)
qed

lemma timed_score_later:
  assumes "0 \<le> score" "t \<le> t'"
  shows "timed_score (exact_arith fmt) score t' start stretch \<le> timed_score (exact_arith fmt) score t start stretch"
proof (cases "t \<le> start \<or> stretch \<le> 0")
  case True
  then have "timed_score (exact_arith fmt) score t start stretch = score"
    by (auto simp: timed_score_def exact_arith_def Let_def)
  with timed_score_le [OF assms(1)] show ?thesis by metis
next
  case False
  then have "of_int (t - start) / (10 ^ 6 :: 'a) / (of_int stretch / 10 ^ 6) \<le> of_int (t' - start) / 10 ^ 6 / (of_int stretch / 10 ^ 6)"
    using assms(2) by (intro divide_right_mono) auto
  then have "(1 - of_int (t' - start) / 10 ^ 6 / (of_int stretch / 10 ^ 6)) * score
      \<le> (1 - of_int (t - start) / 10 ^ 6 / (of_int stretch / 10 ^ 6)) * score"
    using assms(1) by (intro mult_right_mono) auto
  with False assms(2) show ?thesis by (simp add: timed_score_def exact_arith_def Let_def)
qed

lemma descended_le: "0 \<le> score \<Longrightarrow> descended (exact_arith fmt) ps time score \<le> score"
  using timed_score_le by (auto simp: descended_def split: option.splits)

lemma at_least_bounds:
  "x \<le> y \<Longrightarrow> at_least (exact_arith fmt) (Some lo) x \<le> max lo y \<and> lo \<le> at_least (exact_arith fmt) (Some lo) x"
  by (auto simp: at_least_def exact_arith_def)

text \<open>
  C38 (marks_score_bounds): Without rounding, the score of a problem lies between the minimum and the
  greater of maximum and minimum, or between 0 and the maximum when the judge gave it as a percentage,
  and it is at most the score shown as still possible. The maximum is not negative, and a percentage is between 0 and 100.
\<close>

theorem marks_score_bounds:
  fixes maxscore minscore :: "'f::linordered_field"
  assumes "problem_points (exact_arith fmt) X now submit_time ps maxscore (Some minscore) (Some p) = (Some v, m, fail)"
    and "0 \<le> maxscore" "\<And>i. mp_fixed p = Some i \<Longrightarrow> 0 \<le> i \<and> i \<le> 100"
  shows "(if mp_fixed p \<in> {None, Some 0} then minscore \<le> v \<and> v \<le> max minscore maxscore else 0 \<le> v \<and> v \<le> maxscore) \<and> v \<le> m"
proof -
  let ?A = "exact_arith fmt"
  let ?timed = "at_least ?A (Some minscore) (descended ?A ps (submit_time (the (ap_ok_submit (mp_base p)))) maxscore)"
  have m: "v \<le> m" using assms(1)
    by (auto simp: problem_points_def exact_arith_def Let_def split: prod.splits option.splits if_splits)
  show ?thesis
  proof (cases "mp_fixed p \<in> {None, Some 0}")
    case True
    then have "v = ?timed" using assms(1)
      by (auto simp: problem_points_def Let_def split: prod.splits option.splits if_splits)
    with at_least_bounds [OF descended_le [OF assms(2)], of fmt minscore fmt ps "submit_time (the (ap_ok_submit (mp_base p)))"] m True
    show ?thesis by simp
  next
    case False
    then obtain i where i: "mp_fixed p = Some i" "i \<noteq> 0" by auto
    then have v: "v = maxscore * (of_int i / 100)" using assms(1)
      by (auto simp: problem_points_def exact_arith_def Let_def split: prod.splits option.splits if_splits)
    have "0 \<le> (of_int i :: 'f)" "(of_int i :: 'f) \<le> 100"
      using assms(3) [OF i(1)] of_int_le_iff [of i 100, where 'a = 'f] by simp_all
    then have "0 \<le> of_int i / (100 :: 'f)" "of_int i / (100 :: 'f) \<le> 1" by simp_all
    then have "0 \<le> v" "v \<le> maxscore * 1" unfolding v using assms(2) by (auto intro: mult_left_mono)
    with i m show ?thesis by simp
  qed
qed

theorem marks_score_bounds_witness:
  "\<forall>X. fst (problem_points (exact_arith (\<lambda>_::rat. [])) X 0 (\<lambda>_. 0) [] 4 (Some (- 1)) (Some \<lparr>mp_base = new_acm_problem, mp_fixed = Some 50\<rparr>)) = Some 2
   \<and> (0::rat) \<le> 2 \<and> (2::rat) \<le> 4"
proof
  fix X
  let ?p = "\<lparr>mp_base = new_acm_problem, mp_fixed = Some 50\<rparr>"
  have e: "problem_points (exact_arith (\<lambda>_::rat. [])) X 0 (\<lambda>_. 0) [] 4 (Some (- 1)) (Some ?p) = (Some 2, 4, False)"
    by (simp add: problem_points_def exact_arith_def descended_def date_of_def at_least_def Let_def)
  from marks_score_bounds [OF e]
  show "fst (problem_points (exact_arith (\<lambda>_::rat. [])) X 0 (\<lambda>_. 0) [] 4 (Some (- 1)) (Some ?p)) = Some 2
    \<and> (0::rat) \<le> 2 \<and> (2::rat) \<le> 4" by (simp add: e)
qed

end
