(* ===== verification/Agg_Sheet.thy ===== *)
theory Agg_Sheet
  imports Agg_Points
begin

section \<open>GoogleSpreadsheetAggregator: results sent to a web service\<close>

text \<open>
  \<^item> \<open>sheet\<close>: what the class adds to an aggregator; \<open>gs_sent\<close> is not a field of the program: it records
    the requests. \<open>jval\<close>: the values in the JSON objects that are sent.
  \<^item> \<open>http\<close>: the service, which answers a request or raises. A request is its action and its list of objects; what
    is sent with every request and what only \<open>create\<close> sends (editors, name) is left out.
\<close>

datatype jval = JInt int | JText string | JDate int

type_synonym jobject = "(string, jval) dict"

record sheet =
  gs_ok :: bool
  gs_tests :: "(key, (key \<times> string) list) dict"
  gs_results :: "(key \<times> key \<times> key, jobject) dict"
  gs_sent :: "(string \<times> jobject list) list"

type_synonym 'f sheet_agg = "('f, unit, sheet) agg"

definition new_sheet :: sheet where
  "new_sheet = \<lparr>gs_ok = False, gs_tests = [], gs_results = [], gs_sent = []\<rparr>"

definition sheet_call :: "(string \<Rightarrow> jobject list \<Rightarrow> unit outcome) \<Rightarrow> string \<Rightarrow> jobject list \<Rightarrow> sheet \<Rightarrow> unit outcome \<times> sheet" where
  "sheet_call http action params x =
     (let x1 = x\<lparr>gs_sent := gs_sent x @ [(action, params)]\<rparr> in
      case http action params of
        Raise e \<Rightarrow> (Raise e, x1\<lparr>gs_ok := False\<rparr>)
      | Ok _ \<Rightarrow> (Ok (), x1))"

text \<open>
  \<open>call('results', self.results)\<close>: the dict has tuples for keys, which \<open>json.dumps\<close> refuses unless it
  is empty; nothing is sent then.
\<close>

definition send_results :: "(string \<Rightarrow> jobject list \<Rightarrow> unit outcome) \<Rightarrow> sheet \<Rightarrow> unit outcome \<times> sheet" where
  "send_results http x =
     (if gs_results x \<noteq> [] then (Raise TypeError, x\<lparr>gs_ok := False\<rparr>) else sheet_call http ''results'' [] x)"

definition contestant_object :: "key \<Rightarrow> contestant \<Rightarrow> jobject" where
  "contestant_object c ct = [(''id'', JInt (int c)), (''name'', JText (cn_name ct))]"

definition contestant_objects :: "'f sheet_agg \<Rightarrow> db \<Rightarrow> jobject list" where
  "contestant_objects a d = map (\<lambda>(c, ct). contestant_object c ct)
     (filter (\<lambda>(c, ct). cn_contest ct = rk_contest (ag_ranking a) \<and> cn_accepted ct) (contestants d))"

definition problem_object :: "key \<Rightarrow> problem_mapping \<Rightarrow> jobject" where
  "problem_object k p = [(''id'', JInt (int k)), (''code'', JText (pm_code p)), (''title'', JText (pm_title p)), (''group'', JText (pm_group p))]"

definition test_name :: "key \<Rightarrow> key \<Rightarrow> string" where
  "test_name p t = str_nat p @ ''_'' @ str_nat t"

definition test_object :: "key \<Rightarrow> key \<times> string \<Rightarrow> jobject" where
  "test_object p t = [(''id'', JText (test_name p (fst t))), (''problem'', JInt (int p)), (''name'', JText (snd t))]"

definition suite_of :: "'f sheet_agg \<Rightarrow> key \<Rightarrow> key outcome" where
  "suite_of a p =
     (case dget (ag_suites a) p of
        None \<Rightarrow> Raise KeyError
      | Some None \<Rightarrow> Raise (AttributeError ''id'')
      | Some (Some ts) \<Rightarrow> Ok ts)"

definition tests_of :: "'f sheet_agg \<Rightarrow> key \<Rightarrow> (key \<times> string) list outcome" where
  "tests_of a p = bind_ok (suite_of a p) (\<lambda>ts.
     case dget (gs_tests (ag_extra a)) ts of None \<Rightarrow> Raise KeyError | Some xs \<Rightarrow> Ok xs)"

definition submit_object :: "key \<Rightarrow> submit \<Rightarrow> jobject" where
  "submit_object k s = [(''id'', JInt (int k)), (''contestant'', JInt (int (sb_contestant s))), (''problem'', JInt (int (sb_problem s))),
     (''time'', JDate (sb_time s))]"

definition in_sheet :: "(sheet \<Rightarrow> unit outcome \<times> sheet) \<Rightarrow> 'f sheet_agg \<Rightarrow> unit outcome \<times> 'f sheet_agg" where
  "in_sheet f a = (case f (ag_extra a) of (r, x) \<Rightarrow> (r, a\<lparr>ag_extra := x\<rparr>))"

definition test_objects :: "'f sheet_agg \<Rightarrow> jobject list outcome" where
  "test_objects a = map_ok concat (map_outcome (\<lambda>(k, p). map_ok (map (test_object k)) (tests_of a k)) (ag_problems a))"

definition send_tests :: "(string \<Rightarrow> jobject list \<Rightarrow> unit outcome) \<Rightarrow> 'f sheet_agg \<Rightarrow> unit outcome \<times> 'f sheet_agg" where
  "send_tests http a =
     (case test_objects a of Raise e \<Rightarrow> (Raise e, a) | Ok ts \<Rightarrow> in_sheet (sheet_call http ''tests'' ts) a)"

definition recalculate :: "(string \<Rightarrow> jobject list \<Rightarrow> unit outcome) \<Rightarrow> db \<Rightarrow> 'f sheet_agg \<Rightarrow> unit outcome \<times> 'f sheet_agg" where
  "recalculate http d =
     and_then (in_sheet (\<lambda>x. sheet_call http ''create'' [] (x\<lparr>gs_ok := True\<rparr>))) (\<lambda>_.
     and_then (\<lambda>a. in_sheet (sheet_call http ''contestants'' (contestant_objects a d)) a) (\<lambda>_.
     and_then (\<lambda>a. in_sheet (sheet_call http ''problems'' (map (\<lambda>(k, p). problem_object k p) (ag_problems a))) a) (\<lambda>_.
     and_then (send_tests http) (\<lambda>_.
     and_then (\<lambda>a. in_sheet (sheet_call http ''submits'' (map (\<lambda>(k, s). submit_object k s) (ag_submits a))) a) (\<lambda>_.
     in_sheet (send_results http))))))"

text \<open>\<open>init\<close>: the tests of the test suites in use, with their names.\<close>

definition suite_tests :: "db \<Rightarrow> key \<Rightarrow> (key \<times> string) list" where
  "suite_tests d ts =
     (case dget (suites d) ts of
        None \<Rightarrow> []
      | Some su \<Rightarrow> map (\<lambda>(t, i). (t, case dget (tests d) t of Some te \<Rightarrow> te_name te | None \<Rightarrow> [])) (su_tests su))"

fun cache_tests :: "db \<Rightarrow> key list \<Rightarrow> 'f sheet_agg \<Rightarrow> unit outcome \<times> 'f sheet_agg" where
  "cache_tests d [] a = (Ok (), a)"
| "cache_tests d (k # ks) a =
     (case suite_of a k of
        Raise e \<Rightarrow> (Raise e, a)
      | Ok ts \<Rightarrow> cache_tests d ks (a\<lparr>ag_extra := (ag_extra a)\<lparr>gs_tests := dset ts (suite_tests d ts) (gs_tests (ag_extra a))\<rparr>\<rparr>))"

definition sheet_init :: "(string \<Rightarrow> jobject list \<Rightarrow> unit outcome) \<Rightarrow> 'f sheet_agg \<Rightarrow> db \<Rightarrow> unit outcome \<times> 'f sheet_agg \<times> db" where
  "sheet_init http a d =
     (case and_then (cache_tests d (dkeys (ag_problems a))) (\<lambda>_ a.
             recalculate http d (a\<lparr>ag_extra := (ag_extra a)\<lparr>gs_results := []\<rparr>\<rparr>))
           (a\<lparr>ag_extra := (ag_extra a)\<lparr>gs_tests := []\<rparr>\<rparr>) of
        (r, a1) \<Rightarrow> (r, a1, d))"

definition sheet_changed_contestants :: "(string \<Rightarrow> jobject list \<Rightarrow> unit outcome) \<Rightarrow> db \<Rightarrow> 'f sheet_agg \<Rightarrow> unit outcome \<times> 'f sheet_agg" where
  "sheet_changed_contestants http d a =
     (if gs_ok (ag_extra a) then in_sheet (sheet_call http ''contestants'' (contestant_objects a d)) a else recalculate http d a)"

text \<open>One test of a suite: its result is looked up, and left out when there is none.\<close>

definition result_object :: "db \<Rightarrow> key \<Rightarrow> key \<Rightarrow> key \<Rightarrow> jobject option" where
  "result_object d submit problem t =
     (case filter (\<lambda>(k, r). tr_submit r = submit \<and> tr_test r = t) (test_results d) of
        [(k, r)] \<Rightarrow> Some (fold (\<lambda>(n, v) ob. if s_is_blob v then ob else dset (''result_'' @ n) (JText (s_value v)) ob)
            (oa_get_map (group_of (result_oa d) k)) [(''submit'', JInt (int submit)), (''test'', JText (test_name problem t))])
      | _ \<Rightarrow> None)"

definition add_result :: "db \<Rightarrow> key \<Rightarrow> key \<Rightarrow> key \<times> string \<Rightarrow> jobject list \<times> sheet \<Rightarrow> jobject list \<times> sheet" where
  "add_result d submit problem t st =
     (let (objs, x) = st in
      case result_object d submit problem (fst t) of
        None \<Rightarrow> (objs, x)
      | Some ob \<Rightarrow>
          (let k = (submit, problem, fst t);
               x1 = (if k \<in> set (dkeys (gs_results x)) then x\<lparr>gs_ok := False\<rparr> else x) in
           (objs @ [ob], x1\<lparr>gs_results := dset k ob (gs_results x1)\<rparr>)))"

fun add_results :: "'f xval ext \<Rightarrow> db \<Rightarrow> (key \<times> suite_result) list \<Rightarrow> jobject list \<Rightarrow> 'f sheet_agg \<Rightarrow> jobject list outcome \<times> 'f sheet_agg" where
  "add_results X d [] objs a = (Ok objs, a)"
| "add_results X d ((k, r) # rs) objs a =
     (case dget (ag_submits a) (sr_submit r) of
        None \<Rightarrow> (Raise KeyError, a)
      | Some s \<Rightarrow>
          (case dget (contestants d) (sb_contestant s) of
             None \<Rightarrow> (Raise DoesNotExist, a)
           | Some ct \<Rightarrow>
               if cn_invisible ct \<and> \<not> flag X (ag_params a) ''show_invisible'' then add_results X d rs objs a
               else
                 (case tests_of a (sb_problem s) of
                    Raise e \<Rightarrow> (Raise e, a)
                  | Ok ts \<Rightarrow>
                      (case fold (add_result d (sr_submit r) (sb_problem s)) ts (objs, ag_extra a) of
                         (objs1, x) \<Rightarrow> add_results X d rs objs1 (a\<lparr>ag_extra := x\<rparr>)))))"

definition sheet_checked_suites :: "(string \<Rightarrow> jobject list \<Rightarrow> unit outcome) \<Rightarrow> 'f xval ext \<Rightarrow> db \<Rightarrow> (key \<times> suite_result) list
    \<Rightarrow> 'f sheet_agg \<Rightarrow> unit outcome \<times> 'f sheet_agg" where
  "sheet_checked_suites http X d rs =
     and_then (add_results X d rs []) (\<lambda>objs a.
       if gs_ok (ag_extra a) then in_sheet (sheet_call http ''add_results'' objs) a else recalculate http d a)"

definition submit_objects :: "db \<Rightarrow> key list \<Rightarrow> jobject list" where
  "submit_objects d ss = List.map_filter (\<lambda>k. map_option (submit_object k) (dget (submits d) k)) ss"

definition sheet_created_submits :: "(string \<Rightarrow> jobject list \<Rightarrow> unit outcome) \<Rightarrow> db \<Rightarrow> key list \<Rightarrow> 'f sheet_agg
    \<Rightarrow> unit outcome \<times> 'f sheet_agg \<times> (key \<times> key option) list" where
  "sheet_created_submits http d ss a =
     (case (if gs_ok (ag_extra a) then in_sheet (sheet_call http ''add_submits'' (submit_objects d ss)) a else recalculate http d a) of
        (Raise e, a1) \<Rightarrow> (Raise e, a1, [])
      | (Ok _, a1) \<Rightarrow> agg_created_submits ss a1 d)"

subsection \<open>What happens after a failure\<close>

text \<open>The tests of every problem are known, as they are after \<open>init\<close>, and there are results.\<close>

definition has_results :: "'f sheet_agg \<Rightarrow> bool" where
  "has_results a \<longleftrightarrow> gs_results (ag_extra a) \<noteq> [] \<and> (\<exists>ts. test_objects a = Ok ts)"

text \<open>A step that keeps this, and marks the aggregator as failed when it raises.\<close>

definition keeps_results :: "('f sheet_agg \<Rightarrow> unit outcome \<times> 'f sheet_agg) \<Rightarrow> bool" where
  "keeps_results m \<longleftrightarrow> (\<forall>a r a'. m a = (r, a') \<and> has_results a \<longrightarrow> has_results a' \<and> (\<forall>e. r = Raise e \<longrightarrow> \<not> gs_ok (ag_extra a')))"

lemma has_results_extra:
  assumes "has_results a" "gs_results x = gs_results (ag_extra a)" "gs_tests x = gs_tests (ag_extra a)"
  shows "has_results (a\<lparr>ag_extra := x\<rparr>)"
proof -
  have "tests_of (a\<lparr>ag_extra := x\<rparr>) k = tests_of a k" for k
    using assms(3) by (simp add: tests_of_def suite_of_def)
  then have "test_objects (a\<lparr>ag_extra := x\<rparr>) = test_objects a" by (simp add: test_objects_def)
  with assms show ?thesis by (simp add: has_results_def)
qed

lemma sheet_call_fields:
  "sheet_call http action ps x = (r, x') \<Longrightarrow> gs_results x' = gs_results x \<and> gs_tests x' = gs_tests x \<and> (\<forall>e. r = Raise e \<longrightarrow> \<not> gs_ok x')"
  by (auto simp: sheet_call_def Let_def split: outcome.splits)

lemma keeps_in_sheet:
  assumes "\<And>a x r x'. f a x = (r, x') \<Longrightarrow> gs_results x' = gs_results x \<and> gs_tests x' = gs_tests x \<and> (\<forall>e. r = Raise e \<longrightarrow> \<not> gs_ok x')"
  shows "keeps_results (\<lambda>a. in_sheet (f a) a)"
  unfolding keeps_results_def
proof (intro allI impI)
  fix a a' r assume "in_sheet (f a) a = (r, a') \<and> has_results a"
  then obtain x' where f: "f a (ag_extra a) = (r, x')" and a': "a' = a\<lparr>ag_extra := x'\<rparr>" and h: "has_results a"
    by (auto simp: in_sheet_def split: prod.splits)
  from assms [OF f] has_results_extra [OF h] show "has_results a' \<and> (\<forall>e. r = Raise e \<longrightarrow> \<not> gs_ok (ag_extra a'))"
    by (simp add: a')
qed

lemma keeps_call: "keeps_results (\<lambda>a. in_sheet (sheet_call http action (ps a)) a)"
  by (rule keeps_in_sheet) (rule sheet_call_fields)

lemma keeps_create: "keeps_results (in_sheet (\<lambda>x. sheet_call http action ps (x\<lparr>gs_ok := True\<rparr>)))"
  by (rule keeps_in_sheet) (drule sheet_call_fields, simp)

lemma keeps_tests: "keeps_results (send_tests http)"
  unfolding keeps_results_def
proof (intro allI impI)
  fix a a' r assume s: "send_tests http a = (r, a') \<and> has_results a"
  then obtain ts where "test_objects a = Ok ts" by (auto simp: has_results_def)
  with s have "in_sheet (sheet_call http ''tests'' ts) a = (r, a')" "has_results a" by (simp_all add: send_tests_def)
  with keeps_call [of http "''tests''" "\<lambda>_. ts"] show "has_results a' \<and> (\<forall>e. r = Raise e \<longrightarrow> \<not> gs_ok (ag_extra a'))"
    unfolding keeps_results_def by blast
qed

text \<open>Steps that end in a step which never ends well never end well.\<close>

definition refuses :: "('f sheet_agg \<Rightarrow> unit outcome \<times> 'f sheet_agg) \<Rightarrow> bool" where
  "refuses m \<longleftrightarrow> (\<forall>a. has_results a \<longrightarrow> (\<exists>e a'. m a = (Raise e, a') \<and> has_results a' \<and> \<not> gs_ok (ag_extra a')))"

lemma refuses_after:
  fixes m n :: "'f sheet_agg \<Rightarrow> unit outcome \<times> 'f sheet_agg"
  assumes "keeps_results m" "refuses n"
  shows "refuses (and_then m (\<lambda>_. n))"
  unfolding refuses_def
proof (intro allI impI)
  fix a :: "'f sheet_agg" assume h: "has_results a"
  obtain r a1 where m: "m a = (r, a1)" by (cases "m a")
  with assms(1) h have k: "has_results a1" "\<forall>e. r = Raise e \<longrightarrow> \<not> gs_ok (ag_extra a1)" unfolding keeps_results_def by blast+
  show "\<exists>e a'. and_then m (\<lambda>_. n) a = (Raise e, a') \<and> has_results a' \<and> \<not> gs_ok (ag_extra a')"
  proof (cases r)
    case (Raise e)
    with m k show ?thesis by (simp add: and_then_def)
  next
    case (Ok u)
    from assms(2) k obtain e a' where "n a1 = (Raise e, a')" "has_results a'" "\<not> gs_ok (ag_extra a')"
      unfolding refuses_def by metis
    with m Ok show ?thesis by (simp add: and_then_def)
  qed
qed

lemma refuses_results: "refuses (in_sheet (send_results http) :: 'f sheet_agg \<Rightarrow> unit outcome \<times> 'f sheet_agg)"
  unfolding refuses_def
proof (intro allI impI)
  fix a :: "'f sheet_agg" assume h: "has_results a"
  then have "gs_results (ag_extra a) \<noteq> []" by (simp add: has_results_def)
  then have "in_sheet (send_results http) a = (Raise TypeError, a\<lparr>ag_extra := (ag_extra a)\<lparr>gs_ok := False\<rparr>\<rparr>)"
    by (simp add: in_sheet_def send_results_def)
  with has_results_extra [OF h, of "(ag_extra a)\<lparr>gs_ok := False\<rparr>"]
  show "\<exists>e a'. in_sheet (send_results http) a = (Raise e, a') \<and> has_results a' \<and> \<not> gs_ok (ag_extra a')" by simp
qed

lemma recalculate_refuses: "refuses (recalculate http d)"
  unfolding recalculate_def by (intro refuses_after refuses_results keeps_call keeps_create keeps_tests)

text \<open>
  C39 (sheet_never_recovers): Once the aggregator is marked as failed and there are results, it stays so: a
  change of the contestants and new submits make it send everything anew, the results cannot be
  written as JSON, and the call raises and leaves it as failed as before. New submits are then not even scheduled
  for judging.
\<close>

theorem sheet_never_recovers:
  assumes "has_results a" "\<not> gs_ok (ag_extra a)"
  shows "(\<exists>e a'. sheet_changed_contestants http d a = (Raise e, a') \<and> has_results a' \<and> \<not> gs_ok (ag_extra a'))
    \<and> (\<exists>e a'. sheet_created_submits http d ss a = (Raise e, a', []) \<and> has_results a' \<and> \<not> gs_ok (ag_extra a'))"
proof -
  from recalculate_refuses [of http d] assms(1) obtain e a' where
    "recalculate http d a = (Raise e, a')" "has_results a'" "\<not> gs_ok (ag_extra a')"
    unfolding refuses_def by blast
  with assms(2) show ?thesis by (simp add: sheet_changed_contestants_def sheet_created_submits_def)
qed

definition sample_sheet :: "unit sheet_agg" where
  "sample_sheet = new_agg (new_sheet\<lparr>gs_results := [((1, 5, 10), [])]\<rparr>) 9
     \<lparr>rk_contest = 8, rk_aggregator = [], rk_header = [], rk_footer = [], rk_params = []\<rparr>"

theorem sheet_never_recovers_witness:
  "\<exists>e a'. sheet_created_submits (\<lambda>_ _. Ok ()) sample_db [1] sample_sheet = (Raise e, a', [])"
proof -
  have "has_results sample_sheet" "\<not> gs_ok (ag_extra sample_sheet)"
    by (simp_all add: sample_sheet_def new_agg_def new_sheet_def has_results_def test_objects_def)
  from sheet_never_recovers [OF this, of "\<lambda>_ _. Ok ()" sample_db "[1]"] show ?thesis by blast
qed

end
