(* ===== verification/Judge_Path.thy ===== *)
theory Judge_Path
  imports Py_Strings
begin

section \<open>Paths inside the jail\<close>

text \<open>
  \<open>jailPath\<close> of \<open>satori.judge\<close>, with what it uses of \<open>posixpath\<close>: \<open>join\<close> of two paths and \<open>normpath\<close>, which
  keeps exactly two leading slashes.
\<close>

abbreviation slash :: char where
  "slash \<equiv> CHR ''/''"

definition path_join :: "string \<Rightarrow> string \<Rightarrow> string" where
  "path_join a b =
     (if starts_with [slash] b then b
      else if a = [] \<or> last a = slash then a @ b
      else a @ slash # b)"

fun norm_comps :: "bool \<Rightarrow> string list \<Rightarrow> string list \<Rightarrow> string list" where
  "norm_comps absolute [] done = done"
| "norm_comps absolute (c # cs) done =
     (if c = [] \<or> c = ''.'' then norm_comps absolute cs done
      else if c \<noteq> ''..'' \<or> (\<not> absolute \<and> done = []) \<or> (done \<noteq> [] \<and> last done = ''..'')
        then norm_comps absolute cs (done @ [c])
      else norm_comps absolute cs (butlast done))"

definition initial_slashes :: "string \<Rightarrow> nat" where
  "initial_slashes path =
     (if \<not> starts_with [slash] path then 0
      else if starts_with [slash, slash] path \<and> \<not> starts_with [slash, slash, slash] path then 2 else 1)"

definition normpath :: "string \<Rightarrow> string" where
  "normpath path =
     (if path = [] then ''.''
      else let n = initial_slashes path;
               r = replicate n slash @ join [slash] (norm_comps (n > 0) (split_on slash path) []) in
           if r = [] then ''.'' else r)"

text \<open>The path below \<open>/\<close> is absolute, so that \<open>abspath\<close> is \<open>normpath\<close>.\<close>

definition jail_path :: "string \<Rightarrow> string \<Rightarrow> string" where
  "jail_path root path = path_join root (drop 1 (normpath (path_join [slash] path)))"

subsection \<open>Staying inside\<close>

definition plain_comp :: "string \<Rightarrow> bool" where
  "plain_comp c \<longleftrightarrow> c \<noteq> [] \<and> c \<noteq> ''.'' \<and> c \<noteq> ''..'' \<and> slash \<notin> set c"

lemma norm_comps_plain:
  "\<forall>c \<in> set cs. slash \<notin> set c \<Longrightarrow> \<forall>c \<in> set acc. plain_comp c \<Longrightarrow> \<forall>c \<in> set (norm_comps True cs acc). plain_comp c"
proof (induction cs arbitrary: acc)
  case (Cons c cs)
  have cs: "\<forall>c \<in> set cs. slash \<notin> set c" "slash \<notin> set c" using Cons.prems(1) by simp_all
  have up: "last acc \<noteq> ''..''" if "acc \<noteq> []"
    using Cons.prems(2) last_in_set [OF that] unfolding plain_comp_def by blast
  have "\<forall>c \<in> set (butlast acc). plain_comp c" using Cons.prems(2) by (meson in_set_butlastD)
  note IH = Cons.IH [OF cs(1) Cons.prems(2)] Cons.IH [OF cs(1) this]
  consider "c = [] \<or> c = ''.''" | "c = ''..''" | "plain_comp c" using cs(2) by (auto simp: plain_comp_def)
  then show ?case
  proof cases
    case 2
    then show ?thesis using IH(2) up by (cases "acc = []") simp_all
  next
    case 3
    then have "\<forall>c \<in> set (acc @ [c]). plain_comp c" using Cons.prems(2) by simp
    from Cons.IH [OF cs(1) this] 3 show ?thesis by (simp add: plain_comp_def)
  qed (use IH(1) in simp)
qed simp

lemma join_plain:
  assumes "\<forall>c \<in> set cs. plain_comp c"
  shows "join [slash] cs = [] \<or> hd (join [slash] cs) \<noteq> slash"
proof (cases cs)
  case (Cons c ds)
  then have "c \<noteq> []" "slash \<notin> set c" using assms by (simp_all add: plain_comp_def)
  then show ?thesis using Cons by (cases ds; cases c) auto
qed simp

definition comps_of :: "string \<Rightarrow> string list" where
  "comps_of path = norm_comps True (split_on slash path) []"

lemma comps_of_plain: "\<forall>c \<in> set (comps_of path). plain_comp c"
  unfolding comps_of_def using split_on_no_sep by (intro norm_comps_plain) auto

lemma starts_with_eqs [simp]:
  "starts_with [] s" "\<not> starts_with (x # xs) []" "starts_with (x # xs) (y # ys) \<longleftrightarrow> x = y \<and> starts_with xs ys"
  by (simp_all add: starts_with_def)

lemma starts_with_hd: "starts_with [x] s \<longleftrightarrow> s \<noteq> [] \<and> hd s = x"
  by (cases s) auto

lemma normpath_absolute:
  assumes "starts_with [slash] p"
  shows "normpath p = replicate (initial_slashes p) slash @ join [slash] (comps_of p)" and "initial_slashes p \<in> {1, 2}"
  using assms by (cases p; simp add: normpath_def comps_of_def initial_slashes_def Let_def)+

definition escapes :: "string \<Rightarrow> bool" where
  "escapes path \<longleftrightarrow> starts_with [slash, slash] path \<and> \<not> starts_with [slash, slash, slash] path"

text \<open>
  C35 (jail_path_confined): A path is taken to a file below the root of the jail, with no component that
  leads upwards, unless it starts with exactly two slashes: the second one survives, and the result is an
  absolute path that does not depend on the jail at all.
\<close>

theorem jail_path_confined:
  "(if escapes path then \<forall>root. jail_path root path = slash # join [slash] (comps_of path)
    else jail_path root path = (if root = [] \<or> last root = slash then root else root @ [slash]) @ join [slash] (comps_of (path_join [slash] path)))
   \<and> (\<forall>c \<in> set (comps_of path). plain_comp c) \<and> (\<forall>c \<in> set (comps_of (path_join [slash] path)). plain_comp c)"
proof -
  let ?p = "path_join [slash] path"
  have p: "?p = (if starts_with [slash] path then path else slash # path)" by (simp add: path_join_def)
  have abs: "starts_with [slash] ?p" by (simp add: p)
  have two: "initial_slashes ?p = (if escapes path then 2 else 1)"
    unfolding p initial_slashes_def escapes_def by (cases path) (auto simp: starts_with_hd)
  have esc: "?p = path" if "escapes path" using that unfolding p escapes_def by (cases path) auto
  have np: "drop 1 (normpath ?p) = (if escapes path then slash # join [slash] (comps_of path) else join [slash] (comps_of ?p))"
    using normpath_absolute(1) [OF abs] two esc by (simp add: numeral_2_eq_2)
  have ns: "\<not> starts_with [slash] (join [slash] (comps_of ?p))"
    using join_plain [OF comps_of_plain [of ?p]] by (simp add: starts_with_hd)
  have "jail_path r path = path_join r (if escapes path then slash # join [slash] (comps_of path) else join [slash] (comps_of ?p))" for r
    unfolding jail_path_def np by simp
  with ns show ?thesis
    using comps_of_plain by (simp add: path_join_def [of _ "join [slash] (comps_of ?p)"] path_join_def [of _ "slash # _"])
qed

theorem jail_path_confined_witness:
  "jail_path ''/jail'' ''../../etc/passwd'' = ''/jail/etc/passwd'' \<and> jail_path ''/jail'' ''//etc/passwd'' = ''/etc/passwd''
   \<and> list_all plain_comp (comps_of ''//etc/passwd'')"
proof -
  have "escapes ''//etc/passwd''" "\<not> escapes ''../../etc/passwd''" by code_simp+
  moreover have "slash # join [slash] (comps_of ''//etc/passwd'') = ''/etc/passwd''"
    "''/jail'' @ [slash] @ join [slash] (comps_of (path_join [slash] ''../../etc/passwd'')) = ''/jail/etc/passwd''" by code_simp+
  moreover have "last ''/jail'' \<noteq> slash" "''/jail'' \<noteq> ([] :: string)" by code_simp+
  ultimately show ?thesis
    using jail_path_confined [of "''//etc/passwd''" "''/jail''"] jail_path_confined [of "''../../etc/passwd''" "''/jail''"]
    by (simp add: list_all_iff)
qed

end
