(* ===== verification/Judge_Control.thy ===== *)
theory Judge_Control
  imports Judge_Path
begin

section \<open>The judging machine: controller and loop\<close>

text \<open>
  \<open>satori.judge\<close>: a test is judged by a program inside a jail, which talks to a controller outside.
  \<^item> \<open>control\<close>: what the controller of one run keeps: the attributes of the submit and of the test, the
    result set so far, and the machine.
  \<^item> \<open>host\<close>: what the controller does to the machine: fetching and storing blobs, building jails, control
    groups; \<open>h_lost\<close> tells whether a request and its answer get lost on the way.
  \<^item> \<open>handle_cmd\<close>: \<open>do_POST\<close> and the \<open>cmd_\<close> methods; \<open>judge_once\<close>: one turn of \<open>judge_loop\<close> with a submit.
\<close>

record jattr =
  ja_is_blob :: bool
  ja_value :: string
  ja_filename :: "string option"

type_synonym jattrs = "(string, jattr) dict"

type_synonym jargs = "(string, string) dict"

datatype answer = Listing jattrs | Reply jargs

record 'm control =
  jc_submit :: jattrs
  jc_test :: jattrs
  jc_result :: jattrs
  jc_machine :: 'm

record 'm host =
  h_root :: string
  h_fetch :: "jattrs \<Rightarrow> string \<Rightarrow> string \<Rightarrow> 'm \<Rightarrow> unit outcome \<times> 'm"
  h_store :: "string \<Rightarrow> 'm \<Rightarrow> string outcome \<times> 'm"
  h_jail :: "string \<Rightarrow> string \<Rightarrow> 'm \<Rightarrow> unit outcome \<times> 'm"
  h_cgroup :: "string \<Rightarrow> jargs \<Rightarrow> 'm \<Rightarrow> jargs outcome \<times> 'm"
  h_lost :: "string \<Rightarrow> jargs \<Rightarrow> 'm \<Rightarrow> bool \<times> bool"

definition done_reply :: answer where
  "done_reply = Reply [(''res'', ''OK'')]"

definition need :: "jargs \<Rightarrow> string \<Rightarrow> string outcome" where
  "need args k = (case dget args k of Some v \<Rightarrow> Ok v | None \<Rightarrow> Raise KeyError)"

definition basename :: "string \<Rightarrow> string" where
  "basename path = last (split_on slash path)"

definition on_machine :: "('m \<Rightarrow> 'a outcome \<times> 'm) \<Rightarrow> 'm control \<Rightarrow> 'a outcome \<times> 'm control" where
  "on_machine f c = (case f (jc_machine c) of (r, m) \<Rightarrow> (r, c\<lparr>jc_machine := m\<rparr>))"

subsection \<open>Commands\<close>

text \<open>\<open>unicode(attr.filename)\<close> of an attribute without a file name is the text \<open>None\<close>.\<close>

definition oa_for_judge :: "jattr \<Rightarrow> jattr" where
  "oa_for_judge a = a\<lparr>ja_filename := Some (case ja_filename a of None \<Rightarrow> ''None'' | Some f \<Rightarrow> f)\<rparr>"

definition listing :: "jattrs \<Rightarrow> jattrs" where
  "listing attrs = map (\<lambda>(n, a). (n, oa_for_judge a)) attrs"

definition get_blob :: "'m host \<Rightarrow> jattrs \<Rightarrow> jargs \<Rightarrow> 'm control \<Rightarrow> answer outcome \<times> 'm control" where
  "get_blob H attrs args c =
     (case bind_ok (need args ''name'') (\<lambda>n. map_ok (\<lambda>p. (n, p)) (need args ''path'')) of
        Raise e \<Rightarrow> (Raise e, c)
      | Ok (name, path) \<Rightarrow>
          (case on_machine (h_fetch H attrs name (jail_path (h_root H) path)) c of
             (r, c1) \<Rightarrow> (map_ok (\<lambda>_. done_reply) r, c1)))"

definition set_string :: "jargs \<Rightarrow> 'm control \<Rightarrow> answer outcome \<times> 'm control" where
  "set_string args c =
     (case bind_ok (need args ''value'') (\<lambda>v. map_ok (\<lambda>n. (n, v)) (need args ''name'')) of
        Raise e \<Rightarrow> (Raise e, c)
      | Ok (name, v) \<Rightarrow>
          (Ok done_reply, c\<lparr>jc_result := dset name \<lparr>ja_is_blob = False, ja_value = v, ja_filename = None\<rparr> (jc_result c)\<rparr>))"

definition set_blob :: "'m host \<Rightarrow> jargs \<Rightarrow> 'm control \<Rightarrow> answer outcome \<times> 'm control" where
  "set_blob H args c =
     (case need args ''path'' of
        Raise e \<Rightarrow> (Raise e, c)
      | Ok p \<Rightarrow>
          (let path = jail_path (h_root H) p in
           case on_machine (h_store H path) c of
             (Raise e, c1) \<Rightarrow> (Raise e, c1)
           | (Ok hash, c1) \<Rightarrow>
               (case need args ''name'' of
                  Raise e \<Rightarrow> (Raise e, c1)
                | Ok name \<Rightarrow>
                    (Ok done_reply, c1\<lparr>jc_result := dset name \<lparr>ja_is_blob = True, ja_value = hash,
                       ja_filename = Some (dget_def_val args ''filename'' (basename path))\<rparr> (jc_result c1)\<rparr>))))"

definition create_jail :: "'m host \<Rightarrow> jargs \<Rightarrow> 'm control \<Rightarrow> answer outcome \<times> 'm control" where
  "create_jail H args c =
     (case bind_ok (need args ''path'') (\<lambda>p. map_ok (\<lambda>t. (p, t)) (need args ''template'')) of
        Raise e \<Rightarrow> (Raise e, c)
      | Ok (p, t) \<Rightarrow>
          (case on_machine (h_jail H (jail_path (h_root H) p) t) c of (r, c1) \<Rightarrow> (map_ok (\<lambda>_. done_reply) r, c1)))"

definition cgroup_commands :: "string list" where
  "cgroup_commands = [''CREATECG'', ''LIMITCG'', ''ASSIGNCG'', ''DESTROYCG'', ''QUERYCG'']"

definition handle_cmd :: "'m host \<Rightarrow> string \<Rightarrow> jargs \<Rightarrow> 'm control \<Rightarrow> answer outcome \<times> 'm control" where
  "handle_cmd H cmd args c =
     (if cmd = ''GETSUBMIT'' then (Ok (Listing (listing (jc_submit c))), c)
      else if cmd = ''GETTEST'' then (Ok (Listing (listing (jc_test c))), c)
      else if cmd = ''GETTESTBLOB'' then get_blob H (jc_test c) args c
      else if cmd = ''GETSUBMITBLOB'' then get_blob H (jc_submit c) args c
      else if cmd = ''CREATEJAIL'' then create_jail H args c
      else if cmd = ''SETSTRING'' then set_string args c
      else if cmd = ''SETBLOB'' then set_blob H args c
      else if cmd = ''PING'' then (Ok done_reply, c)
      else if cmd \<in> set cgroup_commands then
        (case on_machine (h_cgroup H cmd args) c of (r, c1) \<Rightarrow> (map_ok Reply r, c1))
      else (Raise (AttributeError (''cmd_'' @ cmd)), c))"

text \<open>
  \<open>communicate\<close> on the other side: a lost message, a status 500 (its body is the text of the exception, not an answer)
  or an answer that is not OK raises. Nothing reads the text of these exceptions.
\<close>

definition communicate :: "'m host \<Rightarrow> string \<Rightarrow> jargs \<Rightarrow> bool \<Rightarrow> 'm control \<Rightarrow> answer outcome \<times> 'm control" where
  "communicate H cmd args check c =
     (let failed = Raise (RuntimeError (''Communication '' @ cmd @ '' failed''));
          refused = Raise (RuntimeError (''Communication '' @ cmd @ '' finished with failure'')) in
      case h_lost H cmd args (jc_machine c) of
        (lost_request, lost_answer) \<Rightarrow>
          if lost_request then (failed, c)
          else (case handle_cmd H cmd args c of
                  (r, c1) \<Rightarrow>
                    if lost_answer then (failed, c1)
                    else (case r of
                            Raise e \<Rightarrow> (refused, c1)
                          | Ok a \<Rightarrow>
                              if check \<and> (case a of Reply d \<Rightarrow> dget d ''res'' \<noteq> Some ''OK'' | Listing l \<Rightarrow> True)
                              then (refused, c1) else (Ok a, c1))))"

subsection \<open>A run and the loop\<close>

definition plain :: "string \<Rightarrow> jattr" where
  "plain v = \<lparr>ja_is_blob = False, ja_value = v, ja_filename = None\<rparr>"

definition run_result :: "jattrs \<Rightarrow> jattrs" where
  "run_result res =
     (if ''status'' \<in> set (dkeys res) then res
      else dset ''description'' (plain ''No status in result'') (dset ''status'' (plain ''INT'') res))"

record 'm judge_env =
  je_create :: "string \<Rightarrow> 'm \<Rightarrow> unit outcome \<times> 'm"
  je_install :: "jattrs \<Rightarrow> 'm \<Rightarrow> unit outcome \<times> 'm"
  je_run :: "'m control \<Rightarrow> unit outcome \<times> 'm control"
  je_report :: "int \<Rightarrow> jattrs \<Rightarrow> 'm \<Rightarrow> unit outcome \<times> 'm"
  je_destroy :: "'m \<Rightarrow> unit outcome \<times> 'm"

definition template_of :: "jattrs \<Rightarrow> string" where
  "template_of td = (case dget td ''template'' of Some a \<Rightarrow> if ja_is_blob a then ''default'' else ja_value a | None \<Rightarrow> ''default'')"

definition no_judge_result :: jattrs where
  "no_judge_result = [(''status'', plain ''INT''), (''description'', plain ''No judge specified'')]"

text \<open>
  \<open>JailRun.run\<close>: what the program in the jail returns is not looked at; \<open>je_run\<close> raises where setting up the network,
  the processes or the controller does.
\<close>

definition jail_run :: "'m judge_env \<Rightarrow> jattrs \<Rightarrow> jattrs \<Rightarrow> 'm \<Rightarrow> jattrs outcome \<times> 'm" where
  "jail_run E sd td m =
     (case je_run E \<lparr>jc_submit = sd, jc_test = td, jc_result = [], jc_machine = m\<rparr> of
        (r, c) \<Rightarrow> (map_ok (\<lambda>_. run_result (jc_result c)) r, jc_machine c))"

definition judge_body :: "'m judge_env \<Rightarrow> int \<Rightarrow> jattrs \<Rightarrow> jattrs \<Rightarrow> 'm \<Rightarrow> unit outcome \<times> 'm" where
  "judge_body E tr sd td =
     and_then (je_create E (template_of td)) (\<lambda>_.
       if (case dget td ''judge'' of Some a \<Rightarrow> ja_is_blob a | None \<Rightarrow> False)
       then and_then (je_install E td) (\<lambda>_. and_then (jail_run E sd td) (\<lambda>res. je_report E tr res))
       else je_report E tr no_judge_result)"

text \<open>Every exception of the body is printed; \<open>destroy\<close> comes last in any case.\<close>

definition judge_once :: "'m judge_env \<Rightarrow> int \<Rightarrow> jattrs \<Rightarrow> jattrs \<Rightarrow> 'm \<Rightarrow> unit outcome \<times> 'm" where
  "judge_once E tr sd td m = (case judge_body E tr sd td m of (r, m1) \<Rightarrow> je_destroy E m1)"

end
