(* ===== verification/Judge_Simple.thy ===== *)
theory Judge_Simple
  imports Judge_Control
begin

section \<open>The simple judge\<close>

text \<open>
  \<open>satori.core/judges/simple_judge.py\<close>: the program that judges a solution inside the jail.
  \<^item> \<open>machine\<close>: what the program is given: its connection to the controller (\<open>communicate\<close>), \<open>subprocess.call\<close> and
    \<open>Popen(...).communicate()[0]\<close> on its own state \<open>'e\<close>, and the conversions of numbers that use floats.
  \<^item> \<open>simple_judge\<close> returns \<open>Ok\<close> where the program ends, at its last line or by \<open>sys.exit(0)\<close>.
\<close>

record 'e machine =
  mc_comm :: "string \<Rightarrow> jargs \<Rightarrow> bool \<Rightarrow> 'e \<Rightarrow> answer outcome \<times> 'e"
  mc_call :: "string list \<Rightarrow> 'e \<Rightarrow> int outcome \<times> 'e"
  mc_popen :: "string list \<Rightarrow> 'e \<Rightarrow> string outcome \<times> 'e"
  mc_millis :: "string \<Rightarrow> string \<Rightarrow> int outcome"
  mc_bytes :: "int \<Rightarrow> string \<Rightarrow> int outcome"
  mc_seconds :: "string \<Rightarrow> string outcome"
  mc_longer :: "int \<Rightarrow> int"
  mc_host :: string
  mc_port :: string

subsection \<open>Numbers with units\<close>

definition lower_char :: "char \<Rightarrow> char" where
  "lower_char c = (if 65 \<le> code c \<and> code c \<le> 90 then char_of (code c + 32) else c)"

definition lower :: "string \<Rightarrow> string" where
  "lower s = map lower_char s"

text \<open>
  \<open>mc_millis mul text\<close> is \<open>int(math.ceil(float(text) * mul * 1000))\<close> and \<open>mc_bytes mul text\<close> is
  \<open>int(math.ceil(float(text) * mul))\<close>.
\<close>

definition parse_time :: "'e machine \<Rightarrow> string \<Rightarrow> int outcome" where
  "parse_time M timestr =
     (let t = lower (strip timestr) in
      if t = [] then Raise IndexError
      else let (mul, t1) = (if last t = CHR ''s'' then (''1'', butlast t) else (''0.001'', t)) in
        if t1 = [] then Raise IndexError
        else if last t1 = CHR ''c'' then mc_millis M ''0.01'' (butlast t1)
        else if last t1 = CHR ''m'' then mc_millis M ''0.001'' (butlast t1)
        else if last t1 = CHR 0xB5 then mc_millis M ''0.000001'' (butlast t1)
        else if last t1 = CHR ''n'' then mc_millis M ''0.000000001'' (butlast t1)
        else mc_millis M mul t1)"

definition parse_memory :: "'e machine \<Rightarrow> string \<Rightarrow> int outcome" where
  "parse_memory M memstr =
     (let t = lower (strip memstr) in
      if t = [] then Raise IndexError
      else let t1 = (if last t = CHR ''b'' then butlast t else t) in
        if t1 = [] then Raise IndexError
        else if last t1 = CHR ''k'' then mc_bytes M 1024 (butlast t1)
        else if last t1 = CHR ''m'' then mc_bytes M (1024 ^ 2) (butlast t1)
        else if last t1 = CHR ''g'' then mc_bytes M (1024 ^ 3) (butlast t1)
        else if last t1 = CHR ''t'' then mc_bytes M (1024 ^ 4) (butlast t1)
        else if last t1 = CHR ''p'' then mc_bytes M (1024 ^ 5) (butlast t1)
        else mc_bytes M 1 t1)"

subsection \<open>Command lines\<close>

definition control_options :: "'e machine \<Rightarrow> string list" where
  "control_options M = [''--control-host='' @ mc_host M, ''--control-port='' @ mc_port M]"

text \<open>Extension, name of the source file and compiler.\<close>

definition language_of :: "string \<Rightarrow> (string \<times> string \<times> string list) option" where
  "language_of ext =
     (if ext = ''c'' then Some (''c'', ''solution.c'', [''/usr/bin/gcc'', ''-static'', ''-O2'', ''-Wall'', ''solution.c'', ''-lm'', ''-osolution.x''])
      else if ext \<in> {''cpp'', ''cc'', ''cxx''} then
        Some (''cpp'', ''solution.cpp'', [''/usr/bin/g++'', ''-static'', ''-O2'', ''-Wall'', ''solution.cpp'', ''-osolution.x''])
      else if ext \<in> {''pas'', ''p'', ''pp''} then
        Some (''pas'', ''solution.pas'', [''/usr/bin/fpc'', ''-Sgic'', ''-Xs'', ''-viwnh'', ''-O2'', ''solution.pas'', ''-osolution.x''])
      else None)"

definition compile_run :: "'e machine \<Rightarrow> string list \<Rightarrow> string list" where
  "compile_run M compiler =
     [''runner'', ''--quiet'', ''--root=/jail'', ''--work-dir=/runner'', ''--env=simple'', ''--setuid=runner'', ''--setgid=runner'']
     @ control_options M
     @ [''--cgroup=/compile'', ''--cgroup-memory=1073741824'', ''--cgroup-cputime=20000'', ''--max-realtime=20000'',
        ''--max-stack=67108864'', ''--stdout=/tmp/compile.log'', ''--trunc-stdout'', ''--stderr=__STDOUT__'', ''--priority=30'']
     @ compiler"

definition execute_run :: "'e machine \<Rightarrow> int \<Rightarrow> int \<Rightarrow> string list" where
  "execute_run M time memory =
     [''runner'', ''--root=/jail'', ''--work-dir=/runner'', ''--env=empty'', ''--setuid=runner'', ''--setgid=runner'']
     @ control_options M
     @ [''--cgroup=/execute'', ''--cgroup-memory='' @ str_int memory, ''--cgroup-cputime='' @ str_int time,
        ''--max-memory='' @ str_int memory, ''--max-cputime='' @ str_int time, ''--max-realtime='' @ str_int (mc_longer M time),
        ''--max-threads=1'', ''--max-files=4'', ''--stdin=/tmp/data.in'', ''--stdout=/tmp/data.out'', ''--trunc-stdout'',
        ''--stderr=/dev/null'', ''--priority=30'', ''/runner/solution.x'']"

definition checker_compile_run :: "'e machine \<Rightarrow> string list" where
  "checker_compile_run M =
     [''runner'', ''--quiet'', ''--root=/'', ''--work-dir=/tmp'', ''--env=simple'', ''--setuid=runner'', ''--setgid=runner'']
     @ control_options M
     @ [''--cgroup=/compile_checker'', ''--cgroup-memory=1073741824'', ''--cgroup-cputime=20000'', ''--max-realtime=20000'',
        ''--max-stack=67108864'', ''--stdout=/tmp/check.log'', ''--trunc-stdout'', ''--stderr=__STDOUT__'', ''--stdout=/dev/null'',
        ''--stderr=/dev/null'', ''--priority=30'', ''/usr/bin/g++'', ''-static'', ''-O2'', ''checker.cpp'', ''-ochecker.x'']"

definition checker_run :: "'e machine \<Rightarrow> bool \<Rightarrow> string \<Rightarrow> string list" where
  "checker_run M has_checker hint_file =
     [''runner'', ''--quiet'', ''--root=/'', ''--work-dir=/tmp'', ''--env=simple'', ''--setuid=runner'', ''--setgid=runner'']
     @ control_options M
     @ [''--cgroup=/check'', ''--cgroup-memory=1073741824'', ''--cgroup-cputime=60000'', ''--max-realtime=60000'',
        ''--stdout=/tmp/check.log'', ''--stderr=__STDOUT__'', ''--priority=30'']
     @ (if has_checker then [''/tmp/checker.x'', ''/tmp/data.in'', hint_file, ''/tmp/data.out'']
        else [''--trunc-stdout'', ''/usr/bin/diff'', ''-q'', ''-w'', ''-B'', hint_file, ''/tmp/data.out''])"

subsection \<open>Steps\<close>

definition send :: "'e machine \<Rightarrow> string \<Rightarrow> jargs \<Rightarrow> 'e \<Rightarrow> unit outcome \<times> 'e" where
  "send M cmd args e = (case mc_comm M cmd args True e of (r, e1) \<Rightarrow> (map_ok (\<lambda>_. ()) r, e1))"

definition ask_attrs :: "'e machine \<Rightarrow> string \<Rightarrow> 'e \<Rightarrow> jattrs outcome \<times> 'e" where
  "ask_attrs M cmd e =
     (case mc_comm M cmd [] False e of
        (Raise x, e1) \<Rightarrow> (Raise x, e1)
      | (Ok (Listing l), e1) \<Rightarrow> (Ok l, e1)
      | (Ok (Reply _), e1) \<Rightarrow> (Raise TypeError, e1))"

definition set_text :: "'e machine \<Rightarrow> string \<Rightarrow> string \<Rightarrow> 'e \<Rightarrow> unit outcome \<times> 'e" where
  "set_text M name v = send M ''SETSTRING'' [(''name'', name), (''value'', v)]"

definition set_file :: "'e machine \<Rightarrow> string \<Rightarrow> string \<Rightarrow> 'e \<Rightarrow> unit outcome \<times> 'e" where
  "set_file M name path = send M ''SETBLOB'' [(''name'', name), (''path'', path)]"

definition get_file :: "'e machine \<Rightarrow> string \<Rightarrow> string \<Rightarrow> string \<Rightarrow> 'e \<Rightarrow> unit outcome \<times> 'e" where
  "get_file M cmd name path = send M cmd [(''name'', name), (''path'', path)]"

definition lift :: "'a outcome \<Rightarrow> 'e \<Rightarrow> 'a outcome \<times> 'e" where
  "lift r e = (r, e)"

text \<open>\<open>test.get(n)['value']\<close>, a subscript of \<open>None\<close> where there is no such attribute.\<close>

definition value_of :: "jattrs \<Rightarrow> string \<Rightarrow> string outcome" where
  "value_of attrs n = (case dget attrs n of Some a \<Rightarrow> Ok (ja_value a) | None \<Rightarrow> Raise TypeError)"

fun read_stats :: "string list \<Rightarrow> jargs \<Rightarrow> jargs" where
  "read_stats [] d = d"
| "read_stats (line # ls) d =
     (let parts = split_on CHR '':'' line in
      read_stats ls (dset (lower (strip (hd parts))) (strip (join '':'' (tl parts))) d))"

text \<open>\<open>str.splitlines\<close>: lines end with a newline, a carriage return or both; there is no empty line at the end.\<close>

fun split_lines :: "string \<Rightarrow> string \<Rightarrow> string list" where
  "split_lines cur [] = (if cur = [] then [] else [rev cur])"
| "split_lines cur (c # cs) =
     (if c = newline then rev cur # split_lines [] cs
      else if c = CHR 0x0D then
        rev cur # (case cs of [] \<Rightarrow> [] | d # ds \<Rightarrow> if d = newline then split_lines [] ds else split_lines [] cs)
      else split_lines (c # cur) cs)"

definition text_lines :: "string \<Rightarrow> string list" where
  "text_lines s = split_lines [] s"

definition set_stats :: "'e machine \<Rightarrow> jargs \<Rightarrow> 'e \<Rightarrow> unit outcome \<times> 'e" where
  "set_stats M stats =
     and_then (lift (bind_ok (need stats ''time'') (mc_seconds M))) (\<lambda>t.
     and_then (set_text M ''execute_time_real'' (t @ ''s'')) (\<lambda>_.
     and_then (lift (bind_ok (need stats ''cpu'') (mc_seconds M))) (\<lambda>u.
     and_then (set_text M ''execute_time_cpu'' (u @ ''s'')) (\<lambda>_.
     and_then (lift (bind_ok (need stats ''memory'') (\<lambda>x. case parse_int x of Some i \<Rightarrow> Ok i | None \<Rightarrow> Raise ValueError))) (\<lambda>m.
     set_text M ''execute_memory'' (str_int m @ ''B''))))))"

subsection \<open>The program\<close>

definition check_languages :: "'e machine \<Rightarrow> jattrs \<Rightarrow> string \<Rightarrow> 'e \<Rightarrow> unit outcome \<times> 'e" where
  "check_languages M test ext =
     (case dget test ''languages'' of
        None \<Rightarrow> set_text M ''status'' ''OK''
      | Some a \<Rightarrow>
          if ext \<notin> set (map (lower \<circ> strip) (split_on CHR '','' (ja_value a))) then set_text M ''status'' ''LANG''
          else set_text M ''status'' ''OK'')"

definition check_output :: "'e machine \<Rightarrow> jattrs \<Rightarrow> string \<Rightarrow> 'e \<Rightarrow> unit outcome \<times> 'e" where
  "check_output M test ext =
     (let has_checker = dget test ''checker'' \<noteq> None; has_hint = dget test ''hint'' \<noteq> None in
      and_then (if has_hint then get_file M ''GETTESTBLOB'' ''hint'' ''/tmp/data.hint'' else lift (Ok ())) (\<lambda>_.
      and_then (mc_call M (checker_run M has_checker (if has_hint then ''/tmp/data.hint'' else ''/dev/null''))) (\<lambda>ret.
      and_then (set_file M ''check_log'' ''/tmp/check.log'') (\<lambda>_.
      if ret \<noteq> 0 then set_text M ''status'' ''ANS'' else check_languages M test ext))))"

definition compile_checker :: "'e machine \<Rightarrow> jattrs \<Rightarrow> string \<Rightarrow> 'e \<Rightarrow> unit outcome \<times> 'e" where
  "compile_checker M test ext =
     (if dget test ''checker'' = None then check_output M test ext
      else
        and_then (get_file M ''GETTESTBLOB'' ''checker'' ''/tmp/checker.cpp'') (\<lambda>_.
        and_then (mc_call M (checker_compile_run M)) (\<lambda>ret.
        if ret \<noteq> 0 then and_then (set_file M ''check_log'' ''/tmp/check.log'') (\<lambda>_. set_text M ''status'' ''INT'')
        else check_output M test ext)))"

definition run_solution :: "'e machine \<Rightarrow> jattrs \<Rightarrow> string \<Rightarrow> int \<Rightarrow> int \<Rightarrow> 'e \<Rightarrow> unit outcome \<times> 'e" where
  "run_solution M test ext time memory =
     and_then (get_file M ''GETTESTBLOB'' ''input'' ''/tmp/data.in'') (\<lambda>_.
     and_then (mc_popen M (execute_run M time memory)) (\<lambda>out.
     case text_lines out of
       [] \<Rightarrow> lift (Raise IndexError)
     | ret # ls \<Rightarrow>
         and_then (set_stats M (read_stats ls [])) (\<lambda>_.
         if ret \<noteq> ''OK'' then set_text M ''status'' ret else compile_checker M test ext)))"

definition compile_solution :: "'e machine \<Rightarrow> jattrs \<Rightarrow> string \<times> string \<times> string list \<Rightarrow> int \<Rightarrow> int \<Rightarrow> 'e \<Rightarrow> unit outcome \<times> 'e" where
  "compile_solution M test lang time memory =
     (let (ext, source, compiler) = lang in
      and_then (send M ''CREATEJAIL'' [(''path'', ''/jail''), (''template'', ''judge'')]) (\<lambda>_.
      and_then (get_file M ''GETSUBMITBLOB'' ''content'' (path_join ''/jail/runner'' source)) (\<lambda>_.
      and_then (mc_call M (compile_run M compiler)) (\<lambda>ret.
      and_then (set_file M ''compile_log'' ''/tmp/compile.log'') (\<lambda>_.
      if ret \<noteq> 0 then set_text M ''status'' ''CME'' else run_solution M test ext time memory)))))"

definition file_ext :: "string \<Rightarrow> string" where
  "file_ext filename = lower (last (split_on CHR ''.'' filename))"

definition filename_of :: "jattrs \<Rightarrow> string outcome" where
  "filename_of submit =
     (case dget submit ''content'' of
        None \<Rightarrow> Raise KeyError
      | Some a \<Rightarrow> (case ja_filename a of None \<Rightarrow> Raise KeyError | Some f \<Rightarrow> Ok f))"

definition simple_judge :: "'e machine \<Rightarrow> 'e \<Rightarrow> unit outcome \<times> 'e" where
  "simple_judge M =
     and_then (ask_attrs M ''GETSUBMIT'') (\<lambda>submit.
     and_then (ask_attrs M ''GETTEST'') (\<lambda>test.
     and_then (lift (filename_of submit)) (\<lambda>filename.
     and_then (lift (bind_ok (value_of test ''time'') (parse_time M))) (\<lambda>time.
     and_then (lift (bind_ok (value_of test ''memory'') (parse_memory M))) (\<lambda>memory.
     case language_of (file_ext filename) of
       None \<Rightarrow> set_text M ''status'' ''EXT''
     | Some lang \<Rightarrow> compile_solution M test lang time memory)))))"

end
