(* ===== verification/Judge_Verdict.thy ===== *)
theory Judge_Verdict
  imports Judge_Simple
begin

section \<open>What the simple judge decides\<close>

text \<open>
  \<^item> \<open>logged M\<close>: the machine \<open>M\<close> with a log of what is asked of it: every command to the controller, every process, each with
    what came back. A program does on \<open>logged M\<close> what it does on \<open>M\<close> (\<open>shadows\<close>), so the log tells what a run did. \<open>work\<close> is
    the log without the results that were set.
  \<^item> \<open>verdict\<close>: the specification: which status belongs to which work on a submit and a test.
  \<^item> \<open>judge_link\<close>: what the program relies on: SETSTRING sets one entry of the result, and neither the other commands
    nor the processes it starts touch the entry \<open>status\<close>. The controller of \<open>Judge_Control\<close> keeps these laws.
  \<^item> \<open>run_program\<close>: the run of the jail with the simple judge in it.
\<close>

subsection \<open>The log of a run\<close>

datatype deed =
    Said string jargs "unit outcome"
  | Called "string list" "int outcome"
  | Piped "string list" "string outcome"

definition logged :: "'e machine \<Rightarrow> ('e \<times> deed list) machine" where
  "logged M =
     \<lparr>mc_comm = (\<lambda>cmd args check (e, l). case mc_comm M cmd args check e of (r, e1) \<Rightarrow> (r, e1, l @ [Said cmd args (map_ok (\<lambda>_. ()) r)])),
      mc_call = (\<lambda>line (e, l). case mc_call M line e of (r, e1) \<Rightarrow> (r, e1, l @ [Called line r])),
      mc_popen = (\<lambda>line (e, l). case mc_popen M line e of (r, e1) \<Rightarrow> (r, e1, l @ [Piped line r])),
      mc_millis = mc_millis M, mc_bytes = mc_bytes M, mc_seconds = mc_seconds M, mc_longer = mc_longer M,
      mc_host = mc_host M, mc_port = mc_port M\<rparr>"

lemma logged_numbers:
  "mc_millis (logged M) = mc_millis M" "mc_bytes (logged M) = mc_bytes M" "mc_seconds (logged M) = mc_seconds M"
  "mc_longer (logged M) = mc_longer M" "mc_host (logged M) = mc_host M" "mc_port (logged M) = mc_port M"
  by (simp_all add: logged_def)

lemma logged_options: "control_options (logged M) = control_options M"
  by (simp add: control_options_def logged_numbers)

lemma logged_simps [simp]:
  "mc_seconds (logged M) = mc_seconds M"
  "parse_time (logged M) = parse_time M" "parse_memory (logged M) = parse_memory M"
  "compile_run (logged M) = compile_run M" "execute_run (logged M) = execute_run M"
  "checker_compile_run (logged M) = checker_compile_run M" "checker_run (logged M) = checker_run M"
  unfolding fun_eq_iff parse_time_def parse_memory_def compile_run_def execute_run_def checker_compile_run_def checker_run_def
    logged_numbers logged_options by simp_all

definition shadows :: "('e \<times> 'l \<Rightarrow> 'a outcome \<times> 'e \<times> 'l) \<Rightarrow> ('e \<Rightarrow> 'a outcome \<times> 'e) \<Rightarrow> bool" where
  "shadows f g \<longleftrightarrow> (\<forall>e l. \<exists>l1. f (e, l) = (fst (g e), snd (g e), l1))"

named_theorems shadow_steps \<open>programs that do on a logged machine what they do on the machine\<close>

lemma shadows_and_then [shadow_steps]: "shadows f g \<Longrightarrow> (\<And>x. shadows (f' x) (g' x)) \<Longrightarrow> shadows (and_then f f') (and_then g g')"
proof -
  assume one: "shadows f g" and two: "\<And>x. shadows (f' x) (g' x)"
  show "shadows (and_then f f') (and_then g g')"
    unfolding shadows_def
  proof (intro allI)
    fix e l
    obtain l1 where l1: "f (e, l) = (fst (g e), snd (g e), l1)" using one by (auto simp: shadows_def)
    obtain r e1 where g: "g e = (r, e1)" by fastforce
    show "\<exists>l2. and_then f f' (e, l) = (fst (and_then g g' e), snd (and_then g g' e), l2)"
      using l1 g two by (cases r) (auto simp: and_then_def shadows_def)
  qed
qed

lemma shadows_lift [shadow_steps]: "shadows (lift r) (lift r)"
  by (simp add: shadows_def lift_def)

lemma shadows_send [shadow_steps]: "shadows (send (logged M) cmd args) (send M cmd args)"
  by (auto simp: shadows_def send_def logged_def split: prod.split)

lemma shadows_ask [shadow_steps]: "shadows (ask_attrs (logged M) cmd) (ask_attrs M cmd)"
  by (auto simp: shadows_def ask_attrs_def logged_def split: prod.split outcome.split answer.split)

lemma shadows_call [shadow_steps]: "shadows (mc_call (logged M) line) (mc_call M line)"
  by (auto simp: shadows_def logged_def split: prod.split)

lemma shadows_popen [shadow_steps]: "shadows (mc_popen (logged M) line) (mc_popen M line)"
  by (auto simp: shadows_def logged_def split: prod.split)

lemma shadows_set [shadow_steps]: "shadows (set_text (logged M) n v) (set_text M n v)" "shadows (set_file (logged M) n p) (set_file M n p)"
  "shadows (get_file (logged M) cmd n p) (get_file M cmd n p)"
  by (simp_all add: set_text_def set_file_def get_file_def shadows_send)

lemma shadows_if [shadow_steps]: "shadows f g \<Longrightarrow> shadows f' g' \<Longrightarrow> shadows (if b then f else f') (if b then g else g')"
  by simp

lemma shadows_stats [shadow_steps]: "shadows (set_stats (logged M) stats) (set_stats M stats)"
  unfolding set_stats_def logged_simps by (intro shadow_steps)

lemma shadows_languages [shadow_steps]: "shadows (check_languages (logged M) test ext) (check_languages M test ext)"
  by (auto simp: check_languages_def shadow_steps split: option.split)

lemma shadows_simple_judge: "shadows (simple_judge (logged M)) (simple_judge M)"
proof -
  have out: "shadows (check_output (logged M) test ext) (check_output M test ext)" for test ext
    unfolding check_output_def Let_def logged_simps by (intro shadow_steps)
  have checker: "shadows (compile_checker (logged M) test ext) (compile_checker M test ext)" for test ext
    unfolding compile_checker_def logged_simps by (intro shadow_steps out)
  have run: "shadows (run_solution (logged M) test ext t m) (run_solution M test ext t m)" for test ext t m
    unfolding run_solution_def logged_simps by (intro shadow_steps) (auto intro!: shadow_steps checker split: list.split)
  have comp: "shadows (compile_solution (logged M) test lang t m) (compile_solution M test lang t m)" for test lang t m
    unfolding compile_solution_def logged_simps Let_def by (cases lang) (auto intro!: shadow_steps run)
  show ?thesis
    unfolding simple_judge_def logged_simps by (intro shadow_steps) (auto intro!: shadow_steps comp split: option.split)
qed

text \<open>The run on the logged machine, with the run on the machine itself beside it.\<close>

lemma shadows_run:
  assumes "shadows f g" and "g e = (r, e1)"
  obtains l where "f (e, []) = (r, e1, l)"
  using assms unfolding shadows_def by (metis fst_conv snd_conv)

fun is_work :: "deed \<Rightarrow> bool" where
  "is_work (Said cmd args r) \<longleftrightarrow> cmd \<noteq> ''SETSTRING'' \<and> cmd \<noteq> ''SETBLOB''"
| "is_work _ \<longleftrightarrow> True"

definition work :: "deed list \<Rightarrow> deed list" where
  "work l = filter is_work l"

lemma work_simps [simp]: "work [] = []" "work (l @ l') = work l @ work l'" "work (d # l) = (if is_work d then d # work l else work l)"
  by (simp_all add: work_def)

subsection \<open>The specification\<close>

text \<open>A file that was fetched; the work up to the compiling; the steps after it.\<close>

definition got :: "string \<Rightarrow> string \<Rightarrow> string \<Rightarrow> deed" where
  "got cmd name path = Said cmd [(''name'', name), (''path'', path)] (Ok ())"

definition asked :: "deed list" where
  "asked = [Said ''GETSUBMIT'' [] (Ok ()), Said ''GETTEST'' [] (Ok ())]"

definition prepared_source :: "string \<Rightarrow> deed list" where
  "prepared_source src =
     asked @ [Said ''CREATEJAIL'' [(''path'', ''/jail''), (''template'', ''judge'')] (Ok ()),
              got ''GETSUBMITBLOB'' ''content'' (path_join ''/jail/runner'' src)]"

definition compiled :: "'e machine \<Rightarrow> jattrs \<Rightarrow> string \<Rightarrow> deed list \<Rightarrow> bool" where
  "compiled M submit ext ws \<longleftrightarrow>
     (\<exists>f src compiler. filename_of submit = Ok f \<and> language_of (file_ext f) = Some (ext, src, compiler)
        \<and> ws = prepared_source src @ [Called (compile_run M compiler) (Ok 0)])"

definition executed :: "'e machine \<Rightarrow> jattrs \<Rightarrow> string \<Rightarrow> deed \<Rightarrow> bool" where
  "executed M test r d \<longleftrightarrow>
     (\<exists>time memory out ls. bind_ok (value_of test ''time'') (parse_time M) = Ok time
        \<and> bind_ok (value_of test ''memory'') (parse_memory M) = Ok memory
        \<and> d = Piped (execute_run M time memory) (Ok out) \<and> text_lines out = r # ls)"

definition ran_to :: "'e machine \<Rightarrow> jattrs \<Rightarrow> jattrs \<Rightarrow> string \<Rightarrow> string \<Rightarrow> deed list \<Rightarrow> bool" where
  "ran_to M submit test ext r ws \<longleftrightarrow>
     (\<exists>ws1 d. compiled M submit ext ws1 \<and> executed M test r d \<and> ws = ws1 @ [got ''GETTESTBLOB'' ''input'' ''/tmp/data.in'', d])"

definition checker_built :: "'e machine \<Rightarrow> jattrs \<Rightarrow> int \<Rightarrow> deed list" where
  "checker_built M test c =
     (if dget test ''checker'' = None then []
      else [got ''GETTESTBLOB'' ''checker'' ''/tmp/checker.cpp'', Called (checker_compile_run M) (Ok c)])"

definition checked :: "'e machine \<Rightarrow> jattrs \<Rightarrow> int \<Rightarrow> deed list" where
  "checked M test c =
     (let has_hint = dget test ''hint'' \<noteq> None in
      (if has_hint then [got ''GETTESTBLOB'' ''hint'' ''/tmp/data.hint''] else [])
      @ [Called (checker_run M (dget test ''checker'' \<noteq> None) (if has_hint then ''/tmp/data.hint'' else ''/dev/null'')) (Ok c)])"

definition language_allowed :: "jattrs \<Rightarrow> string \<Rightarrow> bool" where
  "language_allowed test ext \<longleftrightarrow>
     (case dget test ''languages'' of None \<Rightarrow> True | Some a \<Rightarrow> ext \<in> set (map (lower \<circ> strip) (split_on CHR '','' (ja_value a))))"

inductive verdict :: "'e machine \<Rightarrow> jattrs \<Rightarrow> jattrs \<Rightarrow> deed list \<Rightarrow> string \<Rightarrow> bool" for M submit test where
  bad_extension: "filename_of submit = Ok f \<Longrightarrow> language_of (file_ext f) = None \<Longrightarrow> verdict M submit test asked ''EXT''"
| compile_error: "filename_of submit = Ok f \<Longrightarrow> language_of (file_ext f) = Some (ext, src, compiler) \<Longrightarrow> c \<noteq> 0 \<Longrightarrow>
    verdict M submit test (prepared_source src @ [Called (compile_run M compiler) (Ok c)]) ''CME''"
| bad_run: "ran_to M submit test ext r ws \<Longrightarrow> r \<noteq> ''OK'' \<Longrightarrow> verdict M submit test ws r"
| checker_error: "ran_to M submit test ext ''OK'' ws \<Longrightarrow> dget test ''checker'' \<noteq> None \<Longrightarrow> c \<noteq> 0 \<Longrightarrow>
    verdict M submit test (ws @ checker_built M test c) ''INT''"
| wrong_answer: "ran_to M submit test ext ''OK'' ws \<Longrightarrow> c \<noteq> 0 \<Longrightarrow>
    verdict M submit test (ws @ checker_built M test 0 @ checked M test c) ''ANS''"
| bad_language: "ran_to M submit test ext ''OK'' ws \<Longrightarrow> \<not> language_allowed test ext \<Longrightarrow>
    verdict M submit test (ws @ checker_built M test 0 @ checked M test 0) ''LANG''"
| accepted: "ran_to M submit test ext ''OK'' ws \<Longrightarrow> language_allowed test ext \<Longrightarrow>
    verdict M submit test (ws @ checker_built M test 0 @ checked M test 0) ''OK''"

inductive_cases verdict_OK_E: "verdict M submit test ws ''OK''"

text \<open>
  \<open>ends_with st V f x\<close>: where \<open>f\<close> ends, the status is one of \<open>V\<close> for the work done; where it raises, it is one of those or
  the one before.
\<close>

definition ends_with :: "('e \<Rightarrow> jattr option) \<Rightarrow> (deed list \<Rightarrow> string \<Rightarrow> bool) \<Rightarrow> ('e \<times> deed list \<Rightarrow> unit outcome \<times> 'e \<times> deed list)
    \<Rightarrow> 'e \<times> deed list \<Rightarrow> bool" where
  "ends_with st V f x \<longleftrightarrow>
     (case f x of
        (Ok _, (e1, l1)) \<Rightarrow> \<exists>v. V (work l1) v \<and> st e1 = Some (plain v)
      | (Raise _, (e1, l1)) \<Rightarrow> st e1 = st (fst x) \<or> (\<exists>v. V (work l1) v \<and> st e1 = Some (plain v)))"

lemma ends_with_step:
  assumes "st (fst (snd (f x))) = st (fst x)"
    and "\<And>y x1. f x = (Ok y, x1) \<Longrightarrow> ends_with st V (g y) x1"
  shows "ends_with st V (and_then f g) x"
proof (cases "f x" rule: prod.exhaust)
  case (Pair r x1)
  show ?thesis
  proof (cases r)
    case (Ok y)
    have same: "st (fst x1) = st (fst x)" using Pair assms(1) by simp
    have "ends_with st V (g y) x1" using assms(2) Pair Ok by simp
    then show ?thesis unfolding ends_with_def and_then_def Pair Ok same by (simp add: same cong: outcome.case_cong)
  next
    case (Raise y)
    with Pair assms(1) show ?thesis by (cases x1) (simp add: ends_with_def and_then_def)
  qed
qed

lemma ends_with_raise: "ends_with st V (lift (Raise x)) y"
  by (cases y) (simp add: ends_with_def lift_def)

text \<open>What a step that ends adds to the work.\<close>

lemma log_get: "get_file (logged M) cmd n p x = (Ok y, x1) \<Longrightarrow> cmd \<noteq> ''SETSTRING'' \<Longrightarrow> cmd \<noteq> ''SETBLOB'' \<Longrightarrow>
    work (snd x1) = work (snd x) @ [got cmd n p]"
  by (cases x) (auto simp: get_file_def send_def logged_def got_def outcome_simps split: prod.splits)

lemma log_send: "send (logged M) cmd args x = (Ok y, x1) \<Longrightarrow>
    work (snd x1) = work (snd x) @ (if is_work (Said cmd args (Ok ())) then [Said cmd args (Ok ())] else [])"
  by (cases x) (auto simp: send_def logged_def outcome_simps split: prod.splits)

lemma log_set: "set_text (logged M) n v x = (r, x1) \<Longrightarrow> work (snd x1) = work (snd x)"
    "set_file (logged M) n p x = (r, x1) \<Longrightarrow> work (snd x1) = work (snd x)"
  by (cases x; auto simp: set_text_def set_file_def send_def logged_def split: prod.splits)+

lemma log_call: "mc_call (logged M) line x = (Ok c, x1) \<Longrightarrow> work (snd x1) = work (snd x) @ [Called line (Ok c)]"
  by (cases x) (auto simp: logged_def split: prod.splits)

lemma log_popen: "mc_popen (logged M) line x = (Ok c, x1) \<Longrightarrow> work (snd x1) = work (snd x) @ [Piped line (Ok c)]"
  by (cases x) (auto simp: logged_def split: prod.splits)

lemma log_ask: "ask_attrs (logged M) cmd x = (Ok a, x1) \<Longrightarrow> cmd \<noteq> ''SETSTRING'' \<Longrightarrow> cmd \<noteq> ''SETBLOB'' \<Longrightarrow>
    work (snd x1) = work (snd x) @ [Said cmd [] (Ok ())]"
  by (cases x) (auto simp: ask_attrs_def logged_def split: prod.splits outcome.splits answer.splits)

lemma log_lift: "lift r x = (Ok y, x1) \<Longrightarrow> r = Ok y \<and> x1 = x"
  by (simp add: lift_def)

lemma and_then_OkE:
  assumes "and_then f g x = (Ok y, x2)"
  obtains z x1 where "f x = (Ok z, x1)" and "g z x1 = (Ok y, x2)"
  using assms by (auto simp: and_then_def split: prod.splits outcome.splits)

lemma log_stats: "set_stats (logged M) stats x = (Ok y, x1) \<Longrightarrow> work (snd x1) = work (snd x)"
  unfolding set_stats_def by (elim and_then_OkE) (auto dest!: log_set log_lift)

definition names_status :: "string \<Rightarrow> jargs \<Rightarrow> bool" where
  "names_status cmd args \<longleftrightarrow> (cmd = ''SETSTRING'' \<or> cmd = ''SETBLOB'') \<and> dget args ''name'' = Some ''status''"

locale judge_link =
  fixes M :: "'e machine"
    and st :: "'e \<Rightarrow> jattr option"
    and sub :: "'e \<Rightarrow> jattrs"
    and tst :: "'e \<Rightarrow> jattrs"
  assumes says: "mc_comm M ''SETSTRING'' [(''name'', ''status''), (''value'', v)] True e = (r, e1) \<Longrightarrow>
      st e1 = Some (plain v) \<or> (\<exists>x. r = Raise x) \<and> st e1 = st e"
    and quiet: "\<not> names_status cmd args \<Longrightarrow> st (snd (mc_comm M cmd args check e)) = st e"
    and call_quiet: "st (snd (mc_call M cmd_line e)) = st e"
    and popen_quiet: "st (snd (mc_popen M cmd_line e)) = st e"
    and lists_submit: "mc_comm M ''GETSUBMIT'' [] False e = (Ok (Listing l), e1) \<Longrightarrow> l = sub e \<and> tst e1 = tst e"
    and lists_test: "mc_comm M ''GETTEST'' [] False e = (Ok (Listing l), e1) \<Longrightarrow> l = tst e"
begin

lemma send_quiet: "\<not> names_status cmd args \<Longrightarrow> st (fst (snd (send (logged M) cmd args x))) = st (fst x)"
  using quiet [of cmd args True "fst x"] by (cases x) (auto simp: send_def logged_def split: prod.split)

lemma set_text_quiet: "n \<noteq> ''status'' \<Longrightarrow> st (fst (snd (set_text (logged M) n v x))) = st (fst x)"
  by (simp add: set_text_def send_quiet names_status_def)

lemma set_file_quiet: "n \<noteq> ''status'' \<Longrightarrow> st (fst (snd (set_file (logged M) n p x))) = st (fst x)"
  by (simp add: set_file_def send_quiet names_status_def)

lemma get_file_quiet: "cmd = ''GETTESTBLOB'' \<or> cmd = ''GETSUBMITBLOB'' \<Longrightarrow> st (fst (snd (get_file (logged M) cmd n p x))) = st (fst x)"
  by (auto simp: get_file_def send_quiet names_status_def)

lemma ask_attrs_quiet: "cmd = ''GETTEST'' \<or> cmd = ''GETSUBMIT'' \<Longrightarrow> st (fst (snd (ask_attrs (logged M) cmd x))) = st (fst x)"
  using quiet [of cmd "[]" False "fst x"]
  by (cases x) (auto simp: ask_attrs_def logged_def names_status_def split: prod.split outcome.split answer.split)

lemma lift_quiet: "st (fst (snd (lift r x))) = st (fst x)"
  by (simp add: lift_def)

lemma logged_call_quiet: "st (fst (snd (mc_call (logged M) line x))) = st (fst x)"
  using call_quiet [of line "fst x"] by (cases x) (auto simp: logged_def split: prod.split)

lemma logged_popen_quiet: "st (fst (snd (mc_popen (logged M) line x))) = st (fst x)"
  using popen_quiet [of line "fst x"] by (cases x) (auto simp: logged_def split: prod.split)

lemma and_then_quiet:
  assumes one: "\<And>x. st (fst (snd (f x))) = st (fst x)" and two: "\<And>y x. st (fst (snd (g y x))) = st (fst x)"
  shows "st (fst (snd (and_then f g x))) = st (fst x)"
proof -
  obtain r x1 where f: "f x = (r, x1)" by (rule prod.exhaust)
  with one [of x] have "st (fst x1) = st (fst x)" by simp
  with f two show ?thesis by (cases r) (simp_all add: and_then_def)
qed

lemmas quiet_steps = set_text_quiet set_file_quiet get_file_quiet ask_attrs_quiet lift_quiet logged_call_quiet logged_popen_quiet

lemma set_stats_quiet: "st (fst (snd (set_stats (logged M) stats x))) = st (fst x)"
  unfolding set_stats_def by (intro and_then_quiet) (simp_all add: quiet_steps)

lemma ends_status: "V (work (snd x)) v \<Longrightarrow> ends_with st V (set_text (logged M) ''status'' v) x"
  using says [of v "fst x"]
  by (cases x) (fastforce simp: ends_with_def set_text_def send_def logged_def split: prod.split outcome.split)

lemma check_languages_ends:
  assumes "language_allowed test ext \<Longrightarrow> V (work (snd x)) ''OK''" and "\<not> language_allowed test ext \<Longrightarrow> V (work (snd x)) ''LANG''"
  shows "ends_with st V (check_languages (logged M) test ext) x"
  using assms by (auto simp: check_languages_def language_allowed_def intro!: ends_status split: option.split if_splits)

lemma check_output_ends:
  assumes ran: "ran_to M submit test ext ''OK'' ws" and log: "work (snd x) = ws @ checker_built M test 0"
  shows "ends_with st (verdict M submit test) (check_output (logged M) test ext) x"
  unfolding check_output_def Let_def logged_simps
proof (intro ends_with_step)
  fix y x1 c x2 z x3
  let ?hint = "dget test ''hint'' \<noteq> None"
  assume hint: "(if ?hint then get_file (logged M) ''GETTESTBLOB'' ''hint'' ''/tmp/data.hint'' else lift (Ok ())) x = (Ok y, x1)"
    and call: "mc_call (logged M) (checker_run M (dget test ''checker'' \<noteq> None) (if ?hint then ''/tmp/data.hint'' else ''/dev/null'')) x1 = (Ok c, x2)"
    and set: "set_file (logged M) ''check_log'' ''/tmp/check.log'' x2 = (Ok z, x3)"
  have "work (snd x1) = work (snd x) @ (if ?hint then [got ''GETTESTBLOB'' ''hint'' ''/tmp/data.hint''] else [])"
    using hint by (auto dest: log_get log_lift split: if_splits)
  then have "work (snd x3) = ws @ checker_built M test 0 @ checked M test c"
    using log_call [OF call] log_set(2) [OF set] log by (simp add: checked_def Let_def)
  then show "ends_with st (verdict M submit test)
      (if c \<noteq> 0 then set_text (logged M) ''status'' ''ANS'' else check_languages (logged M) test ext) x3"
    using verdict.wrong_answer [OF ran] verdict.bad_language [OF ran] verdict.accepted [OF ran]
    by (auto intro: ends_status check_languages_ends)
qed (simp_all add: quiet_steps)

lemma compile_checker_ends:
  assumes ran: "ran_to M submit test ext ''OK'' (work (snd x))"
  shows "ends_with st (verdict M submit test) (compile_checker (logged M) test ext) x"
proof (cases "dget test ''checker''")
  case None
  then show ?thesis using check_output_ends [OF ran] by (simp add: compile_checker_def checker_built_def)
next
  case (Some a)
  then have has: "(dget test ''checker'' = None) = False" by simp
  show ?thesis
    unfolding compile_checker_def logged_simps has if_False
  proof (intro ends_with_step)
    fix y x1 c x2
    assume get: "get_file (logged M) ''GETTESTBLOB'' ''checker'' ''/tmp/checker.cpp'' x = (Ok y, x1)"
      and call: "mc_call (logged M) (checker_compile_run M) x1 = (Ok c, x2)"
    have log: "work (snd x2) = work (snd x) @ checker_built M test c"
      using log_get [OF get] log_call [OF call] Some by (simp add: checker_built_def)
    show "ends_with st (verdict M submit test)
        (if c \<noteq> 0 then and_then (set_file (logged M) ''check_log'' ''/tmp/check.log'') (\<lambda>_. set_text (logged M) ''status'' ''INT'')
         else check_output (logged M) test ext) x2"
      using verdict.checker_error [OF ran, of c] check_output_ends [OF ran, of x2] log Some
      by (auto intro!: ends_with_step ends_status simp: quiet_steps dest!: log_set)
  qed (simp_all add: quiet_steps)
qed

lemma run_solution_ends:
  assumes comp: "compiled M submit ext (work (snd x))"
    and time: "bind_ok (value_of test ''time'') (parse_time M) = Ok t"
    and memory: "bind_ok (value_of test ''memory'') (parse_memory M) = Ok m"
  shows "ends_with st (verdict M submit test) (run_solution (logged M) test ext t m) x"
  unfolding run_solution_def logged_simps
proof (intro ends_with_step)
  fix y x1 out x2
  assume get: "get_file (logged M) ''GETTESTBLOB'' ''input'' ''/tmp/data.in'' x = (Ok y, x1)"
    and popen: "mc_popen (logged M) (execute_run M t m) x1 = (Ok out, x2)"
  show "ends_with st (verdict M submit test)
      (case text_lines out of [] \<Rightarrow> lift (Raise IndexError)
       | ret # ls \<Rightarrow> and_then (set_stats (logged M) (read_stats ls []))
           (\<lambda>_. if ret \<noteq> ''OK'' then set_text (logged M) ''status'' ret else compile_checker (logged M) test ext)) x2"
  proof (cases "text_lines out")
    case (Cons r ls)
    have "executed M test r (Piped (execute_run M t m) (Ok out))"
      using time memory Cons by (auto simp: executed_def)
    then have ran: "ran_to M submit test ext r (work (snd x2))"
      using comp log_get [OF get] log_popen [OF popen] by (auto simp: ran_to_def)
    have end_of_run: "ends_with st (verdict M submit test)
        (if r \<noteq> ''OK'' then set_text (logged M) ''status'' r else compile_checker (logged M) test ext) x3"
      if "set_stats (logged M) stats x2 = (Ok z, x3)" for stats z x3
      using ran log_stats [OF that] compile_checker_ends [of submit test ext x3] verdict.bad_run [OF ran]
      by (auto intro: ends_status)
    show ?thesis
      unfolding Cons list.case by (rule ends_with_step [OF set_stats_quiet]) (rule end_of_run)
  qed (simp add: ends_with_raise)
qed (simp_all add: quiet_steps)

lemma compile_solution_ends:
  assumes name: "filename_of submit = Ok f" and lang: "language_of (file_ext f) = Some lang"
    and limits: "bind_ok (value_of test ''time'') (parse_time M) = Ok t"
      "bind_ok (value_of test ''memory'') (parse_memory M) = Ok m"
    and log: "work (snd x) = asked"
  shows "ends_with st (verdict M submit test) (compile_solution (logged M) test lang t m) x"
proof (cases lang)
  case (fields ext source compiler)
  show ?thesis
    unfolding compile_solution_def fields Let_def prod.case logged_simps
  proof (intro ends_with_step)
    fix y x1 z x2 c x3 u x4
    assume jail: "send (logged M) ''CREATEJAIL'' [(''path'', ''/jail''), (''template'', ''judge'')] x = (Ok y, x1)"
      and get: "get_file (logged M) ''GETSUBMITBLOB'' ''content'' (path_join ''/jail/runner'' source) x1 = (Ok z, x2)"
      and call: "mc_call (logged M) (compile_run M compiler) x2 = (Ok c, x3)"
      and set: "set_file (logged M) ''compile_log'' ''/tmp/compile.log'' x3 = (Ok u, x4)"
    have w: "work (snd x4) = prepared_source source @ [Called (compile_run M compiler) (Ok c)]"
      using log_send [OF jail] log_get [OF get] log_call [OF call] log_set(2) [OF set] log by (simp add: prepared_source_def)
    then show "ends_with st (verdict M submit test)
        (if c \<noteq> 0 then set_text (logged M) ''status'' ''CME'' else run_solution (logged M) test ext t m) x4"
      using verdict.compile_error [OF name, of ext source compiler c M test] run_solution_ends [OF _ limits, of submit ext x4] name lang fields
      by (auto intro!: ends_status simp: compiled_def)
  qed (simp_all add: quiet_steps send_quiet names_status_def)
qed

lemma ask_attrs_Ok: "ask_attrs M cmd e = (Ok l, e1) \<Longrightarrow> mc_comm M cmd [] False e = (Ok (Listing l), e1)"
  by (auto simp: ask_attrs_def split: prod.splits outcome.splits answer.splits)

text \<open>The beginning of a judge: the two questions and the limits.\<close>

lemma asking:
  assumes "ask_attrs (logged M) ''GETSUBMIT'' (e, []) = (Ok submit, x1)" "ask_attrs (logged M) ''GETTEST'' x1 = (Ok test, x2)"
  shows "submit = sub e" and "test = tst e" and "work (snd x2) = asked"
proof -
  obtain l1 where one: "ask_attrs M ''GETSUBMIT'' e = (Ok submit, fst x1)" "x1 = (fst x1, l1)"
    using assms(1) shadows_ask [of M "''GETSUBMIT''"] unfolding shadows_def by (metis fst_conv prod.collapse snd_conv)
  have two: "ask_attrs M ''GETTEST'' (fst x1) = (Ok test, fst x2)"
    using assms(2) one(2) shadows_ask [of M "''GETTEST''"] unfolding shadows_def by (metis fst_conv prod.collapse snd_conv)
  show "submit = sub e" "test = tst e"
    using lists_submit [OF ask_attrs_Ok [OF one(1)]] lists_test [OF ask_attrs_Ok [OF two]] by simp_all
  show "work (snd x2) = asked" using log_ask [OF assms(1)] log_ask [OF assms(2)] by (simp add: asked_def)
qed

theorem simple_judge_ends: "ends_with st (verdict M (sub e) (tst e)) (simple_judge (logged M)) (e, [])"
  unfolding simple_judge_def logged_simps
proof (intro ends_with_step)
  fix submit x1 test x2 f x3 t x4 m x5
  assume questions: "ask_attrs (logged M) ''GETSUBMIT'' (e, []) = (Ok submit, x1)" "ask_attrs (logged M) ''GETTEST'' x1 = (Ok test, x2)"
    and lifts: "lift (filename_of submit) x2 = (Ok f, x3)" "lift (bind_ok (value_of test ''time'') (parse_time M)) x3 = (Ok t, x4)"
      "lift (bind_ok (value_of test ''memory'') (parse_memory M)) x4 = (Ok m, x5)"
  note attrs = asking [OF questions]
  have same: "filename_of submit = Ok f" "bind_ok (value_of test ''time'') (parse_time M) = Ok t"
    "bind_ok (value_of test ''memory'') (parse_memory M) = Ok m" "x5 = x2"
    using lifts by (auto dest!: log_lift)
  show "ends_with st (verdict M (sub e) (tst e))
      (case language_of (file_ext f) of None \<Rightarrow> set_text (logged M) ''status'' ''EXT''
       | Some lang \<Rightarrow> compile_solution (logged M) test lang t m) x5"
    unfolding attrs(1,2) [symmetric]
    using verdict.bad_extension [OF same(1), of M test] compile_solution_ends [OF same(1) _ same(2,3), of _ x5] attrs(3) same(4)
    by (auto intro: ends_status split: option.split)
qed (simp_all add: quiet_steps)

end

subsection \<open>The controller keeps the laws\<close>

record 'm programs =
  pg_call :: "string list \<Rightarrow> 'm \<Rightarrow> int outcome \<times> 'm"
  pg_popen :: "string list \<Rightarrow> 'm \<Rightarrow> string outcome \<times> 'm"
  pg_millis :: "string \<Rightarrow> string \<Rightarrow> int outcome"
  pg_bytes :: "int \<Rightarrow> string \<Rightarrow> int outcome"
  pg_seconds :: "string \<Rightarrow> string outcome"
  pg_longer :: "int \<Rightarrow> int"
  pg_host :: string
  pg_port :: string

text \<open>The program's connection leads to the controller; the processes it starts change the machine.\<close>

definition judge_machine :: "'m host \<Rightarrow> 'm programs \<Rightarrow> 'm control machine" where
  "judge_machine H P =
     \<lparr>mc_comm = communicate H, mc_call = (\<lambda>l. on_machine (pg_call P l)), mc_popen = (\<lambda>l. on_machine (pg_popen P l)),
      mc_millis = pg_millis P, mc_bytes = pg_bytes P, mc_seconds = pg_seconds P, mc_longer = pg_longer P,
      mc_host = pg_host P, mc_port = pg_port P\<rparr>"

definition status_of :: "'m control \<Rightarrow> jattr option" where
  "status_of c = dget (jc_result c) ''status''"

lemma on_machine_keeps:
  "jc_result (snd (on_machine f c)) = jc_result c \<and> jc_submit (snd (on_machine f c)) = jc_submit c
    \<and> jc_test (snd (on_machine f c)) = jc_test c"
  by (simp add: on_machine_def split: prod.split)

lemma on_machineD:
  "on_machine f c = (r, c1) \<Longrightarrow> jc_result c1 = jc_result c \<and> jc_submit c1 = jc_submit c \<and> jc_test c1 = jc_test c"
  using on_machine_keeps [of f c] by simp

lemma get_blob_keeps: "jc_result (snd (get_blob H attrs args c)) = jc_result c"
  by (auto simp: get_blob_def split: outcome.split prod.split dest: on_machineD)

lemma create_jail_keeps: "jc_result (snd (create_jail H args c)) = jc_result c"
  by (auto simp: create_jail_def split: outcome.split prod.split dest: on_machineD)

lemma set_string_other:
  "dget args ''name'' \<noteq> Some ''status'' \<Longrightarrow> status_of (snd (set_string args c)) = status_of c"
  by (auto simp: set_string_def status_of_def need_def outcome_simps split: outcome.split option.splits)

lemma set_blob_other:
  "dget args ''name'' \<noteq> Some ''status'' \<Longrightarrow> status_of (snd (set_blob H args c)) = status_of c"
  by (auto simp: set_blob_def status_of_def need_def Let_def split: outcome.split option.splits prod.split dest: on_machineD)

lemma handle_cmd_quiet: "\<not> names_status cmd args \<Longrightarrow> status_of (snd (handle_cmd H cmd args c)) = status_of c"
  using set_string_other [of args c] set_blob_other [of args H c] get_blob_keeps [of H _ args c]
    create_jail_keeps [of H args c]
  by (auto simp: handle_cmd_def names_status_def status_of_def split: prod.split dest: on_machineD)

lemma communicate_quiet: "\<not> names_status cmd args \<Longrightarrow> status_of (snd (communicate H cmd args check c)) = status_of c"
  using handle_cmd_quiet [of cmd args H c]
  by (auto simp: communicate_def Let_def split: prod.split outcome.split answer.split if_splits)

lemma communicate_says:
  "communicate H ''SETSTRING'' [(''name'', ''status''), (''value'', v)] True c = (r, c1) \<Longrightarrow>
     status_of c1 = Some (plain v) \<or> (\<exists>x. r = Raise x) \<and> status_of c1 = status_of c"
  by (auto simp: communicate_def handle_cmd_def set_string_def need_def status_of_def plain_def
      Let_def done_reply_def split: prod.splits if_splits)

lemma communicate_lists:
  "communicate H ''GETSUBMIT'' [] False c = (Ok (Listing l), c1) \<Longrightarrow> l = listing (jc_submit c) \<and> c1 = c"
  "communicate H ''GETTEST'' [] False c = (Ok (Listing l), c1) \<Longrightarrow> l = listing (jc_test c)"
  by (auto simp: communicate_def handle_cmd_def Let_def split: prod.splits if_splits)

interpretation controller: judge_link "judge_machine H P" status_of "\<lambda>c. listing (jc_submit c)" "\<lambda>c. listing (jc_test c)"
  for H :: "'m host" and P :: "'m programs"
proof (unfold_locales, goal_cases)
  case (1 v e r e1)
  then show ?case by (simp add: judge_machine_def communicate_says)
next
  case (2 cmd args check e)
  then show ?case by (simp add: judge_machine_def communicate_quiet)
next
  case (3 l e)
  show ?case by (simp add: judge_machine_def status_of_def on_machine_keeps)
next
  case (4 l e)
  show ?case by (simp add: judge_machine_def status_of_def on_machine_keeps)
next
  case (5 e l e1)
  then show ?case using communicate_lists(1) [of H e l e1] by (simp add: judge_machine_def)
next
  case (6 e l e1)
  then show ?case using communicate_lists(2) [of H e l e1] by (simp add: judge_machine_def)
qed

subsection \<open>What is reported\<close>

text \<open>
  \<open>je_run\<close> with a judge program in the jail: setting up may raise; what the program returns is not looked at.
\<close>

definition run_judge :: "('m control \<Rightarrow> 'a outcome \<times> 'm control) \<Rightarrow> ('m \<Rightarrow> unit outcome \<times> 'm) \<Rightarrow> 'm control \<Rightarrow> unit outcome \<times> 'm control" where
  "run_judge judge prepare = and_then (on_machine prepare) (\<lambda>_ c. (Ok (), snd (judge c)))"

abbreviation run_program :: "('m \<Rightarrow> unit outcome \<times> 'm) \<Rightarrow> 'm control machine \<Rightarrow> 'm control \<Rightarrow> unit outcome \<times> 'm control" where
  "run_program prepare M \<equiv> run_judge (simple_judge M) prepare"

lemma run_result_status:
  "\<exists>a. dget (run_result res) ''status'' = Some a \<and> (dget res ''status'' = Some a \<or> dget res ''status'' = None \<and> a = plain ''INT'')"
  by (cases "dget res ''status''") (auto simp: run_result_def simp flip: dget_None_iff)

text \<open>The log of the program in a run of the jail.\<close>

definition jail_log :: "('m \<Rightarrow> unit outcome \<times> 'm) \<Rightarrow> ('m control \<times> deed list \<Rightarrow> 'a outcome \<times> 'm control \<times> deed list)
    \<Rightarrow> jattrs \<Rightarrow> jattrs \<Rightarrow> 'm \<Rightarrow> deed list" where
  "jail_log prepare judge sd td m =
     snd (snd (judge (snd (on_machine prepare \<lparr>jc_submit = sd, jc_test = td, jc_result = [], jc_machine = m\<rparr>), [])))"

lemma jail_run_ends:
  assumes sh: "shadows logged_judge judge"
    and ends: "\<And>c. ends_with status_of (V (listing (jc_submit c)) (listing (jc_test c))) logged_judge (c, [])"
    and run: "jail_run (E\<lparr>je_run := run_judge judge prepare\<rparr>) sd td m = (Ok res, m1)"
  shows "\<exists>v. dget res ''status'' = Some (plain v)
    \<and> (v = ''INT'' \<or> V (listing sd) (listing td) (work (jail_log prepare logged_judge sd td m)) v)"
proof -
  define c0 where "c0 = \<lparr>jc_submit = sd, jc_test = td, jc_result = [], jc_machine = m\<rparr>"
  obtain c1 where prep: "on_machine prepare c0 = (Ok (), c1)"
    and res: "res = run_result (jc_result (snd (judge c1)))"
    using run by (auto simp: jail_run_def run_judge_def and_then_def c0_def split: prod.splits outcome.splits)
  have c1: "jc_submit c1 = sd" "jc_test c1 = td" "status_of c1 = None"
    using on_machineD [OF prep] by (simp_all add: c0_def status_of_def)
  obtain r c2 where c2: "judge c1 = (r, c2)" by fastforce
  obtain l where l: "logged_judge (c1, []) = (r, c2, l)" using shadows_run [OF sh c2] .
  have log: "jail_log prepare logged_judge sd td m = l" by (simp add: jail_log_def c0_def [symmetric] prep l)
  have "status_of c2 = None \<or> (\<exists>v. V (listing sd) (listing td) (work l) v \<and> status_of c2 = Some (plain v))"
    using ends [of c1] c1 l by (auto simp: ends_with_def split: outcome.splits)
  with run_result_status [of "jc_result c2"] res c2 log show ?thesis by (auto simp: status_of_def)
qed

lemmas jail_run_status = jail_run_ends [OF shadows_simple_judge controller.simple_judge_ends]

end
