(* ===== verification/Judge_Props.thy ===== *)
theory Judge_Props
  imports Judge_Verdict
begin

section \<open>What a judging machine reports\<close>

text \<open>
  The properties of the simple judge under its controller, and a sample on which they are tried: the judging of a program
  that compiles, runs within its limits and answers what the hint says.
\<close>

definition idle_host :: "unit host" where
  "idle_host = \<lparr>h_root = ''/jail/root'', h_fetch = (\<lambda>_ _ _ m. (Ok (), m)), h_store = (\<lambda>_ m. (Ok ''hash'', m)),
     h_jail = (\<lambda>_ _ m. (Ok (), m)), h_cgroup = (\<lambda>_ _ m. (Ok [(''res'', ''OK'')], m)), h_lost = (\<lambda>_ _ _. (False, False))\<rparr>"

definition good_programs :: "unit programs" where
  "good_programs = \<lparr>pg_call = (\<lambda>_ m. (Ok 0, m)),
     pg_popen = (\<lambda>_ m. (Ok (''OK'' @ [newline] @ ''time:12'' @ [newline] @ ''cpu: 11'' @ [newline] @ ''Memory: 4096'' @ [newline]), m)),
     pg_millis = (\<lambda>_ _. Ok 10000), pg_bytes = (\<lambda>_ _. Ok 268435456), pg_seconds = (\<lambda>s. Ok ''0.012''),
     pg_longer = (\<lambda>t. t + t div 2), pg_host = ''192.168.100.101'', pg_port = ''8765''\<rparr>"

definition sample_submit :: jattrs where
  "sample_submit = [(''content'', \<lparr>ja_is_blob = True, ja_value = ''cafe'', ja_filename = Some ''sum.CPP''\<rparr>)]"

definition sample_test :: jattrs where
  "sample_test = [(''time'', plain ''10s''), (''memory'', plain ''256MB''), (''languages'', plain ''c, CPP''),
     (''input'', \<lparr>ja_is_blob = True, ja_value = ''f00d'', ja_filename = None\<rparr>)]"

definition idle_env :: "unit judge_env" where
  "idle_env = \<lparr>je_create = (\<lambda>_ m. (Ok (), m)), je_install = (\<lambda>_ m. (Ok (), m)), je_run = (\<lambda>c. (Ok (), c)),
     je_report = (\<lambda>_ _ m. (Ok (), m)), je_destroy = (\<lambda>m. (Ok (), m))\<rparr>"

text \<open>What the program computes on the sample, piece by piece.\<close>

lemma sample_texts:
  "strip ''10s'' = ''10s''" "lower ''10s'' = ''10s''" "strip ''256MB'' = ''256MB''" "lower ''256MB'' = ''256mb''"
  "strip '' CPP'' = ''CPP''" "strip ''c'' = ''c''" "lower ''CPP'' = ''cpp''" "lower ''c'' = ''c''"
  by code_simp+

lemma sample_limits:
  "parse_time (judge_machine H good_programs) ''10s'' = Ok 10000"
  "parse_memory (judge_machine H good_programs) ''256MB'' = Ok 268435456"
  by (simp_all add: parse_time_def parse_memory_def sample_texts judge_machine_def good_programs_def)

lemma sample_output:
  "text_lines (''OK'' @ [newline] @ ''time:12'' @ [newline] @ ''cpu: 11'' @ [newline] @ ''Memory: 4096'' @ [newline])
     = [''OK'', ''time:12'', ''cpu: 11'', ''Memory: 4096'']"
  by (simp add: text_lines_def)

lemma sample_stats:
  "read_stats [''time:12'', ''cpu: 11'', ''Memory: 4096''] [] = [(''time'', ''12''), (''cpu'', ''11''), (''memory'', ''4096'')]"
  by code_simp

lemma sample_numbers: "parse_int ''4096'' = Some 4096" "str_int 4096 = ''4096''"
  by code_simp+

lemma sample_names: "file_ext ''sum.CPP'' = ''cpp''" "language_allowed (listing sample_test) ''cpp''"
  by (simp_all add: file_ext_def language_allowed_def listing_def oa_for_judge_def sample_test_def plain_def sample_texts)

lemma sample_basenames: "basename ''/jail/root/tmp/compile.log'' = ''compile.log''" "basename ''/jail/root/tmp/check.log'' = ''check.log''"
  by (simp_all add: basename_def)

lemma sample_paths: "jail_path ''/jail/root'' ''/tmp/compile.log'' = ''/jail/root/tmp/compile.log''"
  "jail_path ''/jail/root'' ''/tmp/check.log'' = ''/jail/root/tmp/check.log''"
  by code_simp+

lemma sample_set_text:
  "set_text (judge_machine idle_host P) n v c =
     (Ok (), c\<lparr>jc_result := dset n (plain v) (jc_result c)\<rparr>)"
  by (simp add: set_text_def send_def judge_machine_def communicate_def idle_host_def handle_cmd_def
    set_string_def need_def done_reply_def plain_def)

lemma sample_get_file:
  "cmd = ''GETTESTBLOB'' \<or> cmd = ''GETSUBMITBLOB'' \<Longrightarrow> get_file (judge_machine idle_host P) cmd n p c =
     (Ok (), c)"
  by (auto simp add: get_file_def send_def judge_machine_def communicate_def idle_host_def handle_cmd_def
    get_blob_def need_def done_reply_def on_machine_def)

lemma sample_set_file:
  "set_file (judge_machine idle_host P) n p c =
     (Ok (), c\<lparr>jc_result := dset n \<lparr>ja_is_blob = True, ja_value = ''hash'', ja_filename = Some (basename (jail_path ''/jail/root'' p))\<rparr> (jc_result c)\<rparr>)"
  by (auto simp add: set_file_def send_def judge_machine_def communicate_def idle_host_def handle_cmd_def
    set_blob_def need_def done_reply_def on_machine_def dget_def_val_def)

lemmas sample_steps = sample_set_text sample_get_file sample_set_file sample_limits sample_output sample_stats sample_numbers
  sample_names sample_basenames sample_paths

lemma sample_program:
  "mc_call (judge_machine H good_programs) l c = (Ok 0, c)"
  "mc_popen (judge_machine H good_programs) l c =
     (Ok (''OK'' @ [newline] @ ''time:12'' @ [newline] @ ''cpu: 11'' @ [newline] @ ''Memory: 4096'' @ [newline]), c)"
  "mc_seconds (judge_machine H good_programs) s = Ok ''0.012''"
  by (simp_all add: judge_machine_def good_programs_def on_machine_def)

lemma sample_asks:
  "ask_attrs (judge_machine idle_host P) ''GETSUBMIT'' c = (Ok (listing (jc_submit c)), c)"
  "ask_attrs (judge_machine idle_host P) ''GETTEST'' c = (Ok (listing (jc_test c)), c)"
  "send (judge_machine idle_host P) ''CREATEJAIL'' [(''path'', p), (''template'', t)] c = (Ok (), c)"
  by (simp_all add: ask_attrs_def send_def judge_machine_def communicate_def idle_host_def handle_cmd_def create_jail_def
      need_def done_reply_def on_machine_def)

lemma sample_set_stats:
  "set_stats (judge_machine idle_host good_programs) [(''time'', ''12''), (''cpu'', ''11''), (''memory'', ''4096'')] c =
     (Ok (), c\<lparr>jc_result := dset ''execute_memory'' (plain ''4096B'') (dset ''execute_time_cpu'' (plain ''0.012s'')
        (dset ''execute_time_real'' (plain ''0.012s'') (jc_result c)))\<rparr>)"
  by (simp add: set_stats_def and_then_def lift_def need_def sample_program sample_steps)

lemma sample_attributes:
  "filename_of (listing sample_submit) = Ok ''sum.CPP''"
  "dget (listing sample_test) ''checker'' = None" "dget (listing sample_test) ''hint'' = None"
  "value_of (listing sample_test) ''time'' = Ok ''10s''" "value_of (listing sample_test) ''memory'' = Ok ''256MB''"
  by (simp_all add: filename_of_def value_of_def listing_def oa_for_judge_def sample_submit_def sample_test_def plain_def)

lemma sample_languages:
  "check_languages M (listing sample_test) ''cpp'' = set_text M ''status'' ''OK''"
  using sample_names(2) by (auto simp: check_languages_def language_allowed_def split: option.split)

lemma sample_run_solution:
  "run_solution (judge_machine idle_host good_programs) (listing sample_test) ''cpp'' t m c =
     (Ok (), c\<lparr>jc_result := dset ''status'' (plain ''OK'') (dset ''check_log''
        \<lparr>ja_is_blob = True, ja_value = ''hash'', ja_filename = Some ''check.log''\<rparr>
        (dset ''execute_memory'' (plain ''4096B'') (dset ''execute_time_cpu'' (plain ''0.012s'')
          (dset ''execute_time_real'' (plain ''0.012s'') (jc_result c)))))\<rparr>)"
  by (simp add: run_solution_def and_then_def sample_program sample_steps [simplified] sample_set_stats compile_checker_def check_output_def
      sample_attributes sample_languages lift_def)

lemma sample_simple_judge:
  "simple_judge (judge_machine idle_host good_programs)
       \<lparr>jc_submit = sample_submit, jc_test = sample_test, jc_result = [], jc_machine = ()\<rparr> =
     (Ok (), \<lparr>jc_submit = sample_submit, jc_test = sample_test, jc_result =
         [(''compile_log'', \<lparr>ja_is_blob = True, ja_value = ''hash'', ja_filename = Some ''compile.log''\<rparr>),
          (''execute_time_real'', plain ''0.012s''), (''execute_time_cpu'', plain ''0.012s''), (''execute_memory'', plain ''4096B''),
          (''check_log'', \<lparr>ja_is_blob = True, ja_value = ''hash'', ja_filename = Some ''check.log''\<rparr>), (''status'', plain ''OK'')],
        jc_machine = ()\<rparr>)"
  by (simp add: and_then_def simple_judge_def sample_asks sample_attributes sample_steps sample_program lift_def
      language_of_def compile_solution_def sample_run_solution dset_def)

lemma sample_judging:
  "jail_run (idle_env\<lparr>je_run := run_program (\<lambda>m. (Ok (), m)) (judge_machine idle_host good_programs)\<rparr>) sample_submit sample_test () =
     (Ok [(''compile_log'', \<lparr>ja_is_blob = True, ja_value = ''hash'', ja_filename = Some ''compile.log''\<rparr>),
          (''execute_time_real'', plain ''0.012s''), (''execute_time_cpu'', plain ''0.012s''), (''execute_memory'', plain ''4096B''),
          (''check_log'', \<lparr>ja_is_blob = True, ja_value = ''hash'', ja_filename = Some ''check.log''\<rparr>), (''status'', plain ''OK'')], ())"
  by (simp add: jail_run_def run_judge_def and_then_def on_machine_def sample_simple_judge run_result_def dkeys_def idle_env_def)

subsection \<open>Properties\<close>

text \<open>
  C33 (judge_verdict): a run of the simple judge that ends without an exception leaves a status, and this status is the
  verdict on what the run did. Its log (the same run on the machine that logs) has, apart from the results set, exactly these
  steps, each without an exception: it asked for the submit and the test; EXT where it knows no language for the file name. It created the jail, fetched
  the submitted file into it and compiled it; CME where that failed. It fetched the input of the test and ran the solution with the
  limits of the test; the runner's word where that is not OK. It fetched and compiled the checker, if there is one; INT where that
  failed. It fetched the hint, if there is one, and ran the checker or the comparison; ANS where that refused, LANG where the
  language is not allowed, and OK otherwise.
\<close>

theorem judge_verdict:
  assumes "simple_judge (judge_machine H P) c = (Ok (), c1)"
  shows "\<exists>log v. simple_judge (logged (judge_machine H P)) (c, []) = (Ok (), c1, log) \<and> status_of c1 = Some (plain v)
    \<and> verdict (judge_machine H P) (listing (jc_submit c)) (listing (jc_test c)) (work log) v"
proof -
  obtain log where log: "simple_judge (logged (judge_machine H P)) (c, []) = (Ok (), c1, log)"
    using shadows_run [OF shadows_simple_judge assms] .
  with controller.simple_judge_ends [of H P c] show ?thesis by (auto simp: ends_with_def)
qed

theorem judge_verdict_witness:
  "\<exists>log v. status_of (snd (simple_judge (judge_machine idle_host good_programs)
         \<lparr>jc_submit = sample_submit, jc_test = sample_test, jc_result = [], jc_machine = ()\<rparr>)) = Some (plain v)
     \<and> verdict (judge_machine idle_host good_programs) (listing sample_submit) (listing sample_test) (work log) v
     \<and> got ''GETSUBMITBLOB'' ''content'' (path_join ''/jail/runner'' ''solution.cpp'') \<in> set (work log)"
proof -
  define c where "c = \<lparr>jc_submit = sample_submit, jc_test = sample_test, jc_result = [], jc_machine = ()\<rparr>"
  define c1 where "c1 = snd (simple_judge (judge_machine idle_host good_programs) c)"
  have "simple_judge (judge_machine idle_host good_programs) c = (Ok (), c1)"
    by (simp add: c1_def) (simp add: c_def sample_simple_judge)
  moreover have status: "status_of c1 = Some (plain ''OK'')"
    by (simp add: c1_def c_def sample_simple_judge status_of_def)
  ultimately obtain log where v: "verdict (judge_machine idle_host good_programs) (listing sample_submit) (listing sample_test) (work log) ''OK''"
    using judge_verdict [of idle_host good_programs c c1] by (auto simp: plain_def c_def)
  then obtain ws ext where "ran_to (judge_machine idle_host good_programs) (listing sample_submit) (listing sample_test) ext ''OK'' ws"
    and "set ws \<subseteq> set (work log)" by (rule verdict_OK_E) auto
  moreover from this(1) have "got ''GETSUBMITBLOB'' ''content'' (path_join ''/jail/runner'' ''solution.cpp'') \<in> set ws"
    by (auto simp: ran_to_def compiled_def sample_attributes sample_names language_of_def prepared_source_def)
  ultimately show ?thesis using v status unfolding c1_def c_def by blast
qed

text \<open>
  C34 (accepted_passed): a judging machine reports OK only after a run in which, in this order and with nothing else besides
  results being set, the submitted file was fetched into the jail and compiled, the input of the test was fetched, the solution ran
  under the limits of the test with OK as the runner's word, the checker, if the test has one, was fetched and compiled,
  the hint, if the test has one, was fetched, and the checker or the comparison accepted; and the language is an allowed one. Lost
  messages, failing commands and exceptions of the judge never make an OK.
\<close>

theorem accepted_passed:
  assumes "jail_run (E\<lparr>je_run := run_program prepare (judge_machine H P)\<rparr>) sd td m = (Ok res, m1)"
    and "dget res ''status'' = Some (plain ''OK'')"
  shows "\<exists>f ext src compiler d.
    filename_of (listing sd) = Ok f \<and> language_of (file_ext f) = Some (ext, src, compiler) \<and> language_allowed (listing td) ext
    \<and> executed (judge_machine H P) (listing td) ''OK'' d
    \<and> work (jail_log prepare (simple_judge (logged (judge_machine H P))) sd td m) =
        [Said ''GETSUBMIT'' [] (Ok ()), Said ''GETTEST'' [] (Ok ()),
         Said ''CREATEJAIL'' [(''path'', ''/jail''), (''template'', ''judge'')] (Ok ()),
         got ''GETSUBMITBLOB'' ''content'' (path_join ''/jail/runner'' src), Called (compile_run (judge_machine H P) compiler) (Ok 0),
         got ''GETTESTBLOB'' ''input'' ''/tmp/data.in'', d]
        @ checker_built (judge_machine H P) (listing td) 0 @ checked (judge_machine H P) (listing td) 0"
proof -
  have "verdict (judge_machine H P) (listing sd) (listing td) (work (jail_log prepare (simple_judge (logged (judge_machine H P))) sd td m)) ''OK''"
    using jail_run_status [OF assms(1)] assms(2) by (auto simp: plain_def)
  then show ?thesis
    by (rule verdict_OK_E) (auto simp: ran_to_def compiled_def prepared_source_def asked_def)
qed

theorem accepted_passed_witness:
  "\<exists>d. work (jail_log (\<lambda>m. (Ok (), m)) (simple_judge (logged (judge_machine idle_host good_programs))) sample_submit sample_test ()) =
        prepared_source ''solution.cpp'' @ [Called (compile_run (judge_machine idle_host good_programs)
           [''/usr/bin/g++'', ''-static'', ''-O2'', ''-Wall'', ''solution.cpp'', ''-osolution.x'']) (Ok 0), got ''GETTESTBLOB'' ''input'' ''/tmp/data.in'', d]
        @ checked (judge_machine idle_host good_programs) (listing sample_test) 0"
proof -
  have "dget [(''compile_log'', \<lparr>ja_is_blob = True, ja_value = ''hash'', ja_filename = Some ''compile.log''\<rparr>),
          (''execute_time_real'', plain ''0.012s''), (''execute_time_cpu'', plain ''0.012s''), (''execute_memory'', plain ''4096B''),
          (''check_log'', \<lparr>ja_is_blob = True, ja_value = ''hash'', ja_filename = Some ''check.log''\<rparr>), (''status'', plain ''OK'')] ''status''
      = Some (plain ''OK'')" by simp
  from accepted_passed [OF sample_judging this] show ?thesis
    by (auto simp: sample_attributes sample_names language_of_def prepared_source_def asked_def checker_built_def)
qed

end
