(* ===== verification/Load_Models.thy ===== *)
theory Load_Models
  imports Topsort
begin

section \<open>Loading the entity modules\<close>

text \<open>
  \<open>satori.core.models._load_models\<close>: the files of \<open>entities\<close> are run in one name space, in an order in which every name is
  provided before a module imports it from \<open>satori.core.models\<close>. What \<open>ast.parse\<close> finds in a file is a \<open>module\<close>: its
  code, the names it uses and the names it provides (sets).
\<close>

record 'c module =
  md_code :: 'c
  md_uses :: "string list"
  md_provides :: "string list"

fun note_names :: "'c \<Rightarrow> string list \<Rightarrow> (string, 'c) dict \<Rightarrow> (string, 'c) dict outcome" where
  "note_names code [] providers = Ok providers"
| "note_names code (n # ns) providers =
     (if dget providers n \<noteq> None then Raise (ImportError (''Two modules provide '' @ n))
      else note_names code ns (dset n code providers))"

fun note_providers :: "'c module list \<Rightarrow> (string, 'c) dict \<Rightarrow> (string, 'c) dict outcome" where
  "note_providers [] providers = Ok providers"
| "note_providers (m # ms) providers = bind_ok (note_names (md_code m) (md_provides m) providers) (note_providers ms)"

definition use_pair :: "(string, 'c) dict \<Rightarrow> 'c \<Rightarrow> string \<Rightarrow> ('c option \<times> 'c option) outcome" where
  "use_pair providers code u =
     (case dget providers u of None \<Rightarrow> Raise (ImportError (''No module provides '' @ u)) | Some p \<Rightarrow> Ok (Some p, Some code))"

text \<open>\<open>None\<close> comes before every module, so that a module without dependencies is in the result.\<close>

fun module_pairs :: "(string, 'c) dict \<Rightarrow> 'c module list \<Rightarrow> ('c option \<times> 'c option) list outcome" where
  "module_pairs providers [] = Ok []"
| "module_pairs providers (m # ms) =
     bind_ok (map_outcome (use_pair providers (md_code m)) (md_uses m)) (\<lambda>ps.
       map_ok (\<lambda>qs. ps @ (None, Some (md_code m)) # qs) (module_pairs providers ms))"

text \<open>The codes in the order in which they are executed; executing \<open>None\<close> would raise.\<close>

definition load_order :: "'c module list \<Rightarrow> 'c list outcome" where
  "load_order ms =
     bind_ok (note_providers ms []) (\<lambda>providers.
     bind_ok (module_pairs providers ms) (\<lambda>pairs.
     case topsort pairs of
       Raise CycleError \<Rightarrow> Raise (ImportError ''There is a cycle in module dependencies'')
     | Raise e \<Rightarrow> Raise e
     | Ok codes \<Rightarrow> map_outcome (\<lambda>c. case c of None \<Rightarrow> Raise TypeError | Some code \<Rightarrow> Ok code) (drop 1 codes)))"

subsection \<open>Providers\<close>

lemma note_names_Ok:
  "note_names code ns providers = Ok p \<Longrightarrow>
     (\<forall>n. dget p n = (if n \<in> set ns then Some code else dget providers n)) \<and> (\<forall>n \<in> set ns. dget providers n = None)"
proof (induction ns arbitrary: providers)
  case (Cons n ns)
  then have "dget providers n = None" and step: "note_names code ns (dset n code providers) = Ok p"
    by (auto split: if_splits)
  from Cons.IH [OF step] have look: "\<forall>k. dget p k = (if k \<in> set ns then Some code else dget (dset n code providers) k)"
    and fresh: "\<forall>k \<in> set ns. dget (dset n code providers) k = None" by auto
  from fresh have "\<forall>k \<in> set ns. k \<noteq> n \<and> dget providers k = None" by (auto split: if_splits)
  with look \<open>dget providers n = None\<close> show ?case by auto
qed simp

lemma note_providers_Ok:
  "note_providers ms providers = Ok p \<Longrightarrow>
     (\<forall>m \<in> set ms. \<forall>n \<in> set (md_provides m). dget p n = Some (md_code m)) \<and> (\<forall>n c. dget providers n = Some c \<longrightarrow> dget p n = Some c)"
proof (induction ms arbitrary: providers)
  case (Cons m ms)
  then obtain q where q: "note_names (md_code m) (md_provides m) providers = Ok q" and rest: "note_providers ms q = Ok p"
    by (auto simp: outcome_simps)
  from note_names_Ok [OF q] Cons.IH [OF rest] show ?case by (metis option.distinct(1) set_ConsD)
qed simp

lemma note_providers_range:
  "note_providers ms providers = Ok p \<Longrightarrow> dget p n = Some c \<Longrightarrow>
     (\<exists>m \<in> set ms. n \<in> set (md_provides m) \<and> c = md_code m) \<or> dget providers n = Some c"
proof (induction ms arbitrary: providers)
  case (Cons m ms)
  then obtain q where q: "note_names (md_code m) (md_provides m) providers = Ok q" and rest: "note_providers ms q = Ok p"
    by (auto simp: outcome_simps)
  from note_names_Ok [OF q] Cons.IH [OF rest Cons.prems(2)] show ?case by (auto split: if_splits)
qed simp

lemma map_outcome_set: "map_outcome f xs = Ok ys \<Longrightarrow> set ys = {y. \<exists>x \<in> set xs. f x = Ok y}"
proof (induction xs arbitrary: ys)
  case (Cons x xs)
  then obtain y zs where "f x = Ok y" "map_outcome f xs = Ok zs" "ys = y # zs" by (auto simp: outcome_simps)
  with Cons.IH [of zs] show ?case by auto
qed simp

lemma module_pairs_mem:
  "module_pairs providers ms = Ok ps \<Longrightarrow>
     x \<in> set ps \<longleftrightarrow> (\<exists>m \<in> set ms. x = (None, Some (md_code m))
       \<or> (\<exists>u \<in> set (md_uses m). \<exists>p. dget providers u = Some p \<and> x = (Some p, Some (md_code m))))"
proof (induction ms arbitrary: ps)
  case (Cons m ms)
  then obtain qs rs where q: "map_outcome (use_pair providers (md_code m)) (md_uses m) = Ok qs"
    and r: "module_pairs providers ms = Ok rs" and ps: "ps = qs @ (None, Some (md_code m)) # rs"
    by (auto simp: outcome_simps)
  have "x \<in> set qs \<longleftrightarrow> (\<exists>u \<in> set (md_uses m). \<exists>p. dget providers u = Some p \<and> x = (Some p, Some (md_code m)))"
    unfolding map_outcome_set [OF q] by (auto simp: use_pair_def split: option.splits)
  with Cons.IH [OF r] ps show ?case by auto
qed simp

text \<open>How many modules provide a name, and which imports there are.\<close>

definition provided :: "'c module list \<Rightarrow> string \<Rightarrow> nat" where
  "provided ms n = length (filter (\<lambda>m. n \<in> set (md_provides m)) ms)"

definition imports_of :: "'c module list \<Rightarrow> ('c \<times> 'c) set" where
  "imports_of ms = {(md_code p, md_code m) |p m. p \<in> set ms \<and> m \<in> set ms \<and> set (md_uses m) \<inter> set (md_provides p) \<noteq> {}}"

lemma provided_Cons: "provided (m # ms) n = (if n \<in> set (md_provides m) then Suc (provided ms n) else provided ms n)"
  by (simp add: provided_def)

lemma provided_0: "provided ms n = 0 \<longleftrightarrow> (\<forall>m \<in> set ms. n \<notin> set (md_provides m))"
  by (simp add: provided_def filter_empty_conv)

lemma note_names_Raise:
  "note_names code ns providers = Raise e \<Longrightarrow> distinct ns \<Longrightarrow>
     \<exists>n \<in> set ns. dget providers n \<noteq> None \<and> e = ImportError (''Two modules provide '' @ n)"
  by (induction code ns providers rule: note_names.induct) (auto split: if_splits)

lemma note_providers_Raise:
  "note_providers ms providers = Raise e \<Longrightarrow> \<forall>m \<in> set ms. distinct (md_provides m) \<Longrightarrow>
     \<exists>n. e = ImportError (''Two modules provide '' @ n) \<and> (if dget providers n = None then 2 else 1) \<le> provided ms n"
proof (induction ms arbitrary: providers)
  case (Cons m ms)
  show ?case
  proof (cases "note_names (md_code m) (md_provides m) providers")
    case (Raise x)
    with Cons.prems note_names_Raise [OF Raise] show ?thesis by (fastforce simp: provided_Cons)
  next
    case (Ok q)
    then obtain n where n: "e = ImportError (''Two modules provide '' @ n)" "(if dget q n = None then 2 else 1) \<le> provided ms n"
      using Cons.IH [of q] Cons.prems by auto
    then have "(if dget providers n = None then 2 else 1) \<le> provided (m # ms) n"
      using note_names_Ok [OF Ok] by (auto simp: provided_Cons split: if_splits)
    with n(1) show ?thesis by blast
  qed
qed simp

lemma note_providers_unique:
  "note_providers ms providers = Ok p \<Longrightarrow> provided ms n \<le> (if dget providers n = None then 1 else 0)"
proof (induction ms arbitrary: providers)
  case (Cons m ms)
  then obtain q where q: "note_names (md_code m) (md_provides m) providers = Ok q" and rest: "note_providers ms q = Ok p"
    by (auto simp: outcome_simps)
  from note_names_Ok [OF q] Cons.IH [OF rest] show ?case by (auto simp: provided_Cons split: if_splits)
qed (simp add: provided_def)

lemma map_outcome_Raise: "map_outcome f xs = Raise e \<Longrightarrow> \<exists>x \<in> set xs. f x = Raise e"
proof (induction xs)
  case (Cons x xs)
  then show ?case by (cases "f x"; cases "map_outcome f xs") auto
qed simp

lemma use_pairs_Raise:
  "map_outcome (use_pair providers code) us = Raise e \<Longrightarrow>
     \<exists>u \<in> set us. dget providers u = None \<and> e = ImportError (''No module provides '' @ u)"
  by (drule map_outcome_Raise) (auto simp: use_pair_def split: option.splits)

lemma use_pairs_Ok: "map_outcome (use_pair providers code) us = Ok ps \<Longrightarrow> u \<in> set us \<Longrightarrow> dget providers u \<noteq> None"
  by (induction us arbitrary: ps) (auto simp: use_pair_def outcome_simps split: option.splits)

lemma module_pairs_Raise:
  "module_pairs providers ms = Raise e \<Longrightarrow>
     \<exists>m \<in> set ms. \<exists>u \<in> set (md_uses m). dget providers u = None \<and> e = ImportError (''No module provides '' @ u)"
proof (induction ms)
  case (Cons m ms)
  then show ?case
    by (cases "map_outcome (use_pair providers (md_code m)) (md_uses m)"; cases "module_pairs providers ms")
      (auto dest: use_pairs_Raise)
qed simp

lemma module_pairs_all:
  "module_pairs providers ms = Ok ps \<Longrightarrow> m \<in> set ms \<Longrightarrow> u \<in> set (md_uses m) \<Longrightarrow> dget providers u \<noteq> None"
proof (induction ms arbitrary: ps)
  case (Cons m' ms)
  then obtain qs rs where "map_outcome (use_pair providers (md_code m')) (md_uses m') = Ok qs" "module_pairs providers ms = Ok rs"
    by (auto simp: outcome_simps)
  with Cons show ?case by (auto dest: use_pairs_Ok)
qed simp

lemma providers_None:
  assumes "note_providers ms [] = Ok providers"
  shows "dget providers u = None \<longleftrightarrow> provided ms u = 0"
proof
  assume "provided ms u = 0"
  then show "dget providers u = None"
    using note_providers_range [OF assms, of u] by (cases "dget providers u") (auto simp: provided_0)
qed (use note_providers_Ok [OF assms] in \<open>fastforce simp: provided_0\<close>)

text \<open>The pairs are the imports, and the artificial element before every module: this makes no new cycle.\<close>

lemma pairs_imports:
  assumes "note_providers ms [] = Ok providers" and "module_pairs providers ms = Ok pairs"
  shows "set pairs = {(None, Some (md_code m)) |m. m \<in> set ms} \<union> {(Some a, Some b) |a b. (a, b) \<in> imports_of ms}"
proof -
  have provider: "dget providers u = Some c \<longleftrightarrow> (\<exists>p \<in> set ms. u \<in> set (md_provides p) \<and> c = md_code p)" for u c
    using note_providers_Ok [OF assms(1)] note_providers_range [OF assms(1), of u c] by auto
  have mem: "x \<in> set pairs \<longleftrightarrow> (\<exists>m \<in> set ms. x = (None, Some (md_code m))
      \<or> (\<exists>u \<in> set (md_uses m). \<exists>p \<in> set ms. u \<in> set (md_provides p) \<and> x = (Some (md_code p), Some (md_code m))))" for x
    unfolding module_pairs_mem [OF assms(2)] provider by blast
  show ?thesis
  proof (rule set_eqI)
    fix x show "x \<in> set pairs \<longleftrightarrow> x \<in> {(None, Some (md_code m)) |m. m \<in> set ms} \<union> {(Some a, Some b) |a b. (a, b) \<in> imports_of ms}"
      unfolding mem imports_of_def by blast
  qed
qed

lemma acyclic_with_root: "acyclic ({(None, Some c) |c. c \<in> C} \<union> {(Some a, Some b) |a b. (a, b) \<in> R}) \<longleftrightarrow> acyclic R"
  (is "acyclic ?S \<longleftrightarrow> _")
proof
  have up: "(a, b) \<in> R\<^sup>+ \<Longrightarrow> (Some a, Some b) \<in> ?S\<^sup>+" for a b
  proof (induction rule: trancl_induct)
    case (step y z)
    then have "(Some y, Some z) \<in> ?S" by blast
    with step.IH show ?case by (rule trancl_into_trancl)
  qed blast
  show "acyclic ?S \<Longrightarrow> acyclic R" unfolding acyclic_def using up by blast
  have down: "(x, y) \<in> ?S\<^sup>+ \<Longrightarrow> \<exists>b. y = Some b \<and> (\<forall>a. x = Some a \<longrightarrow> (a, b) \<in> R\<^sup>+)" for x y
  proof (induction rule: trancl_induct)
    case (step y z)
    then show ?case by (auto intro: trancl_into_trancl)
  qed auto
  show "acyclic R \<Longrightarrow> acyclic ?S" unfolding acyclic_def
  proof (intro allI notI)
    fix x assume "\<forall>x. (x, x) \<notin> R\<^sup>+" "(x, x) \<in> ?S\<^sup>+"
    with down [of x x] show False by auto
  qed
qed

text \<open>Every module once, and after the modules that provide what it uses.\<close>

definition well_loaded :: "'c module list \<Rightarrow> 'c list \<Rightarrow> bool" where
  "well_loaded ms xs \<longleftrightarrow>
     distinct xs \<and> set xs = md_code ` set ms
     \<and> (\<forall>ys zs m u p. xs = ys @ md_code m # zs \<and> m \<in> set ms \<and> u \<in> set (md_uses m)
          \<and> p \<in> set ms \<and> u \<in> set (md_provides p) \<longrightarrow> md_code p \<in> set ys)"

text \<open>What \<open>load_order\<close> goes through when it has got to \<open>topsort\<close>.\<close>

lemma sorted_modules:
  assumes providers: "note_providers ms [] = Ok providers" and pairs: "module_pairs providers ms = Ok pairs"
    and sorted: "topsort pairs = Ok codes"
  shows "\<exists>xs. drop 1 codes = map Some xs \<and> well_loaded ms xs"
proof -
  note mem = module_pairs_mem [OF pairs]
  note order = topsort_sound [OF sorted]
  let ?codes = "md_code ` set ms"
  have known: "c \<in> ?codes" if "dget providers u = Some c" for u c
    using note_providers_range [OF providers that] by auto
  have "elements pairs \<subseteq> insert None (Some ` ?codes)"
    unfolding elements_def using mem known by fastforce
  moreover have none: "(None, Some c) \<in> set pairs" if "c \<in> ?codes" for c
    using mem that by auto
  ultimately have elems: "elements pairs \<subseteq> insert None (Some ` ?codes)" by simp
  show ?thesis
  proof (cases codes)
    case Nil
    with order(3) none have "\<And>c. c \<notin> ?codes" by (auto simp: elements_def)
    then have "ms = []" by (cases ms) auto
    with Nil show ?thesis by (simp add: well_loaded_def)
  next
    case (Cons y zs)
    have y: "y = None"
    proof (rule ccontr)
      assume "y \<noteq> None"
      moreover have "y \<in> elements pairs" using order(3) Cons by auto
      ultimately obtain c where "y = Some c" "c \<in> ?codes"
        using elems by auto
      with none have "(None, y) \<in> set pairs" "codes = [] @ y # zs" using Cons by auto
      then have "None \<in> set ([] :: 'a option list)" using order(4) unfolding parents_first_def by blast
      then show False by simp
    qed
    define xs where "xs = map the zs"
    have "None \<notin> set zs" using order(2) Cons y by simp
    then have "map (\<lambda>x. Some (the x)) zs = zs" by (intro map_idI) (metis option.collapse)
    then have "zs = map Some xs" by (simp add: xs_def o_def)
    with Cons y have codes: "codes = None # map Some xs" by simp
    then have xs: "drop 1 codes = map Some xs" by simp
    have "distinct xs" using order(2) by (simp add: codes distinct_map)
    moreover have "set xs = ?codes"
    proof
      show "set xs \<subseteq> ?codes"
        using order(3) elems codes order(2) by auto
      show "?codes \<subseteq> set xs"
      proof
        fix c assume "c \<in> ?codes"
        then have "Some c \<in> elements pairs" using none unfolding elements_def by force
        then show "c \<in> set xs" using order(3) codes by auto
      qed
    qed
    moreover have "md_code p \<in> set ys"
      if "xs = ys @ md_code m # rs" "m \<in> set ms" "u \<in> set (md_uses m)" "p \<in> set ms" "u \<in> set (md_provides p)" for ys rs m u p
    proof -
      have "dget providers u = Some (md_code p)" using note_providers_Ok [OF providers] that(4,5) by blast
      then have "(Some (md_code p), Some (md_code m)) \<in> set pairs" using mem that(2,3) by blast
      moreover have "codes = (None # map Some ys) @ Some (md_code m) # map Some rs" by (simp add: codes that(1))
      ultimately have "Some (md_code p) \<in> set (None # map Some ys)"
        using order(4) unfolding parents_first_def by blast
      then show ?thesis by auto
    qed
    ultimately have "well_loaded ms xs" unfolding well_loaded_def by blast
    with xs show ?thesis by blast
  qed
qed

subsection \<open>The order\<close>

lemma execute_all:
  "map_outcome (\<lambda>c. case c of None \<Rightarrow> Raise TypeError | Some code \<Rightarrow> Ok code) (map Some xs) = Ok xs"
  by (induction xs) auto

text \<open>
  C22 (load_order_spec): Which modules are loaded, and in which order. Where two modules provide a name, ImportError is raised
  for such a name; else, where a module imports a name that no module provides, for such a name; else, where the imports form
  a cycle, for the cycle. In all other cases there is an order: every module is executed exactly once, and only after
  all modules that provide a name it imports.
\<close>

theorem load_order_spec:
  assumes "\<forall>m \<in> set ms. distinct (md_provides m)"
  shows "if \<exists>n. 2 \<le> provided ms n
         then \<exists>n. 2 \<le> provided ms n \<and> load_order ms = Raise (ImportError (''Two modules provide '' @ n))
         else if \<exists>m \<in> set ms. \<exists>u \<in> set (md_uses m). provided ms u = 0
         then \<exists>m \<in> set ms. \<exists>u \<in> set (md_uses m). provided ms u = 0 \<and> load_order ms = Raise (ImportError (''No module provides '' @ u))
         else if \<not> acyclic (imports_of ms)
         then load_order ms = Raise (ImportError ''There is a cycle in module dependencies'')
         else \<exists>xs. load_order ms = Ok xs \<and> well_loaded ms xs"
proof (cases "note_providers ms []")
  case (Raise e)
  from note_providers_Raise [OF Raise assms] obtain n where "e = ImportError (''Two modules provide '' @ n)" "2 \<le> provided ms n"
    by auto
  with Raise show ?thesis by (auto simp: load_order_def)
next
  case providers: (Ok providers)
  have once: "\<not> (\<exists>n. 2 \<le> provided ms n)" using note_providers_unique [OF providers] by (auto simp: not_le less_Suc_eq_le numeral_2_eq_2)
  note none = providers_None [OF providers]
  show ?thesis
  proof (cases "module_pairs providers ms")
    case (Raise e)
    from module_pairs_Raise [OF this, unfolded none] obtain m u where "m \<in> set ms" "u \<in> set (md_uses m)" "provided ms u = 0"
      "e = ImportError (''No module provides '' @ u)" by blast
    moreover from this(4) Raise providers have "load_order ms = Raise (ImportError (''No module provides '' @ u))"
      by (simp add: load_order_def)
    ultimately show ?thesis using once by auto
  next
    case pairs: (Ok pairs)
    have found: "\<not> (\<exists>m \<in> set ms. \<exists>u \<in> set (md_uses m). provided ms u = 0)"
      using module_pairs_all [OF pairs] none by blast
    have roots: "{(None, Some (md_code m)) |m. m \<in> set ms} = {(None :: 'a option, Some c) |c. c \<in> md_code ` set ms}" by blast
    have cyclic: "acyclic (set pairs) \<longleftrightarrow> acyclic (imports_of ms)"
      unfolding pairs_imports [OF providers pairs] roots by (rule acyclic_with_root)
    show ?thesis
    proof (cases "topsort pairs")
      case (Raise e)
      have "e = CycleError" "\<not> acyclic (imports_of ms)" using Raise topsort_total [of pairs] cyclic by auto
      with Raise providers pairs once found show ?thesis by (simp add: load_order_def)
    next
      case (Ok codes)
      from sorted_modules [OF providers pairs Ok] obtain xs where "drop 1 codes = map Some xs" and spec: "well_loaded ms xs"
        by blast
      then have "load_order ms = Ok xs" using Ok providers pairs by (simp add: load_order_def execute_all)
      with spec once found topsort_sound(1) [OF Ok] cyclic show ?thesis by simp
    qed
  qed
qed

definition sample_modules :: "nat module list" where
  "sample_modules =
     [\<lparr>md_code = 1, md_uses = [''Entity''], md_provides = [''Role'']\<rparr>,
      \<lparr>md_code = 2, md_uses = [], md_provides = [''Entity'']\<rparr>,
      \<lparr>md_code = 3, md_uses = [''Role'', ''Entity''], md_provides = [''User'', ''UserEvents'']\<rparr>]"

theorem load_order_spec_witness:
  "well_loaded sample_modules [2, 1, 3] \<and> load_order (take 1 sample_modules) = Raise (ImportError ''No module provides Entity'')
   \<and> load_order (sample_modules @ take 1 sample_modules) = Raise (ImportError ''Two modules provide Role'')"
proof -
  have ok: "load_order sample_modules = Ok [2, 1, 3]" by code_simp
  have sets: "\<forall>m \<in> set sample_modules. distinct (md_provides m)" "\<forall>m \<in> set (take 1 sample_modules). distinct (md_provides m)"
    "\<forall>m \<in> set (sample_modules @ take 1 sample_modules). distinct (md_provides m)"
    by (auto simp: sample_modules_def)
  have "well_loaded sample_modules [2, 1, 3]"
    using load_order_spec [OF sets(1)] ok by (auto split: if_splits)
  moreover have "provided (take 1 sample_modules) n = (if n = ''Role'' then 1 else 0)" for n
    by (simp add: provided_def sample_modules_def)
  then have "load_order (take 1 sample_modules) = Raise (ImportError ''No module provides Entity'')"
    using load_order_spec [OF sets(2)] by (auto simp: sample_modules_def split: if_splits)
  moreover have "2 \<le> provided (sample_modules @ take 1 sample_modules) n \<longleftrightarrow> n = ''Role''" for n
    by (auto simp: provided_def sample_modules_def)
  then have "load_order (sample_modules @ take 1 sample_modules) = Raise (ImportError ''Two modules provide Role'')"
    using load_order_spec [OF sets(3)] by auto
  ultimately show ?thesis by blast
qed

end
