(* ===== verification/Passwords.thy ===== *)
theory Passwords
  imports Py_Strings
begin

section \<open>Logins and passwords\<close>

text \<open>
  \<open>entities/sec.py\<close>. A stored password is the hexadecimal SHA-1 of salt and password, followed by the salt; older ones
  are texts of \<open>crypt\<close>. Both functions are parameters (\<open>hashes\<close>), as is the validation of an e-mail address. Hashing a
  text that is not ASCII raises. \<open>None\<close> is the absence of a text.
\<close>

record hashes =
  hs_sha1 :: "string \<Rightarrow> string"
  hs_crypt :: "string \<Rightarrow> string \<Rightarrow> string option"
  hs_mail_ok :: "string \<Rightarrow> bool"

definition is_ascii :: "string \<Rightarrow> bool" where
  "is_ascii s \<longleftrightarrow> list_all (\<lambda>c. code c < 128) s"

definition is_lower :: "char \<Rightarrow> bool" where
  "is_lower c \<longleftrightarrow> 97 \<le> code c \<and> code c \<le> 122"

definition is_digit :: "char \<Rightarrow> bool" where
  "is_digit c \<longleftrightarrow> 48 \<le> code c \<and> code c \<le> 57"

definition login_ok :: "string option \<Rightarrow> unit outcome" where
  "login_ok login =
     (case login of
        None \<Rightarrow> Raise (InvalidLogin ''is empty'')
      | Some l \<Rightarrow>
          if l = [] then Raise (InvalidLogin ''is empty'')
          else if length l < 3 then Raise (InvalidLogin ''is too short'')
          else if length l > 24 then Raise (InvalidLogin ''is too long'')
          else if \<not> is_ascii l then Raise (InvalidLogin ''contains invalid characters'')
          else if \<exists>c \<in> set l. \<not> (is_lower c \<or> is_digit c \<or> c = CHR ''_'') then Raise (InvalidLogin ''contains invalid characters'')
          else if \<not> is_lower (hd l) then Raise (InvalidLogin ''does not start with a letter'')
          else Ok ())"

definition password_ok :: "string option \<Rightarrow> unit outcome" where
  "password_ok password =
     (case password of None \<Rightarrow> Ok () | Some p \<Rightarrow> if length p < 4 then Raise (InvalidPassword ''is too short'') else Ok ())"

definition email_ok :: "hashes \<Rightarrow> string option \<Rightarrow> unit outcome" where
  "email_ok H email =
     (case email of
        None \<Rightarrow> Ok ()
      | Some m \<Rightarrow>
          if \<not> hs_mail_ok H m then Raise (InvalidEmail ''is not RFC3696 compliant'')
          else if length m > 60 then Raise (InvalidEmail ''is too long'')
          else Ok ())"

text \<open>The salt that is drawn where none is given is an argument.\<close>

definition sha_crypt :: "hashes \<Rightarrow> string \<Rightarrow> string \<Rightarrow> string outcome" where
  "sha_crypt H password salt =
     (if is_ascii salt \<and> is_ascii password then Ok (hs_sha1 H (salt @ password) @ salt) else Raise UnicodeError)"

definition sha_salt :: "string \<Rightarrow> string" where
  "sha_salt pwhash = drop (20 * 2) pwhash"

definition password_crypt :: "hashes \<Rightarrow> string \<Rightarrow> string option \<Rightarrow> string outcome" where
  "password_crypt H drawn password = (case password of None \<Rightarrow> Raise TypeError | Some p \<Rightarrow> sha_crypt H p drawn)"

definition password_check :: "hashes \<Rightarrow> string option \<Rightarrow> string \<Rightarrow> bool outcome" where
  "password_check H pwhash password =
     (case pwhash of
        None \<Rightarrow> Ok False
      | Some h \<Rightarrow>
          if \<not> (is_ascii h \<and> is_ascii password) then Raise UnicodeError
          else if hs_crypt H password h = Some h then Ok True
          else map_ok (\<lambda>s. s = h) (sha_crypt H password (sha_salt h)))"

definition password_rehash_old :: "hashes \<Rightarrow> string \<Rightarrow> string option \<Rightarrow> string \<Rightarrow> string option outcome" where
  "password_rehash_old H drawn pwhash password =
     bind_ok (password_check H pwhash password) (\<lambda>good.
       case pwhash of
         None \<Rightarrow> Ok None
       | Some h \<Rightarrow>
           if \<not> good then Ok (Some h)
           else bind_ok (sha_crypt H password (sha_salt h)) (\<lambda>s.
             if s = h then Ok (Some h) else map_ok Some (password_crypt H drawn (Some password))))"

subsection \<open>Properties\<close>

text \<open>The hexadecimal SHA-1 has forty ASCII characters.\<close>

definition hashes_ok :: "hashes \<Rightarrow> bool" where
  "hashes_ok H \<longleftrightarrow> (\<forall>s. length (hs_sha1 H s) = 40 \<and> is_ascii (hs_sha1 H s))"

lemma is_ascii_append [simp]: "is_ascii (s @ t) \<longleftrightarrow> is_ascii s \<and> is_ascii t"
  by (auto simp: is_ascii_def)

lemma is_ascii_drop: "is_ascii s \<Longrightarrow> is_ascii (drop n s)"
  by (metis append_take_drop_id is_ascii_append)

lemma sha_salt_crypt: "hashes_ok H \<Longrightarrow> sha_salt (hs_sha1 H x @ salt) = salt"
  by (simp add: sha_salt_def hashes_ok_def)

lemma crypt_check:
  assumes "hashes_ok H" "password_crypt H drawn (Some p) = Ok h"
  shows "password_check H (Some h) q = (if is_ascii q then Ok (hs_crypt H q h = Some h \<or> hs_sha1 H (drawn @ q) = hs_sha1 H (drawn @ p))
    else Raise UnicodeError)"
proof -
  have h: "h = hs_sha1 H (drawn @ p) @ drawn" and asc: "is_ascii drawn" "is_ascii p"
    using assms(2) by (auto simp: password_crypt_def sha_crypt_def split: if_splits)
  have "is_ascii h" using assms(1) h asc by (auto simp: hashes_ok_def)
  with h asc assms(1) show ?thesis
    by (auto simp: password_check_def sha_crypt_def sha_salt_crypt hashes_ok_def)
qed

text \<open>
  C21 (passwords_checked): A password that was stored is accepted, and any other text is accepted only where it has the same
  hash with the drawn salt or where \<open>crypt\<close> takes the stored text for its own.
\<close>

theorem passwords_checked:
  assumes "hashes_ok H" "password_crypt H drawn (Some p) = Ok h"
  shows "password_check H (Some h) p = Ok True
    \<and> (\<forall>q. password_check H (Some h) q = Ok True \<longrightarrow>
         hs_sha1 H (drawn @ q) = hs_sha1 H (drawn @ p) \<or> hs_crypt H q h = Some h)"
proof -
  have "is_ascii p" using assms(2) by (auto simp: password_crypt_def sha_crypt_def split: if_splits)
  with crypt_check [OF assms] show ?thesis by simp
qed

definition sample_hashes :: hashes where
  "sample_hashes =
     \<lparr>hs_sha1 = (\<lambda>s. let t = take 40 (filter (\<lambda>c. code c < 128) s) in t @ replicate (40 - length t) CHR ''0''),
      hs_crypt = (\<lambda>p h. None), hs_mail_ok = (\<lambda>m. CHR ''@'' \<in> set m)\<rparr>"

lemma sample_hashes_ok: "hashes_ok sample_hashes"
proof -
  have "is_ascii (take 40 (filter (\<lambda>c. code c < 128) s) @ replicate n CHR ''0'')" for s n
  proof -
    have "is_ascii (filter (\<lambda>c. code c < 128) s)" by (simp add: is_ascii_def list_all_iff)
    then have "is_ascii (take 40 (filter (\<lambda>c. code c < 128) s))" by (metis append_take_drop_id is_ascii_append)
    moreover have "is_ascii (replicate n CHR ''0'')" by (simp add: is_ascii_def list_all_iff code_def)
    ultimately show ?thesis by simp
  qed
  then show ?thesis by (simp add: hashes_ok_def sample_hashes_def Let_def)
qed

theorem passwords_checked_witness:
  "\<exists>h. password_crypt sample_hashes ''12ab'' (Some ''secret'') = Ok h \<and> password_check sample_hashes (Some h) ''secret'' = Ok True
     \<and> password_check sample_hashes (Some h) ''sesame'' = Ok False"
proof -
  have "is_ascii ''12ab''" "is_ascii ''secret''" "is_ascii ''sesame''" by code_simp+
  then have c: "password_crypt sample_hashes ''12ab'' (Some ''secret'') = Ok (hs_sha1 sample_hashes (''12ab'' @ ''secret'') @ ''12ab'')"
    by (simp add: password_crypt_def sha_crypt_def)
  have "hs_sha1 sample_hashes (''12ab'' @ ''sesame'') \<noteq> hs_sha1 sample_hashes (''12ab'' @ ''secret'')" by code_simp
  moreover have "hs_crypt sample_hashes ''sesame'' h \<noteq> Some h" for h by (simp add: sample_hashes_def)
  ultimately have "password_check sample_hashes (Some (hs_sha1 sample_hashes (''12ab'' @ ''secret'') @ ''12ab'')) ''sesame'' = Ok False"
    using crypt_check [OF sample_hashes_ok c, of "''sesame''"] \<open>is_ascii ''sesame''\<close> by simp
  with passwords_checked [OF sample_hashes_ok c] c show ?thesis by blast
qed

text \<open>The rules for logins at once.\<close>

lemma login_ok_iff:
  "login_ok login = Ok () \<longleftrightarrow>
     (\<exists>l. login = Some l \<and> 3 \<le> length l \<and> length l \<le> 24 \<and> is_lower (hd l) \<and> (\<forall>c \<in> set l. is_lower c \<or> is_digit c \<or> c = CHR ''_''))"
proof (cases login)
  case (Some l)
  have "is_ascii l" if "\<forall>c \<in> set l. is_lower c \<or> is_digit c \<or> c = CHR ''_''"
    using that by (auto simp: is_ascii_def list_all_iff is_lower_def is_digit_def code_def)
  with Some show ?thesis by (auto simp: login_ok_def)
qed (simp add: login_ok_def)

lemma rehash_accepts:
  assumes "hashes_ok H" "password_check H pwhash p = Ok True" "password_rehash_old H drawn pwhash p = Ok pwhash'"
  shows "password_check H pwhash' p = Ok True"
proof (cases pwhash)
  case (Some h)
  have asc: "is_ascii h" "is_ascii p" using assms(2) Some by (auto simp: password_check_def split: if_splits)
  then obtain s where s: "sha_crypt H p (sha_salt h) = Ok s" by (simp add: sha_crypt_def sha_salt_def is_ascii_drop)
  show ?thesis
  proof (cases "s = h")
    case True
    with s Some assms(2,3) show ?thesis by (simp add: password_rehash_old_def)
  next
    case False
    with s Some assms(2,3) obtain h' where "password_crypt H drawn (Some p) = Ok h'" "pwhash' = Some h'"
      by (auto simp: password_rehash_old_def outcome_simps)
    with crypt_check [OF assms(1)] asc show ?thesis by simp
  qed
qed (use assms in \<open>simp add: password_check_def\<close>)

end
