(* ===== verification/Entity_Fields.thy ===== *)
theory Entity_Fields
  imports Py_Strings
begin

section \<open>Fields of entities\<close>

text \<open>
  \<open>entities/Entity.py\<close>: a method that changes an object gets a structure with optional fields and copies those it allows.
  \<^item> \<open>frow\<close>: an object or a structure by its attributes; an attribute that is missing or \<open>None\<close> has no entry.
  \<^item> \<open>links\<close>: the names of the required foreign keys, which raise when they are read before they are set.
\<close>

datatype fval = FStr string | FBool bool | FInt int | FKey nat

type_synonym frow = "(string, fval) dict"

definition str_field :: "frow \<Rightarrow> string \<Rightarrow> string option" where
  "str_field r f = (case dget r f of Some (FStr s) \<Rightarrow> Some s | _ \<Rightarrow> None)"

definition key_field :: "frow \<Rightarrow> string \<Rightarrow> nat option" where
  "key_field r f = (case dget r f of Some (FKey k) \<Rightarrow> Some k | _ \<Rightarrow> None)"

definition set_field :: "string \<Rightarrow> fval option \<Rightarrow> frow \<Rightarrow> frow" where
  "set_field f v r = (case v of None \<Rightarrow> ddel f r | Some x \<Rightarrow> dset f x r)"

definition flag_field :: "frow \<Rightarrow> string \<Rightarrow> bool" where
  "flag_field r f \<longleftrightarrow> dget r f = Some (FBool True)"

definition update_field :: "frow \<Rightarrow> string \<Rightarrow> frow \<times> string list \<Rightarrow> frow \<times> string list" where
  "update_field source f acc =
     (case acc of (dest, changed) \<Rightarrow>
        case dget source f of
          None \<Rightarrow> (dest, changed)
        | Some v \<Rightarrow> if dget dest f = Some v then (dest, changed) else (dset f v dest, changed @ [f]))"

definition update_fields :: "frow \<Rightarrow> frow \<Rightarrow> string list \<Rightarrow> frow \<times> string list" where
  "update_fields dest source fs = fold (update_field source) fs (dest, [])"

fun forbid_fields :: "string list \<Rightarrow> frow \<Rightarrow> frow \<Rightarrow> string list \<Rightarrow> unit outcome" where
  "forbid_fields links dest source [] = Ok ()"
| "forbid_fields links dest source (f # fs) =
     (case dget source f of
        None \<Rightarrow> forbid_fields links dest source fs
      | Some v \<Rightarrow>
          if dget dest f = None \<and> f \<in> set links then Raise DoesNotExist
          else if dget dest f \<noteq> Some v then Raise (InvalidArgument (''fields.'' @ f))
          else forbid_fields links dest source fs)"

subsection \<open>Properties\<close>

lemma fold_update_field:
  "distinct fs \<Longrightarrow>
     (\<forall>g. dget (fst (fold (update_field source) fs (dest, ch))) g =
        (if g \<in> set fs \<and> dget source g \<noteq> None then dget source g else dget dest g))
     \<and> snd (fold (update_field source) fs (dest, ch)) = ch @ filter (\<lambda>f. dget source f \<noteq> None \<and> dget source f \<noteq> dget dest f) fs"
proof (induction fs arbitrary: dest ch)
  case (Cons f fs)
  obtain d1 c1 where u: "update_field source f (dest, ch) = (d1, c1)" by (cases "update_field source f (dest, ch)")
  have look: "dget d1 g = (if g = f \<and> dget source f \<noteq> None then dget source f else dget dest g)" for g
    using u by (auto simp: update_field_def split: option.splits if_splits)
  have c1: "c1 = ch @ (if dget source f \<noteq> None \<and> dget source f \<noteq> dget dest f then [f] else [])"
    using u by (auto simp: update_field_def split: option.splits if_splits)
  have same: "filter (\<lambda>f. dget source f \<noteq> None \<and> dget source f \<noteq> dget d1 f) fs
      = filter (\<lambda>f. dget source f \<noteq> None \<and> dget source f \<noteq> dget dest f) fs"
    using Cons.prems by (intro filter_cong) (auto simp: look)
  have "f \<notin> set fs" using Cons.prems by simp
  with Cons.IH [of d1 c1] Cons.prems u look show ?case unfolding c1 same by (auto simp: same)
qed simp

text \<open>The fields a caller may not set: given ones have to be what they are.\<close>

lemma forbid_fields_Ok:
  "forbid_fields links dest source fs = Ok () \<longleftrightarrow> (\<forall>f \<in> set fs. dget source f = None \<or> dget source f = dget dest f)"
  by (induction fs) (auto split: option.splits)

text \<open>
  (update_fields_spec): \<open>update_fields\<close> gives every listed field the value the structure has for it and keeps all
  others, answers exactly the fields that changed, in the order of the list, and changes nothing when it is repeated.
\<close>

theorem update_fields_spec:
  assumes "distinct fs" "update_fields dest source fs = (dest', changed)"
  shows "dget dest' f = (if f \<in> set fs \<and> dget source f \<noteq> None then dget source f else dget dest f)"
    and "changed = filter (\<lambda>f. dget dest' f \<noteq> dget dest f) fs"
    and "snd (update_fields dest' source fs) = []"
proof -
  note upd = fold_update_field [OF assms(1), of source]
  have look: "dget dest' f = (if f \<in> set fs \<and> dget source f \<noteq> None then dget source f else dget dest f)" for f
    using upd [of dest "[]"] assms(2) by (simp add: update_fields_def)
  then show "dget dest' f = (if f \<in> set fs \<and> dget source f \<noteq> None then dget source f else dget dest f)" .
  have "changed = filter (\<lambda>f. dget source f \<noteq> None \<and> dget source f \<noteq> dget dest f) fs"
    using upd [of dest "[]"] assms(2) by (simp add: update_fields_def)
  then show "changed = filter (\<lambda>f. dget dest' f \<noteq> dget dest f) fs"
    by (auto simp: look intro!: filter_cong)
  show "snd (update_fields dest' source fs) = []"
    using upd [of dest' "[]"] by (auto simp: update_fields_def look filter_empty_conv)
qed

theorem update_fields_spec_witness:
  "snd (update_fields (fst (update_fields [(''login'', FStr ''ann'')] [(''login'', FStr ''bob''), (''id'', FKey 3)] [''login'', ''email'']))
     [(''login'', FStr ''bob''), (''id'', FKey 3)] [''login'', ''email'']) = []"
  by (rule update_fields_spec(3) [OF _ prod.collapse [symmetric]]) simp

end
