(* ===== verification/Accounts.thy ===== *)
theory Accounts
  imports Passwords Entity_Fields Sec_Token Check_Db
begin

section \<open>Logging in\<close>

text \<open>
  \<open>User\<close>, \<open>Machine\<close> and \<open>Contestant\<close> as accounts: saving a row, setting and changing the password, and \<open>authenticate\<close>,
  which marks the session of the caller's token and answers the token.
  \<^item> \<open>accounts\<close>: the rows by number, the token of the thread and the rows of the sessions.
  \<^item> \<open>asite\<close>: cryptography, the clock, the salt that is drawn, the address of the caller, the contest that is locked for
    it (\<open>Contest.get_current_lock\<close>) and the test whether an address is in a network.
\<close>

record accounts =
  ac_users :: "(nat, frow) dict"
  ac_machines :: "(nat, frow) dict"
  ac_contestants :: "(nat, frow) dict"
  ac_token :: token
  ac_sessions :: "(nat, session) dict"

record asite =
  as_hashes :: hashes
  as_crypto :: crypto
  as_now :: int
  as_drawn :: string
  as_ip :: string
  as_in_network :: "string \<Rightarrow> string \<Rightarrow> bool outcome"
  as_lock :: "nat option outcome"

subsection \<open>Saving\<close>

definition login_taken :: "nat \<Rightarrow> frow \<Rightarrow> (nat, frow) dict \<Rightarrow> bool" where
  "login_taken k r t \<longleftrightarrow> (\<exists>(k', r') \<in> set t. k' \<noteq> k \<and> str_field r' ''login'' = str_field r ''login'')"

definition full_name :: "string option \<Rightarrow> string option \<Rightarrow> string outcome" where
  "full_name a b = (case (a, b) of (Some x, Some y) \<Rightarrow> Ok (strip (x @ '' '' @ y)) | _ \<Rightarrow> Raise TypeError)"

definition user_saved :: "hashes \<Rightarrow> nat \<Rightarrow> frow \<Rightarrow> (nat, frow) dict \<Rightarrow> frow outcome" where
  "user_saved H k r t =
     (let first = str_field r ''firstname''; last = str_field r ''lastname'' in
      bind_ok (login_ok (str_field r ''login'')) (\<lambda>_.
      bind_ok (email_ok H (str_field r ''email'')) (\<lambda>_.
      bind_ok (full_name first last) (\<lambda>name.
      bind_ok (full_name last first) (\<lambda>sort_name.
      if login_taken k r t then Raise (InvalidLogin ''is already used'')
      else Ok (dset ''sort_field'' (FStr sort_name) (dset ''name'' (FStr name) r)))))))"

definition save_user :: "hashes \<Rightarrow> nat \<Rightarrow> frow \<Rightarrow> accounts \<Rightarrow> unit outcome \<times> accounts" where
  "save_user H k r w =
     (case user_saved H k r (ac_users w) of Raise e \<Rightarrow> (Raise e, w) | Ok r' \<Rightarrow> (Ok (), w\<lparr>ac_users := dset k r' (ac_users w)\<rparr>))"

definition save_machine :: "nat \<Rightarrow> frow \<Rightarrow> accounts \<Rightarrow> unit outcome \<times> accounts" where
  "save_machine k r w =
     (case login_ok (str_field r ''login'') of
        Raise e \<Rightarrow> (Raise e, w)
      | Ok _ \<Rightarrow>
          if login_taken k r (ac_machines w) then (Raise (InvalidLogin ''is already used''), w)
          else (Ok (), w\<lparr>ac_machines := dset k r (ac_machines w)\<rparr>))"

definition save_contestant :: "nat \<Rightarrow> frow \<Rightarrow> accounts \<Rightarrow> unit outcome \<times> accounts" where
  "save_contestant k r w =
     (case (if str_field r ''login'' = None then Ok ()
            else bind_ok (login_ok (str_field r ''login'')) (\<lambda>_.
              if login_taken k r (filter (\<lambda>(k', r'). key_field r' ''contest'' = key_field r ''contest'') (ac_contestants w))
              then Raise (InvalidLogin ''is already used'') else Ok ())) of
        Raise e \<Rightarrow> (Raise e, w)
      | Ok _ \<Rightarrow> (Ok (), w\<lparr>ac_contestants := dset k r (ac_contestants w)\<rparr>))"

subsection \<open>Passwords\<close>

definition set_password :: "asite \<Rightarrow> (nat \<Rightarrow> frow \<Rightarrow> accounts \<Rightarrow> unit outcome \<times> accounts) \<Rightarrow> nat \<Rightarrow> frow \<Rightarrow> string option
    \<Rightarrow> accounts \<Rightarrow> unit outcome \<times> accounts" where
  "set_password S save k r new w =
     (case bind_ok (password_ok new) (\<lambda>_. password_crypt (as_hashes S) (as_drawn S) new) of
        Raise e \<Rightarrow> (Raise e, w)
      | Ok h \<Rightarrow> save k (dset ''password'' (FStr h) r) w)"

definition change_password :: "asite \<Rightarrow> (nat \<Rightarrow> frow \<Rightarrow> accounts \<Rightarrow> unit outcome \<times> accounts) \<Rightarrow> nat \<Rightarrow> frow \<Rightarrow> string
    \<Rightarrow> string option \<Rightarrow> accounts \<Rightarrow> unit outcome \<times> accounts" where
  "change_password S save k r old new w =
     (case password_check (as_hashes S) (str_field r ''password'') old of
        Raise e \<Rightarrow> (Raise e, w)
      | Ok good \<Rightarrow> if \<not> good then (Raise LoginFailed, w) else set_password S save k r new w)"

subsection \<open>Sessions\<close>

definition store_session :: "session \<Rightarrow> accounts \<Rightarrow> accounts" where
  "store_session s w =
     w\<lparr>ac_token := (ac_token w)\<lparr>tok_session := Some s\<rparr>,
       ac_sessions := (case ses_id s of None \<Rightarrow> ac_sessions w | Some i \<Rightarrow> dset i s (ac_sessions w))\<rparr>"

definition start_session :: "asite \<Rightarrow> accounts \<Rightarrow> session \<times> accounts" where
  "start_session S w =
     (case session_start (as_now S) (fresh_key (ac_sessions w)) (ac_token w) of
        (s, t) \<Rightarrow> (s, if tok_session (ac_token w) = None then store_session s w else w))"

definition log_in :: "asite \<Rightarrow> nat \<Rightarrow> string \<Rightarrow> accounts \<Rightarrow> unit outcome \<times> accounts" where
  "log_in S role auth w =
     (case start_session S w of
        (s, w1) \<Rightarrow>
          (case session_login (as_now S) (fresh_key (ac_sessions w1)) role auth s of
             Raise e \<Rightarrow> (Raise e, w1)
           | Ok s' \<Rightarrow> (Ok (), store_session s' w1)))"

text \<open>After the password was found right: the session, the renewal of an old hash, the answer.\<close>

definition admit :: "asite \<Rightarrow> (nat \<Rightarrow> frow \<Rightarrow> accounts \<Rightarrow> unit outcome \<times> accounts) \<Rightarrow> string \<Rightarrow> nat \<Rightarrow> frow \<Rightarrow> string
    \<Rightarrow> accounts \<Rightarrow> string outcome \<times> accounts" where
  "admit S save auth k r password w =
     (case log_in S k auth w of
        (Raise e, w1) \<Rightarrow> (Raise e, w1)
      | (Ok _, w1) \<Rightarrow>
          (case password_rehash_old (as_hashes S) (as_drawn S) (str_field r ''password'') password of
             Raise e \<Rightarrow> (Raise e, w1)
           | Ok h \<Rightarrow>
               (case (if h \<noteq> str_field r ''password'' then save k (set_field ''password'' (map_option FStr h) r) w1 else (Ok (), w1)) of
                  (Raise e, w2) \<Rightarrow> (Raise e, w2)
                | (Ok _, w2) \<Rightarrow> (Ok (token_str (as_crypto S) (ac_token w2)), w2))))"

definition with_password :: "asite \<Rightarrow> (nat \<Rightarrow> frow \<Rightarrow> accounts \<Rightarrow> unit outcome \<times> accounts) \<Rightarrow> string \<Rightarrow> nat \<Rightarrow> frow \<Rightarrow> string
    \<Rightarrow> accounts \<Rightarrow> string outcome \<times> accounts" where
  "with_password S save auth k r password w =
     (case password_check (as_hashes S) (str_field r ''password'') password of
        Raise e \<Rightarrow> (Raise e, w)
      | Ok good \<Rightarrow> if good then admit S save auth k r password w else (Raise LoginFailed, w))"

text \<open>\<open>objects.get(login=...)\<close>: the rows that match.\<close>

definition by_login :: "string \<Rightarrow> (nat, frow) dict \<Rightarrow> (nat \<times> frow) list" where
  "by_login login t = filter (\<lambda>(k, r). str_field r ''login'' = Some login) t"

definition authenticate_user :: "asite \<Rightarrow> string \<Rightarrow> string \<Rightarrow> accounts \<Rightarrow> string outcome \<times> accounts" where
  "authenticate_user S login password w =
     (case by_login login (ac_users w) of
        [] \<Rightarrow> (Raise LoginFailed, w)
      | [(k, r)] \<Rightarrow>
          if \<not> flag_field r ''activated'' then (Raise LoginFailed, w)
          else with_password S (save_user (as_hashes S)) ''user'' k r password w
      | _ \<Rightarrow> (Raise MultipleObjectsReturned, w))"

definition check_ip :: "asite \<Rightarrow> frow \<Rightarrow> bool outcome" where
  "check_ip S r =
     (case (str_field r ''address'', str_field r ''netmask'') of
        (Some a, Some m) \<Rightarrow> as_in_network S (as_ip S) (a @ ''/'' @ m)
      | _ \<Rightarrow> Raise TypeError)"

definition authenticate_machine :: "asite \<Rightarrow> string \<Rightarrow> string \<Rightarrow> accounts \<Rightarrow> string outcome \<times> accounts" where
  "authenticate_machine S login password w =
     (case by_login login (ac_machines w) of
        [] \<Rightarrow> (Raise LoginFailed, w)
      | [(k, r)] \<Rightarrow>
          (case check_ip S r of
             Raise e \<Rightarrow> (Raise e, w)
           | Ok inside \<Rightarrow>
               if \<not> inside then (Raise LoginFailed, w)
               else with_password S save_machine ''machine'' k r password w)
      | _ \<Rightarrow> (Raise MultipleObjectsReturned, w))"

definition authenticate_contestant :: "asite \<Rightarrow> string \<Rightarrow> string \<Rightarrow> accounts \<Rightarrow> string outcome \<times> accounts" where
  "authenticate_contestant S login password w =
     (case as_lock S of
        Raise e \<Rightarrow> (Raise e, w)
      | Ok None \<Rightarrow> (Raise LoginFailed, w)
      | Ok (Some contest) \<Rightarrow>
          (case filter (\<lambda>(k, r). key_field r ''contest'' = Some contest) (by_login login (ac_contestants w)) of
             [] \<Rightarrow> (Raise LoginFailed, w)
           | [(k, r)] \<Rightarrow> with_password S save_contestant ''contestant'' k r password w
           | _ \<Rightarrow> (Raise MultipleObjectsReturned, w)))"

subsection \<open>What the kinds of accounts share\<close>

text \<open>Whom an answer lets in as what: the row that was found, its password, the session of the token.\<close>

definition lets_in :: "asite \<Rightarrow> string \<Rightarrow> string \<Rightarrow> nat \<Rightarrow> frow \<Rightarrow> string \<Rightarrow> accounts \<Rightarrow> bool" where
  "lets_in S password auth k r answer w' \<longleftrightarrow>
     password_check (as_hashes S) (str_field r ''password'') password = Ok True \<and> role_id (ac_token w') = Some k
     \<and> (\<exists>s. tok_session (ac_token w') = Some s \<and> ses_auth s = Some auth) \<and> answer = token_str (as_crypto S) (ac_token w')"

lemma log_in_Ok: "log_in S role auth w = (Ok (), w') \<Longrightarrow>
    role_id (ac_token w') = Some role \<and> (\<exists>s. tok_session (ac_token w') = Some s \<and> ses_auth s = Some auth)"
  by (auto simp: log_in_def store_session_def session_login_def session_renew_def session_save_def role_id_def outcome_simps
      split: prod.splits outcome.splits option.splits if_splits)

lemma log_in_Raise: "log_in S role auth w = (Raise e, w') \<Longrightarrow> e = TypeError"
  by (auto simp: log_in_def session_login_def session_renew_def split: prod.splits outcome.splits option.splits)

lemma rehash_Raise: "password_rehash_old H drawn pwhash p = Raise e \<Longrightarrow> e = UnicodeError"
  by (auto simp: password_rehash_old_def password_check_def sha_crypt_def password_crypt_def split: option.splits if_splits)

text \<open>
  A table of accounts as \<open>with_password\<close> uses it: \<open>save\<close> writes one row, leaves the token alone, does nothing when it
  raises, and has no opinion about passwords.
\<close>

locale account_table =
  fixes save :: "nat \<Rightarrow> frow \<Rightarrow> accounts \<Rightarrow> unit outcome \<times> accounts"
    and look :: "accounts \<Rightarrow> nat \<Rightarrow> frow option"
  assumes save_Ok: "save k r w = (Ok (), w') \<Longrightarrow>
      ac_token w' = ac_token w \<and> (\<exists>r'. look w' k = Some r' \<and> str_field r' ''password'' = str_field r ''password'')"
    and save_Raise: "save k r w = (Raise e, w') \<Longrightarrow> w' = w \<and> e \<noteq> LoginFailed"
    and look_session: "look (store_session s w) k = look w k"
begin

lemma look_log_in: "look (snd (log_in S role auth w)) k = look w k"
  by (auto simp: log_in_def start_session_def look_session split: prod.split outcome.split)

lemma with_password_Ok:
  assumes "with_password S save auth k r password w = (Ok answer, w')"
  shows "password_check (as_hashes S) (str_field r ''password'') password = Ok True"
    and "role_id (ac_token w') = Some k" and "\<exists>s. tok_session (ac_token w') = Some s \<and> ses_auth s = Some auth"
    and "answer = token_str (as_crypto S) (ac_token w')"
proof -
  have "admit S save auth k r password w = (Ok answer, w') \<and> password_check (as_hashes S) (str_field r ''password'') password = Ok True"
    using assms by (auto simp: with_password_def split: outcome.splits if_splits)
  then show "password_check (as_hashes S) (str_field r ''password'') password = Ok True" by simp
  from \<open>admit S save auth k r password w = (Ok answer, w') \<and> _\<close> obtain w1 where "log_in S k auth w = (Ok (), w1)" and
    "ac_token w' = ac_token w1" and "answer = token_str (as_crypto S) (ac_token w')"
    by (auto simp: admit_def dest!: save_Ok split: prod.splits outcome.splits if_splits)
  with log_in_Ok [of S k auth w w1] show "role_id (ac_token w') = Some k"
    "\<exists>s. tok_session (ac_token w') = Some s \<and> ses_auth s = Some auth" "answer = token_str (as_crypto S) (ac_token w')"
    by auto
qed

lemma with_password_lets_in:
  "with_password S save auth k r password w = (Ok answer, w') \<Longrightarrow> lets_in S password auth k r answer w'"
  using with_password_Ok [of S auth k r password w answer w'] by (simp add: lets_in_def)

lemma with_password_failed:
  "with_password S save auth k r password w = (Raise LoginFailed, w') \<Longrightarrow> w' = w"
  by (auto simp: with_password_def admit_def dest!: save_Raise log_in_Raise rehash_Raise split: prod.splits outcome.splits if_splits)

text \<open>The password that let somebody in still does after an old hash was replaced.\<close>

lemma with_password_stays:
  assumes "hashes_ok (as_hashes S)" "look w k = Some r" "with_password S save auth k r password w = (Ok answer, w')"
  shows "\<exists>r'. look w' k = Some r' \<and> password_check (as_hashes S) (str_field r' ''password'') password = Ok True"
proof -
  note check = with_password_Ok(1) [OF assms(3)]
  have "admit S save auth k r password w = (Ok answer, w')"
    using assms(3) by (auto simp: with_password_def split: outcome.splits if_splits)
  then obtain w1 h where w1: "log_in S k auth w = (Ok (), w1)"
    and h: "password_rehash_old (as_hashes S) (as_drawn S) (str_field r ''password'') password = Ok h"
    and rest: "if h \<noteq> str_field r ''password'' then save k (set_field ''password'' (map_option FStr h) r) w1 = (Ok (), w') else w' = w1"
    by (auto simp: admit_def split: prod.splits outcome.splits if_splits)
  have accepts: "password_check (as_hashes S) h password = Ok True" using rehash_accepts [OF assms(1) check h] .
  show ?thesis
  proof (cases "h = str_field r ''password''")
    case True
    have "look w' k = look w k" using rest True look_log_in [of S k auth w k] w1 by simp
    with True assms(2) check show ?thesis by auto
  next
    case False
    have "str_field (set_field ''password'' (map_option FStr h) r) ''password'' = h"
      by (cases h) (simp_all add: str_field_def set_field_def)
    with False rest save_Ok [of k _ w1 w'] accepts show ?thesis by fastforce
  qed
qed

end

lemma str_field_dset: "f \<noteq> g \<Longrightarrow> str_field (dset f v r) g = str_field r g"
  by (simp add: str_field_def)

lemma login_ok_Raise: "login_ok l = Raise e \<Longrightarrow> e \<noteq> LoginFailed"
  by (auto simp: login_ok_def split: option.splits if_splits)

lemma email_ok_Raise: "email_ok H m = Raise e \<Longrightarrow> e \<noteq> LoginFailed"
  by (auto simp: email_ok_def split: option.splits if_splits)

lemma full_name_Raise: "full_name a b = Raise e \<Longrightarrow> e \<noteq> LoginFailed"
  by (auto simp: full_name_def split: option.splits)

lemma user_saved_Ok: "user_saved H k r t = Ok r' \<Longrightarrow> str_field r' ''password'' = str_field r ''password''"
  by (auto simp: user_saved_def Let_def outcome_simps str_field_dset split: if_splits)

lemma user_saved_Raise: "user_saved H k r t = Raise e \<Longrightarrow> e \<noteq> LoginFailed"
  unfolding user_saved_def Let_def
  by (cases "login_ok (str_field r ''login'')"; cases "email_ok H (str_field r ''email'')";
      cases "full_name (str_field r ''firstname'') (str_field r ''lastname'')";
      cases "full_name (str_field r ''lastname'') (str_field r ''firstname'')")
    (auto split: if_splits dest: login_ok_Raise email_ok_Raise full_name_Raise)

interpretation users: account_table "save_user H" "\<lambda>w k. dget (ac_users w) k" for H
  by unfold_locales
    (auto simp: save_user_def store_session_def user_saved_Ok dest: user_saved_Raise split: outcome.splits)

interpretation machines: account_table save_machine "\<lambda>w k. dget (ac_machines w) k"
  by unfold_locales (auto simp: save_machine_def store_session_def dest: login_ok_Raise split: outcome.splits if_splits)

interpretation contestants: account_table save_contestant "\<lambda>w k. dget (ac_contestants w) k"
  by unfold_locales
    (auto simp: save_contestant_def store_session_def outcome_simps bind_ok_eq_Raise dest: login_ok_Raise split: outcome.splits if_splits)

subsection \<open>Properties\<close>

text \<open>
  C19 (login_sound): A login answers a token only for the one account of that name whose password check accepts the
  password: a user has to be activated, a machine has to call from its network, a contestant has to be the one of that name in
  the contest that is locked for the caller's address. The session of the token is then that of the account. A login that is
  refused with LoginFailed, of a user, a machine or a contestant, changes nothing.
\<close>

theorem login_sound:
  "(\<forall>answer w'. authenticate_user S login password w = (Ok answer, w') \<longrightarrow>
      (\<exists>k r. by_login login (ac_users w) = [(k, r)] \<and> flag_field r ''activated'' \<and> lets_in S password ''user'' k r answer w'))
   \<and> (\<forall>answer w'. authenticate_machine S login password w = (Ok answer, w') \<longrightarrow>
      (\<exists>k r. by_login login (ac_machines w) = [(k, r)] \<and> check_ip S r = Ok True \<and> lets_in S password ''machine'' k r answer w'))
   \<and> (\<forall>answer w'. authenticate_contestant S login password w = (Ok answer, w') \<longrightarrow>
      (\<exists>k r c. as_lock S = Ok (Some c)
         \<and> filter (\<lambda>(k, r). key_field r ''contest'' = Some c) (by_login login (ac_contestants w)) = [(k, r)]
         \<and> lets_in S password ''contestant'' k r answer w'))
   \<and> (\<forall>w'. authenticate_user S login password w = (Raise LoginFailed, w') \<longrightarrow> w' = w)
   \<and> (\<forall>w'. authenticate_machine S login password w = (Raise LoginFailed, w') \<longrightarrow> w' = w)
   \<and> (\<forall>w'. authenticate_contestant S login password w = (Raise LoginFailed, w') \<longrightarrow> w' = w)"
proof (intro conjI allI impI)
  fix answer w'
  assume "authenticate_user S login password w = (Ok answer, w')"
  then obtain k r where "by_login login (ac_users w) = [(k, r)]" "flag_field r ''activated''"
    and p: "with_password S (save_user (as_hashes S)) ''user'' k r password w = (Ok answer, w')"
    by (auto simp: authenticate_user_def split: list.splits if_splits)
  with users.with_password_lets_in [OF p] show "\<exists>k r. by_login login (ac_users w) = [(k, r)] \<and> flag_field r ''activated''
      \<and> lets_in S password ''user'' k r answer w'" by blast
next
  fix answer w'
  assume "authenticate_machine S login password w = (Ok answer, w')"
  then obtain k r where "by_login login (ac_machines w) = [(k, r)]" "check_ip S r = Ok True"
    and p: "with_password S save_machine ''machine'' k r password w = (Ok answer, w')"
    by (auto simp: authenticate_machine_def split: list.splits outcome.splits if_splits)
  with machines.with_password_lets_in [OF p] show "\<exists>k r. by_login login (ac_machines w) = [(k, r)] \<and> check_ip S r = Ok True
      \<and> lets_in S password ''machine'' k r answer w'" by blast
next
  fix answer w'
  assume "authenticate_contestant S login password w = (Ok answer, w')"
  then obtain c k r where c: "as_lock S = Ok (Some c)"
    and kr: "filter (\<lambda>(k, r). key_field r ''contest'' = Some c) (by_login login (ac_contestants w)) = [(k, r)]"
    and p: "with_password S save_contestant ''contestant'' k r password w = (Ok answer, w')"
    by (auto simp: authenticate_contestant_def split: list.splits outcome.splits option.splits)
  from c kr contestants.with_password_lets_in [OF p] show "\<exists>k r c. as_lock S = Ok (Some c)
      \<and> filter (\<lambda>(k, r). key_field r ''contest'' = Some c) (by_login login (ac_contestants w)) = [(k, r)]
      \<and> lets_in S password ''contestant'' k r answer w'" by blast
next
  fix w'
  assume "authenticate_user S login password w = (Raise LoginFailed, w')"
  then show "w' = w"
    by (auto simp: authenticate_user_def dest: users.with_password_failed split: list.splits if_splits)
next
  fix w'
  assume "authenticate_machine S login password w = (Raise LoginFailed, w')"
  then show "w' = w"
    by (auto simp: authenticate_machine_def dest: machines.with_password_failed split: list.splits if_splits outcome.splits)
next
  fix w'
  assume "authenticate_contestant S login password w = (Raise LoginFailed, w')"
  then show "w' = w"
    by (auto simp: authenticate_contestant_def dest: contestants.with_password_failed split: list.splits option.splits outcome.splits)
qed

text \<open>A user with an old password logs in.\<close>

definition sample_site :: asite where
  "sample_site = \<lparr>as_hashes = sample_hashes\<lparr>hs_crypt := \<lambda>p h. if p = ''secret'' then Some ''$1$old'' else None\<rparr>,
     as_crypto = sample_crypto, as_now = 7, as_drawn = ''12ab'', as_ip = ''10.0.0.1'', as_in_network = (\<lambda>_ _. Ok True), as_lock = Ok None\<rparr>"

definition sample_user :: frow where
  "sample_user = [(''login'', FStr ''ann''), (''password'', FStr ''$1$old''), (''activated'', FBool True),
     (''firstname'', FStr ''Ann''), (''lastname'', FStr ''Lee'')]"

definition sample_accounts :: accounts where
  "sample_accounts = \<lparr>ac_users = [(4, sample_user)], ac_machines = [], ac_contestants = [],
     ac_token = \<lparr>tok_key = ''k'', tok_salt = ''s'', tok_session = None, tok_deadline = 9\<rparr>, ac_sessions = []\<rparr>"

theorem login_sound_witness:
  "\<exists>answer w'. authenticate_user sample_site ''ann'' ''secret'' sample_accounts = (Ok answer, w')
     \<and> lets_in sample_site ''secret'' ''user'' 4 sample_user answer w'"
proof -
  have "is_ok (fst (authenticate_user sample_site ''ann'' ''secret'' sample_accounts))" by code_simp
  then obtain answer w' where ok: "authenticate_user sample_site ''ann'' ''secret'' sample_accounts = (Ok answer, w')"
    by (cases "authenticate_user sample_site ''ann'' ''secret'' sample_accounts") (auto simp: is_ok_iff)
  have "by_login ''ann'' (ac_users sample_accounts) = [(4, sample_user)]"
    by (simp add: by_login_def sample_accounts_def sample_user_def str_field_def)
  then show ?thesis using login_sound [of sample_site "''ann''" "''secret''" sample_accounts] ok by auto
qed

end
