(* ===== verification/People.thy ===== *)
theory People
  imports Accounts Privileges "HOL-Library.List_Lexorder" "HOL-Library.Char_ord"
begin

section \<open>Users, contestants and contests\<close>

text \<open>
  \<open>entities/User.py\<close>, \<open>Contestant.py\<close>, \<open>SystemRole.py\<close>, \<open>Machine.py\<close> and the part of \<open>Contest.py\<close> that deals with them.
  \<^item> \<open>people\<close>: the accounts, the other roles, the contests, the memberships and privileges (\<open>priv_db\<close>), the profiles, the
    contests whose contestants were announced to have changed (\<open>checking_changed_contestants\<close>) and the next number.
  \<^item> \<open>psite\<close>: the clock and cryptography of \<open>asite\<close>, \<open>connectby\<close>, the answers of \<open>Privilege.demand\<close>, the roles of
    \<open>Global\<close>, the user of the token, the settings, which blobs exist and whether a row may be deleted.
  A method of an object gets the number of its row and the copy of the row it works on.
\<close>

record people =
  pe_acc :: accounts
  pe_roles :: "(nat, frow) dict"
  pe_contests :: "(nat, frow) dict"
  pe_privs :: priv_db
  pe_profiles :: "(nat, oa_group) dict"
  pe_changed :: "nat list"
  pe_next :: nat

record psite =
  ps_acc :: asite
  ps_connectby :: "(nat \<times> nat) list \<Rightarrow> nat \<Rightarrow> nat list outcome"
  ps_demand :: "people \<Rightarrow> nat \<Rightarrow> string \<Rightarrow> bool outcome"
  ps_authenticated :: nat
  ps_user :: "nat option"
  ps_activation :: bool
  ps_code :: string
  ps_blob_exists :: "string \<Rightarrow> bool"
  ps_protected :: "nat \<Rightarrow> bool"

definition on_acc :: "(accounts \<Rightarrow> 'a outcome \<times> accounts) \<Rightarrow> people \<Rightarrow> 'a outcome \<times> people" where
  "on_acc f w = (case f (pe_acc w) of (r, a) \<Rightarrow> (r, w\<lparr>pe_acc := a\<rparr>))"

definition on_privs :: "(priv_db \<Rightarrow> 'a outcome \<times> priv_db) \<Rightarrow> people \<Rightarrow> 'a outcome \<times> people" where
  "on_privs f w = (case f (pe_privs w) of (r, p) \<Rightarrow> (r, w\<lparr>pe_privs := p\<rparr>))"

definition grant_in :: "psite \<Rightarrow> nat \<Rightarrow> nat \<Rightarrow> string \<Rightarrow> people \<Rightarrow> unit outcome \<times> people" where
  "grant_in S role entity right = on_privs (grant (ps_connectby S) (as_now (ps_acc S)) role entity right None)"

definition join_role :: "nat \<Rightarrow> nat \<Rightarrow> people \<Rightarrow> people" where
  "join_role role member w = w\<lparr>pe_privs := add_member role member (pe_privs w)\<rparr>"

definition leave_role :: "nat \<Rightarrow> nat \<Rightarrow> people \<Rightarrow> people" where
  "leave_role role member w = w\<lparr>pe_privs := delete_member role member (pe_privs w)\<rparr>"

definition return_ok :: "'a \<Rightarrow> 's \<Rightarrow> 'a outcome \<times> 's" where
  "return_ok x s = (Ok x, s)"

definition save_contestant_row :: "nat \<Rightarrow> frow \<Rightarrow> people \<Rightarrow> unit outcome \<times> people" where
  "save_contestant_row k r = on_acc (save_contestant k r)"

definition save_user_row :: "psite \<Rightarrow> nat \<Rightarrow> frow \<Rightarrow> people \<Rightarrow> unit outcome \<times> people" where
  "save_user_row S k r = on_acc (save_user (as_hashes (ps_acc S)) k r)"

text \<open>The stored row after a save, which fills in fields.\<close>

definition user_row :: "nat \<Rightarrow> people \<Rightarrow> frow" where
  "user_row k w = dget_def_val (ac_users (pe_acc w)) k []"

definition contestant_row :: "nat \<Rightarrow> people \<Rightarrow> frow" where
  "contestant_row k w = dget_def_val (ac_contestants (pe_acc w)) k []"

definition contest_row :: "nat \<Rightarrow> people \<Rightarrow> frow" where
  "contest_row k w = dget_def_val (pe_contests w) k []"

subsection \<open>Names of contestants\<close>

text \<open>Any role: its name and the text it is sorted by.\<close>

definition role_row :: "nat \<Rightarrow> people \<Rightarrow> frow" where
  "role_row k w =
     (case dget (ac_users (pe_acc w)) k of
        Some r \<Rightarrow> r
      | None \<Rightarrow> (case dget (ac_contestants (pe_acc w)) k of
          Some r \<Rightarrow> r
        | None \<Rightarrow> (case dget (ac_machines (pe_acc w)) k of Some r \<Rightarrow> r | None \<Rightarrow> dget_def_val (pe_roles w) k [])))"

definition text_of :: "frow \<Rightarrow> string \<Rightarrow> string" where
  "text_of r f = (case str_field r f of Some s \<Rightarrow> s | None \<Rightarrow> [])"

definition clipped :: "string \<Rightarrow> string" where
  "clipped s = (if length s > 250 then take 247 s @ ''...'' else s)"

definition member_rows :: "nat \<Rightarrow> people \<Rightarrow> frow list" where
  "member_rows k w = sort_key (\<lambda>r. text_of r ''sort_field'') (map (\<lambda>m. role_row m w) (get_members k (pe_privs w)))"

definition member_text :: "string \<Rightarrow> nat \<Rightarrow> people \<Rightarrow> string" where
  "member_text f k w = clipped (strip (join '', '' (map (\<lambda>r. text_of r f) (member_rows k w))))"

definition announce :: "frow \<Rightarrow> people \<Rightarrow> people" where
  "announce r w = (case key_field r ''contest'' of None \<Rightarrow> w | Some c \<Rightarrow> w\<lparr>pe_changed := pe_changed w @ [c]\<rparr>)"

definition renamed :: "string \<Rightarrow> string \<Rightarrow> frow \<Rightarrow> frow" where
  "renamed name sort_name r =
     dset ''usernames'' (FStr name)
       (if dget r ''name'' = dget r ''usernames'' then dset ''sort_field'' (FStr sort_name) (dset ''name'' (FStr name) r) else r)"

definition update_usernames :: "nat \<Rightarrow> frow \<Rightarrow> people \<Rightarrow> unit outcome \<times> people" where
  "update_usernames k r w =
     (let r' = renamed (member_text ''name'' k w) (member_text ''sort_field'' k w) r in
      and_then (save_contestant_row k r') (\<lambda>_ w1. (Ok (), announce r' w1)) w)"

subsection \<open>Contestants\<close>

definition one_of :: "'a list \<Rightarrow> 'a option outcome" where
  "one_of xs = (case xs of [] \<Rightarrow> Ok None | [x] \<Rightarrow> Ok (Some x) | _ \<Rightarrow> Raise MultipleObjectsReturned)"

definition find_contestant_in :: "nat \<Rightarrow> nat \<Rightarrow> people \<Rightarrow> nat option outcome" where
  "find_contestant_in contest user w =
     (let own = map fst (filter (\<lambda>(k, r). key_field r ''contest'' = Some contest) (ac_contestants (pe_acc w))) in
      bind_ok (one_of (filter (\<lambda>k. user \<in> set (get_members k (pe_privs w))) own)) (\<lambda>found.
      case found of Some k \<Rightarrow> Ok (Some k) | None \<Rightarrow> one_of (filter (\<lambda>k. k = user) own)))"

definition contestant_defaults :: frow where
  "contestant_defaults = [(''name'', FStr []), (''sort_field'', FStr []), (''usernames'', FStr []), (''accepted'', FBool True), (''invisible'', FBool False)]"

text \<open>The object as \<open>forbid_fields\<close> sees it has its number, too.\<close>

definition with_id :: "nat \<Rightarrow> frow \<Rightarrow> frow" where
  "with_id k r = dset ''id'' (FKey k) r"

definition strip_name :: "frow \<Rightarrow> frow" where
  "strip_name r = (let n = strip (text_of r ''name'') in dset ''sort_field'' (FStr n) (dset ''name'' (FStr n) r))"

definition enlist :: "nat \<Rightarrow> nat \<Rightarrow> nat \<Rightarrow> people \<Rightarrow> unit outcome \<times> people" where
  "enlist contest k user w =
     (case find_contestant_in contest user w of
        Raise e \<Rightarrow> (Raise e, w)
      | Ok (Some _) \<Rightarrow> (Raise AlreadyRegistered, w)
      | Ok None \<Rightarrow> (Ok (), join_role k user w))"

definition contest_role :: "string \<Rightarrow> nat \<Rightarrow> people \<Rightarrow> nat outcome" where
  "contest_role f contest w = (case key_field (contest_row contest w) f of Some r \<Rightarrow> Ok r | None \<Rightarrow> Raise DoesNotExist)"

definition create_contestant :: "psite \<Rightarrow> frow \<Rightarrow> nat list \<Rightarrow> people \<Rightarrow> nat outcome \<times> people" where
  "create_contestant S flds users w =
     (case forbid_fields [''contest''] contestant_defaults flds [''id'', ''usernames'', ''sort_field''] of
        Raise e \<Rightarrow> (Raise e, w)
      | Ok _ \<Rightarrow>
          (let k = pe_next w;
               r = strip_name (fst (update_fields contestant_defaults flds [''name'', ''contest'', ''accepted'', ''invisible'', ''login''])) in
           case key_field r ''contest'' of
             None \<Rightarrow> (Raise DatabaseError, w)
           | Some contest \<Rightarrow>
               and_then (save_contestant_row k r) (\<lambda>_ w1.
               and_then (grant_in S k k ''EDIT'') (\<lambda>_.
               and_then (for_each (enlist contest k) users) (\<lambda>_ w2.
               and_then (if flag_field r ''accepted'' then (\<lambda>w3. case contest_role ''contestant_role'' contest w3 of
                             Raise e \<Rightarrow> (Raise e, w3) | Ok role \<Rightarrow> (Ok (), join_role role k w3))
                         else return_ok ()) (\<lambda>_.
               and_then (update_usernames k r) (\<lambda>_. return_ok k)) w2)) (w1\<lparr>pe_next := k + 1\<rparr>)) w))"

text \<open>The new name is stripped, and its sort field set, only after the row was saved.\<close>

definition modify_contestant :: "nat \<Rightarrow> frow \<Rightarrow> frow \<Rightarrow> people \<Rightarrow> frow outcome \<times> people" where
  "modify_contestant k r flds w =
     (case forbid_fields [''contest''] (with_id k r) flds [''id'', ''usernames'', ''sort_field'', ''contest''] of
        Raise e \<Rightarrow> (Raise e, w)
      | Ok _ \<Rightarrow>
          (let (r1, modified) = update_fields r flds [''name'', ''accepted'', ''invisible'', ''login''];
               r2 = (if ''name'' \<in> set modified then strip_name r1 else r1) in
           and_then (save_contestant_row k r1) (\<lambda>_.
           and_then (if ''accepted'' \<in> set modified
                     then (\<lambda>w1. case contest_role ''contestant_role'' (the (key_field r ''contest'')) w1 of
                             Raise e \<Rightarrow> (Raise e, w1)
                           | Ok role \<Rightarrow> (Ok (), if flag_field r1 ''accepted'' then join_role role k w1 else leave_role role k w1))
                     else return_ok ()) (\<lambda>_ w2. (Ok r2, announce r2 w2))) w))"

definition add_member_user :: "nat \<Rightarrow> frow \<Rightarrow> nat \<Rightarrow> people \<Rightarrow> unit outcome \<times> people" where
  "add_member_user k r user = and_then (enlist (the (key_field r ''contest'')) k user) (\<lambda>_. update_usernames k r)"

definition delete_member_user :: "nat \<Rightarrow> frow \<Rightarrow> nat \<Rightarrow> people \<Rightarrow> unit outcome \<times> people" where
  "delete_member_user k r user w = update_usernames k r (leave_role k user w)"

subsection \<open>Users\<close>

definition user_defaults :: frow where
  "user_defaults = [(''login'', FStr []), (''name'', FStr []), (''sort_field'', FStr []), (''confirmed'', FBool False), (''activated'', FBool True)]"

text \<open>Sixteen characters of a hash of the login, unless a code was given.\<close>

definition with_code :: "psite \<Rightarrow> frow \<times> string list \<Rightarrow> frow outcome" where
  "with_code S acc =
     (case acc of (r, modified) \<Rightarrow>
        if ''activation_code'' \<in> set modified then Ok r
        else map_ok (\<lambda>h. dset ''activation_code'' (FStr (take 16 h)) r) (sha_crypt (as_hashes (ps_acc S)) (text_of r ''login'') (ps_code S)))"

definition create_user :: "psite \<Rightarrow> frow \<Rightarrow> people \<Rightarrow> nat outcome \<times> people" where
  "create_user S flds w =
     (case bind_ok (forbid_fields [] user_defaults flds [''id'', ''name'', ''sort_field''])
         (\<lambda>_. with_code S (update_fields user_defaults flds
            [''login'', ''email'', ''firstname'', ''lastname'', ''confirmed'', ''activated'', ''activation_code'', ''affiliation''])) of
        Raise e \<Rightarrow> (Raise e, w)
      | Ok r \<Rightarrow>
          (let k = pe_next w in
           and_then (save_user_row S k r) (\<lambda>_ w1.
           and_then (grant_in S k k ''EDIT'') (\<lambda>_.
           and_then (grant_in S (ps_authenticated S) k ''VIEW'') (\<lambda>_ w2.
             (Ok k, join_role (ps_authenticated S) k w2))) (w1\<lparr>pe_next := k + 1\<rparr>)) w))"

definition set_user_password :: "psite \<Rightarrow> nat \<Rightarrow> string option \<Rightarrow> people \<Rightarrow> unit outcome \<times> people" where
  "set_user_password S k new w =
     on_acc (set_password (ps_acc S) (save_user (as_hashes (ps_acc S))) k (user_row k w) new) w"

definition set_profile :: "psite \<Rightarrow> nat \<Rightarrow> (string, attr) dict \<Rightarrow> people \<Rightarrow> unit outcome \<times> people" where
  "set_profile S k profile w =
     (case oa_set_map (ps_blob_exists S) profile (dget_def_val (pe_profiles w) k []) of
        (r, g) \<Rightarrow> (raise_oa r, w\<lparr>pe_profiles := dset k g (pe_profiles w)\<rparr>))"

text \<open>The letter with the activation code is not modelled.\<close>

definition register_user :: "psite \<Rightarrow> frow \<Rightarrow> string option \<Rightarrow> (string, attr) dict \<Rightarrow> people \<Rightarrow> unit outcome \<times> people" where
  "register_user S flds password profile =
     and_then (create_user S (dset ''confirmed'' (FBool False) (dset ''activated'' (FBool (\<not> ps_activation S)) flds))) (\<lambda>k.
     and_then (set_user_password S k password) (\<lambda>_.
     set_profile S k profile))"

text \<open>The contestants a user is a member of, as rows read before the loop.\<close>

definition contestants_of :: "nat \<Rightarrow> people \<Rightarrow> (nat \<times> frow) list" where
  "contestants_of user w = filter (\<lambda>(k, r). user \<in> set (get_members k (pe_privs w))) (ac_contestants (pe_acc w))"

definition refresh :: "(nat \<times> frow) list \<Rightarrow> people \<Rightarrow> unit outcome \<times> people" where
  "refresh cs = for_each (\<lambda>(k, r). update_usernames k r) cs"

text \<open>What the branch for callers without the right MANAGE changes is not noted in \<open>changed\<close>.\<close>

definition modified_user :: "bool \<Rightarrow> nat \<Rightarrow> frow \<Rightarrow> frow \<Rightarrow> (frow \<times> string list) outcome" where
  "modified_user manage k r flds =
     (if manage then
        bind_ok (forbid_fields [] (with_id k r) flds [''id'', ''name'', ''sort_field'']) (\<lambda>_.
          Ok (update_fields r flds [''login'', ''email'', ''firstname'', ''lastname'', ''confirmed'', ''activated'', ''activation_code'', ''affiliation'']))
      else
        bind_ok (forbid_fields [] (with_id k r) flds [''id'', ''name'', ''sort_field'', ''login'', ''confirmed'', ''activated'', ''activation_code'', ''email'']) (\<lambda>_.
          if flag_field r ''confirmed'' then map_ok (\<lambda>_. (r, [])) (forbid_fields [] (with_id k r) flds [''firstname'', ''lastname''])
          else Ok (fst (update_fields r flds [''firstname'', ''lastname'', ''affiliation'']), [])))"

definition modify_user :: "psite \<Rightarrow> nat \<Rightarrow> frow \<Rightarrow> people \<Rightarrow> unit outcome \<times> people" where
  "modify_user S k flds w =
     (case bind_ok (ps_demand S w k ''MANAGE'') (\<lambda>manage. modified_user manage k (user_row k w) flds) of
        Raise e \<Rightarrow> (Raise e, w)
      | Ok (r, changed) \<Rightarrow>
          and_then (save_user_row S k r) (\<lambda>_ w1.
            if ''firstname'' \<in> set changed \<or> ''lastname'' \<in> set changed then refresh (contestants_of k w1) w1 else (Ok (), w1)) w)"

text \<open>Deleting a row takes its memberships, privileges and sessions along.\<close>

definition forget_role :: "nat \<Rightarrow> people \<Rightarrow> people" where
  "forget_role k w =
     w\<lparr>pe_acc := (pe_acc w)\<lparr>ac_users := ddel k (ac_users (pe_acc w)), ac_contestants := ddel k (ac_contestants (pe_acc w)),
         ac_machines := ddel k (ac_machines (pe_acc w)),
         ac_sessions := filter (\<lambda>(i, s). ses_role s \<noteq> Some k) (ac_sessions (pe_acc w))\<rparr>,
       pe_roles := ddel k (pe_roles w),
       pe_privs := (pe_privs w)\<lparr>role_map := filter (\<lambda>(p, c). p \<noteq> k \<and> c \<noteq> k) (role_map (pe_privs w)),
         priv_rows := filter (\<lambda>((r, e, n), t). r \<noteq> k \<and> e \<noteq> k) (priv_rows (pe_privs w))\<rparr>\<rparr>"

definition delete_role :: "psite \<Rightarrow> nat \<Rightarrow> people \<Rightarrow> unit outcome \<times> people" where
  "delete_role S k w = (if ps_protected S k then (Raise CannotDeleteObject, w) else (Ok (), forget_role k w))"

definition delete_user :: "psite \<Rightarrow> nat \<Rightarrow> people \<Rightarrow> unit outcome \<times> people" where
  "delete_user S k w = and_then (delete_role S k) (\<lambda>_. refresh (contestants_of k w)) w"

definition activate_user :: "psite \<Rightarrow> string \<Rightarrow> people \<Rightarrow> unit outcome \<times> people" where
  "activate_user S activation w =
     (case filter (\<lambda>(k, r). str_field r ''activation_code'' = Some activation) (ac_users (pe_acc w)) of
        [] \<Rightarrow> (Raise DoesNotExist, w)
      | [(k, r)] \<Rightarrow> save_user_row S k (dset ''activated'' (FBool True) r) w
      | _ \<Rightarrow> (Raise MultipleObjectsReturned, w))"

definition delete_contestant :: "psite \<Rightarrow> nat \<Rightarrow> frow \<Rightarrow> people \<Rightarrow> unit outcome \<times> people" where
  "delete_contestant S k r = and_then (delete_role S k) (\<lambda>_ w. (Ok (), announce r w))"

subsection \<open>Machines and system roles\<close>

definition new_role :: frow where
  "new_role = [(''name'', FStr []), (''sort_field'', FStr [])]"

definition machine_defaults :: frow where
  "machine_defaults = [(''name'', FStr []), (''sort_field'', FStr []), (''login'', FStr []), (''netmask'', FStr ''255.255.255.255'')]"

definition put_machine :: "nat \<Rightarrow> frow \<Rightarrow> frow \<Rightarrow> frow \<Rightarrow> people \<Rightarrow> nat outcome \<times> people" where
  "put_machine k own r flds w =
     (case forbid_fields [] own flds [''id''] of
        Raise e \<Rightarrow> (Raise e, w)
      | Ok _ \<Rightarrow>
          and_then (on_acc (save_machine k (strip_name (fst (update_fields r flds [''name'', ''login'', ''address'', ''netmask'']))))) (\<lambda>_ w1.
            (Ok k, w1\<lparr>pe_next := max (pe_next w1) (k + 1)\<rparr>)) w)"

definition create_machine :: "frow \<Rightarrow> people \<Rightarrow> nat outcome \<times> people" where
  "create_machine flds w = put_machine (pe_next w) machine_defaults machine_defaults flds w"

definition modify_machine :: "nat \<Rightarrow> frow \<Rightarrow> people \<Rightarrow> nat outcome \<times> people" where
  "modify_machine k flds w = (let r = dget_def_val (ac_machines (pe_acc w)) k [] in put_machine k (with_id k r) r flds w)"

definition put_system_role :: "nat \<Rightarrow> frow \<Rightarrow> frow \<Rightarrow> frow \<Rightarrow> people \<Rightarrow> nat outcome \<times> people" where
  "put_system_role k own r flds w =
     (case forbid_fields [] own flds [''id'', ''sort_field''] of
        Raise e \<Rightarrow> (Raise e, w)
      | Ok _ \<Rightarrow>
          (Ok k, w\<lparr>pe_roles := dset k (strip_name (fst (update_fields r flds [''name'']))) (pe_roles w), pe_next := max (pe_next w) (k + 1)\<rparr>))"

definition create_system_role :: "frow \<Rightarrow> people \<Rightarrow> nat outcome \<times> people" where
  "create_system_role flds w = put_system_role (pe_next w) new_role new_role flds w"

definition modify_system_role :: "nat \<Rightarrow> frow \<Rightarrow> people \<Rightarrow> nat outcome \<times> people" where
  "modify_system_role k flds w = (let r = dget_def_val (pe_roles w) k [] in put_system_role k (with_id k r) r flds w)"

subsection \<open>Joining a contest\<close>

definition join_contest :: "psite \<Rightarrow> nat \<Rightarrow> people \<Rightarrow> nat outcome \<times> people" where
  "join_contest S contest w =
     (case ps_demand S w contest ''JOIN'' of
        Raise e \<Rightarrow> (Raise e, w)
      | Ok b \<Rightarrow>
          (case ps_user S of
             None \<Rightarrow> (Raise (AttributeError ''login''), w)
           | Some u \<Rightarrow> create_contestant S [(''contest'', FKey contest), (''accepted'', FBool b)] [u] w))"

definition add_admin :: "psite \<Rightarrow> nat \<Rightarrow> nat \<Rightarrow> people \<Rightarrow> unit outcome \<times> people" where
  "add_admin S contest user w =
     (case find_contestant_in contest user w of
        Raise e \<Rightarrow> (Raise e, w)
      | Ok found \<Rightarrow>
          and_then (case found of
              None \<Rightarrow> create_contestant S [(''contest'', FKey contest), (''accepted'', FBool True), (''invisible'', FBool True)] [user]
            | Some k \<Rightarrow> and_then (modify_contestant k (contestant_row k w) [(''accepted'', FBool True), (''invisible'', FBool True)]) (\<lambda>_. return_ok k))
            (\<lambda>k w1. case contest_role ''admin_role'' contest w1 of
                Raise e \<Rightarrow> (Raise e, w1)
              | Ok role \<Rightarrow> (Ok (), (join_role role k w1)\<lparr>pe_changed := pe_changed w1 @ [contest]\<rparr>)) w)"

definition delete_admin :: "nat \<Rightarrow> nat \<Rightarrow> people \<Rightarrow> unit outcome \<times> people" where
  "delete_admin contest role w =
     (case find_contestant_in contest role w of
        Raise e \<Rightarrow> (Raise e, w)
      | Ok None \<Rightarrow> (Ok (), w)
      | Ok (Some k) \<Rightarrow>
          (case contest_role ''admin_role'' contest w of
             Raise e \<Rightarrow> (Raise e, w)
           | Ok admins \<Rightarrow>
               and_then (modify_contestant k (contestant_row k w) [(''invisible'', FBool False)]) (\<lambda>_. return_ok ()) (leave_role admins k w)))"

end
