(* ===== verification/People_Props.thy ===== *)
theory People_Props
  imports People
begin

section \<open>Names of contestants follow the users\<close>

text \<open>
  A contestant has the names of its members in its row (\<open>usernames\<close>), where lists of contestants and the rankings take
  it from.
  \<^item> \<open>names_current\<close>: the row says what the members are called now; \<open>names_ok\<close>: all rows do.
  \<^item> \<open>named\<close>: the name of a user is made of first and last name, as \<open>User.save\<close> writes it.
\<close>

definition names_current :: "nat \<Rightarrow> people \<Rightarrow> bool" where
  "names_current k w \<longleftrightarrow> str_field (contestant_row k w) ''usernames'' = Some (member_text ''name'' k w)"

definition members_ok :: "people \<Rightarrow> bool" where
  "members_ok w \<longleftrightarrow> (\<forall>k \<in> set (dkeys (ac_contestants (pe_acc w))). set (get_members k (pe_privs w)) \<subseteq> set (dkeys (ac_users (pe_acc w))))"

definition names_ok :: "people \<Rightarrow> bool" where
  "names_ok w \<longleftrightarrow> (\<forall>k \<in> set (dkeys (ac_contestants (pe_acc w))). names_current k w)"

definition named :: "frow \<Rightarrow> bool" where
  "named r \<longleftrightarrow> (\<exists>a b. str_field r ''firstname'' = Some a \<and> str_field r ''lastname'' = Some b
     \<and> str_field r ''name'' = Some (strip (a @ '' '' @ b)) \<and> str_field r ''sort_field'' = Some (strip (b @ '' '' @ a)))"

lemma insort_key_same: "f x = g x \<Longrightarrow> (\<And>y. y \<in> set ys \<Longrightarrow> f y = g y) \<Longrightarrow> insort_key f x ys = insort_key g x ys"
  by (induction ys) auto

lemma sort_key_same: "(\<And>x. x \<in> set xs \<Longrightarrow> f x = g x) \<Longrightarrow> sort_key f xs = sort_key g xs"
  by (induction xs) (auto intro: insort_key_same)

lemma member_text_cong:
  assumes "pe_privs w' = pe_privs w"
    and "\<And>m. m \<in> set (get_members k (pe_privs w)) \<Longrightarrow>
      text_of (role_row m w') ''name'' = text_of (role_row m w) ''name''
      \<and> text_of (role_row m w') ''sort_field'' = text_of (role_row m w) ''sort_field''"
  shows "member_text ''name'' k w' = member_text ''name'' k w"
proof -
  have names: "map (\<lambda>r. text_of r ''name'') (sort_key (\<lambda>r. text_of r ''sort_field'') (map f ms))
      = map (\<lambda>m. text_of (f m) ''name'') (sort_key (\<lambda>m. text_of (f m) ''sort_field'') ms)" for f and ms :: "nat list"
  proof -
    have "sort_key (\<lambda>r. text_of r ''sort_field'') (map f ms) = map f (sort_key (\<lambda>m. text_of (f m) ''sort_field'') ms)"
    proof (induction ms)
      case (Cons m ms)
      have "insort_key (\<lambda>r. text_of r ''sort_field'') (f m) (map f xs) = map f (insort_key (\<lambda>m. text_of (f m) ''sort_field'') m xs)" for xs
        by (induction xs) auto
      with Cons show ?case by simp
    qed simp
    then show ?thesis by simp
  qed
  let ?ms = "get_members k (pe_privs w)"
  have "sort_key (\<lambda>m. text_of (role_row m w') ''sort_field'') ?ms = sort_key (\<lambda>m. text_of (role_row m w) ''sort_field'') ?ms"
    by (rule sort_key_same) (use assms(2) in auto)
  then show ?thesis
    unfolding member_text_def member_rows_def names assms(1) using assms(2)
    by (auto intro!: arg_cong [where f = clipped] arg_cong [where f = strip] arg_cong [where f = "join '', ''"])
qed

subsection \<open>Refreshing\<close>

lemma save_contestant_row_Ok:
  "save_contestant_row k r w = (Ok (), w') \<Longrightarrow>
     w' = w\<lparr>pe_acc := (pe_acc w)\<lparr>ac_contestants := dset k r (ac_contestants (pe_acc w))\<rparr>\<rparr>"
  by (auto simp: save_contestant_row_def on_acc_def save_contestant_def split: prod.splits outcome.splits if_splits)

text \<open>What \<open>update_usernames\<close> does to the rest, and that the row is current afterwards.\<close>

definition only_contestants :: "nat set \<Rightarrow> people \<Rightarrow> people \<Rightarrow> bool" where
  "only_contestants K w w' \<longleftrightarrow>
     pe_privs w' = pe_privs w \<and> ac_users (pe_acc w') = ac_users (pe_acc w)
     \<and> set (dkeys (ac_contestants (pe_acc w'))) = K \<union> set (dkeys (ac_contestants (pe_acc w)))
     \<and> (\<forall>k. k \<notin> K \<longrightarrow> dget (ac_contestants (pe_acc w')) k = dget (ac_contestants (pe_acc w)) k)"

lemma only_contestants_trans:
  "only_contestants K w w1 \<Longrightarrow> only_contestants L w1 w2 \<Longrightarrow> only_contestants (K \<union> L) w w2"
  by (auto simp: only_contestants_def)

lemma announce_acc [simp]: "pe_acc (announce r w) = pe_acc w" "pe_privs (announce r w) = pe_privs w"
  by (simp_all add: announce_def split: option.split)

lemma update_usernames_Ok:
  assumes "update_usernames k r w = (Ok (), w')"
  shows "only_contestants {k} w w'" and "str_field (contestant_row k w') ''usernames'' = Some (member_text ''name'' k w)"
proof -
  let ?r = "renamed (member_text ''name'' k w) (member_text ''sort_field'' k w) r"
  obtain w1 where w1: "save_contestant_row k ?r w = (Ok (), w1)" and w': "w' = announce ?r w1"
    using assms by (auto simp: update_usernames_def and_then_def Let_def split: prod.splits outcome.splits)
  note row = save_contestant_row_Ok [OF w1]
  show "only_contestants {k} w w'" by (auto simp: only_contestants_def w' row)
  show "str_field (contestant_row k w') ''usernames'' = Some (member_text ''name'' k w)"
    by (simp add: contestant_row_def w' row dget_def_val_def str_field_def renamed_def)
qed

lemma member_text_users:
  assumes "pe_privs w' = pe_privs w" "ac_users (pe_acc w') = ac_users (pe_acc w)"
    and "set (get_members k (pe_privs w)) \<subseteq> set (dkeys (ac_users (pe_acc w)))"
  shows "member_text ''name'' k w' = member_text ''name'' k w"
proof (rule member_text_cong [OF assms(1)])
  fix m assume "m \<in> set (get_members k (pe_privs w))"
  with assms(3) have "dget (ac_users (pe_acc w)) m \<noteq> None" by (auto simp: dget_None_iff)
  then have "role_row m w' = role_row m w" by (auto simp: role_row_def assms(2))
  then show "text_of (role_row m w') ''name'' = text_of (role_row m w) ''name''
      \<and> text_of (role_row m w') ''sort_field'' = text_of (role_row m w) ''sort_field''" by simp
qed

lemma names_current_keeps:
  assumes "only_contestants K w w'" "k \<notin> K" "set (get_members k (pe_privs w)) \<subseteq> set (dkeys (ac_users (pe_acc w)))"
  shows "names_current k w' \<longleftrightarrow> names_current k w"
  using assms member_text_users [of w' w k]
  by (simp add: names_current_def only_contestants_def contestant_row_def dget_def_val_def)

lemma refresh_Ok:
  assumes "refresh cs w = (Ok (), w')" "distinct (map fst cs)"
    and "\<forall>k \<in> fst ` set cs. set (get_members k (pe_privs w)) \<subseteq> set (dkeys (ac_users (pe_acc w)))"
  shows "only_contestants (fst ` set cs) w w' \<and> (\<forall>k \<in> fst ` set cs. names_current k w')"
  using assms
proof (induction cs arbitrary: w)
  case Nil
  then show ?case by (auto simp: refresh_def only_contestants_def)
next
  case (Cons c cs)
  obtain k r where c: "c = (k, r)" by (cases c)
  from Cons.prems(1) c obtain w1 where up: "update_usernames k r w = (Ok (), w1)" and rest: "refresh cs w1 = (Ok (), w')"
    by (auto simp: refresh_def split: prod.splits outcome.splits)
  note step = update_usernames_Ok [OF up]
  have same: "pe_privs w1 = pe_privs w" "ac_users (pe_acc w1) = ac_users (pe_acc w)"
    using step(1) by (simp_all add: only_contestants_def)
  have mem: "set (get_members k (pe_privs w)) \<subseteq> set (dkeys (ac_users (pe_acc w)))" using Cons.prems(3) c by simp
  have ih: "only_contestants (fst ` set cs) w1 w'" "\<forall>k \<in> fst ` set cs. names_current k w'"
    using Cons.IH [OF rest] Cons.prems(2,3) c same by auto
  have "names_current k w1"
    using step(2) member_text_users [OF same mem] by (simp add: names_current_def)
  moreover have "k \<notin> fst ` set cs" using Cons.prems(2) c by simp
  ultimately have "names_current k w'" using names_current_keeps [OF ih(1)] mem same by simp
  with ih(2) only_contestants_trans [OF step(1) ih(1)] c show ?case by auto
qed

subsection \<open>Changing a user\<close>

lemma save_user_row_Ok:
  assumes "save_user_row S k r w = (Ok (), w')"
  shows "\<exists>r'. w' = w\<lparr>pe_acc := (pe_acc w)\<lparr>ac_users := dset k r' (ac_users (pe_acc w))\<rparr>\<rparr> \<and> named r'
    \<and> str_field r' ''firstname'' = str_field r ''firstname'' \<and> str_field r' ''lastname'' = str_field r ''lastname''"
proof -
  obtain r' where r': "user_saved (as_hashes (ps_acc S)) k r (ac_users (pe_acc w)) = Ok r'"
    and w': "w' = w\<lparr>pe_acc := (pe_acc w)\<lparr>ac_users := dset k r' (ac_users (pe_acc w))\<rparr>\<rparr>"
    using assms by (auto simp: save_user_row_def on_acc_def save_user_def split: prod.splits outcome.splits)
  obtain name sort_name where
    names: "full_name (str_field r ''firstname'') (str_field r ''lastname'') = Ok name"
      "full_name (str_field r ''lastname'') (str_field r ''firstname'') = Ok sort_name"
    and eq: "r' = dset ''sort_field'' (FStr sort_name) (dset ''name'' (FStr name) r)"
    using r' by (auto simp: user_saved_def Let_def outcome_simps split: if_splits)
  from names obtain a b where ab: "str_field r ''firstname'' = Some a" "str_field r ''lastname'' = Some b"
    "name = strip (a @ '' '' @ b)" "sort_name = strip (b @ '' '' @ a)"
    by (auto simp: full_name_def split: option.splits)
  have keep: "str_field r' ''firstname'' = str_field r ''firstname''" "str_field r' ''lastname'' = str_field r ''lastname''"
    "str_field r' ''name'' = Some name" "str_field r' ''sort_field'' = Some sort_name"
    by (simp_all add: eq str_field_def)
  with ab have "named r'" by (simp add: named_def)
  with w' keep show ?thesis by blast
qed

lemma named_texts:
  "named r \<Longrightarrow> named r' \<Longrightarrow> str_field r' ''firstname'' = str_field r ''firstname'' \<Longrightarrow> str_field r' ''lastname'' = str_field r ''lastname''
    \<Longrightarrow> text_of r' ''name'' = text_of r ''name'' \<and> text_of r' ''sort_field'' = text_of r ''sort_field''"
  by (auto simp: named_def text_of_def)

text \<open>After a user's row was saved: the names of a contestant whose members are called as before.\<close>

lemma saved_user_member_text:
  assumes "w' = w\<lparr>pe_acc := (pe_acc w)\<lparr>ac_users := dset k r' (ac_users (pe_acc w))\<rparr>\<rparr>"
    and "k \<in> set (get_members c (pe_privs w)) \<Longrightarrow> dget (ac_users (pe_acc w)) k = Some r
      \<and> text_of r' ''name'' = text_of r ''name'' \<and> text_of r' ''sort_field'' = text_of r ''sort_field''"
  shows "member_text ''name'' c w' = member_text ''name'' c w"
proof (rule member_text_cong)
  fix m assume m: "m \<in> set (get_members c (pe_privs w))"
  have same: "role_row m w' = role_row m w" if "m \<noteq> k" using that by (auto simp: role_row_def assms(1) split: option.split)
  show "text_of (role_row m w') ''name'' = text_of (role_row m w) ''name''
      \<and> text_of (role_row m w') ''sort_field'' = text_of (role_row m w) ''sort_field''"
  proof (cases "m = k")
    case True
    with m assms(2) show ?thesis by (auto simp: role_row_def assms(1))
  qed (simp add: same)
qed (simp add: assms(1))

text \<open>
  C20 (names_follow_users): When somebody who may manage a user changes it, the rows of all contestants say what their
  members are called afterwards, if they did before.
\<close>

theorem names_follow_users:
  assumes ok: "names_ok w" "members_ok w" "dict_ok (ac_contestants (pe_acc w))"
    and row: "dget (ac_users (pe_acc w)) k = Some r" "named r"
    and manage: "ps_demand S w k ''MANAGE'' = Ok True"
    and run: "modify_user S k flds w = (Ok (), w')"
  shows "names_ok w' \<and> members_ok w'"
proof -
  let ?fs = "[''login'', ''email'', ''firstname'', ''lastname'', ''confirmed'', ''activated'', ''activation_code'', ''affiliation'']"
  obtain r1 changed where upd: "update_fields r flds ?fs = (r1, changed)" by fastforce
  obtain w1 where saved: "save_user_row S k r1 w = (Ok (), w1)"
    and rest: "(if ''firstname'' \<in> set changed \<or> ''lastname'' \<in> set changed then refresh (contestants_of k w1) w1 else (Ok (), w1)) = (Ok (), w')"
    using run manage upd row(1)
    by (auto simp: modify_user_def modified_user_def user_row_def dget_def_val_def outcome_simps and_then_def
        split: outcome.splits prod.splits)
  from save_user_row_Ok [OF saved] obtain r2 where w1: "w1 = w\<lparr>pe_acc := (pe_acc w)\<lparr>ac_users := dset k r2 (ac_users (pe_acc w))\<rparr>\<rparr>"
    and r2: "named r2" "str_field r2 ''firstname'' = str_field r1 ''firstname''" "str_field r2 ''lastname'' = str_field r1 ''lastname''"
    by blast
  have "distinct ?fs" by simp
  from update_fields_spec(2) [OF this upd] have chg: "set changed = {f \<in> set ?fs. dget r1 f \<noteq> dget r f}" by (simp only: set_filter)
  have mem1: "members_ok w1" using ok(2) w1 by (auto simp: members_ok_def)
  have cur1: "names_current c w1" if "c \<in> set (dkeys (ac_contestants (pe_acc w)))"
    and "k \<in> set (get_members c (pe_privs w)) \<Longrightarrow> ''firstname'' \<notin> set changed \<and> ''lastname'' \<notin> set changed" for c
  proof -
    have "text_of r2 ''name'' = text_of r ''name'' \<and> text_of r2 ''sort_field'' = text_of r ''sort_field''"
      if "''firstname'' \<notin> set changed \<and> ''lastname'' \<notin> set changed"
    proof (rule named_texts [OF row(2) r2(1)])
      have "dget r1 ''firstname'' = dget r ''firstname''" "dget r1 ''lastname'' = dget r ''lastname''"
        using that chg by auto
      then show "str_field r2 ''firstname'' = str_field r ''firstname''" "str_field r2 ''lastname'' = str_field r ''lastname''"
        using r2(2,3) by (simp_all add: str_field_def)
    qed
    with that(2) row(1) have "member_text ''name'' c w1 = member_text ''name'' c w"
      by (intro saved_user_member_text [OF w1]) auto
    moreover have "contestant_row c w1 = contestant_row c w" by (simp add: contestant_row_def w1)
    ultimately show ?thesis using ok(1) that(1) by (simp add: names_ok_def names_current_def)
  qed
  show ?thesis
  proof (cases "''firstname'' \<in> set changed \<or> ''lastname'' \<in> set changed")
    case False
    with rest have "w' = w1" by simp
    with cur1 mem1 False show ?thesis by (auto simp: names_ok_def w1)
  next
    case True
    with rest have ref: "refresh (contestants_of k w1) w1 = (Ok (), w')" by simp
    have "distinct (map fst (contestants_of k w1))"
      using ok(3) by (simp add: contestants_of_def w1 dict_ok_def distinct_map_filter)
    moreover have sub: "fst ` set (contestants_of k w1) = {c \<in> set (dkeys (ac_contestants (pe_acc w))). k \<in> set (get_members c (pe_privs w))}"
      by (auto simp: contestants_of_def w1 dkeys_def)
    ultimately have dn: "only_contestants (fst ` set (contestants_of k w1)) w1 w'" "\<forall>c \<in> fst ` set (contestants_of k w1). names_current c w'"
      using refresh_Ok [OF ref] mem1 unfolding members_ok_def sub by (auto simp: w1)
    have keys: "dkeys (ac_contestants (pe_acc w1)) = dkeys (ac_contestants (pe_acc w))" by (simp add: w1)
    have all: "set (dkeys (ac_contestants (pe_acc w'))) = set (dkeys (ac_contestants (pe_acc w)))"
      using dn(1) sub keys by (auto simp: only_contestants_def)
    have "names_current c w'" if c: "c \<in> set (dkeys (ac_contestants (pe_acc w)))" for c
    proof (cases "k \<in> set (get_members c (pe_privs w))")
      case True
      with c dn(2) sub show ?thesis by blast
    next
      case False
      then have "c \<notin> fst ` set (contestants_of k w1)" using sub by blast
      moreover have "set (get_members c (pe_privs w1)) \<subseteq> set (dkeys (ac_users (pe_acc w1)))"
        using mem1 c keys by (simp add: members_ok_def)
      ultimately show ?thesis using names_current_keeps [OF dn(1)] cur1 [OF c] False by blast
    qed
    moreover have "members_ok w'"
      using mem1 dn(1) all keys by (auto simp: members_ok_def only_contestants_def)
    ultimately show ?thesis using all by (simp add: names_ok_def)
  qed
qed

subsection \<open>A sample\<close>

definition sample_ann :: frow where
  "sample_ann = [(''login'', FStr ''ann''), (''activated'', FBool True), (''firstname'', FStr ''Ann''), (''lastname'', FStr ''Lee''),
     (''name'', FStr ''Ann Lee''), (''sort_field'', FStr ''Lee Ann'')]"

definition sample_people :: people where
  "sample_people =
     \<lparr>pe_acc = \<lparr>ac_users = [(4, sample_ann)], ac_machines = [],
        ac_contestants = [(5, [(''name'', FStr ''Ann Lee''), (''sort_field'', FStr ''Lee Ann''), (''usernames'', FStr ''Ann Lee''),
          (''contest'', FKey 1), (''accepted'', FBool True)])],
        ac_token = \<lparr>tok_key = ''k'', tok_salt = ''s'', tok_session = None, tok_deadline = 9\<rparr>, ac_sessions = []\<rparr>,
      pe_roles = [], pe_contests = [(1, [(''contestant_role'', FKey 2), (''admin_role'', FKey 3)])],
      pe_privs = \<lparr>role_map = [(5, 4)], priv_rows = [], user_id = None, user_roles = [], user_privs = []\<rparr>,
      pe_profiles = [], pe_changed = [], pe_next = 10\<rparr>"

definition sample_psite :: "bool \<Rightarrow> psite" where
  "sample_psite manage =
     \<lparr>ps_acc = sample_site, ps_connectby = sample_connectby, ps_demand = (\<lambda>_ _ _. Ok manage), ps_authenticated = 7, ps_user = Some 4,
      ps_activation = False, ps_code = ''0123456789abcdef'', ps_blob_exists = (\<lambda>_. True), ps_protected = (\<lambda>_. False)\<rparr>"

lemma sample_people_ok:
  "names_ok sample_people" "members_ok sample_people" "dict_ok (ac_contestants (pe_acc sample_people))"
  "dget (ac_users (pe_acc sample_people)) 4 = Some sample_ann" "ps_demand (sample_psite b) w k r = Ok b"
  unfolding sample_psite_def by code_simp+

lemma sample_ann_named: "named sample_ann"
proof -
  have "strip ''Ann Lee'' = ''Ann Lee''" "strip ''Lee Ann'' = ''Lee Ann''" by code_simp+
  then show ?thesis by (simp add: named_def sample_ann_def str_field_def)
qed

theorem names_follow_users_witness:
  "\<exists>w'. modify_user (sample_psite True) 4 [(''firstname'', FStr ''Anna'')] sample_people = (Ok (), w')
     \<and> names_current 5 w' \<and> str_field (contestant_row 5 w') ''usernames'' = Some ''Anna Lee''"
proof -
  have ok: "is_ok (fst (modify_user (sample_psite True) 4 [(''firstname'', FStr ''Anna'')] sample_people))
      \<and> str_field (contestant_row 5 (snd (modify_user (sample_psite True) 4 [(''firstname'', FStr ''Anna'')] sample_people))) ''usernames'' = Some ''Anna Lee''
      \<and> 5 \<in> set (dkeys (ac_contestants (pe_acc (snd (modify_user (sample_psite True) 4 [(''firstname'', FStr ''Anna'')] sample_people)))))"
    by code_simp
  then obtain w' where run: "modify_user (sample_psite True) 4 [(''firstname'', FStr ''Anna'')] sample_people = (Ok (), w')"
    by (cases "modify_user (sample_psite True) 4 [(''firstname'', FStr ''Anna'')] sample_people") (auto simp: is_ok_iff)
  with ok names_follow_users [OF sample_people_ok(1-4) sample_ann_named sample_people_ok(5) run] show ?thesis
    by (auto simp: names_ok_def)
qed

text \<open>
  (self_change_stale): A user who changes its own name without the right MANAGE gets the new name, but its contestants
  keep the old one.
\<close>

theorem self_change_stale:
  "let (r, w') = modify_user (sample_psite False) 4 [(''firstname'', FStr ''Anna'')] sample_people in
     r = Ok () \<and> str_field (user_row 4 w') ''name'' = Some ''Anna Lee'' \<and> \<not> names_current 5 w' \<and> pe_changed w' = []"
  by code_simp

end
