(* ===== verification/Entities_Judging.thy ===== *)
theory Entities_Judging
  imports Check_Master Entity_Fields Privileges
begin

section \<open>Submits and results as clients see them\<close>

text \<open>
  The exported methods of \<open>entities/Judge.py\<close>, \<open>Submit.py\<close>, \<open>TemporarySubmit.py\<close>, \<open>TestResult.py\<close>, \<open>TestSuiteResult.py\<close>,
  \<open>Test.py\<close> and \<open>TestSuite.py\<close> that change what the checking master works on.
  \<^item> \<open>judging\<close>: the tables, the attribute groups of submits and temporary submits, the privileges, and the events sent to
    the checking master.
  \<^item> \<open>jsite\<close>: the role of the caller's token, the clock, which blobs exist, the hash of the content of a blob, the
    contestant a role is in a contest, \<open>connectby\<close>.
\<close>

record judging =
  jd_db :: db
  jd_submit_data :: "(key, oa_group) dict"
  jd_temp_test :: "(key, oa_group) dict"
  jd_temp_submit :: "(key, oa_group) dict"
  jd_temp_result :: "(key, oa_group) dict"
  jd_privs :: priv_db
  jd_events :: "check_event list"

record jsite =
  js_role :: "key option"
  js_now :: int
  js_blob_exists :: "string \<Rightarrow> bool"
  js_hash :: "string \<Rightarrow> string"
  js_find_contestant :: "key \<Rightarrow> key option \<Rightarrow> judging \<Rightarrow> key option outcome"
  js_connectby :: "(nat \<times> nat) list \<Rightarrow> nat \<Rightarrow> nat list outcome"

definition send_event :: "check_event \<Rightarrow> judging \<Rightarrow> judging" where
  "send_event ev w = w\<lparr>jd_events := jd_events w @ [ev]\<rparr>"

definition set_group :: "jsite \<Rightarrow> (string, attr) dict \<Rightarrow> key \<Rightarrow> (key, oa_group) dict \<Rightarrow> unit outcome \<times> (key, oa_group) dict" where
  "set_group S m k t = (case oa_set_map (js_blob_exists S) m (group_of t k) of (r, g) \<Rightarrow> (raise_oa r, dset k g t))"

subsection \<open>The judge\<close>

text \<open>
  \<open>get_next\<close>: \<open>answer\<close> is what the checking master sent, a number that is negative for a temporary submit.
\<close>

definition get_next :: "int option \<Rightarrow> judging \<Rightarrow> (int \<times> (string, stored) dict \<times> (string, stored) dict) option outcome" where
  "get_next answer w =
     (case answer of
        None \<Rightarrow> Ok None
      | Some i \<Rightarrow>
          if i > 0 then
            bind_ok (row (test_results (jd_db w)) (nat i)) (\<lambda>r.
            bind_ok (row (tests (jd_db w)) (tr_test r)) (\<lambda>t.
            Ok (Some (i, oa_get_map (te_data t), oa_get_map (group_of (jd_submit_data w) (tr_submit r))))))
          else
            map_ok (\<lambda>_. Some (i, oa_get_map (group_of (jd_temp_test w) (nat (- i))), oa_get_map (group_of (jd_temp_submit w) (nat (- i)))))
              (row (temporary_submits (jd_db w)) (nat (- i))))"

definition set_partial_result :: "jsite \<Rightarrow> int \<Rightarrow> (string, attr) dict \<Rightarrow> judging \<Rightarrow> unit outcome \<times> judging" where
  "set_partial_result S i result w =
     (if i > 0 then
        (case row (test_results (jd_db w)) (nat i) of
           Raise e \<Rightarrow> (Raise e, w)
         | Ok r \<Rightarrow>
             if tr_tester r \<noteq> js_role S then (Ok (), w)
             else (case set_group S result (nat i) (result_oa (jd_db w)) of
                     (x, t) \<Rightarrow> (x, w\<lparr>jd_db := (jd_db w)\<lparr>result_oa := t\<rparr>\<rparr>)))
      else
        (case row (temporary_submits (jd_db w)) (nat (- i)) of
           Raise e \<Rightarrow> (Raise e, w)
         | Ok t \<Rightarrow>
             if tp_tester t \<noteq> js_role S then (Ok (), w)
             else (case set_group S result (nat (- i)) (jd_temp_result w) of (x, g) \<Rightarrow> (x, w\<lparr>jd_temp_result := g\<rparr>))))"

definition set_result :: "jsite \<Rightarrow> int \<Rightarrow> (string, attr) dict \<Rightarrow> judging \<Rightarrow> unit outcome \<times> judging" where
  "set_result S i result w =
     (if i > 0 then
        (case row (test_results (jd_db w)) (nat i) of
           Raise e \<Rightarrow> (Raise e, w)
         | Ok r \<Rightarrow>
             if tr_tester r \<noteq> js_role S then (Ok (), w)
             else and_then (\<lambda>w. case set_group S result (nat i) (result_oa (jd_db w)) of
                               (x, t) \<Rightarrow> (x, w\<lparr>jd_db := (jd_db w)\<lparr>result_oa := t\<rparr>\<rparr>))
                    (\<lambda>_ w1. (Ok (), send_event (Checked_Test_Result (nat i))
                       (w1\<lparr>jd_db := (jd_db w1)\<lparr>test_results := dset (nat i) (r\<lparr>tr_pending := False\<rparr>) (test_results (jd_db w1))\<rparr>\<rparr>))) w)
      else
        (case row (temporary_submits (jd_db w)) (nat (- i)) of
           Raise e \<Rightarrow> (Raise e, w)
         | Ok t \<Rightarrow>
             if tp_tester t \<noteq> js_role S then (Ok (), w)
             else and_then (\<lambda>w. case set_group S result (nat (- i)) (jd_temp_result w) of (x, g) \<Rightarrow> (x, w\<lparr>jd_temp_result := g\<rparr>))
                    (\<lambda>_ w1. (Ok (), w1\<lparr>jd_db := (jd_db w1)\<lparr>temporary_submits :=
                       dset (nat (- i)) (t\<lparr>tp_pending := False\<rparr>) (temporary_submits (jd_db w1))\<rparr>\<rparr>)) w))"

subsection \<open>Submits\<close>

text \<open>Writing the content: the blob is there when the attribute is set.\<close>

definition put_content :: "jsite \<Rightarrow> key \<Rightarrow> string \<Rightarrow> string \<Rightarrow> judging \<Rightarrow> judging" where
  "put_content S k content filename w =
     w\<lparr>jd_submit_data := dset k (snd (oa_set_blob (\<lambda>h. True) ''content'' filename (js_hash S content) (group_of (jd_submit_data w) k)))
       (jd_submit_data w)\<rparr>"

definition insert_submit :: "key \<Rightarrow> submit \<Rightarrow> judging \<Rightarrow> judging" where
  "insert_submit k s w = w\<lparr>jd_db := (jd_db w)\<lparr>submits := dset k s (submits (jd_db w))\<rparr>\<rparr>"

definition create_submit :: "jsite \<Rightarrow> frow \<Rightarrow> string \<Rightarrow> string \<Rightarrow> judging \<Rightarrow> key outcome \<times> judging" where
  "create_submit S flds content filename w =
     (case key_field flds ''problem'' of
        None \<Rightarrow> (Raise (AttributeError ''contest''), w)
      | Some p \<Rightarrow>
          (case bind_ok (row (problems (jd_db w)) p) (\<lambda>pm. js_find_contestant S (pm_contest pm) (js_role S) w) of
             Raise e \<Rightarrow> (Raise e, w)
           | Ok None \<Rightarrow> (Raise ValueError, w)
           | Ok (Some c) \<Rightarrow>
               (case forbid_fields [] [(''contestant'', FKey c)] flds [''id'', ''contestant'', ''time''] of
                  Raise e \<Rightarrow> (Raise e, w)
                | Ok _ \<Rightarrow>
                    (let k = fresh_key (submits (jd_db w));
                         s = \<lparr>sb_problem = p, sb_contestant = c, sb_time = js_now S, sb_overrides = []\<rparr> in
                     (Ok k, send_event (New_Submit k) (put_content S k content filename (insert_submit k s w)))))))"

definition inject_result :: "jsite \<Rightarrow> key \<Rightarrow> key \<times> (string, attr) dict \<Rightarrow> judging \<Rightarrow> unit outcome \<times> judging" where
  "inject_result S submit tr w =
     (case tr of (test, result) \<Rightarrow>
        let d = jd_db w; k = fresh_key (test_results d);
            d1 = d\<lparr>test_results := dset k \<lparr>tr_submit = submit, tr_test = test, tr_tester = js_role S, tr_pending = False\<rparr> (test_results d)\<rparr> in
        case set_group S result k (result_oa d1) of (x, t) \<Rightarrow> (x, w\<lparr>jd_db := d1\<lparr>result_oa := t\<rparr>\<rparr>))"

definition inject_submit :: "jsite \<Rightarrow> frow \<Rightarrow> string \<Rightarrow> string \<Rightarrow> (key \<times> (string, attr) dict) list \<Rightarrow> judging \<Rightarrow> key outcome \<times> judging" where
  "inject_submit S flds content filename results w =
     (case forbid_fields [] [] flds [''id''] of
        Raise e \<Rightarrow> (Raise e, w)
      | Ok _ \<Rightarrow>
          (case (key_field flds ''contestant'', key_field flds ''problem'') of
             (Some c, Some p) \<Rightarrow>
               (let k = fresh_key (submits (jd_db w));
                    s = \<lparr>sb_problem = p, sb_contestant = c, sb_time = (case dget flds ''time'' of Some (FInt t) \<Rightarrow> t | _ \<Rightarrow> js_now S), sb_overrides = []\<rparr> in
                and_then (for_each (inject_result S k) results) (\<lambda>_ w1. (Ok k, send_event (New_Submit k) w1))
                  (put_content S k content filename (insert_submit k s w)))
           | _ \<Rightarrow> (Raise DatabaseError, w)))"

definition override_submit :: "jsite \<Rightarrow> key \<Rightarrow> (string, attr) dict \<Rightarrow> judging \<Rightarrow> unit outcome \<times> judging" where
  "override_submit S k overrides w =
     (case row (submits (jd_db w)) k of
        Raise e \<Rightarrow> (Raise e, w)
      | Ok s \<Rightarrow>
          (case oa_set_map (js_blob_exists S) overrides (sb_overrides s) of
             (r, g) \<Rightarrow>
               (case insert_submit k (s\<lparr>sb_overrides := g\<rparr>) w of
                  w1 \<Rightarrow> (case raise_oa r of Raise e \<Rightarrow> (Raise e, w1) | Ok _ \<Rightarrow> (Ok (), send_event (Rejudge_Submit_Suite_Results k) w1)))))"

text \<open>Status and report of a submit for a suite, the default suite of its problem if none is given.\<close>

definition suite_result_of :: "key \<Rightarrow> key option \<Rightarrow> db \<Rightarrow> suite_result option outcome" where
  "suite_result_of k suite d =
     bind_ok (row (submits d) k) (\<lambda>s.
     bind_ok (case suite of Some x \<Rightarrow> Ok (Some x) | None \<Rightarrow> map_ok pm_default_suite (row (problems d) (sb_problem s))) (\<lambda>ts.
     case filter (\<lambda>(i, r). sr_submit r = k \<and> Some (sr_suite r) = ts) (suite_results d) of
       [] \<Rightarrow> Ok None
     | [(i, r)] \<Rightarrow> Ok (Some r)
     | _ \<Rightarrow> Raise MultipleObjectsReturned))"

definition get_test_suite_status :: "key \<Rightarrow> key option \<Rightarrow> judging \<Rightarrow> string option outcome" where
  "get_test_suite_status k suite w = map_ok (map_option sr_status) (suite_result_of k suite (jd_db w))"

definition get_test_suite_report :: "key \<Rightarrow> key option \<Rightarrow> judging \<Rightarrow> string option outcome" where
  "get_test_suite_report k suite w = map_ok (map_option sr_report) (suite_result_of k suite (jd_db w))"

definition rejudge_test_results :: "key \<Rightarrow> judging \<Rightarrow> judging" where
  "rejudge_test_results k = send_event (Rejudge_Submit_Test_Results k)"

definition rejudge_test_suite_results :: "key \<Rightarrow> judging \<Rightarrow> judging" where
  "rejudge_test_suite_results k = send_event (Rejudge_Submit_Suite_Results k)"

definition create_temporary :: "jsite \<Rightarrow> (string, attr) dict \<Rightarrow> (string, attr) dict \<Rightarrow> judging \<Rightarrow> key outcome \<times> judging" where
  "create_temporary S test_data submit_data w =
     (case js_role S of
        None \<Rightarrow> (Raise ValueError, w)
      | Some role \<Rightarrow>
          (let k = fresh_key (temporary_submits (jd_db w)) in
           and_then (\<lambda>w. case set_group S test_data k (jd_temp_test w) of (x, g) \<Rightarrow> (x, w\<lparr>jd_temp_test := g\<rparr>)) (\<lambda>_.
           and_then (\<lambda>w. case set_group S submit_data k (jd_temp_submit w) of (x, g) \<Rightarrow> (x, w\<lparr>jd_temp_submit := g\<rparr>)) (\<lambda>_.
           and_then (\<lambda>w. case grant (js_connectby S) (js_now S) role k ''MANAGE'' None (jd_privs w) of (x, p) \<Rightarrow> (x, w\<lparr>jd_privs := p\<rparr>)) (\<lambda>_ w1.
           (Ok k, send_event (New_Temporary_Submit k) w1))))
             (w\<lparr>jd_db := (jd_db w)\<lparr>temporary_submits := dset k \<lparr>tp_pending = True, tp_tester = None\<rparr> (temporary_submits (jd_db w))\<rparr>\<rparr>)))"

subsection \<open>Properties\<close>

lemma fold_obj_add_under:
  "s \<in> set ss \<or> k \<in> set (dkeys (dget_def_val d s [])) \<Longrightarrow>
     k \<in> set (dkeys (dget_def_val (fold (\<lambda>s. obj_add_under s k r) ss d) s []))"
proof (induction ss arbitrary: d)
  case (Cons t ss)
  have "s \<in> set ss \<or> k \<in> set (dkeys (dget_def_val (obj_add_under t k r d) s []))"
    using Cons.prems by (auto simp: obj_add_under_def obj_add_def dget_def_val_def dkeys_def split: option.splits)
  from Cons.IH [OF this] show ?case by simp
qed simp

lemma next_test_result_dispatched:
  assumes "next_test_result role m = (Ok (Some i), m1)" "i > 0"
  shows "nat i \<in> set (test_result_judged_set m1)"
    and "\<exists>r. dget (test_results (m_db m1)) (nat i) = Some r \<and> tr_tester r = Some role"
  using assms
  by (auto simp: next_test_result_def save_test_result_def update_row_def Let_def split: list.splits if_splits prod.splits outcome.splits)

text \<open>What \<open>set_result\<close> leaves, for the judge the test was given to.\<close>

lemma set_result_Ok:
  assumes "set_result S i result w = (Ok (), w1)" "i > 0"
    and "dget (test_results (jd_db w)) (nat i) = Some r" "tr_tester r = js_role S"
  shows "jd_events w1 = jd_events w @ [Checked_Test_Result (nat i)]"
    and "dget (test_results (jd_db w1)) (nat i) = Some (r\<lparr>tr_pending := False\<rparr>)"
    and "oa_set_map (js_blob_exists S) result (group_of (result_oa (jd_db w)) (nat i)) = (Done (), group_of (result_oa (jd_db w1)) (nat i))"
proof -
  obtain x g where g: "oa_set_map (js_blob_exists S) result (group_of (result_oa (jd_db w)) (nat i)) = (x, g)" by fastforce
  have "raise_oa x = Ok ()" and w1: "w1 = send_event (Checked_Test_Result (nat i))
      (w\<lparr>jd_db := (jd_db w)\<lparr>result_oa := dset (nat i) g (result_oa (jd_db w)),
         test_results := dset (nat i) (r\<lparr>tr_pending := False\<rparr>) (test_results (jd_db w))\<rparr>\<rparr>)"
    using assms g by (auto simp: set_result_def row_def set_group_def and_then_def split: outcome.splits)
  then have "x = Done ()" by (cases x rule: raise_oa.cases) auto
  with g w1 show "jd_events w1 = jd_events w @ [Checked_Test_Result (nat i)]"
    "dget (test_results (jd_db w1)) (nat i) = Some (r\<lparr>tr_pending := False\<rparr>)"
    "oa_set_map (js_blob_exists S) result (group_of (result_oa (jd_db w)) (nat i)) = (Done (), group_of (result_oa (jd_db w1)) (nat i))"
    by (simp_all add: send_event_def group_of_def dget_def_val_def)
qed

text \<open>
  C8 (result_reaches_master): The checking master gives a test to a judge, the judge reports a result. Then the row of the
  result is no longer pending, holds the reported attributes, and the checking master gets an event that takes the test
  off the tests being judged and hands it to every suite result that waits for it. What another role reports changes
  nothing.
\<close>

theorem result_reaches_master:
  assumes dispatched: "next_test_result role m = (Ok (Some i), m1)" "i > 0" "jd_db w = m_db m1"
    and reported: "set_result S i result w = (Ok (), w1)" "js_role S = Some role"
  shows "jd_events w1 = jd_events w @ [Checked_Test_Result (nat i)]
    \<and> (\<exists>r. dget (test_results (jd_db w1)) (nat i) = Some r \<and> \<not> tr_pending r)
    \<and> oa_set_map (js_blob_exists S) result (group_of (result_oa (jd_db w)) (nat i)) = (Done (), group_of (result_oa (jd_db w1)) (nat i))
    \<and> (\<exists>m2. note_event (Checked_Test_Result (nat i)) (m1\<lparr>m_db := jd_db w1\<rparr>) = (Ok (), m2)
         \<and> nat i \<notin> set (test_result_judged_set m2)
         \<and> (\<forall>s \<in> set (dget_def_val (scheduled_test_results_map m1) (nat i) []).
              nat i \<in> set (dkeys (dget_def_val (suite_checked_test_results m2) s []))))
    \<and> (\<forall>S' result'. js_role S' \<noteq> Some role \<longrightarrow> set_result S' i result' w = (Ok (), w))"
proof -
  obtain r where r: "dget (test_results (jd_db w)) (nat i) = Some r" "tr_tester r = Some role"
    using next_test_result_dispatched(2) [OF dispatched(1,2)] dispatched(3) by auto
  note res = set_result_Ok [OF reported(1) dispatched(2) r(1)]
  have same: "tr_tester r = js_role S" using r(2) reported(2) by simp
  have judged: "nat i \<in> set (test_result_judged_set m1)" using next_test_result_dispatched(1) [OF dispatched(1,2)] .
  let ?m2 = "m1\<lparr>m_db := jd_db w1, test_result_judged_set := sdel (nat i) (test_result_judged_set m1),
      suite_checked_test_results := fold (\<lambda>s. obj_add_under s (nat i) (r\<lparr>tr_pending := False\<rparr>))
        (dget_def_val (scheduled_test_results_map m1) (nat i) []) (suite_checked_test_results m1)\<rparr>"
  have "note_event (Checked_Test_Result (nat i)) (m1\<lparr>m_db := jd_db w1\<rparr>) = (Ok (), ?m2)"
    using res(2) [OF same] judged by (simp add: row_def)
  moreover have "nat i \<notin> set (test_result_judged_set ?m2)" by (simp add: sdel_def)
  moreover have "\<forall>s \<in> set (dget_def_val (scheduled_test_results_map m1) (nat i) []).
      nat i \<in> set (dkeys (dget_def_val (suite_checked_test_results ?m2) s []))"
    by (simp add: fold_obj_add_under)
  moreover have "set_result S' i result' w = (Ok (), w)" if "js_role S' \<noteq> Some role" for S' result'
    using that r dispatched(2) by (simp add: set_result_def row_def)
  ultimately show ?thesis using res(1) [OF same] res(2) [OF same] res(3) [OF same] by auto
qed

text \<open>Role 30 judges the first test of the sample; the suite result 7 waits for it.\<close>

definition waiting_master :: "(unit, unit) cm" where
  "waiting_master =
     (new_cm (Check_Reporters.sample_db\<lparr>test_results := [(3, \<lparr>tr_submit = 1, tr_test = 10, tr_tester = None, tr_pending = True\<rparr>)]\<rparr>))
       \<lparr>test_result_queue := [(3, \<lparr>tr_submit = 1, tr_test = 10, tr_tester = None, tr_pending = True\<rparr>)],
        test_result_set := [3], scheduled_test_results_map := [(3, [7])]\<rparr>"

definition sample_judging_of :: "db \<Rightarrow> judging" where
  "sample_judging_of d = \<lparr>jd_db = d, jd_submit_data = [], jd_temp_test = [], jd_temp_submit = [], jd_temp_result = [],
     jd_privs = \<lparr>role_map = [], priv_rows = [], user_id = None, user_roles = [], user_privs = []\<rparr>, jd_events = []\<rparr>"

definition sample_jsite :: "key option \<Rightarrow> jsite" where
  "sample_jsite role = \<lparr>js_role = role, js_now = 0, js_blob_exists = (\<lambda>h. True), js_hash = (\<lambda>s. s),
     js_find_contestant = (\<lambda>_ _ _. Ok None), js_connectby = sample_connectby\<rparr>"

theorem result_reaches_master_witness:
  "\<exists>m1 w1 m2. next_test_result 30 waiting_master = (Ok (Some 3), m1)
     \<and> set_result (sample_jsite (Some 30)) 3 [(''status'', \<lparr>a_name = [], a_is_blob = False, a_value = ''OK'', a_filename = None\<rparr>)]
          (sample_judging_of (m_db m1)) = (Ok (), w1)
     \<and> note_event (Checked_Test_Result 3) (m1\<lparr>m_db := jd_db w1\<rparr>) = (Ok (), m2)
     \<and> 3 \<notin> set (test_result_judged_set m2) \<and> 3 \<in> set (dkeys (dget_def_val (suite_checked_test_results m2) 7 []))"
proof -
  let ?res = "[(''status'', \<lparr>a_name = [], a_is_blob = False, a_value = ''OK'', a_filename = None\<rparr>)]"
  obtain m1 where m1: "next_test_result 30 waiting_master = (Ok (Some 3), m1)" and waits: "scheduled_test_results_map m1 = [(3, [7])]"
    and row: "dget (test_results (m_db m1)) 3 = Some \<lparr>tr_submit = 1, tr_test = 10, tr_tester = Some 30, tr_pending = True\<rparr>"
    by (auto simp: next_test_result_def waiting_master_def new_cm_def Check_Reporters.sample_db_def save_test_result_def update_row_def dkeys_def Let_def)
  have db: "jd_db (sample_judging_of (m_db m1)) = m_db m1" by (simp add: sample_judging_of_def)
  obtain w1 where w1: "set_result (sample_jsite (Some 30)) 3 ?res (sample_judging_of (m_db m1)) = (Ok (), w1)"
    using row by (auto simp: set_result_def db sample_jsite_def set_group_def row_def and_then_def oa_set_map_def oa_set_def
        split: prod.splits)
  have role: "js_role (sample_jsite (Some 30)) = Some 30" by (simp add: sample_jsite_def)
  from result_reaches_master [OF m1 _ db w1 role] waits m1 w1 show ?thesis by (auto simp: dget_def_val_def)
qed

end
