(* ===== verification/Entities_Ranking.thy ===== *)
theory Entities_Ranking
  imports Entities_Judging "HOL-Library.List_Lexorder" "HOL-Library.Char_ord"
begin

section \<open>Rankings as clients change them\<close>

text \<open>
  \<open>entities/Ranking.py\<close> and \<open>RankingParams.py\<close>: a ranking has, for some problems of its contest, a row with a test suite
  and parameters. Columns the checking master does not read (the name, \<open>is_public\<close>) are left out.
  \<^item> \<open>rsite\<close>: what a method finds around it: \<open>jsite\<close>, the names of the aggregators and whether a suite and a problem
    mapping are of the same problem.
  \<^item> \<open>modify_full\<close>: the two loops over the given suites and parameters and the removal of all other rows.
\<close>

record rsite =
  rs_site :: jsite
  rs_aggregators :: "string list"
  rs_same_problem :: "key \<Rightarrow> key \<Rightarrow> bool"

type_synonym params_table = "(key, ranking_params) dict"

definition put_params :: "params_table \<Rightarrow> judging \<Rightarrow> judging" where
  "put_params t w = w\<lparr>jd_db := (jd_db w)\<lparr>ranking_params_table := t\<rparr>\<rparr>"

definition params_of :: "judging \<Rightarrow> params_table" where
  "params_of w = ranking_params_table (jd_db w)"

text \<open>\<open>RankingParams(...)\<close> with \<open>save\<close>, and \<open>get_or_create\<close> with the suite set and saved.\<close>

definition new_params :: "key \<Rightarrow> key \<Rightarrow> key option \<Rightarrow> params_table \<Rightarrow> key \<times> params_table" where
  "new_params rk p suite t =
     (let k = fresh_key t in (k, dset k \<lparr>rp_ranking = rk, rp_problem = p, rp_suite = suite, rp_params = []\<rparr> t))"

definition find_params :: "key \<Rightarrow> key \<Rightarrow> params_table \<Rightarrow> (key \<times> ranking_params) list" where
  "find_params rk p t = filter (\<lambda>(k, r). rp_ranking r = rk \<and> rp_problem r = p) t"

definition get_params :: "key \<Rightarrow> key \<Rightarrow> key option \<Rightarrow> params_table \<Rightarrow> key \<times> params_table" where
  "get_params rk p suite t =
     (case find_params rk p t of
        [] \<Rightarrow> new_params rk p suite t
      | (k, r) # _ \<Rightarrow> (k, dset k (r\<lparr>rp_suite := suite\<rparr>) t))"

definition set_row_params :: "rsite \<Rightarrow> key \<Rightarrow> (string, attr) dict \<Rightarrow> params_table \<Rightarrow> unit outcome \<times> params_table" where
  "set_row_params S k m t =
     (case dget t k of
        None \<Rightarrow> (Raise DoesNotExist, t)
      | Some r \<Rightarrow> (case oa_set_map (js_blob_exists (rs_site S)) m (rp_params r) of (x, g) \<Rightarrow> (raise_oa x, dset k (r\<lparr>rp_params := g\<rparr>) t)))"

definition of_contest :: "key \<Rightarrow> key \<Rightarrow> judging \<Rightarrow> bool" where
  "of_contest contest p w \<longleftrightarrow> (case dget (problems (jd_db w)) p of Some pm \<Rightarrow> pm_contest pm = contest | None \<Rightarrow> False)"

subsection \<open>The loops\<close>

text \<open>
  \<open>fetch\<close> is \<open>new_params\<close> in \<open>create\<close> and \<open>get_params\<close> in \<open>modify_full\<close>, which also clears the parameters. The state is
  \<open>rows_set\<close>, the rows already set by problem, and the database.
\<close>

type_synonym fetch = "key \<Rightarrow> key \<Rightarrow> key option \<Rightarrow> params_table \<Rightarrow> key \<times> params_table"

definition on_params :: "(params_table \<Rightarrow> 'a outcome \<times> params_table) \<Rightarrow> judging \<Rightarrow> 'a outcome \<times> judging" where
  "on_params f w = (case f (params_of w) of (r, t) \<Rightarrow> (r, put_params t w))"

definition suite_step :: "rsite \<Rightarrow> fetch \<Rightarrow> key \<Rightarrow> key \<Rightarrow> key \<times> key \<Rightarrow> (key, key) dict \<times> judging \<Rightarrow> unit outcome \<times> (key, key) dict \<times> judging" where
  "suite_step S fetch rk contest ps st =
     (case (ps, st) of ((p, suite), (rows_set, w)) \<Rightarrow>
        if \<not> of_contest contest p w then (Raise (CannotSetField []), st)
        else if \<not> rs_same_problem S suite p then (Raise (CannotSetField []), st)
        else (case fetch rk p (Some suite) (params_of w) of
                (k, t) \<Rightarrow> (case set_row_params S k [] t of (x, t1) \<Rightarrow> (x, dset p k rows_set, put_params t1 w))))"

definition params_step :: "rsite \<Rightarrow> fetch \<Rightarrow> key \<Rightarrow> key \<Rightarrow> key \<times> (string, attr) dict \<Rightarrow> (key, key) dict \<times> judging
    \<Rightarrow> unit outcome \<times> (key, key) dict \<times> judging" where
  "params_step S fetch rk contest pm st =
     (case (pm, st) of ((p, m), (rows_set, w)) \<Rightarrow>
        if \<not> of_contest contest p w then (Raise (CannotSetField []), st)
        else (case (case dget rows_set p of Some k \<Rightarrow> (k, params_of w) | None \<Rightarrow> fetch rk p None (params_of w)) of
                (k, t) \<Rightarrow> (case set_row_params S k m t of (x, t1) \<Rightarrow> (x, dset p k rows_set, put_params t1 w))))"

definition set_all :: "rsite \<Rightarrow> fetch \<Rightarrow> key \<Rightarrow> key \<Rightarrow> (key \<times> key) list \<Rightarrow> (key \<times> (string, attr) dict) list \<Rightarrow> judging
    \<Rightarrow> (key, key) dict outcome \<times> judging" where
  "set_all S fetch rk contest problem_suites problem_params w =
     (case and_then (for_each (suite_step S fetch rk contest) problem_suites)
             (\<lambda>_. for_each (params_step S fetch rk contest) problem_params) ([], w) of
        (r, rows_set, w1) \<Rightarrow> (map_ok (\<lambda>_. rows_set) r, w1))"

subsection \<open>Methods\<close>

definition save_ranking_row :: "rsite \<Rightarrow> key \<Rightarrow> ranking \<Rightarrow> judging \<Rightarrow> unit outcome \<times> judging" where
  "save_ranking_row S rk r w =
     (if rk_aggregator r \<notin> set (rs_aggregators S) then (Raise ValueError, w)
      else (Ok (), w\<lparr>jd_db := (jd_db w)\<lparr>rankings := dset rk r (rankings (jd_db w))\<rparr>\<rparr>))"

definition set_ranking_params :: "rsite \<Rightarrow> key \<Rightarrow> (string, attr) dict \<Rightarrow> judging \<Rightarrow> unit outcome \<times> judging" where
  "set_ranking_params S rk m w =
     (case row (rankings (jd_db w)) rk of
        Raise e \<Rightarrow> (Raise e, w)
      | Ok r \<Rightarrow> (case oa_set_map (js_blob_exists (rs_site S)) m (rk_params r) of
                  (x, g) \<Rightarrow> (raise_oa x, w\<lparr>jd_db := (jd_db w)\<lparr>rankings := dset rk (r\<lparr>rk_params := g\<rparr>) (rankings (jd_db w))\<rparr>\<rparr>)))"

definition rejudge_ranking :: "key \<Rightarrow> judging \<Rightarrow> judging" where
  "rejudge_ranking rk = send_event (Rejudge_Ranking rk)"

definition stop_ranking_of :: "key \<Rightarrow> judging \<Rightarrow> judging" where
  "stop_ranking_of rk = send_event (Stop_Ranking rk)"

definition create_ranking :: "rsite \<Rightarrow> frow \<Rightarrow> (string, attr) dict \<Rightarrow> (key \<times> key) list \<Rightarrow> (key \<times> (string, attr) dict) list
    \<Rightarrow> judging \<Rightarrow> key outcome \<times> judging" where
  "create_ranking S flds params problem_suites problem_params w =
     (case forbid_fields [] [(''header'', FStr []), (''footer'', FStr [])] flds [''id'', ''header'', ''footer''] of
        Raise e \<Rightarrow> (Raise e, w)
      | Ok _ \<Rightarrow>
          (let rk = fresh_key (rankings (jd_db w)) in
           case key_field flds ''contest'' of
             None \<Rightarrow> (Raise DatabaseError, w)
           | Some contest \<Rightarrow>
               and_then (save_ranking_row S rk \<lparr>rk_contest = contest, rk_aggregator = (case str_field flds ''aggregator'' of None \<Rightarrow> [] | Some a \<Rightarrow> a),
                   rk_header = [], rk_footer = [], rk_params = []\<rparr>) (\<lambda>_.
               and_then (set_ranking_params S rk params) (\<lambda>_.
               and_then (set_all S new_params rk contest problem_suites problem_params) (\<lambda>_ w1.
               (Ok rk, rejudge_ranking rk w1)))) w))"

definition drop_others :: "key \<Rightarrow> (key, key) dict \<Rightarrow> params_table \<Rightarrow> params_table" where
  "drop_others rk rows_set t = filter (\<lambda>(k, r). rp_ranking r = rk \<longrightarrow> rp_problem r \<in> set (dkeys rows_set)) t"

definition modify_full :: "rsite \<Rightarrow> key \<Rightarrow> frow \<Rightarrow> (string, attr) dict \<Rightarrow> (key \<times> key) list \<Rightarrow> (key \<times> (string, attr) dict) list
    \<Rightarrow> judging \<Rightarrow> unit outcome \<times> judging" where
  "modify_full S rk flds params problem_suites problem_params w =
     (case row (rankings (jd_db w)) rk of
        Raise e \<Rightarrow> (Raise e, w)
      | Ok r \<Rightarrow>
          (case forbid_fields [''contest''] [(''id'', FKey rk), (''header'', FStr (rk_header r)), (''footer'', FStr (rk_footer r)),
               (''contest'', FKey (rk_contest r))] flds [''id'', ''header'', ''footer'', ''contest''] of
             Raise e \<Rightarrow> (Raise e, w)
           | Ok _ \<Rightarrow>
               and_then (save_ranking_row S rk (case str_field flds ''aggregator'' of None \<Rightarrow> r | Some a \<Rightarrow> r\<lparr>rk_aggregator := a\<rparr>)) (\<lambda>_.
               and_then (set_ranking_params S rk params) (\<lambda>_.
               and_then (set_all S get_params rk (rk_contest r) problem_suites problem_params) (\<lambda>rows_set w1.
               (Ok (), rejudge_ranking rk (put_params (drop_others rk rows_set (params_of w1)) w1))))) w))"

definition modify_problem :: "rsite \<Rightarrow> key \<Rightarrow> key \<Rightarrow> key option \<Rightarrow> (string, attr) dict \<Rightarrow> judging \<Rightarrow> unit outcome \<times> judging" where
  "modify_problem S rk p suite m w =
     (case row (rankings (jd_db w)) rk of
        Raise e \<Rightarrow> (Raise e, w)
      | Ok r \<Rightarrow>
          if \<not> of_contest (rk_contest r) p w then (Raise (CannotSetField []), w)
          else if (case suite of None \<Rightarrow> False | Some s \<Rightarrow> \<not> rs_same_problem S s p) then (Raise (CannotSetField []), w)
          else if suite = None \<and> m = []
          then (Ok (), rejudge_ranking rk (put_params (filter (\<lambda>(k, x). \<not> (rp_ranking x = rk \<and> rp_problem x = p)) (params_of w)) w))
          else (case get_params rk p suite (params_of w) of
                  (k, t) \<Rightarrow> and_then (on_params (\<lambda>_. set_row_params S k m t)) (\<lambda>_ w1. (Ok (), rejudge_ranking rk w1)) w))"

definition get_problem_test_suites :: "key \<Rightarrow> judging \<Rightarrow> (key, key) dict" where
  "get_problem_test_suites rk w =
     fold (\<lambda>(k, r) ret. case rp_suite r of None \<Rightarrow> ret | Some s \<Rightarrow> dset (rp_problem r) s ret) (filter (\<lambda>(k, r). rp_ranking r = rk) (params_of w)) []"

definition get_problem_params :: "key \<Rightarrow> judging \<Rightarrow> (key, (string, stored) dict) dict" where
  "get_problem_params rk w =
     fold (\<lambda>(k, r) ret. dset (rp_problem r) (oa_get_map (rp_params r)) ret) (filter (\<lambda>(k, r). rp_ranking r = rk) (params_of w)) []"

text \<open>The rows of the entries come in the order of their positions.\<close>

definition full_ranking :: "key \<Rightarrow> judging \<Rightarrow> string outcome" where
  "full_ranking rk w =
     map_ok (\<lambda>r. rk_header r @ concat (map (\<lambda>(k, e). en_row e)
         (sort_key (\<lambda>(k, e). en_position e) (filter (\<lambda>(k, e). en_ranking e = rk) (entries (jd_db w))))) @ rk_footer r)
       (row (rankings (jd_db w)) rk)"

end
