(* ===== verification/Judge_Generator.thy ===== *)
theory Judge_Generator
  imports Judge_Props
begin

section \<open>The judge with input generation\<close>

text \<open>
  \<open>satori.core/judges/generator_judge.py\<close>: the input of the solution comes from a generator that is compiled and run
  outside of the jail, the hint, where the test has a hinter, from a second program run on that input. Reading limits,
  compiling and running the solution are those of the simple judge, line by line.
  The verdict speaks of the log of a run (\<open>Judge_Verdict\<close>), which names every file fetched and every program run.
\<close>

subsection \<open>Command lines\<close>

definition generator_compile_run :: "'e machine \<Rightarrow> string list" where
  "generator_compile_run M =
     [''runner'', ''--quiet'', ''--root=/'', ''--work-dir=/tmp'', ''--env=simple'', ''--setuid=runner'', ''--setgid=runner'']
     @ control_options M
     @ [''--cgroup=/compile_generator'', ''--cgroup-memory=1073741824'', ''--cgroup-cputime=20000'', ''--max-realtime=20000'',
        ''--max-stack=67108864'', ''--stdout=/tmp/generate.log'', ''--trunc-stdout'', ''--stderr=__STDOUT__'', ''--priority=30'',
        ''/usr/bin/g++'', ''-static'', ''-O2'', ''generator.cpp'', ''-ogenerator.x'']"

definition generator_run :: "'e machine \<Rightarrow> string \<Rightarrow> string list" where
  "generator_run M spec_file =
     [''runner'', ''--quiet'', ''--root=/'', ''--work-dir=/tmp'', ''--env=simple'', ''--setuid=runner'', ''--setgid=runner'']
     @ control_options M
     @ [''--cgroup=/generate'', ''--cgroup-memory=1073741824'', ''--cgroup-cputime=60000'', ''--max-realtime=60000'',
        ''--stdin='' @ spec_file, ''--stdout=/tmp/data.in'', ''--trunc-stdout'', ''--stderr=/tmp/generate.log'', ''--priority=30'',
        ''/tmp/generator.x'']"

definition hinter_compile_run :: "'e machine \<Rightarrow> string list" where
  "hinter_compile_run M =
     [''runner'', ''--quiet'', ''--root=/'', ''--work-dir=/tmp'', ''--env=simple'', ''--setuid=runner'', ''--setgid=runner'']
     @ control_options M
     @ [''--cgroup=/compile_checker'', ''--cgroup-memory=1073741824'', ''--cgroup-cputime=20000'', ''--max-realtime=20000'',
        ''--max-stack=67108864'', ''--stdout=/tmp/hint_generate.log'', ''--trunc-stdout'', ''--stderr=__STDOUT__'',
        ''--stdout=/dev/null'', ''--stderr=/dev/null'', ''--priority=30'', ''/usr/bin/g++'', ''-static'', ''-O2'', ''hinter.cpp'',
        ''-ohinter.x'']"

definition hinter_run :: "'e machine \<Rightarrow> string list" where
  "hinter_run M =
     [''runner'', ''--quiet'', ''--root=/'', ''--work-dir=/tmp'', ''--env=simple'', ''--setuid=runner'', ''--setgid=runner'']
     @ control_options M
     @ [''--cgroup=/generate'', ''--cgroup-memory=1073741824'', ''--cgroup-cputime=60000'', ''--max-realtime=60000'',
        ''--stdin=/tmp/data.in'', ''--stdout=/tmp/data.hint'', ''--trunc-stdout'', ''--stderr=/tmp/hint_generate.log'',
        ''--priority=30'', ''/tmp/hinter.x'']"

subsection \<open>The program\<close>

definition spec_file :: "jattrs \<Rightarrow> string" where
  "spec_file test = (if dget test ''generator_spec'' \<noteq> None then ''/tmp/data.spec'' else ''/dev/null'')"

definition hint_file :: "jattrs \<Rightarrow> string" where
  "hint_file test = (if dget test ''hinter'' \<noteq> None then ''/tmp/data.hint'' else ''/dev/null'')"

definition check_generated :: "'e machine \<Rightarrow> jattrs \<Rightarrow> string \<Rightarrow> 'e \<Rightarrow> unit outcome \<times> 'e" where
  "check_generated M test ext =
     and_then (mc_call M (checker_run M (dget test ''checker'' \<noteq> None) (hint_file test))) (\<lambda>ret.
     and_then (set_file M ''check_log'' ''/tmp/check.log'') (\<lambda>_.
     if ret \<noteq> 0 then set_text M ''status'' ''ANS'' else check_languages M test ext))"

definition build_checker :: "'e machine \<Rightarrow> jattrs \<Rightarrow> string \<Rightarrow> 'e \<Rightarrow> unit outcome \<times> 'e" where
  "build_checker M test ext =
     (if dget test ''checker'' = None then check_generated M test ext
      else
        and_then (get_file M ''GETTESTBLOB'' ''checker'' ''/tmp/checker.cpp'') (\<lambda>_.
        and_then (mc_call M (checker_compile_run M)) (\<lambda>ret.
        if ret \<noteq> 0 then and_then (set_file M ''check_log'' ''/tmp/check.log'') (\<lambda>_. set_text M ''status'' ''INT'')
        else check_generated M test ext)))"

definition generate_hint :: "'e machine \<Rightarrow> jattrs \<Rightarrow> string \<Rightarrow> 'e \<Rightarrow> unit outcome \<times> 'e" where
  "generate_hint M test ext =
     (if dget test ''hinter'' = None then build_checker M test ext
      else
        and_then (get_file M ''GETTESTBLOB'' ''hinter'' ''/tmp/hinter.cpp'') (\<lambda>_.
        and_then (mc_call M (hinter_compile_run M)) (\<lambda>ret.
        if ret \<noteq> 0
        then and_then (set_file M ''hint_generate_log'' ''/tmp/hint_generate.log'') (\<lambda>_. set_text M ''status'' ''INT'')
        else
          and_then (mc_call M (hinter_run M)) (\<lambda>ret2.
          and_then (set_file M ''hint_generate_log'' ''/tmp/hint_generate.log'') (\<lambda>_.
          if ret2 \<noteq> 0 then set_text M ''status'' ''INT'' else build_checker M test ext)))))"

definition run_generated :: "'e machine \<Rightarrow> jattrs \<Rightarrow> string \<Rightarrow> int \<Rightarrow> int \<Rightarrow> 'e \<Rightarrow> unit outcome \<times> 'e" where
  "run_generated M test ext time memory =
     and_then (mc_popen M (execute_run M time memory)) (\<lambda>out.
     case text_lines out of
       [] \<Rightarrow> lift (Raise IndexError)
     | ret # ls \<Rightarrow>
         and_then (set_stats M (read_stats ls [])) (\<lambda>_.
         if ret \<noteq> ''OK'' then set_text M ''status'' ret else generate_hint M test ext))"

definition generate_input :: "'e machine \<Rightarrow> jattrs \<Rightarrow> string \<Rightarrow> int \<Rightarrow> int \<Rightarrow> 'e \<Rightarrow> unit outcome \<times> 'e" where
  "generate_input M test ext time memory =
     and_then (get_file M ''GETTESTBLOB'' ''generator'' ''/tmp/generator.cpp'') (\<lambda>_.
     and_then (mc_call M (generator_compile_run M)) (\<lambda>ret.
     if ret \<noteq> 0 then and_then (set_file M ''generate_log'' ''/tmp/generate.log'') (\<lambda>_. set_text M ''status'' ''INT'')
     else
       and_then (if dget test ''generator_spec'' \<noteq> None then get_file M ''GETTESTBLOB'' ''generator_spec'' ''/tmp/data.spec''
                 else lift (Ok ())) (\<lambda>_.
       and_then (mc_call M (generator_run M (spec_file test))) (\<lambda>ret2.
       and_then (set_file M ''generate_log'' ''/tmp/generate.log'') (\<lambda>_.
       if ret2 \<noteq> 0 then set_text M ''status'' ''INT'' else run_generated M test ext time memory)))))"

definition build_solution :: "'e machine \<Rightarrow> jattrs \<Rightarrow> string \<times> string \<times> string list \<Rightarrow> int \<Rightarrow> int \<Rightarrow> 'e \<Rightarrow> unit outcome \<times> 'e" where
  "build_solution M test lang time memory =
     (let (ext, source, compiler) = lang in
      and_then (send M ''CREATEJAIL'' [(''path'', ''/jail''), (''template'', ''judge'')]) (\<lambda>_.
      and_then (get_file M ''GETSUBMITBLOB'' ''content'' (path_join ''/jail/runner'' source)) (\<lambda>_.
      and_then (mc_call M (compile_run M compiler)) (\<lambda>ret.
      and_then (set_file M ''compile_log'' ''/tmp/compile.log'') (\<lambda>_.
      if ret \<noteq> 0 then set_text M ''status'' ''CME'' else generate_input M test ext time memory)))))"

definition generator_judge :: "'e machine \<Rightarrow> 'e \<Rightarrow> unit outcome \<times> 'e" where
  "generator_judge M =
     and_then (ask_attrs M ''GETSUBMIT'') (\<lambda>submit.
     and_then (ask_attrs M ''GETTEST'') (\<lambda>test.
     and_then (lift (filename_of submit)) (\<lambda>filename.
     and_then (lift (bind_ok (value_of test ''time'') (parse_time M))) (\<lambda>time.
     and_then (lift (bind_ok (value_of test ''memory'') (parse_memory M))) (\<lambda>memory.
     case language_of (file_ext filename) of
       None \<Rightarrow> set_text M ''status'' ''EXT''
     | Some lang \<Rightarrow> build_solution M test lang time memory)))))"

subsection \<open>The program on the machine with a log\<close>

lemma logged_generator [simp]:
  "generator_compile_run (logged M) = generator_compile_run M" "generator_run (logged M) = generator_run M"
  "hinter_compile_run (logged M) = hinter_compile_run M" "hinter_run (logged M) = hinter_run M"
  unfolding fun_eq_iff generator_compile_run_def generator_run_def hinter_compile_run_def hinter_run_def logged_options by simp_all

lemma shadows_check_generated [shadow_steps]: "shadows (check_generated (logged M) test ext) (check_generated M test ext)"
  unfolding check_generated_def logged_simps by (intro shadow_steps)

lemma shadows_build_checker [shadow_steps]: "shadows (build_checker (logged M) test ext) (build_checker M test ext)"
  unfolding build_checker_def logged_simps by (intro shadow_steps)

lemma shadows_generate_hint [shadow_steps]: "shadows (generate_hint (logged M) test ext) (generate_hint M test ext)"
  unfolding generate_hint_def logged_generator by (intro shadow_steps)

lemma shadows_run_generated [shadow_steps]: "shadows (run_generated (logged M) test ext t m) (run_generated M test ext t m)"
  unfolding run_generated_def logged_simps by (intro shadow_steps) (auto intro!: shadow_steps split: list.split)

lemma shadows_generate_input [shadow_steps]: "shadows (generate_input (logged M) test ext t m) (generate_input M test ext t m)"
  unfolding generate_input_def logged_generator by (intro shadow_steps)

lemma shadows_build_solution [shadow_steps]: "shadows (build_solution (logged M) test lang t m) (build_solution M test lang t m)"
  unfolding build_solution_def logged_simps Let_def by (cases lang) (auto intro!: shadow_steps)

lemma shadows_generator_judge: "shadows (generator_judge (logged M)) (generator_judge M)"
  unfolding generator_judge_def logged_simps by (intro shadow_steps) (auto intro!: shadow_steps split: option.split)

subsection \<open>The verdict\<close>

text \<open>What the programs of the problem's author leave in the log; \<open>c\<close> is what they return.\<close>

definition generator_built :: "'e machine \<Rightarrow> int \<Rightarrow> deed list" where
  "generator_built M c = [got ''GETTESTBLOB'' ''generator'' ''/tmp/generator.cpp'', Called (generator_compile_run M) (Ok c)]"

definition input_made :: "'e machine \<Rightarrow> jattrs \<Rightarrow> int \<Rightarrow> deed list" where
  "input_made M test c =
     (if dget test ''generator_spec'' = None then [] else [got ''GETTESTBLOB'' ''generator_spec'' ''/tmp/data.spec''])
     @ [Called (generator_run M (spec_file test)) (Ok c)]"

definition hinter_built :: "'e machine \<Rightarrow> jattrs \<Rightarrow> int \<Rightarrow> deed list" where
  "hinter_built M test c =
     (if dget test ''hinter'' = None then []
      else [got ''GETTESTBLOB'' ''hinter'' ''/tmp/hinter.cpp'', Called (hinter_compile_run M) (Ok c)])"

definition hint_made :: "'e machine \<Rightarrow> jattrs \<Rightarrow> int \<Rightarrow> deed list" where
  "hint_made M test c = (if dget test ''hinter'' = None then [] else [Called (hinter_run M) (Ok c)])"

definition output_checked :: "'e machine \<Rightarrow> jattrs \<Rightarrow> int \<Rightarrow> deed list" where
  "output_checked M test c = [Called (checker_run M (dget test ''checker'' \<noteq> None) (hint_file test)) (Ok c)]"

definition solution_ran :: "'e machine \<Rightarrow> jattrs \<Rightarrow> jattrs \<Rightarrow> string \<Rightarrow> string \<Rightarrow> deed list \<Rightarrow> bool" where
  "solution_ran M submit test ext r ws \<longleftrightarrow>
     (\<exists>ws1 d. compiled M submit ext ws1 \<and> executed M test r d \<and> ws = ws1 @ generator_built M 0 @ input_made M test 0 @ [d])"

text \<open>\<open>to_check\<close>: nothing is wrong but what the checker, and then the list of languages, may still say.\<close>

definition to_check :: "'e machine \<Rightarrow> jattrs \<Rightarrow> jattrs \<Rightarrow> string \<Rightarrow> deed list \<Rightarrow> bool" where
  "to_check M submit test ext ws \<longleftrightarrow>
     (\<exists>ws1. solution_ran M submit test ext ''OK'' ws1 \<and> ws = ws1 @ hinter_built M test 0 @ hint_made M test 0)"

inductive generator_verdict :: "'e machine \<Rightarrow> jattrs \<Rightarrow> jattrs \<Rightarrow> deed list \<Rightarrow> string \<Rightarrow> bool" for M submit test where
  no_language: "filename_of submit = Ok f \<Longrightarrow> language_of (file_ext f) = None \<Longrightarrow> generator_verdict M submit test asked ''EXT''"
| does_not_compile: "filename_of submit = Ok f \<Longrightarrow> language_of (file_ext f) = Some (ext, src, compiler) \<Longrightarrow> c \<noteq> 0 \<Longrightarrow>
    generator_verdict M submit test (prepared_source src @ [Called (compile_run M compiler) (Ok c)]) ''CME''"
| generator_broken: "compiled M submit ext ws \<Longrightarrow> c \<noteq> 0 \<Longrightarrow> generator_verdict M submit test (ws @ generator_built M c) ''INT''"
| no_input: "compiled M submit ext ws \<Longrightarrow> c \<noteq> 0 \<Longrightarrow>
    generator_verdict M submit test (ws @ generator_built M 0 @ input_made M test c) ''INT''"
| fails: "solution_ran M submit test ext r ws \<Longrightarrow> r \<noteq> ''OK'' \<Longrightarrow> generator_verdict M submit test ws r"
| hinter_broken: "solution_ran M submit test ext ''OK'' ws \<Longrightarrow> dget test ''hinter'' \<noteq> None \<Longrightarrow> c \<noteq> 0 \<Longrightarrow>
    generator_verdict M submit test (ws @ hinter_built M test c) ''INT''"
| no_hint: "solution_ran M submit test ext ''OK'' ws \<Longrightarrow> dget test ''hinter'' \<noteq> None \<Longrightarrow> c \<noteq> 0 \<Longrightarrow>
    generator_verdict M submit test (ws @ hinter_built M test 0 @ hint_made M test c) ''INT''"
| checker_broken: "to_check M submit test ext ws \<Longrightarrow> dget test ''checker'' \<noteq> None \<Longrightarrow> c \<noteq> 0 \<Longrightarrow>
    generator_verdict M submit test (ws @ checker_built M test c) ''INT''"
| wrong: "to_check M submit test ext ws \<Longrightarrow> c \<noteq> 0 \<Longrightarrow>
    generator_verdict M submit test (ws @ checker_built M test 0 @ output_checked M test c) ''ANS''"
| wrong_language: "to_check M submit test ext ws \<Longrightarrow> \<not> language_allowed test ext \<Longrightarrow>
    generator_verdict M submit test (ws @ checker_built M test 0 @ output_checked M test 0) ''LANG''"
| right: "to_check M submit test ext ws \<Longrightarrow> language_allowed test ext \<Longrightarrow>
    generator_verdict M submit test (ws @ checker_built M test 0 @ output_checked M test 0) ''OK''"

inductive_cases generator_verdict_OK_E: "generator_verdict M submit test ws ''OK''"

context judge_link begin

lemma check_generated_ends:
  assumes ready: "to_check M submit test ext ws" and log: "work (snd x) = ws @ checker_built M test 0"
  shows "ends_with st (generator_verdict M submit test) (check_generated (logged M) test ext) x"
  unfolding check_generated_def logged_simps
proof (intro ends_with_step)
  fix c x1 y x2
  assume call: "mc_call (logged M) (checker_run M (dget test ''checker'' \<noteq> None) (hint_file test)) x = (Ok c, x1)"
    and set: "set_file (logged M) ''check_log'' ''/tmp/check.log'' x1 = (Ok y, x2)"
  have "work (snd x2) = ws @ checker_built M test 0 @ output_checked M test c"
    using log_call [OF call] log_set(2) [OF set] log by (simp add: output_checked_def)
  then show "ends_with st (generator_verdict M submit test)
      (if c \<noteq> 0 then set_text (logged M) ''status'' ''ANS'' else check_languages (logged M) test ext) x2"
    using wrong [OF ready] wrong_language [OF ready] right [OF ready]
    by (auto intro: ends_status check_languages_ends)
qed (simp_all add: quiet_steps)

lemma build_checker_ends:
  assumes ready: "to_check M submit test ext (work (snd x))"
  shows "ends_with st (generator_verdict M submit test) (build_checker (logged M) test ext) x"
proof (cases "dget test ''checker''")
  case None
  then show ?thesis using check_generated_ends [OF ready] by (simp add: build_checker_def checker_built_def)
next
  case (Some a)
  then have has: "(dget test ''checker'' = None) = False" by simp
  show ?thesis
    unfolding build_checker_def logged_simps has if_False
  proof (intro ends_with_step)
    fix y x1 c x2
    assume get: "get_file (logged M) ''GETTESTBLOB'' ''checker'' ''/tmp/checker.cpp'' x = (Ok y, x1)"
      and call: "mc_call (logged M) (checker_compile_run M) x1 = (Ok c, x2)"
    have log: "work (snd x2) = work (snd x) @ checker_built M test c"
      using log_get [OF get] log_call [OF call] Some by (simp add: checker_built_def)
    show "ends_with st (generator_verdict M submit test)
        (if c \<noteq> 0 then and_then (set_file (logged M) ''check_log'' ''/tmp/check.log'') (\<lambda>_. set_text (logged M) ''status'' ''INT'')
         else check_generated (logged M) test ext) x2"
      using checker_broken [OF ready, of c] check_generated_ends [OF ready, of x2] log Some
      by (auto intro!: ends_with_step ends_status simp: quiet_steps dest!: log_set)
  qed (simp_all add: quiet_steps)
qed

lemma generate_hint_ends:
  assumes ran: "solution_ran M submit test ext ''OK'' (work (snd x))"
  shows "ends_with st (generator_verdict M submit test) (generate_hint (logged M) test ext) x"
proof (cases "dget test ''hinter''")
  case None
  then show ?thesis using ran build_checker_ends [of submit test ext x]
    by (simp add: generate_hint_def to_check_def hinter_built_def hint_made_def)
next
  case (Some a)
  then have has: "(dget test ''hinter'' = None) = False" by simp
  show ?thesis
    unfolding generate_hint_def logged_generator has if_False
  proof (intro ends_with_step)
    fix y x1 c x2
    assume get: "get_file (logged M) ''GETTESTBLOB'' ''hinter'' ''/tmp/hinter.cpp'' x = (Ok y, x1)"
      and call: "mc_call (logged M) (hinter_compile_run M) x1 = (Ok c, x2)"
    have log: "work (snd x2) = work (snd x) @ hinter_built M test c"
      using log_get [OF get] log_call [OF call] Some by (simp add: hinter_built_def)
    have made: "ends_with st (generator_verdict M submit test)
        (and_then (mc_call (logged M) (hinter_run M)) (\<lambda>ret2.
         and_then (set_file (logged M) ''hint_generate_log'' ''/tmp/hint_generate.log'') (\<lambda>_.
         if ret2 \<noteq> 0 then set_text (logged M) ''status'' ''INT'' else build_checker (logged M) test ext))) x2" if c: "c = 0"
    proof (intro ends_with_step)
      fix c2 x3 z x4
      assume run: "mc_call (logged M) (hinter_run M) x2 = (Ok c2, x3)"
        and set: "set_file (logged M) ''hint_generate_log'' ''/tmp/hint_generate.log'' x3 = (Ok z, x4)"
      have "work (snd x4) = work (snd x) @ hinter_built M test 0 @ hint_made M test c2"
        using log c log_call [OF run] log_set(2) [OF set] Some by (simp add: hint_made_def)
      then show "ends_with st (generator_verdict M submit test)
          (if c2 \<noteq> 0 then set_text (logged M) ''status'' ''INT'' else build_checker (logged M) test ext) x4"
        using no_hint [OF ran, of c2] build_checker_ends [of submit test ext x4] ran Some
        by (auto intro!: ends_status simp: to_check_def)
    qed (simp_all add: quiet_steps)
    show "ends_with st (generator_verdict M submit test)
        (if c \<noteq> 0
         then and_then (set_file (logged M) ''hint_generate_log'' ''/tmp/hint_generate.log'') (\<lambda>_. set_text (logged M) ''status'' ''INT'')
         else and_then (mc_call (logged M) (hinter_run M)) (\<lambda>ret2.
           and_then (set_file (logged M) ''hint_generate_log'' ''/tmp/hint_generate.log'') (\<lambda>_.
           if ret2 \<noteq> 0 then set_text (logged M) ''status'' ''INT'' else build_checker (logged M) test ext))) x2"
    proof (cases "c = 0")
      case False
      with hinter_broken [OF ran, of c] log Some show ?thesis
        by (auto intro!: ends_with_step ends_status simp: quiet_steps dest!: log_set)
    qed (simp add: made)
  qed (simp_all add: quiet_steps)
qed

lemma run_generated_ends:
  assumes comp: "compiled M submit ext ws" and log: "work (snd x) = ws @ generator_built M 0 @ input_made M test 0"
    and time: "bind_ok (value_of test ''time'') (parse_time M) = Ok t"
    and memory: "bind_ok (value_of test ''memory'') (parse_memory M) = Ok m"
  shows "ends_with st (generator_verdict M submit test) (run_generated (logged M) test ext t m) x"
  unfolding run_generated_def logged_simps
proof (intro ends_with_step)
  fix out x2
  assume popen: "mc_popen (logged M) (execute_run M t m) x = (Ok out, x2)"
  show "ends_with st (generator_verdict M submit test)
      (case text_lines out of [] \<Rightarrow> lift (Raise IndexError)
       | ret # ls \<Rightarrow> and_then (set_stats (logged M) (read_stats ls []))
           (\<lambda>_. if ret \<noteq> ''OK'' then set_text (logged M) ''status'' ret else generate_hint (logged M) test ext)) x2"
  proof (cases "text_lines out")
    case (Cons r ls)
    have "executed M test r (Piped (execute_run M t m) (Ok out))"
      using time memory Cons by (auto simp: executed_def)
    then have ran: "solution_ran M submit test ext r (work (snd x2))"
      using comp log_popen [OF popen] log by (auto simp: solution_ran_def)
    have end_of_run: "ends_with st (generator_verdict M submit test)
        (if r \<noteq> ''OK'' then set_text (logged M) ''status'' r else generate_hint (logged M) test ext) x3"
      if "set_stats (logged M) stats x2 = (Ok z, x3)" for stats z x3
      using ran log_stats [OF that] generate_hint_ends [of submit test ext x3] fails [OF ran]
      by (auto intro: ends_status)
    show ?thesis
      unfolding Cons list.case by (rule ends_with_step [OF set_stats_quiet]) (rule end_of_run)
  qed (simp add: ends_with_raise)
qed (simp_all add: quiet_steps)

lemma make_input_ends:
  assumes comp: "compiled M submit ext ws" and log: "work (snd x) = ws @ generator_built M 0"
    and limits: "bind_ok (value_of test ''time'') (parse_time M) = Ok t" "bind_ok (value_of test ''memory'') (parse_memory M) = Ok m"
  shows "ends_with st (generator_verdict M submit test)
      (and_then (if dget test ''generator_spec'' \<noteq> None then get_file (logged M) ''GETTESTBLOB'' ''generator_spec'' ''/tmp/data.spec''
                 else lift (Ok ())) (\<lambda>_.
       and_then (mc_call (logged M) (generator_run M (spec_file test))) (\<lambda>ret2.
       and_then (set_file (logged M) ''generate_log'' ''/tmp/generate.log'') (\<lambda>_.
       if ret2 \<noteq> 0 then set_text (logged M) ''status'' ''INT'' else run_generated (logged M) test ext t m)))) x"
proof (intro ends_with_step)
  fix y x1 c x2 z x3
  assume spec: "(if dget test ''generator_spec'' \<noteq> None then get_file (logged M) ''GETTESTBLOB'' ''generator_spec'' ''/tmp/data.spec''
                 else lift (Ok ())) x = (Ok y, x1)"
    and call: "mc_call (logged M) (generator_run M (spec_file test)) x1 = (Ok c, x2)"
    and set: "set_file (logged M) ''generate_log'' ''/tmp/generate.log'' x2 = (Ok z, x3)"
  have "work (snd x1) = work (snd x) @ (if dget test ''generator_spec'' = None then []
      else [got ''GETTESTBLOB'' ''generator_spec'' ''/tmp/data.spec''])"
    using spec by (auto dest: log_get log_lift split: if_splits)
  then have "work (snd x3) = ws @ generator_built M 0 @ input_made M test c"
    using log log_call [OF call] log_set(2) [OF set] by (simp add: input_made_def)
  then show "ends_with st (generator_verdict M submit test)
      (if c \<noteq> 0 then set_text (logged M) ''status'' ''INT'' else run_generated (logged M) test ext t m) x3"
    using no_input [OF comp, of c test] run_generated_ends [OF comp _ limits, of x3] by (auto intro: ends_status)
qed (simp_all add: quiet_steps)

lemma generate_input_ends:
  assumes comp: "compiled M submit ext (work (snd x))"
    and limits: "bind_ok (value_of test ''time'') (parse_time M) = Ok t" "bind_ok (value_of test ''memory'') (parse_memory M) = Ok m"
  shows "ends_with st (generator_verdict M submit test) (generate_input (logged M) test ext t m) x"
  unfolding generate_input_def logged_generator
proof (rule ends_with_step, simp add: quiet_steps, rule ends_with_step, simp add: quiet_steps)
  fix y x1 c x2
  assume get: "get_file (logged M) ''GETTESTBLOB'' ''generator'' ''/tmp/generator.cpp'' x = (Ok y, x1)"
    and call: "mc_call (logged M) (generator_compile_run M) x1 = (Ok c, x2)"
  have log: "work (snd x2) = work (snd x) @ generator_built M c"
    using log_get [OF get] log_call [OF call] by (simp add: generator_built_def)
  show "ends_with st (generator_verdict M submit test)
      (if c \<noteq> 0 then and_then (set_file (logged M) ''generate_log'' ''/tmp/generate.log'') (\<lambda>_. set_text (logged M) ''status'' ''INT'')
       else and_then (if dget test ''generator_spec'' \<noteq> None then get_file (logged M) ''GETTESTBLOB'' ''generator_spec'' ''/tmp/data.spec''
                      else lift (Ok ())) (\<lambda>_.
         and_then (mc_call (logged M) (generator_run M (spec_file test))) (\<lambda>ret2.
         and_then (set_file (logged M) ''generate_log'' ''/tmp/generate.log'') (\<lambda>_.
         if ret2 \<noteq> 0 then set_text (logged M) ''status'' ''INT'' else run_generated (logged M) test ext t m)))) x2"
  proof (cases "c = 0")
    case True
    then have eq: "(c \<noteq> 0) = False" and built: "work (snd x2) = work (snd x) @ generator_built M 0" using log by simp_all
    show ?thesis unfolding eq if_False by (rule make_input_ends [OF comp built limits])
  next
    case False
    then have "(c \<noteq> 0) = True" by simp
    with generator_broken [OF comp, of c test] log False show ?thesis
      by (auto intro!: ends_with_step ends_status simp: quiet_steps dest!: log_set)
  qed
qed

lemma build_solution_ends:
  assumes name: "filename_of submit = Ok f" and lang: "language_of (file_ext f) = Some lang"
    and limits: "bind_ok (value_of test ''time'') (parse_time M) = Ok t"
      "bind_ok (value_of test ''memory'') (parse_memory M) = Ok m"
    and log: "work (snd x) = asked"
  shows "ends_with st (generator_verdict M submit test) (build_solution (logged M) test lang t m) x"
proof (cases lang)
  case (fields ext source compiler)
  show ?thesis
    unfolding build_solution_def fields Let_def prod.case logged_simps
  proof (intro ends_with_step)
    fix y x1 z x2 c x3 u x4
    assume jail: "send (logged M) ''CREATEJAIL'' [(''path'', ''/jail''), (''template'', ''judge'')] x = (Ok y, x1)"
      and get: "get_file (logged M) ''GETSUBMITBLOB'' ''content'' (path_join ''/jail/runner'' source) x1 = (Ok z, x2)"
      and call: "mc_call (logged M) (compile_run M compiler) x2 = (Ok c, x3)"
      and set: "set_file (logged M) ''compile_log'' ''/tmp/compile.log'' x3 = (Ok u, x4)"
    have w: "work (snd x4) = prepared_source source @ [Called (compile_run M compiler) (Ok c)]"
      using log_send [OF jail] log_get [OF get] log_call [OF call] log_set(2) [OF set] log by (simp add: prepared_source_def)
    then show "ends_with st (generator_verdict M submit test)
        (if c \<noteq> 0 then set_text (logged M) ''status'' ''CME'' else generate_input (logged M) test ext t m) x4"
      using does_not_compile [OF name, of ext source compiler c M test] generate_input_ends [OF _ limits, of submit ext x4] name lang fields
      by (auto intro!: ends_status simp: compiled_def)
  qed (simp_all add: quiet_steps send_quiet names_status_def)
qed

lemma generator_judge_ends: "ends_with st (generator_verdict M (sub e) (tst e)) (generator_judge (logged M)) (e, [])"
  unfolding generator_judge_def logged_simps
proof (intro ends_with_step)
  fix submit x1 test x2 f x3 t x4 m x5
  assume questions: "ask_attrs (logged M) ''GETSUBMIT'' (e, []) = (Ok submit, x1)" "ask_attrs (logged M) ''GETTEST'' x1 = (Ok test, x2)"
    and lifts: "lift (filename_of submit) x2 = (Ok f, x3)" "lift (bind_ok (value_of test ''time'') (parse_time M)) x3 = (Ok t, x4)"
      "lift (bind_ok (value_of test ''memory'') (parse_memory M)) x4 = (Ok m, x5)"
  note attrs = asking [OF questions]
  have same: "filename_of submit = Ok f" "bind_ok (value_of test ''time'') (parse_time M) = Ok t"
    "bind_ok (value_of test ''memory'') (parse_memory M) = Ok m" "x5 = x2"
    using lifts by (auto dest!: log_lift)
  show "ends_with st (generator_verdict M (sub e) (tst e))
      (case language_of (file_ext f) of None \<Rightarrow> set_text (logged M) ''status'' ''EXT''
       | Some lang \<Rightarrow> build_solution (logged M) test lang t m) x5"
    unfolding attrs(1,2) [symmetric]
    using no_language [OF same(1), of M test] build_solution_ends [OF same(1) _ same(2,3), of _ x5] attrs(3) same(4)
    by (auto intro: ends_status split: option.split)
qed (simp_all add: quiet_steps)

end

lemmas jail_run_generator = jail_run_ends [OF shadows_generator_judge controller.generator_judge_ends]

subsection \<open>A sample\<close>

text \<open>The program of the sample on a test with a generator, a hinter and a checker that all work.\<close>

definition generator_test :: jattrs where
  "generator_test = [(''time'', plain ''10s''), (''memory'', plain ''256MB''),
     (''generator'', \<lparr>ja_is_blob = True, ja_value = ''f00d'', ja_filename = None\<rparr>),
     (''hinter'', \<lparr>ja_is_blob = True, ja_value = ''f11d'', ja_filename = None\<rparr>),
     (''checker'', \<lparr>ja_is_blob = True, ja_value = ''f22d'', ja_filename = None\<rparr>)]"

lemma generator_attributes:
  "dget (listing generator_test) ''checker'' \<noteq> None" "dget (listing generator_test) ''hinter'' \<noteq> None"
  "dget (listing generator_test) ''generator_spec'' = None" "dget (listing generator_test) ''languages'' = None"
  "value_of (listing generator_test) ''time'' = Ok ''10s''" "value_of (listing generator_test) ''memory'' = Ok ''256MB''"
  by (simp_all add: value_of_def listing_def oa_for_judge_def generator_test_def plain_def)

lemma sample_generate:
  "\<exists>c1. generate_input (judge_machine idle_host good_programs) (listing generator_test) ''cpp'' t m c = (Ok (), c1)
     \<and> status_of c1 = Some (plain ''OK'')"
  by (simp add: generate_input_def run_generated_def generate_hint_def build_checker_def check_generated_def and_then_def
      sample_program sample_steps [simplified] sample_set_stats generator_attributes check_languages_def lift_def status_of_def)

lemma sample_generator_judge:
  "\<exists>c1. generator_judge (judge_machine idle_host good_programs)
       \<lparr>jc_submit = sample_submit, jc_test = generator_test, jc_result = [], jc_machine = ()\<rparr> = (Ok (), c1)
     \<and> status_of c1 = Some (plain ''OK'')"
  using sample_generate
  by (simp add: and_then_def generator_judge_def sample_asks sample_attributes generator_attributes sample_steps sample_program lift_def
      language_of_def build_solution_def)

subsection \<open>Property\<close>

text \<open>
  C17 (generated_accepted): A judging machine with this judge reports OK only after a run in which, in this order and with
  nothing else besides results being set, the submitted file was fetched into the jail and compiled, the generator and its
  specification were fetched and it was compiled and made the input, the solution ran under the limits of the test with OK as the
  runner's word, the hinter, if the test has one, was fetched, compiled and made the hint, the checker, if the test has one, was fetched
  and compiled, and the checker or the comparison accepted; and the language is an allowed one. Every other status it reports is
  the verdict on what the run did, or INT where the judge itself fails.
\<close>

theorem generated_accepted:
  assumes "jail_run (E\<lparr>je_run := run_judge (generator_judge (judge_machine H P)) prepare\<rparr>) sd td m = (Ok res, m1)"
  shows "\<exists>v. dget res ''status'' = Some (plain v)
     \<and> (v = ''OK'' \<longrightarrow> (\<exists>f ext src compiler d.
          filename_of (listing sd) = Ok f \<and> language_of (file_ext f) = Some (ext, src, compiler) \<and> language_allowed (listing td) ext
          \<and> executed (judge_machine H P) (listing td) ''OK'' d
          \<and> work (jail_log prepare (generator_judge (logged (judge_machine H P))) sd td m) =
              [Said ''GETSUBMIT'' [] (Ok ()), Said ''GETTEST'' [] (Ok ()),
               Said ''CREATEJAIL'' [(''path'', ''/jail''), (''template'', ''judge'')] (Ok ()),
               got ''GETSUBMITBLOB'' ''content'' (path_join ''/jail/runner'' src), Called (compile_run (judge_machine H P) compiler) (Ok 0),
               got ''GETTESTBLOB'' ''generator'' ''/tmp/generator.cpp'', Called (generator_compile_run (judge_machine H P)) (Ok 0)]
              @ input_made (judge_machine H P) (listing td) 0 @ [d]
              @ hinter_built (judge_machine H P) (listing td) 0 @ hint_made (judge_machine H P) (listing td) 0
              @ checker_built (judge_machine H P) (listing td) 0 @ output_checked (judge_machine H P) (listing td) 0))
     \<and> (v \<noteq> ''OK'' \<longrightarrow> v = ''INT'' \<or> generator_verdict (judge_machine H P) (listing sd) (listing td)
          (work (jail_log prepare (generator_judge (logged (judge_machine H P))) sd td m)) v)"
    (is "\<exists>v. _ \<and> (_ \<longrightarrow> ?accepted) \<and> (_ \<longrightarrow> _ \<or> generator_verdict ?M ?s ?t ?w v)")
proof -
  obtain v where v: "dget res ''status'' = Some (plain v)" and V: "v = ''INT'' \<or> generator_verdict ?M ?s ?t ?w v"
    using jail_run_generator [OF assms] by blast
  have ?accepted if "v = ''OK''"
  proof -
    have "generator_verdict ?M ?s ?t ?w ''OK''" using V that by auto
    then show ?thesis
      by (rule generator_verdict_OK_E)
        (auto simp: to_check_def solution_ran_def compiled_def prepared_source_def asked_def generator_built_def)
  qed
  with v V show ?thesis by blast
qed

theorem generated_accepted_witness:
  "\<exists>d. work (jail_log (\<lambda>m. (Ok (), m)) (generator_judge (logged (judge_machine idle_host good_programs))) sample_submit generator_test ()) =
      prepared_source ''solution.cpp'' @ [Called (compile_run (judge_machine idle_host good_programs)
         [''/usr/bin/g++'', ''-static'', ''-O2'', ''-Wall'', ''solution.cpp'', ''-osolution.x'']) (Ok 0)]
      @ generator_built (judge_machine idle_host good_programs) 0
      @ input_made (judge_machine idle_host good_programs) (listing generator_test) 0 @ [d]
      @ hinter_built (judge_machine idle_host good_programs) (listing generator_test) 0
      @ hint_made (judge_machine idle_host good_programs) (listing generator_test) 0
      @ checker_built (judge_machine idle_host good_programs) (listing generator_test) 0
      @ output_checked (judge_machine idle_host good_programs) (listing generator_test) 0"
proof -
  obtain c1 where run: "generator_judge (judge_machine idle_host good_programs)
       \<lparr>jc_submit = sample_submit, jc_test = generator_test, jc_result = [], jc_machine = ()\<rparr> = (Ok (), c1)"
    and status: "status_of c1 = Some (plain ''OK'')" using sample_generator_judge by blast
  have jail: "jail_run (idle_env\<lparr>je_run := run_judge (generator_judge (judge_machine idle_host good_programs)) (\<lambda>m. (Ok (), m))\<rparr>)
       sample_submit generator_test () = (Ok (run_result (jc_result c1)), jc_machine c1)"
    by (simp add: jail_run_def run_judge_def and_then_def on_machine_def run idle_env_def)
  have "dget (run_result (jc_result c1)) ''status'' = Some (plain ''OK'')"
    using run_result_status [of "jc_result c1"] status by (auto simp: status_of_def)
  with generated_accepted [OF jail] show ?thesis
    by (auto simp: plain_def sample_attributes sample_names language_of_def prepared_source_def asked_def generator_built_def)
qed

end
