(* ===== verification/Events_Slave.thy ===== *)
theory Events_Slave
  imports Events_Dispatcher
begin

section \<open>satori.events.slave2: the other end of a connection\<close>

text \<open>
  \<open>Slave2\<close> runs the clients of one process over one connection to the master (\<open>client2.py\<close> has their base class).
  \<^item> \<open>slave\<close>: the clients of each queue in the order in which they get its events, the clients themselves, those added and
    removed but not yet looked at, the commands sent, what will arrive, and whatever the clients keep (\<open>'w\<close>).
  \<^item> \<open>behaviour\<close>: \<open>init\<close>, \<open>deinit\<close> and \<open>handle_event\<close> of the clients, which call the slave.
  \<^item> An \<open>arrival\<close> is an answer of the master, a call interrupted by a signal, or a failure.
  The loops may run forever: \<open>None\<close>.
\<close>

datatype arrival = Answer response | Interrupted | Failed

record 'w slave =
  sl_queues :: "(queue_id, client list) dict"
  sl_clients :: "client list"
  sl_added :: "client list"
  sl_removed :: "client list"
  sl_terminated :: bool
  sl_sent :: "command list"
  sl_inbox :: "arrival list"
  sl_state :: 'w

definition new_slave :: "arrival list \<Rightarrow> 'w \<Rightarrow> 'w slave" where
  "new_slave inbox x = \<lparr>sl_queues = [], sl_clients = [], sl_added = [], sl_removed = [], sl_terminated = False,
     sl_sent = [], sl_inbox = inbox, sl_state = x\<rparr>"

record 'w behaviour =
  bh_init :: "client \<Rightarrow> 'w slave \<Rightarrow> unit outcome \<times> 'w slave"
  bh_deinit :: "client \<Rightarrow> 'w slave \<Rightarrow> unit outcome \<times> 'w slave"
  bh_handle :: "client \<Rightarrow> queue_id \<Rightarrow> event \<Rightarrow> 'w slave \<Rightarrow> unit outcome \<times> 'w slave"

subsection \<open>The connection\<close>

definition conn_send :: "command \<Rightarrow> 'w slave \<Rightarrow> 'w slave" where
  "conn_send k s = s\<lparr>sl_sent := sl_sent s @ [k]\<rparr>"

definition conn_recv :: "'w slave \<Rightarrow> response outcome \<times> 'w slave" where
  "conn_recv s =
     (case sl_inbox s of
        [] \<Rightarrow> (Raise EOFError, s)
      | Answer r # rest \<Rightarrow> (Ok r, s\<lparr>sl_inbox := rest\<rparr>)
      | _ # rest \<Rightarrow> (Raise IOError, s\<lparr>sl_inbox := rest\<rparr>))"

definition conn_call :: "command \<Rightarrow> 'w slave \<Rightarrow> response outcome \<times> 'w slave" where
  "conn_call k s = conn_recv (conn_send k s)"

subsection \<open>What clients call\<close>

definition put_queue :: "queue_id \<Rightarrow> client list \<Rightarrow> 'w slave \<Rightarrow> 'w slave" where
  "put_queue q cs s = s\<lparr>sl_queues := dset q cs (sl_queues s)\<rparr>"

definition slave_attach :: "client \<Rightarrow> queue_id \<Rightarrow> 'w slave \<Rightarrow> unit outcome \<times> 'w slave" where
  "slave_attach c q s =
     (case dget (sl_queues s) q of
        Some cs \<Rightarrow> (Ok (), put_queue q (cs @ [c]) s)
      | None \<Rightarrow>
          (case conn_call (Attach q) s of
             (Raise e, s1) \<Rightarrow> (Raise e, s1)
           | (Ok _, s1) \<Rightarrow> (Ok (), put_queue q [c] s1)))"

definition slave_detach :: "client \<Rightarrow> queue_id \<Rightarrow> 'w slave \<Rightarrow> unit outcome \<times> 'w slave" where
  "slave_detach c q s =
     (case dget (sl_queues s) q of
        None \<Rightarrow> (Ok (), s)
      | Some cs \<Rightarrow>
          if c \<notin> set cs then (Raise ValueError, s)
          else let s1 = put_queue q (remove1 c cs) s in
            if remove1 c cs \<noteq> [] then (Ok (), s1)
            else (case conn_call (Detach q) s1 of
                    (Raise e, s2) \<Rightarrow> (Raise e, s2)
                  | (Ok _, s2) \<Rightarrow> (Ok (), s2\<lparr>sl_queues := ddel q (sl_queues s2)\<rparr>)))"

definition slave_map :: "criteria \<Rightarrow> queue_id \<Rightarrow> 'w slave \<Rightarrow> response outcome \<times> 'w slave" where
  "slave_map cr q = conn_call (Map cr q)"

definition slave_unmap :: "mapping_id \<Rightarrow> 'w slave \<Rightarrow> unit outcome \<times> 'w slave" where
  "slave_unmap i = and_then (conn_call (Unmap i)) (\<lambda>_ s. (Ok (), s))"

definition slave_send :: "event \<Rightarrow> 'w slave \<Rightarrow> unit outcome \<times> 'w slave" where
  "slave_send e = and_then (conn_call (Send e)) (\<lambda>_ s. (Ok (), s))"

definition slave_keep_alive :: "'w slave \<Rightarrow> unit outcome \<times> 'w slave" where
  "slave_keep_alive = and_then (conn_call KeepAlive) (\<lambda>_ s. (Ok (), s))"

definition slave_disconnect :: "'w slave \<Rightarrow> 'w slave" where
  "slave_disconnect s = conn_send Disconnect s"

definition slave_terminate :: "'w slave \<Rightarrow> 'w slave" where
  "slave_terminate s = s\<lparr>sl_terminated := True\<rparr>"

definition add_client :: "client \<Rightarrow> 'w slave \<Rightarrow> 'w slave" where
  "add_client c s = s\<lparr>sl_added := sl_added s @ [c]\<rparr>"

text \<open>\<open>Client2.finish\<close> is \<open>remove_client\<close> of the client itself.\<close>

definition remove_client :: "client \<Rightarrow> 'w slave \<Rightarrow> 'w slave" where
  "remove_client c s = s\<lparr>sl_removed := sl_removed s @ [c]\<rparr>"

subsection \<open>The loop\<close>

definition detach_if_there :: "client \<Rightarrow> queue_id \<Rightarrow> 'w slave \<Rightarrow> unit outcome \<times> 'w slave" where
  "detach_if_there c q s =
     (case dget (sl_queues s) q of
        None \<Rightarrow> (Raise KeyError, s)
      | Some cs \<Rightarrow> if c \<in> set cs then slave_detach c q s else (Ok (), s))"

definition detach_all :: "client \<Rightarrow> 'w slave \<Rightarrow> unit outcome \<times> 'w slave" where
  "detach_all c s = for_each (detach_if_there c) (dkeys (sl_queues s)) s"

definition forget_client :: "client \<Rightarrow> 'w slave \<Rightarrow> unit outcome \<times> 'w slave" where
  "forget_client c s = (if c \<in> set (sl_clients s) then (Ok (), s\<lparr>sl_clients := sdel c (sl_clients s)\<rparr>) else (Raise KeyError, s))"

text \<open>A \<open>while\<close> loop whose body may raise, and leave the loop by its condition or a \<open>break\<close>.\<close>

datatype turn = Again | Leave

partial_function (option) repeat_ok :: "('s \<Rightarrow> (turn outcome \<times> 's) option) \<Rightarrow> 's \<Rightarrow> (unit outcome \<times> 's) option" where
  "repeat_ok body s =
     (case body s of
        None \<Rightarrow> None
      | Some (Raise e, s1) \<Rightarrow> Some (Raise e, s1)
      | Some (Ok Leave, s1) \<Rightarrow> Some (Ok (), s1)
      | Some (Ok Again, s1) \<Rightarrow> repeat_ok body s1)"

definition go_on :: "'a outcome \<times> 's \<Rightarrow> (turn outcome \<times> 's) option" where
  "go_on x = (case x of (r, s) \<Rightarrow> Some (map_ok (\<lambda>_. Again) r, s))"

definition drop_one :: "'w behaviour \<Rightarrow> client \<Rightarrow> 'w slave \<Rightarrow> unit outcome \<times> 'w slave" where
  "drop_one B c = and_then (detach_all c) (\<lambda>_. and_then (bh_deinit B c) (\<lambda>_. forget_client c))"

definition drop_removed :: "'w behaviour \<Rightarrow> 'w slave \<Rightarrow> (unit outcome \<times> 'w slave) option" where
  "drop_removed B =
     repeat_ok (\<lambda>s. case sl_removed s of
        [] \<Rightarrow> Some (Ok Leave, s)
      | c # rest \<Rightarrow> go_on (drop_one B c (s\<lparr>sl_removed := rest\<rparr>)))"

definition take_added :: "'w behaviour \<Rightarrow> 'w slave \<Rightarrow> (unit outcome \<times> 'w slave) option" where
  "take_added B =
     repeat_ok (\<lambda>s. case sl_added s of
        [] \<Rightarrow> Some (Ok Leave, s)
      | c # rest \<Rightarrow> go_on (bh_init B c (s\<lparr>sl_added := rest, sl_clients := sadd c (sl_clients s)\<rparr>)))"

text \<open>
  An event goes to the first client of its queue, which is behind the others afterwards. An answer other than an event
  cannot be unpacked into two names (a mapping id has more than two characters).
\<close>

definition deliver :: "'w behaviour \<Rightarrow> queue_id \<Rightarrow> event \<Rightarrow> 'w slave \<Rightarrow> unit outcome \<times> 'w slave" where
  "deliver B q e s =
     (case dget (sl_queues s) q of
        None \<Rightarrow> (Ok (), s)
      | Some [] \<Rightarrow> (Raise IndexError, s)
      | Some (c # cs) \<Rightarrow>
          and_then (bh_handle B c q e) (\<lambda>_ s1.
            case dget (sl_queues s1) q of
              None \<Rightarrow> (Raise KeyError, s1)
            | Some ds \<Rightarrow> (Ok (), put_queue q (ds @ [c]) s1)) (put_queue q cs s))"

definition receive_turn :: "'w behaviour \<Rightarrow> 'w slave \<Rightarrow> turn outcome \<times> 'w slave" where
  "receive_turn B s =
     (let s1 = conn_send Receive s in
      case (sl_inbox s1, conn_recv s1) of
        (Interrupted # _, (_, s2)) \<Rightarrow> (Ok Leave, s2)
      | (_, (Raise e, s2)) \<Rightarrow> (Raise e, s2)
      | (_, (Ok (REvent q e), s2)) \<Rightarrow> (case deliver B q e s2 of (r, s3) \<Rightarrow> (map_ok (\<lambda>_. Again) r, s3))
      | (_, (Ok (RMapping _), s2)) \<Rightarrow> (Raise ValueError, s2)
      | (_, (Ok _, s2)) \<Rightarrow> (Raise TypeError, s2))"

definition slave_turn :: "'w behaviour \<Rightarrow> 'w slave \<Rightarrow> (turn outcome \<times> 'w slave) option" where
  "slave_turn B s =
     (case drop_removed B s of
        None \<Rightarrow> None
      | Some (Raise e, s1) \<Rightarrow> Some (Raise e, s1)
      | Some (Ok _, s1) \<Rightarrow>
          (case take_added B s1 of
             None \<Rightarrow> None
           | Some (Raise e, s2) \<Rightarrow> Some (Raise e, s2)
           | Some (Ok _, s2) \<Rightarrow> if sl_clients s2 = [] then Some (Ok Leave, s2) else Some (receive_turn B s2)))"

definition slave_loop :: "'w behaviour \<Rightarrow> 'w slave \<Rightarrow> (unit outcome \<times> 'w slave) option" where
  "slave_loop B = repeat_ok (\<lambda>s. if sl_terminated s then Some (Ok Leave, s) else slave_turn B s)"

definition clean_up :: "'w slave \<Rightarrow> unit outcome \<times> 'w slave" where
  "clean_up s = and_then (for_each detach_all (sl_clients s)) (\<lambda>_ s1. (Ok (), s1\<lparr>sl_clients := []\<rparr>)) s"

definition slave_run :: "'w behaviour \<Rightarrow> 'w slave \<Rightarrow> (unit outcome \<times> 'w slave) option" where
  "slave_run B s =
     (case slave_loop B s of
        None \<Rightarrow> None
      | Some (r, s1) \<Rightarrow>
          (case clean_up s1 of
             (Raise e, s2) \<Rightarrow> Some (Raise e, s2)
           | (Ok _, s2) \<Rightarrow> (case r of Raise e \<Rightarrow> Some (Raise e, s2) | Ok _ \<Rightarrow> Some (Ok (), slave_disconnect s2))))"

end
