(* ===== verification/Events_Slave_Props.thy ===== *)
theory Events_Slave_Props
  imports Events_Slave
begin

section \<open>What a slave knows of its connection\<close>

text \<open>
  \<^item> \<open>attached_by\<close>: the queues a connection is attached to after the commands sent.
  \<^item> \<open>books c Q E s\<close>: the slave's table of queues agrees with that, every client of a queue is a client of the slave and is in
    the queue once. It holds while \<open>c\<close> runs with the queues \<open>Q\<close> out of its reach: the queue whose event it
    handles, which it has been taken out of, or all queues when it is about to go. Queues in \<open>E\<close> may be empty.
  \<^item> \<open>acts c Q\<close>: what \<open>c\<close> may do to the slave; locale \<open>obedient\<close>: behaviours that do nothing else.
\<close>

fun attached_step :: "command \<Rightarrow> queue_id set \<Rightarrow> queue_id set" where
  "attached_step (Attach q) A = insert q A"
| "attached_step (Detach q) A = A - {q}"
| "attached_step _ A = A"

definition attached_by :: "command list \<Rightarrow> queue_id set" where
  "attached_by ks = fold attached_step ks {}"

lemma attached_by_snoc [simp]: "attached_by (ks @ [k]) = attached_step k (attached_by ks)"
  by (simp add: attached_by_def)

definition table_ok :: "client \<Rightarrow> queue_id set \<Rightarrow> queue_id set \<Rightarrow> (queue_id, client list) dict \<Rightarrow> client list \<Rightarrow> queue_id set \<Rightarrow> bool" where
  "table_ok c Q E t cl A \<longleftrightarrow>
     dict_ok t \<and> A = set (dkeys t)
     \<and> (\<forall>q cs. dget t q = Some cs \<longrightarrow> distinct cs \<and> set cs \<subseteq> set cl \<and> (cs = [] \<longrightarrow> q \<in> E) \<and> (q \<in> Q \<longrightarrow> c \<notin> set cs))"

definition new_ok :: "'w slave \<Rightarrow> bool" where
  "new_ok s \<longleftrightarrow> distinct (sl_added s) \<and> set (sl_added s) \<inter> set (sl_clients s) = {} \<and> distinct (sl_clients s)"

definition books :: "client \<Rightarrow> queue_id set \<Rightarrow> queue_id set \<Rightarrow> 'w slave \<Rightarrow> bool" where
  "books c Q E s \<longleftrightarrow>
     table_ok c Q E (sl_queues s) (sl_clients s) (attached_by (sl_sent s)) \<and> new_ok s \<and> (Q \<noteq> UNIV \<longrightarrow> c \<in> set (sl_clients s))"

definition slave_ok :: "'w slave \<Rightarrow> bool" where
  "slave_ok s \<longleftrightarrow> (\<forall>c. table_ok c {} {} (sl_queues s) (sl_clients s) (attached_by (sl_sent s))) \<and> new_ok s"

lemma table_ok_nobody: "table_ok c {} {} t cl A \<Longrightarrow> table_ok d {} {} t cl A"
  by (simp add: table_ok_def)

lemma slave_ok_books: "slave_ok s \<Longrightarrow> c \<in> set (sl_clients s) \<Longrightarrow> books c {} {} s"
  by (simp add: slave_ok_def books_def)

lemma books_slave_ok: "books c {} {} s \<Longrightarrow> slave_ok s"
  using table_ok_nobody by (auto simp: slave_ok_def books_def)

inductive acts :: "client \<Rightarrow> queue_id set \<Rightarrow> 'w slave \<Rightarrow> 'w slave \<Rightarrow> bool" for c Q s where
  at_rest: "acts c Q s s"
| attaches: "acts c Q s s1 \<Longrightarrow> q \<notin> Q \<Longrightarrow> \<forall>cs. dget (sl_queues s1) q = Some cs \<longrightarrow> c \<notin> set cs \<Longrightarrow>
    slave_attach c q s1 = (Ok (), s2) \<Longrightarrow> acts c Q s s2"
| detaches: "acts c Q s s1 \<Longrightarrow> slave_detach c q s1 = (Ok (), s2) \<Longrightarrow> acts c Q s s2"
| calls: "acts c Q s s1 \<Longrightarrow> k \<in> {KeepAlive, Map cr q, Unmap i, Send e} \<Longrightarrow> conn_call k s1 = (Ok r, s2) \<Longrightarrow> acts c Q s s2"
| adds: "acts c Q s s1 \<Longrightarrow> d \<notin> set (sl_clients s1) \<Longrightarrow> d \<notin> set (sl_added s1) \<Longrightarrow> acts c Q s (add_client d s1)"
| removes: "acts c Q s s1 \<Longrightarrow> acts c Q s (remove_client d s1)"
| stops: "acts c Q s s1 \<Longrightarrow> acts c Q s (slave_terminate s1)"
| thinks: "acts c Q s s1 \<Longrightarrow> acts c Q s (s1\<lparr>sl_state := x\<rparr>)"

lemma conn_call_Ok:
  "conn_call k s = (Ok r, s1) \<Longrightarrow> \<exists>rest. s1 = s\<lparr>sl_sent := sl_sent s @ [k], sl_inbox := rest\<rparr>"
  by (auto simp: conn_call_def conn_recv_def conn_send_def split: list.splits arrival.splits)

lemma ddel_dset: "ddel k (dset k v d) = ddel k d"
  by (induction d) auto

text \<open>What an attaching and a detaching that succeed leave.\<close>

lemma slave_attach_Ok:
  assumes "slave_attach c q s = (Ok (), s1)"
  shows "sl_clients s1 = sl_clients s" "sl_added s1 = sl_added s"
    and "sl_queues s1 = dset q ((case dget (sl_queues s) q of None \<Rightarrow> [] | Some cs \<Rightarrow> cs) @ [c]) (sl_queues s)"
    and "attached_by (sl_sent s1) = (if dget (sl_queues s) q = None then insert q (attached_by (sl_sent s)) else attached_by (sl_sent s))"
  using assms by (auto simp: slave_attach_def put_queue_def split: option.splits prod.splits outcome.splits dest!: conn_call_Ok)

lemma slave_detach_Ok:
  assumes "slave_detach c q s = (Ok (), s1)"
  shows "s1 = s \<and> dget (sl_queues s) q = None
    \<or> (\<exists>cs. dget (sl_queues s) q = Some cs \<and> c \<in> set cs \<and> sl_clients s1 = sl_clients s \<and> sl_added s1 = sl_added s
         \<and> sl_removed s1 = sl_removed s \<and> sl_terminated s1 = sl_terminated s
         \<and> (remove1 c cs \<noteq> [] \<and> sl_queues s1 = dset q (remove1 c cs) (sl_queues s) \<and> sl_sent s1 = sl_sent s
            \<or> remove1 c cs = [] \<and> sl_queues s1 = ddel q (sl_queues s) \<and> sl_sent s1 = sl_sent s @ [Detach q]))"
  using assms
  by (auto simp: slave_detach_def put_queue_def Let_def ddel_dset
      split: option.splits prod.splits outcome.splits if_splits dest!: conn_call_Ok)

lemma slave_attach_books:
  assumes "books c Q E s" "q \<notin> Q" "\<forall>cs. dget (sl_queues s) q = Some cs \<longrightarrow> c \<notin> set cs" "slave_attach c q s = (Ok (), s1)"
  shows "books c Q E s1"
  using assms(1-3) unfolding books_def table_ok_def new_ok_def slave_attach_Ok [OF assms(4)]
  by (auto simp: dget_None_iff [symmetric] split: option.splits)

lemma slave_detach_books:
  assumes b: "books c Q E s" and "slave_detach c q s = (Ok (), s1)"
  shows "books c Q E s1"
proof -
  from slave_detach_Ok [OF assms(2)] consider "s1 = s"
    | cs where "dget (sl_queues s) q = Some cs" "c \<in> set cs" "sl_clients s1 = sl_clients s" "sl_added s1 = sl_added s"
        "remove1 c cs \<noteq> []" "sl_queues s1 = dset q (remove1 c cs) (sl_queues s)" "sl_sent s1 = sl_sent s"
    | cs where "dget (sl_queues s) q = Some cs" "c \<in> set cs" "sl_clients s1 = sl_clients s" "sl_added s1 = sl_added s"
        "remove1 c cs = []" "sl_queues s1 = ddel q (sl_queues s)" "sl_sent s1 = sl_sent s @ [Detach q]" by blast
  then show ?thesis
  proof cases
    case 2
    moreover have "q \<in> set (dkeys (sl_queues s))" using 2(1) by (metis dget_None_iff option.distinct(1))
    ultimately show ?thesis using b by (auto simp: books_def table_ok_def new_ok_def insert_absorb dest: subsetD [OF set_remove1_subset])
  next
    case 3
    with b show ?thesis by (auto simp: books_def table_ok_def new_ok_def)
  qed (use b in simp)
qed

lemma acts_books: "acts c Q s s' \<Longrightarrow> books c Q E s \<Longrightarrow> books c Q E s'"
proof (induction rule: acts.induct)
  case (attaches s1 q s2)
  then show ?case by (blast intro: slave_attach_books)
next
  case (detaches s1 q s2)
  then show ?case by (blast intro: slave_detach_books)
next
  case (calls s1 k cr q i e r s2)
  obtain rest where s2: "s2 = s1\<lparr>sl_sent := sl_sent s1 @ [k], sl_inbox := rest\<rparr>" using conn_call_Ok [OF calls.hyps(3)] by blast
  have "attached_step k A = A" for A using calls.hyps(2) by auto
  with calls.IH [OF calls.prems] show ?case by (simp add: books_def new_ok_def s2)
next
  case (adds s1 d)
  then show ?case by (simp add: books_def new_ok_def add_client_def)
qed (simp_all add: books_def new_ok_def remove_client_def slave_terminate_def)


text \<open>Nobody comes into a queue.\<close>

definition shrinks :: "'w slave \<Rightarrow> 'w slave \<Rightarrow> bool" where
  "shrinks s s1 \<longleftrightarrow>
     sl_clients s1 = sl_clients s \<and> sl_added s1 = sl_added s
     \<and> (\<forall>q cs1. dget (sl_queues s1) q = Some cs1 \<longrightarrow> (\<exists>cs. dget (sl_queues s) q = Some cs \<and> set cs1 \<subseteq> set cs))"

lemma shrinks_refl: "shrinks s s"
  by (simp add: shrinks_def)

lemma shrinks_trans: "shrinks s s1 \<Longrightarrow> shrinks s1 s2 \<Longrightarrow> shrinks s s2"
  unfolding shrinks_def by (metis subset_trans)

definition out_of :: "client \<Rightarrow> queue_id \<Rightarrow> 'w slave \<Rightarrow> bool" where
  "out_of c q s \<longleftrightarrow> (\<forall>cs. dget (sl_queues s) q = Some cs \<longrightarrow> c \<notin> set cs)"

lemma out_of_shrinks: "out_of c q s \<Longrightarrow> shrinks s s1 \<Longrightarrow> out_of c q s1"
  unfolding out_of_def shrinks_def by (metis subsetD)

lemma slave_detach_shrinks:
  assumes "slave_detach c q s = (Ok (), s1)"
  shows "shrinks s s1"
  using slave_detach_Ok [OF assms] shrinks_refl [of s]
  by (auto simp: shrinks_def split: if_splits dest: subsetD [OF set_remove1_subset])

lemma slave_detach_out:
  assumes "slave_detach c q s = (Ok (), s1)" "dget (sl_queues s) q = Some cs" "distinct cs"
  shows "out_of c q s1"
  using slave_detach_Ok [OF assms(1)] assms(2,3) by (auto simp: out_of_def)

lemma detach_if_there_Ok:
  assumes b: "books c {} {} s" and run: "detach_if_there c q s = (Ok (), s1)"
  shows "books c {} {} s1 \<and> shrinks s s1 \<and> out_of c q s1"
proof -
  obtain cs where cs: "dget (sl_queues s) q = Some cs"
    and d: "if c \<in> set cs then slave_detach c q s = (Ok (), s1) else s1 = s"
    using run by (auto simp: detach_if_there_def split: option.splits if_splits)
  show ?thesis
  proof (cases "c \<in> set cs")
    case False
    with d b cs show ?thesis by (simp add: shrinks_refl out_of_def)
  next
    case True
    with d have det: "slave_detach c q s = (Ok (), s1)" by simp
    have "distinct cs" using b cs by (simp add: books_def table_ok_def)
    then show ?thesis
      using slave_detach_books [OF b det] slave_detach_shrinks [OF det] slave_detach_out [OF det cs] by simp
  qed
qed

lemma detach_loop_Ok:
  "books c {} {} s \<Longrightarrow> for_each (detach_if_there c) qs s = (Ok (), s1) \<Longrightarrow>
     books c {} {} s1 \<and> shrinks s s1 \<and> (\<forall>q \<in> set qs. out_of c q s1)"
proof (induction qs arbitrary: s)
  case (Cons q qs)
  obtain s2 where s2: "detach_if_there c q s = (Ok (), s2)" and rest: "for_each (detach_if_there c) qs s2 = (Ok (), s1)"
    using Cons.prems(2) by (auto split: prod.splits outcome.splits)
  note one = detach_if_there_Ok [OF Cons.prems(1) s2]
  note more = Cons.IH [OF conjunct1 [OF one] rest]
  show ?case using one more shrinks_trans [of s s2 s1] out_of_shrinks [of c q s2 s1] by simp
qed (simp add: shrinks_refl)

lemma detach_all_Ok:
  assumes b: "books c {} {} s" and run: "detach_all c s = (Ok (), s1)"
  shows "books c UNIV {} s1" and "slave_ok s1" and "shrinks s s1" and "\<forall>q. out_of c q s1"
proof -
  note l = detach_loop_Ok [OF b run [unfolded detach_all_def]]
  show sh: "shrinks s s1" using l by blast
  show ok: "slave_ok s1" using l books_slave_ok by blast
  show out: "\<forall>q. out_of c q s1"
  proof
    fix q show "out_of c q s1"
    proof (cases "q \<in> set (dkeys (sl_queues s))")
      case True
      with l show ?thesis by blast
    next
      case False
      then have "out_of c q s" by (simp add: out_of_def dget_None_iff [symmetric])
      with sh show ?thesis by (blast intro: out_of_shrinks)
    qed
  qed
  show "books c UNIV {} s1" using ok out by (simp add: books_def slave_ok_def table_ok_def out_of_def)
qed


subsection \<open>The loop\<close>

lemma acts_clients: "acts c Q s s' \<Longrightarrow> sl_clients s' = sl_clients s"
  by (induction rule: acts.induct)
    (auto simp: add_client_def remove_client_def slave_terminate_def slave_attach_Ok dest!: slave_detach_Ok conn_call_Ok)

lemma detach_all_clients:
  assumes "detach_all c s = (Ok (), s1)"
  shows "sl_clients s1 = sl_clients s"
proof -
  have "for_each (detach_if_there c) qs t = (Ok (), s1) \<Longrightarrow> sl_clients s1 = sl_clients t" for qs t
    by (induction qs arbitrary: t)
      (fastforce simp: detach_if_there_def dest: slave_detach_Ok split: prod.splits outcome.splits option.splits if_splits)+
  with assms show ?thesis by (simp add: detach_all_def)
qed

lemma repeat_ok_inv:
  assumes run: "repeat_ok body s = Some (Ok (), s1)" and "P s"
    and keep: "\<And>s t s1. body s = Some (Ok t, s1) \<Longrightarrow> P s \<Longrightarrow> P s1"
  shows "P s1"
proof -
  have "(\<forall>s t s1. body s = Some (Ok t, s1) \<longrightarrow> P s \<longrightarrow> P s1) \<longrightarrow> P s \<longrightarrow> fst y = Ok () \<longrightarrow> P (snd y)"
    if "repeat_ok body s = Some y" for y
  proof (rule repeat_ok.raw_induct [where P = "\<lambda>body s y.
      (\<forall>s t s1. body s = Some (Ok t, s1) \<longrightarrow> P s \<longrightarrow> P s1) \<longrightarrow> P s \<longrightarrow> fst y = Ok () \<longrightarrow> P (snd y)", OF _ that])
    fix f body s y
    assume IH: "\<And>body s y. f body s = Some y \<Longrightarrow>
        (\<forall>s t s1. body s = Some (Ok t, s1) \<longrightarrow> P s \<longrightarrow> P s1) \<longrightarrow> P s \<longrightarrow> fst y = Ok () \<longrightarrow> P (snd y)"
      and eq: "(case body s of None \<Rightarrow> None | Some (Ok Again, s1) \<Rightarrow> f body s1 | Some (Ok Leave, s1) \<Rightarrow> Some (Ok (), s1)
        | Some (Raise e, s1) \<Rightarrow> Some (Raise e, s1)) = Some y"
    show "(\<forall>s t s1. body s = Some (Ok t, s1) \<longrightarrow> P s \<longrightarrow> P s1) \<longrightarrow> P s \<longrightarrow> fst y = Ok () \<longrightarrow> P (snd y)"
      using eq IH by (auto split: option.splits prod.splits outcome.splits turn.splits)
  qed
  with assms show ?thesis by fastforce
qed

lemma go_on_Some: "go_on x = Some (Ok t, s1) \<longleftrightarrow> (\<exists>y. x = (Ok y, s1)) \<and> t = Again"
  by (cases x; cases "fst x") (auto simp: go_on_def)

locale obedient =
  fixes B :: "'w behaviour"
  assumes init_acts: "\<forall>q. out_of c q s \<Longrightarrow> bh_init B c s = (Ok (), s') \<Longrightarrow> acts c {} s s'"
    and deinit_acts: "bh_deinit B c s = (Ok (), s') \<Longrightarrow> acts c UNIV s s'"
    and handle_acts: "bh_handle B c q e s = (Ok (), s') \<Longrightarrow> acts c {q} s s'"
begin

lemma drop_one_ok:
  assumes ok: "slave_ok s"
    and run: "drop_one B c s = (Ok (), s')"
  shows "slave_ok s'"
proof -
  obtain s1 s2 where s1: "detach_all c s = (Ok (), s1)" and s2: "bh_deinit B c s1 = (Ok (), s2)"
    and s': "forget_client c s2 = (Ok (), s')"
    using run by (auto simp: drop_one_def and_then_def split: prod.splits outcome.splits)
  note acts = deinit_acts [OF s2]
  have "c \<in> set (sl_clients s)"
    using s' acts_clients [OF acts] detach_all_clients [OF s1] by (auto simp: forget_client_def split: if_splits)
  then have "books c {} {} s" by (rule slave_ok_books [OF ok])
  from detach_all_Ok(1) [OF this s1] have "books c UNIV {} s2" by (rule acts_books [OF acts])
  then have "table_ok c UNIV {} (sl_queues s2) (sl_clients s2) (attached_by (sl_sent s2))" and new: "new_ok s2"
    by (simp_all add: books_def)
  then have "table_ok d {} {} (sl_queues s2) (sdel c (sl_clients s2)) (attached_by (sl_sent s2))" for d
    by (auto simp: table_ok_def)
  moreover have "new_ok (s2\<lparr>sl_clients := sdel c (sl_clients s2)\<rparr>)" using new by (auto simp: new_ok_def)
  ultimately show ?thesis using s' by (auto simp: forget_client_def slave_ok_def split: if_splits)
qed

lemma slave_ok_removed: "slave_ok (s\<lparr>sl_removed := x\<rparr>) = slave_ok s"
  by (simp add: slave_ok_def new_ok_def)

lemma drop_removed_ok: "drop_removed B s = Some (Ok (), s1) \<Longrightarrow> slave_ok s \<Longrightarrow> slave_ok s1"
  unfolding drop_removed_def
  by (erule repeat_ok_inv) (auto simp: go_on_Some split: list.splits intro: drop_one_ok [OF slave_ok_removed [THEN iffD2]])

lemma take_one_ok:
  assumes ok: "slave_ok s" and added: "sl_added s = c # rest"
    and run: "bh_init B c (s\<lparr>sl_added := rest, sl_clients := sadd c (sl_clients s)\<rparr>) = (Ok (), s')"
  shows "slave_ok s'"
proof -
  let ?s = "s\<lparr>sl_added := rest, sl_clients := sadd c (sl_clients s)\<rparr>"
  have new: "c \<notin> set (sl_clients s)" using ok added by (auto simp: slave_ok_def new_ok_def)
  then have out: "\<forall>q. out_of c q ?s" using ok by (auto simp: slave_ok_def table_ok_def out_of_def)
  have "books c {} {} ?s"
    using ok added by (auto simp: slave_ok_def books_def new_ok_def table_ok_def)
  with acts_books [OF init_acts [OF out run]] show ?thesis by (blast intro: books_slave_ok)
qed

lemma take_added_ok: "take_added B s = Some (Ok (), s1) \<Longrightarrow> slave_ok s \<Longrightarrow> slave_ok s1"
  unfolding take_added_def
  by (erule repeat_ok_inv) (auto simp: go_on_Some split: list.splits intro: take_one_ok)

lemma deliver_ok:
  assumes ok: "slave_ok s" and run: "deliver B q e s = (Ok (), s')"
  shows "slave_ok s'"
proof (cases "dget (sl_queues s) q")
  case None
  with run ok show ?thesis by (simp add: deliver_def)
next
  case (Some ds)
  then obtain c cs where q: "dget (sl_queues s) q = Some (c # cs)" using run by (cases ds) (auto simp: deliver_def)
  obtain s1 es where s1: "bh_handle B c q e (put_queue q cs s) = (Ok (), s1)" and es: "dget (sl_queues s1) q = Some es"
    and s': "s' = put_queue q (es @ [c]) s1"
    using run q by (auto simp: deliver_def and_then_def split: prod.splits outcome.splits option.splits)
  have "table_ok c {} {} (sl_queues s) (sl_clients s) (attached_by (sl_sent s))" and new: "new_ok s"
    using ok by (simp_all add: slave_ok_def)
  moreover have "q \<in> set (dkeys (sl_queues s))" using q by (metis dget_None_iff option.distinct(1))
  moreover have "distinct (c # cs) \<and> set (c # cs) \<subseteq> set (sl_clients s)"
    using ok q unfolding slave_ok_def table_ok_def by fast
  ultimately have "books c {q} {q} (put_queue q cs s)"
    by (auto simp: books_def new_ok_def table_ok_def put_queue_def insert_absorb)
  from acts_books [OF handle_acts [OF s1] this] have b: "books c {q} {q} s1" .
  have "q \<in> set (dkeys (sl_queues s1))" using es by (metis dget_None_iff option.distinct(1))
  with b es have "books c {} {} s'"
    by (auto simp: s' books_def new_ok_def table_ok_def put_queue_def insert_absorb)
  then show ?thesis by (rule books_slave_ok)
qed

lemma slave_ok_receive: "slave_ok (s\<lparr>sl_sent := sl_sent s @ [Receive], sl_inbox := x\<rparr>) = slave_ok s"
  by (simp add: slave_ok_def new_ok_def)

lemma receive_turn_ok: "receive_turn B s = (Ok t, s1) \<Longrightarrow> slave_ok s \<Longrightarrow> slave_ok s1"
  by (auto simp: receive_turn_def Let_def conn_send_def conn_recv_def slave_ok_receive outcome_simps
      split: list.splits arrival.splits response.splits prod.splits
      intro: deliver_ok [OF slave_ok_receive [THEN iffD2]])

lemma slave_turn_ok: "slave_turn B s = Some (Ok t, s1) \<Longrightarrow> slave_ok s \<Longrightarrow> slave_ok s1"
  by (auto simp: slave_turn_def split: option.splits prod.splits outcome.splits if_splits
      dest: drop_removed_ok take_added_ok receive_turn_ok)

lemma slave_loop_ok: "slave_loop B s = Some (Ok (), s1) \<Longrightarrow> slave_ok s \<Longrightarrow> slave_ok s1"
  unfolding slave_loop_def
  by (erule repeat_ok_inv) (auto split: if_splits dest: slave_turn_ok)

end


subsection \<open>The end of a slave\<close>

lemma clean_loop_ok:
  "slave_ok s \<Longrightarrow> set cs \<subseteq> set (sl_clients s) \<Longrightarrow> for_each detach_all cs s = (Ok (), s1) \<Longrightarrow>
     slave_ok s1 \<and> shrinks s s1 \<and> (\<forall>c \<in> set cs. \<forall>q. out_of c q s1)"
proof (induction cs arbitrary: s)
  case (Cons c cs)
  obtain s2 where s2: "detach_all c s = (Ok (), s2)" and rest: "for_each detach_all cs s2 = (Ok (), s1)"
    using Cons.prems(3) by (auto split: prod.splits outcome.splits)
  have "c \<in> set (sl_clients s)" using Cons.prems(2) by simp
  from detach_all_Ok [OF slave_ok_books [OF Cons.prems(1) this] s2]
  have one: "slave_ok s2" "shrinks s s2" "\<forall>q. out_of c q s2" by simp_all
  have "set cs \<subseteq> set (sl_clients s2)" using Cons.prems(2) one(2) by (simp add: shrinks_def)
  from Cons.IH [OF one(1) this rest] one show ?case
    using shrinks_trans [of s s2 s1] out_of_shrinks [of c _ s2 s1] by simp
qed (simp add: shrinks_refl)

lemma clean_up_ok:
  assumes ok: "slave_ok s" and run: "clean_up s = (Ok (), s1)"
  shows "sl_queues s1 = [] \<and> attached_by (sl_sent s1) = {} \<and> sl_clients s1 = []"
proof -
  obtain s2 where loop: "for_each detach_all (sl_clients s) s = (Ok (), s2)" and s1: "s1 = s2\<lparr>sl_clients := []\<rparr>"
    using run by (auto simp: clean_up_def and_then_def split: prod.splits outcome.splits)
  note l = clean_loop_ok [OF ok subset_refl loop]
  have none: "dget (sl_queues s2) q = None" for q
  proof (cases "dget (sl_queues s2) q")
    case (Some cs)
    have "cs \<noteq> [] \<and> set cs \<subseteq> set (sl_clients s2)" using l Some by (simp add: slave_ok_def table_ok_def)
    moreover have "set (sl_clients s2) = set (sl_clients s)" using l by (simp add: shrinks_def)
    ultimately obtain c where "c \<in> set cs" "c \<in> set (sl_clients s)" by (cases cs) auto
    with l Some have False unfolding out_of_def by blast
    then show ?thesis ..
  qed simp
  then have "set (dkeys (sl_queues s2)) = {}" by (metis dget_None_iff equals0I)
  moreover have "attached_by (sl_sent s2) = set (dkeys (sl_queues s2))" using l by (simp add: slave_ok_def table_ok_def)
  ultimately show ?thesis by (simp add: s1 dkeys_def)
qed

lemma new_slave_ok: "distinct cs \<Longrightarrow> slave_ok (fold add_client cs (new_slave inbox x))"
proof -
  assume "distinct cs"
  have "fold add_client cs s = s\<lparr>sl_added := sl_added s @ cs\<rparr>" for s :: "'a slave"
    by (induction cs arbitrary: s) (simp_all add: add_client_def)
  with \<open>distinct cs\<close> show ?thesis
    by (simp add: new_slave_def slave_ok_def table_ok_def new_ok_def attached_by_def dkeys_def)
qed

text \<open>The states at which a slave begins a round of its loop.\<close>

inductive reaches :: "'w behaviour \<Rightarrow> 'w slave \<Rightarrow> 'w slave \<Rightarrow> bool" for B s where
  begins: "reaches B s s"
| round: "reaches B s s1 \<Longrightarrow> \<not> sl_terminated s1 \<Longrightarrow> slave_turn B s1 = Some (Ok Again, s2) \<Longrightarrow> reaches B s s2"

text \<open>The attachments the master has noted for the connection \<open>k\<close> when it has handled the commands.\<close>

fun master_notes :: "client \<Rightarrow> command \<Rightarrow> dispatcher \<Rightarrow> dispatcher" where
  "master_notes k (Attach q) d = attach k q d"
| "master_notes k (Detach q) d = snd (detach k q d)"
| "master_notes k _ d = d"

lemma queue_ids_attach: "set (c_queue_ids (fst (cdata k (attach k q d)))) = insert q (set (c_queue_ids (fst (cdata k d))))"
  by (auto simp: attach_def qdata_def cdata_def put_q_def put_c_def Let_def split: option.splits)

lemma master_notes_attached:
  "attached_by ks \<subseteq> set (c_queue_ids (fst (cdata k (fold (master_notes k) ks d))))"
proof (induction ks rule: rev_induct)
  case (snoc x ks)
  then show ?case by (cases x) (auto simp: queue_ids_attach detach_def)
qed (simp add: attached_by_def)

lemma reaches_ok: "obedient B \<Longrightarrow> reaches B s s1 \<Longrightarrow> slave_ok s \<Longrightarrow> slave_ok s1"
  by (rotate_tac 1, induction rule: reaches.induct) (auto dest: obedient.slave_turn_ok)

subsection \<open>Turns of the clients of a queue\<close>

text \<open>A client that leaves the queues alone while it handles an event.\<close>

definition keeps_queues :: "'w behaviour \<Rightarrow> queue_id \<Rightarrow> bool" where
  "keeps_queues B q \<longleftrightarrow> (\<forall>c e s r s1. bh_handle B c q e s = (r, s1) \<longrightarrow> sl_queues s1 = sl_queues s)"

lemma deliver_rotates:
  assumes "keeps_queues B q" "dget (sl_queues s) q = Some cs" "deliver B q e s = (Ok (), s1)"
  shows "dget (sl_queues s1) q = Some (rotate1 cs)"
proof -
  obtain c ds where cs: "cs = c # ds" using assms(2,3) by (cases cs) (simp_all add: deliver_def)
  with assms show ?thesis
    by (auto simp: deliver_def and_then_def put_queue_def keeps_queues_def split: prod.splits outcome.splits option.splits)
qed

lemma round_robin:
  "keeps_queues B q \<Longrightarrow> dget (sl_queues s) q = Some cs \<Longrightarrow> for_each (deliver B q) es s = (Ok (), s1) \<Longrightarrow>
     dget (sl_queues s1) q = Some (rotate (length es) cs)"
proof (induction es arbitrary: s cs)
  case (Cons e es)
  obtain s2 where s2: "deliver B q e s = (Ok (), s2)" and rest: "for_each (deliver B q) es s2 = (Ok (), s1)"
    using Cons.prems(3) by (auto split: prod.splits outcome.splits)
  from Cons.IH [OF Cons.prems(1) deliver_rotates [OF Cons.prems(1,2) s2] rest] show ?case
    by (simp add: rotate1_rotate_swap)
qed simp

text \<open>After as many events as there are clients in the queue, the clients stand as before.\<close>

lemma round_robin_back:
  "keeps_queues B q \<Longrightarrow> dget (sl_queues s) q = Some cs \<Longrightarrow> length es = length cs \<Longrightarrow>
     for_each (deliver B q) es s = (Ok (), s1) \<Longrightarrow> dget (sl_queues s1) q = Some cs"
  using round_robin [of B q s cs es s1] by simp

text \<open>
  A client that detaches from the queue whose event it handles: it is out of the queue then, and the slave raises.
\<close>

lemma detach_while_handling:
  "dget (sl_queues s) q = Some (c # cs) \<Longrightarrow> c \<notin> set cs \<Longrightarrow> bh_handle B c q e = slave_detach c q \<Longrightarrow>
     fst (deliver B q e s) = Raise ValueError"
  by (simp add: deliver_def and_then_def slave_detach_def put_queue_def)

subsection \<open>The client that logs all events\<close>

text \<open>\<open>DebugQueue\<close> of \<open>core/management/processes.py\<close>; the log is not modelled.\<close>

definition debug_queue :: queue_id where
  "debug_queue = ''debug_queue''"

definition debug_behaviour :: "'w behaviour" where
  "debug_behaviour =
     \<lparr>bh_init = (\<lambda>c. and_then (slave_attach c debug_queue) (\<lambda>_. and_then (slave_map [] debug_queue) (\<lambda>_ s. (Ok (), s)))),
      bh_deinit = (\<lambda>c s. (Ok (), s)), bh_handle = (\<lambda>c q e s. (Ok (), s))\<rparr>"

interpretation debug: obedient debug_behaviour
proof
  fix c and s s' :: "'a slave"
  assume out: "\<forall>q. out_of c q s" and "bh_init debug_behaviour c s = (Ok (), s')"
  then obtain s1 r where s1: "slave_attach c debug_queue s = (Ok (), s1)" and s2: "conn_call (Map [] debug_queue) s1 = (Ok r, s')"
    by (auto simp: debug_behaviour_def and_then_def slave_map_def split: prod.splits outcome.splits)
  have "acts c {} s s1" using out by (auto intro: attaches [OF at_rest _ _ s1] simp: out_of_def)
  then show "acts c {} s s'" by (rule calls [OF _ _ s2]) simp
qed (simp_all add: debug_behaviour_def at_rest)


subsection \<open>Property\<close>

text \<open>
  C14 (slave_books): For clients that are obedient: whatever of \<open>attach\<close>, \<open>detach\<close>, \<open>map\<close>, \<open>unmap\<close>, \<open>send\<close>, \<open>keep_alive\<close>,
  \<open>add_client\<close>, \<open>remove_client\<close> and \<open>terminate\<close> they call, they attach to no queue they are in already or whose event they
  are handling, attach to none while they are removed, and add no client that is there or about to be. Then
  at the start of each round, also of a run that fails later, a slave has clients waiting for exactly the queues it
  is attached to by the commands it sent, each of them once; the master has noted all these queues for the connection.
  When a slave ends without an exception, it has detached from every queue and has said goodbye. A client that
  detaches from the queue whose event it is handling makes the slave raise ValueError.
\<close>

theorem slave_books:
  assumes "obedient B" and "distinct cs"
  shows "(\<forall>s1. reaches B (fold add_client cs (new_slave inbox x)) s1 \<longrightarrow>
       attached_by (sl_sent s1) = set (dkeys (sl_queues s1))
       \<and> (\<forall>q ds. dget (sl_queues s1) q = Some ds \<longrightarrow> ds \<noteq> [] \<and> distinct ds \<and> set ds \<subseteq> set (sl_clients s1))
       \<and> (\<forall>k d. set (dkeys (sl_queues s1)) \<subseteq> set (c_queue_ids (fst (cdata k (fold (master_notes k) (sl_sent s1) d)))))
       \<and> (\<forall>c ds q e C. dget (sl_queues s1) q = Some (c # ds) \<longrightarrow> bh_handle C c q e = slave_detach c q \<longrightarrow>
            fst (deliver C q e s1) = Raise ValueError))
    \<and> (\<forall>s1. slave_run B (fold add_client cs (new_slave inbox x)) = Some (Ok (), s1) \<longrightarrow>
       attached_by (sl_sent s1) = {} \<and> sl_clients s1 = [] \<and> last (sl_sent s1) = Disconnect)"
proof (intro conjI allI impI)
  let ?s = "fold add_client cs (new_slave inbox x)"
  note ok = new_slave_ok [OF assms(2), of inbox x]
  fix s1 q ds k d c e and C :: "'a behaviour"
  assume "reaches B ?s s1"
  then have s1: "slave_ok s1" by (rule reaches_ok [OF assms(1) _ ok])
  then show a: "attached_by (sl_sent s1) = set (dkeys (sl_queues s1))" by (simp add: slave_ok_def table_ok_def)
  show "set (dkeys (sl_queues s1)) \<subseteq> set (c_queue_ids (fst (cdata k (fold (master_notes k) (sl_sent s1) d))))"
    unfolding a [symmetric] by (rule master_notes_attached)
  show "ds \<noteq> []" "distinct ds" "set ds \<subseteq> set (sl_clients s1)" if "dget (sl_queues s1) q = Some ds"
    using that s1 by (simp_all add: slave_ok_def table_ok_def)
  show "fst (deliver C q e s1) = Raise ValueError"
    if "dget (sl_queues s1) q = Some (c # ds)" "bh_handle C c q e = slave_detach c q"
  proof (rule detach_while_handling [OF that(1) _ that(2)])
    have "distinct (c # ds)" using that(1) s1 unfolding slave_ok_def table_ok_def by blast
    then show "c \<notin> set ds" by simp
  qed
next
  let ?s = "fold add_client cs (new_slave inbox x)"
  fix s1 assume "slave_run B ?s = Some (Ok (), s1)"
  then obtain s2 s3 where loop: "slave_loop B ?s = Some (Ok (), s2)" and up: "clean_up s2 = (Ok (), s3)" and s1: "s1 = slave_disconnect s3"
    by (auto simp: slave_run_def split: option.splits prod.splits outcome.splits)
  from clean_up_ok [OF obedient.slave_loop_ok [OF assms(1) loop new_slave_ok [OF assms(2)]] up]
  show "attached_by (sl_sent s1) = {}" "sl_clients s1 = []" "last (sl_sent s1) = Disconnect"
    by (simp_all add: s1 slave_disconnect_def conn_send_def)
qed

text \<open>The log client gets one event; then a signal interrupts the slave.\<close>

definition sample_inbox :: "arrival list" where
  "sample_inbox = [Answer RNone, Answer (RMapping ''m17''), Answer (REvent debug_queue []), Interrupted, Answer RNone]"

definition sample_slave :: "unit slave" where
  "sample_slave = fold add_client [7] (new_slave sample_inbox ())"

lemma sample_turns:
  "slave_turn debug_behaviour sample_slave =
     Some (Ok Again, \<lparr>sl_queues = [(debug_queue, [7])], sl_clients = [7], sl_added = [], sl_removed = [], sl_terminated = False,
       sl_sent = [Attach debug_queue, Map [] debug_queue, Receive], sl_inbox = [Interrupted, Answer RNone], sl_state = ()\<rparr>)"
  "slave_turn debug_behaviour \<lparr>sl_queues = [(debug_queue, [7])], sl_clients = [7], sl_added = [], sl_removed = [], sl_terminated = False,
       sl_sent = ks, sl_inbox = [Interrupted, Answer RNone], sl_state = ()\<rparr> =
     Some (Ok Leave, \<lparr>sl_queues = [(debug_queue, [7])], sl_clients = [7], sl_added = [], sl_removed = [], sl_terminated = False,
       sl_sent = ks @ [Receive], sl_inbox = [Answer RNone], sl_state = ()\<rparr>)"
  by (simp_all add: slave_turn_def sample_slave_def sample_inbox_def new_slave_def add_client_def drop_removed_def take_added_def
      repeat_ok.simps go_on_def debug_behaviour_def and_then_def slave_attach_def slave_map_def conn_call_def conn_send_def conn_recv_def
      put_queue_def receive_turn_def Let_def deliver_def sadd_def)

lemma sample_slave_run:
  "\<exists>s1. slave_run debug_behaviour sample_slave = Some (Ok (), s1)
     \<and> sl_sent s1 = [Attach debug_queue, Map [] debug_queue, Receive, Receive, Detach debug_queue, Disconnect]"
proof -
  have "\<not> sl_terminated sample_slave" by (simp add: sample_slave_def new_slave_def add_client_def)
  then show ?thesis
    by (simp add: slave_run_def slave_loop_def repeat_ok.simps sample_turns clean_up_def detach_all_def detach_if_there_def
        slave_detach_def dkeys_def and_then_def conn_call_def conn_send_def conn_recv_def put_queue_def Let_def slave_disconnect_def)
qed

theorem slave_books_witness:
  "\<exists>s1. slave_run debug_behaviour sample_slave = Some (Ok (), s1) \<and> attached_by (sl_sent s1) = {} \<and> sl_clients s1 = []
     \<and> last (sl_sent s1) = Disconnect \<and> length (sl_sent s1) = 6"
proof -
  obtain s1 where run: "slave_run debug_behaviour sample_slave = Some (Ok (), s1)" and "length (sl_sent s1) = 6"
    using sample_slave_run by auto
  with slave_books [OF debug.obedient_axioms, of "[7]" sample_inbox "()"] show ?thesis
    by (simp add: sample_slave_def)
qed

end
