(* ===== verification/Printing.thy ===== *)
theory Printing
  imports Events_Slave_Props Judge_Path
begin

section \<open>The printing master\<close>

text \<open>
  \<open>core/printing/__init__.py\<close>: a client of the event server that gives the content of print jobs to the script of their
  contest's printer, and \<open>PrintJob.reprint\<close>.
  \<^item> \<open>printing\<close>: the rows of the jobs, the script of the printer of each contest that has one, the queue of jobs, and the threads
    started, as their arguments.
  \<^item> \<open>printed\<close>: the event a thread sends when the script has ended.
\<close>

record printjob =
  pj_contest :: nat
  pj_pending :: bool
  pj_status :: string
  pj_report :: string
  pj_content :: "(string \<times> string) option"

type_synonym print_thread = "string \<times> string \<times> string \<times> nat"

record printing =
  pr_jobs :: "(nat, printjob) dict"
  pr_scripts :: "(nat, string) dict"
  pr_queue :: "(nat \<times> printjob) list"
  pr_threads :: "print_thread list"

definition printing_queue :: queue_id where
  "printing_queue = ''printing_master_queue''"

definition save_job :: "nat \<Rightarrow> printjob \<Rightarrow> printing \<Rightarrow> printing" where
  "save_job k j p = p\<lparr>pr_jobs := dset k j (pr_jobs p)\<rparr>"

text \<open>The path of the content of a job; the directory of the blobs is absolute.\<close>

definition content_path :: "string \<Rightarrow> string \<Rightarrow> string outcome" where
  "content_path dir hash =
     (case hash of
        a # b # c # _ \<Rightarrow> Ok (normpath (path_join (path_join (path_join (path_join dir [a]) [b]) [c]) hash))
      | _ \<Rightarrow> Raise IndexError)"

definition do_printjob :: "string \<Rightarrow> nat \<Rightarrow> printjob \<Rightarrow> printing \<Rightarrow> unit outcome \<times> printing" where
  "do_printjob dir k j p =
     (case dget (pr_scripts p) (pj_contest j) of
        None \<Rightarrow> (Ok (), p)
      | Some script \<Rightarrow>
          (case pj_content j of
             None \<Rightarrow> (Raise (AttributeError ''value''), p)
           | Some (hash, filename) \<Rightarrow>
               (case content_path dir hash of
                  Raise e \<Rightarrow> (Raise e, p)
                | Ok path \<Rightarrow>
                    (Ok (), (save_job k (j\<lparr>pj_status := ''PRN''\<rparr>) p)\<lparr>pr_threads := pr_threads p @ [(script, path, filename, k)]\<rparr>))))"

lemma do_printjob_queue: "pr_queue (snd (do_printjob dir k j p)) = pr_queue p"
  by (auto simp: do_printjob_def save_job_def split: option.split outcome.split)

text \<open>\<open>deque.pop\<close> takes the job that came last.\<close>

function print_work :: "string \<Rightarrow> printing \<Rightarrow> unit outcome \<times> printing" where
  "print_work dir p =
     (if pr_queue p = [] then (Ok (), p)
      else (case last (pr_queue p) of
              (k, j) \<Rightarrow>
                (case do_printjob dir k j (p\<lparr>pr_queue := butlast (pr_queue p)\<rparr>) of
                   (Raise e, p1) \<Rightarrow> (Raise e, p1)
                 | (Ok _, p1) \<Rightarrow> print_work dir p1)))"
  by auto

termination
proof (relation "measure (\<lambda>(dir, p). length (pr_queue p))", goal_cases)
  case (2 dir p k j a b u)
  have "pr_queue b = butlast (pr_queue p)"
    using do_printjob_queue [of dir k j "p\<lparr>pr_queue := butlast (pr_queue p)\<rparr>"] arg_cong [OF 2(3), of snd] by simp
  with 2(1) show ?case by simp
qed simp

declare print_work.simps [simp del]

lemma print_work_step:
  "pr_queue p = [] \<Longrightarrow> print_work dir p = (Ok (), p)"
  "pr_queue p \<noteq> [] \<Longrightarrow> print_work dir p =
     (case last (pr_queue p) of (k, j) \<Rightarrow>
        (case do_printjob dir k j (p\<lparr>pr_queue := butlast (pr_queue p)\<rparr>) of
           (Raise e, p1) \<Rightarrow> (Raise e, p1) | (Ok _, p1) \<Rightarrow> print_work dir p1))"
  by (subst print_work.simps, simp)+

definition queue_job :: "nat \<Rightarrow> printjob \<Rightarrow> printing \<Rightarrow> printing" where
  "queue_job k j p =
     (let j' = j\<lparr>pj_status := ''QUE'', pj_report := []\<rparr> in (save_job k j' p)\<lparr>pr_queue := pr_queue p @ [(k, j')]\<rparr>)"

definition print_start :: "string \<Rightarrow> printing \<Rightarrow> unit outcome \<times> printing" where
  "print_start dir p = print_work dir (fold (\<lambda>(k, j). queue_job k j) (filter (\<lambda>(k, j). pj_pending j) (pr_jobs p)) p)"

definition event_key :: "event \<Rightarrow> nat outcome" where
  "event_key e = bind_ok (getattr e ''id'') (\<lambda>v. case v of VInt i \<Rightarrow> if i < 0 then Raise DoesNotExist else Ok (nat i) | _ \<Rightarrow> Raise ValueError)"

definition job_of :: "event \<Rightarrow> printing \<Rightarrow> (nat \<times> printjob) outcome" where
  "job_of e p = bind_ok (event_key e) (\<lambda>k. case dget (pr_jobs p) k of None \<Rightarrow> Raise DoesNotExist | Some j \<Rightarrow> Ok (k, j))"

definition event_text :: "event \<Rightarrow> string \<Rightarrow> string outcome" where
  "event_text e f = bind_ok (getattr e f) (\<lambda>v. case v of VStr s \<Rightarrow> Ok s | _ \<Rightarrow> Raise TypeError)"

definition note_print :: "event \<Rightarrow> printing \<Rightarrow> unit outcome \<times> printing" where
  "note_print e p =
     (case getattr e ''type'' of
        Raise x \<Rightarrow> (Raise x, p)
      | Ok t \<Rightarrow>
          if py_eq t (VStr ''printjob_new'') then
            (case job_of e p of Raise x \<Rightarrow> (Raise x, p) | Ok (k, j) \<Rightarrow> (Ok (), queue_job k j p))
          else if py_eq t (VStr ''printjob_done'') then
            (case bind_ok (job_of e p) (\<lambda>(k, j). bind_ok (event_text e ''status'') (\<lambda>s. map_ok (\<lambda>r.
                (k, j\<lparr>pj_pending := False, pj_status := s, pj_report := r\<rparr>)) (event_text e ''report''))) of
               Raise x \<Rightarrow> (Raise x, p)
             | Ok (k, j) \<Rightarrow> (Ok (), save_job k j p))
          else (Ok (), p))"

definition print_event :: "string \<Rightarrow> event \<Rightarrow> printing \<Rightarrow> unit outcome \<times> printing" where
  "print_event dir e = and_then (note_print e) (\<lambda>_. print_work dir)"

text \<open>\<open>printer_func\<close>, from the exit code and the output of the script.\<close>

definition printed :: "nat \<Rightarrow> int \<times> string \<times> string \<Rightarrow> event" where
  "printed k result =
     (case result of (ret, out, err) \<Rightarrow>
        [(''type'', VStr ''printjob_done''), (''id'', VInt (int k)), (''status'', VStr (if ret = 0 then ''OK'' else ''FAIL'')),
         (''report'', VStr (take 200 (if ret = 0 then out else err @ out)))])"

definition reprint :: "nat \<Rightarrow> printing \<Rightarrow> event outcome \<times> printing" where
  "reprint k p =
     (case dget (pr_jobs p) k of
        None \<Rightarrow> (Raise DoesNotExist, p)
      | Some j \<Rightarrow> (Ok [(''type'', VStr ''printjob_new''), (''id'', VInt (int k))], save_job k (j\<lparr>pj_pending := True\<rparr>) p))"

subsection \<open>The client\<close>

definition on_state :: "('w \<Rightarrow> 'a outcome \<times> 'w) \<Rightarrow> 'w slave \<Rightarrow> 'a outcome \<times> 'w slave" where
  "on_state f s = (case f (sl_state s) of (r, x) \<Rightarrow> (r, s\<lparr>sl_state := x\<rparr>))"

definition type_is :: "string \<Rightarrow> criteria" where
  "type_is t = [(''type'', VStr t)]"

definition printing_behaviour :: "string \<Rightarrow> printing behaviour" where
  "printing_behaviour dir =
     \<lparr>bh_init = (\<lambda>c. and_then (slave_attach c printing_queue) (\<lambda>_.
        and_then (slave_map (type_is ''printjob_new'') printing_queue) (\<lambda>_.
        and_then (slave_map (type_is ''printjob_done'') printing_queue) (\<lambda>_. on_state (print_start dir))))),
      bh_deinit = (\<lambda>c s. (Ok (), s)),
      bh_handle = (\<lambda>c q e. on_state (print_event dir e))\<rparr>"

lemma on_state_acts: "acts c Q s s1 \<Longrightarrow> on_state f s1 = (r, s2) \<Longrightarrow> acts c Q s s2"
  by (auto simp: on_state_def split: prod.splits intro: thinks)

interpretation printing: obedient "printing_behaviour dir" for dir
proof
  fix c and s s' :: "printing slave"
  assume out: "\<forall>q. out_of c q s" and "bh_init (printing_behaviour dir) c s = (Ok (), s')"
  then obtain s1 s2 s3 r r' where s1: "slave_attach c printing_queue s = (Ok (), s1)"
    and s2: "conn_call (Map (type_is ''printjob_new'') printing_queue) s1 = (Ok r, s2)"
    and s3: "conn_call (Map (type_is ''printjob_done'') printing_queue) s2 = (Ok r', s3)"
    and last: "on_state (print_start dir) s3 = (Ok (), s')"
    by (auto simp: printing_behaviour_def and_then_def slave_map_def split: prod.splits outcome.splits)
  have "acts c {} s s1" using out by (auto intro: attaches [OF at_rest _ _ s1] simp: out_of_def)
  then have "acts c {} s s2" by (rule calls [OF _ _ s2]) simp
  then have "acts c {} s s3" by (rule calls [OF _ _ s3]) simp
  then show "acts c {} s s'" using last by (rule on_state_acts)
next
  fix c q e and s s' :: "printing slave"
  assume "bh_handle (printing_behaviour dir) c q e s = (Ok (), s')"
  then show "acts c {q} s s'" by (auto simp: printing_behaviour_def intro: on_state_acts [OF at_rest])
qed (simp add: printing_behaviour_def at_rest)

subsection \<open>What is started\<close>

definition has_printer :: "printing \<Rightarrow> printjob \<Rightarrow> bool" where
  "has_printer p j \<longleftrightarrow> dget (pr_scripts p) (pj_contest j) \<noteq> None"

text \<open>The thread for a job, if its contest has a printer.\<close>

definition thread_for :: "string \<Rightarrow> printing \<Rightarrow> nat \<times> printjob \<Rightarrow> print_thread list" where
  "thread_for dir p kj =
     (case (dget (pr_scripts p) (pj_contest (snd kj)), pj_content (snd kj)) of
        (Some script, Some (hash, filename)) \<Rightarrow>
          (case content_path dir hash of Ok path \<Rightarrow> [(script, path, filename, fst kj)] | Raise _ \<Rightarrow> [])
      | _ \<Rightarrow> [])"

definition mark_printing :: "printing \<Rightarrow> nat \<times> printjob \<Rightarrow> (nat, printjob) dict \<Rightarrow> (nat, printjob) dict" where
  "mark_printing p kj t = (if has_printer p (snd kj) then dset (fst kj) ((snd kj)\<lparr>pj_status := ''PRN''\<rparr>) t else t)"

lemma do_printjob_Ok:
  "do_printjob dir k j p = (Ok (), p1) \<Longrightarrow>
     p1 = p\<lparr>pr_threads := pr_threads p @ thread_for dir p (k, j), pr_jobs := mark_printing p (k, j) (pr_jobs p)\<rparr>"
  by (auto simp: do_printjob_def thread_for_def mark_printing_def has_printer_def save_job_def split: option.splits outcome.splits)

lemma print_work_Ok:
  "print_work dir p = (Ok (), p1) \<Longrightarrow>
     p1 = p\<lparr>pr_queue := [], pr_threads := pr_threads p @ concat (map (thread_for dir p) (rev (pr_queue p))),
       pr_jobs := fold (mark_printing p) (rev (pr_queue p)) (pr_jobs p)\<rparr>"
proof (induction dir p rule: print_work.induct)
  case (1 dir p)
  show ?case
  proof (cases "pr_queue p" rule: rev_cases)
    case Nil
    with 1(2) show ?thesis by (simp add: print_work.simps)
  next
    case (snoc kjs kj)
    obtain k j where kj: "kj = (k, j)" by (cases kj)
    obtain p2 where d: "do_printjob dir k j (p\<lparr>pr_queue := kjs\<rparr>) = (Ok (), p2)" and w: "print_work dir p2 = (Ok (), p1)"
      using 1(2) snoc kj by (subst (asm) print_work.simps) (auto split: prod.splits outcome.splits)
    have p2: "p2 = p\<lparr>pr_queue := kjs, pr_threads := pr_threads p @ thread_for dir p kj, pr_jobs := mark_printing p kj (pr_jobs p)\<rparr>"
      using do_printjob_Ok [OF d] by (simp add: kj thread_for_def mark_printing_def has_printer_def)
    have same: "thread_for dir p2 = thread_for dir p" "mark_printing p2 = mark_printing p"
      by (simp_all add: fun_eq_iff thread_for_def mark_printing_def has_printer_def p2)
    have "p1 = p2\<lparr>pr_queue := [], pr_threads := pr_threads p2 @ concat (map (thread_for dir p2) (rev (pr_queue p2))),
        pr_jobs := fold (mark_printing p2) (rev (pr_queue p2)) (pr_jobs p2)\<rparr>"
      by (rule 1(1) [of k j "Ok ()" p2 "()"]) (use snoc kj d w in simp_all)
    with p2 same snoc show ?thesis by simp
  qed
qed

definition requeued :: "nat \<times> printjob \<Rightarrow> nat \<times> printjob" where
  "requeued kj = (fst kj, (snd kj)\<lparr>pj_status := ''QUE'', pj_report := []\<rparr>)"

lemma fold_queue_job:
  "fold (\<lambda>(k, j). queue_job k j) kjs p =
     p\<lparr>pr_jobs := fold (\<lambda>(k, j). dset k j) (map requeued kjs) (pr_jobs p), pr_queue := pr_queue p @ map requeued kjs\<rparr>"
  by (induction kjs arbitrary: p) (auto simp: queue_job_def Let_def save_job_def requeued_def)

lemma dget_fold_dset:
  "distinct (map fst kjs) \<Longrightarrow> dget (fold (\<lambda>(k, j). dset k j) kjs t) i = (case dget kjs i of Some j \<Rightarrow> Some j | None \<Rightarrow> dget t i)"
  using dget_dmerge [of kjs t i] by (simp add: dmerge_def dict_ok_def)

lemma dget_fold_mark:
  "distinct (map fst kjs) \<Longrightarrow> dget (fold (mark_printing p) kjs t) i =
     (case dget kjs i of Some j \<Rightarrow> if has_printer p j then Some (j\<lparr>pj_status := ''PRN''\<rparr>) else dget t i | None \<Rightarrow> dget t i)"
proof (induction kjs arbitrary: t)
  case (Cons kj kjs)
  have "dget kjs (fst kj) = None" using Cons.prems by (auto simp: dget_None_iff dkeys_def)
  with Cons show ?case by (cases kj) (auto simp: mark_printing_def split: option.split)
qed simp

lemma dget_filter_map:
  "dict_ok t \<Longrightarrow> dget (map requeued (filter (\<lambda>(k, j). P j) t)) i =
     (case dget t i of Some j \<Rightarrow> if P j then Some (snd (requeued (i, j))) else None | None \<Rightarrow> None)"
proof (induction t)
  case (Cons kj t)
  have "dget t (fst kj) = None" "dict_ok t" using Cons.prems by (auto simp: dget_None_iff dkeys_def dict_ok_def)
  with Cons.IH show ?case by (cases kj) (auto simp: requeued_def split: option.split)
qed simp

lemma dget_rev: "distinct (map fst t) \<Longrightarrow> dget (rev t) i = dget t i"
proof -
  assume "distinct (map fst t)"
  then have "dget (rev t) i = Some v \<longleftrightarrow> dget t i = Some v" for v
    by (simp add: dget_Some_iff dict_ok_def rev_map [symmetric])
  then show ?thesis by (metis option.exhaust)
qed

text \<open>
  C18 (printing_starts_all): When the printing master starts without an exception, every pending job of a contest with a printer is given to that
  printer's script exactly once, the last one first, and its row says PRN; the other pending jobs stay queued in their rows only
  (QUE), the queue is empty afterwards, and the rows of jobs that are not pending are what they were.
\<close>

theorem printing_starts_all:
  assumes "print_start dir p = (Ok (), p1)" and "pr_queue p = []" and "dict_ok (pr_jobs p)"
  shows "pr_queue p1 = []
    \<and> pr_threads p1 = pr_threads p @ concat (map (thread_for dir p) (rev (filter (\<lambda>(k, j). pj_pending j) (pr_jobs p))))
    \<and> (\<forall>k. dget (pr_jobs p1) k =
      (case dget (pr_jobs p) k of
         None \<Rightarrow> None
       | Some j \<Rightarrow> Some (if pj_pending j then j\<lparr>pj_status := (if has_printer p j then ''PRN'' else ''QUE''), pj_report := []\<rparr> else j)))"
proof (intro conjI)
  let ?pend = "filter (\<lambda>(k, j). pj_pending j) (pr_jobs p)"
  let ?p = "fold (\<lambda>(k, j). queue_job k j) ?pend p"
  have q: "pr_queue ?p = map requeued ?pend" using assms(2) by (simp add: fold_queue_job)
  have d: "distinct (map fst (map requeued ?pend))"
    using assms(3) by (simp add: dict_ok_def o_def requeued_def distinct_map_filter)
  have same: "thread_for dir ?p = thread_for dir p" "mark_printing ?p = mark_printing p"
    by (simp_all add: fun_eq_iff thread_for_def mark_printing_def has_printer_def fold_queue_job)
  note w = print_work_Ok [OF assms(1) [unfolded print_start_def], unfolded q same]
  show "pr_queue p1 = []" using w by simp
  have req: "thread_for dir p (requeued kj) = thread_for dir p kj" for kj
    by (auto simp: thread_for_def requeued_def split: option.split outcome.split)
  show "pr_threads p1 = pr_threads p @ concat (map (thread_for dir p) (rev ?pend))"
    using w by (simp add: fold_queue_job rev_map o_def req)
  show "\<forall>k. dget (pr_jobs p1) k =
      (case dget (pr_jobs p) k of
         None \<Rightarrow> None
       | Some j \<Rightarrow> Some (if pj_pending j then j\<lparr>pj_status := (if has_printer p j then ''PRN'' else ''QUE''), pj_report := []\<rparr> else j))"
  proof
    fix k
    have "distinct (map fst (rev (map requeued ?pend)))" using d by (simp add: rev_map [symmetric])
    moreover have "pr_jobs ?p = fold (\<lambda>(k, j). dset k j) (map requeued ?pend) (pr_jobs p)" by (simp add: fold_queue_job)
    ultimately have "dget (pr_jobs p1) k =
        (case dget (map requeued ?pend) k of
           Some j \<Rightarrow> if has_printer p j then Some (j\<lparr>pj_status := ''PRN''\<rparr>) else Some j
         | None \<Rightarrow> dget (pr_jobs p) k)"
      using w by (simp add: dget_fold_mark dget_rev [OF d] dget_fold_dset [OF d] split: option.split)
    then show "dget (pr_jobs p1) k =
      (case dget (pr_jobs p) k of
         None \<Rightarrow> None
       | Some j \<Rightarrow> Some (if pj_pending j then j\<lparr>pj_status := (if has_printer p j then ''PRN'' else ''QUE''), pj_report := []\<rparr> else j))"
      by (simp add: dget_filter_map [OF assms(3)] requeued_def has_printer_def split: option.split)
  qed
qed

definition sample_printing :: printing where
  "sample_printing = \<lparr>pr_jobs =
       [(3, \<lparr>pj_contest = 1, pj_pending = True, pj_status = [], pj_report = [], pj_content = Some (''abcd'', ''a.txt'')\<rparr>),
        (4, \<lparr>pj_contest = 2, pj_pending = True, pj_status = [], pj_report = [], pj_content = Some (''abce'', ''b.txt'')\<rparr>),
        (5, \<lparr>pj_contest = 1, pj_pending = True, pj_status = [], pj_report = [], pj_content = Some (''abcf'', ''c.txt'')\<rparr>)],
     pr_scripts = [(1, ''/bin/print'')], pr_queue = [], pr_threads = []\<rparr>"

theorem printing_starts_all_witness:
  "\<exists>p1. print_start ''/blobs'' sample_printing = (Ok (), p1) \<and> pr_queue p1 = []
     \<and> map (\<lambda>(script, path, name, k). (script, name, k)) (pr_threads p1) = [(''/bin/print'', ''c.txt'', 5), (''/bin/print'', ''a.txt'', 3)]"
proof -
  have path: "content_path ''/blobs'' ''abcd'' = Ok ''/blobs/a/b/c/abcd''" "content_path ''/blobs'' ''abcf'' = Ok ''/blobs/a/b/c/abcf''"
    by code_simp+
  have ok: "is_ok (fst (print_start ''/blobs'' sample_printing))"
    by (simp add: print_start_def sample_printing_def queue_job_def Let_def save_job_def print_work_step do_printjob_def path)
  then obtain p1 where run: "print_start ''/blobs'' sample_printing = (Ok (), p1)"
    by (cases "print_start ''/blobs'' sample_printing") (auto simp: is_ok_iff)
  have "pr_queue sample_printing = []" "dict_ok (pr_jobs sample_printing)" by (simp_all add: sample_printing_def dict_ok_def)
  note all = printing_starts_all [OF run this]
  have threads: "map (\<lambda>(script, path, name, k). (script, name, k)) (pr_threads p1) = [(''/bin/print'', ''c.txt'', 5), (''/bin/print'', ''a.txt'', 3)]"
    unfolding all [THEN conjunct2, THEN conjunct1] by code_simp
  show ?thesis by (intro exI [of _ p1] conjI run all [THEN conjunct1] threads)
qed

end
