(* ===== verification/Dbev_Notifier.thy ===== *)
theory Dbev_Notifier
  imports Events_Slave
begin

section \<open>Raw events and the notifier\<close>

text \<open>
  How an event gets out of the database: \<open>RawEvent.send\<close> (\<open>entities/RawEvent.py\<close>) inserts a row, the trigger of
  \<open>dbev/install.py\<close> notes the number of the transaction, and the notifier (\<open>dbev/notifier.py\<close>) reads the rows of one
  transaction after the other and sends them to the event server.
  \<^item> \<open>session\<close>: a connection to the database: the virtual id of its transaction, its temporary table \<open>transaction_id\<close>
    (\<open>None\<close> where it does not exist) now and when the transaction began, and the rows inserted and not yet committed.
  \<^item> \<open>db_change\<close>: a row of \<open>core_notification\<close>, \<open>raw_row\<close>: one of \<open>core_rawevent\<close>, whose text is the event it stands for.
  \<^item> \<open>world\<close>: the committed rows, the sequence, the sessions, the notifications that wait on the connection of the notifier,
    and its slave.
  \<^item> \<open>dbmodels\<close>: what the notifier asks of Django and of the tables of versions.
\<close>

record raw_row =
  rr_transaction :: int
  rr_data :: event

record db_change =
  nt_action :: string
  nt_table :: string
  nt_object :: int
  nt_transaction :: int
  nt_previous :: "int option"
  nt_user :: "int option"

record session =
  ss_xid :: nat
  ss_table :: "(nat \<times> int) list option"
  ss_saved :: "(nat \<times> int) list option"
  ss_rows :: "raw_row list"

record 'w world =
  w_raw :: "raw_row list"
  w_notes :: "db_change list"
  w_seq :: int
  w_sessions :: "nat \<Rightarrow> session"
  w_notified :: nat
  w_slave :: "'w slave"

subsection \<open>Sending\<close>

text \<open>\<open>get_transaction_id\<close>: the number of the transaction is drawn when it is first asked for.\<close>

definition draw_id :: "session \<Rightarrow> int \<Rightarrow> int \<times> session \<times> int" where
  "draw_id s n = (n + 1, s\<lparr>ss_table := Some [(ss_xid s, n + 1)]\<rparr>, n + 1)"

definition get_transaction_id :: "session \<Rightarrow> int \<Rightarrow> int \<times> session \<times> int" where
  "get_transaction_id s n =
     (case ss_table s of
        None \<Rightarrow> draw_id s n
      | Some ids \<Rightarrow> (case map_of ids (ss_xid s) of Some i \<Rightarrow> (i, s, n) | None \<Rightarrow> draw_id s n))"

definition send_raw :: "nat \<Rightarrow> event \<Rightarrow> 'w world \<Rightarrow> 'w world" where
  "send_raw c e w =
     (case get_transaction_id (w_sessions w c) (w_seq w) of
        (i, s, n) \<Rightarrow> w\<lparr>w_seq := n,
          w_sessions := (w_sessions w)(c := s\<lparr>ss_rows := ss_rows s @ [\<lparr>rr_transaction = i, rr_data = e\<rparr>]\<rparr>)\<rparr>)"

text \<open>
  What PostgreSQL does when a transaction ends. The rows become visible and the notification is sent on a commit; a
  rollback undoes the changes of the temporary table, not those of the sequence. A new transaction has a new virtual id.
\<close>

definition commit :: "nat \<Rightarrow> 'w world \<Rightarrow> 'w world" where
  "commit c w =
     (let s = w_sessions w c in
      w\<lparr>w_raw := w_raw w @ ss_rows s,
        w_notified := w_notified w + of_bool (ss_rows s \<noteq> []),
        w_sessions := (w_sessions w)(c := s\<lparr>ss_xid := Suc (ss_xid s), ss_saved := ss_table s, ss_rows := []\<rparr>)\<rparr>)"

definition rollback :: "nat \<Rightarrow> 'w world \<Rightarrow> 'w world" where
  "rollback c w =
     (let s = w_sessions w c in
      w\<lparr>w_sessions := (w_sessions w)(c := s\<lparr>ss_xid := Suc (ss_xid s), ss_table := ss_saved s, ss_rows := []\<rparr>)\<rparr>)"

subsection \<open>Events of changed rows\<close>

record dbmodels =
  dm_named :: "string \<Rightarrow> string option"
  dm_of_table :: "string \<Rightarrow> string option"
  dm_line :: "string \<Rightarrow> string list"
  dm_sub :: "string \<Rightarrow> string \<Rightarrow> bool"
  dm_model_at :: "int \<Rightarrow> int \<Rightarrow> string option"
  dm_row_at :: "string \<Rightarrow> int \<Rightarrow> int \<Rightarrow> (string, value) dict"
  dm_registry :: "string \<Rightarrow> (string list option \<times> string list option \<times> string list option) option"

text \<open>\<open>events[id][table] = res\<close> for every row; the last row of a table counts.\<close>

definition by_object :: "db_change list \<Rightarrow> (int, (string, db_change) dict) dict" where
  "by_object ns = fold (\<lambda>r d. dset (nt_object r) (dset (nt_table r) r (dget_def_val d (nt_object r) [])) d) ns []"

definition last_given :: "int option list \<Rightarrow> int option" where
  "last_given xs = fold (\<lambda>x u. case x of None \<Rightarrow> u | Some i \<Rightarrow> Some i) xs None"

definition latest :: "int option list \<Rightarrow> int option" where
  "latest xs = fold (\<lambda>x p. case x of None \<Rightarrow> p
     | Some i \<Rightarrow> (case p of None \<Rightarrow> Some i | Some j \<Rightarrow> if j < i then Some i else p)) xs None"

definition opt_value :: "int option \<Rightarrow> value" where
  "opt_value x = (case x of None \<Rightarrow> VNone | Some i \<Rightarrow> VInt i)"

text \<open>The most basic of the models whose tables were changed; \<open>issubclass\<close> of what is no class raises.\<close>

fun base_model :: "dbmodels \<Rightarrow> string list \<Rightarrow> string \<Rightarrow> string outcome" where
  "base_model D [] base = Ok base"
| "base_model D (t # ts) base =
     (case dm_of_table D t of
        None \<Rightarrow> Raise TypeError
      | Some m \<Rightarrow> base_model D ts (if dm_sub D base m then m else base))"

definition db_event :: "int \<Rightarrow> int \<Rightarrow> string \<Rightarrow> int option \<Rightarrow> int option \<Rightarrow> string \<Rightarrow> event" where
  "db_event i t action user previous m =
     [(''type'', VStr ''db''), (''object_id'', VInt i), (''transaction'', VInt t), (''action'', VStr action),
      (''user'', opt_value user), (''previous'', opt_value previous), (''model'', VStr m)]"

definition with_fields :: "string \<Rightarrow> string list \<Rightarrow> (string, value) dict \<Rightarrow> event \<Rightarrow> event" where
  "with_fields prefix flds rec =
     fold (\<lambda>f e. case dget rec f of None \<Rightarrow> e | Some v \<Rightarrow> dset (prefix @ f) v e) flds"

definition model_events :: "dbmodels \<Rightarrow> string \<Rightarrow> (string, value) dict \<Rightarrow> event \<Rightarrow> string \<Rightarrow> event list" where
  "model_events D action rec e m =
     (case dm_registry D m of
        None \<Rightarrow> []
      | Some (ins, upd, del) \<Rightarrow>
          (if action = ''I'' then (case ins of None \<Rightarrow> [] | Some fs \<Rightarrow> [with_fields ''new.'' fs rec e])
           else if action = ''U'' then (case upd of None \<Rightarrow> [] | Some fs \<Rightarrow> [with_fields ''new.'' fs rec e])
           else if action = ''D'' then (case del of None \<Rightarrow> [] | Some fs \<Rightarrow> [with_fields ''old.'' fs rec e])
           else []))"

definition object_events :: "dbmodels \<Rightarrow> int \<Rightarrow> int \<Rightarrow> (string, db_change) dict \<Rightarrow> event list outcome" where
  "object_events D t i tables =
     (let rows = map snd tables;
          action = (if rows = [] then [] else nt_action (last rows));
          user = last_given (map nt_user rows);
          previous = latest (map nt_previous rows);
          at = (if action = ''D'' then t - 1 else t) in
      case dm_model_at D i at of
        None \<Rightarrow> Ok []
      | Some name \<Rightarrow>
          (case dm_named D name of
             None \<Rightarrow> Raise TypeError
           | Some m \<Rightarrow>
               bind_ok (base_model D (dkeys tables) m) (\<lambda>base.
               Ok (concat (map (\<lambda>m'. model_events D action (dm_row_at D m i at) (db_event i t action user previous m') m')
                 (takeWhile (\<lambda>m'. dm_sub D m' base) (dm_line D m)))))))"

subsection \<open>The notifier\<close>

definition on_slave :: "('w slave \<Rightarrow> 'a outcome \<times> 'w slave) \<Rightarrow> 'w world \<Rightarrow> 'a outcome \<times> 'w world" where
  "on_slave f w = (case f (w_slave w) of (r, s) \<Rightarrow> (r, w\<lparr>w_slave := s\<rparr>))"

definition send_all :: "event list \<Rightarrow> 'w world \<Rightarrow> unit outcome \<times> 'w world" where
  "send_all es = on_slave (for_each slave_send es)"

definition send_objects :: "dbmodels \<Rightarrow> int \<Rightarrow> (int, (string, db_change) dict) dict \<Rightarrow> 'w world \<Rightarrow> unit outcome \<times> 'w world" where
  "send_objects D t =
     for_each (\<lambda>(i, tables) w. case object_events D t i tables of Raise e \<Rightarrow> (Raise e, w) | Ok es \<Rightarrow> send_all es w)"

definition first_transaction :: "'w world \<Rightarrow> int option" where
  "first_transaction w =
     (case map nt_transaction (w_notes w) @ map rr_transaction (w_raw w) of [] \<Rightarrow> None | t # ts \<Rightarrow> Some (fold min ts t))"

text \<open>One round of the loop: the rows of the first transaction are sent, then deleted.\<close>

definition notify_one :: "dbmodels \<Rightarrow> int \<Rightarrow> 'w world \<Rightarrow> unit outcome \<times> 'w world" where
  "notify_one D t =
     and_then (\<lambda>w. send_objects D t (by_object (filter (\<lambda>r. nt_transaction r = t) (w_notes w))) w) (\<lambda>_ w1.
     and_then (\<lambda>w. send_all (map rr_data (filter (\<lambda>r. rr_transaction r = t) (w_raw w))) w) (\<lambda>_ w2.
       (Ok (), w2\<lparr>w_raw := filter (\<lambda>r. rr_transaction r \<noteq> t) (w_raw w2)\<rparr>))
     (w1\<lparr>w_notes := filter (\<lambda>r. nt_transaction r \<noteq> t) (w_notes w1)\<rparr>))"


lemma first_transaction_there:
  assumes "first_transaction w = Some t"
  shows "t \<in> set (map nt_transaction (w_notes w) @ map rr_transaction (w_raw w))"
    and "\<forall>u \<in> set (map nt_transaction (w_notes w) @ map rr_transaction (w_raw w)). t \<le> u"
proof -
  obtain x xs where xs: "map nt_transaction (w_notes w) @ map rr_transaction (w_raw w) = x # xs" and t: "t = fold min xs x"
    using assms by (auto simp: first_transaction_def split: list.splits)
  have "t = Min (set (x # xs))" by (simp add: t Min.set_eq_fold [symmetric])
  moreover have "finite (set (x # xs))" "set (x # xs) \<noteq> {}" by simp_all
  ultimately have "t \<in> set (x # xs)" "\<forall>u \<in> set (x # xs). t \<le> u" by (metis Min_in, metis Min_le)
  then show "t \<in> set (map nt_transaction (w_notes w) @ map rr_transaction (w_raw w))"
    "\<forall>u \<in> set (map nt_transaction (w_notes w) @ map rr_transaction (w_raw w)). t \<le> u" unfolding xs by blast+
qed

definition but_slave :: "'w world \<Rightarrow> raw_row list \<times> db_change list \<times> int \<times> (nat \<Rightarrow> session) \<times> nat" where
  "but_slave w = (w_raw w, w_notes w, w_seq w, w_sessions w, w_notified w)"

lemma on_slave_rows: "on_slave f w = (r, w') \<Longrightarrow> but_slave w' = but_slave w"
  by (auto simp: on_slave_def but_slave_def split: prod.splits)

lemma send_objects_rows: "send_objects D t ds w = (r, w') \<Longrightarrow> but_slave w' = but_slave w"
  unfolding send_objects_def
  by (rule for_each_invariant [where P = "\<lambda>u. but_slave u = but_slave w", rotated 2])
    (auto simp: send_all_def split: outcome.splits prod.splits dest!: on_slave_rows)

lemma send_all_rows: "send_all es w = (r, w') \<Longrightarrow> but_slave w' = but_slave w"
  unfolding send_all_def by (rule on_slave_rows)

lemma notify_one_rows:
  assumes "notify_one D t w = (Ok (), w')"
  shows "w_raw w' = filter (\<lambda>r. rr_transaction r \<noteq> t) (w_raw w)" and "w_notes w' = filter (\<lambda>r. nt_transaction r \<noteq> t) (w_notes w)"
proof -
  obtain w1 w2 where one: "send_objects D t (by_object (filter (\<lambda>r. nt_transaction r = t) (w_notes w))) w = (Ok (), w1)"
    and two: "send_all (map rr_data (filter (\<lambda>r. rr_transaction r = t) (w_raw w1))) (w1\<lparr>w_notes := filter (\<lambda>r. nt_transaction r \<noteq> t) (w_notes w1)\<rparr>) = (Ok (), w2)"
    and w': "w' = w2\<lparr>w_raw := filter (\<lambda>r. rr_transaction r \<noteq> t) (w_raw w2)\<rparr>"
    using assms by (auto simp: notify_one_def and_then_def split: prod.splits outcome.splits)
  show "w_raw w' = filter (\<lambda>r. rr_transaction r \<noteq> t) (w_raw w)" "w_notes w' = filter (\<lambda>r. nt_transaction r \<noteq> t) (w_notes w)"
    using send_objects_rows [OF one] send_all_rows [OF two] by (simp_all add: w' but_slave_def)
qed

function handle_notifications :: "dbmodels \<Rightarrow> 'w world \<Rightarrow> unit outcome \<times> 'w world" where
  "handle_notifications D w =
     (case first_transaction w of
        None \<Rightarrow> (Ok (), w)
      | Some t \<Rightarrow>
          (case notify_one D t w of
             (Raise e, w1) \<Rightarrow> (Raise e, w1)
           | (Ok _, w1) \<Rightarrow> handle_notifications D w1))"
  by auto

termination
proof (relation "measure (\<lambda>(D, w). length (w_raw w) + length (w_notes w))", goal_cases)
  case (2 D w t a b u)
  have one: "notify_one D t w = (Ok (), b)" using 2(2,3) by simp
  show ?case
    using first_transaction_there(1) [OF 2(1)] sum_length_filter_compl [of "\<lambda>r. rr_transaction r = t" "w_raw w"]
      sum_length_filter_compl [of "\<lambda>r. nt_transaction r = t" "w_notes w"]
    by (auto simp: notify_one_rows [OF one] filter_empty_conv dest!: split_list)
qed simp

declare handle_notifications.simps [simp del]

text \<open>
  The loop of \<open>run_notifier\<close>: the notifier waits for notifications for five seconds at most; after any error it connects anew,
  which forgets the changes noted and the notifications.
\<close>

datatype wake = Elapsed | Woken

definition reconnect :: "'w world \<Rightarrow> 'w world" where
  "reconnect w = w\<lparr>w_notes := [], w_notified := 0\<rparr>"

definition wait_turn :: "dbmodels \<Rightarrow> wake \<Rightarrow> 'w world \<Rightarrow> unit outcome \<times> 'w world" where
  "wait_turn D k w =
     (case k of
        Elapsed \<Rightarrow> on_slave slave_keep_alive w
      | Woken \<Rightarrow> if w_notified w = 0 then (Ok (), w) else handle_notifications D (w\<lparr>w_notified := 0\<rparr>))"

definition notifier_turn :: "dbmodels \<Rightarrow> wake \<Rightarrow> 'w world \<Rightarrow> 'w world" where
  "notifier_turn D k w = (case wait_turn D k w of (Ok _, w1) \<Rightarrow> w1 | (Raise _, w1) \<Rightarrow> reconnect w1)"

subsection \<open>Runs\<close>

text \<open>The sessions and the notifier take turns in any order.\<close>

datatype act = Raw nat event | Commit nat | Rollback nat | Turn wake

fun act_on :: "dbmodels \<Rightarrow> act \<Rightarrow> 'w world \<Rightarrow> 'w world" where
  "act_on D (Raw c e) w = send_raw c e w"
| "act_on D (Commit c) w = commit c w"
| "act_on D (Rollback c) w = rollback c w"
| "act_on D (Turn k) w = notifier_turn D k w"

definition new_world :: "arrival list \<Rightarrow> 'w \<Rightarrow> 'w world" where
  "new_world inbox x =
     \<lparr>w_raw = [], w_notes = [], w_seq = 0, w_sessions = (\<lambda>_. \<lparr>ss_xid = 0, ss_table = None, ss_saved = None, ss_rows = []\<rparr>),
      w_notified = 0, w_slave = new_slave inbox x\<rparr>"

text \<open>What was committed, without numbers, tables and notifications.\<close>

fun commits :: "(nat \<Rightarrow> event list) \<Rightarrow> act list \<Rightarrow> (nat \<times> event list) list" where
  "commits open [] = []"
| "commits open (Raw c e # as) = commits (open(c := open c @ [e])) as"
| "commits open (Commit c # as) = (if open c = [] then [] else [(c, open c)]) @ commits (open(c := [])) as"
| "commits open (Rollback c # as) = commits (open(c := [])) as"
| "commits open (Turn k # as) = commits open as"

end
