(* ===== verification/Dbev_Notifier_Props.thy ===== *)
theory Dbev_Notifier_Props
  imports Dbev_Notifier
begin

section \<open>Committed events reach the event server\<close>

text \<open>
  The invariant of the runs of sessions and notifier: the rows of the table are those of whole transactions, each with a
  number of its own that grows within a session, and what was sent are the events of transactions in the order of the
  attempts to send them.
\<close>

subsection \<open>What the slave sends\<close>

definition sends :: "'w slave \<Rightarrow> event list" where
  "sends s = concat (map (\<lambda>k. case k of Send e \<Rightarrow> [e] | _ \<Rightarrow> []) (sl_sent s))"

definition conn_ok :: "arrival list \<Rightarrow> 'w slave \<Rightarrow> bool" where
  "conn_ok inbox s \<longleftrightarrow> sl_inbox s = drop (length (sl_sent s)) inbox"

text \<open>Something went wrong on the connection: an answer failed, or it was closed before an answer came.\<close>

definition broken :: "arrival list \<Rightarrow> 'w slave \<Rightarrow> bool" where
  "broken inbox s \<longleftrightarrow> Interrupted \<in> set inbox \<or> Failed \<in> set inbox \<or> length inbox < length (sl_sent s)"

lemma conn_call_link:
  assumes "conn_call k s = (r, s')" and "conn_ok inbox s"
  shows "sl_sent s' = sl_sent s @ [k]" and "conn_ok inbox s'" and "\<not> is_ok r \<Longrightarrow> broken inbox s'"
proof -
  note ok = assms(2) [unfolded conn_ok_def]
  show "sl_sent s' = sl_sent s @ [k]" using assms(1)
    by (auto simp: conn_call_def conn_send_def conn_recv_def split: list.splits arrival.splits)
  show "conn_ok inbox s'" using assms(1) ok
    by (auto simp: conn_ok_def conn_call_def conn_send_def conn_recv_def drop_Suc tl_drop [symmetric] split: list.splits arrival.splits)
  show "broken inbox s'" if "\<not> is_ok r"
  proof (cases "sl_inbox s")
    case Nil
    then have "length inbox \<le> length (sl_sent s)" using ok by simp
    then show ?thesis using \<open>sl_sent s' = sl_sent s @ [k]\<close> by (simp add: broken_def)
  next
    case (Cons a rest)
    then have "a \<in> set inbox" using ok by (metis in_set_dropD list.set_intros(1))
    moreover have "a = Interrupted \<or> a = Failed" using assms(1) that Cons
      by (cases a) (auto simp: conn_call_def conn_send_def conn_recv_def)
    ultimately show ?thesis by (auto simp: broken_def)
  qed
qed

lemma slave_send_link:
  assumes "slave_send e s = (r, s')" and "conn_ok inbox s"
  shows "sends s' = sends s @ [e]" and "conn_ok inbox s'" and "\<not> is_ok r \<Longrightarrow> broken inbox s'" and "length (sl_sent s) \<le> length (sl_sent s')"
proof -
  obtain q s1 where q: "conn_call (Send e) s = (q, s1)" by fastforce
  have "s' = s1" "is_ok r = is_ok q" using assms(1) q by (auto simp: slave_send_def and_then_def split: outcome.splits)
  with conn_call_link [OF q assms(2)] show "sends s' = sends s @ [e]" "conn_ok inbox s'" "\<not> is_ok r \<Longrightarrow> broken inbox s'"
    "length (sl_sent s) \<le> length (sl_sent s')" by (simp_all add: sends_def)
qed

lemma send_each_link:
  assumes "for_each slave_send es s = (r, s')" and "conn_ok inbox s"
  shows "\<exists>es1 es2. es = es1 @ es2 \<and> sends s' = sends s @ es1 \<and> (is_ok r \<longrightarrow> es2 = []) \<and> conn_ok inbox s'
    \<and> (\<not> is_ok r \<longrightarrow> broken inbox s') \<and> length (sl_sent s) \<le> length (sl_sent s')"
  using assms
proof (induction es arbitrary: s)
  case (Cons e es)
  obtain q s1 where q: "slave_send e s = (q, s1)" by fastforce
  note one = slave_send_link [OF q Cons.prems(2)]
  show ?case
  proof (cases q)
    case (Ok u)
    then have "for_each slave_send es s1 = (r, s')" using Cons.prems(1) q by simp
    then obtain es1 es2 where "es = es1 @ es2 \<and> sends s' = sends s1 @ es1 \<and> (is_ok r \<longrightarrow> es2 = []) \<and> conn_ok inbox s'
      \<and> (\<not> is_ok r \<longrightarrow> broken inbox s') \<and> length (sl_sent s1) \<le> length (sl_sent s')" using Cons.IH one(2) by blast
    then show ?thesis using one by (intro exI [of _ "e # es1"] exI [of _ es2]) simp
  next
    case (Raise x)
    then have "r = Raise x" "s' = s1" using Cons.prems(1) q by simp_all
    then show ?thesis using one Raise by (intro exI [of _ "[e]"] exI [of _ es]) simp
  qed
qed auto

subsection \<open>The invariant\<close>

type_synonym block = "nat \<times> int \<times> event list"

definition rows_of :: "block \<Rightarrow> raw_row list" where
  "rows_of b = (case b of (c, t, es) \<Rightarrow> map (\<lambda>e. \<lparr>rr_transaction = t, rr_data = e\<rparr>) es)"

definition plain_block :: "block \<Rightarrow> nat \<times> event list" where
  "plain_block b = (case b of (c, t, es) \<Rightarrow> (c, es))"

lemma plain_block_parts [simp]: "fst (plain_block b) = fst b" "snd (plain_block b) = snd (snd b)"
  by (simp_all add: plain_block_def split: prod.splits)

abbreviation of_session :: "nat \<Rightarrow> (nat \<times> event list) list \<Rightarrow> (nat \<times> event list) list" where
  "of_session c \<equiv> filter (\<lambda>b. fst b = c)"

definition current :: "session \<Rightarrow> int option" where
  "current s = (case ss_rows s of [] \<Rightarrow> None | r # _ \<Rightarrow> Some (rr_transaction r))"

text \<open>A session whose transaction has sent \<open>open\<close> so far.\<close>

definition session_ok :: "event list \<Rightarrow> session \<Rightarrow> bool" where
  "session_ok open s \<longleftrightarrow> map rr_data (ss_rows s) = open
     \<and> (\<forall>ids. ss_saved s = Some ids \<longrightarrow> (\<forall>(x, i) \<in> set ids. x < ss_xid s))
     \<and> (case current s of None \<Rightarrow> ss_table s = ss_saved s
        | Some t \<Rightarrow> ss_table s = Some [(ss_xid s, t)] \<and> (\<forall>q \<in> set (ss_rows s). rr_transaction q = t))"

definition before :: "block \<Rightarrow> nat \<Rightarrow> int \<Rightarrow> bool" where
  "before b c t \<longleftrightarrow> fst (snd b) \<noteq> t \<and> (fst b = c \<longrightarrow> fst (snd b) < t)"

definition queue_ok :: "block list \<Rightarrow> 'w world \<Rightarrow> bool" where
  "queue_ok W w \<longleftrightarrow> w_raw w = concat (map rows_of W) \<and> w_notes w = []
     \<and> sorted_wrt (\<lambda>b b'. before b (fst b') (fst (snd b'))) W
     \<and> (\<forall>b \<in> set W. fst (snd b) \<le> w_seq w \<and> snd (snd b) \<noteq> [])
     \<and> (\<forall>c t. current (w_sessions w c) = Some t \<longrightarrow> t \<le> w_seq w \<and> (\<forall>b \<in> set W. before b c t)
          \<and> (\<forall>c'. c' \<noteq> c \<longrightarrow> current (w_sessions w c') \<noteq> Some t))"

type_synonym attempt = "bool \<times> nat \<times> event list"

definition story :: "attempt list \<Rightarrow> block list \<Rightarrow> (nat \<times> event list) list \<Rightarrow> bool" where
  "story tries W hist \<longleftrightarrow>
     (\<forall>c. of_session c (map snd (filter fst tries) @ map plain_block W) = of_session c hist)
     \<and> (\<forall>a \<in> set tries. fst a \<or> (\<exists>es. (fst (snd a), snd (snd a) @ es) \<in> set hist))"

definition link :: "arrival list \<Rightarrow> (nat \<Rightarrow> event list) \<Rightarrow> attempt list \<Rightarrow> block list \<Rightarrow> (nat \<times> event list) list \<Rightarrow> 'w world \<Rightarrow> bool" where
  "link inbox open tries W hist w \<longleftrightarrow> (\<forall>c. session_ok (open c) (w_sessions w c)) \<and> queue_ok W w \<and> story tries W hist
     \<and> sends (w_slave w) = concat (map (snd \<circ> snd) tries) \<and> conn_ok inbox (w_slave w)
     \<and> ((\<exists>a \<in> set tries. \<not> fst a) \<longrightarrow> broken inbox (w_slave w))"

lemmas link_parts = link_def queue_ok_def session_ok_def

lemma story_in: "story tries W hist \<Longrightarrow> b \<in> set W \<Longrightarrow> plain_block b \<in> set hist"
proof -
  assume s: "story tries W hist" and b: "b \<in> set W"
  have "plain_block b \<in> set (of_session (fst (plain_block b)) (map snd (filter fst tries) @ map plain_block W))" using b by simp
  also have "\<dots> = set (of_session (fst (plain_block b)) hist)" using s unfolding story_def by metis
  finally show ?thesis by simp
qed

subsection \<open>Sessions\<close>

lemma current_Nil [simp]: "ss_rows s = [] \<Longrightarrow> current s = None"
  by (simp add: current_def)

text \<open>One session changes, the slave does not.\<close>

lemma link_session:
  assumes "link inbox open tries W hist w" and "w_sessions w' = (w_sessions w)(c := s)" and "w_slave w' = w_slave w"
    and "session_ok es s" and "queue_ok W' w'" and "story tries W' hist'"
  shows "link inbox (open(c := es)) tries W' hist' w'"
  using assms by (simp add: link_def)

lemma send_raw_link:
  assumes "link inbox open tries W hist w"
  shows "link inbox (open(c := open c @ [e])) tries W hist (send_raw c e w)"
proof -
  let ?s = "w_sessions w c"
  have ok: "session_ok (open c) ?s" and q: "queue_ok W w" and st: "story tries W hist" using assms by (simp_all add: link_def)
  show ?thesis
  proof (cases "current ?s")
    case None
    then have rows: "ss_rows ?s = []" by (auto simp: current_def split: list.splits)
    have "map_of ids (ss_xid ?s) = None" if t: "ss_table ?s = Some ids" for ids
    proof -
      have "ss_saved ?s = Some ids" using ok t None by (simp add: session_ok_def)
      with ok have "\<forall>(x, i) \<in> set ids. x < ss_xid ?s" unfolding session_ok_def by blast
      then show ?thesis by (auto simp: map_of_eq_None_iff)
    qed
    then have drawn: "get_transaction_id ?s (w_seq w) = draw_id ?s (w_seq w)"
      by (auto simp: get_transaction_id_def split: option.splits)
    let ?s' = "?s\<lparr>ss_table := Some [(ss_xid ?s, w_seq w + 1)], ss_rows := [\<lparr>rr_transaction = w_seq w + 1, rr_data = e\<rparr>]\<rparr>"
    have w': "send_raw c e w = w\<lparr>w_seq := w_seq w + 1, w_sessions := (w_sessions w)(c := ?s')\<rparr>"
      using drawn rows by (simp add: send_raw_def draw_id_def)
    have "queue_ok W (send_raw c e w)" using q
      by (auto simp: w' queue_ok_def current_def before_def split: if_splits) (fastforce split: list.splits)+
    moreover have "session_ok (open c @ [e]) ?s'" using ok rows by (simp add: session_ok_def current_def)
    ultimately show ?thesis by (intro link_session [OF assms _ _ _ _ st]) (auto simp: w')
  next
    case (Some t)
    then obtain r rs where rows: "ss_rows ?s = r # rs" "t = rr_transaction r" by (auto simp: current_def split: list.splits)
    have "get_transaction_id ?s (w_seq w) = (t, ?s, w_seq w)" using ok Some by (simp add: session_ok_def get_transaction_id_def)
    let ?s' = "?s\<lparr>ss_rows := ss_rows ?s @ [\<lparr>rr_transaction = t, rr_data = e\<rparr>]\<rparr>"
    have w': "send_raw c e w = w\<lparr>w_sessions := (w_sessions w)(c := ?s')\<rparr>"
      using \<open>get_transaction_id ?s (w_seq w) = (t, ?s, w_seq w)\<close> by (simp add: send_raw_def)
    have cur: "current (w_sessions (send_raw c e w) d) = current (w_sessions w d)" for d
      using rows by (simp add: w' current_def)
    have "queue_ok W (send_raw c e w)" using q unfolding queue_ok_def cur by (simp add: w')
    moreover have "session_ok (open c @ [e]) ?s'" using ok Some cur [of c] by (simp add: session_ok_def w')
    ultimately show ?thesis by (intro link_session [OF assms _ _ _ _ st]) (auto simp: w')
  qed
qed

lemma rollback_link:
  assumes "link inbox open tries W hist w"
  shows "link inbox (open(c := [])) tries W hist (rollback c w)"
proof -
  let ?s = "w_sessions w c"
  let ?s' = "?s\<lparr>ss_xid := Suc (ss_xid ?s), ss_table := ss_saved ?s, ss_rows := []\<rparr>"
  have ok: "session_ok (open c) ?s" and q: "queue_ok W w" and st: "story tries W hist" using assms by (simp_all add: link_def)
  have w': "rollback c w = w\<lparr>w_sessions := (w_sessions w)(c := ?s')\<rparr>" by (simp add: rollback_def Let_def)
  have "queue_ok W (rollback c w)" using q by (auto simp: w' queue_ok_def)
  moreover have "session_ok [] ?s'" using ok by (fastforce simp: session_ok_def)
  ultimately show ?thesis by (intro link_session [OF assms _ _ _ _ st]) (auto simp: w')
qed

lemma rows_of_rows: "\<forall>q \<in> set rs. rr_transaction q = t \<Longrightarrow> rows_of (c, t, map rr_data rs) = rs"
  by (induction rs) (auto simp: rows_of_def)

lemma commit_link:
  assumes "link inbox open tries W hist w"
  shows "\<exists>W'. link inbox (open(c := [])) tries W' (hist @ (if open c = [] then [] else [(c, open c)])) (commit c w)"
proof -
  let ?s = "w_sessions w c"
  let ?s' = "?s\<lparr>ss_xid := Suc (ss_xid ?s), ss_saved := ss_table ?s, ss_rows := []\<rparr>"
  have ok: "session_ok (open c) ?s" and q: "queue_ok W w" and st: "story tries W hist" using assms by (simp_all add: link_def)
  have new: "w_sessions (commit c w) = (w_sessions w)(c := ?s')" "w_slave (commit c w) = w_slave w"
    by (simp_all add: commit_def Let_def)
  show ?thesis
  proof (cases "current ?s")
    case None
    then have rows: "ss_rows ?s = []" by (auto simp: current_def split: list.splits)
    then have "open c = []" using ok by (simp add: session_ok_def)
    have "queue_ok W (commit c w)" using q rows by (auto simp: queue_ok_def commit_def Let_def)
    moreover have "session_ok [] ?s'" using ok None by (auto simp: session_ok_def less_Suc_eq)
    ultimately show ?thesis using \<open>open c = []\<close> st link_session [OF assms new, of "[]" W hist] by auto
  next
    case (Some t)
    then have "open c \<noteq> []" using ok by (auto simp: session_ok_def current_def split: list.splits)
    let ?W = "W @ [(c, t, open c)]" and ?h = "hist @ [(c, open c)]"
    have "ss_rows ?s = rows_of (c, t, open c)" using ok Some rows_of_rows [of "ss_rows ?s" t c] by (simp add: session_ok_def)
    then have raw: "w_raw (commit c w) = concat (map rows_of ?W)" using q by (simp add: queue_ok_def commit_def Let_def)
    have here: "t \<le> w_seq w" "\<forall>b \<in> set W. before b c t" "\<forall>c'. c' \<noteq> c \<longrightarrow> current (w_sessions w c') \<noteq> Some t"
      using q Some unfolding queue_ok_def by blast+
    have cur: "current (w_sessions (commit c w) d) = (if d = c then None else current (w_sessions w d))" for d
      by (simp add: new)
    have rest: "w_seq (commit c w) = w_seq w" "w_notes (commit c w) = w_notes w" by (simp_all add: commit_def Let_def)
    have "\<forall>d i. current (w_sessions (commit c w) d) = Some i \<longrightarrow> i \<le> w_seq w \<and> (\<forall>b \<in> set ?W. before b d i)
        \<and> (\<forall>d'. d' \<noteq> d \<longrightarrow> current (w_sessions (commit c w) d') \<noteq> Some i)"
    proof (intro allI impI)
      fix d i assume i: "current (w_sessions (commit c w) d) = Some i"
      then have d: "d \<noteq> c" "current (w_sessions w d) = Some i" by (auto simp: cur split: if_splits)
      then have "i \<le> w_seq w \<and> (\<forall>b \<in> set W. before b d i) \<and> (\<forall>d'. d' \<noteq> d \<longrightarrow> current (w_sessions w d') \<noteq> Some i)"
        using q unfolding queue_ok_def by blast
      moreover have "before (c, t, open c) d i" using d here(3) by (auto simp: before_def)
      ultimately show "i \<le> w_seq w \<and> (\<forall>b \<in> set ?W. before b d i) \<and> (\<forall>d'. d' \<noteq> d \<longrightarrow> current (w_sessions (commit c w) d') \<noteq> Some i)"
        by (simp add: cur)
    qed
    moreover have "sorted_wrt (\<lambda>b b'. before b (fst b') (fst (snd b'))) ?W" using q here(2) by (simp add: queue_ok_def sorted_wrt_append)
    moreover have "\<forall>b \<in> set ?W. fst (snd b) \<le> w_seq w \<and> snd (snd b) \<noteq> []" using q here(1) \<open>open c \<noteq> []\<close> by (simp add: queue_ok_def)
    ultimately have "queue_ok ?W (commit c w)" using raw q unfolding queue_ok_def rest by blast
    moreover have "session_ok [] ?s'" using ok Some by (auto simp: session_ok_def)
    moreover have "story tries ?W ?h" using st by (auto simp: story_def plain_block_def)
    ultimately show ?thesis using \<open>open c \<noteq> []\<close> link_session [OF assms new, of "[]" ?W ?h] by auto
  qed
qed


subsection \<open>The notifier\<close>

lemma conn_link:
  assumes "link inbox open tries W hist w" and "sends s = sends (w_slave w)" and "conn_ok inbox s"
    and "length (sl_sent (w_slave w)) \<le> length (sl_sent s)"
  shows "link inbox open tries W hist (w\<lparr>w_slave := s\<rparr>)"
  using assms by (auto simp: link_def queue_ok_def broken_def)

text \<open>The block with the least number is the first one of its session.\<close>

lemma story_next:
  assumes "story tries (A @ b # B) hist" and "\<forall>b' \<in> set A. fst b' \<noteq> fst b"
  shows "story (tries @ [(True, plain_block b)]) (A @ B) hist"
proof -
  have "of_session c (map snd (filter fst (tries @ [(True, plain_block b)])) @ map plain_block (A @ B))
      = of_session c (map snd (filter fst tries) @ map plain_block (A @ b # B))" for c
  proof (cases "fst b = c")
    case True
    have "of_session c (map plain_block A) = []" using assms(2) True by (auto simp: filter_empty_conv)
    then show ?thesis by simp
  qed simp
  with assms(1) show ?thesis by (simp add: story_def)
qed

lemma queue_drop:
  assumes "queue_ok (A @ b # B) w"
  shows "queue_ok (A @ B) (w\<lparr>w_raw := filter (\<lambda>r. rr_transaction r \<noteq> fst (snd b)) (w_raw w)\<rparr>)"
    and "map rr_data (filter (\<lambda>r. rr_transaction r = fst (snd b)) (w_raw w)) = snd (snd b)"
proof -
  obtain c t es where b: "b = (c, t, es)" by (cases b)
  have other: "\<forall>b' \<in> set (A @ B). fst (snd b') \<noteq> t"
    using assms by (auto simp: queue_ok_def sorted_wrt_append before_def b)
  have keep: "filter (\<lambda>r. rr_transaction r \<noteq> t) (rows_of b') = rows_of b'" "filter (\<lambda>r. rr_transaction r = t) (rows_of b') = []"
    if "fst (snd b') \<noteq> t" for b'
    using that by (auto simp: rows_of_def filter_empty_conv split: prod.splits)
  have keeps: "filter (\<lambda>r. rr_transaction r \<noteq> t) (concat (map rows_of X)) = concat (map rows_of X)"
    "filter (\<lambda>r. rr_transaction r = t) (concat (map rows_of X)) = []" if "\<forall>b' \<in> set X. fst (snd b') \<noteq> t" for X
    using that by (induction X) (simp_all add: keep)
  have raw: "w_raw w = concat (map rows_of A) @ rows_of b @ concat (map rows_of B)" using assms by (simp add: queue_ok_def)
  have own: "filter (\<lambda>r. rr_transaction r \<noteq> t) (rows_of b) = []" "filter (\<lambda>r. rr_transaction r = t) (rows_of b) = rows_of b"
    by (auto simp: rows_of_def b)
  have AB: "\<forall>b' \<in> set A. fst (snd b') \<noteq> t" "\<forall>b' \<in> set B. fst (snd b') \<noteq> t" using other by auto
  have "filter (\<lambda>r. rr_transaction r \<noteq> t) (w_raw w) = concat (map rows_of (A @ B))"
    using keeps(1) [OF AB(1)] keeps(1) [OF AB(2)] own(1) by (simp add: raw)
  then show "queue_ok (A @ B) (w\<lparr>w_raw := filter (\<lambda>r. rr_transaction r \<noteq> fst (snd b)) (w_raw w)\<rparr>)"
    using assms by (simp add: queue_ok_def b sorted_wrt_append)
  show "map rr_data (filter (\<lambda>r. rr_transaction r = fst (snd b)) (w_raw w)) = snd (snd b)"
    using keeps(2) [OF AB(1)] keeps(2) [OF AB(2)] own(2) by (simp add: raw b) (simp add: rows_of_def o_def)
qed

lemma first_block:
  assumes "queue_ok W w" and "first_transaction w = Some t"
  obtains A b B where "W = A @ b # B" and "t = fst (snd b)" and "\<forall>b' \<in> set A. fst b' \<noteq> fst b"
proof -
  have raw: "w_raw w = concat (map rows_of W)" "w_notes w = []" using assms(1) by (simp_all add: queue_ok_def)
  have "t \<in> rr_transaction ` set (w_raw w)" using first_transaction_there(1) [OF assms(2)] raw(2) by simp
  then obtain b where b: "b \<in> set W" "t = fst (snd b)" by (auto simp: raw rows_of_def split: prod.splits)
  then obtain A B where W: "W = A @ b # B" by (meson split_list)
  have "fst b' \<noteq> fst b" if "b' \<in> set A" for b'
  proof
    assume same: "fst b' = fst b"
    have "before b' (fst b) t" using assms(1) that b(2) by (auto simp: queue_ok_def W sorted_wrt_append)
    then have "fst (snd b') < t" using same by (simp add: before_def)
    moreover have "snd (snd b') \<noteq> []" using assms(1) that by (simp add: queue_ok_def W)
    then have "\<exists>r \<in> set (rows_of b'). rr_transaction r = fst (snd b')" by (cases b') (auto simp: rows_of_def neq_Nil_conv)
    then obtain r where "r \<in> set (rows_of b')" "rr_transaction r = fst (snd b')" by blast
    then have "r \<in> set (w_raw w)" using that by (auto simp: raw W)
    then have "t \<le> fst (snd b')" using first_transaction_there(2) [OF assms(2)] \<open>rr_transaction r = fst (snd b')\<close> by force
    ultimately show False by simp
  qed
  with W b(2) that show ?thesis by blast
qed

lemma notify_one_link:
  assumes "link inbox open tries W hist w" and "first_transaction w = Some t" and "notify_one D t w = (r, w')"
  shows "\<exists>tries' W'. link inbox open tries' W' hist w'"
proof -
  have q: "queue_ok W w" and st: "story tries W hist" and co: "conn_ok inbox (w_slave w)" using assms(1) by (simp_all add: link_def)
  obtain A b B where W: "W = A @ b # B" "t = fst (snd b)" "\<forall>b' \<in> set A. fst b' \<noteq> fst b" using first_block [OF q assms(2)] .
  let ?es = "snd (snd b)"
  obtain s q1 where s: "for_each slave_send ?es (w_slave w) = (q1, s)" by fastforce
  have none: "w_notes w = []" "w\<lparr>w_notes := []\<rparr> = w" using q by (cases w; simp add: queue_ok_def)+
  have sent: "map rr_data (filter (\<lambda>r. rr_transaction r = t) (w_raw w)) = ?es"
    using queue_drop(2) [of A b B w] q W by simp
  have w': "(r, w') = (case q1 of Raise e \<Rightarrow> (Raise e, w\<lparr>w_slave := s\<rparr>)
      | Ok _ \<Rightarrow> (Ok (), w\<lparr>w_slave := s, w_raw := filter (\<lambda>r. rr_transaction r \<noteq> t) (w_raw w)\<rparr>))"
    using assms(3) s none
    by (auto simp: notify_one_def by_object_def send_objects_def and_then_def send_all_def on_slave_def sent split: outcome.splits)
  obtain es1 es2 where es: "?es = es1 @ es2" and snt: "sends s = sends (w_slave w) @ es1" and all: "is_ok q1 \<longrightarrow> es2 = []"
    and co': "conn_ok inbox s" and br: "\<not> is_ok q1 \<longrightarrow> broken inbox s" and len: "length (sl_sent (w_slave w)) \<le> length (sl_sent s)"
    using send_each_link [OF s co] by blast
  have grown: "broken inbox (w_slave w) \<Longrightarrow> broken inbox s" using len by (auto simp: broken_def)
  have flow: "sends s = concat (map (snd \<circ> snd) (tries @ [(k, fst b, es1)]))" for k using assms(1) snt by (simp add: link_def)
  show ?thesis
  proof (cases q1)
    case (Ok u)
    have "plain_block b = (fst b, es1)" using es all Ok by (simp add: prod_eq_iff)
    then have "story (tries @ [(True, fst b, es1)]) (A @ B) hist" using story_next [of tries A b B hist] st W by simp
    moreover have "queue_ok (A @ B) (w\<lparr>w_raw := filter (\<lambda>r. rr_transaction r \<noteq> t) (w_raw w)\<rparr>)"
      using queue_drop(1) [of A b B w] q W by simp
    ultimately have "link inbox open (tries @ [(True, fst b, es1)]) (A @ B) hist w'"
      using assms(1) flow [of True] co' grown w' Ok by (auto simp: link_def queue_ok_def)
    then show ?thesis by blast
  next
    case (Raise e)
    have "plain_block b \<in> set hist" using story_in [OF st] W by simp
    then have "story (tries @ [(False, fst b, es1)]) W hist"
      using st es by (auto simp: story_def plain_block_def split: prod.splits)
    then have "link inbox open (tries @ [(False, fst b, es1)]) W hist w'"
      using assms(1) flow [of False] co' br w' Raise by (auto simp: link_def queue_ok_def)
    then show ?thesis by blast
  qed
qed


lemma handle_step:
  "handle_notifications D w = (r, w') \<longleftrightarrow>
     (case first_transaction w of
        None \<Rightarrow> r = Ok () \<and> w' = w
      | Some t \<Rightarrow> (case notify_one D t w of
           (Raise e, w1) \<Rightarrow> r = Raise e \<and> w' = w1 | (Ok _, w1) \<Rightarrow> handle_notifications D w1 = (r, w')))"
  by (subst handle_notifications.simps) (auto split: option.split prod.split outcome.split)

lemma handle_link:
  "link inbox open tries W hist w \<Longrightarrow> handle_notifications D w = (r, w') \<Longrightarrow> \<exists>tries' W'. link inbox open tries' W' hist w'"
proof (induction D w arbitrary: tries W rule: handle_notifications.induct)
  case (1 D w)
  show ?case
  proof (cases "first_transaction w")
    case None
    with 1(2,3) show ?thesis by (auto simp: handle_step [of D w])
  next
    case (Some t)
    obtain q w1 where q: "notify_one D t w = (q, w1)" by fastforce
    obtain tries1 W1 where "link inbox open tries1 W1 hist w1" using notify_one_link [OF 1(2) Some q] by blast
    then show ?thesis using 1(1) [OF Some q [symmetric]] 1(3) q Some
      by (cases q) (auto simp: handle_step [of D w])
  qed
qed

lemma handle_empties: "handle_notifications D w = (Ok (), w') \<Longrightarrow> w_raw w' = []"
proof (induction D w rule: handle_notifications.induct)
  case (1 D w)
  show ?case
  proof (cases "first_transaction w")
    case None
    with 1(2) show ?thesis by (auto simp: handle_step [of D w] first_transaction_def split: list.splits)
  next
    case (Some t)
    obtain q w1 where q: "notify_one D t w = (q, w1)" by fastforce
    show ?thesis using 1(1) [OF Some q [symmetric]] 1(2) q Some
      by (cases q) (auto simp: handle_step [of D w])
  qed
qed

lemma notified_link: "link inbox open tries W hist w \<Longrightarrow> link inbox open tries W hist (w\<lparr>w_notified := n\<rparr>)"
  by (simp add: link_def queue_ok_def)

lemma reconnect_link: "link inbox open tries W hist w \<Longrightarrow> link inbox open tries W hist (reconnect w)"
  by (simp add: reconnect_def link_def queue_ok_def)

lemma wait_turn_link:
  assumes "link inbox open tries W hist w" and "wait_turn D k w = (r, w')"
  shows "\<exists>tries' W'. link inbox open tries' W' hist w'"
proof (cases k)
  case Elapsed
  obtain q s where q: "conn_call KeepAlive (w_slave w) = (q, s)" by fastforce
  have co: "conn_ok inbox (w_slave w)" using assms(1) by (simp add: link_def)
  have "w' = w\<lparr>w_slave := s\<rparr>" using assms(2) Elapsed q
    by (auto simp: wait_turn_def on_slave_def slave_keep_alive_def and_then_def split: outcome.splits)
  moreover have "sends s = sends (w_slave w)" "length (sl_sent (w_slave w)) \<le> length (sl_sent s)"
    using conn_call_link(1) [OF q co] by (simp_all add: sends_def)
  ultimately show ?thesis using conn_link [OF assms(1)] conn_call_link(2) [OF q co] by blast
next
  case Woken
  show ?thesis
  proof (cases "w_notified w = 0")
    case True
    with assms Woken show ?thesis by (auto simp: wait_turn_def)
  next
    case False
    then have "handle_notifications D (w\<lparr>w_notified := 0\<rparr>) = (r, w')" using assms(2) Woken by (simp add: wait_turn_def)
    then show ?thesis using handle_link [OF notified_link [OF assms(1)]] by blast
  qed
qed

lemma notifier_turn_link:
  assumes "link inbox open tries W hist w"
  shows "\<exists>tries' W'. link inbox open tries' W' hist (notifier_turn D k w)"
proof -
  obtain r w1 where w1: "wait_turn D k w = (r, w1)" by fastforce
  obtain tries' W' where l: "link inbox open tries' W' hist w1" using wait_turn_link [OF assms w1] by blast
  show ?thesis using l reconnect_link [OF l] w1 by (cases r) (auto simp: notifier_turn_def)
qed

lemma run_link:
  "link inbox open tries W hist w \<Longrightarrow> \<exists>open' tries' W'. link inbox open' tries' W' (hist @ commits open acts) (fold (act_on D) acts w)"
proof (induction acts arbitrary: "open" tries W hist w)
  case (Cons a acts)
  show ?case
  proof (cases a)
    case (Raw c e)
    with Cons.IH [OF send_raw_link [OF Cons.prems, of c e]] show ?thesis by (simp del: fun_upd_apply)
  next
    case (Commit c)
    obtain W' where "link inbox (open(c := [])) tries W' (hist @ (if open c = [] then [] else [(c, open c)])) (commit c w)"
      using commit_link [OF Cons.prems] by blast
    from Cons.IH [OF this] Commit show ?thesis by (simp del: fun_upd_apply split: if_splits)
  next
    case (Rollback c)
    with Cons.IH [OF rollback_link [OF Cons.prems, of c]] show ?thesis by (simp del: fun_upd_apply)
  next
    case (Turn k)
    obtain tries' W' where "link inbox open tries' W' hist (notifier_turn D k w)" using notifier_turn_link [OF Cons.prems] by blast
    from Cons.IH [OF this] Turn show ?thesis by simp
  qed
qed auto

lemma new_world_link: "link inbox (\<lambda>_. []) [] [] [] (new_world inbox x)"
  by (simp add: link_def new_world_def session_ok_def queue_ok_def story_def sends_def conn_ok_def new_slave_def)

lemma raw_data: "queue_ok W w \<Longrightarrow> map rr_data (w_raw w) = concat (map snd (map plain_block W))"
  by (simp add: queue_ok_def map_concat o_def rows_of_def split_def)

text \<open>
  C16 (raw_events_delivered): However sessions and notifier take turns, what the notifier sends are whole transactions: every
  committed transaction that sent events is either still in the table or its events were sent together and in their order,
  once, and the transactions of a session in the order of their commits; nothing is sent of a transaction that was rolled
  back. A failure of the connection only adds a first part of a transaction that is sent again, so without one every event
  is sent exactly once. Reading the table until there is no notification left empties it. The sessions send raw events only: no
  row of \<open>core_notification\<close> is ever written in the repository, as the call that makes its triggers is commented out.
\<close>

theorem raw_events_delivered:
  "\<exists>tries waiting. let w = fold (act_on D) acts (new_world inbox x); hist = commits (\<lambda>_. []) acts in
     sends (w_slave w) = concat (map (snd \<circ> snd) tries)
     \<and> map rr_data (w_raw w) = concat (map snd waiting)
     \<and> (\<forall>c. of_session c (map snd (filter fst tries) @ waiting) = of_session c hist)
     \<and> (\<forall>(sent, c, es) \<in> set tries. sent \<or> broken inbox (w_slave w) \<and> (\<exists>es'. (c, es @ es') \<in> set hist))
     \<and> (\<forall>w'. handle_notifications D w = (Ok (), w') \<longrightarrow> w_raw w' = [])"
proof -
  obtain open' tries W where l: "link inbox open' tries W (commits (\<lambda>_. []) acts) (fold (act_on D) acts (new_world inbox x))"
    using run_link [OF new_world_link [of inbox x], of acts D] by auto
  then have "queue_ok W (fold (act_on D) acts (new_world inbox x))" by (simp add: link_def)
  note waiting = raw_data [OF this]
  have tries: "\<forall>(sent, c, es) \<in> set tries. sent \<or> broken inbox (w_slave (fold (act_on D) acts (new_world inbox x)))
      \<and> (\<exists>es'. (c, es @ es') \<in> set (commits (\<lambda>_. []) acts))"
    using l by (fastforce simp: link_def story_def)
  show ?thesis unfolding Let_def
    by (intro exI [of _ tries] exI [of _ "map plain_block W"] conjI waiting tries)
      (use l in \<open>simp_all add: link_def story_def handle_empties\<close>)
qed

text \<open>Two sessions, one transaction rolled back, and a first answer that fails.\<close>

definition sample_models :: dbmodels where
  "sample_models = \<lparr>dm_named = Some, dm_of_table = Some, dm_line = (\<lambda>m. [m]), dm_sub = (=), dm_model_at = (\<lambda>_ _. Some ''Submit''),
     dm_row_at = (\<lambda>_ i _. [(''id'', VInt i)]), dm_registry = (\<lambda>_. Some (Some [''id''], None, None))\<rparr>"

definition sample_acts :: "act list" where
  "sample_acts = [Raw 2 [(''id'', VInt 1)], Raw 3 [(''id'', VInt 2)], Commit 3, Turn Woken, Raw 2 [(''id'', VInt 3)], Commit 2,
     Raw 2 [(''id'', VInt 4)], Rollback 2, Turn Elapsed, Turn Woken]"

lemma sample_commits:
  "commits (\<lambda>_. []) sample_acts = [(3, [[(''id'', VInt 2)]]), (2, [[(''id'', VInt 1)], [(''id'', VInt 3)]])]"
  by (simp add: sample_acts_def)

theorem raw_events_delivered_witness:
  "\<exists>tries waiting. sends (w_slave (fold (act_on sample_models) sample_acts (new_world (Failed # replicate 9 (Answer RNone)) ())))
       = concat (map (snd \<circ> snd) tries)
     \<and> of_session 2 (map snd (filter fst tries) @ waiting) = [(2, [[(''id'', VInt 1)], [(''id'', VInt 3)]])]"
proof -
  obtain tries waiting where t:
    "sends (w_slave (fold (act_on sample_models) sample_acts (new_world (Failed # replicate 9 (Answer RNone)) ()))) = concat (map (snd \<circ> snd) tries)"
    "\<forall>c. of_session c (map snd (filter fst tries) @ waiting) = of_session c (commits (\<lambda>_. []) sample_acts)"
    using raw_events_delivered [of sample_models sample_acts "Failed # replicate 9 (Answer RNone)" "()"] unfolding Let_def by blast
  have "of_session 2 (map snd (filter fst tries) @ waiting) = [(2, [[(''id'', VInt 1)], [(''id'', VInt 3)]])]"
    using t(2) [unfolded sample_commits, rule_format, of 2] by simp
  with t(1) show ?thesis by blast
qed

end
