(* ===== verification/Blob_Store.thy ===== *)
theory Blob_Store
  imports Judge_Path Check_Db
begin

section \<open>Blobs and their server\<close>

text \<open>
  \<open>core/entities/Blob.py\<close> and \<open>core/blob.py\<close>: contents are kept in files named by their hash, and go in and out over HTTP
  in pieces of 1024 bytes.
  \<^item> \<open>bworld\<close>: the files by their path, the objects there are, and their attribute groups. Times of files and the making of
    directories are left out.
  \<^item> \<open>bsite\<close>: the directory, the hash (\<open>urlsafe_b64encode\<close> of SHA-384), the name of the next temporary file, and what the
    server asks about the caller.
  A text of the database stands for its UTF-8 encoding.
\<close>

record bworld =
  bw_files :: "(string, string) dict"
  bw_entities :: "(string \<times> string) list"
  bw_groups :: "(string \<times> string \<times> string, oa_group) dict"

record bsite =
  bs_dir :: string
  bs_digest :: "string \<Rightarrow> string"
  bs_drawn :: string
  bs_token :: "string \<Rightarrow> unit outcome"
  bs_model :: "string \<Rightarrow> bool"
  bs_group :: "string \<Rightarrow> string \<Rightarrow> bool"
  bs_demand :: "string \<times> string \<Rightarrow> bool outcome"
  bs_read :: "string \<times> string \<Rightarrow> string \<Rightarrow> string \<Rightarrow> bool outcome"
  bs_write :: "string \<times> string \<Rightarrow> string \<Rightarrow> string \<Rightarrow> bool outcome"
  bs_raw :: "bool outcome"

subsection \<open>Files\<close>

definition blob_filename :: "string \<Rightarrow> string \<Rightarrow> string outcome" where
  "blob_filename dir hash =
     (case hash of
        a # b # c # _ \<Rightarrow> Ok (path_join (path_join (path_join (path_join dir [a]) [b]) [c]) hash)
      | _ \<Rightarrow> Raise IndexError)"

definition blob_exists :: "bsite \<Rightarrow> string \<Rightarrow> bworld \<Rightarrow> bool outcome" where
  "blob_exists S hash w = map_ok (\<lambda>p. dget (bw_files w) p \<noteq> None) (blob_filename (bs_dir S) hash)"

definition blob_open :: "bsite \<Rightarrow> string \<Rightarrow> bworld \<Rightarrow> string outcome" where
  "blob_open S hash w =
     bind_ok (blob_filename (bs_dir S) hash) (\<lambda>p. case dget (bw_files w) p of None \<Rightarrow> Raise IOError | Some d \<Rightarrow> Ok d)"

text \<open>A writer: its temporary file and what was hashed.\<close>

record writer =
  wr_tmp :: string
  wr_hashed :: string

definition temp_path :: "bsite \<Rightarrow> string" where
  "temp_path S = path_join (path_join (bs_dir S) ''temp'') (bs_drawn S)"

definition blob_create :: "bsite \<Rightarrow> bworld \<Rightarrow> writer \<times> bworld" where
  "blob_create S w =
     (let tmp = temp_path S in
      (\<lparr>wr_tmp = tmp, wr_hashed = []\<rparr>, w\<lparr>bw_files := dset tmp [] (bw_files w)\<rparr>))"

definition blob_write :: "string \<Rightarrow> writer \<times> bworld \<Rightarrow> writer \<times> bworld" where
  "blob_write data ww =
     (case ww of (b, w) \<Rightarrow>
        (b\<lparr>wr_hashed := wr_hashed b @ data\<rparr>,
         w\<lparr>bw_files := dset (wr_tmp b) (dget_def_val (bw_files w) (wr_tmp b) [] @ data) (bw_files w)\<rparr>))"

text \<open>The comparison with a file that is there already, as long as bytes of it are left.\<close>

function same_chunks :: "string \<Rightarrow> string \<Rightarrow> bool" where
  "same_chunks a b =
     (if a = [] then True
      else let n = min (length a) 1024 in
        if take n a \<noteq> take n b then False else same_chunks (drop 1024 a) (drop 1024 b))"
  by auto

termination by (relation "measure (\<lambda>(a, b). length a)") auto

declare same_chunks.simps [simp del]

definition rename_file :: "string \<Rightarrow> string \<Rightarrow> (string, string) dict \<Rightarrow> (string, string) dict" where
  "rename_file a b files = (case dget files a of None \<Rightarrow> files | Some d \<Rightarrow> dset b d (ddel a files))"

definition blob_close :: "bsite \<Rightarrow> writer \<Rightarrow> bworld \<Rightarrow> string outcome \<times> bworld" where
  "blob_close S b w =
     (let hash = bs_digest S (wr_hashed b) in
      case blob_filename (bs_dir S) hash of
        Raise e \<Rightarrow> (Raise e, w)
      | Ok p \<Rightarrow>
          (case dget (bw_files w) p of
             Some orig \<Rightarrow>
               (let new = dget_def_val (bw_files w) (wr_tmp b) [] in
                if length orig \<noteq> length new \<or> \<not> same_chunks orig new then (Raise (RuntimeError ''HASH COLLISION!''), w)
                else (Ok hash, w\<lparr>bw_files := rename_file (wr_tmp b) p (bw_files w)\<rparr>))
           | None \<Rightarrow> (Ok hash, w\<lparr>bw_files := rename_file (wr_tmp b) p (bw_files w)\<rparr>)))"

subsection \<open>Names in headers\<close>

text \<open>\<open>urllib.quote\<close> and \<open>urllib.unquote\<close>.\<close>

definition hex_char :: "nat \<Rightarrow> char" where
  "hex_char n = (if n < 10 then char_of (48 + n) else char_of (55 + n))"

definition hex_val :: "char \<Rightarrow> nat option" where
  "hex_val c =
     (if 48 \<le> code c \<and> code c \<le> 57 then Some (code c - 48)
      else if 65 \<le> code c \<and> code c \<le> 70 then Some (code c - 55)
      else if 97 \<le> code c \<and> code c \<le> 102 then Some (code c - 87)
      else None)"

definition quote_safe :: "char \<Rightarrow> bool" where
  "quote_safe c \<longleftrightarrow> code c \<in> {48..57} \<union> {65..90} \<union> {97..122} \<or> c \<in> {CHR ''_'', CHR ''.'', CHR ''-'', CHR ''/''}"

definition quote_char :: "char \<Rightarrow> string" where
  "quote_char c = (if quote_safe c then [c] else [CHR ''%'', hex_char (code c div 16), hex_char (code c mod 16)])"

definition quote :: "string \<Rightarrow> string" where
  "quote s = concat (map quote_char s)"

fun unquote :: "string \<Rightarrow> string" where
  "unquote [] = []"
| "unquote (c # s) =
     (if c = CHR ''%'' then
        (case s of
           a # b # r \<Rightarrow> (case (hex_val a, hex_val b) of (Some x, Some y) \<Rightarrow> char_of (16 * x + y) # unquote r | _ \<Rightarrow> c # unquote s)
         | _ \<Rightarrow> c # unquote s)
      else c # unquote s)"

subsection \<open>Requests\<close>

record http_request =
  rq_verb :: string
  rq_token :: string
  rq_length :: "string option"
  rq_filename :: "string option"
  rq_input :: string

datatype http_reply =
    Page string "(string \<times> string) list"
  | Http_Forbidden
  | Http_Not_Found
  | Http_Not_Allowed "string list"
  | Http_Error

text \<open>The generator that reads a blob, and the loop that copies the input: what it reads may be less than it asks for.\<close>

function read_chunks :: "string \<Rightarrow> string list" where
  "read_chunks d = (if take 1024 d = [] then [] else take 1024 d # read_chunks (drop 1024 d))"
  by auto

termination by (relation "measure length") auto

declare read_chunks.simps [simp del]

function input_chunks :: "int \<Rightarrow> string \<Rightarrow> string list" where
  "input_chunks n input =
     (if n \<le> 0 then []
      else let r = min n 1024 in take (nat r) input # input_chunks (n - r) (drop (nat r) input))"
  by auto

termination by (relation "measure (\<lambda>(n, input). nat n)") auto

declare input_chunks.simps [simp del]

definition copy_input :: "int \<Rightarrow> string \<Rightarrow> writer \<times> bworld \<Rightarrow> writer \<times> bworld" where
  "copy_input n input ww = fold blob_write (input_chunks n input) ww"

definition content_length :: "http_request \<Rightarrow> int outcome" where
  "content_length rq =
     (case rq_length rq of
        None \<Rightarrow> Ok 0
      | Some s \<Rightarrow> (case parse_int s of None \<Rightarrow> Raise ValueError | Some n \<Rightarrow> Ok n))"

definition group_key :: "string \<times> string \<Rightarrow> string \<Rightarrow> string \<times> string \<times> string" where
  "group_key e grp = (fst e, snd e, grp)"

definition attrs_of :: "string \<times> string \<Rightarrow> string \<Rightarrow> bworld \<Rightarrow> oa_group" where
  "attrs_of e grp w = dget_def_val (bw_groups w) (group_key e grp) []"

text \<open>\<open>str(blob.filename)\<close> of a text that is not ASCII raises.\<close>

definition header_name :: "string \<Rightarrow> string outcome" where
  "header_name s = (if list_all (\<lambda>c. code c < 128) s then Ok (quote s) else Raise UnicodeError)"

definition server_get :: "bsite \<Rightarrow> string \<times> string \<Rightarrow> string \<Rightarrow> string \<Rightarrow> bworld \<Rightarrow> http_reply outcome" where
  "server_get S e name grp w =
     bind_ok (bs_read S e grp name) (\<lambda>b.
     if \<not> b then Ok Http_Forbidden
     else (case oa_get_blob (attrs_of e grp w) name of
             Fail _ \<Rightarrow> Ok Http_Not_Found
           | Done None \<Rightarrow> Ok Http_Not_Found
           | Done (Some (hash, filename)) \<Rightarrow>
               bind_ok (blob_open S hash w) (\<lambda>d.
               bind_ok (header_name filename) (\<lambda>h.
               Ok (Page (concat (read_chunks d)) [(''content-length'', str_int (int (length d))), (''Filename'', h)])))))"

text \<open>Closing the blob sets the attribute.\<close>

definition close_and_set :: "bsite \<Rightarrow> string \<times> string \<Rightarrow> string \<Rightarrow> string \<Rightarrow> string \<Rightarrow> writer \<times> bworld \<Rightarrow> string outcome \<times> bworld" where
  "close_and_set S e name grp filename ww =
     (case blob_close S (fst ww) (snd ww) of
        (Raise x, w1) \<Rightarrow> (Raise x, w1)
      | (Ok hash, w1) \<Rightarrow>
          (case oa_set_blob (\<lambda>h. blob_exists S h w1 = Ok True) name filename hash (attrs_of e grp w1) of
             (r, g) \<Rightarrow> (map_ok (\<lambda>_. hash) (raise_oa r), w1\<lparr>bw_groups := dset (group_key e grp) g (bw_groups w1)\<rparr>)))"

definition page_of_hash :: "string \<Rightarrow> http_reply" where
  "page_of_hash hash = Page hash [(''content-length'', str_int (int (length hash)))]"

definition server_put :: "bsite \<Rightarrow> string \<times> string \<Rightarrow> string \<Rightarrow> string \<Rightarrow> http_request \<Rightarrow> bworld \<Rightarrow> http_reply outcome \<times> bworld" where
  "server_put S e name grp rq w =
     (case bs_write S e grp name of
        Raise x \<Rightarrow> (Raise x, w)
      | Ok False \<Rightarrow> (Ok Http_Forbidden, w)
      | Ok True \<Rightarrow>
          (case content_length rq of
             Raise x \<Rightarrow> (Raise x, w)
           | Ok n \<Rightarrow>
               (let filename = unquote (case rq_filename rq of None \<Rightarrow> [] | Some f \<Rightarrow> f) in
                case close_and_set S e name grp filename (copy_input n (rq_input rq) (blob_create S w)) of
                  (r, w1) \<Rightarrow> (map_ok page_of_hash r, w1))))"

definition guarded :: "http_reply outcome \<times> bworld \<Rightarrow> http_reply \<times> bworld" where
  "guarded x = (case x of (Ok p, w) \<Rightarrow> (p, w) | (Raise _, w) \<Rightarrow> (Http_Error, w))"

definition server :: "bsite \<Rightarrow> http_request \<Rightarrow> string \<Rightarrow> string \<Rightarrow> string \<Rightarrow> string \<Rightarrow> bworld \<Rightarrow> http_reply \<times> bworld" where
  "server S rq model i name grp w =
     (if rq_verb rq \<notin> {''GET'', ''PUT''} then (Http_Not_Allowed [''GET'', ''PUT''], w)
      else guarded
        (case bs_token S (rq_token rq) of
           Raise x \<Rightarrow> (Raise x, w)
         | Ok _ \<Rightarrow>
             if \<not> bs_model S model \<or> grp \<noteq> ''oa'' \<and> \<not> bs_group S model grp \<or> (model, i) \<notin> set (bw_entities w)
             then (Ok Http_Not_Found, w)
             else (case bs_demand S (model, i) of
                     Raise x \<Rightarrow> (Raise x, w)
                   | Ok False \<Rightarrow> (Ok Http_Not_Found, w)
                   | Ok True \<Rightarrow>
                       if rq_verb rq = ''GET'' then (server_get S (model, i) name grp w, w)
                       else server_put S (model, i) name grp rq w)))"

definition download :: "bsite \<Rightarrow> http_request \<Rightarrow> string \<Rightarrow> bworld \<Rightarrow> http_reply" where
  "download S rq hash w =
     (if rq_verb rq \<noteq> ''GET'' then Http_Not_Allowed [''GET'']
      else fst (guarded
        (bind_ok (bs_token S (rq_token rq)) (\<lambda>_.
         bind_ok (bs_raw S) (\<lambda>raw.
         if \<not> raw then Ok Http_Forbidden
         else bind_ok (blob_exists S hash w) (\<lambda>there.
           if \<not> there then Ok Http_Not_Found
           else bind_ok (blob_open S hash w) (\<lambda>d.
             Ok (Page (concat (read_chunks d)) [(''content-length'', str_int (int (length d)))]))))), w)))"

definition upload :: "bsite \<Rightarrow> http_request \<Rightarrow> bworld \<Rightarrow> http_reply \<times> bworld" where
  "upload S rq w =
     (if rq_verb rq \<noteq> ''PUT'' then (Http_Not_Allowed [''PUT''], w)
      else guarded
        (case bind_ok (bs_token S (rq_token rq)) (\<lambda>_. bind_ok (bs_raw S) (\<lambda>raw.
             if \<not> raw then Ok None else map_ok Some (content_length rq))) of
           Raise x \<Rightarrow> (Raise x, w)
         | Ok None \<Rightarrow> (Ok Http_Forbidden, w)
         | Ok (Some n) \<Rightarrow>
             (case copy_input n (rq_input rq) (blob_create S w) of
                (b, w1) \<Rightarrow> (case blob_close S b w1 of (r, w2) \<Rightarrow> (map_ok page_of_hash r, w2)))))"

subsection \<open>Pieces\<close>

lemma concat_read_chunks: "concat (read_chunks d) = d"
proof (induction d rule: read_chunks.induct)
  case (1 d)
  show ?case
  proof (cases "d = []")
    case False
    with 1 have "concat (read_chunks (drop 1024 d)) = drop 1024 d" by simp
    with False show ?thesis by (subst read_chunks.simps) simp
  qed (simp add: read_chunks.simps)
qed

lemma concat_input_chunks: "concat (input_chunks n input) = take (nat n) input"
proof (induction n input rule: input_chunks.induct)
  case (1 n input)
  show ?case
  proof (cases "n \<le> 0")
    case False
    let ?r = "min n 1024"
    have "concat (input_chunks n input) = take (nat ?r) input @ take (nat (n - ?r)) (drop (nat ?r) input)"
      using False 1 [OF False refl] by (subst input_chunks.simps) (simp add: Let_def)
    also have "\<dots> = take (nat ?r + nat (n - ?r)) input" by (simp add: take_add)
    also have "nat ?r + nat (n - ?r) = nat n" using False by simp
    finally show ?thesis .
  qed (simp add: input_chunks.simps)
qed

lemma same_chunks_iff: "length a = length b \<Longrightarrow> same_chunks a b \<longleftrightarrow> a = b"
proof (induction a b rule: same_chunks.induct)
  case (1 a b)
  show ?case
  proof (cases "a = []")
    case False
    let ?n = "min (length a) 1024"
    have t: "take 1024 a = take ?n a" "take 1024 b = take ?n b" using 1(2) by (auto simp: min_def)
    have "a = b \<longleftrightarrow> take 1024 a = take 1024 b \<and> drop 1024 a = drop 1024 b" by (metis append_take_drop_id)
    then show ?thesis
      using False 1 t by (subst same_chunks.simps) (auto simp: Let_def)
  qed (use 1(2) in \<open>simp add: same_chunks.simps\<close>)
qed

subsection \<open>Names\<close>

lemma hex_val_char: "n < 16 \<Longrightarrow> hex_val (hex_char n) = Some n"
  by (auto simp: hex_val_def hex_char_def code_def)

lemma unquote_quote_append: "unquote (quote s @ r) = s @ unquote r"
proof (induction s)
  case (Cons c s)
  have safe: "\<not> quote_safe CHR ''%''" by (simp add: quote_safe_def code_def)
  have "code c < 256" using of_char_of [of "of_char c :: nat"] by (simp add: code_def)
  then have h: "hex_val (hex_char (code c div 16)) = Some (code c div 16)" "hex_val (hex_char (code c mod 16)) = Some (code c mod 16)"
    by (simp_all add: hex_val_char)
  have "char_of (16 * (code c div 16) + code c mod 16) = c" by (simp add: code_def)
  with h safe Cons.IH show ?case by (auto simp: quote_def quote_char_def)
qed (simp add: quote_def)

lemma unquote_quote: "unquote (quote s) = s"
  using unquote_quote_append [of s "[]"] by simp

subsection \<open>The store\<close>

lemma fold_blob_write:
  "dget (bw_files w) (wr_tmp b) = Some d \<Longrightarrow>
     fold blob_write ds (b, w) =
       (b\<lparr>wr_hashed := wr_hashed b @ concat ds\<rparr>, w\<lparr>bw_files := dset (wr_tmp b) (d @ concat ds) (bw_files w)\<rparr>)"
proof (induction ds arbitrary: b w d)
  case Nil
  then show ?case by (simp add: dset_same)
next
  case (Cons x ds)
  let ?w = "w\<lparr>bw_files := dset (wr_tmp b) (d @ x) (bw_files w)\<rparr>"
  have "blob_write x (b, w) = (b\<lparr>wr_hashed := wr_hashed b @ x\<rparr>, ?w)"
    using Cons.prems by (simp add: blob_write_def dget_def_val_def)
  with Cons.IH [of ?w "b\<lparr>wr_hashed := wr_hashed b @ x\<rparr>" "d @ x"] show ?case by simp
qed

lemma copy_create:
  "copy_input n input (blob_create S w) =
     (\<lparr>wr_tmp = temp_path S, wr_hashed = take (nat n) input\<rparr>,
      w\<lparr>bw_files := dset (temp_path S) (take (nat n) input) (bw_files w)\<rparr>)"
  by (simp add: copy_input_def blob_create_def Let_def fold_blob_write [where d = "[]"] concat_input_chunks)

text \<open>A blob that was closed is there, and no other file has changed.\<close>

lemma blob_close_Ok:
  assumes "blob_close S b w = (Ok h, w1)" and "dget (bw_files w) (wr_tmp b) = Some d"
  shows "h = bs_digest S (wr_hashed b)" and "blob_open S h w1 = Ok d" and "blob_exists S h w1 = Ok True"
    and "w1 = w\<lparr>bw_files := bw_files w1\<rparr>"
    and "\<And>p x. p \<noteq> wr_tmp b \<Longrightarrow> dget (bw_files w) p = Some x \<Longrightarrow> dget (bw_files w1) p = Some x"
proof -
  obtain p where h: "h = bs_digest S (wr_hashed b)" and p: "blob_filename (bs_dir S) h = Ok p"
    and w1: "w1 = w\<lparr>bw_files := rename_file (wr_tmp b) p (bw_files w)\<rparr>"
    and old: "\<forall>x. dget (bw_files w) p = Some x \<longrightarrow> length x = length d \<and> same_chunks x d"
    using assms by (auto simp: blob_close_def Let_def dget_def_val_def split: outcome.splits option.splits if_splits)
  have files: "bw_files w1 = dset p d (ddel (wr_tmp b) (bw_files w))" using assms(2) by (simp add: w1 rename_file_def)
  show "h = bs_digest S (wr_hashed b)" "w1 = w\<lparr>bw_files := bw_files w1\<rparr>" by (simp_all add: h w1)
  show "blob_open S h w1 = Ok d" "blob_exists S h w1 = Ok True" using p by (simp_all add: blob_open_def blob_exists_def files)
  fix q x assume "q \<noteq> wr_tmp b" "dget (bw_files w) q = Some x"
  then show "dget (bw_files w1) q = Some x" using old same_chunks_iff [of x d] by (auto simp: files)
qed

lemma raise_oa_eq_Ok: "raise_oa r = Ok x \<longleftrightarrow> r = Done x"
  by (cases r rule: raise_oa.cases) auto

text \<open>
  (blob_round_trip): A file that was put under an attribute is got back byte for byte by whoever may read it, with its length
  and its name, as far as the input went; the answer is the hash of the bytes kept. Every other blob and every other attribute is what it was:
  a content with the hash of another one is refused, not written over it.
\<close>

theorem blob_round_trip:
  assumes put: "server_put S e name grp rq w = (Ok (Page hash hdr), w1)"
    and length: "content_length rq = Ok n" and named: "rq_filename rq = Some (quote f)" "list_all (\<lambda>c. code c < 128) f"
    and fresh: "dget (bw_files w) (temp_path S) = None"
  shows "hash = bs_digest S (take (nat n) (rq_input rq))
    \<and> (\<forall>S'. bs_dir S' = bs_dir S \<longrightarrow> bs_read S' e grp name = Ok True \<longrightarrow> server_get S' e name grp w1 =
      Ok (Page (take (nat n) (rq_input rq)) [(''content-length'', str_int (int (length (take (nat n) (rq_input rq))))), (''Filename'', quote f)]))
    \<and> (\<forall>h d. blob_open S h w = Ok d \<longrightarrow> blob_open S h w1 = Ok d)
    \<and> (\<forall>e' grp' name'. (e', grp', name') \<noteq> (e, grp, name) \<longrightarrow> oa_get (attrs_of e' grp' w1) name' = oa_get (attrs_of e' grp' w) name')"
proof (intro conjI)
  let ?data = "take (nat n) (rq_input rq)" and ?b = "\<lparr>wr_tmp = temp_path S, wr_hashed = take (nat n) (rq_input rq)\<rparr>"
  let ?w = "w\<lparr>bw_files := dset (temp_path S) ?data (bw_files w)\<rparr>"
  have "close_and_set S e name grp f (?b, ?w) = (Ok hash, w1)"
    using put length named(1)
    by (auto simp: server_put_def copy_create Let_def unquote_quote page_of_hash_def outcome_simps split: outcome.splits bool.splits prod.splits)
  then obtain w2 g where close: "blob_close S ?b ?w = (Ok hash, w2)"
    and set: "oa_set_blob (\<lambda>h. blob_exists S h w2 = Ok True) name f hash (attrs_of e grp w2) = (Done (), g)"
    and w1: "w1 = w2\<lparr>bw_groups := dset (group_key e grp) g (bw_groups w2)\<rparr>"
    by (auto simp: close_and_set_def outcome_simps raise_oa_eq_Ok split: prod.splits outcome.splits)
  have "dget (bw_files ?w) (wr_tmp ?b) = Some ?data" by simp
  note closed = blob_close_Ok [OF close this]
  show "hash = bs_digest S ?data" using closed(1) by simp
  have groups: "bw_groups w2 = bw_groups w" using arg_cong [OF closed(4), of bw_groups] by simp
  have g: "g = dset name \<lparr>s_is_blob = True, s_value = hash, s_filename = f\<rparr> (attrs_of e grp w2)"
    using set closed(3) by (simp add: oa_set_blob_def oa_set_def)
  have open1: "blob_open S h w1 = blob_open S h w2" for h by (simp add: blob_open_def w1)
  have "oa_get_blob (attrs_of e grp w1) name = Done (Some (hash, f))"
    by (simp add: attrs_of_def w1 dget_def_val_def oa_get_blob_def oa_get_def g)
  moreover have "header_name f = Ok (quote f)" using named(2) by (simp add: header_name_def)
  moreover have "blob_open S' hash w1 = Ok ?data" if "bs_dir S' = bs_dir S" for S'
    using that closed(2) open1 [of hash] by (simp add: blob_open_def)
  ultimately show "\<forall>S'. bs_dir S' = bs_dir S \<longrightarrow> bs_read S' e grp name = Ok True \<longrightarrow> server_get S' e name grp w1 =
      Ok (Page ?data [(''content-length'', str_int (int (length (take (nat n) (rq_input rq))))), (''Filename'', quote f)])"
    by (simp add: server_get_def concat_read_chunks)
  show "\<forall>h d. blob_open S h w = Ok d \<longrightarrow> blob_open S h w1 = Ok d"
  proof (intro allI impI)
    fix h d assume "blob_open S h w = Ok d"
    then obtain p where p: "blob_filename (bs_dir S) h = Ok p" "dget (bw_files w) p = Some d"
      by (auto simp: blob_open_def outcome_simps split: option.splits)
    with fresh have "p \<noteq> temp_path S" by auto
    with p closed(5) [of p d] show "blob_open S h w1 = Ok d" by (simp add: open1) (simp add: blob_open_def)
  qed
  show "\<forall>e' grp' name'. (e', grp', name') \<noteq> (e, grp, name) \<longrightarrow> oa_get (attrs_of e' grp' w1) name' = oa_get (attrs_of e' grp' w) name'"
    by (auto simp: attrs_of_def w1 dget_def_val_def groups oa_get_def g group_key_def prod_eq_iff)
qed

text \<open>An image of two kilobytes is put under an attribute.\<close>

definition sample_bsite :: bsite where
  "sample_bsite = \<lparr>bs_dir = ''/blobs'', bs_digest = (\<lambda>d. ''hash-'' @ take 3 d), bs_drawn = ''tmpx17'', bs_token = (\<lambda>t. Ok ()),
     bs_model = (\<lambda>m. m = ''Subpage''), bs_group = (\<lambda>m g. g = ''content_files''), bs_demand = (\<lambda>e. Ok True),
     bs_read = (\<lambda>e g n. Ok True), bs_write = (\<lambda>e g n. Ok True), bs_raw = Ok False\<rparr>"

definition sample_put :: http_request where
  "sample_put = \<lparr>rq_verb = ''PUT'', rq_token = [], rq_length = Some ''2048'', rq_filename = Some (quote ''a b.png''),
     rq_input = replicate 2048 CHR ''x''\<rparr>"

definition sample_bworld :: bworld where
  "sample_bworld = \<lparr>bw_files = [], bw_entities = [(''Subpage'', ''12'')], bw_groups = []\<rparr>"

lemma sample_length: "content_length sample_put = Ok 2048"
proof -
  have "parse_int ''2048'' = Some 2048" by code_simp
  then show ?thesis by (simp add: content_length_def sample_put_def)
qed

lemma sample_bsite_props:
  "bs_write sample_bsite e g n = Ok True" "bs_digest sample_bsite (replicate 2048 CHR ''x'') = ''hash-xxx''"
  "blob_filename (bs_dir sample_bsite) ''hash-xxx'' = Ok ''/blobs/h/a/s/hash-xxx''" "temp_path sample_bsite = ''/blobs/temp/tmpx17''"
  by (simp_all add: sample_bsite_def take_replicate numeral_3_eq_3 blob_filename_def path_join_def starts_with_def temp_path_def)

lemma sample_stored:
  "\<exists>w1. server_put sample_bsite (''Subpage'', ''12'') ''logo'' ''content_files'' sample_put sample_bworld
     = (Ok (Page ''hash-xxx'' [(''content-length'', str_int 8)]), w1)"
proof -
  have "rq_input sample_put = replicate 2048 CHR ''x''" by (simp add: sample_put_def)
  moreover have "bw_files sample_bworld = []" by (simp add: sample_bworld_def)
  ultimately show ?thesis
    by (simp add: server_put_def sample_length copy_create Let_def sample_bsite_props close_and_set_def blob_close_def rename_file_def
      oa_set_blob_def oa_set_def blob_exists_def page_of_hash_def)
qed

theorem blob_round_trip_witness:
  "\<exists>w1. server_put sample_bsite (''Subpage'', ''12'') ''logo'' ''content_files'' sample_put sample_bworld
       = (Ok (Page ''hash-xxx'' [(''content-length'', str_int 8)]), w1)
     \<and> server_get sample_bsite (''Subpage'', ''12'') ''logo'' ''content_files'' w1
       = Ok (Page (replicate 2048 CHR ''x'') [(''content-length'', str_int 2048), (''Filename'', quote ''a b.png'')])"
proof -
  obtain w1 where put: "server_put sample_bsite (''Subpage'', ''12'') ''logo'' ''content_files'' sample_put sample_bworld
     = (Ok (Page ''hash-xxx'' [(''content-length'', str_int 8)]), w1)" using sample_stored by blast
  have "rq_filename sample_put = Some (quote ''a b.png'')" "list_all (\<lambda>c. code c < 128) ''a b.png''"
    "dget (bw_files sample_bworld) (temp_path sample_bsite) = None"
    by (simp_all add: sample_put_def sample_bworld_def code_def)
  moreover have "bs_read sample_bsite (''Subpage'', ''12'') ''content_files'' ''logo'' = Ok True" by (simp add: sample_bsite_def)
  ultimately have "server_get sample_bsite (''Subpage'', ''12'') ''logo'' ''content_files'' w1
      = Ok (Page (replicate 2048 CHR ''x'') [(''content-length'', str_int 2048), (''Filename'', quote ''a b.png'')])"
    using blob_round_trip [OF put sample_length] by (simp add: sample_put_def)
  with put show ?thesis by blast
qed

end
