(* ===== verification/Blob_Client.thy ===== *)
theory Blob_Client
  imports Blob_Store Params
begin

section \<open>Blobs over the network\<close>

text \<open>
  \<open>satori.client.common/remote.py\<close>: the writer and the reader of blobs of a client; \<open>core/urls.py\<close>: which handler a path
  belongs to. The HTTP library and the web server between them carry a request as it is, with the path unquoted; a request
  is answered when the client closes the writer. The token travels quoted in a cookie, the server does not unquote it.
\<close>

subsection \<open>Routes\<close>

datatype route = To_Server string string string string | To_Upload | To_Download string | To_Thrift

definition route :: "string \<Rightarrow> route option" where
  "route path =
     (case split_on CHR ''/'' path of
        [b, m, i, g, n] \<Rightarrow>
          if b = ''blob'' \<and> m \<noteq> [] \<and> i \<noteq> [] \<and> list_all is_digit i \<and> g \<noteq> [] \<and> n \<noteq> [] then Some (To_Server m i g n) else None
      | [b, d, h] \<Rightarrow> if b = ''blob'' \<and> d = ''download'' \<and> h \<noteq> [] then Some (To_Download h) else None
      | [b, u] \<Rightarrow> if b = ''blob'' \<and> u = ''upload'' then Some To_Upload else None
      | [t] \<Rightarrow> if t = ''thrift'' then Some To_Thrift else None
      | _ \<Rightarrow> None)"

definition dispatch_request :: "bsite \<Rightarrow> string \<Rightarrow> http_request \<Rightarrow> bworld \<Rightarrow> http_reply \<times> bworld" where
  "dispatch_request S url rq w =
     (case route (tl (unquote url)) of
        Some (To_Server m i g n) \<Rightarrow> server S rq m i n g w
      | Some (To_Download h) \<Rightarrow> (download S rq h w, w)
      | Some To_Upload \<Rightarrow> upload S rq w
      | _ \<Rightarrow> (Http_Not_Found, w))"

subsection \<open>The client\<close>

text \<open>Where a blob is: an attribute of an entity, or its hash alone.\<close>

record place =
  pl_model :: string
  pl_id :: int
  pl_name :: string
  pl_group :: string

definition blob_url :: "place \<Rightarrow> string" where
  "blob_url p = ''/blob/'' @ quote (pl_model p) @ ''/'' @ str_int (pl_id p) @ ''/'' @ quote (pl_group p) @ ''/'' @ quote (pl_name p)"

definition writer_url :: "place option \<Rightarrow> string" where
  "writer_url p = (case p of None \<Rightarrow> ''/blob/upload'' | Some x \<Rightarrow> blob_url x)"

definition reader_url :: "place option \<Rightarrow> string \<Rightarrow> string" where
  "reader_url p hash = (case p of None \<Rightarrow> ''/blob/download/'' @ quote hash | Some x \<Rightarrow> blob_url x)"

definition header_of :: "(string \<times> string) list \<Rightarrow> string \<Rightarrow> string option" where
  "header_of hdr k = map_of (map (\<lambda>(x, v). (lower x, v)) hdr) (lower k)"

text \<open>A reply that is not a page has another status than 200.\<close>

definition page_of :: "http_reply \<Rightarrow> (string \<times> (string \<times> string) list) outcome" where
  "page_of r = (case r of Page body hdr \<Rightarrow> Ok (body, hdr) | _ \<Rightarrow> Raise (RuntimeError ''Server returned''))"

definition length_of :: "(string \<times> string) list \<Rightarrow> int outcome" where
  "length_of hdr =
     (case header_of hdr ''Content-length'' of
        None \<Rightarrow> Raise TypeError
      | Some s \<Rightarrow> (case parse_int s of None \<Rightarrow> Raise ValueError | Some n \<Rightarrow> Ok n))"

text \<open>\<open>BlobWriter\<close>: opened with a length, written to in pieces, closed.\<close>

definition remote_write :: "bsite \<Rightarrow> string \<Rightarrow> int \<Rightarrow> place option \<Rightarrow> string \<Rightarrow> string list \<Rightarrow> bworld \<Rightarrow> string outcome \<times> bworld" where
  "remote_write S token n p filename pieces w =
     (case dispatch_request S (writer_url p)
        \<lparr>rq_verb = ''PUT'', rq_token = quote token, rq_length = Some (str_int n), rq_filename = Some (quote filename),
         rq_input = concat pieces\<rparr> w of
        (reply, w1) \<Rightarrow>
          (bind_ok (page_of reply) (\<lambda>(body, hdr). bind_ok (length_of hdr) (\<lambda>k. Ok (take (nat k) body))), w1))"

text \<open>\<open>BlobReader\<close>: its content, length and file name.\<close>

definition remote_read :: "bsite \<Rightarrow> string \<Rightarrow> place option \<Rightarrow> string \<Rightarrow> bworld \<Rightarrow> (string \<times> int \<times> string) outcome \<times> bworld" where
  "remote_read S token p hash w =
     (case dispatch_request S (reader_url p hash)
        \<lparr>rq_verb = ''GET'', rq_token = quote token, rq_length = Some ''0'', rq_filename = None, rq_input = []\<rparr> w of
        (reply, w1) \<Rightarrow>
          (bind_ok (page_of reply) (\<lambda>(body, hdr). bind_ok (length_of hdr) (\<lambda>k.
             Ok (body, k, unquote (case header_of hdr ''Filename'' of None \<Rightarrow> [] | Some f \<Rightarrow> f)))), w1))"

subsection \<open>Files\<close>

text \<open>
  \<open>unwrap.py\<close>: a file of the client is written and read through \<open>copyfileobj\<close>, whose third argument is the size of its
  pieces; the files of the client are a dict.
\<close>

definition basename :: "string \<Rightarrow> string" where
  "basename path = last (split_on CHR ''/'' path)"

fun pieces :: "nat \<Rightarrow> string \<Rightarrow> nat \<Rightarrow> string list" where
  "pieces 0 d n = []"
| "pieces (Suc k) d n = (if d = [] \<or> n = 0 then [] else take n d # pieces k (drop n d) n)"

definition copyfileobj :: "string \<Rightarrow> nat \<Rightarrow> string list" where
  "copyfileobj d n = pieces (length d) d n"

definition blob_set_path :: "bsite \<Rightarrow> string \<Rightarrow> place \<Rightarrow> string \<Rightarrow> (string, string) dict \<Rightarrow> bworld \<Rightarrow> string outcome \<times> bworld" where
  "blob_set_path S token p path disk w =
     (case dget disk path of
        None \<Rightarrow> (Raise IOError, w)
      | Some d \<Rightarrow> remote_write S token (int (length d)) (Some p) (basename path) (copyfileobj d (length d)) w)"

definition create_path :: "bsite \<Rightarrow> string \<Rightarrow> string \<Rightarrow> (string, string) dict \<Rightarrow> bworld \<Rightarrow> string outcome \<times> bworld" where
  "create_path S token path disk w =
     (case dget disk path of
        None \<Rightarrow> (Raise IOError, w)
      | Some d \<Rightarrow> remote_write S token (int (length d)) None [] (copyfileobj d (length d)) w)"

text \<open>The file is emptied before the blob is asked for.\<close>

definition save_blob :: "(string \<times> int \<times> string) outcome \<times> bworld \<Rightarrow> string \<Rightarrow> (string, string) dict \<Rightarrow> unit outcome \<times> (string, string) dict" where
  "save_blob x path disk =
     (case fst x of
        Raise e \<Rightarrow> (Raise e, dset path [] disk)
      | Ok (d, n, f) \<Rightarrow> (Ok (), dset path (concat (copyfileobj d (nat n))) disk))"

definition blob_get_path :: "bsite \<Rightarrow> string \<Rightarrow> place \<Rightarrow> string \<Rightarrow> (string, string) dict \<Rightarrow> bworld \<Rightarrow> unit outcome \<times> (string, string) dict" where
  "blob_get_path S token p path disk w = save_blob (remote_read S token (Some p) [] w) path disk"

definition open_path :: "bsite \<Rightarrow> string \<Rightarrow> string \<Rightarrow> string \<Rightarrow> (string, string) dict \<Rightarrow> bworld \<Rightarrow> unit outcome \<times> (string, string) dict" where
  "open_path S token hash path disk w = save_blob (remote_read S token None hash w) path disk"


subsection \<open>What was written is read\<close>

lemma length_split_on: "length (split_on c s) = Suc (length (filter (\<lambda>x. x = c) s))"
  by (induction s) (auto split: list.split)

lemma str_int_plain: "CHR ''/'' \<notin> set (str_int i)" "CHR ''%'' \<notin> set (str_int i)"
proof -
  have "is_digit c" if "c \<in> set (str_nat n)" for c n using str_nat_digits [of n] that by (auto simp: list_all_iff)
  from this [of "CHR ''/''"] this [of "CHR ''%''"] have "CHR ''/'' \<notin> set (str_nat n)" "CHR ''%'' \<notin> set (str_nat n)" for n
    by (auto simp: is_digit_def code_def)
  then show "CHR ''/'' \<notin> set (str_int i)" "CHR ''%'' \<notin> set (str_int i)" by (auto simp: str_int_def)
qed

lemma blob_path_parts:
  assumes "route (''blob/'' @ m @ ''/'' @ i @ ''/'' @ g @ ''/'' @ n) = Some r" and "CHR ''/'' \<notin> set i"
  shows "r = To_Server m i g n"
proof -
  let ?path = "''blob/'' @ m @ ''/'' @ i @ ''/'' @ g @ ''/'' @ n"
  have len: "length (split_on CHR ''/'' ?path) = 5 + length (filter (\<lambda>x. x = CHR ''/'') (m @ i @ g @ n))"
    by (simp add: length_split_on)
  then have "length (split_on CHR ''/'' ?path) = 5" using assms(1)
    by (auto simp: route_def split: list.splits if_splits)
  then have "filter (\<lambda>x. x = CHR ''/'') (m @ i @ g @ n) = []" using len by simp
  then have none: "CHR ''/'' \<notin> set m" "CHR ''/'' \<notin> set g" "CHR ''/'' \<notin> set n" by (auto simp: filter_empty_conv)
  have "split_on CHR ''/'' ?path = [''blob'', m, i, g, n]"
    using split_on_append [of "CHR ''/''" "''blob''"] split_on_append [OF none(1)] split_on_append [OF assms(2)]
      split_on_append [OF none(2)] split_on_plain [OF none(3)] by simp
  with assms(1) show ?thesis by (auto simp: route_def split: if_splits)
qed

lemma blob_url_path: "tl (unquote (blob_url p)) = ''blob/'' @ pl_model p @ ''/'' @ str_int (pl_id p) @ ''/'' @ pl_group p @ ''/'' @ pl_name p"
proof -
  have plain: "unquote (s @ r) = s @ unquote r" if "CHR ''%'' \<notin> set s" for s r
    using that by (induction s) auto
  show ?thesis
    by (simp add: blob_url_def unquote_quote_append plain [OF str_int_plain(2)] unquote_quote)
qed

lemma concat_pieces: "length d \<le> k \<Longrightarrow> 0 < n \<Longrightarrow> concat (pieces k d n) = d"
proof (induction k d n rule: pieces.induct)
  case (2 k d n)
  then show ?case by (cases "d = []") auto
qed simp

lemma concat_copyfileobj: "concat (copyfileobj d (length d)) = d"
  by (cases "d = []") (simp_all add: copyfileobj_def concat_pieces)


text \<open>A request that was answered with a page went to the handler of the place, and every test of it was passed.\<close>

lemma dispatch_blob:
  assumes "dispatch_request S (blob_url p) rq w = (Page body hdr, w1)"
  shows "server S rq (pl_model p) (str_int (pl_id p)) (pl_name p) (pl_group p) w = (Page body hdr, w1)"
    and "route (tl (unquote (blob_url p))) = Some (To_Server (pl_model p) (str_int (pl_id p)) (pl_group p) (pl_name p))"
proof -
  obtain r where r: "route (tl (unquote (blob_url p))) = Some r"
    using assms by (auto simp: dispatch_request_def split: option.splits)
  then have "r = To_Server (pl_model p) (str_int (pl_id p)) (pl_group p) (pl_name p)"
    using str_int_plain(1) unfolding blob_url_path by (rule blob_path_parts)
  with assms r show "server S rq (pl_model p) (str_int (pl_id p)) (pl_name p) (pl_group p) w = (Page body hdr, w1)"
    "route (tl (unquote (blob_url p))) = Some (To_Server (pl_model p) (str_int (pl_id p)) (pl_group p) (pl_name p))"
    by (simp_all add: dispatch_request_def)
qed

definition key_of :: "place \<Rightarrow> string \<times> string" where
  "key_of p = (pl_model p, str_int (pl_id p))"

definition admitted :: "bsite \<Rightarrow> string \<Rightarrow> place \<Rightarrow> bworld \<Rightarrow> bool" where
  "admitted S token p w \<longleftrightarrow> bs_token S token = Ok () \<and> bs_model S (pl_model p) \<and> (pl_group p = ''oa'' \<or> bs_group S (pl_model p) (pl_group p))
     \<and> key_of p \<in> set (bw_entities w) \<and> bs_demand S (key_of p) = Ok True"

lemma server_admitted:
  "server S rq (pl_model p) (str_int (pl_id p)) name (pl_group p) w = (Page body hdr, w1) \<Longrightarrow>
     admitted S (rq_token rq) p w
     \<and> (if rq_verb rq = ''GET'' then server_get S (key_of p) name (pl_group p) w = Ok (Page body hdr) \<and> w1 = w
        else rq_verb rq = ''PUT'' \<and> server_put S (key_of p) name (pl_group p) rq w = (Ok (Page body hdr), w1))"
  by (auto simp: server_def guarded_def admitted_def key_of_def split: if_splits outcome.splits prod.splits bool.splits)

lemma server_answers:
  "admitted S (rq_token rq) p w \<Longrightarrow> rq_verb rq = ''GET'' \<Longrightarrow> server_get S (key_of p) name (pl_group p) w = Ok r \<Longrightarrow>
     server S rq (pl_model p) (str_int (pl_id p)) name (pl_group p) w = (r, w)"
  by (auto simp: server_def guarded_def admitted_def key_of_def)


lemma blob_close_entities: "blob_close S b w = (r, w1) \<Longrightarrow> bw_entities w1 = bw_entities w"
  by (auto simp: blob_close_def Let_def split: outcome.splits option.splits if_splits)

lemma server_put_entities: "server_put S e name grp rq w = (r, w1) \<Longrightarrow> bw_entities w1 = bw_entities w"
  by (auto simp: server_put_def copy_create Let_def close_and_set_def dest!: blob_close_entities
      split: outcome.splits bool.splits prod.splits)

lemma header_names:
  "lower ''Content-length'' = ''content-length''" "lower ''content-length'' = ''content-length''" "lower ''Filename'' = ''filename''"
proof -
  have "of_char CHR ''c'' = (99::nat)" "of_char CHR ''f'' = (102::nat)" by simp_all
  then have "char_of (99::nat) = CHR ''c''" "char_of (102::nat) = CHR ''f''" by (metis char_of_char)+
  then show "lower ''Content-length'' = ''content-length''" "lower ''content-length'' = ''content-length''" "lower ''Filename'' = ''filename''"
    by (simp_all add: lower_def shift_char_def code_def)
qed

lemma content_length_str: "rq_length rq = Some (str_int n) \<Longrightarrow> content_length rq = Ok n"
  by (simp add: content_length_def parse_int_str_int)

lemma remote_write_Ok:
  assumes "remote_write S token n (Some p) filename ds w = (Ok h, w1)"
  obtains rq where "admitted S (quote token) p w" and "server_put S (key_of p) (pl_name p) (pl_group p) rq w = (Ok (page_of_hash h), w1)"
    and "content_length rq = Ok n" and "rq_filename rq = Some (quote filename)" and "rq_input rq = concat ds"
    and "route (tl (unquote (blob_url p))) = Some (To_Server (pl_model p) (str_int (pl_id p)) (pl_group p) (pl_name p))"
proof -
  let ?rq = "\<lparr>rq_verb = ''PUT'', rq_token = quote token, rq_length = Some (str_int n), rq_filename = Some (quote filename),
     rq_input = concat ds\<rparr>"
  obtain body hdr where sent: "dispatch_request S (blob_url p) ?rq w = (Page body hdr, w1)"
    and h: "bind_ok (length_of hdr) (\<lambda>k. Ok (take (nat k) body)) = Ok h"
    using assms by (auto simp: remote_write_def writer_url_def page_of_def outcome_simps split: prod.splits http_reply.splits)
  note put = server_admitted [OF dispatch_blob(1) [OF sent]]
  then have put': "server_put S (key_of p) (pl_name p) (pl_group p) ?rq w = (Ok (Page body hdr), w1)" by simp
  then obtain h' where "Page body hdr = page_of_hash h'"
    by (auto simp: server_put_def Let_def outcome_simps split: outcome.splits bool.splits prod.splits)
  then have "Page body hdr = page_of_hash h" using h
    by (auto simp: page_of_hash_def length_of_def header_of_def header_names parse_int_str_int outcome_simps)
  with put' put dispatch_blob(2) [OF sent] that [of ?rq] show ?thesis by (simp add: content_length_str)
qed

lemma remote_write_entities:
  "remote_write S token n (Some p) filename ds w = (Ok h, w1) \<Longrightarrow> bw_entities w1 = bw_entities w"
  by (erule remote_write_Ok) (erule server_put_entities)

lemma remote_read_page:
  assumes "admitted S (quote token) p w" and "server_get S (key_of p) (pl_name p) (pl_group p) w = Ok r"
    and "route (tl (unquote (blob_url p))) = Some (To_Server (pl_model p) (str_int (pl_id p)) (pl_group p) (pl_name p))"
  shows "remote_read S token (Some p) [] w = (bind_ok (page_of r) (\<lambda>(body, hdr). bind_ok (length_of hdr) (\<lambda>k.
    Ok (body, k, unquote (case header_of hdr ''Filename'' of None \<Rightarrow> [] | Some f \<Rightarrow> f)))), w)"
proof -
  let ?get = "\<lparr>rq_verb = ''GET'', rq_token = quote token, rq_length = Some ''0'', rq_filename = None, rq_input = []\<rparr>"
  have "dispatch_request S (blob_url p) ?get w = (r, w)"
    using server_answers [of S ?get p w] assms by (simp add: dispatch_request_def)
  then show ?thesis by (simp add: remote_read_def reader_url_def)
qed

text \<open>
  C15 (file_round_trip): A file that a client puts under an attribute of an entity is afterwards, for every client of the
  same store that the server admits to the entity and that may read the attribute, a file with the same bytes, its length and
  its name; the answer to the writer is the hash of the bytes, and every other blob is what it was. The name of
  the file is ASCII (the server fails to send another), and the temporary file of the upload is a new one. A client that may not read
  the attribute, like any client whose blob cannot be had, is left with an empty file in the place it asked to have it in,
  whatever was there before.
\<close>

theorem file_round_trip:
  assumes put: "blob_set_path S token p path disk w = (Ok hash, w1)"
    and ascii: "list_all (\<lambda>c. code c < 128) (basename path)" and fresh: "dget (bw_files w) (temp_path S) = None"
  shows "\<exists>d. dget disk path = Some d \<and> hash = bs_digest S d
    \<and> (\<forall>S' token' path' disk'. bs_dir S' = bs_dir S \<longrightarrow> admitted S' (quote token') p w1 \<longrightarrow>
        (bs_read S' (key_of p) (pl_group p) (pl_name p) = Ok True \<longrightarrow>
           remote_read S' token' (Some p) [] w1 = (Ok (d, int (length d), basename path), w1)
           \<and> blob_get_path S' token' p path' disk' w1 = (Ok (), dset path' d disk'))
        \<and> (bs_read S' (key_of p) (pl_group p) (pl_name p) = Ok False \<longrightarrow>
           blob_get_path S' token' p path' disk' w1 = (Raise (RuntimeError ''Server returned''), dset path' [] disk')))
    \<and> (\<forall>h x. blob_open S h w = Ok x \<longrightarrow> blob_open S h w1 = Ok x)
    \<and> (\<forall>S' token' p' path' disk' w' e. fst (remote_read S' token' (Some p') [] w') = Raise e \<longrightarrow>
        blob_get_path S' token' p' path' disk' w' = (Raise e, dset path' [] disk'))"
proof -
  obtain d where d: "dget disk path = Some d"
    and sent: "remote_write S token (int (length d)) (Some p) (basename path) (copyfileobj d (length d)) w = (Ok hash, w1)"
    using put by (auto simp: blob_set_path_def split: option.splits)
  obtain rq where srv: "server_put S (key_of p) (pl_name p) (pl_group p) rq w = (Ok (page_of_hash hash), w1)"
    and rq: "content_length rq = Ok (int (length d))" "rq_filename rq = Some (quote (basename path))" "rq_input rq = d"
    and rt: "route (tl (unquote (blob_url p))) = Some (To_Server (pl_model p) (str_int (pl_id p)) (pl_group p) (pl_name p))"
    using remote_write_Ok [OF sent] by (metis concat_copyfileobj)
  note stored = blob_round_trip [OF srv [unfolded page_of_hash_def] rq(1,2) ascii fresh]
  have got: "remote_read S' token' (Some p) [] w1 = (Ok (d, int (length d), basename path), w1)
      \<and> blob_get_path S' token' p path' disk' w1 = (Ok (), dset path' d disk')"
    if "bs_dir S' = bs_dir S" "admitted S' (quote token') p w1" "bs_read S' (key_of p) (pl_group p) (pl_name p) = Ok True"
    for S' token' path' disk'
  proof -
    have "server_get S' (key_of p) (pl_name p) (pl_group p) w1 =
        Ok (Page d [(''content-length'', str_int (int (length d))), (''Filename'', quote (basename path))])"
      using stored that rq(3) by simp
    from remote_read_page [OF that(2) this rt]
    have "remote_read S' token' (Some p) [] w1 = (Ok (d, int (length d), basename path), w1)"
      by (simp add: page_of_def length_of_def header_of_def header_names parse_int_str_int unquote_quote)
    then show ?thesis by (simp add: blob_get_path_def save_blob_def concat_copyfileobj)
  qed
  have denied: "blob_get_path S' token' p path' disk' w1 = (Raise (RuntimeError ''Server returned''), dset path' [] disk')"
    if "admitted S' (quote token') p w1" "bs_read S' (key_of p) (pl_group p) (pl_name p) = Ok False" for S' token' path' disk'
  proof -
    have "server_get S' (key_of p) (pl_name p) (pl_group p) w1 = Ok Http_Forbidden" using that(2) by (simp add: server_get_def)
    from remote_read_page [OF that(1) this rt] show ?thesis by (simp add: page_of_def blob_get_path_def save_blob_def)
  qed
  have failed: "blob_get_path S' token' p' path' disk' w' = (Raise e, dset path' [] disk')"
    if "fst (remote_read S' token' (Some p') [] w') = Raise e" for S' token' p' path' disk' w' e
    using that by (simp add: blob_get_path_def save_blob_def)
  show ?thesis using d stored rq(3) got denied failed by auto
qed


text \<open>A picture is uploaded and downloaded again.\<close>

definition sample_place :: place where
  "sample_place = \<lparr>pl_model = ''Subpage'', pl_id = 12, pl_name = ''logo'', pl_group = ''content_files''\<rparr>"

definition sample_disk :: "(string, string) dict" where
  "sample_disk = [(''/home/ann/a b.png'', ''xyz'')]"

lemma sample_id: "str_int 12 = ''12''"
  by code_simp

lemma sample_route: "route (tl (unquote (blob_url sample_place))) = Some (To_Server ''Subpage'' ''12'' ''content_files'' ''logo'')"
proof -
  show ?thesis unfolding blob_url_path by (simp add: sample_id sample_place_def route_def is_digit_def code_def)
qed

lemma sample_upload:
  "fst (blob_set_path sample_bsite ''tok'' sample_place ''/home/ann/a b.png'' sample_disk sample_bworld) = Ok ''hash-xyz''"
proof -
  have data: "concat (copyfileobj ''xyz'' (Suc (Suc (Suc 0)))) = ''xyz''" using concat_copyfileobj [of "''xyz''"] by simp
  have site: "bs_digest sample_bsite ''xyz'' = ''hash-xyz''" "blob_filename (bs_dir sample_bsite) ''hash-xyz'' = Ok ''/blobs/h/a/s/hash-xyz''"
    "temp_path sample_bsite = ''/blobs/temp/tmpx17''"
    by (simp_all add: sample_bsite_def numeral_3_eq_3 blob_filename_def path_join_def starts_with_def temp_path_def)
  let ?rq = "\<lparr>rq_verb = ''PUT'', rq_token = quote ''tok'', rq_length = Some (str_int 3), rq_filename = Some (quote ''a b.png''), rq_input = ''xyz''\<rparr>"
  have put: "fst (server_put sample_bsite (''Subpage'', ''12'') ''logo'' ''content_files'' ?rq sample_bworld) = Ok (page_of_hash ''hash-xyz'')"
    by (simp add: server_put_def content_length_str copy_create Let_def sample_bsite_props(1) site close_and_set_def blob_close_def
      rename_file_def oa_set_blob_def oa_set_def blob_exists_def sample_bworld_def)
  then have "fst (server sample_bsite ?rq ''Subpage'' ''12'' ''logo'' ''content_files'' sample_bworld) = page_of_hash ''hash-xyz''"
    by (auto simp: server_def guarded_def sample_bsite_def sample_bworld_def split: prod.splits)
  then have "fst (dispatch_request sample_bsite (blob_url sample_place) ?rq sample_bworld) = page_of_hash ''hash-xyz''"
    by (simp add: dispatch_request_def sample_route)
  then show ?thesis
    by (auto simp: blob_set_path_def sample_disk_def basename_def data remote_write_def writer_url_def page_of_hash_def page_of_def
      length_of_def header_of_def header_names parse_int_str_int split: prod.splits)
qed

theorem file_round_trip_witness:
  "\<exists>w1. blob_set_path sample_bsite ''tok'' sample_place ''/home/ann/a b.png'' sample_disk sample_bworld = (Ok ''hash-xyz'', w1)
     \<and> blob_get_path sample_bsite ''other'' sample_place ''/tmp/b.png'' [] w1 = (Ok (), [(''/tmp/b.png'', ''xyz'')])
     \<and> snd (blob_get_path (sample_bsite\<lparr>bs_read := \<lambda>_ _ _. Ok False\<rparr>) ''other'' sample_place ''/tmp/b.png'' [(''/tmp/b.png'', ''mine'')] w1)
       = [(''/tmp/b.png'', [])]"
proof -
  obtain w1 where put: "blob_set_path sample_bsite ''tok'' sample_place ''/home/ann/a b.png'' sample_disk sample_bworld = (Ok ''hash-xyz'', w1)"
    using sample_upload by (metis prod.collapse)
  then have "bw_entities w1 = bw_entities sample_bworld"
    by (auto simp: blob_set_path_def split: option.splits dest!: remote_write_entities)
  then have adm: "admitted sample_bsite (quote ''other'') sample_place w1"
    "admitted (sample_bsite\<lparr>bs_read := \<lambda>_ _ _. Ok False\<rparr>) (quote ''other'') sample_place w1"
    using sample_id by (simp_all add: admitted_def sample_bsite_def sample_place_def sample_bworld_def key_of_def)
  have hyps: "list_all (\<lambda>c. code c < 128) (basename ''/home/ann/a b.png'')"
    "dget (bw_files sample_bworld) (temp_path sample_bsite) = None" "dget sample_disk ''/home/ann/a b.png'' = Some ''xyz''"
    by (simp_all add: sample_bworld_def basename_def code_def sample_disk_def)
  have may: "bs_read sample_bsite e g n = Ok True" for e g n by (simp add: sample_bsite_def)
  from file_round_trip [OF put hyps(1,2)] hyps(3) obtain
    got: "\<forall>S' token' path' disk'. bs_dir S' = bs_dir sample_bsite \<longrightarrow> admitted S' (quote token') sample_place w1 \<longrightarrow>
        (bs_read S' (key_of sample_place) (pl_group sample_place) (pl_name sample_place) = Ok True \<longrightarrow>
           blob_get_path S' token' sample_place path' disk' w1 = (Ok (), dset path' ''xyz'' disk'))
        \<and> (bs_read S' (key_of sample_place) (pl_group sample_place) (pl_name sample_place) = Ok False \<longrightarrow>
           blob_get_path S' token' sample_place path' disk' w1 = (Raise (RuntimeError ''Server returned''), dset path' [] disk'))"
    by auto
  have "blob_get_path sample_bsite ''other'' sample_place ''/tmp/b.png'' [] w1 = (Ok (), dset ''/tmp/b.png'' ''xyz'' [])"
    using got adm(1) may by blast
  moreover have "blob_get_path (sample_bsite\<lparr>bs_read := \<lambda>_ _ _. Ok False\<rparr>) ''other'' sample_place ''/tmp/b.png'' [(''/tmp/b.png'', ''mine'')] w1
      = (Raise (RuntimeError ''Server returned''), dset ''/tmp/b.png'' [] [(''/tmp/b.png'', ''mine'')])"
    using got adm(2) by auto
  ultimately show ?thesis using put by simp
qed

end
