(* ===== verification/Oa_Client.thy ===== *)
theory Oa_Client
  imports Blob_Client
begin

section \<open>Attribute groups of a client\<close>

text \<open>
  \<open>satori.client.common/oa_map.py\<close>: \<open>OaMap\<close>, a dict of attributes that has the interface of an attribute group of the server
  (\<open>export/oa.py\<close>). Its attributes are copied when the map is made and when they are given out; only the names of attributes
  passed to \<open>add_map\<close> are changed in place. \<open>BadAttributeType\<close> has no field \<open>required_type\<close>, so making one raises \<open>TypeError\<close>,
  as do \<open>Blob.open\<close> and \<open>Blob.create\<close> of a client, which take one argument.
\<close>

type_synonym oa_map = "(string, stored) dict"

definition om_get :: "oa_map \<Rightarrow> string \<Rightarrow> attr option" where
  "om_get m name =
     map_option (\<lambda>s. \<lparr>a_name = name, a_is_blob = s_is_blob s, a_value = s_value s, a_filename = Some (s_filename s)\<rparr>) (dget m name)"

definition om_get_str :: "oa_map \<Rightarrow> string \<Rightarrow> string option outcome" where
  "om_get_str m name =
     (case om_get m name of None \<Rightarrow> Ok None | Some a \<Rightarrow> if a_is_blob a then Raise TypeError else Ok (Some (a_value a)))"

definition om_get_blob :: "oa_map \<Rightarrow> string \<Rightarrow> (string \<times> int \<times> string) option outcome" where
  "om_get_blob m name = (case om_get m name of None \<Rightarrow> Ok None | Some _ \<Rightarrow> Raise TypeError)"

definition om_get_blob_hash :: "oa_map \<Rightarrow> string \<Rightarrow> string option outcome" where
  "om_get_blob_hash m name =
     (case om_get m name of None \<Rightarrow> Ok None | Some a \<Rightarrow> if \<not> a_is_blob a then Raise TypeError else Ok (Some (a_value a)))"

definition om_get_blob_filename :: "oa_map \<Rightarrow> string \<Rightarrow> string option outcome" where
  "om_get_blob_filename m name =
     (case om_get m name of None \<Rightarrow> Ok None | Some a \<Rightarrow> if \<not> a_is_blob a then Raise TypeError else Ok (a_filename a))"

text \<open>Without a hash the file is emptied before \<open>urllib.quote\<close> raises.\<close>

definition om_get_blob_path :: "bsite \<Rightarrow> string \<Rightarrow> oa_map \<Rightarrow> string \<Rightarrow> string \<Rightarrow> (string, string) dict \<Rightarrow> bworld \<Rightarrow> unit outcome \<times> (string, string) dict" where
  "om_get_blob_path S token m name path disk w =
     (case om_get_blob_hash m name of
        Raise e \<Rightarrow> (Raise e, disk)
      | Ok None \<Rightarrow> (Raise TypeError, dset path [] disk)
      | Ok (Some h) \<Rightarrow> open_path S token h path disk w)"

definition om_get_list :: "oa_map \<Rightarrow> attr list" where
  "om_get_list m = map (\<lambda>n. the (om_get m n)) (dkeys m)"

definition om_get_map :: "oa_map \<Rightarrow> (string, attr) dict" where
  "om_get_map m =
     map (\<lambda>(n, s). (n, \<lparr>a_name = [], a_is_blob = s_is_blob s, a_value = s_value s, a_filename = Some (s_filename s)\<rparr>)) m"

definition om_set :: "attr \<Rightarrow> oa_map \<Rightarrow> oa_map" where
  "om_set v m = dset (a_name v) \<lparr>s_is_blob = a_is_blob v, s_value = a_value v,
     s_filename = (case a_filename v of Some f \<Rightarrow> if a_is_blob v then f else [] | None \<Rightarrow> [])\<rparr> m"

definition om_set_str :: "string \<Rightarrow> string \<Rightarrow> oa_map \<Rightarrow> oa_map" where
  "om_set_str name v = om_set \<lparr>a_name = name, a_is_blob = False, a_value = v, a_filename = None\<rparr>"

definition om_set_blob :: "string \<Rightarrow> string \<Rightarrow> oa_map \<Rightarrow> unit outcome \<times> oa_map" where
  "om_set_blob name filename m = (Raise TypeError, m)"

definition om_set_blob_hash :: "string \<Rightarrow> string \<Rightarrow> string \<Rightarrow> oa_map \<Rightarrow> oa_map" where
  "om_set_blob_hash name v filename = om_set \<lparr>a_name = name, a_is_blob = True, a_value = v, a_filename = Some filename\<rparr>"

definition om_set_blob_path :: "bsite \<Rightarrow> string \<Rightarrow> string \<Rightarrow> string \<Rightarrow> string option \<Rightarrow> (string, string) dict \<Rightarrow> oa_map \<times> bworld \<Rightarrow> string outcome \<times> oa_map \<times> bworld" where
  "om_set_blob_path S token name path filename disk x =
     (case create_path S token path disk (snd x) of
        (Raise e, w1) \<Rightarrow> (Raise e, fst x, w1)
      | (Ok h, w1) \<Rightarrow> (Ok h, om_set_blob_hash name h (case filename of None \<Rightarrow> basename path | Some f \<Rightarrow> f) (fst x), w1))"

definition om_add_list :: "attr list \<Rightarrow> oa_map \<Rightarrow> oa_map" where
  "om_add_list vs m = fold om_set vs m"

definition om_set_list :: "attr list \<Rightarrow> oa_map \<Rightarrow> unit outcome \<times> oa_map" where
  "om_set_list vs m = (Raise (NameError ''sel''), m)"

definition om_add_map :: "(string, attr) dict \<Rightarrow> oa_map \<Rightarrow> oa_map" where
  "om_add_map vs m = fold (\<lambda>(n, v). om_set (v\<lparr>a_name := n\<rparr>)) vs m"

definition om_set_map :: "(string, attr) dict \<Rightarrow> oa_map \<Rightarrow> unit outcome \<times> oa_map" where
  "om_set_map vs m = (Raise (NameError ''sel''), m)"

definition om_delete :: "string \<Rightarrow> oa_map \<Rightarrow> oa_map" where
  "om_delete name m = (if name \<in> set (dkeys m) then ddel name m else m)"

subsection \<open>A second store of attributes\<close>

definition om_look :: "oa_map \<Rightarrow> string \<Rightarrow> stored option" where
  "om_look m name = map_option store (om_get m name)"

definition om_put :: "attr \<Rightarrow> oa_map \<Rightarrow> unit oa_result \<times> oa_map" where
  "om_put v m = (Done (), om_set v m)"

text \<open>File names are empty unless the attribute is a blob.\<close>

definition tidy :: "oa_map \<Rightarrow> bool" where
  "tidy m \<longleftrightarrow> dict_ok m \<and> (\<forall>n s. dget m n = Some s \<longrightarrow> \<not> s_is_blob s \<longrightarrow> s_filename s = [])"

interpretation om: attribute_store om_look om_put om_delete "\<lambda>_. True"
proof
  fix v m n k
  show "\<exists>m'. om_put v m = (Done (), m') \<and> (\<forall>k. om_look m' k = (if k = a_name v then Some (store v) else om_look m k))"
    by (auto simp: om_put_def om_set_def om_look_def om_get_def store_def split: option.splits)
  show "om_look (om_delete n m) k = (if k = n then None else om_look m k)"
    by (auto simp: om_delete_def om_look_def om_get_def dget_None_iff)
qed simp

text \<open>What a client does with a map, and the same calls on the group of an entity.\<close>

datatype oa_call = Set_Str string string | Set_Hash string string string | Add_List "attr list" | Add_Map "(string, attr) dict" | Delete string

fun om_call :: "oa_call \<Rightarrow> oa_map \<Rightarrow> oa_map" where
  "om_call (Set_Str n v) m = om_set_str n v m"
| "om_call (Set_Hash n v f) m = om_set_blob_hash n v f m"
| "om_call (Add_List vs) m = om_add_list vs m"
| "om_call (Add_Map vs) m = om_add_map vs m"
| "om_call (Delete n) m = om_delete n m"

fun oa_call_on :: "(string \<Rightarrow> bool) \<Rightarrow> oa_call \<Rightarrow> oa_group \<Rightarrow> unit oa_result \<times> oa_group" where
  "oa_call_on ex (Set_Str n v) g = oa_set_str ex n v g"
| "oa_call_on ex (Set_Hash n v f) g = oa_set_blob_hash ex n v f g"
| "oa_call_on ex (Add_List vs) g = oa_add_list ex vs g"
| "oa_call_on ex (Add_Map vs) g = oa_add_map ex vs g"
| "oa_call_on ex (Delete n) g = (Done (), oa_delete n g)"

fun oa_calls :: "(string \<Rightarrow> bool) \<Rightarrow> oa_call list \<Rightarrow> oa_group \<Rightarrow> unit oa_result \<times> oa_group" where
  "oa_calls ex [] g = (Done (), g)"
| "oa_calls ex (k # ks) g = (case oa_call_on ex k g of (Fail e, g1) \<Rightarrow> (Fail e, g1) | (Done _, g1) \<Rightarrow> oa_calls ex ks g1)"

lemma oa_set_om: "oa_set ex v g = (r, g1) \<Longrightarrow> (r = Done () \<and> g1 = om_set v g \<and> (a_is_blob v \<longrightarrow> ex (a_value v))) \<or> (r = Fail MissingBlob \<and> g1 = g)"
  by (auto simp: oa_set_def om_set_def split: if_splits)

lemma oa_add_list_om: "oa_add_list ex vs g = (Done (), g1) \<Longrightarrow> g1 = om_add_list vs g"
proof (induction vs arbitrary: g)
  case (Cons v vs)
  obtain r g2 where "oa_set ex v g = (r, g2)" by fastforce
  then show ?case using oa_set_om [of ex v g r g2] Cons by (auto simp: om_add_list_def split: oa_result.splits)
qed (simp add: om_add_list_def)

lemma oa_add_map_om: "oa_add_map ex vs g = (Done (), g1) \<Longrightarrow> g1 = om_add_map vs g"
proof (induction vs arbitrary: g)
  case (Cons v vs)
  obtain n a where v: "v = (n, a)" by fastforce
  obtain r g2 where "oa_set ex (a\<lparr>a_name := n\<rparr>) g = (r, g2)" by fastforce
  then show ?case using oa_set_om [of ex "a\<lparr>a_name := n\<rparr>" g r g2] Cons v by (auto simp: om_add_map_def split: oa_result.splits)
qed (simp add: om_add_map_def)

lemma oa_delete_om: "oa_delete n g = om_delete n g"
  using dget_None_iff [of g n] by (cases "dget g n") (simp_all add: oa_delete_def om_delete_def oa_get_def)

lemma oa_call_om: "oa_call_on ex k g = (Done (), g1) \<Longrightarrow> g1 = om_call k g"
  by (cases k)
    (auto simp: oa_set_str_def om_set_str_def oa_set_blob_hash_def om_set_blob_hash_def oa_delete_om
      oa_add_list_om oa_add_map_om dest: oa_set_om)

lemma oa_calls_om: "oa_calls ex ks g = (Done (), g1) \<Longrightarrow> g1 = fold om_call ks g"
proof (induction ks arbitrary: g)
  case (Cons k ks)
  obtain r g2 where r: "oa_call_on ex k g = (r, g2)" by fastforce
  show ?case using Cons oa_call_om [of ex k g g2] r by (cases r) auto
qed simp


subsection \<open>Working on a copy\<close>

definition blobs_there :: "(string \<Rightarrow> bool) \<Rightarrow> oa_group \<Rightarrow> bool" where
  "blobs_there ex g \<longleftrightarrow> (\<forall>n s. dget g n = Some s \<longrightarrow> s_is_blob s \<longrightarrow> ex (s_value s))"

definition group_ok :: "(string \<Rightarrow> bool) \<Rightarrow> oa_group \<Rightarrow> bool" where
  "group_ok ex g \<longleftrightarrow> tidy g \<and> blobs_there ex g"

lemma group_ok_set: "oa_set ex v g = (r, g1) \<Longrightarrow> group_ok ex g \<Longrightarrow> group_ok ex g1"
  by (auto simp: oa_set_def group_ok_def tidy_def blobs_there_def split: if_splits option.splits)

lemma group_ok_add_list: "oa_add_list ex vs g = (r, g1) \<Longrightarrow> group_ok ex g \<Longrightarrow> group_ok ex g1"
proof (induction vs arbitrary: g)
  case (Cons v vs)
  obtain q g2 where "oa_set ex v g = (q, g2)" by fastforce
  then show ?case using Cons group_ok_set [of ex v g q g2] by (cases q) auto
qed simp

lemma group_ok_add_map: "oa_add_map ex vs g = (r, g1) \<Longrightarrow> group_ok ex g \<Longrightarrow> group_ok ex g1"
proof (induction vs arbitrary: g)
  case (Cons v vs)
  obtain n a where v: "v = (n, a)" by fastforce
  obtain q g2 where "oa_set ex (a\<lparr>a_name := n\<rparr>) g = (q, g2)" by fastforce
  then show ?case using Cons v group_ok_set [of ex "a\<lparr>a_name := n\<rparr>" g q g2] by (cases q) auto
qed simp

lemma group_ok_delete: "group_ok ex g \<Longrightarrow> group_ok ex (om_delete n g)"
  by (auto simp: om_delete_def group_ok_def tidy_def blobs_there_def split: if_splits)

lemma group_ok_call: "oa_call_on ex k g = (r, g1) \<Longrightarrow> group_ok ex g \<Longrightarrow> group_ok ex g1"
  by (cases k)
    (auto simp: oa_set_str_def oa_set_blob_hash_def oa_delete_om
      intro: group_ok_delete group_ok_set group_ok_add_list group_ok_add_map)

lemma group_ok_calls: "oa_calls ex ks g = (r, g1) \<Longrightarrow> group_ok ex g \<Longrightarrow> group_ok ex g1"
proof (induction ks arbitrary: g)
  case (Cons k ks)
  obtain q g2 where "oa_call_on ex k g = (q, g2)" by fastforce
  then show ?case using Cons group_ok_call [of ex k g q g2] by (cases q) auto
qed simp

lemma dget_om_get_map:
  "dget (om_get_map m) n = map_option (\<lambda>s. \<lparr>a_name = [], a_is_blob = s_is_blob s, a_value = s_value s, a_filename = Some (s_filename s)\<rparr>) (dget m n)"
  by (induction m) (auto simp: om_get_map_def)

lemma dict_ok_om_get_map: "dict_ok m \<Longrightarrow> dict_ok (om_get_map m)"
  by (simp add: dict_ok_def om_get_map_def split_def o_def)

text \<open>
  C27 (oa_map_offline): Taking the attributes of an entity, changing the copy and setting the entity's attributes from it gives
  the same as making the changes on the entity, whenever these succeed, and succeeds itself: a map of a client refines the
  attribute group of the server.
\<close>

theorem oa_map_offline:
  assumes calls: "oa_calls ex ks g = (Done (), g1)" and ok: "group_ok ex g"
  shows "\<exists>g2. oa_set_map ex (om_get_map (fold om_call ks g)) h = (Done (), g2) \<and> (\<forall>n. oa_get g2 n = oa_get g1 n)"
proof -
  let ?m = "fold om_call ks g"
  have g1: "g1 = ?m" by (rule oa_calls_om [OF calls])
  have ok1: "group_ok ex ?m" using group_ok_calls [OF calls ok] g1 by simp
  have d: "dict_ok (om_get_map ?m)" using ok1 by (simp add: dict_ok_om_get_map group_ok_def tidy_def)
  have "\<forall>(n, v) \<in> set (om_get_map ?m). a_is_blob v \<longrightarrow> ex (a_value v)"
    using ok1 by (auto simp: group_ok_def tidy_def blobs_there_def om_get_map_def dget_Some_iff)
  from oa_set_map_get_map [OF d this, of h] obtain g2 where g2: "oa_set_map ex (om_get_map ?m) h = (Done (), g2)" "dict_ok g2"
    "\<forall>k. dget (oa_get_map g2) k = map_option store (dget (om_get_map ?m) k)" by blast
  have "oa_get g2 n = oa_get g1 n" for n
  proof -
    have "oa_get g2 n = map_option store (dget (om_get_map ?m) n)"
      using g2(2) g2(3) [THEN spec, of n] by (cases "dget g2 n") (simp_all add: oa_get_map_def dget_dmerge oa_get_def)
    also have "\<dots> = dget ?m n" using ok1
      by (cases "dget ?m n") (auto simp: dget_om_get_map store_def group_ok_def tidy_def)
    finally show ?thesis by (simp add: g1 oa_get_def)
  qed
  with g2(1) show ?thesis by blast
qed

theorem oa_map_offline_witness:
  "\<exists>g2. oa_set_map (\<lambda>h. h = ''h1'') (om_get_map (fold om_call [Set_Hash ''checker'' ''h1'' ''c.cpp'', Delete ''time'', Set_Str ''memory'' ''1M'']
      [(''time'', \<lparr>s_is_blob = False, s_value = ''1s'', s_filename = []\<rparr>)])) [] = (Done (), g2)
    \<and> oa_get g2 ''time'' = None \<and> oa_get g2 ''checker'' = Some \<lparr>s_is_blob = True, s_value = ''h1'', s_filename = ''c.cpp''\<rparr>"
proof -
  let ?ks = "[Set_Hash ''checker'' ''h1'' ''c.cpp'', Delete ''time'', Set_Str ''memory'' ''1M'']"
    and ?g = "[(''time'', \<lparr>s_is_blob = False, s_value = ''1s'', s_filename = []\<rparr>)]"
  have calls: "oa_calls (\<lambda>h. h = ''h1'') ?ks ?g = (Done (), [(''checker'', \<lparr>s_is_blob = True, s_value = ''h1'', s_filename = ''c.cpp''\<rparr>),
      (''memory'', \<lparr>s_is_blob = False, s_value = ''1M'', s_filename = []\<rparr>)])"
    by (simp add: oa_set_blob_hash_def oa_set_str_def oa_set_def oa_delete_def oa_get_def)
  have "group_ok (\<lambda>h. h = ''h1'') ?g" by (simp add: group_ok_def tidy_def blobs_there_def dict_ok_def)
  from oa_map_offline [OF calls this, of "[]"] show ?thesis by (auto simp: oa_get_def)
qed

end
