(* ===== verification/Web_Tables.thy ===== *)
theory Web_Tables
  imports Blob_Store "HOL-Library.Multiset" "HOL-Library.List_Lexorder" "HOL-Library.Char_ord"
begin

section \<open>satori.web.utils.tables: tables with filters, order and pages\<close>

text \<open>
  A table is made from the parameters of a request, those that begin with its prefix; it shows the rows that pass its
  filters, in the order of a column, one page of them, and links to itself with other parameters.
  \<^item> \<open>column\<close> (\<open>TableField\<close>), \<open>row_filter\<close> (\<open>FilterFunction\<close>): the value of a column and the test of a filter, by row number.
  \<^item> \<open>table\<close> (\<open>ResultTable\<close>): \<open>page\<close> and \<open>limit\<close> are numbers among the parameters, the rest are texts.
  The values are texts. The HTML around the rows and links is left out.
\<close>

record column =
  cl_id :: string
  cl_name :: string
  cl_sortable :: bool
  cl_value :: "nat \<Rightarrow> string"
  cl_filter :: "string option"

record row_filter =
  rf_prefix :: string
  rf_name :: string
  rf_choices :: "(string \<times> string) list"
  rf_check :: "nat \<Rightarrow> string \<Rightarrow> bool"
  rf_default :: "string option"

record table =
  tb_prefix :: string
  tb_autosort :: bool
  tb_params :: "(string, string) dict"
  tb_page :: int
  tb_limit :: int
  tb_filters :: "(string, string) dict"
  tb_other :: "(string, string) dict"

subsection \<open>The parameters of a request\<close>

text \<open>\<open>k.find(prefix) == 0\<close>.\<close>

definition own_params :: "string \<Rightarrow> (string, string) dict \<Rightarrow> (string, string) dict" where
  "own_params pre req =
     fold (\<lambda>(k, v) d. if starts_with pre k then dset (drop (length pre + 1) k) v d else d) req []"

definition other_params :: "string \<Rightarrow> (string, string) dict \<Rightarrow> (string, string) dict" where
  "other_params pre req = fold (\<lambda>(k, v) d. if starts_with pre k then d else dset k v d) req []"

definition filter_params :: "(string, string) dict \<Rightarrow> (string, string) dict" where
  "filter_params ps =
     fold (\<lambda>(k, v) d. if starts_with ''filter'' k \<and> v \<noteq> ''disable_filter'' then dset (drop 7 k) v d else d) ps []"

definition number_of :: "(string, string) dict \<Rightarrow> string \<Rightarrow> int \<Rightarrow> int outcome" where
  "number_of ps k dflt =
     (case dget ps k of
        None \<Rightarrow> Ok dflt
      | Some s \<Rightarrow> (case parse_int s of None \<Rightarrow> Raise ValueError | Some n \<Rightarrow> Ok n))"

definition with_default :: "string option \<Rightarrow> bool \<Rightarrow> (string, string) dict \<Rightarrow> (string, string) dict" where
  "with_default default_sort default_desc ps =
     (case default_sort of
        None \<Rightarrow> ps
      | Some s \<Rightarrow> if s = [] \<or> dget ps ''sort'' \<noteq> None then ps
          else if default_desc then dset ''order'' ''desc'' (dset ''sort'' s ps) else dset ''sort'' s ps)"

text \<open>
  \<open>dlimit\<close> is what \<open>default_limit()\<close> of the class answers: 0, all rows on one page, where a class does not override it (the
  views have 20, 30, 50 and others). It takes the place of a limit that is missing or negative.
\<close>

definition new_table :: "int \<Rightarrow> (string, string) dict \<Rightarrow> string \<Rightarrow> bool \<Rightarrow> string option \<Rightarrow> bool \<Rightarrow> table outcome" where
  "new_table dlimit req pre autosort default_sort default_desc =
     (let own = own_params pre req;
          ps = filter (\<lambda>(k, v). \<not> starts_with ''filter'' k) own in
      bind_ok (number_of ps ''page'' 1) (\<lambda>page.
      bind_ok (number_of ps ''limit'' dlimit) (\<lambda>limit.
      let ps1 = with_default default_sort default_desc (filter (\<lambda>(k, v). k \<noteq> ''page'' \<and> k \<noteq> ''limit'') ps) in
      Ok \<lparr>tb_prefix = pre, tb_autosort = autosort, tb_params = ps1, tb_page = (if page \<le> 0 then 1 else page),
          tb_limit = (if limit < 0 then dlimit else limit), tb_filters = filter_params own, tb_other = other_params pre req\<rparr>)))"

subsection \<open>Links\<close>

text \<open>\<open>getparams\<close>: the parameters of a link, the given ones instead of the table's own.\<close>

definition all_params :: "table \<Rightarrow> (string, string) dict" where
  "all_params t = dset ''limit'' (str_int (tb_limit t)) (dset ''page'' (str_int (tb_page t)) (tb_params t))"

definition link_params :: "table \<Rightarrow> (string, string) dict \<Rightarrow> (string, string) dict \<Rightarrow> (string, string) dict" where
  "link_params t flts args =
     fold (\<lambda>(k, v) d. if dget flts k = None then dset (''filter_'' @ k) v d else d) (tb_filters t)
       (fold (\<lambda>(k, v). dset (''filter_'' @ k) v) flts (dmerge (all_params t) args))"

definition link_text :: "table \<Rightarrow> (string, string) dict \<Rightarrow> (string, string) dict \<Rightarrow> string" where
  "link_text t flts args =
     ''?'' @ join ''&'' (map (\<lambda>(k, v). tb_prefix t @ ''_'' @ k @ ''='' @ v) (link_params t flts args))"

definition sort_link :: "table \<Rightarrow> column \<Rightarrow> string" where
  "sort_link t c =
     link_text t [] [(''sort'', cl_id c),
       (''order'', if dget (tb_params t) ''sort'' \<noteq> Some (cl_id c) \<or> dget (tb_params t) ''order'' = Some ''desc'' then ''asc'' else ''desc'')]"

definition page_link :: "table \<Rightarrow> int \<Rightarrow> string" where
  "page_link t i = link_text t [] [(''page'', str_int i)]"

subsection \<open>Rows\<close>

definition passes :: "table \<Rightarrow> row_filter list \<Rightarrow> column list \<Rightarrow> nat \<Rightarrow> bool" where
  "passes t ffs cs i \<longleftrightarrow>
     (\<forall>f \<in> set ffs. case (case dget (tb_filters t) (rf_prefix f) of Some v \<Rightarrow> Some v | None \<Rightarrow> rf_default f) of
         None \<Rightarrow> True | Some v \<Rightarrow> v = [] \<or> rf_check f i v)
     \<and> (\<forall>c \<in> set cs. cl_filter c = Some ''auto'' \<longrightarrow>
         (case dget (tb_filters t) (cl_id c) of None \<Rightarrow> True | Some v \<Rightarrow> v = ''disable_filter'' \<or> cl_value c i = v))"

definition sort_column :: "table \<Rightarrow> column list \<Rightarrow> column option" where
  "sort_column t cs =
     (case dget (tb_params t) ''sort'' of None \<Rightarrow> None | Some s \<Rightarrow> find (\<lambda>c. cl_id c = s) (rev cs))"

text \<open>\<open>list.sort\<close> keeps the order of equal rows, with \<open>reverse\<close> as well.\<close>

definition py_sort :: "(nat \<Rightarrow> string) \<Rightarrow> bool \<Rightarrow> nat list \<Rightarrow> nat list" where
  "py_sort key desc xs = (if desc then rev (sort_key key (rev xs)) else sort_key key xs)"

definition row_order :: "table \<Rightarrow> row_filter list \<Rightarrow> column list \<Rightarrow> nat \<Rightarrow> nat list" where
  "row_order t ffs cs n =
     (let order = filter (passes t ffs cs) [0..<n] in
      case sort_column t cs of
        Some c \<Rightarrow> if tb_autosort t then py_sort (cl_value c) (dget (tb_params t) ''order'' = Some ''desc'') order else order
      | None \<Rightarrow> order)"

text \<open>The slice \<open>order[(page-1)*limit:page*limit]\<close>.\<close>

definition shown_rows :: "table \<Rightarrow> row_filter list \<Rightarrow> column list \<Rightarrow> nat \<Rightarrow> nat list" where
  "shown_rows t ffs cs n =
     (let order = row_order t ffs cs n in
      if tb_autosort t \<and> tb_limit t > 0
      then take (nat (tb_limit t)) (drop (nat ((tb_page t - 1) * tb_limit t)) order)
      else order)"

text \<open>\<open>render_scrollbar\<close>: the numbers of the pages, with a link to every page but the one shown.\<close>

definition wheel :: "table \<Rightarrow> int \<Rightarrow> (int \<times> string option) list" where
  "wheel t amount =
     (if tb_limit t = 0 then []
      else map (\<lambda>i. (i, if i = tb_page t then None else Some (page_link t i))) [1..(amount + tb_limit t - 1) div tb_limit t])"

text \<open>\<open>add_autofilter\<close>: a filter with the values of a column as choices.\<close>

definition autofilter :: "column \<Rightarrow> nat \<Rightarrow> row_filter" where
  "autofilter c n =
     \<lparr>rf_prefix = cl_id c, rf_name = cl_name c,
      rf_choices = (''disable_filter'', ''-------'') # map (\<lambda>v. (v, v)) (remdups_adj (sort (map (cl_value c) [0..<n]))),
      rf_check = (\<lambda>i v. v \<noteq> ''disable_filter'' \<and> cl_value c i = v), rf_default = None\<rparr>"

text \<open>The hidden inputs of \<open>render_filters\<close>, which are not escaped.\<close>

definition hidden_inputs :: "table \<Rightarrow> string" where
  "hidden_inputs t =
     concat (map (\<lambda>(k, v). ''<input type=\"hidden\" name=\"'' @ tb_prefix t @ ''_'' @ k @ ''\" value=\"'' @ v @ ''\"/>'')
       (filter (\<lambda>(k, v). k \<noteq> ''page'') (all_params t)))
     @ concat (map (\<lambda>(k, v). ''<input type=\"hidden\" name=\"'' @ k @ ''\" value=\"'' @ v @ ''\"/>'') (tb_other t))"


text \<open>The query of a link as the web server reads it (\<open>urlparse.parse_qsl\<close>); the last value of a name counts.\<close>

definition decode :: "string \<Rightarrow> string" where
  "decode s = unquote (map (\<lambda>c. if c = CHR ''+'' then CHR '' '' else c) s)"

definition name_value :: "string \<Rightarrow> string \<times> string" where
  "name_value p = (case split_on CHR ''='' p of [] \<Rightarrow> ([], []) | k # vs \<Rightarrow> (decode k, decode (join ''='' vs)))"

definition query :: "string \<Rightarrow> (string, string) dict" where
  "query link =
     fold (\<lambda>p. case name_value p of (k, v) \<Rightarrow> dset k v)
       (filter (\<lambda>p. p \<noteq> []) (concat (map (split_on CHR '';'') (split_on CHR ''&'' (tl link))))) []"

subsection \<open>Dicts by their keys\<close>

lemma dget_filter_key: "dget (filter (\<lambda>(k, v). P k) d) k = (if P k then dget d k else None)"
  by (induction d) auto

lemma fold_dset_distinct: "dict_ok (d @ e) \<Longrightarrow> fold (\<lambda>(k, v). dset k v) e d = d @ e"
proof (induction e arbitrary: d)
  case (Cons kv e)
  obtain k v where kv: "kv = (k, v)" by fastforce
  have "k \<notin> set (dkeys d)" using Cons.prems by (auto simp: kv dict_ok_def dkeys_def)
  then have "dset k v d = d @ [(k, v)]" by (rule dset_append_new)
  moreover have "dict_ok ((d @ [(k, v)]) @ e)" using Cons.prems by (simp add: kv)
  ultimately show ?case using Cons.IH [of "d @ [(k, v)]"] by (simp add: kv)
qed simp

lemma dict_ok_fold_dset: "dict_ok d \<Longrightarrow> dict_ok (fold (\<lambda>(k, v) d. if P k v then dset (f k) (g v) d else d) e d)"
proof (induction e arbitrary: d)
  case (Cons kv e)
  then show ?case by (cases kv) simp
qed simp

lemma dict_ok_filter: "dict_ok d \<Longrightarrow> dict_ok (filter P d)"
  by (simp add: dict_ok_def distinct_map_filter)

subsection \<open>A link leads to the same table\<close>

text \<open>The tables that \<open>new_table\<close> makes.\<close>

definition table_ok :: "string option \<Rightarrow> bool \<Rightarrow> table \<Rightarrow> bool" where
  "table_ok ds desc t \<longleftrightarrow> dict_ok (tb_params t) \<and> dict_ok (tb_filters t) \<and> 1 \<le> tb_page t \<and> 0 \<le> tb_limit t
     \<and> (\<forall>k \<in> set (dkeys (tb_params t)). k \<noteq> ''page'' \<and> k \<noteq> ''limit'' \<and> \<not> starts_with ''filter'' k)
     \<and> (\<forall>(k, v) \<in> set (tb_filters t). v \<noteq> ''disable_filter'')
     \<and> (\<forall>s. ds = Some s \<longrightarrow> s \<noteq> [] \<longrightarrow> dget (tb_params t) ''sort'' \<noteq> None)"

lemma dict_ok_own: "dict_ok (own_params pre req)"
  unfolding own_params_def by (rule dict_ok_fold_dset [where g = id, unfolded id_apply]) simp

lemma filter_params_ok: "dict_ok (filter_params ps) \<and> (\<forall>(k, v) \<in> set (filter_params ps). v \<noteq> ''disable_filter'')"
proof -
  have "dict_ok d \<and> (\<forall>(k, v) \<in> set d. v \<noteq> ''disable_filter'') \<Longrightarrow>
     dict_ok (fold (\<lambda>(k, v) d. if starts_with ''filter'' k \<and> v \<noteq> ''disable_filter'' then dset (drop 7 k) v d else d) ps d)
     \<and> (\<forall>(k, v) \<in> set (fold (\<lambda>(k, v) d. if starts_with ''filter'' k \<and> v \<noteq> ''disable_filter'' then dset (drop 7 k) v d else d) ps d).
           v \<noteq> ''disable_filter'')" for d
  proof (induction ps arbitrary: d)
    case (Cons kv ps)
    obtain k v where kv: "kv = (k, v)" by fastforce
    have "\<forall>(a, b) \<in> set (dset (drop 7 k) v d). b \<noteq> ''disable_filter''" if "v \<noteq> ''disable_filter''"
    proof -
      have "(a, b) \<in> set (dset (drop 7 k) v d) \<Longrightarrow> b = v \<or> (a, b) \<in> set d" for a b
        using Cons.prems by (metis dict_ok_dset dget_Some_iff dget_dset option.inject)
      with that Cons.prems show ?thesis by fastforce
    qed
    then show ?case using Cons.IH [of "dset (drop 7 k) v d"] Cons.IH [OF Cons.prems] Cons.prems by (simp add: kv)
  qed simp
  from this [of "[]"] show ?thesis by (simp add: filter_params_def)
qed

definition plain_key :: "string \<Rightarrow> bool" where
  "plain_key k \<longleftrightarrow> k \<noteq> ''page'' \<and> k \<noteq> ''limit'' \<and> \<not> starts_with ''filter'' k"

lemma with_default_ok:
  assumes "dict_ok ps" and "\<forall>k \<in> set (dkeys ps). plain_key k"
  shows "dict_ok (with_default ds desc ps) \<and> (\<forall>k \<in> set (dkeys (with_default ds desc ps)). plain_key k)
    \<and> (\<forall>s. ds = Some s \<longrightarrow> s \<noteq> [] \<longrightarrow> dget (with_default ds desc ps) ''sort'' \<noteq> None)"
proof -
  have "plain_key ''sort''" "plain_key ''order''" by (simp_all add: plain_key_def starts_with_def)
  then show ?thesis using assms by (cases ds) (auto simp: with_default_def)
qed

lemma with_default_same: "(\<forall>s. ds = Some s \<longrightarrow> s \<noteq> [] \<longrightarrow> dget ps ''sort'' \<noteq> None) \<Longrightarrow> with_default ds desc ps = ps"
  by (auto simp: with_default_def split: option.splits)

lemma new_table_ok:
  assumes "new_table dl req pre auto ds desc = Ok t" and "0 \<le> dl"
  shows "table_ok ds desc t" and "tb_prefix t = pre" and "tb_autosort t = auto"
proof -
  let ?ps = "filter (\<lambda>(k, v). k \<noteq> ''page'' \<and> k \<noteq> ''limit'') (filter (\<lambda>(k, v). \<not> starts_with ''filter'' k) (own_params pre req))"
  have t: "tb_params t = with_default ds desc ?ps" "tb_filters t = filter_params (own_params pre req)" "1 \<le> tb_page t" "0 \<le> tb_limit t"
    and rest: "tb_prefix t = pre" "tb_autosort t = auto"
    using assms by (auto simp: new_table_def Let_def outcome_simps)
  have "dict_ok ?ps" by (intro dict_ok_filter dict_ok_own)
  moreover have "\<forall>k \<in> set (dkeys ?ps). plain_key k" by (auto simp: dkeys_def plain_key_def)
  ultimately show "table_ok ds desc t"
    using with_default_ok [of ?ps ds desc] filter_params_ok [of "own_params pre req"] t
    unfolding table_ok_def plain_key_def t(1,2) by blast
  show "tb_prefix t = pre" "tb_autosort t = auto" by (fact rest)+
qed


text \<open>Texts that stand for themselves in a link.\<close>

definition plain_text :: "string \<Rightarrow> bool" where
  "plain_text s \<longleftrightarrow> list_all (\<lambda>c. c \<notin> {CHR ''&'', CHR '';'', CHR ''='', CHR ''%'', CHR ''+'', CHR ''#''}) s"

definition plain_table :: "table \<Rightarrow> bool" where
  "plain_table t \<longleftrightarrow> plain_text (tb_prefix t) \<and> (\<forall>(k, v) \<in> set (tb_params t @ tb_filters t). plain_text k \<and> plain_text v)"

lemma plain_text_append [simp]: "plain_text (s @ r) \<longleftrightarrow> plain_text s \<and> plain_text r"
  by (simp add: plain_text_def)

lemma plain_text_Cons [simp]: "plain_text (c # s) \<longleftrightarrow> c \<notin> {CHR ''&'', CHR '';'', CHR ''='', CHR ''%'', CHR ''+'', CHR ''#''} \<and> plain_text s"
  by (simp add: plain_text_def)

lemma plain_text_Nil [simp]: "plain_text []"
  by (simp add: plain_text_def)

lemma plain_text_str_int [simp]: "plain_text (str_int i)"
proof -
  have digit: "is_digit c" if "c \<in> set (str_nat n)" for c n using str_nat_digits [of n] that by (auto simp: list_all_iff)
  have "plain_text (str_nat n)" for n
    using digit [of "CHR ''&''" n] digit [of "CHR '';''" n] digit [of "CHR ''=''" n] digit [of "CHR ''%''" n]
      digit [of "CHR ''+''" n] digit [of "CHR ''#''" n]
    by (auto simp: plain_text_def list_all_iff is_digit_def code_def)
  moreover have "plain_text (CHR ''-'' # s) = plain_text s" for s by (simp add: plain_text_def)
  ultimately show ?thesis by (simp add: str_int_def)
qed

lemma decode_plain: "plain_text s \<Longrightarrow> decode s = s"
  by (induction s) (auto simp: decode_def plain_text_def)

lemma plain_text_no: "plain_text s \<Longrightarrow> CHR ''&'' \<notin> set s \<and> CHR '';'' \<notin> set s \<and> CHR ''='' \<notin> set s"
  by (auto simp: plain_text_def list_all_iff)

lemma name_value_plain: "plain_text k \<Longrightarrow> plain_text v \<Longrightarrow> name_value (k @ ''='' @ v) = (k, v)"
  using plain_text_no [of k] plain_text_no [of v]
  by (simp add: name_value_def split_on_append split_on_plain decode_plain)

lemma concat_split_plain: "\<forall>x \<in> set xs. c \<notin> set x \<Longrightarrow> concat (map (split_on c) xs) = xs"
  by (induction xs) (auto simp: split_on_plain)

text \<open>A query is read as it was written.\<close>

lemma query_written:
  assumes "dict_ok L" and "L \<noteq> []" and plain: "\<forall>(k, v) \<in> set L. plain_text k \<and> plain_text v"
  shows "query (''?'' @ join ''&'' (map (\<lambda>(k, v). k @ ''='' @ v) L)) = L"
proof -
  let ?f = "\<lambda>(k, v). k @ ''='' @ v :: string"
  have no: "CHR ''&'' \<notin> set x \<and> CHR '';'' \<notin> set x \<and> x \<noteq> []" if "x \<in> set (map ?f L)" for x
    using that plain plain_text_no by fastforce
  have "split_on CHR ''&'' (join ''&'' (map ?f L)) = map ?f L"
    using no assms(2) by (intro split_on_join) auto
  moreover have "concat (map (split_on CHR '';'') (map ?f L)) = map ?f L"
    using no by (intro concat_split_plain) blast
  moreover have "filter (\<lambda>p. p \<noteq> []) (map ?f L) = map ?f L" using no by (simp add: filter_id_conv)
  moreover have "fold (\<lambda>p. case name_value p of (k, v) \<Rightarrow> dset k v) (map ?f L) d = fold (\<lambda>(k, v). dset k v) L d" for d
    using plain by (induction L arbitrary: d) (auto simp: name_value_plain [simplified])
  ultimately show ?thesis using fold_dset_distinct [of "[]" L] assms(1) by (simp add: query_def)
qed

lemma own_written: "dict_ok L \<Longrightarrow> own_params pre (map (\<lambda>(k, v). (pre @ ''_'' @ k, v)) L) = L"
proof -
  have "fold (\<lambda>(k, v) d. if starts_with pre k then dset (drop (length pre + 1) k) v d else d) (map (\<lambda>(k, v). (pre @ ''_'' @ k, v)) L) d
      = fold (\<lambda>(k, v). dset k v) L d" for d
    by (induction L arbitrary: d) (auto simp: starts_with_def)
  then show "dict_ok L \<Longrightarrow> ?thesis" using fold_dset_distinct [of "[]" L] by (simp add: own_params_def)
qed

lemma dict_ok_renamed: "dict_ok L \<Longrightarrow> inj f \<Longrightarrow> dict_ok (map (\<lambda>(k, v). (f k, v)) L)"
proof -
  have "map fst (map (\<lambda>(k, v). (f k, v)) L) = map f (map fst L)" by (simp add: split_def o_def)
  then show "dict_ok L \<Longrightarrow> inj f \<Longrightarrow> ?thesis" by (simp only: dict_ok_def distinct_map) (blast intro: inj_on_subset)
qed

lemma dset_append: "k \<notin> set (dkeys d) \<Longrightarrow> dset k v (d @ e) = d @ dset k v e"
  by (induction d) (auto simp: dkeys_def)

lemma page_params:
  fixes x :: string
  assumes "table_ok ds desc t"
  defines "R \<equiv> tb_params t @ [(''page'', x), (''limit'', str_int (tb_limit t))] @ map (\<lambda>(k, v). (''filter_'' @ k, v)) (tb_filters t)"
  shows "link_params t [] [(''page'', x)] = R" and "dict_ok R"
proof -
  let ?F = "map (\<lambda>(k, v). (''filter_'' @ k, v)) (tb_filters t)"
  have keys: "''page'' \<notin> set (dkeys (tb_params t))" "''limit'' \<notin> set (dkeys (tb_params t))"
    using assms by (auto simp: table_ok_def)
  then have own: "dset ''page'' x (all_params t) = tb_params t @ [(''page'', x), (''limit'', str_int (tb_limit t))]"
    by (simp add: all_params_def dset_append dset_append_new [of "''page''"])
  have dF: "distinct (map fst ?F)" using assms by (simp add: table_ok_def dict_ok_def split_def o_def distinct_map inj_on_def)
  have "y \<notin> fst ` set ?F" if "\<not> starts_with ''filter'' y" for y using that by (auto simp: starts_with_def)
  moreover have "\<not> starts_with ''filter'' ''page''" "\<not> starts_with ''filter'' ''limit''" by (simp_all add: starts_with_def)
  ultimately show ok: "dict_ok R"
    using assms dF keys unfolding table_ok_def dict_ok_def dkeys_def R_def by auto
  have "fold (\<lambda>(k, v). dset (''filter_'' @ k) v) fs d = fold (\<lambda>(k, v). dset k v) (map (\<lambda>(k, v). (''filter_'' @ k, v)) fs) d" for fs d
    by (induction fs arbitrary: d) auto
  from this [of "tb_filters t"] have "link_params t [] [(''page'', x)] = fold (\<lambda>(k, v). dset k v) ?F (dset ''page'' x (all_params t))"
    by (simp add: link_params_def)
  also have "\<dots> = R" using fold_dset_distinct [of "tb_params t @ [(''page'', x), (''limit'', str_int (tb_limit t))]" ?F] ok
    unfolding own R_def by simp
  finally show "link_params t [] [(''page'', x)] = R" .
qed

lemma filter_params_written:
  assumes "\<forall>(k, v) \<in> set fs. v \<noteq> ''disable_filter''" and "\<forall>k \<in> set (dkeys ps). \<not> starts_with ''filter'' k" and "dict_ok fs"
  shows "filter_params (ps @ map (\<lambda>(k, v). (''filter_'' @ k, v)) fs) = fs"
proof -
  let ?step = "\<lambda>(k, v) d. if starts_with ''filter'' k \<and> v \<noteq> ''disable_filter'' then dset (drop 7 k) v d else d"
  have "fold ?step ps d = d" for d using assms(2) by (induction ps arbitrary: d) (auto simp: dkeys_def)
  moreover have "fold ?step (map (\<lambda>(k, v). (''filter_'' @ k, v)) fs) d = fold (\<lambda>(k, v). dset k v) fs d" for d
    using assms(1) by (induction fs arbitrary: d) (auto simp: starts_with_def)
  ultimately show ?thesis using fold_dset_distinct [of "[]" fs] assms(3) by (simp add: filter_params_def)
qed

text \<open>The link of a page.\<close>

lemma page_link_table:
  assumes ok: "table_ok ds desc t" and plain: "plain_table t" and i: "1 \<le> i"
  shows "new_table dl (query (page_link t i)) (tb_prefix t) (tb_autosort t) ds desc = Ok (t\<lparr>tb_page := i, tb_other := []\<rparr>)"
proof -
  let ?ps = "tb_params t @ [(''page'', str_int i), (''limit'', str_int (tb_limit t))]"
  let ?L = "?ps @ map (\<lambda>(k, v). (''filter_'' @ k, v)) (tb_filters t)"
  let ?P = "map (\<lambda>(k, v). (tb_prefix t @ ''_'' @ k, v)) ?L"
  have L: "link_params t [] [(''page'', str_int i)] = ?L" and d: "dict_ok ?L" using page_params [OF ok, of "str_int i"] by simp_all
  have shape: "page_link t i = ''?'' @ join ''&'' (map (\<lambda>(k, v). k @ ''='' @ v) ?P)"
    by (simp add: page_link_def link_text_def L split_def o_def)
  have words: "(k, v) \<in> set (tb_params t) \<Longrightarrow> plain_text k \<and> plain_text v"
    "(k, v) \<in> set (tb_filters t) \<Longrightarrow> plain_text k \<and> plain_text v" for k v
  proof -
    have "\<forall>kv \<in> set (tb_params t @ tb_filters t). plain_text (fst kv) \<and> plain_text (snd kv)"
      using plain unfolding plain_table_def split_def by blast
    from bspec [OF this, of "(k, v)"] show "(k, v) \<in> set (tb_params t) \<Longrightarrow> plain_text k \<and> plain_text v"
      "(k, v) \<in> set (tb_filters t) \<Longrightarrow> plain_text k \<and> plain_text v" by simp_all
  qed
  have "plain_text (tb_prefix t)" using plain by (simp add: plain_table_def)
  then have "\<forall>(k, v) \<in> set ?P. plain_text k \<and> plain_text v" by (auto dest: words)
  moreover have "dict_ok ?P" using d by (rule dict_ok_renamed) (simp add: inj_def)
  ultimately have q: "query (page_link t i) = ?P" unfolding shape by (intro query_written) simp_all
  have own: "own_params (tb_prefix t) (query (page_link t i)) = ?L" unfolding q by (rule own_written [OF d])
  have nf: "\<forall>k \<in> set (dkeys ?ps). \<not> starts_with ''filter'' k" using ok by (auto simp: table_ok_def dkeys_def starts_with_def)
  have fil: "filter_params ?L = tb_filters t"
    using filter_params_written [OF _ nf, of "tb_filters t"] ok by (simp add: table_ok_def)
  have ps: "filter (\<lambda>(k, v). \<not> starts_with ''filter'' k) ?L = ?ps"
  proof -
    have "filter (\<lambda>(k, v). \<not> starts_with ''filter'' k) ?ps = ?ps" using nf by (auto simp: filter_id_conv dkeys_def)
    moreover have "filter (\<lambda>(k, v). \<not> starts_with ''filter'' k) (map (\<lambda>(k, v). (''filter_'' @ k, v)) fs) = []" for fs :: "(string, string) dict"
      by (auto simp: filter_empty_conv starts_with_def)
    ultimately show ?thesis by (simp only: filter_append append_Nil2)
  qed
  have none: "dget (tb_params t) ''page'' = None" "dget (tb_params t) ''limit'' = None"
    using ok unfolding table_ok_def by (metis dget_None_iff)+
  have look: "dget (d @ e) k = (case dget d k of Some v \<Rightarrow> Some v | None \<Rightarrow> dget e k)" for d e :: "(string, string) dict" and k
    by (simp add: dget_def map_add_def split: option.split)
  have nums: "number_of ?ps ''page'' 1 = Ok i" "number_of ?ps ''limit'' dl = Ok (tb_limit t)"
    using none by (simp_all add: number_of_def look parse_int_str_int)
  have rest: "filter (\<lambda>(k, v). k \<noteq> ''page'' \<and> k \<noteq> ''limit'') ?ps = tb_params t"
    using ok by (auto simp: filter_id_conv table_ok_def dkeys_def)
  have other: "other_params (tb_prefix t) (query (page_link t i)) = []"
  proof -
    have "fold (\<lambda>(k, v) d. if starts_with (tb_prefix t) k then d else dset k v d) (map (\<lambda>(k, v). (tb_prefix t @ ''_'' @ k, v)) L) d = d" for L d
      by (induction L arbitrary: d) (auto simp: starts_with_def)
    then show ?thesis unfolding q other_params_def .
  qed
  have sorted: "with_default ds desc (tb_params t) = tb_params t" using ok by (intro with_default_same) (simp add: table_ok_def)
  show ?thesis
    unfolding new_table_def own Let_def ps nums bind_ok.simps rest sorted fil other using ok i by (simp add: table_ok_def)
qed


subsection \<open>The pages\<close>

lemma pages_take: "0 < k \<Longrightarrow> concat (map (\<lambda>i. take k (drop (nat ((i - 1) * int k)) xs)) [1..int m]) = take (m * k) xs"
proof (induction m)
  case (Suc m)
  have "[1..int (Suc m)] = [1..int m] @ [int (Suc m)]" by (simp add: upto_rec2 add.commute)
  moreover have "nat ((int (Suc m) - 1) * int k) = m * k" by (simp add: nat_mult_distrib)
  ultimately show ?case using Suc take_add [of "m * k" k xs] by (simp add: add.commute)
qed simp

lemma sorted_py_sort:
  "sorted_wrt (\<lambda>i j. if desc then key j \<le> key i else key i \<le> key j) (py_sort key desc xs)"
proof -
  have "sorted_wrt (\<lambda>i j. key i \<le> key j) (sort_key key ys)" for ys
    using sorted_sort_key [of key ys] by (simp only: sorted_map)
  from this [of xs] this [of "rev xs"] show ?thesis by (simp add: py_sort_def sorted_wrt_rev)
qed

lemma mset_py_sort: "mset (py_sort key desc xs) = mset xs"
  by (cases desc) (simp_all add: py_sort_def)

text \<open>
  The tables of the views that do not sort by themselves (\<open>AcceptedTable\<close>, \<open>SubmitsTable\<close>) ask the server for the rows of
  their page, \<open>offset=(page-1)*limit\<close>, and take the count of all rows; the server answers \<open>result[offset:offset+limit]\<close>.
\<close>

definition fetched :: "table \<Rightarrow> 'r list \<Rightarrow> 'r list" where
  "fetched t rs = (let offset = (tb_page t - 1) * tb_limit t in take (nat (tb_limit t)) (drop (nat offset) rs))"

text \<open>The number of pages on the wheel is enough for the rows.\<close>

lemma enough_pages:
  assumes "0 < L" and "int k \<le> amount"
  shows "int (nat ((amount + L - 1) div L)) = (amount + L - 1) div L" and "k \<le> nat ((amount + L - 1) div L) * nat L"
proof -
  have "0 \<le> (amount + L - 1) div L" using assms by (simp add: pos_imp_zdiv_nonneg_iff)
  then show m: "int (nat ((amount + L - 1) div L)) = (amount + L - 1) div L" by simp
  have "amount + L - 1 = ((amount + L - 1) div L) * L + (amount + L - 1) mod L" by simp
  moreover have "(amount + L - 1) mod L < L" using assms(1) by simp
  ultimately have "amount \<le> ((amount + L - 1) div L) * L" by linarith
  moreover have "((amount + L - 1) div L) * L = int (nat ((amount + L - 1) div L) * nat L)" using assms(1) m by (simp del: int_nat_eq)
  ultimately have "int k \<le> int (nat ((amount + L - 1) div L) * nat L)" using assms(2) by linarith
  then show "k \<le> nat ((amount + L - 1) div L) * nat L" by (simp only: of_nat_le_iff)
qed

text \<open>What all pages of a wheel show together, when every page shows \<open>f\<close> of its slice.\<close>

lemma wheel_pages:
  assumes limit: "0 < tb_limit t" and amount: "int (length xs) \<le> amount"
    and page: "\<And>i. 1 \<le> i \<Longrightarrow> g (page_link t i) = f (take (nat (tb_limit t)) (drop (nat ((i - 1) * tb_limit t)) xs))"
    and add: "\<And>us vs. f (us @ vs) = f us @ f vs" and nil: "f [] = []"
  shows "concat (map (\<lambda>(i, link). g (page_link t i)) (wheel t amount)) = f xs"
proof -
  let ?L = "tb_limit t"
  let ?m = "nat ((amount + ?L - 1) div ?L)"
  have m: "int ?m = (amount + ?L - 1) div ?L" and enough: "length xs \<le> ?m * nat ?L" using enough_pages [OF limit amount] by simp_all
  have cat: "concat (map f yss) = f (concat yss)" for yss by (induction yss) (simp_all add: add nil)
  have "map (\<lambda>(i, link). g (page_link t i)) (wheel t amount) = map (\<lambda>i. g (page_link t i)) [1..int ?m]"
    using limit m by (simp add: wheel_def o_def)
  also have "\<dots> = map (\<lambda>i. f (take (nat ?L) (drop (nat ((i - 1) * int (nat ?L))) xs))) [1..int ?m]"
    using limit by (intro map_cong refl) (simp add: page)
  also have "\<dots> = map f (map (\<lambda>i. take (nat ?L) (drop (nat ((i - 1) * int (nat ?L))) xs)) [1..int ?m])" by simp
  finally have "concat (map (\<lambda>(i, link). g (page_link t i)) (wheel t amount)) = f (take (?m * nat ?L) xs)"
    using pages_take [of "nat ?L" xs ?m] limit by (simp only: cat)
  with enough show ?thesis by simp
qed

lemma map_nth_filter: "map ((!) xs) (filter (\<lambda>j. P (xs ! j)) [0..<length xs]) = filter P xs"
proof -
  have "filter P (map ((!) xs) [0..<length xs]) = map ((!) xs) (filter (P \<circ> (!) xs) [0..<length xs])" by (rule filter_map)
  then show ?thesis by (simp add: map_nth o_def)
qed

text \<open>
  C37 (pages_complete): Following the link of every page of the wheel shows every row that passes the filters exactly once. The links
  lead to tables with the same filters, order and limit, be the limit one of the request or the default of the class.
  A table that sorts by itself is given all rows: its pages one after the other are the rows that pass, in the order of the
  chosen column, as long as the number given to the wheel is not below their number. A table that does not
  is given the rows of its page by the server and their count: it shows those of them that pass in the order in which they are given, and
  its pages one after the other are all rows of the server that pass.
  The names and values in the links must not contain the characters that separate them, which the code does not quote.
\<close>

theorem pages_complete:
  assumes made: "new_table dl req pre auto ds desc = Ok t" and dl: "0 \<le> dl" and plain: "plain_table t" and limit: "0 < tb_limit t"
  shows "(auto \<and> int (length (row_order t ffs cs n)) \<le> amount \<longrightarrow>
      concat (map (\<lambda>(i, link). case new_table dl (query (page_link t i)) pre auto ds desc of
        Ok t' \<Rightarrow> shown_rows t' ffs cs n | Raise _ \<Rightarrow> []) (wheel t amount)) = row_order t ffs cs n
      \<and> mset (row_order t ffs cs n) = mset (filter (passes t ffs cs) [0..<n])
      \<and> (\<forall>c. sort_column t cs = Some c \<longrightarrow>
          sorted_wrt (\<lambda>i j. if dget (tb_params t) ''order'' = Some ''desc'' then cl_value c j \<le> cl_value c i else cl_value c i \<le> cl_value c j)
            (row_order t ffs cs n)))
    \<and> (\<not> auto \<and> (\<forall>given j. j < length given \<longrightarrow> (passes t (fs given) (cols given) j \<longleftrightarrow> P (given ! j))) \<longrightarrow>
      concat (map (\<lambda>(i, link). case new_table dl (query (page_link t i)) pre auto ds desc of
        Ok t' \<Rightarrow> (let given = fetched t' rs in map ((!) given) (shown_rows t' (fs given) (cols given) (length given)))
      | Raise _ \<Rightarrow> []) (wheel t (int (length rs)))) = filter P rs)"
proof -
  note ok = new_table_ok [OF made dl]
  have page: "new_table dl (query (page_link t i)) pre auto ds desc = Ok (t\<lparr>tb_page := i, tb_other := []\<rparr>)" if "1 \<le> i" for i
    using page_link_table [OF ok(1) plain that] ok(2,3) by simp
  have same: "passes (t\<lparr>tb_page := i, tb_other := []\<rparr>) = passes t" for i by (simp add: passes_def fun_eq_iff)
  have same_order: "row_order (t\<lparr>tb_page := i, tb_other := []\<rparr>) ffs cs n = row_order t ffs cs n" for i
    by (simp add: row_order_def sort_column_def same Let_def split: option.split)
  have sorting: "concat (map (\<lambda>(i, link). case new_table dl (query (page_link t i)) pre auto ds desc of
        Ok t' \<Rightarrow> shown_rows t' ffs cs n | Raise _ \<Rightarrow> []) (wheel t amount)) = row_order t ffs cs n"
    if auto "int (length (row_order t ffs cs n)) \<le> amount"
  proof (rule wheel_pages [where f = "\<lambda>xs. xs" and g = "\<lambda>link. case new_table dl (query link) pre auto ds desc of
        Ok t' \<Rightarrow> shown_rows t' ffs cs n | Raise _ \<Rightarrow> []", OF limit that(2)])
    fix i :: int assume i: "1 \<le> i"
    show "(case new_table dl (query (page_link t i)) pre auto ds desc of Ok t' \<Rightarrow> shown_rows t' ffs cs n | Raise _ \<Rightarrow> [])
        = take (nat (tb_limit t)) (drop (nat ((i - 1) * tb_limit t)) (row_order t ffs cs n))"
      unfolding page [OF i] using limit ok(3) that(1) by (simp add: shown_rows_def same_order Let_def)
  qed simp_all
  have served: "concat (map (\<lambda>(i, link). case new_table dl (query (page_link t i)) pre auto ds desc of
        Ok t' \<Rightarrow> (let given = fetched t' rs in map ((!) given) (shown_rows t' (fs given) (cols given) (length given)))
      | Raise _ \<Rightarrow> []) (wheel t (int (length rs)))) = filter P rs"
    if "\<not> auto" and P: "\<forall>given j. j < length given \<longrightarrow> (passes t (fs given) (cols given) j \<longleftrightarrow> P (given ! j))"
  proof (rule wheel_pages [where f = "filter P" and g = "\<lambda>link. case new_table dl (query link) pre auto ds desc of
        Ok t' \<Rightarrow> (let given = fetched t' rs in map ((!) given) (shown_rows t' (fs given) (cols given) (length given)))
      | Raise _ \<Rightarrow> []", OF limit order_refl])
    fix i :: int assume i: "1 \<le> i"
    let ?given = "take (nat (tb_limit t)) (drop (nat ((i - 1) * tb_limit t)) rs)"
    have given: "fetched (t\<lparr>tb_page := i, tb_other := []\<rparr>) rs = ?given" by (simp add: fetched_def)
    have "filter (passes t (fs ?given) (cols ?given)) [0..<length ?given] = filter (\<lambda>j. P (?given ! j)) [0..<length ?given]"
      using P by (intro filter_cong) auto
    moreover have "shown_rows (t\<lparr>tb_page := i, tb_other := []\<rparr>) (fs ?given) (cols ?given) (length ?given)
        = filter (passes t (fs ?given) (cols ?given)) [0..<length ?given]"
      using ok(3) that(1) by (simp add: shown_rows_def row_order_def same Let_def split: option.split)
    ultimately show "(case new_table dl (query (page_link t i)) pre auto ds desc of
        Ok t' \<Rightarrow> (let given = fetched t' rs in map ((!) given) (shown_rows t' (fs given) (cols given) (length given)))
      | Raise _ \<Rightarrow> []) = filter P ?given"
      by (simp only: page [OF i] given Let_def outcome.case map_nth_filter)
  qed simp_all
  have "mset (row_order t ffs cs n) = mset (filter (passes t ffs cs) [0..<n])"
    by (simp add: row_order_def Let_def mset_py_sort split: option.split)
  moreover have "sorted_wrt (\<lambda>i j. if dget (tb_params t) ''order'' = Some ''desc'' then cl_value c j \<le> cl_value c i else cl_value c i \<le> cl_value c j)
      (row_order t ffs cs n)" if auto "sort_column t cs = Some c" for c
    using that ok(3) sorted_py_sort by (simp add: row_order_def Let_def)
  ultimately show ?thesis using sorting served by blast
qed


text \<open>Five rows, two on a page, without those of one kind, the last name first.\<close>

definition sample_names :: "string list" where
  "sample_names = [''eve'', ''ann'', ''joe'', ''bob'', ''zoe'']"

definition sample_columns :: "column list" where
  "sample_columns =
     [\<lparr>cl_id = ''name'', cl_name = ''Name'', cl_sortable = True, cl_value = (\<lambda>i. sample_names ! i), cl_filter = None\<rparr>,
      \<lparr>cl_id = ''kind'', cl_name = ''Kind'', cl_sortable = False, cl_value = (\<lambda>i. if i = 2 then ''q'' else ''p''), cl_filter = Some ''auto''\<rparr>]"

definition sample_table :: table where
  "sample_table = \<lparr>tb_prefix = ''t'', tb_autosort = True, tb_params = [(''sort'', ''name''), (''order'', ''desc'')], tb_page = 1, tb_limit = 2,
     tb_filters = [(''kind'', ''p'')], tb_other = [(''x'', ''y'')]\<rparr>"

lemma sample_made:
  "new_table 2 [(''t_limit'', ''-1''), (''t_filter_kind'', ''p''), (''x'', ''y'')] ''t'' True (Some ''name'') True = Ok sample_table"
proof -
  have "parse_int ''-1'' = Some (-1)" by code_simp
  then show ?thesis
    by (simp add: new_table_def own_params_def other_params_def filter_params_def starts_with_def number_of_def with_default_def sample_table_def)
qed

lemma sample_rows: "row_order sample_table [] sample_columns 5 = [4, 0, 3, 1]"
proof -
  have "filter (passes sample_table [] sample_columns) [0..<5] = [0, 1, 3, 4]"
    by (simp add: passes_def sample_table_def sample_columns_def upt_rec)
  moreover have "py_sort (\<lambda>i. sample_names ! i) True [0, 1, 3, 4] = [4, 0, 3, 1]" by code_simp
  ultimately show ?thesis by (simp add: row_order_def sort_column_def sample_columns_def sample_table_def)
qed

lemma sample_served:
  "new_table 2 [] ''t'' False None False = Ok \<lparr>tb_prefix = ''t'', tb_autosort = False, tb_params = [], tb_page = 1, tb_limit = 2,
     tb_filters = [], tb_other = []\<rparr>"
  by (simp add: new_table_def own_params_def other_params_def filter_params_def number_of_def with_default_def)

theorem pages_complete_witness:
  "concat (map (\<lambda>(i, link). case new_table 2 (query (page_link sample_table i)) ''t'' True (Some ''name'') True of
       Ok t' \<Rightarrow> shown_rows t' [] sample_columns 5 | Raise _ \<Rightarrow> []) (wheel sample_table 5)) = [4, 0, 3, 1]
   \<and> concat (map (\<lambda>(i, link). case new_table 2 (query (page_link (sample_table\<lparr>tb_autosort := False, tb_params := [], tb_filters := [], tb_other := []\<rparr>) i))
         ''t'' False None False of
       Ok t' \<Rightarrow> (let given = fetched t' sample_names in map ((!) given) (shown_rows t' [] [] (length given)))
     | Raise _ \<Rightarrow> []) (wheel (sample_table\<lparr>tb_autosort := False, tb_params := [], tb_filters := [], tb_other := []\<rparr>) 5)) = sample_names"
proof -
  let ?t = "sample_table\<lparr>tb_autosort := False, tb_params := [], tb_filters := [], tb_other := []\<rparr>"
  have "plain_table sample_table" "0 < tb_limit sample_table" by (simp_all add: plain_table_def sample_table_def)
  from pages_complete [OF sample_made _ this, of "[]" sample_columns 5 5]
  have one: "concat (map (\<lambda>(i, link). case new_table 2 (query (page_link sample_table i)) ''t'' True (Some ''name'') True of
       Ok t' \<Rightarrow> shown_rows t' [] sample_columns 5 | Raise _ \<Rightarrow> []) (wheel sample_table 5)) = [4, 0, 3, 1]"
    by (simp add: sample_rows)
  have made: "new_table 2 [] ''t'' False None False = Ok ?t" using sample_served by (simp add: sample_table_def)
  have "plain_table ?t" "0 < tb_limit ?t" "(0::int) \<le> 2" by (simp_all add: plain_table_def sample_table_def)
  moreover have "\<forall>(given :: string list) j. j < length given \<longrightarrow> (passes ?t [] [] j \<longleftrightarrow> True)" by (simp add: passes_def)
  ultimately have "concat (map (\<lambda>(i, link). case new_table 2 (query (page_link ?t i)) ''t'' False None False of
       Ok t' \<Rightarrow> (let given = fetched t' sample_names in map ((!) given) (shown_rows t' [] [] (length given)))
     | Raise _ \<Rightarrow> []) (wheel ?t (int (length sample_names)))) = filter (\<lambda>_. True) sample_names"
    using pages_complete [OF made, where fs = "\<lambda>_. []" and cols = "\<lambda>_. []" and P = "\<lambda>_. True" and rs = sample_names] by blast
  moreover have "int (length sample_names) = 5" by (simp add: sample_names_def)
  ultimately show ?thesis using one by (simp only: filter_True simp_thms) simp
qed

end
