(* ===== verification/Spec2Isabelle.thy ===== *)
theory Spec2Isabelle
  imports Events_Master_Props Check_Master_Props Agg_Points Ars_Common Ars_Interface Ars_Convert Ars_Copy Ars_Client
    Rights_Closure Export_Call Agg_Board Agg_Baloon Agg_Marks Agg_Sheet Judge_Props
    Load_Models People_Props Entities_Ranking Judge_Generator Printing Dbev_Notifier_Props
    Oa_Client Web_Tables
begin

text \<open>
  A verification library of satori, a contest system in Python 2. The parts of the program that
  carry its own logic, and how they meet:

  \<^item> \<open>src/satori.events\<close>: the event server. A client maps criteria to queues (the mapper), sends
    events and waits on queues (the dispatcher); the master multiplexes the connections
    (the schedulers) and runs the handlers of the commands (\<open>protocol.py\<close>, \<open>master.py\<close>).
  \<^item> \<open>src/satori.core/satori/core/checking\<close>: the checking master. It reads and writes the rows of
    the database (\<open>entities\<close>), receives events of the event server, orders the tests of a submit
    (dispatchers), turns results of tests into a status (reporters), keeps the rankings
    (aggregators) and writes them as tables (\<open>utils.py\<close>). What a problem or a ranking is
    configured with comes from attribute groups (\<open>export/oa.py\<close>) through typed parameters
    (\<open>src/satori.tools/satori/tools/params.py\<close>).
  \<^item> \<open>src/satori.core/satori/core/sec\<close> and \<open>export\<close>: who may do what. Every model declares rights and
    how they follow from each other, from the object it belongs to and from global rights
    (\<open>sec/rights.py\<close>); they become conditions on the database, which \<open>Privilege\<close> asks for the role of
    the caller's token (\<open>sec/token.py\<close>, \<open>entities/Session.py\<close>). An exported method checks the token, converts its
    arguments and tests its condition before it runs (\<open>export/__init__.py\<close>, \<open>pc.py\<close>, \<open>token.py\<close>).
  \<^item> \<open>src/satori.ars\<close>: the remote interface. Types, procedures and services (\<open>model.py\<close>) are
    written as an IDL and read back (\<open>thrift/writer.py\<close>, \<open>thrift/reader.py\<close>); the processor
    (\<open>thrift/processor.py\<close>) sends and receives values of those types; the clients
    (\<open>thrift/client.py\<close>) wrap procedures into functions whose arguments are checked by
    \<open>src/satori.objects\<close>.
  \<^item> \<open>src/satori.judge\<close> and \<open>core/judges\<close>: the judging machine. A loop fetches a test to be judged, runs a judge
    program in a jail and reports what it found; the program talks to a controller outside of the jail.

  Common conventions. An exception of Python is a value of \<open>exn\<close>, an operation that may raise has
  a result of the sum type \<open>exn + 'a\<close>; when it changes objects before it raises, the state is
  returned beside the outcome. A dict is an association list with distinct keys in the order of
  insertion, a set a list without duplicates: where the source iterates over a dict or a set
  whose order Python leaves open, the model takes the order of the list, and the theorems do not
  depend on it unless they say so. Integers are \<open>int\<close> or \<open>nat\<close> as Python's are unbounded; the
  integers on the wire have the width the protocol gives them, with the error of \<open>struct.pack\<close>
  outside of it.

  The theories, their sources, and what their lemmas show:

  \<^enum> \<open>Prelude\<close>, \<open>Codec\<close>, \<open>Py_Strings\<close>, \<open>Utf8\<close>: outcomes, dicts, sets; the contract of a writer and
    a reader (locale \<open>codec\<close>), with composition and lists; \<open>str\<close> methods of Python; the UTF-8 codec
    and its round trip.
  \<^enum> \<open>Events_Base\<close> (\<open>protocol.py\<close>), \<open>Events_Mapper\<close> (\<open>mapper.py\<close>; locale \<open>mapper\<close>),
    \<open>Events_Scheduler\<close> (the schedulers; locale \<open>fd_scheduler\<close>, every ready descriptor is served in
    one round, the registered descriptors are those added and not removed),
    \<open>Events_Dispatcher\<close> (\<open>dispatcher.py\<close>), \<open>Events_Queues\<close> (the abstract dispatcher and the
    refinement), \<open>Events_Delivery\<close> (the contract of the dispatcher: its runs are those of the contract but for
    \<open>detach\<close>, which does nothing where the contract revokes the interest; first in first out per queue, nobody
    starves, one delivery for one waiting), \<open>Events_Master\<close> and \<open>Events_Master_Props\<close>
    (\<open>master.py\<close>: the handlers and the loop, the invariant of reachable masters, errors).
  \<^enum> \<open>Oa_Attributes\<close> (\<open>export/oa.py\<close>; locale \<open>attribute_store\<close>), \<open>Params\<close> (\<open>params.py\<close>; a second
    instance of \<open>codec\<close>), \<open>Rest_Table\<close> (\<open>utils.py\<close>: layout of a cell, parsing of a row).
  \<^enum> \<open>Check_Db\<close> (rows of the database), \<open>Check_Reporters\<close> (\<open>reporters.py\<close>), \<open>Check_Dispatchers\<close>
    (\<open>dispatchers.py\<close>), \<open>Check_Master\<close> and \<open>Check_Master_Props\<close> (\<open>checking/__init__.py\<close>: the
    invariant of the judging queue, order of judging, what happens to a suite whose reporter
    fails), \<open>Aggregators_Base\<close>, \<open>Agg_Acm\<close>, \<open>Agg_Points\<close>, \<open>Agg_Board\<close>, \<open>Agg_Baloon\<close>, \<open>Agg_Marks\<close>,
    \<open>Agg_Sheet\<close> (\<open>aggregators.py\<close>: scores do not depend on the order in which results arrive, what the
    scoreboard counts before and after the freeze, which baloons are sent again after a restart, bounds of marks,
    what a failed request to the spreadsheet leaves behind).
  \<^enum> \<open>Ars_Model\<close>, \<open>Ars_Procedures\<close>, \<open>Ars_Interface\<close>, \<open>Ars_Convert\<close>, \<open>Ars_Copy\<close> (\<open>model.py\<close>: types,
    the two structures of a procedure, dependencies before dependents, conversion of values and
    its round trip, \<open>deepcopy\<close>), \<open>Ars_Common\<close> (\<open>common.py\<close>: the topological writer on an explicit
    store of objects).
  \<^enum> \<open>Ars_Idl\<close>, \<open>Ars_Idl_Props\<close>, \<open>Ars_Idl_Round\<close> (\<open>writer.py\<close>, \<open>reader.py\<close>: reading what was written
    gives the same interface up to object identities), \<open>Ars_Thrift\<close> (\<open>_send\<close>, \<open>_recv\<close>),
    \<open>Ars_Rpc\<close> (\<open>process\<close>, \<open>call\<close>; locale \<open>struct_codec\<close>), \<open>Ars_Client\<close> (\<open>client.py\<close>).
  \<^enum> \<open>Objects_Constraints\<close>, \<open>Objects_Signature\<close>, \<open>Objects_Props\<close> (\<open>satori.objects\<close>: constraints and
    their order, arguments, signatures, the values of a call, dispatch by class).

  \<^enum> \<open>Topsort\<close> (\<open>export/_topsort.py\<close>: a topological order or a cycle), \<open>Rights\<close> (\<open>sec/rights.py\<close>),
    \<open>Rights_Closure\<close> (what \<open>process\<close> computes is the closure of the declarations), \<open>Rights_Access\<close> (the rules
    of access as inductive predicates), \<open>Rights_Equiv\<close> (the conditions of \<open>create_nodes\<close> say what the rules
    say), \<open>Privileges\<close> (\<open>entities/Privilege.py\<close>, \<open>Role.py\<close>, the functions \<open>set_user_id\<close> and
    \<open>update_user_rights\<close> of \<open>dbev/install.py\<close>: granting counts at once, asking agrees with the rules).
  \<^enum> \<open>Sec_Token\<close> (\<open>sec/token.py\<close>, \<open>entities/Session.py\<close>; a third instance of \<open>codec\<close>: a token is read back
    as it was written, an accepted one carries the right hash), \<open>Export_Conditions\<close> (\<open>export/pc.py\<close>, the values of
    \<open>export/types_django.py\<close>), \<open>Export_Call\<close> (\<open>export/__init__.py\<close>, \<open>export/token.py\<close>, the lock of
    \<open>entities/Contest.py\<close>: nothing runs without token and condition, nothing is kept of a call
    that fails).
  \<^enum> \<open>Judge_Path\<close> (\<open>jailPath\<close>), \<open>Judge_Control\<close> (\<open>satori.judge\<close>: the commands of the controller, the result of a
    run, a turn of the loop), \<open>Judge_Simple\<close> (\<open>judges/simple_judge.py\<close>), \<open>Judge_Verdict\<close> (the machine
    with a log of every command and process of a run; the verdict on such a log as an
    inductive relation, locale \<open>judge_link\<close>, the controller as its instance), \<open>Judge_Props\<close> (the status a run
    leaves is the verdict on its log; OK is reported only after a run that fetched, compiled, ran and checked everything, in
    this order), \<open>Judge_Generator\<close> (\<open>judges/generator_judge.py\<close>: the same for a judge that generates its input).

  \<^enum> \<open>Load_Models\<close> (\<open>core/models.py\<close>: every entity module is executed once, after those it imports from; which import error
    a set of modules gets otherwise),
    \<open>Passwords\<close> (\<open>entities/sec.py\<close>: a new hash accepts its password), \<open>Entity_Fields\<close> (\<open>entities/Entity.py\<close>),
    \<open>Accounts\<close> (saving, passwords and \<open>authenticate\<close> of \<open>User\<close>, \<open>Machine\<close> and \<open>Contestant\<close>; locale \<open>account_table\<close>
    with an instance for each), \<open>People\<close> and \<open>People_Props\<close> (users, contestants, roles and the contests they join; the
    names of contestants follow those of their members), \<open>Entities_Judging\<close> (\<open>Judge.py\<close>, \<open>Submit.py\<close>,
    \<open>TemporarySubmit.py\<close>: a result that a judge reports reaches the checking master), \<open>Entities_Ranking\<close>
    (\<open>Ranking.py\<close>).
  \<^enum> \<open>Events_Slave\<close> and \<open>Events_Slave_Props\<close> (\<open>slave2.py\<close>, \<open>client2.py\<close>: the other end of a connection to the event
    server; locale \<open>obedient\<close> with what its clients promise; the queues the slave is attached to are those of its
    table), \<open>Printing\<close> (\<open>core/printing/__init__.py\<close>, a client of the slave: every waiting job is started),
    \<open>Blob_Store\<close> (\<open>core/blob.py\<close>, \<open>entities/Blob.py\<close>: what is put under a name is what is got back).
  \<^enum> \<open>Dbev_Notifier\<close> and \<open>Dbev_Notifier_Props\<close> (\<open>dbev/notifier.py\<close>, \<open>entities/RawEvent.py\<close>: sessions of the database and
    the notifier take turns; events leave the database in whole transactions, each exactly once unless the connection breaks).
  \<^enum> The clients: \<open>Blob_Client\<close> (\<open>client.common/remote.py\<close>, \<open>unwrap.py\<close> and the routes of \<open>core/urls.py\<close>: a file set under an
    attribute is got back as the same file), \<open>Oa_Client\<close> (\<open>oa_map.py\<close>, a second instance of \<open>attribute_store\<close>: a map filled on
    the side of the client stands for the same calls on the server), \<open>Web_Tables\<close> (\<open>web/utils/tables.py\<close>: the pages of a
    table are a partition of its rows, those the table sorts itself and those the server gives it by slices, and the links between
    them keep the rest of the parameters).

  Loops and fuel. \<open>fresh_id\<close> (a random id is drawn until it is new), \<open>row_item\<close> and \<open>do_work\<close> are
  partial functions into \<open>option\<close>: \<open>None\<close> is a loop that does not end, and the theorems about them
  say when it does. The grammar of the IDL and the values on the wire are read by functions
  whose fuel is the number of tokens or of events left; as every step consumes at least one,
  the round trips show that this fuel suffices. The conditions of rights are computed by
  functions that count the frames Python has left: \<open>create_nodes_ends\<close> shows that they are not used up where
  parents and more specific models never lead back to a model. All other recursion is total.

  Parameters: floating point numbers (record \<open>floats\<close>), time stamps, the existence of blobs, the
  descriptors that \<open>select\<close> and \<open>poll\<close> report, the identifiers that are drawn at random,
  \<open>fastbinary\<close> and the encoding of the protocol below its events (locale \<open>struct_codec\<close>, instantiated
  with the pure Python codec of the same file), the transport, \<open>getargspec\<close>, the class hierarchy
  (record \<open>classes\<close>: method resolution order) and the Python functions that implement a
  procedure; AES, base64 and MD5 (record \<open>crypto\<close>), \<open>connectby\<close> of PostgreSQL, the joins Django makes of a path of
  fields, the test whether an address is in a network, and the condition's answers from the database
  (record \<open>site\<close>, with the two readings of the clock that a call makes of its token); for the entities the hash functions and the
  validation of addresses (\<open>hashes\<close>), and what a method finds around it (\<open>asite\<close>, \<open>psite\<close>, \<open>jsite\<close>, \<open>rsite\<close>: clock, drawn
  characters, settings, answers of \<open>Privilege\<close>, protected rows; \<open>bsite\<close> for the blob server); the behaviour of the clients of a slave; the models of the database with their columns (\<open>dbmodels\<close>); on the judging machine the processes, the file transfer and the system calls (records \<open>host\<close>,
  \<open>machine\<close>, \<open>programs\<close>, \<open>judge_env\<close>), and what the aggregators do over the network and with \<open>yaml\<close>. The hypotheses about them (\<open>crypto_ok\<close>, \<open>connectby_ok\<close>, \<open>rows_ok\<close>) state what their
  documentation says, the \<open>sample_\<close> definitions are instances. The \<open>ply\<close> parser is generated from the grammar at run time; the model has its grammar
  and its actions as a recursive descent parser.

  Not modelled: the older slave of the event server, whose clients are generators; the entities that only
  store texts (\<open>Subpage\<close>, \<open>Question\<close>, \<open>Problem\<close>), the external
  identities and the pages of \<open>Web.py\<close>; the conversion of exceptions and the measurements of a call (\<open>ars/perf.py\<close>); the SQL that \<open>dbev/install.py\<close>
  generates for version tables and for the inheritance of rights (as \<open>create_triggers\<close> is commented out there, no row of
  \<open>core_notification\<close> is ever written); the mounting of jails and the control groups of the judging machine (system calls); the web front end but for its tables (views and templates).
\<close>

end
